(* ===== verification/Prelude.thy ===== *)
theory Prelude
  imports Main "HOL-Library.List_Lexorder" "HOL-Library.Char_ord"
    "HOL-Library.Product_Lexorder" "HOL-Library.Multiset"
begin

text \<open>
  What every component of the development shares: the result type in which a Python exception
  is the left summand, the fragment of Python's string methods the sources call, and the generic
  facts on lists and results that carry the component proofs.

  A Python \<^verbatim>\<open>str\<close> is a \<^typ>\<open>string\<close>, one \<^typ>\<open>char\<close> per code point, so the model covers the
  code points 0 to 255. Strings are compared code point by code point as Python compares them,
  which is the lexicographic order of the theories \<open>Char_ord\<close> and \<open>List_Lexorder\<close>; tuples are
  compared component by component (\<open>Product_Lexorder\<close>).
\<close>

named_theorems result_simps \<open>unfolding of the result combinators\<close>

section \<open>Results: a raised exception is a value\<close>

type_synonym ('e, 'a) result = "'e + 'a"

abbreviation Err :: "'e \<Rightarrow> ('e, 'a) result" where "Err \<equiv> Inl"
abbreviation Ok :: "'a \<Rightarrow> ('e, 'a) result" where "Ok \<equiv> Inr"

definition bind_result :: "('e, 'a) result \<Rightarrow> ('a \<Rightarrow> ('e, 'b) result) \<Rightarrow> ('e, 'b) result" where
  "bind_result r f = (case r of Inl e \<Rightarrow> Inl e | Inr a \<Rightarrow> f a)"

definition raise_if :: "bool \<Rightarrow> 'e \<Rightarrow> ('e, unit) result" where
  "raise_if b e = (if b then Inl e else Inr ())"

text \<open>A comprehension whose element expression may raise: the first exception stops it.\<close>

fun traverse :: "('a \<Rightarrow> ('e, 'b) result) \<Rightarrow> 'a list \<Rightarrow> ('e, 'b list) result" where
  "traverse f [] = Inr []"
| "traverse f (x # xs) =
     (case f x of Inl e \<Rightarrow> Inl e
      | Inr y \<Rightarrow> (case traverse f xs of Inl e \<Rightarrow> Inl e | Inr ys \<Rightarrow> Inr (y # ys)))"

definition is_ok :: "('e, 'a) result \<Rightarrow> bool" where
  "is_ok r = (case r of Inl _ \<Rightarrow> False | Inr _ \<Rightarrow> True)"

lemma bind_result_simps [simp, result_simps]:
  "bind_result (Inl e) f = Inl e" "bind_result (Inr a) f = f a"
  by (simp_all add: bind_result_def)

lemma bind_result_eq_Inr [result_simps]:
  "bind_result r f = Inr b \<longleftrightarrow> (\<exists>a. r = Inr a \<and> f a = Inr b)"
  by (cases r) auto

lemma bind_result_InrE:
  assumes "bind_result r f = Inr b"
  obtains a where "r = Inr a" and "f a = Inr b"
  using assms by (auto simp: bind_result_eq_Inr)

lemma raise_if_eq_Inr [simp, result_simps]: "raise_if b e = Inr u \<longleftrightarrow> \<not> b"
  by (auto simp: raise_if_def)

lemma raise_if_eq_Inl [simp, result_simps]: "raise_if b e = Inl e' \<longleftrightarrow> b \<and> e' = e"
  by (auto simp: raise_if_def)

lemma raise_if_False [simp, result_simps]: "\<not> b \<Longrightarrow> raise_if b e = Inr ()"
  by (simp add: raise_if_def)

lemma raise_if_True [simp, result_simps]: "b \<Longrightarrow> raise_if b e = Inl e"
  by (simp add: raise_if_def)

lemma is_ok_simps [simp]: "\<not> is_ok (Inl e)" "is_ok (Inr a)"
  by (simp_all add: is_ok_def)

lemma is_ok_iff: "is_ok r \<longleftrightarrow> (\<exists>a. r = Inr a)"
  by (cases r) auto

lemma traverse_eq_Inr:
  "traverse f xs = Inr ys \<longleftrightarrow> list_all2 (\<lambda>x y. f x = Inr y) xs ys"
proof (induction xs arbitrary: ys)
  case Nil
  then show ?case by auto
next
  case (Cons x xs)
  show ?case
  proof (cases "traverse f xs")
    case (Inl e)
    then have "\<not> list_all2 (\<lambda>x y. f x = Inr y) xs zs" for zs
      using Cons.IH by (metis sum.distinct(1))
    with Inl show ?thesis by (auto simp: list_all2_Cons1 split: sum.splits)
  next
    case (Inr zs)
    then have "list_all2 (\<lambda>x y. f x = Inr y) xs vs \<longleftrightarrow> vs = zs" for vs
      using Cons.IH by (metis sum.inject(2))
    with Inr show ?thesis by (auto simp: list_all2_Cons1 split: sum.splits)
  qed
qed

lemma traverse_pure [simp]: "traverse (\<lambda>x. Inr (g x)) xs = Inr (map g xs)"
  by (induction xs) auto

section \<open>Python strings\<close>

text \<open>The characters \<^verbatim>\<open>str.strip()\<close> removes, among the code points 0 to 255.\<close>

definition is_py_space :: "char \<Rightarrow> bool" where
  "is_py_space c = (of_char c \<in> {9, 10, 11, 12, 13, 28, 29, 30, 31, 32, 133, 160 :: nat})"

definition py_lstrip :: "string \<Rightarrow> string" where
  "py_lstrip s = dropWhile is_py_space s"

definition py_strip :: "string \<Rightarrow> string" where
  "py_strip s = rev (dropWhile is_py_space (rev (dropWhile is_py_space s)))"

text \<open>Truth value of a \<^verbatim>\<open>str | None\<close>: both \<^verbatim>\<open>None\<close> and the empty string are false.\<close>

definition truthy :: "string option \<Rightarrow> bool" where
  "truthy s = (case s of None \<Rightarrow> False | Some t \<Rightarrow> t \<noteq> [])"

lemma truthy_simps [simp]: "\<not> truthy None" "truthy (Some t) \<longleftrightarrow> t \<noteq> []"
  by (simp_all add: truthy_def)

lemma truthy_iff: "truthy s \<longleftrightarrow> (\<exists>t. s = Some t \<and> t \<noteq> [])"
  by (cases s) auto

lemma py_strip_eq_Nil_iff: "py_strip s = [] \<longleftrightarrow> (\<forall>c \<in> set s. is_py_space c)"
proof -
  have "py_strip s = [] \<longleftrightarrow> (\<forall>c \<in> set (dropWhile is_py_space s). is_py_space c)"
    by (simp add: py_strip_def)
  also have "\<dots> \<longleftrightarrow> (\<forall>c \<in> set s. is_py_space c)"
    by (induction s) auto
  finally show ?thesis .
qed

text \<open>\<^verbatim>\<open>s.split(sep)\<close> for a one-character separator: never empty, one piece per separator plus one.\<close>

fun py_split :: "char \<Rightarrow> string \<Rightarrow> string list" where
  "py_split sep [] = [[]]"
| "py_split sep (c # s) =
     (if c = sep then [] # py_split sep s
      else (case py_split sep s of [] \<Rightarrow> [[c]] | p # ps \<Rightarrow> (c # p) # ps))"

text \<open>\<^verbatim>\<open>sep.join(parts)\<close>.\<close>

fun py_join :: "string \<Rightarrow> string list \<Rightarrow> string" where
  "py_join sep [] = []"
| "py_join sep [p] = p"
| "py_join sep (p # q # ps) = p @ sep @ py_join sep (q # ps)"

text \<open>
  \<^verbatim>\<open>s.rpartition(sep)\<close> for a one-character separator: the text before the last occurrence, whether
  there was one, and the text after it; with no occurrence the text before is empty.
\<close>

fun py_rpartition :: "char \<Rightarrow> string \<Rightarrow> string \<times> bool \<times> string" where
  "py_rpartition sep [] = ([], False, [])"
| "py_rpartition sep (c # s) =
     (case py_rpartition sep s of
        (before, True, after) \<Rightarrow> (c # before, True, after)
      | (before, False, after) \<Rightarrow> (if c = sep then ([], True, s) else ([], False, c # s)))"

lemma py_split_not_Nil [simp]: "py_split sep s \<noteq> []"
  by (induction s) (auto split: list.splits)

lemma py_split_no_sep: "sep \<notin> set s \<Longrightarrow> py_split sep s = [s]"
  by (induction s) auto

lemma py_split_append_sep:
  "sep \<notin> set p \<Longrightarrow> py_split sep (p @ sep # s) = p # py_split sep s"
  by (induction p) auto

lemma py_split_join:
  "\<lbrakk>ps \<noteq> []; \<And>p. p \<in> set ps \<Longrightarrow> sep \<notin> set p\<rbrakk> \<Longrightarrow> py_split sep (py_join [sep] ps) = ps"
  by (induction "[sep]" ps rule: py_join.induct) (auto simp: py_split_no_sep py_split_append_sep)

lemma py_rpartition_no_sep: "sep \<notin> set s \<Longrightarrow> py_rpartition sep s = ([], False, s)"
  by (induction s) auto

lemma py_rpartition_append:
  "sep \<notin> set t \<Longrightarrow> py_rpartition sep (s @ sep # t) = (s, True, t)"
  by (induction s) (auto simp: py_rpartition_no_sep)

lemma py_rpartition_found:
  "py_rpartition sep s = (before, True, after) \<Longrightarrow> s = before @ sep # after"
proof (induction s arbitrary: before)
  case Nil
  then show ?case by simp
next
  case (Cons c s)
  obtain b f a where parts: "py_rpartition sep s = (b, f, a)" by (cases "py_rpartition sep s")
  with Cons show ?case by (cases f) (auto split: if_splits)
qed

lemma py_join_split: "py_join [sep] (py_split sep s) = s"
proof (induction s)
  case Nil
  then show ?case by simp
next
  case (Cons c s)
  obtain p ps where "py_split sep s = p # ps"
    using py_split_not_Nil by (cases "py_split sep s") auto
  with Cons show ?case by (cases ps) auto
qed

section \<open>Lists\<close>

lemma filter_neq_key_set [simp]:
  "set (filter (\<lambda>x. k x \<noteq> i) xs) = {x \<in> set xs. k x \<noteq> i}"
  by simp

lemma set_map_filter: "set (List.map_filter f xs) = {y. \<exists>x \<in> set xs. f x = Some y}"
  by (induction xs) (auto simp: map_filter_simps split: option.splits)

lemma distinct_map_filter_append:
  assumes "distinct (map k xs)" and "k y = i"
  shows "distinct (map k (filter (\<lambda>x. k x \<noteq> i) xs @ [y]))"
  using assms by (auto simp: distinct_map intro: inj_on_subset)

lemma find_Some_mem: "List.find P xs = Some x \<Longrightarrow> x \<in> set xs \<and> P x"
  by (auto simp: find_Some_iff)

lemma find_key_distinct:
  assumes "distinct (map k xs)" and "x \<in> set xs"
  shows "List.find (\<lambda>y. k y = k x) xs = Some x"
  using assms
proof (induction xs)
  case Nil
  then show ?case by simp
next
  case (Cons y ys)
  show ?case
  proof (cases "x = y")
    case True
    then show ?thesis by simp
  next
    case False
    with Cons.prems have x: "x \<in> set ys" by simp
    then have "k x \<in> k ` set ys" by (rule imageI)
    with Cons.prems have "k y \<noteq> k x" by auto
    with x Cons show ?thesis by simp
  qed
qed

lemma sum_list_map_less:
  assumes "\<And>y. f y \<le> (g y :: nat)" and "x \<in> set xs" and "f x < g x"
  shows "sum_list (map f xs) < sum_list (map g xs)"
  using assms(2)
proof (induction xs)
  case Nil
  then show ?case by simp
next
  case (Cons y ys)
  have le: "sum_list (map f ys) \<le> sum_list (map g ys)"
    by (intro sum_list_mono) (rule assms(1))
  from Cons.prems consider "y = x" | "x \<in> set ys" by auto
  then show ?case
  proof cases
    case 1
    with assms(3) le show ?thesis by simp
  next
    case 2
    with Cons.IH assms(1) [of y] show ?thesis by simp
  qed
qed

lemma distinct_key_eq:
  "\<lbrakk>distinct (map k xs); x \<in> set xs; y \<in> set xs; k x = k y\<rbrakk> \<Longrightarrow> x = y"
  by (auto simp: distinct_map inj_on_def)

lemma distinct_const_length:
  assumes "distinct (map k xs)" and "\<forall>x \<in> set xs. k x = c"
  shows "length xs \<le> 1"
proof -
  have "set (map k xs) \<subseteq> {c}" using assms(2) by auto
  then have "card (set (map k xs)) \<le> card {c}" by (intro card_mono) simp_all
  with distinct_card [OF assms(1)] show ?thesis by simp
qed

text \<open>Dropping the element with a given key from a list whose keys are distinct.\<close>

lemma mset_drop_key:
  assumes "distinct (map k xs)" and "x \<in> set xs"
  shows "mset (map f (filter (\<lambda>y. k y \<noteq> k x) xs)) + {#f x#} = mset (map f xs)"
  using assms
proof (induction xs)
  case Nil
  then show ?case by simp
next
  case (Cons y ys)
  show ?case
  proof (cases "y = x")
    case True
    with Cons.prems have "k x \<notin> k ` set ys" by simp
    then have "\<forall>z \<in> set ys. k z \<noteq> k x" by (metis imageI)
    then have "filter (\<lambda>z. k z \<noteq> k x) ys = ys" by (rule filter_True)
    with True show ?thesis by simp
  next
    case False
    with Cons.prems have "x \<in> set ys" by simp
    then have "k x \<in> k ` set ys" by (rule imageI)
    with Cons.prems have "k y \<noteq> k x" by auto
    with Cons \<open>x \<in> set ys\<close> show ?thesis by simp
  qed
qed

lemma sum_list_drop_key:
  assumes "distinct (map k xs)" and "x \<in> set xs"
  shows "sum_list (map f xs) = sum_list (map f (filter (\<lambda>y. k y \<noteq> k x) xs)) + (f x :: nat)"
  using mset_drop_key [OF assms, of f]
  by (metis sum_mset_sum_list sum_mset.union sum_mset.singleton)

end
