(* ===== verification/Py_Values.thy ===== *)
theory Py_Values
  imports Prelude
begin

text \<open>
  The objects that cross a parse boundary of the program: what the JSON and YAML readers hand to
  the \<^verbatim>\<open>from_mapping\<close> functions, and what \<^verbatim>\<open>to_mapping\<close> writes. A mapping is an association list in
  insertion order with string keys. Floating-point numbers do not occur in the payloads that are
  modelled here and have no constructor.
\<close>

datatype pyval =
    PNone
  | PBool bool
  | PInt int
  | PStr string
  | PList "pyval list"
  | PTuple "pyval list"
  | PDict "(string \<times> pyval) list"

section \<open>Truth value and text of an object\<close>

fun py_truth :: "pyval \<Rightarrow> bool" where
  "py_truth PNone = False"
| "py_truth (PBool b) = b"
| "py_truth (PInt i) = (i \<noteq> 0)"
| "py_truth (PStr s) = (s \<noteq> [])"
| "py_truth (PList vs) = (vs \<noteq> [])"
| "py_truth (PTuple vs) = (vs \<noteq> [])"
| "py_truth (PDict kvs) = (kvs \<noteq> [])"

definition digit_char :: "nat \<Rightarrow> char" where
  "digit_char d = (if d < 10 then char_of (48 + d) else char_of (87 + d))"

fun decimal :: "nat \<Rightarrow> string" where
  "decimal n = (if n < 10 then [digit_char n] else decimal (n div 10) @ [digit_char (n mod 10)])"

declare decimal.simps [simp del]

text \<open>The number a string of decimal digits stands for.\<close>

definition digits_number :: "string \<Rightarrow> nat" where
  "digits_number s = foldl (\<lambda>a c. a * 10 + (of_char c - 48)) 0 s"

lemma digits_number_decimal: "digits_number (decimal n) = n"
proof (induction n rule: less_induct)
  case (less n)
  show ?case
  proof (cases "n < 10")
    case True
    then show ?thesis by (simp add: decimal.simps [of n] digits_number_def digit_char_def)
  next
    case False
    then have "digits_number (decimal (n div 10)) = n div 10" by (intro less.IH) simp
    then have "foldl (\<lambda>a c. a * 10 + (of_char c - 48)) 0 (decimal (n div 10)) = n div 10"
      by (simp add: digits_number_def)
    moreover have "n mod 10 < 10" by simp
    ultimately show ?thesis
      using False by (simp add: decimal.simps [of n] digits_number_def digit_char_def)
  qed
qed

definition is_digit :: "char \<Rightarrow> bool" where
  "is_digit c \<longleftrightarrow> 48 \<le> (of_char c :: nat) \<and> (of_char c :: nat) \<le> 57"

lemma decimal_nonempty [simp]: "decimal n \<noteq> []"
  by (simp add: decimal.simps [of n])

lemma decimal_digits: "c \<in> set (decimal n) \<Longrightarrow> is_digit c"
proof (induction n arbitrary: c rule: less_induct)
  case (less n)
  have digit: "is_digit (digit_char d)" if "d < 10" for d
    using that by (simp add: is_digit_def digit_char_def)
  show ?case
  proof (cases "n < 10")
    case True
    then show ?thesis using less.prems digit by (simp add: decimal.simps [of n])
  next
    case False
    then show ?thesis using less.prems less.IH [of "n div 10"] digit [of "n mod 10"]
      by (auto simp: decimal.simps [of n])
  qed
qed

definition py_str_int :: "int \<Rightarrow> string" where
  "py_str_int i = (if i < 0 then CHR ''-'' # decimal (nat (- i)) else decimal (nat i))"

text \<open>
  \<^verbatim>\<open>repr\<close> of a string: single quotes unless the text holds one and no double quote, a backslash
  before the quote and before a backslash, and an escape for what is not printable.
\<close>

definition py_quote :: "string \<Rightarrow> char" where
  "py_quote s = (if CHR 0x27 \<in> set s \<and> CHR 0x22 \<notin> set s then CHR 0x22 else CHR 0x27)"

definition py_escape :: "char \<Rightarrow> char \<Rightarrow> string" where
  "py_escape q c =
     (let n = of_char c :: nat in
      if c = q \<or> c = CHR 0x5C then [CHR 0x5C, c]
      else if n = 9 then [CHR 0x5C, CHR ''t'']
      else if n = 10 then [CHR 0x5C, CHR ''n'']
      else if n = 13 then [CHR 0x5C, CHR ''r'']
      else if n < 32 \<or> (127 \<le> n \<and> n \<le> 160) \<or> n = 173
      then [CHR 0x5C, CHR ''x'', digit_char (n div 16), digit_char (n mod 16)]
      else [c])"

definition py_repr_str :: "string \<Rightarrow> string" where
  "py_repr_str s = (let q = py_quote s in q # concat (map (py_escape q) s) @ [q])"

fun py_repr :: "pyval \<Rightarrow> string" where
  "py_repr PNone = ''None''"
| "py_repr (PBool b) = (if b then ''True'' else ''False'')"
| "py_repr (PInt i) = py_str_int i"
| "py_repr (PStr s) = py_repr_str s"
| "py_repr (PList vs) = ''['' @ py_join '', '' (map py_repr vs) @ '']''"
| "py_repr (PTuple vs) =
     (case vs of [v] \<Rightarrow> ''('' @ py_repr v @ '',)''
      | _ \<Rightarrow> ''('' @ py_join '', '' (map py_repr vs) @ '')'')"
| "py_repr (PDict kvs) =
     ''{'' @ py_join '', '' (map (\<lambda>(k, v). py_repr_str k @ '': '' @ py_repr v) kvs) @ ''}''"

fun py_str :: "pyval \<Rightarrow> string" where
  "py_str (PStr s) = s"
| "py_str v = py_repr v"

section \<open>Mappings\<close>

type_synonym payload = "(string \<times> pyval) list"

text \<open>\<^verbatim>\<open>payload.get(key, default)\<close>.\<close>

definition get_or :: "payload \<Rightarrow> string \<Rightarrow> pyval \<Rightarrow> pyval" where
  "get_or d k v = (case map_of d k of None \<Rightarrow> v | Some w \<Rightarrow> w)"

lemma get_or_Cons [simp]: "get_or ((k, v) # d) j w = (if j = k then v else get_or d j w)"
  by (simp add: get_or_def)

lemma get_or_Nil [simp]: "get_or [] j w = w"
  by (simp add: get_or_def)

text \<open>The elements of a list or a tuple: what \<^verbatim>\<open>isinstance(value, list | tuple)\<close> admits.\<close>

definition sequence_items :: "pyval \<Rightarrow> pyval list option" where
  "sequence_items v = (case v of PList vs \<Rightarrow> Some vs | PTuple vs \<Rightarrow> Some vs | _ \<Rightarrow> None)"

lemma sequence_items_simps [simp]:
  "sequence_items (PList vs) = Some vs" "sequence_items (PTuple vs) = Some vs"
  "sequence_items (PStr s) = None" "sequence_items PNone = None"
  "sequence_items (PBool b) = None" "sequence_items (PInt i) = None"
  "sequence_items (PDict d) = None"
  by (simp_all add: sequence_items_def)

lemma map_py_str_PStr [simp]: "map (py_str \<circ> PStr) xs = xs"
  by (induction xs) auto

end
