(* ===== verification/Scratchpad_Parts.thy ===== *)
theory Scratchpad_Parts
  imports Py_Values Complex_Main
begin

text \<open>
  Canvas geometry (\<^verbatim>\<open>src/domain/scratchpad/geometry.py\<close>). A coordinate is a rational number: every
  finite Python float is one, comparisons and products are read exactly, and
  \<^verbatim>\<open>round(value / GRID)\<close> is the half-to-even rounding of the exact quotient.
\<close>

section \<open>Definitions\<close>

definition GRID :: int where
  "GRID = 5"

text \<open>Python's \<^verbatim>\<open>round\<close>: to the nearest integer, a tie to the even one.\<close>

definition py_round :: "rat \<Rightarrow> int" where
  "py_round x =
     (let f = \<lfloor>x\<rfloor>; d = x - of_int f in
      if d < 1/2 then f else if 1/2 < d then f + 1 else if even f then f else f + 1)"

definition snap :: "rat \<Rightarrow> int" where
  "snap value = py_round (value / of_int GRID) * GRID"

record point =
  px :: rat
  py :: rat

record rect =
  rx :: rat
  ry :: rat
  width :: rat
  height :: rat

definition contains :: "rect \<Rightarrow> point \<Rightarrow> bool" where
  "contains r p \<longleftrightarrow>
     rx r \<le> px p \<and> px p < rx r + width r \<and> ry r \<le> py p \<and> py p < ry r + height r"

definition snap_point :: "point \<Rightarrow> point" where
  "snap_point p = \<lparr>px = of_int (snap (px p)), py = of_int (snap (py p))\<rparr>"

definition snap_rect :: "rect \<Rightarrow> rect" where
  "snap_rect r = \<lparr>rx = of_int (snap (rx r)), ry = of_int (snap (ry r)),
                  width = of_int (snap (width r)), height = of_int (snap (height r))\<rparr>"

section \<open>Rounding and the grid\<close>

lemma py_round_of_int [simp]: "py_round (of_int i) = i"
  by (simp add: py_round_def)

lemma py_round_near: "\<bar>of_int (py_round x) - x\<bar> \<le> 1/2"
proof -
  define f where "f = (of_int \<lfloor>x\<rfloor> :: rat)"
  have "f \<le> x" and "x < f + 1"
    unfolding f_def by linarith+
  moreover have "of_int (py_round x) = (if x - f < 1/2 then f else if 1/2 < x - f then f + 1
      else if even \<lfloor>x\<rfloor> then f else f + 1)"
    by (simp add: py_round_def Let_def f_def)
  ultimately show ?thesis by (simp split: if_splits)
qed

lemma py_round_mono:
  assumes "x \<le> y"
  shows "py_round x \<le> py_round y"
proof (cases "\<lfloor>x\<rfloor> = \<lfloor>y\<rfloor>")
  case True
  with assms show ?thesis by (auto simp: py_round_def Let_def)
next
  case False
  with assms have "\<lfloor>x\<rfloor> + 1 \<le> \<lfloor>y\<rfloor>" using floor_mono [OF assms] by linarith
  moreover have "py_round x \<le> \<lfloor>x\<rfloor> + 1" and "\<lfloor>y\<rfloor> \<le> py_round y"
    by (auto simp: py_round_def Let_def)
  ultimately show ?thesis by linarith
qed

lemma snap_on_grid: "GRID dvd snap v"
  by (simp add: snap_def)

lemma snap_idem: "snap (of_int (snap v)) = snap v"
proof -
  have "(of_int (snap v) :: rat) / of_int GRID = of_int (py_round (v / of_int GRID))"
    by (simp add: snap_def GRID_def)
  then have "py_round (of_int (snap v) / of_int GRID) = py_round (v / of_int GRID)"
    by (simp only: py_round_of_int)
  then show ?thesis unfolding snap_def by simp
qed

lemma snap_near: "\<bar>of_int (snap v) - v\<bar> \<le> 5/2"
  using py_round_near [of "v / of_int GRID"]
  by (simp add: snap_def GRID_def abs_if field_simps split: if_splits)

lemma snap_mono: "u \<le> v \<Longrightarrow> snap u \<le> snap v"
  by (simp add: snap_def GRID_def py_round_mono divide_right_mono)

lemma snap_point_idem [simp]: "snap_point (snap_point p) = snap_point p"
  by (simp add: snap_point_def snap_idem)

lemma snap_rect_idem [simp]: "snap_rect (snap_rect r) = snap_rect r"
  by (simp add: snap_rect_def snap_idem)

section \<open>The parts of a scratchpad\<close>

text \<open>
  The values a scratchpad is made of (\<^verbatim>\<open>src/domain/scratchpad/parts.py\<close>) and the refusals of the
  aggregate. \<^verbatim>\<open>Destination\<close> and \<^verbatim>\<open>ModelRefKind\<close> are \<^verbatim>\<open>Literal\<close> types, which nothing enforces when the
  program runs, so both are strings here and the code's own comparisons decide.
\<close>

subsection \<open>Values\<close>

definition DESTINATIONS :: "string list" where
  "DESTINATIONS = [''undecided'', ''element'', ''document'', ''none'']"

definition UNFILED :: string where
  "UNFILED = ''unfiled''"

definition parse_destination :: "pyval \<Rightarrow> string" where
  "parse_destination raw =
     (let s = (if py_truth raw then py_str raw else ''undecided'') in
      if s = ''element'' then ''element''
      else if s = ''document'' then ''document''
      else if s = ''none'' then ''none''
      else ''undecided'')"

record model_ref =
  ref_artifact_id :: string
  ref_kind :: string

record pad_note =
  note_id :: string
  title :: string
  body :: string
  destination :: string
  domain :: "string option"
  element_type :: "string option"
  specialization :: "string option"
  document_type :: "string option"
  note_ref :: "model_ref option"
  note_attributes :: payload

record link =
  link_id :: string
  source :: string
  target :: string
  connection_type :: "string option"
  link_ref :: "model_ref option"

record area =
  area_id :: string
  area_label :: string
  permitted_domains :: "string list"
  permitted_element_types :: "string list"
  permitted_document_types :: "string list"

record group =
  group_id :: string
  group_label :: string
  members :: "string list"

record layout =
  area_rects :: "string \<rightharpoonup> rect"
  note_points :: "string \<rightharpoonup> point"
  group_rects :: "string \<rightharpoonup> rect"

definition empty_layout :: layout where
  "empty_layout = \<lparr>area_rects = Map.empty, note_points = Map.empty, group_rects = Map.empty\<rparr>"

definition snapped :: "layout \<Rightarrow> layout" where
  "snapped l = \<lparr>area_rects = map_option snap_rect \<circ> area_rects l,
                note_points = map_option snap_point \<circ> note_points l,
                group_rects = map_option snap_rect \<circ> group_rects l\<rparr>"

subsection \<open>Refusals\<close>

text \<open>One constructor per \<^verbatim>\<open>raise ScratchpadError\<close>, carrying the values its message quotes.\<close>

datatype scratchpad_error =
    NoteWithoutTitle string
  | DuplicateNote string
  | UnknownDestination string string
  | DocumentWithElementType string string
  | DocumentTypeElsewhere string string string
  | ReferenceNotElement string string string
  | ReferenceWithoutType string string
  | BoundTwice string string string
  | DuplicateLink string
  | UnknownEndpoint string string string
  | SelfLink string string
  | DuplicateArea string
  | GroupCollidesWithArea string
  | UnknownMember string string
  | MemberOfTwoGroups string string
  | GroupSpansAreas string "string list"
  | NoSuchNote string
  | NoSuchLink string
  | TypeFromReference string string bool
  | TiedToReference string string bool
  | NotRealized string
  | AlreadyRealized string string
  | NotBound string
  | RealizedNotBound string string
  | MetaOntologyWhileTyped "string list"

subsection \<open>Facts\<close>

lemma parse_destination_in: "parse_destination raw \<in> set DESTINATIONS"
  by (simp add: parse_destination_def DESTINATIONS_def Let_def)

lemma parse_destination_PStr:
  "d \<in> set DESTINATIONS \<Longrightarrow> parse_destination (PStr d) = d"
  by (auto simp: parse_destination_def DESTINATIONS_def Let_def)

lemma snapped_idem [simp]: "snapped (snapped l) = snapped l"
  by (simp add: snapped_def fun_eq_iff option.map_comp comp_def)

end
