(* ===== verification/Scratchpad_Invariants.thy ===== *)
theory Scratchpad_Invariants
  imports Scratchpad_Parts
begin

text \<open>
  What must hold of a scratchpad (\<^verbatim>\<open>src/domain/scratchpad/invariants.py\<close>). The three validators are
  loops that stop at the first violation; each is shown to accept exactly the parts that satisfy
  a declarative condition (\<open>notes_ok\<close>, \<open>links_ok\<close>, \<open>groups_ok\<close>).
\<close>

section \<open>Notes\<close>

definition validate_destination :: "pad_note \<Rightarrow> (scratchpad_error, unit) result" where
  "validate_destination n =
     (if destination n \<notin> set DESTINATIONS
      then Err (UnknownDestination (note_id n) (destination n))
      else if destination n = ''document'' \<and> truthy (element_type n)
      then Err (DocumentWithElementType (note_id n) (the (element_type n)))
      else if truthy (document_type n) \<and> destination n \<noteq> ''document''
      then Err (DocumentTypeElsewhere (note_id n) (the (document_type n)) (destination n))
      else Ok ())"

text \<open>\<open>bound_entities\<close> maps an artifact id to the id of the note already bound to it.\<close>

definition validate_model_ref ::
    "pad_note \<Rightarrow> (string \<rightharpoonup> string) \<Rightarrow> (scratchpad_error, string \<rightharpoonup> string) result" where
  "validate_model_ref n bound_entities =
     (case note_ref n of
        None \<Rightarrow> Ok bound_entities
      | Some r \<Rightarrow>
          if destination n \<noteq> ''element''
          then Err (ReferenceNotElement (note_id n) (ref_artifact_id r) (destination n))
          else if \<not> truthy (element_type n)
          then Err (ReferenceWithoutType (note_id n) (ref_artifact_id r))
          else if ref_kind r \<noteq> ''bound'' then Ok bound_entities
          else (case bound_entities (ref_artifact_id r) of
                  Some previous \<Rightarrow> Err (BoundTwice previous (note_id n) (ref_artifact_id r))
                | None \<Rightarrow> Ok (bound_entities(ref_artifact_id r \<mapsto> note_id n))))"

fun validate_notes_from ::
    "pad_note list \<Rightarrow> string set \<Rightarrow> (string \<rightharpoonup> string) \<Rightarrow> (scratchpad_error, string set) result" where
  "validate_notes_from [] seen bound_entities = Ok seen"
| "validate_notes_from (n # ns) seen bound_entities =
     (if py_strip (title n) = [] then Err (NoteWithoutTitle (note_id n))
      else if note_id n \<in> seen then Err (DuplicateNote (note_id n))
      else bind_result (validate_destination n) (\<lambda>_.
        bind_result (if note_ref n \<noteq> None then validate_model_ref n bound_entities
                     else Ok bound_entities) (\<lambda>bound'.
          validate_notes_from ns (insert (note_id n) seen) bound')))"

definition validated_notes :: "pad_note list \<Rightarrow> (scratchpad_error, string set) result" where
  "validated_notes notes = validate_notes_from notes {} Map.empty"

section \<open>Links\<close>

fun validate_links_from ::
    "link list \<Rightarrow> string set \<Rightarrow> string set \<Rightarrow> (scratchpad_error, unit) result" where
  "validate_links_from [] note_ids seen = Ok ()"
| "validate_links_from (l # ls) note_ids seen =
     (if link_id l \<in> seen then Err (DuplicateLink (link_id l))
      else if source l \<notin> note_ids then Err (UnknownEndpoint (link_id l) ''source'' (source l))
      else if target l \<notin> note_ids then Err (UnknownEndpoint (link_id l) ''target'' (target l))
      else if source l = target l then Err (SelfLink (link_id l) (source l))
      else validate_links_from ls note_ids (insert (link_id l) seen))"

definition validated_links :: "link list \<Rightarrow> string set \<Rightarrow> (scratchpad_error, unit) result" where
  "validated_links links note_ids = validate_links_from links note_ids {}"

section \<open>Areas and groups\<close>

fun validate_areas_from :: "area list \<Rightarrow> string set \<Rightarrow> (scratchpad_error, string set) result" where
  "validate_areas_from [] area_ids = Ok area_ids"
| "validate_areas_from (a # as) area_ids =
     (if area_id a \<in> area_ids then Err (DuplicateArea (area_id a))
      else validate_areas_from as (insert (area_id a) area_ids))"

text \<open>\<open>claimed\<close> maps a note id to the id of the group that already has it.\<close>

fun claim_members ::
    "string \<Rightarrow> string list \<Rightarrow> string set \<Rightarrow> (string \<rightharpoonup> string)
      \<Rightarrow> (scratchpad_error, string \<rightharpoonup> string) result" where
  "claim_members gid [] note_ids claimed = Ok claimed"
| "claim_members gid (m # ms) note_ids claimed =
     (if m \<notin> note_ids then Err (UnknownMember gid m)
      else (case claimed m of
              Some g \<Rightarrow> Err (MemberOfTwoGroups m g)
            | None \<Rightarrow> claim_members gid ms note_ids (claimed(m \<mapsto> gid))))"

fun validate_groups_from ::
    "group list \<Rightarrow> string set \<Rightarrow> string set \<Rightarrow> (string \<Rightarrow> string) \<Rightarrow> (string \<rightharpoonup> string)
      \<Rightarrow> (scratchpad_error, unit) result" where
  "validate_groups_from [] area_ids note_ids area_of claimed = Ok ()"
| "validate_groups_from (g # gs) area_ids note_ids area_of claimed =
     (if group_id g \<in> area_ids then Err (GroupCollidesWithArea (group_id g))
      else bind_result (claim_members (group_id g) (members g) note_ids claimed) (\<lambda>claimed'.
        let spanned = area_of ` set (members g) in
        if 1 < card spanned then Err (GroupSpansAreas (group_id g) (sorted_list_of_set spanned))
        else validate_groups_from gs area_ids note_ids area_of claimed'))"

definition validated_groups ::
    "group list \<Rightarrow> area list \<Rightarrow> string set \<Rightarrow> (string \<Rightarrow> string) \<Rightarrow> (scratchpad_error, unit) result"
where
  "validated_groups groups areas note_ids area_of =
     bind_result (validate_areas_from areas {}) (\<lambda>area_ids.
       validate_groups_from groups area_ids note_ids area_of Map.empty)"

section \<open>The conditions the loops decide\<close>

definition is_bound :: "pad_note \<Rightarrow> bool" where
  "is_bound n \<longleftrightarrow> (\<exists>r. note_ref n = Some r \<and> ref_kind r = ''bound'')"

definition bound_artifact :: "pad_note \<Rightarrow> string" where
  "bound_artifact n = (case note_ref n of None \<Rightarrow> [] | Some r \<Rightarrow> ref_artifact_id r)"

definition note_ok :: "pad_note \<Rightarrow> bool" where
  "note_ok n \<longleftrightarrow>
     py_strip (title n) \<noteq> [] \<and>
     destination n \<in> set DESTINATIONS \<and>
     (destination n = ''document'' \<longrightarrow> \<not> truthy (element_type n)) \<and>
     (truthy (document_type n) \<longrightarrow> destination n = ''document'') \<and>
     (note_ref n \<noteq> None \<longrightarrow> destination n = ''element'' \<and> truthy (element_type n))"

definition notes_ok :: "pad_note list \<Rightarrow> bool" where
  "notes_ok ns \<longleftrightarrow> (\<forall>n \<in> set ns. note_ok n) \<and> distinct (map note_id ns) \<and>
     distinct (map bound_artifact (filter is_bound ns))"

definition links_ok :: "link list \<Rightarrow> string set \<Rightarrow> bool" where
  "links_ok ls note_ids \<longleftrightarrow> distinct (map link_id ls) \<and>
     (\<forall>l \<in> set ls. source l \<in> note_ids \<and> target l \<in> note_ids \<and> source l \<noteq> target l)"

definition groups_ok :: "group list \<Rightarrow> area list \<Rightarrow> string set \<Rightarrow> (string \<Rightarrow> string) \<Rightarrow> bool" where
  "groups_ok gs as note_ids area_of \<longleftrightarrow>
     distinct (map area_id as) \<and>
     (\<forall>g \<in> set gs. group_id g \<notin> area_id ` set as \<and> set (members g) \<subseteq> note_ids \<and>
        (\<forall>m \<in> set (members g). \<forall>m' \<in> set (members g). area_of m = area_of m')) \<and>
     distinct (concat (map members gs))"

section \<open>The validators decide the conditions\<close>

text \<open>How the map of bound artifacts grows over a validated note.\<close>

definition record_binding :: "pad_note \<Rightarrow> (string \<rightharpoonup> string) \<Rightarrow> (string \<rightharpoonup> string)" where
  "record_binding n b = (if is_bound n then b(bound_artifact n \<mapsto> note_id n) else b)"

lemma dom_record_binding [simp]:
  "dom (record_binding n b) = (if is_bound n then insert (bound_artifact n) (dom b) else dom b)"
  by (simp add: record_binding_def)

lemma validate_destination_iff:
  "validate_destination n = Inr u \<longleftrightarrow>
     destination n \<in> set DESTINATIONS \<and>
     (destination n = ''document'' \<longrightarrow> \<not> truthy (element_type n)) \<and>
     (truthy (document_type n) \<longrightarrow> destination n = ''document'')"
  by (auto simp: validate_destination_def)

lemma validate_model_ref_iff:
  "(if note_ref n \<noteq> None then validate_model_ref n b else Ok b) = Inr b' \<longleftrightarrow>
     (note_ref n \<noteq> None \<longrightarrow> destination n = ''element'' \<and> truthy (element_type n)) \<and>
     (is_bound n \<longrightarrow> bound_artifact n \<notin> dom b) \<and> b' = record_binding n b"
  by (auto simp: validate_model_ref_def is_bound_def bound_artifact_def record_binding_def
      split: option.splits if_splits)

lemma validate_notes_from_Cons_iff:
  "validate_notes_from (n # ns) seen b = Inr ids \<longleftrightarrow>
     note_ok n \<and> note_id n \<notin> seen \<and> (is_bound n \<longrightarrow> bound_artifact n \<notin> dom b) \<and>
     validate_notes_from ns (insert (note_id n) seen) (record_binding n b) = Inr ids"
proof -
  have "validate_notes_from (n # ns) seen b = Inr ids \<longleftrightarrow>
     py_strip (title n) \<noteq> [] \<and> note_id n \<notin> seen \<and> (\<exists>u. validate_destination n = Inr u) \<and>
     (\<exists>b'. (if note_ref n \<noteq> None then validate_model_ref n b else Ok b) = Inr b' \<and>
        validate_notes_from ns (insert (note_id n) seen) b' = Inr ids)"
    by (simp add: bind_result_eq_Inr)
  then show ?thesis
    unfolding validate_destination_iff validate_model_ref_iff note_ok_def by blast
qed

lemma validate_notes_from_iff:
  "validate_notes_from ns seen b = Inr ids \<longleftrightarrow>
     notes_ok ns \<and> note_id ` set ns \<inter> seen = {} \<and>
     (\<forall>n \<in> set ns. is_bound n \<longrightarrow> bound_artifact n \<notin> dom b) \<and> ids = seen \<union> note_id ` set ns"
proof (induction ns arbitrary: seen b)
  case Nil
  show ?case by (auto simp: notes_ok_def)
next
  case (Cons n ns)
  have step: "notes_ok (n # ns) \<longleftrightarrow> note_ok n \<and> note_id n \<notin> note_id ` set ns \<and>
      (is_bound n \<longrightarrow> bound_artifact n \<notin> bound_artifact ` {m \<in> set ns. is_bound m}) \<and>
      notes_ok ns"
    by (auto simp: notes_ok_def)
  have fresh: "bound_artifact n \<notin> bound_artifact ` {m \<in> set ns. is_bound m} \<longleftrightarrow>
      (\<forall>m \<in> set ns. is_bound m \<longrightarrow> bound_artifact m \<noteq> bound_artifact n)"
    by (simp add: image_iff) metis
  show ?case
    unfolding validate_notes_from_Cons_iff Cons.IH step fresh by auto
qed

lemma validated_notes_iff:
  "validated_notes ns = Inr ids \<longleftrightarrow> notes_ok ns \<and> ids = note_id ` set ns"
  by (simp add: validated_notes_def validate_notes_from_iff)

text \<open>The loop is compositional: what it does after an accepted prefix.\<close>

lemma validate_notes_from_append:
  "validate_notes_from xs seen b = Inr ids \<Longrightarrow>
   validate_notes_from (xs @ ys) seen b = validate_notes_from ys ids (fold record_binding xs b)"
proof (induction xs arbitrary: seen b)
  case Nil
  then show ?case by simp
next
  case (Cons n ns)
  then have n: "note_ok n" "note_id n \<notin> seen" "is_bound n \<longrightarrow> bound_artifact n \<notin> dom b"
    and ns: "validate_notes_from ns (insert (note_id n) seen) (record_binding n b) = Inr ids"
    unfolding validate_notes_from_Cons_iff by auto
  have "validate_destination n = Inr ()"
    using n(1) by (simp add: validate_destination_iff note_ok_def)
  moreover have "(if note_ref n \<noteq> None then validate_model_ref n b else Ok b) = Inr (record_binding n b)"
    using n(1,3) unfolding validate_model_ref_iff by (auto simp: note_ok_def)
  ultimately show ?case
    using n(1,2) Cons.IH [OF ns] by (simp add: note_ok_def)
qed

lemma validate_links_from_iff:
  "validate_links_from ls note_ids seen = Inr u \<longleftrightarrow>
     links_ok ls note_ids \<and> link_id ` set ls \<inter> seen = {}"
  by (induction ls arbitrary: seen) (auto simp: links_ok_def)

lemma validated_links_iff: "validated_links ls note_ids = Inr u \<longleftrightarrow> links_ok ls note_ids"
  by (simp add: validated_links_def validate_links_from_iff)

lemma validate_areas_from_iff:
  "validate_areas_from as seen = Inr ids \<longleftrightarrow>
     distinct (map area_id as) \<and> area_id ` set as \<inter> seen = {} \<and> ids = seen \<union> area_id ` set as"
  by (induction as arbitrary: seen) auto

lemma claim_members_iff:
  "claim_members gid ms note_ids claimed = Inr claimed' \<longleftrightarrow>
     set ms \<subseteq> note_ids \<and> distinct ms \<and> set ms \<inter> dom claimed = {} \<and>
     claimed' = (\<lambda>m. if m \<in> set ms then Some gid else claimed m)"
proof (induction ms arbitrary: claimed)
  case Nil
  show ?case by auto
next
  case (Cons m ms)
  have upd: "(\<lambda>x. if x \<in> set ms then Some gid else (claimed(m \<mapsto> gid)) x) =
      (\<lambda>x. if x \<in> set (m # ms) then Some gid else claimed x)"
    by (auto simp: fun_eq_iff)
  show ?case
  proof (cases "claimed m")
    case None
    then show ?thesis by (auto simp: Cons.IH upd dom_def split: if_splits)
  next
    case (Some g)
    then show ?thesis by auto
  qed
qed

lemma card_le_1_iff: "finite S \<Longrightarrow> \<not> Suc 0 < card S \<longleftrightarrow> (\<forall>x \<in> S. \<forall>y \<in> S. x = y)"
  by (metis card_le_Suc0_iff_eq not_less)

definition group_ok :: "string set \<Rightarrow> string set \<Rightarrow> (string \<Rightarrow> string) \<Rightarrow> group \<Rightarrow> bool" where
  "group_ok area_ids note_ids area_of g \<longleftrightarrow>
     group_id g \<notin> area_ids \<and> set (members g) \<subseteq> note_ids \<and>
     (\<forall>m \<in> set (members g). \<forall>m' \<in> set (members g). area_of m = area_of m')"

lemma validate_groups_from_Cons_iff:
  "validate_groups_from (g # gs) area_ids note_ids area_of claimed = Inr u \<longleftrightarrow>
     group_ok area_ids note_ids area_of g \<and> distinct (members g) \<and>
     set (members g) \<inter> dom claimed = {} \<and>
     validate_groups_from gs area_ids note_ids area_of
       (\<lambda>m. if m \<in> set (members g) then Some (group_id g) else claimed m) = Inr u"
proof -
  have one: "\<not> Suc 0 < card (area_of ` set (members g)) \<longleftrightarrow>
      (\<forall>m \<in> set (members g). \<forall>m' \<in> set (members g). area_of m = area_of m')"
    using card_le_1_iff [of "area_of ` set (members g)"] by simp
  have "validate_groups_from (g # gs) area_ids note_ids area_of claimed = Inr u \<longleftrightarrow>
      group_id g \<notin> area_ids \<and> (\<exists>claimed'.
        claim_members (group_id g) (members g) note_ids claimed = Inr claimed' \<and>
        \<not> Suc 0 < card (area_of ` set (members g)) \<and>
        validate_groups_from gs area_ids note_ids area_of claimed' = Inr u)"
    by (auto simp: bind_result_eq_Inr Let_def)
  then show ?thesis
    unfolding claim_members_iff one group_ok_def by blast
qed

lemma validate_groups_from_iff:
  "validate_groups_from gs area_ids note_ids area_of claimed = Inr u \<longleftrightarrow>
     (\<forall>g \<in> set gs. group_ok area_ids note_ids area_of g) \<and>
     distinct (concat (map members gs)) \<and> set (concat (map members gs)) \<inter> dom claimed = {}"
proof (induction gs arbitrary: claimed)
  case Nil
  show ?case by simp
next
  case (Cons g gs)
  have dom: "dom (\<lambda>m. if m \<in> set (members g) then Some (group_id g) else claimed m) =
      dom claimed \<union> set (members g)"
    by (auto simp: dom_def)
  show ?case
    unfolding validate_groups_from_Cons_iff Cons.IH dom by auto
qed

lemma validated_groups_iff:
  "validated_groups gs as note_ids area_of = Inr u \<longleftrightarrow> groups_ok gs as note_ids area_of"
  by (auto simp: validated_groups_def bind_result_eq_Inr validate_areas_from_iff
      validate_groups_from_iff groups_ok_def group_ok_def)

lemmas validator_iffs = validated_notes_iff validated_links_iff validated_groups_iff

end
