(* ===== verification/Aggregate.thy ===== *)
theory Aggregate
  imports Prelude
begin

text \<open>
  The contract of an aggregate whose every mutation ends in its own validation: commands that
  either refuse or hand out a state that holds. What follows for whole sessions of commands is
  proved once here and reached by interpretation on the aggregates of the model.
\<close>

fun run_all :: "('c \<Rightarrow> 's \<Rightarrow> ('e, 's) result) \<Rightarrow> 'c list \<Rightarrow> 's \<Rightarrow> ('e, 's) result" where
  "run_all exec [] s = Ok s"
| "run_all exec (c # cs) s = bind_result (exec c s) (run_all exec cs)"

lemma run_all_append:
  "run_all exec (cs @ ds) s = bind_result (run_all exec cs s) (run_all exec ds)"
proof (induction cs arbitrary: s)
  case Nil
  show ?case by simp
next
  case (Cons c cs)
  then show ?case by (cases "exec c s") simp_all
qed

locale validated_aggregate =
  fixes holds :: "'s \<Rightarrow> bool"
    and exec :: "'c \<Rightarrow> 's \<Rightarrow> ('e, 's) result"
  assumes exec_holds: "exec c s = Inr s' \<Longrightarrow> holds s'"
begin

lemma session_holds:
  "\<lbrakk>holds s; run_all exec cs s = Inr s'\<rbrakk> \<Longrightarrow> holds s'"
  by (induction cs arbitrary: s) (auto simp: bind_result_eq_Inr dest: exec_holds)

lemma nonempty_session_holds:
  "\<lbrakk>cs \<noteq> []; run_all exec cs s = Inr s'\<rbrakk> \<Longrightarrow> holds s'"
  by (cases cs) (auto simp: bind_result_eq_Inr dest: exec_holds session_holds)

end

text \<open>
  An aggregate with a measure of unsettled work: wherever some is left, one of the settling
  commands is accepted, lowers it, and keeps what settling may not touch. Then a session of settling
  commands that finishes the work exists from every state that holds.
\<close>

locale settling_aggregate = validated_aggregate +
  fixes unsettled :: "'a \<Rightarrow> nat"
    and settling :: "'b \<Rightarrow> bool"
    and keeps :: "'a \<Rightarrow> 'a \<Rightarrow> bool"
  assumes keeps_refl: "keeps s s"
    and keeps_trans: "\<lbrakk>keeps s t; keeps t u\<rbrakk> \<Longrightarrow> keeps s u"
    and settles: "\<lbrakk>holds s; unsettled s \<noteq> 0\<rbrakk> \<Longrightarrow>
      \<exists>c s'. settling c \<and> exec c s = Inr s' \<and> unsettled s' < unsettled s \<and> keeps s s'"
begin

lemma settling_session:
  assumes "holds s"
  shows "\<exists>cs s'. run_all exec cs s = Inr s' \<and> holds s' \<and> unsettled s' = 0 \<and>
    length cs \<le> unsettled s \<and> list_all settling cs \<and> keeps s s'"
  using assms
proof (induction "unsettled s" arbitrary: s rule: less_induct)
  case less
  show ?case
  proof (cases "unsettled s = 0")
    case True
    then have "run_all exec [] s = Inr s \<and> holds s \<and> unsettled s = 0 \<and>
        length [] \<le> unsettled s \<and> list_all settling [] \<and> keeps s s"
      using less.prems keeps_refl by simp
    then show ?thesis by blast
  next
    case False
    with less.prems settles obtain c t where c: "settling c" "exec c s = Inr t"
        "unsettled t < unsettled s" "keeps s t"
      by blast
    from less.hyps [OF c(3) exec_holds [OF c(2)]] obtain cs s' where
      cs: "run_all exec cs t = Inr s'" "holds s'" "unsettled s' = 0" "length cs \<le> unsettled t"
        "list_all settling cs" "keeps t s'"
      by blast
    with c have "run_all exec (c # cs) s = Inr s' \<and> length (c # cs) \<le> unsettled s \<and>
        list_all settling (c # cs)"
      by simp
    with cs(2,3) keeps_trans [OF c(4) cs(6)] show ?thesis by blast
  qed
qed

end

end
