(* ===== verification/Scratchpad_Root.thy ===== *)
theory Scratchpad_Root
  imports Scratchpad_Invariants Aggregate
begin

text \<open>
  The aggregate root (\<^verbatim>\<open>src/domain/scratchpad/scratchpad.py\<close>): lookups, the spatial derivation of
  areas, validation, and every write. A method that returns a new aggregate is a function from
  the old one to a result; \<^verbatim>\<open>ScratchpadError\<close> is the left summand.
\<close>

section \<open>The aggregate\<close>

record scratchpad =
  artifact_id :: string
  pad_name :: string
  description :: string
  version :: string
  status :: string
  meta_ontology :: string
  attributes :: payload
  pad_areas :: "area list"
  pad_notes :: "pad_note list"
  pad_links :: "link list"
  pad_groups :: "group list"
  pad_layout :: layout

definition find_note :: "scratchpad \<Rightarrow> string \<Rightarrow> pad_note option" where
  "find_note s i = List.find (\<lambda>n. note_id n = i) (pad_notes s)"

definition find_area :: "scratchpad \<Rightarrow> string \<Rightarrow> area option" where
  "find_area s i = List.find (\<lambda>a. area_id a = i) (pad_areas s)"

text \<open>The frames that contain a point, each with the extent the smallest is chosen by.\<close>

definition containing :: "scratchpad \<Rightarrow> point \<Rightarrow> (rat \<times> string) list" where
  "containing s p = List.map_filter (\<lambda>a.
     case area_rects (pad_layout s) (area_id a) of
       None \<Rightarrow> None
     | Some r \<Rightarrow> if contains r p then Some (width r * height r, area_id a) else None) (pad_areas s)"

definition area_of :: "scratchpad \<Rightarrow> string \<Rightarrow> string" where
  "area_of s i =
     (case note_points (pad_layout s) i of
        None \<Rightarrow> UNFILED
      | Some p \<Rightarrow> (let c = containing s p in if c = [] then UNFILED else snd (Min (set c))))"

definition notes_in :: "scratchpad \<Rightarrow> string \<Rightarrow> pad_note list" where
  "notes_in s aid = filter (\<lambda>n. area_of s (note_id n) = aid) (pad_notes s)"

definition validate :: "scratchpad \<Rightarrow> (scratchpad_error, unit) result" where
  "validate s =
     bind_result (validated_notes (pad_notes s)) (\<lambda>note_ids.
     bind_result (validated_links (pad_links s) note_ids) (\<lambda>_.
       validated_groups (pad_groups s) (pad_areas s) note_ids (area_of s)))"

definition validated :: "scratchpad \<Rightarrow> (scratchpad_error, scratchpad) result" where
  "validated candidate = bind_result (validate candidate) (\<lambda>_. Ok candidate)"

section \<open>Writes\<close>

definition place_note :: "string \<Rightarrow> point \<Rightarrow> layout \<Rightarrow> layout" where
  "place_note i p l = l\<lparr>note_points := (note_points l)(i \<mapsto> snap_point p)\<rparr>"

definition with_note :: "scratchpad \<Rightarrow> pad_note \<Rightarrow> point option \<Rightarrow> (scratchpad_error, scratchpad) result"
where
  "with_note s n place =
     (let others = filter (\<lambda>m. note_id m \<noteq> note_id n) (pad_notes s);
          l = (case place of None \<Rightarrow> pad_layout s | Some p \<Rightarrow> place_note (note_id n) p (pad_layout s))
      in validated (s\<lparr>pad_notes := others @ [n], pad_layout := l\<rparr>))"

definition without_note :: "scratchpad \<Rightarrow> string \<Rightarrow> (scratchpad_error, scratchpad) result" where
  "without_note s i =
     (case find_note s i of
        None \<Rightarrow> Err (NoSuchNote i)
      | Some _ \<Rightarrow> validated (s\<lparr>
          pad_notes := filter (\<lambda>n. note_id n \<noteq> i) (pad_notes s),
          pad_links := filter (\<lambda>l. i \<noteq> source l \<and> i \<noteq> target l) (pad_links s),
          pad_groups := map (\<lambda>g. g\<lparr>members := filter (\<lambda>m. m \<noteq> i) (members g)\<rparr>) (pad_groups s),
          pad_layout := (pad_layout s)\<lparr>note_points := (note_points (pad_layout s))(i := None)\<rparr>\<rparr>))"

definition with_link :: "scratchpad \<Rightarrow> link \<Rightarrow> (scratchpad_error, scratchpad) result" where
  "with_link s l =
     validated (s\<lparr>pad_links := filter (\<lambda>k. link_id k \<noteq> link_id l) (pad_links s) @ [l]\<rparr>)"

definition without_link :: "scratchpad \<Rightarrow> string \<Rightarrow> (scratchpad_error, scratchpad) result" where
  "without_link s i =
     (if \<not> (\<exists>l \<in> set (pad_links s). link_id l = i) then Err (NoSuchLink i)
      else validated (s\<lparr>pad_links := filter (\<lambda>l. link_id l \<noteq> i) (pad_links s)\<rparr>))"

definition moved :: "scratchpad \<Rightarrow> string \<Rightarrow> point \<Rightarrow> (scratchpad_error, scratchpad) result" where
  "moved s i p =
     (case find_note s i of
        None \<Rightarrow> Err (NoSuchNote i)
      | Some _ \<Rightarrow> validated (s\<lparr>pad_layout := place_note i p (pad_layout s)\<rparr>))"

definition typed ::
    "scratchpad \<Rightarrow> string \<Rightarrow> string \<Rightarrow> string option \<Rightarrow> (scratchpad_error, scratchpad) result" where
  "typed s i etype spec =
     (case find_note s i of
        None \<Rightarrow> Err (NoSuchNote i)
      | Some n \<Rightarrow> (case note_ref n of
          Some r \<Rightarrow> Err (TypeFromReference i (ref_artifact_id r) (ref_kind r = ''bound''))
        | None \<Rightarrow> with_note s (n\<lparr>destination := ''element'', element_type := Some etype,
                                specialization := spec\<rparr>) None))"

definition narrowed :: "scratchpad \<Rightarrow> string \<Rightarrow> string \<Rightarrow> (scratchpad_error, scratchpad) result" where
  "narrowed s i dm =
     (case find_note s i of
        None \<Rightarrow> Err (NoSuchNote i)
      | Some n \<Rightarrow> (case note_ref n of
          Some r \<Rightarrow> Err (TypeFromReference i (ref_artifact_id r) (ref_kind r = ''bound''))
        | None \<Rightarrow> with_note s (n\<lparr>destination := ''element'', domain := Some dm,
                                element_type := None, specialization := None,
                                document_type := None\<rparr>) None))"

definition documented :: "scratchpad \<Rightarrow> string \<Rightarrow> string \<Rightarrow> (scratchpad_error, scratchpad) result" where
  "documented s i dtype =
     (case find_note s i of
        None \<Rightarrow> Err (NoSuchNote i)
      | Some n \<Rightarrow> (case note_ref n of
          Some r \<Rightarrow> Err (TiedToReference i (ref_artifact_id r) (ref_kind r = ''bound''))
        | None \<Rightarrow> with_note s (n\<lparr>destination := ''document'', document_type := Some dtype,
                                domain := None, element_type := None,
                                specialization := None\<rparr>) None))"

definition undecide :: "pad_note \<Rightarrow> pad_note" where
  "undecide n = n\<lparr>destination := ''undecided'', domain := None, element_type := None,
                 specialization := None, document_type := None\<rparr>"

definition untyped :: "scratchpad \<Rightarrow> string \<Rightarrow> (scratchpad_error, scratchpad) result" where
  "untyped s i =
     (case find_note s i of
        None \<Rightarrow> Err (NoSuchNote i)
      | Some n \<Rightarrow> (case note_ref n of
          Some r \<Rightarrow> Err (TiedToReference i (ref_artifact_id r) (ref_kind r = ''bound''))
        | None \<Rightarrow> validated (s\<lparr>
            pad_notes := map (\<lambda>m. if note_id m = i then undecide m else m) (pad_notes s),
            pad_links := map (\<lambda>l. if i = source l \<or> i = target l
                               then l\<lparr>connection_type := None\<rparr> else l) (pad_links s)\<rparr>)))"

definition forgotten :: "scratchpad \<Rightarrow> string \<Rightarrow> (scratchpad_error, scratchpad) result" where
  "forgotten s i =
     (case find_note s i of
        None \<Rightarrow> Err (NoSuchNote i)
      | Some n \<Rightarrow> (case note_ref n of
          None \<Rightarrow> Err (NotRealized i)
        | Some r \<Rightarrow> if ref_kind r \<noteq> ''realized'' then Err (NotRealized i)
                    else with_note s (n\<lparr>note_ref := None\<rparr>) None))"

definition bound ::
    "scratchpad \<Rightarrow> string \<Rightarrow> string \<Rightarrow> string \<Rightarrow> (scratchpad_error, scratchpad) result" where
  "bound s i aid etype =
     (case find_note s i of
        None \<Rightarrow> Err (NoSuchNote i)
      | Some n \<Rightarrow>
          if note_ref n \<noteq> None \<and> ref_kind (the (note_ref n)) = ''realized''
          then Err (AlreadyRealized i (ref_artifact_id (the (note_ref n))))
          else with_note s (n\<lparr>destination := ''element'', element_type := Some etype,
                 note_ref := Some \<lparr>ref_artifact_id = aid, ref_kind = ''bound''\<rparr>\<rparr>) None)"

definition unbound :: "scratchpad \<Rightarrow> string \<Rightarrow> (scratchpad_error, scratchpad) result" where
  "unbound s i =
     (case find_note s i of
        None \<Rightarrow> Err (NoSuchNote i)
      | Some n \<Rightarrow> (case note_ref n of
          None \<Rightarrow> Err (NotBound i)
        | Some r \<Rightarrow>
            if ref_kind r = ''realized'' then Err (RealizedNotBound i (ref_artifact_id r))
            else with_note s (n\<lparr>destination := ''undecided'', domain := None, element_type := None,
                              specialization := None, note_ref := None\<rparr>) None))"

definition is_typed :: "pad_note \<Rightarrow> bool" where
  "is_typed n \<longleftrightarrow> truthy (element_type n) \<or> truthy (document_type n)"

definition with_meta_ontology :: "scratchpad \<Rightarrow> string \<Rightarrow> (scratchpad_error, scratchpad) result" where
  "with_meta_ontology s mo =
     (let typed_ids = map note_id (filter is_typed (pad_notes s)) in
      if typed_ids \<noteq> [] \<and> mo \<noteq> meta_ontology s
      then Err (MetaOntologyWhileTyped (sort typed_ids))
      else validated (s\<lparr>meta_ontology := mo\<rparr>))"

text \<open>The keyword arguments \<^verbatim>\<open>scratchpad_from_parts\<close> passes on, each with its field's default.\<close>

record rest_fields =
  rest_description :: "string option"
  rest_version :: "string option"
  rest_status :: "string option"
  rest_meta_ontology :: "string option"
  rest_attributes :: "payload option"

definition or_default :: "'a option \<Rightarrow> 'a \<Rightarrow> 'a" where
  "or_default x d = (case x of None \<Rightarrow> d | Some v \<Rightarrow> v)"

definition scratchpad_from_parts ::
    "string \<Rightarrow> string \<Rightarrow> area list \<Rightarrow> pad_note list \<Rightarrow> link list \<Rightarrow> group list \<Rightarrow> layout option
      \<Rightarrow> rest_fields \<Rightarrow> (scratchpad_error, scratchpad) result" where
  "scratchpad_from_parts aid name ars ns ls gs lay rest =
     validated \<lparr>artifact_id = aid, pad_name = name,
       description = or_default (rest_description rest) '''',
       version = or_default (rest_version rest) ''0.1.0'',
       status = or_default (rest_status rest) ''draft'',
       meta_ontology = or_default (rest_meta_ontology rest) ''archimate-4'',
       attributes = or_default (rest_attributes rest) [],
       pad_areas = ars, pad_notes = ns, pad_links = ls, pad_groups = gs,
       pad_layout = snapped (or_default lay empty_layout)\<rparr>"

text \<open>The mutating methods as one vocabulary, so that a session is a list of commands.\<close>

datatype command =
    WithNote pad_note "point option"
  | WithoutNote string
  | WithLink link
  | WithoutLink string
  | Moved string point
  | Typed string string "string option"
  | Narrowed string string
  | Documented string string
  | Untyped string
  | Forgotten string
  | Bound string string string
  | Unbound string
  | WithMetaOntology string

fun exec :: "command \<Rightarrow> scratchpad \<Rightarrow> (scratchpad_error, scratchpad) result" where
  "exec (WithNote n place) s = with_note s n place"
| "exec (WithoutNote i) s = without_note s i"
| "exec (WithLink l) s = with_link s l"
| "exec (WithoutLink i) s = without_link s i"
| "exec (Moved i p) s = moved s i p"
| "exec (Typed i t sp) s = typed s i t sp"
| "exec (Narrowed i d) s = narrowed s i d"
| "exec (Documented i t) s = documented s i t"
| "exec (Untyped i) s = untyped s i"
| "exec (Forgotten i) s = forgotten s i"
| "exec (Bound i a t) s = bound s i a t"
| "exec (Unbound i) s = unbound s i"
| "exec (WithMetaOntology mo) s = with_meta_ontology s mo"

end
