(* ===== verification/Scratchpad_Laws.thy ===== *)
theory Scratchpad_Laws
  imports Scratchpad_Root
begin

text \<open>
  What the scratchpad aggregate promises: validation decides one declarative invariant, every
  accepted write establishes it, and the way back to an untyped canvas is always open.
\<close>

section \<open>The invariant\<close>

abbreviation note_ids :: "scratchpad \<Rightarrow> string set" where
  "note_ids s \<equiv> note_id ` set (pad_notes s)"

definition pad_ok :: "scratchpad \<Rightarrow> bool" where
  "pad_ok s \<longleftrightarrow> notes_ok (pad_notes s) \<and> links_ok (pad_links s) (note_ids s) \<and>
     groups_ok (pad_groups s) (pad_areas s) (note_ids s) (area_of s)"

lemma validate_iff: "validate s = Inr u \<longleftrightarrow> pad_ok s"
  by (auto simp: validate_def pad_ok_def bind_result_eq_Inr validator_iffs)

lemma validated_eq_Inr: "validated c = Inr s \<longleftrightarrow> pad_ok c \<and> s = c"
  by (auto simp: validated_def bind_result_eq_Inr validate_iff)

lemma validated_ok: "pad_ok c \<Longrightarrow> validated c = Inr c"
  by (simp add: validated_eq_Inr)

lemma with_note_eq_Inr:
  "with_note s n place = Inr s' \<Longrightarrow> pad_ok s'"
  by (simp add: with_note_def validated_eq_Inr Let_def)

lemma exec_pad_ok: "exec c s = Inr s' \<Longrightarrow> pad_ok s'"
  by (cases c) (auto simp: without_note_def with_link_def without_link_def moved_def typed_def
      narrowed_def documented_def untyped_def forgotten_def bound_def unbound_def
      with_meta_ontology_def validated_eq_Inr Let_def
      split: option.splits if_splits dest: with_note_eq_Inr)

interpretation pad: validated_aggregate pad_ok exec
  by unfold_locales (rule exec_pad_ok)

section \<open>Lookups under the invariant\<close>

lemma find_note_Some:
  "find_note s i = Some n \<Longrightarrow> n \<in> set (pad_notes s) \<and> note_id n = i"
  unfolding find_note_def by (rule find_Some_mem)

lemma find_note_None: "find_note s i = None \<longleftrightarrow> i \<notin> note_ids s"
  by (auto simp: find_note_def find_None_iff)

lemma pad_ok_distinct: "pad_ok s \<Longrightarrow> distinct (map note_id (pad_notes s))"
  by (simp add: pad_ok_def notes_ok_def)

lemma pad_ok_note_ok: "\<lbrakk>pad_ok s; n \<in> set (pad_notes s)\<rbrakk> \<Longrightarrow> note_ok n"
  by (simp add: pad_ok_def notes_ok_def)

lemma find_note_mem:
  "\<lbrakk>pad_ok s; n \<in> set (pad_notes s)\<rbrakk> \<Longrightarrow> find_note s (note_id n) = Some n"
  unfolding find_note_def by (rule find_key_distinct [OF pad_ok_distinct])

section \<open>Area membership is geometry\<close>

lemma area_of_cong:
  "\<lbrakk>pad_areas s = pad_areas t; area_rects (pad_layout s) = area_rects (pad_layout t);
    note_points (pad_layout s) i = note_points (pad_layout t) i\<rbrakk> \<Longrightarrow> area_of s i = area_of t i"
  by (cases "note_points (pad_layout t) i") (simp_all add: area_of_def containing_def)

lemma area_of_update [simp]:
  "area_of (s\<lparr>pad_notes := ns\<rparr>) = area_of s"
  "area_of (s\<lparr>pad_links := ls\<rparr>) = area_of s"
  "area_of (s\<lparr>pad_groups := gs\<rparr>) = area_of s"
  "area_of (s\<lparr>meta_ontology := mo\<rparr>) = area_of s"
  by (auto simp: fun_eq_iff intro: area_of_cong)

section \<open>Replacing one note\<close>

lemma others_ids:
  assumes "pad_ok s" and "n \<in> set (pad_notes s)"
  shows "insert (note_id n) (note_id ` {m \<in> set (pad_notes s). note_id m \<noteq> note_id n}) = note_ids s"
  using assms by auto

text \<open>
  Replacing a note by one with the same id, that is well formed on its own and that binds nothing
  another note binds, is accepted.
\<close>

lemma with_note_replace:
  assumes ok: "pad_ok s" and n: "n \<in> set (pad_notes s)" and id: "note_id n' = note_id n"
    and n': "note_ok n'"
    and fresh: "is_bound n' \<Longrightarrow>
      bound_artifact n' \<notin> bound_artifact ` {m \<in> set (pad_notes s). note_id m \<noteq> note_id n \<and> is_bound m}"
  shows "with_note s n' None =
    Inr (s\<lparr>pad_notes := filter (\<lambda>m. note_id m \<noteq> note_id n) (pad_notes s) @ [n']\<rparr>)"
proof -
  let ?ns = "filter (\<lambda>m. note_id m \<noteq> note_id n) (pad_notes s) @ [n']"
  have ids: "note_id ` set ?ns = note_ids s"
    using others_ids [OF ok n] id by auto
  have bound: "distinct (map bound_artifact (filter is_bound (pad_notes s)))"
    using ok by (simp add: pad_ok_def notes_ok_def)
  have "distinct (map bound_artifact (filter is_bound ?ns))"
  proof -
    have "distinct (map bound_artifact
        (filter (\<lambda>m. note_id m \<noteq> note_id n) (filter is_bound (pad_notes s))))"
      by (rule distinct_map_filter [OF bound])
    then show ?thesis
      using fresh by (auto simp: conj_commute)
  qed
  then have "notes_ok ?ns"
    using ok id n' distinct_map_filter_append [OF pad_ok_distinct [OF ok] id]
    by (auto simp: notes_ok_def dest: pad_ok_note_ok)
  then have "pad_ok (s\<lparr>pad_notes := ?ns\<rparr>)"
    using ok ids unfolding pad_ok_def by (simp del: set_append)
  then show ?thesis
    by (simp add: with_note_def Let_def id validated_ok)
qed

section \<open>Writes that are never refused\<close>

lemma DESTINATIONS_mem [simp]:
  "''undecided'' \<in> set DESTINATIONS" "''element'' \<in> set DESTINATIONS"
  "''document'' \<in> set DESTINATIONS" "''none'' \<in> set DESTINATIONS"
  by (simp_all add: DESTINATIONS_def)

lemma note_ok_undecide: "\<lbrakk>note_ok n; note_ref n = None\<rbrakk> \<Longrightarrow> note_ok (undecide n)"
  by (simp add: note_ok_def undecide_def)

lemma undecide_sel [simp]:
  "note_id (undecide n) = note_id n" "title (undecide n) = title n" "body (undecide n) = body n"
  "note_ref (undecide n) = note_ref n" "\<not> is_typed (undecide n)"
  by (simp_all add: undecide_def is_typed_def)

lemma ref_unbound: "note_ref n = None \<Longrightarrow> \<not> is_bound n"
  by (simp add: is_bound_def)

lemma is_bound_undecide [simp]: "is_bound (undecide n) = is_bound n"
  by (simp add: is_bound_def)

lemma bound_artifact_undecide [simp]: "bound_artifact (undecide n) = bound_artifact n"
  by (simp add: bound_artifact_def)

lemma if_undecide_sel [simp]:
  "note_id (if b then undecide m else m) = note_id m"
  "is_bound (if b then undecide m else m) = is_bound m"
  "bound_artifact (if b then undecide m else m) = bound_artifact m"
  by simp_all

lemma groups_ok_drop_note:
  assumes "groups_ok gs as ids aof" and "\<And>m. m \<noteq> i \<Longrightarrow> aof' m = aof m"
  shows "groups_ok (map (\<lambda>g. g\<lparr>members := filter (\<lambda>m. m \<noteq> i) (members g)\<rparr>) gs) as (ids - {i}) aof'"
proof -
  have "concat (map (members \<circ> (\<lambda>g. g\<lparr>members := filter (\<lambda>m. m \<noteq> i) (members g)\<rparr>)) gs) =
      filter (\<lambda>m. m \<noteq> i) (concat (map members gs))"
    by (simp add: filter_concat comp_def)
  then have "distinct (concat (map members
      (map (\<lambda>g. g\<lparr>members := filter (\<lambda>m. m \<noteq> i) (members g)\<rparr>) gs)))"
    using assms(1) by (simp only: map_map groups_ok_def distinct_filter)
  with assms show ?thesis unfolding groups_ok_def by (auto simp: subset_iff)
qed

lemma links_ok_drop_note:
  "links_ok ls ids \<Longrightarrow> links_ok (filter (\<lambda>l. i \<noteq> source l \<and> i \<noteq> target l) ls) (ids - {i})"
  by (auto simp: links_ok_def distinct_map intro: inj_on_subset)

lemma notes_ok_filter: "notes_ok ns \<Longrightarrow> notes_ok (filter P ns)"
proof -
  assume ok: "notes_ok ns"
  then have "distinct (map bound_artifact (filter P (filter is_bound ns)))"
    by (simp add: notes_ok_def distinct_map_filter del: filter_filter)
  with ok show ?thesis by (simp add: notes_ok_def distinct_map_filter conj_commute)
qed

lemma without_note_eq:
  assumes ok: "pad_ok s" and i: "i \<in> note_ids s"
  shows "without_note s i = Inr (s\<lparr>
    pad_notes := filter (\<lambda>n. note_id n \<noteq> i) (pad_notes s),
    pad_links := filter (\<lambda>l. i \<noteq> source l \<and> i \<noteq> target l) (pad_links s),
    pad_groups := map (\<lambda>g. g\<lparr>members := filter (\<lambda>m. m \<noteq> i) (members g)\<rparr>) (pad_groups s),
    pad_layout := (pad_layout s)\<lparr>note_points := (note_points (pad_layout s))(i := None)\<rparr>\<rparr>)"
    (is "_ = Inr ?t")
proof -
  have ids: "note_ids ?t = note_ids s - {i}" by auto
  have "area_of ?t m = area_of s m" if "m \<noteq> i" for m
    using that by (intro area_of_cong) simp_all
  with ok have "groups_ok (map (\<lambda>g. g\<lparr>members := filter (\<lambda>m. m \<noteq> i) (members g)\<rparr>) (pad_groups s))
      (pad_areas s) (note_ids s - {i}) (area_of ?t)"
    unfolding pad_ok_def by (intro groups_ok_drop_note [where aof = "area_of s"]) blast+
  then have "groups_ok (pad_groups ?t) (pad_areas ?t) (note_ids ?t) (area_of ?t)"
    unfolding ids by simp
  moreover have "links_ok (pad_links ?t) (note_ids ?t)"
    using ok unfolding ids by (simp add: pad_ok_def links_ok_drop_note)
  moreover have "notes_ok (pad_notes ?t)"
    using ok by (simp add: pad_ok_def notes_ok_filter)
  ultimately have "pad_ok ?t" unfolding pad_ok_def by blast
  moreover obtain n where "find_note s i = Some n"
    using i find_note_None [of s i] by fastforce
  ultimately show ?thesis by (simp add: without_note_def validated_ok)
qed

lemma untyped_eq:
  assumes ok: "pad_ok s" and n: "n \<in> set (pad_notes s)" and free: "note_ref n = None"
  shows "untyped s (note_id n) = Inr (s\<lparr>
    pad_notes := map (\<lambda>m. if note_id m = note_id n then undecide m else m) (pad_notes s),
    pad_links := map (\<lambda>l. if note_id n = source l \<or> note_id n = target l
                           then l\<lparr>connection_type := None\<rparr> else l) (pad_links s)\<rparr>)"
    (is "_ = Inr ?t")
proof -
  have same: "m = n" if "m \<in> set (pad_notes s)" "note_id m = note_id n" for m
    using distinct_key_eq [OF pad_ok_distinct [OF ok]] that n by blast
  have ids: "map note_id (pad_notes ?t) = map note_id (pad_notes s)"
    by (simp add: comp_def)
  then have idset: "note_ids ?t = note_ids s"
    by (metis list.set_map)
  have bnd: "map bound_artifact (filter is_bound (pad_notes ?t)) =
      map bound_artifact (filter is_bound (pad_notes s))"
    by (simp add: filter_map comp_def)
  have "note_ok (undecide m)" if "m \<in> set (pad_notes s)" "note_id m = note_id n" for m
    using same [OF that] pad_ok_note_ok [OF ok that(1)] free by (simp add: note_ok_undecide)
  then have "\<forall>m \<in> set (pad_notes ?t). note_ok m"
    using pad_ok_note_ok [OF ok] by auto
  then have "notes_ok (pad_notes ?t)"
    unfolding notes_ok_def ids bnd using ok by (simp add: pad_ok_def notes_ok_def)
  moreover have "links_ok (pad_links ?t) (note_ids ?t)"
  proof -
    have lids: "map link_id (pad_links ?t) = map link_id (pad_links s)" by auto
    show ?thesis unfolding links_ok_def lids idset using ok by (auto simp: pad_ok_def links_ok_def)
  qed
  ultimately have "pad_ok ?t" using ok unfolding pad_ok_def idset by simp
  then show ?thesis
    using find_note_mem [OF ok n] free by (simp add: untyped_def validated_ok)
qed

lemma forgotten_eq:
  assumes ok: "pad_ok s" and n: "n \<in> set (pad_notes s)"
    and r: "note_ref n = Some r" "ref_kind r = ''realized''"
  shows "forgotten s (note_id n) = Inr (s\<lparr>pad_notes :=
    filter (\<lambda>m. note_id m \<noteq> note_id n) (pad_notes s) @ [n\<lparr>note_ref := None\<rparr>]\<rparr>)"
proof -
  have "note_ok (n\<lparr>note_ref := None\<rparr>)"
    using pad_ok_note_ok [OF ok n] by (simp add: note_ok_def)
  then have "with_note s (n\<lparr>note_ref := None\<rparr>) None = Inr (s\<lparr>pad_notes :=
      filter (\<lambda>m. note_id m \<noteq> note_id n) (pad_notes s) @ [n\<lparr>note_ref := None\<rparr>]\<rparr>)"
    by (intro with_note_replace [OF ok n]) (auto simp: is_bound_def)
  then show ?thesis using find_note_mem [OF ok n] r by (simp add: forgotten_def)
qed

definition released :: "pad_note \<Rightarrow> pad_note" where
  "released n = n\<lparr>destination := ''undecided'', domain := None, element_type := None,
                  specialization := None, note_ref := None\<rparr>"

lemma unbound_eq:
  assumes ok: "pad_ok s" and n: "n \<in> set (pad_notes s)"
    and r: "note_ref n = Some r" "ref_kind r \<noteq> ''realized''"
  shows "unbound s (note_id n) = Inr (s\<lparr>pad_notes :=
    filter (\<lambda>m. note_id m \<noteq> note_id n) (pad_notes s) @ [released n]\<rparr>)"
proof -
  have "note_ok (released n)"
    using pad_ok_note_ok [OF ok n] r by (auto simp: note_ok_def released_def)
  then have "with_note s (released n) None = Inr (s\<lparr>pad_notes :=
      filter (\<lambda>m. note_id m \<noteq> note_id n) (pad_notes s) @ [released n]\<rparr>)"
    by (intro with_note_replace [OF ok n]) (auto simp: is_bound_def released_def)
  then show ?thesis
    using find_note_mem [OF ok n] r by (simp add: unbound_def released_def)
qed

section \<open>The way back to an untyped canvas\<close>

definition settle_cost :: "pad_note \<Rightarrow> nat" where
  "settle_cost n =
     (case note_ref n of
        Some r \<Rightarrow> if ref_kind r = ''realized'' then 2 else 1
      | None \<Rightarrow> if is_typed n then 1 else 0)"

definition unsettled :: "scratchpad \<Rightarrow> nat" where
  "unsettled s = sum_list (map settle_cost (pad_notes s))"

fun releasing :: "command \<Rightarrow> bool" where
  "releasing (Forgotten i) = True"
| "releasing (Unbound i) = True"
| "releasing (Untyped i) = True"
| "releasing _ = False"

text \<open>What a release may not touch: titles and bodies, who links whom, areas, groups, layout.\<close>

definition thought :: "pad_note \<Rightarrow> string \<times> string \<times> string" where
  "thought n = (note_id n, title n, body n)"

lemma thought_undecide [simp]: "thought (if b then undecide n else n) = thought n"
  by (simp add: thought_def)

definition same_thinking :: "scratchpad \<Rightarrow> scratchpad \<Rightarrow> bool" where
  "same_thinking s t \<longleftrightarrow>
     mset (map thought (pad_notes s)) = mset (map thought (pad_notes t)) \<and>
     map (\<lambda>l. (link_id l, source l, target l)) (pad_links s) =
       map (\<lambda>l. (link_id l, source l, target l)) (pad_links t) \<and>
     pad_areas s = pad_areas t \<and> pad_groups s = pad_groups t \<and> pad_layout s = pad_layout t \<and>
     artifact_id s = artifact_id t \<and> pad_name s = pad_name t"

lemma replace_note_effect:
  assumes ok: "pad_ok s" and n: "n \<in> set (pad_notes s)"
    and t: "t = s\<lparr>pad_notes := filter (\<lambda>m. note_id m \<noteq> note_id n) (pad_notes s) @ [n']\<rparr>"
    and n': "thought n' = thought n" "settle_cost n' < settle_cost n"
  shows "unsettled t < unsettled s \<and> same_thinking s t"
proof -
  note d = pad_ok_distinct [OF ok]
  have "unsettled t < unsettled s"
    using sum_list_drop_key [OF d n, of settle_cost] n'(2) by (simp add: unsettled_def t)
  moreover have "same_thinking s t"
    using mset_drop_key [OF d n, of thought] n'(1) by (simp add: same_thinking_def t)
  ultimately show ?thesis by blast
qed

lemma untyped_effect:
  assumes ok: "pad_ok s" and n: "n \<in> set (pad_notes s)" "note_ref n = None" "is_typed n"
  shows "\<exists>t. untyped s (note_id n) = Inr t \<and> unsettled t < unsettled s \<and> same_thinking s t"
proof -
  let ?f = "\<lambda>m. if note_id m = note_id n then undecide m else m"
  have le: "settle_cost (?f m) \<le> settle_cost m" for m
    by (auto simp: settle_cost_def split: option.splits)
  have "settle_cost (?f n) < settle_cost n"
    using n(2,3) by (simp add: settle_cost_def)
  with n(1) le have "sum_list (map (\<lambda>m. settle_cost (?f m)) (pad_notes s)) <
      sum_list (map settle_cost (pad_notes s))"
    by (intro sum_list_map_less)
  then show ?thesis
    using untyped_eq [OF ok n(1,2)]
    by (auto simp: unsettled_def same_thinking_def comp_def simp del: mset_map)
qed

lemma settle_step:
  assumes ok: "pad_ok s" and "unsettled s \<noteq> 0"
  shows "\<exists>c t. releasing c \<and> exec c s = Inr t \<and> unsettled t < unsettled s \<and> same_thinking s t"
proof -
  from assms(2) obtain n where n: "n \<in> set (pad_notes s)" "settle_cost n \<noteq> 0"
    by (auto simp: unsettled_def)
  consider (free) "note_ref n = None" "is_typed n"
    | (realized) r where "note_ref n = Some r" "ref_kind r = ''realized''"
    | (tied) r where "note_ref n = Some r" "ref_kind r \<noteq> ''realized''"
    using n(2) by (auto simp: settle_cost_def split: option.splits if_splits)
  then show ?thesis
  proof cases
    case free
    from untyped_effect [OF ok n(1) this] obtain t where
      "exec (Untyped (note_id n)) s = Inr t" "unsettled t < unsettled s" "same_thinking s t"
      by auto
    then show ?thesis by (metis releasing.simps(3))
  next
    case (realized r)
    let ?n = "n\<lparr>note_ref := None\<rparr>"
    have "settle_cost ?n < settle_cost n" "thought ?n = thought n"
      using realized by (simp_all add: settle_cost_def thought_def)
    with forgotten_eq [OF ok n(1) realized] replace_note_effect [OF ok n(1) refl, of ?n]
    show ?thesis by (metis exec.simps(10) releasing.simps(1))
  next
    case (tied r)
    have "\<not> truthy (document_type n)"
      using pad_ok_note_ok [OF ok n(1)] tied by (auto simp: note_ok_def)
    then have "settle_cost (released n) < settle_cost n" "thought (released n) = thought n"
      using tied by (simp_all add: settle_cost_def thought_def released_def is_typed_def)
    with unbound_eq [OF ok n(1) tied] replace_note_effect [OF ok n(1) refl, of "released n"]
    show ?thesis by (metis exec.simps(12) releasing.simps(2))
  qed
qed

interpretation pad: settling_aggregate pad_ok exec unsettled releasing same_thinking
proof unfold_locales
  fix s t u
  show "same_thinking s s" by (simp add: same_thinking_def)
  show "same_thinking s t \<Longrightarrow> same_thinking t u \<Longrightarrow> same_thinking s u"
    by (simp add: same_thinking_def)
  show "pad_ok s \<Longrightarrow> unsettled s \<noteq> 0 \<Longrightarrow>
    \<exists>c t. releasing c \<and> exec c s = Inr t \<and> unsettled t < unsettled s \<and> same_thinking s t"
    by (rule settle_step)
qed

lemma unsettled_bound: "unsettled s \<le> 2 * length (pad_notes s)"
proof -
  have "settle_cost n \<le> 2" for n by (simp add: settle_cost_def split: option.splits)
  then have "unsettled s \<le> sum_list (map (\<lambda>_. 2) (pad_notes s))"
    unfolding unsettled_def by (intro sum_list_mono)
  then show ?thesis by (simp add: sum_list_triv)
qed

lemma settled_meta_ontology:
  assumes "pad_ok s" and "unsettled s = 0"
  shows "with_meta_ontology s mo = Inr (s\<lparr>meta_ontology := mo\<rparr>)"
proof -
  have "\<not> is_typed n" if "n \<in> set (pad_notes s)" for n
  proof -
    have "settle_cost n = 0" using assms(2) that by (simp add: unsettled_def)
    then show ?thesis by (auto simp: settle_cost_def split: option.splits if_splits)
  qed
  then have "filter is_typed (pad_notes s) = []" by (simp add: filter_empty_conv)
  moreover have "pad_ok (s\<lparr>meta_ontology := mo\<rparr>)"
    using assms(1) by (simp add: pad_ok_def)
  ultimately show ?thesis by (simp add: with_meta_ontology_def validated_ok)
qed

section \<open>Coordinates stay on the grid\<close>

lemma snapped_place_note: "snapped (place_note i p l) = place_note i p (snapped l)"
  by (simp add: snapped_def place_note_def fun_eq_iff)

lemma snapped_unplace:
  "snapped (l\<lparr>note_points := (note_points l)(i := None)\<rparr>) =
   (snapped l)\<lparr>note_points := (note_points (snapped l))(i := None)\<rparr>"
  by (simp add: snapped_def fun_eq_iff)

definition on_grid :: "scratchpad \<Rightarrow> bool" where
  "on_grid s \<longleftrightarrow> snapped (pad_layout s) = pad_layout s"

lemma with_note_on_grid:
  "\<lbrakk>with_note s n place = Inr s'; on_grid s\<rbrakk> \<Longrightarrow> on_grid s'"
  by (auto simp: with_note_def validated_eq_Inr Let_def on_grid_def snapped_place_note
      split: option.splits)

lemma exec_on_grid: "\<lbrakk>exec c s = Inr s'; on_grid s\<rbrakk> \<Longrightarrow> on_grid s'"
  by (cases c) (auto simp: without_note_def with_link_def without_link_def moved_def typed_def
      narrowed_def documented_def untyped_def forgotten_def bound_def unbound_def
      with_meta_ontology_def validated_eq_Inr Let_def
      split: option.splits if_splits dest: with_note_on_grid,
      auto simp: on_grid_def snapped_place_note snapped_unplace)

lemma session_on_grid: "\<lbrakk>run_all exec cs s = Inr s'; on_grid s\<rbrakk> \<Longrightarrow> on_grid s'"
  by (induction cs arbitrary: s) (auto simp: bind_result_eq_Inr dest: exec_on_grid)

lemma from_parts_ok:
  "scratchpad_from_parts aid name ars ns ls gs lay rest = Inr s \<Longrightarrow> pad_ok s \<and> on_grid s"
  by (auto simp: scratchpad_from_parts_def validated_eq_Inr on_grid_def)

section \<open>The refusals of typing\<close>

lemma with_note_refused:
  assumes ok: "pad_ok s" and n: "n \<in> set (pad_notes s)" "note_id n' = note_id n"
    and title: "py_strip (title n') \<noteq> []" and bad: "validate_destination n' = Inl e"
  shows "with_note s n' None = Err e"
proof -
  let ?others = "filter (\<lambda>m. note_id m \<noteq> note_id n') (pad_notes s)"
  have "notes_ok ?others" using ok by (simp add: pad_ok_def notes_ok_filter)
  then have "validate_notes_from ?others {} Map.empty = Inr (note_id ` set ?others)"
    by (simp add: validate_notes_from_iff)
  from validate_notes_from_append [OF this, of "[n']"] title bad
  have "validated_notes (?others @ [n']) = Err e"
    by (auto simp: validated_notes_def)
  then show ?thesis
    by (simp add: with_note_def validated_def validate_def Let_def)
qed

section \<open>Choosing the frame\<close>

lemma containing_mem:
  "(x, i) \<in> set (containing s p) \<longleftrightarrow> (\<exists>a \<in> set (pad_areas s). \<exists>r.
     area_rects (pad_layout s) (area_id a) = Some r \<and> contains r p \<and>
     x = width r * height r \<and> i = area_id a)"
  by (force simp: containing_def map_filter_def split: option.splits if_splits)

lemma containing_set_cong:
  "\<lbrakk>set (pad_areas s) = set (pad_areas t); pad_layout s = pad_layout t\<rbrakk> \<Longrightarrow>
   set (containing s p) = set (containing t p)"
  by (auto simp: containing_def map_filter_def)

end
