(* ===== verification/Scratchpad_Properties.thy ===== *)
theory Scratchpad_Properties
  imports Scratchpad_Laws
begin

text \<open>
  The properties of the scratchpad aggregate, with a small canvas on which each one that has a
  hypothesis is applied.
\<close>

section \<open>A sample canvas\<close>

definition plain_note :: "string \<Rightarrow> string \<Rightarrow> pad_note" where
  "plain_note i t = \<lparr>note_id = i, title = t, body = [], destination = ''undecided'', domain = None,
     element_type = None, specialization = None, document_type = None, note_ref = None,
     note_attributes = []\<rparr>"

definition no_rest :: rest_fields where
  "no_rest = \<lparr>rest_description = None, rest_version = None, rest_status = None,
     rest_meta_ontology = None, rest_attributes = None\<rparr>"

definition frame :: "string \<Rightarrow> area" where
  "frame i = \<lparr>area_id = i, area_label = i, permitted_domains = [], permitted_element_types = [],
     permitted_document_types = []\<rparr>"

definition sample_layout :: layout where
  "sample_layout = \<lparr>area_rects = [''big'' \<mapsto> \<lparr>rx = 0, ry = 0, width = 100, height = 100\<rparr>,
       ''small'' \<mapsto> \<lparr>rx = 0, ry = 0, width = 50, height = 50\<rparr>],
     note_points = [''a'' \<mapsto> \<lparr>px = 10, py = 10\<rparr>], group_rects = Map.empty\<rparr>"

definition bound_note :: pad_note where
  "bound_note = (plain_note ''b'' ''Billing'')\<lparr>destination := ''element'',
     element_type := Some ''capability'',
     note_ref := Some \<lparr>ref_artifact_id = ''CAP@1'', ref_kind = ''bound''\<rparr>\<rparr>"

definition document_note :: pad_note where
  "document_note = (plain_note ''d'' ''Costs'')\<lparr>destination := ''document'',
     document_type := Some ''adr''\<rparr>"

definition sample_link :: link where
  "sample_link = \<lparr>link_id = ''l'', source = ''a'', target = ''b'', connection_type = Some ''serving'',
     link_ref = None\<rparr>"

definition sample_pad :: scratchpad where
  "sample_pad = \<lparr>artifact_id = ''PAD@1'', pad_name = ''Plan'', description = [],
     version = ''0.1.0'', status = ''draft'', meta_ontology = ''archimate-4'', attributes = [],
     pad_areas = [frame ''big'', frame ''small''],
     pad_notes = [plain_note ''a'' ''Accounts'', bound_note, document_note],
     pad_links = [sample_link],
     pad_groups = [\<lparr>group_id = ''g'', group_label = ''G'', members = [''a'']\<rparr>],
     pad_layout = sample_layout\<rparr>"

lemmas sample_defs = sample_pad_def sample_layout_def frame_def sample_link_def
  bound_note_def document_note_def plain_note_def no_rest_def

lemma sample_pad_ok: "pad_ok sample_pad"
  by (simp add: pad_ok_def notes_ok_def note_ok_def links_ok_def groups_ok_def sample_defs
      DESTINATIONS_def py_strip_eq_Nil_iff is_bound_def bound_artifact_def is_py_space_def)

section \<open>Properties\<close>

text \<open>
  Claim C15. The sequential validators accept a scratchpad exactly when it satisfies the declarative
  invariant: titled notes with unique ids and coherent destinations, references only on typed
  elements, one note per bound entity, links between two different notes of the canvas, groups of
  known notes that lie in one area, no note in two groups, and no id shared by an area and a group.
\<close>

theorem validate_decides_invariant:
  "validate s = Ok () \<longleftrightarrow>
     (\<forall>n \<in> set (pad_notes s).
        py_strip (title n) \<noteq> [] \<and> destination n \<in> set DESTINATIONS \<and>
        (destination n = ''document'' \<longrightarrow> \<not> truthy (element_type n)) \<and>
        (truthy (document_type n) \<longrightarrow> destination n = ''document'') \<and>
        (note_ref n \<noteq> None \<longrightarrow> destination n = ''element'' \<and> truthy (element_type n))) \<and>
     distinct (map note_id (pad_notes s)) \<and>
     distinct (map bound_artifact (filter is_bound (pad_notes s))) \<and>
     distinct (map link_id (pad_links s)) \<and>
     (\<forall>l \<in> set (pad_links s).
        source l \<in> note_id ` set (pad_notes s) \<and> target l \<in> note_id ` set (pad_notes s) \<and>
        source l \<noteq> target l) \<and>
     distinct (map area_id (pad_areas s)) \<and>
     (\<forall>g \<in> set (pad_groups s). group_id g \<notin> area_id ` set (pad_areas s) \<and>
        set (members g) \<subseteq> note_id ` set (pad_notes s) \<and>
        (\<forall>m \<in> set (members g). \<forall>m' \<in> set (members g). area_of s m = area_of s m')) \<and>
     distinct (concat (map members (pad_groups s)))"
  unfolding validate_iff pad_ok_def notes_ok_def note_ok_def links_ok_def groups_ok_def by blast

theorem validate_decides_invariant_witness: "validate sample_pad = Ok ()"
  unfolding validate_decides_invariant
  using sample_pad_ok
  unfolding pad_ok_def notes_ok_def note_ok_def links_ok_def groups_ok_def by blast

text \<open>
  Claim C1. No session of writes leads out of the invariant or off the grid: from a scratchpad that was
  built from parts, whatever sequence of accepted commands is run, the result passes validation and
  every coordinate in it is a multiple of the grid.
\<close>

theorem session_keeps_coherence:
  assumes "scratchpad_from_parts aid name ars ns ls gs lay rest = Ok s"
    and "run_all exec cs s = Ok s'"
  shows "validate s' = Ok () \<and> snapped (pad_layout s') = pad_layout s'"
proof -
  from assms(1) have "pad_ok s" "on_grid s" by (auto dest: from_parts_ok)
  with assms(2) show ?thesis
    using pad.session_holds session_on_grid unfolding validate_iff on_grid_def by blast
qed

theorem session_keeps_coherence_witness:
  "\<exists>s s'. scratchpad_from_parts ''PAD@2'' ''Plan'' [] [plain_note ''a'' ''Accounts''] [] [] None no_rest = Ok s \<and>
     run_all exec [Moved ''a'' \<lparr>px = 12, py = 7\<rparr>, Typed ''a'' ''goal'' None] s = Ok s' \<and>
     validate s' = Ok () \<and> snapped (pad_layout s') = pad_layout s' \<and>
     note_points (pad_layout s') ''a'' = Some \<lparr>px = 10, py = 5\<rparr>"
proof -
  obtain s where s: "scratchpad_from_parts ''PAD@2'' ''Plan'' [] [plain_note ''a'' ''Accounts''] [] [] None no_rest = Ok s"
    and sd: "pad_notes s = [plain_note ''a'' ''Accounts'']" "pad_areas s = []" "pad_links s = []" "pad_groups s = []"
    by (simp add: scratchpad_from_parts_def validated_eq_Inr pad_ok_def notes_ok_def note_ok_def
        links_ok_def groups_ok_def DESTINATIONS_def py_strip_eq_Nil_iff is_py_space_def is_bound_def
        plain_note_def)
  define t where "t = s\<lparr>pad_layout := place_note ''a'' \<lparr>px = 12, py = 7\<rparr> (pad_layout s)\<rparr>"
  define n where "n = (plain_note ''a'' ''Accounts'')\<lparr>destination := ''element'',
      element_type := Some ''goal'', specialization := None\<rparr>"
  define u where "u = t\<lparr>pad_notes := [n]\<rparr>"
  have ok: "pad_ok t" "note_ok n"
    by (simp_all add: t_def n_def sd pad_ok_def notes_ok_def note_ok_def links_ok_def groups_ok_def
        DESTINATIONS_def py_strip_eq_Nil_iff is_py_space_def is_bound_def plain_note_def)
  have "exec (Moved ''a'' \<lparr>px = 12, py = 7\<rparr>) s = Ok t"
    using ok(1) by (simp add: moved_def find_note_def sd plain_note_def t_def validated_ok)
  moreover have "exec (Typed ''a'' ''goal'' None) t = Ok u"
    using with_note_replace [OF ok(1), of "plain_note ''a'' ''Accounts''" n] ok(2)
    by (simp add: typed_def find_note_def t_def sd u_def n_def plain_note_def is_bound_def)
  ultimately have run: "run_all exec [Moved ''a'' \<lparr>px = 12, py = 7\<rparr>, Typed ''a'' ''goal'' None] s = Ok u"
    by simp
  have "\<lfloor>12/5 :: rat\<rfloor> = 2" "\<lfloor>7/5 :: rat\<rfloor> = 1" by (simp_all add: floor_eq_iff)
  then have "note_points (pad_layout u) ''a'' = Some \<lparr>px = 10, py = 5\<rparr>"
    by (simp add: u_def t_def place_note_def snap_point_def snap_def GRID_def py_round_def Let_def)
  with s run session_keeps_coherence [OF s run] show ?thesis by blast
qed

text \<open>
  Removing a note of a coherent canvas is never refused, and takes with it exactly what
  touches the note: its links, its group memberships and its placement. Every other note, every
  link between other notes and every other placement is kept.
\<close>

theorem without_note_complete:
  assumes "validate s = Ok ()" and "i \<in> note_id ` set (pad_notes s)"
  shows "\<exists>s'. without_note s i = Ok s' \<and> validate s' = Ok () \<and>
    pad_notes s' = filter (\<lambda>n. note_id n \<noteq> i) (pad_notes s) \<and>
    set (pad_links s') = {l \<in> set (pad_links s). source l \<noteq> i \<and> target l \<noteq> i} \<and>
    map (set \<circ> members) (pad_groups s') = map (\<lambda>g. set (members g) - {i}) (pad_groups s) \<and>
    note_points (pad_layout s') = (note_points (pad_layout s))(i := None) \<and>
    (\<forall>j. j \<noteq> i \<longrightarrow> area_of s' j = area_of s j)"
proof -
  from assms have ok: "pad_ok s" by (simp add: validate_iff)
  from without_note_eq [OF ok assms(2)] obtain t where
    t: "without_note s i = Ok t" and t_def: "t = s\<lparr>
      pad_notes := filter (\<lambda>n. note_id n \<noteq> i) (pad_notes s),
      pad_links := filter (\<lambda>l. i \<noteq> source l \<and> i \<noteq> target l) (pad_links s),
      pad_groups := map (\<lambda>g. g\<lparr>members := filter (\<lambda>m. m \<noteq> i) (members g)\<rparr>) (pad_groups s),
      pad_layout := (pad_layout s)\<lparr>note_points := (note_points (pad_layout s))(i := None)\<rparr>\<rparr>"
    by blast
  from t have "validate t = Ok ()"
    using exec_pad_ok [of "WithoutNote i" s t] by (simp add: validate_iff)
  moreover have "\<forall>j. j \<noteq> i \<longrightarrow> area_of t j = area_of s j"
    by (auto simp: t_def intro!: area_of_cong)
  ultimately show ?thesis
    using t by (intro exI [of _ t]) (auto simp: t_def)
qed

theorem without_note_complete_witness:
  "\<exists>s'. without_note sample_pad ''a'' = Ok s' \<and> pad_links s' = [] \<and>
     note_points (pad_layout s') ''a'' = None"
proof -
  have v: "validate sample_pad = Ok ()" by (simp add: validate_iff sample_pad_ok)
  have i: "''a'' \<in> note_id ` set (pad_notes sample_pad)" by (simp add: sample_defs)
  from without_note_complete [OF v i] obtain s' where
    "without_note sample_pad ''a'' = Ok s'"
    "set (pad_links s') = {l \<in> set (pad_links sample_pad). source l \<noteq> ''a'' \<and> target l \<noteq> ''a''}"
    "note_points (pad_layout s') = (note_points (pad_layout sample_pad))(''a'' := None)"
    by blast
  moreover have "{l \<in> set (pad_links sample_pad). source l \<noteq> ''a'' \<and> target l \<noteq> ''a''} = {}"
    by (auto simp: sample_defs)
  ultimately show ?thesis by auto
qed

text \<open>
  The frozen meta-ontology is not a trap: from every coherent canvas, some session of at most
  two releases per note (forgetting realizations, unbinding bindings, untyping the rest) is accepted
  and leads to a canvas with the same notes, links, areas, groups and layout on which any
  meta-ontology can be set.
\<close>

theorem meta_ontology_is_reachable:
  assumes "validate s = Ok ()"
  shows "\<exists>cs t. run_all exec cs s = Ok t \<and> list_all releasing cs \<and>
    length cs \<le> 2 * length (pad_notes s) \<and> same_thinking s t \<and>
    (\<forall>mo. with_meta_ontology t mo = Ok (t\<lparr>meta_ontology := mo\<rparr>))"
proof -
  from assms have "pad_ok s" by (simp add: validate_iff)
  from pad.settling_session [OF this] obtain cs t where
    "run_all exec cs s = Ok t" "pad_ok t" "unsettled t = 0" "length cs \<le> unsettled s"
    "list_all releasing cs" "same_thinking s t"
    by blast
  moreover from this have "length cs \<le> 2 * length (pad_notes s)"
    using unsettled_bound [of s] by linarith
  ultimately show ?thesis using settled_meta_ontology by blast
qed

theorem meta_ontology_is_reachable_witness:
  "\<exists>cs t. run_all exec cs sample_pad = Ok t \<and> length cs \<le> 6 \<and>
     with_meta_ontology t ''sysml'' = Ok (t\<lparr>meta_ontology := ''sysml''\<rparr>)"
proof -
  have v: "validate sample_pad = Ok ()" by (simp add: validate_iff sample_pad_ok)
  have "2 * length (pad_notes sample_pad) = 6" by (simp add: sample_defs)
  with meta_ontology_is_reachable [OF v] show ?thesis by auto
qed

text \<open>
  Typing a note that holds no model reference is accepted exactly when the note carries no
  document type. On a note that was sent to a document, \<^verbatim>\<open>typed\<close> keeps the document type while it
  sets the destination to element, so the aggregate's own validation refuses the write.
\<close>

theorem typed_accepts_iff_no_document_type:
  assumes "validate s = Ok ()" and "n \<in> set (pad_notes s)" and "note_ref n = None"
  shows "typed s (note_id n) t sp =
    (case document_type n of
       Some (c # cs) \<Rightarrow> Err (DocumentTypeElsewhere (note_id n) (c # cs) ''element'')
     | _ \<Rightarrow> Ok (s\<lparr>pad_notes := filter (\<lambda>m. note_id m \<noteq> note_id n) (pad_notes s) @
         [n\<lparr>destination := ''element'', element_type := Some t, specialization := sp\<rparr>]\<rparr>))"
proof -
  let ?n = "n\<lparr>destination := ''element'', element_type := Some t, specialization := sp\<rparr>"
  from assms have ok: "pad_ok s" by (simp add: validate_iff)
  note n_ok = pad_ok_note_ok [OF ok assms(2)]
  have eq: "typed s (note_id n) t sp = with_note s ?n None"
    using find_note_mem [OF ok assms(2)] assms(3) by (simp add: typed_def)
  show ?thesis
  proof (cases "truthy (document_type n)")
    case True
    then obtain c cs where d: "document_type n = Some (c # cs)"
      by (auto simp: truthy_iff neq_Nil_conv)
    then have "validate_destination ?n = Inl (DocumentTypeElsewhere (note_id n) (c # cs) ''element'')"
      by (simp add: validate_destination_def)
    from with_note_refused [OF ok assms(2) _ _ this] n_ok show ?thesis
      by (simp add: eq d note_ok_def)
  next
    case False
    with n_ok assms(3) have "note_ok ?n" by (simp add: note_ok_def)
    then have "with_note s ?n None =
        Inr (s\<lparr>pad_notes := filter (\<lambda>m. note_id m \<noteq> note_id n) (pad_notes s) @ [?n]\<rparr>)"
      using assms(3) by (intro with_note_replace [OF ok assms(2)]) (simp_all add: is_bound_def)
    with False show ?thesis by (auto simp: eq truthy_def split: option.splits list.splits)
  qed
qed

theorem typed_accepts_iff_no_document_type_witness:
  "typed sample_pad ''d'' ''goal'' None = Err (DocumentTypeElsewhere ''d'' ''adr'' ''element'')"
proof -
  have v: "validate sample_pad = Ok ()" by (simp add: validate_iff sample_pad_ok)
  have d: "document_note \<in> set (pad_notes sample_pad)" "note_ref document_note = None"
    by (simp_all add: sample_defs)
  show ?thesis
    using typed_accepts_iff_no_document_type [OF v d, of "''goal''" None] by (simp add: sample_defs)
qed

text \<open>
  Sending a note to a document and narrowing it to a domain are never refused on a note
  without a model reference, and each clears what belongs to the other destination.
\<close>

theorem documented_and_narrowed_accept:
  assumes "validate s = Ok ()" and "n \<in> set (pad_notes s)" and "note_ref n = None"
  shows "documented s (note_id n) dt = Ok (s\<lparr>pad_notes :=
      filter (\<lambda>m. note_id m \<noteq> note_id n) (pad_notes s) @ [n\<lparr>destination := ''document'',
        document_type := Some dt, domain := None, element_type := None, specialization := None\<rparr>]\<rparr>)
    \<and> narrowed s (note_id n) d = Ok (s\<lparr>pad_notes :=
      filter (\<lambda>m. note_id m \<noteq> note_id n) (pad_notes s) @ [n\<lparr>destination := ''element'',
        domain := Some d, element_type := None, specialization := None, document_type := None\<rparr>]\<rparr>)"
proof -
  from assms have ok: "pad_ok s" by (simp add: validate_iff)
  note n_ok = pad_ok_note_ok [OF ok assms(2)] and found = find_note_mem [OF ok assms(2)]
  let ?d = "n\<lparr>destination := ''document'', document_type := Some dt, domain := None,
    element_type := None, specialization := None\<rparr>"
  let ?e = "n\<lparr>destination := ''element'', domain := Some d, element_type := None,
    specialization := None, document_type := None\<rparr>"
  have "note_ok ?d" "note_ok ?e" using n_ok assms(3) by (simp_all add: note_ok_def)
  then show ?thesis
    using with_note_replace [OF ok assms(2), of ?d] with_note_replace [OF ok assms(2), of ?e]
      found assms(3) by (simp add: documented_def narrowed_def is_bound_def)
qed

theorem documented_and_narrowed_accept_witness:
  "is_ok (documented sample_pad ''a'' ''adr'') \<and> is_ok (narrowed sample_pad ''d'' ''strategy'')"
proof -
  have v: "validate sample_pad = Ok ()" by (simp add: validate_iff sample_pad_ok)
  have a: "plain_note ''a'' ''Accounts'' \<in> set (pad_notes sample_pad)"
      "note_ref (plain_note ''a'' ''Accounts'') = None"
    and d: "document_note \<in> set (pad_notes sample_pad)" "note_ref document_note = None"
    and ids: "note_id (plain_note ''a'' ''Accounts'') = ''a''" "note_id document_note = ''d''"
    by (simp_all add: sample_defs)
  show ?thesis
    using documented_and_narrowed_accept [OF v a] documented_and_narrowed_accept [OF v d]
    by (simp add: ids)
qed

text \<open>
  The area of a note is the smallest frame that contains it, equal extents by the smaller id,
  and nothing but the geometry decides: any reordering of the declared areas gives every note the
  same area.
\<close>

theorem area_of_is_smallest_frame:
  assumes "note_points (pad_layout s) i = Some p" and "a \<in> set (pad_areas s)"
    and "area_rects (pad_layout s) (area_id a) = Some r" and "contains r p"
    and "mset (pad_areas t) = mset (pad_areas s)" and "pad_layout t = pad_layout s"
  shows "(\<exists>b \<in> set (pad_areas s). \<exists>q. area_rects (pad_layout s) (area_id b) = Some q \<and>
      contains q p \<and> area_of s i = area_id b \<and>
      (width q * height q, area_id b) \<le> (width r * height r, area_id a)) \<and>
    area_of t i = area_of s i"
proof -
  let ?c = "set (containing s p)"
  have mem: "(width r * height r, area_id a) \<in> ?c"
    using assms(2-4) by (auto simp: containing_mem)
  then have ne: "containing s p \<noteq> []" by auto
  have area: "area_of s i = snd (Min ?c)"
    using assms(1) ne by (simp add: area_of_def Let_def)
  have "Min ?c \<in> ?c" using ne by (intro Min_in) auto
  then obtain b q where b: "b \<in> set (pad_areas s)"
      "area_rects (pad_layout s) (area_id b) = Some q" "contains q p"
      "Min ?c = (width q * height q, area_id b)"
    by (metis containing_mem surj_pair)
  have "Min ?c \<le> (width r * height r, area_id a)"
    using mem by (intro Min_le) auto
  moreover have "set (containing t p) = ?c"
    using assms(5,6) by (metis containing_set_cong mset_eq_setD)
  then have "area_of t i = snd (Min ?c)"
    using assms(1,6) ne by (auto simp: area_of_def Let_def simp flip: set_empty2)
  ultimately show ?thesis using b area by auto
qed

theorem area_of_is_smallest_frame_witness:
  "area_of sample_pad ''a'' = ''small'' \<and>
   area_of (sample_pad\<lparr>pad_areas := rev (pad_areas sample_pad)\<rparr>) ''a'' = ''small''"
proof -
  have p: "note_points (pad_layout sample_pad) ''a'' = Some \<lparr>px = 10, py = 10\<rparr>"
    and a: "frame ''small'' \<in> set (pad_areas sample_pad)"
    and r: "area_rects (pad_layout sample_pad) (area_id (frame ''small'')) =
      Some \<lparr>rx = 0, ry = 0, width = 50, height = 50\<rparr>"
    and c: "contains \<lparr>rx = 0, ry = 0, width = 50, height = 50\<rparr> \<lparr>px = 10, py = 10\<rparr>"
    and t: "mset (pad_areas (sample_pad\<lparr>pad_areas := rev (pad_areas sample_pad)\<rparr>)) =
      mset (pad_areas sample_pad)"
      "pad_layout (sample_pad\<lparr>pad_areas := rev (pad_areas sample_pad)\<rparr>) = pad_layout sample_pad"
    by (simp_all add: sample_defs contains_def)
  have "area_of sample_pad ''a'' = ''small''"
    using area_of_is_smallest_frame [OF p a r c t] by (auto simp: sample_defs less_eq_prod_def)
  with area_of_is_smallest_frame [OF p a r c t] show ?thesis by simp
qed

end
