(* ===== verification/Ontology_Types.thy ===== *)
theory Ontology_Types
  imports Py_Values
begin

text \<open>
  The metadata an ontology declares, as far as the modelled code reads it: entity and connection
  types (\<^verbatim>\<open>src/domain/ontology_representation/ontology_types.py\<close>; guidance texts, notation and
  mapping fields are never read here and have no field), the derivation domain of a type
  (\<^verbatim>\<open>relationships/derivation_domains.py\<close>), and the permitted relationships
  (\<^verbatim>\<open>relationships/permitted_relationships.py\<close>). A frozenset of permitted relationships is the list
  of its elements; no operation observes the order.
\<close>

section \<open>Entity and connection types\<close>

record entity_type_info =
  etype_name :: string
  hierarchy :: "string list"
  etype_classes :: "string list"
  internal :: bool

record connection_type_info =
  ctype_name :: string
  ctype_classes :: "string list"
  derivation_role :: "string option"
  derivation_strength :: "int option"

section \<open>Derivation domains\<close>

datatype derivation_domain_name =
  Motivation | Strategy | Core | ImplementationMigration | Relationships

datatype derivation_error =
    NoHierarchy string
  | UnknownDomain string string

definition CORE_LAYERS :: "string set" where
  "CORE_LAYERS = {''business'', ''application'', ''technology'', ''common''}"

definition derivation_domain ::
    "entity_type_info \<Rightarrow> (derivation_error, derivation_domain_name) result" where
  "derivation_domain info =
     (if ''junction'' \<in> set (etype_classes info) then Ok Relationships
      else (case hierarchy info of
        [] \<Rightarrow> Err (NoHierarchy (etype_name info))
      | head # _ \<Rightarrow>
          if head \<in> CORE_LAYERS then Ok Core
          else if head = ''implementation'' then Ok ImplementationMigration
          else if head = ''motivation'' then Ok Motivation
          else if head = ''strategy'' then Ok Strategy
          else Err (UnknownDomain (etype_name info) head)))"

section \<open>Permitted relationships\<close>

record permitted_relationship =
  perm_source :: string
  perm_target :: string
  perm_connection :: string

type_synonym permitted_relationship_set = "permitted_relationship list"

definition permits :: "permitted_relationship_set \<Rightarrow> string \<Rightarrow> string \<Rightarrow> string \<Rightarrow> bool" where
  "permits rs src tgt conn =
     (\<lparr>perm_source = src, perm_target = tgt, perm_connection = conn\<rparr> \<in> set rs)"

definition permitted_connection_types ::
    "permitted_relationship_set \<Rightarrow> string \<Rightarrow> string \<Rightarrow> string set" where
  "permitted_connection_types rs src tgt =
     perm_connection ` {r \<in> set rs. perm_source r = src \<and> perm_target r = tgt}"

definition relationship_key :: "permitted_relationship \<Rightarrow> string \<times> string \<times> string" where
  "relationship_key r = (perm_source r, perm_target r, perm_connection r)"

definition stable_rules :: "permitted_relationship_set \<Rightarrow> permitted_relationship list" where
  "stable_rules rs = sort_key relationship_key (remdups rs)"

definition filter_to ::
    "permitted_relationship_set \<Rightarrow> string set \<Rightarrow> string set \<Rightarrow> permitted_relationship_set" where
  "filter_to rs entity_types connection_types = filter (\<lambda>r. perm_source r \<in> entity_types \<and>
     perm_target r \<in> entity_types \<and> perm_connection r \<in> connection_types) rs"

definition union_rules ::
    "permitted_relationship_set \<Rightarrow> permitted_relationship_set \<Rightarrow> permitted_relationship_set" where
  "union_rules rs qs = rs @ qs"

text \<open>One configuration entry \<^verbatim>\<open>[src, tgt, [conn, ...]]\<close>; a malformed one contributes nothing.\<close>

definition relationships_of_entry :: "pyval \<Rightarrow> permitted_relationship list" where
  "relationships_of_entry rule =
     (case sequence_items rule of
        Some [PStr src, PStr tgt, conns] \<Rightarrow>
          (case sequence_items conns of
             None \<Rightarrow> []
           | Some cs \<Rightarrow> List.map_filter (\<lambda>c. case c of
               PStr conn \<Rightarrow> Some \<lparr>perm_source = src, perm_target = tgt, perm_connection = conn\<rparr>
             | _ \<Rightarrow> None) cs)
      | _ \<Rightarrow> [])"

definition permitted_connections_from_config :: "pyval list \<Rightarrow> permitted_relationship_set" where
  "permitted_connections_from_config rules = concat (map relationships_of_entry rules)"

section \<open>Facts\<close>

lemma permitted_connection_types_iff:
  "c \<in> permitted_connection_types rs src tgt \<longleftrightarrow> permits rs src tgt c"
proof -
  have "\<lparr>perm_source = src, perm_target = tgt, perm_connection = c\<rparr> \<in> set rs \<longleftrightarrow>
      (\<exists>r \<in> set rs. perm_source r = src \<and> perm_target r = tgt \<and> perm_connection r = c)"
    by (metis permitted_relationship.equality permitted_relationship.select_convs old.unit.exhaust)
  then show ?thesis by (auto simp: permits_def permitted_connection_types_def)
qed

lemma finite_permitted_connection_types [simp]:
  "finite (permitted_connection_types rs src tgt)"
  by (simp add: permitted_connection_types_def)

lemma permits_filter_to:
  "permits (filter_to rs es cs) src tgt c \<longleftrightarrow>
     permits rs src tgt c \<and> src \<in> es \<and> tgt \<in> es \<and> c \<in> cs"
  by (auto simp: permits_def filter_to_def)

lemma permits_union_rules:
  "permits (union_rules rs qs) src tgt c \<longleftrightarrow> permits rs src tgt c \<or> permits qs src tgt c"
  by (auto simp: permits_def union_rules_def)

lemma permits_stable_rules: "permits (stable_rules rs) = permits rs"
  by (simp add: permits_def stable_rules_def fun_eq_iff)

end
