(* ===== verification/Derivation_Rules.thy ===== *)
theory Derivation_Rules
  imports Ontology_Types
begin

text \<open>
  The declarative rules of relationship derivation: pairwise composition
  (\<^verbatim>\<open>src/domain/relationships/relationship_derivation_rules.py\<close>) and the restrictions on what may be
  derived (\<^verbatim>\<open>relationship_derivation_restrictions.py\<close>), with the validation both make of
  ontology-supplied data. Reading the YAML file itself is not modelled: the parsers start at the
  object the YAML reader returns.
\<close>

section \<open>Composition rules\<close>

datatype certainty = Certain | Potential

datatype join = TargetSource | TargetTarget | SourceSource | SourceTarget

datatype rule_end = FirstSource | FirstTarget | SecondSource | SecondTarget

datatype result_selector = RFirst | RSecond | RWeakest | RSpecialization | RTriggering | RFlow

record composition_rule =
  rule_ref :: string
  rule_certainty :: certainty
  first_role :: string
  second_role :: string
  rule_result :: result_selector
  rule_join :: join
  result_source :: rule_end
  result_target :: rule_end
  first_artifact_type :: "string option"
  second_artifact_type :: "string option"
  second_artifact_types :: "string list"
  intermediate_artifact_type :: "string option"
  intermediate_class :: "string option"
  excluded_intermediate_classes :: "string set"
  requires_same_connection_type :: bool
  requires_permitted_result :: bool

datatype rule_error =
    RulesNotASequence
  | RuleNotAMapping
  | RuleMisses string
  | UnknownCertainty string
  | UnknownResult string
  | UnknownJoin string
  | UnknownResultEnd
  | ArtifactTypeNotAString
  | ArtifactTypesNotASequence
  | ArtifactTypesNotStrings
  | RuleFlagNotABoolean

definition certainty_named :: "string \<rightharpoonup> certainty" where
  "certainty_named = map_of [(''certain'', Certain), (''potential'', Potential)]"

definition result_named :: "string \<rightharpoonup> result_selector" where
  "result_named = map_of [(''first'', RFirst), (''second'', RSecond), (''weakest'', RWeakest),
     (''specialization'', RSpecialization), (''triggering'', RTriggering), (''flow'', RFlow)]"

definition join_named :: "string \<rightharpoonup> join" where
  "join_named = map_of [(''target-source'', TargetSource), (''target-target'', TargetTarget),
     (''source-source'', SourceSource), (''source-target'', SourceTarget)]"

definition end_named :: "string \<rightharpoonup> rule_end" where
  "end_named = map_of [(''first-source'', FirstSource), (''first-target'', FirstTarget),
     (''second-source'', SecondSource), (''second-target'', SecondTarget)]"

definition optional_string :: "pyval \<Rightarrow> (rule_error, string option) result" where
  "optional_string v = (case v of PNone \<Rightarrow> Ok None | PStr s \<Rightarrow> Ok (Some s) | _ \<Rightarrow> Err ArtifactTypeNotAString)"

fun all_strings :: "pyval list \<Rightarrow> string list option" where
  "all_strings [] = Some []"
| "all_strings (PStr s # vs) = map_option ((#) s) (all_strings vs)"
| "all_strings (_ # vs) = None"

definition string_sequence :: "pyval \<Rightarrow> (rule_error, string list) result" where
  "string_sequence v =
     (case sequence_items v of
        None \<Rightarrow> Err ArtifactTypesNotASequence
      | Some vs \<Rightarrow> (case all_strings vs of None \<Rightarrow> Err ArtifactTypesNotStrings | Some ss \<Rightarrow> Ok ss))"

definition rule_bool :: "pyval \<Rightarrow> (rule_error, bool) result" where
  "rule_bool v = (case v of PBool b \<Rightarrow> Ok b | _ \<Rightarrow> Err RuleFlagNotABoolean)"

definition required :: "payload \<Rightarrow> string \<Rightarrow> (rule_error, string) result" where
  "required item key = (case map_of item key of None \<Rightarrow> Err (RuleMisses key) | Some v \<Rightarrow> Ok (py_str v))"

definition get_str :: "payload \<Rightarrow> string \<Rightarrow> string \<Rightarrow> string" where
  "get_str item key d = py_str (get_or item key (PStr d))"

definition composition_rule_of :: "payload \<Rightarrow> (rule_error, composition_rule) result" where
  "composition_rule_of item =
     bind_result (required item ''certainty'') (\<lambda>certainty_text.
     bind_result (required item ''result'') (\<lambda>result_text.
     let join_text = get_str item ''join'' ''target-source'';
         source_text = get_str item ''result_source'' ''first-source'';
         target_text = get_str item ''result_target'' ''second-target'' in
     case certainty_named certainty_text of None \<Rightarrow> Err (UnknownCertainty certainty_text)
     | Some cert \<Rightarrow> case result_named result_text of None \<Rightarrow> Err (UnknownResult result_text)
     | Some res \<Rightarrow> case join_named join_text of None \<Rightarrow> Err (UnknownJoin join_text)
     | Some jn \<Rightarrow> case (end_named source_text, end_named target_text) of
         (Some src, Some tgt) \<Rightarrow>
     bind_result (required item ''spec_ref'') (\<lambda>ref.
     bind_result (required item ''first_role'') (\<lambda>role1.
     bind_result (required item ''second_role'') (\<lambda>role2.
     bind_result (optional_string (get_or item ''first_artifact_type'' PNone)) (\<lambda>type1.
     bind_result (optional_string (get_or item ''second_artifact_type'' PNone)) (\<lambda>type2.
     bind_result (string_sequence (get_or item ''second_artifact_types'' (PTuple []))) (\<lambda>types2.
     bind_result (optional_string (get_or item ''intermediate_artifact_type'' PNone)) (\<lambda>mid_type.
     bind_result (optional_string (get_or item ''intermediate_class'' PNone)) (\<lambda>mid_class.
     bind_result (rule_bool (get_or item ''requires_same_connection_type'' (PBool False))) (\<lambda>same.
     bind_result (rule_bool (get_or item ''requires_permitted_result'' (PBool False))) (\<lambda>permitted.
       Ok \<lparr>rule_ref = ref, rule_certainty = cert, first_role = role1, second_role = role2,
           rule_result = res, rule_join = jn, result_source = src, result_target = tgt,
           first_artifact_type = type1, second_artifact_type = type2,
           second_artifact_types = types2, intermediate_artifact_type = mid_type,
           intermediate_class = mid_class, excluded_intermediate_classes = {},
           requires_same_connection_type = same, requires_permitted_result = permitted\<rparr>))))))))))
       | _ \<Rightarrow> Err UnknownResultEnd))"

definition with_class_exclusivity :: "composition_rule list \<Rightarrow> composition_rule list" where
  "with_class_exclusivity rules =
     (let claimed = set (List.map_filter intermediate_class rules) in
      if claimed = {} then rules
      else map (\<lambda>r. if intermediate_class r \<noteq> None then r
                     else r\<lparr>excluded_intermediate_classes := claimed\<rparr>) rules)"

definition mapping_item :: "pyval \<Rightarrow> (rule_error, composition_rule) result" where
  "mapping_item v = (case v of PDict item \<Rightarrow> composition_rule_of item | _ \<Rightarrow> Err RuleNotAMapping)"

definition composition_rules_from_mapping :: "pyval \<Rightarrow> (rule_error, composition_rule list) result" where
  "composition_rules_from_mapping raw =
     (case sequence_items raw of
        None \<Rightarrow> Err RulesNotASequence
      | Some items \<Rightarrow> bind_result (traverse mapping_item items) (\<lambda>rules. Ok (with_class_exclusivity rules)))"

section \<open>Restrictions\<close>

record derivation_restriction =
  restriction_ref :: string
  source_domains :: "derivation_domain_name set"
  target_domains :: "derivation_domain_name set"
  target_domains_excluded :: "derivation_domain_name set"
  source_artifact_types :: "string set"
  source_artifact_types_excluded :: "string set"
  intermediate_artifact_types :: "string set"
  intermediate_classes_excluded :: "string set"
  source_passive :: "bool option"
  target_passive :: "bool option"
  connection_artifact_types :: "string set"
  allowed_connection_artifact_types :: "string set"
  intermediate_domain_must_match_endpoint :: bool
  intermediate_domain_exception :: bool
  always_disallow :: bool

definition is_passive :: "entity_type_info \<Rightarrow> bool" where
  "is_passive info \<longleftrightarrow> ''passive-structure-element'' \<in> set (etype_classes info)"

definition restriction_matches ::
    "derivation_restriction \<Rightarrow> entity_type_info \<Rightarrow> entity_type_info \<Rightarrow> connection_type_info
      \<Rightarrow> entity_type_info \<Rightarrow> derivation_domain_name \<Rightarrow> derivation_domain_name
      \<Rightarrow> derivation_domain_name \<Rightarrow> bool" where
  "restriction_matches rule src tgt conn mid sd td md =
     (if source_domains rule \<noteq> {} \<and> sd \<notin> source_domains rule then False
      else if target_domains rule \<noteq> {} \<and> td \<notin> target_domains rule then False
      else if target_domains_excluded rule \<noteq> {} \<and> td \<in> target_domains_excluded rule then False
      else if source_artifact_types rule \<noteq> {} \<and> etype_name src \<notin> source_artifact_types rule then False
      else if source_artifact_types_excluded rule \<noteq> {} \<and>
        etype_name src \<in> source_artifact_types_excluded rule then False
      else if intermediate_artifact_types rule \<noteq> {} \<and>
        etype_name mid \<notin> intermediate_artifact_types rule then False
      else if intermediate_classes_excluded rule \<inter> set (etype_classes mid) \<noteq> {} then False
      else if source_passive rule \<noteq> None \<and> Some (is_passive src) \<noteq> source_passive rule then False
      else if target_passive rule \<noteq> None \<and> Some (is_passive tgt) \<noteq> target_passive rule then False
      else if connection_artifact_types rule \<noteq> {} \<and>
        ctype_name conn \<notin> connection_artifact_types rule then False
      else if intermediate_domain_must_match_endpoint rule \<and> md \<notin> {sd, td}
      then (if \<not> (intermediate_domain_exception rule \<and> sd = ImplementationMigration \<and> md = Core \<and>
                 td \<in> {Motivation, Strategy}) then True else False)
      else if intermediate_domain_must_match_endpoint rule then False
      else True)"

definition permits_derived_relationship ::
    "entity_type_info \<Rightarrow> entity_type_info \<Rightarrow> connection_type_info \<Rightarrow> entity_type_info
      \<Rightarrow> derivation_restriction list \<Rightarrow> (derivation_error, bool) result" where
  "permits_derived_relationship src tgt conn mid rules =
     bind_result (derivation_domain src) (\<lambda>sd.
     bind_result (derivation_domain tgt) (\<lambda>td.
     bind_result (derivation_domain mid) (\<lambda>md.
       Ok (\<forall>rule \<in> set rules. restriction_matches rule src tgt conn mid sd td md \<longrightarrow>
             \<not> always_disallow rule \<and> ctype_name conn \<in> allowed_connection_artifact_types rule))))"

datatype restriction_error =
    RestrictionsNotASequence
  | RestrictionNotAMapping
  | RestrictionMisses string
  | RestrictionKeyNotAString string
  | RestrictionValuesNotStrings
  | UnknownDerivationDomain
  | RestrictionFlagNotABoolean

definition domain_named :: "string \<rightharpoonup> derivation_domain_name" where
  "domain_named = map_of [(''motivation'', Motivation), (''strategy'', Strategy), (''core'', Core),
     (''implementation_migration'', ImplementationMigration), (''relationships'', Relationships)]"

definition required_string :: "payload \<Rightarrow> string \<Rightarrow> (restriction_error, string) result" where
  "required_string item key =
     (case map_of item key of
        None \<Rightarrow> Err (RestrictionMisses key)
      | Some (PStr s) \<Rightarrow> Ok s
      | Some _ \<Rightarrow> Err (RestrictionKeyNotAString key))"

definition restriction_strings :: "pyval \<Rightarrow> (restriction_error, string list) result" where
  "restriction_strings v =
     (case sequence_items v of
        None \<Rightarrow> Err RestrictionValuesNotStrings
      | Some vs \<Rightarrow> (case all_strings vs of None \<Rightarrow> Err RestrictionValuesNotStrings | Some ss \<Rightarrow> Ok ss))"

definition restriction_domains :: "pyval \<Rightarrow> (restriction_error, derivation_domain_name set) result" where
  "restriction_domains v =
     bind_result (restriction_strings v) (\<lambda>ss.
       if \<not> set ss \<subseteq> dom domain_named then Err UnknownDerivationDomain
       else Ok (set (List.map_filter domain_named ss)))"

definition restriction_bool :: "pyval \<Rightarrow> (restriction_error, bool) result" where
  "restriction_bool v = (case v of PBool b \<Rightarrow> Ok b | _ \<Rightarrow> Err RestrictionFlagNotABoolean)"

definition restriction_optional_bool :: "pyval \<Rightarrow> (restriction_error, bool option) result" where
  "restriction_optional_bool v =
     (case v of PNone \<Rightarrow> Ok None | _ \<Rightarrow> bind_result (restriction_bool v) (\<lambda>b. Ok (Some b)))"

abbreviation seq_of :: "payload \<Rightarrow> string \<Rightarrow> pyval" where
  "seq_of item key \<equiv> get_or item key (PTuple [])"

definition restriction_of :: "payload \<Rightarrow> (restriction_error, derivation_restriction) result" where
  "restriction_of item =
     bind_result (required_string item ''spec_ref'') (\<lambda>ref.
     bind_result (restriction_domains (seq_of item ''source_domains'')) (\<lambda>sd.
     bind_result (restriction_domains (seq_of item ''target_domains'')) (\<lambda>td.
     bind_result (restriction_domains (seq_of item ''target_domains_excluded'')) (\<lambda>tdx.
     bind_result (restriction_strings (seq_of item ''source_artifact_types'')) (\<lambda>sat.
     bind_result (restriction_strings (seq_of item ''source_artifact_types_excluded'')) (\<lambda>satx.
     bind_result (restriction_strings (seq_of item ''intermediate_artifact_types'')) (\<lambda>iat.
     bind_result (restriction_strings (seq_of item ''intermediate_classes_excluded'')) (\<lambda>icx.
     bind_result (restriction_optional_bool (get_or item ''source_passive'' PNone)) (\<lambda>sp.
     bind_result (restriction_optional_bool (get_or item ''target_passive'' PNone)) (\<lambda>tp.
     bind_result (restriction_strings (seq_of item ''connection_artifact_types'')) (\<lambda>cat.
     bind_result (restriction_strings (seq_of item ''allowed_connection_artifact_types'')) (\<lambda>acat.
     bind_result (restriction_bool
       (get_or item ''intermediate_domain_must_match_endpoint'' (PBool False))) (\<lambda>must.
     bind_result (restriction_bool (get_or item ''intermediate_domain_exception'' (PBool False))) (\<lambda>exc.
     bind_result (restriction_bool (get_or item ''always_disallow'' (PBool False))) (\<lambda>never.
       Ok \<lparr>restriction_ref = ref, source_domains = sd, target_domains = td,
           target_domains_excluded = tdx, source_artifact_types = set sat,
           source_artifact_types_excluded = set satx, intermediate_artifact_types = set iat,
           intermediate_classes_excluded = set icx, source_passive = sp, target_passive = tp,
           connection_artifact_types = set cat, allowed_connection_artifact_types = set acat,
           intermediate_domain_must_match_endpoint = must, intermediate_domain_exception = exc,
           always_disallow = never\<rparr>)))))))))))))))"

definition restriction_rules_from_mapping ::
    "pyval \<Rightarrow> (restriction_error, derivation_restriction list) result" where
  "restriction_rules_from_mapping raw =
     (case sequence_items raw of
        None \<Rightarrow> Err RestrictionsNotASequence
      | Some items \<Rightarrow> traverse (\<lambda>v. case v of PDict item \<Rightarrow> restriction_of item
                                      | _ \<Rightarrow> Err RestrictionNotAMapping) items)"

end
