(* ===== verification/Ontology_Modules.thy ===== *)
theory Ontology_Modules
  imports Derivation_Rules
begin

text \<open>
  Specializations (\<^verbatim>\<open>src/domain/ontology_representation/specializations.py\<close>) and the classification
  levels of an ontology (\<^verbatim>\<open>classification_levels.py\<close>): the two declarations that decide whether a
  drawn link is refused, narrowed or permitted. Notation, attributes and guidance of a
  specialization are never read by the modelled code and have no field.
\<close>

section \<open>Specializations\<close>

record relationship_restriction =
  rr_connection_type :: string
  rr_source_type :: "string option"
  rr_target_type :: "string option"

record endpoint_restriction =
  er_source_types :: "string set"
  er_target_types :: "string set"

datatype concept_kind = EntityConcept | ConnectionConcept

record specialization_info =
  slug :: string
  concept :: concept_kind
  parent_type :: string
  module_alias :: string
  restrict_relationships :: "relationship_restriction list"
  restrict_endpoints :: "endpoint_restriction list"

definition relationship_restriction_allows ::
    "relationship_restriction \<Rightarrow> string \<Rightarrow> string \<Rightarrow> string \<Rightarrow> bool" where
  "relationship_restriction_allows r conn src tgt =
     (if rr_connection_type r \<noteq> conn then False
      else (rr_source_type r = None \<or> rr_source_type r = Some src) \<and>
           (rr_target_type r = None \<or> rr_target_type r = Some tgt))"

definition endpoint_restriction_allows ::
    "endpoint_restriction \<Rightarrow> string \<Rightarrow> string \<Rightarrow> bool" where
  "endpoint_restriction_allows r src tgt =
     ((er_source_types r = {} \<or> src \<in> er_source_types r) \<and>
      (er_target_types r = {} \<or> tgt \<in> er_target_types r))"

definition specialization_narrows ::
    "specialization_info \<Rightarrow> string \<Rightarrow> string \<Rightarrow> string \<Rightarrow> bool" where
  "specialization_narrows info conn src tgt =
     (if restrict_relationships info \<noteq> [] \<and>
         \<not> (\<exists>r \<in> set (restrict_relationships info). relationship_restriction_allows r conn src tgt)
      then True
      else restrict_endpoints info \<noteq> [] \<and>
         \<not> (\<exists>r \<in> set (restrict_endpoints info). endpoint_restriction_allows r src tgt))"

datatype catalog_error =
    DuplicateSpecialization string concept_kind string string
  | AmbiguousSpecialization concept_kind string string

definition spec_key :: "specialization_info \<Rightarrow> string \<times> concept_kind \<times> string \<times> string" where
  "spec_key i = (module_alias i, concept i, parent_type i, slug i)"

text \<open>The check a catalog makes of its entries when it is constructed.\<close>

fun catalog_of_from ::
    "specialization_info list \<Rightarrow> (string \<times> concept_kind \<times> string \<times> string) set
      \<Rightarrow> (catalog_error, unit) result" where
  "catalog_of_from [] seen = Ok ()"
| "catalog_of_from (e # es) seen =
     (if spec_key e \<in> seen
      then Err (DuplicateSpecialization (module_alias e) (concept e) (parent_type e) (slug e))
      else catalog_of_from es (insert (spec_key e) seen))"

definition catalog_of ::
    "specialization_info list \<Rightarrow> (catalog_error, specialization_info list) result" where
  "catalog_of entries = bind_result (catalog_of_from entries {}) (\<lambda>_. Ok entries)"

definition merge_specialization_catalogs ::
    "specialization_info list list \<Rightarrow> (catalog_error, specialization_info list) result" where
  "merge_specialization_catalogs catalogs = catalog_of (concat catalogs)"

definition for_type ::
    "specialization_info list \<Rightarrow> concept_kind \<Rightarrow> string \<Rightarrow> string option \<Rightarrow> specialization_info list"
where
  "for_type entries k parent alias = filter (\<lambda>e. concept e = k \<and> parent_type e = parent \<and>
     (alias = None \<or> alias = Some (module_alias e))) entries"

definition catalog_get ::
    "specialization_info list \<Rightarrow> concept_kind \<Rightarrow> string \<Rightarrow> string \<Rightarrow> string option
      \<Rightarrow> (catalog_error, specialization_info option) result" where
  "catalog_get entries k parent s alias =
     (case filter (\<lambda>e. slug e = s) (for_type entries k parent alias) of
        [] \<Rightarrow> Ok None
      | [e] \<Rightarrow> Ok (Some e)
      | _ \<Rightarrow> Err (AmbiguousSpecialization k parent s))"

section \<open>Classification levels\<close>

datatype level_source = FromHierarchy | FromType | FromSpecializations

record classification_level =
  level_id :: string
  level_label :: string
  level_source :: level_source
  level_required :: bool
  keys_relationships :: bool
  narrows_relationships :: bool
  carries_attributes :: bool

datatype levels_error =
    DuplicateLevels "string list"
  | KeyingLevels "string list"
  | NarrowingAboveKeying "string list"
  | NoAttributeLevel

definition DERIVED_DEFAULT_LEVELS :: "classification_level list" where
  "DERIVED_DEFAULT_LEVELS =
     [\<lparr>level_id = ''domain'', level_label = ''Domain'', level_source = FromHierarchy,
       level_required = True, keys_relationships = False, narrows_relationships = False,
       carries_attributes = False\<rparr>,
      \<lparr>level_id = ''entity_type'', level_label = ''Entity type'', level_source = FromType,
       level_required = True, keys_relationships = True, narrows_relationships = False,
       carries_attributes = True\<rparr>,
      \<lparr>level_id = ''specialization'', level_label = ''Specialization'',
       level_source = FromSpecializations, level_required = False, keys_relationships = False,
       narrows_relationships = True, carries_attributes = True\<rparr>]"

fun keying_index :: "classification_level list \<Rightarrow> nat" where
  "keying_index [] = 0"
| "keying_index (l # ls) = (if keys_relationships l then 0 else Suc (keying_index ls))"

definition validate_classification_levels ::
    "classification_level list \<Rightarrow> (levels_error, unit) result" where
  "validate_classification_levels levels =
     (let ids = map level_id levels;
          duplicates = sorted_list_of_set {i \<in> set ids. 1 < count_list ids i};
          keying = map level_id (filter keys_relationships levels)
      in if duplicates \<noteq> [] then Err (DuplicateLevels duplicates)
         else if length keying \<noteq> 1 then Err (KeyingLevels keying)
         else let above = map level_id (filter narrows_relationships (take (keying_index levels) levels))
              in if above \<noteq> [] then Err (NarrowingAboveKeying above)
                 else if \<not> (\<exists>l \<in> set levels. carries_attributes l) then Err NoAttributeLevel
                 else Ok ())"

text \<open>\<^verbatim>\<open>next(...)\<close> over no keying level raises \<^verbatim>\<open>StopIteration\<close>, the \<^const>\<open>None\<close> of this definition.\<close>

definition relationship_keying_level :: "classification_level list \<Rightarrow> classification_level option" where
  "relationship_keying_level levels = List.find keys_relationships levels"

definition attribute_level ::
    "classification_level list \<Rightarrow> string list \<Rightarrow> classification_level option" where
  "attribute_level levels reached =
     (let candidates = filter (\<lambda>l. carries_attributes l \<and> level_id l \<in> set reached) levels in
      if candidates = [] then None else Some (last candidates))"

definition is_liftable :: "classification_level list \<Rightarrow> string list \<Rightarrow> bool" where
  "is_liftable levels reached = (\<forall>l \<in> set levels. level_required l \<longrightarrow> level_id l \<in> set reached)"

section \<open>Facts\<close>

lemma catalog_of_from_iff:
  "catalog_of_from es seen = Inr u \<longleftrightarrow> distinct (map spec_key es) \<and> spec_key ` set es \<inter> seen = {}"
  by (induction es arbitrary: seen) auto

lemma catalog_of_iff: "catalog_of es = Inr cat \<longleftrightarrow> distinct (map spec_key es) \<and> cat = es"
  by (auto simp: catalog_of_def bind_result_eq_Inr catalog_of_from_iff)

text \<open>Given an alias, a lookup in a constructed catalog is never ambiguous.\<close>

lemma catalog_get_alias:
  assumes "catalog_of es = Inr cat"
  shows "\<exists>r. catalog_get cat k parent s (Some a) = Inr r"
proof -
  let ?ms = "filter (\<lambda>e. slug e = s) (for_type cat k parent (Some a))"
  have d: "distinct (map spec_key es)" and cat: "cat = es"
    using assms by (auto simp: catalog_of_iff)
  have "distinct (map spec_key ?ms)"
    unfolding cat for_type_def by (intro distinct_map_filter d)
  moreover have "\<forall>e \<in> set ?ms. spec_key e = (a, k, parent, s)"
    by (auto simp: for_type_def spec_key_def)
  ultimately have "length ?ms \<le> 1" by (rule distinct_const_length)
  then show ?thesis
    by (cases ?ms; cases "tl ?ms") (auto simp: catalog_get_def)
qed

lemma keying_index_find:
  "\<exists>l \<in> set ls. keys_relationships l \<Longrightarrow>
   relationship_keying_level ls = Some (ls ! keying_index ls) \<and> keying_index ls < length ls"
  by (induction ls) (auto simp: relationship_keying_level_def)

lemma validate_levels_keying:
  assumes "validate_classification_levels ls = Inr u"
  shows "\<exists>k. relationship_keying_level ls = Some (ls ! k) \<and> k < length ls \<and>
    (\<forall>i < length ls. keys_relationships (ls ! i) \<longleftrightarrow> i = k) \<and>
    (\<forall>i < length ls. narrows_relationships (ls ! i) \<longrightarrow> k \<le> i)"
proof -
  let ?k = "keying_index ls"
  have len: "length (filter keys_relationships ls) = 1"
    and above: "\<forall>l \<in> set (take ?k ls). \<not> narrows_relationships l"
    using assms by (auto simp: validate_classification_levels_def Let_def filter_empty_conv
        split: if_splits)
  then obtain x where x: "filter keys_relationships ls = [x]" by (auto simp: length_Suc_conv)
  then have "\<exists>l \<in> set ls. keys_relationships l" by (metis filter_empty_conv list.distinct(1))
  note k = keying_index_find [OF this]
  have "card {i. i < length ls \<and> keys_relationships (ls ! i)} = 1"
    using len by (simp add: length_filter_conv_card)
  then obtain j where j: "{i. i < length ls \<and> keys_relationships (ls ! i)} = {j}"
    by (auto simp: card_1_singleton_iff)
  have "keys_relationships (ls ! ?k)"
    using k find_Some_mem [of keys_relationships ls] unfolding relationship_keying_level_def by blast
  with k have "?k \<in> {i. i < length ls \<and> keys_relationships (ls ! i)}" by simp
  then have jk: "j = ?k" unfolding j by simp
  have only: "keys_relationships (ls ! i) \<longleftrightarrow> i = ?k" if "i < length ls" for i
    using j that unfolding jk by blast
  have "?k \<le> i" if "i < length ls" "narrows_relationships (ls ! i)" for i
  proof (rule ccontr)
    assume "\<not> ?k \<le> i"
    with that(1) have "take ?k ls ! i = ls ! i" and "i < length (take ?k ls)" by simp_all
    then have "ls ! i \<in> set (take ?k ls)" by (metis nth_mem)
    with above that(2) show False by blast
  qed
  with k only show ?thesis by blast
qed

section \<open>Registered modules\<close>

text \<open>
  A registered ontology module and a registered diagram-type module
  (\<^verbatim>\<open>src/domain/ontology_representation/ontology_protocol.py\<close>, with the class indexes every loader
  under \<^verbatim>\<open>src/ontologies\<close> builds), as far as the modelled code reads them. A Python dictionary is an
  association list with distinct keys in insertion order. \<open>declared_levels\<close> is \<^const>\<open>None\<close> for a module
  that declares no classification levels of its own, and \<open>declared_domain_order\<close> is empty for one
  that declares no order of its layers.
\<close>

record element_class_info =
  eclass_name :: string
  eclass_description :: string

record ontology_module =
  ontology_name :: string
  entity_types :: "(string \<times> entity_type_info) list"
  connection_types :: "(string \<times> connection_type_info) list"
  permitted_relationships :: permitted_relationship_set
  derivation_rules :: "composition_rule list"
  derivation_restrictions :: "derivation_restriction list"
  element_classes :: "(string \<times> element_class_info) list"
  specialization_catalog :: "specialization_info list"
  declared_levels :: "classification_level list option"
  declared_domain_order :: "string list"

text \<open>A diagram-owned entity type: its name and whether global search includes it.\<close>

record diagram_own_type =
  own_type_name :: string
  include_in_global_search :: bool

record diagram_type_module =
  diagram_type_name :: string
  own_connection_types :: "(string \<times> connection_type_info) list"
  diagram_only_types :: "diagram_own_type list"
  diagram_element_classes :: "(string \<times> element_class_info) list"

definition module_types_with_class :: "ontology_module \<Rightarrow> string \<Rightarrow> string set" where
  "module_types_with_class m cls = fst ` {e \<in> set (entity_types m). cls \<in> set (etype_classes (snd e))}"

definition module_connections_with_class :: "ontology_module \<Rightarrow> string \<Rightarrow> string set" where
  "module_connections_with_class m cls =
     fst ` {e \<in> set (connection_types m). cls \<in> set (ctype_classes (snd e))}"

text \<open>A module that declares nothing: the base of the samples.\<close>

definition empty_ontology :: "string \<Rightarrow> ontology_module" where
  "empty_ontology name =
     \<lparr>ontology_name = name, entity_types = [], connection_types = [], permitted_relationships = [],
      derivation_rules = [], derivation_restrictions = [], element_classes = [],
      specialization_catalog = [], declared_levels = None, declared_domain_order = []\<rparr>"

end
