(* ===== verification/Link_Verdict.thy ===== *)
theory Link_Verdict
  imports Ontology_Modules
begin

text \<open>
  What the canvas may say about a drawn link (\<^verbatim>\<open>src/domain/scratchpad/link_verdict.py\<close>) and how the
  application hands the ontology to it (\<^verbatim>\<open>src/application/scratchpad/verification.py\<close>). The message of
  a verdict is the constructor of the sentence with the names it quotes.
\<close>

section \<open>Verdicts\<close>

datatype verdict_kind = Unverified | Reference | Permitted | Narrowed | Refused

datatype verdict_message =
    NoMessage
  | BecomesReference
  | NoRelation string string
  | NotAPermittedTriple string string string bool
  | RestrictedBy string string string
  | PermittedHere string

record link_verdict =
  kind :: verdict_kind
  code :: string
  message :: verdict_message
  alternatives :: "string list"
  reverse_permitted :: bool
  narrowed_by :: string

definition verdict :: "verdict_kind \<Rightarrow> link_verdict" where
  "verdict k = \<lparr>kind = k, code = [], message = NoMessage, alternatives = [],
                reverse_permitted = False, narrowed_by = []\<rparr>"

definition blocks :: "link_verdict \<Rightarrow> bool" where
  "blocks v \<longleftrightarrow> kind v = Refused"

definition is_settled :: "link_verdict \<Rightarrow> bool" where
  "is_settled v \<longleftrightarrow> kind v \<noteq> Unverified"

record endpoint =
  ep_destination :: string
  ep_element_type :: "string option"
  ep_specialization :: "string option"
  ep_document_type :: "string option"

definition is_element :: "endpoint \<Rightarrow> bool" where
  "is_element e \<longleftrightarrow> ep_destination e = ''element'' \<and> truthy (ep_element_type e)"

definition is_document :: "endpoint \<Rightarrow> bool" where
  "is_document e \<longleftrightarrow> ep_destination e = ''document''"

definition UNVERIFIED :: link_verdict where
  "UNVERIFIED = verdict Unverified"

definition REFERENCE :: link_verdict where
  "REFERENCE = (verdict Reference)\<lparr>message := BecomesReference\<rparr>"

definition or_empty :: "string option \<Rightarrow> string" where
  "or_empty s = (case s of None \<Rightarrow> [] | Some t \<Rightarrow> t)"

type_synonym 'e narrowing = "string \<Rightarrow> string \<Rightarrow> string \<Rightarrow> string \<Rightarrow> ('e, string option) result"

fun narrowing_slug_in ::
    "string option list \<Rightarrow> 'e narrowing \<Rightarrow> string \<Rightarrow> string \<Rightarrow> string \<Rightarrow> ('e, string) result" where
  "narrowing_slug_in [] narrows conn src tgt = Ok []"
| "narrowing_slug_in (s # ss) narrows conn src tgt =
     (if \<not> truthy s then narrowing_slug_in ss narrows conn src tgt
      else bind_result (narrows (the s) conn src tgt) (\<lambda>found.
        if truthy found then Ok (the found) else narrowing_slug_in ss narrows conn src tgt))"

definition narrowing_slug ::
    "endpoint \<Rightarrow> endpoint \<Rightarrow> string \<Rightarrow> string \<Rightarrow> string \<Rightarrow> 'e narrowing option \<Rightarrow> ('e, string) result"
where
  "narrowing_slug source target conn src tgt narrows =
     (case narrows of
        None \<Rightarrow> Ok []
      | Some f \<Rightarrow> narrowing_slug_in [ep_specialization source, ep_specialization target] f conn src tgt)"

definition verify_link ::
    "endpoint \<Rightarrow> endpoint \<Rightarrow> string option \<Rightarrow> (string \<Rightarrow> string \<Rightarrow> string \<Rightarrow> bool)
      \<Rightarrow> (string \<Rightarrow> string \<Rightarrow> string list) \<Rightarrow> 'e narrowing option \<Rightarrow> ('e, link_verdict) result" where
  "verify_link source target conn allows permitted_types narrows =
     (if is_document source \<and> is_document target then Ok UNVERIFIED
      else if is_document source \<or> is_document target
      then Ok (if is_element source \<or> is_element target then REFERENCE else UNVERIFIED)
      else if \<not> (is_element source \<and> is_element target) then Ok UNVERIFIED
      else
        let src = or_empty (ep_element_type source); tgt = or_empty (ep_element_type target) in
        case conn of
          None \<Rightarrow>
            (let options = permitted_types src tgt in
             if options \<noteq> [] then Ok ((verdict Unverified)\<lparr>alternatives := options\<rparr>)
             else Ok ((verdict Refused)\<lparr>code := ''E126'', message := NoRelation src tgt,
                    reverse_permitted := permitted_types tgt src \<noteq> []\<rparr>))
        | Some c \<Rightarrow>
            if \<not> allows src c tgt
            then (let reverse = allows tgt c src in
                  Ok ((verdict Refused)\<lparr>code := ''E126'',
                    message := NotAPermittedTriple src c tgt reverse,
                    alternatives := permitted_types src tgt, reverse_permitted := reverse\<rparr>))
            else bind_result (narrowing_slug source target c src tgt narrows) (\<lambda>by_slug.
              if by_slug \<noteq> []
              then Ok ((verdict Narrowed)\<lparr>code := ''W128'', message := RestrictedBy by_slug src tgt,
                     narrowed_by := by_slug\<rparr>)
              else Ok ((verdict Permitted)\<lparr>message := PermittedHere c\<rparr>)))"

section \<open>The ontology handed over\<close>

definition classification_levels_for :: "ontology_module \<Rightarrow> classification_level list" where
  "classification_levels_for m =
     (case declared_levels m of Some ls \<Rightarrow> ls | None \<Rightarrow> DERIVED_DEFAULT_LEVELS)"

definition dashed :: "string \<Rightarrow> string" where
  "dashed s = map (\<lambda>c. if c = CHR ''_'' then CHR ''-'' else c) s"

definition starts_with :: "string \<Rightarrow> string \<Rightarrow> bool" where
  "starts_with p s \<longleftrightarrow> take (length p) s = p"

definition normalized_name :: "string \<Rightarrow> string" where
  "normalized_name s = rev (dropWhile (\<lambda>c. c = CHR ''-'') (rev (dashed s)))"

fun module_by_alias :: "(string \<times> ontology_module) list \<Rightarrow> string \<Rightarrow> ontology_module option" where
  "module_by_alias [] mo = None"
| "module_by_alias ((name, m) # ms) mo =
     (if dashed name = normalized_name mo \<or> starts_with (normalized_name mo @ ''-'') (dashed name)
      then Some m else module_by_alias ms mo)"

definition module_for :: "(string \<times> ontology_module) list \<Rightarrow> string \<Rightarrow> ontology_module option" where
  "module_for modules mo =
     (case map_of modules mo of Some m \<Rightarrow> Some m | None \<Rightarrow> module_by_alias modules mo)"

fun probe_narrowing ::
    "specialization_info list \<Rightarrow> (concept_kind \<times> string) list \<Rightarrow> string \<Rightarrow> string \<Rightarrow> string \<Rightarrow> string
      \<Rightarrow> (catalog_error, string option) result" where
  "probe_narrowing cat [] s conn src tgt = Ok None"
| "probe_narrowing cat ((k, parent) # ps) s conn src tgt =
     bind_result (catalog_get cat k parent s None) (\<lambda>info.
       case info of
         Some i \<Rightarrow> if specialization_narrows i conn src tgt then Ok (Some s)
                   else probe_narrowing cat ps s conn src tgt
       | None \<Rightarrow> probe_narrowing cat ps s conn src tgt)"

definition narrowing_probe :: "ontology_module \<Rightarrow> catalog_error narrowing option" where
  "narrowing_probe m =
     (if \<not> (\<exists>l \<in> set (classification_levels_for m). narrows_relationships l) then None
      else Some (\<lambda>s conn src tgt. probe_narrowing (specialization_catalog m)
        [(EntityConcept, src), (EntityConcept, tgt), (ConnectionConcept, conn)] s conn src tgt))"

definition module_permits :: "ontology_module \<Rightarrow> string \<Rightarrow> string \<Rightarrow> string \<Rightarrow> bool" where
  "module_permits m src conn tgt = permits (permitted_relationships m) src tgt conn"

definition module_permitted_types :: "ontology_module \<Rightarrow> string \<Rightarrow> string \<Rightarrow> string list" where
  "module_permitted_types m src tgt =
     sorted_list_of_set (permitted_connection_types (permitted_relationships m) src tgt)"

definition verdict_for ::
    "(string \<times> ontology_module) list \<Rightarrow> string \<Rightarrow> endpoint \<Rightarrow> endpoint \<Rightarrow> string option
      \<Rightarrow> (catalog_error, link_verdict) result" where
  "verdict_for modules mo source target conn =
     (case module_for modules mo of
        None \<Rightarrow> verify_link source target conn (\<lambda>_ _ _. False) (\<lambda>_ _. []) None
      | Some m \<Rightarrow> verify_link source target conn (module_permits m) (module_permitted_types m)
                  (narrowing_probe m))"

section \<open>The contract between the verdict and the ontology\<close>

text \<open>
  What the verdicts rely on: the list offered for an ordered pair is the list of the types the
  predicate admits for it.
\<close>

locale relation_oracle =
  fixes allows :: "string \<Rightarrow> string \<Rightarrow> string \<Rightarrow> bool"
    and permitted_types :: "string \<Rightarrow> string \<Rightarrow> string list"
  assumes offered_iff: "c \<in> set (permitted_types src tgt) \<longleftrightarrow> allows src c tgt"
begin

lemma refused_iff:
  assumes "verify_link s t conn allows permitted_types narrows = Inr v"
  shows "blocks v \<longleftrightarrow> is_element s \<and> is_element t \<and>
    (\<forall>c. conn = None \<or> conn = Some c \<longrightarrow>
      \<not> allows (or_empty (ep_element_type s)) c (or_empty (ep_element_type t)))"
proof -
  have none: "permitted_types a b = [] \<longleftrightarrow> (\<forall>c. \<not> allows a c b)" for a b
    using offered_iff [of _ a b] by (metis empty_iff list.set(1) neq_Nil_conv list.set_intros(1))
  have "is_element e \<Longrightarrow> \<not> is_document e" for e
    by (simp add: is_element_def is_document_def)
  with assms none show ?thesis
    by (auto simp: verify_link_def Let_def blocks_def UNVERIFIED_def REFERENCE_def verdict_def
        bind_result_eq_Inr split: if_splits option.splits)
qed

lemma reverse_remedy:
  assumes "verify_link s t conn allows permitted_types narrows = Inr v" and "blocks v"
    and "reverse_permitted v" and "verify_link t s conn allows permitted_types narrows' = Inr w"
  shows "\<not> blocks w"
proof
  assume "blocks w"
  with refused_iff [OF assms(4)] have ends: "is_element s" "is_element t"
    and none: "\<And>c. conn = None \<or> conn = Some c \<Longrightarrow>
      \<not> allows (or_empty (ep_element_type t)) c (or_empty (ep_element_type s))"
    by auto
  have docs: "\<not> is_document s" "\<not> is_document t"
    using ends by (simp_all add: is_element_def is_document_def)
  show False
  proof (cases conn)
    case None
    then have "permitted_types (or_empty (ep_element_type t)) (or_empty (ep_element_type s)) = []"
      using none offered_iff by (metis list.set_intros(1) neq_Nil_conv)
    with assms(1-3) None ends docs show False
      by (auto simp: verify_link_def Let_def blocks_def verdict_def split: if_splits)
  next
    case (Some c)
    with none [of c] assms(1-3) ends docs show False
      by (auto simp: verify_link_def Let_def blocks_def verdict_def bind_result_eq_Inr
          split: if_splits)
  qed
qed

lemma alternative_remedy:
  assumes "verify_link s t conn allows permitted_types narrows = Inr v"
    and "c \<in> set (alternatives v)"
    and "verify_link s t (Some c) allows permitted_types narrows' = Inr w"
  shows "\<not> blocks w"
proof -
  have "allows (or_empty (ep_element_type s)) c (or_empty (ep_element_type t))"
    using assms(1,2) offered_iff
    by (auto simp: verify_link_def Let_def verdict_def UNVERIFIED_def REFERENCE_def
        bind_result_eq_Inr split: if_splits option.splits)
  with refused_iff [OF assms(3)] show ?thesis by auto
qed

end

interpretation module_oracle: relation_oracle "module_permits m" "module_permitted_types m" for m
  by unfold_locales
    (simp add: module_permits_def module_permitted_types_def permitted_connection_types_iff)

interpretation empty_oracle: relation_oracle "\<lambda>_ _ _. False" "\<lambda>_ _. []"
  by unfold_locales simp

section \<open>When a verdict exists\<close>

text \<open>
  A lookup without an alias raises when two modules specialize one parent under one slug. Within
  one module's catalog that cannot happen: its entries share the alias.
\<close>

definition unambiguous :: "specialization_info list \<Rightarrow> bool" where
  "unambiguous cat \<longleftrightarrow> distinct (map (\<lambda>i. (concept i, parent_type i, slug i)) cat)"

lemma catalog_of_unambiguous:
  assumes "catalog_of es = Inr cat" and "\<forall>e \<in> set es. module_alias e = a"
  shows "unambiguous cat"
proof -
  have "map spec_key es = map (Pair a) (map (\<lambda>i. (concept i, parent_type i, slug i)) es)"
    using assms(2) by (simp add: spec_key_def)
  moreover have "distinct (map spec_key es)" "cat = es"
    using assms(1) by (simp_all add: catalog_of_iff)
  ultimately have "distinct (map (Pair a) (map (\<lambda>i. (concept i, parent_type i, slug i)) cat))"
    by (simp only:)
  then show ?thesis unfolding unambiguous_def distinct_map [of "Pair a"] by blast
qed

lemma catalog_get_unambiguous:
  assumes "unambiguous cat"
  shows "\<exists>r. catalog_get cat k parent s None = Inr r"
proof -
  let ?key = "\<lambda>i. (concept i, parent_type i, slug i)"
  let ?ms = "filter (\<lambda>e. slug e = s) (for_type cat k parent None)"
  have "distinct (map ?key ?ms)"
    using assms unfolding for_type_def unambiguous_def by (intro distinct_map_filter)
  moreover have "\<forall>e \<in> set ?ms. ?key e = (k, parent, s)"
    by (auto simp: for_type_def)
  ultimately have "length ?ms \<le> 1" by (rule distinct_const_length)
  then show ?thesis
    by (cases ?ms; cases "tl ?ms") (auto simp: catalog_get_def)
qed

lemma probe_narrowing_total:
  assumes "unambiguous cat"
  shows "\<exists>r. probe_narrowing cat ps s conn src tgt = Inr r"
proof (induction ps)
  case Nil
  show ?case by simp
next
  case (Cons p ps)
  obtain k parent where p: "p = (k, parent)" by (cases p)
  obtain info where "catalog_get cat k parent s None = Inr info"
    using catalog_get_unambiguous [OF assms] by blast
  with Cons.IH show ?case by (auto simp: p split: option.splits)
qed

lemma narrowing_slug_total:
  assumes "unambiguous (specialization_catalog m)"
  shows "\<exists>r. narrowing_slug s t conn src tgt (narrowing_probe m) = Inr r"
proof -
  let ?f = "\<lambda>s conn src tgt. probe_narrowing (specialization_catalog m)
        [(EntityConcept, src), (EntityConcept, tgt), (ConnectionConcept, conn)] s conn src tgt"
  have "\<exists>r. narrowing_slug_in ss ?f conn src tgt = Inr r" for ss
  proof (induction ss)
    case Nil
    show ?case by simp
  next
    case (Cons x xs)
    obtain found where "?f (the x) conn src tgt = Inr found"
      using probe_narrowing_total [OF assms] by blast
    with Cons.IH show ?case by auto
  qed
  then show ?thesis
    unfolding narrowing_slug_def narrowing_probe_def
    by (simp del: narrowing_slug_in.simps probe_narrowing.simps)
qed

lemma verify_link_total:
  assumes "unambiguous (specialization_catalog m)"
  shows "\<exists>v. verify_link s t conn f g (narrowing_probe m) = Inr v"
proof -
  obtain f where "\<And>c src tgt. narrowing_slug s t c src tgt (narrowing_probe m) = Inr (f c src tgt)"
    using narrowing_slug_total [OF assms, of s t] by metis
  then show ?thesis by (cases conn) (auto simp: verify_link_def Let_def)
qed

definition registry_unambiguous :: "(string \<times> ontology_module) list \<Rightarrow> bool" where
  "registry_unambiguous modules \<longleftrightarrow>
     (\<forall>(name, m) \<in> set modules. unambiguous (specialization_catalog m))"

lemma module_by_alias_mem: "module_by_alias modules mo = Some m \<Longrightarrow> m \<in> snd ` set modules"
  by (induction modules mo rule: module_by_alias.induct) (auto split: if_splits)

lemma module_for_mem: "module_for modules mo = Some m \<Longrightarrow> m \<in> snd ` set modules"
  by (auto simp: module_for_def dest: map_of_SomeD module_by_alias_mem split: option.splits)
     (metis image_eqI map_of_SomeD snd_conv)

lemma verdict_for_total:
  assumes "registry_unambiguous modules"
  shows "\<exists>v. verdict_for modules mo s t conn = Inr v"
proof (cases "module_for modules mo")
  case None
  then show ?thesis
    by (auto simp: verdict_for_def verify_link_def Let_def split: option.splits)
next
  case (Some m)
  with assms have "unambiguous (specialization_catalog m)"
    by (force simp: registry_unambiguous_def dest: module_for_mem)
  with Some show ?thesis by (simp add: verdict_for_def verify_link_total)
qed

section \<open>Properties\<close>

definition element_end :: "string \<Rightarrow> endpoint" where
  "element_end t = \<lparr>ep_destination = ''element'', ep_element_type = Some t,
     ep_specialization = None, ep_document_type = None\<rparr>"

definition sample_module :: ontology_module where
  "sample_module = (empty_ontology ''archimate-4-0'')\<lparr>permitted_relationships :=
     [\<lparr>perm_source = ''capability'', perm_target = ''goal'', perm_connection = ''realization''\<rparr>]\<rparr>"

text \<open>
  Claim C7. A verdict always exists, it blocks exactly when both ends are typed elements and the
  meta-ontology has no permitted relationship for the ordered pair (of the chosen type, or of any
  type when none is chosen), and its remedies work: reversing a link whose verdict says the reverse
  is permitted, or retyping it to any offered alternative, gives a link that does not block.
\<close>

theorem link_verdict_exact_and_remediable:
  assumes "registry_unambiguous modules"
  shows "\<exists>v. verdict_for modules mo s t conn = Ok v \<and>
    (blocks v \<longleftrightarrow> is_element s \<and> is_element t \<and>
      \<not> (\<exists>m c. module_for modules mo = Some m \<and> (conn = None \<or> conn = Some c) \<and>
        permits (permitted_relationships m) (or_empty (ep_element_type s))
          (or_empty (ep_element_type t)) c)) \<and>
    (blocks v \<and> reverse_permitted v \<longrightarrow>
      (\<exists>w. verdict_for modules mo t s conn = Ok w \<and> \<not> blocks w)) \<and>
    (\<forall>c \<in> set (alternatives v). \<exists>w. verdict_for modules mo s t (Some c) = Ok w \<and> \<not> blocks w)"
proof -
  obtain v where v: "verdict_for modules mo s t conn = Inr v"
    using verdict_for_total [OF assms] by blast
  obtain r where r: "verdict_for modules mo t s conn = Inr r"
    using verdict_for_total [OF assms] by blast
  have alt: "\<exists>w. verdict_for modules mo s t (Some c) = Inr w" for c
    by (rule verdict_for_total [OF assms])
  show ?thesis
  proof (cases "module_for modules mo")
    case None
    note vf = verdict_for_def None option.case
    have "\<not> blocks r" if "blocks v" "reverse_permitted v"
      using empty_oracle.reverse_remedy [of s t conn None v None r] v r that by (simp add: vf)
    moreover have "\<exists>w. verdict_for modules mo s t (Some c) = Ok w \<and> \<not> blocks w"
      if "c \<in> set (alternatives v)" for c
      using empty_oracle.alternative_remedy [of s t conn None v c None] v alt [of c] that
      by (auto simp: vf)
    ultimately show ?thesis
      using v r empty_oracle.refused_iff [of s t conn None v] None by (auto simp: vf)
  next
    case (Some m)
    note vf = verdict_for_def Some option.case
    have "\<not> blocks r" if "blocks v" "reverse_permitted v"
      using module_oracle.reverse_remedy [of s t conn m "narrowing_probe m" v "narrowing_probe m" r]
        v r that by (simp add: vf)
    moreover have "\<exists>w. verdict_for modules mo s t (Some c) = Ok w \<and> \<not> blocks w"
      if "c \<in> set (alternatives v)" for c
      using module_oracle.alternative_remedy [of s t conn m "narrowing_probe m" v c "narrowing_probe m"]
        v alt [of c] that by (auto simp: vf)
    ultimately show ?thesis
      using v r module_oracle.refused_iff [of s t conn m "narrowing_probe m" v] Some
      by (auto simp: vf module_permits_def)
  qed
qed

theorem link_verdict_exact_and_remediable_witness:
  "\<exists>v w. verdict_for [(''archimate-4-0'', sample_module)] ''archimate-4''
       (element_end ''goal'') (element_end ''capability'') (Some ''realization'') = Ok v \<and>
     blocks v \<and> verdict_for [(''archimate-4-0'', sample_module)] ''archimate-4''
       (element_end ''capability'') (element_end ''goal'') (Some ''realization'') = Ok w \<and> \<not> blocks w"
proof -
  let ?ms = "[(''archimate-4-0'', sample_module)]"
  have u: "registry_unambiguous ?ms"
    by (simp add: registry_unambiguous_def unambiguous_def sample_module_def empty_ontology_def)
  have m: "module_for ?ms ''archimate-4'' = Some sample_module"
    by (simp add: module_for_def dashed_def normalized_name_def starts_with_def)
  let ?g = "element_end ''goal''" and ?c = "element_end ''capability''"
  have ends: "is_element ?g" "is_element ?c"
      "or_empty (ep_element_type ?g) = ''goal''" "or_empty (ep_element_type ?c) = ''capability''"
    by (simp_all add: element_end_def is_element_def or_empty_def)
  have p: "permits (permitted_relationships sample_module) ''capability'' ''goal'' ''realization''"
      "\<not> permits (permitted_relationships sample_module) ''goal'' ''capability'' ''realization''"
    by (simp_all add: permits_def sample_module_def empty_ontology_def)
  from link_verdict_exact_and_remediable [OF u, of "''archimate-4''" ?g ?c "Some ''realization''"]
  obtain v where "verdict_for ?ms ''archimate-4'' ?g ?c (Some ''realization'') = Ok v" "blocks v"
    using m ends p by auto
  moreover from link_verdict_exact_and_remediable [OF u, of "''archimate-4''" ?c ?g "Some ''realization''"]
  obtain w where "verdict_for ?ms ''archimate-4'' ?c ?g (Some ''realization'') = Ok w" "\<not> blocks w"
    using m ends p by auto
  ultimately show ?thesis by blast
qed

text \<open>
  A link with a document on either end gets the same verdict whichever way it was drawn, never
  blocks, and is a reference exactly when the other end is a typed element.
\<close>

theorem document_links_ignore_direction:
  assumes "is_document s \<or> is_document t"
  shows "verdict_for modules mo s t conn = verdict_for modules mo t s conn \<and>
    (\<exists>v. verdict_for modules mo s t conn = Ok v \<and> \<not> blocks v \<and>
      (kind v = Reference \<longleftrightarrow> is_element s \<or> is_element t))"
proof -
  have "is_element e \<Longrightarrow> \<not> is_document e" for e
    by (simp add: is_element_def is_document_def)
  with assms show ?thesis
    by (cases "module_for modules mo")
      (auto simp: verdict_for_def verify_link_def UNVERIFIED_def REFERENCE_def verdict_def blocks_def)
qed

theorem document_links_ignore_direction_witness:
  "\<exists>v. verdict_for [] ''archimate-4'' (element_end ''goal'')
     ((element_end ''goal'')\<lparr>ep_destination := ''document''\<rparr>) None = Ok v \<and> kind v = Reference"
proof -
  have d: "is_document (element_end ''goal'') \<or>
      is_document ((element_end ''goal'')\<lparr>ep_destination := ''document''\<rparr>)"
    by (simp add: is_document_def)
  have e: "is_element (element_end ''goal'')" by (simp add: is_element_def element_end_def)
  show ?thesis
    using document_links_ignore_direction [OF d, of "[]" "''archimate-4''" None] e by blast
qed

text \<open>
  In a workspace that does not have the scratchpad's meta-ontology, every link between two
  typed elements is refused with E126, whatever its type: nothing reads as unverified.
\<close>

theorem unknown_meta_ontology_refuses:
  assumes "module_for modules mo = None" and "is_element s" and "is_element t"
  shows "\<exists>v. verdict_for modules mo s t conn = Ok v \<and> blocks v \<and> code v = ''E126'' \<and>
    \<not> reverse_permitted v \<and> alternatives v = []"
proof -
  have "\<not> is_document s" "\<not> is_document t"
    using assms(2,3) by (simp_all add: is_element_def is_document_def)
  with assms show ?thesis
    by (auto simp: verdict_for_def verify_link_def Let_def verdict_def blocks_def split: option.splits)
qed

theorem unknown_meta_ontology_refuses_witness:
  "\<exists>v. verdict_for [] ''archimate-4'' (element_end ''capability'') (element_end ''goal'')
     (Some ''realization'') = Ok v \<and> blocks v"
proof -
  have h: "module_for [] ''archimate-4'' = None" "is_element (element_end ''capability'')"
      "is_element (element_end ''goal'')"
    by (simp_all add: module_for_def is_element_def element_end_def)
  show ?thesis using unknown_meta_ontology_refuses [OF h, of "Some ''realization''"] by blast
qed

text \<open>
  Classification levels that pass the startup check have exactly one level that keys
  relationships, the one lookups use, and no level that narrows relationships sits above it.
\<close>

theorem validated_levels_have_one_keying_level:
  assumes "validate_classification_levels ls = Ok ()"
  shows "\<exists>k. relationship_keying_level ls = Some (ls ! k) \<and> k < length ls \<and>
    (\<forall>i < length ls. keys_relationships (ls ! i) \<longleftrightarrow> i = k) \<and>
    (\<forall>i < length ls. narrows_relationships (ls ! i) \<longrightarrow> k \<le> i)"
  using validate_levels_keying [OF assms] .

theorem validated_levels_have_one_keying_level_witness:
  "validate_classification_levels DERIVED_DEFAULT_LEVELS = Ok () \<and>
   (\<exists>k. relationship_keying_level DERIVED_DEFAULT_LEVELS = Some (DERIVED_DEFAULT_LEVELS ! k))"
proof -
  have ids: "{i \<in> set (map level_id DERIVED_DEFAULT_LEVELS).
      1 < count_list (map level_id DERIVED_DEFAULT_LEVELS) i} = {}"
    by (auto simp: DERIVED_DEFAULT_LEVELS_def)
  have v: "validate_classification_levels DERIVED_DEFAULT_LEVELS = Ok ()"
    unfolding validate_classification_levels_def Let_def ids by (simp add: DERIVED_DEFAULT_LEVELS_def)
  show ?thesis using v validated_levels_have_one_keying_level [OF v] by blast
qed

end
