(* ===== verification/Derivation.thy ===== *)
theory Derivation
  imports Derivation_Rules
begin

text \<open>
  Pairwise composition of oriented relations and the left fold over a chain
  (\<^verbatim>\<open>src/domain/relationships/relationship_derivation.py\<close>). The first rule that matches and selects a
  result type decides; a \<^verbatim>\<open>ValueError\<close> of the derivation domain is the left summand.
\<close>

section \<open>Definitions\<close>

record oriented_relation =
  connection_id :: string
  relation_type :: connection_type_info
  source_id :: string
  target_id :: string
  forward :: bool
  source_type :: "string option"
  target_type :: "string option"
  source_info :: "entity_type_info option"
  target_info :: "entity_type_info option"
  potential_steps :: nat

record derived_step =
  step_source :: string
  step_target :: string
  step_type :: connection_type_info
  step_certainty :: certainty
  step_potential :: nat
  step_source_info :: "entity_type_info option"
  step_target_info :: "entity_type_info option"

definition rel_source :: "oriented_relation \<Rightarrow> string" where
  "rel_source r = (if forward r then source_id r else target_id r)"

definition rel_target :: "oriented_relation \<Rightarrow> string" where
  "rel_target r = (if forward r then target_id r else source_id r)"

definition rel_source_type :: "oriented_relation \<Rightarrow> string option" where
  "rel_source_type r = (if forward r then source_type r else target_type r)"

definition rel_target_type :: "oriented_relation \<Rightarrow> string option" where
  "rel_target_type r = (if forward r then target_type r else source_type r)"

definition rel_source_info :: "oriented_relation \<Rightarrow> entity_type_info option" where
  "rel_source_info r = (if forward r then source_info r else target_info r)"

definition rel_target_info :: "oriented_relation \<Rightarrow> entity_type_info option" where
  "rel_target_info r = (if forward r then target_info r else source_info r)"

fun joins :: "join \<Rightarrow> oriented_relation \<Rightarrow> oriented_relation \<Rightarrow> bool" where
  "joins TargetSource f s = (rel_target f = rel_source s)"
| "joins TargetTarget f s = (rel_target f = rel_target s)"
| "joins SourceSource f s = (rel_source f = rel_source s)"
| "joins SourceTarget f s = (rel_source f = rel_target s)"

text \<open>The four-entry dictionaries the endpoint selectors index, for ids, types and infos alike.\<close>

fun pick_end :: "rule_end \<Rightarrow> 'a \<Rightarrow> 'a \<Rightarrow> 'a \<Rightarrow> 'a \<Rightarrow> 'a" where
  "pick_end FirstSource a b c d = a"
| "pick_end FirstTarget a b c d = b"
| "pick_end SecondSource a b c d = c"
| "pick_end SecondTarget a b c d = d"

definition rule_endpoints ::
    "composition_rule \<Rightarrow> oriented_relation \<Rightarrow> oriented_relation \<Rightarrow> string \<times> string" where
  "rule_endpoints rule f s =
     (pick_end (result_source rule) (rel_source f) (rel_target f) (rel_source s) (rel_target s),
      pick_end (result_target rule) (rel_source f) (rel_target f) (rel_source s) (rel_target s))"

definition rule_endpoint_types ::
    "composition_rule \<Rightarrow> oriented_relation \<Rightarrow> oriented_relation \<Rightarrow> string option \<times> string option" where
  "rule_endpoint_types rule f s =
     (pick_end (result_source rule) (rel_source_type f) (rel_target_type f) (rel_source_type s)
        (rel_target_type s),
      pick_end (result_target rule) (rel_source_type f) (rel_target_type f) (rel_source_type s)
        (rel_target_type s))"

definition rule_endpoint_infos ::
    "composition_rule \<Rightarrow> oriented_relation \<Rightarrow> oriented_relation
      \<Rightarrow> entity_type_info option \<times> entity_type_info option" where
  "rule_endpoint_infos rule f s =
     (pick_end (result_source rule) (rel_source_info f) (rel_target_info f) (rel_source_info s)
        (rel_target_info s),
      pick_end (result_target rule) (rel_source_info f) (rel_target_info f) (rel_source_info s)
        (rel_target_info s))"

definition rule_matches ::
    "composition_rule \<Rightarrow> oriented_relation \<Rightarrow> oriented_relation \<Rightarrow> entity_type_info \<Rightarrow> bool" where
  "rule_matches rule f s mid =
     (if derivation_role (relation_type f) \<noteq> Some (first_role rule) then False
      else if derivation_role (relation_type s) \<noteq> Some (second_role rule) then False
      else if \<not> joins (rule_join rule) f s then False
      else if first_artifact_type rule \<noteq> None \<and>
        Some (ctype_name (relation_type f)) \<noteq> first_artifact_type rule then False
      else if second_artifact_type rule \<noteq> None \<and>
        Some (ctype_name (relation_type s)) \<noteq> second_artifact_type rule then False
      else if second_artifact_types rule \<noteq> [] \<and>
        ctype_name (relation_type s) \<notin> set (second_artifact_types rule) then False
      else if requires_same_connection_type rule \<and>
        ctype_name (relation_type f) \<noteq> ctype_name (relation_type s) then False
      else if intermediate_class rule \<noteq> None \<and>
        the (intermediate_class rule) \<notin> set (etype_classes mid) then False
      else if excluded_intermediate_classes rule \<inter> set (etype_classes mid) \<noteq> {} then False
      else intermediate_artifact_type rule = None \<or>
        intermediate_artifact_type rule = Some (etype_name mid))"

definition result_type ::
    "composition_rule \<Rightarrow> connection_type_info \<Rightarrow> connection_type_info \<Rightarrow> connection_type_info option" where
  "result_type rule f s =
     (case rule_result rule of
        RFirst \<Rightarrow> Some f
      | RSecond \<Rightarrow> Some s
      | RSpecialization \<Rightarrow> Some f
      | RTriggering \<Rightarrow> Some f
      | RFlow \<Rightarrow> Some s
      | RWeakest \<Rightarrow>
          (case (derivation_strength f, derivation_strength s) of
             (Some a, Some b) \<Rightarrow> Some (if a \<le> b then f else s)
           | _ \<Rightarrow> None))"

definition certainty_of :: "nat \<Rightarrow> certainty" where
  "certainty_of steps = (if steps \<noteq> 0 then Potential else Certain)"

definition composed_steps :: "composition_rule \<Rightarrow> oriented_relation \<Rightarrow> oriented_relation \<Rightarrow> nat" where
  "composed_steps rule f s =
     potential_steps f + potential_steps s + (if rule_certainty rule = Potential then 1 else 0)"

definition step_of ::
    "composition_rule \<Rightarrow> oriented_relation \<Rightarrow> oriented_relation \<Rightarrow> connection_type_info \<Rightarrow> derived_step"
where
  "step_of rule f s ctype =
     \<lparr>step_source = fst (rule_endpoints rule f s), step_target = snd (rule_endpoints rule f s),
      step_type = ctype, step_certainty = certainty_of (composed_steps rule f s),
      step_potential = composed_steps rule f s,
      step_source_info = fst (rule_endpoint_infos rule f s),
      step_target_info = snd (rule_endpoint_infos rule f s)\<rparr>"

text \<open>What the first decisive rule answers.\<close>

definition compose_by ::
    "composition_rule \<Rightarrow> connection_type_info \<Rightarrow> oriented_relation \<Rightarrow> oriented_relation \<Rightarrow> entity_type_info
      \<Rightarrow> permitted_relationship_set option \<Rightarrow> derivation_restriction list
      \<Rightarrow> (derivation_error, derived_step option) result" where
  "compose_by rule res f s mid permitted restrictions =
     (case (rule_endpoints rule f s, rule_endpoint_types rule f s, rule_endpoint_infos rule f s) of
        ((src, tgt), (stype, ttype), (sinfo, tinfo)) \<Rightarrow>
          if src = tgt then Ok None
          else if requires_permitted_result rule \<and>
            (stype = None \<or> ttype = None \<or> permitted = None \<or>
             \<not> permits (the permitted) (the stype) (the ttype) (ctype_name res))
          then Ok None
          else if restrictions \<noteq> [] \<and> (sinfo = None \<or> tinfo = None) then Ok None
          else if restrictions \<noteq> []
          then bind_result (permits_derived_relationship (the sinfo) (the tinfo) res mid restrictions)
                 (\<lambda>admitted. if \<not> admitted then Ok None else Ok (Some (step_of rule f s res)))
          else Ok (Some (step_of rule f s res)))"

fun compose ::
    "oriented_relation \<Rightarrow> oriented_relation \<Rightarrow> entity_type_info \<Rightarrow> composition_rule list
      \<Rightarrow> permitted_relationship_set option \<Rightarrow> derivation_restriction list
      \<Rightarrow> (derivation_error, derived_step option) result" where
  "compose f s mid [] permitted restrictions = Ok None"
| "compose f s mid (rule # rules) permitted restrictions =
     (if \<not> rule_matches rule f s mid then compose f s mid rules permitted restrictions
      else (case result_type rule (relation_type f) (relation_type s) of
              None \<Rightarrow> compose f s mid rules permitted restrictions
            | Some res \<Rightarrow> compose_by rule res f s mid permitted restrictions))"

definition relation_of_step :: "string \<Rightarrow> derived_step \<Rightarrow> oriented_relation" where
  "relation_of_step cid st =
     \<lparr>connection_id = cid, relation_type = step_type st, source_id = step_source st,
      target_id = step_target st, forward = True,
      source_type = map_option etype_name (step_source_info st),
      target_type = map_option etype_name (step_target_info st),
      source_info = step_source_info st, target_info = step_target_info st,
      potential_steps = step_potential st\<rparr>"

fun fold_chain_from ::
    "oriented_relation \<Rightarrow> (oriented_relation \<times> entity_type_info) list \<Rightarrow> composition_rule list
      \<Rightarrow> derivation_restriction list \<Rightarrow> (derivation_error, oriented_relation option) result" where
  "fold_chain_from current [] rules restrictions = Ok (Some current)"
| "fold_chain_from current ((next_rel, mid) # rest) rules restrictions =
     bind_result (compose current next_rel mid rules None restrictions) (\<lambda>st.
       case st of
         None \<Rightarrow> Ok None
       | Some d \<Rightarrow> fold_chain_from
           (relation_of_step (''derived:'' @ connection_id current @ '':'' @ connection_id next_rel) d)
           rest rules restrictions)"

definition step_of_relation :: "oriented_relation \<Rightarrow> derived_step" where
  "step_of_relation r =
     \<lparr>step_source = source_id r, step_target = target_id r, step_type = relation_type r,
      step_certainty = certainty_of (potential_steps r), step_potential = potential_steps r,
      step_source_info = source_info r, step_target_info = target_info r\<rparr>"

definition fold_chain ::
    "oriented_relation list \<Rightarrow> entity_type_info list \<Rightarrow> composition_rule list
      \<Rightarrow> derivation_restriction list \<Rightarrow> (derivation_error, derived_step option) result" where
  "fold_chain relations intermediates rules restrictions =
     (if length relations < 2 \<or> length intermediates \<noteq> length relations - 1 then Ok None
      else bind_result (fold_chain_from (hd relations) (zip (tl relations) intermediates) rules restrictions)
             (\<lambda>r. Ok (map_option step_of_relation r)))"

section \<open>The decisive rule\<close>

definition decides ::
    "composition_rule \<Rightarrow> oriented_relation \<Rightarrow> oriented_relation \<Rightarrow> entity_type_info \<Rightarrow> bool" where
  "decides rule f s mid \<longleftrightarrow>
     rule_matches rule f s mid \<and> result_type rule (relation_type f) (relation_type s) \<noteq> None"

lemma compose_find:
  "compose f s mid rules permitted restrictions =
     (case List.find (\<lambda>rule. decides rule f s mid) rules of
        None \<Rightarrow> Ok None
      | Some rule \<Rightarrow> compose_by rule (the (result_type rule (relation_type f) (relation_type s)))
                     f s mid permitted restrictions)"
  by (induction rules) (auto simp: decides_def split: option.splits)

lemma compose_by_Some:
  assumes "compose_by rule res f s mid permitted restrictions = Inr (Some st)"
  shows "st = step_of rule f s res \<and> step_source st \<noteq> step_target st \<and>
    (requires_permitted_result rule \<longrightarrow>
      (\<exists>a b ps. rule_endpoint_types rule f s = (Some a, Some b) \<and> permitted = Some ps \<and>
        permits ps a b (ctype_name res))) \<and>
    (restrictions \<noteq> [] \<longrightarrow>
      (\<exists>a b. rule_endpoint_infos rule f s = (Some a, Some b) \<and>
        permits_derived_relationship a b res mid restrictions = Inr True))"
  using assms
  by (cases "rule_endpoints rule f s"; cases "rule_endpoint_types rule f s";
      cases "rule_endpoint_infos rule f s")
    (auto simp: compose_by_def step_of_def bind_result_eq_Inr split: if_splits)

lemma compose_Some:
  assumes "compose f s mid rules permitted restrictions = Inr (Some st)"
  shows "\<exists>rule res. rule \<in> set rules \<and> rule_matches rule f s mid \<and>
    result_type rule (relation_type f) (relation_type s) = Some res \<and>
    compose_by rule res f s mid permitted restrictions = Inr (Some st)"
  using assms unfolding compose_find
  by (auto simp: decides_def split: option.splits dest!: find_Some_mem)

section \<open>The role index\<close>

text \<open>
  The index that bounded derivation builds over the rules once: each pair of roles to the rules
  declared for it, in declaration order.
\<close>

definition index_rule ::
    "composition_rule \<Rightarrow> (string \<times> string \<rightharpoonup> composition_rule list) \<Rightarrow> (string \<times> string \<rightharpoonup> composition_rule list)"
where
  "index_rule rule ix =
     (let key = (first_role rule, second_role rule) in
      ix(key \<mapsto> (case ix key of None \<Rightarrow> [] | Some bucket \<Rightarrow> bucket) @ [rule]))"

definition rules_by_role :: "composition_rule list \<Rightarrow> (string \<times> string \<rightharpoonup> composition_rule list)" where
  "rules_by_role rules = fold index_rule rules Map.empty"

definition candidate_rules ::
    "(string \<times> string \<rightharpoonup> composition_rule list) \<Rightarrow> string option \<Rightarrow> string option \<Rightarrow> composition_rule list" where
  "candidate_rules ix role1 role2 =
     (case (role1, role2) of
        (Some a, Some b) \<Rightarrow> (case ix (a, b) of None \<Rightarrow> [] | Some bucket \<Rightarrow> bucket)
      | _ \<Rightarrow> [])"

lemma fold_index_rule:
  "(case fold index_rule rules ix (a, b) of None \<Rightarrow> [] | Some bucket \<Rightarrow> bucket) =
   (case ix (a, b) of None \<Rightarrow> [] | Some bucket \<Rightarrow> bucket) @
   filter (\<lambda>r. first_role r = a \<and> second_role r = b) rules"
  by (induction rules arbitrary: ix) (auto simp: index_rule_def Let_def split: option.splits)

lemma candidate_rules_eq:
  "candidate_rules (rules_by_role rules) role1 role2 =
   filter (\<lambda>r. Some (first_role r) = role1 \<and> Some (second_role r) = role2) rules"
  using fold_index_rule [of rules Map.empty]
  by (cases role1; cases role2) (auto simp: candidate_rules_def rules_by_role_def filter_False)

lemma find_filter: "(\<And>x. P x \<Longrightarrow> Q x) \<Longrightarrow> List.find P (filter Q xs) = List.find P xs"
  by (induction xs) auto

lemma compose_candidate_rules:
  "compose f s mid (candidate_rules (rules_by_role rules) (derivation_role (relation_type f))
     (derivation_role (relation_type s))) permitted restrictions =
   compose f s mid rules permitted restrictions"
proof -
  have "decides r f s mid \<Longrightarrow> Some (first_role r) = derivation_role (relation_type f) \<and>
      Some (second_role r) = derivation_role (relation_type s)" for r
    by (auto simp: decides_def rule_matches_def split: if_splits)
  then show ?thesis
    unfolding compose_find candidate_rules_eq by (subst find_filter) auto
qed

end
