(* ===== verification/Derivation_Properties.thy ===== *)
theory Derivation_Properties
  imports Derivation
begin

text \<open>
  What composition and chain folding promise: a derived relationship is made of the parts of its
  legs, certainty never exceeds that of the legs, weakest-link chains carry the least strength,
  and rules that name an intermediate class keep the class to themselves.
\<close>

section \<open>Sample data\<close>

definition sample_entity :: "string \<Rightarrow> string \<Rightarrow> entity_type_info" where
  "sample_entity name layer = \<lparr>etype_name = name, hierarchy = [layer], etype_classes = [], internal = False\<rparr>"

definition structural :: "string \<Rightarrow> int \<Rightarrow> connection_type_info" where
  "structural name strength =
     \<lparr>ctype_name = name, ctype_classes = [], derivation_role = Some ''structural'',
      derivation_strength = Some strength\<rparr>"

definition sample_leg ::
    "string \<Rightarrow> connection_type_info \<Rightarrow> string \<Rightarrow> string \<Rightarrow> oriented_relation" where
  "sample_leg cid ctype src tgt =
     \<lparr>connection_id = cid, relation_type = ctype, source_id = src, target_id = tgt, forward = True,
      source_type = Some ''node'', target_type = Some ''node'',
      source_info = Some (sample_entity ''node'' ''technology''),
      target_info = Some (sample_entity ''node'' ''technology''), potential_steps = 0\<rparr>"

definition weakest_rule :: composition_rule where
  "weakest_rule =
     \<lparr>rule_ref = ''DR1'', rule_certainty = Certain, first_role = ''structural'',
      second_role = ''structural'', rule_result = RWeakest, rule_join = TargetSource,
      result_source = FirstSource, result_target = SecondTarget, first_artifact_type = None,
      second_artifact_type = None, second_artifact_types = [], intermediate_artifact_type = None,
      intermediate_class = None, excluded_intermediate_classes = {},
      requires_same_connection_type = False, requires_permitted_result = False\<rparr>"

lemmas sample_derivation_defs = sample_entity_def structural_def sample_leg_def weakest_rule_def

section \<open>Composition\<close>

definition ends :: "oriented_relation \<Rightarrow> string set" where
  "ends r = {source_id r, target_id r}"

lemma rel_ends: "rel_source r \<in> ends r" "rel_target r \<in> ends r"
  by (simp_all add: rel_source_def rel_target_def ends_def)

lemma pick_end_mem: "pick_end e a b c d \<in> {a, b, c, d}"
  by (cases e) simp_all

lemma rule_endpoints_mem:
  "fst (rule_endpoints rule f s) \<in> ends f \<union> ends s" "snd (rule_endpoints rule f s) \<in> ends f \<union> ends s"
  using pick_end_mem [of "result_source rule" "rel_source f" "rel_target f" "rel_source s" "rel_target s"]
    pick_end_mem [of "result_target rule" "rel_source f" "rel_target f" "rel_source s" "rel_target s"]
    rel_ends [of f] rel_ends [of s]
  by (auto simp: rule_endpoints_def)

lemma result_type_mem: "result_type rule f s = Some t \<Longrightarrow> t = f \<or> t = s"
  by (auto simp: result_type_def split: result_selector.splits option.splits if_splits)

lemma result_type_weakest:
  "\<lbrakk>result_type rule f s = Some t; rule_result rule = RWeakest\<rbrakk> \<Longrightarrow>
   \<exists>a b. derivation_strength f = Some a \<and> derivation_strength s = Some b \<and>
         derivation_strength t = Some (min a b)"
  by (auto simp: result_type_def split: option.splits if_splits)

text \<open>
  Claim C29. Composition invents nothing. Whatever pair of relations, rules, permitted set and
  restrictions, a derived step has the connection type of one of its two legs, runs between two
  different entities that are ends of the legs, counts at least the potential steps of both legs
  and is certain exactly when it counts none. The rule it comes from is one of those given and
  matches the pair; when that rule demands a permitted result the result is permitted between the
  endpoint types, and when restrictions are in force they admit the result.
\<close>

theorem compose_sound:
  assumes "compose f s mid rules permitted restrictions = Ok (Some st)"
  shows "step_type st \<in> {relation_type f, relation_type s} \<and>
    step_source st \<noteq> step_target st \<and> {step_source st, step_target st} \<subseteq> ends f \<union> ends s \<and>
    potential_steps f + potential_steps s \<le> step_potential st \<and>
    (step_certainty st = Certain \<longleftrightarrow> step_potential st = 0) \<and>
    (\<exists>rule \<in> set rules. rule_matches rule f s mid \<and>
      (rule_certainty rule = Potential \<longrightarrow> step_certainty st = Potential) \<and>
      (requires_permitted_result rule \<longrightarrow>
        (\<exists>a b ps. rule_endpoint_types rule f s = (Some a, Some b) \<and> permitted = Some ps \<and>
          permits ps a b (ctype_name (step_type st))))) \<and>
    (restrictions \<noteq> [] \<longrightarrow>
      (\<exists>a b. step_source_info st = Some a \<and> step_target_info st = Some b \<and>
        permits_derived_relationship a b (step_type st) mid restrictions = Ok True))"
proof -
  obtain rule res where rule: "rule \<in> set rules" "rule_matches rule f s mid"
    and res: "result_type rule (relation_type f) (relation_type s) = Some res"
    and by_rule: "compose_by rule res f s mid permitted restrictions = Inr (Some st)"
    using compose_Some [OF assms] by blast
  note facts = compose_by_Some [OF by_rule]
  then have st: "st = step_of rule f s res" by blast
  have res_type: "step_type st = res" by (simp add: st step_of_def)
  have permitted_ok: "requires_permitted_result rule \<longrightarrow>
      (\<exists>a b ps. rule_endpoint_types rule f s = (Some a, Some b) \<and> permitted = Some ps \<and>
        permits ps a b (ctype_name (step_type st)))"
    using facts unfolding res_type by blast
  have "restrictions \<noteq> [] \<longrightarrow>
      (\<exists>a b. step_source_info st = Some a \<and> step_target_info st = Some b \<and>
        permits_derived_relationship a b (step_type st) mid restrictions = Ok True)"
    using facts by (auto simp: st step_of_def)
  moreover have "step_type st \<in> {relation_type f, relation_type s}"
    using result_type_mem [OF res] res_type by auto
  moreover have "{step_source st, step_target st} \<subseteq> ends f \<union> ends s"
    using rule_endpoints_mem [of rule f s] by (simp add: st step_of_def)
  moreover have "potential_steps f + potential_steps s \<le> step_potential st"
    "step_certainty st = Certain \<longleftrightarrow> step_potential st = 0"
    "rule_certainty rule = Potential \<longrightarrow> step_certainty st = Potential"
    by (simp_all add: st step_of_def certainty_of_def composed_steps_def)
  ultimately show ?thesis using facts rule permitted_ok by blast
qed

theorem compose_sound_witness:
  "\<exists>st. compose (sample_leg ''c1'' (structural ''composition'' 5) ''a'' ''b'')
       (sample_leg ''c2'' (structural ''serving'' 2) ''b'' ''c'') (sample_entity ''node'' ''technology'')
       [weakest_rule] None [] = Ok (Some st) \<and>
     step_type st = structural ''serving'' 2 \<and> step_source st = ''a'' \<and> step_target st = ''c'' \<and>
     step_source st \<noteq> step_target st"
proof -
  let ?f = "sample_leg ''c1'' (structural ''composition'' 5) ''a'' ''b''"
  let ?s = "sample_leg ''c2'' (structural ''serving'' 2) ''b'' ''c''"
  let ?st = "step_of weakest_rule ?f ?s (structural ''serving'' 2)"
  have run: "compose ?f ?s (sample_entity ''node'' ''technology'') [weakest_rule] None [] = Ok (Some ?st)"
    by (simp add: sample_derivation_defs rule_matches_def result_type_def compose_by_def
        rule_endpoints_def rule_endpoint_types_def rule_endpoint_infos_def rel_source_def
        rel_target_def)
  have "step_type ?st = structural ''serving'' 2 \<and> step_source ?st = ''a'' \<and> step_target ?st = ''c''"
    by (simp add: step_of_def rule_endpoints_def rel_source_def rel_target_def sample_leg_def
        weakest_rule_def)
  with run compose_sound [OF run] show ?thesis by blast
qed

text \<open>
  Bounded derivation looks only at the rules indexed under the roles of the two legs.
  The index is complete: composing with the bucket it returns gives, for every pair of relations
  and every rule list, exactly what composing with all the rules gives.
\<close>

theorem role_index_preserves_composition:
  "compose f s mid (candidate_rules (rules_by_role rules) (derivation_role (relation_type f))
     (derivation_role (relation_type s))) permitted restrictions =
   compose f s mid rules permitted restrictions"
  by (rule compose_candidate_rules)

section \<open>Class exclusivity\<close>

lemma exclusivity_shape:
  assumes "r \<in> set (with_class_exclusivity rules)" and "intermediate_class r = None"
    and "\<And>q. q \<in> set rules \<Longrightarrow> excluded_intermediate_classes q = {}"
  shows "excluded_intermediate_classes r = set (List.map_filter intermediate_class rules)"
  using assms by (auto simp: with_class_exclusivity_def Let_def split: if_splits)

lemma exclusivity_classes:
  "map intermediate_class (with_class_exclusivity rules) = map intermediate_class rules"
  by (auto simp: with_class_exclusivity_def Let_def)

lemma composition_rule_of_excludes_nothing:
  "composition_rule_of item = Inr r \<Longrightarrow> excluded_intermediate_classes r = {}"
  unfolding composition_rule_of_def Let_def
  by (elim bind_result_InrE) (auto split: option.splits elim!: bind_result_InrE)

text \<open>
  Rules read from an ontology's data keep the intermediate classes apart. When some rule
  claims a class of intermediates (a junction, say), then at an intermediate of that class only
  rules that name a class of that intermediate themselves can match: a general rule never
  composes across it.
\<close>

theorem claimed_classes_are_exclusive:
  assumes "composition_rules_from_mapping raw = Ok rules"
    and "claimer \<in> set rules" and "intermediate_class claimer = Some c"
    and "c \<in> set (etype_classes mid)"
    and "r \<in> set rules" and "rule_matches r f s mid"
  shows "\<exists>d. intermediate_class r = Some d \<and> d \<in> set (etype_classes mid)"
proof -
  obtain items parsed where parsed: "traverse mapping_item items = Inr parsed"
    and rules: "rules = with_class_exclusivity parsed"
    using assms(1) by (auto simp: composition_rules_from_mapping_def bind_result_eq_Inr
        split: option.splits)
  have none_excluded: "excluded_intermediate_classes q = {}" if "q \<in> set parsed" for q
  proof -
    from parsed that obtain v where "mapping_item v = Inr q"
      by (auto simp: traverse_eq_Inr list_all2_conv_all_nth in_set_conv_nth)
    then show ?thesis
      by (auto simp: mapping_item_def composition_rule_of_excludes_nothing split: pyval.splits)
  qed
  have "Some c \<in> set (map intermediate_class rules)"
    using assms(2,3) by (force simp: image_iff)
  then have claimed: "c \<in> set (List.map_filter intermediate_class parsed)"
    unfolding rules exclusivity_classes by (auto simp: set_map_filter intro: sym)
  show ?thesis
  proof (cases "intermediate_class r")
    case None
    then have "excluded_intermediate_classes r = set (List.map_filter intermediate_class parsed)"
      using assms(5) none_excluded unfolding rules by (intro exclusivity_shape)
    with claimed assms(4,6) show ?thesis by (auto simp: rule_matches_def split: if_splits)
  next
    case (Some d)
    with assms(6) show ?thesis by (auto simp: rule_matches_def split: if_splits)
  qed
qed

definition junction_payload :: pyval where
  "junction_payload = PList
     [PDict [(''spec_ref'', PStr ''J''), (''certainty'', PStr ''certain''), (''first_role'', PStr ''x''),
        (''second_role'', PStr ''x''), (''result'', PStr ''first''),
        (''intermediate_class'', PStr ''junction'')],
      PDict [(''spec_ref'', PStr ''G''), (''certainty'', PStr ''certain''), (''first_role'', PStr ''x''),
        (''second_role'', PStr ''x''), (''result'', PStr ''first'')]]"

definition junction_rules :: "composition_rule list" where
  "junction_rules =
     [weakest_rule\<lparr>rule_ref := ''J'', first_role := ''x'', second_role := ''x'', rule_result := RFirst,
        intermediate_class := Some ''junction''\<rparr>,
      weakest_rule\<lparr>rule_ref := ''G'', first_role := ''x'', second_role := ''x'', rule_result := RFirst,
        excluded_intermediate_classes := {''junction''}\<rparr>]"

lemma junction_rules_read: "composition_rules_from_mapping junction_payload = Ok junction_rules"
  by (simp add: composition_rules_from_mapping_def junction_payload_def sequence_items_def
      mapping_item_def composition_rule_of_def required_def get_str_def get_or_def Let_def
      certainty_named_def result_named_def join_named_def end_named_def optional_string_def
      string_sequence_def rule_bool_def with_class_exclusivity_def map_filter_simps junction_rules_def
      weakest_rule_def)

theorem claimed_classes_are_exclusive_witness:
  "(let mid = \<lparr>etype_name = ''and-junction'', hierarchy = [], etype_classes = [''junction''],
          internal = False\<rparr>;
        leg = sample_leg ''c1'' \<lparr>ctype_name = ''flow'', ctype_classes = [], derivation_role = Some ''x'',
          derivation_strength = None\<rparr> ''a'' ''a'' in
    composition_rules_from_mapping junction_payload = Ok junction_rules \<and>
    rule_matches (hd junction_rules) leg leg mid \<and> \<not> rule_matches (junction_rules ! 1) leg leg mid \<and>
    intermediate_class (hd junction_rules) = Some ''junction'')"
proof -
  let ?mid = "\<lparr>etype_name = ''and-junction'', hierarchy = [], etype_classes = [''junction''],
          internal = False\<rparr>"
  let ?leg = "sample_leg ''c1'' \<lparr>ctype_name = ''flow'', ctype_classes = [], derivation_role = Some ''x'',
          derivation_strength = None\<rparr> ''a'' ''a''"
  have first: "rule_matches (hd junction_rules) ?leg ?leg ?mid"
    and cls: "intermediate_class (hd junction_rules) = Some ''junction''"
    and other: "intermediate_class (junction_rules ! 1) = None"
    by (simp_all add: junction_rules_def weakest_rule_def rule_matches_def sample_leg_def
        rel_source_def rel_target_def)
  have mem: "hd junction_rules \<in> set junction_rules" "junction_rules ! 1 \<in> set junction_rules"
    by (simp_all add: junction_rules_def)
  have "\<not> rule_matches (junction_rules ! 1) ?leg ?leg ?mid"
  proof
    assume matches: "rule_matches (junction_rules ! 1) ?leg ?leg ?mid"
    have "''junction'' \<in> set (etype_classes ?mid)" by simp
    from claimed_classes_are_exclusive [OF junction_rules_read mem(1) cls this mem(2) matches]
    show False using other by simp
  qed
  with first cls junction_rules_read show ?thesis by (simp add: Let_def)
qed

section \<open>Chains\<close>

lemma compose_parts:
  assumes "compose f s mid rules permitted restrictions = Inr (Some st)"
  shows "step_type st = relation_type f \<or> step_type st = relation_type s"
    and "{step_source st, step_target st} \<subseteq> ends f \<union> ends s"
    and "step_source st \<noteq> step_target st"
    and "potential_steps f + potential_steps s \<le> step_potential st"
proof -
  obtain rule res where res: "result_type rule (relation_type f) (relation_type s) = Some res"
    and by_rule: "compose_by rule res f s mid permitted restrictions = Inr (Some st)"
    using compose_Some [OF assms] by blast
  note facts = compose_by_Some [OF by_rule]
  then have st: "st = step_of rule f s res" and distinct_ends: "step_source st \<noteq> step_target st"
    by blast+
  show "step_source st \<noteq> step_target st" by (rule distinct_ends)
  show "step_type st = relation_type f \<or> step_type st = relation_type s"
    using result_type_mem [OF res] by (simp add: st step_of_def)
  show "{step_source st, step_target st} \<subseteq> ends f \<union> ends s"
    using rule_endpoints_mem [of rule f s] by (simp add: st step_of_def)
  show "potential_steps f + potential_steps s \<le> step_potential st"
    by (simp add: st step_of_def composed_steps_def)
qed

lemma relation_of_step_simps [simp]:
  "relation_type (relation_of_step cid st) = step_type st"
  "ends (relation_of_step cid st) = {step_source st, step_target st}"
  "source_id (relation_of_step cid st) = step_source st"
  "target_id (relation_of_step cid st) = step_target st"
  "potential_steps (relation_of_step cid st) = step_potential st"
  by (simp_all add: relation_of_step_def ends_def)

lemma fold_chain_from_parts:
  assumes "fold_chain_from current rest rules restrictions = Inr (Some r)"
  shows "relation_type r \<in> relation_type ` set (current # map fst rest) \<and>
    ends r \<subseteq> (\<Union>x \<in> set (current # map fst rest). ends x) \<and>
    sum_list (map potential_steps (current # map fst rest)) \<le> potential_steps r \<and>
    (rest \<noteq> [] \<longrightarrow> source_id r \<noteq> target_id r)"
  using assms
proof (induction current rest rules restrictions arbitrary: r rule: fold_chain_from.induct)
  case (1 current rules restrictions)
  then show ?case by simp
next
  case (2 current next_rel mid rest rules restrictions)
  from "2.prems" obtain d where d: "compose current next_rel mid rules None restrictions = Inr (Some d)"
    and tail: "fold_chain_from
      (relation_of_step (''derived:'' @ connection_id current @ '':'' @ connection_id next_rel) d)
      rest rules restrictions = Inr (Some r)"
    by (auto simp: bind_result_eq_Inr split: option.splits)
  note ih = "2.IH" [OF tail]
  note parts = compose_parts [OF d]
  show ?case
  proof (intro conjI impI)
    show "relation_type r \<in> relation_type ` set (current # map fst ((next_rel, mid) # rest))"
      using ih parts(1) by auto
    show "ends r \<subseteq> (\<Union>x \<in> set (current # map fst ((next_rel, mid) # rest)). ends x)"
      using ih parts(2) by auto
    show "sum_list (map potential_steps (current # map fst ((next_rel, mid) # rest))) \<le> potential_steps r"
      using ih parts(4) by simp
    show "source_id r \<noteq> target_id r"
      using ih parts(3) tail by (cases rest) auto
  qed
qed

lemma fold_chain_Some:
  assumes "fold_chain relations mids rules restrictions = Inr (Some d)"
  shows "\<exists>current next_rel rest r. relations = current # next_rel # rest \<and>
    length mids = length relations - 1 \<and>
    fold_chain_from current (zip (next_rel # rest) mids) rules restrictions = Inr (Some r) \<and>
    d = step_of_relation r"
proof -
  obtain current next_rel rest where rel: "relations = current # next_rel # rest"
    using assms
    by (cases relations rule: remdups_adj.cases) (auto simp: fold_chain_def)
  with assms show ?thesis by (auto simp: fold_chain_def bind_result_eq_Inr split: if_splits)
qed

lemma map_fst_zip_mids [simp]: "length mids = length xs \<Longrightarrow> map fst (zip xs mids) = xs"
  by simp

text \<open>
  Folding a chain invents nothing either. The relationship a chain derives has the type of
  one of the legs, its two different ends are ends of the legs, and it carries at least the potential
  steps of all legs together; so it is certain only when every leg is, and a chain that is shorter
  than two relations, or that does not come with one intermediate per join, derives nothing.
\<close>

theorem fold_chain_sound:
  assumes "fold_chain relations mids rules restrictions = Ok (Some d)"
  shows "2 \<le> length relations \<and> length mids = length relations - 1 \<and>
    step_type d \<in> relation_type ` set relations \<and> step_source d \<noteq> step_target d \<and>
    {step_source d, step_target d} \<subseteq> (\<Union>x \<in> set relations. ends x) \<and>
    sum_list (map potential_steps relations) \<le> step_potential d \<and>
    (step_certainty d = Certain \<longrightarrow> (\<forall>x \<in> set relations. potential_steps x = 0))"
proof -
  obtain current next_rel rest r where rel: "relations = current # next_rel # rest"
    and len: "length mids = length relations - 1"
    and run: "fold_chain_from current (zip (next_rel # rest) mids) rules restrictions = Inr (Some r)"
    and d: "d = step_of_relation r"
    using fold_chain_Some [OF assms] by blast
  have legs: "current # map fst (zip (next_rel # rest) mids) = relations"
    and some_legs: "zip (next_rel # rest) mids \<noteq> []"
    using len rel by (auto simp: zip_eq_Nil_iff)
  note parts = fold_chain_from_parts [OF run, unfolded legs]
  have ends_r: "ends r = {step_source d, step_target d}" by (simp add: d step_of_relation_def ends_def)
  have steps: "sum_list (map potential_steps relations) \<le> step_potential d"
    using parts by (simp add: d step_of_relation_def)
  moreover have "\<forall>x \<in> set relations. potential_steps x = 0" if "step_certainty d = Certain"
    using steps that by (simp add: d step_of_relation_def certainty_of_def split: if_splits)
  moreover have "step_type d \<in> relation_type ` set relations" "step_source d \<noteq> step_target d"
    using parts some_legs by (simp_all add: d step_of_relation_def)
  moreover have "{step_source d, step_target d} \<subseteq> (\<Union>x \<in> set relations. ends x)"
    using parts unfolding ends_r by blast
  ultimately show ?thesis using len rel by simp
qed

lemma compose_weakest:
  assumes "compose f s mid rules permitted restrictions = Inr (Some st)"
    and "\<forall>r \<in> set rules. rule_result r = RWeakest"
  shows "\<exists>a b. derivation_strength (relation_type f) = Some a \<and>
    derivation_strength (relation_type s) = Some b \<and> derivation_strength (step_type st) = Some (min a b)"
proof -
  obtain rule res where "rule \<in> set rules"
    and res: "result_type rule (relation_type f) (relation_type s) = Some res"
    and by_rule: "compose_by rule res f s mid permitted restrictions = Inr (Some st)"
    using compose_Some [OF assms(1)] by blast
  then have "rule_result rule = RWeakest" using assms(2) by blast
  moreover have "step_type st = res" using compose_by_Some [OF by_rule] by (auto simp: step_of_def)
  ultimately show ?thesis using result_type_weakest [OF res] by simp
qed

lemma fold_chain_from_weakest:
  assumes "fold_chain_from current rest rules restrictions = Inr (Some r)"
    and "\<forall>q \<in> set rules. rule_result q = RWeakest"
    and "derivation_strength (relation_type current) = Some a"
  shows "\<exists>bs. map (\<lambda>x. derivation_strength (relation_type (fst x))) rest = map Some bs \<and>
    derivation_strength (relation_type r) = Some (Min (set (a # bs)))"
  using assms
proof (induction current rest rules restrictions arbitrary: a rule: fold_chain_from.induct)
  case (1 current rules restrictions)
  then show ?case by simp
next
  case (2 current next_rel mid rest rules restrictions)
  from "2.prems" obtain d where d: "compose current next_rel mid rules None restrictions = Inr (Some d)"
    and tail: "fold_chain_from
      (relation_of_step (''derived:'' @ connection_id current @ '':'' @ connection_id next_rel) d)
      rest rules restrictions = Inr (Some r)"
    by (auto simp: bind_result_eq_Inr split: option.splits)
  obtain b where b: "derivation_strength (relation_type next_rel) = Some b"
    and step: "derivation_strength (step_type d) = Some (min a b)"
    using compose_weakest [OF d "2.prems"(2)] "2.prems"(3) by auto
  obtain bs where bs: "map (\<lambda>x. derivation_strength (relation_type (fst x))) rest = map Some bs"
    "derivation_strength (relation_type r) = Some (Min (set (min a b # bs)))"
    using "2.IH" [OF tail "2.prems"(2)] step by auto
  have "Min (set (min a b # bs)) = Min (set (a # b # bs))"
    by (cases "bs = []") (simp_all add: min.assoc)
  with b bs show ?case by (intro exI [of _ "b # bs"]) simp
qed

text \<open>
  A chain under weakest-link rules is as strong as its weakest leg. When every rule selects
  the weaker of the two types, a chain that derives a relationship has a declared strength on every
  leg, and the strength of the derived type is the minimum of them.
\<close>

theorem weakest_chain_strength:
  assumes "fold_chain relations mids rules restrictions = Ok (Some d)"
    and "\<forall>q \<in> set rules. rule_result q = RWeakest"
  shows "\<exists>ss. map (\<lambda>x. derivation_strength (relation_type x)) relations = map Some ss \<and>
    derivation_strength (step_type d) = Some (Min (set ss))"
proof -
  obtain current next_rel rest r where rel: "relations = current # next_rel # rest"
    and len: "length mids = length relations - 1"
    and run: "fold_chain_from current (zip (next_rel # rest) mids) rules restrictions = Inr (Some r)"
    and d: "d = step_of_relation r"
    using fold_chain_Some [OF assms(1)] by blast
  obtain m ms where "mids = m # ms" using len rel by (cases mids) auto
  then have "\<exists>st. compose current next_rel m rules None restrictions = Inr (Some st)"
    using run by (auto simp: bind_result_eq_Inr split: option.splits)
  then obtain a where a: "derivation_strength (relation_type current) = Some a"
    using compose_weakest [OF _ assms(2)] by blast
  obtain bs where bs: "map (\<lambda>x. derivation_strength (relation_type (fst x))) (zip (next_rel # rest) mids) =
      map Some bs" "derivation_strength (relation_type r) = Some (Min (set (a # bs)))"
    using fold_chain_from_weakest [OF run assms(2) a] by blast
  have "map (\<lambda>x. derivation_strength (relation_type x)) (map fst (zip (next_rel # rest) mids)) = map Some bs"
    using bs(1) by (simp add: comp_def)
  then have "map (\<lambda>x. derivation_strength (relation_type x)) (next_rel # rest) = map Some bs"
    using len rel by simp
  with a bs(2) show ?thesis
    by (intro exI [of _ "a # bs"]) (simp add: rel d step_of_relation_def)
qed

definition sample_chain :: "oriented_relation list" where
  "sample_chain =
     [sample_leg ''c1'' (structural ''composition'' 5) ''a'' ''b'',
      sample_leg ''c2'' (structural ''serving'' 2) ''b'' ''c'',
      sample_leg ''c3'' (structural ''realization'' 3) ''c'' ''d'']"

lemma sample_chain_runs:
  "fold_chain sample_chain [sample_entity ''node'' ''technology'', sample_entity ''node'' ''technology'']
     [weakest_rule] [] =
   Ok (Some \<lparr>step_source = ''a'', step_target = ''d'', step_type = structural ''serving'' 2,
     step_certainty = Certain, step_potential = 0,
     step_source_info = Some (sample_entity ''node'' ''technology''),
     step_target_info = Some (sample_entity ''node'' ''technology'')\<rparr>)"
  by (simp add: fold_chain_def sample_chain_def sample_derivation_defs rule_matches_def result_type_def
      compose_by_def rule_endpoints_def rule_endpoint_types_def rule_endpoint_infos_def rel_source_def
      rel_target_def rel_source_type_def rel_target_type_def rel_source_info_def rel_target_info_def
      step_of_def relation_of_step_def composed_steps_def certainty_of_def step_of_relation_def)

theorem fold_chain_sound_witness:
  "\<exists>d. fold_chain sample_chain [sample_entity ''node'' ''technology'', sample_entity ''node'' ''technology'']
     [weakest_rule] [] = Ok (Some d) \<and> step_type d \<in> relation_type ` set sample_chain \<and>
     step_source d \<noteq> step_target d"
  using fold_chain_sound [OF sample_chain_runs] sample_chain_runs by blast

theorem weakest_chain_strength_witness:
  "\<exists>d ss. fold_chain sample_chain [sample_entity ''node'' ''technology'', sample_entity ''node'' ''technology'']
     [weakest_rule] [] = Ok (Some d) \<and> ss = [5, 2, 3] \<and>
     derivation_strength (step_type d) = Some (Min (set ss))"
proof -
  have "\<forall>q \<in> set [weakest_rule]. rule_result q = RWeakest" by (simp add: weakest_rule_def)
  from weakest_chain_strength [OF sample_chain_runs this] obtain ss where
    ss: "map (\<lambda>x. derivation_strength (relation_type x)) sample_chain = map Some ss"
      "derivation_strength (structural ''serving'' 2) = Some (Min (set ss))" by auto
  from ss(1) have "ss = [5, 2, 3]"
    by (cases ss rule: remdups_adj.cases)
      (auto simp: sample_chain_def sample_leg_def structural_def)
  with ss sample_chain_runs show ?thesis by auto
qed

end
