(* ===== verification/Module_Registry.thy ===== *)
theory Module_Registry
  imports Ontology_Modules "HOL-Library.AList"
begin

text \<open>
  Which ontologies and diagram types are registered: the sealing builder and the immutable catalog
  (\<^verbatim>\<open>src/domain/modules/module_catalog.py\<close>) and the mutable registry with its snapshot
  (\<^verbatim>\<open>src/domain/modules/module_registry.py\<close>). A dictionary is an association list;
  \<^const>\<open>AList.update\<close> and \<^const>\<open>AList.delete\<close> are Python's item assignment and deletion, insertion
  order included.
\<close>

section \<open>Registration\<close>

datatype registry_error =
    AlreadyRegistered string
  | NotRegistered string
  | BuilderSealed
  | DuplicateElementClass string
  | NoSuchEntityType string
  | NoSuchConnectionType string

abbreviation keys :: "('k \<times> 'v) list \<Rightarrow> 'k set" where
  "keys d \<equiv> fst ` set d"

record module_catalog =
  ontologies :: "(string \<times> ontology_module) list"
  diagram_types :: "(string \<times> diagram_type_module) list"

record catalog_builder =
  b_ontologies :: "(string \<times> ontology_module) list"
  b_diagram_types :: "(string \<times> diagram_type_module) list"
  built :: bool

record module_registry =
  r_ontologies :: "(string \<times> ontology_module) list"
  r_diagram_types :: "(string \<times> diagram_type_module) list"
  snapshot :: "module_catalog option"

definition new_builder :: catalog_builder where
  "new_builder = \<lparr>b_ontologies = [], b_diagram_types = [], built = False\<rparr>"

definition new_registry :: module_registry where
  "new_registry = \<lparr>r_ontologies = [], r_diagram_types = [], snapshot = None\<rparr>"

definition check_not_built :: "catalog_builder \<Rightarrow> (registry_error, unit) result" where
  "check_not_built b = raise_if (built b) BuilderSealed"

definition b_register_ontology ::
    "ontology_module \<Rightarrow> catalog_builder \<Rightarrow> (registry_error, catalog_builder) result" where
  "b_register_ontology m b =
     bind_result (check_not_built b) (\<lambda>_.
     bind_result (raise_if (ontology_name m \<in> keys (b_ontologies b)) (AlreadyRegistered (ontology_name m))) (\<lambda>_.
       Ok (b\<lparr>b_ontologies := AList.update (ontology_name m) m (b_ontologies b)\<rparr>)))"

definition b_unregister_ontology ::
    "string \<Rightarrow> catalog_builder \<Rightarrow> (registry_error, catalog_builder) result" where
  "b_unregister_ontology name b =
     bind_result (check_not_built b) (\<lambda>_.
     bind_result (raise_if (name \<notin> keys (b_ontologies b)) (NotRegistered name)) (\<lambda>_.
       Ok (b\<lparr>b_ontologies := AList.delete name (b_ontologies b)\<rparr>)))"

definition b_replace_ontology ::
    "ontology_module \<Rightarrow> catalog_builder \<Rightarrow> (registry_error, catalog_builder) result" where
  "b_replace_ontology m b =
     bind_result (check_not_built b) (\<lambda>_.
       Ok (b\<lparr>b_ontologies := AList.update (ontology_name m) m (b_ontologies b)\<rparr>))"

definition b_register_diagram_type ::
    "diagram_type_module \<Rightarrow> catalog_builder \<Rightarrow> (registry_error, catalog_builder) result" where
  "b_register_diagram_type m b =
     bind_result (check_not_built b) (\<lambda>_.
     bind_result (raise_if (diagram_type_name m \<in> keys (b_diagram_types b))
         (AlreadyRegistered (diagram_type_name m))) (\<lambda>_.
       Ok (b\<lparr>b_diagram_types := AList.update (diagram_type_name m) m (b_diagram_types b)\<rparr>)))"

definition b_unregister_diagram_type ::
    "string \<Rightarrow> catalog_builder \<Rightarrow> (registry_error, catalog_builder) result" where
  "b_unregister_diagram_type name b =
     bind_result (check_not_built b) (\<lambda>_.
     bind_result (raise_if (name \<notin> keys (b_diagram_types b)) (NotRegistered name)) (\<lambda>_.
       Ok (b\<lparr>b_diagram_types := AList.delete name (b_diagram_types b)\<rparr>)))"

definition b_replace_diagram_type ::
    "diagram_type_module \<Rightarrow> catalog_builder \<Rightarrow> (registry_error, catalog_builder) result" where
  "b_replace_diagram_type m b =
     bind_result (check_not_built b) (\<lambda>_.
       Ok (b\<lparr>b_diagram_types := AList.update (diagram_type_name m) m (b_diagram_types b)\<rparr>))"

definition build :: "catalog_builder \<Rightarrow> module_catalog \<times> catalog_builder" where
  "build b = (\<lparr>ontologies = b_ontologies b, diagram_types = b_diagram_types b\<rparr>, b\<lparr>built := True\<rparr>)"

text \<open>The registry: the same operations without a seal, each dropping the snapshot.\<close>

definition registrations_changed :: "module_registry \<Rightarrow> module_registry" where
  "registrations_changed r = r\<lparr>snapshot := None\<rparr>"

definition catalog :: "module_registry \<Rightarrow> module_catalog \<times> module_registry" where
  "catalog r =
     (case snapshot r of
        Some c \<Rightarrow> (c, r)
      | None \<Rightarrow> (let c = \<lparr>ontologies = r_ontologies r, diagram_types = r_diagram_types r\<rparr> in
                 (c, r\<lparr>snapshot := Some c\<rparr>)))"

definition r_register_ontology ::
    "ontology_module \<Rightarrow> module_registry \<Rightarrow> (registry_error, module_registry) result" where
  "r_register_ontology m r =
     bind_result (raise_if (ontology_name m \<in> keys (r_ontologies r)) (AlreadyRegistered (ontology_name m))) (\<lambda>_.
       Ok (registrations_changed (r\<lparr>r_ontologies := AList.update (ontology_name m) m (r_ontologies r)\<rparr>)))"

definition r_unregister_ontology ::
    "string \<Rightarrow> module_registry \<Rightarrow> (registry_error, module_registry) result" where
  "r_unregister_ontology name r =
     bind_result (raise_if (name \<notin> keys (r_ontologies r)) (NotRegistered name)) (\<lambda>_.
       Ok (registrations_changed (r\<lparr>r_ontologies := AList.delete name (r_ontologies r)\<rparr>)))"

definition r_replace_ontology ::
    "ontology_module \<Rightarrow> module_registry \<Rightarrow> (registry_error, module_registry) result" where
  "r_replace_ontology m r =
     Ok (registrations_changed (r\<lparr>r_ontologies := AList.update (ontology_name m) m (r_ontologies r)\<rparr>))"

definition r_register_diagram_type ::
    "diagram_type_module \<Rightarrow> module_registry \<Rightarrow> (registry_error, module_registry) result" where
  "r_register_diagram_type m r =
     bind_result (raise_if (diagram_type_name m \<in> keys (r_diagram_types r))
         (AlreadyRegistered (diagram_type_name m))) (\<lambda>_.
       Ok (registrations_changed
         (r\<lparr>r_diagram_types := AList.update (diagram_type_name m) m (r_diagram_types r)\<rparr>)))"

definition r_unregister_diagram_type ::
    "string \<Rightarrow> module_registry \<Rightarrow> (registry_error, module_registry) result" where
  "r_unregister_diagram_type name r =
     bind_result (raise_if (name \<notin> keys (r_diagram_types r)) (NotRegistered name)) (\<lambda>_.
       Ok (registrations_changed (r\<lparr>r_diagram_types := AList.delete name (r_diagram_types r)\<rparr>)))"

definition r_replace_diagram_type ::
    "diagram_type_module \<Rightarrow> module_registry \<Rightarrow> (registry_error, module_registry) result" where
  "r_replace_diagram_type m r =
     Ok (registrations_changed
       (r\<lparr>r_diagram_types := AList.update (diagram_type_name m) m (r_diagram_types r)\<rparr>))"

text \<open>A call on either authority.\<close>

datatype registration =
    RegisterOntology ontology_module
  | UnregisterOntology string
  | ReplaceOntology ontology_module
  | RegisterDiagramType diagram_type_module
  | UnregisterDiagramType string
  | ReplaceDiagramType diagram_type_module

fun builder_call :: "registration \<Rightarrow> catalog_builder \<Rightarrow> (registry_error, catalog_builder) result" where
  "builder_call (RegisterOntology m) b = b_register_ontology m b"
| "builder_call (UnregisterOntology n) b = b_unregister_ontology n b"
| "builder_call (ReplaceOntology m) b = b_replace_ontology m b"
| "builder_call (RegisterDiagramType m) b = b_register_diagram_type m b"
| "builder_call (UnregisterDiagramType n) b = b_unregister_diagram_type n b"
| "builder_call (ReplaceDiagramType m) b = b_replace_diagram_type m b"

fun registry_call :: "registration \<Rightarrow> module_registry \<Rightarrow> (registry_error, module_registry) result" where
  "registry_call (RegisterOntology m) r = r_register_ontology m r"
| "registry_call (UnregisterOntology n) r = r_unregister_ontology n r"
| "registry_call (ReplaceOntology m) r = r_replace_ontology m r"
| "registry_call (RegisterDiagramType m) r = r_register_diagram_type m r"
| "registry_call (UnregisterDiagramType n) r = r_unregister_diagram_type n r"
| "registry_call (ReplaceDiagramType m) r = r_replace_diagram_type m r"

fun calls :: "('c \<Rightarrow> 's \<Rightarrow> ('e, 's) result) \<Rightarrow> 'c list \<Rightarrow> 's \<Rightarrow> ('e, 's) result" where
  "calls step [] s = Ok s"
| "calls step (c # cs) s = bind_result (step c s) (calls step cs)"

section \<open>Queries of the catalog\<close>

definition dict_update :: "('k \<times> 'v) list \<Rightarrow> ('k \<times> 'v) list \<Rightarrow> ('k \<times> 'v) list" where
  "dict_update d es = fold (\<lambda>(k, v). AList.update k v) es d"

definition find_ontology :: "module_catalog \<Rightarrow> string \<Rightarrow> ontology_module option" where
  "find_ontology c name = map_of (ontologies c) name"

definition get_ontology :: "module_catalog \<Rightarrow> string \<Rightarrow> (registry_error, ontology_module) result" where
  "get_ontology c name =
     (case map_of (ontologies c) name of Some m \<Rightarrow> Ok m | None \<Rightarrow> Err (NotRegistered name))"

definition find_diagram_type :: "module_catalog \<Rightarrow> string \<Rightarrow> diagram_type_module option" where
  "find_diagram_type c name = map_of (diagram_types c) name"

definition get_diagram_type :: "module_catalog \<Rightarrow> string \<Rightarrow> (registry_error, diagram_type_module) result" where
  "get_diagram_type c name =
     (case map_of (diagram_types c) name of Some m \<Rightarrow> Ok m | None \<Rightarrow> Err (NotRegistered name))"

definition all_entity_types :: "module_catalog \<Rightarrow> (string \<times> entity_type_info) list" where
  "all_entity_types c = fold (\<lambda>om out. dict_update out (entity_types om)) (map snd (ontologies c)) []"

definition all_connection_types :: "module_catalog \<Rightarrow> (string \<times> connection_type_info) list" where
  "all_connection_types c =
     fold (\<lambda>dt out. dict_update out (own_connection_types dt)) (map snd (diagram_types c))
       (fold (\<lambda>om out. dict_update out (connection_types om)) (map snd (ontologies c)) [])"

text \<open>The first dictionary of a sequence that has the key answers.\<close>

fun first_entry :: "('k \<times> 'v) list list \<Rightarrow> 'k \<Rightarrow> 'v option" where
  "first_entry [] k = None"
| "first_entry (d # ds) k = (case map_of d k of Some v \<Rightarrow> Some v | None \<Rightarrow> first_entry ds k)"

definition find_entity_type :: "module_catalog \<Rightarrow> string \<Rightarrow> entity_type_info option" where
  "find_entity_type c name = first_entry (map (entity_types \<circ> snd) (ontologies c)) name"

definition get_entity_type :: "module_catalog \<Rightarrow> string \<Rightarrow> (registry_error, entity_type_info) result" where
  "get_entity_type c name =
     (case first_entry (map (entity_types \<circ> snd) (ontologies c)) name of
        Some i \<Rightarrow> Ok i | None \<Rightarrow> Err (NoSuchEntityType name))"

definition find_connection_type :: "module_catalog \<Rightarrow> string \<Rightarrow> connection_type_info option" where
  "find_connection_type c name =
     first_entry (map (connection_types \<circ> snd) (ontologies c) @
       map (own_connection_types \<circ> snd) (diagram_types c)) name"

definition get_connection_type :: "module_catalog \<Rightarrow> string \<Rightarrow> (registry_error, connection_type_info) result" where
  "get_connection_type c name =
     (case first_entry (map (connection_types \<circ> snd) (ontologies c) @
        map (own_connection_types \<circ> snd) (diagram_types c)) name of
        Some i \<Rightarrow> Ok i | None \<Rightarrow> Err (NoSuchConnectionType name))"

definition entity_types_with_class :: "module_catalog \<Rightarrow> string \<Rightarrow> string set" where
  "entity_types_with_class c cls = (\<Union>om \<in> set (map snd (ontologies c)). module_types_with_class om cls)"

definition connection_types_with_class :: "module_catalog \<Rightarrow> string \<Rightarrow> string set" where
  "connection_types_with_class c cls =
     (\<Union>om \<in> set (map snd (ontologies c)). module_connections_with_class om cls) \<union>
     (\<Union>dt \<in> set (map snd (diagram_types c)).
        fst ` {e \<in> set (own_connection_types dt). cls \<in> set (ctype_classes (snd e))})"

definition ontology_for_entity_type :: "module_catalog \<Rightarrow> string \<Rightarrow> ontology_module option" where
  "ontology_for_entity_type c name =
     List.find (\<lambda>om. name \<in> keys (entity_types om)) (map snd (ontologies c))"

definition aggregated_permitted_relationships :: "module_catalog \<Rightarrow> permitted_relationship_set" where
  "aggregated_permitted_relationships c =
     fold (\<lambda>om acc. union_rules acc (permitted_relationships om)) (map snd (ontologies c)) []"

definition all_diagram_entity_types :: "module_catalog \<Rightarrow> string set" where
  "all_diagram_entity_types c =
     (\<Union>dt \<in> set (map snd (diagram_types c)). own_type_name ` set (diagram_only_types dt))"

definition diagram_entity_types_in_global_search :: "module_catalog \<Rightarrow> string set" where
  "diagram_entity_types_in_global_search c =
     (\<Union>dt \<in> set (map snd (diagram_types c)).
        own_type_name ` {t \<in> set (diagram_only_types dt). include_in_global_search t})"

definition is_diagram_entity_type :: "module_catalog \<Rightarrow> string \<Rightarrow> bool" where
  "is_diagram_entity_type c name \<longleftrightarrow> name \<in> all_diagram_entity_types c"

fun collect_classes ::
    "(string \<times> element_class_info) list \<Rightarrow> (string \<times> element_class_info) list
      \<Rightarrow> (registry_error, (string \<times> element_class_info) list) result" where
  "collect_classes acc [] = Ok acc"
| "collect_classes acc ((name, info) # es) =
     (if name \<in> keys acc then Err (DuplicateElementClass name)
      else collect_classes (acc @ [(name, info)]) es)"

definition all_element_classes ::
    "module_catalog \<Rightarrow> (registry_error, (string \<times> element_class_info) list) result" where
  "all_element_classes c =
     collect_classes [] (concat (map (element_classes \<circ> snd) (ontologies c)) @
       concat (map (diagram_element_classes \<circ> snd) (diagram_types c)))"

definition add_unseen :: "'a \<Rightarrow> 'a list \<Rightarrow> 'a list" where
  "add_unseen x acc = (if x \<in> set acc then acc else acc @ [x])"

definition type_domain :: "entity_type_info \<Rightarrow> string" where
  "type_domain et = (case hierarchy et of [] \<Rightarrow> [] | d # _ \<Rightarrow> d)"

definition domain_order :: "module_catalog \<Rightarrow> string list" where
  "domain_order c =
     fold (\<lambda>et acc. if \<not> internal et \<and> type_domain et \<noteq> [] then add_unseen (type_domain et) acc else acc)
       (concat (map (\<lambda>(_, om). map snd (entity_types om)) (ontologies c)))
       (fold add_unseen (concat (map (\<lambda>(_, om). declared_domain_order om) (ontologies c))) [])"

end
