(* ===== verification/Module_Registry_Properties.thy ===== *)
theory Module_Registry_Properties
  imports Module_Registry
begin

text \<open>
  The contract both registration authorities keep, as a locale interpreted four times (ontologies
  and diagram types of the builder and of the registry), and what it gives: the two authorities
  agree, a registry never answers from before a change, and which declaration a lookup finds.
\<close>

section \<open>The registration contract\<close>

locale registrar =
  fixes accepts :: "'s \<Rightarrow> bool"
    and entries :: "'s \<Rightarrow> (string \<times> 'm) list"
    and name_of :: "'m \<Rightarrow> string"
    and register :: "'m \<Rightarrow> 's \<Rightarrow> (registry_error, 's) result"
    and unregister :: "string \<Rightarrow> 's \<Rightarrow> (registry_error, 's) result"
    and replace :: "'m \<Rightarrow> 's \<Rightarrow> (registry_error, 's) result"
  assumes register_fresh: "\<lbrakk>accepts s; name_of m \<notin> keys (entries s)\<rbrakk> \<Longrightarrow>
      \<exists>s'. register m s = Inr s' \<and> accepts s' \<and> entries s' = AList.update (name_of m) m (entries s)"
    and register_taken: "\<lbrakk>accepts s; name_of m \<in> keys (entries s)\<rbrakk> \<Longrightarrow>
      register m s = Inl (AlreadyRegistered (name_of m))"
    and unregister_known: "\<lbrakk>accepts s; n \<in> keys (entries s)\<rbrakk> \<Longrightarrow>
      \<exists>s'. unregister n s = Inr s' \<and> accepts s' \<and> entries s' = AList.delete n (entries s)"
    and unregister_unknown: "\<lbrakk>accepts s; n \<notin> keys (entries s)\<rbrakk> \<Longrightarrow>
      unregister n s = Inl (NotRegistered n)"
    and replace_any: "accepts s \<Longrightarrow>
      \<exists>s'. replace m s = Inr s' \<and> accepts s' \<and> entries s' = AList.update (name_of m) m (entries s)"
begin

lemma register_unregister:
  assumes "accepts s" and "name_of m \<notin> keys (entries s)"
  shows "\<exists>s' s''. register m s = Inr s' \<and> unregister (name_of m) s' = Inr s'' \<and>
    entries s'' = entries s"
proof -
  obtain s' where s': "register m s = Inr s'" "accepts s'"
    "entries s' = AList.update (name_of m) m (entries s)"
    using register_fresh [OF assms] by blast
  have "name_of m \<in> keys (entries s')" by (simp add: s'(3) dom_update)
  then obtain s'' where s'': "unregister (name_of m) s' = Inr s''"
    "entries s'' = AList.delete (name_of m) (entries s')"
    using unregister_known [OF s'(2)] by blast
  have "AList.delete (name_of m) (AList.update (name_of m) m d) = d" if "name_of m \<notin> keys d" for d
    using that by (induction d) (auto simp: image_iff)
  with s' s'' assms(2) show ?thesis by auto
qed

lemma replace_then_lookup:
  assumes "accepts s"
  shows "\<exists>s'. replace m s = Inr s' \<and> map_of (entries s') = (map_of (entries s))(name_of m \<mapsto> m)"
  using replace_any [OF assms, of m] by (auto simp: update_conv')

lemma register_keeps_distinct:
  assumes "accepts s" and "distinct (map fst (entries s))" and "register m s = Inr s'"
  shows "distinct (map fst (entries s'))"
  using assms register_fresh [of s m] register_taken [of s m]
  by (cases "name_of m \<in> keys (entries s)") (auto simp: distinct_update)

end

interpretation builder_ontologies: registrar "\<lambda>b. \<not> built b" b_ontologies ontology_name
  b_register_ontology b_unregister_ontology b_replace_ontology
  by unfold_locales
    (simp_all add: b_register_ontology_def b_unregister_ontology_def b_replace_ontology_def check_not_built_def)

interpretation builder_diagrams: registrar "\<lambda>b. \<not> built b" b_diagram_types diagram_type_name
  b_register_diagram_type b_unregister_diagram_type b_replace_diagram_type
  by unfold_locales
    (simp_all add: b_register_diagram_type_def b_unregister_diagram_type_def b_replace_diagram_type_def
      check_not_built_def)

interpretation registry_ontologies: registrar "\<lambda>_. True" r_ontologies ontology_name
  r_register_ontology r_unregister_ontology r_replace_ontology
  by unfold_locales
    (simp_all add: r_register_ontology_def r_unregister_ontology_def r_replace_ontology_def
      registrations_changed_def)

interpretation registry_diagrams: registrar "\<lambda>_. True" r_diagram_types diagram_type_name
  r_register_diagram_type r_unregister_diagram_type r_replace_diagram_type
  by unfold_locales
    (simp_all add: r_register_diagram_type_def r_unregister_diagram_type_def r_replace_diagram_type_def
      registrations_changed_def)

lemmas builder_call_defs = b_register_ontology_def b_unregister_ontology_def b_replace_ontology_def
  b_register_diagram_type_def b_unregister_diagram_type_def b_replace_diagram_type_def
  check_not_built_def

lemmas registry_call_defs = r_register_ontology_def r_unregister_ontology_def r_replace_ontology_def
  r_register_diagram_type_def r_unregister_diagram_type_def r_replace_diagram_type_def
  registrations_changed_def

section \<open>The two authorities agree\<close>

definition same_registrations :: "catalog_builder \<Rightarrow> module_registry \<Rightarrow> bool" where
  "same_registrations b r \<longleftrightarrow>
     \<not> built b \<and> b_ontologies b = r_ontologies r \<and> b_diagram_types b = r_diagram_types r"

definition fresh :: "module_registry \<Rightarrow> bool" where
  "fresh r \<longleftrightarrow> (\<forall>c. snapshot r = Some c \<longrightarrow>
     c = \<lparr>ontologies = r_ontologies r, diagram_types = r_diagram_types r\<rparr>)"

lemma calls_simulate:
  assumes "same_registrations b r"
  shows "rel_sum (=) same_registrations (builder_call c b) (registry_call c r)"
  using assms
  by (cases c) (simp_all add: same_registrations_def builder_call_defs registry_call_defs raise_if_def)

lemma runs_simulate:
  "same_registrations b r \<Longrightarrow>
   rel_sum (=) same_registrations (calls builder_call cs b) (calls registry_call cs r)"
proof (induction cs arbitrary: b r)
  case Nil
  then show ?case by simp
next
  case (Cons c cs)
  from calls_simulate [OF Cons.prems, of c] show ?case
    by (cases rule: rel_sum.cases) (simp_all add: Cons.IH)
qed

lemma registry_call_fresh: "registry_call c r = Inr r' \<Longrightarrow> fresh r'"
  by (cases c) (auto simp: registry_call_defs fresh_def raise_if_def split: if_splits)

lemma catalog_fresh:
  assumes "fresh r"
  shows "fst (catalog r) = \<lparr>ontologies = r_ontologies r, diagram_types = r_diagram_types r\<rparr>"
    and "fresh (snd (catalog r))"
  using assms by (auto simp: catalog_def fresh_def Let_def split: option.splits)

lemma runs_fresh: "\<lbrakk>calls registry_call cs r = Inr r'; fresh r\<rbrakk> \<Longrightarrow> fresh r'"
proof (induction cs arbitrary: r)
  case (Cons c cs)
  then show ?case using registry_call_fresh by (auto simp: bind_result_eq_Inr)
qed simp

text \<open>
  The sealing builder and the live registry are two authorities with one answer: the same
  registration calls, in the same order, either raise the same exception in both or leave both
  able to hand over the same catalog, with the same modules in the same order.
\<close>

theorem registration_authorities_agree:
  "case (calls builder_call cs new_builder, calls registry_call cs new_registry) of
     (Inl e, Inl e') \<Rightarrow> e = e'
   | (Inr b, Inr r) \<Rightarrow> fst (build b) = fst (catalog r)
   | _ \<Rightarrow> False"
proof -
  have start: "same_registrations new_builder new_registry"
    by (simp add: same_registrations_def new_builder_def new_registry_def)
  have "fst (build b) = fst (catalog r)"
    if "same_registrations b r" and "calls registry_call cs new_registry = Inr r" for b r
  proof -
    have "fresh r" by (rule runs_fresh [OF that(2)]) (simp add: fresh_def new_registry_def)
    with that(1) catalog_fresh(1) show ?thesis by (simp add: same_registrations_def build_def)
  qed
  with runs_simulate [OF start, of cs] show ?thesis
    by (cases rule: rel_sum.cases) simp_all
qed

text \<open>
  One thing a client does to a registry: a registration call that is accepted, or a query, which
  takes the snapshot when there is none.
\<close>

inductive registry_step :: "module_registry \<Rightarrow> module_registry \<Rightarrow> bool" where
  change: "registry_call c r = Inr r' \<Longrightarrow> registry_step r r'"
| query: "registry_step r (snd (catalog r))"

inductive reachable_registry :: "module_registry \<Rightarrow> bool" where
  start: "reachable_registry new_registry"
| step: "\<lbrakk>reachable_registry r; registry_step r r'\<rbrakk> \<Longrightarrow> reachable_registry r'"

inductive_cases registry_stepE: "registry_step r r'"

lemma reachable_fresh: "reachable_registry r \<Longrightarrow> fresh r"
proof (induction rule: reachable_registry.induct)
  case start
  show ?case by (simp add: fresh_def new_registry_def)
next
  case (step r r')
  then show ?case using registry_call_fresh catalog_fresh(2) by (blast elim: registry_stepE)
qed

text \<open>
  A registry never answers from before a change. In every state that registration calls and
  queries can reach, in any interleaving, the catalog behind a query holds exactly the modules
  registered now, and asking does not change what is registered.
\<close>

theorem registry_answers_are_current:
  assumes "reachable_registry r"
  shows "fst (catalog r) = \<lparr>ontologies = r_ontologies r, diagram_types = r_diagram_types r\<rparr> \<and>
    r_ontologies (snd (catalog r)) = r_ontologies r \<and>
    r_diagram_types (snd (catalog r)) = r_diagram_types r"
  using catalog_fresh(1) [OF reachable_fresh [OF assms]]
  by (auto simp: catalog_def Let_def split: option.splits)

theorem registry_answers_are_current_witness:
  "\<exists>r. calls registry_call [RegisterOntology (empty_ontology ''a'')] new_registry = Ok r \<and>
     fst (catalog (snd (catalog r))) =
       \<lparr>ontologies = [(''a'', empty_ontology ''a'')], diagram_types = []\<rparr>"
proof -
  let ?r = "\<lparr>r_ontologies = [(''a'', empty_ontology ''a'')], r_diagram_types = [], snapshot = None\<rparr>"
  have call: "registry_call (RegisterOntology (empty_ontology ''a'')) new_registry = Inr ?r"
    by (simp add: registry_call_defs new_registry_def empty_ontology_def)
  have "reachable_registry (snd (catalog ?r))"
    by (rule reachable_registry.step [OF _ registry_step.query],
        rule reachable_registry.step [OF reachable_registry.start registry_step.change [OF call]])
  from registry_answers_are_current [OF this] call show ?thesis
    by (simp add: catalog_def Let_def)
qed

text \<open>
  Sealing is final, and an unsealed registration is undone by its counterpart. After
  \<^verbatim>\<open>build\<close> every registration call raises and so changes nothing, whatever it registers; before it,
  registering an ontology under a free name and unregistering that name gives back exactly the
  registrations there were, order included.
\<close>

theorem builder_seals_and_undoes:
  "builder_call c (snd (build b)) = Err BuilderSealed \<and>
   (built b \<or> ontology_name m \<in> keys (b_ontologies b) \<or>
    (\<exists>b' b''. builder_call (RegisterOntology m) b = Ok b' \<and>
       builder_call (UnregisterOntology (ontology_name m)) b' = Ok b'' \<and>
       b_ontologies b'' = b_ontologies b))"
proof -
  have "builder_call c (snd (build b)) = Err BuilderSealed"
    by (cases c) (simp_all add: builder_call_defs build_def)
  then show ?thesis using builder_ontologies.register_unregister [of b m] by auto
qed

section \<open>Which declaration answers\<close>

definition well_keyed :: "module_catalog \<Rightarrow> bool" where
  "well_keyed c \<longleftrightarrow> (\<forall>om \<in> set (map snd (ontologies c)). distinct (map fst (entity_types om)))"

lemma map_of_dict_update:
  "distinct (map fst es) \<Longrightarrow> map_of (dict_update d es) = map_of d ++ map_of es"
proof (induction es arbitrary: d)
  case Nil
  then show ?case by (simp add: dict_update_def)
next
  case (Cons e es)
  obtain k v where e: "e = (k, v)" by (cases e)
  have "map_of (dict_update d (e # es)) = map_of (dict_update (AList.update k v d) es)"
    by (simp add: dict_update_def e)
  also have "\<dots> = (map_of d)(k \<mapsto> v) ++ map_of es"
    using Cons.prems by (simp add: Cons.IH update_conv' e fun_upd_def)
  also have "\<dots> = map_of d ++ map_of (e # es)"
  proof -
    have "k \<notin> dom (map_of es)" using Cons.prems by (simp add: e dom_map_of_conv_image_fst)
    then show ?thesis by (auto simp: e map_add_def fun_eq_iff dom_def split: option.splits)
  qed
  finally show ?case .
qed

lemma first_entry_append:
  "first_entry (ds @ [d]) k = (case first_entry ds k of Some v \<Rightarrow> Some v | None \<Rightarrow> map_of d k)"
  by (induction ds) (auto split: option.splits)

lemma map_of_all_entity_types:
  assumes "well_keyed c"
  shows "map_of (all_entity_types c) n = first_entry (rev (map (entity_types \<circ> snd) (ontologies c))) n"
proof -
  have "map_of (fold (\<lambda>om out. dict_update out (entity_types om)) oms d) n =
      (case first_entry (rev (map entity_types oms)) n of Some v \<Rightarrow> Some v | None \<Rightarrow> map_of d n)"
    if "\<forall>om \<in> set oms. distinct (map fst (entity_types om))" for oms d
    using that
  proof (induction oms arbitrary: d)
    case Nil
    then show ?case by simp
  next
    case (Cons om oms)
    then show ?case
      by (auto simp: map_of_dict_update first_entry_append map_add_def split: option.splits)
  qed
  from this [of "map snd (ontologies c)" "[]"] assms show ?thesis
    by (simp add: all_entity_types_def well_keyed_def split: option.splits)
qed

lemma first_entry_mem: "first_entry ds k = Some v \<Longrightarrow> \<exists>d \<in> set ds. map_of d k = Some v"
  by (induction ds) (auto split: option.splits)

lemma first_entry_None: "first_entry ds k = None \<longleftrightarrow> (\<forall>d \<in> set ds. map_of d k = None)"
  by (induction ds) (auto split: option.splits)

text \<open>
  Which ontology wins for an entity type that several declare depends on how one asks: the
  single lookup \<^verbatim>\<open>find_entity_type\<close> answers from the first ontology registered that declares the name,
  the aggregated mapping \<^verbatim>\<open>all_entity_types\<close> from the last. They know the same names, and they give
  one answer for a name that no two ontologies declare differently; the sample shows that they
  differ where two do.
\<close>

theorem duplicate_entity_types_resolve_both_ways:
  assumes "well_keyed c"
  shows "find_entity_type c n = first_entry (map (entity_types \<circ> snd) (ontologies c)) n \<and>
    map_of (all_entity_types c) n = first_entry (rev (map (entity_types \<circ> snd) (ontologies c))) n \<and>
    (find_entity_type c n = None \<longleftrightarrow> map_of (all_entity_types c) n = None) \<and>
    ((\<forall>a \<in> set (ontologies c). \<forall>b \<in> set (ontologies c). \<forall>i j.
        map_of (entity_types (snd a)) n = Some i \<and> map_of (entity_types (snd b)) n = Some j \<longrightarrow> i = j) \<longrightarrow>
      find_entity_type c n = map_of (all_entity_types c) n)"
proof -
  let ?ds = "map (entity_types \<circ> snd) (ontologies c)"
  have same_none: "first_entry ?ds n = None \<longleftrightarrow> first_entry (rev ?ds) n = None"
    by (simp add: first_entry_None)
  have "first_entry ?ds n = first_entry (rev ?ds) n"
    if agree: "\<forall>a \<in> set (ontologies c). \<forall>b \<in> set (ontologies c). \<forall>i j.
        map_of (entity_types (snd a)) n = Some i \<and> map_of (entity_types (snd b)) n = Some j \<longrightarrow> i = j"
  proof (cases "first_entry ?ds n")
    case None
    with same_none show ?thesis by simp
  next
    case (Some i)
    with same_none obtain j where j: "first_entry (rev ?ds) n = Some j" by auto
    from first_entry_mem [OF Some] first_entry_mem [OF j] agree have "i = j" by fastforce
    with Some j show ?thesis by simp
  qed
  with same_none show ?thesis
    unfolding find_entity_type_def map_of_all_entity_types [OF assms] by blast
qed

definition conflicting_catalog :: module_catalog where
  "conflicting_catalog =
     (let decl = (\<lambda>layer. \<lparr>etype_name = ''node'', hierarchy = [layer], etype_classes = [], internal = False\<rparr>) in
      \<lparr>ontologies = [(''a'', (empty_ontology ''a'')\<lparr>entity_types := [(''node'', decl ''technology'')]\<rparr>),
         (''b'', (empty_ontology ''b'')\<lparr>entity_types := [(''node'', decl ''strategy'')]\<rparr>)],
       diagram_types = []\<rparr>)"

theorem duplicate_entity_types_resolve_both_ways_witness:
  "map_option hierarchy (find_entity_type conflicting_catalog ''node'') = Some [''technology''] \<and>
   map_option hierarchy (map_of (all_entity_types conflicting_catalog) ''node'') = Some [''strategy'']"
proof -
  have "well_keyed conflicting_catalog"
    by (simp add: well_keyed_def conflicting_catalog_def Let_def empty_ontology_def)
  from duplicate_entity_types_resolve_both_ways [OF this, of "''node''"] show ?thesis
    by (simp add: conflicting_catalog_def Let_def empty_ontology_def)
qed

section \<open>The order of domains\<close>

lemma fold_add_unseen:
  "\<exists>rest. fold add_unseen xs acc = acc @ rest \<and> set (acc @ rest) = set acc \<union> set xs \<and>
     (distinct acc \<longrightarrow> distinct (acc @ rest))"
proof (induction xs arbitrary: acc)
  case Nil
  then show ?case by simp
next
  case (Cons x xs)
  from Cons.IH [of "add_unseen x acc"] obtain rest where
    rest: "fold add_unseen (x # xs) acc = add_unseen x acc @ rest"
      "set (add_unseen x acc @ rest) = set (add_unseen x acc) \<union> set xs"
      "distinct (add_unseen x acc) \<longrightarrow> distinct (add_unseen x acc @ rest)" by auto
  show ?case
  proof (cases "x \<in> set acc")
    case True
    then have "add_unseen x acc = acc" by (simp add: add_unseen_def)
    with rest True show ?thesis by (intro exI [of _ rest]) auto
  next
    case False
    then have "add_unseen x acc = acc @ [x]" by (simp add: add_unseen_def)
    with rest False show ?thesis by (intro exI [of _ "x # rest"]) auto
  qed
qed

lemma fold_add_unseen_append:
  "distinct (fold add_unseen (xs @ ys) []) \<and> set (fold add_unseen (xs @ ys) []) = set xs \<union> set ys \<and>
   (\<exists>rest. fold add_unseen (xs @ ys) [] = fold add_unseen xs [] @ rest \<and> set rest \<inter> set xs = {})"
proof -
  have whole: "distinct (fold add_unseen (xs @ ys) [])"
      "set (fold add_unseen (xs @ ys) []) = set xs \<union> set ys"
    and first: "set (fold add_unseen xs []) = set xs"
    using fold_add_unseen [of "xs @ ys" "[]"] fold_add_unseen [of xs "[]"] by auto
  obtain rest where rest: "fold add_unseen (xs @ ys) [] = fold add_unseen xs [] @ rest"
    using fold_add_unseen [of ys "fold add_unseen xs []"] by auto
  then have "set rest \<inter> set xs = {}" using whole(1) first by auto
  with whole rest show ?thesis by blast
qed

lemma domain_order_eq:
  "domain_order c =
     fold add_unseen
       (concat (map (\<lambda>(_, om). declared_domain_order om) (ontologies c)) @
        map type_domain (filter (\<lambda>et. \<not> internal et \<and> type_domain et \<noteq> [])
          (concat (map (\<lambda>(_, om). map snd (entity_types om)) (ontologies c))))) []"
proof -
  have "fold (\<lambda>et acc. if \<not> internal et \<and> type_domain et \<noteq> [] then add_unseen (type_domain et) acc else acc)
      ets acc = fold add_unseen (map type_domain (filter (\<lambda>et. \<not> internal et \<and> type_domain et \<noteq> []) ets)) acc"
    for ets acc
    by (induction ets arbitrary: acc) auto
  then show ?thesis by (simp add: domain_order_def)
qed

text \<open>
  The order of domains lists every domain once: those the ontologies declare, in the order
  declared, and after them every other domain that has an entity type which is not internal.
\<close>

theorem domain_order_complete:
  "let declared = concat (map (\<lambda>(_, om). declared_domain_order om) (ontologies c));
       types = concat (map (\<lambda>(_, om). map snd (entity_types om)) (ontologies c)) in
   distinct (domain_order c) \<and>
   set (domain_order c) = set declared \<union>
     {type_domain et | et. et \<in> set types \<and> \<not> internal et \<and> type_domain et \<noteq> []} \<and>
   (\<exists>rest. domain_order c = fold add_unseen declared [] @ rest \<and> set rest \<inter> set declared = {})"
proof -
  let ?declared = "concat (map (\<lambda>(_, om). declared_domain_order om) (ontologies c))"
  let ?types = "concat (map (\<lambda>(_, om). map snd (entity_types om)) (ontologies c))"
  let ?found = "map type_domain (filter (\<lambda>et. \<not> internal et \<and> type_domain et \<noteq> []) ?types)"
  have "set ?found = {type_domain et | et. et \<in> set ?types \<and> \<not> internal et \<and> type_domain et \<noteq> []}"
    by auto
  with fold_add_unseen_append [of ?declared ?found, folded domain_order_eq] show ?thesis
    by (simp only: Let_def)
qed

end
