(* ===== verification/Path_Reconstruction.thy ===== *)
theory Path_Reconstruction
  imports Derivation Module_Registry
begin

text \<open>
  Re-applying derivation to one recorded path
  (\<^verbatim>\<open>src/domain/relationships/relationship_path_reconstruction.py\<close>). The store is a parameter: a
  \<open>read_access\<close> record of the three reads the code makes. Of the entity and connection records
  (\<^verbatim>\<open>ontology_representation/artifact_types.py\<close>) only the fields read here are kept.
\<close>

section \<open>Records and the store\<close>

record entity_record =
  entity_artifact_id :: string
  entity_artifact_type :: string

record connection_record =
  conn_id :: string
  conn_source :: string
  conn_target :: string
  conn_type :: string

datatype read_direction = AnyDirection | Outbound | Inbound

record read_access =
  get_entity :: "string \<Rightarrow> entity_record option"
  get_connection :: "string \<Rightarrow> connection_record option"
  find_connections_for :: "string \<Rightarrow> read_direction \<Rightarrow> string option \<Rightarrow> connection_record list"

section \<open>Path keys\<close>

text \<open>A step is a connection id and whether it is walked forward.\<close>

type_synonym path = "(string \<times> bool) list"

definition step_text :: "string \<times> bool \<Rightarrow> string" where
  "step_text p = fst p @ ''@'' @ (if snd p then ''fwd'' else ''rev'')"

definition path_key :: "path \<Rightarrow> string" where
  "path_key p = py_join ''|'' (map step_text p)"

fun parse_steps :: "string list \<Rightarrow> path option" where
  "parse_steps [] = Some []"
| "parse_steps (item # items) =
     (case py_rpartition (CHR ''@'') item of
        (cid, found, marker) \<Rightarrow>
          if cid = [] \<or> \<not> found \<or> marker \<notin> {''fwd'', ''rev''} then None
          else (case parse_steps items of None \<Rightarrow> None | Some p \<Rightarrow> Some ((cid, marker = ''fwd'') # p)))"

definition parse_path_key :: "string \<Rightarrow> path option" where
  "parse_path_key key = (if key = [] then None else parse_steps (py_split (CHR ''|'') key))"

section \<open>Resolving connections\<close>

definition oriented_relation_of ::
    "connection_record \<Rightarrow> read_access \<Rightarrow> module_catalog \<Rightarrow> bool \<Rightarrow> oriented_relation option" where
  "oriented_relation_of c ra registries fwd =
     (case (get_entity ra (conn_source c), get_entity ra (conn_target c),
            map_of (all_connection_types registries) (conn_type c)) of
        (Some src, Some tgt, Some ctype) \<Rightarrow>
          (case (map_of (all_entity_types registries) (entity_artifact_type src),
                 map_of (all_entity_types registries) (entity_artifact_type tgt)) of
             (Some sinfo, Some tinfo) \<Rightarrow>
               if derivation_role ctype = None then None
               else Some \<lparr>connection_id = conn_id c, relation_type = ctype, source_id = conn_source c,
                      target_id = conn_target c, forward = fwd,
                      source_type = Some (entity_artifact_type src),
                      target_type = Some (entity_artifact_type tgt),
                      source_info = Some sinfo, target_info = Some tinfo, potential_steps = 0\<rparr>
           | _ \<Rightarrow> None)
      | _ \<Rightarrow> None)"

definition shared_entity_info ::
    "oriented_relation \<Rightarrow> oriented_relation \<Rightarrow> read_access \<Rightarrow> module_catalog \<Rightarrow> entity_type_info option" where
  "shared_entity_info f s ra registries =
     (case filter (\<lambda>x. x \<in> {source_id s, target_id s}) (remdups [source_id f, target_id f]) of
        [shared] \<Rightarrow> (case get_entity ra shared of
                      None \<Rightarrow> None
                    | Some e \<Rightarrow> map_of (all_entity_types registries) (entity_artifact_type e))
      | _ \<Rightarrow> None)"

definition derived_relation :: "derived_step \<Rightarrow> oriented_relation" where
  "derived_relation st = relation_of_step (''derived:'' @ ctype_name (step_type st)) st"

section \<open>Re-deriving a path\<close>

datatype path_break =
    MalformedKey
  | MissingConnection string
  | UnresolvedConnection string
  | NotJoined

datatype path_refusal = TooShort | NoRuleApplies

datatype path_outcome =
    DerivedPath string string string certainty nat
  | BrokenPath path_break
  | NoLongerDerived path_refusal

fun resolve_path ::
    "path \<Rightarrow> read_access \<Rightarrow> module_catalog \<Rightarrow> (path_break, oriented_relation list) result" where
  "resolve_path [] ra registries = Ok []"
| "resolve_path ((cid, fwd) # p) ra registries =
     (case get_connection ra cid of
        None \<Rightarrow> Err (MissingConnection cid)
      | Some c \<Rightarrow>
          (case oriented_relation_of c ra registries fwd of
             None \<Rightarrow> Err (UnresolvedConnection cid)
           | Some r \<Rightarrow> bind_result (resolve_path p ra registries) (\<lambda>rs. Ok (r # rs))))"

definition all_rules :: "module_catalog \<Rightarrow> composition_rule list" where
  "all_rules registries = concat (map (\<lambda>(_, om). derivation_rules om) (ontologies registries))"

definition all_restrictions :: "module_catalog \<Rightarrow> derivation_restriction list" where
  "all_restrictions registries = concat (map (\<lambda>(_, om). derivation_restrictions om) (ontologies registries))"

text \<open>The loop over the remaining relations; the left summand of the inner result stops it.\<close>

fun refold ::
    "oriented_relation \<Rightarrow> oriented_relation list \<Rightarrow> read_access \<Rightarrow> module_catalog
      \<Rightarrow> (derivation_error, (path_outcome, oriented_relation) result) result" where
  "refold current [] ra registries = Ok (Inr current)"
| "refold current (next_rel # rest) ra registries =
     (case shared_entity_info current next_rel ra registries of
        None \<Rightarrow> Ok (Inl (BrokenPath NotJoined))
      | Some mid \<Rightarrow>
          bind_result (compose current next_rel mid (all_rules registries)
              (Some (aggregated_permitted_relationships registries)) (all_restrictions registries))
            (\<lambda>st. case st of
                None \<Rightarrow> Ok (Inl (NoLongerDerived NoRuleApplies))
              | Some d \<Rightarrow> refold (derived_relation d) rest ra registries))"

definition derive_relationship_for_path ::
    "string \<Rightarrow> read_access \<Rightarrow> module_catalog \<Rightarrow> (derivation_error, path_outcome) result" where
  "derive_relationship_for_path key ra registries =
     (case parse_path_key key of
        None \<Rightarrow> Ok (BrokenPath MalformedKey)
      | Some p \<Rightarrow>
          (case resolve_path p ra registries of
             Inl broken \<Rightarrow> Ok (BrokenPath broken)
           | Inr relations \<Rightarrow>
               if length relations < 2 then Ok (NoLongerDerived TooShort)
               else bind_result (refold (hd relations) (tl relations) ra registries) (\<lambda>out.
                 case out of
                   Inl outcome \<Rightarrow> Ok outcome
                 | Inr current \<Rightarrow> Ok (DerivedPath (source_id current) (target_id current)
                     (ctype_name (relation_type current)) (certainty_of (potential_steps current))
                     (length relations)))))"

section \<open>Path keys round trip\<close>

definition keyable :: "path \<Rightarrow> bool" where
  "keyable p \<longleftrightarrow> p \<noteq> [] \<and> (\<forall>s \<in> set p. fst s \<noteq> [] \<and> CHR ''|'' \<notin> set (fst s))"

lemma step_text_no_bar: "CHR ''|'' \<notin> set (fst s) \<Longrightarrow> CHR ''|'' \<notin> set (step_text s)"
  by (auto simp: step_text_def)

lemma rpartition_step_text:
  "py_rpartition (CHR ''@'') (step_text s) = (fst s, True, if snd s then ''fwd'' else ''rev'')"
  unfolding step_text_def by (cases "snd s") (simp_all add: py_rpartition_append)

lemma parse_steps_texts:
  "\<forall>s \<in> set p. fst s \<noteq> [] \<Longrightarrow> parse_steps (map step_text p) = Some p"
  by (induction p) (auto simp: rpartition_step_text)

lemma path_key_not_Nil: "p \<noteq> [] \<Longrightarrow> path_key p \<noteq> []"
  by (cases p rule: remdups_adj.cases) (simp_all add: path_key_def step_text_def)

lemma parse_path_key_of_path:
  assumes "keyable p"
  shows "parse_path_key (path_key p) = Some p"
proof -
  have "py_split (CHR ''|'') (path_key p) = map step_text p"
    unfolding path_key_def
    by (rule py_split_join) (use assms step_text_no_bar in \<open>auto simp: keyable_def\<close>)
  with assms path_key_not_Nil [of p] show ?thesis
    by (simp add: parse_path_key_def parse_steps_texts keyable_def)
qed

lemma parse_steps_Some:
  "parse_steps items = Some p \<Longrightarrow> map step_text p = items \<and> (\<forall>s \<in> set p. fst s \<noteq> [])"
proof (induction items arbitrary: p)
  case Nil
  then show ?case by simp
next
  case (Cons item items)
  obtain cid found marker where parts: "py_rpartition (CHR ''@'') item = (cid, found, marker)"
    by (cases "py_rpartition (CHR ''@'') item")
  with Cons.prems obtain q where q: "parse_steps items = Some q" and p: "p = (cid, marker = ''fwd'') # q"
    and ok: "cid \<noteq> []" "found" "marker \<in> {''fwd'', ''rev''}"
    by (auto split: if_splits option.splits)
  from parts ok(2) have "item = cid @ CHR ''@'' # marker"
    by (simp add: py_rpartition_found)
  with ok Cons.IH [OF q] show ?case by (auto simp: p step_text_def)
qed

end
