(* ===== verification/Read_Cache.thy ===== *)
theory Read_Cache
  imports Path_Reconstruction
begin

text \<open>
  The per-call memoisation of reads (\<^verbatim>\<open>_MemoizedReadAccess\<close> in
  \<^verbatim>\<open>src/domain/relationships/relationship_reachability.py\<close>): three dictionaries in front of a store.
  The field \<open>store_reads\<close> is the trace of the calls that reach the store; no operation reads it.
\<close>

section \<open>The three caches\<close>

datatype read_request =
    ReadEntity string
  | ReadConnection string
  | ReadConnectionsFor string read_direction "string option"

datatype read_answer =
    EntityAnswer "entity_record option"
  | ConnectionAnswer "connection_record option"
  | ConnectionsAnswer "connection_record list"

record memoized_read_access =
  inner :: read_access
  entities :: "(string \<times> entity_record option) list"
  connections :: "(string \<times> connection_record option) list"
  adjacency :: "((string \<times> read_direction \<times> string option) \<times> connection_record list) list"
  store_reads :: "read_request list"

definition memoized :: "read_access \<Rightarrow> memoized_read_access" where
  "memoized ra = \<lparr>inner = ra, entities = [], connections = [], adjacency = [], store_reads = []\<rparr>"

definition memo_get_entity ::
    "string \<Rightarrow> memoized_read_access \<Rightarrow> entity_record option \<times> memoized_read_access" where
  "memo_get_entity aid m =
     (case map_of (entities m) aid of
        Some e \<Rightarrow> (e, m)
      | None \<Rightarrow> (let e = get_entity (inner m) aid in
          (e, m\<lparr>entities := AList.update aid e (entities m),
                 store_reads := store_reads m @ [ReadEntity aid]\<rparr>)))"

definition memo_get_connection ::
    "string \<Rightarrow> memoized_read_access \<Rightarrow> connection_record option \<times> memoized_read_access" where
  "memo_get_connection aid m =
     (case map_of (connections m) aid of
        Some c \<Rightarrow> (c, m)
      | None \<Rightarrow> (let c = get_connection (inner m) aid in
          (c, m\<lparr>connections := AList.update aid c (connections m),
                 store_reads := store_reads m @ [ReadConnection aid]\<rparr>)))"

definition memo_find_connections_for ::
    "string \<times> read_direction \<times> string option \<Rightarrow> memoized_read_access
      \<Rightarrow> connection_record list \<times> memoized_read_access" where
  "memo_find_connections_for key m =
     (case map_of (adjacency m) key of
        Some cs \<Rightarrow> (cs, m)
      | None \<Rightarrow> (case key of (eid, direction, ctype) \<Rightarrow>
          let cs = find_connections_for (inner m) eid direction ctype in
          (cs, m\<lparr>adjacency := AList.update key cs (adjacency m),
                  store_reads := store_reads m @ [ReadConnectionsFor eid direction ctype]\<rparr>)))"

fun memo_read :: "read_request \<Rightarrow> memoized_read_access \<Rightarrow> read_answer \<times> memoized_read_access" where
  "memo_read (ReadEntity aid) m = (case memo_get_entity aid m of (e, m') \<Rightarrow> (EntityAnswer e, m'))"
| "memo_read (ReadConnection aid) m =
     (case memo_get_connection aid m of (c, m') \<Rightarrow> (ConnectionAnswer c, m'))"
| "memo_read (ReadConnectionsFor eid d t) m =
     (case memo_find_connections_for (eid, d, t) m of (cs, m') \<Rightarrow> (ConnectionsAnswer cs, m'))"

fun memo_reads :: "read_request list \<Rightarrow> memoized_read_access \<Rightarrow> read_answer list \<times> memoized_read_access" where
  "memo_reads [] m = ([], m)"
| "memo_reads (q # qs) m =
     (case memo_read q m of (a, m') \<Rightarrow> (case memo_reads qs m' of (as, m'') \<Rightarrow> (a # as, m'')))"

fun store_answer :: "read_access \<Rightarrow> read_request \<Rightarrow> read_answer" where
  "store_answer ra (ReadEntity aid) = EntityAnswer (get_entity ra aid)"
| "store_answer ra (ReadConnection aid) = ConnectionAnswer (get_connection ra aid)"
| "store_answer ra (ReadConnectionsFor eid d t) = ConnectionsAnswer (find_connections_for ra eid d t)"

section \<open>What a cache promises\<close>

locale read_cache =
  fixes cached :: "'s \<Rightarrow> ('k \<times> 'v) list"
    and fetch :: "'s \<Rightarrow> 'k \<Rightarrow> 'v"
    and trace :: "'s \<Rightarrow> 'q list"
    and request :: "'k \<Rightarrow> 'q"
    and lookup :: "'k \<Rightarrow> 's \<Rightarrow> 'v \<times> 's"
  assumes hit: "map_of (cached s) k = Some v \<Longrightarrow> lookup k s = (v, s)"
    and miss: "map_of (cached s) k = None \<Longrightarrow> \<exists>s'. lookup k s = (fetch s k, s') \<and>
      cached s' = AList.update k (fetch s k) (cached s) \<and> fetch s' = fetch s \<and>
      trace s' = trace s @ [request k]"
    and request_inj: "request k = request k' \<Longrightarrow> k = k'"
begin

definition coherent :: "'s \<Rightarrow> bool" where
  "coherent s \<longleftrightarrow> (\<forall>k v. map_of (cached s) k = Some v \<longrightarrow> v = fetch s k)"

definition traced :: "'s \<Rightarrow> bool" where
  "traced s \<longleftrightarrow> (\<forall>k. request k \<in> set (trace s) \<longleftrightarrow> map_of (cached s) k \<noteq> None)"

lemma lookup_cases:
  assumes "coherent s" and "traced s"
  shows "\<exists>s'. lookup k s = (fetch s k, s') \<and> coherent s' \<and> traced s' \<and> fetch s' = fetch s \<and>
    (if request k \<in> set (trace s) then trace s' = trace s else trace s' = trace s @ [request k])"
proof (cases "map_of (cached s) k")
  case (Some v)
  with assms hit [OF Some] show ?thesis by (auto simp: coherent_def traced_def)
next
  case None
  obtain s' where s': "lookup k s = (fetch s k, s')" "cached s' = AList.update k (fetch s k) (cached s)"
    "fetch s' = fetch s" "trace s' = trace s @ [request k]"
    using miss [OF None] by blast
  have "coherent s'" using assms(1) s' by (auto simp: coherent_def update_conv)
  moreover have "traced s'"
    using assms(2) s' request_inj by (auto simp: traced_def update_conv)
  moreover have "request k \<notin> set (trace s)" using assms(2) None by (simp add: traced_def)
  ultimately show ?thesis using s' by auto
qed

end

interpretation entity_cache: read_cache entities "\<lambda>m. get_entity (inner m)" store_reads
  ReadEntity memo_get_entity
  by unfold_locales (auto simp: memo_get_entity_def Let_def)

interpretation connection_cache: read_cache connections "\<lambda>m. get_connection (inner m)" store_reads
  ReadConnection memo_get_connection
  by unfold_locales (auto simp: memo_get_connection_def Let_def)

interpretation adjacency_cache: read_cache adjacency
  "\<lambda>m (eid, d, t). find_connections_for (inner m) eid d t" store_reads
  "\<lambda>(eid, d, t). ReadConnectionsFor eid d t" memo_find_connections_for
  by unfold_locales (auto simp: memo_find_connections_for_def Let_def split: prod.splits)

section \<open>The three together\<close>

definition memo_ok :: "memoized_read_access \<Rightarrow> bool" where
  "memo_ok m \<longleftrightarrow>
     entity_cache.coherent m \<and> entity_cache.traced m \<and>
     connection_cache.coherent m \<and> connection_cache.traced m \<and>
     adjacency_cache.coherent m \<and> adjacency_cache.traced m"

lemmas memo_invariants =
  entity_cache.coherent_def entity_cache.traced_def connection_cache.coherent_def
  connection_cache.traced_def adjacency_cache.coherent_def adjacency_cache.traced_def

lemma memo_get_entity_frame:
  assumes "memo_get_entity k m = (e, m')"
  shows "inner m' = inner m \<and> connections m' = connections m \<and> adjacency m' = adjacency m \<and>
    store_reads m' \<in> {store_reads m, store_reads m @ [ReadEntity k]}"
  using assms by (auto simp: memo_get_entity_def Let_def split: option.splits)

lemma memo_get_connection_frame:
  assumes "memo_get_connection k m = (e, m')"
  shows "inner m' = inner m \<and> entities m' = entities m \<and> adjacency m' = adjacency m \<and>
    store_reads m' \<in> {store_reads m, store_reads m @ [ReadConnection k]}"
  using assms by (auto simp: memo_get_connection_def Let_def split: option.splits)

lemma memo_find_connections_frame:
  assumes "memo_find_connections_for (eid, d, t) m = (e, m')"
  shows "inner m' = inner m \<and> entities m' = entities m \<and> connections m' = connections m \<and>
    store_reads m' \<in> {store_reads m, store_reads m @ [ReadConnectionsFor eid d t]}"
  using assms by (auto simp: memo_find_connections_for_def Let_def split: option.splits)

lemma memo_read_ok:
  assumes "memo_ok m"
  shows "\<exists>m'. memo_read q m = (store_answer (inner m) q, m') \<and> memo_ok m' \<and> inner m' = inner m \<and>
    store_reads m' = (if q \<in> set (store_reads m) then store_reads m else store_reads m @ [q])"
proof (cases q)
  case (ReadEntity k)
  obtain m' where m': "memo_get_entity k m = (get_entity (inner m) k, m')"
    "entity_cache.coherent m'" "entity_cache.traced m'"
    "store_reads m' = (if q \<in> set (store_reads m) then store_reads m else store_reads m @ [q])"
    using entity_cache.lookup_cases [of m k] assms ReadEntity by (auto simp: memo_ok_def split: if_splits)
  with memo_get_entity_frame [OF m'(1)] assms ReadEntity show ?thesis
    by (auto simp: memo_ok_def memo_invariants)
next
  case (ReadConnection k)
  obtain m' where m': "memo_get_connection k m = (get_connection (inner m) k, m')"
    "connection_cache.coherent m'" "connection_cache.traced m'"
    "store_reads m' = (if q \<in> set (store_reads m) then store_reads m else store_reads m @ [q])"
    using connection_cache.lookup_cases [of m k] assms ReadConnection
    by (auto simp: memo_ok_def split: if_splits)
  with memo_get_connection_frame [OF m'(1)] assms ReadConnection show ?thesis
    by (auto simp: memo_ok_def memo_invariants)
next
  case (ReadConnectionsFor eid d t)
  obtain m' where m': "memo_find_connections_for (eid, d, t) m = (find_connections_for (inner m) eid d t, m')"
    "adjacency_cache.coherent m'" "adjacency_cache.traced m'"
    "store_reads m' = (if q \<in> set (store_reads m) then store_reads m else store_reads m @ [q])"
    using adjacency_cache.lookup_cases [of m "(eid, d, t)"] assms ReadConnectionsFor
    by (auto simp: memo_ok_def split: if_splits)
  with memo_find_connections_frame [OF m'(1)] assms ReadConnectionsFor show ?thesis
    by (auto simp: memo_ok_def memo_invariants)
qed

lemma memoized_ok: "memo_ok (memoized ra)"
  by (simp add: memo_ok_def memo_invariants memoized_def)

lemma memo_reads_ok:
  assumes "memo_ok m" and "distinct (store_reads m)"
  shows "\<exists>m'. memo_reads qs m = (map (store_answer (inner m)) qs, m') \<and>
    distinct (store_reads m') \<and> set (store_reads m') = set (store_reads m) \<union> set qs"
  using assms
proof (induction qs arbitrary: m)
  case Nil
  then show ?case by simp
next
  case (Cons q qs)
  obtain m1 where m1: "memo_read q m = (store_answer (inner m) q, m1)" "memo_ok m1" "inner m1 = inner m"
    "store_reads m1 = (if q \<in> set (store_reads m) then store_reads m else store_reads m @ [q])"
    using memo_read_ok [OF Cons.prems(1)] by blast
  then have "distinct (store_reads m1)" "set (store_reads m1) = insert q (set (store_reads m))"
    using Cons.prems(2) by auto
  with Cons.IH [OF m1(2)] obtain m' where "memo_reads qs m1 = (map (store_answer (inner m1)) qs, m')"
    "distinct (store_reads m')" "set (store_reads m') = insert q (set (store_reads m)) \<union> set qs"
    by blast
  with m1 show ?case by (intro exI [of _ m']) simp
qed

text \<open>
  Memoising the reads of one call is invisible and pays off: whatever sequence of entity,
  connection and adjacency reads a call makes, each is answered exactly as the store would have
  answered it, and the store is asked each question once, no more, and nothing else.
\<close>

theorem memoized_reads_are_transparent:
  "case memo_reads qs (memoized ra) of (answers, m) \<Rightarrow>
     answers = map (store_answer ra) qs \<and> distinct (store_reads m) \<and> set (store_reads m) = set qs"
proof -
  have start: "distinct (store_reads (memoized ra))" "inner (memoized ra) = ra" "store_reads (memoized ra) = []"
    by (simp_all add: memoized_def)
  obtain m where "memo_reads qs (memoized ra) = (map (store_answer ra) qs, m)"
    "distinct (store_reads m)" "set (store_reads m) = set qs"
    using memo_reads_ok [OF memoized_ok start(1), of qs] start(2,3) by auto
  then show ?thesis by simp
qed

end
