(* ===== verification/Reachability.thy ===== *)
theory Reachability
  imports Complex_Main Path_Reconstruction
begin

text \<open>
  Bounded enumeration of derived relationships
  (\<^verbatim>\<open>src/domain/relationships/relationship_reachability.py\<close>). Both searches are breadth-first over a
  queue and total: each terminates by the multiset of the hops its queued items have left. The
  monotonic clock is a parameter, its n-th reading \<open>clock n\<close>; a reading is made before the search and
  one before every item. The memoised reads are modelled in theory \<open>Read_Cache\<close>, where they are shown
  to answer what the store answers, so the search below reads the store.
\<close>

section \<open>Requests and results\<close>

datatype certainty_policy = CertainOnly | IncludePotential

datatype incident_direction = Outgoing | Incoming | Either

definition DERIVED_CONNECTION_ID_PREFIX :: string where
  "DERIVED_CONNECTION_ID_PREFIX = ''derived::''"

definition is_derived_connection_id :: "string \<Rightarrow> bool" where
  "is_derived_connection_id aid \<longleftrightarrow>
     take (length DERIVED_CONNECTION_ID_PREFIX) aid = DERIVED_CONNECTION_ID_PREFIX"

record derivation_bounds =
  max_hops :: int
  max_relationships :: int
  time_budget_seconds :: rat

text \<open>The anchors are a set given by the list of its members.\<close>

record derivation_request =
  anchors :: "string list"
  request_direction :: incident_direction
  request_certainty :: certainty_policy
  bounds :: derivation_bounds

record derived_relationship =
  rel_id :: string
  rel_source_id :: string
  rel_target_id :: string
  rel_type :: string
  rel_certainty :: certainty
  rel_hops :: nat
  via_connection_ids :: "string list"
  rel_path_key :: string

record derived_relationship_set =
  relationships :: "derived_relationship list"
  truncated :: bool

datatype reach_error = DerivationFailed derivation_error | LimitExceeded int

record frontier_item =
  item_relation :: oriented_relation
  item_path :: path
  used_connection_ids :: "string set"

section \<open>The initial frontier\<close>

definition neighbour :: "string \<Rightarrow> connection_record \<Rightarrow> string" where
  "neighbour eid c = (if conn_source c = eid then conn_target c else conn_source c)"

definition setdefault ::
    "(string \<times> connection_record) list \<Rightarrow> connection_record \<Rightarrow> (string \<times> connection_record) list" where
  "setdefault d c = (if conn_id c \<in> keys d then d else d @ [(conn_id c, c)])"

definition depth_left :: "int \<Rightarrow> string \<times> int \<Rightarrow> nat" where
  "depth_left hops p = nat (hops - snd p)"

lemma wf_hops_left: "wf (inv_image (mult less_than) (\<lambda>xs. mset (map f xs)))"
  by (intro wf_inv_image wf_mult wf_less_than)

lemma mult_hd_replaced:
  assumes "\<And>y. y \<in> set ys \<Longrightarrow> f y < f x"
  shows "(mset (map f (xs @ ys)), mset (map f (x # xs))) \<in> mult less_than"
proof -
  have "(mset (map f xs) + mset (map f ys), mset (map f xs) + {#f x#}) \<in> mult less_than"
    by (rule one_step_implies_mult) (use assms in auto)
  then show ?thesis by simp
qed

function discover ::
    "(string \<times> int) list \<Rightarrow> string set \<Rightarrow> (string \<times> connection_record) list \<Rightarrow> int \<Rightarrow> read_access
      \<Rightarrow> (string \<times> connection_record) list" where
  "discover [] visited discovered hops ra = discovered"
| "discover ((eid, depth) # pending) visited discovered hops ra =
     (if eid \<in> visited \<or> depth \<ge> hops then discover pending visited discovered hops ra
      else let cs = find_connections_for ra eid AnyDirection None in
        discover
          (pending @ map (\<lambda>c. (neighbour eid c, depth + 1))
             (filter (\<lambda>c. get_entity ra (neighbour eid c) \<noteq> None) cs))
          (insert eid visited) (foldl setdefault discovered cs) hops ra)"
  by pat_completeness auto

termination
proof (relation "inv_image (inv_image (mult less_than) (\<lambda>(hops, pending). mset (map (depth_left hops) pending)))
    (\<lambda>(pending, visited, discovered, hops, ra). (hops, pending))", goal_cases)
  case 1
  show ?case by (intro wf_inv_image wf_mult wf_less_than)
next
  case (2 eid depth pending visited discovered hops ra)
  then show ?case using mult_hd_replaced [of "[]" "depth_left hops" "(eid, depth)" pending] by simp
next
  case (3 eid depth pending visited discovered hops ra cs)
  have "(mset (map (depth_left hops) (pending @ map (\<lambda>c. (neighbour eid c, depth + 1))
             (filter (\<lambda>c. get_entity ra (neighbour eid c) \<noteq> None) cs))),
         mset (map (depth_left hops) ((eid, depth) # pending))) \<in> mult less_than"
    by (rule mult_hd_replaced) (use 3 in \<open>auto simp: depth_left_def\<close>)
  then show ?case by (simp only: in_inv_image prod.case)
qed

definition initial_frontier ::
    "string list \<Rightarrow> int \<Rightarrow> read_access \<Rightarrow> module_catalog \<Rightarrow> frontier_item list" where
  "initial_frontier anchor_ids hops ra registries =
     (let discovered = discover (map (\<lambda>a. (a, 0)) (sort (remdups anchor_ids))) {} [] hops ra in
      List.map_filter (\<lambda>cid.
        case map_of discovered cid of
          None \<Rightarrow> None
        | Some c \<Rightarrow> map_option
            (\<lambda>r. \<lparr>item_relation = r, item_path = [(cid, True)], used_connection_ids = {cid}\<rparr>)
            (oriented_relation_of c ra registries True))
        (sort (map fst discovered)))"

section \<open>Recording\<close>

fun unseen_connections :: "string set \<Rightarrow> connection_record list \<Rightarrow> connection_record list" where
  "unseen_connections seen [] = []"
| "unseen_connections seen (c # cs) =
     (if conn_id c \<in> seen then unseen_connections seen cs
      else c # unseen_connections (insert (conn_id c) seen) cs)"

definition adjacent_connections :: "oriented_relation \<Rightarrow> read_access \<Rightarrow> connection_record list" where
  "adjacent_connections r ra =
     unseen_connections {} (find_connections_for ra (source_id r) AnyDirection None @
       find_connections_for ra (target_id r) AnyDirection None)"

definition derived_relation_at :: "derived_step \<Rightarrow> path \<Rightarrow> oriented_relation" where
  "derived_relation_at st p =
     relation_of_step (''derived:'' @ ctype_name (step_type st) @ '':'' @ path_key p) st"

definition matches_direction :: "derived_step \<Rightarrow> string list \<Rightarrow> incident_direction \<Rightarrow> bool" where
  "matches_direction st anchor_ids d =
     (case d of
        Outgoing \<Rightarrow> step_source st \<in> set anchor_ids
      | Incoming \<Rightarrow> step_target st \<in> set anchor_ids
      | Either \<Rightarrow> step_source st \<in> set anchor_ids \<or> step_target st \<in> set anchor_ids)"

definition is_better :: "derived_relationship \<Rightarrow> derived_relationship \<Rightarrow> bool" where
  "is_better candidate existing =
     (if rel_certainty candidate \<noteq> rel_certainty existing then rel_certainty candidate = Certain
      else if rel_hops candidate \<noteq> rel_hops existing then rel_hops candidate < rel_hops existing
      else rel_path_key candidate < rel_path_key existing)"

definition candidate_of :: "derived_step \<Rightarrow> path \<Rightarrow> derived_relationship" where
  "candidate_of st p =
     \<lparr>rel_id = ''derived::'' @ ctype_name (step_type st) @ ''::'' @ path_key p,
      rel_source_id = step_source st, rel_target_id = step_target st,
      rel_type = ctype_name (step_type st), rel_certainty = step_certainty st,
      rel_hops = length p, via_connection_ids = map fst p, rel_path_key = path_key p\<rparr>"

definition pair_key :: "derived_relationship \<Rightarrow> string \<times> string" where
  "pair_key r = (if rel_source_id r \<le> rel_target_id r then (rel_source_id r, rel_target_id r)
                 else (rel_target_id r, rel_source_id r))"

type_synonym found = "((string \<times> string) \<times> derived_relationship) list"

definition record_candidate :: "derived_relationship \<Rightarrow> found \<Rightarrow> found" where
  "record_candidate candidate results =
     (case map_of results (pair_key candidate) of
        None \<Rightarrow> AList.update (pair_key candidate) candidate results
      | Some existing \<Rightarrow>
          if is_better candidate existing then AList.update (pair_key candidate) candidate results
          else results)"

definition record_if_incident :: "derived_step \<Rightarrow> path \<Rightarrow> derivation_request \<Rightarrow> found \<Rightarrow> found" where
  "record_if_incident st p request results =
     (if \<not> matches_direction st (anchors request) (request_direction request) then results
      else record_candidate (candidate_of st p) results)"

section \<open>The search\<close>

record search_state =
  appended :: "frontier_item list"
  results :: found
  seen_paths :: "string list set"

definition compose_adjacent ::
    "frontier_item \<Rightarrow> connection_record \<Rightarrow> read_access \<Rightarrow> module_catalog
      \<Rightarrow> (derivation_error, derived_step option) result" where
  "compose_adjacent current c ra registries =
     (if conn_id c \<in> used_connection_ids current then Ok None
      else (case oriented_relation_of c ra registries True of
              None \<Rightarrow> Ok None
            | Some next_rel \<Rightarrow>
                (case shared_entity_info (item_relation current) next_rel ra registries of
                   None \<Rightarrow> Ok None
                 | Some mid \<Rightarrow>
                     compose (item_relation current) next_rel mid
                       (candidate_rules (rules_by_role (all_rules registries))
                          (derivation_role (relation_type (item_relation current)))
                          (derivation_role (relation_type next_rel)))
                       (Some (aggregated_permitted_relationships registries))
                       (all_restrictions registries))))"

definition extended_path :: "frontier_item \<Rightarrow> connection_record \<Rightarrow> path" where
  "extended_path current c = item_path current @ [(conn_id c, True)]"

definition advance ::
    "frontier_item \<Rightarrow> connection_record \<Rightarrow> derived_step \<Rightarrow> derivation_request \<Rightarrow> search_state \<Rightarrow> search_state"
where
  "advance current c d request st =
     (let p = extended_path current c in
      \<lparr>appended = appended st @
         [\<lparr>item_relation = derived_relation_at d p, item_path = p,
           used_connection_ids = insert (conn_id c) (used_connection_ids current)\<rparr>],
       results = record_if_incident d p request (results st),
       seen_paths = insert (map fst p) (seen_paths st)\<rparr>)"

fun expand ::
    "frontier_item \<Rightarrow> connection_record list \<Rightarrow> derivation_request \<Rightarrow> read_access \<Rightarrow> module_catalog
      \<Rightarrow> search_state \<Rightarrow> (reach_error, search_state) result" where
  "expand current [] request ra registries st = Ok st"
| "expand current (c # cs) request ra registries st =
     (case compose_adjacent current c ra registries of
        Inl e \<Rightarrow> Err (DerivationFailed e)
      | Inr None \<Rightarrow> expand current cs request ra registries st
      | Inr (Some d) \<Rightarrow>
          if step_certainty d = Potential \<and> request_certainty request = CertainOnly
          then expand current cs request ra registries st
          else if map fst (extended_path current c) \<in> seen_paths st
          then expand current cs request ra registries st
          else if int (length (results (advance current c d request st))) > max_relationships (bounds request)
          then Err (LimitExceeded (max_relationships (bounds request)))
          else expand current cs request ra registries (advance current c d request st))"

text \<open>Whatever every recorded composition keeps, the expansion of an item keeps.\<close>

lemma expand_keeps:
  assumes "expand current cs request ra registries st = Inr st'" and "P st"
    and "\<And>c d s. \<lbrakk>c \<in> set cs; compose_adjacent current c ra registries = Inr (Some d);
        \<not> (step_certainty d = Potential \<and> request_certainty request = CertainOnly);
        map fst (extended_path current c) \<notin> seen_paths s;
        int (length (results (advance current c d request s))) \<le> max_relationships (bounds request);
        P s\<rbrakk> \<Longrightarrow> P (advance current c d request s)"
  shows "P st'"
  using assms
proof (induction cs arbitrary: st)
  case Nil
  then show ?case by simp
next
  case (Cons c cs)
  note later = Cons.IH [OF _ _ Cons.prems(3)]
  show ?case
  proof (cases "\<exists>d. compose_adjacent current c ra registries = Inr (Some d) \<and>
      \<not> (step_certainty d = Potential \<and> request_certainty request = CertainOnly) \<and>
      map fst (extended_path current c) \<notin> seen_paths st")
    case True
    then obtain d where d: "compose_adjacent current c ra registries = Inr (Some d)"
      "\<not> (step_certainty d = Potential \<and> request_certainty request = CertainOnly)"
      "map fst (extended_path current c) \<notin> seen_paths st" by blast
    with Cons.prems(1) have
      within: "int (length (results (advance current c d request st))) \<le> max_relationships (bounds request)"
      and run: "expand current cs request ra registries (advance current c d request st) = Inr st'"
      by (auto split: if_splits)
    have "P (advance current c d request st)"
      using Cons.prems(2,3) d within by simp
    with run show ?thesis by (intro later) simp_all
  next
    case False
    with Cons.prems(1) have "expand current cs request ra registries st = Inr st'"
      by (auto split: sum.splits option.splits if_splits)
    with Cons.prems(2) show ?thesis by (intro later) simp_all
  qed
qed

definition hops_left :: "int \<Rightarrow> frontier_item \<Rightarrow> nat" where
  "hops_left hops item = nat (hops - int (length (item_path item)))"

lemma expand_appends:
  assumes "expand current cs request ra registries st = Inr st'"
  shows "\<exists>new. appended st' = appended st @ new \<and>
    (\<forall>x \<in> set new. length (item_path x) = Suc (length (item_path current)))"
  by (rule expand_keeps [OF assms])
    (auto simp: advance_def extended_path_def Let_def)

function search ::
    "nat \<Rightarrow> frontier_item list \<Rightarrow> found \<Rightarrow> string list set \<Rightarrow> derivation_request \<Rightarrow> read_access
      \<Rightarrow> module_catalog \<Rightarrow> (nat \<Rightarrow> rat) \<Rightarrow> (reach_error, found \<times> bool) result" where
  "search n [] found seen request ra registries clock = Ok (found, False)"
| "search n (current # queue) found seen request ra registries clock =
     (if clock n - clock 0 > time_budget_seconds (bounds request) then Ok (found, True)
      else if int (length (item_path current)) \<ge> max_hops (bounds request)
      then search (Suc n) queue found seen request ra registries clock
      else (case expand current (adjacent_connections (item_relation current) ra) request ra registries
                   \<lparr>appended = [], results = found, seen_paths = seen\<rparr> of
              Inl e \<Rightarrow> Err e
            | Inr st \<Rightarrow> search (Suc n) (queue @ appended st) (results st) (seen_paths st)
                          request ra registries clock))"
  by pat_completeness auto

termination
proof (relation "inv_image (inv_image (mult less_than)
      (\<lambda>(request, queue). mset (map (hops_left (max_hops (bounds request))) queue)))
    (\<lambda>(n, queue, found, seen, request, ra, registries, clock). (request, queue))", goal_cases)
  case 1
  show ?case by (intro wf_inv_image wf_mult wf_less_than)
next
  case (2 n current queue found seen request ra registries clock)
  then show ?case
    using mult_hd_replaced [of "[]" "hops_left (max_hops (bounds request))" current queue] by simp
next
  case (3 n current queue found seen request ra registries clock st)
  let ?rank = "hops_left (max_hops (bounds request))"
  have "\<forall>x \<in> set (appended st). length (item_path x) = Suc (length (item_path current))"
    using expand_appends [OF 3(3)] by simp
  then have "(mset (map ?rank (queue @ appended st)), mset (map ?rank (current # queue))) \<in> mult less_than"
    using 3(2) by (intro mult_hd_replaced) (simp add: hops_left_def)
  then show ?case by simp
qed

definition derive_relationships ::
    "derivation_request \<Rightarrow> read_access \<Rightarrow> module_catalog \<Rightarrow> (nat \<Rightarrow> rat)
      \<Rightarrow> (reach_error, derived_relationship_set) result" where
  "derive_relationships request ra registries clock =
     (if max_hops (bounds request) < 2 \<or> anchors request = []
      then Ok \<lparr>relationships = [], truncated = False\<rparr>
      else bind_result
        (search 1 (initial_frontier (anchors request) (max_hops (bounds request)) ra registries)
           [] {} request ra registries clock)
        (\<lambda>(found, cut). Ok \<lparr>relationships = sort_key rel_id (map snd found), truncated = cut\<rparr>))"

end
