(* ===== verification/Reachability_Properties.thy ===== *)
theory Reachability_Properties
  imports Reachability Derivation_Properties
begin

text \<open>
  What bounded derivation promises about the set it returns: every relationship answers_request the request
  and its bounds, at most one survives per pair of entities and it is the best evidenced one, and
  re-deriving the path it names gives the same relationship again.
\<close>

section \<open>Invariants of the search\<close>

definition new_item :: "frontier_item \<Rightarrow> connection_record \<Rightarrow> derived_step \<Rightarrow> frontier_item" where
  "new_item current c d =
     \<lparr>item_relation = derived_relation_at d (extended_path current c),
      item_path = extended_path current c,
      used_connection_ids = insert (conn_id c) (used_connection_ids current)\<rparr>"

lemma advance_simps [simp]:
  "appended (advance current c d request st) = appended st @ [new_item current c d]"
  "results (advance current c d request st) =
     record_if_incident d (extended_path current c) request (results st)"
  "seen_paths (advance current c d request st) = insert (map fst (extended_path current c)) (seen_paths st)"
  by (simp_all add: advance_def new_item_def Let_def)

definition admitted :: "derivation_request \<Rightarrow> derived_step \<Rightarrow> bool" where
  "admitted request d \<longleftrightarrow> \<not> (step_certainty d = Potential \<and> request_certainty request = CertainOnly)"

lemma search_keeps:
  assumes "search n queue found seen request ra registries clock = Inr (found', is_cut)"
    and "\<And>x. x \<in> set queue \<Longrightarrow> Q x" and "P found"
    and advance: "\<And>current c d found. \<lbrakk>Q current; int (length (item_path current)) < max_hops (bounds request);
        c \<in> set (adjacent_connections (item_relation current) ra);
        compose_adjacent current c ra registries = Inr (Some d); admitted request d; P found;
        int (length (record_if_incident d (extended_path current c) request found))
          \<le> max_relationships (bounds request)\<rbrakk>
      \<Longrightarrow> Q (new_item current c d) \<and> P (record_if_incident d (extended_path current c) request found)"
  shows "P found'"
  using assms
proof (induction n queue found seen request ra registries clock rule: search.induct)
  case (1 n found seen request ra registries clock)
  then show ?case by simp
next
  case (2 n current queue found seen request ra registries clock)
  note steps = "2.prems"(4)
  consider (late) "clock n - clock 0 > time_budget_seconds (bounds request)"
    | (deep) "\<not> clock n - clock 0 > time_budget_seconds (bounds request)"
        "int (length (item_path current)) \<ge> max_hops (bounds request)"
    | (grow) "\<not> clock n - clock 0 > time_budget_seconds (bounds request)"
        "\<not> int (length (item_path current)) \<ge> max_hops (bounds request)" by blast
  then show ?case
  proof cases
    case late
    with "2.prems" show ?thesis by simp
  next
    case deep
    show ?thesis by (rule "2.IH"(1)) (use deep "2.prems" in auto)
  next
    case grow
    with "2.prems"(1) obtain st where
      run: "expand current (adjacent_connections (item_relation current) ra) request ra registries
        \<lparr>appended = [], results = found, seen_paths = seen\<rparr> = Inr st"
      and rest: "search (Suc n) (queue @ appended st) (results st) (seen_paths st) request ra
        registries clock = Inr (found', is_cut)"
      by (auto split: sum.splits)
    have Q: "Q current" using "2.prems"(2) by simp
    have "(\<forall>x \<in> set (appended st). Q x) \<and> P (results st)"
    proof (rule expand_keeps [OF run])
      show "(\<forall>x \<in> set (appended \<lparr>appended = [], results = found, seen_paths = seen\<rparr>). Q x) \<and>
        P (results \<lparr>appended = [], results = found, seen_paths = seen\<rparr>)"
        using "2.prems"(3) by simp
    next
      fix c d s
      assume "c \<in> set (adjacent_connections (item_relation current) ra)"
        "compose_adjacent current c ra registries = Inr (Some d)"
        "\<not> (step_certainty d = Potential \<and> request_certainty request = CertainOnly)"
        "int (length (results (advance current c d request s))) \<le> max_relationships (bounds request)"
        "(\<forall>x \<in> set (appended s). Q x) \<and> P (results s)"
      then show "(\<forall>x \<in> set (appended (advance current c d request s)). Q x) \<and>
          P (results (advance current c d request s))"
        using steps [OF Q, of c d "results s"] grow(2) by (simp add: admitted_def)
    qed
    with "2.prems"(2) show ?thesis
      by (intro "2.IH"(2) [OF grow run rest _ _ steps]) auto
  qed
qed

section \<open>Recording\<close>

lemma pair_key_eq_iff:
  "pair_key r = pair_key q \<longleftrightarrow> {rel_source_id r, rel_target_id r} = {rel_source_id q, rel_target_id q}"
  by (auto simp: pair_key_def doubleton_eq_iff)

definition keyed :: "found \<Rightarrow> bool" where
  "keyed found \<longleftrightarrow> distinct (map fst found) \<and> (\<forall>e \<in> set found. fst e = pair_key (snd e))"

lemma record_candidate_cases:
  "record_candidate x found = found \<or> record_candidate x found = AList.update (pair_key x) x found"
  by (auto simp: record_candidate_def split: option.splits)

lemma set_alist_update: "set (AList.update k v d) \<subseteq> insert (k, v) (set d)"
  by (induction d) auto

lemma record_candidate_keyed: "keyed found \<Longrightarrow> keyed (record_candidate x found)"
  using record_candidate_cases [of x found] set_alist_update [of "pair_key x" x found]
  by (auto simp: keyed_def distinct_update)

lemma record_candidate_members:
  "set (map snd (record_candidate x found)) \<subseteq> insert x (set (map snd found))"
  using record_candidate_cases [of x found] set_alist_update [of "pair_key x" x found] by auto

text \<open>The preference between candidates is the lexicographic order of certainty, hops and key.\<close>

definition evidence :: "derived_relationship \<Rightarrow> nat \<times> nat \<times> string" where
  "evidence r = (if rel_certainty r = Certain then 0 else 1, rel_hops r, rel_path_key r)"

lemma is_better_iff: "is_better r q \<longleftrightarrow> evidence r < evidence q"
  by (cases "rel_certainty r"; cases "rel_certainty q")
    (auto simp: is_better_def evidence_def less_prod_def)

lemma map_of_record_candidate:
  "map_of (record_candidate x found) k =
     (if k = pair_key x then
        (case map_of found k of None \<Rightarrow> Some x | Some y \<Rightarrow> Some (if evidence x < evidence y then x else y))
      else map_of found k)"
  by (auto simp: record_candidate_def is_better_iff update_conv split: option.splits)

lemma fold_record_candidates:
  "map_of (fold record_candidate xs found) k = Some y \<Longrightarrow>
     (y \<in> set xs \<and> pair_key y = k \<or> map_of found k = Some y) \<and>
     (\<forall>x \<in> set xs. pair_key x = k \<longrightarrow> evidence y \<le> evidence x) \<and>
     (\<forall>z. map_of found k = Some z \<longrightarrow> evidence y \<le> evidence z)"
proof (induction xs arbitrary: found)
  case Nil
  then show ?case by simp
next
  case (Cons x xs)
  note ih = Cons.IH [of "record_candidate x found"]
  from Cons.prems have run: "map_of (fold record_candidate xs (record_candidate x found)) k = Some y" by simp
  show ?case
  proof (cases "k = pair_key x")
    case False
    with ih [OF run] show ?thesis by (auto simp: map_of_record_candidate)
  next
    case True
    show ?thesis
    proof (cases "map_of found k")
      case None
      with ih [OF run] True show ?thesis by (auto simp: map_of_record_candidate)
    next
      case (Some z)
      with ih [OF run] True show ?thesis
        by (auto simp: map_of_record_candidate split: if_splits)
    qed
  qed
qed

lemma fold_record_candidates_dom:
  "map_of (fold record_candidate xs found) k = None \<longleftrightarrow>
     map_of found k = None \<and> (\<forall>x \<in> set xs. pair_key x \<noteq> k)"
  by (induction xs arbitrary: found) (auto simp: map_of_record_candidate split: option.splits)

text \<open>
  The best evidence wins, in whatever order candidates are found. After recording any list of
  candidates, a pair of entities has an entry exactly when some candidate joins that pair, in either
  direction; the entry is one of those candidates, and none of them is better: certain before
  potential, then fewer hops, then the smaller path key.
\<close>

theorem best_evidence_wins:
  "(map_of (fold record_candidate xs []) k = None \<longleftrightarrow> (\<forall>x \<in> set xs. pair_key x \<noteq> k)) \<and>
   (\<forall>y. map_of (fold record_candidate xs []) k = Some y \<longrightarrow>
      y \<in> set xs \<and> pair_key y = k \<and> (\<forall>x \<in> set xs. pair_key x = k \<longrightarrow> \<not> is_better x y))"
proof (intro conjI allI impI)
  show "map_of (fold record_candidate xs []) k = None \<longleftrightarrow> (\<forall>x \<in> set xs. pair_key x \<noteq> k)"
    by (simp add: fold_record_candidates_dom)
  fix y
  assume "map_of (fold record_candidate xs []) k = Some y"
  from fold_record_candidates [OF this]
  show "y \<in> set xs" "pair_key y = k" "\<forall>x \<in> set xs. pair_key x = k \<longrightarrow> \<not> is_better x y"
    by (auto simp: is_better_iff)
qed

definition sample_candidate :: "certainty \<Rightarrow> string \<Rightarrow> string \<Rightarrow> derived_relationship" where
  "sample_candidate c src tgt =
     \<lparr>rel_id = ''derived::x'', rel_source_id = src, rel_target_id = tgt, rel_type = ''flow'',
      rel_certainty = c, rel_hops = 2, via_connection_ids = [''c1'', ''c2''],
      rel_path_key = ''c1@fwd|c2@fwd''\<rparr>"

theorem best_evidence_wins_witness:
  "map_of (fold record_candidate
     [sample_candidate Potential ''a'' ''b'', sample_candidate Certain ''b'' ''a''] []) (''a'', ''b'') =
   Some (sample_candidate Certain ''b'' ''a'')"
proof -
  let ?xs = "[sample_candidate Potential ''a'' ''b'', sample_candidate Certain ''b'' ''a'']"
  have keys: "pair_key (sample_candidate Potential ''a'' ''b'') = (''a'', ''b'')"
    "pair_key (sample_candidate Certain ''b'' ''a'') = (''a'', ''b'')"
    by (simp_all add: pair_key_def sample_candidate_def)
  have better: "is_better (sample_candidate Certain ''b'' ''a'') (sample_candidate Potential ''a'' ''b'')"
    by (simp add: is_better_def sample_candidate_def)
  from best_evidence_wins [of ?xs "(''a'', ''b'')"] keys better show ?thesis by force
qed

section \<open>The set that is returned\<close>

definition forward_path :: "path \<Rightarrow> bool" where
  "forward_path p \<longleftrightarrow> p \<noteq> [] \<and> (\<forall>s \<in> set p. snd s) \<and> distinct (map fst p)"

definition item_ok :: "frontier_item \<Rightarrow> bool" where
  "item_ok x \<longleftrightarrow> forward_path (item_path x) \<and> used_connection_ids x = fst ` set (item_path x)"

definition answers_request :: "derivation_request \<Rightarrow> derived_relationship \<Rightarrow> bool" where
  "answers_request request r \<longleftrightarrow>
     (\<exists>d p. r = candidate_of d p \<and> matches_direction d (anchors request) (request_direction request) \<and>
       admitted request d \<and> step_source d \<noteq> step_target d \<and> forward_path p \<and> 2 \<le> length p \<and>
       int (length p) \<le> max_hops (bounds request))"

definition found_ok :: "derivation_request \<Rightarrow> found \<Rightarrow> bool" where
  "found_ok request found \<longleftrightarrow>
     keyed found \<and> (\<forall>e \<in> set found. answers_request request (snd e)) \<and>
     (found = [] \<or> int (length found) \<le> max_relationships (bounds request))"

lemma compose_adjacent_Some:
  assumes "compose_adjacent current c ra registries = Inr (Some d)"
  obtains next_rel mid where "conn_id c \<notin> used_connection_ids current"
    and "oriented_relation_of c ra registries True = Some next_rel"
    and "shared_entity_info (item_relation current) next_rel ra registries = Some mid"
    and "compose (item_relation current) next_rel mid (all_rules registries)
      (Some (aggregated_permitted_relationships registries)) (all_restrictions registries) = Inr (Some d)"
  using assms
  by (auto simp: compose_adjacent_def compose_candidate_rules split: if_splits option.splits)

lemma extended_path_ok:
  assumes "item_ok current" and "conn_id c \<notin> used_connection_ids current"
  shows "forward_path (extended_path current c)" and "2 \<le> length (extended_path current c)"
    and "item_ok (new_item current c d)"
proof -
  obtain q qs where path: "item_path current = q # qs"
    using assms(1) by (cases "item_path current") (auto simp: item_ok_def forward_path_def)
  show fwd: "forward_path (extended_path current c)"
    using assms by (auto simp: item_ok_def forward_path_def extended_path_def)
  show "2 \<le> length (extended_path current c)" by (simp add: extended_path_def path)
  show "item_ok (new_item current c d)"
    using fwd assms(1) by (simp add: item_ok_def new_item_def) (auto simp: extended_path_def)
qed

lemma record_if_incident_ok:
  assumes "found_ok request found" and "admitted request d" and "step_source d \<noteq> step_target d"
    and "forward_path p" and "2 \<le> length p" and "int (length p) \<le> max_hops (bounds request)"
    and "int (length (record_if_incident d p request found)) \<le> max_relationships (bounds request)"
  shows "found_ok request (record_if_incident d p request found)"
proof (cases "matches_direction d (anchors request) (request_direction request)")
  case False
  with assms show ?thesis by (simp add: record_if_incident_def)
next
  case True
  then have new: "answers_request request (candidate_of d p)"
    using assms by (auto simp: answers_request_def)
  have eq: "record_if_incident d p request found = record_candidate (candidate_of d p) found"
    using True by (simp add: record_if_incident_def)
  have "keyed (record_candidate (candidate_of d p) found)"
    using assms(1) by (auto simp: found_ok_def intro: record_candidate_keyed)
  moreover have "answers_request request (snd e)" if "e \<in> set (record_candidate (candidate_of d p) found)" for e
  proof -
    from that have "snd e \<in> set (map snd (record_candidate (candidate_of d p) found))" by simp
    then have "snd e \<in> insert (candidate_of d p) (set (map snd found))"
      using record_candidate_members by blast
    with new assms(1) show ?thesis by (auto simp: found_ok_def)
  qed
  ultimately show ?thesis using assms(7) by (simp add: found_ok_def eq)
qed

lemma initial_frontier_ok:
  "x \<in> set (initial_frontier anchor_ids hops ra registries) \<Longrightarrow> item_ok x"
  by (auto simp: initial_frontier_def Let_def set_map_filter item_ok_def forward_path_def
      split: option.splits)

lemma search_found_ok:
  assumes "search n (initial_frontier anchor_ids hops ra registries) [] {} request ra registries clock =
    Inr (found, is_cut)"
  shows "found_ok request found"
proof (rule search_keeps [where Q = item_ok, OF assms])
  show "\<And>x. x \<in> set (initial_frontier anchor_ids hops ra registries) \<Longrightarrow> item_ok x"
    by (rule initial_frontier_ok)
  show "found_ok request []" by (simp add: found_ok_def keyed_def)
next
  fix current c d found
  assume ok: "item_ok current" and short: "int (length (item_path current)) < max_hops (bounds request)"
    and step: "compose_adjacent current c ra registries = Inr (Some d)" and adm: "admitted request d"
    and found: "found_ok request found"
    and within: "int (length (record_if_incident d (extended_path current c) request found))
      \<le> max_relationships (bounds request)"
  obtain next_rel mid where fresh: "conn_id c \<notin> used_connection_ids current"
    and comp: "compose (item_relation current) next_rel mid (all_rules registries)
      (Some (aggregated_permitted_relationships registries)) (all_restrictions registries) = Inr (Some d)"
    using step by (rule compose_adjacent_Some)
  have "int (length (extended_path current c)) \<le> max_hops (bounds request)"
    using short by (simp add: extended_path_def)
  with extended_path_ok [OF ok fresh] compose_parts(3) [OF comp] adm found within
  show "item_ok (new_item current c d) \<and>
      found_ok request (record_if_incident d (extended_path current c) request found)"
    by (intro conjI record_if_incident_ok)
qed

lemma derive_relationships_found:
  assumes "derive_relationships request ra registries clock = Inr out"
  obtains found where "found_ok request found" and "relationships out = sort_key rel_id (map snd found)"
proof (cases "max_hops (bounds request) < 2 \<or> anchors request = []")
  case True
  with assms have "relationships out = sort_key rel_id (map snd [])"
    by (auto simp: derive_relationships_def)
  moreover have "found_ok request []" by (simp add: found_ok_def keyed_def)
  ultimately show ?thesis using that by blast
next
  case False
  with assms obtain found is_cut where
    "search 1 (initial_frontier (anchors request) (max_hops (bounds request)) ra registries)
       [] {} request ra registries clock = Inr (found, is_cut)"
    "relationships out = sort_key rel_id (map snd found)"
    by (auto simp: derive_relationships_def bind_result_eq_Inr)
  with that search_found_ok show ?thesis by blast
qed

definition unordered_ends :: "derived_relationship \<Rightarrow> string set" where
  "unordered_ends r = {rel_source_id r, rel_target_id r}"

lemma keyed_unordered_distinct:
  assumes "keyed found"
  shows "distinct (map unordered_ends (map snd found))"
proof -
  have "map fst found = map pair_key (map snd found)"
    using assms by (simp add: keyed_def)
  with assms have "distinct (map pair_key (map snd found))" by (simp add: keyed_def)
  then show ?thesis
    unfolding distinct_map [of pair_key] distinct_map [of unordered_ends]
    by (auto simp: inj_on_def pair_key_eq_iff unordered_ends_def)
qed

text \<open>
  Claim C31. The set that bounded derivation returns answers the request. Each relationship was composed along between two and
  \<^verbatim>\<open>max_hops\<close> pairwise different connections, all walked forward, joins two different entities, touches
  an anchor in the direction asked for, is certain when only certain ones were asked for, and has an
  id that marks it as derived. The set is ordered by id, has at most one relationship per
  unordered pair of entities, and is never larger than \<^verbatim>\<open>max_relationships\<close>, truncated or not.
\<close>

theorem derived_relationships_answer_the_request:
  assumes "derive_relationships request ra registries clock = Ok out"
  shows "(\<forall>r \<in> set (relationships out).
      2 \<le> rel_hops r \<and> int (rel_hops r) \<le> max_hops (bounds request) \<and>
      rel_hops r = length (via_connection_ids r) \<and> distinct (via_connection_ids r) \<and>
      rel_path_key r = path_key (map (\<lambda>cid. (cid, True)) (via_connection_ids r)) \<and>
      rel_source_id r \<noteq> rel_target_id r \<and>
      (case request_direction request of
         Outgoing \<Rightarrow> rel_source_id r \<in> set (anchors request)
       | Incoming \<Rightarrow> rel_target_id r \<in> set (anchors request)
       | Either \<Rightarrow> rel_source_id r \<in> set (anchors request) \<or> rel_target_id r \<in> set (anchors request)) \<and>
      (request_certainty request = CertainOnly \<longrightarrow> rel_certainty r = Certain) \<and>
      is_derived_connection_id (rel_id r)) \<and>
    sorted (map rel_id (relationships out)) \<and>
    distinct (map unordered_ends (relationships out)) \<and>
    (relationships out = [] \<or> int (length (relationships out)) \<le> max_relationships (bounds request))"
proof -
  obtain found where ok: "found_ok request found"
    and out: "relationships out = sort_key rel_id (map snd found)"
    using assms by (rule derive_relationships_found)
  have each: "answers_request request r" if "r \<in> set (relationships out)" for r
    using that ok by (auto simp: out found_ok_def)
  have paths: "map (\<lambda>cid. (cid, True)) (map fst p) = p" if "\<forall>s \<in> set p. snd s" for p :: path
    using that by (induction p) auto
  have certainty_cases: "c = Certain \<or> c = Potential" for c by (cases c) auto
  have member: "2 \<le> rel_hops r \<and> int (rel_hops r) \<le> max_hops (bounds request) \<and>
      rel_hops r = length (via_connection_ids r) \<and> distinct (via_connection_ids r) \<and>
      rel_path_key r = path_key (map (\<lambda>cid. (cid, True)) (via_connection_ids r)) \<and>
      rel_source_id r \<noteq> rel_target_id r \<and>
      (case request_direction request of
         Outgoing \<Rightarrow> rel_source_id r \<in> set (anchors request)
       | Incoming \<Rightarrow> rel_target_id r \<in> set (anchors request)
       | Either \<Rightarrow> rel_source_id r \<in> set (anchors request) \<or> rel_target_id r \<in> set (anchors request)) \<and>
      (request_certainty request = CertainOnly \<longrightarrow> rel_certainty r = Certain) \<and>
      is_derived_connection_id (rel_id r)" if mem: "r \<in> set (relationships out)" for r
  proof -
    obtain d p where r: "r = candidate_of d p"
      and facts: "matches_direction d (anchors request) (request_direction request)" "admitted request d"
        "step_source d \<noteq> step_target d" "forward_path p" "2 \<le> length p"
        "int (length p) \<le> max_hops (bounds request)"
      using each [OF mem] by (auto simp: answers_request_def)
    from facts(2) certainty_cases [of "step_certainty d"]
    have "request_certainty request = CertainOnly \<longrightarrow> step_certainty d = Certain"
      by (auto simp: admitted_def)
    with facts paths [of p] show ?thesis
      by (cases "request_direction request") (simp_all add: r candidate_of_def matches_direction_def forward_path_def comp_def
          is_derived_connection_id_def DERIVED_CONNECTION_ID_PREFIX_def)
  qed
  have "distinct (map unordered_ends (relationships out))"
  proof -
    have "mset (map unordered_ends (relationships out)) = mset (map unordered_ends (map snd found))"
      unfolding out mset_map by simp
    then show ?thesis
      using keyed_unordered_distinct ok by (metis found_ok_def mset_eq_imp_distinct_iff)
  qed
  moreover have "sorted (map rel_id (relationships out))" by (simp add: out)
  moreover have "relationships out = [] \<or> int (length (relationships out)) \<le> max_relationships (bounds request)"
    using ok by (auto simp: out found_ok_def)
  ultimately show ?thesis using member by blast
qed

section \<open>Re-derivation\<close>

text \<open>What the search relies on of the store: the connections it lists are the ones it looks up, and
  their ids can stand in a path key.\<close>

definition store_consistent :: "read_access \<Rightarrow> bool" where
  "store_consistent ra \<longleftrightarrow>
     (\<forall>eid. \<forall>c \<in> set (find_connections_for ra eid AnyDirection None).
        get_connection ra (conn_id c) = Some c \<and> conn_id c \<noteq> [] \<and> CHR ''|'' \<notin> set (conn_id c))"

definition same_relation :: "oriented_relation \<Rightarrow> oriented_relation \<Rightarrow> bool" where
  "same_relation r q \<longleftrightarrow> r = q\<lparr>connection_id := connection_id r\<rparr>"

lemma rel_ends_id [simp]:
  "rel_source (r\<lparr>connection_id := x\<rparr>) = rel_source r" "rel_target (r\<lparr>connection_id := x\<rparr>) = rel_target r"
  "rel_source_type (r\<lparr>connection_id := x\<rparr>) = rel_source_type r"
  "rel_target_type (r\<lparr>connection_id := x\<rparr>) = rel_target_type r"
  "rel_source_info (r\<lparr>connection_id := x\<rparr>) = rel_source_info r"
  "rel_target_info (r\<lparr>connection_id := x\<rparr>) = rel_target_info r"
  by (simp_all add: rel_source_def rel_target_def rel_source_type_def rel_target_type_def
      rel_source_info_def rel_target_info_def)

lemma rule_reads_no_id [simp]:
  "rule_matches rule (f\<lparr>connection_id := x\<rparr>) s mid = rule_matches rule f s mid"
  "compose_by rule res (f\<lparr>connection_id := x\<rparr>) s mid permitted restrictions =
   compose_by rule res f s mid permitted restrictions"
proof -
  have joins: "joins j (f\<lparr>connection_id := x\<rparr>) s = joins j f s" for j by (cases j) simp_all
  show "rule_matches rule (f\<lparr>connection_id := x\<rparr>) s mid = rule_matches rule f s mid"
    by (simp add: rule_matches_def joins)
  have "rule_endpoints rule (f\<lparr>connection_id := x\<rparr>) s = rule_endpoints rule f s"
    "rule_endpoint_types rule (f\<lparr>connection_id := x\<rparr>) s = rule_endpoint_types rule f s"
    "rule_endpoint_infos rule (f\<lparr>connection_id := x\<rparr>) s = rule_endpoint_infos rule f s"
    "step_of rule (f\<lparr>connection_id := x\<rparr>) s res = step_of rule f s res"
    by (simp_all add: step_of_def rule_endpoints_def rule_endpoint_types_def
        rule_endpoint_infos_def composed_steps_def)
  then show "compose_by rule res (f\<lparr>connection_id := x\<rparr>) s mid permitted restrictions =
    compose_by rule res f s mid permitted restrictions"
    by (simp only: compose_by_def)
qed

lemma compose_reads_no_id:
  "compose (f\<lparr>connection_id := x\<rparr>) s mid rules permitted restrictions =
   compose f s mid rules permitted restrictions"
  by (simp add: compose_find decides_def split: option.split)

lemma compose_same_relation:
  "same_relation r q \<Longrightarrow>
   compose r s mid rules permitted restrictions = compose q s mid rules permitted restrictions"
  unfolding same_relation_def by (metis compose_reads_no_id)

lemma shared_same_relation:
  "same_relation r q \<Longrightarrow> shared_entity_info r s ra registries = shared_entity_info q s ra registries"
proof -
  have "shared_entity_info (q\<lparr>connection_id := x\<rparr>) s ra registries = shared_entity_info q s ra registries" for x
    by (simp add: shared_entity_info_def)
  then show "same_relation r q \<Longrightarrow> ?thesis" unfolding same_relation_def by metis
qed

lemma derived_relation_same: "same_relation (derived_relation_at d p) (derived_relation d)"
  by (simp add: same_relation_def derived_relation_at_def derived_relation_def relation_of_step_def)

lemma compose_certainty:
  "compose f s mid rules permitted restrictions = Inr (Some d) \<Longrightarrow>
   step_certainty d = certainty_of (step_potential d)"
  by (drule compose_Some) (auto dest!: compose_by_Some simp: step_of_def)

lemma resolve_path_snoc:
  assumes "resolve_path p ra registries = Inr rs" and "get_connection ra cid = Some c"
    and "oriented_relation_of c ra registries fwd = Some r"
  shows "resolve_path (p @ [(cid, fwd)]) ra registries = Inr (rs @ [r])"
  using assms
proof (induction p ra registries arbitrary: rs rule: resolve_path.induct)
  case (1 ra registries)
  then show ?case by simp
next
  case (2 cid' fwd' p ra registries)
  then show ?case by (auto simp: bind_result_eq_Inr split: option.splits)
qed

lemma refold_snoc:
  assumes "refold current rest ra registries = Inr (Inr r)"
    and "shared_entity_info r next_rel ra registries = Some mid"
    and "compose r next_rel mid (all_rules registries) (Some (aggregated_permitted_relationships registries))
      (all_restrictions registries) = Inr (Some d)"
  shows "refold current (rest @ [next_rel]) ra registries = Inr (Inr (derived_relation d))"
  using assms
proof (induction current rest ra registries rule: refold.induct)
  case (1 current ra registries)
  then show ?case by simp
next
  case (2 current next_rel' rest ra registries)
  then show ?case by (auto simp: bind_result_eq_Inr split: option.splits)
qed

definition replays :: "read_access \<Rightarrow> module_catalog \<Rightarrow> frontier_item \<Rightarrow> bool" where
  "replays ra registries x \<longleftrightarrow> keyable (item_path x) \<and>
     (\<exists>first rest current. resolve_path (item_path x) ra registries = Inr (first # rest) \<and>
        length (item_path x) = Suc (length rest) \<and>
        refold first rest ra registries = Inr (Inr current) \<and> same_relation (item_relation x) current)"

definition rederived :: "read_access \<Rightarrow> module_catalog \<Rightarrow> derived_relationship \<Rightarrow> bool" where
  "rederived ra registries r \<longleftrightarrow>
     derive_relationship_for_path (rel_path_key r) ra registries =
       Inr (DerivedPath (rel_source_id r) (rel_target_id r) (rel_type r) (rel_certainty r) (rel_hops r))"

lemma adjacent_from_store:
  assumes "store_consistent ra" and "c \<in> set (adjacent_connections r ra)"
  shows "get_connection ra (conn_id c) = Some c \<and> conn_id c \<noteq> [] \<and> CHR ''|'' \<notin> set (conn_id c)"
proof -
  have "set (unseen_connections seen cs) \<subseteq> set cs" for seen cs
    by (induction seen cs rule: unseen_connections.induct) auto
  with assms(2) have "c \<in> set (find_connections_for ra (source_id r) AnyDirection None) \<union>
      set (find_connections_for ra (target_id r) AnyDirection None)"
    by (fastforce simp: adjacent_connections_def)
  with assms(1) show ?thesis by (auto simp: store_consistent_def)
qed

lemma replay_step:
  assumes "store_consistent ra" and "replays ra registries current"
    and "c \<in> set (adjacent_connections (item_relation current) ra)"
    and "compose_adjacent current c ra registries = Inr (Some d)"
  shows "replays ra registries (new_item current c d) \<and>
    rederived ra registries (candidate_of d (extended_path current c))"
proof -
  obtain next_rel mid where rel: "oriented_relation_of c ra registries True = Some next_rel"
    and mid: "shared_entity_info (item_relation current) next_rel ra registries = Some mid"
    and comp: "compose (item_relation current) next_rel mid (all_rules registries)
      (Some (aggregated_permitted_relationships registries)) (all_restrictions registries) = Inr (Some d)"
    using assms(4) by (rule compose_adjacent_Some)
  obtain first rest r where old: "resolve_path (item_path current) ra registries = Inr (first # rest)"
      "length (item_path current) = Suc (length rest)" "refold first rest ra registries = Inr (Inr r)"
      "same_relation (item_relation current) r" "keyable (item_path current)"
    using assms(2) by (auto simp: replays_def)
  have conn: "get_connection ra (conn_id c) = Some c" "conn_id c \<noteq> []" "CHR ''|'' \<notin> set (conn_id c)"
    using adjacent_from_store [OF assms(1,3)] by blast+
  have key: "keyable (extended_path current c)"
    using old(5) conn by (auto simp: keyable_def extended_path_def)
  have path: "resolve_path (extended_path current c) ra registries = Inr (first # rest @ [next_rel])"
    using resolve_path_snoc [OF old(1) conn(1) rel] by (simp add: extended_path_def)
  have folded: "refold first (rest @ [next_rel]) ra registries = Inr (Inr (derived_relation d))"
    using mid comp by (intro refold_snoc [OF old(3)])
      (simp_all add: shared_same_relation [OF old(4)] compose_same_relation [OF old(4)])
  have len: "length (extended_path current c) = Suc (Suc (length rest))"
    using old(2) by (simp add: extended_path_def)
  have "replays ra registries (new_item current c d)"
    using key path folded old(2) derived_relation_same
    by (auto simp: replays_def new_item_def extended_path_def)
  moreover have "rederived ra registries (candidate_of d (extended_path current c))"
    using path folded len compose_certainty [OF comp]
    by (simp add: rederived_def candidate_of_def derive_relationship_for_path_def
        parse_path_key_of_path [OF key] derived_relation_def relation_of_step_def)
  ultimately show ?thesis by blast
qed

lemma discover_from_store:
  assumes "\<forall>e \<in> set discovered. \<exists>eid. snd e \<in> set (find_connections_for ra eid AnyDirection None) \<and>
      fst e = conn_id (snd e)"
  shows "\<forall>e \<in> set (discover pending visited discovered hops ra).
    \<exists>eid. snd e \<in> set (find_connections_for ra eid AnyDirection None) \<and> fst e = conn_id (snd e)"
  using assms
proof (induction pending visited discovered hops ra rule: discover.induct)
  case (1 visited discovered hops ra)
  then show ?case by simp
next
  case (2 eid depth pending visited discovered hops ra)
  have members: "set (foldl setdefault d cs) \<subseteq> set d \<union> (\<lambda>c. (conn_id c, c)) ` set cs" for d cs
  proof (induction cs arbitrary: d)
    case (Cons a cs)
    have "set (setdefault d a) \<subseteq> insert (conn_id a, a) (set d)" by (auto simp: setdefault_def)
    with Cons.IH [of "setdefault d a"] show ?case by auto
  qed simp
  show ?case
  proof (cases "eid \<in> visited \<or> depth \<ge> hops")
    case True
    with "2.IH"(1) [OF True "2.prems"] show ?thesis by (simp only: discover.simps if_True)
  next
    case False
    have "\<forall>e \<in> set (foldl setdefault discovered (find_connections_for ra eid AnyDirection None)).
        \<exists>eid. snd e \<in> set (find_connections_for ra eid AnyDirection None) \<and> fst e = conn_id (snd e)"
    proof
      fix e
      assume "e \<in> set (foldl setdefault discovered (find_connections_for ra eid AnyDirection None))"
      with members consider "e \<in> set discovered"
        | c where "c \<in> set (find_connections_for ra eid AnyDirection None)" "e = (conn_id c, c)" by blast
      then show "\<exists>eid. snd e \<in> set (find_connections_for ra eid AnyDirection None) \<and> fst e = conn_id (snd e)"
        using "2.prems" by cases auto
    qed
    from "2.IH"(2) [OF False refl this] show ?thesis
      unfolding discover.simps if_not_P [OF False] Let_def .
  qed
qed

lemma initial_frontier_replays:
  assumes "store_consistent ra" and "x \<in> set (initial_frontier anchor_ids hops ra registries)"
  shows "replays ra registries x"
proof -
  define discovered where "discovered = discover (map (\<lambda>a. (a, 0)) (sort (remdups anchor_ids))) {} [] hops ra"
  obtain cid c r where c: "map_of discovered cid = Some c"
    and r: "oriented_relation_of c ra registries True = Some r"
    and x: "x = \<lparr>item_relation = r, item_path = [(cid, True)], used_connection_ids = {cid}\<rparr>"
    using assms(2)
    by (auto simp: initial_frontier_def Let_def set_map_filter discovered_def split: option.splits)
  have "(cid, c) \<in> set discovered" using c by (rule map_of_SomeD)
  then have "get_connection ra cid = Some c \<and> cid \<noteq> [] \<and> CHR ''|'' \<notin> set cid"
  proof -
    from discover_from_store [of "[]" ra] \<open>(cid, c) \<in> set discovered\<close>
    obtain eid where "c \<in> set (find_connections_for ra eid AnyDirection None)" "cid = conn_id c"
      unfolding discovered_def by force
    with assms(1) show ?thesis by (simp add: store_consistent_def)
  qed
  with r show ?thesis by (simp add: replays_def x keyable_def same_relation_def)
qed

text \<open>
  Claim C13. A derived relationship can be checked by its path key alone. Over a store whose listed
  connections are the ones it looks up, with ids that can stand in a key, every relationship that
  bounded derivation returns is derived again by replaying its path key against the same store and
  catalog: same source, same target, same type, same certainty, same number of hops.
\<close>

theorem derived_relationships_replay:
  assumes "store_consistent ra"
    and "derive_relationships request ra registries clock = Ok out"
    and "r \<in> set (relationships out)"
  shows "derive_relationship_for_path (rel_path_key r) ra registries =
    Ok (DerivedPath (rel_source_id r) (rel_target_id r) (rel_type r) (rel_certainty r) (rel_hops r))"
proof -
  let ?P = "\<lambda>found :: found. \<forall>e \<in> set found. rederived ra registries (snd e)"
  from assms(2,3) obtain found is_cut where
    run: "search 1 (initial_frontier (anchors request) (max_hops (bounds request)) ra registries)
       [] {} request ra registries clock = Inr (found, is_cut)"
    and out: "relationships out = sort_key rel_id (map snd found)"
    by (auto simp: derive_relationships_def bind_result_eq_Inr split: if_splits)
  have "?P found"
  proof (rule search_keeps [where Q = "replays ra registries", OF run])
    show "\<And>x. x \<in> set (initial_frontier (anchors request) (max_hops (bounds request)) ra registries) \<Longrightarrow>
        replays ra registries x"
      by (rule initial_frontier_replays [OF assms(1)])
    show "?P []" by simp
  next
    fix current c d and found :: found
    assume Q: "replays ra registries current" and mem: "c \<in> set (adjacent_connections (item_relation current) ra)"
      and step: "compose_adjacent current c ra registries = Inr (Some d)" and found: "?P found"
    note replay = replay_step [OF assms(1) Q mem step]
    have "rederived ra registries (snd e)"
      if "e \<in> set (record_if_incident d (extended_path current c) request found)" for e
    proof -
      have "snd e \<in> insert (candidate_of d (extended_path current c)) (set (map snd found))"
        using that record_candidate_members [of "candidate_of d (extended_path current c)" found]
        by (fastforce simp: record_if_incident_def split: if_splits)
      with replay found show ?thesis by auto
    qed
    with replay show "replays ra registries (new_item current c d) \<and>
        ?P (record_if_incident d (extended_path current c) request found)" by blast
  qed
  with assms(3) show ?thesis by (auto simp: out rederived_def)
qed

section \<open>A concrete run\<close>

definition sample_ontology :: ontology_module where
  "sample_ontology = (empty_ontology ''demo'')
     \<lparr>entity_types := [(''node'', sample_entity ''node'' ''technology'')],
      connection_types := [(''serving'', structural ''serving'' 2)],
      derivation_rules := [weakest_rule]\<rparr>"

definition sample_catalog :: module_catalog where
  "sample_catalog = \<lparr>ontologies = [(''demo'', sample_ontology)], diagram_types = []\<rparr>"

definition c1 :: connection_record where
  "c1 = \<lparr>conn_id = ''c1'', conn_source = ''a'', conn_target = ''b'', conn_type = ''serving''\<rparr>"

definition c2 :: connection_record where
  "c2 = \<lparr>conn_id = ''c2'', conn_source = ''b'', conn_target = ''c'', conn_type = ''serving''\<rparr>"

definition sample_connections :: "connection_record list" where
  "sample_connections =
     [c1, c2]"

definition sample_store :: read_access where
  "sample_store =
     \<lparr>get_entity = (\<lambda>eid. if eid \<in> {''a'', ''b'', ''c''}
        then Some \<lparr>entity_artifact_id = eid, entity_artifact_type = ''node''\<rparr> else None),
      get_connection = (\<lambda>cid. List.find (\<lambda>c. conn_id c = cid) sample_connections),
      find_connections_for = (\<lambda>eid _ _. filter (\<lambda>c. conn_source c = eid \<or> conn_target c = eid) sample_connections)\<rparr>"

definition sample_request :: derivation_request where
  "sample_request =
     \<lparr>anchors = [''a''], request_direction = Outgoing, request_certainty = CertainOnly,
      bounds = \<lparr>max_hops = 2, max_relationships = 10, time_budget_seconds = 2\<rparr>\<rparr>"

definition sample_derived :: derived_relationship where
  "sample_derived =
     \<lparr>rel_id = ''derived::serving::c1@fwd|c2@fwd'', rel_source_id = ''a'', rel_target_id = ''c'',
      rel_type = ''serving'', rel_certainty = Certain, rel_hops = 2,
      via_connection_ids = [''c1'', ''c2''], rel_path_key = ''c1@fwd|c2@fwd''\<rparr>"

lemma sample_types:
  "all_entity_types sample_catalog = [(''node'', sample_entity ''node'' ''technology'')]"
  "all_connection_types sample_catalog = [(''serving'', structural ''serving'' 2)]"
  "all_rules sample_catalog = [weakest_rule]" "all_restrictions sample_catalog = []"
  by (simp_all add: sample_catalog_def sample_ontology_def empty_ontology_def all_entity_types_def
      all_connection_types_def all_rules_def all_restrictions_def dict_update_def)

lemmas sample_connection_defs = sample_connections_def c1_def c2_def

lemma sample_relations:
  "oriented_relation_of \<lparr>conn_id = cid, conn_source = s, conn_target = t, conn_type = ''serving''\<rparr>
     sample_store sample_catalog True =
   (if s \<in> {''a'', ''b'', ''c''} \<and> t \<in> {''a'', ''b'', ''c''}
    then Some (sample_leg cid (structural ''serving'' 2) s t) else None)"
  by (auto simp: oriented_relation_of_def sample_types sample_store_def sample_leg_def structural_def)

lemma sample_frontier:
  "initial_frontier [''a''] 2 sample_store sample_catalog =
     [\<lparr>item_relation = sample_leg ''c1'' (structural ''serving'' 2) ''a'' ''b'', item_path = [(''c1'', True)],
       used_connection_ids = {''c1''}\<rparr>,
      \<lparr>item_relation = sample_leg ''c2'' (structural ''serving'' 2) ''b'' ''c'', item_path = [(''c2'', True)],
       used_connection_ids = {''c2''}\<rparr>]"
proof -
  have "discover [(''a'', 0)] {} [] 2 sample_store = map (\<lambda>c. (conn_id c, c)) sample_connections"
    by (simp add: sample_store_def sample_connection_defs neighbour_def setdefault_def)
  then show ?thesis
    by (simp add: initial_frontier_def sample_connection_defs map_filter_simps sample_relations)
qed

definition sample_item :: "string \<Rightarrow> string \<Rightarrow> string \<Rightarrow> frontier_item" where
  "sample_item cid src tgt =
     \<lparr>item_relation = sample_leg cid (structural ''serving'' 2) src tgt, item_path = [(cid, True)],
      used_connection_ids = {cid}\<rparr>"

definition sample_step :: derived_step where
  "sample_step =
     \<lparr>step_source = ''a'', step_target = ''c'', step_type = structural ''serving'' 2,
      step_certainty = Certain, step_potential = 0,
      step_source_info = Some (sample_entity ''node'' ''technology''),
      step_target_info = Some (sample_entity ''node'' ''technology'')\<rparr>"

lemma sample_adjacent:
  "adjacent_connections (sample_leg ''c1'' ct ''a'' ''b'') sample_store = sample_connections"
  "adjacent_connections (sample_leg ''c2'' ct ''b'' ''c'') sample_store = sample_connections"
  by (simp_all add: adjacent_connections_def sample_leg_def sample_store_def sample_connection_defs)

lemma sample_shared:
  "shared_entity_info (sample_leg ''c1'' ct ''a'' ''b'') (sample_leg ''c2'' ct ''b'' ''c'') sample_store sample_catalog =
   Some (sample_entity ''node'' ''technology'')"
  "shared_entity_info (sample_leg ''c2'' ct ''b'' ''c'') (sample_leg ''c1'' ct ''a'' ''b'') sample_store sample_catalog =
   Some (sample_entity ''node'' ''technology'')"
  by (simp_all add: shared_entity_info_def sample_leg_def sample_types sample_store_def)

lemma sample_compose:
  "compose (sample_leg ''c1'' (structural ''serving'' 2) ''a'' ''b'') (sample_leg ''c2'' (structural ''serving'' 2) ''b'' ''c'')
     (sample_entity ''node'' ''technology'') [weakest_rule] ps [] = Inr (Some sample_step)"
  "compose (sample_leg ''c2'' (structural ''serving'' 2) ''b'' ''c'') (sample_leg ''c1'' (structural ''serving'' 2) ''a'' ''b'')
     (sample_entity ''node'' ''technology'') [weakest_rule] ps [] = Inr None"
  by (simp_all add: sample_derivation_defs rule_matches_def result_type_def compose_by_def
      rule_endpoints_def rule_endpoint_types_def rule_endpoint_infos_def rel_source_def rel_target_def
      rel_source_info_def rel_target_info_def step_of_def composed_steps_def certainty_of_def sample_step_def)

lemma sample_used:
  "conn_id c \<in> used_connection_ids x \<Longrightarrow> compose_adjacent x c ra registries = Inr None"
  by (simp add: compose_adjacent_def)

lemma sample_composed:
  assumes "conn_id c \<notin> used_connection_ids x"
    and "oriented_relation_of c ra registries True = Some next_rel"
    and "shared_entity_info (item_relation x) next_rel ra registries = Some mid"
    and "compose (item_relation x) next_rel mid (all_rules registries)
      (Some (aggregated_permitted_relationships registries)) (all_restrictions registries) = out"
  shows "compose_adjacent x c ra registries = out"
  unfolding compose_adjacent_def compose_candidate_rules using assms by (simp del: compose.simps)

lemma sample_compositions:
  "compose_adjacent (sample_item ''c1'' ''a'' ''b'') c1 sample_store sample_catalog = Inr None"
  "compose_adjacent (sample_item ''c1'' ''a'' ''b'') c2 sample_store sample_catalog = Inr (Some sample_step)"
  "compose_adjacent (sample_item ''c2'' ''b'' ''c'') c1 sample_store sample_catalog = Inr None"
  "compose_adjacent (sample_item ''c2'' ''b'' ''c'') c2 sample_store sample_catalog = Inr None"
proof -
  have rel: "oriented_relation_of c1 sample_store sample_catalog True =
      Some (sample_leg ''c1'' (structural ''serving'' 2) ''a'' ''b'')"
    "oriented_relation_of c2 sample_store sample_catalog True =
      Some (sample_leg ''c2'' (structural ''serving'' 2) ''b'' ''c'')"
    by (simp_all add: c1_def c2_def sample_relations)
  show "compose_adjacent (sample_item ''c1'' ''a'' ''b'') c1 sample_store sample_catalog = Inr None"
    "compose_adjacent (sample_item ''c2'' ''b'' ''c'') c2 sample_store sample_catalog = Inr None"
    by (simp_all add: sample_used sample_item_def c1_def c2_def)
  have item: "item_relation (sample_item cid src tgt) = sample_leg cid (structural ''serving'' 2) src tgt" for cid src tgt
    by (simp add: sample_item_def)
  show "compose_adjacent (sample_item ''c1'' ''a'' ''b'') c2 sample_store sample_catalog = Inr (Some sample_step)"
    by (rule sample_composed [where mid = "sample_entity ''node'' ''technology''", OF _ rel(2)])
      (simp_all only: item sample_shared sample_types sample_compose, simp add: sample_item_def c2_def)
  show "compose_adjacent (sample_item ''c2'' ''b'' ''c'') c1 sample_store sample_catalog = Inr None"
    by (rule sample_composed [where mid = "sample_entity ''node'' ''technology''", OF _ rel(1)])
      (simp_all only: item sample_shared sample_types sample_compose, simp add: sample_item_def c1_def)
qed

lemma sample_values [simp]:
  "step_certainty sample_step = Certain" "item_path (sample_item cid src tgt) = [(cid, True)]"
  "item_relation (sample_item cid src tgt) = sample_leg cid (structural ''serving'' 2) src tgt"
  "used_connection_ids (sample_item cid src tgt) = {cid}"
  "anchors sample_request = [''a'']"
  "max_hops (bounds sample_request) = 2" "max_relationships (bounds sample_request) = 10"
  "time_budget_seconds (bounds sample_request) = 2"
  "extended_path (sample_item cid src tgt) c2 = [(cid, True), (''c2'', True)]" "conn_id c2 = ''c2''"
  by (simp_all add: sample_step_def sample_item_def sample_request_def extended_path_def c2_def)

lemma sample_run:
  "derive_relationships sample_request sample_store sample_catalog (\<lambda>_. 0) =
     Ok \<lparr>relationships = [sample_derived], truncated = False\<rparr>"
proof -
  have frontier: "initial_frontier [''a''] 2 sample_store sample_catalog =
      [sample_item ''c1'' ''a'' ''b'', sample_item ''c2'' ''b'' ''c'']"
    by (simp add: sample_frontier sample_item_def)
  have found: "record_if_incident sample_step [(''c1'', True), (''c2'', True)] sample_request [] =
      [((''a'', ''c''), sample_derived)]"
    by (simp add: record_if_incident_def matches_direction_def sample_step_def sample_request_def
        record_candidate_def candidate_of_def pair_key_def sample_derived_def structural_def path_key_def step_text_def)
  have first: "expand (sample_item ''c1'' ''a'' ''b'') sample_connections sample_request sample_store sample_catalog
      \<lparr>appended = [], results = [], seen_paths = {}\<rparr> =
    Inr \<lparr>appended = [new_item (sample_item ''c1'' ''a'' ''b'') (sample_connections ! 1) sample_step],
      results = [((''a'', ''c''), sample_derived)], seen_paths = {[''c1'', ''c2'']}\<rparr>"
    using found
    by (simp add: sample_connections_def sample_compositions sample_values advance_def new_item_def Let_def)
  have second: "expand (sample_item ''c2'' ''b'' ''c'') sample_connections sample_request sample_store sample_catalog st =
    Inr st" for st
    by (simp add: sample_connections_def sample_compositions)
  have full: "length (item_path (new_item (sample_item ''c1'' ''a'' ''b'') (sample_connections ! Suc 0) sample_step)) = 2"
    by (simp add: new_item_def sample_connections_def)
  have "search 1 [sample_item ''c1'' ''a'' ''b'', sample_item ''c2'' ''b'' ''c''] [] {} sample_request
      sample_store sample_catalog (\<lambda>_. 0) = Inr ([((''a'', ''c''), sample_derived)], False)"
    using full by (simp add: sample_adjacent first second)
  then show ?thesis
    by (simp add: derive_relationships_def frontier)
qed

lemma sample_store_consistent: "store_consistent sample_store"
  by (auto simp: store_consistent_def sample_store_def sample_connection_defs)

theorem derived_relationships_answer_the_request_witness:
  "\<exists>out. derive_relationships sample_request sample_store sample_catalog (\<lambda>_. 0) = Ok out \<and>
     sample_derived \<in> set (relationships out) \<and> rel_hops sample_derived = 2 \<and>
     int (rel_hops sample_derived) \<le> max_hops (bounds sample_request) \<and>
     rel_source_id sample_derived \<noteq> rel_target_id sample_derived \<and>
     is_derived_connection_id (rel_id sample_derived)"
proof -
  have "rel_hops sample_derived = 2" by (simp add: sample_derived_def)
  with derived_relationships_answer_the_request [OF sample_run] sample_run show ?thesis by auto
qed

theorem derived_relationships_replay_witness:
  "\<exists>out. derive_relationships sample_request sample_store sample_catalog (\<lambda>_. 0) = Ok out \<and>
     sample_derived \<in> set (relationships out) \<and>
     derive_relationship_for_path ''c1@fwd|c2@fwd'' sample_store sample_catalog =
       Ok (DerivedPath ''a'' ''c'' ''serving'' Certain 2)"
proof -
  have mem: "sample_derived \<in> set (relationships \<lparr>relationships = [sample_derived], truncated = False\<rparr>)"
    by simp
  have "derive_relationship_for_path (rel_path_key sample_derived) sample_store sample_catalog =
      Ok (DerivedPath (rel_source_id sample_derived) (rel_target_id sample_derived) (rel_type sample_derived)
        (rel_certainty sample_derived) (rel_hops sample_derived))"
    by (rule derived_relationships_replay [OF sample_store_consistent sample_run mem])
  then have "derive_relationship_for_path ''c1@fwd|c2@fwd'' sample_store sample_catalog =
      Ok (DerivedPath ''a'' ''c'' ''serving'' Certain 2)"
    by (simp add: sample_derived_def)
  with sample_run show ?thesis by auto
qed

text \<open>
  Path keys and paths are two forms of one thing. Printing a non-empty path whose connection ids
  are non-empty and contain no bar and parsing the result gives the path back, and whatever a key
  parses to prints as that key.
\<close>

theorem path_keys_round_trip:
  "(keyable p \<longrightarrow> parse_path_key (path_key p) = Some p) \<and>
   (parse_path_key key = Some q \<longrightarrow> path_key q = key)"
proof -
  have "path_key q = key" if "parse_path_key key = Some q"
  proof -
    have "map step_text q = py_split (CHR ''|'') key"
      using that parse_steps_Some by (auto simp: parse_path_key_def split: if_splits)
    then show ?thesis by (simp add: path_key_def py_join_split)
  qed
  then show ?thesis using parse_path_key_of_path by blast
qed

theorem path_keys_round_trip_witness:
  "keyable [(''REL@1.a'', True), (''REL@2.b'', False)] \<and>
   parse_path_key (path_key [(''REL@1.a'', True), (''REL@2.b'', False)]) =
     Some [(''REL@1.a'', True), (''REL@2.b'', False)]"
proof -
  have "keyable [(''REL@1.a'', True), (''REL@2.b'', False)]" by (simp add: keyable_def)
  with path_keys_round_trip [of "[(''REL@1.a'', True), (''REL@2.b'', False)]"] show ?thesis by simp
qed

end
