(* ===== verification/Mediation.thy ===== *)
theory Mediation
  imports Path_Reconstruction
begin

text \<open>
  Intermediates that carry a relationship on
  (\<^verbatim>\<open>src/domain/relationships/relationship_mediation.py\<close>) and how the application finds their legs
  (\<^verbatim>\<open>src/application/mediated_relationships.py\<close>). The messages of the two offences are not modelled;
  their fields are. What the application asks of the connection catalog, the types permissible between
  two entity types, is a parameter.
\<close>

section \<open>Mediations\<close>

record pass_through_mediation =
  med_ref :: string
  med_classes :: "string set"
  med_types :: "string set"
  med_same_type :: bool
  med_permitted_result :: bool

definition singleton_if_truthy :: "string option \<Rightarrow> string set" where
  "singleton_if_truthy s = (if truthy s then set_option s else {})"

definition pass_through_mediations :: "composition_rule list \<Rightarrow> pass_through_mediation list" where
  "pass_through_mediations rules =
     map (\<lambda>r. \<lparr>med_ref = rule_ref r, med_classes = singleton_if_truthy (intermediate_class r),
                med_types = singleton_if_truthy (intermediate_artifact_type r),
                med_same_type = requires_same_connection_type r,
                med_permitted_result = requires_permitted_result r\<rparr>)
       (filter (\<lambda>r. rule_certainty r = Certain \<and>
          (truthy (intermediate_class r) \<or> truthy (intermediate_artifact_type r))) rules)"

definition mediation_governing ::
    "string option \<Rightarrow> (string \<Rightarrow> string set) \<Rightarrow> pass_through_mediation list \<Rightarrow> pass_through_mediation option" where
  "mediation_governing etype classes_of mediations =
     (case etype of
        None \<Rightarrow> None
      | Some t \<Rightarrow> List.find (\<lambda>m. t \<in> med_types m \<or> med_classes m \<inter> classes_of t \<noteq> {}) mediations)"

record mediated_leg =
  leg_entity :: string
  leg_type :: string
  upstream :: bool

definition legs_from_records :: "connection_record list \<Rightarrow> connection_record list \<Rightarrow> mediated_leg list" where
  "legs_from_records inbound outbound =
     map (\<lambda>c. \<lparr>leg_entity = conn_source c, leg_type = conn_type c, upstream = True\<rparr>) inbound @
     map (\<lambda>c. \<lparr>leg_entity = conn_target c, leg_type = conn_type c, upstream = False\<rparr>) outbound"

section \<open>Offences\<close>

datatype mediation_offence =
    MixedLegTypes (off_intermediate: string) (off_type: string) (off_carried: string) (off_others: "string list")
  | InadmissibleJoin (join_intermediate: string) (join_type: string) (join_carried: string)
      (join_source: string) (join_source_type: string) (join_target: string) (join_target_type: string)
      (join_alternatives: "string list")

definition inadmissible ::
    "string \<Rightarrow> string \<Rightarrow> string \<Rightarrow> string \<Rightarrow> string \<Rightarrow> (string \<Rightarrow> string option) \<Rightarrow> (string \<Rightarrow> string \<Rightarrow> string set)
      \<Rightarrow> mediation_offence option" where
  "inadmissible mid mid_type carried src tgt type_of permitted_types =
     (case (type_of src, type_of tgt) of
        (Some s, Some t) \<Rightarrow>
          if carried \<in> permitted_types s t then None
          else Some (InadmissibleJoin mid mid_type carried src s tgt t
                 (sorted_list_of_set (permitted_types s t)))
      | _ \<Rightarrow> None)"

definition pairs :: "mediated_leg set \<Rightarrow> string \<Rightarrow> bool \<Rightarrow> (string \<times> string) list" where
  "pairs known near near_up =
     (let far_ends = sorted_list_of_multiset
        (image_mset leg_entity (mset_set {l \<in> known. upstream l \<noteq> near_up})) in
      map (\<lambda>far. if near_up then (near, far) else (far, near)) (filter (\<lambda>far. far \<noteq> near) far_ends))"

definition known_legs :: "mediated_leg list \<Rightarrow> string \<Rightarrow> string \<Rightarrow> bool \<Rightarrow> mediated_leg set" where
  "known_legs legs near carried near_up =
     insert \<lparr>leg_entity = near, leg_type = carried, upstream = near_up\<rparr> (set legs)"

definition mediation_offences ::
    "pass_through_mediation \<Rightarrow> string \<Rightarrow> string \<Rightarrow> string \<Rightarrow> string \<Rightarrow> bool \<Rightarrow> mediated_leg list
      \<Rightarrow> (string \<Rightarrow> string option) \<Rightarrow> (string \<Rightarrow> string \<Rightarrow> string set) \<Rightarrow> mediation_offence list" where
  "mediation_offences m mid mid_type carried near near_up legs type_of permitted_types =
     (let known = known_legs legs near carried near_up;
          others = sorted_list_of_set {leg_type l | l. l \<in> known \<and> leg_type l \<noteq> carried} in
      if med_same_type m \<and> others \<noteq> [] then [MixedLegTypes mid mid_type carried others]
      else if \<not> med_permitted_result m then []
      else List.map_filter (\<lambda>(src, tgt). inadmissible mid mid_type carried src tgt type_of permitted_types)
             (pairs known near near_up))"

section \<open>The graph side\<close>

definition declared_mediations :: "module_catalog \<Rightarrow> pass_through_mediation list" where
  "declared_mediations c = pass_through_mediations (all_rules c)"

definition mediation_for_type ::
    "string option \<Rightarrow> module_catalog \<Rightarrow> pass_through_mediation list \<Rightarrow> pass_through_mediation option" where
  "mediation_for_type etype c mediations =
     mediation_governing etype
       (\<lambda>name. case map_of (all_entity_types c) name of
          None \<Rightarrow> {} | Some info \<Rightarrow> set (etype_classes info)) mediations"

definition leg_offences ::
    "read_access \<Rightarrow> (string \<Rightarrow> string \<Rightarrow> string set) \<Rightarrow> pass_through_mediation \<Rightarrow> (string \<Rightarrow> string option)
      \<Rightarrow> string \<Rightarrow> string \<Rightarrow> string \<Rightarrow> string \<Rightarrow> bool \<Rightarrow> mediation_offence list" where
  "leg_offences ra permissible m type_of mid mid_type near ctype mid_is_target =
     mediation_offences m mid mid_type ctype near mid_is_target
       (legs_from_records (find_connections_for ra mid Inbound None) (find_connections_for ra mid Outbound None))
       type_of permissible"

section \<open>What no offence means\<close>

lemma set_pairs:
  assumes "finite known"
  shows "set (pairs known near near_up) =
    {if near_up then (near, leg_entity l) else (leg_entity l, near) | l.
       l \<in> known \<and> upstream l \<noteq> near_up \<and> leg_entity l \<noteq> near}"
  using assms by (auto simp: pairs_def Let_def)

definition may_join ::
    "string \<Rightarrow> (string \<Rightarrow> string option) \<Rightarrow> (string \<Rightarrow> string \<Rightarrow> string set) \<Rightarrow> string \<Rightarrow> string \<Rightarrow> bool" where
  "may_join carried type_of permitted_types src tgt \<longleftrightarrow>
     (\<forall>s t. type_of src = Some s \<and> type_of tgt = Some t \<longrightarrow> carried \<in> permitted_types s t)"

lemma inadmissible_None_iff:
  "inadmissible mid mid_type carried src tgt type_of permitted_types = None \<longleftrightarrow>
     may_join carried type_of permitted_types src tgt"
  by (auto simp: inadmissible_def may_join_def split: option.splits if_splits)

lemma map_filter_empty_iff: "List.map_filter f xs = [] \<longleftrightarrow> (\<forall>x \<in> set xs. f x = None)"
  by (induction xs) (auto simp: map_filter_simps split: option.splits)

lemma mediation_offences_empty_iff:
  "mediation_offences m mid mid_type carried near near_up legs type_of permitted_types = [] \<longleftrightarrow>
     (med_same_type m \<longrightarrow> (\<forall>l \<in> set legs. leg_type l = carried)) \<and>
     (med_permitted_result m \<longrightarrow>
        (\<forall>l \<in> set legs. upstream l \<noteq> near_up \<and> leg_entity l \<noteq> near \<longrightarrow>
           (if near_up then may_join carried type_of permitted_types near (leg_entity l)
            else may_join carried type_of permitted_types (leg_entity l) near)))"
proof -
  let ?known = "known_legs legs near carried near_up"
  have fin: "finite ?known" by (simp add: known_legs_def)
  have finite_others: "finite {leg_type l | l. l \<in> ?known \<and> leg_type l \<noteq> carried}"
    using fin by simp
  have others: "sorted_list_of_set {leg_type l | l. l \<in> ?known \<and> leg_type l \<noteq> carried} = [] \<longleftrightarrow>
      (\<forall>l \<in> set legs. leg_type l = carried)"
    using finite_others by (auto simp: sorted_list_of_set_eq_Nil_iff known_legs_def)
  have judged: "List.map_filter (\<lambda>(src, tgt). inadmissible mid mid_type carried src tgt type_of permitted_types)
      (pairs ?known near near_up) = [] \<longleftrightarrow>
    (\<forall>l \<in> set legs. upstream l \<noteq> near_up \<and> leg_entity l \<noteq> near \<longrightarrow>
       (if near_up then may_join carried type_of permitted_types near (leg_entity l)
        else may_join carried type_of permitted_types (leg_entity l) near))"
    unfolding map_filter_empty_iff set_pairs [OF fin]
    by (cases near_up) (auto simp: inadmissible_None_iff known_legs_def)
  show ?thesis
    unfolding mediation_offences_def Let_def using others judged by auto
qed

section \<open>Properties\<close>

text \<open>
  A leg is judged exactly by what its mediation demands. It has no offence if and only if every
  other leg carries its type (when the rule demands one type) and the carried type is permitted, in
  the right direction, between it and each other participant on the far side whose type is known
  (when the rule demands a permitted result). Disagreement on the type is the only offence reported
  when there is one.
\<close>

theorem mediation_judges_exactly:
  "(mediation_offences m mid mid_type carried near near_up legs type_of permitted_types = [] \<longleftrightarrow>
     (med_same_type m \<longrightarrow> (\<forall>l \<in> set legs. leg_type l = carried)) \<and>
     (med_permitted_result m \<longrightarrow>
        (\<forall>l \<in> set legs. upstream l \<noteq> near_up \<and> leg_entity l \<noteq> near \<longrightarrow>
           (if near_up then may_join carried type_of permitted_types near (leg_entity l)
            else may_join carried type_of permitted_types (leg_entity l) near)))) \<and>
   (med_same_type m \<and> (\<exists>l \<in> set legs. leg_type l \<noteq> carried) \<longrightarrow>
     (\<exists>others. mediation_offences m mid mid_type carried near near_up legs type_of permitted_types =
        [MixedLegTypes mid mid_type carried others] \<and>
        set others = {leg_type l | l. l \<in> set legs \<and> leg_type l \<noteq> carried}))"
proof (intro conjI impI)
  assume mixed: "med_same_type m \<and> (\<exists>l \<in> set legs. leg_type l \<noteq> carried)"
  let ?others = "{leg_type l | l. l \<in> known_legs legs near carried near_up \<and> leg_type l \<noteq> carried}"
  have set_others: "?others = {leg_type l | l. l \<in> set legs \<and> leg_type l \<noteq> carried}"
    by (auto simp: known_legs_def)
  have fin: "finite ?others" by (simp add: known_legs_def)
  have "?others \<noteq> {}" using mixed unfolding set_others by blast
  then have "sorted_list_of_set ?others \<noteq> []" using fin by (simp add: sorted_list_of_set_eq_Nil_iff)
  then have "mediation_offences m mid mid_type carried near near_up legs type_of permitted_types =
      [MixedLegTypes mid mid_type carried (sorted_list_of_set ?others)]"
    using mixed unfolding mediation_offences_def Let_def by simp
  moreover have "set (sorted_list_of_set ?others) = {leg_type l | l. l \<in> set legs \<and> leg_type l \<noteq> carried}"
    using fin set_others by simp
  ultimately show "\<exists>others. mediation_offences m mid mid_type carried near near_up legs type_of permitted_types =
      [MixedLegTypes mid mid_type carried others] \<and>
      set others = {leg_type l | l. l \<in> set legs \<and> leg_type l \<noteq> carried}" by blast
qed (rule mediation_offences_empty_iff)

definition junction_mediation :: pass_through_mediation where
  "junction_mediation =
     \<lparr>med_ref = ''RJ3'', med_classes = {''junction''}, med_types = {}, med_same_type = True,
      med_permitted_result = True\<rparr>"

theorem mediation_judges_exactly_witness:
  "\<exists>others. mediation_offences junction_mediation ''J'' ''junction'' ''flow'' ''a'' True
      [\<lparr>leg_entity = ''b'', leg_type = ''serving'', upstream = False\<rparr>] (\<lambda>_. None) (\<lambda>_ _. {}) =
     [MixedLegTypes ''J'' ''junction'' ''flow'' others] \<and> set others = {''serving''}"
proof -
  have "med_same_type junction_mediation \<and>
      (\<exists>l \<in> set [\<lparr>leg_entity = ''b'', leg_type = ''serving'', upstream = False\<rparr>]. leg_type l \<noteq> ''flow'')"
    by (simp add: junction_mediation_def)
  with mediation_judges_exactly [of junction_mediation "''J''" "''junction''" "''flow''" "''a''" True
      "[\<lparr>leg_entity = ''b'', leg_type = ''serving'', upstream = False\<rparr>]" "\<lambda>_. None" "\<lambda>_ _. {}"]
  show ?thesis by auto
qed

text \<open>
  Judging leg by leg covers the whole intermediate. When no leg of an intermediate has an
  offence, judged one at a time as each file declares it, all legs carry one type (where the rule
  demands it) and that type is permitted from every participant upstream to every other participant
  downstream (where the rule demands it), although no judgement looked at more than its own pairs.
\<close>

theorem clean_legs_cover_the_intermediate:
  assumes "\<forall>l \<in> set legs. mediation_offences m mid mid_type (leg_type l) (leg_entity l) (upstream l) legs
      type_of permitted_types = []"
  shows "(med_same_type m \<longrightarrow> (\<forall>l \<in> set legs. \<forall>k \<in> set legs. leg_type l = leg_type k)) \<and>
    (med_permitted_result m \<longrightarrow> (\<forall>u \<in> set legs. \<forall>d \<in> set legs.
       upstream u \<and> \<not> upstream d \<and> leg_entity u \<noteq> leg_entity d \<longrightarrow>
         may_join (leg_type u) type_of permitted_types (leg_entity u) (leg_entity d) \<and>
         may_join (leg_type d) type_of permitted_types (leg_entity u) (leg_entity d)))"
proof (intro conjI impI ballI)
  fix l k
  assume "med_same_type m" "l \<in> set legs" "k \<in> set legs"
  with assms show "leg_type l = leg_type k" unfolding mediation_offences_empty_iff by metis
next
  fix u d
  assume need: "med_permitted_result m" and legs: "u \<in> set legs" "d \<in> set legs"
    and sides: "upstream u \<and> \<not> upstream d \<and> leg_entity u \<noteq> leg_entity d"
  from assms legs(1) need have
    "\<forall>l \<in> set legs. upstream l \<noteq> upstream u \<and> leg_entity l \<noteq> leg_entity u \<longrightarrow>
       (if upstream u then may_join (leg_type u) type_of permitted_types (leg_entity u) (leg_entity l)
        else may_join (leg_type u) type_of permitted_types (leg_entity l) (leg_entity u))"
    unfolding mediation_offences_empty_iff by blast
  with legs(2) sides show "may_join (leg_type u) type_of permitted_types (leg_entity u) (leg_entity d)" by auto
  from assms legs(2) need have
    "\<forall>l \<in> set legs. upstream l \<noteq> upstream d \<and> leg_entity l \<noteq> leg_entity d \<longrightarrow>
       (if upstream d then may_join (leg_type d) type_of permitted_types (leg_entity d) (leg_entity l)
        else may_join (leg_type d) type_of permitted_types (leg_entity l) (leg_entity d))"
    unfolding mediation_offences_empty_iff by blast
  with legs(1) sides show "may_join (leg_type d) type_of permitted_types (leg_entity u) (leg_entity d)" by auto
qed

theorem clean_legs_cover_the_intermediate_witness:
  "may_join ''flow'' (\<lambda>_. Some ''process'') (\<lambda>_ _. {''flow''}) ''a'' ''b''"
proof -
  let ?legs = "[\<lparr>leg_entity = ''a'', leg_type = ''flow'', upstream = True\<rparr>,
    \<lparr>leg_entity = ''b'', leg_type = ''flow'', upstream = False\<rparr>]"
  have "\<forall>l \<in> set ?legs. mediation_offences junction_mediation ''J'' ''junction'' (leg_type l) (leg_entity l)
      (upstream l) ?legs (\<lambda>_. Some ''process'') (\<lambda>_ _. {''flow''}) = []"
    by (simp add: mediation_offences_empty_iff may_join_def)
  from clean_legs_cover_the_intermediate [OF this] show ?thesis by (simp add: junction_mediation_def)
qed

text \<open>
  It does not matter whether the leg under judgement is already among the legs: a leg about to be
  written, which the graph does not hold yet, and the same leg verified afterwards, when it does,
  get the same offences, and so does the leg under any order and repetition of the others.
\<close>

theorem offences_before_and_after_writing_agree:
  assumes "insert \<lparr>leg_entity = near, leg_type = carried, upstream = near_up\<rparr> (set legs) =
    insert \<lparr>leg_entity = near, leg_type = carried, upstream = near_up\<rparr> (set legs')"
  shows "mediation_offences m mid mid_type carried near near_up legs type_of permitted_types =
    mediation_offences m mid mid_type carried near near_up legs' type_of permitted_types"
  using assms by (simp add: mediation_offences_def known_legs_def)

theorem offences_before_and_after_writing_agree_witness:
  "let leg = \<lparr>leg_entity = ''a'', leg_type = ''flow'', upstream = True\<rparr>;
       other = \<lparr>leg_entity = ''b'', leg_type = ''serving'', upstream = False\<rparr> in
   mediation_offences junction_mediation ''J'' ''junction'' ''flow'' ''a'' True [other] (\<lambda>_. None) (\<lambda>_ _. {}) =
   mediation_offences junction_mediation ''J'' ''junction'' ''flow'' ''a'' True [other, leg, other] (\<lambda>_. None) (\<lambda>_ _. {})"
  unfolding Let_def by (rule offences_before_and_after_writing_agree) auto

end
