(* ===== verification/Concept_Scope.thy ===== *)
theory Concept_Scope
  imports Ontology_Types
begin

text \<open>
  Concept scopes: which entity and connection concepts a diagram type or viewpoint admits, and the
  intersection of two scopes (\<^verbatim>\<open>src/domain/concept_scope.py\<close>). \<^const>\<open>None\<close> is "unrestricted". The index of a
  hierarchy predicate is a position, so a natural number.
\<close>

section \<open>Scopes\<close>

record hierarchy_predicate =
  hp_index :: nat
  hp_values :: "string set"

definition hp_admits :: "hierarchy_predicate \<Rightarrow> entity_type_info \<Rightarrow> bool" where
  "hp_admits p info \<longleftrightarrow> hp_index p < length (hierarchy info) \<and> hierarchy info ! hp_index p \<in> hp_values p"

record endpoint_rule =
  er_connection_type :: "string option"
  er_source_types :: "string set option"
  er_target_types :: "string set option"

definition applies_to :: "endpoint_rule \<Rightarrow> string \<Rightarrow> bool" where
  "applies_to rule ctype \<longleftrightarrow> er_connection_type rule = None \<or> er_connection_type rule = Some ctype"

definition rule_admits :: "endpoint_rule \<Rightarrow> string \<Rightarrow> string \<Rightarrow> string \<Rightarrow> bool" where
  "rule_admits rule src tgt ctype =
     (if \<not> applies_to rule ctype then False
      else if er_source_types rule \<noteq> None \<and> src \<notin> the (er_source_types rule) then False
      else er_target_types rule = None \<or> tgt \<in> the (er_target_types rule))"

record concept_scope =
  sc_entity_types :: "string set option"
  sc_class_predicates :: "string set list"
  sc_hierarchy_predicates :: "hierarchy_predicate list"
  sc_connection_types :: "string set option"
  sc_endpoint_rules :: "endpoint_rule list"
  sc_excluded_entity_types :: "string set"
  sc_excluded_hierarchy :: "hierarchy_predicate list"
  sc_excluded_connection_types :: "string set"

definition unrestricted :: concept_scope where
  "unrestricted =
     \<lparr>sc_entity_types = None, sc_class_predicates = [], sc_hierarchy_predicates = [],
      sc_connection_types = None, sc_endpoint_rules = [], sc_excluded_entity_types = {},
      sc_excluded_hierarchy = [], sc_excluded_connection_types = {}\<rparr>"

definition entity_excluded :: "concept_scope \<Rightarrow> string \<Rightarrow> entity_type_info option \<Rightarrow> bool" where
  "entity_excluded sc t info =
     (if t \<in> sc_excluded_entity_types sc then True
      else (case info of
              None \<Rightarrow> False
            | Some i \<Rightarrow> \<exists>p \<in> set (sc_excluded_hierarchy sc). hp_admits p i))"

definition admits_entity_type :: "concept_scope \<Rightarrow> string \<Rightarrow> entity_type_info option \<Rightarrow> bool" where
  "admits_entity_type sc t info =
     (if sc_entity_types sc \<noteq> None \<and> t \<notin> the (sc_entity_types sc) then False
      else if (sc_class_predicates sc \<noteq> [] \<or> sc_hierarchy_predicates sc \<noteq> []) \<and>
        (case info of
           None \<Rightarrow> True
         | Some i \<Rightarrow> (\<exists>cs \<in> set (sc_class_predicates sc). cs \<inter> set (etype_classes i) = {}) \<or>
             \<not> (\<forall>p \<in> set (sc_hierarchy_predicates sc). hp_admits p i))
      then False
      else \<not> entity_excluded sc t info)"

definition admits_connection_type :: "concept_scope \<Rightarrow> string \<Rightarrow> bool" where
  "admits_connection_type sc ctype =
     (if sc_connection_types sc \<noteq> None \<and> ctype \<notin> the (sc_connection_types sc) then False
      else ctype \<notin> sc_excluded_connection_types sc)"

definition admits_connection :: "concept_scope \<Rightarrow> string \<Rightarrow> string \<Rightarrow> string \<Rightarrow> bool" where
  "admits_connection sc src tgt ctype =
     (if sc_entity_types sc \<noteq> None \<and>
        (src \<notin> the (sc_entity_types sc) \<or> tgt \<notin> the (sc_entity_types sc)) then False
      else if entity_excluded sc src None \<or> entity_excluded sc tgt None then False
      else if \<not> admits_connection_type sc ctype then False
      else let applicable = filter (\<lambda>r. applies_to r ctype) (sc_endpoint_rules sc) in
        if applicable = [] then True
        else \<exists>r \<in> set applicable. rule_admits r src tgt ctype)"

definition admitted_entity_types ::
    "concept_scope \<Rightarrow> (string \<times> entity_type_info) list \<Rightarrow> (string \<times> entity_type_info) list" where
  "admitted_entity_types sc candidates = filter (\<lambda>(t, info). admits_entity_type sc t (Some info)) candidates"

definition admitted_connection_types :: "concept_scope \<Rightarrow> (string \<times> 'a) list \<Rightarrow> (string \<times> 'a) list" where
  "admitted_connection_types sc candidates = filter (\<lambda>(t, _). admits_connection_type sc t) candidates"

section \<open>Intersection\<close>

definition intersect_optional :: "'a set option \<Rightarrow> 'a set option \<Rightarrow> 'a set option" where
  "intersect_optional l r =
     (case l of None \<Rightarrow> r | Some a \<Rightarrow> (case r of None \<Rightarrow> Some a | Some b \<Rightarrow> Some (a \<inter> b)))"

fun merge_predicates :: "(nat \<times> string set) list \<Rightarrow> hierarchy_predicate list \<Rightarrow> (nat \<times> string set) list" where
  "merge_predicates by_index [] = by_index"
| "merge_predicates by_index (p # ps) =
     (case map_of by_index (hp_index p) of
        None \<Rightarrow> merge_predicates (by_index @ [(hp_index p, hp_values p)]) ps
      | Some vs \<Rightarrow> merge_predicates
          (map (\<lambda>(i, v). (i, if i = hp_index p then vs \<inter> hp_values p else v)) by_index) ps)"

definition intersect_hierarchy_predicates ::
    "hierarchy_predicate list \<Rightarrow> hierarchy_predicate list \<Rightarrow> hierarchy_predicate list" where
  "intersect_hierarchy_predicates l r =
     map (\<lambda>(i, vs). \<lparr>hp_index = i, hp_values = vs\<rparr>) (merge_predicates [] (l @ r))"

definition combine_connection_type :: "string option \<Rightarrow> string option \<Rightarrow> bool \<times> string option" where
  "combine_connection_type l r =
     (if l = None then (True, r) else if r = None \<or> l = r then (True, l) else (False, None))"

definition combine_endpoint_rule :: "endpoint_rule \<Rightarrow> endpoint_rule \<Rightarrow> endpoint_rule option" where
  "combine_endpoint_rule l r =
     (case combine_connection_type (er_connection_type l) (er_connection_type r) of
        (False, _) \<Rightarrow> None
      | (True, ctype) \<Rightarrow>
          let srcs = intersect_optional (er_source_types l) (er_source_types r);
              tgts = intersect_optional (er_target_types l) (er_target_types r) in
          if srcs = Some {} \<or> tgts = Some {} then None
          else Some \<lparr>er_connection_type = ctype, er_source_types = srcs, er_target_types = tgts\<rparr>)"

definition rule_can_apply :: "endpoint_rule \<Rightarrow> string set option \<Rightarrow> bool" where
  "rule_can_apply rule ctypes \<longleftrightarrow>
     ctypes = None \<or> er_connection_type rule = None \<or> the (er_connection_type rule) \<in> the ctypes"

definition intersect_endpoint_rules ::
    "endpoint_rule list \<Rightarrow> endpoint_rule list \<Rightarrow> string set option \<Rightarrow> endpoint_rule list" where
  "intersect_endpoint_rules l r ctypes =
     (if l = [] then filter (\<lambda>rule. rule_can_apply rule ctypes) r
      else if r = [] then filter (\<lambda>rule. rule_can_apply rule ctypes) l
      else filter (\<lambda>rule. rule_can_apply rule ctypes)
        (concat (map (\<lambda>a. List.map_filter (combine_endpoint_rule a) r) l)))"

definition intersect_scopes :: "concept_scope \<Rightarrow> concept_scope \<Rightarrow> concept_scope" where
  "intersect_scopes a b =
     \<lparr>sc_entity_types = intersect_optional (sc_entity_types a) (sc_entity_types b),
      sc_class_predicates = sc_class_predicates a @ sc_class_predicates b,
      sc_hierarchy_predicates =
        intersect_hierarchy_predicates (sc_hierarchy_predicates a) (sc_hierarchy_predicates b),
      sc_connection_types = intersect_optional (sc_connection_types a) (sc_connection_types b),
      sc_endpoint_rules = intersect_endpoint_rules (sc_endpoint_rules a) (sc_endpoint_rules b)
        (intersect_optional (sc_connection_types a) (sc_connection_types b)),
      sc_excluded_entity_types = sc_excluded_entity_types a \<union> sc_excluded_entity_types b,
      sc_excluded_hierarchy = sc_excluded_hierarchy a @ sc_excluded_hierarchy b,
      sc_excluded_connection_types = sc_excluded_connection_types a \<union> sc_excluded_connection_types b\<rparr>"

section \<open>Optional sets\<close>

definition in_optional :: "'a \<Rightarrow> 'a set option \<Rightarrow> bool" where
  "in_optional x s \<longleftrightarrow> (case s of None \<Rightarrow> True | Some a \<Rightarrow> x \<in> a)"

lemma in_intersect_optional [simp]:
  "in_optional x (intersect_optional a b) \<longleftrightarrow> in_optional x a \<and> in_optional x b"
  by (auto simp: in_optional_def intersect_optional_def split: option.splits)

lemma not_in_optional: "s \<noteq> None \<and> x \<notin> the s \<longleftrightarrow> \<not> in_optional x s"
  by (auto simp: in_optional_def split: option.splits)

lemma in_optional_alt: "s = None \<or> x \<in> the s \<longleftrightarrow> in_optional x s"
  by (auto simp: in_optional_def split: option.splits)

section \<open>Entities\<close>

definition holds_all :: "(nat \<times> string set) list \<Rightarrow> entity_type_info \<Rightarrow> bool" where
  "holds_all by_index i \<longleftrightarrow> (\<forall>(k, vs) \<in> set by_index. k < length (hierarchy i) \<and> hierarchy i ! k \<in> vs)"

lemma holds_all_narrow:
  assumes "distinct (map fst d)" and "map_of d k = Some vs"
  shows "holds_all (map (\<lambda>(i, v). (i, if i = k then vs \<inter> ws else v)) d) info \<longleftrightarrow>
    holds_all d info \<and> k < length (hierarchy info) \<and> hierarchy info ! k \<in> ws"
proof -
  have eq: "v = vs" if "(k, v) \<in> set d" for v
    using assms that by (metis map_of_eq_Some_iff option.inject)
  have mem: "(k, vs) \<in> set d" using assms(2) by (rule map_of_SomeD)
  show ?thesis
  proof
    assume all: "holds_all (map (\<lambda>(i, v). (i, if i = k then vs \<inter> ws else v)) d) info"
    have each: "i < length (hierarchy info) \<and> hierarchy info ! i \<in> (if i = k then vs \<inter> ws else v)"
      if "(i, v) \<in> set d" for i v
      using all that by (force simp: holds_all_def)
    have "i < length (hierarchy info) \<and> hierarchy info ! i \<in> v" if "(i, v) \<in> set d" for i v
      using each [OF that] eq [of v] that by (cases "i = k") auto
    with each [OF mem] show "holds_all d info \<and> k < length (hierarchy info) \<and> hierarchy info ! k \<in> ws"
      by (auto simp: holds_all_def)
  next
    assume "holds_all d info \<and> k < length (hierarchy info) \<and> hierarchy info ! k \<in> ws"
    with mem show "holds_all (map (\<lambda>(i, v). (i, if i = k then vs \<inter> ws else v)) d) info"
      by (auto simp: holds_all_def)
  qed
qed

lemma merge_predicates_holds:
  "distinct (map fst d) \<Longrightarrow>
   holds_all (merge_predicates d ps) i \<longleftrightarrow> holds_all d i \<and> (\<forall>p \<in> set ps. hp_admits p i)"
proof (induction d ps rule: merge_predicates.induct)
  case (1 by_index)
  then show ?case by simp
next
  case (2 by_index p ps)
  show ?case
  proof (cases "map_of by_index (hp_index p)")
    case None
    then have "distinct (map fst (by_index @ [(hp_index p, hp_values p)]))"
      using "2.prems" by (auto simp: map_of_eq_None_iff)
    with "2.IH"(1) [OF None] None show ?thesis
      by (auto simp: holds_all_def hp_admits_def)
  next
    case (Some vs)
    let ?narrowed = "map (\<lambda>(i, v). (i, if i = hp_index p then vs \<inter> hp_values p else v)) by_index"
    have "map fst ?narrowed = map fst by_index" by (induction by_index) auto
    then have "distinct (map fst ?narrowed)" using "2.prems" by (simp only:)
    then have "holds_all (merge_predicates ?narrowed ps) i \<longleftrightarrow>
        holds_all ?narrowed i \<and> (\<forall>p \<in> set ps. hp_admits p i)"
      by (rule "2.IH"(2) [OF Some])
    moreover have "merge_predicates by_index (p # ps) = merge_predicates ?narrowed ps"
      using Some by simp
    moreover note holds_all_narrow [OF "2.prems" Some, of "hp_values p" i]
    ultimately have "holds_all (merge_predicates by_index (p # ps)) i \<longleftrightarrow>
        (holds_all by_index i \<and> hp_admits p i) \<and> (\<forall>p \<in> set ps. hp_admits p i)"
      by (simp only: hp_admits_def)
    then show ?thesis unfolding list.set ball_simps by blast
  qed
qed

lemma intersect_hierarchy_admits:
  "(\<forall>p \<in> set (intersect_hierarchy_predicates l r). hp_admits p i) \<longleftrightarrow>
   (\<forall>p \<in> set l. hp_admits p i) \<and> (\<forall>p \<in> set r. hp_admits p i)"
proof -
  have "(\<forall>p \<in> set (intersect_hierarchy_predicates l r). hp_admits p i) \<longleftrightarrow>
      holds_all (merge_predicates [] (l @ r)) i"
    by (force simp: intersect_hierarchy_predicates_def holds_all_def hp_admits_def)
  moreover have "holds_all [] i" by (simp add: holds_all_def)
  ultimately show ?thesis by (auto simp: merge_predicates_holds)
qed

lemma merge_predicates_grows: "length d \<le> length (merge_predicates d ps)"
proof (induction d ps rule: merge_predicates.induct)
  case (2 by_index p ps)
  then show ?case by (auto split: option.splits)
qed simp

lemma intersect_hierarchy_empty [simp]:
  "intersect_hierarchy_predicates l r = [] \<longleftrightarrow> l = [] \<and> r = []"
proof -
  have "merge_predicates [] ps = [] \<longleftrightarrow> ps = []" for ps
  proof (cases ps)
    case (Cons p qs)
    have "1 \<le> length (merge_predicates [(hp_index p, hp_values p)] qs)"
      using merge_predicates_grows [of "[(hp_index p, hp_values p)]" qs] by simp
    with Cons show ?thesis by auto
  qed simp
  then show ?thesis by (auto simp: intersect_hierarchy_predicates_def)
qed

lemma admits_entity_type_iff:
  "admits_entity_type sc t info \<longleftrightarrow>
     in_optional t (sc_entity_types sc) \<and>
     (case info of
        None \<Rightarrow> sc_class_predicates sc = [] \<and> sc_hierarchy_predicates sc = []
      | Some i \<Rightarrow> (\<forall>cs \<in> set (sc_class_predicates sc). cs \<inter> set (etype_classes i) \<noteq> {}) \<and>
          (\<forall>p \<in> set (sc_hierarchy_predicates sc). hp_admits p i)) \<and>
     \<not> entity_excluded sc t info"
  unfolding admits_entity_type_def not_in_optional by (cases info) auto

lemma entity_excluded_intersect:
  "entity_excluded (intersect_scopes a b) t info \<longleftrightarrow> entity_excluded a t info \<or> entity_excluded b t info"
  by (cases info) (auto simp: entity_excluded_def intersect_scopes_def)

lemma admits_entity_type_intersect:
  "admits_entity_type (intersect_scopes a b) t info \<longleftrightarrow>
     admits_entity_type a t info \<and> admits_entity_type b t info"
proof (cases info)
  case None
  then show ?thesis
    by (auto simp: admits_entity_type_iff entity_excluded_intersect) (auto simp: intersect_scopes_def)
next
  case (Some i)
  have "(\<forall>p \<in> set (sc_hierarchy_predicates (intersect_scopes a b)). hp_admits p i) \<longleftrightarrow>
      (\<forall>p \<in> set (sc_hierarchy_predicates a). hp_admits p i) \<and>
      (\<forall>p \<in> set (sc_hierarchy_predicates b). hp_admits p i)"
    by (simp add: intersect_scopes_def intersect_hierarchy_admits)
  moreover have "sc_class_predicates (intersect_scopes a b) = sc_class_predicates a @ sc_class_predicates b"
    "sc_entity_types (intersect_scopes a b) = intersect_optional (sc_entity_types a) (sc_entity_types b)"
    by (simp_all add: intersect_scopes_def)
  ultimately show ?thesis
    by (auto simp: admits_entity_type_iff entity_excluded_intersect Some)
qed

lemma admits_connection_type_iff:
  "admits_connection_type sc c \<longleftrightarrow>
     in_optional c (sc_connection_types sc) \<and> c \<notin> sc_excluded_connection_types sc"
  unfolding admits_connection_type_def not_in_optional by simp

lemma admits_connection_type_intersect:
  "admits_connection_type (intersect_scopes a b) c \<longleftrightarrow>
     admits_connection_type a c \<and> admits_connection_type b c"
  unfolding admits_connection_type_iff by (auto simp: intersect_scopes_def)

section \<open>Connections\<close>

definition rules_admit :: "endpoint_rule list \<Rightarrow> string \<Rightarrow> string \<Rightarrow> string \<Rightarrow> bool" where
  "rules_admit rules src tgt c \<longleftrightarrow>
     (\<forall>r \<in> set rules. \<not> applies_to r c) \<or> (\<exists>r \<in> set rules. rule_admits r src tgt c)"

lemma rule_admits_iff:
  "rule_admits r src tgt c \<longleftrightarrow>
     applies_to r c \<and> in_optional src (er_source_types r) \<and> in_optional tgt (er_target_types r)"
  unfolding rule_admits_def not_in_optional in_optional_alt by auto

lemma admits_connection_iff:
  "admits_connection sc src tgt c \<longleftrightarrow>
     in_optional src (sc_entity_types sc) \<and> in_optional tgt (sc_entity_types sc) \<and>
     \<not> entity_excluded sc src None \<and> \<not> entity_excluded sc tgt None \<and>
     admits_connection_type sc c \<and> rules_admit (sc_endpoint_rules sc) src tgt c"
proof -
  have guard: "sc_entity_types sc \<noteq> None \<and>
      (src \<notin> the (sc_entity_types sc) \<or> tgt \<notin> the (sc_entity_types sc)) \<longleftrightarrow>
      \<not> (in_optional src (sc_entity_types sc) \<and> in_optional tgt (sc_entity_types sc))"
    by (auto simp: in_optional_def split: option.splits)
  have rules: "(let applicable = filter (\<lambda>r. applies_to r c) rules in
      if applicable = [] then True else \<exists>r \<in> set applicable. rule_admits r src tgt c) \<longleftrightarrow>
      rules_admit rules src tgt c" for rules
    by (auto simp: rules_admit_def filter_empty_conv rule_admits_iff)
  show ?thesis unfolding admits_connection_def guard rules by auto
qed

definition combined_rules :: "concept_scope \<Rightarrow> concept_scope \<Rightarrow> endpoint_rule list" where
  "combined_rules a b = sc_endpoint_rules (intersect_scopes a b)"

lemma combine_endpoint_rule_iff:
  assumes "combine_endpoint_rule l r = Some q"
  shows "applies_to q c \<longleftrightarrow> applies_to l c \<and> applies_to r c"
    and "rule_admits q src tgt c \<longleftrightarrow> rule_admits l src tgt c \<and> rule_admits r src tgt c"
proof -
  have fields: "er_source_types q = intersect_optional (er_source_types l) (er_source_types r)"
    "er_target_types q = intersect_optional (er_target_types l) (er_target_types r)"
    "combine_connection_type (er_connection_type l) (er_connection_type r) = (True, er_connection_type q)"
    using assms by (auto simp: combine_endpoint_rule_def Let_def split: prod.splits bool.splits if_splits)
  show app: "applies_to q c \<longleftrightarrow> applies_to l c \<and> applies_to r c"
    using fields(3) by (auto simp: combine_connection_type_def applies_to_def split: if_splits)
  show "rule_admits q src tgt c \<longleftrightarrow> rule_admits l src tgt c \<and> rule_admits r src tgt c"
    unfolding rule_admits_iff app fields(1,2) by auto
qed

lemma combine_endpoint_rule_exists:
  assumes "rule_admits l src tgt c" and "rule_admits r src tgt c"
  shows "\<exists>q. combine_endpoint_rule l r = Some q"
proof -
  have src: "in_optional src (intersect_optional (er_source_types l) (er_source_types r))"
    and tgt: "in_optional tgt (intersect_optional (er_target_types l) (er_target_types r))"
    and app: "applies_to l c" "applies_to r c"
    using assms by (simp_all add: rule_admits_iff)
  have "intersect_optional (er_source_types l) (er_source_types r) \<noteq> Some {}"
    "intersect_optional (er_target_types l) (er_target_types r) \<noteq> Some {}"
    using src tgt by (auto simp: in_optional_def)
  moreover have "fst (combine_connection_type (er_connection_type l) (er_connection_type r))"
    using app by (auto simp: combine_connection_type_def applies_to_def)
  ultimately show ?thesis
    by (auto simp: combine_endpoint_rule_def Let_def split: prod.splits bool.splits)
qed

lemma can_apply_of_admitted:
  assumes "in_optional c ctypes" and "applies_to rule c"
  shows "rule_can_apply rule ctypes"
  using assms by (auto simp: rule_can_apply_def applies_to_def in_optional_def split: option.splits)

lemma combined_rules_both:
  assumes "sc_endpoint_rules a \<noteq> []" and "sc_endpoint_rules b \<noteq> []"
  shows "q \<in> set (combined_rules a b) \<longleftrightarrow>
    rule_can_apply q (intersect_optional (sc_connection_types a) (sc_connection_types b)) \<and>
    (\<exists>l \<in> set (sc_endpoint_rules a). \<exists>r \<in> set (sc_endpoint_rules b). combine_endpoint_rule l r = Some q)"
  using assms
  by (auto simp: combined_rules_def intersect_scopes_def intersect_endpoint_rules_def set_map_filter)

lemma rules_admit_one_side:
  assumes "sc_endpoint_rules a = [] \<or> sc_endpoint_rules b = []"
    and "in_optional c (sc_connection_types a)" and "in_optional c (sc_connection_types b)"
  shows "rules_admit (combined_rules a b) src tgt c \<longleftrightarrow>
    rules_admit (sc_endpoint_rules a) src tgt c \<and> rules_admit (sc_endpoint_rules b) src tgt c"
proof -
  let ?ct = "intersect_optional (sc_connection_types a) (sc_connection_types b)"
  have ct: "in_optional c ?ct" using assms(2,3) by simp
  have filtered: "rules_admit (filter (\<lambda>r. rule_can_apply r ?ct) rs) src tgt c \<longleftrightarrow> rules_admit rs src tgt c" for rs
    using can_apply_of_admitted [OF ct] by (auto simp: rules_admit_def rule_admits_iff)
  have none: "rules_admit [] src tgt c" by (simp add: rules_admit_def)
  show ?thesis
    using assms(1) filtered none
    by (auto simp: combined_rules_def intersect_scopes_def intersect_endpoint_rules_def)
qed

lemma rules_admit_both_sides:
  assumes "sc_endpoint_rules a \<noteq> []" and "sc_endpoint_rules b \<noteq> []"
    and "\<exists>q \<in> set (combined_rules a b). applies_to q c"
    and "in_optional c (sc_connection_types a)" and "in_optional c (sc_connection_types b)"
  shows "rules_admit (combined_rules a b) src tgt c \<longleftrightarrow>
    rules_admit (sc_endpoint_rules a) src tgt c \<and> rules_admit (sc_endpoint_rules b) src tgt c"
proof -
  note combined = combined_rules_both [OF assms(1,2)]
  obtain l r where lr: "l \<in> set (sc_endpoint_rules a)" "r \<in> set (sc_endpoint_rules b)"
    "applies_to l c" "applies_to r c"
    using assms(3) combined combine_endpoint_rule_iff(1) by blast
  show ?thesis
  proof
    assume "rules_admit (combined_rules a b) src tgt c"
    with assms(3) obtain q where "q \<in> set (combined_rules a b)" "rule_admits q src tgt c"
      by (auto simp: rules_admit_def)
    then show "rules_admit (sc_endpoint_rules a) src tgt c \<and> rules_admit (sc_endpoint_rules b) src tgt c"
      using combined combine_endpoint_rule_iff(2) unfolding rules_admit_def by blast
  next
    assume "rules_admit (sc_endpoint_rules a) src tgt c \<and> rules_admit (sc_endpoint_rules b) src tgt c"
    with lr obtain l' r' where l': "l' \<in> set (sc_endpoint_rules a)" "rule_admits l' src tgt c"
      and r': "r' \<in> set (sc_endpoint_rules b)" "rule_admits r' src tgt c"
      unfolding rules_admit_def by blast
    obtain q where q: "combine_endpoint_rule l' r' = Some q"
      using combine_endpoint_rule_exists [OF l'(2) r'(2)] by blast
    have admits: "rule_admits q src tgt c" using combine_endpoint_rule_iff(2) [OF q] l' r' by blast
    then have "rule_can_apply q (intersect_optional (sc_connection_types a) (sc_connection_types b))"
      using assms(4,5) by (intro can_apply_of_admitted) (auto simp: rule_admits_iff)
    with q l'(1) r'(1) combined have "q \<in> set (combined_rules a b)" by blast
    with admits show "rules_admit (combined_rules a b) src tgt c" unfolding rules_admit_def by blast
  qed
qed

lemma admits_connection_intersect:
  "admits_connection (intersect_scopes a b) src tgt c \<longleftrightarrow>
     in_optional src (sc_entity_types a) \<and> in_optional src (sc_entity_types b) \<and>
     in_optional tgt (sc_entity_types a) \<and> in_optional tgt (sc_entity_types b) \<and>
     \<not> entity_excluded a src None \<and> \<not> entity_excluded b src None \<and>
     \<not> entity_excluded a tgt None \<and> \<not> entity_excluded b tgt None \<and>
     admits_connection_type a c \<and> admits_connection_type b c \<and>
     rules_admit (combined_rules a b) src tgt c"
proof -
  have "sc_entity_types (intersect_scopes a b) = intersect_optional (sc_entity_types a) (sc_entity_types b)"
    by (simp add: intersect_scopes_def)
  then show ?thesis
    unfolding admits_connection_iff entity_excluded_intersect admits_connection_type_intersect
      combined_rules_def by auto
qed

section \<open>Properties\<close>

text \<open>
  The intersection of two scopes is exact on entity types and on connection types: it admits a
  type, with or without its metadata at hand, exactly when both scopes admit it, whatever mix of
  allow-lists, class and hierarchy predicates and exclusions they use. In particular an exclusion of
  either side survives.
\<close>

theorem scope_intersection_exact_on_types:
  "(admits_entity_type (intersect_scopes a b) t info \<longleftrightarrow>
      admits_entity_type a t info \<and> admits_entity_type b t info) \<and>
   (admits_connection_type (intersect_scopes a b) c \<longleftrightarrow>
      admits_connection_type a c \<and> admits_connection_type b c) \<and>
   set (admitted_entity_types (intersect_scopes a b) candidates) =
     set (admitted_entity_types a candidates) \<inter> set (admitted_entity_types b candidates)"
  by (auto simp: admitted_entity_types_def admits_entity_type_intersect admits_connection_type_intersect)

text \<open>
  On connections the intersection is exact as long as endpoint rules meet: when one of the two
  scopes has no endpoint rules, or when some combined rule applies to the connection type, the
  intersection admits a connection exactly when both scopes do. It never refuses a connection that
  both admit.
\<close>

theorem scope_intersection_on_connections:
  "(admits_connection a src tgt c \<and> admits_connection b src tgt c \<longrightarrow>
      admits_connection (intersect_scopes a b) src tgt c) \<and>
   ((sc_endpoint_rules a = [] \<or> sc_endpoint_rules b = [] \<or>
      (\<exists>q \<in> set (sc_endpoint_rules (intersect_scopes a b)). applies_to q c)) \<longrightarrow>
      (admits_connection (intersect_scopes a b) src tgt c \<longleftrightarrow>
       admits_connection a src tgt c \<and> admits_connection b src tgt c))"
proof -
  have exact: "admits_connection (intersect_scopes a b) src tgt c \<longleftrightarrow>
      admits_connection a src tgt c \<and> admits_connection b src tgt c"
    if meet: "sc_endpoint_rules a = [] \<or> sc_endpoint_rules b = [] \<or>
      (\<exists>q \<in> set (combined_rules a b). applies_to q c)"
  proof (cases "in_optional c (sc_connection_types a) \<and> in_optional c (sc_connection_types b)")
    case True
    then have "rules_admit (combined_rules a b) src tgt c \<longleftrightarrow>
        rules_admit (sc_endpoint_rules a) src tgt c \<and> rules_admit (sc_endpoint_rules b) src tgt c"
      using meet rules_admit_one_side [of a b c src tgt] rules_admit_both_sides [of a b c src tgt] by blast
    then show ?thesis unfolding admits_connection_intersect unfolding admits_connection_iff by blast
  next
    case False
    then show ?thesis
      unfolding admits_connection_intersect unfolding admits_connection_iff admits_connection_type_iff by blast
  qed
  have "admits_connection (intersect_scopes a b) src tgt c"
    if "admits_connection a src tgt c \<and> admits_connection b src tgt c"
      and "\<not> (\<exists>q \<in> set (combined_rules a b). applies_to q c)"
    using that unfolding admits_connection_intersect unfolding admits_connection_iff rules_admit_def by blast
  with exact show ?thesis unfolding combined_rules_def by blast
qed

definition rule_for :: "string \<Rightarrow> string \<Rightarrow> endpoint_rule" where
  "rule_for c src = \<lparr>er_connection_type = Some c, er_source_types = Some {src}, er_target_types = None\<rparr>"

theorem scope_intersection_on_connections_witness:
  "admits_connection (intersect_scopes
     (unrestricted\<lparr>sc_endpoint_rules := [rule_for ''flow'' ''process'']\<rparr>) unrestricted) ''process'' ''role'' ''flow'' \<and>
   \<not> admits_connection (intersect_scopes
     (unrestricted\<lparr>sc_endpoint_rules := [rule_for ''flow'' ''process'']\<rparr>) unrestricted) ''role'' ''process'' ''flow''"
proof -
  let ?a = "unrestricted\<lparr>sc_endpoint_rules := [rule_for ''flow'' ''process'']\<rparr>"
  have none: "sc_endpoint_rules unrestricted = []" by (simp add: unrestricted_def)
  have "admits_connection ?a ''process'' ''role'' ''flow''" "\<not> admits_connection ?a ''role'' ''process'' ''flow''"
    "admits_connection unrestricted ''process'' ''role'' ''flow''"
    by (simp_all add: admits_connection_def unrestricted_def entity_excluded_def admits_connection_type_def
        rule_for_def applies_to_def rule_admits_def)
  with scope_intersection_on_connections [of ?a "''process''" "''role''" "''flow''" unrestricted]
    scope_intersection_on_connections [of ?a "''role''" "''process''" "''flow''" unrestricted] none
  show ?thesis by blast
qed

text \<open>
  Where endpoint rules do not meet, the intersection loses them. Two scopes that each restrict
  the sources of the same connection type, to different entity types, have no connection in common;
  their intersection has no endpoint rule left and admits that connection type between any two
  entity types.
\<close>

theorem disjoint_endpoint_rules_intersect_to_everything:
  assumes "p \<noteq> q"
  shows "\<not> (admits_connection (unrestricted\<lparr>sc_endpoint_rules := [rule_for c p]\<rparr>) src tgt c \<and>
            admits_connection (unrestricted\<lparr>sc_endpoint_rules := [rule_for c q]\<rparr>) src tgt c) \<and>
    admits_connection (intersect_scopes (unrestricted\<lparr>sc_endpoint_rules := [rule_for c p]\<rparr>)
      (unrestricted\<lparr>sc_endpoint_rules := [rule_for c q]\<rparr>)) src tgt c"
proof -
  have "combine_endpoint_rule (rule_for c p) (rule_for c q) = None"
    using assms by (simp add: combine_endpoint_rule_def combine_connection_type_def rule_for_def
        intersect_optional_def)
  then have "combined_rules (unrestricted\<lparr>sc_endpoint_rules := [rule_for c p]\<rparr>)
      (unrestricted\<lparr>sc_endpoint_rules := [rule_for c q]\<rparr>) = []"
    by (simp add: combined_rules_def intersect_scopes_def intersect_endpoint_rules_def map_filter_simps)
  then show ?thesis
    using assms
    by (simp add: admits_connection_intersect)
      (auto simp: admits_connection_iff rules_admit_def rule_admits_iff applies_to_def rule_for_def
        in_optional_def entity_excluded_def admits_connection_type_iff unrestricted_def)
qed

theorem disjoint_endpoint_rules_intersect_to_everything_witness:
  "admits_connection (intersect_scopes
     (unrestricted\<lparr>sc_endpoint_rules := [rule_for ''flow'' ''process'']\<rparr>)
     (unrestricted\<lparr>sc_endpoint_rules := [rule_for ''flow'' ''event'']\<rparr>)) ''role'' ''role'' ''flow''"
  using disjoint_endpoint_rules_intersect_to_everything [of "''process''" "''event''" "''flow''" "''role''" "''role''"]
  by simp

end
