(* ===== verification/Change_Records.thy ===== *)
theory Change_Records
  imports Py_Values
begin

text \<open>
  Two closed records of the proposed-change workflow and their wire form: how far a submission has
  got (\<^verbatim>\<open>src/domain/submission_phase.py\<close>) and how an artifact stands to the enterprise baseline
  (\<^verbatim>\<open>src/domain/baseline_standing.py\<close>). The dataclass constructors with their \<^verbatim>\<open>__post_init__\<close> checks
  are the functions \<open>mk_intent\<close> and \<open>mk_proposed\<close>; a refused construction is the left summand.
\<close>

section \<open>What an encoding promises\<close>

locale codec =
  fixes valid :: "'a \<Rightarrow> bool"
    and encode :: "'a \<Rightarrow> payload"
    and decode :: "payload \<Rightarrow> ('e, 'a) result"
  assumes decode_encode: "valid x \<Longrightarrow> decode (encode x) = Inr x"
    and decode_valid: "decode p = Inr x \<Longrightarrow> valid x"
begin

lemma encode_inj: "\<lbrakk>valid x; valid y; encode x = encode y\<rbrakk> \<Longrightarrow> x = y"
  by (metis decode_encode sum.inject(2))

lemma reencode: "decode p = Inr x \<Longrightarrow> decode (encode x) = decode p"
  using decode_encode decode_valid by simp

lemma round_trip_iff: "decode (encode x) = Inr x \<longleftrightarrow> valid x"
  using decode_encode decode_valid by blast

end

section \<open>Submission phases\<close>

datatype submission_error =
    NoProposedChange
  | ChangeNamedTwice "string list"
  | NoBranch
  | NoExpectedCommit
  | NotAnOrderedList string
  | StampMissing string
  | NotASubmissionPhase pyval

record submission_intent =
  proposal_ids :: "string list"
  branch :: string
  expected_commit :: string

datatype submission_phase =
    PreparedSubmission (intent: submission_intent)
  | PushedSubmission (intent: submission_intent) (pushed_at: string)
  | CompletedSubmission (intent: submission_intent) (pushed_at: string) (submitted_at: string)

definition PREPARED :: string where "PREPARED = ''prepared''"
definition PUSHED :: string where "PUSHED = ''pushed''"
definition SUBMITTED :: string where "SUBMITTED = ''submitted''"

definition UNRESOLVED :: "string list" where
  "UNRESOLVED = [PREPARED, PUSHED]"

fun phase_name :: "submission_phase \<Rightarrow> string" where
  "phase_name (PreparedSubmission i) = PREPARED"
| "phase_name (PushedSubmission i t) = PUSHED"
| "phase_name (CompletedSubmission i t u) = SUBMITTED"

definition blank :: "string \<Rightarrow> bool" where
  "blank s \<longleftrightarrow> py_strip s = []"

definition validate_proposal_ids :: "string list \<Rightarrow> (submission_error, unit) result" where
  "validate_proposal_ids ids =
     bind_result (raise_if (ids = []) NoProposedChange) (\<lambda>_.
       raise_if (card (set ids) \<noteq> length ids) (ChangeNamedTwice ids))"

definition mk_intent :: "string list \<Rightarrow> string \<Rightarrow> string \<Rightarrow> (submission_error, submission_intent) result" where
  "mk_intent ids br commit =
     bind_result (validate_proposal_ids ids) (\<lambda>_.
     bind_result (raise_if (blank br) NoBranch) (\<lambda>_.
     bind_result (raise_if (blank commit) NoExpectedCommit) (\<lambda>_.
       Ok \<lparr>proposal_ids = ids, branch = br, expected_commit = commit\<rparr>)))"

definition intent_to_mapping :: "submission_intent \<Rightarrow> payload" where
  "intent_to_mapping i =
     [(''proposal_ids'', PList (map PStr (proposal_ids i))), (''branch'', PStr (branch i)),
      (''expected_commit'', PStr (expected_commit i))]"

text \<open>The two transitions: methods of the arm they leave.\<close>

definition pushed :: "submission_intent \<Rightarrow> string \<Rightarrow> submission_phase" where
  "pushed i at_time = PushedSubmission i at_time"

definition submitted :: "submission_intent \<Rightarrow> string \<Rightarrow> string \<Rightarrow> submission_phase" where
  "submitted i was_pushed at_time = CompletedSubmission i was_pushed at_time"

fun submission_to_mapping :: "submission_phase \<Rightarrow> payload" where
  "submission_to_mapping (PreparedSubmission i) = (''phase'', PStr PREPARED) # intent_to_mapping i"
| "submission_to_mapping (PushedSubmission i t) =
     (''phase'', PStr PUSHED) # (''pushed_at'', PStr t) # intent_to_mapping i"
| "submission_to_mapping (CompletedSubmission i t u) =
     (''phase'', PStr SUBMITTED) # (''pushed_at'', PStr t) # (''submitted_at'', PStr u) # intent_to_mapping i"

definition change_ids :: "payload \<Rightarrow> string \<Rightarrow> (submission_error, pyval list) result" where
  "change_ids p key =
     (case sequence_items (get_or p key PNone) of None \<Rightarrow> Err (NotAnOrderedList key) | Some vs \<Rightarrow> Ok vs)"

definition stamp :: "payload \<Rightarrow> string \<Rightarrow> (submission_error, string) result" where
  "stamp p key =
     (case get_or p key PNone of
        PStr s \<Rightarrow> if blank s then Err (StampMissing key) else Ok s
      | _ \<Rightarrow> Err (StampMissing key))"

definition submission_from_mapping :: "payload \<Rightarrow> (submission_error, submission_phase) result" where
  "submission_from_mapping p =
     bind_result (change_ids p ''proposal_ids'') (\<lambda>ids.
     bind_result (mk_intent (map py_str ids) (py_str (get_or p ''branch'' (PStr [])))
         (py_str (get_or p ''expected_commit'' (PStr [])))) (\<lambda>i.
       if get_or p ''phase'' PNone = PStr PREPARED then Ok (PreparedSubmission i)
       else if get_or p ''phase'' PNone = PStr PUSHED
       then bind_result (stamp p ''pushed_at'') (\<lambda>t. Ok (PushedSubmission i t))
       else if get_or p ''phase'' PNone = PStr SUBMITTED
       then bind_result (stamp p ''pushed_at'') (\<lambda>t.
            bind_result (stamp p ''submitted_at'') (\<lambda>u. Ok (CompletedSubmission i t u)))
       else Err (NotASubmissionPhase (get_or p ''phase'' PNone))))"

section \<open>Baseline standing\<close>

datatype standing_error =
    NamesNoProposal
  | ChangesNoField
  | NoBaseRevision
  | NotAReviewStanding pyval
  | NotAChangeCondition pyval
  | NotAListOfIds string
  | NotAStanding pyval

record proposed_change =
  standing_proposals :: "string list"
  changed_fields :: "string list"
  base_revision :: string
  change_condition :: string
  review :: string

datatype baseline_standing = EnterpriseBaseline | Proposed proposed_change

definition CHANGE_CONDITIONS :: "string list" where
  "CHANGE_CONDITIONS = [''current'', ''stale'', ''conflicting'']"

definition REVIEW_STANDINGS :: "string list" where
  "REVIEW_STANDINGS = [''not-sent'', ''awaiting-review'']"

definition BASELINE_KIND :: string where "BASELINE_KIND = ''enterprise-baseline''"
definition PROPOSED_KIND :: string where "PROPOSED_KIND = ''proposed''"

definition mk_proposed ::
    "string list \<Rightarrow> string list \<Rightarrow> string \<Rightarrow> string \<Rightarrow> string \<Rightarrow> (standing_error, baseline_standing) result" where
  "mk_proposed ids field_names base condition rev_standing =
     bind_result (raise_if (ids = []) NamesNoProposal) (\<lambda>_.
     bind_result (raise_if (field_names = []) ChangesNoField) (\<lambda>_.
     bind_result (raise_if (base = []) NoBaseRevision) (\<lambda>_.
     bind_result (raise_if (rev_standing \<notin> set REVIEW_STANDINGS) (NotAReviewStanding (PStr rev_standing))) (\<lambda>_.
     bind_result (raise_if (condition \<notin> set CHANGE_CONDITIONS) (NotAChangeCondition (PStr condition))) (\<lambda>_.
       Ok (Proposed \<lparr>standing_proposals = ids, changed_fields = field_names, base_revision = base,
             change_condition = condition, review = rev_standing\<rparr>))))))"

fun standing_to_mapping :: "baseline_standing \<Rightarrow> payload" where
  "standing_to_mapping EnterpriseBaseline = [(''kind'', PStr BASELINE_KIND)]"
| "standing_to_mapping (Proposed c) =
     [(''kind'', PStr PROPOSED_KIND), (''proposal_ids'', PList (map PStr (standing_proposals c))),
      (''changed_fields'', PList (map PStr (changed_fields c))), (''base_revision'', PStr (base_revision c)),
      (''condition'', PStr (change_condition c)), (''review'', PStr (review c))]"

fun standing_text :: "baseline_standing \<Rightarrow> string" where
  "standing_text EnterpriseBaseline = ''enterprise baseline''"
| "standing_text (Proposed c) =
     ''proposed ('' @ py_join '', '' (changed_fields c) @ ''; '' @ py_join '', '' (standing_proposals c) @
     (if change_condition c = ''current'' then [] else '', '' @ change_condition c) @
     (if review c = ''not-sent'' then [] else '', awaiting review'') @ '')''"

definition id_list :: "payload \<Rightarrow> string \<Rightarrow> (standing_error, pyval list) result" where
  "id_list p key =
     (case sequence_items (get_or p key PNone) of None \<Rightarrow> Err (NotAListOfIds key) | Some vs \<Rightarrow> Ok vs)"

definition review_of :: "pyval \<Rightarrow> (standing_error, string) result" where
  "review_of v = (case v of PStr s \<Rightarrow> if s \<in> set REVIEW_STANDINGS then Ok s else Err (NotAReviewStanding v)
                  | _ \<Rightarrow> Err (NotAReviewStanding v))"

definition condition_of :: "pyval \<Rightarrow> (standing_error, string) result" where
  "condition_of v = (case v of PStr s \<Rightarrow> if s \<in> set CHANGE_CONDITIONS then Ok s else Err (NotAChangeCondition v)
                     | _ \<Rightarrow> Err (NotAChangeCondition v))"

definition standing_from_mapping :: "payload \<Rightarrow> (standing_error, baseline_standing) result" where
  "standing_from_mapping p =
     (if get_or p ''kind'' PNone = PStr BASELINE_KIND then Ok EnterpriseBaseline
      else if get_or p ''kind'' PNone = PStr PROPOSED_KIND
      then bind_result (id_list p ''proposal_ids'') (\<lambda>ids.
           bind_result (id_list p ''changed_fields'') (\<lambda>field_names.
           bind_result (condition_of (get_or p ''condition'' PNone)) (\<lambda>condition.
           bind_result (review_of (get_or p ''review'' PNone)) (\<lambda>rev_standing.
             mk_proposed (map py_str ids) (map py_str field_names)
               (py_str (get_or p ''base_revision'' (PStr []))) condition rev_standing))))
      else Err (NotAStanding (get_or p ''kind'' PNone)))"

section \<open>Both are codecs\<close>

definition intent_ok :: "submission_intent \<Rightarrow> bool" where
  "intent_ok i \<longleftrightarrow> proposal_ids i \<noteq> [] \<and> distinct (proposal_ids i) \<and> \<not> blank (branch i) \<and>
     \<not> blank (expected_commit i)"

definition submission_ok :: "submission_phase \<Rightarrow> bool" where
  "submission_ok s \<longleftrightarrow> intent_ok (intent s) \<and>
     (case s of
        PreparedSubmission _ \<Rightarrow> True
      | PushedSubmission _ t \<Rightarrow> \<not> blank t
      | CompletedSubmission _ t u \<Rightarrow> \<not> blank t \<and> \<not> blank u)"

definition standing_ok :: "baseline_standing \<Rightarrow> bool" where
  "standing_ok s \<longleftrightarrow>
     (case s of
        EnterpriseBaseline \<Rightarrow> True
      | Proposed c \<Rightarrow> standing_proposals c \<noteq> [] \<and> changed_fields c \<noteq> [] \<and> base_revision c \<noteq> [] \<and>
          review c \<in> set REVIEW_STANDINGS \<and> change_condition c \<in> set CHANGE_CONDITIONS)"

lemmas phase_names = PREPARED_def PUSHED_def SUBMITTED_def

lemma mk_intent_iff:
  "mk_intent ids br commit = Inr i \<longleftrightarrow>
     i = \<lparr>proposal_ids = ids, branch = br, expected_commit = commit\<rparr> \<and> intent_ok i"
  by (auto simp: mk_intent_def validate_proposal_ids_def bind_result_eq_Inr intent_ok_def
      card_distinct distinct_card)

lemma mk_proposed_iff:
  "mk_proposed ids field_names base condition rev_standing = Inr s \<longleftrightarrow>
     s = Proposed \<lparr>standing_proposals = ids, changed_fields = field_names, base_revision = base,
           change_condition = condition, review = rev_standing\<rparr> \<and> standing_ok s"
  by (auto simp: mk_proposed_def bind_result_eq_Inr standing_ok_def)

lemma stamp_iff: "stamp p key = Inr t \<longleftrightarrow> get_or p key PNone = PStr t \<and> \<not> blank t"
  by (auto simp: stamp_def split: pyval.splits)

lemma submission_decode_encode:
  assumes "submission_ok s"
  shows "submission_from_mapping (submission_to_mapping s) = Inr s"
proof -
  have make: "mk_intent (proposal_ids i) (branch i) (expected_commit i) = Inr i" if "intent_ok i" for i
    using that by (simp add: mk_intent_iff)
  show ?thesis
    using assms
    by (cases s) (simp_all add: submission_ok_def submission_from_mapping_def intent_to_mapping_def
        change_ids_def stamp_def phase_names make)
qed

lemma submission_decode_ok: "submission_from_mapping p = Inr s \<Longrightarrow> submission_ok s"
  by (auto simp: submission_from_mapping_def bind_result_eq_Inr mk_intent_iff stamp_iff submission_ok_def
      split: if_splits)

interpretation submission_codec: codec submission_ok submission_to_mapping submission_from_mapping
  by unfold_locales (simp_all add: submission_decode_encode submission_decode_ok)

lemma standing_decode_encode:
  assumes "standing_ok s"
  shows "standing_from_mapping (standing_to_mapping s) = Inr s"
proof (cases s)
  case EnterpriseBaseline
  then show ?thesis by (simp add: standing_from_mapping_def)
next
  case (Proposed c)
  have "mk_proposed (standing_proposals c) (changed_fields c) (base_revision c) (change_condition c) (review c) =
      Inr (Proposed c)"
    using assms Proposed by (simp add: mk_proposed_iff)
  with assms Proposed show ?thesis
    by (simp add: standing_from_mapping_def id_list_def condition_of_def review_of_def standing_ok_def
        BASELINE_KIND_def PROPOSED_KIND_def)
qed

lemma standing_decode_ok: "standing_from_mapping p = Inr s \<Longrightarrow> standing_ok s"
  by (auto simp: standing_from_mapping_def bind_result_eq_Inr mk_proposed_iff standing_ok_def
      split: if_splits)

interpretation standing_codec: codec standing_ok standing_to_mapping standing_from_mapping
  by unfold_locales (simp_all add: standing_decode_encode standing_decode_ok)

section \<open>Properties\<close>

text \<open>A submission moves only by the two transition methods.\<close>

inductive phase_step :: "submission_phase \<Rightarrow> submission_phase \<Rightarrow> bool" where
  push: "phase_step (PreparedSubmission i) (pushed i t)"
| submit: "phase_step (PushedSubmission i t) (submitted i t u)"

inductive_simps phase_step_simps:
  "phase_step (PreparedSubmission i) s" "phase_step (PushedSubmission i t) s"
  "phase_step (CompletedSubmission i t u) s"

fun progress :: "submission_phase \<Rightarrow> nat" where
  "progress (PreparedSubmission i) = 0"
| "progress (PushedSubmission i t) = 1"
| "progress (CompletedSubmission i t u) = 2"

lemma phase_step_facts:
  assumes "phase_step s s'"
  shows "intent s' = intent s \<and> progress s' = Suc (progress s) \<and>
    (progress s \<ge> 1 \<longrightarrow> pushed_at s' = pushed_at s)"
  using assms by cases (simp_all add: pushed_def submitted_def)

lemma phase_steps_facts:
  assumes "phase_step\<^sup>*\<^sup>* s s'"
  shows "intent s' = intent s \<and> progress s \<le> progress s' \<and>
    (progress s \<ge> 1 \<longrightarrow> pushed_at s' = pushed_at s)"
  using assms by (induction rule: rtranclp_induct) (auto dest: phase_step_facts)

text \<open>
  A submission only moves forward and never changes what it set out to do. Along any sequence of
  transitions the intent (changes, branch, expected commit) and, once recorded, the time of the push
  stay the same and the phase never goes back; a phase awaits reconciliation exactly when a
  transition is still possible.
\<close>

theorem submission_moves_forward:
  "(phase_step\<^sup>*\<^sup>* s s' \<longrightarrow> intent s' = intent s \<and> progress s \<le> progress s' \<and>
      (progress s \<ge> 1 \<longrightarrow> pushed_at s' = pushed_at s)) \<and>
   (phase_name s \<in> set UNRESOLVED \<longleftrightarrow> (\<exists>t. phase_step s t))"
proof -
  have "phase_name s \<in> set UNRESOLVED \<longleftrightarrow> (\<exists>t. phase_step s t)"
    by (cases s) (auto simp: phase_step_simps UNRESOLVED_def phase_names)
  then show ?thesis using phase_steps_facts by blast
qed

definition sample_intent :: submission_intent where
  "sample_intent = \<lparr>proposal_ids = [''PCH@1.a''], branch = ''arch/work'', expected_commit = ''c0ffee''\<rparr>"

theorem submission_moves_forward_witness:
  "phase_step\<^sup>*\<^sup>* (PushedSubmission sample_intent ''t1'') (submitted sample_intent ''t1'' ''t2'') \<and>
   pushed_at (submitted sample_intent ''t1'' ''t2'') = ''t1''"
proof -
  have steps: "phase_step\<^sup>*\<^sup>* (PushedSubmission sample_intent ''t1'') (submitted sample_intent ''t1'' ''t2'')"
    by (intro r_into_rtranclp phase_step.submit)
  with submission_moves_forward [of "PushedSubmission sample_intent ''t1''" "submitted sample_intent ''t1'' ''t2''"]
  show ?thesis by simp
qed

text \<open>
  Both change records survive their wire form exactly when they are well formed. A submission
  is read back from what it writes if and only if its ids are non-empty and pairwise different, its
  branch and commit are not blank and neither is any time it records; a standing, if and only if it
  names a proposal, a field and a base revision and its condition and review are in the vocabulary.
  Whatever is read back at all is well formed, and writing it again changes nothing.
\<close>

theorem change_records_round_trip:
  "(submission_from_mapping (submission_to_mapping s) = Ok s \<longleftrightarrow> submission_ok s) \<and>
   (standing_from_mapping (standing_to_mapping b) = Ok b \<longleftrightarrow> standing_ok b) \<and>
   (\<forall>s'. submission_from_mapping p = Ok s' \<longrightarrow> submission_ok s' \<and>
      submission_from_mapping (submission_to_mapping s') = Ok s') \<and>
   (\<forall>b'. standing_from_mapping p = Ok b' \<longrightarrow> standing_ok b' \<and>
      standing_from_mapping (standing_to_mapping b') = Ok b')"
  using submission_codec.round_trip_iff standing_codec.round_trip_iff
    submission_codec.decode_valid standing_codec.decode_valid by blast

theorem change_records_round_trip_witness:
  "submission_ok (PreparedSubmission sample_intent) \<and>
   submission_from_mapping (submission_to_mapping (PreparedSubmission sample_intent)) =
     Ok (PreparedSubmission sample_intent)"
proof -
  have "submission_ok (PreparedSubmission sample_intent)"
    by (simp add: submission_ok_def intent_ok_def sample_intent_def blank_def py_strip_eq_Nil_iff is_py_space_def)
  with change_records_round_trip [of "PreparedSubmission sample_intent" EnterpriseBaseline "[]"]
  show ?thesis by simp
qed

end
