(* ===== verification/Proposals.thy ===== *)
theory Proposals
  imports Change_Records "HOL-Library.AList"
begin

text \<open>
  Proposed changes to promoted artifacts: the recorded edit (\<^verbatim>\<open>src/application/modeling/proposal_edit.py\<close>,
  vocabulary in \<^verbatim>\<open>edit_field_catalogue.py\<close>), the standing an artifact gets from the live changes
  against it (\<^verbatim>\<open>proposal_standing.py\<close>, states in \<^verbatim>\<open>proposed_change.py\<close>), and the set one submission
  carries (\<^verbatim>\<open>submission_set.py\<close>). Of an entity record only the id, the type and the frontmatter are
  kept. The current revision of an artifact, a hash of a file, is a parameter.
\<close>

section \<open>Recorded edits\<close>

definition PROPOSABLE :: "string list" where
  "PROPOSABLE = [''entity'', ''document'', ''diagram'']"

definition CONTENT :: "string \<Rightarrow> string set" where
  "CONTENT kind =
     (if kind = ''entity'' then {''name'', ''summary'', ''properties'', ''attribute_types'', ''notes'', ''keywords'',
        ''specializations'', ''version'', ''status'', ''group''}
      else if kind = ''connection'' then {''description'', ''src_multiplicity'', ''tgt_multiplicity'',
        ''specializations'', ''metadata''}
      else if kind = ''document'' then {''title'', ''body'', ''keywords'', ''extra_frontmatter'', ''status'',
        ''version'', ''last_updated'', ''group''}
      else if kind = ''diagram'' then {''puml'', ''name'', ''keywords'', ''diagram_entities'',
        ''diagram_connections'', ''entity_ids_used'', ''connection_ids_used'', ''view_derivations'', ''bindings'',
        ''version'', ''status'', ''tlp'', ''viewpoint'', ''edge_labels'', ''group'', ''authored_groupings'',
        ''manual_layout''}
      else {})"

record proposal_edit =
  edit_kind :: string
  edit_artifact :: string
  edit_fields :: payload

datatype edit_error =
    NotProposable pyval
  | NamesNoArtifact
  | FieldsNotProposable "string set"
  | ChangesNothing
  | EditMisses "string list"
  | FieldsNotAMapping

abbreviation field_set :: "payload \<Rightarrow> string set" where
  "field_set d \<equiv> fst ` set d"

definition mk_edit :: "pyval \<Rightarrow> string \<Rightarrow> payload \<Rightarrow> (edit_error, proposal_edit) result" where
  "mk_edit kind artifact d =
     (case kind of
        PStr k \<Rightarrow>
          bind_result (raise_if (k \<notin> set PROPOSABLE) (NotProposable kind)) (\<lambda>_.
          bind_result (raise_if (artifact = []) NamesNoArtifact) (\<lambda>_.
          bind_result (raise_if (field_set d - CONTENT k \<noteq> {}) (FieldsNotProposable (field_set d - CONTENT k))) (\<lambda>_.
          bind_result (raise_if (d = []) ChangesNothing) (\<lambda>_.
            Ok \<lparr>edit_kind = k, edit_artifact = artifact, edit_fields = d\<rparr>))))
      | _ \<Rightarrow> Err (NotProposable kind))"

definition edit_to_mapping :: "proposal_edit \<Rightarrow> payload" where
  "edit_to_mapping e =
     [(''kind'', PStr (edit_kind e)), (''artifact-id'', PStr (edit_artifact e)), (''fields'', PDict (edit_fields e))]"

definition edit_from_mapping :: "payload \<Rightarrow> (edit_error, proposal_edit) result" where
  "edit_from_mapping d =
     (let missing = filter (\<lambda>k. map_of d k = None) [''kind'', ''artifact-id'', ''fields''] in
      if missing \<noteq> [] then Err (EditMisses missing)
      else (case get_or d ''fields'' PNone of
              PDict fs \<Rightarrow> mk_edit (get_or d ''kind'' PNone) (py_str (get_or d ''artifact-id'' PNone)) fs
            | _ \<Rightarrow> Err FieldsNotAMapping))"

definition edit_ok :: "proposal_edit \<Rightarrow> bool" where
  "edit_ok e \<longleftrightarrow> edit_kind e \<in> set PROPOSABLE \<and> edit_artifact e \<noteq> [] \<and> edit_fields e \<noteq> [] \<and>
     field_set (edit_fields e) \<subseteq> CONTENT (edit_kind e)"

lemma mk_edit_iff:
  "mk_edit kind artifact d = Inr e \<longleftrightarrow>
     kind = PStr (edit_kind e) \<and> edit_artifact e = artifact \<and> edit_fields e = d \<and> edit_ok e"
proof (cases kind)
  case (PStr k)
  have sub: "(field_set d - CONTENT k \<noteq> {}) = (\<not> field_set d \<subseteq> CONTENT k)" by blast
  show ?thesis
    unfolding PStr mk_edit_def edit_ok_def pyval.case sub
    by (cases e) (simp add: bind_result_eq_Inr, blast)
qed (simp_all add: mk_edit_def)

interpretation edit_codec: codec edit_ok edit_to_mapping edit_from_mapping
proof
  fix e p
  show "edit_ok e \<Longrightarrow> edit_from_mapping (edit_to_mapping e) = Inr e"
    by (simp add: edit_from_mapping_def edit_to_mapping_def mk_edit_iff)
  show "edit_from_mapping p = Inr e \<Longrightarrow> edit_ok e"
    by (auto simp: edit_from_mapping_def Let_def mk_edit_iff split: if_splits pyval.splits)
qed

text \<open>
  An edit survives being recorded and read back exactly when it is one the constructor admits: a
  proposable kind, an artifact named, at least one field, every field of the kind's content vocabulary. The
  reader admits nothing the constructor refuses.
\<close>

theorem recorded_edits_round_trip:
  "(edit_from_mapping (edit_to_mapping e) = Inr e \<longleftrightarrow>
      edit_kind e \<in> set PROPOSABLE \<and> edit_artifact e \<noteq> [] \<and> edit_fields e \<noteq> [] \<and>
      field_set (edit_fields e) \<subseteq> CONTENT (edit_kind e)) \<and>
   (\<exists>p. edit_from_mapping p = Inr e) = (edit_from_mapping (edit_to_mapping e) = Inr e)"
  using edit_codec.decode_encode edit_codec.decode_valid edit_ok_def by blast

section \<open>Live changes\<close>

definition PENDING_STATES :: "string set" where
  "PENDING_STATES = {''draft'', ''submitted''}"

definition DRAFT_STATE :: string where "DRAFT_STATE = ''draft''"
definition SUBMITTED_STATE :: string where "SUBMITTED_STATE = ''submitted''"
definition UNKNOWN_BASE :: string where "UNKNOWN_BASE = ''unknown''"
definition PROPOSED_CHANGE_TYPE :: string where "PROPOSED_CHANGE_TYPE = ''proposed-change''"

record change_record =
  cr_id :: string
  cr_type :: string
  cr_extra :: payload

record pending_proposal =
  pp_id :: string
  pp_target :: string
  pp_reference :: string
  pp_changed_fields :: "string list"
  pp_base_revision :: string
  pp_state :: string
  pp_edit :: proposal_edit

definition decode_change :: "change_record \<Rightarrow> pending_proposal option" where
  "decode_change r =
     (case get_or (cr_extra r) ''proposes-change-to'' PNone of
        PStr reference \<Rightarrow>
          if blank reference then None
          else if py_str (get_or (cr_extra r) ''proposal-state'' (PStr [])) \<notin> PENDING_STATES then None
          else (case get_or (cr_extra r) ''recorded-edit'' PNone of
                  PDict d \<Rightarrow>
                    (case edit_from_mapping d of
                       Inl _ \<Rightarrow> None
                     | Inr e \<Rightarrow>
                         (case get_or (cr_extra r) ''base-revision'' PNone of
                            PStr base \<Rightarrow>
                              if blank base then None
                              else Some \<lparr>pp_id = cr_id r, pp_target = edit_artifact e,
                                     pp_reference = py_strip reference,
                                     pp_changed_fields = sorted_list_of_set (field_set (edit_fields e)),
                                     pp_base_revision = py_strip base,
                                     pp_state = py_str (get_or (cr_extra r) ''proposal-state'' (PStr [])),
                                     pp_edit = e\<rparr>
                          | _ \<Rightarrow> None))
                | _ \<Rightarrow> None)
      | _ \<Rightarrow> None)"

type_synonym pending = "(string \<times> pending_proposal list) list"

definition add_proposal :: "pending_proposal \<Rightarrow> pending \<Rightarrow> pending" where
  "add_proposal p grouped =
     AList.update (pp_target p) ((case map_of grouped (pp_target p) of None \<Rightarrow> [] | Some ps \<Rightarrow> ps) @ [p]) grouped"

definition live_changes :: "change_record list \<Rightarrow> pending_proposal list" where
  "live_changes records = List.map_filter decode_change (filter (\<lambda>r. cr_type r = PROPOSED_CHANGE_TYPE) records)"

definition pending_proposals :: "change_record list \<Rightarrow> pending" where
  "pending_proposals records =
     map (\<lambda>(t, ps). (t, sort_key pp_id ps)) (fold add_proposal (live_changes records) [])"

definition review_standing :: "pending_proposal list \<Rightarrow> string" where
  "review_standing ps = (if \<exists>p \<in> set ps. pp_state p = SUBMITTED_STATE then ''awaiting-review'' else ''not-sent'')"

definition union_of_changed_fields :: "pending_proposal list \<Rightarrow> string list" where
  "union_of_changed_fields ps = sorted_list_of_set (\<Union>p \<in> set ps. set (pp_changed_fields p))"

definition condition_standing :: "pending_proposal list \<Rightarrow> string option \<Rightarrow> string" where
  "condition_standing ps current =
     (case current of
        None \<Rightarrow> ''current''
      | Some c \<Rightarrow>
          if \<forall>base \<in> set (filter (\<lambda>b. b \<noteq> UNKNOWN_BASE) (map pp_base_revision ps)). base = c
          then ''current'' else ''stale'')"

definition standing_for ::
    "string \<Rightarrow> pending \<Rightarrow> (string \<Rightarrow> string option) \<Rightarrow> (standing_error, baseline_standing) result" where
  "standing_for target pend revision_of =
     (case map_of pend target of
        None \<Rightarrow> Ok EnterpriseBaseline
      | Some [] \<Rightarrow> Ok EnterpriseBaseline
      | Some (p # ps) \<Rightarrow>
          mk_proposed (map pp_id (p # ps)) (union_of_changed_fields (p # ps)) (pp_base_revision p)
            (condition_standing (p # ps) (revision_of target)) (review_standing (p # ps)))"

section \<open>The set one submission carries\<close>

datatype set_error =
    IdsRefused submission_error
  | NotALiveChange string
  | AlreadySubmitted string
  | BothChange string string string

fun claim_fields ::
    "((string \<times> string) \<times> string) list \<Rightarrow> string \<Rightarrow> string \<Rightarrow> string list
      \<Rightarrow> (set_error, ((string \<times> string) \<times> string) list) result" where
  "claim_fields claimed pid artifact [] = Ok claimed"
| "claim_fields claimed pid artifact (f # fs) =
     (case map_of claimed (artifact, f) of
        None \<Rightarrow> claim_fields (claimed @ [((artifact, f), pid)]) pid artifact fs
      | Some owner \<Rightarrow> if owner \<noteq> pid then Err (BothChange owner pid f)
                      else claim_fields claimed pid artifact fs)"

fun refuse_overlap :: "((string \<times> string) \<times> string) list \<Rightarrow> pending_proposal list \<Rightarrow> (set_error, unit) result" where
  "refuse_overlap claimed [] = Ok ()"
| "refuse_overlap claimed (p # ps) =
     bind_result (claim_fields claimed (pp_id p) (edit_artifact (pp_edit p)) (map fst (edit_fields (pp_edit p))))
       (\<lambda>claimed'. refuse_overlap claimed' ps)"

definition proposals_by_id :: "pending \<Rightarrow> string \<Rightarrow> pending_proposal option" where
  "proposals_by_id pend = map_of (rev (map (\<lambda>p. (pp_id p, p)) (concat (map snd pend))))"

definition live :: "pending \<Rightarrow> string \<Rightarrow> (set_error, pending_proposal) result" where
  "live pend pid =
     (case proposals_by_id pend pid of
        None \<Rightarrow> Err (NotALiveChange pid)
      | Some p \<Rightarrow> if pp_state p \<noteq> DRAFT_STATE then Err (AlreadySubmitted pid) else Ok p)"

definition compose_set :: "string list \<Rightarrow> pending \<Rightarrow> (set_error, pending_proposal list) result" where
  "compose_set ids pend =
     (case validate_proposal_ids ids of
        Inl e \<Rightarrow> Err (IdsRefused e)
      | Inr _ \<Rightarrow>
          bind_result (traverse (live pend) ids) (\<lambda>composed.
          bind_result (refuse_overlap [] composed) (\<lambda>_. Ok composed)))"

section \<open>Overlap\<close>

definition claims :: "pending_proposal \<Rightarrow> (string \<times> string) set" where
  "claims p = (\<lambda>f. (edit_artifact (pp_edit p), f)) ` field_set (edit_fields (pp_edit p))"

lemma claim_fields_iff:
  "claim_fields claimed pid artifact fs = Inr claimed' \<Longrightarrow>
     (\<forall>f \<in> set fs. \<forall>owner. map_of claimed (artifact, f) = Some owner \<longrightarrow> owner = pid) \<and>
     (\<forall>k. map_of claimed' k = (case map_of claimed k of Some o' \<Rightarrow> Some o'
        | None \<Rightarrow> if k \<in> Pair artifact ` set fs then Some pid else None))"
proof (induction claimed pid artifact fs arbitrary: claimed' rule: claim_fields.induct)
  case (1 claimed pid artifact)
  then show ?case by (auto split: option.splits)
next
  case (2 claimed pid artifact f fs)
  show ?case
  proof (cases "map_of claimed (artifact, f)")
    case None
    from "2.IH"(1) [OF None] "2.prems" None
    have ih: "\<forall>g \<in> set fs. \<forall>owner. map_of (claimed @ [((artifact, f), pid)]) (artifact, g) = Some owner \<longrightarrow> owner = pid"
      "\<And>k. map_of claimed' k = (case map_of (claimed @ [((artifact, f), pid)]) k of Some o' \<Rightarrow> Some o'
        | None \<Rightarrow> if k \<in> Pair artifact ` set fs then Some pid else None)" by auto
    have new: "map_of (claimed @ [((artifact, f), pid)]) k =
        (case map_of claimed k of Some o' \<Rightarrow> Some o' | None \<Rightarrow> if k = (artifact, f) then Some pid else None)" for k
      by (simp add: map_add_def split: option.splits)
    show ?thesis using ih None by (auto simp: new split: option.splits if_splits)
  next
    case (Some owner)
    with "2.prems" have same: "owner = pid" by (auto split: if_splits)
    from "2.IH"(2) [OF Some] "2.prems" Some same
    have ih: "\<forall>g \<in> set fs. \<forall>owner. map_of claimed (artifact, g) = Some owner \<longrightarrow> owner = pid"
      "\<And>k. map_of claimed' k = (case map_of claimed k of Some o' \<Rightarrow> Some o'
        | None \<Rightarrow> if k \<in> Pair artifact ` set fs then Some pid else None)" by auto
    show ?thesis using ih Some same by (auto split: option.splits)
  qed
qed

lemma claim_fields_Inl:
  "claim_fields claimed pid artifact fs = Inl e \<Longrightarrow>
     \<exists>f \<in> set fs. \<exists>owner. map_of claimed (artifact, f) = Some owner \<and> owner \<noteq> pid"
proof (induction claimed pid artifact fs rule: claim_fields.induct)
  case (1 claimed pid artifact)
  then show ?case by simp
next
  case (2 claimed pid artifact f fs)
  show ?case
  proof (cases "map_of claimed (artifact, f)")
    case None
    from "2.prems" None have "claim_fields (claimed @ [((artifact, f), pid)]) pid artifact fs = Inl e" by simp
    from "2.IH"(1) [OF None this] obtain g owner where g: "g \<in> set fs"
      "map_of (claimed @ [((artifact, f), pid)]) (artifact, g) = Some owner" "owner \<noteq> pid" by blast
    then have "map_of claimed (artifact, g) = Some owner"
      by (auto simp: map_add_def split: option.splits if_splits)
    with g show ?thesis by auto
  next
    case (Some owner)
    with 2 show ?thesis by (auto split: if_splits)
  qed
qed

lemma refuse_overlap_iff:
  "refuse_overlap claimed ps = Inr () \<longleftrightarrow>
     (\<forall>p \<in> set ps. \<forall>k \<in> claims p. \<forall>owner. map_of claimed k = Some owner \<longrightarrow> owner = pp_id p) \<and>
     (\<forall>p \<in> set ps. \<forall>q \<in> set ps. claims p \<inter> claims q \<noteq> {} \<longrightarrow> pp_id p = pp_id q)"
proof (induction claimed ps rule: refuse_overlap.induct)
  case (1 claimed)
  then show ?case by simp
next
  case (2 claimed p ps)
  let ?fs = "map fst (edit_fields (pp_edit p))" and ?art = "edit_artifact (pp_edit p)"
  have claims_p: "claims p = Pair ?art ` set ?fs" by (simp add: claims_def)
  show ?case
  proof (cases "claim_fields claimed (pp_id p) ?art ?fs")
    case (Inl e)
    from claim_fields_Inl [OF Inl] have "\<exists>k \<in> claims p. \<exists>owner. map_of claimed k = Some owner \<and> owner \<noteq> pp_id p"
      unfolding claims_p by blast
    with Inl show ?thesis by auto
  next
    case (Inr claimed')
    define free where "free q \<longleftrightarrow> (\<forall>k \<in> claims q. \<forall>owner. map_of claimed k = Some owner \<longrightarrow> owner = pp_id q)" for q
    define apart where "apart q r \<longleftrightarrow> (claims q \<inter> claims r \<noteq> {} \<longrightarrow> pp_id q = pp_id r)" for q r
    note facts = claim_fields_iff [OF Inr, folded claims_p]
    have own: "\<forall>k \<in> claims p. \<forall>owner. map_of claimed k = Some owner \<longrightarrow> owner = pp_id p"
      using facts unfolding claims_p by blast
    have later: "(\<forall>k \<in> claims q. \<forall>owner. map_of claimed' k = Some owner \<longrightarrow> owner = pp_id q) \<longleftrightarrow>
        (\<forall>k \<in> claims q. \<forall>owner. map_of claimed k = Some owner \<longrightarrow> owner = pp_id q) \<and>
        (claims p \<inter> claims q \<noteq> {} \<longrightarrow> pp_id p = pp_id q)" for q
    proof -
      have at_key: "map_of claimed' k = (case map_of claimed k of Some o' \<Rightarrow> Some o'
          | None \<Rightarrow> if k \<in> claims p then Some (pp_id p) else None)" for k
        using facts by blast
      show ?thesis
        using own by (fastforce simp: at_key split: option.splits if_splits)
    qed
    have "refuse_overlap claimed (p # ps) = Inr () \<longleftrightarrow> refuse_overlap claimed' ps = Inr ()"
      using Inr by simp
    also have "\<dots> \<longleftrightarrow> (\<forall>q \<in> set ps. \<forall>k \<in> claims q. \<forall>owner. map_of claimed' k = Some owner \<longrightarrow> owner = pp_id q) \<and>
        (\<forall>q \<in> set ps. \<forall>r \<in> set ps. claims q \<inter> claims r \<noteq> {} \<longrightarrow> pp_id q = pp_id r)"
      by (rule "2.IH")
    finally have step: "refuse_overlap claimed (p # ps) = Inr () \<longleftrightarrow>
        (\<forall>q \<in> set ps. free q \<and> apart p q) \<and> (\<forall>q \<in> set ps. \<forall>r \<in> set ps. apart q r)"
      unfolding later free_def apart_def .
    have "free p" using own by (simp add: free_def)
    moreover have "apart p p" "\<And>q r. apart q r = apart r q" by (auto simp: apart_def Int_commute)
    ultimately have "refuse_overlap claimed (p # ps) = Inr () \<longleftrightarrow>
        (\<forall>q \<in> set (p # ps). free q) \<and> (\<forall>q \<in> set (p # ps). \<forall>r \<in> set (p # ps). apart q r)"
      unfolding step list.set by blast
    then show ?thesis unfolding free_def apart_def .
  qed
qed

section \<open>Grouping\<close>

definition on_target :: "string \<Rightarrow> pending_proposal list \<Rightarrow> pending_proposal list" where
  "on_target t ps = filter (\<lambda>p. pp_target p = t) ps"

definition listed :: "'a list \<Rightarrow> 'a list option" where
  "listed xs = (if xs = [] then None else Some xs)"

lemma listed_append_one [simp]: "listed (xs @ [x]) = Some (xs @ [x])"
  by (simp add: listed_def)

lemma add_proposal_lookup:
  "map_of (add_proposal p g) t =
     (if t = pp_target p then Some ((case map_of g t of None \<Rightarrow> [] | Some ps \<Rightarrow> ps) @ [p]) else map_of g t)"
  by (auto simp: add_proposal_def update_conv)

lemma grouped_lookup:
  "map_of (fold add_proposal ps []) t = listed (on_target t ps)"
proof (induction ps rule: rev_induct)
  case Nil
  then show ?case by (simp add: listed_def on_target_def)
next
  case (snoc p ps)
  then show ?case
    by (auto simp: add_proposal_lookup on_target_def listed_def split: if_splits)
qed

lemma grouped_distinct: "distinct (map fst (fold add_proposal ps []))"
  by (induction ps rule: rev_induct) (auto simp: add_proposal_def distinct_update)

lemma pending_lookup:
  "map_of (pending_proposals records) t = map_option (sort_key pp_id) (listed (on_target t (live_changes records)))"
  unfolding pending_proposals_def by (simp add: map_of_map grouped_lookup)

lemma decode_changeD:
  assumes "decode_change r = Some p"
  shows "pp_id p = cr_id r" "pp_target p = edit_artifact (pp_edit p)" "edit_ok (pp_edit p)"
    "pp_changed_fields p = sorted_list_of_set (field_set (edit_fields (pp_edit p)))"
    "pp_base_revision p \<noteq> []" "pp_state p \<in> PENDING_STATES"
  using assms
  by (auto simp: decode_change_def blank_def dest: edit_codec.decode_valid
      split: pyval.splits if_splits sum.splits)

lemma live_changesD:
  assumes "p \<in> set (live_changes records)"
  shows "pp_target p = edit_artifact (pp_edit p)" "edit_ok (pp_edit p)"
    "set (pp_changed_fields p) = field_set (edit_fields (pp_edit p))" "pp_changed_fields p \<noteq> []"
    "pp_base_revision p \<noteq> []" "pp_state p \<in> PENDING_STATES"
proof -
  from assms obtain r where "decode_change r = Some p" by (auto simp: live_changes_def set_map_filter)
  note d = decode_changeD [OF this]
  show "pp_target p = edit_artifact (pp_edit p)" "edit_ok (pp_edit p)"
    "pp_base_revision p \<noteq> []" "pp_state p \<in> PENDING_STATES" by (rule d)+
  show flds: "set (pp_changed_fields p) = field_set (edit_fields (pp_edit p))" by (simp add: d(4))
  from d(3) have "edit_fields (pp_edit p) \<noteq> []" by (simp add: edit_ok_def)
  then have "set (pp_changed_fields p) \<noteq> {}" unfolding flds by simp
  then show "pp_changed_fields p \<noteq> []" by auto
qed

section \<open>The standing of an artifact\<close>

definition moved_under :: "string option \<Rightarrow> pending_proposal \<Rightarrow> bool" where
  "moved_under current p \<longleftrightarrow> pp_base_revision p \<noteq> UNKNOWN_BASE \<and> current \<noteq> None \<and> current \<noteq> Some (pp_base_revision p)"

lemma condition_standing_iff:
  "condition_standing ps current = (if \<exists>p \<in> set ps. moved_under current p then ''stale'' else ''current'')"
  by (cases current) (auto simp: condition_standing_def moved_under_def)

lemma standing_for_live:
  assumes "on_target t (live_changes records) \<noteq> []"
  shows "standing_for t (pending_proposals records) revision_of =
    (let ps = sort_key pp_id (on_target t (live_changes records)) in
     Inr (Proposed \<lparr>standing_proposals = map pp_id ps, changed_fields = union_of_changed_fields ps,
       base_revision = pp_base_revision (hd ps), change_condition = condition_standing ps (revision_of t),
       review = review_standing ps\<rparr>))"
proof -
  let ?ps = "sort_key pp_id (on_target t (live_changes records))"
  have set_ps: "set ?ps = set (on_target t (live_changes records))" by simp
  obtain p ps where ps: "?ps = p # ps"
    using assms by (cases ?ps) (auto simp: set_empty [symmetric] set_ps simp del: set_empty)
  have "p \<in> set ?ps" using ps by simp
  then have live: "p \<in> set (live_changes records)" by (simp add: on_target_def)
  have "union_of_changed_fields ?ps \<noteq> []"
  proof -
    have "set (pp_changed_fields p) \<subseteq> set (union_of_changed_fields ?ps)"
      unfolding ps by (auto simp: union_of_changed_fields_def)
    moreover have "set (pp_changed_fields p) \<noteq> {}" using live_changesD(4) [OF live] by simp
    ultimately show ?thesis by auto
  qed
  then have "mk_proposed (map pp_id ?ps) (union_of_changed_fields ?ps) (pp_base_revision p)
      (condition_standing ?ps (revision_of t)) (review_standing ?ps) =
    Inr (Proposed \<lparr>standing_proposals = map pp_id ?ps, changed_fields = union_of_changed_fields ?ps,
      base_revision = pp_base_revision p, change_condition = condition_standing ?ps (revision_of t),
      review = review_standing ?ps\<rparr>)"
    using live_changesD(5) [OF live] ps
    by (simp add: mk_proposed_iff standing_ok_def condition_standing_iff review_standing_def
        REVIEW_STANDINGS_def CHANGE_CONDITIONS_def)
  moreover have "map_of (pending_proposals records) t = Some ?ps"
    using assms by (simp add: pending_lookup listed_def)
  ultimately show ?thesis by (simp add: standing_for_def ps Let_def)
qed

text \<open>
  An artifact's standing never refuses. It is the baseline exactly when no live change is against
  the artifact; otherwise it names every live change, sorted by id, and every field any of them writes, is
  awaiting review as soon as one was submitted, and is stale exactly when the artifact was read and one change
  with a known base was written against another revision.
\<close>

theorem standing_reports_the_live_changes:
  "\<exists>s. standing_for t (pending_proposals records) revision_of = Inr s \<and>
     (s = EnterpriseBaseline \<longleftrightarrow> on_target t (live_changes records) = []) \<and>
     (\<forall>c. s = Proposed c \<longrightarrow>
        standing_proposals c = sort (map pp_id (on_target t (live_changes records))) \<and>
        set (changed_fields c) =
          (\<Union>p \<in> set (on_target t (live_changes records)). field_set (edit_fields (pp_edit p))) \<and>
        (review c = ''awaiting-review'' \<longleftrightarrow>
          (\<exists>p \<in> set (on_target t (live_changes records)). pp_state p = SUBMITTED_STATE)) \<and>
        (change_condition c = ''stale'' \<longleftrightarrow>
          (\<exists>p \<in> set (on_target t (live_changes records)). moved_under (revision_of t) p)))"
proof (cases "on_target t (live_changes records) = []")
  case True
  then have "map_of (pending_proposals records) t = None" by (simp add: pending_lookup listed_def)
  then show ?thesis using True by (simp add: standing_for_def)
next
  case False
  let ?ps = "on_target t (live_changes records)"
  have "map pp_id (sort_key pp_id ?ps) = sort (map pp_id ?ps)"
    by (rule properties_for_sort [symmetric]) simp_all
  moreover have "(\<Union>p \<in> set ?ps. set (pp_changed_fields p)) = (\<Union>p \<in> set ?ps. field_set (edit_fields (pp_edit p)))"
    by (intro SUP_cong refl live_changesD(3) [where records = records]) (simp add: on_target_def)
  ultimately show ?thesis
    unfolding standing_for_live [OF False]
    by (simp add: Let_def False union_of_changed_fields_def condition_standing_iff review_standing_def)
qed

definition sample_change :: "string \<Rightarrow> string \<Rightarrow> string \<Rightarrow> string \<Rightarrow> change_record" where
  "sample_change cid st artifact field =
     \<lparr>cr_id = cid, cr_type = PROPOSED_CHANGE_TYPE,
      cr_extra = [(''proposes-change-to'', PStr ''GAR@1''), (''proposal-state'', PStr st),
        (''recorded-edit'', PDict [(''kind'', PStr ''entity''), (''artifact-id'', PStr artifact),
           (''fields'', PDict [(field, PStr ''new'')])]),
        (''base-revision'', PStr ''r1'')]\<rparr>"

theorem standing_reports_the_live_changes_witness:
  "\<exists>c. standing_for ''A'' (pending_proposals [sample_change ''2'' ''draft'' ''A'' ''name'', sample_change ''1'' ''submitted'' ''A'' ''notes''])
       (\<lambda>_. Some ''r2'') = Inr (Proposed c) \<and> standing_proposals c = [''1'', ''2''] \<and>
     review c = ''awaiting-review'' \<and> change_condition c = ''stale''"
proof -
  let ?rs = "[sample_change ''2'' ''draft'' ''A'' ''name'', sample_change ''1'' ''submitted'' ''A'' ''notes'']"
  have live: "on_target ''A'' (live_changes ?rs) = live_changes ?rs"
    "map pp_id (live_changes ?rs) = [''2'', ''1'']" "map pp_state (live_changes ?rs) = [''draft'', ''submitted'']"
    "map (moved_under (Some ''r2'')) (live_changes ?rs) = [True, True]" by code_simp+
  have ids: "sort (map pp_id (live_changes ?rs)) = [''1'', ''2'']" unfolding live by code_simp
  have sub: "\<exists>p \<in> set (live_changes ?rs). pp_state p = SUBMITTED_STATE" by code_simp
  have moved: "\<exists>p \<in> set (live_changes ?rs). moved_under (Some ''r2'') p" by code_simp
  have ne: "live_changes ?rs \<noteq> []" using live(2) by auto
  let ?st = "standing_for ''A'' (pending_proposals ?rs) (\<lambda>_. Some ''r2'')"
  define good where "good c \<longleftrightarrow> standing_proposals c = [''1'', ''2''] \<and> review c = ''awaiting-review'' \<and> change_condition c = ''stale''"
    for c :: proposed_change
  have "\<exists>s. ?st = Inr s \<and> s \<noteq> EnterpriseBaseline \<and> (\<forall>c. s = Proposed c \<longrightarrow> good c)"
    using standing_reports_the_live_changes [of "''A''" ?rs "\<lambda>_. Some ''r2''"]
    unfolding live(1) good_def ids using ne sub moved by (metis (no_types, lifting))
  then obtain s where "?st = Inr s" "s \<noteq> EnterpriseBaseline" "\<And>c. s = Proposed c \<Longrightarrow> good c" by blast
  then show ?thesis unfolding good_def by (cases s) auto
qed

section \<open>The set a submission carries\<close>

lemma live_changes_ids:
  assumes "distinct (map cr_id records)"
  shows "distinct (map pp_id (live_changes records))"
proof -
  have "distinct (map pp_id (List.map_filter decode_change rs)) \<and> pp_id ` set (List.map_filter decode_change rs) \<subseteq> cr_id ` set rs"
    if "distinct (map cr_id rs)" for rs
    using that
  proof (induction rs)
    case (Cons r rs)
    show ?case
    proof (cases "decode_change r")
      case (Some p)
      with Cons have "pp_id p \<notin> pp_id ` set (List.map_filter decode_change rs)"
        using decode_changeD(1) [OF Some] by auto
      with Cons Some decode_changeD(1) [OF Some] show ?thesis by (auto simp: map_filter_simps)
    qed (use Cons in \<open>auto simp: map_filter_simps\<close>)
  qed (simp add: map_filter_simps)
  moreover have "distinct (map cr_id (filter (\<lambda>r. cr_type r = PROPOSED_CHANGE_TYPE) records))"
    using assms by (rule distinct_map_filter)
  ultimately show ?thesis unfolding live_changes_def by blast
qed

lemma pending_members: "set (concat (map snd (pending_proposals records))) = set (live_changes records)"
proof -
  have d: "distinct (map fst (pending_proposals records))"
    using grouped_distinct [of "live_changes records"]
    by (simp add: pending_proposals_def comp_def case_prod_unfold)
  have "p \<in> set (concat (map snd (pending_proposals records))) \<longleftrightarrow>
      (\<exists>t ps. map_of (pending_proposals records) t = Some ps \<and> p \<in> set ps)" for p
    using d by (force simp: map_of_eq_Some_iff)
  moreover have "(\<exists>t ps. map_of (pending_proposals records) t = Some ps \<and> p \<in> set ps) \<longleftrightarrow> p \<in> set (live_changes records)" for p
  proof -
    have "(\<exists>ps. map_of (pending_proposals records) t = Some ps \<and> p \<in> set ps) \<longleftrightarrow> p \<in> set (on_target t (live_changes records))" for t
      by (auto simp: pending_lookup listed_def)
    then show ?thesis by (simp add: on_target_def)
  qed
  ultimately show ?thesis by blast
qed

lemma proposals_by_id_iff:
  assumes "distinct (map cr_id records)"
  shows "proposals_by_id (pending_proposals records) pid = Some p \<longleftrightarrow> p \<in> set (live_changes records) \<and> pp_id p = pid"
proof -
  let ?ps = "concat (map snd (pending_proposals records))"
  have inj: "inj_on pp_id (set ?ps)"
    using live_changes_ids [OF assms] by (simp only: pending_members distinct_map)
  have "proposals_by_id (pending_proposals records) pid = Some p \<Longrightarrow> p \<in> set ?ps \<and> pp_id p = pid"
    by (auto simp: proposals_by_id_def dest!: map_of_SomeD)
  moreover have "proposals_by_id (pending_proposals records) pid = Some p" if "p \<in> set ?ps" "pp_id p = pid"
  proof -
    have "proposals_by_id (pending_proposals records) pid \<noteq> None"
      using that by (auto simp: proposals_by_id_def map_of_eq_None_iff image_image)
    then obtain q where q: "proposals_by_id (pending_proposals records) pid = Some q" by blast
    then have "q \<in> set ?ps" "pp_id q = pid" by (auto simp: proposals_by_id_def dest!: map_of_SomeD)
    with that inj have "q = p" by (metis inj_onD)
    with q show ?thesis by simp
  qed
  ultimately show ?thesis unfolding pending_members by blast
qed

lemma compose_set_iff:
  assumes "distinct (map cr_id records)"
  shows "compose_set ids (pending_proposals records) = Inr ps \<longleftrightarrow>
    ids \<noteq> [] \<and> distinct ids \<and> map pp_id ps = ids \<and> set ps \<subseteq> set (live_changes records) \<and>
    (\<forall>p \<in> set ps. pp_state p = DRAFT_STATE) \<and>
    (\<forall>p \<in> set ps. \<forall>q \<in> set ps. p \<noteq> q \<longrightarrow> claims p \<inter> claims q = {})"
proof -
  let ?pend = "pending_proposals records"
  have valid: "validate_proposal_ids ids = Inr () \<longleftrightarrow> ids \<noteq> [] \<and> distinct ids"
    by (auto simp: validate_proposal_ids_def bind_result_eq_Inr card_distinct distinct_card)
  have live: "live ?pend pid = Inr p \<longleftrightarrow> p \<in> set (live_changes records) \<and> pp_id p = pid \<and> pp_state p = DRAFT_STATE" for pid p
  proof -
    have "live ?pend pid = Inr p \<longleftrightarrow> proposals_by_id ?pend pid = Some p \<and> pp_state p = DRAFT_STATE"
      by (auto simp: live_def split: option.splits)
    then show ?thesis unfolding proposals_by_id_iff [OF assms] by blast
  qed
  have all: "traverse (live ?pend) ids = Inr ps \<longleftrightarrow>
      map pp_id ps = ids \<and> set ps \<subseteq> set (live_changes records) \<and> (\<forall>p \<in> set ps. pp_state p = DRAFT_STATE)"
  proof -
    have "list_all2 (\<lambda>x y. y \<in> L \<and> pp_id y = x \<and> pp_state y = DRAFT_STATE) xs ys \<longleftrightarrow>
        map pp_id ys = xs \<and> set ys \<subseteq> L \<and> (\<forall>p \<in> set ys. pp_state p = DRAFT_STATE)" for xs ys L
      by (induction ys arbitrary: xs) (auto simp: list_all2_Cons2)
    then show ?thesis unfolding traverse_eq_Inr live .
  qed
  have overlap: "refuse_overlap [] ps = Inr () \<longleftrightarrow> (\<forall>p \<in> set ps. \<forall>q \<in> set ps. p \<noteq> q \<longrightarrow> claims p \<inter> claims q = {})"
    if "distinct (map pp_id ps)"
  proof -
    have "pp_id p = pp_id q \<longleftrightarrow> p = q" if "p \<in> set ps" "q \<in> set ps" for p q
      using that \<open>distinct (map pp_id ps)\<close> by (auto simp: distinct_map dest: inj_onD)
    then show ?thesis unfolding refuse_overlap_iff by (simp, blast)
  qed
  have "compose_set ids ?pend = Inr ps \<longleftrightarrow>
      validate_proposal_ids ids = Inr () \<and> traverse (live ?pend) ids = Inr ps \<and> refuse_overlap [] ps = Inr ()"
    by (auto simp: compose_set_def bind_result_eq_Inr split: sum.splits)
  then show ?thesis unfolding valid all using overlap by blast
qed

text \<open>
  Over a repository in which no two records share an id, a submission is composed exactly when the
  named ids are at least one and no two of them equal, every one names a live change that is still a draft, and no
  two of those changes write the same field of the same artifact, wherever they stand in the order. The
  composed set is then the named changes in the named order.
\<close>

theorem compose_set_accepts_exactly:
  assumes "distinct (map cr_id records)"
  shows "compose_set ids (pending_proposals records) = Inr ps \<longleftrightarrow>
    ids \<noteq> [] \<and> distinct ids \<and> map pp_id ps = ids \<and> set ps \<subseteq> set (live_changes records) \<and>
    (\<forall>p \<in> set ps. pp_state p = DRAFT_STATE) \<and>
    (\<forall>p \<in> set ps. \<forall>q \<in> set ps. p \<noteq> q \<longrightarrow> claims p \<inter> claims q = {})"
  by (rule compose_set_iff [OF assms])

theorem compose_set_accepts_exactly_witness:
  "let rs = [sample_change ''1'' ''draft'' ''A'' ''name'', sample_change ''2'' ''draft'' ''A'' ''notes''] in
     compose_set [''2'', ''1''] (pending_proposals rs) = Inr (rev (live_changes rs))"
proof -
  let ?rs = "[sample_change ''1'' ''draft'' ''A'' ''name'', sample_change ''2'' ''draft'' ''A'' ''notes'']"
  have d: "distinct (map cr_id ?rs)" by code_simp
  have "map pp_id (rev (live_changes ?rs)) = [''2'', ''1'']" by code_simp
  moreover have "\<forall>p \<in> set (rev (live_changes ?rs)). pp_state p = DRAFT_STATE" by code_simp
  moreover have "\<forall>p \<in> set (rev (live_changes ?rs)). \<forall>q \<in> set (rev (live_changes ?rs)). p \<noteq> q \<longrightarrow> claims p \<inter> claims q = {}"
    by code_simp
  ultimately have "compose_set [''2'', ''1''] (pending_proposals ?rs) = Inr (rev (live_changes ?rs))"
    unfolding compose_set_accepts_exactly [OF d] by simp
  then show ?thesis by simp
qed

end
