(* ===== verification/Change_Recording.thy ===== *)
theory Change_Recording
  imports Proposals
begin

text \<open>
  The decisions about a change that need no repository: how two readings of a field are compared
  (\<^verbatim>\<open>edit_field_values.py\<close>), whether an artifact already says what a change asks
  (\<^verbatim>\<open>integration_detection.py\<close>), what a further edit does to what is pending (\<^verbatim>\<open>change_recording.py\<close>), how a
  pending change is shown over its baseline (\<^verbatim>\<open>proposal_composition.py\<close>) and where a change stands against
  a moved artifact (\<^verbatim>\<open>change_rebase.py\<close>), all of \<^verbatim>\<open>src/application/modeling\<close>. A \<^verbatim>\<open>dict\<close> is an association
  list in insertion order; the sections parsed out of an entity's text come with the record.
\<close>

section \<open>Field values\<close>

fun comparable :: "pyval \<Rightarrow> pyval" where
  "comparable (PStr s) = PStr (py_strip s)"
| "comparable (PDict kvs) =
     PTuple (map (\<lambda>(k, v). PTuple [PStr k, v]) (sort_key fst (map (\<lambda>(k, v). (k, comparable v)) kvs)))"
| "comparable (PList vs) = PTuple (map comparable vs)"
| "comparable (PTuple vs) = PTuple (map comparable vs)"
| "comparable PNone = PNone"
| "comparable (PBool b) = PBool b"
| "comparable (PInt i) = PInt i"

text \<open>Python's equality on what \<^const>\<open>comparable\<close> returns: a truth value equals the integer it is.\<close>

fun eq_form :: "pyval \<Rightarrow> pyval" where
  "eq_form (PBool b) = PInt (if b then 1 else 0)"
| "eq_form (PTuple vs) = PTuple (map eq_form vs)"
| "eq_form v = v"

definition same_value :: "pyval \<Rightarrow> pyval \<Rightarrow> bool" where
  "same_value a b \<longleftrightarrow> eq_form (comparable a) = eq_form (comparable b)"

record entity_reading =
  er_name :: string
  er_status :: string
  er_version :: string
  er_group :: string
  er_keywords :: "string list"
  er_specializations :: "string list"
  er_sections :: payload
  er_extra :: payload

record document_reading =
  dr_title :: string
  dr_status :: string
  dr_group :: string
  dr_keywords :: "string list"
  dr_last_updated :: "string option"

datatype target_record = EntityTarget entity_reading | DocumentTarget document_reading | OtherTarget

definition current_entity_values :: "entity_reading \<Rightarrow> payload" where
  "current_entity_values r =
     [(''name'', PStr (er_name r)), (''status'', PStr (er_status r)), (''version'', PStr (er_version r)),
      (''group'', PStr (er_group r)), (''keywords'', PTuple (map PStr (er_keywords r))),
      (''specializations'', PTuple (map PStr (er_specializations r))),
      (''summary'', get_or (er_sections r) ''summary'' PNone),
      (''properties'', get_or (er_sections r) ''properties'' PNone),
      (''notes'', get_or (er_sections r) ''notes'' PNone),
      (''attribute_types'', get_or (er_extra r) ''attribute-types'' PNone)]"

definition current_document_values :: "document_reading \<Rightarrow> payload" where
  "current_document_values r =
     [(''title'', PStr (dr_title r)), (''status'', PStr (dr_status r)), (''group'', PStr (dr_group r)),
      (''keywords'', PTuple (map PStr (dr_keywords r))),
      (''last_updated'', case dr_last_updated r of None \<Rightarrow> PNone | Some s \<Rightarrow> PStr s)]"

definition current_values_of :: "target_record option \<Rightarrow> payload option" where
  "current_values_of t =
     (case t of
        Some (EntityTarget r) \<Rightarrow> Some (current_entity_values r)
      | Some (DocumentTarget r) \<Rightarrow> Some (current_document_values r)
      | _ \<Rightarrow> None)"

section \<open>Integration\<close>

record integration_verdict =
  integrated :: bool
  matching :: "string list"
  differing :: "string list"
  undecidable :: "string list"

text \<open>What the artifact says about a field, if it says anything.\<close>

definition field_reading :: "payload \<Rightarrow> string \<Rightarrow> pyval option" where
  "field_reading current f =
     (case map_of current f of None \<Rightarrow> None | Some v \<Rightarrow> if v = PNone then None else Some v)"

definition file_field :: "payload \<Rightarrow> string \<times> pyval \<Rightarrow> integration_verdict \<Rightarrow> integration_verdict" where
  "file_field current fv acc =
     (case field_reading current (fst fv) of
        None \<Rightarrow> acc\<lparr>undecidable := undecidable acc @ [fst fv]\<rparr>
      | Some v \<Rightarrow>
          if same_value v (snd fv) then acc\<lparr>matching := matching acc @ [fst fv]\<rparr>
          else acc\<lparr>differing := differing acc @ [fst fv]\<rparr>)"

definition integration_verdict_for :: "proposal_edit \<Rightarrow> payload option \<Rightarrow> integration_verdict" where
  "integration_verdict_for e current =
     (case current of
        None \<Rightarrow> \<lparr>integrated = False, matching = [], differing = [],
                  undecidable = sort (map fst (edit_fields e))\<rparr>
      | Some cur \<Rightarrow>
          let acc = fold (file_field cur) (sort_key fst (edit_fields e))
                \<lparr>integrated = False, matching = [], differing = [], undecidable = []\<rparr> in
          acc\<lparr>integrated := matching acc \<noteq> [] \<and> differing acc = [] \<and> undecidable acc = []\<rparr>)"

section \<open>What a further edit does\<close>

datatype change_outcome =
    RecordNew proposal_edit
  | ReviseDraft string proposal_edit
  | SupersedeSubmitted "string list" string proposal_edit
  | WithdrawEmptied "string list"

datatype recording_error =
    ChangesNothingAtAll
  | NothingToPropose
  | NotRecordable edit_error

text \<open>\<^verbatim>\<open>dict.update\<close>: an existing key keeps its place, a new one goes to the end.\<close>

definition dict_update :: "payload \<Rightarrow> payload \<Rightarrow> payload" where
  "dict_update d kvs = fold (\<lambda>(k, v). AList.update k v) kvs d"

definition agrees_with :: "payload option \<Rightarrow> string \<Rightarrow> pyval \<Rightarrow> bool" where
  "agrees_with baseline f v \<longleftrightarrow>
     (case baseline of
        None \<Rightarrow> False
      | Some b \<Rightarrow> (case field_reading b f of None \<Rightarrow> False | Some w \<Rightarrow> same_value w v))"

definition differing_from :: "payload \<Rightarrow> payload option \<Rightarrow> payload" where
  "differing_from d baseline = filter (\<lambda>(f, v). \<not> agrees_with baseline f v) d"

definition merged_fields :: "pending_proposal list \<Rightarrow> payload \<Rightarrow> payload" where
  "merged_fields ps d = dict_update (fold (\<lambda>p m. dict_update m (edit_fields (pp_edit p))) ps []) d"

definition base_of :: "pending_proposal list \<Rightarrow> string" where
  "base_of ps = Min (set (map pp_base_revision ps))"

definition as_edit :: "string \<Rightarrow> string \<Rightarrow> payload \<Rightarrow> (recording_error, proposal_edit) result" where
  "as_edit kind target d =
     (case mk_edit (PStr kind) target d of Inl e \<Rightarrow> Err (NotRecordable e) | Inr e \<Rightarrow> Ok e)"

definition decide ::
    "string \<Rightarrow> string \<Rightarrow> payload \<Rightarrow> pending_proposal list \<Rightarrow> string set \<Rightarrow> payload option
      \<Rightarrow> (recording_error, change_outcome) result" where
  "decide kind target d pending carried baseline =
     (if d = [] then Err ChangesNothingAtAll
      else case sort_key pp_id pending of
        [] \<Rightarrow>
          (let proposed = differing_from d baseline in
           if proposed = [] then Err NothingToPropose
           else bind_result (as_edit kind target proposed) (\<lambda>e. Ok (RecordNew e)))
      | p # ps \<Rightarrow>
          (let merged = differing_from (merged_fields (p # ps) d) baseline in
           if merged = [] then Ok (WithdrawEmptied (map pp_id (p # ps)))
           else bind_result (as_edit kind target merged) (\<lambda>e.
             if ps = [] \<and> pp_state p = DRAFT_STATE \<and> pp_id p \<notin> carried
             then Ok (ReviseDraft (pp_id p) e)
             else Ok (SupersedeSubmitted (map pp_id (p # ps)) (base_of (p # ps)) e))))"

section \<open>The composed view\<close>

definition composed_view :: "payload \<Rightarrow> pending_proposal list \<Rightarrow> string \<Rightarrow> payload" where
  "composed_view baseline ps kind =
     fold (\<lambda>p view. if edit_kind (pp_edit p) \<noteq> kind then view
                    else dict_update view (filter (\<lambda>(f, v). f \<in> fst ` set baseline) (edit_fields (pp_edit p))))
       (sort_key pp_id ps) baseline"

definition composed_fields :: "pending_proposal list \<Rightarrow> string \<Rightarrow> string list" where
  "composed_fields ps kind =
     sorted_list_of_set (\<Union>p \<in> set (filter (\<lambda>p. edit_kind (pp_edit p) = kind) ps). field_set (edit_fields (pp_edit p)))"

section \<open>Rehearsing a rebase\<close>

datatype rebase_outcome = Clean | Superseded | Conflicting

datatype rebase_reason = NotThereAnyMore string | AlreadySaid string | Refusal string | Replays string

record classified_change =
  cc_id :: string
  cc_target :: string
  cc_outcome :: rebase_outcome
  cc_reason :: rebase_reason

text \<open>
  The two capabilities handed in read and write one worktree, so the state of the worktree is threaded through:
  a later change is judged against what an earlier one wrote.
\<close>

definition classify ::
    "('w \<Rightarrow> string \<Rightarrow> target_record option) \<Rightarrow> (proposal_edit \<Rightarrow> 'w \<Rightarrow> string option \<times> 'w) \<Rightarrow> string \<times> proposal_edit
      \<Rightarrow> 'w \<Rightarrow> classified_change \<times> 'w" where
  "classify target_of replay change w =
     (let pid = fst change; e = snd change; art = edit_artifact e in
      case target_of w art of
        None \<Rightarrow> (\<lparr>cc_id = pid, cc_target = art, cc_outcome = Conflicting, cc_reason = NotThereAnyMore art\<rparr>, w)
      | Some t \<Rightarrow>
          if integrated (integration_verdict_for e (current_values_of (Some t)))
          then (\<lparr>cc_id = pid, cc_target = art, cc_outcome = Superseded, cc_reason = AlreadySaid art\<rparr>, w)
          else (case replay e w of
                  (Some refusal, w') \<Rightarrow>
                    (\<lparr>cc_id = pid, cc_target = art, cc_outcome = Conflicting, cc_reason = Refusal refusal\<rparr>, w')
                | (None, w') \<Rightarrow>
                    (\<lparr>cc_id = pid, cc_target = art, cc_outcome = Clean, cc_reason = Replays art\<rparr>, w')))"

fun rehearse_rebase ::
    "('w \<Rightarrow> string \<Rightarrow> target_record option) \<Rightarrow> (proposal_edit \<Rightarrow> 'w \<Rightarrow> string option \<times> 'w) \<Rightarrow> (string \<times> proposal_edit) list
      \<Rightarrow> 'w \<Rightarrow> classified_change list" where
  "rehearse_rebase target_of replay [] w = []"
| "rehearse_rebase target_of replay (change # changes) w =
     (case classify target_of replay change w of (c, w') \<Rightarrow> c # rehearse_rebase target_of replay changes w')"

definition with_outcome :: "rebase_outcome \<Rightarrow> classified_change list \<Rightarrow> classified_change list" where
  "with_outcome oc cs = filter (\<lambda>c. cc_outcome c = oc) cs"

definition can_proceed :: "classified_change list \<Rightarrow> bool" where
  "can_proceed cs \<longleftrightarrow> with_outcome Conflicting cs = [] \<and> with_outcome Clean cs \<noteq> []"

section \<open>Dictionaries\<close>

abbreviation is_dict :: "payload \<Rightarrow> bool" where
  "is_dict d \<equiv> distinct (map fst d)"

lemma dict_update_Nil [simp]: "dict_update d [] = d"
  by (simp add: dict_update_def)

lemma dict_update_Cons: "dict_update d ((k, v) # kvs) = dict_update (AList.update k v d) kvs"
  by (simp add: dict_update_def)

lemma dict_update_lookup:
  "is_dict kvs \<Longrightarrow>
     map_of (dict_update d kvs) f = (case map_of kvs f of Some v \<Rightarrow> Some v | None \<Rightarrow> map_of d f)"
proof (induction kvs arbitrary: d)
  case (Cons kv kvs)
  obtain k v where kv: "kv = (k, v)" by (cases kv)
  from Cons.prems kv have "map_of kvs k = None" by (simp add: map_of_eq_None_iff)
  with Cons kv show ?case
    by (auto simp: dict_update_Cons update_conv split: option.splits)
qed simp

lemma dict_update_is_dict: "is_dict d \<Longrightarrow> is_dict (dict_update d kvs)"
  by (induction kvs arbitrary: d) (auto simp: dict_update_Cons distinct_update)

lemma dict_update_keys:
  "fst ` set kvs \<subseteq> fst ` set d \<Longrightarrow> map fst (dict_update d kvs) = map fst d"
proof (induction kvs arbitrary: d)
  case (Cons kv kvs)
  obtain k v where kv: "kv = (k, v)" by (cases kv)
  from Cons.prems kv have "k \<in> set (map fst d)" by auto
  then have "map fst (AList.update k v d) = map fst d" by (simp add: update_keys)
  moreover from this have "fst ` set (AList.update k v d) = fst ` set d" by (metis list.set_map)
  ultimately show ?case using Cons kv by (simp add: dict_update_Cons)
qed simp

text \<open>The value the last of the changes gives a field, if one names it.\<close>

definition pending_value :: "pending_proposal list \<Rightarrow> string \<Rightarrow> pyval option" where
  "pending_value ps f =
     fold (\<lambda>p acc. case map_of (edit_fields (pp_edit p)) f of None \<Rightarrow> acc | Some v \<Rightarrow> Some v) ps None"

lemma fold_edits_lookup:
  assumes "\<forall>p \<in> set ps. is_dict (edit_fields (pp_edit p))"
  shows "map_of (fold (\<lambda>p m. dict_update m (edit_fields (pp_edit p))) ps []) f = pending_value ps f"
  using assms
  by (induction ps rule: rev_induct)
    (auto simp: pending_value_def dict_update_lookup split: option.splits)

lemma fold_edits_is_dict: "is_dict (fold (\<lambda>p m. dict_update m (edit_fields (pp_edit p))) ps [])"
  by (induction ps rule: rev_induct) (auto intro: dict_update_is_dict)

lemma merged_fields_lookup:
  assumes "\<forall>p \<in> set ps. is_dict (edit_fields (pp_edit p))" and "is_dict d"
  shows "map_of (merged_fields ps d) f = (case map_of d f of Some v \<Rightarrow> Some v | None \<Rightarrow> pending_value ps f)"
  using assms by (simp add: merged_fields_def dict_update_lookup fold_edits_lookup [OF assms(1)] split: option.split)

lemma merged_fields_is_dict: "is_dict (merged_fields ps d)"
  by (simp add: merged_fields_def dict_update_is_dict fold_edits_is_dict)

lemma differing_from_lookup:
  assumes "is_dict d"
  shows "map_of (differing_from d b) f =
    (case map_of d f of None \<Rightarrow> None | Some v \<Rightarrow> if agrees_with b f v then None else Some v)"
proof -
  have "map_of (differing_from d b) f = Some v \<longleftrightarrow> map_of d f = Some v \<and> \<not> agrees_with b f v" for v
  proof -
    have "is_dict (differing_from d b)" using assms by (simp add: differing_from_def distinct_map_filter)
    then have "map_of (differing_from d b) f = Some v \<longleftrightarrow> (f, v) \<in> set (differing_from d b)"
      by (rule map_of_eq_Some_iff)
    also have "\<dots> \<longleftrightarrow> map_of d f = Some v \<and> \<not> agrees_with b f v"
      using map_of_eq_Some_iff [OF assms] by (auto simp: differing_from_def)
    finally show ?thesis .
  qed
  note found = this
  show ?thesis
  proof (cases "map_of (differing_from d b) f")
    case None
    then have "map_of d f = Some v \<Longrightarrow> agrees_with b f v" for v using found [of v] by simp
    with None show ?thesis by (simp split: option.split)
  next
    case (Some v)
    with found [of v] show ?thesis by simp
  qed
qed

section \<open>Verdicts\<close>

lemma fold_file_field:
  "fold (file_field cur) xs acc = acc\<lparr>
     matching := matching acc @
       map fst (filter (\<lambda>(f, x). \<exists>w. field_reading cur f = Some w \<and> same_value w x) xs),
     differing := differing acc @
       map fst (filter (\<lambda>(f, x). \<exists>w. field_reading cur f = Some w \<and> \<not> same_value w x) xs),
     undecidable := undecidable acc @ map fst (filter (\<lambda>(f, x). field_reading cur f = None) xs)\<rparr>"
proof (induction xs arbitrary: acc)
  case (Cons fx xs)
  obtain f x where "fx = (f, x)" by (cases fx)
  with Cons show ?case
    by (cases "field_reading cur f") (auto simp: file_field_def)
qed simp

lemma filters_decide:
  assumes "\<And>x. m x \<longleftrightarrow> \<not> d x \<and> \<not> u x"
  shows "filter m xs \<noteq> [] \<and> filter d xs = [] \<and> filter u xs = [] \<longleftrightarrow> xs \<noteq> [] \<and> (\<forall>x \<in> set xs. m x)"
  unfolding assms by (cases xs) (auto simp: filter_empty_conv)

text \<open>
  An artifact counts as carrying a change exactly when it could be read, and every recorded
  field has a reading that equals the recorded value, up to the edges of strings, the kind of sequence and
  the order of mappings. Every recorded field is reported once, in one of the three lists, and each list
  is sorted; an artifact that cannot be read leaves every field undecidable.
\<close>

theorem integration_verdict_exact:
  "let v = integration_verdict_for e current in
   (integrated v \<longleftrightarrow> (\<exists>cur. current = Some cur \<and> edit_fields e \<noteq> [] \<and>
      (\<forall>(f, x) \<in> set (edit_fields e). \<exists>w. field_reading cur f = Some w \<and> same_value w x))) \<and>
   mset (matching v @ differing v @ undecidable v) = mset (map fst (edit_fields e)) \<and>
   sorted (matching v) \<and> sorted (differing v) \<and> sorted (undecidable v) \<and>
   (current = None \<longrightarrow> set (undecidable v) = field_set (edit_fields e))"
proof (cases current)
  case None
  then show ?thesis by (simp add: integration_verdict_for_def)
next
  case (Some cur)
  let ?xs = "sort_key fst (edit_fields e)"
  let ?m = "\<lambda>(f, x). \<exists>w. field_reading cur f = Some w \<and> same_value w x"
  let ?d = "\<lambda>(f, x). \<exists>w. field_reading cur f = Some w \<and> \<not> same_value w x"
  let ?u = "\<lambda>(f, x :: pyval). field_reading cur f = None"
  have parts: "matching (integration_verdict_for e current) = map fst (filter ?m ?xs)"
    "differing (integration_verdict_for e current) = map fst (filter ?d ?xs)"
    "undecidable (integration_verdict_for e current) = map fst (filter ?u ?xs)"
    by (simp_all add: Some integration_verdict_for_def fold_file_field Let_def)
  have sorted_part: "sorted (map fst (filter P ?xs))" for P :: "string \<times> pyval \<Rightarrow> bool"
    using sorted_filter [of fst ?xs P] by simp
  have all: "mset (map fst (filter ?m ?xs) @ map fst (filter ?d ?xs) @ map fst (filter ?u ?xs)) =
      mset (map fst (edit_fields e))"
  proof -
    have "mset (map fst (filter ?m xs) @ map fst (filter ?d xs) @ map fst (filter ?u xs)) = mset (map fst xs)" for xs
      by (induction xs) (auto split: prod.splits)
    from this [of ?xs] show ?thesis by simp
  qed
  have "integrated (integration_verdict_for e current) \<longleftrightarrow> filter ?m ?xs \<noteq> [] \<and> filter ?d ?xs = [] \<and> filter ?u ?xs = []"
    by (simp add: Some integration_verdict_for_def fold_file_field Let_def)
  also have "\<dots> \<longleftrightarrow> ?xs \<noteq> [] \<and> (\<forall>fx \<in> set ?xs. ?m fx)"
  proof (rule filters_decide)
    show "?m fx \<longleftrightarrow> \<not> ?d fx \<and> \<not> ?u fx" for fx
      by (cases fx; cases "field_reading cur (fst fx)") auto
  qed
  also have "\<dots> \<longleftrightarrow> edit_fields e \<noteq> [] \<and> (\<forall>fx \<in> set (edit_fields e). ?m fx)"
    by (simp flip: set_empty2 add: set_sort)
  finally show ?thesis unfolding Let_def parts all using Some sorted_part by simp
qed

section \<open>One change per artifact\<close>

definition wanted :: "payload \<Rightarrow> pending_proposal list \<Rightarrow> string \<Rightarrow> pyval option" where
  "wanted d pending f =
     (case map_of d f of Some v \<Rightarrow> Some v | None \<Rightarrow> pending_value (sort_key pp_id pending) f)"

definition still_wanted ::
    "payload \<Rightarrow> pending_proposal list \<Rightarrow> payload option \<Rightarrow> string \<Rightarrow> pyval option" where
  "still_wanted d pending baseline f =
     (case wanted d pending f of
        None \<Rightarrow> None
      | Some v \<Rightarrow> if agrees_with baseline f v then None else Some v)"

definition asks_for :: "string \<Rightarrow> string \<Rightarrow> (string \<Rightarrow> pyval option) \<Rightarrow> proposal_edit \<Rightarrow> bool" where
  "asks_for kind target vals e \<longleftrightarrow>
     edit_ok e \<and> edit_kind e = kind \<and> edit_artifact e = target \<and> is_dict (edit_fields e) \<and>
     map_of (edit_fields e) = vals"

lemma as_edit_iff:
  "as_edit kind target d = Inr e \<longleftrightarrow> e = \<lparr>edit_kind = kind, edit_artifact = target, edit_fields = d\<rparr> \<and> edit_ok e"
proof (cases "mk_edit (PStr kind) target d")
  case (Inl x)
  then have "\<not> edit_ok \<lparr>edit_kind = kind, edit_artifact = target, edit_fields = d\<rparr>"
    using mk_edit_iff [of "PStr kind" target d "\<lparr>edit_kind = kind, edit_artifact = target, edit_fields = d\<rparr>"] by simp
  with Inl show ?thesis by (auto simp: as_edit_def)
next
  case (Inr e')
  then show ?thesis using mk_edit_iff [of "PStr kind" target d e'] by (cases e') (auto simp: as_edit_def)
qed

lemma decide_recorded:
  assumes "is_dict d" and "\<forall>p \<in> set pending. is_dict (edit_fields (pp_edit p))"
  shows "is_dict (differing_from d b)"
    "is_dict (differing_from (merged_fields (sort_key pp_id pending) d) b)"
    "pending = [] \<Longrightarrow> map_of (differing_from d b) = still_wanted d pending b"
    "map_of (differing_from (merged_fields (sort_key pp_id pending) d) b) = still_wanted d pending b"
  using assms
  by (auto simp: differing_from_def distinct_map_filter merged_fields_is_dict)
    (auto simp: fun_eq_iff differing_from_lookup [unfolded differing_from_def] merged_fields_is_dict
      merged_fields_lookup still_wanted_def wanted_def pending_value_def split: option.splits)

definition revisable :: "pending_proposal list \<Rightarrow> string set \<Rightarrow> bool" where
  "revisable pending carried \<longleftrightarrow>
     (\<exists>p. pending = [p] \<and> pp_state p = DRAFT_STATE \<and> pp_id p \<notin> carried)"

lemma sort_key_singleton: "sort_key f xs = [x] \<longleftrightarrow> xs = [x]"
proof
  assume "sort_key f xs = [x]"
  then have "mset xs = {#x#}" by (metis mset_sort mset_single_iff_right)
  then show "xs = [x]" by simp
qed simp

lemma map_of_None_iff_Nil: "(\<forall>f. map_of d f = None) \<longleftrightarrow> d = []"
  by (cases d) (auto simp: map_of_eq_None_iff)

lemma decide_pending:
  assumes "is_dict d" and "\<forall>p \<in> set pending. is_dict (edit_fields (pp_edit p))"
    and "d \<noteq> []" and "pending \<noteq> []"
  shows "decide kind target d pending carried baseline =
    (let merged = differing_from (merged_fields (sort_key pp_id pending) d) baseline in
     if merged = [] then Ok (WithdrawEmptied (sort (map pp_id pending)))
     else bind_result (as_edit kind target merged) (\<lambda>e.
       if revisable pending carried then Ok (ReviseDraft (pp_id (hd pending)) e)
       else Ok (SupersedeSubmitted (sort (map pp_id pending)) (base_of pending) e)))"
proof -
  obtain p ps where ps: "sort_key pp_id pending = p # ps"
    using assms(4) by (cases "sort_key pp_id pending") (simp_all flip: set_empty2 add: set_sort)
  have ids: "map pp_id (p # ps) = sort (map pp_id pending)"
    unfolding ps [symmetric] by (rule properties_for_sort [symmetric]) simp_all
  have bases: "base_of (p # ps) = base_of pending"
    unfolding ps [symmetric] base_of_def by simp
  have "ps = [] \<and> pp_state p = DRAFT_STATE \<and> pp_id p \<notin> carried \<longleftrightarrow> revisable pending carried"
    using sort_key_singleton [of pp_id pending p] ps by (auto simp: revisable_def)
  moreover have "pp_id p = pp_id (hd pending)" if "revisable pending carried"
    using that ps by (auto simp: revisable_def)
  ultimately show ?thesis
    using assms(3) ids bases by (simp add: decide_def ps Let_def cong: if_cong)
qed

lemma as_edit_dict:
  assumes "is_dict m" and "map_of m = vals" and "m \<noteq> []"
  shows "(\<exists>e. as_edit kind target m = Inl e) \<longleftrightarrow>
      \<not> (kind \<in> set PROPOSABLE \<and> target \<noteq> [] \<and> (\<forall>f. vals f \<noteq> None \<longrightarrow> f \<in> CONTENT kind))"
    and "as_edit kind target m = Inr e \<Longrightarrow> asks_for kind target vals e"
proof -
  let ?e = "\<lparr>edit_kind = kind, edit_artifact = target, edit_fields = m\<rparr>"
  have "f \<in> field_set m \<longleftrightarrow> vals f \<noteq> None" for f
    unfolding assms(2) [symmetric] by (simp add: map_of_eq_None_iff)
  then have "field_set m \<subseteq> CONTENT kind \<longleftrightarrow> (\<forall>f. vals f \<noteq> None \<longrightarrow> f \<in> CONTENT kind)" by blast
  then have ok: "edit_ok ?e \<longleftrightarrow> kind \<in> set PROPOSABLE \<and> target \<noteq> [] \<and> (\<forall>f. vals f \<noteq> None \<longrightarrow> f \<in> CONTENT kind)"
    using assms(3) by (simp add: edit_ok_def)
  have "(\<exists>e. as_edit kind target m = Inl e) \<longleftrightarrow> \<not> edit_ok ?e"
  proof (cases "as_edit kind target m")
    case (Inl x)
    with as_edit_iff [of kind target m ?e] show ?thesis by simp
  next
    case (Inr e')
    with as_edit_iff [of kind target m e'] show ?thesis by auto
  qed
  then show "(\<exists>e. as_edit kind target m = Inl e) \<longleftrightarrow>
      \<not> (kind \<in> set PROPOSABLE \<and> target \<noteq> [] \<and> (\<forall>f. vals f \<noteq> None \<longrightarrow> f \<in> CONTENT kind))"
    unfolding ok .
  show "as_edit kind target m = Inr e \<Longrightarrow> asks_for kind target vals e"
    using assms by (auto simp: as_edit_iff asks_for_def)
qed

text \<open>
  A further edit never adds a second change to an artifact, and never loses a first one. What is
  recorded asks for every field the author wants now (the new edit's values, then those of what was
  pending, the later id winning) without those the artifact already has. It becomes a new change only
  where none is pending; rewrites a change in place only if that is the one pending, nobody was shown it and
  no submission carries it; otherwise it replaces all pending changes, with the oldest of their base
  revisions; and when nothing is left to ask, all of them are withdrawn. It is refused exactly when it
  is empty, when there is nothing to ask and nothing pending, or when what is to be asked is outside the
  vocabulary of the kind.
\<close>

theorem further_edit_replaces_what_is_pending:
  assumes "is_dict d" and "\<forall>p \<in> set pending. is_dict (edit_fields (pp_edit p))"
  shows "(\<forall>out. decide kind target d pending carried baseline = Ok out \<longrightarrow>
     (case out of
        RecordNew e \<Rightarrow> pending = [] \<and> asks_for kind target (still_wanted d pending baseline) e
      | ReviseDraft pid e \<Rightarrow> revisable pending carried \<and> pid = pp_id (hd pending) \<and>
          asks_for kind target (still_wanted d pending baseline) e
      | SupersedeSubmitted ids base e \<Rightarrow> pending \<noteq> [] \<and> \<not> revisable pending carried \<and>
          ids = sort (map pp_id pending) \<and> base = Min (set (map pp_base_revision pending)) \<and>
          asks_for kind target (still_wanted d pending baseline) e
      | WithdrawEmptied ids \<Rightarrow> pending \<noteq> [] \<and> ids = sort (map pp_id pending) \<and>
          (\<forall>f. still_wanted d pending baseline f = None))) \<and>
   ((\<exists>e. decide kind target d pending carried baseline = Err e) \<longleftrightarrow>
      d = [] \<or> (pending = [] \<and> (\<forall>f. still_wanted d pending baseline f = None)) \<or>
      ((\<exists>f. still_wanted d pending baseline f \<noteq> None) \<and>
       \<not> (kind \<in> set PROPOSABLE \<and> target \<noteq> [] \<and>
          (\<forall>f. still_wanted d pending baseline f \<noteq> None \<longrightarrow> f \<in> CONTENT kind))))"
proof -
  let ?vals = "still_wanted d pending baseline"
  note recorded = decide_recorded [OF assms, of baseline]
  consider "d = []" | "d \<noteq> []" "pending = []" | "d \<noteq> []" "pending \<noteq> []" by blast
  then show ?thesis
  proof cases
    case 1
    then show ?thesis by (simp add: decide_def)
  next
    case 2
    let ?m = "differing_from d baseline"
    have val: "map_of ?m = ?vals" using recorded(3) 2 by simp
    have nil: "?m = [] \<longleftrightarrow> (\<forall>f. ?vals f = None)" unfolding val [symmetric] by (rule map_of_None_iff_Nil [symmetric])
    note ed = as_edit_dict [OF recorded(1) val, of kind target]
    have dec: "decide kind target d pending carried baseline =
        (if ?m = [] then Err NothingToPropose else bind_result (as_edit kind target ?m) (\<lambda>e. Ok (RecordNew e)))"
      using 2 by (simp add: decide_def Let_def)
    show ?thesis
    proof (cases "?m = []")
      case True
      with nil dec 2 show ?thesis by simp
    next
      case False
      with nil dec 2 ed show ?thesis by (cases "as_edit kind target ?m") auto
    qed
  next
    case 3
    let ?m = "differing_from (merged_fields (sort_key pp_id pending) d) baseline"
    have nil: "?m = [] \<longleftrightarrow> (\<forall>f. ?vals f = None)"
      unfolding recorded(4) [symmetric] by (rule map_of_None_iff_Nil [symmetric])
    note ed = as_edit_dict [OF recorded(2) recorded(4), of kind target]
    note dec = decide_pending [OF assms 3, of kind target carried baseline, unfolded Let_def]
    show ?thesis
    proof (cases "?m = []")
      case True
      with nil dec 3 show ?thesis by simp
    next
      case False
      with nil dec 3 ed show ?thesis
        by (cases "as_edit kind target ?m"; cases "revisable pending carried") (auto simp: base_of_def)
    qed
  qed
qed

definition sample_pending :: pending_proposal where
  "sample_pending = \<lparr>pp_id = ''P'', pp_target = ''A'', pp_reference = ''G'', pp_changed_fields = [''name'', ''notes''],
     pp_base_revision = ''r1'', pp_state = ''submitted'',
     pp_edit = \<lparr>edit_kind = ''entity'', edit_artifact = ''A'',
       edit_fields = [(''name'', PStr ''n1''), (''notes'', PStr ''x'')]\<rparr>\<rparr>"

theorem integration_verdict_exact_witness:
  "let e = pp_edit sample_pending; v = integration_verdict_for e (Some [(''notes'', PStr '' x ''), (''name'', PStr ''n1'')]) in
   integrated v \<and> set (undecidable (integration_verdict_for e None)) = {''name'', ''notes''}"
proof -
  let ?e = "pp_edit sample_pending"
  let ?cur = "[(''notes'', PStr '' x ''), (''name'', PStr ''n1'')]"
  have "edit_fields ?e \<noteq> []"
    "\<forall>(f, x) \<in> set (edit_fields ?e). field_reading ?cur f \<noteq> None \<and> same_value (the (field_reading ?cur f)) x"
    by code_simp+
  then have "\<exists>cur. Some ?cur = Some cur \<and> edit_fields ?e \<noteq> [] \<and>
      (\<forall>(f, x) \<in> set (edit_fields ?e). \<exists>w. field_reading cur f = Some w \<and> same_value w x)" by fastforce
  moreover have "integrated (integration_verdict_for ?e (Some ?cur)) \<longleftrightarrow>
      (\<exists>cur. Some ?cur = Some cur \<and> edit_fields ?e \<noteq> [] \<and>
        (\<forall>(f, x) \<in> set (edit_fields ?e). \<exists>w. field_reading cur f = Some w \<and> same_value w x))"
    using integration_verdict_exact [of ?e "Some ?cur"] unfolding Let_def by (elim conjE)
  ultimately have "integrated (integration_verdict_for ?e (Some ?cur))" by (rule iffD2 [rotated])
  moreover have "set (undecidable (integration_verdict_for ?e None)) = field_set (edit_fields ?e)"
    using integration_verdict_exact [of ?e None] by (simp add: Let_def)
  moreover have "field_set (edit_fields ?e) = {''name'', ''notes''}" by (simp add: sample_pending_def)
  ultimately show ?thesis by (simp add: Let_def)
qed

theorem further_edit_replaces_what_is_pending_witness:
  "\<exists>e. decide ''entity'' ''A'' [(''name'', PStr ''n2'')] [sample_pending] {} None =
      Ok (SupersedeSubmitted [''P''] ''r1'' e) \<and>
    map_of (edit_fields e) ''name'' = Some (PStr ''n2'') \<and> map_of (edit_fields e) ''notes'' = Some (PStr ''x'')"
proof -
  let ?d = "[(''name'', PStr ''n2'')]"
  have dicts: "is_dict ?d" "\<forall>p \<in> set [sample_pending]. is_dict (edit_fields (pp_edit p))"
    by (simp_all add: sample_pending_def)
  have vals: "still_wanted ?d [sample_pending] None ''name'' = Some (PStr ''n2'')"
    "still_wanted ?d [sample_pending] None ''notes'' = Some (PStr ''x'')"
    by code_simp+
  obtain out where out: "decide ''entity'' ''A'' ?d [sample_pending] {} None = Ok out"
    "\<exists>e. out = SupersedeSubmitted [''P''] ''r1'' e"
  proof -
    have "case decide ''entity'' ''A'' ?d [sample_pending] {} None of
        Inr (SupersedeSubmitted ids base e) \<Rightarrow> ids = [''P''] \<and> base = ''r1'' | _ \<Rightarrow> False" by code_simp
    then show thesis using that by (auto split: sum.splits change_outcome.splits)
  qed
  then obtain e where e: "out = SupersedeSubmitted [''P''] ''r1'' e" by blast
  have "asks_for ''entity'' ''A'' (still_wanted ?d [sample_pending] None) e"
    using further_edit_replaces_what_is_pending [OF dicts, of "''entity''" "''A''" "{}" None] out(1) unfolding e by auto
  with vals have "map_of (edit_fields e) ''name'' = Some (PStr ''n2'')" "map_of (edit_fields e) ''notes'' = Some (PStr ''x'')"
    by (simp_all add: asks_for_def)
  with out(1) e show ?thesis by blast
qed

section \<open>What is recorded is a difference\<close>

definition outcome_edit :: "change_outcome \<Rightarrow> proposal_edit option" where
  "outcome_edit oc =
     (case oc of RecordNew e \<Rightarrow> Some e | ReviseDraft _ e \<Rightarrow> Some e | SupersedeSubmitted _ _ e \<Rightarrow> Some e
      | WithdrawEmptied _ \<Rightarrow> None)"

lemma decided_edit_fields:
  assumes "decide kind target d pending carried baseline = Inr out" and "outcome_edit out = Some e"
  shows "edit_ok e \<and> edit_artifact e = target \<and> edit_kind e = kind \<and>
    (\<forall>(f, v) \<in> set (edit_fields e). \<not> agrees_with baseline f v)"
proof -
  from assms obtain m where "edit_fields e = differing_from m baseline" "edit_ok e" "edit_artifact e = target" "edit_kind e = kind"
    by (auto simp: decide_def Let_def as_edit_iff bind_result_eq_Inr outcome_edit_def split: if_splits list.splits)
  then show ?thesis by (auto simp: differing_from_def)
qed

text \<open>
  What is recorded is never already integrated: judged against the very reading it was
  recorded with, no field of the recorded edit matches and the change is not integrated, so the next
  sweep does not close it; and where all its fields can be compared, every one of them differs.
\<close>

theorem recorded_change_is_a_difference:
  assumes "decide kind target d pending carried (Some reading) = Ok out" and "outcome_edit out = Some e"
  shows "matching (integration_verdict_for e (Some reading)) = [] \<and>
    \<not> integrated (integration_verdict_for e (Some reading)) \<and>
    (undecidable (integration_verdict_for e (Some reading)) = [] \<longrightarrow>
      differing (integration_verdict_for e (Some reading)) = sort (map fst (edit_fields e)))"
proof -
  have differs: "\<not> (\<exists>w. field_reading reading f = Some w \<and> same_value w v)" if "(f, v) \<in> set (edit_fields e)" for f v
    using decided_edit_fields [OF assms] that by (fastforce simp: agrees_with_def)
  have none: "filter (\<lambda>(f, x). \<exists>w. field_reading reading f = Some w \<and> same_value w x) (sort_key fst (edit_fields e)) = []"
    using differs by (auto simp: filter_empty_conv)
  have all_differ: "filter (\<lambda>(f, x). \<exists>w. field_reading reading f = Some w \<and> \<not> same_value w x) xs = xs"
    if "\<And>f v. (f, v) \<in> set xs \<Longrightarrow> \<not> (\<exists>w. field_reading reading f = Some w \<and> same_value w v)"
      and "map fst (filter (\<lambda>(f, x). field_reading reading f = None) xs) = []" for xs
    using that
  proof (induction xs)
    case (Cons fx xs)
    obtain f x where fx: "fx = (f, x)" by (cases fx)
    with Cons.prems(2) obtain w where "field_reading reading f = Some w"
      by (cases "field_reading reading f") auto
    moreover from this Cons.prems(1) [of f x] fx have "\<not> same_value w x" by auto
    ultimately show ?case using Cons fx by auto
  qed simp
  have "map fst (sort_key fst (edit_fields e)) = sort (map fst (edit_fields e))"
    by (rule properties_for_sort [symmetric]) simp_all
  then show ?thesis
    using none all_differ [of "sort_key fst (edit_fields e)"] differs
    by (simp add: integration_verdict_for_def fold_file_field Let_def)
qed

theorem recorded_change_is_a_difference_witness:
  "\<exists>e. decide ''entity'' ''A'' [(''name'', PStr ''n2''), (''notes'', PStr ''x'')] [] {} (Some [(''name'', PStr ''n1''), (''notes'', PStr ''x'')]) =
      Ok (RecordNew e) \<and> matching (integration_verdict_for e (Some [(''name'', PStr ''n1''), (''notes'', PStr ''x'')])) = []"
proof -
  let ?r = "[(''name'', PStr ''n1''), (''notes'', PStr ''x'')]"
  let ?e = "\<lparr>edit_kind = ''entity'', edit_artifact = ''A'', edit_fields = [(''name'', PStr ''n2'')]\<rparr>"
  have "decide ''entity'' ''A'' [(''name'', PStr ''n2''), (''notes'', PStr ''x'')] [] {} (Some ?r) = Ok (RecordNew ?e)"
    by code_simp
  with recorded_change_is_a_difference [OF this, of ?e] show ?thesis by (simp add: outcome_edit_def)
qed

section \<open>What the author is shown\<close>

lemma pending_value_snoc:
  "pending_value (ps @ [p]) f =
     (case map_of (edit_fields (pp_edit p)) f of None \<Rightarrow> pending_value ps f | Some v \<Rightarrow> Some v)"
  by (simp add: pending_value_def split: option.split)

lemma pending_value_Nil [simp]: "pending_value [] f = None"
  by (simp add: pending_value_def)

lemma pending_value_exists:
  "(\<exists>v. pending_value ps f = Some v) \<longleftrightarrow> (\<exists>p \<in> set ps. f \<in> field_set (edit_fields (pp_edit p)))"
proof (induction ps rule: rev_induct)
  case (snoc p ps)
  have "map_of (edit_fields (pp_edit p)) f = None \<longleftrightarrow> f \<notin> field_set (edit_fields (pp_edit p))"
    by (rule map_of_eq_None_iff)
  with snoc show ?case by (cases "map_of (edit_fields (pp_edit p)) f") (simp_all add: pending_value_snoc)
qed simp

lemma map_of_filter_key:
  "map_of (filter (\<lambda>(f, v). f \<in> B) kvs) f = (if f \<in> B then map_of kvs f else None)"
  by (induction kvs) auto

definition lay_over :: "string set \<Rightarrow> string \<Rightarrow> pending_proposal \<Rightarrow> payload \<Rightarrow> payload" where
  "lay_over B kind p view =
     (if edit_kind (pp_edit p) \<noteq> kind then view
      else dict_update view (filter (\<lambda>(f, v). f \<in> B) (edit_fields (pp_edit p))))"

lemma lay_over_simps:
  "edit_kind (pp_edit p) \<noteq> kind \<Longrightarrow> lay_over B kind p view = view"
  "edit_kind (pp_edit p) = kind \<Longrightarrow>
     lay_over B kind p view = dict_update view (filter (\<lambda>(f, v). f \<in> B) (edit_fields (pp_edit p)))"
  by (simp_all add: lay_over_def)

lemma lay_over_fold:
  assumes "\<forall>p \<in> set ps. is_dict (edit_fields (pp_edit p))"
  shows "map fst (fold (lay_over (fst ` set baseline) kind) ps baseline) = map fst baseline"
    and "f \<in> fst ` set baseline \<Longrightarrow> map_of (fold (lay_over (fst ` set baseline) kind) ps baseline) f =
      (case pending_value (filter (\<lambda>p. edit_kind (pp_edit p) = kind) ps) f of
         Some v \<Rightarrow> Some v | None \<Rightarrow> map_of baseline f)"
  using assms
proof (induction ps rule: rev_induct)
  case Nil
  { case 1 show ?case by simp next case 2 show ?case by simp }
next
  case (snoc p ps)
  let ?B = "fst ` set baseline"
  let ?view = "fold (lay_over ?B kind) ps baseline"
  let ?kvs = "filter (\<lambda>(f, v). f \<in> ?B) (edit_fields (pp_edit p))"
  {
    case 1
    then have keys: "map fst ?view = map fst baseline" using snoc.IH(1) by simp
    then have "fst ` set ?view = fst ` set baseline" by (metis list.set_map)
    moreover have "fst ` set ?kvs \<subseteq> fst ` set baseline" by force
    ultimately have "fst ` set ?kvs \<subseteq> fst ` set ?view" by simp
    with keys show ?case
      by (cases "edit_kind (pp_edit p) = kind") (simp_all add: lay_over_simps dict_update_keys)
  next
    case 2
    then have "is_dict ?kvs" by (simp add: distinct_map_filter)
    moreover have "map_of ?view f = (case pending_value (filter (\<lambda>p. edit_kind (pp_edit p) = kind) ps) f of
         Some v \<Rightarrow> Some v | None \<Rightarrow> map_of baseline f)"
      using 2 snoc.IH(2) by simp
    ultimately show ?case using 2
      by (cases "map_of (edit_fields (pp_edit p)) f"; cases "edit_kind (pp_edit p) = kind")
        (simp_all add: lay_over_simps dict_update_lookup map_of_filter_key pending_value_snoc)
  }
qed

text \<open>
  A read of an artifact with pending changes carries exactly the baseline's fields, in their
  order, each with the value the last change of that kind gives it, by id and whatever order they were
  gathered in, or else the baseline's; and a field is named as composed exactly when some change of that
  kind names it.
\<close>

theorem composed_view_shows_what_is_pending:
  assumes "\<forall>p \<in> set ps. is_dict (edit_fields (pp_edit p))"
  shows "map fst (composed_view baseline ps kind) = map fst baseline \<and>
    (f \<in> fst ` set baseline \<longrightarrow> map_of (composed_view baseline ps kind) f =
      (case pending_value (filter (\<lambda>p. edit_kind (pp_edit p) = kind) (sort_key pp_id ps)) f of
         Some v \<Rightarrow> Some v | None \<Rightarrow> map_of baseline f)) \<and>
    (f \<in> set (composed_fields ps kind) \<longleftrightarrow>
      (\<exists>v. pending_value (filter (\<lambda>p. edit_kind (pp_edit p) = kind) ps) f = Some v))"
proof -
  have view: "composed_view baseline ps kind = fold (lay_over (fst ` set baseline) kind) (sort_key pp_id ps) baseline"
    unfolding composed_view_def lay_over_def ..
  have "\<forall>p \<in> set (sort_key pp_id ps). is_dict (edit_fields (pp_edit p))" using assms by simp
  note laid = lay_over_fold [OF this, where baseline = baseline and kind = kind]
  have "f \<in> set (composed_fields ps kind) \<longleftrightarrow>
      (\<exists>p \<in> set (filter (\<lambda>p. edit_kind (pp_edit p) = kind) ps). f \<in> field_set (edit_fields (pp_edit p)))"
    by (simp add: composed_fields_def)
  then show ?thesis unfolding view pending_value_exists using laid by blast
qed

theorem composed_view_shows_what_is_pending_witness:
  "map_of (composed_view [(''name'', PStr ''n0''), (''status'', PStr ''s'')] [sample_pending] ''entity'') ''name'' = Some (PStr ''n1'')"
proof -
  have "\<forall>p \<in> set [sample_pending]. is_dict (edit_fields (pp_edit p))" by (simp add: sample_pending_def)
  note shown = composed_view_shows_what_is_pending [OF this, of "[(''name'', PStr ''n0''), (''status'', PStr ''s'')]" "''entity''" "''name''"]
  have "pending_value (filter (\<lambda>p. edit_kind (pp_edit p) = ''entity'') (sort_key pp_id [sample_pending])) ''name'' = Some (PStr ''n1'')"
    by code_simp
  with shown show ?thesis by simp
qed

end
