(* ===== verification/Change_Store.thy ===== *)
theory Change_Store
  imports Change_Recording
begin

text \<open>
  The operations that write change records (\<^verbatim>\<open>src/infrastructure/write/artifact_write\<close>): moving a change
  through its lifecycle (\<^verbatim>\<open>proposal_lifecycle.py\<close>), performing what a further edit was decided to do
  (\<^verbatim>\<open>change_materialization.py\<close>, \<^verbatim>\<open>enterprise_change_capture.py\<close>), closing what upstream already carries
  (\<^verbatim>\<open>integration_sweep.py\<close>, \<^verbatim>\<open>integration_cleanup.py\<close>) and marking what a submission published
  (\<^verbatim>\<open>change_submission.py\<close>). The state is the list of records of the repository; of a record's file the
  frontmatter mapping is kept, and writing a field replaces it in that mapping. The verifier, the
  allocated id, the revision of an enterprise artifact and what upstream holds are parameters.
\<close>

type_synonym change_store = "change_record list"

definition PROPOSAL_STATES :: "string list" where
  "PROPOSAL_STATES = [''draft'', ''submitted'', ''integrated'', ''abandoned'']"

datatype lifecycle_error =
    NoFrontmatter string
  | NotAProposalState string
  | NoSuchChange string
  | AlreadyEnded string
  | OnAPublishedBranch string

definition state_of_change :: "change_record \<Rightarrow> string" where
  "state_of_change r = py_str (get_or (cr_extra r) ''proposal-state'' (PStr []))"

definition get_entity :: "change_store \<Rightarrow> string \<Rightarrow> change_record option" where
  "get_entity s i = find (\<lambda>r. cr_id r = i) s"

definition write_record :: "change_record \<Rightarrow> change_store \<Rightarrow> change_store" where
  "write_record r' s = map (\<lambda>r. if cr_id r = cr_id r' then r' else r) s"

section \<open>One field of a change\<close>

definition record_proposal_field ::
    "change_record \<Rightarrow> string \<Rightarrow> string \<Rightarrow> change_store \<Rightarrow> (lifecycle_error, bool \<times> change_store) result" where
  "record_proposal_field r field v s =
     (if cr_extra r = [] then Err (NoFrontmatter (cr_id r))
      else if map_of (cr_extra r) field = Some (PStr v) then Ok (False, s)
      else Ok (True, write_record (r\<lparr>cr_extra := AList.update field (PStr v) (cr_extra r)\<rparr>) s))"

text \<open>\<^verbatim>\<open>mark_proposal_state\<close> reads the file again, so it sees the record as the store has it now.\<close>

definition mark_proposal_state ::
    "string \<Rightarrow> string \<Rightarrow> change_store \<Rightarrow> (lifecycle_error, bool \<times> change_store) result" where
  "mark_proposal_state i st s =
     (if st \<notin> set PROPOSAL_STATES then Err (NotAProposalState st)
      else (case get_entity s i of
              None \<Rightarrow> Err (NoSuchChange i)
            | Some r \<Rightarrow> record_proposal_field r ''proposal-state'' st s))"

definition restamp_base_revision ::
    "(string \<Rightarrow> string option) \<Rightarrow> string \<Rightarrow> string \<Rightarrow> change_store \<Rightarrow> (lifecycle_error, bool \<times> change_store) result" where
  "restamp_base_revision revision_of i target s =
     (case (revision_of target, get_entity s i) of
        (Some current, Some r) \<Rightarrow> record_proposal_field r ''base-revision'' current s
      | _ \<Rightarrow> Ok (False, s))"

text \<open>The third argument is \<^const>\<open>None\<close> where no enterprise repository is mounted.\<close>

definition discard_change ::
    "string \<Rightarrow> bool option \<Rightarrow> change_store \<Rightarrow> (lifecycle_error, bool \<times> change_store) result" where
  "discard_change i branch_pending s =
     (case get_entity s i of
        None \<Rightarrow> Err (NoSuchChange i)
      | Some r \<Rightarrow>
          if state_of_change r \<notin> PENDING_STATES then Err (AlreadyEnded i)
          else if state_of_change r = SUBMITTED_STATE \<and> branch_pending = Some True then Err (OnAPublishedBranch i)
          else mark_proposal_state i ''abandoned'' s)"

section \<open>Performing what was decided\<close>

record write_result =
  wrote :: bool
  written_id :: string

definition new_change :: "string \<Rightarrow> proposal_edit \<Rightarrow> string \<Rightarrow> string \<Rightarrow> change_record" where
  "new_change i e reference base =
     \<lparr>cr_id = i, cr_type = PROPOSED_CHANGE_TYPE,
      cr_extra = [(''proposes-change-to'', PStr reference), (''proposal-state'', PStr ''draft''),
        (''base-revision'', PStr base), (''recorded-edit'', PDict (edit_to_mapping e))]\<rparr>"

definition write_change ::
    "(change_record \<Rightarrow> bool) \<Rightarrow> string \<Rightarrow> bool \<Rightarrow> proposal_edit \<Rightarrow> string \<Rightarrow> string \<Rightarrow> change_store
      \<Rightarrow> write_result \<times> change_store" where
  "write_change valid new_id dry e reference base s =
     (let r = new_change new_id e reference base in
      if dry \<or> \<not> valid r then (\<lparr>wrote = False, written_id = new_id\<rparr>, s)
      else (\<lparr>wrote = True, written_id = new_id\<rparr>, s @ [r]))"

definition rewrite_recorded_edit ::
    "(change_record \<Rightarrow> bool) \<Rightarrow> bool \<Rightarrow> string \<Rightarrow> proposal_edit \<Rightarrow> change_store
      \<Rightarrow> (lifecycle_error, write_result \<times> change_store) result" where
  "rewrite_recorded_edit valid dry i e s =
     (case get_entity s i of
        None \<Rightarrow> Err (NoSuchChange i)
      | Some r \<Rightarrow>
          if cr_extra r = [] then Err (NoFrontmatter i)
          else
            let r' = r\<lparr>cr_extra := AList.update ''recorded-edit'' (PDict (edit_to_mapping e)) (cr_extra r)\<rparr> in
            if dry \<or> \<not> valid r' then Ok (\<lparr>wrote = False, written_id = i\<rparr>, s)
            else Ok (\<lparr>wrote = True, written_id = i\<rparr>, write_record r' s))"

fun retire :: "string list \<Rightarrow> change_store \<Rightarrow> (lifecycle_error, change_store) result" where
  "retire [] s = Ok s"
| "retire (i # is) s =
     (case get_entity s i of
        None \<Rightarrow> retire is s
      | Some _ \<Rightarrow> bind_result (mark_proposal_state i ''abandoned'' s) (\<lambda>(changed, s'). retire is s'))"

definition materialize ::
    "(change_record \<Rightarrow> bool) \<Rightarrow> string \<Rightarrow> bool \<Rightarrow> change_outcome \<Rightarrow> string \<Rightarrow> string \<Rightarrow> change_store
      \<Rightarrow> (lifecycle_error, write_result \<times> change_store) result" where
  "materialize valid new_id dry oc reference base s =
     (case oc of
        RecordNew e \<Rightarrow> Ok (write_change valid new_id dry e reference base s)
      | ReviseDraft i e \<Rightarrow> rewrite_recorded_edit valid dry i e s
      | WithdrawEmptied ids \<Rightarrow>
          bind_result (retire ids s) (\<lambda>s'. Ok (\<lparr>wrote = True, written_id = hd ids\<rparr>, s'))
      | SupersedeSubmitted ids carried e \<Rightarrow>
          (case write_change valid new_id dry e reference carried s of
             (res, s') \<Rightarrow>
               if wrote res then bind_result (retire ids s') (\<lambda>s''. Ok (res, s'')) else Ok (res, s')))"

datatype capture_refusal =
    NoVocabulary
  | WrongKind string string
  | Undecidable recording_error
  | NotMaterialized lifecycle_error

definition pending_on :: "change_store \<Rightarrow> string \<Rightarrow> pending_proposal list" where
  "pending_on s target = (case map_of (pending_proposals s) target of None \<Rightarrow> [] | Some ps \<Rightarrow> ps)"

definition record_enterprise_change ::
    "(change_record \<Rightarrow> bool) \<Rightarrow> string \<Rightarrow> bool \<Rightarrow> string \<Rightarrow> string option \<Rightarrow> string \<Rightarrow> string \<Rightarrow> payload
      \<Rightarrow> string set \<Rightarrow> payload option \<Rightarrow> string option \<Rightarrow> change_store
      \<Rightarrow> (capture_refusal, write_result \<times> change_store) result" where
  "record_enterprise_change valid new_id dry kind proxied reference target d carried baseline revision s =
     (case proxied of
        None \<Rightarrow> Err NoVocabulary
      | Some k \<Rightarrow>
          if k \<noteq> kind then Err (WrongKind k kind)
          else (case decide kind target d (pending_on s target) carried baseline of
                  Inl refused \<Rightarrow> Err (Undecidable refused)
                | Inr oc \<Rightarrow>
                    (case materialize valid new_id dry oc reference
                            (if truthy revision then the revision else UNKNOWN_BASE) s of
                       Inl e \<Rightarrow> Err (NotMaterialized e)
                     | Inr res \<Rightarrow> Ok res)))"

section \<open>Closing what upstream carries\<close>

record swept_change =
  sc_id :: string
  sc_target :: string
  sc_verdict :: integration_verdict
  sc_closed :: bool

record sweep_report =
  closed_changes :: "swept_change list"
  left_open :: "swept_change list"
  returned_to_draft :: "string list"

definition sweepable :: "change_store \<Rightarrow> change_record list" where
  "sweepable s = filter (\<lambda>r. cr_type r = PROPOSED_CHANGE_TYPE \<and> state_of_change r = SUBMITTED_STATE) s"

definition recorded_edit :: "change_record \<Rightarrow> proposal_edit option" where
  "recorded_edit r =
     (case get_or (cr_extra r) ''recorded-edit'' PNone of
        PDict d \<Rightarrow> (case edit_from_mapping d of Inl _ \<Rightarrow> None | Inr e \<Rightarrow> Some e)
      | _ \<Rightarrow> None)"

text \<open>The writer handed to the sweep: a change that cannot be written stays as it is.\<close>

definition close_change :: "string \<Rightarrow> change_store \<Rightarrow> bool \<times> change_store" where
  "close_change i s =
     (case mark_proposal_state i ''integrated'' s of Inl _ \<Rightarrow> (False, s) | Inr res \<Rightarrow> res)"

fun sweep_integrated_changes ::
    "(string \<Rightarrow> target_record option) \<Rightarrow> change_record list \<Rightarrow> sweep_report \<Rightarrow> change_store
      \<Rightarrow> sweep_report \<times> change_store" where
  "sweep_integrated_changes target_of [] report s = (report, s)"
| "sweep_integrated_changes target_of (r # rs) report s =
     (case recorded_edit r of
        None \<Rightarrow> sweep_integrated_changes target_of rs report s
      | Some e \<Rightarrow>
          if blank (edit_artifact e) then sweep_integrated_changes target_of rs report s
          else
            let v = integration_verdict_for e (current_values_of (target_of (py_strip (edit_artifact e))));
                swept = \<lparr>sc_id = cr_id r, sc_target = py_strip (edit_artifact e), sc_verdict = v,
                         sc_closed = integrated v\<rparr>;
                (written, s') = (if integrated v then close_change (cr_id r) s else (False, s)) in
            if integrated v \<and> written
            then sweep_integrated_changes target_of rs (report\<lparr>closed_changes := closed_changes report @ [swept]\<rparr>) s'
            else sweep_integrated_changes target_of rs (report\<lparr>left_open := left_open report @ [swept]\<rparr>) s')"

fun demote_stranded :: "swept_change list \<Rightarrow> change_store \<Rightarrow> string list \<times> change_store" where
  "demote_stranded [] s = ([], s)"
| "demote_stranded (c # cs) s =
     (case get_entity s (sc_id c) of
        None \<Rightarrow> demote_stranded cs s
      | Some r \<Rightarrow>
          (case mark_proposal_state (sc_id c) ''draft'' s of
             Inl _ \<Rightarrow> demote_stranded cs s
           | Inr (changed, s') \<Rightarrow>
               (case demote_stranded cs s' of
                  (demoted, s'') \<Rightarrow> ((if changed then sc_id c # demoted else demoted), s''))))"

definition return_stranded_changes_to_draft ::
    "bool \<Rightarrow> sweep_report \<Rightarrow> change_store \<Rightarrow> sweep_report \<times> change_store" where
  "return_stranded_changes_to_draft branch_pending report s =
     (if left_open report = [] \<or> branch_pending then (report, s)
      else (case demote_stranded (left_open report) s of
              (demoted, s') \<Rightarrow> (report\<lparr>returned_to_draft := demoted\<rparr>, s')))"

definition empty_report :: sweep_report where
  "empty_report = \<lparr>closed_changes = [], left_open = [], returned_to_draft = []\<rparr>"

text \<open>
  What \<^verbatim>\<open>close_integrated_changes\<close> does to the records; \<open>upstream\<close> is \<^const>\<open>None\<close> where it cannot be read.
  What it does to the review branch afterwards needs git and is in the theory of the reconciliation.
\<close>

definition sweep_submitted ::
    "bool \<Rightarrow> (string \<Rightarrow> target_record option) option \<Rightarrow> bool \<Rightarrow> change_store \<Rightarrow> sweep_report \<times> change_store" where
  "sweep_submitted mounted upstream branch_pending s =
     (if sweepable s = [] \<or> \<not> mounted then (empty_report, s)
      else (case upstream of
              None \<Rightarrow> (empty_report, s)
            | Some target_of \<Rightarrow>
                (case sweep_integrated_changes target_of (sweepable s) empty_report s of
                   (report, s') \<Rightarrow> return_stranded_changes_to_draft branch_pending report s')))"

section \<open>Marking what was published\<close>

fun mark_submitted ::
    "(string \<Rightarrow> pending_proposal option) \<Rightarrow> (string \<Rightarrow> string option) \<Rightarrow> string list \<Rightarrow> change_store
      \<Rightarrow> (lifecycle_error, string list \<times> change_store) result" where
  "mark_submitted by_id revision_of [] s = Ok ([], s)"
| "mark_submitted by_id revision_of (i # is) s =
     (case by_id i of
        None \<Rightarrow> mark_submitted by_id revision_of is s
      | Some p \<Rightarrow>
          bind_result
            (case get_entity s i of
               None \<Rightarrow> Ok (False, s)
             | Some _ \<Rightarrow> mark_proposal_state i SUBMITTED_STATE s) (\<lambda>(changed, s1).
          bind_result (restamp_base_revision revision_of i (pp_target p) s1) (\<lambda>(_, s2).
          bind_result (mark_submitted by_id revision_of is s2) (\<lambda>(marked, s3).
            Ok ((if changed then i # marked else marked), s3)))))"

definition mark_published ::
    "(string \<Rightarrow> string option) \<Rightarrow> string list \<Rightarrow> change_store \<Rightarrow> (lifecycle_error, string list \<times> change_store) result" where
  "mark_published revision_of ids s = mark_submitted (proposals_by_id (pending_proposals s)) revision_of ids s"

end
