(* ===== verification/Change_Lifecycle.thy ===== *)
theory Change_Lifecycle
  imports Change_Store
begin

text \<open>
  What every operation on the change store keeps: each record moves along the lifecycle of a change or
  stays as it is, a record that has ended stays as it is, and an artifact never has two live changes.
  The abstract lifecycle is the relation \<open>change_moves\<close> on states; \<open>evolves\<close> is its refinement to records
  and \<open>store_evolves\<close> to stores, both preorders, so a loop over records needs one lemma per write.
\<close>

section \<open>The abstract lifecycle\<close>

inductive change_moves :: "string \<Rightarrow> string \<Rightarrow> bool" where
  submit: "change_moves ''draft'' ''submitted''"
| strand: "change_moves ''submitted'' ''draft''"
| integrate: "change_moves ''submitted'' ''integrated''"
| abandon: "st \<in> PENDING_STATES \<Longrightarrow> change_moves st ''abandoned''"

inductive_simps change_moves_iff: "change_moves a b"

lemma PENDING_iff: "st \<in> PENDING_STATES \<longleftrightarrow> st = ''draft'' \<or> st = ''submitted''"
  by (auto simp: PENDING_STATES_def)

section \<open>Records\<close>

definition live_target :: "change_record \<Rightarrow> string option" where
  "live_target r = (if cr_type r = PROPOSED_CHANGE_TYPE then map_option pp_target (decode_change r) else None)"

definition evolves :: "change_record \<Rightarrow> change_record \<Rightarrow> bool" where
  "evolves r r' \<longleftrightarrow> cr_id r' = cr_id r \<and> cr_type r' = cr_type r \<and>
     change_moves\<^sup>*\<^sup>* (state_of_change r) (state_of_change r') \<and>
     (state_of_change r \<notin> PENDING_STATES \<longrightarrow> r' = r) \<and>
     (live_target r' = None \<or> live_target r' = live_target r)"

lemma evolves_refl [simp, intro]: "evolves r r"
  by (simp add: evolves_def)

lemma evolves_trans: "\<lbrakk>evolves r r'; evolves r' r''\<rbrakk> \<Longrightarrow> evolves r r''"
  by (auto simp: evolves_def intro: rtranclp_trans)

text \<open>The parts of a record that decide whether it is live and against what.\<close>

lemma get_or_update_other: "k \<noteq> j \<Longrightarrow> get_or (AList.update k v d) j w = get_or d j w"
  by (simp add: get_or_def update_conv)

lemma get_or_update_same: "get_or (AList.update k v d) k w = v"
  by (simp add: get_or_def update_conv)

lemma live_target_eq:
  "live_target r =
     (if cr_type r = PROPOSED_CHANGE_TYPE \<and> state_of_change r \<in> PENDING_STATES \<and>
         (\<exists>s. get_or (cr_extra r) ''proposes-change-to'' PNone = PStr s \<and> \<not> blank s) \<and>
         (\<exists>s. get_or (cr_extra r) ''base-revision'' PNone = PStr s \<and> \<not> blank s)
      then map_option edit_artifact (recorded_edit r) else None)"
  by (auto simp: live_target_def decode_change_def recorded_edit_def state_of_change_def
      split: pyval.splits sum.splits)

abbreviation set_field :: "string \<Rightarrow> pyval \<Rightarrow> change_record \<Rightarrow> change_record" where
  "set_field k v r \<equiv> r\<lparr>cr_extra := AList.update k v (cr_extra r)\<rparr>"

lemma state_of_set_field:
  "state_of_change (set_field ''proposal-state'' (PStr st) r) = st"
  "k \<noteq> ''proposal-state'' \<Longrightarrow> state_of_change (set_field k v r) = state_of_change r"
  by (simp_all add: state_of_change_def get_or_update_same get_or_update_other)

lemma recorded_edit_set_field:
  "k \<noteq> ''recorded-edit'' \<Longrightarrow> recorded_edit (set_field k v r) = recorded_edit r"
  "edit_ok e \<Longrightarrow> recorded_edit (set_field ''recorded-edit'' (PDict (edit_to_mapping e)) r) = Some e"
  by (simp_all add: recorded_edit_def get_or_update_same get_or_update_other edit_codec.decode_encode)

lemma live_target_state:
  "state_of_change r \<in> PENDING_STATES \<Longrightarrow>
     live_target (set_field ''proposal-state'' (PStr st) r) = (if st \<in> PENDING_STATES then live_target r else None)"
  by (auto simp: live_target_eq state_of_set_field recorded_edit_set_field get_or_update_other)

lemma live_is_pending: "live_target r \<noteq> None \<Longrightarrow> state_of_change r \<in> PENDING_STATES"
  by (auto simp: live_target_eq split: if_splits)

lemma evolves_state:
  assumes "state_of_change r \<in> PENDING_STATES" and "change_moves\<^sup>*\<^sup>* (state_of_change r) st"
  shows "evolves r (set_field ''proposal-state'' (PStr st) r)"
  using assms live_target_state [OF assms(1)] by (auto simp: evolves_def state_of_set_field)

lemma evolves_base:
  assumes "live_target r \<noteq> None"
  shows "evolves r (set_field ''base-revision'' (PStr v) r)"
proof -
  have "state_of_change r \<in> PENDING_STATES" using assms by (auto simp: live_target_eq split: if_splits)
  moreover have "live_target (set_field ''base-revision'' (PStr v) r) \<in> {None, live_target r}"
    using assms
    by (auto simp: live_target_eq state_of_set_field recorded_edit_set_field get_or_update_other split: if_splits)
  ultimately show ?thesis by (auto simp: evolves_def state_of_set_field)
qed

lemma evolves_edit:
  assumes "live_target r = Some (edit_artifact e)" and "edit_ok e"
  shows "evolves r (set_field ''recorded-edit'' (PDict (edit_to_mapping e)) r)"
proof -
  have "state_of_change r \<in> PENDING_STATES" using assms by (auto simp: live_target_eq split: if_splits)
  moreover have "live_target (set_field ''recorded-edit'' (PDict (edit_to_mapping e)) r) = Some (edit_artifact e)"
    using assms
    by (auto simp: live_target_eq state_of_set_field recorded_edit_set_field get_or_update_other split: if_splits)
  ultimately show ?thesis using assms by (auto simp: evolves_def state_of_set_field)
qed

lemma pending_has_frontmatter: "state_of_change r \<in> PENDING_STATES \<Longrightarrow> cr_extra r \<noteq> []"
  by (auto simp: state_of_change_def PENDING_STATES_def)

section \<open>Stores\<close>

abbreviation ids_of :: "change_store \<Rightarrow> string list" where
  "ids_of s \<equiv> map cr_id s"

lemma get_entity_iff:
  "distinct (ids_of s) \<Longrightarrow> get_entity s i = Some r \<longleftrightarrow> r \<in> set s \<and> cr_id r = i"
  by (induction s) (auto simp: get_entity_def)

lemma get_entity_None_iff: "get_entity s i = None \<longleftrightarrow> i \<notin> set (ids_of s)"
  by (auto simp: get_entity_def find_None_iff)

lemma write_record_ids [simp]: "ids_of (write_record r' s) = ids_of s"
  by (simp add: write_record_def)

lemma write_record_get:
  "get_entity (write_record r' s) j = (if j = cr_id r' \<and> get_entity s j \<noteq> None then Some r' else get_entity s j)"
  by (induction s) (auto simp: write_record_def get_entity_def)

lemma write_record_same:
  "\<lbrakk>distinct (ids_of s); get_entity s (cr_id r) = Some r\<rbrakk> \<Longrightarrow> write_record r s = s"
  by (auto simp: write_record_def get_entity_iff distinct_map inj_on_def intro!: map_idI)

lemma write_record_evolves:
  assumes "distinct (ids_of s)" and "get_entity s (cr_id r') = Some r" and "evolves r r'"
  shows "list_all2 evolves s (write_record r' s)"
proof -
  have "evolves q (if cr_id q = cr_id r' then r' else q)" if "q \<in> set s" for q
  proof (cases "cr_id q = cr_id r'")
    case True
    with that assms(1,2) have "q = r" by (simp add: get_entity_iff distinct_map inj_on_def)
    with assms(3) True show ?thesis by simp
  qed simp
  then show ?thesis by (simp add: write_record_def list.rel_map list.rel_refl_strong)
qed

lemma evolves_all_refl: "list_all2 evolves s s"
  by (simp add: list.rel_refl_strong)

lemma evolves_all_trans: "\<lbrakk>list_all2 evolves s s'; list_all2 evolves s' s''\<rbrakk> \<Longrightarrow> list_all2 evolves s s''"
  by (rule list_all2_trans [of evolves evolves]) (auto intro: evolves_trans)

lemma evolves_all_ids: "list_all2 evolves s s' \<Longrightarrow> ids_of s' = ids_of s"
  by (induction rule: list_all2_induct) (auto simp: evolves_def)

lemma record_proposal_field_writes:
  assumes "distinct (ids_of s)" and "get_entity s (cr_id r) = Some r"
    and "record_proposal_field r field v s = Inr (changed, s')"
  shows "\<exists>r'. s' = write_record r' s \<and> r' \<in> {r, set_field field (PStr v) r} \<and> get_or (cr_extra r') field PNone = PStr v"
proof (cases "map_of (cr_extra r) field = Some (PStr v)")
  case True
  then have "get_or (cr_extra r) field PNone = PStr v" by (simp add: get_or_def)
  moreover have "s' = write_record r s"
    using assms(3) True write_record_same [OF assms(1,2)] by (auto simp: record_proposal_field_def split: if_splits)
  ultimately show ?thesis by blast
next
  case False
  then have "s' = write_record (set_field field (PStr v) r) s"
    using assms(3) by (auto simp: record_proposal_field_def split: if_splits)
  moreover have "get_or (cr_extra (set_field field (PStr v) r)) field PNone = PStr v" by (simp add: get_or_update_same)
  ultimately show ?thesis by blast
qed

lemma mark_writes:
  assumes "distinct (ids_of s)" and "mark_proposal_state i st s = Inr (changed, s')"
    and "\<And>r. get_entity s i = Some r \<Longrightarrow> state_of_change r \<in> PENDING_STATES \<and> change_moves\<^sup>*\<^sup>* (state_of_change r) st"
  obtains r r' where "get_entity s i = Some r" "s' = write_record r' s" "cr_id r' = i" "evolves r r'"
    "state_of_change r' = st" "r' \<in> {r, set_field ''proposal-state'' (PStr st) r}"
proof -
  from assms(2) obtain r where r: "get_entity s i = Some r"
    "record_proposal_field r ''proposal-state'' st s = Inr (changed, s')"
    by (auto simp: mark_proposal_state_def split: if_splits option.splits)
  then have "cr_id r = i" using assms(1) by (simp add: get_entity_iff)
  with record_proposal_field_writes [OF assms(1) _ r(2)] r(1) obtain r' where
    r': "s' = write_record r' s" "r' \<in> {r, set_field ''proposal-state'' (PStr st) r}"
      "get_or (cr_extra r') ''proposal-state'' PNone = PStr st" by auto
  moreover have "state_of_change r' = st"
    using r'(3) by (auto simp: state_of_change_def get_or_def split: option.splits)
  moreover have "evolves r r'" using r'(2) evolves_state assms(3) [OF r(1)] by auto
  moreover have "cr_id r' = i" using r'(2) \<open>cr_id r = i\<close> by auto
  ultimately show thesis using that r(1) by blast
qed

lemma mark_total:
  assumes "get_entity s i = Some r" and "state_of_change r \<in> PENDING_STATES" and "st \<in> set PROPOSAL_STATES"
  shows "\<exists>res. mark_proposal_state i st s = Inr res"
  using assms pending_has_frontmatter [OF assms(2)]
  by (auto simp: mark_proposal_state_def record_proposal_field_def)

lemma evolves_all_get:
  assumes "list_all2 evolves s s'" and "distinct (ids_of s)" and "get_entity s' i = Some r'"
  shows "\<exists>r. get_entity s i = Some r \<and> evolves r r'"
proof -
  have d: "distinct (ids_of s')" using assms(1,2) evolves_all_ids by metis
  then have "r' \<in> set s'" "cr_id r' = i" using assms(3) by (simp_all add: get_entity_iff)
  with assms(1) obtain r where "r \<in> set s" "evolves r r'" by (metis in_set_conv_nth list_all2_conv_all_nth)
  moreover from this have "cr_id r = i" using \<open>cr_id r' = i\<close> by (simp add: evolves_def)
  ultimately show ?thesis using assms(2) by (auto simp: get_entity_iff)
qed

section \<open>The loops\<close>

lemma retire_effect:
  assumes "distinct (ids_of s)" and "distinct is"
    and "\<And>i r. \<lbrakk>i \<in> set is; get_entity s i = Some r\<rbrakk> \<Longrightarrow> state_of_change r \<in> PENDING_STATES"
    and "retire is s = Inr s'"
  shows "list_all2 evolves s s' \<and> (\<forall>i \<in> set is. \<forall>r. get_entity s' i = Some r \<longrightarrow> state_of_change r = ''abandoned'') \<and>
    (\<forall>j. j \<notin> set is \<longrightarrow> get_entity s' j = get_entity s j)"
  using assms
proof (induction "is" arbitrary: s)
  case Nil
  then show ?case by (simp add: evolves_all_refl)
next
  case (Cons i ids)
  show ?case
  proof (cases "get_entity s i")
    case None
    then have "retire ids s = Inr s'" using Cons.prems by simp
    with Cons.IH [of s] Cons.prems have IH: "list_all2 evolves s s'"
      "\<And>j r. \<lbrakk>j \<in> set ids; get_entity s' j = Some r\<rbrakk> \<Longrightarrow> state_of_change r = ''abandoned''"
      "\<And>j. j \<notin> set ids \<Longrightarrow> get_entity s' j = get_entity s j" by auto
    then show ?thesis using None Cons.prems(2) by auto
  next
    case (Some r)
    with Cons.prems(4) obtain b s1 where m: "mark_proposal_state i ''abandoned'' s = Inr (b, s1)" "retire ids s1 = Inr s'"
      by (auto simp: bind_result_eq_Inr)
    have "state_of_change q \<in> PENDING_STATES \<and> change_moves\<^sup>*\<^sup>* (state_of_change q) ''abandoned''" if "get_entity s i = Some q" for q
      using Cons.prems(3) [of i q] that abandon by auto
    from mark_writes [OF Cons.prems(1) m(1) this] obtain q r' where
      w: "get_entity s i = Some q" "s1 = write_record r' s" "cr_id r' = i" "evolves q r'" "state_of_change r' = ''abandoned''" .
    have ev: "list_all2 evolves s s1" using write_record_evolves [of s r' q] Cons.prems(1) w by simp
    have get1: "get_entity s1 j = (if j = i then Some r' else get_entity s j)" for j
      using w by (simp add: write_record_get)
    have "distinct (ids_of s1)" using Cons.prems(1) w(2) by simp
    moreover have "state_of_change q \<in> PENDING_STATES" if "j \<in> set ids" "get_entity s1 j = Some q" for j q
      using that get1 [of j] Cons.prems(2) Cons.prems(3) [of j q] by (auto split: if_splits)
    ultimately have IH: "list_all2 evolves s1 s'"
      "\<And>j r. \<lbrakk>j \<in> set ids; get_entity s' j = Some r\<rbrakk> \<Longrightarrow> state_of_change r = ''abandoned''"
      "\<And>j. j \<notin> set ids \<Longrightarrow> get_entity s' j = get_entity s1 j"
      using Cons.IH [of s1] Cons.prems(2) m(2) by auto
    have "get_entity s' i = Some r'" using IH(3) [of i] get1 [of i] Cons.prems(2) by simp
    with IH get1 w(5) evolves_all_trans [OF ev IH(1)] Cons.prems(2) show ?thesis by auto
  qed
qed

lemma retire_total:
  assumes "distinct (ids_of s)" and "distinct is"
    and "\<And>i r. \<lbrakk>i \<in> set is; get_entity s i = Some r\<rbrakk> \<Longrightarrow> state_of_change r \<in> PENDING_STATES"
  shows "\<exists>s'. retire is s = Inr s'"
  using assms
proof (induction "is" arbitrary: s)
  case (Cons i ids)
  show ?case
  proof (cases "get_entity s i")
    case None
    have "\<exists>s'. retire ids s = Inr s'" using Cons.prems by (intro Cons.IH) auto
    with None show ?thesis by simp
  next
    case (Some r)
    then obtain b s1 where m: "mark_proposal_state i ''abandoned'' s = Inr (b, s1)"
      using mark_total [of s i r "''abandoned''"] Cons.prems(3) [of i r] by (force simp: PROPOSAL_STATES_def)
    have "state_of_change q \<in> PENDING_STATES \<and> change_moves\<^sup>*\<^sup>* (state_of_change q) ''abandoned''" if "get_entity s i = Some q" for q
      using Cons.prems(3) [of i q] that abandon by auto
    from mark_writes [OF Cons.prems(1) m this] obtain q r' where
      w: "get_entity s i = Some q" "s1 = write_record r' s" "cr_id r' = i" .
    have "state_of_change q \<in> PENDING_STATES" if "j \<in> set ids" "get_entity s1 j = Some q" for j q
      using that w Cons.prems(2) Cons.prems(3) [of j q] by (auto simp: write_record_get split: if_splits)
    then have "\<exists>s'. retire ids s1 = Inr s'" using Cons.IH [of s1] Cons.prems w(2) by simp
    with m Some show ?thesis by simp
  qed
qed simp

definition swept_of :: "(string \<Rightarrow> target_record option) \<Rightarrow> change_record \<Rightarrow> swept_change option" where
  "swept_of target_of r =
     (case recorded_edit r of
        None \<Rightarrow> None
      | Some e \<Rightarrow>
          if blank (edit_artifact e) then None
          else (let v = integration_verdict_for e (current_values_of (target_of (py_strip (edit_artifact e)))) in
                Some \<lparr>sc_id = cr_id r, sc_target = py_strip (edit_artifact e), sc_verdict = v, sc_closed = integrated v\<rparr>))"

lemma sc_id_swept_of: "swept_of target_of r = Some c \<Longrightarrow> sc_id c = cr_id r"
  by (auto simp: swept_of_def Let_def split: option.splits if_splits)

lemma sweep_step:
  assumes "distinct (ids_of s)" and "get_entity s (cr_id r) = Some r" and "state_of_change r = ''submitted''"
  shows "sweep_integrated_changes target_of (r # rs) report s =
    (case swept_of target_of r of
       None \<Rightarrow> sweep_integrated_changes target_of rs report s
     | Some c \<Rightarrow>
         if sc_closed c
         then sweep_integrated_changes target_of rs (report\<lparr>closed_changes := closed_changes report @ [c]\<rparr>)
                (write_record (set_field ''proposal-state'' (PStr ''integrated'') r) s)
         else sweep_integrated_changes target_of rs (report\<lparr>left_open := left_open report @ [c]\<rparr>) s)"
proof -
  have "map_of (cr_extra r) ''proposal-state'' \<noteq> Some (PStr ''integrated'')"
    using assms(3) by (auto simp: state_of_change_def get_or_def)
  moreover have "cr_extra r \<noteq> []" using assms(3) by (intro pending_has_frontmatter) (simp add: PENDING_iff)
  ultimately have "close_change (cr_id r) s = (True, write_record (set_field ''proposal-state'' (PStr ''integrated'') r) s)"
    using assms(2) by (simp add: close_change_def mark_proposal_state_def record_proposal_field_def PROPOSAL_STATES_def)
  then show ?thesis by (simp add: swept_of_def Let_def split: option.split)
qed

lemma sweep_effect:
  assumes "distinct (ids_of s)" and "distinct (ids_of rs)"
    and "\<forall>r \<in> set rs. get_entity s (cr_id r) = Some r \<and> state_of_change r = ''submitted''"
    and "sweep_integrated_changes target_of rs report s = (report', s')"
  shows "list_all2 evolves s s' \<and>
    closed_changes report' = closed_changes report @ filter sc_closed (List.map_filter (swept_of target_of) rs) \<and>
    left_open report' = left_open report @ filter (\<lambda>c. \<not> sc_closed c) (List.map_filter (swept_of target_of) rs) \<and>
    returned_to_draft report' = returned_to_draft report \<and>
    (\<forall>j. get_entity s' j =
      (if j \<in> sc_id ` set (filter sc_closed (List.map_filter (swept_of target_of) rs))
       then map_option (set_field ''proposal-state'' (PStr ''integrated'')) (get_entity s j) else get_entity s j))"
  using assms
proof (induction rs arbitrary: s report)
  case Nil
  then show ?case by (simp add: evolves_all_refl map_filter_simps)
next
  case (Cons r rs)
  have r: "get_entity s (cr_id r) = Some r" "state_of_change r = ''submitted''" using Cons.prems(3) by simp_all
  note step = sweep_step [OF Cons.prems(1) r, of target_of rs report]
  have rest: "\<forall>q \<in> set rs. get_entity s (cr_id q) = Some q \<and> state_of_change q = ''submitted''"
    using Cons.prems(3) by simp
  have other: "cr_id q \<noteq> cr_id r" if "q \<in> set rs" for q
  proof -
    have "cr_id r \<notin> cr_id ` set rs" using Cons.prems(2) by simp
    with that show ?thesis by (metis imageI)
  qed
  have d: "distinct (ids_of rs)" using Cons.prems(2) by simp
  show ?case
  proof (cases "\<exists>c. swept_of target_of r = Some c \<and> sc_closed c")
    case False
    define report1 where "report1 = (case swept_of target_of r of None \<Rightarrow> report
      | Some c \<Rightarrow> report\<lparr>left_open := left_open report @ [c]\<rparr>)"
    have "sweep_integrated_changes target_of rs report1 s = (report', s')"
      using False Cons.prems(4) step by (auto simp: report1_def split: option.splits)
    from Cons.IH [OF Cons.prems(1) d rest this] False show ?thesis
      by (cases "swept_of target_of r") (auto simp: report1_def map_filter_simps)
  next
    case True
    then obtain c where c: "swept_of target_of r = Some c" "sc_closed c" by blast
    let ?r' = "set_field ''proposal-state'' (PStr ''integrated'') r"
    let ?s1 = "write_record ?r' s"
    have call: "sweep_integrated_changes target_of rs (report\<lparr>closed_changes := closed_changes report @ [c]\<rparr>) ?s1 = (report', s')"
      using c Cons.prems(4) step by simp
    have get1: "get_entity ?s1 j = (if j = cr_id r then Some ?r' else get_entity s j)" for j
      using r(1) by (simp add: write_record_get)
    have ev: "list_all2 evolves s ?s1"
    proof (rule write_record_evolves [OF Cons.prems(1)])
      show "get_entity s (cr_id ?r') = Some r" using r by simp
      show "evolves r ?r'" using r(2) integrate by (intro evolves_state) (auto simp: PENDING_iff)
    qed
    have d1: "distinct (ids_of ?s1)" using Cons.prems(1) by simp
    have "\<forall>q \<in> set rs. get_entity ?s1 (cr_id q) = Some q \<and> state_of_change q = ''submitted''"
      using rest other get1 by simp
    note IH = Cons.IH [OF d1 d this call]
    have "cr_id r \<notin> sc_id ` set (filter sc_closed (List.map_filter (swept_of target_of) rs))"
      using other sc_id_swept_of by (fastforce simp: set_map_filter)
    then show ?thesis
      using IH evolves_all_trans [OF ev] c get1 r(1) sc_id_swept_of [OF c(1)] by (auto simp: map_filter_simps)
  qed
qed

lemma demote_effect:
  assumes "distinct (ids_of s)" and "distinct (map sc_id cs)"
    and "\<forall>c \<in> set cs. \<forall>r. get_entity s (sc_id c) = Some r \<longrightarrow> state_of_change r = ''submitted''"
    and "demote_stranded cs s = (demoted, s')"
  shows "list_all2 evolves s s' \<and>
    (\<forall>j. j \<notin> sc_id ` set cs \<longrightarrow> get_entity s' j = get_entity s j) \<and>
    (\<forall>c \<in> set cs. \<forall>r. get_entity s' (sc_id c) = Some r \<longrightarrow> state_of_change r = ''draft'')"
  using assms
proof (induction cs arbitrary: s demoted)
  case Nil
  then show ?case by (simp add: evolves_all_refl)
next
  case (Cons c cs)
  show ?case
  proof (cases "get_entity s (sc_id c)")
    case None
    then have call: "demote_stranded cs s = (demoted, s')" using Cons.prems(4) by simp
    have d: "distinct (map sc_id cs)" using Cons.prems(2) by simp
    have "\<forall>x \<in> set cs. \<forall>r. get_entity s (sc_id x) = Some r \<longrightarrow> state_of_change r = ''submitted''"
      using Cons.prems(3) by simp
    note IH = Cons.IH [OF Cons.prems(1) d this call]
    have "get_entity s' (sc_id c) = None" using IH None Cons.prems(2) by simp
    with IH show ?thesis by auto
  next
    case (Some r)
    then have sub: "state_of_change r = ''submitted''" using Cons.prems(3) by simp
    then obtain b s1 where m: "mark_proposal_state (sc_id c) ''draft'' s = Inr (b, s1)"
      using mark_total [OF Some, of "''draft''"] by (force simp: PROPOSAL_STATES_def PENDING_iff)
    obtain demoted' where call: "demote_stranded cs s1 = (demoted', s')"
      using Cons.prems(4) Some m by (auto split: prod.splits)
    have "state_of_change q \<in> PENDING_STATES \<and> change_moves\<^sup>*\<^sup>* (state_of_change q) ''draft''" if "get_entity s (sc_id c) = Some q" for q
      using that Some sub strand by (auto simp: PENDING_iff)
    from mark_writes [OF Cons.prems(1) m this] obtain q r' where
      w: "get_entity s (sc_id c) = Some q" "s1 = write_record r' s" "cr_id r' = sc_id c" "evolves q r'" "state_of_change r' = ''draft''" .
    have get1: "get_entity s1 j = (if j = sc_id c then Some r' else get_entity s j)" for j
      using w by (simp add: write_record_get)
    have ev: "list_all2 evolves s s1" using write_record_evolves [of s r' q] Cons.prems(1) w by simp
    have d: "distinct (ids_of s1)" "distinct (map sc_id cs)" using Cons.prems(1,2) w(2) by simp_all
    have "sc_id c \<notin> sc_id ` set cs" using Cons.prems(2) by simp
    then have "sc_id x \<noteq> sc_id c" if "x \<in> set cs" for x using that by (metis imageI)
    then have "\<forall>x \<in> set cs. \<forall>q. get_entity s1 (sc_id x) = Some q \<longrightarrow> state_of_change q = ''submitted''"
      using Cons.prems(3) get1 by simp
    note IH = Cons.IH [OF d this call]
    have "get_entity s' (sc_id c) = Some r'" using IH get1 Cons.prems(2) by simp
    with IH w(5) get1 evolves_all_trans [OF ev] Cons.prems(2) show ?thesis by auto
  qed
qed

text \<open>One published change: marked and restamped.\<close>

lemma mark_one_effect:
  assumes "distinct (ids_of s)" and "get_entity s i = Some r" and "live_target r \<noteq> None"
    and "mark_proposal_state i SUBMITTED_STATE s = Inr (changed, s1)"
    and "restamp_base_revision revision_of i target s1 = Inr (stamped, s2)"
  shows "\<exists>r2. s2 = write_record r2 s \<and> cr_id r2 = i \<and> evolves r r2 \<and> state_of_change r2 = ''submitted''"
proof -
  have pend: "state_of_change r \<in> PENDING_STATES" using assms(3) by (rule live_is_pending)
  have "state_of_change q \<in> PENDING_STATES \<and> change_moves\<^sup>*\<^sup>* (state_of_change q) SUBMITTED_STATE" if "get_entity s i = Some q" for q
    using that assms(2) pend submit by (auto simp: PENDING_iff SUBMITTED_STATE_def)
  from mark_writes [OF assms(1,4) this] obtain r1 where
    w: "s1 = write_record r1 s" "cr_id r1 = i" "evolves r r1" "state_of_change r1 = ''submitted''"
      "r1 \<in> {r, set_field ''proposal-state'' (PStr ''submitted'') r}"
    using assms(2) by (auto simp: SUBMITTED_STATE_def)
  have live1: "live_target r1 \<noteq> None"
    using w(5) assms(3) live_target_state [OF pend, of "''submitted''"] by (auto simp: PENDING_iff)
  have get1: "get_entity s1 i = Some r1" using assms(2) w(1,2) by (simp add: write_record_get)
  have d1: "distinct (ids_of s1)" using assms(1) w(1) by simp
  show ?thesis
  proof (cases "revision_of target")
    case None
    with assms(5) have "s2 = s1" by (simp add: restamp_base_revision_def)
    with w show ?thesis by blast
  next
    case (Some v)
    with assms(5) get1 have "record_proposal_field r1 ''base-revision'' v s1 = Inr (stamped, s2)"
      by (simp add: restamp_base_revision_def)
    from record_proposal_field_writes [OF d1 _ this] get1 w(2) obtain r2 where
      r2: "s2 = write_record r2 s1" "r2 \<in> {r1, set_field ''base-revision'' (PStr v) r1}" by auto
    have "evolves r1 r2" using r2(2) evolves_base [OF live1] by auto
    moreover have "cr_id r2 = i" "state_of_change r2 = ''submitted''"
      using r2(2) w(2,4) by (auto simp: state_of_set_field)
    moreover from this w(2) have "s2 = write_record r2 s" by (simp add: r2(1) w(1) write_record_def)
    ultimately show ?thesis using evolves_trans [OF w(3)] by blast
  qed
qed

lemma mark_submitted_effect:
  assumes "distinct (ids_of s)" and "distinct is"
    and "\<forall>i \<in> set is. \<forall>r. by_id i \<noteq> None \<and> get_entity s i = Some r \<longrightarrow> live_target r \<noteq> None"
    and "mark_submitted by_id revision_of is s = Inr (marked, s')"
  shows "list_all2 evolves s s' \<and> (\<forall>j. j \<notin> set is \<longrightarrow> get_entity s' j = get_entity s j) \<and>
    (\<forall>i \<in> set is. \<forall>r. by_id i \<noteq> None \<and> get_entity s' i = Some r \<longrightarrow> state_of_change r = ''submitted'')"
  using assms
proof (induction "is" arbitrary: s marked)
  case Nil
  then show ?case by (simp add: evolves_all_refl)
next
  case (Cons i ids)
  have d: "distinct ids" and fresh: "i \<notin> set ids" using Cons.prems(2) by simp_all
  have live: "\<forall>j \<in> set ids. \<forall>r. by_id j \<noteq> None \<and> get_entity s j = Some r \<longrightarrow> live_target r \<noteq> None"
    using Cons.prems(3) by simp
  show ?case
  proof (cases "by_id i")
    case None
    with Cons.prems(4) have call: "mark_submitted by_id revision_of ids s = Inr (marked, s')" by simp
    from Cons.IH [OF Cons.prems(1) d live call] None fresh show ?thesis by auto
  next
    case (Some p)
    with Cons.prems(4) obtain changed s1 stamped s2 marked' where steps:
      "(case get_entity s i of None \<Rightarrow> Ok (False, s) | Some _ \<Rightarrow> mark_proposal_state i SUBMITTED_STATE s) = Inr (changed, s1)"
      "restamp_base_revision revision_of i (pp_target p) s1 = Inr (stamped, s2)"
      "mark_submitted by_id revision_of ids s2 = Inr (marked', s')"
      by (auto simp: bind_result_eq_Inr)
    show ?thesis
    proof (cases "get_entity s i")
      case None
      with steps(1,2) have "s2 = s" by (auto simp: restamp_base_revision_def split: option.splits)
      with steps(3) have call: "mark_submitted by_id revision_of ids s = Inr (marked', s')" by simp
      note IH = Cons.IH [OF Cons.prems(1) d live call]
      have "get_entity s' i = None" using IH None fresh by simp
      with IH show ?thesis by auto
    next
      case (Some r)
      with steps(1) have m: "mark_proposal_state i SUBMITTED_STATE s = Inr (changed, s1)" by simp
      have "live_target r \<noteq> None" using Cons.prems(3) Some \<open>by_id i = Some p\<close> by simp
      from mark_one_effect [OF Cons.prems(1) Some this m steps(2)] obtain r2 where
        r2: "s2 = write_record r2 s" "cr_id r2 = i" "evolves r r2" "state_of_change r2 = ''submitted''" by blast
      have get2: "get_entity s2 j = (if j = i then Some r2 else get_entity s j)" for j
        using r2 Some by (simp add: write_record_get)
      have ev: "list_all2 evolves s s2" using write_record_evolves [of s r2 r] Cons.prems(1) Some r2 by simp
      have d2: "distinct (ids_of s2)" using Cons.prems(1) r2(1) by simp
      have live2: "\<forall>j \<in> set ids. \<forall>r. by_id j \<noteq> None \<and> get_entity s2 j = Some r \<longrightarrow> live_target r \<noteq> None"
        using live get2 fresh by auto
      note IH = Cons.IH [OF d2 d live2 steps(3)]
      have "get_entity s' i = Some r2" using IH get2 fresh by simp
      with IH r2(4) get2 fresh evolves_all_trans [OF ev] show ?thesis by auto
    qed
  qed
qed

section \<open>Live changes of a store\<close>

lemma live_changes_of_target:
  "length (on_target t (live_changes s)) = length (filter (\<lambda>r. live_target r = Some t) s)"
  by (induction s)
    (auto simp: on_target_def live_changes_def live_target_def map_filter_simps split: option.splits)

definition one_change_per_artifact :: "change_store \<Rightarrow> bool" where
  "one_change_per_artifact s \<longleftrightarrow> (\<forall>t. length (on_target t (live_changes s)) \<le> 1)"

lemma evolves_fewer_live:
  assumes "list_all2 evolves s s'"
  shows "length (on_target t (live_changes s')) \<le> length (on_target t (live_changes s))"
  unfolding live_changes_of_target using assms
  by (induction rule: list_all2_induct) (auto simp: evolves_def)

lemma evolves_keeps_one: "\<lbrakk>list_all2 evolves s s'; one_change_per_artifact s\<rbrakk> \<Longrightarrow> one_change_per_artifact s'"
  using evolves_fewer_live le_trans unfolding one_change_per_artifact_def by blast

lemma pending_on_eq: "pending_on s t = sort_key pp_id (on_target t (live_changes s))"
  by (simp add: pending_on_def pending_lookup listed_def)

lemma live_change_record:
  assumes "p \<in> set (live_changes s)"
  shows "\<exists>r \<in> set s. cr_id r = pp_id p \<and> live_target r = Some (pp_target p)"
  using assms by (auto simp: live_changes_def set_map_filter live_target_def dest: decode_changeD(1) intro!: bexI)

lemma pending_on_record:
  assumes "distinct (ids_of s)" and "p \<in> set (pending_on s t)"
  shows "\<exists>r. get_entity s (pp_id p) = Some r \<and> live_target r = Some t"
proof -
  from assms(2) have "p \<in> set (live_changes s)" "pp_target p = t" by (auto simp: pending_on_eq on_target_def)
  with live_change_record [of p s] assms(1) show ?thesis by (auto simp: get_entity_iff)
qed

lemma pending_on_ids_distinct: "distinct (ids_of s) \<Longrightarrow> distinct (map pp_id (pending_on s t))"
proof -
  assume "distinct (ids_of s)"
  then have "distinct (map pp_id (on_target t (live_changes s)))"
    unfolding on_target_def by (intro distinct_map_filter live_changes_ids)
  moreover have "mset (map pp_id (pending_on s t)) = mset (map pp_id (on_target t (live_changes s)))"
    by (simp add: pending_on_eq)
  ultimately show ?thesis by (metis mset_eq_imp_distinct_iff)
qed

lemma live_record_pending:
  assumes "r \<in> set s" and "live_target r = Some t"
  shows "\<exists>p \<in> set (pending_on s t). pp_id p = cr_id r"
proof -
  from assms(2) obtain p where p: "cr_type r = PROPOSED_CHANGE_TYPE" "decode_change r = Some p" "pp_target p = t"
    by (auto simp: live_target_def split: if_splits)
  with assms(1) have "p \<in> set (on_target t (live_changes s))"
    by (auto simp: on_target_def live_changes_def set_map_filter)
  with decode_changeD(1) [OF p(2)] show ?thesis by (auto simp: pending_on_eq)
qed

lemma live_target_new:
  "edit_ok e \<Longrightarrow> live_target (new_change i e reference base) = None \<or>
     live_target (new_change i e reference base) = Some (edit_artifact e)"
  by (simp add: live_target_eq new_change_def recorded_edit_def edit_codec.decode_encode)

lemma state_of_new: "state_of_change (new_change i e reference base) = ''draft''"
  by (simp add: state_of_change_def new_change_def)

section \<open>What is decided refers to what is pending\<close>

lemma decide_shape:
  assumes "decide kind target d pending carried baseline = Inr oc"
  shows "case oc of
      RecordNew e \<Rightarrow> pending = [] \<and> edit_ok e \<and> edit_artifact e = target
    | ReviseDraft i e \<Rightarrow> i \<in> pp_id ` set pending \<and> edit_ok e \<and> edit_artifact e = target
    | SupersedeSubmitted ids base e \<Rightarrow> ids = map pp_id (sort_key pp_id pending) \<and> edit_ok e \<and> edit_artifact e = target
    | WithdrawEmptied ids \<Rightarrow> ids = map pp_id (sort_key pp_id pending) \<and> pending \<noteq> []"
proof (cases "sort_key pp_id pending")
  case Nil
  then have "pending = []" by (metis mset_sort mset_zero_iff)
  with assms Nil show ?thesis
    by (auto simp: decide_def Let_def bind_result_eq_Inr as_edit_iff split: if_splits)
next
  case (Cons p ps)
  then have "p \<in> set pending" by (metis list.set_intros(1) set_sort)
  with assms Cons show ?thesis
    by (auto simp: decide_def Let_def bind_result_eq_Inr as_edit_iff split: if_splits)
qed

definition born :: "change_record \<Rightarrow> bool" where
  "born r \<longleftrightarrow> cr_type r = PROPOSED_CHANGE_TYPE \<and> change_moves\<^sup>*\<^sup>* ''draft'' (state_of_change r)"

definition store_evolves :: "change_store \<Rightarrow> change_store \<Rightarrow> bool" where
  "store_evolves s s' \<longleftrightarrow> (\<exists>s1 new. s' = s1 @ new \<and> list_all2 evolves s s1 \<and> list_all born new) \<and> distinct (ids_of s')"

lemma store_evolvesI:
  "\<lbrakk>list_all2 evolves s s'; distinct (ids_of s)\<rbrakk> \<Longrightarrow> store_evolves s s'"
  unfolding store_evolves_def using evolves_all_ids [of s s']
  by (intro conjI exI [of _ s'] exI [of _ "[]"]) simp_all

lemma store_evolves_trans: "\<lbrakk>store_evolves s s'; store_evolves s' s''\<rbrakk> \<Longrightarrow> store_evolves s s''"
proof -
  assume "store_evolves s s'" and two: "store_evolves s' s''"
  then obtain s1 new where one: "s' = s1 @ new" "list_all2 evolves s s1" "list_all born new"
    by (auto simp: store_evolves_def)
  from two obtain t new' where t: "s'' = t @ new'" "list_all2 evolves s' t" "list_all born new'" "distinct (ids_of s'')"
    by (auto simp: store_evolves_def)
  from t(2) one(1) obtain t1 t2 where split: "t = t1 @ t2" "list_all2 evolves s1 t1" "list_all2 evolves new t2"
    by (auto simp: list_all2_append1)
  have "list_all born t2"
    using split(3) one(3) by (induction rule: list_all2_induct) (auto simp: born_def evolves_def intro: rtranclp_trans)
  with evolves_all_trans [OF one(2) split(2)] t split(1) show ?thesis
    unfolding store_evolves_def by (intro conjI exI [of _ t1] exI [of _ "t2 @ new'"]) simp_all
qed

lemma write_change_effect:
  assumes "write_change valid new_id dry e reference base s = (res, s')"
  shows "(wrote res \<longrightarrow> s' = s @ [new_change new_id e reference base]) \<and> (\<not> wrote res \<longrightarrow> s' = s)"
  using assms by (auto simp: write_change_def Let_def split: if_splits)

lemma add_new_evolves:
  assumes "distinct (ids_of s)" and "new_id \<notin> set (ids_of s)"
  shows "store_evolves s (s @ [new_change new_id e reference base])"
proof -
  have "born (new_change new_id e reference base)" by (simp add: born_def state_of_new) (simp add: new_change_def)
  moreover have "distinct (ids_of (s @ [new_change new_id e reference base]))"
    using assms by (simp add: new_change_def)
  ultimately show ?thesis unfolding store_evolves_def using evolves_all_refl [of s]
    by (intro conjI exI [of _ s] exI [of _ "[new_change new_id e reference base]"]) simp_all
qed

lemma rewrite_effect:
  assumes "distinct (ids_of s)" and "rewrite_recorded_edit valid dry i e s = Inr (res, s')"
    and "get_entity s i = Some r" and "live_target r = Some (edit_artifact e)" and "edit_ok e"
  shows "list_all2 evolves s s'"
proof -
  let ?r' = "set_field ''recorded-edit'' (PDict (edit_to_mapping e)) r"
  have "cr_id r = i" using assms(1,3) by (simp add: get_entity_iff)
  then have "list_all2 evolves s (write_record ?r' s)"
    using assms evolves_edit [OF assms(4,5)] by (intro write_record_evolves [of _ _ r]) simp_all
  with assms(2,3) evolves_all_refl show ?thesis
    by (auto simp: rewrite_recorded_edit_def Let_def split: if_splits)
qed

lemma retire_pending_effect:
  assumes "distinct (ids_of s)" and "s1 = s @ new" and "distinct (ids_of s1)"
    and "retire (map pp_id (sort_key pp_id (pending_on s t))) s1 = Inr s'"
  shows "list_all2 evolves s1 s' \<and>
    (\<forall>p \<in> set (pending_on s t). \<forall>r. get_entity s' (pp_id p) = Some r \<longrightarrow> state_of_change r = ''abandoned'')"
proof -
  have "distinct (map pp_id (sort_key pp_id (pending_on s t)))"
    using pending_on_ids_distinct [OF assms(1), of t] by (simp add: distinct_map)
  moreover have "state_of_change r \<in> PENDING_STATES"
    if "i \<in> set (map pp_id (sort_key pp_id (pending_on s t)))" "get_entity s1 i = Some r" for i r
  proof -
    from that(1) obtain p where p: "p \<in> set (pending_on s t)" "i = pp_id p" by auto
    from pending_on_record [OF assms(1) p(1)] p(2) obtain q where q: "get_entity s i = Some q" "live_target q = Some t" by blast
    then have "q \<in> set s1" "cr_id q = i" using assms(1,2) by (simp_all add: get_entity_iff)
    with that(2) have "r = q" using assms(3) by (metis get_entity_iff option.inject)
    with q show ?thesis by (simp add: live_is_pending)
  qed
  ultimately show ?thesis using retire_effect [OF assms(3) _ _ assms(4)] by fastforce
qed

section \<open>The operations\<close>

lemma one_change_added:
  assumes "one_change_per_artifact s" and "on_target t (live_changes s) = []"
    and "live_target r = None \<or> live_target r = Some t"
  shows "one_change_per_artifact (s @ [r])"
proof -
  have "length (on_target u (live_changes (s @ [r]))) \<le> 1" for u
  proof -
    have old: "length (filter (\<lambda>q. live_target q = Some u) s) \<le> 1"
      using assms(1) by (simp add: one_change_per_artifact_def flip: live_changes_of_target)
    have none: "u = t \<Longrightarrow> length (filter (\<lambda>q. live_target q = Some u) s) = 0"
      using assms(2) by (simp flip: live_changes_of_target)
    show ?thesis unfolding live_changes_of_target
      using old none assms(3) by (cases "u = t") auto
  qed
  then show ?thesis by (simp add: one_change_per_artifact_def)
qed

lemma superseded_leaves_one:
  assumes "distinct (ids_of s)" and "distinct (ids_of (s @ [r]))" and "one_change_per_artifact s"
    and "live_target r = None \<or> live_target r = Some t"
    and "list_all2 evolves (s @ [r]) s'"
    and "\<forall>p \<in> set (pending_on s t). \<forall>q. get_entity s' (pp_id p) = Some q \<longrightarrow> state_of_change q = ''abandoned''"
  shows "one_change_per_artifact s'"
proof -
  from assms(5) obtain sa n where sa: "s' = sa @ [n]" "list_all2 evolves s sa" "evolves r n"
    by (auto simp: list_all2_append1 list_all2_Cons1)
  have "distinct (ids_of s')" using assms(2,5) evolves_all_ids by metis
  have gone: "live_target q \<noteq> Some t" if "q \<in> set sa" for q
  proof
    assume live: "live_target q = Some t"
    from that sa(2) obtain q0 where q0: "q0 \<in> set s" "evolves q0 q" by (metis in_set_conv_nth list_all2_conv_all_nth)
    then have "live_target q0 = Some t" "cr_id q0 = cr_id q" using live by (auto simp: evolves_def)
    from live_record_pending [OF q0(1) this(1)] this(2) obtain p where p: "p \<in> set (pending_on s t)" "pp_id p = cr_id q" by auto
    have "get_entity s' (cr_id q) = Some q"
      using \<open>distinct (ids_of s')\<close> that sa(1) by (simp add: get_entity_iff)
    with assms(6) p have "state_of_change q = ''abandoned''" by metis
    with live_is_pending [of q] live show False by (simp add: PENDING_iff)
  qed
  have "length (on_target u (live_changes s')) \<le> 1" for u
  proof -
    have old: "length (filter (\<lambda>q. live_target q = Some u) sa) \<le> 1"
      using evolves_keeps_one [OF sa(2) assms(3)] by (simp add: one_change_per_artifact_def flip: live_changes_of_target)
    have none: "u = t \<Longrightarrow> filter (\<lambda>q. live_target q = Some u) sa = []"
      using gone by (simp add: filter_empty_conv)
    have "live_target n = None \<or> live_target n = Some t" using sa(3) assms(4) by (auto simp: evolves_def)
    then show ?thesis unfolding live_changes_of_target sa(1)
      using old none by (cases "u = t") auto
  qed
  then show ?thesis by (simp add: one_change_per_artifact_def)
qed

lemma record_effect:
  assumes "distinct (ids_of s)" and "new_id \<notin> set (ids_of s)"
    and "record_enterprise_change valid new_id dry kind proxied reference target d carried baseline revision s = Inr (res, s')"
  shows "store_evolves s s'" and "one_change_per_artifact s \<Longrightarrow> one_change_per_artifact s'"
proof -
  let ?pending = "pending_on s target"
  let ?base = "if truthy revision then the revision else UNKNOWN_BASE"
  from assms(3) obtain oc where oc: "decide kind target d ?pending carried baseline = Inr oc"
    "materialize valid new_id dry oc reference ?base s = Inr (res, s')"
    by (auto simp: record_enterprise_change_def split: option.splits if_splits sum.splits)
  note shape = decide_shape [OF oc(1)]
  have "store_evolves s s' \<and> (one_change_per_artifact s \<longrightarrow> one_change_per_artifact s')"
  proof (cases oc)
    case (RecordNew e)
    with oc(2) have "write_change valid new_id dry e reference ?base s = (res, s')" by (simp add: materialize_def)
    from write_change_effect [OF this] have "s' = s \<or> s' = s @ [new_change new_id e reference ?base]" by blast
    moreover have "on_target target (live_changes s) = []"
      using shape RecordNew by (simp add: pending_on_eq) (metis mset_sort mset_zero_iff)
    ultimately show ?thesis
      using shape RecordNew add_new_evolves [OF assms(1,2)] store_evolvesI [OF evolves_all_refl assms(1)]
        one_change_added live_target_new by auto
  next
    case (ReviseDraft i e)
    with shape obtain p where p: "p \<in> set ?pending" "pp_id p = i" "edit_ok e" "edit_artifact e = target" by auto
    from pending_on_record [OF assms(1) p(1)] p(2) obtain r where "get_entity s i = Some r" "live_target r = Some target" by blast
    with rewrite_effect [OF assms(1), of valid dry i e res s' r] oc(2) ReviseDraft p have "list_all2 evolves s s'"
      by (simp add: materialize_def)
    then show ?thesis using store_evolvesI assms(1) evolves_keeps_one by blast
  next
    case (WithdrawEmptied ids)
    with oc(2) have "retire ids s = Inr s'" by (auto simp: materialize_def bind_result_eq_Inr)
    with shape WithdrawEmptied have "retire (map pp_id (sort_key pp_id ?pending)) s = Inr s'" by simp
    with retire_pending_effect [OF assms(1) _ assms(1), of "[]" target s'] have "list_all2 evolves s s'" by simp
    then show ?thesis using store_evolvesI assms(1) evolves_keeps_one by blast
  next
    case (SupersedeSubmitted ids base e)
    obtain res1 s1 where w: "write_change valid new_id dry e reference base s = (res1, s1)"
      by (cases "write_change valid new_id dry e reference base s")
    note written = write_change_effect [OF w]
    show ?thesis
    proof (cases "wrote res1")
      case False
      with oc(2) SupersedeSubmitted w written have "s' = s" by (simp add: materialize_def)
      then show ?thesis using store_evolvesI [OF evolves_all_refl assms(1)] by simp
    next
      case True
      let ?r = "new_change new_id e reference base"
      have s1: "s1 = s @ [?r]" using True written by simp
      have added: "store_evolves s s1" using add_new_evolves [OF assms(1,2)] s1 by simp
      then have d1: "distinct (ids_of s1)" by (simp add: store_evolves_def)
      from oc(2) SupersedeSubmitted w True have "retire ids s1 = Inr s'" by (auto simp: materialize_def bind_result_eq_Inr)
      with shape SupersedeSubmitted have "retire (map pp_id (sort_key pp_id ?pending)) s1 = Inr s'" by simp
      note gone = retire_pending_effect [OF assms(1) s1 d1 this]
      have "store_evolves s s'" using store_evolves_trans [OF added] store_evolvesI gone d1 by blast
      moreover have "one_change_per_artifact s \<Longrightarrow> one_change_per_artifact s'"
        using superseded_leaves_one [OF assms(1), of ?r target s'] d1 gone shape SupersedeSubmitted s1
          live_target_new [of e new_id reference base] by auto
      ultimately show ?thesis by blast
    qed
  qed
  then show "store_evolves s s'" and "one_change_per_artifact s \<Longrightarrow> one_change_per_artifact s'" by simp_all
qed

lemma discard_effect:
  assumes "distinct (ids_of s)" and "discard_change i branch_pending s = Inr (b, s')"
  shows "list_all2 evolves s s'"
proof -
  from assms(2) obtain r where r: "get_entity s i = Some r" "state_of_change r \<in> PENDING_STATES"
    "mark_proposal_state i ''abandoned'' s = Inr (b, s')"
    by (auto simp: discard_change_def split: option.splits if_splits)
  have "state_of_change q \<in> PENDING_STATES \<and> change_moves\<^sup>*\<^sup>* (state_of_change q) ''abandoned''" if "get_entity s i = Some q" for q
    using that r abandon by auto
  from mark_writes [OF assms(1) r(3) this] obtain q r' where
    "get_entity s i = Some q" "s' = write_record r' s" "cr_id r' = i" "evolves q r'" .
  with write_record_evolves [of s r' q] assms(1) show ?thesis by simp
qed

lemma publish_effect:
  assumes "distinct (ids_of s)" and "distinct is" and "mark_published revision_of is s = Inr (marked, s')"
  shows "list_all2 evolves s s' \<and> (\<forall>j. j \<notin> set is \<longrightarrow> get_entity s' j = get_entity s j) \<and>
    (\<forall>p \<in> set (live_changes s). pp_id p \<in> set is \<longrightarrow>
       (\<exists>r. get_entity s' (pp_id p) = Some r \<and> state_of_change r = ''submitted''))"
proof -
  let ?by_id = "proposals_by_id (pending_proposals s)"
  have "live_target r \<noteq> None" if i: "?by_id i \<noteq> None" "get_entity s i = Some r" for i r
  proof -
    from i(1) obtain p where "p \<in> set (live_changes s)" "pp_id p = i"
      using proposals_by_id_iff [OF assms(1)] by auto
    with live_change_record [of p s] i(2) assms(1) show ?thesis
      by (auto simp: get_entity_iff distinct_map inj_on_def)
  qed
  then have live: "\<forall>i \<in> set is. \<forall>r. ?by_id i \<noteq> None \<and> get_entity s i = Some r \<longrightarrow> live_target r \<noteq> None" by blast
  note eff = mark_submitted_effect [OF assms(1,2) live assms(3) [unfolded mark_published_def]]
  have "\<exists>r. get_entity s' (pp_id p) = Some r \<and> state_of_change r = ''submitted''"
    if "p \<in> set (live_changes s)" "pp_id p \<in> set is" for p
  proof -
    have "?by_id (pp_id p) = Some p" using proposals_by_id_iff [OF assms(1)] that(1) by simp
    moreover have "get_entity s' (pp_id p) \<noteq> None"
    proof -
      obtain r where "r \<in> set s" "cr_id r = pp_id p" using live_change_record [of p s] \<open>p \<in> set (live_changes s)\<close> by blast
      then have "pp_id p \<in> set (ids_of s)" by (metis image_eqI list.set_map)
      moreover have "ids_of s' = ids_of s" using eff by (intro evolves_all_ids) simp
      ultimately show ?thesis by (simp add: get_entity_None_iff)
    qed
    ultimately show ?thesis using eff that(2) by auto
  qed
  with eff show ?thesis by blast
qed

end
