(* ===== verification/Change_Lifecycle_Properties.thy ===== *)
theory Change_Lifecycle_Properties
  imports Change_Lifecycle
begin

text \<open>
  The lifecycle of proposed changes: any interleaving of recording, discarding, sweeping and publishing
  refines the abstract lifecycle, keeps one live change per artifact, and a sweep closes exactly what
  upstream carries.
\<close>

section \<open>The sweep\<close>

lemma swept_ids_distinct:
  "distinct (ids_of rs) \<Longrightarrow> distinct (map sc_id (List.map_filter (swept_of target_of) rs)) \<and>
     sc_id ` set (List.map_filter (swept_of target_of) rs) \<subseteq> cr_id ` set rs"
proof (induction rs)
  case (Cons r rs)
  then have IH: "distinct (map sc_id (List.map_filter (swept_of target_of) rs))"
    "sc_id ` set (List.map_filter (swept_of target_of) rs) \<subseteq> cr_id ` set rs" "cr_id r \<notin> cr_id ` set rs" by simp_all
  show ?case
  proof (cases "swept_of target_of r")
    case None
    with IH show ?thesis by (auto simp: map_filter_simps)
  next
    case (Some c)
    with IH sc_id_swept_of [OF Some] show ?thesis by (auto simp: map_filter_simps)
  qed
qed (simp add: map_filter_simps)

text \<open>What a sweep that could read upstream makes of one record.\<close>

definition swept_state :: "(string \<Rightarrow> target_record option) \<Rightarrow> bool \<Rightarrow> change_record \<Rightarrow> string" where
  "swept_state target_of branch_pending r =
     (if cr_type r = PROPOSED_CHANGE_TYPE \<and> state_of_change r = SUBMITTED_STATE then
        (case swept_of target_of r of
           None \<Rightarrow> state_of_change r
         | Some c \<Rightarrow> if sc_closed c then ''integrated''
                     else if branch_pending then state_of_change r else ''draft'')
      else state_of_change r)"

lemma swept_state_other: "r \<notin> set (sweepable s) \<Longrightarrow> r \<in> set s \<Longrightarrow> swept_state target_of bp r = state_of_change r"
  by (auto simp: swept_state_def sweepable_def)

lemma sweep_result:
  assumes "distinct (ids_of s)"
    and "sweep_submitted True (Some target_of) branch_pending s = (report, s')"
  shows "list_all2 evolves s s' \<and>
    (\<forall>r \<in> set s. \<exists>r'. get_entity s' (cr_id r) = Some r' \<and> state_of_change r' = swept_state target_of branch_pending r \<and>
       (r \<notin> set (sweepable s) \<longrightarrow> r' = r))"
proof -
  let ?rs = "sweepable s"
  let ?swept = "List.map_filter (swept_of target_of) ?rs"
  have d: "distinct (ids_of ?rs)" unfolding sweepable_def by (rule distinct_map_filter [OF assms(1)])
  have members: "\<forall>r \<in> set ?rs. get_entity s (cr_id r) = Some r \<and> state_of_change r = ''submitted''"
    using assms(1) by (auto simp: sweepable_def get_entity_iff SUBMITTED_STATE_def)
  have in_rs: "r \<in> set ?rs" if "r \<in> set s" "cr_id r = cr_id q" "q \<in> set ?rs" for r q
    using that assms(1) by (auto simp: sweepable_def distinct_map inj_on_def)
  obtain report1 s1 where sweep: "sweep_integrated_changes target_of ?rs empty_report s = (report1, s1)"
    by (cases "sweep_integrated_changes target_of ?rs empty_report s")
  note swept = sweep_effect [OF assms(1) d members sweep]
  have d1: "distinct (ids_of s1)" using swept evolves_all_ids assms(1) by metis
  have open_eq: "left_open report1 = filter (\<lambda>c. \<not> sc_closed c) ?swept" using swept by (simp add: empty_report_def)
  note ids = swept_ids_distinct [OF d, of target_of]
  have of_id: "swept_of target_of r = Some c" if "r \<in> set ?rs" "c \<in> set ?swept" "sc_id c = cr_id r" for r c
  proof -
    from that(2) obtain q where q: "q \<in> set ?rs" "swept_of target_of q = Some c" by (auto simp: set_map_filter)
    with that sc_id_swept_of [OF q(2)] d have "q = r" by (simp add: distinct_map inj_on_def)
    with q show ?thesis by simp
  qed
  have in_swept: "c \<in> set ?swept \<and> sc_id c = cr_id r" if "r \<in> set ?rs" "swept_of target_of r = Some c" for r c
    using that sc_id_swept_of by (auto simp: set_map_filter)
  have get1: "get_entity s1 (cr_id r) =
      (if \<exists>c. swept_of target_of r = Some c \<and> sc_closed c then Some (set_field ''proposal-state'' (PStr ''integrated'') r) else Some r)"
    if "r \<in> set ?rs" for r
  proof -
    have "cr_id r \<in> sc_id ` set (filter sc_closed ?swept) \<longleftrightarrow> (\<exists>c. swept_of target_of r = Some c \<and> sc_closed c)"
    proof
      assume "cr_id r \<in> sc_id ` set (filter sc_closed ?swept)"
      then obtain c where "c \<in> set ?swept" "sc_closed c" "sc_id c = cr_id r" by auto
      with of_id [OF that] show "\<exists>c. swept_of target_of r = Some c \<and> sc_closed c" by blast
    next
      assume "\<exists>c. swept_of target_of r = Some c \<and> sc_closed c"
      then obtain c where c: "swept_of target_of r = Some c" "sc_closed c" by blast
      with in_swept [OF that c(1)] have "c \<in> set (filter sc_closed ?swept)" "cr_id r = sc_id c" by simp_all
      then show "cr_id r \<in> sc_id ` set (filter sc_closed ?swept)" by (metis imageI)
    qed
    then show ?thesis using swept members that by auto
  qed
  have elsewhere: "get_entity s1 (cr_id r) = Some r \<and> cr_id r \<notin> sc_id ` set ?swept" if "r \<in> set s" "r \<notin> set ?rs" for r
  proof -
    have "cr_id r \<notin> cr_id ` set ?rs" using in_rs [OF that(1)] that(2) by blast
    then have "cr_id r \<notin> sc_id ` set ?swept" using ids by blast
    moreover have "get_entity s (cr_id r) = Some r" using assms(1) that(1) by (simp add: get_entity_iff)
    ultimately show ?thesis using swept by auto
  qed
  show ?thesis
  proof (cases "?rs = []")
    case True
    with assms have "s' = s" by (simp add: sweep_submitted_def)
    with True show ?thesis
      using assms(1) swept_state_other [of _ s] by (auto simp: evolves_all_refl get_entity_iff)
  next
    case False
    with assms(2) sweep have stranded: "return_stranded_changes_to_draft branch_pending report1 s1 = (report, s')"
      by (simp add: sweep_submitted_def)
    have open_state: "get_entity s1 (cr_id r) = Some r \<and> state_of_change r = ''submitted''"
      if "r \<in> set ?rs" "swept_of target_of r = Some c" "\<not> sc_closed c" for r c
      using get1 [OF that(1)] that members by auto
    have open_of: "\<exists>r \<in> set ?rs. swept_of target_of r = Some c \<and> cr_id r = sc_id c \<and> \<not> sc_closed c"
      if "c \<in> set (left_open report1)" for c
      using that open_eq sc_id_swept_of by (fastforce simp: set_map_filter)
    have tail: "list_all2 evolves s1 s' \<and> (\<forall>j. j \<notin> sc_id ` set (left_open report1) \<longrightarrow> get_entity s' j = get_entity s1 j) \<and>
        (\<forall>c \<in> set (left_open report1). \<exists>r'. get_entity s' (sc_id c) = Some r' \<and>
             state_of_change r' = (if branch_pending then ''submitted'' else ''draft''))"
    proof (cases "left_open report1 = [] \<or> branch_pending")
      case True
      with stranded have "s' = s1" by (simp add: return_stranded_changes_to_draft_def)
      with True show ?thesis using open_of open_state by (fastforce simp: evolves_all_refl)
    next
      case False
      with stranded obtain demoted where dem: "demote_stranded (left_open report1) s1 = (demoted, s')"
        by (auto simp: return_stranded_changes_to_draft_def split: prod.splits)
      have dist: "distinct (map sc_id (left_open report1))" unfolding open_eq using ids by (intro distinct_map_filter) simp
      have sub: "\<forall>c \<in> set (left_open report1). \<forall>r. get_entity s1 (sc_id c) = Some r \<longrightarrow> state_of_change r = ''submitted''"
        using open_of open_state by fastforce
      note eff = demote_effect [OF d1 dist sub dem]
      have "get_entity s' (sc_id c) \<noteq> None" if "c \<in> set (left_open report1)" for c
      proof -
        have "get_entity s1 (sc_id c) \<noteq> None" using open_of [OF that] open_state by fastforce
        moreover have "ids_of s' = ids_of s1" using eff evolves_all_ids by blast
        ultimately show ?thesis by (simp add: get_entity_None_iff)
      qed
      with eff False show ?thesis by fastforce
    qed
    have each: "\<exists>r'. get_entity s' (cr_id r) = Some r' \<and> state_of_change r' = swept_state target_of branch_pending r \<and>
        (r \<notin> set ?rs \<longrightarrow> r' = r)" if "r \<in> set s" for r
    proof (cases "r \<in> set ?rs")
      case False
      have "sc_id ` set (left_open report1) \<subseteq> sc_id ` set ?swept" unfolding open_eq by auto
      with elsewhere [OF that False] have "cr_id r \<notin> sc_id ` set (left_open report1)" by blast
      with elsewhere [OF that False] tail have "get_entity s' (cr_id r) = Some r" by simp
      with swept_state_other [OF False that] show ?thesis by simp
    next
      case rs: True
      then have sub: "state_of_change r = SUBMITTED_STATE" "cr_type r = PROPOSED_CHANGE_TYPE" by (simp_all add: sweepable_def)
      show ?thesis
      proof (cases "\<exists>c. swept_of target_of r = Some c \<and> \<not> sc_closed c")
        case True
        then obtain c where c: "swept_of target_of r = Some c" "\<not> sc_closed c" by blast
        with in_swept [OF rs c(1)] have "c \<in> set (left_open report1)" "sc_id c = cr_id r" unfolding open_eq by simp_all
        with tail obtain r' where "get_entity s' (cr_id r) = Some r'"
          "state_of_change r' = (if branch_pending then ''submitted'' else ''draft'')" by metis
        with c sub rs show ?thesis by (simp add: swept_state_def SUBMITTED_STATE_def)
      next
        case False
        then have "cr_id r \<notin> sc_id ` set (left_open report1)"
          using of_id [OF rs] unfolding open_eq by fastforce
        with tail get1 [OF rs] False have "get_entity s' (cr_id r) =
            (if \<exists>c. swept_of target_of r = Some c then Some (set_field ''proposal-state'' (PStr ''integrated'') r) else Some r)"
          by auto
        with False sub rs show ?thesis
          by (cases "swept_of target_of r") (auto simp: swept_state_def state_of_set_field)
      qed
    qed
    show ?thesis using each tail swept evolves_all_trans by blast
  qed
qed

lemma close_effect:
  assumes "distinct (ids_of s)" and "sweep_submitted mounted upstream branch_pending s = (report, s')"
  shows "list_all2 evolves s s'"
proof (cases "mounted \<and> upstream \<noteq> None")
  case True
  then obtain target_of where "upstream = Some target_of" mounted by auto
  with sweep_result [OF assms(1)] assms(2) show ?thesis by simp
next
  case False
  with assms(2) have "s' = s" by (auto simp: sweep_submitted_def split: if_splits)
  then show ?thesis by (simp add: evolves_all_refl)
qed

text \<open>
  A sweep that can read upstream leaves every record that is not a submitted change as it is, closes a
  submitted change exactly when the artifact upstream carries its readable edit, and returns every
  other one with a readable edit to draft exactly when no branch is published. So after a sweep with
  no branch published, a change that still reads submitted is one whose edit cannot be read. A sweep
  without an enterprise repository, or with an upstream that cannot be read, changes nothing.
\<close>

theorem sweep_closes_exactly_what_upstream_carries:
  assumes "distinct (ids_of s)"
  shows "(\<forall>r \<in> set s. \<exists>r'.
      get_entity (snd (sweep_submitted True (Some target_of) branch_pending s)) (cr_id r) = Some r' \<and>
      ((cr_type r \<noteq> PROPOSED_CHANGE_TYPE \<or> state_of_change r \<noteq> ''submitted'') \<longrightarrow> r' = r) \<and>
      (cr_type r = PROPOSED_CHANGE_TYPE \<and> state_of_change r = ''submitted'' \<longrightarrow>
        state_of_change r' =
          (case recorded_edit r of
             None \<Rightarrow> ''submitted''
           | Some e \<Rightarrow>
               if blank (edit_artifact e) then ''submitted''
               else if integrated (integration_verdict_for e (current_values_of (target_of (py_strip (edit_artifact e)))))
               then ''integrated''
               else if branch_pending then ''submitted'' else ''draft''))) \<and>
    (\<forall>upstream mounted. (\<not> mounted \<or> upstream = None) \<longrightarrow>
      snd (sweep_submitted mounted upstream branch_pending s) = s)"
proof -
  obtain report s' where sweep: "sweep_submitted True (Some target_of) branch_pending s = (report, s')"
    by (cases "sweep_submitted True (Some target_of) branch_pending s")
  note each = conjunct2 [OF sweep_result [OF assms sweep]]
  have state: "swept_state target_of branch_pending r =
      (case recorded_edit r of
         None \<Rightarrow> ''submitted''
       | Some e \<Rightarrow>
           if blank (edit_artifact e) then ''submitted''
           else if integrated (integration_verdict_for e (current_values_of (target_of (py_strip (edit_artifact e)))))
           then ''integrated''
           else if branch_pending then ''submitted'' else ''draft'')"
    if "cr_type r = PROPOSED_CHANGE_TYPE" "state_of_change r = ''submitted''" for r
    using that by (simp add: swept_state_def swept_of_def Let_def SUBMITTED_STATE_def split: option.split)
  have "\<exists>r'. get_entity s' (cr_id r) = Some r' \<and>
      ((cr_type r \<noteq> PROPOSED_CHANGE_TYPE \<or> state_of_change r \<noteq> ''submitted'') \<longrightarrow> r' = r) \<and>
      (cr_type r = PROPOSED_CHANGE_TYPE \<and> state_of_change r = ''submitted'' \<longrightarrow>
        state_of_change r' = swept_state target_of branch_pending r)" if "r \<in> set s" for r
  proof -
    from each that obtain r' where r': "get_entity s' (cr_id r) = Some r'"
      "state_of_change r' = swept_state target_of branch_pending r" "r \<notin> set (sweepable s) \<longrightarrow> r' = r" by blast
    then show ?thesis by (auto simp: sweepable_def SUBMITTED_STATE_def)
  qed
  moreover have "snd (sweep_submitted mounted upstream branch_pending s) = s"
    if "\<not> mounted \<or> upstream = None" for upstream mounted
    using that by (auto simp: sweep_submitted_def)
  ultimately show ?thesis unfolding sweep snd_conv using state by fastforce
qed

definition submitted_sample :: change_record where
  "submitted_sample = \<lparr>cr_id = ''C1'', cr_type = PROPOSED_CHANGE_TYPE,
     cr_extra = [(''proposes-change-to'', PStr ''GAR''), (''proposal-state'', PStr ''submitted''),
       (''base-revision'', PStr ''r1''),
       (''recorded-edit'', PDict (edit_to_mapping \<lparr>edit_kind = ''document'', edit_artifact = ''D'',
          edit_fields = [(''title'', PStr ''New'')]\<rparr>))]\<rparr>"

theorem sweep_closes_exactly_what_upstream_carries_witness:
  "\<exists>r'. get_entity (snd (sweep_submitted True (Some (\<lambda>_. Some (DocumentTarget
       \<lparr>dr_title = '' New'', dr_status = ''s'', dr_group = ''g'', dr_keywords = [], dr_last_updated = None\<rparr>))) False
       [submitted_sample])) ''C1'' = Some r' \<and> state_of_change r' = ''integrated''"
proof -
  let ?T = "\<lambda>_ :: string. Some (DocumentTarget
    \<lparr>dr_title = '' New'', dr_status = ''s'', dr_group = ''g'', dr_keywords = [], dr_last_updated = None\<rparr>)"
  let ?e = "\<lparr>edit_kind = ''document'', edit_artifact = ''D'', edit_fields = [(''title'', PStr ''New'')]\<rparr>"
  have d: "distinct (ids_of [submitted_sample])" by simp
  have facts: "cr_type submitted_sample = PROPOSED_CHANGE_TYPE" "state_of_change submitted_sample = ''submitted''"
    "recorded_edit submitted_sample = Some ?e" "\<not> blank (edit_artifact ?e)" "cr_id submitted_sample = ''C1''"
    by code_simp+
  have int: "integrated (integration_verdict_for ?e (current_values_of (?T (py_strip (edit_artifact ?e)))))"
    by code_simp
  have "submitted_sample \<in> set [submitted_sample]" by simp
  with sweep_closes_exactly_what_upstream_carries [OF d, of ?T False] obtain r' where
    "get_entity (snd (sweep_submitted True (Some ?T) False [submitted_sample])) (cr_id submitted_sample) = Some r'"
    "cr_type submitted_sample = PROPOSED_CHANGE_TYPE \<and> state_of_change submitted_sample = ''submitted'' \<longrightarrow>
      state_of_change r' = (case recorded_edit submitted_sample of
             None \<Rightarrow> ''submitted''
           | Some e \<Rightarrow>
               if blank (edit_artifact e) then ''submitted''
               else if integrated (integration_verdict_for e (current_values_of (?T (py_strip (edit_artifact e)))))
               then ''integrated'' else if False then ''submitted'' else ''draft'')"
    by (metis (no_types, lifting))
  with facts int show ?thesis by auto
qed

section \<open>Any interleaving\<close>

inductive lifecycle_step :: "(change_record \<Rightarrow> bool) \<Rightarrow> change_store \<Rightarrow> change_store \<Rightarrow> bool" for valid where
  recording: "\<lbrakk>new_id \<notin> set (ids_of s);
     record_enterprise_change valid new_id dry kind proxied reference target d carried baseline revision s = Ok (res, s')\<rbrakk>
     \<Longrightarrow> lifecycle_step valid s s'"
| discarding: "discard_change i branch_pending s = Ok (changed, s') \<Longrightarrow> lifecycle_step valid s s'"
| sweeping: "sweep_submitted mounted upstream branch_pending s = (report, s') \<Longrightarrow> lifecycle_step valid s s'"
| publishing: "\<lbrakk>distinct ids; mark_published revision_of ids s = Ok (marked, s')\<rbrakk> \<Longrightarrow> lifecycle_step valid s s'"

lemma lifecycle_step_effect:
  assumes "lifecycle_step valid s s'" and "distinct (ids_of s)"
  shows "store_evolves s s' \<and> (one_change_per_artifact s \<longrightarrow> one_change_per_artifact s')"
  using assms
proof cases
  case (recording new_id dry kind proxied reference target d carried baseline revision res)
  with record_effect [OF assms(2) recording] show ?thesis by blast
next
  case (discarding i branch_pending changed)
  with discard_effect [OF assms(2)] discarding have "list_all2 evolves s s'" by blast
  then show ?thesis using store_evolvesI [OF _ assms(2)] evolves_keeps_one by blast
next
  case (sweeping mounted upstream branch_pending report)
  with close_effect [OF assms(2)] have "list_all2 evolves s s'" by blast
  then show ?thesis using store_evolvesI [OF _ assms(2)] evolves_keeps_one by blast
next
  case (publishing ids revision_of marked)
  with publish_effect [OF assms(2)] have "list_all2 evolves s s'" by blast
  then show ?thesis using store_evolvesI [OF _ assms(2)] evolves_keeps_one by blast
qed

lemma lifecycle_run_effect:
  assumes "(lifecycle_step valid)\<^sup>*\<^sup>* s s'" and "distinct (ids_of s)"
  shows "store_evolves s s' \<and> (one_change_per_artifact s \<longrightarrow> one_change_per_artifact s')"
  using assms
proof (induction rule: rtranclp_induct)
  case base
  then show ?case using store_evolvesI [OF evolves_all_refl] by blast
next
  case (step t u)
  then have IH: "store_evolves s t" "one_change_per_artifact s \<longrightarrow> one_change_per_artifact t" by blast+
  then have "distinct (ids_of t)" by (simp add: store_evolves_def)
  from lifecycle_step_effect [OF step.hyps(2) this] IH store_evolves_trans show ?case by blast
qed

text \<open>
  Claim C6. The operations refine the lifecycle of a change. Over any interleaving of recording edits,
  discarding, sweeping and publishing, with any verifier, every record keeps its id and its state only moves
  along draft, submitted, integrated and abandoned as the abstract machine allows; a change that has ended is
  never touched again, not in one field; what is new was born a draft; and ids stay unique.
\<close>

theorem operations_refine_the_lifecycle:
  assumes "(lifecycle_step valid)\<^sup>*\<^sup>* s s'" and "distinct (map cr_id s)"
  shows "\<exists>old new. s' = old @ new \<and> distinct (map cr_id s') \<and>
    list_all2 (\<lambda>r r'. cr_id r' = cr_id r \<and> change_moves\<^sup>*\<^sup>* (state_of_change r) (state_of_change r') \<and>
      (state_of_change r \<in> {''integrated'', ''abandoned''} \<longrightarrow> r' = r)) s old \<and>
    (\<forall>r \<in> set new. change_moves\<^sup>*\<^sup>* ''draft'' (state_of_change r))"
proof -
  from lifecycle_run_effect [OF assms] obtain old new where s': "s' = old @ new" "distinct (ids_of s')"
    "list_all2 evolves s old" "list_all born new" unfolding store_evolves_def by blast
  have "list_all2 (\<lambda>r r'. cr_id r' = cr_id r \<and> change_moves\<^sup>*\<^sup>* (state_of_change r) (state_of_change r') \<and>
      (state_of_change r \<in> {''integrated'', ''abandoned''} \<longrightarrow> r' = r)) s old"
    by (rule list_all2_mono [OF s'(3)]) (auto simp: evolves_def PENDING_iff)
  with s' show ?thesis by (auto simp: list_all_iff born_def)
qed

theorem operations_refine_the_lifecycle_witness:
  "\<exists>s'. (lifecycle_step (\<lambda>_. True))\<^sup>*\<^sup>* [submitted_sample] s' \<and>
     map state_of_change s' = [''abandoned''] \<and> change_moves\<^sup>*\<^sup>* ''submitted'' ''abandoned''"
proof -
  let ?r' = "set_field ''proposal-state'' (PStr ''abandoned'') submitted_sample"
  have "discard_change ''C1'' None [submitted_sample] = Ok (True, [?r'])" by code_simp
  then have "lifecycle_step (\<lambda>_. True) [submitted_sample] [?r']" by (rule discarding)
  then have run: "(lifecycle_step (\<lambda>_. True))\<^sup>*\<^sup>* [submitted_sample] [?r']" by blast
  have "distinct (map cr_id [submitted_sample])" by simp
  from operations_refine_the_lifecycle [OF run this] obtain old new where s': "[?r'] = old @ new"
    "list_all2 (\<lambda>r r'. cr_id r' = cr_id r \<and> change_moves\<^sup>*\<^sup>* (state_of_change r) (state_of_change r') \<and>
      (state_of_change r \<in> {''integrated'', ''abandoned''} \<longrightarrow> r' = r)) [submitted_sample] old" by blast
  from s'(2) have "length old = 1" using list_all2_lengthD by fastforce
  with s'(1) have "old = [?r']" by (cases old) auto
  with s'(2) have "change_moves\<^sup>*\<^sup>* (state_of_change submitted_sample) (state_of_change ?r')" by simp
  moreover have "state_of_change submitted_sample = ''submitted''" by code_simp
  ultimately show ?thesis using run by (auto simp: state_of_set_field)
qed

text \<open>
  Claim C16. An artifact never has two live changes: if no artifact has two to begin with, then after any
  interleaving of recording, discarding, sweeping and publishing, with any verifier, none has.
\<close>

theorem one_live_change_per_artifact:
  assumes "(lifecycle_step valid)\<^sup>*\<^sup>* s s'" and "distinct (map cr_id s)"
    and "\<forall>t. length (on_target t (live_changes s)) \<le> 1"
  shows "length (on_target t (live_changes s')) \<le> 1 \<and>
    (\<forall>p \<in> set (live_changes s'). \<forall>q \<in> set (live_changes s'). pp_target p = pp_target q \<longrightarrow> p = q)"
proof -
  have one: "length (on_target u (live_changes s')) \<le> 1" for u
    using lifecycle_run_effect [OF assms(1,2)] assms(3) by (simp add: one_change_per_artifact_def)
  have "p = q" if "p \<in> set (live_changes s')" "q \<in> set (live_changes s')" "pp_target p = pp_target q" for p q
  proof -
    have "{p, q} \<subseteq> set (on_target (pp_target p) (live_changes s'))" using that by (simp add: on_target_def)
    with one [of "pp_target p"] show ?thesis
      by (cases "on_target (pp_target p) (live_changes s')") auto
  qed
  with one show ?thesis by blast
qed

theorem one_live_change_per_artifact_witness:
  "\<exists>s'. (lifecycle_step (\<lambda>_. True))\<^sup>*\<^sup>* [submitted_sample] s' \<and> length s' = 2 \<and>
     length (on_target ''D'' (live_changes s')) \<le> 1"
proof -
  let ?res = "record_enterprise_change (\<lambda>_. True) ''C2'' False ''document'' (Some ''document'') ''GAR'' ''D''
    [(''title'', PStr ''Newer'')] {} None None [submitted_sample]"
  have "case ?res of Inr (w, s') \<Rightarrow> length s' = 2 | Inl _ \<Rightarrow> False" by code_simp
  then obtain w s' where res: "?res = Ok (w, s')" "length s' = 2" by (auto split: sum.splits)
  have "''C2'' \<notin> set (ids_of [submitted_sample])" by (simp add: submitted_sample_def)
  from recording [OF this res(1)] have run: "(lifecycle_step (\<lambda>_. True))\<^sup>*\<^sup>* [submitted_sample] s'" by blast
  have "length (on_target t (live_changes [submitted_sample])) \<le> 1" for t
    unfolding live_changes_of_target by simp
  with one_live_change_per_artifact [OF run, of "''D''"] run res(2) show ?thesis by auto
qed

section \<open>Recording\<close>

text \<open>
  Recording a change never fails halfway. Over a store with unique ids, whatever was decided can
  be performed: a recording is refused only because the reference has no kind or another kind, or because
  the decision refuses the edit. And a dry run is not always dry: it leaves the store as it is except when the
  decision is to withdraw, where the pending changes are abandoned although nothing was to be written.
\<close>

theorem recording_completes_and_dry_runs_may_withdraw:
  assumes "distinct (map cr_id s)" and "new_id \<notin> cr_id ` set s"
  shows "record_enterprise_change valid new_id dry kind proxied reference target d carried baseline revision s \<noteq>
      Err (NotMaterialized e) \<and>
    (\<forall>res s'. record_enterprise_change valid new_id True kind proxied reference target d carried baseline revision s =
        Ok (res, s') \<longrightarrow>
      (s' \<noteq> s \<longleftrightarrow> (\<exists>ids. decide kind target d (pending_on s target) carried baseline = Ok (WithdrawEmptied ids))))"
proof -
  let ?pending = "pending_on s target"
  have pend: "\<exists>r. get_entity s i = Some r \<and> state_of_change r \<in> PENDING_STATES" if "i \<in> pp_id ` set ?pending" for i
    using that pending_on_record [OF assms(1)] live_is_pending by fastforce
  have d: "distinct (map pp_id (sort_key pp_id ?pending))"
    using pending_on_ids_distinct [OF assms(1), of target] by (simp add: distinct_map)
  have retires: "\<exists>t. retire (map pp_id (sort_key pp_id ?pending)) u = Inr t"
    if "distinct (ids_of u)" "\<And>i r. \<lbrakk>i \<in> pp_id ` set ?pending; get_entity u i = Some r\<rbrakk> \<Longrightarrow> state_of_change r \<in> PENDING_STATES" for u
    using that by (intro retire_total [OF _ d]) auto
  have total: "\<exists>res. materialize valid new_id dry oc reference base s = Inr res"
    if "decide kind target d ?pending carried baseline = Inr oc" for oc base dry
  proof (cases oc)
    case (RecordNew e)
    then show ?thesis by (simp add: materialize_def)
  next
    case (ReviseDraft i e)
    with decide_shape [OF that] pend obtain r where "get_entity s i = Some r" "state_of_change r \<in> PENDING_STATES" by auto
    with ReviseDraft pending_has_frontmatter show ?thesis
      by (auto simp: materialize_def rewrite_recorded_edit_def Let_def)
  next
    case (WithdrawEmptied ids)
    with decide_shape [OF that] retires [of s] pend assms(1) show ?thesis
      by (fastforce simp: materialize_def)
  next
    case (SupersedeSubmitted ids c e)
    obtain res1 s1 where w: "write_change valid new_id dry e reference c s = (res1, s1)"
      by (cases "write_change valid new_id dry e reference c s")
    have s1: "distinct (ids_of s1) \<and> (\<forall>i r. i \<in> pp_id ` set ?pending \<and> get_entity s1 i = Some r \<longrightarrow> state_of_change r \<in> PENDING_STATES)"
    proof (cases "wrote res1")
      case False
      with write_change_effect [OF w] assms(1) pend show ?thesis by fastforce
    next
      case True
      with write_change_effect [OF w] have s1: "s1 = s @ [new_change new_id e reference c]" by blast
      then have d1: "distinct (ids_of s1)" using assms by (simp add: new_change_def)
      have "state_of_change r \<in> PENDING_STATES" if i: "i \<in> pp_id ` set ?pending" "get_entity s1 i = Some r" for i r
      proof -
        from pend [OF i(1)] obtain q where q: "get_entity s i = Some q" "state_of_change q \<in> PENDING_STATES" by blast
        then have "get_entity s1 i = Some q" using assms(1) d1 s1 by (simp add: get_entity_iff)
        with i(2) q(2) show ?thesis by simp
      qed
      with d1 show ?thesis by blast
    qed
    with retires [of s1] SupersedeSubmitted decide_shape [OF that] w show ?thesis
      by (fastforce simp: materialize_def)
  qed
  have "record_enterprise_change valid new_id dry kind proxied reference target d carried baseline revision s \<noteq>
      Err (NotMaterialized e)"
  proof
    assume "record_enterprise_change valid new_id dry kind proxied reference target d carried baseline revision s =
      Err (NotMaterialized e)"
    then obtain oc base where oc: "decide kind target d ?pending carried baseline = Inr oc"
      "materialize valid new_id dry oc reference base s = Inl e"
      by (auto simp: record_enterprise_change_def split: option.splits if_splits sum.splits)
    from total [OF oc(1), of dry base] oc(2) show False by auto
  qed
  moreover have "s' \<noteq> s \<longleftrightarrow> (\<exists>ids. decide kind target d ?pending carried baseline = Ok (WithdrawEmptied ids))"
    if "record_enterprise_change valid new_id True kind proxied reference target d carried baseline revision s = Ok (res, s')"
    for res s'
  proof -
    from that obtain oc base where oc: "decide kind target d ?pending carried baseline = Inr oc"
      "materialize valid new_id True oc reference base s = Inr (res, s')"
      by (auto simp: record_enterprise_change_def split: option.splits if_splits sum.splits)
    show ?thesis
    proof (cases oc)
      case (WithdrawEmptied ids)
      with oc(2) decide_shape [OF oc(1)] have r: "retire (map pp_id (sort_key pp_id ?pending)) s = Inr s'" and ne: "?pending \<noteq> []"
        by (auto simp: materialize_def bind_result_eq_Inr)
      from retire_pending_effect [OF assms(1) _ assms(1), of "[]" target s'] r
      have gone: "\<forall>p \<in> set ?pending. \<forall>r. get_entity s' (pp_id p) = Some r \<longrightarrow> state_of_change r = ''abandoned''" by simp
      obtain p where p: "p \<in> set ?pending" using ne by (cases ?pending) auto
      from pend [of "pp_id p"] p obtain r where "get_entity s (pp_id p) = Some r" "state_of_change r \<in> PENDING_STATES" by blast
      with gone p have "s' \<noteq> s" by (auto simp: PENDING_iff)
      with oc(1) WithdrawEmptied show ?thesis by simp
    qed (use oc in \<open>auto simp: materialize_def write_change_def rewrite_recorded_edit_def Let_def
          split: option.splits if_splits\<close>)
  qed
  ultimately show ?thesis by blast
qed

theorem recording_completes_and_dry_runs_may_withdraw_witness:
  "\<exists>res s'. record_enterprise_change (\<lambda>_. True) ''C2'' True ''document'' (Some ''document'') ''GAR'' ''D''
       [(''title'', PStr ''New'')] {} (Some [(''title'', PStr ''New'')]) None [submitted_sample] = Ok (res, s') \<and>
     s' \<noteq> [submitted_sample]"
proof -
  let ?res = "record_enterprise_change (\<lambda>_. True) ''C2'' True ''document'' (Some ''document'') ''GAR'' ''D''
    [(''title'', PStr ''New'')] {} (Some [(''title'', PStr ''New'')]) None [submitted_sample]"
  have "case decide ''document'' ''D'' [(''title'', PStr ''New'')] (pending_on [submitted_sample] ''D'') {}
      (Some [(''title'', PStr ''New'')]) of Inr (WithdrawEmptied _) \<Rightarrow> True | _ \<Rightarrow> False" by code_simp
  then have w: "\<exists>ids. decide ''document'' ''D'' [(''title'', PStr ''New'')] (pending_on [submitted_sample] ''D'') {}
      (Some [(''title'', PStr ''New'')]) = Ok (WithdrawEmptied ids)" by (auto split: sum.splits change_outcome.splits)
  have "case ?res of Inr _ \<Rightarrow> True | Inl _ \<Rightarrow> False" by code_simp
  then obtain res s' where r: "?res = Ok (res, s')" by (auto split: sum.splits)
  have "distinct (map cr_id [submitted_sample])" "''C2'' \<notin> cr_id ` set [submitted_sample]"
    by (simp_all add: submitted_sample_def)
  from recording_completes_and_dry_runs_may_withdraw [OF this] r w have "s' \<noteq> [submitted_sample]" by blast
  with r show ?thesis by blast
qed

end
