(* ===== verification/Sync_State.thy ===== *)
theory Sync_State
  imports Change_Records
begin

text \<open>
  The persistent aggregate of the enterprise working branch
  (\<^verbatim>\<open>src/infrastructure/git/enterprise_sync_state.py\<close>): its lifecycle, the health overlay and the
  submission in flight. The state file is a value: absent, not JSON, or the document JSON reading
  gives (JSON numbers that are not integers are outside the model). The clock reading and the text of
  the exception that made a file unreadable are parameters. Locking and the mtime cache are not
  modelled: every operation here is one critical section.
\<close>

section \<open>The aggregate\<close>

datatype sync_status = Synced | Accumulating | Pending

record sync_health =
  health_reason :: string
  health_message :: string
  observed_at :: string

record sync_state =
  status :: sync_status
  work_branch :: "string option"
  branch_tip :: "string option"
  tip_pushed_at :: "string option"
  commits_behind :: int
  health :: "sync_health option"
  submission :: "submission_phase option"
  superseded_branch :: "string option"

definition default_state :: sync_state where
  "default_state =
     \<lparr>status = Synced, work_branch = None, branch_tip = None, tip_pushed_at = None, commits_behind = 0,
      health = None, submission = None, superseded_branch = None\<rparr>"

definition is_blocked :: "sync_state \<Rightarrow> bool" where
  "is_blocked st \<longleftrightarrow> health st \<noteq> None"

definition SCHEMA_VERSION :: int where "SCHEMA_VERSION = 4"

definition VALID_REASONS :: "string set" where
  "VALID_REASONS = {''fetch_failed'', ''upstream_missing'', ''diverged'', ''sync_state_unknown'',
     ''state_file_corrupt'', ''repository_uninitialized''}"

datatype sync_file = NoFile | NotJson | Document pyval

datatype corruption =
    UnreadableFile
  | DocumentNotAMapping
  | UnknownStatus pyval
  | CommitsBehindNotANumber string
  | HealthNotAMapping
  | UnknownHealthReason pyval
  | SubmissionNotAMapping
  | SubmissionRefused submission_error

fun status_text :: "sync_status \<Rightarrow> string" where
  "status_text Synced = ''synced''"
| "status_text Accumulating = ''accumulating''"
| "status_text Pending = ''pending''"

definition status_of :: "pyval \<Rightarrow> (corruption, sync_status) result" where
  "status_of v =
     (if v = PStr ''synced'' then Ok Synced
      else if v = PStr ''accumulating'' then Ok Accumulating
      else if v = PStr ''pending'' then Ok Pending
      else Err (UnknownStatus v))"

definition str_or_none :: "pyval \<Rightarrow> string option" where
  "str_or_none v = (case v of PStr s \<Rightarrow> Some s | _ \<Rightarrow> None)"

text \<open>\<^verbatim>\<open>int(text)\<close>: surrounding space, an optional sign, digits with single underscores between them.\<close>

definition digits_value :: "string \<Rightarrow> int option" where
  "digits_value s =
     (let parts = py_split (CHR ''_'') s in
      if \<forall>p \<in> set parts. p \<noteq> [] \<and> (\<forall>c \<in> set p. 48 \<le> (of_char c :: nat) \<and> (of_char c :: nat) \<le> 57)
      then Some (foldl (\<lambda>n c. 10 * n + (of_char c - 48)) 0 (concat parts)) else None)"

definition int_of_text :: "string \<Rightarrow> int option" where
  "int_of_text s =
     (case py_strip s of
        [] \<Rightarrow> None
      | c # t \<Rightarrow> if c = CHR ''-'' then map_option uminus (digits_value t)
                 else if c = CHR ''+'' then digits_value t
                 else digits_value (c # t))"

definition behind_of :: "pyval \<Rightarrow> (corruption, int) result" where
  "behind_of v =
     (case v of
        PInt i \<Rightarrow> Ok i
      | PBool b \<Rightarrow> Ok (if b then 1 else 0)
      | PStr s \<Rightarrow> (case int_of_text s of None \<Rightarrow> Err (CommitsBehindNotANumber s) | Some i \<Rightarrow> Ok i)
      | _ \<Rightarrow> Ok 0)"

definition parse_health :: "pyval \<Rightarrow> (corruption, sync_health option) result" where
  "parse_health v =
     (case v of
        PNone \<Rightarrow> Ok None
      | PDict d \<Rightarrow>
          (case get_or d ''reason'' PNone of
             PStr r \<Rightarrow>
               if r \<in> VALID_REASONS
               then Ok (Some \<lparr>health_reason = r, health_message = py_str (get_or d ''message'' (PStr [])),
                      observed_at = py_str (get_or d ''observed_at'' (PStr []))\<rparr>)
               else Err (UnknownHealthReason (PStr r))
           | other \<Rightarrow> Err (UnknownHealthReason other))
      | _ \<Rightarrow> Err HealthNotAMapping)"

definition parse_submission :: "pyval \<Rightarrow> (corruption, submission_phase option) result" where
  "parse_submission v =
     (case v of
        PNone \<Rightarrow> Ok None
      | PDict d \<Rightarrow> (case submission_from_mapping d of Inl e \<Rightarrow> Err (SubmissionRefused e) | Inr s \<Rightarrow> Ok (Some s))
      | _ \<Rightarrow> Err SubmissionNotAMapping)"

definition parse :: "payload \<Rightarrow> (corruption, sync_state) result" where
  "parse d =
     bind_result (status_of (get_or d ''status'' (PStr ''synced''))) (\<lambda>lifecycle.
     bind_result (behind_of (get_or d ''commits_behind'' (PInt 0))) (\<lambda>behind.
     bind_result (if map_of d ''version'' \<noteq> None then parse_health (get_or d ''health'' PNone) else Ok None) (\<lambda>overlay.
     bind_result (parse_submission (get_or d ''submission'' PNone)) (\<lambda>sub.
       Ok \<lparr>status = lifecycle, work_branch = str_or_none (get_or d ''branch'' PNone),
           branch_tip = str_or_none (get_or d ''branch_tip'' PNone),
           tip_pushed_at = str_or_none (get_or d ''pushed_at'' PNone),
           commits_behind = behind, health = overlay, submission = sub,
           superseded_branch = str_or_none (get_or d ''superseded_branch'' PNone)\<rparr>))))"

definition corrupt :: "string \<Rightarrow> string \<Rightarrow> sync_state" where
  "corrupt now why =
     default_state\<lparr>health := Some \<lparr>health_reason = ''state_file_corrupt'',
       health_message = ''enterprise sync state file is unreadable: '' @ why, observed_at = now\<rparr>\<rparr>"

definition load :: "(corruption \<Rightarrow> string) \<Rightarrow> string \<Rightarrow> sync_file \<Rightarrow> sync_state" where
  "load exc_text now f =
     (case f of
        NoFile \<Rightarrow> default_state
      | NotJson \<Rightarrow> corrupt now (exc_text UnreadableFile)
      | Document (PDict d) \<Rightarrow>
          (case parse d of Inl e \<Rightarrow> corrupt now (exc_text e) | Inr st \<Rightarrow> st)
      | Document _ \<Rightarrow> corrupt now (exc_text DocumentNotAMapping))"

definition optional_str :: "string option \<Rightarrow> pyval" where
  "optional_str s = (case s of None \<Rightarrow> PNone | Some t \<Rightarrow> PStr t)"

definition state_payload :: "sync_state \<Rightarrow> payload" where
  "state_payload st =
     [(''version'', PInt SCHEMA_VERSION), (''status'', PStr (status_text (status st))),
      (''branch'', optional_str (work_branch st)), (''branch_tip'', optional_str (branch_tip st)),
      (''pushed_at'', optional_str (tip_pushed_at st)), (''commits_behind'', PInt (commits_behind st)),
      (''submission'', case submission st of None \<Rightarrow> PNone | Some s \<Rightarrow> PDict (submission_to_mapping s)),
      (''superseded_branch'', optional_str (superseded_branch st)),
      (''health'', case health st of None \<Rightarrow> PNone
         | Some h \<Rightarrow> PDict [(''reason'', PStr (health_reason h)), (''message'', PStr (health_message h)),
             (''observed_at'', PStr (observed_at h))])]"

definition persist :: "sync_state \<Rightarrow> sync_state \<Rightarrow> sync_file \<Rightarrow> sync_file" where
  "persist previous current f =
     (if current = previous then f
      else if current = default_state then NoFile
      else Document (PDict (state_payload current)))"

section \<open>Transitions\<close>

definition transition ::
    "(corruption \<Rightarrow> string) \<Rightarrow> string \<Rightarrow> (sync_state \<Rightarrow> sync_state) \<Rightarrow> sync_file
      \<Rightarrow> (sync_state \<times> sync_state) \<times> sync_file" where
  "transition exc_text now mutate f =
     (let previous = load exc_text now f; current = mutate previous in
      ((previous, current), persist previous current f))"

text \<open>The mutations the module offers, each as the function it hands to the transition.\<close>

definition replace_lifecycle ::
    "sync_status \<Rightarrow> string option \<Rightarrow> string option \<Rightarrow> string option \<Rightarrow> int \<Rightarrow> sync_state \<Rightarrow> sync_state" where
  "replace_lifecycle s b tip at_time behind st =
     st\<lparr>status := s, work_branch := b, branch_tip := tip, tip_pushed_at := at_time, commits_behind := behind\<rparr>"

definition replace_superseded_branch :: "string option \<Rightarrow> sync_state \<Rightarrow> sync_state" where
  "replace_superseded_branch b st = st\<lparr>superseded_branch := b\<rparr>"

definition replace_submission :: "submission_phase option \<Rightarrow> sync_status \<Rightarrow> sync_state \<Rightarrow> sync_state" where
  "replace_submission sub s st = st\<lparr>status := s, submission := sub\<rparr>"

definition clear_lifecycle :: "sync_state \<Rightarrow> sync_state" where
  "clear_lifecycle = replace_lifecycle Synced None None None 0"

definition record_commits_behind :: "int \<Rightarrow> sync_state \<Rightarrow> sync_state" where
  "record_commits_behind behind st = st\<lparr>commits_behind := behind\<rparr>"

definition record_block :: "string \<Rightarrow> string \<Rightarrow> string \<Rightarrow> sync_state \<Rightarrow> sync_state" where
  "record_block now reason why st =
     (case health st of
        Some h \<Rightarrow> if (health_reason h, health_message h) = (reason, why) then st
                  else st\<lparr>health := Some \<lparr>health_reason = reason, health_message = why, observed_at = now\<rparr>\<rparr>
      | None \<Rightarrow> st\<lparr>health := Some \<lparr>health_reason = reason, health_message = why, observed_at = now\<rparr>\<rparr>)"

definition clear_block :: "sync_state \<Rightarrow> sync_state" where
  "clear_block st = st\<lparr>health := None\<rparr>"

section \<open>Writing and reading back\<close>

definition state_ok :: "sync_state \<Rightarrow> bool" where
  "state_ok st \<longleftrightarrow>
     (\<forall>h. health st = Some h \<longrightarrow> health_reason h \<in> VALID_REASONS) \<and>
     (\<forall>s. submission st = Some s \<longrightarrow> submission_ok s)"

lemma str_or_none_optional [simp]: "str_or_none (optional_str s) = s"
  by (cases s) (simp_all add: str_or_none_def optional_str_def)

lemma parse_payload:
  assumes "state_ok st"
  shows "parse (state_payload st) = Inr st"
proof -
  have stat: "status_of (PStr (status_text (status st))) = Inr (status st)"
    by (cases "status st") (simp_all add: status_of_def)
  have sub: "parse_submission (case submission st of None \<Rightarrow> PNone | Some s \<Rightarrow> PDict (submission_to_mapping s)) =
      Inr (submission st)"
    using assms by (auto simp: parse_submission_def state_ok_def submission_decode_encode split: option.splits)
  have hlth: "parse_health (case health st of None \<Rightarrow> PNone
        | Some h \<Rightarrow> PDict [(''reason'', PStr (health_reason h)), (''message'', PStr (health_message h)),
            (''observed_at'', PStr (observed_at h))]) = Inr (health st)"
    using assms by (auto simp: parse_health_def state_ok_def split: option.splits)
  show ?thesis
    unfolding parse_def state_payload_def
    by (simp add: stat sub hlth behind_of_def)
qed

lemma load_persisted:
  assumes "state_ok current" and "current \<noteq> previous"
  shows "load exc_text now (persist previous current f) = current"
  using assms by (simp add: load_def persist_def parse_payload)

lemma persist_same [simp]: "persist st st f = f"
  by (simp add: persist_def)

lemma load_ok: "state_ok (load exc_text now f)"
proof -
  have parsed: "state_ok st" if "parse d = Inr st" for d st
  proof -
    from that obtain overlay sub where
      "(if map_of d ''version'' \<noteq> None then parse_health (get_or d ''health'' PNone) else Inr None) = Inr overlay"
      "parse_submission (get_or d ''submission'' PNone) = Inr sub"
      "health st = overlay" "submission st = sub"
      unfolding parse_def by (auto simp: bind_result_eq_Inr)
    then show ?thesis
      by (auto simp: state_ok_def parse_health_def parse_submission_def
          split: if_splits pyval.splits sum.splits dest: submission_decode_ok)
  qed
  have "state_ok default_state" "\<And>w. state_ok (corrupt now w)"
    by (simp_all add: state_ok_def corrupt_def default_state_def VALID_REASONS_def)
  then show ?thesis
    using parsed by (auto simp: load_def split: sync_file.splits pyval.splits sum.splits)
qed

text \<open>
  A transition of the aggregate is durable. Whatever the file held, after a transition to a well-formed
  state a later read returns exactly the state the transition reported when it changed anything, and
  when it changed nothing the file is not touched. What is read is always well formed, an unreadable
  file included.
\<close>

theorem sync_transition_is_durable:
  "let ((previous, current), f') = transition exc_text now mutate f in
   previous = load exc_text now f \<and> current = mutate previous \<and> state_ok previous \<and>
   (state_ok current \<longrightarrow>
     (if current = previous then f' = f else load exc_text later f' = current))"
  by (auto simp: transition_def Let_def load_ok load_persisted)

theorem sync_transition_is_durable_witness:
  "load (\<lambda>_. ''bad'') ''t2'' (snd (transition (\<lambda>_. ''bad'') ''t1'' (record_commits_behind 3) NoFile)) =
     default_state\<lparr>commits_behind := 3\<rparr>"
proof -
  let ?cur = "default_state\<lparr>commits_behind := 3\<rparr>"
  have run: "transition (\<lambda>_. ''bad'') ''t1'' (record_commits_behind 3) NoFile =
      ((default_state, ?cur), persist default_state ?cur NoFile)"
    by (simp add: transition_def Let_def load_def record_commits_behind_def)
  have ok: "?cur \<noteq> default_state" "state_ok ?cur" by (simp_all add: default_state_def state_ok_def)
  have "load (\<lambda>_. ''bad'') ''t2'' (persist default_state ?cur NoFile) = ?cur"
    using sync_transition_is_durable [of "\<lambda>_. ''bad''" "''t1''" "record_commits_behind 3" NoFile "''t2''"] ok
    unfolding run by (simp only: Let_def prod.case) auto
  then show ?thesis by (simp add: run)
qed

section \<open>Sequences of transitions\<close>

datatype sync_command =
    ReplaceLifecycle sync_status "string option" "string option" "string option" int
  | ReplaceSupersededBranch "string option"
  | ReplaceSubmission "submission_phase option" sync_status
  | ClearLifecycle
  | RecordCommitsBehind int
  | RecordBlock string string
  | ClearBlock

fun mutation :: "string \<Rightarrow> sync_command \<Rightarrow> sync_state \<Rightarrow> sync_state" where
  "mutation now (ReplaceLifecycle s b tip at_time behind) = replace_lifecycle s b tip at_time behind"
| "mutation now (ReplaceSupersededBranch b) = replace_superseded_branch b"
| "mutation now (ReplaceSubmission sub s) = replace_submission sub s"
| "mutation now ClearLifecycle = clear_lifecycle"
| "mutation now (RecordCommitsBehind n) = record_commits_behind n"
| "mutation now (RecordBlock reason why) = record_block now reason why"
| "mutation now ClearBlock = clear_block"

definition command_ok :: "sync_command \<Rightarrow> bool" where
  "command_ok c \<longleftrightarrow>
     (case c of
        ReplaceSubmission (Some s) _ \<Rightarrow> submission_ok s
      | RecordBlock reason _ \<Rightarrow> reason \<in> VALID_REASONS
      | _ \<Rightarrow> True)"

text \<open>Each command runs at its own clock reading.\<close>

definition run_commands :: "(corruption \<Rightarrow> string) \<Rightarrow> (string \<times> sync_command) list \<Rightarrow> sync_file \<Rightarrow> sync_file" where
  "run_commands exc_text cs f = fold (\<lambda>(now, c) g. snd (transition exc_text now (mutation now c) g)) cs f"

lemmas mutation_defs = replace_lifecycle_def replace_superseded_branch_def replace_submission_def
  clear_lifecycle_def record_commits_behind_def record_block_def clear_block_def

lemma mutation_ok:
  assumes "command_ok c" and "state_ok st"
  shows "state_ok (mutation now c st)"
proof (cases c)
  case (ReplaceSubmission sub s)
  with assms show ?thesis by (cases sub) (auto simp: command_ok_def state_ok_def mutation_defs)
next
  case (RecordBlock reason why)
  with assms show ?thesis by (auto simp: command_ok_def state_ok_def mutation_defs split: option.splits)
qed (use assms in \<open>auto simp: state_ok_def mutation_defs\<close>)

lemma mutation_keeps_block:
  assumes "is_blocked st" and "c \<noteq> ClearBlock"
  shows "is_blocked (mutation now c st)"
  using assms by (cases c) (auto simp: is_blocked_def mutation_defs split: option.splits)

lemma mutation_keeps_lifecycle:
  "(mutation now (RecordBlock reason why) st)\<lparr>health := health st\<rparr> = st"
  "(mutation now ClearBlock st)\<lparr>health := health st\<rparr> = st"
  by (simp_all add: mutation_defs split: option.splits)

definition blocked_file :: "(corruption \<Rightarrow> string) \<Rightarrow> sync_file \<Rightarrow> bool" where
  "blocked_file exc_text f \<longleftrightarrow> (\<forall>now. is_blocked (load exc_text now f))"

lemma command_keeps_block:
  assumes "blocked_file exc_text f" and "command_ok c" and "c \<noteq> ClearBlock"
  shows "blocked_file exc_text (snd (transition exc_text now (mutation now c) f))"
proof -
  let ?prev = "load exc_text now f" and ?cur = "mutation now c (load exc_text now f)"
  have blocked: "is_blocked ?cur"
    using assms by (intro mutation_keeps_block) (simp_all add: blocked_file_def)
  have ok: "state_ok ?cur" using assms(2) load_ok by (intro mutation_ok)
  have written: "snd (transition exc_text now (mutation now c) f) = persist ?prev ?cur f"
    by (simp add: transition_def Let_def)
  show ?thesis
  proof (cases "?cur = ?prev")
    case True
    with assms(1) written show ?thesis by simp
  next
    case False
    with blocked ok written show ?thesis by (simp add: blocked_file_def load_persisted)
  qed
qed

lemma commands_keep_block:
  assumes "blocked_file exc_text f" and "\<forall>(now, c) \<in> set cs. command_ok c \<and> c \<noteq> ClearBlock"
  shows "blocked_file exc_text (run_commands exc_text cs f)"
  using assms
proof (induction cs arbitrary: f)
  case Nil
  then show ?case by (simp add: run_commands_def)
next
  case (Cons a cs)
  obtain now c where a: "a = (now, c)" by (cases a)
  from Cons.prems a have "blocked_file exc_text (snd (transition exc_text now (mutation now c) f))"
    by (intro command_keeps_block) auto
  with Cons.IH Cons.prems(2) show ?case by (simp add: run_commands_def a)
qed

definition readable :: "sync_file \<Rightarrow> bool" where
  "readable f \<longleftrightarrow> (case f of NoFile \<Rightarrow> True | Document (PDict d) \<Rightarrow> (\<exists>st. parse d = Inr st) | _ \<Rightarrow> False)"

lemma unreadable_blocked: "\<not> readable f \<Longrightarrow> blocked_file exc_text f"
  by (auto simp: blocked_file_def readable_def load_def is_blocked_def corrupt_def
      split: sync_file.splits pyval.splits sum.splits)

text \<open>
  Health is never erased by the lifecycle. A state file that cannot be read, a refused submission
  record included, reads as blocked and not as synced; and a block, whatever raised it, survives every
  sequence of transitions except an explicit clearing of the block. Recording or clearing a block, in
  turn, leaves the lifecycle and the submission as they were.
\<close>

theorem health_survives_the_lifecycle:
  assumes "\<not> readable f \<or> blocked_file exc_text f"
    and "\<forall>(now, c) \<in> set cs. command_ok c \<and> c \<noteq> ClearBlock"
  shows "is_blocked (load exc_text later (run_commands exc_text cs f)) \<and>
    (mutation now (RecordBlock reason why) st)\<lparr>health := health st\<rparr> = st \<and>
    (mutation now ClearBlock st)\<lparr>health := health st\<rparr> = st"
proof -
  have "blocked_file exc_text f" using assms(1) unreadable_blocked by blast
  with commands_keep_block [OF this assms(2)] mutation_keeps_lifecycle show ?thesis
    by (simp add: blocked_file_def)
qed

theorem health_survives_the_lifecycle_witness:
  "is_blocked (load (\<lambda>_. ''bad'') ''t9'' (run_commands (\<lambda>_. ''bad'')
     [(''t1'', ReplaceLifecycle Pending (Some ''arch/work'') None None 0), (''t2'', ClearLifecycle)] NotJson))"
proof -
  have "\<not> readable NotJson" by (simp add: readable_def)
  moreover have "\<forall>(now, c) \<in> set [(''t1'', ReplaceLifecycle Pending (Some ''arch/work'') None None 0),
      (''t2'', ClearLifecycle)]. command_ok c \<and> c \<noteq> ClearBlock" by (simp add: command_ok_def)
  ultimately show ?thesis
    using health_survives_the_lifecycle [of NotJson "\<lambda>_. ''bad''"
        "[(''t1'', ReplaceLifecycle Pending (Some ''arch/work'') None None 0), (''t2'', ClearLifecycle)]"]
    by blast
qed

end
