(* ===== verification/Submission_Saga.thy ===== *)
theory Submission_Saga
  imports Sync_State
begin

text \<open>
  Publishing a set of proposed changes in steps that survive a crash between them
  (\<^verbatim>\<open>src/infrastructure/git/submission_saga.py\<close>, with the preflight of
  \<^verbatim>\<open>enterprise_branch_lifecycle.py\<close>). Git is outside the program: what a command answers is a parameter
  of the operation that runs it. The world of the step relation holds the state file and the refs
  of the remote, and lets anything happen to the remote between any two steps.
\<close>

section \<open>Operations\<close>

datatype saga_error =
    DetachedHead
  | UnsavedChanges
  | NothingToSubmit
  | IntentRefused submission_error
  | RemoteNotInspected
  | BranchMoved string
  | PushRefused
  | NotAtExpectedCommit "string option"

text \<open>What reading a ref of the remote answers.\<close>

datatype remote_reply = Unreachable | Ref "string option"

record submission_outcome =
  outcome_branch :: string
  outcome_commit :: string
  outcome_proposals :: "string list"
  pushed_now :: bool

definition submission_preflight :: "string option \<Rightarrow> bool \<Rightarrow> (saga_error, string) result" where
  "submission_preflight head uncommitted =
     (case head of
        None \<Rightarrow> Err DetachedHead
      | Some b \<Rightarrow> if b = [] then Err DetachedHead else if uncommitted then Err UnsavedChanges else Ok b)"

definition persist_phase ::
    "(corruption \<Rightarrow> string) \<Rightarrow> string \<Rightarrow> submission_phase \<Rightarrow> sync_file \<Rightarrow> sync_file" where
  "persist_phase exc_text now phase f =
     snd (transition exc_text now
       (replace_submission (Some phase) (status (load exc_text now f))) f)"

definition prepare_submission ::
    "(corruption \<Rightarrow> string) \<Rightarrow> string \<Rightarrow> string option \<Rightarrow> bool \<Rightarrow> string option \<Rightarrow> string list \<Rightarrow> sync_file
      \<Rightarrow> (saga_error, submission_intent \<times> sync_file) result" where
  "prepare_submission exc_text now head uncommitted commit ids f =
     bind_result (submission_preflight head uncommitted) (\<lambda>br.
       if \<not> truthy commit then Err NothingToSubmit
       else (case mk_intent ids br (the commit) of
               Inl e \<Rightarrow> Err (IntentRefused e)
             | Inr i \<Rightarrow> Ok (i, persist_phase exc_text now (PreparedSubmission i) f)))"

definition refuses_moved_branch :: "(string \<Rightarrow> string \<Rightarrow> bool) \<Rightarrow> string option \<Rightarrow> submission_intent \<Rightarrow> bool" where
  "refuses_moved_branch is_ancestor published i \<longleftrightarrow>
     (case published of None \<Rightarrow> False | Some c \<Rightarrow> \<not> is_ancestor c (expected_commit i))"

text \<open>
  The result, the state file, and whether the push command was issued. \<open>first_look\<close> and \<open>second_look\<close>
  are the two readings of the ref, \<open>push_ok\<close> is whether the push command succeeds.
\<close>

definition publish_submission ::
    "(corruption \<Rightarrow> string) \<Rightarrow> string \<Rightarrow> submission_intent \<Rightarrow> (string \<Rightarrow> string \<Rightarrow> bool) \<Rightarrow> remote_reply \<Rightarrow> bool
      \<Rightarrow> remote_reply \<Rightarrow> sync_file \<Rightarrow> (saga_error, submission_outcome) result \<times> sync_file \<times> bool" where
  "publish_submission exc_text now i is_ancestor first_look push_ok second_look f =
     (case first_look of
        Unreachable \<Rightarrow> (Err RemoteNotInspected, f, False)
      | Ref published \<Rightarrow>
          let needs_push = (published \<noteq> Some (expected_commit i)) in
          if needs_push \<and> refuses_moved_branch is_ancestor published i
          then (Err (BranchMoved (the published)), f, False)
          else if needs_push \<and> \<not> push_ok then (Err PushRefused, f, True)
          else (case second_look of
                  Unreachable \<Rightarrow> (Err RemoteNotInspected, f, needs_push)
                | Ref confirmed \<Rightarrow>
                    if confirmed \<noteq> Some (expected_commit i)
                    then (Err (NotAtExpectedCommit confirmed), f, needs_push)
                    else (Ok \<lparr>outcome_branch = branch i, outcome_commit = expected_commit i,
                             outcome_proposals = proposal_ids i, pushed_now = needs_push\<rparr>,
                          persist_phase exc_text now (pushed i now) f, needs_push)))"

definition record_submitted ::
    "(corruption \<Rightarrow> string) \<Rightarrow> string \<Rightarrow> submission_intent \<Rightarrow> string \<Rightarrow> sync_file \<Rightarrow> submission_phase \<times> sync_file" where
  "record_submitted exc_text now i was_pushed f =
     (submitted i was_pushed now, persist_phase exc_text now (submitted i was_pushed now) f)"

datatype reconciliation_summary =
    NoneInFlight
  | AlreadyComplete
  | AwaitingMarks
  | CannotReachRemote
  | RecoveredPush
  | NeverPublished
  | ResolveByHand string

record reconciliation =
  resolved :: "submission_phase option"
  summary :: reconciliation_summary
  advanced :: bool

definition resolve_prepared ::
    "(corruption \<Rightarrow> string) \<Rightarrow> string \<Rightarrow> submission_intent \<Rightarrow> remote_reply \<Rightarrow> sync_file
      \<Rightarrow> reconciliation \<times> sync_file" where
  "resolve_prepared exc_text now i look f =
     (case look of
        Unreachable \<Rightarrow>
          (\<lparr>resolved = Some (PreparedSubmission i), summary = CannotReachRemote, advanced = False\<rparr>, f)
      | Ref published \<Rightarrow>
          if published = Some (expected_commit i)
          then (\<lparr>resolved = Some (pushed i now), summary = RecoveredPush, advanced = True\<rparr>,
                persist_phase exc_text now (pushed i now) f)
          else (case published of
                  None \<Rightarrow> (\<lparr>resolved = Some (PreparedSubmission i), summary = NeverPublished, advanced = False\<rparr>, f)
                | Some c \<Rightarrow>
                    (\<lparr>resolved = Some (PreparedSubmission i), summary = ResolveByHand c, advanced = False\<rparr>, f)))"

definition reconcile_submission ::
    "(corruption \<Rightarrow> string) \<Rightarrow> string \<Rightarrow> (string \<Rightarrow> remote_reply) \<Rightarrow> sync_file \<Rightarrow> reconciliation \<times> sync_file" where
  "reconcile_submission exc_text now look f =
     (case submission (load exc_text now f) of
        None \<Rightarrow> (\<lparr>resolved = None, summary = NoneInFlight, advanced = False\<rparr>, f)
      | Some (CompletedSubmission i t u) \<Rightarrow>
          (\<lparr>resolved = Some (CompletedSubmission i t u), summary = AlreadyComplete, advanced = False\<rparr>, f)
      | Some (PushedSubmission i t) \<Rightarrow>
          (\<lparr>resolved = Some (PushedSubmission i t), summary = AwaitingMarks, advanced = False\<rparr>, f)
      | Some (PreparedSubmission i) \<Rightarrow> resolve_prepared exc_text now i (look (branch i)) f)"

section \<open>The recorded phase\<close>

lemma load_persist_phase:
  assumes "submission_ok phase"
  shows "submission (load exc_text later (persist_phase exc_text now phase f)) = Some phase"
proof -
  let ?prev = "load exc_text now f"
  let ?cur = "replace_submission (Some phase) (status ?prev) ?prev"
  have ok: "state_ok ?cur" using assms load_ok [of exc_text now f] by (auto simp: state_ok_def replace_submission_def)
  have sub: "submission ?cur = Some phase" by (simp add: replace_submission_def)
  have file_eq: "persist_phase exc_text now phase f = persist ?prev ?cur f"
    by (simp add: persist_phase_def transition_def Let_def)
  show ?thesis
  proof (cases "?cur = ?prev")
    case True
    then have prev: "submission ?prev = Some phase" using sub by simp
    have "load exc_text later f = ?prev"
      using prev by (auto simp: load_def corrupt_def default_state_def
          split: sync_file.splits pyval.splits sum.splits)
    with True prev show ?thesis by (simp add: file_eq)
  next
    case False
    with ok sub show ?thesis by (simp add: file_eq load_persisted)
  qed
qed

lemma phases_ok:
  "\<lbrakk>intent_ok i; \<not> blank now\<rbrakk> \<Longrightarrow> submission_ok (pushed i now)"
  "\<lbrakk>intent_ok i; \<not> blank t; \<not> blank now\<rbrakk> \<Longrightarrow> submission_ok (submitted i t now)"
  "intent_ok i \<Longrightarrow> submission_ok (PreparedSubmission i)"
  by (simp_all add: submission_ok_def pushed_def submitted_def)

text \<open>What publishing concludes, whatever git answers.\<close>

lemma publish_result:
  assumes "publish_submission exc_text now i is_ancestor first_look push_ok second_look f = (res, f', issued)"
  shows "(case res of Inl e \<Rightarrow> f' = f
          | Inr out \<Rightarrow> second_look = Ref (Some (expected_commit i)) \<and> f' = persist_phase exc_text now (pushed i now) f \<and>
              outcome_commit out = expected_commit i \<and> outcome_branch out = branch i \<and>
              outcome_proposals out = proposal_ids i \<and> pushed_now out = issued) \<and>
    (issued \<longrightarrow> (\<exists>published. first_look = Ref published \<and> published \<noteq> Some (expected_commit i) \<and>
        (\<forall>c. published = Some c \<longrightarrow> is_ancestor c (expected_commit i))))"
proof (cases first_look)
  case Unreachable
  with assms show ?thesis by (auto simp: publish_submission_def)
next
  case (Ref published)
  with assms show ?thesis
    by (cases second_look)
      (auto simp: publish_submission_def Let_def refuses_moved_branch_def split: if_splits option.splits)
qed

section \<open>Interleavings\<close>

text \<open>
  The remote is anyone's: a step may move any ref at any time, and a process may die at any point
  before it writes the state file. The field \<open>seen_at_expected\<close> is history: the intents whose branch
  stood at the expected commit on the remote at some moment.
\<close>

record world =
  state_file :: sync_file
  origin :: "string \<Rightarrow> string option"
  seen_at_expected :: "submission_intent set"

definition observed :: "(string \<Rightarrow> string option) \<Rightarrow> submission_intent set" where
  "observed refs = {i. refs (branch i) = Some (expected_commit i)}"

definition moved_to :: "(string \<Rightarrow> string option) \<Rightarrow> sync_file \<Rightarrow> world \<Rightarrow> world" where
  "moved_to refs f w =
     \<lparr>state_file = f, origin = refs, seen_at_expected = seen_at_expected w \<union> observed refs\<rparr>"

inductive saga_step :: "(corruption \<Rightarrow> string) \<Rightarrow> world \<Rightarrow> world \<Rightarrow> bool" for exc_text where
  remote_moves: "saga_step exc_text w (moved_to refs (state_file w) w)"
| prepare: "\<lbrakk>prepare_submission exc_text now head uncommitted commit ids (state_file w) = Inr (i, f)\<rbrakk>
    \<Longrightarrow> saga_step exc_text w (moved_to (origin w) f w)"
| publish: "\<lbrakk>intent_ok i; \<not> blank now; first_look = Ref (origin w (branch i)) \<or> first_look = Unreachable;
      second_look = Ref (refs (branch i)) \<or> second_look = Unreachable;
      publish_submission exc_text now i is_ancestor first_look push_ok second_look (state_file w) = (res, f, issued)\<rbrakk>
    \<Longrightarrow> saga_step exc_text w (moved_to refs f w)"
| mark: "\<lbrakk>\<not> blank now; submission (load exc_text now (state_file w)) = Some (PushedSubmission i t);
      record_submitted exc_text now i t (state_file w) = (phase, f)\<rbrakk>
    \<Longrightarrow> saga_step exc_text w (moved_to (origin w) f w)"
| reconcile: "\<lbrakk>\<not> blank now; \<forall>b. look b = Ref (origin w b) \<or> look b = Unreachable;
      reconcile_submission exc_text now look (state_file w) = (outcome, f)\<rbrakk>
    \<Longrightarrow> saga_step exc_text w (moved_to (origin w) f w)"
| lifecycle: "\<lbrakk>command_ok c; \<forall>sub s. c = ReplaceSubmission sub s \<longrightarrow> sub = None;
      snd (transition exc_text now (mutation now c) (state_file w)) = f\<rbrakk>
    \<Longrightarrow> saga_step exc_text w (moved_to (origin w) f w)"

definition recorded_as_published :: "(corruption \<Rightarrow> string) \<Rightarrow> sync_file \<Rightarrow> submission_intent \<Rightarrow> bool" where
  "recorded_as_published exc_text f i \<longleftrightarrow>
     (\<exists>later t u. submission (load exc_text later f) \<in>
        {Some (PushedSubmission i t), Some (CompletedSubmission i t u)})"

definition truthful :: "(corruption \<Rightarrow> string) \<Rightarrow> world \<Rightarrow> bool" where
  "truthful exc_text w \<longleftrightarrow>
     (\<forall>i. recorded_as_published exc_text (state_file w) i \<longrightarrow> i \<in> seen_at_expected w)"

lemma truthful_same_file: "truthful exc_text w \<Longrightarrow> truthful exc_text (moved_to refs (state_file w) w)"
  by (auto simp: truthful_def moved_to_def)

lemma truthful_persisted:
  assumes "submission_ok phase" and "\<And>j t u. phase \<in> {PushedSubmission j t, CompletedSubmission j t u} \<Longrightarrow>
      j \<in> seen_at_expected w \<union> observed refs"
  shows "truthful exc_text (moved_to refs (persist_phase exc_text now phase f) w)"
  using assms load_persist_phase [OF assms(1)]
  by (auto simp: truthful_def recorded_as_published_def moved_to_def)

lemma lifecycle_submission:
  assumes "command_ok c" and "\<forall>sub s. c = ReplaceSubmission sub s \<longrightarrow> sub = None"
  shows "submission (load exc_text later (snd (transition exc_text now (mutation now c) f))) \<in>
    {None, submission (load exc_text now f), submission (load exc_text later f)}"
proof -
  let ?prev = "load exc_text now f" and ?cur = "mutation now c (load exc_text now f)"
  have file_eq: "snd (transition exc_text now (mutation now c) f) = persist ?prev ?cur f"
    by (simp add: transition_def Let_def)
  have "submission ?cur \<in> {None, submission ?prev}"
    using assms(2) by (cases c) (auto simp: mutation_defs split: option.splits)
  moreover have "state_ok ?cur" by (rule mutation_ok [OF assms(1) load_ok])
  ultimately show ?thesis
    by (cases "?cur = ?prev") (auto simp: file_eq load_persisted)
qed

lemma truthful_step:
  assumes "saga_step exc_text w w'" and "truthful exc_text w"
  shows "truthful exc_text w'"
  using assms(1)
proof cases
  case (remote_moves refs)
  then show ?thesis using truthful_same_file assms(2) by simp
next
  case (prepare now head uncommitted commit ids i f)
  from prepare(2) have "intent_ok i" "f = persist_phase exc_text now (PreparedSubmission i) (state_file w)"
    by (auto simp: prepare_submission_def bind_result_eq_Inr mk_intent_iff split: if_splits sum.splits)
  then show ?thesis unfolding prepare(1)
    by (simp only:) (rule truthful_persisted, simp_all add: phases_ok)
next
  case (publish i now first_look second_look refs is_ancestor push_ok res f issued)
  note result = publish_result [OF publish(6)]
  show ?thesis
  proof (cases res)
    case (Inl e)
    with result publish(1) assms(2) show ?thesis by (simp add: truthful_same_file)
  next
    case (Inr out)
    with result publish(5) have at_ref: "refs (branch i) = Some (expected_commit i)"
      and f: "f = persist_phase exc_text now (pushed i now) (state_file w)" by auto
    show ?thesis unfolding publish(1) f
      by (rule truthful_persisted)
        (use at_ref publish(2,3) in \<open>auto simp: submission_ok_def pushed_def observed_def\<close>)
  qed
next
  case (mark now i t phase f)
  have ok: "submission_ok (PushedSubmission i t)"
    using load_ok [of exc_text now "state_file w"] mark(3) by (simp add: state_ok_def)
  have seen: "i \<in> seen_at_expected w"
    using assms(2) mark(3) unfolding truthful_def recorded_as_published_def by blast
  have f: "f = persist_phase exc_text now (submitted i t now) (state_file w)"
    using mark(4) by (auto simp: record_submitted_def)
  show ?thesis unfolding mark(1) f
    by (rule truthful_persisted)
      (use ok seen mark(2) in \<open>auto simp: submission_ok_def submitted_def\<close>)
next
  case (reconcile now look outcome f)
  show ?thesis
  proof (cases "f = state_file w")
    case True
    with reconcile(1) assms(2) show ?thesis by (simp add: truthful_same_file)
  next
    case False
    with reconcile(4) obtain i where i: "submission (load exc_text now (state_file w)) = Some (PreparedSubmission i)"
      and look_i: "look (branch i) = Ref (Some (expected_commit i))"
      and f: "f = persist_phase exc_text now (pushed i now) (state_file w)"
      by (auto simp: reconcile_submission_def resolve_prepared_def
          split: option.splits submission_phase.splits remote_reply.splits if_splits)
    have "submission_ok (PreparedSubmission i)"
      using load_ok [of exc_text now "state_file w"] i by (simp add: state_ok_def)
    then have "intent_ok i" by (simp add: submission_ok_def)
    moreover have "origin w (branch i) = Some (expected_commit i)"
      using reconcile(3) look_i by (metis remote_reply.distinct(1) remote_reply.inject)
    ultimately show ?thesis unfolding reconcile(1) f
      by (intro truthful_persisted)
        (use reconcile(2) in \<open>auto simp: submission_ok_def pushed_def observed_def\<close>)
  qed
next
  case (lifecycle c now f)
  have "recorded_as_published exc_text (state_file w) i" if "recorded_as_published exc_text f i" for i
  proof -
    from that obtain later t u where
      rec: "submission (load exc_text later f) \<in> {Some (PushedSubmission i t), Some (CompletedSubmission i t u)}"
      by (auto simp: recorded_as_published_def)
    have "submission (load exc_text later f) \<in>
        {None, submission (load exc_text now (state_file w)), submission (load exc_text later (state_file w))}"
      using lifecycle_submission [OF lifecycle(2,3), of exc_text later now "state_file w"] lifecycle(4) by simp
    with rec show ?thesis unfolding recorded_as_published_def by force
  qed
  with assms(2) lifecycle(1) show ?thesis by (auto simp: truthful_def moved_to_def)
qed

section \<open>Properties\<close>

definition initial_world :: "(string \<Rightarrow> string option) \<Rightarrow> world" where
  "initial_world refs = \<lparr>state_file = NoFile, origin = refs, seen_at_expected = observed refs\<rparr>"

text \<open>
  Claim C2. A submission is never recorded as published on the strength of a push call. Start with no state
  file and run any interleaving of preparing, publishing, marking, reconciling after a crash and
  other transitions of the aggregate, while anyone moves any branch of the remote at any time and
  pushes succeed, fail or are refused as they please: whenever the state file says that a submission
  is pushed or completed, its branch did stand at its expected commit on the remote.
\<close>

theorem recorded_publication_is_true:
  assumes "(saga_step exc_text)\<^sup>*\<^sup>* (initial_world refs) w"
    and "submission (load exc_text now (state_file w)) \<in>
      {Some (PushedSubmission i t), Some (CompletedSubmission i t u)}"
  shows "i \<in> seen_at_expected w"
proof -
  have "truthful exc_text (initial_world refs)"
    by (simp add: truthful_def recorded_as_published_def initial_world_def load_def default_state_def)
  with assms(1) have "truthful exc_text w"
    by (induction rule: rtranclp_induct) (auto intro: truthful_step)
  with assms(2) show ?thesis unfolding truthful_def recorded_as_published_def by blast
qed

text \<open>
  Publishing never overwrites work it did not produce and reports only what it confirmed. The push
  command is issued only when the branch is absent from the remote or stands at an ancestor of the
  expected commit; success is reported only after the remote was read back at exactly the expected
  commit; and every failure leaves the state file as it was.
\<close>

theorem publish_fails_closed:
  assumes "publish_submission exc_text now i is_ancestor first_look push_ok second_look f = (res, f', issued)"
  shows "(issued \<longrightarrow> (\<exists>published. first_look = Ref published \<and>
        (published = None \<or> is_ancestor (the published) (expected_commit i)))) \<and>
    (\<forall>out. res = Ok out \<longrightarrow> second_look = Ref (Some (expected_commit i)) \<and> pushed_now out = issued \<and>
        outcome_commit out = expected_commit i) \<and>
    (\<forall>e. res = Err e \<longrightarrow> f' = f)"
proof -
  note result = publish_result [OF assms]
  have "\<exists>published. first_look = Ref published \<and>
      (published = None \<or> is_ancestor (the published) (expected_commit i))" if "issued"
    using result that by (metis option.collapse)
  with result show ?thesis by (auto split: sum.splits)
qed

theorem publish_fails_closed_witness:
  "fst (publish_submission (\<lambda>_. ''bad'') ''t1'' sample_intent (\<lambda>_ _. False) (Ref (Some ''other'')) True
     (Ref (Some ''other'')) NoFile) = Err (BranchMoved ''other'') \<and>
   fst (snd (publish_submission (\<lambda>_. ''bad'') ''t1'' sample_intent (\<lambda>_ _. False) (Ref (Some ''other'')) True
     (Ref (Some ''other'')) NoFile)) = NoFile"
proof -
  have run: "publish_submission (\<lambda>_. ''bad'') ''t1'' sample_intent (\<lambda>_ _. False) (Ref (Some ''other'')) True
     (Ref (Some ''other'')) NoFile = (Err (BranchMoved ''other''), NoFile, False)"
    by (simp add: publish_submission_def sample_intent_def refuses_moved_branch_def)
  from publish_fails_closed [OF run] run show ?thesis by simp
qed

text \<open>
  Claim C32. A crash between the push and its record is recovered, in either of the two ways offered. When
  the state file still says prepared but the branch stands at the expected commit on the remote,
  reconciliation advances the record to pushed, and a retry succeeds without pushing again, whatever
  a push would do; both leave the same record, from which marking completes the submission.
\<close>

theorem crash_after_push_converges:
  assumes "submission (load exc_text now f) = Some (PreparedSubmission i)" and "\<not> blank now" and "\<not> blank done_at"
    and "look (branch i) = Ref (Some (expected_commit i))"
  shows "case (reconcile_submission exc_text now look f,
           publish_submission exc_text now i is_ancestor (look (branch i)) push_ok (look (branch i)) f) of
      ((outcome, f1), (res, f2, issued)) \<Rightarrow>
        advanced outcome \<and> resolved outcome = Some (pushed i now) \<and>
        (\<exists>out. res = Ok out \<and> \<not> pushed_now out) \<and> \<not> issued \<and> f1 = f2 \<and>
        submission (load exc_text later f1) = Some (PushedSubmission i now) \<and>
        submission (load exc_text later (snd (record_submitted exc_text done_at i now f1))) =
          Some (CompletedSubmission i now done_at)"
proof -
  have "intent_ok i"
    using load_ok [of exc_text now f] assms(1) by (auto simp: state_ok_def submission_ok_def)
  then have ok: "submission_ok (pushed i now)" "submission_ok (submitted i now done_at)"
    using assms(2,3) by (simp_all add: phases_ok)
  show ?thesis
    using assms(1,4) load_persist_phase [OF ok(1), of exc_text later now f]
      load_persist_phase [OF ok(2), of exc_text later done_at "persist_phase exc_text now (pushed i now) f"]
    by (simp add: reconcile_submission_def resolve_prepared_def publish_submission_def record_submitted_def
        pushed_def submitted_def)
qed

definition prepared_file :: sync_file where
  "prepared_file = persist_phase (\<lambda>_. ''bad'') ''t0'' (PreparedSubmission sample_intent) NoFile"

lemma sample_not_blank: "\<not> blank ''t0''" "\<not> blank ''t1''" "\<not> blank ''t2''"
  by (simp_all add: blank_def py_strip_eq_Nil_iff is_py_space_def)

lemma sample_intent_ok: "intent_ok sample_intent"
  by (simp add: intent_ok_def sample_intent_def blank_def py_strip_eq_Nil_iff is_py_space_def)

lemma prepared_file_reads:
  "submission (load (\<lambda>_. ''bad'') later prepared_file) = Some (PreparedSubmission sample_intent)"
  unfolding prepared_file_def by (rule load_persist_phase) (simp add: phases_ok sample_intent_ok)

theorem crash_after_push_converges_witness:
  "advanced (fst (reconcile_submission (\<lambda>_. ''bad'') ''t1'' (\<lambda>_. Ref (Some ''c0ffee'')) prepared_file))"
proof -
  have look: "(\<lambda>_. Ref (Some ''c0ffee'')) (branch sample_intent) = Ref (Some (expected_commit sample_intent))"
    by (simp add: sample_intent_def)
  from crash_after_push_converges [where is_ancestor = "\<lambda>_ _. False" and push_ok = False and later = "''t3''",
      OF prepared_file_reads sample_not_blank(2,3) look]
  show ?thesis by (simp split: prod.splits)
qed

theorem recorded_publication_is_true_witness:
  "\<exists>w. (saga_step (\<lambda>_. ''bad''))\<^sup>*\<^sup>* (initial_world (\<lambda>_. Some ''c0ffee'')) w \<and>
     submission (load (\<lambda>_. ''bad'') ''t2'' (state_file w)) = Some (PushedSubmission sample_intent ''t1'') \<and>
     sample_intent \<in> seen_at_expected w"
proof -
  let ?w = "initial_world (\<lambda>_. Some ''c0ffee'')"
  let ?f = "persist_phase (\<lambda>_. ''bad'') ''t1'' (pushed sample_intent ''t1'') NoFile"
  let ?w' = "moved_to (\<lambda>_. Some ''c0ffee'') ?f ?w"
  have run: "publish_submission (\<lambda>_. ''bad'') ''t1'' sample_intent (\<lambda>_ _. False) (Ref (Some ''c0ffee'')) False
      (Ref (Some ''c0ffee'')) (state_file ?w) =
    (Inr \<lparr>outcome_branch = branch sample_intent, outcome_commit = expected_commit sample_intent,
       outcome_proposals = proposal_ids sample_intent, pushed_now = False\<rparr>, ?f, False)"
    by (simp add: publish_submission_def sample_intent_def initial_world_def)
  have step: "saga_step (\<lambda>_. ''bad'') ?w ?w'"
    by (rule saga_step.publish [OF sample_intent_ok sample_not_blank(2) _ _ run])
      (simp_all add: initial_world_def)
  then have steps: "(saga_step (\<lambda>_. ''bad''))\<^sup>*\<^sup>* ?w ?w'" by blast
  have rec: "submission (load (\<lambda>_. ''bad'') ''t2'' (state_file ?w')) = Some (PushedSubmission sample_intent ''t1'')"
    using load_persist_phase [OF phases_ok(1) [OF sample_intent_ok sample_not_blank(2)], of "\<lambda>_. ''bad''" "''t2''" "''t1''" NoFile]
    by (simp add: moved_to_def pushed_def)
  have "sample_intent \<in> seen_at_expected ?w'"
    by (rule recorded_publication_is_true [OF steps, of "''t2''" sample_intent "''t1''" "[]"]) (simp add: rec)
  with steps rec show ?thesis by blast
qed

end
