(* ===== verification/Branch_Lifecycle.thy ===== *)
theory Branch_Lifecycle
  imports Submission_Saga
begin

text \<open>
  The enterprise working branch (\<^verbatim>\<open>src/infrastructure/git/enterprise_branch_lifecycle.py\<close>): creating it under
  a free name, opening a replacement for a branch under review, retiring what was replaced, publishing and
  abandoning. Git is outside the program: a \<open>git_client\<close> is the set of commands the module calls, over
  a state of a repository and its remote that is left abstract. What the properties rely on of git's
  documented behaviour is the hypothesis \<open>git_documented\<close>; that it can hold is shown on a small repository
  of refs. The loop that looks for a free name is a partial function, so that returning is a claim.
\<close>

section \<open>The commands\<close>

text \<open>A command answers whether its exit code was zero, and leaves another state.\<close>

record 'g git_client =
  g_head :: "'g \<Rightarrow> string option"
  g_commit :: "'g \<Rightarrow> string option"
  g_uncommitted :: "'g \<Rightarrow> bool"
  g_local :: "'g \<Rightarrow> string \<Rightarrow> bool"
  g_tracking :: "'g \<Rightarrow> string \<Rightarrow> bool"
  g_remote :: "'g \<Rightarrow> string \<Rightarrow> remote_reply"
  g_checkout_new :: "string \<Rightarrow> string option \<Rightarrow> 'g \<Rightarrow> bool \<times> 'g"
  g_checkout_main :: "'g \<Rightarrow> bool \<times> 'g"
  g_delete_remote :: "string \<Rightarrow> 'g \<Rightarrow> bool \<times> 'g"
  g_delete_local :: "string \<Rightarrow> 'g \<Rightarrow> bool \<times> 'g"
  g_push :: "string \<Rightarrow> 'g \<Rightarrow> bool \<times> 'g"

datatype branch_error =
    NoFreeName
  | CheckoutFailed string
  | RemoteNotReadable string
  | RemoteNotDeleted string
  | LocalNotDeleted string
  | NotUnderReview
  | StillAwaitingRetirement string
  | NoBranchRecorded
  | CurrentIsSuperseded string
  | NothingToDiscard
  | UnsavedWork
  | NoReturnToMain
  | PreflightRefused saga_error
  | PushFailed string

section \<open>A free name\<close>

definition work_name :: "string \<Rightarrow> string" where
  "work_name ts = ''arch/work-'' @ ts"

definition suffixed :: "string \<Rightarrow> nat \<Rightarrow> string" where
  "suffixed ts n = work_name ts @ ''-'' @ decimal n"

partial_function (option) free_suffix :: "(string \<Rightarrow> bool) \<Rightarrow> string \<Rightarrow> nat \<Rightarrow> string option" where
  "free_suffix taken ts n =
     (if taken (suffixed ts n) then free_suffix taken ts (n + 1) else Some (suffixed ts n))"

declare free_suffix.simps [code]

definition new_working_branch_name :: "(string \<Rightarrow> bool) \<Rightarrow> string \<Rightarrow> string option" where
  "new_working_branch_name taken ts =
     (if taken (work_name ts) then free_suffix taken ts 2 else Some (work_name ts))"

definition ref_taken :: "'g git_client \<Rightarrow> 'g \<Rightarrow> string \<Rightarrow> bool" where
  "ref_taken G g b \<longleftrightarrow> g_local G g b \<or> g_tracking G g b"

section \<open>Dropping refs\<close>

definition drop_remote_ref :: "'g git_client \<Rightarrow> string \<Rightarrow> 'g \<Rightarrow> (branch_error, unit) result \<times> 'g" where
  "drop_remote_ref G b g =
     (case g_remote G g b of
        Unreachable \<Rightarrow> (Err (RemoteNotReadable b), g)
      | Ref None \<Rightarrow> (Ok (), g)
      | Ref (Some _) \<Rightarrow>
          (case g_delete_remote G b g of
             (True, g') \<Rightarrow> (Ok (), g')
           | (False, g') \<Rightarrow>
               (case g_remote G g' b of
                  Unreachable \<Rightarrow> (Err (RemoteNotReadable b), g')
                | Ref None \<Rightarrow> (Ok (), g')
                | Ref (Some _) \<Rightarrow> (Err (RemoteNotDeleted b), g'))))"

definition drop_local_ref :: "'g git_client \<Rightarrow> string \<Rightarrow> 'g \<Rightarrow> (branch_error, unit) result \<times> 'g" where
  "drop_local_ref G b g =
     (if \<not> g_local G g b then (Ok (), g)
      else (case g_delete_local G b g of
              (rc, g') \<Rightarrow> if \<not> rc \<and> g_local G g' b then (Err (LocalNotDeleted b), g') else (Ok (), g')))"

section \<open>Operations\<close>

text \<open>Every operation answers its result, the state of git and the state file it leaves.\<close>

definition save_lifecycle ::
    "(corruption \<Rightarrow> string) \<Rightarrow> string \<Rightarrow> (sync_state \<Rightarrow> sync_state) \<Rightarrow> sync_file \<Rightarrow> sync_file" where
  "save_lifecycle exc_text now mutate f = snd (transition exc_text now mutate f)"

definition ensure_working_branch ::
    "(corruption \<Rightarrow> string) \<Rightarrow> string \<Rightarrow> 'g git_client \<Rightarrow> string \<Rightarrow> 'g \<Rightarrow> sync_file
      \<Rightarrow> (branch_error, string) result \<times> 'g \<times> sync_file" where
  "ensure_working_branch exc_text now G ts g f =
     (let st = load exc_text now f in
      if status st \<in> {Accumulating, Pending} \<and> truthy (g_head G g)
      then (let b = the (g_head G g) in
            if Some b \<noteq> work_branch st
            then (Ok b, g, save_lifecycle exc_text now
                    (replace_lifecycle (status st) (Some b) (branch_tip st) (tip_pushed_at st) (commits_behind st)) f)
            else (Ok b, g, f))
      else (case new_working_branch_name (ref_taken G g) ts of
              None \<Rightarrow> (Err NoFreeName, g, f)
            | Some b \<Rightarrow>
                (case g_checkout_new G b None g of
                   (False, g') \<Rightarrow> (Err (CheckoutFailed b), g', f)
                 | (True, g') \<Rightarrow>
                     (Ok b, g', save_lifecycle exc_text now (replace_lifecycle Accumulating (Some b) None None 0) f))))"

definition open_replacement_branch ::
    "(corruption \<Rightarrow> string) \<Rightarrow> string \<Rightarrow> 'g git_client \<Rightarrow> string \<Rightarrow> string \<Rightarrow> 'g \<Rightarrow> sync_file
      \<Rightarrow> (branch_error, string) result \<times> 'g \<times> sync_file" where
  "open_replacement_branch exc_text now G ts from_head g f =
     (let st = load exc_text now f in
      if status st \<noteq> Pending then (Err NotUnderReview, g, f)
      else if superseded_branch st \<noteq> None then (Err (StillAwaitingRetirement (the (superseded_branch st))), g, f)
      else if \<not> truthy (work_branch st) then (Err NoBranchRecorded, g, f)
      else (case new_working_branch_name (ref_taken G g) ts of
              None \<Rightarrow> (Err NoFreeName, g, f)
            | Some b \<Rightarrow>
                (case g_checkout_new G b (Some from_head) g of
                   (False, g') \<Rightarrow> (Err (CheckoutFailed b), g', f)
                 | (True, g') \<Rightarrow>
                     (Ok b, g',
                      save_lifecycle exc_text now (replace_superseded_branch (work_branch st))
                        (save_lifecycle exc_text now
                          (replace_lifecycle Accumulating (Some b) None None (commits_behind st)) f)))))"

definition retire_superseded_branch ::
    "(corruption \<Rightarrow> string) \<Rightarrow> string \<Rightarrow> 'g git_client \<Rightarrow> 'g \<Rightarrow> sync_file
      \<Rightarrow> (branch_error, string option) result \<times> 'g \<times> sync_file" where
  "retire_superseded_branch exc_text now G g f =
     (let st = load exc_text now f in
      case superseded_branch st of
        None \<Rightarrow> (Ok None, g, f)
      | Some b \<Rightarrow>
          if Some b = work_branch st then (Err (CurrentIsSuperseded b), g, f)
          else (case drop_remote_ref G b g of
                  (Inl e, g1) \<Rightarrow> (Err e, g1, f)
                | (Inr _, g1) \<Rightarrow>
                    (case drop_local_ref G b g1 of
                       (Inl e, g2) \<Rightarrow> (Err e, g2, f)
                     | (Inr _, g2) \<Rightarrow>
                         (Ok (Some b), g2, save_lifecycle exc_text now (replace_superseded_branch None) f))))"

definition push_enterprise_branch ::
    "(corruption \<Rightarrow> string) \<Rightarrow> string \<Rightarrow> 'g git_client \<Rightarrow> 'g \<Rightarrow> sync_file
      \<Rightarrow> (branch_error, string) result \<times> 'g \<times> sync_file" where
  "push_enterprise_branch exc_text now G g f =
     (case submission_preflight (g_head G g) (g_uncommitted G g) of
        Inl e \<Rightarrow> (Err (PreflightRefused e), g, f)
      | Inr b \<Rightarrow>
          (case g_push G b g of
             (False, g') \<Rightarrow> (Err (PushFailed b), g', f)
           | (True, g') \<Rightarrow>
               (Ok b, g', save_lifecycle exc_text now
                  (replace_lifecycle Pending (Some b)
                     (Some (case g_commit G g' of None \<Rightarrow> [] | Some c \<Rightarrow> c)) (Some now)
                     (commits_behind (load exc_text now f))) f)))"

definition return_to_main :: "'g git_client \<Rightarrow> 'g \<Rightarrow> (branch_error, unit) result \<times> 'g" where
  "return_to_main G g =
     (if g_head G g = Some ''main'' then (Ok (), g)
      else (case g_checkout_main G g of (rc, g') \<Rightarrow> (if rc then Ok () else Err NoReturnToMain, g')))"

definition if_named :: "(string \<Rightarrow> 'g \<Rightarrow> (branch_error, unit) result \<times> 'g) \<Rightarrow> string option \<Rightarrow> 'g
    \<Rightarrow> (branch_error, unit) result \<times> 'g" where
  "if_named act b g = (if truthy b then act (the b) g else (Ok (), g))"

definition abandon_enterprise_branch ::
    "(corruption \<Rightarrow> string) \<Rightarrow> string \<Rightarrow> 'g git_client \<Rightarrow> 'g \<Rightarrow> sync_file
      \<Rightarrow> (branch_error, string option) result \<times> 'g \<times> sync_file" where
  "abandon_enterprise_branch exc_text now G g f =
     (let st = load exc_text now f in
      if status st = Synced then (Err NothingToDiscard, g, f)
      else if g_uncommitted G g then (Err UnsavedWork, g, f)
      else (case if_named (drop_remote_ref G) (work_branch st) g of
              (Inl e, g1) \<Rightarrow> (Err e, g1, f)
            | (Inr _, g1) \<Rightarrow>
                (case return_to_main G g1 of
                   (Inl e, g2) \<Rightarrow> (Err e, g2, f)
                 | (Inr _, g2) \<Rightarrow>
                     (case if_named (drop_local_ref G) (work_branch st) g2 of
                        (Inl e, g3) \<Rightarrow> (Err e, g3, f)
                      | (Inr _, g3) \<Rightarrow> (Ok (work_branch st), g3, save_lifecycle exc_text now clear_lifecycle f)))))"

section \<open>The name loop returns\<close>

lemma suffixed_inj: "suffixed ts m = suffixed ts n \<Longrightarrow> m = n"
  by (metis digits_number_decimal same_append_eq suffixed_def)

lemma free_suffix_returns:
  assumes "\<not> taken (suffixed ts (n + k))"
  shows "\<exists>m \<ge> n. free_suffix taken ts n = Some (suffixed ts m) \<and> \<not> taken (suffixed ts m) \<and>
    (\<forall>j. n \<le> j \<and> j < m \<longrightarrow> taken (suffixed ts j))"
  using assms
proof (induction k arbitrary: n)
  case 0
  then show ?case by (intro exI [of _ n]) (auto simp: free_suffix.simps)
next
  case (Suc k)
  show ?case
  proof (cases "taken (suffixed ts n)")
    case False
    then show ?thesis by (intro exI [of _ n]) (auto simp: free_suffix.simps)
  next
    case True
    from Suc.prems have "\<not> taken (suffixed ts (n + 1 + k))" by simp
    from Suc.IH [OF this] obtain m where m: "m \<ge> n + 1" "free_suffix taken ts (n + 1) = Some (suffixed ts m)"
      "\<not> taken (suffixed ts m)" "\<forall>j. n + 1 \<le> j \<and> j < m \<longrightarrow> taken (suffixed ts j)" by blast
    have "taken (suffixed ts j)" if "n \<le> j" "j < m" for j
      using that m(4) True by (cases "j = n") auto
    with m True show ?thesis by (intro exI [of _ m]) (simp add: free_suffix.simps [of taken ts n])
  qed
qed

text \<open>
  Claim C34. Looking for a name for a new working branch ends as long as the repository knows finitely many refs,
  and the name it ends with is held by no local and no remote-tracking ref; it is the plain time stamp if that
  is free, or else the time stamp with the smallest suffix from 2 on that is.
\<close>

theorem branch_name_search_ends_with_a_free_name:
  assumes "finite {b. ref_taken G g b}"
  shows "\<exists>b. new_working_branch_name (ref_taken G g) ts = Some b \<and> \<not> ref_taken G g b \<and>
    (b = work_name ts \<or> ref_taken G g (work_name ts) \<and>
      (\<exists>m \<ge> 2. b = suffixed ts m \<and> (\<forall>j. 2 \<le> j \<and> j < m \<longrightarrow> ref_taken G g (suffixed ts j))))"
proof (cases "ref_taken G g (work_name ts)")
  case False
  then show ?thesis by (simp add: new_working_branch_name_def)
next
  case True
  have "\<exists>k. \<not> ref_taken G g (suffixed ts (2 + k))"
  proof (rule ccontr)
    assume "\<nexists>k. \<not> ref_taken G g (suffixed ts (2 + k))"
    then have "range (\<lambda>k. suffixed ts (2 + k)) \<subseteq> {b. ref_taken G g b}" by auto
    then have "finite (range (\<lambda>k. suffixed ts (2 + k)))" using assms by (rule finite_subset)
    moreover have "inj (\<lambda>k. suffixed ts (2 + k))" by (auto intro!: injI dest: suffixed_inj)
    ultimately show False using finite_imageD [of "\<lambda>k. suffixed ts (2 + k)" UNIV] infinite_UNIV_nat by blast
  qed
  then obtain k where "\<not> ref_taken G g (suffixed ts (2 + k))" by blast
  from free_suffix_returns [where taken = "ref_taken G g", OF this] True show ?thesis
    by (auto simp: new_working_branch_name_def)
qed

section \<open>What is relied on of git\<close>

text \<open>
  The documented effect of the commands: a deletion that succeeds has deleted, checking out main ends
  on main, and neither checking out nor deleting a local branch reaches the remote.
\<close>

definition git_documented :: "'g git_client \<Rightarrow> bool" where
  "git_documented G \<longleftrightarrow>
     (\<forall>b g g'. g_delete_remote G b g = (True, g') \<longrightarrow> g_remote G g' b = Ref None) \<and>
     (\<forall>b g g'. g_delete_local G b g = (True, g') \<longrightarrow> \<not> g_local G g' b) \<and>
     (\<forall>g g'. g_checkout_main G g = (True, g') \<longrightarrow> g_head G g' = Some ''main'') \<and>
     (\<forall>b g. g_remote G (snd (g_delete_local G b g)) = g_remote G g) \<and>
     (\<forall>b g. g_head G (snd (g_delete_local G b g)) = g_head G g) \<and>
     (\<forall>g. g_remote G (snd (g_checkout_main G g)) = g_remote G g) \<and>
     (\<forall>b from g. g_remote G (snd (g_checkout_new G b from g)) = g_remote G g)"

lemma drop_remote_done:
  assumes "git_documented G" and "drop_remote_ref G b g = (Inr u, g')"
  shows "g_remote G g' b = Ref None"
  using assms
  by (auto simp: drop_remote_ref_def git_documented_def split: remote_reply.splits option.splits prod.splits bool.splits)

lemma drop_local_done:
  assumes "git_documented G" and "drop_local_ref G b g = (Inr u, g')"
  shows "\<not> g_local G g' b \<and> g_remote G g' = g_remote G g \<and> g_head G g' = g_head G g"
  using assms
  by (auto simp: drop_local_ref_def git_documented_def split: prod.splits if_splits) (metis snd_conv)+

lemma return_to_main_done:
  assumes "git_documented G" and "return_to_main G g = (Inr u, g')"
  shows "g_head G g' = Some ''main'' \<and> g_remote G g' = g_remote G g"
  using assms
  by (auto simp: return_to_main_def git_documented_def split: prod.splits if_splits) (metis snd_conv)+

text \<open>A repository of refs on which the hypothesis holds: the head, the local branches, the published ones.\<close>

type_synonym ref_repository = "string option \<times> string list \<times> string list"

definition sample_git :: "ref_repository git_client" where
  "sample_git = \<lparr>g_head = fst, g_commit = (\<lambda>_. Some ''c''), g_uncommitted = (\<lambda>_. False),
     g_local = (\<lambda>g b. b \<in> set (fst (snd g))), g_tracking = (\<lambda>g b. b \<in> set (snd (snd g))),
     g_remote = (\<lambda>g b. Ref (if b \<in> set (snd (snd g)) then Some ''c'' else None)),
     g_checkout_new = (\<lambda>b _ g. (True, (Some b, b # fst (snd g), snd (snd g)))),
     g_checkout_main = (\<lambda>g. (True, (Some ''main'', snd g))),
     g_delete_remote = (\<lambda>b g. (True, (fst g, fst (snd g), removeAll b (snd (snd g))))),
     g_delete_local = (\<lambda>b g. (True, (fst g, removeAll b (fst (snd g)), snd (snd g)))),
     g_push = (\<lambda>b g. (True, (fst g, fst (snd g), b # snd (snd g))))\<rparr>"

lemma sample_git_documented: "git_documented sample_git"
  by (auto simp: git_documented_def sample_git_def)

definition pending_file :: "string option \<Rightarrow> sync_file" where
  "pending_file old = Document (PDict (state_payload (default_state\<lparr>status := Pending, work_branch := Some ''w'',
     superseded_branch := old\<rparr>)))"

lemma load_pending_file:
  "load exc_text now (pending_file old) = default_state\<lparr>status := Pending, work_branch := Some ''w'', superseded_branch := old\<rparr>"
  by (simp add: load_def pending_file_def parse_payload state_ok_def default_state_def)

text \<open>
  Abandoning never claims a withdrawal that did not happen, and a refused one loses nothing. When it
  returns, the branch is gone from the remote and from the local refs, main is checked out and the
  lifecycle is cleared, with health, submission and superseded branch as they were; when it refuses, at
  whatever point, the state file is as it was, so the branch is still on record for a retry.
\<close>

theorem abandoned_branch_is_gone:
  assumes "git_documented G"
    and "abandon_enterprise_branch exc_text now G g f = (res, g', f')"
  shows "(\<forall>e. res = Err e \<longrightarrow> f' = f) \<and>
    (\<forall>b. res = Ok b \<longrightarrow>
      b = work_branch (load exc_text now f) \<and> g_head G g' = Some ''main'' \<and>
      (truthy b \<longrightarrow> g_remote G g' (the b) = Ref None \<and> \<not> g_local G g' (the b)) \<and>
      load exc_text later f' = clear_lifecycle (load exc_text now f))"
proof (cases res)
  case (Inl e)
  with assms(2) have "f' = f"
    by (auto simp: abandon_enterprise_branch_def Let_def split: if_splits prod.splits sum.splits)
  with Inl show ?thesis by simp
next
  case (Inr b)
  let ?st = "load exc_text now f"
  from assms(2) Inr obtain g1 g2 u1 u2 u3 where steps:
    "if_named (drop_remote_ref G) (work_branch ?st) g = (Inr u1, g1)"
    "return_to_main G g1 = (Inr u2, g2)"
    "if_named (drop_local_ref G) (work_branch ?st) g2 = (Inr u3, g')"
    "b = work_branch ?st" "f' = save_lifecycle exc_text now clear_lifecycle f" "status ?st \<noteq> Synced"
    by (auto simp: abandon_enterprise_branch_def Let_def split: if_splits prod.splits sum.splits)
  have main: "g_head G g2 = Some ''main''" "g_remote G g2 = g_remote G g1"
    using return_to_main_done [OF assms(1) steps(2)] by simp_all
  have refs: "g_head G g' = Some ''main'' \<and>
      (truthy b \<longrightarrow> g_remote G g' (the b) = Ref None \<and> \<not> g_local G g' (the b))"
  proof (cases "truthy b")
    case True
    with steps have "drop_remote_ref G (the b) g = (Inr u1, g1)" "drop_local_ref G (the b) g2 = (Inr u3, g')"
      by (simp_all add: if_named_def)
    with drop_remote_done [OF assms(1)] drop_local_done [OF assms(1)] main show ?thesis by metis
  next
    case False
    with steps main show ?thesis by (simp add: if_named_def)
  qed
  have ok: "state_ok (clear_lifecycle ?st)" using load_ok [of exc_text now f]
    by (simp add: state_ok_def clear_lifecycle_def replace_lifecycle_def)
  have "clear_lifecycle ?st \<noteq> ?st"
  proof
    assume "clear_lifecycle ?st = ?st"
    then have "status (clear_lifecycle ?st) = status ?st" by simp
    with steps(6) show False by (simp add: clear_lifecycle_def replace_lifecycle_def)
  qed
  then have "load exc_text later f' = clear_lifecycle ?st"
    using ok steps(5) by (simp add: save_lifecycle_def transition_def Let_def load_persisted)
  with refs steps(4) Inr show ?thesis by simp
qed

theorem abandoned_branch_is_gone_witness:
  "case abandon_enterprise_branch (\<lambda>_. ''bad'') ''t1'' sample_git (Some ''w'', [''w''], [''w'', ''x'']) (pending_file None) of
     (res, g', f') \<Rightarrow> res = Ok (Some ''w'') \<and> g_remote sample_git g' ''w'' = Ref None \<and>
       status (load (\<lambda>_. ''bad'') ''t2'' f') = Synced"
proof -
  obtain res g' f' where run: "abandon_enterprise_branch (\<lambda>_. ''bad'') ''t1'' sample_git (Some ''w'', [''w''], [''w'', ''x''])
      (pending_file None) = (res, g', f')" by (metis prod_cases3)
  then have "res = Ok (Some ''w'')"
    by (simp add: abandon_enterprise_branch_def load_pending_file if_named_def drop_remote_ref_def sample_git_def
        return_to_main_def drop_local_ref_def)
  with abandoned_branch_is_gone [OF sample_git_documented run, of "''t2''"] run show ?thesis
    by (simp add: load_pending_file clear_lifecycle_def replace_lifecycle_def)
qed

theorem branch_name_search_ends_with_a_free_name_witness:
  "new_working_branch_name (ref_taken sample_git (None, [''arch/work-1''], [''arch/work-1-2''])) ''1'' = Some ''arch/work-1-3''"
proof -
  let ?g = "(None, [''arch/work-1''], [''arch/work-1-2'']) :: ref_repository"
  have names: "work_name ''1'' = ''arch/work-1''" "suffixed ''1'' 2 = ''arch/work-1-2''" "suffixed ''1'' 3 = ''arch/work-1-3''"
    by (simp_all add: work_name_def suffixed_def decimal.simps digit_char_def) code_simp+
  have taken: "ref_taken sample_git ?g b \<longleftrightarrow> b = ''arch/work-1'' \<or> b = ''arch/work-1-2''" for b
    by (auto simp: ref_taken_def sample_git_def)
  then have "finite {b. ref_taken sample_git ?g b}" by simp
  from branch_name_search_ends_with_a_free_name [OF this, of "''1''"] obtain b where
    b: "new_working_branch_name (ref_taken sample_git ?g) ''1'' = Some b" "\<not> ref_taken sample_git ?g b"
    "b = work_name ''1'' \<or> (\<exists>m \<ge> 2. b = suffixed ''1'' m \<and> (\<forall>j. 2 \<le> j \<and> j < m \<longrightarrow> ref_taken sample_git ?g (suffixed ''1'' j)))"
    by blast
  then obtain m where m: "m \<ge> 2" "b = suffixed ''1'' m" "\<And>j. \<lbrakk>2 \<le> j; j < m\<rbrakk> \<Longrightarrow> ref_taken sample_git ?g (suffixed ''1'' j)"
    using taken names(1) by auto
  have "m \<noteq> 2" using b(2) m(2) taken names(2) by auto
  moreover have "\<not> 3 < m" using m(3) [of 3] taken names(3) by auto
  ultimately have "m = 3" using m(1) by simp
  with b(1) m(2) names(3) show ?thesis by simp
qed

section \<open>Replacing a branch under review\<close>

lemma load_save_changed:
  assumes "state_ok (mutate (load exc_text now f))" and "mutate (load exc_text now f) \<noteq> load exc_text now f"
  shows "load exc_text later (save_lifecycle exc_text now mutate f) = mutate (load exc_text now f)"
  using assms by (simp add: save_lifecycle_def transition_def Let_def load_persisted)

lemma free_suffix_free: "free_suffix taken ts n = Some b \<Longrightarrow> \<not> taken b"
  by (rule free_suffix.raw_induct [where P = "\<lambda>taken ts n b. \<not> taken b"]) (auto split: if_splits)

lemma new_name_free: "new_working_branch_name taken ts = Some b \<Longrightarrow> \<not> taken b"
  by (auto simp: new_working_branch_name_def dest: free_suffix_free split: if_splits)

lemma open_replacement_done:
  assumes "open_replacement_branch exc_text now G ts from_head g f = (res, g1, f1)"
  shows "(\<forall>e. res = Inl e \<longrightarrow> f1 = f) \<and>
    (\<forall>b. res = Inr b \<longrightarrow>
      (let st = load exc_text now f in
       status st = Pending \<and> superseded_branch st = None \<and> truthy (work_branch st) \<and>
       g_checkout_new G b (Some from_head) g = (True, g1) \<and> \<not> ref_taken G g b \<and>
       (\<forall>later. load exc_text later f1 =
          st\<lparr>status := Accumulating, work_branch := Some b, branch_tip := None, tip_pushed_at := None,
             superseded_branch := work_branch st\<rparr>)))"
proof (cases res)
  case (Inl e)
  with assms show ?thesis
    by (auto simp: open_replacement_branch_def Let_def split: if_splits option.splits prod.splits bool.splits)
next
  case (Inr b)
  let ?st = "load exc_text now f"
  from assms Inr have open_facts: "status ?st = Pending" "superseded_branch ?st = None" "truthy (work_branch ?st)"
    "new_working_branch_name (ref_taken G g) ts = Some b" "g_checkout_new G b (Some from_head) g = (True, g1)"
    "f1 = save_lifecycle exc_text now (replace_superseded_branch (work_branch ?st))
       (save_lifecycle exc_text now (replace_lifecycle Accumulating (Some b) None None (commits_behind ?st)) f)"
    by (auto simp: open_replacement_branch_def Let_def split: if_splits option.splits prod.splits bool.splits)
  let ?m1 = "replace_lifecycle Accumulating (Some b) None None (commits_behind ?st)"
  let ?f = "save_lifecycle exc_text now ?m1 f"
  have ok: "state_ok (?m1 ?st)" using load_ok [of exc_text now f] by (simp add: state_ok_def replace_lifecycle_def)
  have "?m1 ?st \<noteq> ?st"
  proof
    assume "?m1 ?st = ?st"
    then have "status (?m1 ?st) = status ?st" by simp
    with open_facts(1) show False by (simp add: replace_lifecycle_def)
  qed
  from load_save_changed [where mutate = ?m1, OF ok this] have one: "load exc_text t ?f = ?m1 ?st" for t .
  have "replace_superseded_branch (work_branch ?st) (?m1 ?st) \<noteq> ?m1 ?st"
  proof
    assume "replace_superseded_branch (work_branch ?st) (?m1 ?st) = ?m1 ?st"
    then have "superseded_branch (replace_superseded_branch (work_branch ?st) (?m1 ?st)) = superseded_branch (?m1 ?st)" by simp
    with open_facts(2,3) show False by (simp add: replace_lifecycle_def replace_superseded_branch_def truthy_iff)
  qed
  moreover have "state_ok (replace_superseded_branch (work_branch ?st) (?m1 ?st))"
    using ok by (simp add: state_ok_def replace_superseded_branch_def)
  ultimately have "load exc_text t f1 = replace_superseded_branch (work_branch ?st) (?m1 ?st)" for t
    unfolding open_facts(6) one [of now, symmetric] by (intro load_save_changed) (simp_all add: one)
  then have "load exc_text t f1 = ?st\<lparr>status := Accumulating, work_branch := Some b, branch_tip := None,
      tip_pushed_at := None, superseded_branch := work_branch ?st\<rparr>" for t
    by (simp add: replace_superseded_branch_def replace_lifecycle_def)
  with open_facts new_name_free Inr show ?thesis by (simp add: Let_def)
qed

lemma retire_superseded_done:
  assumes "git_documented G" and "retire_superseded_branch exc_text now G g f = (res, g', f')"
  shows "(\<forall>e. res = Inl e \<longrightarrow> f' = f) \<and>
    (\<forall>old b. res = Inr old \<and> superseded_branch (load exc_text now f) = Some b \<longrightarrow>
       old = Some b \<and> g_remote G g' b = Ref None \<and> \<not> g_local G g' b \<and>
       (\<forall>later. load exc_text later f' = (load exc_text now f)\<lparr>superseded_branch := None\<rparr>))"
proof (cases "superseded_branch (load exc_text now f)")
  case None
  with assms(2) show ?thesis by (auto simp: retire_superseded_branch_def)
next
  case (Some b)
  let ?st = "load exc_text now f"
  show ?thesis
  proof (cases res)
    case (Inl e)
    with assms(2) Some show ?thesis
      by (auto simp: retire_superseded_branch_def Let_def split: if_splits prod.splits sum.splits)
  next
    case (Inr old)
    from assms(2) Some Inr obtain g1 u1 u2 where steps:
      "drop_remote_ref G b g = (Inr u1, g1)" "drop_local_ref G b g1 = (Inr u2, g')" "old = Some b"
      "f' = save_lifecycle exc_text now (replace_superseded_branch None) f"
      by (auto simp: retire_superseded_branch_def Let_def split: if_splits prod.splits sum.splits)
    have "replace_superseded_branch None ?st \<noteq> ?st"
    proof
      assume "replace_superseded_branch None ?st = ?st"
      then have "superseded_branch (replace_superseded_branch None ?st) = superseded_branch ?st" by simp
      with Some show False by (simp add: replace_superseded_branch_def)
    qed
    moreover have "state_ok (replace_superseded_branch None ?st)"
      using load_ok [of exc_text now f] by (simp add: state_ok_def replace_superseded_branch_def)
    ultimately have "load exc_text t f' = replace_superseded_branch None ?st" for t
      unfolding steps(4) by (intro load_save_changed)
    with drop_remote_done [OF assms(1) steps(1)] drop_local_done [OF assms(1) steps(2)] steps(3) Inr Some show ?thesis
      by (simp add: replace_superseded_branch_def)
  qed
qed

text \<open>
  A branch under review is replaced before it is retired. Opening a replacement is refused unless a branch is
  published and none awaits retirement, and leaves the state file as it was when it is refused; when it
  succeeds, no ref of the remote has changed, the new branch has a name no ref held, and the reviewed
  branch is on record as superseded. Retiring it, whenever that returns, has removed it from the remote and
  the local refs, and until then it stays on record.
\<close>

theorem replacement_precedes_retirement:
  assumes "git_documented G"
    and "open_replacement_branch exc_text now G ts from_head g f = (res, g1, f1)"
    and "retire_superseded_branch exc_text later G g2 f1 = (res2, g3, f3)"
  shows "(\<forall>e. res = Err e \<longrightarrow> f1 = f) \<and>
    (\<forall>b. res = Ok b \<longrightarrow>
      status (load exc_text now f) = Pending \<and> superseded_branch (load exc_text now f) = None \<and>
      g_remote G g1 = g_remote G g \<and> \<not> ref_taken G g b \<and>
      (let st = load exc_text later f1 in
       status st = Accumulating \<and> work_branch st = Some b \<and>
       superseded_branch st = work_branch (load exc_text now f) \<and>
       (\<forall>e. res2 = Err e \<longrightarrow> f3 = f1) \<and>
       (\<forall>old. res2 = Ok old \<longrightarrow>
          old = work_branch (load exc_text now f) \<and> old \<noteq> None \<and> g_remote G g3 (the old) = Ref None \<and>
          \<not> g_local G g3 (the old) \<and>
          load exc_text t f3 = st\<lparr>superseded_branch := None\<rparr>)))"
proof (cases res)
  case (Inl e)
  with open_replacement_done [OF assms(2)] show ?thesis by simp
next
  case (Inr b)
  let ?st = "load exc_text now f"
  from open_replacement_done [OF assms(2)] Inr have opened:
    "status ?st = Pending" "superseded_branch ?st = None" "truthy (work_branch ?st)"
    "g_checkout_new G b (Some from_head) g = (True, g1)" "\<not> ref_taken G g b"
    "\<And>later. load exc_text later f1 = ?st\<lparr>status := Accumulating, work_branch := Some b, branch_tip := None,
       tip_pushed_at := None, superseded_branch := work_branch ?st\<rparr>"
    by (simp_all add: Let_def)
  have "g_remote G (snd (g_checkout_new G b (Some from_head) g)) = g_remote G g"
    using assms(1) unfolding git_documented_def by blast
  then have remote: "g_remote G g1 = g_remote G g" using opened(4) by simp
  from opened(3) obtain w where w: "work_branch ?st = Some w" by (auto simp: truthy_iff)
  note retired = retire_superseded_done [OF assms(1,3)]
  have sup: "superseded_branch (load exc_text later f1) = Some w" using opened(6) w by simp
  have "res2 = Inr old \<Longrightarrow> old = Some w \<and> g_remote G g3 w = Ref None \<and> \<not> g_local G g3 w \<and>
      load exc_text t f3 = (load exc_text later f1)\<lparr>superseded_branch := None\<rparr>" for old
    using retired sup by blast
  with opened remote retired w Inr show ?thesis by (auto simp: Let_def)
qed

theorem replacement_precedes_retirement_witness:
  "case open_replacement_branch (\<lambda>_. ''bad'') ''t1'' sample_git ''1'' ''c'' (Some ''w'', [''w''], [''w'']) (pending_file None) of
     (res, g1, f1) \<Rightarrow> res = Ok ''arch/work-1'' \<and> g_remote sample_git g1 ''w'' = Ref (Some ''c'') \<and>
       superseded_branch (load (\<lambda>_. ''bad'') ''t2'' f1) = Some ''w''"
proof -
  obtain res g1 f1 where run: "open_replacement_branch (\<lambda>_. ''bad'') ''t1'' sample_git ''1'' ''c'' (Some ''w'', [''w''], [''w''])
      (pending_file None) = (res, g1, f1)" by (metis prod_cases3)
  obtain res2 g3 f3 where run2: "retire_superseded_branch (\<lambda>_. ''bad'') ''t2'' sample_git g1 f1 = (res2, g3, f3)"
    by (metis prod_cases3)
  from run have res: "res = Ok ''arch/work-1''"
    by (simp add: open_replacement_branch_def load_pending_file new_working_branch_name_def ref_taken_def sample_git_def
        work_name_def default_state_def)
  with replacement_precedes_retirement [OF sample_git_documented run run2, of "''t3''"] run show ?thesis
    by (simp add: load_pending_file Let_def) (simp add: sample_git_def)
qed

end
