(* ===== verification/Change_Submission.thy ===== *)
theory Change_Submission
  imports Change_Lifecycle Branch_Lifecycle
begin

text \<open>
  Submitting a set of recorded changes (\<^verbatim>\<open>src/infrastructure/write/artifact_write/change_submission.py\<close>):
  compose the set, refuse what upstream already says, replay each edit onto the enterprise checkout, commit
  (\<^verbatim>\<open>git_work_commits.py\<close>), prepare, push and confirm, and only then mark the changes. The client
  of git is extended by the commands and the write path this needs: the checkpoint bracket, the write that
  applies a recorded edit, the verifier and the commit. Marking can fail only on a record that cannot be
  written; that it does not fail on a composed set is a lemma here, so what a failure would leave behind
  in the store is immaterial.
\<close>

record 'g submission_client = "'g git_client" +
  g_begin :: "'g \<Rightarrow> 'g"
  g_apply :: "proposal_edit \<Rightarrow> 'g \<Rightarrow> bool \<times> 'g"
  g_abort :: "'g \<Rightarrow> 'g \<Rightarrow> 'g"
  g_release :: "'g \<Rightarrow> 'g \<Rightarrow> 'g"
  g_verifies :: "'g \<Rightarrow> bool"
  g_stage :: "'g \<Rightarrow> bool \<times> 'g"
  g_commit_staged :: "'g \<Rightarrow> bool \<times> 'g"
  g_content_diff :: "'g \<Rightarrow> string \<Rightarrow> string list option"
  g_ancestor :: "'g \<Rightarrow> string \<Rightarrow> string \<Rightarrow> bool"

record submission_report =
  rep_branch :: string
  rep_commit :: string
  rep_submitted :: "string list"
  rep_pushed_now :: bool

datatype commit_error = NoChangesToSave | SaveVerificationFails | StagingFailed | CommitCommandFailed

datatype submit_error =
    NoEnterprise
  | EnterpriseUnsaved
  | SetRefused set_error
  | UpstreamAlreadySays string string
  | NoWorkingBranch branch_error
  | NoLongerApplies string
  | CommitNotMade commit_error
  | NothingAltered commit_error
  | SagaRefused saga_error
  | NotMarked lifecycle_error

section \<open>Replay and commit\<close>

text \<open>The content paths in which a ref differs from upstream; \<^const>\<open>None\<close> where the comparison fails.\<close>

definition content_is_upstream :: "('g, 'x) submission_client_scheme \<Rightarrow> 'g \<Rightarrow> string \<Rightarrow> bool" where
  "content_is_upstream G g ref \<longleftrightarrow> g_content_diff G g ref = Some []"

fun apply_edits :: "('g, 'x) submission_client_scheme \<Rightarrow> pending_proposal list \<Rightarrow> 'g \<Rightarrow> (submit_error, unit) result \<times> 'g" where
  "apply_edits G [] g = (Ok (), g)"
| "apply_edits G (p # ps) g =
     (case g_apply G (pp_edit p) g of
        (True, g') \<Rightarrow> apply_edits G ps g'
      | (False, g') \<Rightarrow> (Err (NoLongerApplies (pp_id p)), g'))"

definition replay_onto_enterprise ::
    "('g, 'x) submission_client_scheme \<Rightarrow> pending_proposal list \<Rightarrow> 'g \<Rightarrow> (submit_error, unit) result \<times> 'g" where
  "replay_onto_enterprise G ps g =
     (let g0 = g_begin G g in
      case apply_edits G ps g0 of
        (Inl e, g1) \<Rightarrow> (Err e, g_abort G g0 g1)
      | (Inr _, g1) \<Rightarrow> (Ok (), g_release G g0 g1))"

definition commit_enterprise_work ::
    "('g, 'x) submission_client_scheme \<Rightarrow> 'g \<Rightarrow> (commit_error, string) result \<times> 'g" where
  "commit_enterprise_work G g =
     (if \<not> g_uncommitted G g then (Err NoChangesToSave, g)
      else if \<not> g_verifies G g then (Err SaveVerificationFails, g)
      else (case g_stage G g of
              (False, g') \<Rightarrow> (Err StagingFailed, g')
            | (True, g') \<Rightarrow>
                (case g_commit_staged G g' of
                   (False, g'') \<Rightarrow> (Err CommitCommandFailed, g'')
                 | (True, g'') \<Rightarrow> (Ok (case g_commit G g'' of None \<Rightarrow> [] | Some c \<Rightarrow> c), g''))))"

text \<open>
  \<^verbatim>\<open>except ValueError\<close>: both refusals of the commit are \<^verbatim>\<open>ValueError\<close>s, a failing command is not.
\<close>

definition commit_the_replay ::
    "('g, 'x) submission_client_scheme \<Rightarrow> 'g \<Rightarrow> (submit_error, string) result \<times> 'g" where
  "commit_the_replay G g =
     (case commit_enterprise_work G g of
        (Inr c, g') \<Rightarrow> (Ok c, g')
      | (Inl e, g') \<Rightarrow>
          if e \<in> {StagingFailed, CommitCommandFailed} then (Err (CommitNotMade e), g')
          else if \<not> content_is_upstream G g' ''HEAD'' then (Ok (case g_commit G g' of None \<Rightarrow> [] | Some c \<Rightarrow> c), g')
          else (Err (NothingAltered e), g'))"

fun refuse_what_upstream_already_says ::
    "(string \<Rightarrow> target_record option) \<Rightarrow> pending_proposal list \<Rightarrow> (submit_error, unit) result" where
  "refuse_what_upstream_already_says upstream [] = Ok ()"
| "refuse_what_upstream_already_says upstream (p # ps) =
     (if integrated (integration_verdict_for (pp_edit p) (current_values_of (upstream (pp_target p))))
      then Err (UpstreamAlreadySays (pp_id p) (pp_target p))
      else refuse_what_upstream_already_says upstream ps)"

section \<open>Publishing and marking\<close>

text \<open>\<^const>\<open>publish_submission\<close> with the answers git gives it one after the other.\<close>

definition publish_with ::
    "(corruption \<Rightarrow> string) \<Rightarrow> string \<Rightarrow> ('g, 'x) submission_client_scheme \<Rightarrow> submission_intent \<Rightarrow> 'g \<Rightarrow> sync_file
      \<Rightarrow> (saga_error, submission_outcome) result \<times> 'g \<times> sync_file" where
  "publish_with exc_text now G i g f =
     (let first_look = g_remote G g (branch i);
          (push_ok, g_pushed) = g_push G (branch i) g;
          second_look = (if first_look = Ref (Some (expected_commit i)) then g_remote G g (branch i)
                         else g_remote G g_pushed (branch i)) in
      case publish_submission exc_text now i (g_ancestor G g) first_look push_ok second_look f of
        (res, f', issued) \<Rightarrow> (res, (if issued then g_pushed else g), f'))"

definition complete_submission ::
    "(corruption \<Rightarrow> string) \<Rightarrow> string \<Rightarrow> (string \<Rightarrow> string option) \<Rightarrow> change_store \<Rightarrow> sync_file
      \<Rightarrow> (lifecycle_error, string list \<times> change_store \<times> sync_file) result" where
  "complete_submission exc_text now revision_of s f =
     (case submission (load exc_text now f) of
        Some (PushedSubmission i t) \<Rightarrow>
          bind_result (mark_published revision_of (proposal_ids i) s) (\<lambda>(marked, s').
            Ok (marked, s', snd (record_submitted exc_text now i t f)))
      | _ \<Rightarrow> Ok ([], s, f))"

definition record_published ::
    "(corruption \<Rightarrow> string) \<Rightarrow> string \<Rightarrow> string \<Rightarrow> string \<Rightarrow> sync_file \<Rightarrow> sync_file" where
  "record_published exc_text now br commit f =
     save_lifecycle exc_text now
       (replace_lifecycle Pending (Some br) (Some commit) (Some now) (commits_behind (load exc_text now f))) f"

definition publish_on_the_current_branch ::
    "(corruption \<Rightarrow> string) \<Rightarrow> (nat \<Rightarrow> string) \<Rightarrow> ('g, 'x) submission_client_scheme \<Rightarrow> (string \<Rightarrow> string option)
      \<Rightarrow> pending_proposal list \<Rightarrow> 'g \<Rightarrow> change_store \<Rightarrow> sync_file
      \<Rightarrow> (submit_error, submission_report) result \<times> 'g \<times> change_store \<times> sync_file" where
  "publish_on_the_current_branch exc_text clock G revision_of composed g s f =
     (case replay_onto_enterprise G composed g of
        (Inl e, g1) \<Rightarrow> (Err e, g1, s, f)
      | (Inr _, g1) \<Rightarrow>
     (case commit_the_replay G g1 of
        (Inl e, g2) \<Rightarrow> (Err e, g2, s, f)
      | (Inr commit, g2) \<Rightarrow>
     (case prepare_submission exc_text (clock 1) (g_head G g2) (g_uncommitted G g2) (g_commit G g2) (map pp_id composed) f of
        Inl e \<Rightarrow> (Err (SagaRefused e), g2, s, f)
      | Inr (i, f1) \<Rightarrow>
     (case publish_with exc_text (clock 2) G i g2 f1 of
        (Inl e, g3, f2) \<Rightarrow> (Err (SagaRefused e), g3, s, f2)
      | (Inr out, g3, f2) \<Rightarrow>
     (case complete_submission exc_text (clock 3) revision_of s f2 of
        Inl e \<Rightarrow> (Err (NotMarked e), g3, s, f2)
      | Inr (marked, s', f3) \<Rightarrow>
          (Ok \<lparr>rep_branch = outcome_branch out, rep_commit = commit, rep_submitted = map pp_id composed,
               rep_pushed_now = pushed_now out\<rparr>,
           g3, s', record_published exc_text (clock 4) (outcome_branch out) (outcome_commit out) f3))))))"

text \<open>\<open>upstream\<close> is \<^const>\<open>None\<close> where it cannot be read: the check is then skipped.\<close>

definition submit_changes ::
    "(corruption \<Rightarrow> string) \<Rightarrow> (nat \<Rightarrow> string) \<Rightarrow> ('g, 'x) submission_client_scheme \<Rightarrow> (string \<Rightarrow> string option)
      \<Rightarrow> bool \<Rightarrow> (string \<Rightarrow> target_record option) option \<Rightarrow> string \<Rightarrow> string list \<Rightarrow> 'g \<Rightarrow> change_store \<Rightarrow> sync_file
      \<Rightarrow> (submit_error, submission_report) result \<times> 'g \<times> change_store \<times> sync_file" where
  "submit_changes exc_text clock G revision_of mounted upstream ts ids g s f =
     (if \<not> mounted then (Err NoEnterprise, g, s, f)
      else if g_uncommitted G g then (Err EnterpriseUnsaved, g, s, f)
      else (case compose_set ids (pending_proposals s) of
              Inl e \<Rightarrow> (Err (SetRefused e), g, s, f)
            | Inr composed \<Rightarrow>
           (case (case upstream of None \<Rightarrow> Ok () | Some u \<Rightarrow> refuse_what_upstream_already_says u composed) of
              Inl e \<Rightarrow> (Err e, g, s, f)
            | Inr _ \<Rightarrow>
           (case ensure_working_branch exc_text (clock 0) (git_client.truncate G) ts g f of
              (Inl e, g1, f1) \<Rightarrow> (Err (NoWorkingBranch e), g1, s, f1)
            | (Inr _, g1, f1) \<Rightarrow> publish_on_the_current_branch exc_text clock G revision_of composed g1 s f1))))"

section \<open>Marking never fails\<close>

lemma mark_submitted_total:
  assumes "distinct (ids_of s)" and "distinct is"
    and "\<forall>i \<in> set is. \<forall>r. by_id i \<noteq> None \<and> get_entity s i = Some r \<longrightarrow> live_target r \<noteq> None"
  shows "\<exists>res. mark_submitted by_id revision_of is s = Inr res"
  using assms
proof (induction "is" arbitrary: s)
  case (Cons i ids)
  have d: "distinct ids" and fresh: "i \<notin> set ids" using Cons.prems(2) by simp_all
  have live: "\<forall>j \<in> set ids. \<forall>r. by_id j \<noteq> None \<and> get_entity s j = Some r \<longrightarrow> live_target r \<noteq> None"
    using Cons.prems(3) by simp
  show ?case
  proof (cases "by_id i")
    case None
    with Cons.IH [OF Cons.prems(1) d live] show ?thesis by simp
  next
    case (Some p)
    show ?thesis
    proof (cases "get_entity s i")
      case None
      with Cons.IH [OF Cons.prems(1) d live] Some show ?thesis
        by (auto simp: restamp_base_revision_def split: option.split)
    next
      case r: (Some r)
      with Cons.prems(3) Some have alive: "live_target r \<noteq> None" by simp
      then have pend: "state_of_change r \<in> PENDING_STATES" by (rule live_is_pending)
      from mark_total [OF r pend, of SUBMITTED_STATE] obtain changed s1 where
        m: "mark_proposal_state i SUBMITTED_STATE s = Inr (changed, s1)"
        by (force simp: PROPOSAL_STATES_def SUBMITTED_STATE_def)
      have "state_of_change q \<in> PENDING_STATES \<and> change_moves\<^sup>*\<^sup>* (state_of_change q) SUBMITTED_STATE" if "get_entity s i = Some q" for q
        using that r pend submit by (auto simp: PENDING_iff SUBMITTED_STATE_def)
      from mark_writes [OF Cons.prems(1) m this] obtain r1 where
        w: "s1 = write_record r1 s" "cr_id r1 = i" "state_of_change r1 = SUBMITTED_STATE" by blast
      then have "get_entity s1 i = Some r1" using r by (simp add: write_record_get)
      moreover have "cr_extra r1 \<noteq> []"
        using w(3) by (intro pending_has_frontmatter) (simp add: PENDING_iff SUBMITTED_STATE_def)
      ultimately have "\<exists>res. restamp_base_revision revision_of i (pp_target p) s1 = Inr res"
        by (auto simp: restamp_base_revision_def record_proposal_field_def split: option.split)
      then obtain stamped s2 where st: "restamp_base_revision revision_of i (pp_target p) s1 = Inr (stamped, s2)"
        by auto
      from mark_one_effect [OF Cons.prems(1) r alive m st] obtain r2 where
        r2: "s2 = write_record r2 s" "cr_id r2 = i" by blast
      have get2: "get_entity s2 j = (if j = i then Some r2 else get_entity s j)" for j
        using r2 r by (simp add: write_record_get)
      have "distinct (ids_of s2)" using Cons.prems(1) r2(1) by simp
      moreover have "\<forall>j \<in> set ids. \<forall>r. by_id j \<noteq> None \<and> get_entity s2 j = Some r \<longrightarrow> live_target r \<noteq> None"
        using live get2 fresh by auto
      ultimately obtain res where "mark_submitted by_id revision_of ids s2 = Inr res" using Cons.IH [of s2] d by blast
      with Some r m st show ?thesis by (cases res) simp
    qed
  qed
qed simp

end
