(* ===== verification/Change_Submission_Properties.thy ===== *)
theory Change_Submission_Properties
  imports Change_Submission
begin

text \<open>
  What a submission promises across the components it runs through: the change store, the branch, the saga
  and the state file.
\<close>

section \<open>The steps\<close>

lemma load_with_submission:
  assumes "submission (load exc_text now f) = Some phase"
  shows "load exc_text later f = load exc_text now f"
  using assms
  by (auto simp: load_def corrupt_def default_state_def split: sync_file.splits pyval.splits sum.splits)

lemma prepare_done:
  assumes "prepare_submission exc_text now head uncommitted commit ids f = Inr (i, f1)"
  shows "intent_ok i \<and> proposal_ids i = ids \<and> commit = Some (expected_commit i) \<and> \<not> uncommitted"
  using assms
  by (auto simp: prepare_submission_def submission_preflight_def bind_result_eq_Inr mk_intent_iff truthy_iff
      split: if_splits sum.splits option.splits)

lemma publish_with_done:
  assumes "publish_with exc_text now G i g f = (Inr out, g', f')"
  shows "g_remote G g' (branch i) = Ref (Some (expected_commit i)) \<and>
    f' = persist_phase exc_text now (pushed i now) f \<and> outcome_branch out = branch i \<and>
    outcome_commit out = expected_commit i"
proof -
  let ?look = "g_remote G g (branch i)"
  obtain push_ok g1 where push: "g_push G (branch i) g = (push_ok, g1)" by (metis surj_pair)
  let ?second = "if ?look = Ref (Some (expected_commit i)) then ?look else g_remote G g1 (branch i)"
  obtain res f2 issued where
    pub: "publish_submission exc_text now i (g_ancestor G g) ?look push_ok ?second f = (res, f2, issued)" by (metis prod_cases3)
  have run: "res = Inr out" "f2 = f'" "g' = (if issued then g1 else g)"
    using assms push pub by (auto simp: publish_with_def Let_def)
  note result = publish_result [OF pub]
  have second: "?second = Ref (Some (expected_commit i))" using result run(1) by simp
  have "issued \<longleftrightarrow> ?look \<noteq> Ref (Some (expected_commit i))"
    using pub run(1)
    by (auto simp: publish_submission_def Let_def split: remote_reply.splits if_splits)
  with result run second show ?thesis by (auto split: if_splits)
qed

lemma complete_done:
  assumes "intent_ok i" and "\<not> blank t" and "\<not> blank now"
    and "complete_submission exc_text now revision_of s (persist_phase exc_text t (pushed i t) f) = Inr (marked, s', f')"
  shows "mark_published revision_of (proposal_ids i) s = Inr (marked, s') \<and>
    submission (load exc_text later f') = Some (CompletedSubmission i t now)"
proof -
  let ?f = "persist_phase exc_text t (pushed i t) f"
  have "submission (load exc_text now ?f) = Some (PushedSubmission i t)"
    using load_persist_phase [OF phases_ok(1) [OF assms(1,2)]] by (simp add: pushed_def)
  with assms(4) have "mark_published revision_of (proposal_ids i) s = Inr (marked, s')"
    "f' = persist_phase exc_text now (submitted i t now) ?f"
    by (auto simp: complete_submission_def bind_result_eq_Inr record_submitted_def)
  with load_persist_phase [OF phases_ok(2) [OF assms(1-3)]] show ?thesis by (simp add: submitted_def)
qed

lemma record_published_done:
  assumes "submission (load exc_text now f) = Some phase"
  shows "load exc_text later (record_published exc_text now br commit f) =
    (load exc_text now f)\<lparr>status := Pending, work_branch := Some br, branch_tip := Some commit, tip_pushed_at := Some now\<rparr>"
proof -
  let ?st = "load exc_text now f"
  let ?m = "replace_lifecycle Pending (Some br) (Some commit) (Some now) (commits_behind ?st)"
  have m: "?m ?st = ?st\<lparr>status := Pending, work_branch := Some br, branch_tip := Some commit, tip_pushed_at := Some now\<rparr>"
    by (simp add: replace_lifecycle_def)
  have ok: "state_ok (?m ?st)" using load_ok [of exc_text now f] by (simp add: state_ok_def replace_lifecycle_def)
  show ?thesis
  proof (cases "?m ?st = ?st")
    case True
    then have "record_published exc_text now br commit f = f"
      by (simp add: record_published_def save_lifecycle_def transition_def Let_def)
    with True m load_with_submission [OF assms] show ?thesis by simp
  next
    case False
    from load_save_changed [where mutate = ?m, OF ok False] m show ?thesis by (simp add: record_published_def)
  qed
qed

lemma commit_the_replay_is_head:
  "commit_the_replay G g = (Inr c, g') \<Longrightarrow> c = (case g_commit G g' of None \<Rightarrow> [] | Some h \<Rightarrow> h)"
  by (auto simp: commit_the_replay_def commit_enterprise_work_def split: prod.splits sum.splits if_splits bool.splits)

text \<open>A composed set can always be marked.\<close>

lemma mark_published_total:
  assumes "distinct (ids_of s)" and "distinct is"
  shows "\<exists>res. mark_published revision_of is s = Inr res"
proof -
  let ?by_id = "proposals_by_id (pending_proposals s)"
  have "live_target r \<noteq> None" if i: "?by_id i \<noteq> None" "get_entity s i = Some r" for i r
  proof -
    from i(1) obtain p where "p \<in> set (live_changes s)" "pp_id p = i"
      using proposals_by_id_iff [OF assms(1)] by auto
    with live_change_record [of p s] i(2) assms(1) show ?thesis
      by (auto simp: get_entity_iff distinct_map inj_on_def)
  qed
  then show ?thesis unfolding mark_published_def by (intro mark_submitted_total [OF assms]) blast
qed

lemma complete_submission_total:
  assumes "distinct (ids_of s)"
  shows "\<exists>res. complete_submission exc_text now revision_of s f = Inr res"
proof (cases "submission (load exc_text now f)")
  case (Some phase)
  show ?thesis
  proof (cases phase)
    case (PushedSubmission i t)
    have "submission_ok phase" using load_ok [of exc_text now f] Some by (simp add: state_ok_def)
    then have "distinct (proposal_ids i)" using PushedSubmission by (simp add: submission_ok_def intent_ok_def)
    from mark_published_total [OF assms this] obtain marked s' where "mark_published revision_of (proposal_ids i) s = Inr (marked, s')"
      by (metis surj_pair)
    with Some PushedSubmission show ?thesis by (simp add: complete_submission_def)
  qed (use Some in \<open>simp_all add: complete_submission_def\<close>)
qed (simp add: complete_submission_def)

section \<open>A submission as a whole\<close>

lemma publish_on_branch_done:
  assumes "publish_on_the_current_branch exc_text clock G revision_of composed g s f = (Inr rep, g', s', f')"
    and "\<forall>k. \<not> blank (clock k)"
  obtains i marked where "intent_ok i" "proposal_ids i = map pp_id composed" "rep_submitted rep = map pp_id composed"
    "rep_branch rep = branch i" "rep_commit rep = expected_commit i"
    "g_remote G g' (branch i) = Ref (Some (expected_commit i))"
    "mark_published revision_of (map pp_id composed) s = Inr (marked, s')"
    "\<And>later. submission (load exc_text later f') = Some (CompletedSubmission i (clock 2) (clock 3))"
    "\<And>later. status (load exc_text later f') = Pending"
    "\<And>later. work_branch (load exc_text later f') = Some (branch i)"
    "\<And>later. branch_tip (load exc_text later f') = Some (expected_commit i)"
proof -
  from assms(1) obtain u g1 c g2 i f1 out f2 marked f3 where steps:
    "replay_onto_enterprise G composed g = (Inr u, g1)" "commit_the_replay G g1 = (Inr c, g2)"
    "prepare_submission exc_text (clock 1) (g_head G g2) (g_uncommitted G g2) (g_commit G g2) (map pp_id composed) f = Inr (i, f1)"
    "publish_with exc_text (clock 2) G i g2 f1 = (Inr out, g', f2)"
    "complete_submission exc_text (clock 3) revision_of s f2 = Inr (marked, s', f3)"
    "f' = record_published exc_text (clock 4) (outcome_branch out) (outcome_commit out) f3"
    "rep = \<lparr>rep_branch = outcome_branch out, rep_commit = c, rep_submitted = map pp_id composed,
       rep_pushed_now = pushed_now out\<rparr>"
    by (auto simp: publish_on_the_current_branch_def split: prod.splits sum.splits)
  have i: "intent_ok i" "proposal_ids i = map pp_id composed" "g_commit G g2 = Some (expected_commit i)"
    using prepare_done [OF steps(3)] by simp_all
  have c: "c = expected_commit i" using commit_the_replay_is_head [OF steps(2)] i(3) by simp
  have pub: "g_remote G g' (branch i) = Ref (Some (expected_commit i))" "outcome_branch out = branch i"
    "outcome_commit out = expected_commit i" "f2 = persist_phase exc_text (clock 2) (pushed i (clock 2)) f1"
    using publish_with_done [OF steps(4)] by simp_all
  have finished: "mark_published revision_of (proposal_ids i) s = Inr (marked, s')"
    "submission (load exc_text t f3) = Some (CompletedSubmission i (clock 2) (clock 3))" for t
    using complete_done [OF i(1) _ _ steps(5) [unfolded pub(4)]] assms(2) by blast+
  have state: "load exc_text t f' = (load exc_text (clock 4) f3)\<lparr>status := Pending, work_branch := Some (branch i),
      branch_tip := Some (expected_commit i), tip_pushed_at := Some (clock 4)\<rparr>" for t
    using record_published_done [OF finished(2) [of "clock 4"], of t "branch i" "expected_commit i"] steps(6) pub(2,3) by simp
  show thesis
    by (rule that [of i marked]) (use i c pub finished state steps(7) in simp_all)
qed

lemma publish_on_branch_refused:
  assumes "publish_on_the_current_branch exc_text clock G revision_of composed g s f = (Inl e, g', s', f')"
    and "distinct (ids_of s)"
  shows "s' = s \<and> (\<forall>x. e \<noteq> NotMarked x)"
proof -
  have "e \<noteq> NotMarked x" for x
  proof
    assume e: "e = NotMarked x"
    obtain r1 g1 where r1: "replay_onto_enterprise G composed g = (r1, g1)" by (metis surj_pair)
    obtain r2 g2 where r2: "commit_the_replay G g1 = (r2, g2)" by (metis surj_pair)
    have no: "e0 \<noteq> NotMarked x" if "r1 = Inl e0" for e0
    proof -
      have "\<forall>e1 g1. apply_edits G ps g0 = (Inl e1, g1) \<longrightarrow> e1 \<noteq> NotMarked x" for ps g0
        by (induction ps arbitrary: g0) (auto split: prod.splits bool.splits)
      with r1 that show ?thesis by (auto simp: replay_onto_enterprise_def Let_def split: prod.splits sum.splits)
    qed
    have no2: "e0 \<noteq> NotMarked x" if "r2 = Inl e0" for e0
      using r2 that by (auto simp: commit_the_replay_def split: prod.splits sum.splits if_splits)
    have total: "complete_submission exc_text (clock 3) revision_of s f2 \<noteq> Inl y" for f2 y
      using complete_submission_total [OF assms(2), of exc_text "clock 3" revision_of f2] by auto
    show False
      using assms(1) e r1 r2 no no2 total
      by (auto simp: publish_on_the_current_branch_def split: prod.splits sum.splits)
  qed
  moreover have "s' = s"
    using assms(1) by (auto simp: publish_on_the_current_branch_def split: prod.splits sum.splits)
  ultimately show ?thesis by blast
qed

lemma submit_changes_cases:
  assumes "submit_changes exc_text clock G revision_of mounted upstream ts ids g s f = (res, g', s', f')"
  obtains (refused) e where "res = Inl e" "s' = s" "\<And>x. e \<noteq> NotMarked x"
    | (published) composed g1 f1 where "\<not> g_uncommitted G g" "compose_set ids (pending_proposals s) = Inr composed"
        "\<And>u. upstream = Some u \<Longrightarrow> refuse_what_upstream_already_says u composed = Inr ()"
        "publish_on_the_current_branch exc_text clock G revision_of composed g1 s f1 = (res, g', s', f')"
proof -
  have no: "e \<noteq> NotMarked x" if "refuse_what_upstream_already_says u ps = Inl e" for u ps e x
    using that by (induction ps) (auto split: if_splits)
  show thesis
    using assms that no
    by (auto simp: submit_changes_def split: if_splits sum.splits prod.splits option.splits)
qed

lemma upstream_does_not_say:
  "refuse_what_upstream_already_says u ps = Inr v \<Longrightarrow>
     \<forall>p \<in> set ps. \<not> integrated (integration_verdict_for (pp_edit p) (current_values_of (u (pp_target p))))"
  by (induction ps) (auto split: if_splits)

section \<open>Properties\<close>

text \<open>
  No change is marked before the remote has confirmed its branch. When a submission is refused, at any
  point and whatever git, the write path, the verifier and upstream answer, the change store is as it was, and
  the refusal is never that a published change could not be marked. When it reports success, the branch it
  names stands on the remote at the commit the report and the state file name.
\<close>

theorem nothing_is_marked_before_the_remote_confirms:
  assumes "distinct (map cr_id s)" and "\<forall>k. \<not> blank (clock k)"
    and "submit_changes exc_text clock G revision_of mounted upstream ts ids g s f = (res, g', s', f')"
  shows "case res of
      Inl e \<Rightarrow> s' = s \<and> (\<forall>x. e \<noteq> NotMarked x)
    | Inr rep \<Rightarrow> g_remote G g' (rep_branch rep) = Ref (Some (rep_commit rep)) \<and>
        branch_tip (load exc_text later f') = Some (rep_commit rep)"
  using assms(3)
proof (cases rule: submit_changes_cases)
  case (refused e)
  then show ?thesis by simp
next
  case (published composed g1 f1)
  show ?thesis
  proof (cases res)
    case (Inl e)
    with publish_on_branch_refused [OF _ assms(1)] published(4) show ?thesis by simp
  next
    case (Inr rep)
    with published(4) have "publish_on_the_current_branch exc_text clock G revision_of composed g1 s f1 = (Inr rep, g', s', f')"
      by simp
    then show ?thesis by (rule publish_on_branch_done [OF _ assms(2)]) (use Inr in simp)
  qed
qed


text \<open>
  A tree the verifier refuses is not published, and not cleaned up either. When the replay has altered the
  checkout and the result does not verify, publishing is refused with the store and the state file as they
  were, but the refusal is never the verifier's: the commit's refusal is taken for a replay that altered
  nothing, so it reads as that or as unsaved changes. The replay stays in the checkout, and every further
  submission is refused for unsaved changes.
\<close>

theorem unverified_replay_is_not_published_but_left_behind:
  assumes "replay_onto_enterprise G composed g = (Ok (), g1)" and "g_uncommitted G g1" and "\<not> g_verifies G g1"
  shows "\<exists>e \<in> {NothingAltered SaveVerificationFails, SagaRefused UnsavedChanges, SagaRefused DetachedHead}.
    publish_on_the_current_branch exc_text clock G revision_of composed g s f = (Err e, g1, s, f) \<and>
    submit_changes exc_text clock' G revision_of True upstream ts ids g1 s f = (Err EnterpriseUnsaved, g1, s, f)"
  using assms
  by (auto simp: publish_on_the_current_branch_def commit_the_replay_def commit_enterprise_work_def
      prepare_submission_def submission_preflight_def submit_changes_def split: option.splits)

section \<open>A submission on a small repository\<close>

text \<open>The head, whether the tree is altered, the commit, and the refs of the remote.\<close>

type_synonym small_repository = "string \<times> bool \<times> string \<times> (string \<times> string) list"

definition small_git :: "bool \<Rightarrow> small_repository submission_client" where
  "small_git good = \<lparr>g_head = (\<lambda>(h, _). Some h), g_commit = (\<lambda>(_, _, c, _). Some c), g_uncommitted = (\<lambda>(_, d, _). d),
     g_local = (\<lambda>_ _. False), g_tracking = (\<lambda>(_, _, _, rs) b. map_of rs b \<noteq> None),
     g_remote = (\<lambda>(_, _, _, rs) b. Ref (map_of rs b)),
     g_checkout_new = (\<lambda>b _ (_, r). (True, (b, r))), g_checkout_main = (\<lambda>(_, r). (True, (''main'', r))),
     g_delete_remote = (\<lambda>b (h, d, c, rs). (True, (h, d, c, filter (\<lambda>p. fst p \<noteq> b) rs))),
     g_delete_local = (\<lambda>_ g. (True, g)),
     g_push = (\<lambda>b (h, d, c, rs). (True, (h, d, c, (b, c) # rs))),
     g_begin = (\<lambda>g. g), g_apply = (\<lambda>_ (h, _, r). (True, (h, True, r))), g_abort = (\<lambda>(_, d, _) (h, _, r). (h, d, r)), g_release = (\<lambda>_ g. g),
     g_verifies = (\<lambda>_. good), g_stage = (\<lambda>g. (True, g)), g_commit_staged = (\<lambda>(h, _, _, rs). (True, (h, False, ''c2'', rs))),
     g_content_diff = (\<lambda>_ _. Some []), g_ancestor = (\<lambda>_ _ _. False)\<rparr>"

definition small_store :: change_store where
  "small_store = [sample_change ''1'' ''draft'' ''A'' ''name'', sample_change ''2'' ''draft'' ''B'' ''notes'']"

abbreviation submit_small :: "(submit_error, submission_report) result \<times> small_repository \<times> change_store \<times> sync_file" where
  "submit_small \<equiv> submit_changes (\<lambda>_. ''bad'') (\<lambda>_. ''t1'') (small_git True) (\<lambda>_. None) True (Some (\<lambda>_. None)) ''9'' [''1'']
     (''main'', False, ''c1'', []) small_store NoFile"

lemma submit_small_result:
  "case submit_small of (Inl _, _) \<Rightarrow> False
   | (Inr rep, _) \<Rightarrow> rep_branch rep = ''arch/work-9'' \<and> rep_commit rep = ''c2''"
  by code_simp

lemma small_hypotheses: "distinct (map cr_id small_store)" "\<forall>k::nat. \<not> blank ((\<lambda>_. ''t1'') k)"
  by (code_simp, simp add: sample_not_blank)

lemma submit_small_ok:
  obtains rep g' s' f' where "submit_small = (Inr rep, g', s', f')" "rep_branch rep = ''arch/work-9''" "rep_commit rep = ''c2''"
  using submit_small_result by (auto split: prod.splits sum.splits)

theorem nothing_is_marked_before_the_remote_confirms_witness:
  "case submit_small of (res, g', s', f') \<Rightarrow>
     g_remote (small_git True) g' ''arch/work-9'' = Ref (Some ''c2'') \<and> branch_tip (load (\<lambda>_. ''bad'') ''t5'' f') = Some ''c2''"
proof (rule submit_small_ok)
  fix rep g' s' f'
  assume run: "submit_small = (Inr rep, g', s', f')" and rep: "rep_branch rep = ''arch/work-9''" "rep_commit rep = ''c2''"
  from nothing_is_marked_before_the_remote_confirms [OF small_hypotheses run, of "''t5''"] rep run show ?thesis by simp
qed


theorem unverified_replay_is_not_published_but_left_behind_witness:
  "fst (submit_changes (\<lambda>_. ''bad'') (\<lambda>_. ''t1'') (small_git False) (\<lambda>_. None) True None ''9'' [''1'']
     (''main'', True, ''c1'', []) small_store NoFile) = Err EnterpriseUnsaved \<and>
   replay_onto_enterprise (small_git False) (live_changes small_store) (''main'', False, ''c1'', []) = (Ok (), (''main'', True, ''c1'', []))"
proof -
  have replay: "replay_onto_enterprise (small_git False) (live_changes small_store) (''main'', False, ''c1'', []) = (Ok (), (''main'', True, ''c1'', []))"
    by code_simp
  from unverified_replay_is_not_published_but_left_behind [OF replay, where exc_text = "\<lambda>_. ''bad''" and clock' = "\<lambda>_. ''t1''"
      and revision_of = "\<lambda>_. None" and upstream = None and ts = "''9''" and ids = "[''1'']" and s = small_store and f = NoFile]
  have "submit_changes (\<lambda>_. ''bad'') (\<lambda>_. ''t1'') (small_git False) (\<lambda>_. None) True None ''9'' [''1'']
     (''main'', True, ''c1'', []) small_store NoFile = (Err EnterpriseUnsaved, (''main'', True, ''c1'', []), small_store, NoFile)"
    by (auto simp: small_git_def)
  with replay show ?thesis by simp
qed

end
