(* ===== verification/Change_Reconciliation.thy ===== *)
theory Change_Reconciliation
  imports Change_Lifecycle_Properties Change_Submission_Properties
begin

text \<open>
  Settling what was published (\<^verbatim>\<open>src/infrastructure/write/artifact_write/integration_cleanup.py\<close>,
  \<^verbatim>\<open>change_republication.py\<close>, \<^verbatim>\<open>change_rebase_op.py\<close>, \<^verbatim>\<open>src/infrastructure/backend/startup_reconciliation.py\<close>):
  closing what upstream carries and taking the finished review branch down, replacing a branch under review by
  a rebased one, and what a starting backend settles. The worktree a rehearsal runs in and the index that
  knows an artifact's path are parameters, as git is.
\<close>

section \<open>Closing and retiring\<close>

text \<open>
  \<^verbatim>\<open>_retire_a_finished_review_branch\<close>: the branch retired, or none. The errors of the abandonment are
  caught, so only what it left behind shows.
\<close>

definition retire_a_finished_review_branch ::
    "(corruption \<Rightarrow> string) \<Rightarrow> string \<Rightarrow> ('g, 'x) submission_client_scheme \<Rightarrow> change_store \<Rightarrow> 'g \<Rightarrow> sync_file
      \<Rightarrow> string option \<times> 'g \<times> sync_file" where
  "retire_a_finished_review_branch exc_text now G s g f =
     (let st = load exc_text now f in
      if \<exists>(t, ps) \<in> set (pending_proposals s). ps \<noteq> [] then (None, g, f)
      else if status st \<noteq> Pending \<or> work_branch st = None then (None, g, f)
      else if \<not> content_is_upstream G g (the (work_branch st)) then (None, g, f)
      else (case abandon_enterprise_branch exc_text now (git_client.truncate G) g f of
              (Inl e, g', f') \<Rightarrow> (None, g', f')
            | (Inr b, g', f') \<Rightarrow> (b, g', f')))"

definition close_integrated_changes ::
    "(corruption \<Rightarrow> string) \<Rightarrow> string \<Rightarrow> ('g, 'x) submission_client_scheme \<Rightarrow> bool \<Rightarrow> (string \<Rightarrow> target_record option) option
      \<Rightarrow> 'g \<Rightarrow> change_store \<Rightarrow> sync_file \<Rightarrow> sweep_report \<times> 'g \<times> change_store \<times> sync_file" where
  "close_integrated_changes exc_text now G mounted upstream g s f =
     (case sweep_submitted mounted upstream (status (load exc_text now f) = Pending) s of
        (report, s') \<Rightarrow>
          if closed_changes report = [] then (report, g, s', f)
          else (case retire_a_finished_review_branch exc_text now G s' g f of
                  (_, g', f') \<Rightarrow> (report, g', s', f')))"

text \<open>\<^const>\<open>None\<close> where there is no repository to settle.\<close>

definition settle_after_a_withdrawal ::
    "(corruption \<Rightarrow> string) \<Rightarrow> string \<Rightarrow> ('g, 'x) submission_client_scheme \<Rightarrow> bool \<Rightarrow> (string \<Rightarrow> target_record option) option
      \<Rightarrow> 'g \<Rightarrow> change_store option \<Rightarrow> sync_file \<Rightarrow> 'g \<times> change_store option \<times> sync_file" where
  "settle_after_a_withdrawal exc_text now G mounted upstream g repo f =
     (case repo of
        None \<Rightarrow> (g, None, f)
      | Some s \<Rightarrow> (case close_integrated_changes exc_text now G mounted upstream g s f of (_, g', s', f') \<Rightarrow> (g', Some s', f')))"

section \<open>What a starting backend settles\<close>

definition settle_submissions_in_flight ::
    "(corruption \<Rightarrow> string) \<Rightarrow> string \<Rightarrow> (string \<Rightarrow> remote_reply) \<Rightarrow> bool \<Rightarrow> sync_file \<Rightarrow> sync_file" where
  "settle_submissions_in_flight exc_text now look mounted f =
     (if mounted then snd (reconcile_submission exc_text now look f) else f)"

definition finish_a_submission_left_unmarked ::
    "(corruption \<Rightarrow> string) \<Rightarrow> string \<Rightarrow> (string \<Rightarrow> string option) \<Rightarrow> bool \<Rightarrow> change_store \<Rightarrow> sync_file \<Rightarrow> change_store \<times> sync_file" where
  "finish_a_submission_left_unmarked exc_text now revision_of mounted s f =
     (if \<not> mounted then (s, f)
      else (case complete_submission exc_text now revision_of s f of
              Inl e \<Rightarrow> (s, f)
            | Inr (marked, s', f') \<Rightarrow> (s', f')))"

definition close_changes_already_integrated ::
    "(corruption \<Rightarrow> string) \<Rightarrow> string \<Rightarrow> ('g, 'x) submission_client_scheme \<Rightarrow> bool \<Rightarrow> (string \<Rightarrow> target_record option) option
      \<Rightarrow> 'g \<Rightarrow> change_store \<Rightarrow> sync_file \<Rightarrow> 'g \<times> change_store \<times> sync_file" where
  "close_changes_already_integrated exc_text now G mounted upstream g s f =
     snd (close_integrated_changes exc_text now G mounted upstream g s f)"

text \<open>The order of \<^verbatim>\<open>src/infrastructure/backend/_startup_repository.py\<close>.\<close>

definition startup_reconciliation ::
    "(corruption \<Rightarrow> string) \<Rightarrow> (nat \<Rightarrow> string) \<Rightarrow> ('g, 'x) submission_client_scheme \<Rightarrow> (string \<Rightarrow> string option) \<Rightarrow> bool
      \<Rightarrow> (string \<Rightarrow> target_record option) option \<Rightarrow> 'g \<Rightarrow> change_store \<Rightarrow> sync_file \<Rightarrow> 'g \<times> change_store \<times> sync_file" where
  "startup_reconciliation exc_text clock G revision_of mounted upstream g s f =
     (let f1 = settle_submissions_in_flight exc_text (clock 0) (g_remote G g) mounted f in
      case finish_a_submission_left_unmarked exc_text (clock 1) revision_of mounted s f1 of
        (s1, f2) \<Rightarrow> close_changes_already_integrated exc_text (clock 2) G mounted upstream g s1 f2)"

definition changes_under_submission ::
    "(corruption \<Rightarrow> string) \<Rightarrow> string \<Rightarrow> bool \<Rightarrow> sync_file \<Rightarrow> string set" where
  "changes_under_submission exc_text now mounted f =
     (if \<not> mounted then {}
      else (case submission (load exc_text now f) of
              None \<Rightarrow> {}
            | Some (PreparedSubmission i) \<Rightarrow> set (proposal_ids i)
            | Some (PushedSubmission i t) \<Rightarrow> set (proposal_ids i)
            | Some (CompletedSubmission i t u) \<Rightarrow> set (proposal_ids i)))"

section \<open>Replacing a branch under review\<close>

record ('g, 'w) rehearsal_client =
  open_worktree :: "'g \<Rightarrow> string \<Rightarrow> 'w option"
  read_current :: "'w \<Rightarrow> string \<Rightarrow> target_record option"
  apply_edit :: "proposal_edit \<Rightarrow> 'w \<Rightarrow> string option \<times> 'w"

datatype republication_error =
    CannotCompare string
  | CarriesMore string "string list"
  | NotOpened branch_error
  | NotPublished submit_error
  | NotRetired branch_error

datatype rebase_error =
    NoEnterpriseMounted
  | NoWorktree
  | NotRestamped lifecycle_error
  | NotRepublished republication_error

definition UPSTREAM_REF :: string where "UPSTREAM_REF = ''origin/main''"

definition needs_republishing ::
    "(corruption \<Rightarrow> string) \<Rightarrow> string \<Rightarrow> pending_proposal list \<Rightarrow> sync_file \<Rightarrow> bool" where
  "needs_republishing exc_text now ps f \<longleftrightarrow>
     (\<exists>p \<in> set ps. pp_state p = SUBMITTED_STATE) \<and> status (load exc_text now f) = Pending"

fun pop_recorded ::
    "string list \<Rightarrow> (string \<times> pending_proposal) list \<Rightarrow> pending_proposal list \<times> (string \<times> pending_proposal) list" where
  "pop_recorded [] d = ([], d)"
| "pop_recorded (i # is) d =
     (case map_of d i of
        None \<Rightarrow> pop_recorded is d
      | Some p \<Rightarrow> (case pop_recorded is (AList.delete i d) of (ps, d') \<Rightarrow> (p # ps, d')))"

definition the_whole_submitted_set ::
    "(corruption \<Rightarrow> string) \<Rightarrow> string \<Rightarrow> change_store \<Rightarrow> sync_file \<Rightarrow> pending_proposal list" where
  "the_whole_submitted_set exc_text now s f =
     (let submitted_now = foldl (\<lambda>d p. AList.update (pp_id p) p d) []
            (filter (\<lambda>p. pp_state p = SUBMITTED_STATE) (concat (map snd (pending_proposals s))));
          recorded = (case submission (load exc_text now f) of
                        None \<Rightarrow> []
                      | Some (PreparedSubmission i) \<Rightarrow> proposal_ids i
                      | Some (PushedSubmission i t) \<Rightarrow> proposal_ids i
                      | Some (CompletedSubmission i t u) \<Rightarrow> proposal_ids i) in
      case pop_recorded recorded submitted_now of
        (ordered, rest) \<Rightarrow> ordered @ map (\<lambda>i. the (map_of rest i)) (sort (map fst rest)))"

text \<open>\<open>path_of\<close> is the path of an artifact below the enterprise root, where it has one there.\<close>

definition refuse_a_branch_carrying_more ::
    "('g, 'x) submission_client_scheme \<Rightarrow> (string \<Rightarrow> string option) \<Rightarrow> pending_proposal list \<Rightarrow> string \<Rightarrow> 'g
      \<Rightarrow> (republication_error, unit) result" where
  "refuse_a_branch_carrying_more G path_of replayed br g =
     (case g_content_diff G g br of
        None \<Rightarrow> Err (CannotCompare br)
      | Some changed \<Rightarrow>
          let accounted = set (List.map_filter (\<lambda>p. path_of (pp_target p)) replayed);
              left_behind = sorted_list_of_set (set changed - accounted) in
          if left_behind \<noteq> [] then Err (CarriesMore br left_behind) else Ok ())"

definition republish_on_a_replacement_branch ::
    "(corruption \<Rightarrow> string) \<Rightarrow> (nat \<Rightarrow> string) \<Rightarrow> ('g, 'x) submission_client_scheme \<Rightarrow> (string \<Rightarrow> string option) \<Rightarrow> string
      \<Rightarrow> string \<Rightarrow> pending_proposal list \<Rightarrow> 'g \<Rightarrow> change_store \<Rightarrow> sync_file
      \<Rightarrow> (republication_error, submission_report) result \<times> 'g \<times> change_store \<times> sync_file" where
  "republish_on_a_replacement_branch exc_text clock G revision_of ts from_head rebased g s f =
     (case open_replacement_branch exc_text (clock 0) (git_client.truncate G) ts from_head g f of
        (Inl e, g1, f1) \<Rightarrow> (Err (NotOpened e), g1, s, f1)
      | (Inr b, g1, f1) \<Rightarrow>
     (case publish_on_the_current_branch exc_text clock G revision_of rebased g1 s f1 of
        (Inl e, g2, s2, f2) \<Rightarrow> (Err (NotPublished e), g2, s2, f2)
      | (Inr report, g2, s2, f2) \<Rightarrow>
     (case retire_superseded_branch exc_text (clock 5) (git_client.truncate G) g2 f2 of
        (Inl e, g3, f3) \<Rightarrow> (Err (NotRetired e), g3, s2, f3)
      | (Inr _, g3, f3) \<Rightarrow> (Ok report, g3, s2, f3))))"

section \<open>A rebase\<close>

record rebase_report =
  rehearsed_changes :: "classified_change list"
  restamped_ids :: "string list"
  republished_as :: "submission_report option"

fun restamp_clean ::
    "(string \<Rightarrow> string option) \<Rightarrow> string set \<Rightarrow> classified_change list \<Rightarrow> change_store
      \<Rightarrow> (lifecycle_error, string list) result \<times> change_store" where
  "restamp_clean revision_of known [] s = (Ok [], s)"
| "restamp_clean revision_of known (c # cs) s =
     (if cc_outcome c \<noteq> Clean \<or> cc_id c \<notin> known then restamp_clean revision_of known cs s
      else (case restamp_base_revision revision_of (cc_id c) (cc_target c) s of
              Inl e \<Rightarrow> (Err e, s)
            | Inr (changed, s1) \<Rightarrow>
                (case restamp_clean revision_of known cs s1 of
                   (Inl e, s2) \<Rightarrow> (Err e, s2)
                 | (Inr ids, s2) \<Rightarrow> (Ok (if changed then cc_id c # ids else ids), s2))))"

definition rebase_set ::
    "(corruption \<Rightarrow> string) \<Rightarrow> string \<Rightarrow> pending_proposal list \<Rightarrow> change_store \<Rightarrow> sync_file \<Rightarrow> pending_proposal list" where
  "rebase_set exc_text now proposals s f =
     (if needs_republishing exc_text now proposals f \<and> the_whole_submitted_set exc_text now s f \<noteq> []
      then the_whole_submitted_set exc_text now s f else proposals)"

definition published_branch :: "(corruption \<Rightarrow> string) \<Rightarrow> string \<Rightarrow> sync_file \<Rightarrow> string" where
  "published_branch exc_text now f = (case work_branch (load exc_text now f) of None \<Rightarrow> [] | Some b \<Rightarrow> b)"

definition replace_the_branch ::
    "(corruption \<Rightarrow> string) \<Rightarrow> (nat \<Rightarrow> string) \<Rightarrow> ('g, 'x) submission_client_scheme \<Rightarrow> (string \<Rightarrow> string option)
      \<Rightarrow> (string \<Rightarrow> string option) \<Rightarrow> string \<Rightarrow> string \<Rightarrow> pending_proposal list \<Rightarrow> 'g \<Rightarrow> change_store \<Rightarrow> sync_file
      \<Rightarrow> (republication_error, submission_report) result \<times> 'g \<times> change_store \<times> sync_file" where
  "replace_the_branch exc_text clock G revision_of path_of ts start_point replayed g s f =
     (case refuse_a_branch_carrying_more G path_of replayed (published_branch exc_text (clock 0) f) g of
        Inl e \<Rightarrow> (Err e, g, s, f)
      | Inr _ \<Rightarrow> republish_on_a_replacement_branch exc_text clock G revision_of ts start_point replayed g s f)"

definition conclude_rebase ::
    "(corruption \<Rightarrow> string) \<Rightarrow> (nat \<Rightarrow> string) \<Rightarrow> ('g, 'x) submission_client_scheme \<Rightarrow> (string \<Rightarrow> string option)
      \<Rightarrow> (string \<Rightarrow> string option) \<Rightarrow> string \<Rightarrow> string \<Rightarrow> bool \<Rightarrow> pending_proposal list \<Rightarrow> classified_change list
      \<Rightarrow> 'g \<Rightarrow> change_store \<Rightarrow> sync_file
      \<Rightarrow> (rebase_error, rebase_report) result \<times> 'g \<times> change_store \<times> sync_file" where
  "conclude_rebase exc_text clock G revision_of path_of ts start_point republishing ps rehearsed g s f =
     (case restamp_clean revision_of (set (map pp_id ps)) rehearsed s of
        (Inl e, s1) \<Rightarrow> (Err (NotRestamped e), g, s1, f)
      | (Inr restamped, s1) \<Rightarrow>
          let proven = set (map cc_id (with_outcome Clean rehearsed)) in
          if proven = {} \<or> \<not> republishing
          then (Ok \<lparr>rehearsed_changes = rehearsed, restamped_ids = restamped, republished_as = None\<rparr>, g, s1, f)
          else (case replace_the_branch exc_text clock G revision_of path_of ts start_point
                       (filter (\<lambda>p. pp_id p \<in> proven) ps) g s1 f of
                  (Inl e, g2, s2, f2) \<Rightarrow> (Err (NotRepublished e), g2, s2, f2)
                | (Inr report, g2, s2, f2) \<Rightarrow>
                    (Ok \<lparr>rehearsed_changes = rehearsed, restamped_ids = restamped, republished_as = Some report\<rparr>,
                     g2, s2, f2)))"

definition rebase_changes ::
    "(corruption \<Rightarrow> string) \<Rightarrow> (nat \<Rightarrow> string) \<Rightarrow> ('g, 'x) submission_client_scheme \<Rightarrow> ('g, 'w) rehearsal_client
      \<Rightarrow> (string \<Rightarrow> string option) \<Rightarrow> (string \<Rightarrow> string option) \<Rightarrow> bool \<Rightarrow> string \<Rightarrow> pending_proposal list
      \<Rightarrow> 'g \<Rightarrow> change_store \<Rightarrow> sync_file
      \<Rightarrow> (rebase_error, rebase_report) result \<times> 'g \<times> change_store \<times> sync_file" where
  "rebase_changes exc_text clock G R revision_of path_of mounted ts proposals g s f =
     (if \<not> mounted then (Err NoEnterpriseMounted, g, s, f)
      else if proposals = [] then (Ok \<lparr>rehearsed_changes = [], restamped_ids = [], republished_as = None\<rparr>, g, s, f)
      else
        let republishing = needs_republishing exc_text (clock 0) proposals f;
            ps = rebase_set exc_text (clock 0) proposals s f;
            start_point = (if republishing then UPSTREAM_REF else ''HEAD'') in
        (case open_worktree R g start_point of
           None \<Rightarrow> (Err NoWorktree, g, s, f)
         | Some w \<Rightarrow>
             conclude_rebase exc_text clock G revision_of path_of ts start_point republishing ps
               (rehearse_rebase (read_current R) (apply_edit R) (map (\<lambda>p. (pp_id p, pp_edit p)) ps) w) g s f))"

end
