(* ===== verification/Change_Reconciliation_Properties.thy ===== *)
theory Change_Reconciliation_Properties
  imports Change_Reconciliation
begin

text \<open>
  What reconciliation, republication and rebase promise of the change store, the remote and the state file.
\<close>

section \<open>The finished review branch\<close>

lemma no_pending_iff: "(\<exists>(t, ps) \<in> set (pending_proposals s). ps \<noteq> []) \<longleftrightarrow> live_changes s \<noteq> []"
proof -
  have "(\<exists>(t, ps) \<in> set (pending_proposals s). ps \<noteq> []) \<longleftrightarrow> set (concat (map snd (pending_proposals s))) \<noteq> {}"
    by (force simp: neq_Nil_conv)
  then show ?thesis unfolding pending_members by simp
qed

text \<open>
  Reconciliation takes a review branch down only when it is finished. Whenever closing what upstream carries
  leaves git or the state file in another state, it has closed a change, no live change remains in the
  repository, a branch is published, that branch holds no content upstream does not have, and the checkout
  has no unsaved work.
\<close>

theorem review_branch_goes_only_when_finished:
  assumes "close_integrated_changes exc_text now G mounted upstream g s f = (report, g', s', f')"
    and "g' \<noteq> g \<or> f' \<noteq> f"
  shows "closed_changes report \<noteq> [] \<and> live_changes s' = [] \<and> status (load exc_text now f) = Pending \<and>
    (\<exists>b. work_branch (load exc_text now f) = Some b \<and> content_is_upstream G g b) \<and> \<not> g_uncommitted G g"
proof -
  obtain retired where
    run: "retire_a_finished_review_branch exc_text now G s' g f = (retired, g', f')" and closed: "closed_changes report \<noteq> []"
    using assms by (auto simp: close_integrated_changes_def split: prod.splits if_splits)
  let ?st = "load exc_text now f"
  have none: "live_changes s' = []" and pending: "status ?st = Pending" and b: "work_branch ?st \<noteq> None"
    and up: "content_is_upstream G g (the (work_branch ?st))"
    using run assms(2) unfolding retire_a_finished_review_branch_def no_pending_iff
    by (auto simp: Let_def split: if_splits)
  have "\<not> g_uncommitted G g"
  proof
    assume "g_uncommitted G g"
    then have "abandon_enterprise_branch exc_text now (git_client.truncate G) g f = (Err UnsavedWork, g, f)"
      using pending by (simp add: abandon_enterprise_branch_def git_client.truncate_def git_client.defs)
    with run assms(2) show False by (auto simp: retire_a_finished_review_branch_def Let_def split: if_splits)
  qed
  with closed none pending b up show ?thesis by auto
qed

section \<open>A recovered submission\<close>

text \<open>Marking and restamping keep what a record is about.\<close>

definition same_subject :: "change_record \<Rightarrow> change_record \<Rightarrow> bool" where
  "same_subject r r' \<longleftrightarrow> cr_id r' = cr_id r \<and> cr_type r' = cr_type r \<and> recorded_edit r' = recorded_edit r"

lemma same_subject_trans: "\<lbrakk>list_all2 same_subject s s'; list_all2 same_subject s' s''\<rbrakk> \<Longrightarrow> list_all2 same_subject s s''"
  by (rule list_all2_trans [of same_subject same_subject]) (auto simp: same_subject_def)

lemma same_subject_refl: "list_all2 same_subject s s"
  by (simp add: list.rel_refl_strong same_subject_def)

lemma same_subject_ids: "list_all2 same_subject s s' \<Longrightarrow> ids_of s' = ids_of s"
  by (induction rule: list_all2_induct) (auto simp: same_subject_def)

lemma same_subject_get:
  assumes "list_all2 same_subject s s'" and "distinct (ids_of s)" and "get_entity s' i = Some r'"
  shows "\<exists>r. get_entity s i = Some r \<and> same_subject r r'"
proof -
  have d: "distinct (ids_of s')" using assms(1,2) same_subject_ids by metis
  then have "r' \<in> set s'" "cr_id r' = i" using assms(3) by (simp_all add: get_entity_iff)
  with assms(1) obtain r where "r \<in> set s" "same_subject r r'" by (metis in_set_conv_nth list_all2_conv_all_nth)
  with \<open>cr_id r' = i\<close> assms(2) show ?thesis by (auto simp: get_entity_iff same_subject_def)
qed

lemma record_field_same_subject:
  assumes "distinct (ids_of s)" and "get_entity s (cr_id r) = Some r" and "field \<noteq> ''recorded-edit''"
    and "record_proposal_field r field v s = Inr (changed, s')"
  shows "list_all2 same_subject s s'"
proof -
  from record_proposal_field_writes [OF assms(1,2,4)] obtain r' where
    r': "s' = write_record r' s" "r' \<in> {r, set_field field (PStr v) r}" by blast
  then have "same_subject r r'" using recorded_edit_set_field(1) [OF assms(3)] by (auto simp: same_subject_def)
  moreover have "q = r" if "q \<in> set s" "cr_id q = cr_id r" for q
    using that assms(1,2) by (metis get_entity_iff option.inject)
  ultimately show ?thesis
    using r'(1) by (auto simp: write_record_def list.rel_map same_subject_def intro!: list.rel_refl_strong)
qed

lemma mark_state_same_subject:
  assumes "distinct (ids_of s)" and "mark_proposal_state i st s = Inr (changed, s')"
  shows "list_all2 same_subject s s'"
proof -
  from assms(2) obtain r where r: "get_entity s i = Some r" "record_proposal_field r ''proposal-state'' st s = Inr (changed, s')"
    by (auto simp: mark_proposal_state_def split: if_splits option.splits)
  moreover have "cr_id r = i" using assms(1) r(1) by (simp add: get_entity_iff)
  ultimately show ?thesis using record_field_same_subject [OF assms(1) _ _ r(2)] by simp
qed

lemma restamp_same_subject:
  assumes "distinct (ids_of s)" and "restamp_base_revision revision_of i target s = Inr (changed, s')"
  shows "list_all2 same_subject s s'"
proof (cases "revision_of target = None \<or> get_entity s i = None")
  case True
  with assms(2) have "s' = s" by (auto simp: restamp_base_revision_def split: option.splits)
  then show ?thesis by (simp add: same_subject_refl)
next
  case False
  with assms(2) obtain r v where r: "get_entity s i = Some r" "record_proposal_field r ''base-revision'' v s = Inr (changed, s')"
    by (auto simp: restamp_base_revision_def split: option.splits)
  moreover have "cr_id r = i" using assms(1) r(1) by (simp add: get_entity_iff)
  ultimately show ?thesis using record_field_same_subject [OF assms(1) _ _ r(2)] by simp
qed

lemma mark_submitted_same_subject:
  assumes "distinct (ids_of s)" and "mark_submitted by_id revision_of is s = Inr (marked, s')"
  shows "list_all2 same_subject s s'"
  using assms
proof (induction "is" arbitrary: s marked)
  case Nil
  then show ?case by (simp add: same_subject_refl)
next
  case (Cons i ids)
  show ?case
  proof (cases "by_id i")
    case None
    with Cons show ?thesis by simp
  next
    case (Some p)
    with Cons.prems(2) obtain changed s1 stamped s2 marked' where steps:
      "(case get_entity s i of None \<Rightarrow> Ok (False, s) | Some _ \<Rightarrow> mark_proposal_state i SUBMITTED_STATE s) = Inr (changed, s1)"
      "restamp_base_revision revision_of i (pp_target p) s1 = Inr (stamped, s2)"
      "mark_submitted by_id revision_of ids s2 = Inr (marked', s')"
      by (auto simp: bind_result_eq_Inr)
    have one: "list_all2 same_subject s s1"
      using steps(1) mark_state_same_subject [OF Cons.prems(1)] by (auto simp: same_subject_refl split: option.splits)
    have d1: "distinct (ids_of s1)" using Cons.prems(1) same_subject_ids [OF one] by simp
    have two: "list_all2 same_subject s1 s2" by (rule restamp_same_subject [OF d1 steps(2)])
    have d2: "distinct (ids_of s2)" using d1 same_subject_ids [OF two] by simp
    from Cons.IH [OF d2 steps(3)] one two show ?thesis using same_subject_trans by blast
  qed
qed

lemma load_persist_phase_all:
  assumes "submission_ok phase"
  shows "load exc_text later (persist_phase exc_text now phase f) =
    replace_submission (Some phase) (status (load exc_text now f)) (load exc_text now f)"
proof -
  let ?st = "load exc_text now f"
  let ?m = "replace_submission (Some phase) (status ?st)"
  have ok: "state_ok (?m ?st)" using assms load_ok [of exc_text now f] by (auto simp: state_ok_def replace_submission_def)
  have eq: "persist_phase exc_text now phase f = persist ?st (?m ?st) f"
    by (simp add: persist_phase_def transition_def Let_def)
  show ?thesis
  proof (cases "?m ?st = ?st")
    case True
    then have "submission (?m ?st) = submission ?st" by (rule arg_cong)
    then have "submission ?st = Some phase" by (simp add: replace_submission_def)
    from load_with_submission [OF this, of later] True eq show ?thesis by simp
  next
    case False
    with ok eq show ?thesis by (simp add: load_persisted)
  qed
qed

lemma sweep_closes_nothing:
  assumes "\<forall>r \<in> set rs. \<forall>e. recorded_edit r = Some e \<longrightarrow>
      \<not> integrated (integration_verdict_for e (current_values_of (target_of (py_strip (edit_artifact e)))))"
  shows "closed_changes (fst (sweep_integrated_changes target_of rs report s)) = closed_changes report"
  using assms by (induction rs arbitrary: report) (auto simp: Let_def split: option.split)

lemma sweep_submitted_closes_nothing:
  assumes "\<forall>r \<in> set s. \<forall>e. recorded_edit r = Some e \<longrightarrow>
      \<not> integrated (integration_verdict_for e (current_values_of (target_of (py_strip (edit_artifact e)))))"
  shows "closed_changes (fst (sweep_submitted mounted (Some target_of) branch_pending s)) = []"
proof -
  obtain report s' where run: "sweep_integrated_changes target_of (sweepable s) empty_report s = (report, s')" by (metis surj_pair)
  have "\<forall>r \<in> set (sweepable s). \<forall>e. recorded_edit r = Some e \<longrightarrow>
      \<not> integrated (integration_verdict_for e (current_values_of (target_of (py_strip (edit_artifact e)))))"
    using assms by (auto simp: sweepable_def)
  from sweep_closes_nothing [OF this, of empty_report s] run have "closed_changes report = []"
    by (simp add: empty_report_def)
  with run show ?thesis
    by (auto simp: sweep_submitted_def return_stranded_changes_to_draft_def empty_report_def split: prod.split)
qed

text \<open>
  A starting backend finishes a submission that was pushed but not recorded, and then undoes half of it. Take a
  crash between the push and its record: the state file says prepared, the remote holds the expected commit,
  the named changes are live, and upstream carries none of the recorded edits, all of which name an artifact. After the startup reconciliation the
  submission is on record as completed and its branch still stands on the remote; but the named changes
  read submitted only if the branch was already recorded as published before the crash. Otherwise, which is
  how the first submission on a branch crashes, the integration sweep takes them for stranded and
  returns them to draft.
\<close>

theorem startup_returns_a_recovered_submission_to_draft:
  assumes "distinct (map cr_id s)" and "\<forall>k. \<not> blank (clock k)"
    and "submission (load exc_text (clock 0) f) = Some (PreparedSubmission i)"
    and "g_remote G g (branch i) = Ref (Some (expected_commit i))"
    and "set (proposal_ids i) \<subseteq> pp_id ` set (live_changes s)"
    and "\<forall>r \<in> set s. \<forall>e. recorded_edit r = Some e \<longrightarrow>
      \<not> integrated (integration_verdict_for e (current_values_of (up (py_strip (edit_artifact e)))))"
    and "\<forall>r \<in> set s. \<forall>e. recorded_edit r = Some e \<longrightarrow> \<not> blank (edit_artifact e)"
  shows "\<exists>s' f'. startup_reconciliation exc_text clock G revision_of True (Some up) g s f = (g, s', f') \<and>
    submission (load exc_text later f') = Some (CompletedSubmission i (clock 0) (clock 1)) \<and>
    (\<forall>j \<in> set (proposal_ids i). \<exists>r. get_entity s' j = Some r \<and>
      state_of_change r = (if status (load exc_text (clock 0) f) = Pending then ''submitted'' else ''draft''))"
proof -
  let ?st = "load exc_text (clock 0) f"
  have ok: "intent_ok i"
    using load_ok [of exc_text "clock 0" f] assms(3) by (auto simp: state_ok_def submission_ok_def)
  have t: "\<not> blank (clock 0)" "\<not> blank (clock 1)" using assms(2) by simp_all
  let ?f1 = "persist_phase exc_text (clock 0) (pushed i (clock 0)) f"
  have f1: "settle_submissions_in_flight exc_text (clock 0) (g_remote G g) True f = ?f1"
    using assms(3,4) by (simp add: settle_submissions_in_flight_def reconcile_submission_def resolve_prepared_def)
  have load1: "load exc_text t ?f1 = replace_submission (Some (pushed i (clock 0))) (status ?st) ?st" for t
    by (rule load_persist_phase_all [OF phases_ok(1) [OF ok t(1)]])
  have dist: "distinct (proposal_ids i)" using ok by (simp add: intent_ok_def)
  from mark_published_total [OF assms(1) dist] obtain marked s1 where
    marked: "mark_published revision_of (proposal_ids i) s = Inr (marked, s1)" by (metis surj_pair)
  let ?f2 = "persist_phase exc_text (clock 1) (submitted i (clock 0) (clock 1)) ?f1"
  have finish: "finish_a_submission_left_unmarked exc_text (clock 1) revision_of True s ?f1 = (s1, ?f2)"
    using marked load1 by (simp add: finish_a_submission_left_unmarked_def complete_submission_def record_submitted_def
        replace_submission_def pushed_def)
  have load2: "load exc_text t ?f2 = replace_submission (Some (submitted i (clock 0) (clock 1))) (status ?st)
      (replace_submission (Some (pushed i (clock 0))) (status ?st) ?st)" for t
    using load_persist_phase_all [OF phases_ok(2) [OF ok t], of exc_text t "clock 1" ?f1] load1 [of "clock 1"]
    by (simp add: replace_submission_def)
  note eff = publish_effect [OF assms(1) dist marked]
  have subj: "list_all2 same_subject s s1"
    using mark_submitted_same_subject [OF assms(1)] marked unfolding mark_published_def by blast
  have d1: "distinct (ids_of s1)" using assms(1) same_subject_ids [OF subj] by simp
  let ?bp = "status ?st = Pending"
  obtain report s2 where sweep: "sweep_submitted True (Some up) ?bp s1 = (report, s2)" by (metis surj_pair)
  have none: "\<forall>r \<in> set s1. \<forall>e. recorded_edit r = Some e \<longrightarrow>
      \<not> integrated (integration_verdict_for e (current_values_of (up (py_strip (edit_artifact e)))))"
  proof (intro ballI allI impI)
    fix r e assume r: "r \<in> set s1" "recorded_edit r = Some e"
    from same_subject_get [OF subj assms(1), of "cr_id r" r] r(1) d1 obtain q where "get_entity s (cr_id r) = Some q" "same_subject q r"
      by (auto simp: get_entity_iff)
    with r(2) have "q \<in> set s" "recorded_edit q = Some e" using assms(1) by (auto simp: get_entity_iff same_subject_def)
    with assms(6) show "\<not> integrated (integration_verdict_for e (current_values_of (up (py_strip (edit_artifact e)))))" by blast
  qed
  have "closed_changes report = []" using sweep_submitted_closes_nothing [OF none, of True ?bp] sweep by simp
  then have run: "startup_reconciliation exc_text clock G revision_of True (Some up) g s f = (g, s2, ?f2)"
    using f1 finish load2 sweep
    by (simp add: startup_reconciliation_def close_changes_already_integrated_def close_integrated_changes_def
        replace_submission_def)
  have "\<exists>r. get_entity s2 j = Some r \<and> state_of_change r = (if ?bp then ''submitted'' else ''draft'')"
    if j: "j \<in> set (proposal_ids i)" for j
  proof -
    from j assms(5) obtain p where p: "p \<in> set (live_changes s)" "pp_id p = j" by blast
    with eff j obtain r1 where r1: "get_entity s1 j = Some r1" "state_of_change r1 = ''submitted''" by blast
    from live_change_record [OF p(1)] p(2) obtain r where r: "r \<in> set s" "cr_id r = j" "live_target r \<noteq> None" by auto
    from same_subject_get [OF subj assms(1) r1(1)] r(1,2) have rr: "same_subject r r1"
      using assms(1) by (metis get_entity_iff option.inject)
    obtain e where e: "recorded_edit r = Some e" "cr_type r = PROPOSED_CHANGE_TYPE"
      using r(3) by (auto simp: live_target_eq split: if_splits)
    have nb: "\<not> blank (edit_artifact e)" using assms(7) r(1) e(1) by blast
    have facts: "cr_type r1 = PROPOSED_CHANGE_TYPE" "recorded_edit r1 = Some e" "r1 \<in> set s1" "cr_id r1 = j"
      using rr e r1(1) d1 by (auto simp: same_subject_def get_entity_iff)
    from conjunct2 [OF sweep_result [OF d1 sweep]] facts(3,4) obtain r2 where
      r2: "get_entity s2 j = Some r2" "state_of_change r2 = swept_state up ?bp r1" by blast
    have "swept_state up ?bp r1 = (if ?bp then ''submitted'' else ''draft'')"
      using facts none nb r1(2) by (simp add: swept_state_def swept_of_def Let_def SUBMITTED_STATE_def)
    with r2 show ?thesis by simp
  qed
  with run load2 show ?thesis by (simp add: replace_submission_def submitted_def)
qed

section \<open>Republication\<close>

text \<open>
  What is relied on of the commands a replay and a push run: only a push and a deletion change refs of the
  remote, each only the one named; and only a checkout moves the head, to the branch it names.
\<close>

definition refs_documented :: "('g, 'x) submission_client_scheme \<Rightarrow> bool" where
  "refs_documented G \<longleftrightarrow>
     (\<forall>g. g_remote G (g_begin G g) = g_remote G g \<and> g_head G (g_begin G g) = g_head G g) \<and>
     (\<forall>e g. g_remote G (snd (g_apply G e g)) = g_remote G g \<and> g_head G (snd (g_apply G e g)) = g_head G g) \<and>
     (\<forall>g0 g. g_remote G (g_abort G g0 g) = g_remote G g \<and> g_head G (g_abort G g0 g) = g_head G g) \<and>
     (\<forall>g0 g. g_remote G (g_release G g0 g) = g_remote G g \<and> g_head G (g_release G g0 g) = g_head G g) \<and>
     (\<forall>g. g_remote G (snd (g_stage G g)) = g_remote G g \<and> g_head G (snd (g_stage G g)) = g_head G g) \<and>
     (\<forall>g. g_remote G (snd (g_commit_staged G g)) = g_remote G g \<and> g_head G (snd (g_commit_staged G g)) = g_head G g) \<and>
     (\<forall>b c g. c \<noteq> b \<longrightarrow> g_remote G (snd (g_push G b g)) c = g_remote G g c) \<and>
     (\<forall>b c g. c \<noteq> b \<longrightarrow> g_remote G (snd (g_delete_remote G b g)) c = g_remote G g c) \<and>
     (\<forall>b from g g'. g_checkout_new G b from g = (True, g') \<longrightarrow> g_head G g' = Some b)"

abbreviation same_refs :: "('g, 'x) submission_client_scheme \<Rightarrow> 'g \<Rightarrow> 'g \<Rightarrow> bool" where
  "same_refs G g g' \<equiv> g_remote G g' = g_remote G g \<and> g_head G g' = g_head G g"

lemma refs_documentedD:
  assumes "refs_documented G"
  shows "same_refs G g (g_begin G g)" "same_refs G g (snd (g_apply G e g))" "same_refs G g (g_abort G g0 g)"
    "same_refs G g (g_release G g0 g)" "same_refs G g (snd (g_stage G g))" "same_refs G g (snd (g_commit_staged G g))"
    "c \<noteq> b \<Longrightarrow> g_remote G (snd (g_push G b g)) c = g_remote G g c"
    "c \<noteq> b \<Longrightarrow> g_remote G (snd (g_delete_remote G b g)) c = g_remote G g c"
    "g_checkout_new G b from g = (True, g') \<Longrightarrow> g_head G g' = Some b"
  using assms by (simp_all add: refs_documented_def)

lemma apply_edits_refs: "refs_documented G \<Longrightarrow> apply_edits G ps g = (res, g') \<Longrightarrow> same_refs G g g'"
proof (induction ps arbitrary: g)
  case (Cons p ps)
  obtain ok g1 where ap: "g_apply G (pp_edit p) g = (ok, g1)" by (metis surj_pair)
  have one: "same_refs G g g1" using refs_documentedD(2) [OF Cons.prems(1), where g = g and e = "pp_edit p"] ap by simp
  show ?case
  proof (cases ok)
    case True
    with Cons.prems ap have "apply_edits G ps g1 = (res, g')" by simp
    from Cons.IH [OF Cons.prems(1) this] one show ?thesis by simp
  next
    case False
    with Cons.prems ap one show ?thesis by auto
  qed
qed auto

lemma replay_refs:
  assumes "refs_documented G" and "replay_onto_enterprise G ps g = (res, g')"
  shows "same_refs G g g'"
proof -
  obtain r1 g1 where ap: "apply_edits G ps (g_begin G g) = (r1, g1)" by (metis surj_pair)
  have one: "same_refs G g g1" using apply_edits_refs [OF assms(1) ap] refs_documentedD(1) [OF assms(1), of g] by simp
  have "g' = g_abort G (g_begin G g) g1 \<or> g' = g_release G (g_begin G g) g1"
    using assms(2) ap by (auto simp: replay_onto_enterprise_def Let_def split: sum.splits)
  then show ?thesis using one refs_documentedD(3,4) [OF assms(1), where g = g1 and ?g0.0 = "g_begin G g"] by auto
qed

lemma commit_refs:
  assumes "refs_documented G" and "commit_the_replay G g = (res, g')"
  shows "same_refs G g g'"
proof -
  obtain b1 g1 where st: "g_stage G g = (b1, g1)" by (metis surj_pair)
  obtain b2 g2 where co: "g_commit_staged G g1 = (b2, g2)" by (metis surj_pair)
  have one: "same_refs G g g1" "same_refs G g g2"
    using refs_documentedD(5) [OF assms(1), of g] refs_documentedD(6) [OF assms(1), of g1] st co by simp_all
  have "g' = g \<or> g' = g1 \<or> g' = g2"
    using assms(2) st co
    by (auto simp: commit_the_replay_def commit_enterprise_work_def split: prod.splits sum.splits if_splits bool.splits)
  with one show ?thesis by auto
qed

lemma prepare_on_head:
  "prepare_submission exc_text now head uncommitted commit ids f = Inr (i, f1) \<Longrightarrow>
     head = Some (branch i) \<and> f1 = persist_phase exc_text now (PreparedSubmission i) f"
  by (auto simp: prepare_submission_def submission_preflight_def bind_result_eq_Inr mk_intent_iff
      split: if_splits sum.splits option.splits)

lemma publish_with_refs:
  assumes "refs_documented G" and "publish_with exc_text now G i g f = (res, g', f')" and "c \<noteq> branch i"
  shows "g_remote G g' c = g_remote G g c"
proof -
  have "g_remote G (snd (g_push G (branch i) g)) c = g_remote G g c"
    using refs_documentedD(7) [OF assms(1,3)] .
  then show ?thesis using assms(2) by (auto simp: publish_with_def Let_def split: prod.splits if_splits)
qed

lemma publish_with_file:
  assumes "publish_with exc_text now G i g f = (res, g', f')"
  shows "f' = f \<or> f' = persist_phase exc_text now (pushed i now) f"
proof (cases res)
  case (Inl e)
  with assms show ?thesis
    by (auto simp: publish_with_def Let_def split: prod.splits dest!: publish_result)
next
  case (Inr out)
  with publish_with_done [of exc_text now G i g f] assms show ?thesis by blast
qed

lemma publish_on_branch_refs:
  assumes "refs_documented G" and "g_head G g = Some b" and "c \<noteq> b"
    and "publish_on_the_current_branch exc_text clock G revision_of ps g s f = (res, g', s', f')"
  shows "g_remote G g' c = g_remote G g c"
proof -
  obtain r1 g1 where r1: "replay_onto_enterprise G ps g = (r1, g1)" by (metis surj_pair)
  obtain r2 g2 where r2: "commit_the_replay G g1 = (r2, g2)" by (metis surj_pair)
  have refs: "same_refs G g g1" "same_refs G g g2"
    using replay_refs [OF assms(1) r1] commit_refs [OF assms(1) r2] by simp_all
  consider "g' = g1" | "g' = g2" |
    i f1 res' f2 where "prepare_submission exc_text (clock 1) (g_head G g2) (g_uncommitted G g2) (g_commit G g2) (map pp_id ps) f = Inr (i, f1)"
      "publish_with exc_text (clock 2) G i g2 f1 = (res', g', f2)"
    using assms(4) r1 r2 by (auto simp: publish_on_the_current_branch_def split: prod.splits sum.splits)
  then show ?thesis
  proof cases
    case 3
    have "branch i = b" using prepare_on_head [OF 3(1)] refs assms(2) by simp
    with publish_with_refs [OF assms(1) 3(2), of c] assms(3) refs show ?thesis by simp
  qed (use refs in auto)
qed

lemma superseded_any_time: "superseded_branch (load exc_text t f) = superseded_branch (load exc_text t' f)"
  by (auto simp: load_def corrupt_def split: sync_file.splits pyval.splits sum.splits)

lemma superseded_persist_phase:
  "submission_ok phase \<Longrightarrow>
     superseded_branch (load exc_text t (persist_phase exc_text now phase f)) = superseded_branch (load exc_text t' f)"
  using superseded_any_time [of exc_text now f t'] by (simp add: load_persist_phase_all replace_submission_def)

lemma publish_on_branch_superseded:
  assumes "\<forall>k. \<not> blank (clock k)"
    and "publish_on_the_current_branch exc_text clock G revision_of ps g s f = (Inr rep, g', s', f')"
  shows "superseded_branch (load exc_text t f') = superseded_branch (load exc_text t' f)"
proof -
  from assms(2) obtain u g1 c g2 i f1 out f2 marked f3 where steps:
    "prepare_submission exc_text (clock 1) (g_head G g2) (g_uncommitted G g2) (g_commit G g2) (map pp_id ps) f = Inr (i, f1)"
    "publish_with exc_text (clock 2) G i g2 f1 = (Inr out, g', f2)"
    "complete_submission exc_text (clock 3) revision_of s f2 = Inr (marked, s', f3)"
    "f' = record_published exc_text (clock 4) (outcome_branch out) (outcome_commit out) f3"
    by (auto simp: publish_on_the_current_branch_def split: prod.splits sum.splits)
  have ok: "intent_ok i" using prepare_done [OF steps(1)] by simp
  have nb: "\<not> blank (clock 2)" "\<not> blank (clock 3)" using assms(1) by simp_all
  have f1: "f1 = persist_phase exc_text (clock 1) (PreparedSubmission i) f" using prepare_on_head [OF steps(1)] by simp
  have f2: "f2 = persist_phase exc_text (clock 2) (pushed i (clock 2)) f1" using publish_with_done [OF steps(2)] by simp
  have "submission (load exc_text (clock 3) f2) = Some (PushedSubmission i (clock 2))"
    using load_persist_phase [OF phases_ok(1) [OF ok nb(1)]] f2 by (simp add: pushed_def)
  with steps(3) have f3: "f3 = persist_phase exc_text (clock 3) (submitted i (clock 2) (clock 3)) f2"
    by (auto simp: complete_submission_def bind_result_eq_Inr record_submitted_def)
  have "submission (load exc_text (clock 4) f3) = Some (submitted i (clock 2) (clock 3))"
    using load_persist_phase [OF phases_ok(2) [OF ok nb]] f3 by simp
  from record_published_done [OF this, of t "outcome_branch out" "outcome_commit out"] steps(4)
  have "superseded_branch (load exc_text t f') = superseded_branch (load exc_text (clock 4) f3)" by simp
  also have "\<dots> = superseded_branch (load exc_text t' f)"
    using superseded_persist_phase [OF phases_ok(2) [OF ok nb]] superseded_persist_phase [OF phases_ok(1) [OF ok nb(1)]]
      superseded_persist_phase [OF phases_ok(3) [OF ok]] f1 f2 f3 by metis
  finally show ?thesis .
qed

lemma truncate_reads [simp]:
  "g_remote (git_client.truncate G) = g_remote G" "g_local (git_client.truncate G) = g_local G"
  "g_checkout_new (git_client.truncate G) = g_checkout_new G" "g_delete_remote (git_client.truncate G) = g_delete_remote G"
  "g_delete_local (git_client.truncate G) = g_delete_local G"
  by (simp_all add: git_client.truncate_def git_client.defs)

lemma retire_other_refs:
  assumes "refs_documented G" and "git_documented (git_client.truncate G)"
    and "retire_superseded_branch exc_text now (git_client.truncate G) g f = (Inr old, g', f')"
    and "superseded_branch (load exc_text now f) = Some w" and "c \<noteq> w"
  shows "g_remote G g' c = g_remote G g c"
proof -
  from assms(3,4) obtain g1 u1 u2 where steps: "drop_remote_ref (git_client.truncate G) w g = (Inr u1, g1)"
    "drop_local_ref (git_client.truncate G) w g1 = (Inr u2, g')"
    by (auto simp: retire_superseded_branch_def Let_def split: if_splits prod.splits sum.splits)
  have "g1 = g \<or> g1 = snd (g_delete_remote G w g)"
    using steps(1) by (auto simp: drop_remote_ref_def split: remote_reply.splits option.splits prod.splits bool.splits)
  then have "g_remote G g1 c = g_remote G g c" using refs_documentedD(8) [OF assms(1,5), of g] by auto
  moreover have "g_remote G g' = g_remote G g1" using drop_local_done [OF assms(2) steps(2)] by simp
  ultimately show ?thesis by simp
qed

text \<open>
  Claim C28. A reviewer never loses the branch under review to a replacement that did not arrive. Whatever fails while the
  replacement is opened, replayed, committed or pushed, the reviewed branch keeps its ref on the remote; once
  the replacement is published, the reviewed branch is deleted from the remote or stays on record as to be
  retired; and success means that the replacement, another branch, stands on the remote at the reported commit and
  the reviewed one is gone.
\<close>

theorem reviewed_branch_outlives_a_failed_replacement:
  assumes "git_documented (git_client.truncate G)" and "refs_documented G" and "\<forall>k. \<not> blank (clock k)"
    and "work_branch (load exc_text (clock 0) f) = Some w" and "ref_taken (git_client.truncate G) g w"
    and "republish_on_a_replacement_branch exc_text clock G revision_of ts from_head rebased g s f = (res, g', s', f')"
  shows "(\<forall>e. res = Err (NotOpened e) \<longrightarrow> g_remote G g' w = g_remote G g w) \<and>
    (\<forall>e. res = Err (NotPublished e) \<longrightarrow> g_remote G g' w = g_remote G g w) \<and>
    (\<forall>e. res = Err (NotRetired e) \<longrightarrow> superseded_branch (load exc_text later f') = Some w) \<and>
    (\<forall>rep. res = Ok rep \<longrightarrow> rep_branch rep \<noteq> w \<and> g_remote G g' w = Ref None \<and>
       g_remote G g' (rep_branch rep) = Ref (Some (rep_commit rep)))"
proof -
  let ?T = "git_client.truncate G"
  obtain r1 g1 f1 where op: "open_replacement_branch exc_text (clock 0) ?T ts from_head g f = (r1, g1, f1)" by (metis prod_cases3)
  show ?thesis
  proof (cases r1)
    case (Inl e)
    have "g1 = g \<or> (\<exists>b. g1 = snd (g_checkout_new G b (Some from_head) g))"
      using op Inl by (auto simp: open_replacement_branch_def Let_def split: if_splits option.splits prod.splits bool.splits)
        (metis snd_conv)
    moreover have "g_remote G (snd (g_checkout_new G b (Some from_head) g)) = g_remote G g" for b
      using assms(1) by (simp add: git_documented_def)
    ultimately show ?thesis using assms(6) op Inl by (auto simp: republish_on_a_replacement_branch_def)
  next
    case (Inr b)
    have opened: "g_checkout_new G b (Some from_head) g = (True, g1)" "\<not> ref_taken ?T g b"
      "superseded_branch (load exc_text t f1) = Some w" for t
      using open_replacement_done [OF op] Inr assms(4) by (simp_all add: Let_def)
    have bw: "b \<noteq> w" using opened(2) assms(5) by auto
    have "g_remote G (snd (g_checkout_new G b (Some from_head) g)) = g_remote G g"
      using assms(1) by (simp add: git_documented_def)
    then have remote1: "g_remote G g1 = g_remote G g" using opened(1) by simp
    have head1: "g_head G g1 = Some b" by (rule refs_documentedD(9) [OF assms(2) opened(1)])
    obtain r2 g2 s2 f2 where pub: "publish_on_the_current_branch exc_text clock G revision_of rebased g1 s f1 = (r2, g2, s2, f2)"
      by (metis prod_cases4)
    have remote2: "g_remote G g2 w = g_remote G g w"
      using publish_on_branch_refs [OF assms(2) head1 _ pub, of w] bw remote1 by simp
    show ?thesis
    proof (cases r2)
      case (Inl e)
      with assms(6) op Inr pub remote2 show ?thesis by (auto simp: republish_on_a_replacement_branch_def)
    next
      case rep: (Inr rep)
      obtain r3 g3 f3 where ret: "retire_superseded_branch exc_text (clock 5) ?T g2 f2 = (r3, g3, f3)" by (metis prod_cases3)
      have sup: "superseded_branch (load exc_text t f2) = Some w" for t
        using publish_on_branch_superseded [OF assms(3)] pub rep opened(3) by metis
      obtain i :: submission_intent where i: "rep_branch rep = branch i" "rep_commit rep = expected_commit i"
        "g_remote G g2 (branch i) = Ref (Some (expected_commit i))" "work_branch (load exc_text (clock 5) f2) = Some (branch i)"
        by (rule publish_on_branch_done [OF pub [unfolded rep] assms(3)]) (rule that)
      have "rep_branch rep \<noteq> w \<and> g_remote G g3 w = Ref None \<and> g_remote G g3 (rep_branch rep) = Ref (Some (rep_commit rep))"
        if r3: "r3 = Inr old" for old
      proof -
        have "branch i \<noteq> w" using ret r3 sup i(4) by (auto simp: retire_superseded_branch_def Let_def split: if_splits)
        moreover have "g_remote G g3 w = Ref None"
          using retire_superseded_done [OF assms(1) ret] r3 sup by simp
        ultimately show ?thesis
          using retire_other_refs [OF assms(2,1) ret [unfolded r3] sup, of "branch i"] i by simp
      qed
      moreover have "r3 = Inl e \<Longrightarrow> f3 = f2" for e using retire_superseded_done [OF assms(1) ret] by simp
      ultimately show ?thesis
        using assms(6) op Inr pub rep ret sup by (cases r3) (auto simp: republish_on_a_replacement_branch_def)
    qed
  qed
qed

section \<open>A rebase\<close>

lemma restamp_other:
  assumes "restamp_base_revision revision_of i target s = Inr (changed, s')" and "j \<noteq> i"
  shows "get_entity s' j = get_entity s j"
proof (cases "get_entity s i")
  case None
  with assms(1) show ?thesis by (auto simp: restamp_base_revision_def split: option.splits)
next
  case (Some r)
  then have "cr_id r = i" by (auto simp: get_entity_def find_Some_iff)
  with Some assms show ?thesis
    by (auto simp: restamp_base_revision_def record_proposal_field_def write_record_get split: option.splits if_splits)
qed

lemma restamp_clean_effect:
  assumes "distinct (ids_of s)" and "restamp_clean revision_of known cs s = (res, s')"
  shows "list_all2 same_subject s s' \<and>
    (\<forall>j. j \<notin> cc_id ` set (with_outcome Clean cs) \<longrightarrow> get_entity s' j = get_entity s j) \<and>
    (\<forall>ids. res = Inr ids \<longrightarrow> set ids \<subseteq> cc_id ` set (with_outcome Clean cs))"
  using assms
proof (induction cs arbitrary: s s' res)
  case Nil
  then show ?case by (auto simp: same_subject_refl)
next
  case (Cons c cs)
  show ?case
  proof (cases "cc_outcome c \<noteq> Clean \<or> cc_id c \<notin> known")
    case True
    with Cons.prems(2) have "restamp_clean revision_of known cs s = (res, s')" by (simp split: if_splits)
    from Cons.IH [OF Cons.prems(1) this] show ?thesis by (auto simp: with_outcome_def)
  next
    case False
    then have clean: "cc_outcome c = Clean" "cc_id c \<in> known" by simp_all
    show ?thesis
    proof (cases "restamp_base_revision revision_of (cc_id c) (cc_target c) s")
      case (Inl e)
      with Cons.prems(2) clean show ?thesis by (auto simp: same_subject_refl)
    next
      case (Inr pair)
      then obtain changed s1 where r: "restamp_base_revision revision_of (cc_id c) (cc_target c) s = Inr (changed, s1)"
        by (cases pair) simp
      obtain r2 s2 where call: "restamp_clean revision_of known cs s1 = (r2, s2)" by (metis surj_pair)
      have one: "list_all2 same_subject s s1" by (rule restamp_same_subject [OF Cons.prems(1) r])
      have d1: "distinct (ids_of s1)" using Cons.prems(1) same_subject_ids [OF one] by simp
      note IH = Cons.IH [OF d1 call]
      have s2: "s2 = s'" and res: "\<And>ids. res = Inr ids \<Longrightarrow> \<exists>ids'. r2 = Inr ids' \<and> set ids \<subseteq> insert (cc_id c) (set ids')"
        using Cons.prems(2) clean r call by (auto split: sum.splits if_splits)
      have "get_entity s' j = get_entity s j" if "j \<notin> cc_id ` set (with_outcome Clean (c # cs))" for j
        using that IH s2 clean(1) restamp_other [OF r, of j] by (simp add: with_outcome_def)
      moreover have "set ids \<subseteq> cc_id ` set (with_outcome Clean (c # cs))" if r_ids: "res = Inr ids" for ids
      proof -
        from res [OF r_ids] obtain ids' where "r2 = Inr ids'" "set ids \<subseteq> insert (cc_id c) (set ids')" by blast
        moreover from this(1) IH have "set ids' \<subseteq> cc_id ` set (with_outcome Clean cs)" by blast
        ultimately show ?thesis using clean(1) by (auto simp: with_outcome_def)
      qed
      ultimately show ?thesis using IH s2 same_subject_trans [OF one] by blast
    qed
  qed
qed

lemma carries_no_more:
  assumes "refuse_a_branch_carrying_more G path_of replayed br g = Inr u"
  shows "\<exists>changed. g_content_diff G g br = Some changed \<and> Some ` set changed \<subseteq> (\<lambda>p. path_of (pp_target p)) ` set replayed"
proof -
  let ?accounted = "set (List.map_filter (\<lambda>p. path_of (pp_target p)) replayed)"
  from assms obtain changed where c: "g_content_diff G g br = Some changed" "sorted_list_of_set (set changed - ?accounted) = []"
    by (auto simp: refuse_a_branch_carrying_more_def Let_def split: option.splits if_splits)
  then have "set changed \<subseteq> ?accounted" by simp
  then have "Some ` set changed \<subseteq> Some ` ?accounted" by (rule image_mono)
  also have "\<dots> \<subseteq> (\<lambda>p. path_of (pp_target p)) ` set replayed" by (force simp: set_map_filter)
  finally show ?thesis using c(1) by blast
qed

lemma republish_store:
  assumes "distinct (ids_of s)" and "\<forall>k. \<not> blank (clock k)"
    and "republish_on_a_replacement_branch exc_text clock G revision_of ts from_head ps g s f = (Inr rep, g', s', f')"
  shows "list_all2 same_subject s s' \<and> rep_submitted rep = map pp_id ps \<and>
    (\<forall>j. j \<notin> pp_id ` set ps \<longrightarrow> get_entity s' j = get_entity s j)"
proof -
  from assms(3) obtain b g1 f1 g2 f2 where
    pub: "publish_on_the_current_branch exc_text clock G revision_of ps g1 s f1 = (Inr rep, g2, s', f2)"
    by (auto simp: republish_on_a_replacement_branch_def split: prod.splits sum.splits)
  obtain i marked where i: "intent_ok i" "proposal_ids i = map pp_id ps" "rep_submitted rep = map pp_id ps"
    "mark_published revision_of (map pp_id ps) s = Inr (marked, s')"
    by (rule publish_on_branch_done [OF pub assms(2)]) (use that in blast)
  have "distinct (map pp_id ps)" using i(1,2) by (simp add: intent_ok_def)
  from publish_effect [OF assms(1) this i(4)] i(3) show ?thesis
    using mark_submitted_same_subject [OF assms(1)] i(4) unfolding mark_published_def by auto
qed

lemma conclude_rebase_effect:
  assumes "distinct (ids_of s)" and "\<forall>k. \<not> blank (clock k)"
    and "conclude_rebase exc_text clock G revision_of path_of ts start_point republishing ps rehearsed g s f = (Inr report, g', s', f')"
  defines "clean \<equiv> cc_id ` set (with_outcome Clean rehearsed)"
  shows "rehearsed_changes report = rehearsed \<and>
    (\<forall>j. j \<notin> clean \<longrightarrow> get_entity s' j = get_entity s j) \<and> list_all2 same_subject s s' \<and>
    set (restamped_ids report) \<subseteq> clean \<and>
    (case republished_as report of
       None \<Rightarrow> g' = g \<and> f' = f
     | Some rep \<Rightarrow> set (rep_submitted rep) \<subseteq> clean \<and>
         (\<exists>changed (replayed :: pending_proposal list). map pp_id replayed = rep_submitted rep \<and>
            g_content_diff G g (published_branch exc_text (clock 0) f) = Some changed \<and>
            Some ` set changed \<subseteq> (\<lambda>p. path_of (pp_target p)) ` set replayed))"
proof -
  obtain r1 s1 where re: "restamp_clean revision_of (set (map pp_id ps)) rehearsed s = (r1, s1)" by (metis surj_pair)
  obtain ids where ids: "r1 = Inr ids" using assms(3) re by (cases r1) (auto simp: conclude_rebase_def)
  note eff = restamp_clean_effect [OF assms(1) re, folded clean_def]
  have d1: "distinct (ids_of s1)" using assms(1) same_subject_ids [of s s1] eff by simp
  let ?proven = "set (map cc_id (with_outcome Clean rehearsed))"
  let ?replayed = "filter (\<lambda>p. pp_id p \<in> ?proven) ps"
  have proven: "?proven = clean" by (simp add: clean_def)
  show ?thesis
  proof (cases "?proven = {} \<or> \<not> republishing")
    case True
    with assms(3) re ids have "report = \<lparr>rehearsed_changes = rehearsed, restamped_ids = ids, republished_as = None\<rparr>"
      "g' = g" "s' = s1" "f' = f" by (simp_all add: conclude_rebase_def)
    with eff ids show ?thesis by simp
  next
    case False
    with assms(3) re ids obtain rep where rep:
      "replace_the_branch exc_text clock G revision_of path_of ts start_point ?replayed g s1 f = (Inr rep, g', s', f')"
      "report = \<lparr>rehearsed_changes = rehearsed, restamped_ids = ids, republished_as = Some rep\<rparr>"
      unfolding conclude_rebase_def by (simp add: Let_def split: sum.splits prod.splits)
    from rep(1) obtain u where "refuse_a_branch_carrying_more G path_of ?replayed (published_branch exc_text (clock 0) f) g = Inr u"
      and pub: "republish_on_a_replacement_branch exc_text clock G revision_of ts start_point ?replayed g s1 f = (Inr rep, g', s', f')"
      unfolding replace_the_branch_def by (simp split: sum.splits)
    from carries_no_more [OF this(1)] obtain changed where changed:
      "g_content_diff G g (published_branch exc_text (clock 0) f) = Some changed"
      "Some ` set changed \<subseteq> (\<lambda>p. path_of (pp_target p)) ` set ?replayed" by blast
    note store = republish_store [OF d1 assms(2) pub]
    have sub: "pp_id ` set ?replayed \<subseteq> clean" unfolding proven by auto
    have "get_entity s' j = get_entity s j" if "j \<notin> clean" for j
    proof -
      have "j \<notin> pp_id ` set ?replayed" using that sub by blast
      with store eff that show ?thesis by simp
    qed
    moreover have "list_all2 same_subject s s'" using eff store same_subject_trans by blast
    moreover have "set (rep_submitted rep) \<subseteq> clean" using store sub by simp
    moreover have "\<exists>changed (replayed :: pending_proposal list). map pp_id replayed = rep_submitted rep \<and>
        g_content_diff G g (published_branch exc_text (clock 0) f) = Some changed \<and>
        Some ` set changed \<subseteq> (\<lambda>p. path_of (pp_target p)) ` set replayed"
    proof -
      have "map pp_id ?replayed = rep_submitted rep" using store by simp
      then show ?thesis using changed by (intro exI conjI)
    qed
    ultimately show ?thesis using eff ids rep(2) by simp
  qed
qed

text \<open>
  A rebase acts only on what its rehearsal proved. Where it reports, every record but those of the changes
  classified clean is as it was, no record's edit has changed, only clean changes are restamped, and only
  clean changes are republished, and those only when every path in which the published branch differs from
  upstream belongs to one of them. Where no enterprise repository is mounted, nothing happens at all.
\<close>

theorem rebase_acts_only_on_what_was_proven:
  assumes "distinct (map cr_id s)" and "\<forall>k. \<not> blank (clock k)"
    and "rebase_changes exc_text clock G R revision_of path_of mounted ts proposals g s f = (res, g', s', f')"
  shows "(\<not> mounted \<longrightarrow> (res, g', s', f') = (Err NoEnterpriseMounted, g, s, f)) \<and>
    (\<forall>report. res = Ok report \<longrightarrow>
      (let clean = cc_id ` set (with_outcome Clean (rehearsed_changes report)) in
       (\<forall>j. j \<notin> clean \<longrightarrow> get_entity s' j = get_entity s j) \<and>
       (\<forall>j r'. get_entity s' j = Some r' \<longrightarrow> (\<exists>r. get_entity s j = Some r \<and> recorded_edit r' = recorded_edit r)) \<and>
       set (restamped_ids report) \<subseteq> clean \<and>
       (republished_as report = None \<longrightarrow> g' = g \<and> f' = f) \<and>
       (\<forall>rep. republished_as report = Some rep \<longrightarrow>
         set (rep_submitted rep) \<subseteq> clean \<and>
         (\<exists>changed (replayed :: pending_proposal list) br. map pp_id replayed = rep_submitted rep \<and> g_content_diff G g br = Some changed \<and>
            (truthy (work_branch (load exc_text (clock 0) f)) \<longrightarrow> work_branch (load exc_text (clock 0) f) = Some br) \<and>
            Some ` set changed \<subseteq> (\<lambda>p. path_of (pp_target p)) ` set replayed))))"
proof -
  have unmounted: "\<not> mounted \<Longrightarrow> (res, g', s', f') = (Err NoEnterpriseMounted, g, s, f)"
    using assms(3) by (simp add: rebase_changes_def)
  have br: "truthy (work_branch (load exc_text (clock 0) f)) \<Longrightarrow>
      work_branch (load exc_text (clock 0) f) = Some (published_branch exc_text (clock 0) f)"
    by (auto simp: published_branch_def truthy_iff)
  have main: "let clean = cc_id ` set (with_outcome Clean (rehearsed_changes report)) in
      (\<forall>j. j \<notin> clean \<longrightarrow> get_entity s' j = get_entity s j) \<and> list_all2 same_subject s s' \<and>
      set (restamped_ids report) \<subseteq> clean \<and>
      (case republished_as report of
         None \<Rightarrow> g' = g \<and> f' = f
       | Some rep \<Rightarrow> set (rep_submitted rep) \<subseteq> clean \<and>
           (\<exists>changed (replayed :: pending_proposal list). map pp_id replayed = rep_submitted rep \<and>
              g_content_diff G g (published_branch exc_text (clock 0) f) = Some changed \<and>
              Some ` set changed \<subseteq> (\<lambda>p. path_of (pp_target p)) ` set replayed))"
    if ok: "res = Inr report" for report
  proof (cases "proposals = []")
    case True
    with ok assms(3) show ?thesis by (auto simp: rebase_changes_def same_subject_refl split: if_splits)
  next
    case False
    have mounted using ok unmounted by auto
    with ok assms(3) False obtain w where
      "conclude_rebase exc_text clock G revision_of path_of ts
         (if needs_republishing exc_text (clock 0) proposals f then UPSTREAM_REF else ''HEAD'')
         (needs_republishing exc_text (clock 0) proposals f) (rebase_set exc_text (clock 0) proposals s f)
         (rehearse_rebase (read_current R) (apply_edit R)
           (map (\<lambda>p. (pp_id p, pp_edit p)) (rebase_set exc_text (clock 0) proposals s f)) w) g s f = (Inr report, g', s', f')"
      by (simp add: rebase_changes_def Let_def split: option.splits)
    note effect = conclude_rebase_effect [OF assms(1,2) this]
    show ?thesis unfolding Let_def conjunct1 [OF effect] by (rule conjunct2 [OF effect])
  qed
  show ?thesis
  proof (intro conjI allI impI)
    fix report assume "res = Ok report"
    note facts = main [OF this, unfolded Let_def]
    have keep: "\<exists>r. get_entity s j = Some r \<and> recorded_edit r' = recorded_edit r" if "get_entity s' j = Some r'" for j r'
      using same_subject_get [OF _ assms(1) that] facts by (auto simp: same_subject_def)
    show "let clean = cc_id ` set (with_outcome Clean (rehearsed_changes report)) in
       (\<forall>j. j \<notin> clean \<longrightarrow> get_entity s' j = get_entity s j) \<and>
       (\<forall>j r'. get_entity s' j = Some r' \<longrightarrow> (\<exists>r. get_entity s j = Some r \<and> recorded_edit r' = recorded_edit r)) \<and>
       set (restamped_ids report) \<subseteq> clean \<and>
       (republished_as report = None \<longrightarrow> g' = g \<and> f' = f) \<and>
       (\<forall>rep. republished_as report = Some rep \<longrightarrow>
         set (rep_submitted rep) \<subseteq> clean \<and>
         (\<exists>changed (replayed :: pending_proposal list) br. map pp_id replayed = rep_submitted rep \<and> g_content_diff G g br = Some changed \<and>
            (truthy (work_branch (load exc_text (clock 0) f)) \<longrightarrow> work_branch (load exc_text (clock 0) f) = Some br) \<and>
            Some ` set changed \<subseteq> (\<lambda>p. path_of (pp_target p)) ` set replayed))"
      unfolding Let_def
    proof (intro conjI allI impI)
      fix rep assume "republished_as report = Some rep"
      with facts br show "\<exists>changed (replayed :: pending_proposal list) br. map pp_id replayed = rep_submitted rep \<and> g_content_diff G g br = Some changed \<and>
            (truthy (work_branch (load exc_text (clock 0) f)) \<longrightarrow> work_branch (load exc_text (clock 0) f) = Some br) \<and>
            Some ` set changed \<subseteq> (\<lambda>p. path_of (pp_target p)) ` set replayed"
        by auto
    qed (use facts keep in auto)
  qed (use unmounted in simp)
qed

section \<open>On a small repository\<close>

abbreviation small_upstream :: "string \<Rightarrow> target_record option" where
  "small_upstream \<equiv> \<lambda>_. Some (DocumentTarget
     \<lparr>dr_title = '' New'', dr_status = ''s'', dr_group = ''g'', dr_keywords = [], dr_last_updated = None\<rparr>)"

abbreviation on_review :: small_repository where
  "on_review \<equiv> (''w'', False, ''c1'', [(''w'', ''c1'')])"

lemma pending_file_one: "pending_file None = Document (PDict (state_payload (default_state\<lparr>status := Pending, work_branch := Some ''w''\<rparr>)))"
  by (simp add: pending_file_def default_state_def)

theorem review_branch_goes_only_when_finished_witness:
  "case close_integrated_changes (\<lambda>_. ''bad'') ''t1'' (small_git True) True (Some small_upstream) on_review [submitted_sample]
     (pending_file None) of (report, g', s', f') \<Rightarrow> g' \<noteq> on_review \<and> closed_changes report \<noteq> [] \<and> live_changes s' = []"
proof -
  obtain report g' s' f' where run: "close_integrated_changes (\<lambda>_. ''bad'') ''t1'' (small_git True) True (Some small_upstream) on_review
      [submitted_sample] (pending_file None) = (report, g', s', f')" by (metis prod_cases4)
  have "fst (snd (close_integrated_changes (\<lambda>_. ''bad'') ''t1'' (small_git True) True (Some small_upstream) on_review
      [submitted_sample] (pending_file None))) \<noteq> on_review" by code_simp
  then have "g' \<noteq> on_review" using run by simp
  with review_branch_goes_only_when_finished [OF run] run show ?thesis by simp
qed

definition crashed_file :: sync_file where
  "crashed_file = Document (PDict (state_payload (default_state\<lparr>status := Accumulating, work_branch := Some ''w'',
     submission := Some (PreparedSubmission \<lparr>proposal_ids = [''1''], branch = ''w'', expected_commit = ''c1''\<rparr>)\<rparr>)))"

theorem startup_returns_a_recovered_submission_to_draft_witness:
  "\<exists>s' f'. startup_reconciliation (\<lambda>_. ''bad'') (\<lambda>_. ''t1'') (small_git True) (\<lambda>_. None) True (Some (\<lambda>_. None)) on_review
      small_store crashed_file = (on_review, s', f') \<and>
    (\<exists>r. get_entity s' ''1'' = Some r \<and> state_of_change r = ''draft'')"
proof -
  let ?i = "\<lparr>proposal_ids = [''1''], branch = ''w'', expected_commit = ''c1''\<rparr>"
  have "\<forall>r \<in> set small_store. case recorded_edit r of None \<Rightarrow> True
      | Some e \<Rightarrow> \<not> integrated (integration_verdict_for e (current_values_of None)) \<and> \<not> blank (edit_artifact e)" by code_simp
  then have edits: "\<forall>r \<in> set small_store. \<forall>e. recorded_edit r = Some e \<longrightarrow>
      \<not> integrated (integration_verdict_for e (current_values_of ((\<lambda>_ :: string. None) (py_strip (edit_artifact e)))))"
    "\<forall>r \<in> set small_store. \<forall>e. recorded_edit r = Some e \<longrightarrow> \<not> blank (edit_artifact e)" by auto
  have crashed: "submission (load (\<lambda>_. ''bad'') ''t1'' crashed_file) = Some (PreparedSubmission ?i)"
    "status (load (\<lambda>_. ''bad'') ''t1'' crashed_file) = Accumulating" by code_simp+
  have remote: "g_remote (small_git True) on_review (branch ?i) = Ref (Some (expected_commit ?i))" by code_simp
  have named: "set (proposal_ids ?i) \<subseteq> pp_id ` set (live_changes small_store)" by code_simp
  from startup_returns_a_recovered_submission_to_draft [OF small_hypotheses crashed(1) remote named edits,
      where revision_of = "\<lambda>_. None" and later = "''t2''"] crashed(2)
  show ?thesis by auto
qed

lemma map_of_without: "map_of (filter (\<lambda>p. fst p \<noteq> b) rs) c = (if c = b then None else map_of rs c)"
  by (induction rs) auto

lemma small_git_documented: "git_documented (git_client.truncate (small_git good))" "refs_documented (small_git good)"
  by (auto simp: git_documented_def refs_documented_def git_client.truncate_def git_client.defs small_git_def map_of_without
      split: prod.splits)

theorem reviewed_branch_outlives_a_failed_replacement_witness:
  "case republish_on_a_replacement_branch (\<lambda>_. ''bad'') (\<lambda>_. ''t1'') (small_git True) (\<lambda>_. None) ''9'' ''origin/main''
     (live_changes small_store) on_review small_store (pending_file None) of
     (res, g', s', f') \<Rightarrow> g_remote (small_git True) g' ''w'' = Ref None \<and>
       g_remote (small_git True) g' ''arch/work-9'' = Ref (Some ''c2'')"
proof -
  let ?run = "republish_on_a_replacement_branch (\<lambda>_. ''bad'') (\<lambda>_. ''t1'') (small_git True) (\<lambda>_. None) ''9'' ''origin/main''
     (live_changes small_store) on_review small_store (pending_file None)"
  obtain res g' s' f' where run: "?run = (res, g', s', f')" by (metis prod_cases4)
  have "case fst ?run of Inl _ \<Rightarrow> False | Inr rep \<Rightarrow> rep_branch rep = ''arch/work-9'' \<and> rep_commit rep = ''c2''" by code_simp
  then obtain rep where rep: "res = Inr rep" "rep_branch rep = ''arch/work-9''" "rep_commit rep = ''c2''"
    using run by (auto split: sum.splits)
  have w: "work_branch (load (\<lambda>_. ''bad'') ((\<lambda>_. ''t1'') 0) (pending_file None)) = Some ''w''"
    "ref_taken (git_client.truncate (small_git True)) on_review ''w''" by code_simp+
  from reviewed_branch_outlives_a_failed_replacement [OF small_git_documented small_hypotheses(2) w run] rep run
  show ?thesis by simp
qed

definition small_rehearsal :: "(small_repository, unit) rehearsal_client" where
  "small_rehearsal = \<lparr>open_worktree = (\<lambda>_ _. Some ()), read_current = (\<lambda>_ _. small_upstream []),
     apply_edit = (\<lambda>e w. (if edit_artifact e = ''A'' then None else Some ''E1'', w))\<rparr>"

theorem rebase_acts_only_on_what_was_proven_witness:
  "case rebase_changes (\<lambda>_. ''bad'') (\<lambda>_. ''t1'') (small_git True) small_rehearsal (\<lambda>_. Some ''r2'') (\<lambda>_. None) True ''9''
     (live_changes small_store) on_review small_store NoFile of
     (res, g', s', f') \<Rightarrow> get_entity s' ''2'' = get_entity small_store ''2'' \<and> get_entity s' ''1'' \<noteq> get_entity small_store ''1''"
proof -
  let ?run = "rebase_changes (\<lambda>_. ''bad'') (\<lambda>_. ''t1'') (small_git True) small_rehearsal (\<lambda>_. Some ''r2'') (\<lambda>_. None) True ''9''
     (live_changes small_store) on_review small_store NoFile"
  obtain res g' s' f' where run: "?run = (res, g', s', f')" by (metis prod_cases4)
  have "case fst ?run of Inl _ \<Rightarrow> False | Inr report \<Rightarrow> map cc_id (with_outcome Clean (rehearsed_changes report)) = [''1'']" by code_simp
  then obtain report where report: "res = Inr report" "map cc_id (with_outcome Clean (rehearsed_changes report)) = [''1'']"
    using run by (auto split: sum.splits)
  then have clean: "cc_id ` set (with_outcome Clean (rehearsed_changes report)) = {''1''}" by (metis list.set_map list.simps(15) set_empty2)
  have "get_entity (fst (snd (snd ?run))) ''1'' \<noteq> get_entity small_store ''1''" by code_simp
  then have moved: "get_entity s' ''1'' \<noteq> get_entity small_store ''1''" using run by simp
  from rebase_acts_only_on_what_was_proven [OF small_hypotheses run] report(1) clean have "get_entity s' ''2'' = get_entity small_store ''2''"
    by (simp add: Let_def)
  with moved run show ?thesis by simp
qed

end
