(* ===== verification/Lock_Discipline.thy ===== *)
theory Lock_Discipline
  imports Prelude
begin

text \<open>
  What the two locks of the program share. An actor is one activation of a context manager; everything a
  manager does under the condition's lock is one atomic action, \<^verbatim>\<open>wait\<close> puts the actor to sleep, and
  \<^verbatim>\<open>notify_all\<close> wakes every sleeper, which must then test its condition again. The locale states when
  such a lock loses no wake-up, and proves it once for every run.
\<close>

primrec run_steps :: "('x \<Rightarrow> 's \<Rightarrow> 's option) \<Rightarrow> 'x list \<Rightarrow> 's \<Rightarrow> 's option" where
  "run_steps act [] s = Some s"
| "run_steps act (x # xs) s = (case act x s of None \<Rightarrow> None | Some s' \<Rightarrow> run_steps act xs s')"

primrec all_along :: "('x \<Rightarrow> 's \<Rightarrow> 's option) \<Rightarrow> ('x \<Rightarrow> 's \<Rightarrow> bool) \<Rightarrow> 'x list \<Rightarrow> 's \<Rightarrow> bool" where
  "all_along act P [] s = True"
| "all_along act P (x # xs) s = (P x s \<and> (case act x s of None \<Rightarrow> True | Some s' \<Rightarrow> all_along act P xs s'))"

lemma all_along_trivial: "(\<And>x s. P x s) \<Longrightarrow> all_along act P xs s"
  by (induction xs arbitrary: s) (auto split: option.split)

locale wake_discipline =
  fixes act :: "'x \<Rightarrow> 's \<Rightarrow> 's option"
    and ok :: "'s \<Rightarrow> bool"
    and asleep :: "'s \<Rightarrow> 'a set"
    and blocked :: "'s \<Rightarrow> 'a \<Rightarrow> bool"
    and benign :: "'x \<Rightarrow> 's \<Rightarrow> bool"
  assumes keeps: "\<lbrakk>ok s; act x s = Some s'\<rbrakk> \<Longrightarrow> ok s'"
    and wakes: "\<lbrakk>ok s; act x s = Some s'; benign x s; \<forall>a \<in> asleep s. blocked s a\<rbrakk> \<Longrightarrow> \<forall>a \<in> asleep s'. blocked s' a"
begin

lemma run_ok: "\<lbrakk>ok s; run_steps act xs s = Some s'\<rbrakk> \<Longrightarrow> ok s'"
  by (induction xs arbitrary: s) (auto dest: keeps split: option.splits)

lemma run_wakes:
  "\<lbrakk>ok s; run_steps act xs s = Some s'; all_along act benign xs s; \<forall>a \<in> asleep s. blocked s a\<rbrakk>
     \<Longrightarrow> \<forall>a \<in> asleep s'. blocked s' a"
proof (induction xs arbitrary: s)
  case (Cons x xs)
  from Cons.prems(2) obtain t where t: "act x s = Some t" "run_steps act xs t = Some s'" by (auto split: option.splits)
  have "ok t" by (rule keeps [OF Cons.prems(1) t(1)])
  moreover have "\<forall>a \<in> asleep t. blocked t a" using wakes [OF Cons.prems(1) t(1)] Cons.prems(3,4) by simp
  moreover have "all_along act benign xs t" using Cons.prems(3) t(1) by simp
  ultimately show ?case using Cons.IH t(2) by blast
qed simp

end

section \<open>Counting actors\<close>

definition actors_in :: "('a \<Rightarrow> 'p) \<Rightarrow> 'p set \<Rightarrow> 'a set" where
  "actors_in f S = {a. f a \<in> S}"

lemma actors_in_upd: "actors_in (f(a := p)) S = (if p \<in> S then insert a (actors_in f S) else actors_in f S - {a})"
  by (auto simp: actors_in_def)

lemma card_actors_upd:
  assumes "finite (actors_in f S)"
  shows "int (card (actors_in (f(a := p)) S)) =
    int (card (actors_in f S)) - (if f a \<in> S then 1 else 0) + (if p \<in> S then 1 else 0)"
proof -
  have mem: "a \<in> actors_in f S \<longleftrightarrow> f a \<in> S" by (simp add: actors_in_def)
  have pos: "f a \<in> S \<Longrightarrow> 0 < card (actors_in f S)" using assms mem by (auto simp: card_gt_0_iff)
  show ?thesis
    using assms mem pos by (auto simp: actors_in_upd card_insert_if card_Diff_singleton_if of_nat_diff)
qed

lemma finite_actors_upd: "finite (actors_in f S) \<Longrightarrow> finite (actors_in (f(a := p)) S)"
  by (simp add: actors_in_upd)

end
