(* ===== verification/Mutation_Policy.thy ===== *)
theory Mutation_Policy
  imports Prelude
begin

text \<open>
  Who may write what (\<^verbatim>\<open>src/application/mutation_authorization.py\<close>, \<^verbatim>\<open>src/application/mutation_policy.py\<close>) and
  the executor that enforces it (\<^verbatim>\<open>src/infrastructure/write/authorized_mutation_executor.py\<close>). A path is the
  list of its parts; resolving one asks the file system and is a parameter. The texts of denials are left out.
\<close>

section \<open>Vocabulary\<close>

type_synonym path = "string list"

datatype mutation_intent =
    EngagementAuthoring
  | EnterpriseAdminAuthoring
  | Promotion
  | EnterpriseSave
  | EnterpriseSubmit
  | EnterpriseDiscard
  | EnterpriseProposal
  | Maintenance

datatype gate_block = ReadOnly | SyncInProgress

datatype sync_health_reason =
    FetchFailed
  | UpstreamMissing
  | Diverged
  | SyncStateUnknown
  | StateFileCorrupt
  | RepositoryUninitialized

datatype denial_code =
    DeniedReadOnly
  | DeniedSyncInProgress
  | DeniedSyncHealth
  | TargetNotEngagementRoot
  | TargetNotEnterpriseRoot
  | EnterpriseTargetForbidden
  | AdminModeRequired
  | TargetShapeMismatch

definition RETRYABLE_DENIALS :: "denial_code set" where
  "RETRYABLE_DENIALS = {DeniedReadOnly, DeniedSyncInProgress, DeniedSyncHealth}"

definition is_retryable :: "denial_code \<Rightarrow> bool" where
  "is_retryable c \<longleftrightarrow> c \<in> RETRYABLE_DENIALS"

datatype mutation_target =
    RepositoryWrite path
  | PromotionWrite path path
  | DiscardWrite path bool
  | ProposalWrite path path

datatype mutation_decision = Allowed | Denied denial_code "sync_health_reason option"

record authorization_snapshot =
  engagement_root :: "path option"
  enterprise_root :: "path option"
  admin_mode :: bool
  read_only :: bool
  gate_state :: "gate_block option"
  sync_reason :: "sync_health_reason option"

section \<open>The policy\<close>

definition REMOTE_RELATIONSHIP_FAULTS :: "sync_health_reason set" where
  "REMOTE_RELATIONSHIP_FAULTS = {FetchFailed, UpstreamMissing, Diverged, SyncStateUnknown}"

definition ENTERPRISE_WORKFLOW_INTENTS :: "mutation_intent set" where
  "ENTERPRISE_WORKFLOW_INTENTS = {Promotion, EnterpriseSave, EnterpriseSubmit, EnterpriseDiscard, EnterpriseProposal}"

definition denied_intents :: "sync_health_reason \<Rightarrow> mutation_target \<Rightarrow> mutation_intent set" where
  "denied_intents reason target =
     (if reason \<in> REMOTE_RELATIONSHIP_FAULTS
      then {Promotion, EnterpriseSubmit, EnterpriseProposal} \<union>
           (case target of DiscardWrite _ True \<Rightarrow> {EnterpriseDiscard} | _ \<Rightarrow> {})
      else ENTERPRISE_WORKFLOW_INTENTS)"

definition is_relative_to :: "path \<Rightarrow> path \<Rightarrow> bool" where
  "is_relative_to p root \<longleftrightarrow> take (length root) p = root"

definition check_engagement_root :: "(path \<Rightarrow> path) \<Rightarrow> authorization_snapshot \<Rightarrow> path \<Rightarrow> mutation_decision" where
  "check_engagement_root resolve snap root =
     (if engagement_root snap = Some (resolve root) then Allowed
      else case enterprise_root snap of
             Some e \<Rightarrow> if is_relative_to (resolve root) e then Denied EnterpriseTargetForbidden None
                       else Denied TargetNotEngagementRoot None
           | None \<Rightarrow> Denied TargetNotEngagementRoot None)"

definition check_enterprise_root :: "(path \<Rightarrow> path) \<Rightarrow> authorization_snapshot \<Rightarrow> path \<Rightarrow> mutation_decision" where
  "check_enterprise_root resolve snap root =
     (if enterprise_root snap = Some (resolve root) then Allowed else Denied TargetNotEnterpriseRoot None)"

definition both_roots :: "(path \<Rightarrow> path) \<Rightarrow> authorization_snapshot \<Rightarrow> path \<Rightarrow> path \<Rightarrow> mutation_decision" where
  "both_roots resolve snap source destination =
     (case check_engagement_root resolve snap source of
        Denied c r \<Rightarrow> Denied c r
      | Allowed \<Rightarrow> check_enterprise_root resolve snap destination)"

fun authorize_target ::
    "(path \<Rightarrow> path) \<Rightarrow> authorization_snapshot \<Rightarrow> mutation_intent \<Rightarrow> mutation_target \<Rightarrow> mutation_decision" where
  "authorize_target resolve snap EngagementAuthoring (RepositoryWrite root) = check_engagement_root resolve snap root"
| "authorize_target resolve snap EnterpriseAdminAuthoring (RepositoryWrite root) =
     (if \<not> admin_mode snap then Denied AdminModeRequired None else check_enterprise_root resolve snap root)"
| "authorize_target resolve snap Promotion (PromotionWrite source destination) = both_roots resolve snap source destination"
| "authorize_target resolve snap EnterpriseSave (RepositoryWrite root) = check_enterprise_root resolve snap root"
| "authorize_target resolve snap EnterpriseSubmit (RepositoryWrite root) = check_enterprise_root resolve snap root"
| "authorize_target resolve snap EnterpriseDiscard (DiscardWrite root pending_remote) = check_enterprise_root resolve snap root"
| "authorize_target resolve snap EnterpriseProposal (ProposalWrite source destination) = both_roots resolve snap source destination"
| "authorize_target resolve snap _ _ = Denied TargetShapeMismatch None"

definition authorize ::
    "(path \<Rightarrow> path) \<Rightarrow> authorization_snapshot \<Rightarrow> mutation_intent \<Rightarrow> mutation_target \<Rightarrow> mutation_decision" where
  "authorize resolve snap intent target =
     (if intent = Maintenance then Allowed
      else if read_only snap \<or> gate_state snap = Some ReadOnly then Denied DeniedReadOnly None
      else if gate_state snap = Some SyncInProgress then Denied DeniedSyncInProgress None
      else case authorize_target resolve snap intent target of
             Denied c r \<Rightarrow> Denied c r
           | Allowed \<Rightarrow>
               (case sync_reason snap of
                  Some reason \<Rightarrow>
                    if intent \<in> denied_intents reason target then Denied DeniedSyncHealth (Some reason) else Allowed
                | None \<Rightarrow> Allowed))"

section \<open>The executor\<close>

datatype execution_error = MutationRejected denial_code "sync_health_reason option" | GateRejected gate_block

definition authorize_or_raise ::
    "(path \<Rightarrow> path) \<Rightarrow> authorization_snapshot \<Rightarrow> mutation_intent \<Rightarrow> mutation_target \<Rightarrow> (execution_error, unit) result" where
  "authorize_or_raise resolve snap intent target =
     (case authorize resolve snap intent target of Denied c r \<Rightarrow> Err (MutationRejected c r) | Allowed \<Rightarrow> Ok ())"

text \<open>
  The snapshot is composed twice, on submission and in the worker; the gate is asked last. The
  operation gives its result and the state it leaves.
\<close>

definition execute_mutation ::
    "(path \<Rightarrow> path) \<Rightarrow> authorization_snapshot \<Rightarrow> authorization_snapshot \<Rightarrow> gate_block option
      \<Rightarrow> mutation_intent \<Rightarrow> mutation_target \<Rightarrow> ('s \<Rightarrow> 'a \<times> 's) \<Rightarrow> 's \<Rightarrow> (execution_error, 'a) result \<times> 's" where
  "execute_mutation resolve on_submission in_worker gate_reason intent target operation s =
     (case bind_result (authorize_or_raise resolve on_submission intent target)
             (\<lambda>_. authorize_or_raise resolve in_worker intent target) of
        Inl e \<Rightarrow> (Err e, s)
      | Inr _ \<Rightarrow>
          (case gate_reason of
             Some r \<Rightarrow> (Err (GateRejected r), s)
           | None \<Rightarrow> (case operation s of (a, s') \<Rightarrow> (Ok a, s'))))"

section \<open>Properties\<close>

fun written_roots :: "mutation_target \<Rightarrow> path set" where
  "written_roots (RepositoryWrite root) = {root}"
| "written_roots (PromotionWrite source destination) = {source, destination}"
| "written_roots (DiscardWrite root pending_remote) = {root}"
| "written_roots (ProposalWrite source destination) = {source, destination}"

lemma check_engagement_root_Allowed [simp]:
  "check_engagement_root resolve snap root = Allowed \<longleftrightarrow> engagement_root snap = Some (resolve root)"
  by (simp add: check_engagement_root_def split: option.split)

lemma check_enterprise_root_Allowed [simp]:
  "check_enterprise_root resolve snap root = Allowed \<longleftrightarrow> enterprise_root snap = Some (resolve root)"
  by (simp add: check_enterprise_root_def)

lemma both_roots_Allowed [simp]:
  "both_roots resolve snap source destination = Allowed \<longleftrightarrow>
     engagement_root snap = Some (resolve source) \<and> enterprise_root snap = Some (resolve destination)"
  by (auto simp: both_roots_def split: mutation_decision.split)
     (metis check_engagement_root_Allowed mutation_decision.distinct(1))+

text \<open>What is allowed, as a table of intents and targets.\<close>

definition may_target :: "(path \<Rightarrow> path) \<Rightarrow> authorization_snapshot \<Rightarrow> mutation_intent \<Rightarrow> mutation_target \<Rightarrow> bool" where
  "may_target resolve snap intent target \<longleftrightarrow>
     (\<exists>root. target = RepositoryWrite root \<and>
        (intent = EngagementAuthoring \<and> engagement_root snap = Some (resolve root) \<or>
         (intent \<in> {EnterpriseSave, EnterpriseSubmit} \<or> intent = EnterpriseAdminAuthoring \<and> admin_mode snap) \<and>
           enterprise_root snap = Some (resolve root))) \<or>
     (\<exists>root pending_remote. target = DiscardWrite root pending_remote \<and> intent = EnterpriseDiscard \<and>
        enterprise_root snap = Some (resolve root)) \<or>
     (\<exists>source destination. (intent, target) \<in>
          {(Promotion, PromotionWrite source destination), (EnterpriseProposal, ProposalWrite source destination)} \<and>
        engagement_root snap = Some (resolve source) \<and> enterprise_root snap = Some (resolve destination))"

lemma authorize_target_Allowed: "authorize_target resolve snap intent target = Allowed \<longleftrightarrow> may_target resolve snap intent target"
  by (cases intent; cases target) (auto simp: may_target_def)

lemma authorize_Allowed:
  "authorize resolve snap intent target = Allowed \<longleftrightarrow>
     intent = Maintenance \<or>
     \<not> read_only snap \<and> gate_state snap = None \<and> may_target resolve snap intent target \<and>
     (\<forall>reason. sync_reason snap = Some reason \<longrightarrow> intent \<notin> denied_intents reason target)"
  unfolding authorize_target_Allowed [symmetric]
  by (cases "gate_state snap"; cases "the (gate_state snap)"; cases "authorize_target resolve snap intent target")
    (auto simp: authorize_def split: option.splits)


definition sample_snapshot :: authorization_snapshot where
  "sample_snapshot = \<lparr>engagement_root = Some [''eng''], enterprise_root = Some [''ent''], admin_mode = False,
     read_only = False, gate_state = None, sync_reason = Some FetchFailed\<rparr>"


text \<open>
  Health never takes local work away, and maintenance is allowed only on paper. Whatever the health of the enterprise
  repository, authoring in the engagement root is authorized, and a fault of the remote relationship leaves saving
  and discarding a local branch authorized. Maintenance is authorized in every snapshot, but the executor
  takes the write gate for it like for any other operation: with the gate blocked it is rejected and nothing runs.
\<close>

theorem health_spares_local_work_and_the_gate_stops_maintenance:
  assumes "\<not> read_only snap" and "gate_state snap = None"
  shows "(engagement_root snap = Some (resolve root) \<longrightarrow>
      authorize resolve (snap\<lparr>sync_reason := health\<rparr>) EngagementAuthoring (RepositoryWrite root) = Allowed) \<and>
    (enterprise_root snap = Some (resolve root) \<and> reason \<in> REMOTE_RELATIONSHIP_FAULTS \<longrightarrow>
      authorize resolve (snap\<lparr>sync_reason := Some reason\<rparr>) EnterpriseSave (RepositoryWrite root) = Allowed \<and>
      authorize resolve (snap\<lparr>sync_reason := Some reason\<rparr>) EnterpriseDiscard (DiscardWrite root False) = Allowed \<and>
      authorize resolve (snap\<lparr>sync_reason := Some reason\<rparr>) EnterpriseDiscard (DiscardWrite root True) =
        Denied DeniedSyncHealth (Some reason)) \<and>
    authorize resolve any_snap Maintenance target = Allowed \<and>
    execute_mutation resolve any_snap any_snap (Some b) Maintenance target operation s = (Err (GateRejected b), s)"
  using assms
  by (auto simp: authorize_def denied_intents_def ENTERPRISE_WORKFLOW_INTENTS_def check_engagement_root_def
      check_enterprise_root_def execute_mutation_def authorize_or_raise_def split: option.splits)

theorem health_spares_local_work_and_the_gate_stops_maintenance_witness:
  "authorize (\<lambda>p. p) (sample_snapshot\<lparr>sync_reason := Some StateFileCorrupt\<rparr>) EngagementAuthoring (RepositoryWrite [''eng'']) = Allowed"
proof -
  have snap: "\<not> read_only sample_snapshot" "gate_state sample_snapshot = None"
    "engagement_root sample_snapshot = Some ((\<lambda>p. p) [''eng''])"
    by (simp_all add: sample_snapshot_def)
  from conjunct1 [OF health_spares_local_work_and_the_gate_stops_maintenance [OF snap(1,2)]] snap(3)
  show ?thesis by (rule mp)
qed

end
