(* ===== verification/Mutation_Gate.thy ===== *)
theory Mutation_Gate
  imports Lock_Discipline Mutation_Policy
begin

text \<open>
  The process-wide readers-writer gate (\<^verbatim>\<open>src/infrastructure/workspace/mutation_gate.py\<close>) with the per-repository
  write block on top of it (\<^verbatim>\<open>write_block_manager.py\<close>). The counters are Python integers; what they
  count is proved, not assumed.
\<close>

section \<open>The gate\<close>

datatype wait_kind = ForRead | ForWrite | ForPrivileged | ForBlocking gate_block

datatype actor_state =
    Outside
  | Asleep wait_kind
  | Woken wait_kind
  | InRead
  | InWrite
  | InPrivileged
  | InBlocking

record gate =
  gate_readers :: int
  gate_writing :: bool
  writers_waiting :: int
  block_reason :: "gate_block option"
  actors :: "nat \<Rightarrow> actor_state"

definition new_gate :: gate where
  "new_gate = \<lparr>gate_readers = 0, gate_writing = False, writers_waiting = 0, block_reason = None, actors = (\<lambda>_. Outside)\<rparr>"

definition put :: "nat \<Rightarrow> actor_state \<Rightarrow> gate \<Rightarrow> gate" where
  "put a p g = g\<lparr>actors := (actors g)(a := p)\<rparr>"

fun wake :: "actor_state \<Rightarrow> actor_state" where
  "wake (Asleep k) = Woken k"
| "wake p = p"

definition notify_all :: "gate \<Rightarrow> gate" where
  "notify_all g = g\<lparr>actors := wake \<circ> actors g\<rparr>"

section \<open>Acquiring and releasing\<close>

definition check_lock_order :: "bool \<Rightarrow> bool" where
  "check_lock_order holds_index_write \<longleftrightarrow> \<not> holds_index_write"

definition try_read :: "nat \<Rightarrow> gate \<Rightarrow> gate" where
  "try_read a g =
     (if gate_writing g \<or> 0 < writers_waiting g then put a (Asleep ForRead) g
      else put a InRead (g\<lparr>gate_readers := gate_readers g + 1\<rparr>))"

definition leave_read :: "nat \<Rightarrow> gate \<Rightarrow> gate" where
  "leave_read a g = notify_all (put a Outside (g\<lparr>gate_readers := gate_readers g - 1\<rparr>))"

definition try_write :: "wait_kind \<Rightarrow> actor_state \<Rightarrow> nat \<Rightarrow> gate \<Rightarrow> gate" where
  "try_write kind inside a g =
     (if gate_writing g \<or> 0 < gate_readers g then put a (Asleep kind) g
      else put a inside (g\<lparr>gate_writing := True, writers_waiting := writers_waiting g - 1\<rparr>))"

definition enter_write :: "nat \<Rightarrow> gate \<Rightarrow> (gate_block, unit) result \<times> gate" where
  "enter_write a g =
     (case block_reason g of
        Some r \<Rightarrow> (Err r, g)
      | None \<Rightarrow> (Ok (), try_write ForWrite InWrite a (g\<lparr>writers_waiting := writers_waiting g + 1\<rparr>)))"

definition resume_write :: "nat \<Rightarrow> gate \<Rightarrow> (gate_block, unit) result \<times> gate" where
  "resume_write a g =
     (case block_reason g of
        Some r \<Rightarrow> (Err r, put a Outside (g\<lparr>writers_waiting := writers_waiting g - 1\<rparr>))
      | None \<Rightarrow> (Ok (), try_write ForWrite InWrite a g))"

definition enter_privileged :: "nat \<Rightarrow> gate \<Rightarrow> gate" where
  "enter_privileged a g = try_write ForPrivileged InPrivileged a (g\<lparr>writers_waiting := writers_waiting g + 1\<rparr>)"

definition leave_write :: "nat \<Rightarrow> gate \<Rightarrow> gate" where
  "leave_write a g = notify_all (put a Outside (g\<lparr>gate_writing := False\<rparr>))"

definition try_block :: "gate_block \<Rightarrow> nat \<Rightarrow> gate \<Rightarrow> gate" where
  "try_block r a g =
     (if gate_writing g then put a (Asleep (ForBlocking r)) g else put a InBlocking (g\<lparr>block_reason := Some r\<rparr>))"

definition leave_block :: "nat \<Rightarrow> gate \<Rightarrow> gate" where
  "leave_block a g = notify_all (put a Outside (g\<lparr>block_reason := None\<rparr>))"

definition gate_set_block :: "gate_block \<Rightarrow> gate \<Rightarrow> gate" where
  "gate_set_block r g = notify_all (g\<lparr>block_reason := Some r\<rparr>)"

definition gate_clear_block :: "gate \<Rightarrow> gate" where
  "gate_clear_block g = notify_all (g\<lparr>block_reason := None\<rparr>)"

text \<open>
  The write block reads the reason in one step and acts in another; what it read is an argument, since the
  reason may have changed in between.
\<close>

definition block_repo :: "gate_block option \<Rightarrow> gate_block \<Rightarrow> gate \<Rightarrow> gate" where
  "block_repo seen r g = (if seen = Some ReadOnly \<and> r \<noteq> ReadOnly then g else gate_set_block r g)"

definition unblock_repo :: "gate_block option \<Rightarrow> gate \<Rightarrow> gate" where
  "unblock_repo seen g = (if seen = Some ReadOnly then g else gate_clear_block g)"

definition repo_is_blocked :: "gate \<Rightarrow> bool" where
  "repo_is_blocked g \<longleftrightarrow> block_reason g \<noteq> None"

section \<open>Interleavings\<close>

datatype gate_call = Reading | Writing | PrivilegedWriting | BlockingWrites gate_block

datatype gate_action =
    Enter nat bool gate_call
  | Resume nat
  | Leave nat
  | SetBlock gate_block
  | ClearBlock
  | BlockRepo "gate_block option" gate_block
  | UnblockRepo "gate_block option"

text \<open>
  \<^const>\<open>None\<close> where the action is not one the actor can take. Entering says whether the calling thread
  holds an index write; the order check refuses it then. \<^verbatim>\<open>blocking_writes\<close> does not check.
\<close>

fun gate_act :: "gate_action \<Rightarrow> gate \<Rightarrow> gate option" where
  "gate_act (Enter a holds c) g =
     (if actors g a \<noteq> Outside then None
      else case c of
        BlockingWrites r \<Rightarrow> Some (try_block r a g)
      | _ \<Rightarrow>
          if \<not> check_lock_order holds then Some g
          else Some (case c of
            Reading \<Rightarrow> try_read a g
          | Writing \<Rightarrow> snd (enter_write a g)
          | _ \<Rightarrow> enter_privileged a g))"
| "gate_act (Resume a) g =
     (case actors g a of
        Woken ForRead \<Rightarrow> Some (try_read a g)
      | Woken ForWrite \<Rightarrow> Some (snd (resume_write a g))
      | Woken ForPrivileged \<Rightarrow> Some (try_write ForPrivileged InPrivileged a g)
      | Woken (ForBlocking r) \<Rightarrow> Some (try_block r a g)
      | _ \<Rightarrow> None)"
| "gate_act (Leave a) g =
     (case actors g a of
        InRead \<Rightarrow> Some (leave_read a g)
      | InWrite \<Rightarrow> Some (leave_write a g)
      | InPrivileged \<Rightarrow> Some (leave_write a g)
      | InBlocking \<Rightarrow> Some (leave_block a g)
      | _ \<Rightarrow> None)"
| "gate_act (SetBlock r) g = Some (gate_set_block r g)"
| "gate_act ClearBlock g = Some (gate_clear_block g)"
| "gate_act (BlockRepo seen r) g = Some (block_repo seen r g)"
| "gate_act (UnblockRepo seen) g = Some (unblock_repo seen g)"

section \<open>The counters\<close>

definition waiting_states :: "actor_state set" where
  "waiting_states = {Asleep ForWrite, Woken ForWrite, Asleep ForPrivileged, Woken ForPrivileged}"

definition writing_states :: "actor_state set" where
  "writing_states = {InWrite, InPrivileged}"

lemmas state_sets = waiting_states_def writing_states_def

definition gate_ok :: "gate \<Rightarrow> bool" where
  "gate_ok g \<longleftrightarrow>
     finite (actors_in (actors g) (- {Outside})) \<and>
     gate_readers g = int (card (actors_in (actors g) {InRead})) \<and>
     of_bool (gate_writing g) = int (card (actors_in (actors g) writing_states)) \<and>
     writers_waiting g = int (card (actors_in (actors g) waiting_states)) \<and>
     (gate_writing g \<longrightarrow> gate_readers g = 0)"

lemma gate_ok_finite: "\<lbrakk>gate_ok g; Outside \<notin> S\<rbrakk> \<Longrightarrow> finite (actors_in (actors g) S)"
  by (auto simp: gate_ok_def actors_in_def elim: finite_subset [rotated])

lemma gate_ok_new: "gate_ok new_gate"
  by (simp add: gate_ok_def new_gate_def actors_in_def state_sets)

text \<open>An action moves one actor and changes the counters by what the move changes.\<close>

lemma gate_ok_put:
  assumes "gate_ok g" and "actors h = actors g"
    and "gate_readers h = gate_readers g - of_bool (actors g a = InRead) + of_bool (p = InRead)"
    and "of_bool (gate_writing h) = (of_bool (gate_writing g) :: int) - of_bool (actors g a \<in> writing_states) + of_bool (p \<in> writing_states)"
    and "writers_waiting h = writers_waiting g - of_bool (actors g a \<in> waiting_states) + of_bool (p \<in> waiting_states)"
    and "gate_writing h \<Longrightarrow> gate_readers h = 0"
  shows "gate_ok (put a p h)"
proof -
  have fin: "finite (actors_in (actors g) S)" if "Outside \<notin> S" for S using gate_ok_finite [OF assms(1) that] .
  have count: "int (card (actors_in ((actors g)(a := p)) S)) =
      int (card (actors_in (actors g) S)) - of_bool (actors g a \<in> S) + of_bool (p \<in> S)" if "Outside \<notin> S" for S
    using card_actors_upd [OF fin [OF that], of a p] by simp
  have out: "Outside \<notin> {InRead}" "Outside \<notin> writing_states" "Outside \<notin> waiting_states" "Outside \<notin> - {Outside}"
    by (simp_all add: state_sets)
  have old: "gate_readers g = int (card (actors_in (actors g) {InRead}))"
    "of_bool (gate_writing g) = int (card (actors_in (actors g) writing_states))"
    "writers_waiting g = int (card (actors_in (actors g) waiting_states))"
    using assms(1) by (simp_all add: gate_ok_def)
  have "gate_readers h = int (card (actors_in ((actors g)(a := p)) {InRead}))"
    using assms(3) old(1) count [OF out(1)] by simp
  moreover have "of_bool (gate_writing h) = int (card (actors_in ((actors g)(a := p)) writing_states))"
    using assms(4) old(2) count [OF out(2)] by simp
  moreover have "writers_waiting h = int (card (actors_in ((actors g)(a := p)) waiting_states))"
    using assms(5) old(3) count [OF out(3)] by simp
  moreover have "finite (actors_in ((actors g)(a := p)) (- {Outside}))" by (rule finite_actors_upd [OF fin [OF out(4)]])
  ultimately show ?thesis using assms(2,6) unfolding gate_ok_def put_def by simp
qed

lemma wake_mem: "wake p = Outside \<longleftrightarrow> p = Outside" "wake p = InRead \<longleftrightarrow> p = InRead"
  "wake p \<in> writing_states \<longleftrightarrow> p \<in> writing_states" "wake p \<in> waiting_states \<longleftrightarrow> p \<in> waiting_states"
  by (cases p; simp add: state_sets)+

lemma gate_ok_notify_all [simp]: "gate_ok (notify_all g) \<longleftrightarrow> gate_ok g"
  by (simp add: gate_ok_def notify_all_def actors_in_def wake_mem)

lemma gate_ok_reason [simp]: "gate_ok (g\<lparr>block_reason := r\<rparr>) \<longleftrightarrow> gate_ok g"
  by (simp add: gate_ok_def)

lemma gate_ok_writing_iff: "gate_ok g \<Longrightarrow> gate_writing g \<longleftrightarrow> actors_in (actors g) writing_states \<noteq> {}"
  using gate_ok_finite [of g writing_states]
  by (auto simp: gate_ok_def state_sets card_eq_0_iff)

lemma holder_means:
  assumes "gate_ok g"
  shows "actors g a \<in> writing_states \<Longrightarrow> gate_writing g" and "actors g a = InRead \<Longrightarrow> 0 < gate_readers g \<and> \<not> gate_writing g"
proof -
  show "actors g a \<in> writing_states \<Longrightarrow> gate_writing g"
    using gate_ok_writing_iff [OF assms] by (auto simp: actors_in_def)
  assume "actors g a = InRead"
  then have "a \<in> actors_in (actors g) {InRead}" by (simp add: actors_in_def)
  then have "card (actors_in (actors g) {InRead}) \<noteq> 0" using gate_ok_finite [OF assms, of "{InRead}"] by auto
  then show "0 < gate_readers g \<and> \<not> gate_writing g" using assms by (auto simp: gate_ok_def)
qed

lemma readers_nonneg: "gate_ok g \<Longrightarrow> 0 \<le> gate_readers g" "gate_ok g \<Longrightarrow> 0 \<le> writers_waiting g"
  by (simp_all add: gate_ok_def)

lemmas gate_ops = try_read_def leave_read_def try_write_def enter_write_def resume_write_def enter_privileged_def
  leave_write_def try_block_def leave_block_def gate_set_block_def gate_clear_block_def block_repo_def unblock_repo_def

lemma ok_exclusive: "\<lbrakk>gate_ok g; gate_writing g\<rbrakk> \<Longrightarrow> gate_readers g = 0"
  by (simp add: gate_ok_def)

lemma try_read_ok: "\<lbrakk>gate_ok g; actors g a \<in> {Outside, Woken ForRead}\<rbrakk> \<Longrightarrow> gate_ok (try_read a g)"
  unfolding try_read_def by (auto intro!: gate_ok_put [of g] simp: state_sets ok_exclusive)

lemma try_write_ok:
  assumes "gate_ok g" and "actors h = actors g" and "gate_readers h = gate_readers g" and "gate_writing h = gate_writing g"
    and "(kind, inside) \<in> {(ForWrite, InWrite), (ForPrivileged, InPrivileged)}" and "actors g a \<in> {Outside, Woken kind}"
    and "writers_waiting h = writers_waiting g + of_bool (actors g a = Outside)"
  shows "gate_ok (try_write kind inside a h)"
  using assms readers_nonneg [OF assms(1)] unfolding try_write_def
  by (auto intro!: gate_ok_put [of g] simp: state_sets ok_exclusive)

lemma gate_act_ok:
  assumes "gate_ok g" and "gate_act x g = Some g'"
  shows "gate_ok g'"
proof (cases x)
  case (Enter a holds c)
  then have out: "actors g a = Outside" using assms(2) by (auto split: if_splits)
  show ?thesis
  proof (cases c)
    case Reading
    with Enter out assms try_read_ok show ?thesis by (auto split: if_splits)
  next
    case Writing
    with Enter out assms show ?thesis
      by (auto simp: enter_write_def intro!: try_write_ok [OF assms(1)] split: if_splits option.splits)
  next
    case PrivilegedWriting
    with Enter out assms show ?thesis
      by (auto simp: enter_privileged_def intro!: try_write_ok [OF assms(1)] split: if_splits)
  next
    case (BlockingWrites r)
    with Enter out assms show ?thesis by (auto simp: try_block_def state_sets ok_exclusive intro!: gate_ok_put [of g])
  qed
next
  case (Resume a)
  with assms show ?thesis
    by (auto simp: resume_write_def try_block_def state_sets try_read_ok ok_exclusive
        intro!: try_write_ok [OF assms(1)] gate_ok_put [of g]
        split: actor_state.splits wait_kind.splits option.splits)
next
  case (Leave a)
  with assms holder_means [OF assms(1), of a] show ?thesis
    by (auto simp: leave_read_def leave_write_def leave_block_def state_sets ok_exclusive
        intro!: gate_ok_put [of g] split: actor_state.splits)
qed (use assms in \<open>auto simp: gate_ops\<close>)

section \<open>Sleepers\<close>

definition sleepers :: "gate \<Rightarrow> nat set" where
  "sleepers g = {a. \<exists>k. actors g a = Asleep k}"

fun must_wait :: "wait_kind \<Rightarrow> gate \<Rightarrow> bool" where
  "must_wait ForRead g \<longleftrightarrow> gate_writing g \<or> 0 < writers_waiting g"
| "must_wait ForWrite g \<longleftrightarrow> gate_writing g \<or> 0 < gate_readers g"
| "must_wait ForPrivileged g \<longleftrightarrow> gate_writing g \<or> 0 < gate_readers g"
| "must_wait (ForBlocking r) g \<longleftrightarrow> gate_writing g"

definition held_up :: "gate \<Rightarrow> nat \<Rightarrow> bool" where
  "held_up g a \<longleftrightarrow> (\<exists>k. actors g a = Asleep k \<and> must_wait k g)"

text \<open>The action of a waiting writer that finds the gate blocked when it wakes.\<close>

definition rejects_a_waiter :: "gate_action \<Rightarrow> gate \<Rightarrow> bool" where
  "rejects_a_waiter x g \<longleftrightarrow> (\<exists>a. x = Resume a \<and> actors g a = Woken ForWrite \<and> block_reason g \<noteq> None)"

lemma sleepers_notify_all [simp]: "sleepers (notify_all g) = {}"
proof -
  have "wake p \<noteq> Asleep k" for p k by (cases p) simp_all
  then show ?thesis by (simp add: sleepers_def notify_all_def)
qed

lemma held_up_put:
  assumes "\<forall>b \<in> sleepers g. held_up g b" and "actors h = actors g"
    and "\<And>k. must_wait k g \<Longrightarrow> must_wait k h" and "\<And>k. p = Asleep k \<Longrightarrow> must_wait k h"
  shows "\<forall>b \<in> sleepers (put a p h). held_up (put a p h) b"
proof
  have must: "must_wait k (put a p h) = must_wait k h" for k by (cases k) (simp_all add: put_def)
  fix b assume "b \<in> sleepers (put a p h)"
  then show "held_up (put a p h) b"
    using assms must by (cases "b = a") (auto simp: sleepers_def held_up_def put_def)
qed

lemma try_read_held:
  assumes "\<forall>b \<in> sleepers g. held_up g b"
  shows "\<forall>b \<in> sleepers (try_read a g). held_up (try_read a g) b"
proof (cases "gate_writing g \<or> 0 < writers_waiting g")
  case True
  then show ?thesis unfolding try_read_def by (simp del: ball_simps) (rule held_up_put [OF assms], auto)
next
  case False
  have "must_wait k (g\<lparr>gate_readers := gate_readers g + 1\<rparr>)" if "must_wait k g" for k
    using that False by (cases k) auto
  with False show ?thesis unfolding try_read_def
    by (simp del: ball_simps) (rule held_up_put [OF assms], simp_all)
qed

lemma try_write_held:
  assumes "\<forall>b \<in> sleepers g. held_up g b" and "kind \<in> {ForWrite, ForPrivileged}" and "inside \<in> {InWrite, InPrivileged}"
    and "actors h = actors g" and "\<And>k. must_wait k g \<Longrightarrow> must_wait k h"
  shows "\<forall>b \<in> sleepers (try_write kind inside a h). held_up (try_write kind inside a h) b"
proof (cases "gate_writing h \<or> 0 < gate_readers h")
  case True
  have "must_wait kind h" using True assms(2) by auto
  with True show ?thesis unfolding try_write_def by (simp del: ball_simps) (rule held_up_put [OF assms(1,4,5)], simp_all)
next
  case False
  have "must_wait k (h\<lparr>gate_writing := True, writers_waiting := writers_waiting h - 1\<rparr>)" for k by (cases k) simp_all
  with False assms(3,4) show ?thesis unfolding try_write_def
    by (simp del: ball_simps) (rule held_up_put [OF assms(1)], auto)
qed

lemma try_block_held:
  assumes "\<forall>b \<in> sleepers g. held_up g b"
  shows "\<forall>b \<in> sleepers (try_block r a g). held_up (try_block r a g) b"
proof -
  have same: "must_wait k (g\<lparr>block_reason := Some r\<rparr>) = must_wait k g" for k by (cases k) simp_all
  have "\<forall>b \<in> sleepers (put a (Asleep (ForBlocking r)) g). held_up (put a (Asleep (ForBlocking r)) g) b" if "gate_writing g"
    by (rule held_up_put [OF assms]) (use that in auto)
  moreover have "\<forall>b \<in> sleepers (put a InBlocking (g\<lparr>block_reason := Some r\<rparr>)).
      held_up (put a InBlocking (g\<lparr>block_reason := Some r\<rparr>)) b"
    by (rule held_up_put [OF assms]) (simp_all add: same)
  ultimately show ?thesis unfolding try_block_def by (cases "gate_writing g") simp_all
qed

lemma must_wait_queued: "must_wait k g \<Longrightarrow> must_wait k (g\<lparr>writers_waiting := writers_waiting g + 1\<rparr>)"
  by (cases k) auto

lemma enter_held:
  assumes "\<forall>b \<in> sleepers g. held_up g b"
  shows "\<forall>b \<in> sleepers (snd (enter_write a g)). held_up (snd (enter_write a g)) b"
    and "\<forall>b \<in> sleepers (enter_privileged a g). held_up (enter_privileged a g) b"
proof -
  have queued: "\<forall>b \<in> sleepers (try_write kind inside a (g\<lparr>writers_waiting := writers_waiting g + 1\<rparr>)).
      held_up (try_write kind inside a (g\<lparr>writers_waiting := writers_waiting g + 1\<rparr>)) b"
    if "kind \<in> {ForWrite, ForPrivileged}" "inside \<in> {InWrite, InPrivileged}" for kind inside
    by (rule try_write_held [OF assms that]) (simp_all add: must_wait_queued)
  show "\<forall>b \<in> sleepers (snd (enter_write a g)). held_up (snd (enter_write a g)) b"
    using assms queued [of ForWrite InWrite] by (cases "block_reason g") (simp_all add: enter_write_def)
  show "\<forall>b \<in> sleepers (enter_privileged a g). held_up (enter_privileged a g) b"
    using queued [of ForPrivileged InPrivileged] by (simp add: enter_privileged_def)
qed

lemma gate_act_held:
  assumes "gate_act x g = Some g'" and "\<not> rejects_a_waiter x g" and "\<forall>b \<in> sleepers g. held_up g b"
  shows "\<forall>b \<in> sleepers g'. held_up g' b"
proof (cases x)
  case (Enter a holds c)
  with assms(1,3) enter_held [OF assms(3)] try_read_held [OF assms(3)] try_block_held [OF assms(3)] show ?thesis
    by (cases c) (auto split: if_splits)
next
  case (Resume a)
  have retried: "\<forall>b \<in> sleepers (try_write kind inside a g). held_up (try_write kind inside a g) b"
    if "kind \<in> {ForWrite, ForPrivileged}" "inside \<in> {InWrite, InPrivileged}" for kind inside
    by (rule try_write_held [OF assms(3) that]) simp_all
  have open_: "actors g a = Woken ForWrite \<Longrightarrow> block_reason g = None" using assms(2) Resume by (simp add: rejects_a_waiter_def)
  from Resume assms(1) obtain k where k: "actors g a = Woken k" by (auto split: actor_state.splits)
  show ?thesis
  proof (cases k)
    case ForRead
    with k Resume assms(1) try_read_held [OF assms(3)] show ?thesis by auto
  next
    case ForWrite
    with k Resume assms(1) open_ retried [of ForWrite InWrite] show ?thesis by (auto simp: resume_write_def)
  next
    case ForPrivileged
    with k Resume assms(1) retried [of ForPrivileged InPrivileged] show ?thesis by auto
  next
    case (ForBlocking r)
    with k Resume assms(1) try_block_held [OF assms(3)] show ?thesis by auto
  qed
next
  case (Leave a)
  with assms(1) show ?thesis
    by (auto simp: leave_read_def leave_write_def leave_block_def split: actor_state.splits)
qed (use assms in \<open>auto simp: gate_set_block_def gate_clear_block_def block_repo_def unblock_repo_def split: if_splits\<close>)

interpretation gate_wakes: wake_discipline gate_act gate_ok sleepers held_up "\<lambda>x g. \<not> rejects_a_waiter x g"
  by unfold_locales (erule (1) gate_act_ok, erule (2) gate_act_held)

section \<open>Properties\<close>

definition inside :: "actor_state set" where
  "inside = {InRead, InWrite, InPrivileged}"

definition waits :: "gate \<Rightarrow> nat \<Rightarrow> bool" where
  "waits g a \<longleftrightarrow> (\<exists>k. actors g a = Asleep k \<or> actors g a = Woken k)"

definition ever_rejects_a_waiter :: "gate_action list \<Rightarrow> gate \<Rightarrow> bool" where
  "ever_rejects_a_waiter xs g \<longleftrightarrow> \<not> all_along gate_act (\<lambda>x g. \<not> rejects_a_waiter x g) xs g"

lemma reachable_ok: "run_steps gate_act xs new_gate = Some g \<Longrightarrow> gate_ok g"
  by (rule gate_wakes.run_ok [OF gate_ok_new])

lemma reachable_held:
  assumes "run_steps gate_act xs new_gate = Some g" and "\<not> ever_rejects_a_waiter xs new_gate"
  shows "\<forall>b \<in> sleepers g. held_up g b"
  by (rule gate_wakes.run_wakes [OF gate_ok_new assms(1)])
    (use assms(2) in \<open>simp_all add: ever_rejects_a_waiter_def sleepers_def new_gate_def\<close>)

lemma no_one_inside:
  assumes "gate_ok g" and "\<forall>a. actors g a \<notin> inside"
  shows "\<not> gate_writing g" and "gate_readers g = 0"
  using assms gate_ok_writing_iff [OF assms(1)]
  by (auto simp: gate_ok_def inside_def state_sets actors_in_def)

lemma waiting_writer_exists: "\<lbrakk>gate_ok g; 0 < writers_waiting g\<rbrakk> \<Longrightarrow> \<exists>a. actors g a \<in> waiting_states"
  by (auto simp: gate_ok_def actors_in_def card_gt_0_iff)

lemma waiter_gets_in:
  assumes "gate_ok g" and "\<forall>b \<in> sleepers g. held_up g b" and "\<forall>a. actors g a \<notin> inside" and "waits g b"
  shows "\<exists>a g'. waits g a \<and> gate_act (Resume a) g = Some g' \<and> \<not> waits g' a"
proof -
  note free = no_one_inside [OF assms(1,3)]
  have awake: "\<not> (\<exists>k. actors g a = Asleep k \<and> \<not> must_wait k g)" for a
    using assms(2) by (auto simp: sleepers_def held_up_def)
  show ?thesis
  proof (cases "0 < writers_waiting g")
    case True
    with waiting_writer_exists [OF assms(1)] obtain a where a: "actors g a \<in> waiting_states" by blast
    then have woken: "actors g a = Woken ForWrite \<or> actors g a = Woken ForPrivileged"
      using awake [of a] free by (auto simp: state_sets)
    then have "\<exists>g'. gate_act (Resume a) g = Some g' \<and> \<not> waits g' a"
      using free by (auto simp: resume_write_def try_write_def put_def waits_def split: option.splits)
    then show ?thesis using woken unfolding waits_def by blast
  next
    case False
    then have none: "actors g b \<notin> waiting_states"
      using assms(1) gate_ok_finite [OF assms(1), of waiting_states]
      by (auto simp: gate_ok_def state_sets actors_in_def)
    from assms(4) obtain k where k: "actors g b = Asleep k \<or> actors g b = Woken k" unfolding waits_def by blast
    with none awake [of b] free False have woken: "actors g b = Woken k" "\<not> must_wait k g"
      by (cases k; auto simp: state_sets)+
    then have "\<exists>g'. gate_act (Resume b) g = Some g' \<and> \<not> waits g' b"
      using free False none by (cases k) (auto simp: try_read_def try_block_def put_def waits_def state_sets)
    then show ?thesis using assms(4) by blast
  qed
qed

lemma no_new_reader:
  assumes "gate_act x g = Some g'" and "0 < writers_waiting g" and "actors g' a = InRead"
  shows "actors g a = InRead"
proof (cases x)
  case (Enter b holds c)
  with assms show ?thesis
    by (cases c) (auto simp: gate_ops put_def split: if_splits option.splits)
next
  case (Resume b)
  with assms show ?thesis
    by (auto simp: gate_ops put_def split: if_splits option.splits actor_state.splits wait_kind.splits)
next
  case (Leave b)
  with assms show ?thesis
    by (auto simp: gate_ops put_def notify_all_def wake_mem split: if_splits actor_state.splits)
qed (use assms in \<open>auto simp: gate_ops notify_all_def wake_mem split: if_splits\<close>)

lemma at_most_one_writer:
  assumes "gate_ok g" and "actors g a \<in> writing_states" and "actors g b \<in> writing_states"
  shows "a = b"
proof -
  have "int (card (actors_in (actors g) writing_states)) = 1"
    using assms(1) holder_means(1) [OF assms(1,2)] by (simp add: gate_ok_def)
  then obtain c where "actors_in (actors g) writing_states = {c}" by (auto simp: card_1_singleton_iff)
  moreover have "a \<in> actors_in (actors g) writing_states" "b \<in> actors_in (actors g) writing_states"
    using assms(2,3) by (simp_all add: actors_in_def)
  ultimately show ?thesis by simp
qed

text \<open>
  Claim C17. The gate excludes. However the activations of its context managers interleave, starting from a fresh gate, the counters
  say how many actors read, write and wait to write; at most one actor writes and while it does nobody
  reads. And a waiting writer shuts readers out: while one waits, no action of anybody lets in a reader that
  was not already inside.
\<close>

theorem gate_excludes_and_prefers_writers:
  assumes "run_steps gate_act xs new_gate = Some g"
  shows "gate_readers g = int (card {a. actors g a = InRead}) \<and>
    (gate_writing g \<longleftrightarrow> (\<exists>a. actors g a \<in> writing_states)) \<and>
    writers_waiting g = int (card {a. actors g a \<in> waiting_states}) \<and>
    (\<forall>a b. actors g a \<in> writing_states \<and> actors g b \<in> insert InRead writing_states \<longrightarrow> a = b) \<and>
    (\<forall>x g' a. 0 < writers_waiting g \<and> gate_act x g = Some g' \<and> actors g' a = InRead \<longrightarrow> actors g a = InRead)"
proof -
  note ok = reachable_ok [OF assms]
  have "gate_readers g = int (card {a. actors g a = InRead})" "writers_waiting g = int (card {a. actors g a \<in> waiting_states})"
    using ok by (simp_all add: gate_ok_def actors_in_def)
  moreover have "gate_writing g \<longleftrightarrow> (\<exists>a. actors g a \<in> writing_states)"
    using gate_ok_writing_iff [OF ok] by (auto simp: actors_in_def)
  moreover have "a = b" if "actors g a \<in> writing_states" "actors g b \<in> insert InRead writing_states" for a b
    using that at_most_one_writer [OF ok] holder_means [OF ok] by blast
  ultimately show ?thesis using no_new_reader by blast
qed

theorem gate_excludes_and_prefers_writers_witness:
  "\<exists>g. run_steps gate_act [Enter 1 False Reading, Enter 2 False Writing, Enter 3 False Reading] new_gate = Some g \<and>
     gate_readers g = int (card {a. actors g a = InRead}) \<and> 0 < writers_waiting g"
proof -
  define g where "g = the (run_steps gate_act [Enter 1 False Reading, Enter 2 False Writing, Enter 3 False Reading] new_gate)"
  have run: "run_steps gate_act [Enter 1 False Reading, Enter 2 False Writing, Enter 3 False Reading] new_gate = Some g"
    by (simp add: g_def gate_ops put_def new_gate_def check_lock_order_def)
  moreover have "0 < writers_waiting g" by (simp add: g_def gate_ops put_def new_gate_def check_lock_order_def)
  ultimately show ?thesis using gate_excludes_and_prefers_writers [OF run] by blast
qed

text \<open>
  Claim C33. The gate does not get stuck. In every run in which no waiting writer is turned away, an actor that sleeps has a
  reason to: its own condition still holds it up. So whenever somebody waits and nobody is reading or
  writing, some waiter is awake and its next step takes it out of the queue, into the gate or to a rejection.
\<close>

theorem gate_never_sleeps_through_a_free_gate:
  assumes "run_steps gate_act xs new_gate = Some g" and "\<not> ever_rejects_a_waiter xs new_gate"
  shows "(\<forall>a k. actors g a = Asleep k \<longrightarrow> must_wait k g) \<and>
    ((\<forall>a. actors g a \<notin> inside) \<and> (\<exists>b. waits g b) \<longrightarrow>
      (\<exists>a g'. waits g a \<and> gate_act (Resume a) g = Some g' \<and> \<not> waits g' a))"
proof -
  note held = reachable_held [OF assms]
  then have "\<forall>a k. actors g a = Asleep k \<longrightarrow> must_wait k g" by (auto simp: sleepers_def held_up_def)
  with waiter_gets_in [OF reachable_ok [OF assms(1)] held] show ?thesis by blast
qed

lemmas gate_eval = gate_ops put_def new_gate_def check_lock_order_def notify_all_def fun_eq_iff

theorem gate_never_sleeps_through_a_free_gate_witness:
  "\<exists>g a g'. run_steps gate_act [Enter 1 False Reading, Enter 2 False Writing, Enter 3 False Reading, Leave 1] new_gate = Some g \<and>
     waits g a \<and> gate_act (Resume a) g = Some g' \<and> \<not> waits g' a"
proof -
  define xs where "xs = [Enter 1 False Reading, Enter 2 False Writing, Enter 3 False Reading, Leave 1]"
  define g where "g = the (run_steps gate_act xs new_gate)"
  have run: "run_steps gate_act xs new_gate = Some g" by (simp add: g_def xs_def gate_eval)
  moreover have "\<not> ever_rejects_a_waiter xs new_gate"
    by (simp add: ever_rejects_a_waiter_def xs_def rejects_a_waiter_def gate_eval)
  moreover have "(\<forall>a. actors g a \<notin> inside) \<and> (\<exists>b. waits g b)"
    by (auto simp: g_def xs_def gate_eval inside_def waits_def intro!: exI [of _ 2])
  ultimately show ?thesis using gate_never_sleeps_through_a_free_gate [of xs g] unfolding xs_def by blast
qed

definition stranding_run :: "gate_block \<Rightarrow> gate_action list" where
  "stranding_run r =
     [Enter 1 False Reading, Enter 2 False Writing, Enter 3 False Reading, Leave 1, Resume 3, SetBlock r, Resume 3, Resume 2]"

text \<open>
  A rejected writer leaves readers asleep. There is a run, for every block reason, at whose end one reader
  sleeps although nothing holds it up: nobody reads, writes or waits to write. The writer that kept it out was turned away when it
  woke, and lowered the count of waiting writers without notifying. No activation that then enters wakes the
  reader either; only a change of the block reason, or some later activation leaving, does.
\<close>

theorem rejected_writer_strands_a_reader:
  "\<exists>g. run_steps gate_act (stranding_run r) new_gate = Some g \<and>
     actors g 3 = Asleep ForRead \<and> \<not> must_wait ForRead g \<and> (\<forall>a. a \<noteq> 3 \<longrightarrow> actors g a = Outside) \<and>
     (\<forall>a holds c g'. gate_act (Enter a holds c) g = Some g' \<longrightarrow> actors g' 3 = Asleep ForRead)"
proof -
  define g where "g = the (run_steps gate_act (stranding_run r) new_gate)"
  have run: "run_steps gate_act (stranding_run r) new_gate = Some g" by (simp add: g_def stranding_run_def gate_eval)
  have three: "actors g 3 = Asleep ForRead" and free: "\<not> must_wait ForRead g" and out: "\<forall>a. a \<noteq> 3 \<longrightarrow> actors g a = Outside"
    by (simp_all add: g_def stranding_run_def gate_eval)
  have "actors g' 3 = Asleep ForRead" if "gate_act (Enter a holds c) g = Some g'" for a holds c g'
    using that three by (cases c) (auto simp: gate_ops put_def split: if_splits option.splits)
  with run three free out show ?thesis by blast
qed

theorem rejected_writer_strands_a_reader_witness:
  "\<exists>g. run_steps gate_act (stranding_run ReadOnly) new_gate = Some g \<and> actors g 3 = Asleep ForRead \<and>
     \<not> must_wait ForRead g \<and> actors g 2 = Outside"
  using rejected_writer_strands_a_reader [of ReadOnly] by auto

end
