(* ===== verification/Index_Lock.thy ===== *)
theory Index_Lock
  imports Mutation_Gate
begin

text \<open>
  The readers-writer lock of the artifact index (\<^verbatim>\<open>src/infrastructure/artifact_index/_rwlock.py\<close>) and the lock
  order it lets the gate enforce. An activation that writes carries the identity of its thread. The lock
  has no writer priority and a leaving reader notifies only when it is the last.
\<close>

section \<open>The lock\<close>

datatype index_actor =
    Idle
  | SleepsToRead
  | SleepsToWrite nat
  | WokenToRead
  | WokenToWrite nat
  | Reads
  | Writes nat

record rw_lock =
  lock_readers :: int
  lock_writing :: bool
  writer_ident :: "nat option"
  lock_actors :: "nat \<Rightarrow> index_actor"

definition new_lock :: rw_lock where
  "new_lock = \<lparr>lock_readers = 0, lock_writing = False, writer_ident = None, lock_actors = (\<lambda>_. Idle)\<rparr>"

definition is_write_held_by :: "nat \<Rightarrow> rw_lock \<Rightarrow> bool" where
  "is_write_held_by ident l \<longleftrightarrow> lock_writing l \<and> writer_ident l = Some ident"

definition current_thread_holds_index_write :: "nat \<Rightarrow> rw_lock list \<Rightarrow> bool" where
  "current_thread_holds_index_write ident live_locks \<longleftrightarrow> list_ex (is_write_held_by ident) live_locks"

definition seat :: "nat \<Rightarrow> index_actor \<Rightarrow> rw_lock \<Rightarrow> rw_lock" where
  "seat a p l = l\<lparr>lock_actors := (lock_actors l)(a := p)\<rparr>"

fun rouse :: "index_actor \<Rightarrow> index_actor" where
  "rouse SleepsToRead = WokenToRead"
| "rouse (SleepsToWrite t) = WokenToWrite t"
| "rouse p = p"

definition notify_lock :: "rw_lock \<Rightarrow> rw_lock" where
  "notify_lock l = l\<lparr>lock_actors := rouse \<circ> lock_actors l\<rparr>"

definition acquire_read :: "nat \<Rightarrow> rw_lock \<Rightarrow> rw_lock" where
  "acquire_read a l =
     (if lock_writing l then seat a SleepsToRead l else seat a Reads (l\<lparr>lock_readers := lock_readers l + 1\<rparr>))"

definition release_read :: "nat \<Rightarrow> rw_lock \<Rightarrow> rw_lock" where
  "release_read a l =
     (let l' = seat a Idle (l\<lparr>lock_readers := lock_readers l - 1\<rparr>)
      in if lock_readers l' = 0 then notify_lock l' else l')"

definition acquire_write :: "nat \<Rightarrow> nat \<Rightarrow> rw_lock \<Rightarrow> rw_lock" where
  "acquire_write t a l =
     (if lock_writing l \<or> 0 < lock_readers l then seat a (SleepsToWrite t) l
      else seat a (Writes t) (l\<lparr>lock_writing := True, writer_ident := Some t\<rparr>))"

definition release_write :: "nat \<Rightarrow> rw_lock \<Rightarrow> rw_lock" where
  "release_write a l = notify_lock (seat a Idle (l\<lparr>lock_writing := False, writer_ident := None\<rparr>))"

datatype lock_action = EnterRead nat | EnterWrite nat nat | Retry nat | Release nat

fun lock_act :: "lock_action \<Rightarrow> rw_lock \<Rightarrow> rw_lock option" where
  "lock_act (EnterRead a) l = (if lock_actors l a = Idle then Some (acquire_read a l) else None)"
| "lock_act (EnterWrite t a) l = (if lock_actors l a = Idle then Some (acquire_write t a l) else None)"
| "lock_act (Retry a) l =
     (case lock_actors l a of
        WokenToRead \<Rightarrow> Some (acquire_read a l)
      | WokenToWrite t \<Rightarrow> Some (acquire_write t a l)
      | _ \<Rightarrow> None)"
| "lock_act (Release a) l =
     (case lock_actors l a of
        Reads \<Rightarrow> Some (release_read a l)
      | Writes t \<Rightarrow> Some (release_write a l)
      | _ \<Rightarrow> None)"

lemmas lock_ops = acquire_read_def release_read_def acquire_write_def release_write_def seat_def notify_lock_def

section \<open>Invariant\<close>

definition lock_ok :: "rw_lock \<Rightarrow> bool" where
  "lock_ok l \<longleftrightarrow>
     finite (actors_in (lock_actors l) {Reads}) \<and>
     lock_readers l = int (card (actors_in (lock_actors l) {Reads})) \<and>
     (\<forall>a t. lock_actors l a = Writes t \<longrightarrow> lock_writing l \<and> writer_ident l = Some t) \<and>
     (\<forall>a b t u. lock_actors l a = Writes t \<and> lock_actors l b = Writes u \<longrightarrow> a = b) \<and>
     (lock_writing l \<longrightarrow> lock_readers l = 0 \<and> (\<exists>a t. lock_actors l a = Writes t)) \<and>
     (\<not> lock_writing l \<longrightarrow> writer_ident l = None)"

lemma rouse_mem: "rouse p = Reads \<longleftrightarrow> p = Reads" "rouse p = Writes t \<longleftrightarrow> p = Writes t"
  by (cases p; simp)+

lemma lock_ok_notify [simp]: "lock_ok (notify_lock l) \<longleftrightarrow> lock_ok l"
  by (simp add: lock_ok_def notify_lock_def actors_in_def rouse_mem)

lemma lock_ok_new: "lock_ok new_lock"
  by (auto simp: lock_ok_def new_lock_def actors_in_def)

lemma lock_ok_finite: "lock_ok l \<Longrightarrow> finite (actors_in (lock_actors l) {Reads})"
  by (simp add: lock_ok_def)

lemma reader_means:
  assumes "lock_ok l" and "lock_actors l a = Reads"
  shows "0 < lock_readers l" and "\<not> lock_writing l"
proof -
  have "a \<in> actors_in (lock_actors l) {Reads}" using assms(2) by (simp add: actors_in_def)
  then have "0 < card (actors_in (lock_actors l) {Reads})" using lock_ok_finite [OF assms(1)] by (auto simp: card_gt_0_iff)
  then show "0 < lock_readers l" and "\<not> lock_writing l" using assms(1) by (auto simp: lock_ok_def)
qed

lemma writer_means: "\<lbrakk>lock_ok l; lock_actors l a = Writes t\<rbrakk> \<Longrightarrow> lock_writing l \<and> writer_ident l = Some t"
  by (simp add: lock_ok_def)

lemma one_writer: "\<lbrakk>lock_ok l; lock_actors l a = Writes t; lock_actors l b = Writes u\<rbrakk> \<Longrightarrow> a = b"
  unfolding lock_ok_def by blast

lemma writing_has_writer:
  assumes "lock_ok l" and "lock_writing l"
  obtains a t where "lock_actors l a = Writes t" "writer_ident l = Some t" "lock_readers l = 0"
  using assms unfolding lock_ok_def by blast

lemma not_writing: "\<lbrakk>lock_ok l; \<not> lock_writing l\<rbrakk> \<Longrightarrow> lock_actors l a \<noteq> Writes t \<and> writer_ident l = None"
  unfolding lock_ok_def by blast

lemma lock_readers_nonneg: "lock_ok l \<Longrightarrow> 0 \<le> lock_readers l"
  by (simp add: lock_ok_def)

text \<open>Seating an actor changes the reader count by what the move changes; the rest is about the writer.\<close>

lemma lock_ok_seat:
  assumes "lock_ok l" and "lock_actors m = lock_actors l"
    and "lock_readers m = lock_readers l - of_bool (lock_actors l a = Reads) + of_bool (p = Reads)"
    and "\<And>b t. (if b = a then p else lock_actors l b) = Writes t \<Longrightarrow> lock_writing m \<and> writer_ident m = Some t"
    and "\<And>b c t u. (if b = a then p else lock_actors l b) = Writes t \<Longrightarrow> (if c = a then p else lock_actors l c) = Writes u \<Longrightarrow> b = c"
    and "lock_writing m \<Longrightarrow> lock_readers m = 0 \<and> (\<exists>b t. (if b = a then p else lock_actors l b) = Writes t)"
    and "\<not> lock_writing m \<Longrightarrow> writer_ident m = None"
  shows "lock_ok (seat a p m)"
proof -
  have "lock_readers m = int (card (actors_in ((lock_actors l)(a := p)) {Reads}))"
    using card_actors_upd [OF lock_ok_finite [OF assms(1)], of a p] assms(1,3) by (simp add: lock_ok_def)
  moreover have "finite (actors_in ((lock_actors l)(a := p)) {Reads})"
    by (rule finite_actors_upd [OF lock_ok_finite [OF assms(1)]])
  moreover have "\<forall>b t. ((lock_actors l)(a := p)) b = Writes t \<longrightarrow> lock_writing m \<and> writer_ident m = Some t"
    unfolding fun_upd_apply by (intro allI impI) (rule assms(4))
  moreover have "\<forall>b c t u. ((lock_actors l)(a := p)) b = Writes t \<and> ((lock_actors l)(a := p)) c = Writes u \<longrightarrow> b = c"
    unfolding fun_upd_apply by (intro allI impI, elim conjE) (rule assms(5))
  moreover have "lock_writing m \<longrightarrow> lock_readers m = 0 \<and> (\<exists>b t. ((lock_actors l)(a := p)) b = Writes t)"
    unfolding fun_upd_apply by (intro impI) (rule assms(6))
  moreover have "\<not> lock_writing m \<longrightarrow> writer_ident m = None" using assms(7) by simp
  moreover have sel: "lock_readers (seat a p m) = lock_readers m" "lock_writing (seat a p m) = lock_writing m"
    "writer_ident (seat a p m) = writer_ident m" "lock_actors (seat a p m) = (lock_actors l)(a := p)"
    by (simp_all add: seat_def assms(2))
  ultimately show ?thesis unfolding lock_ok_def sel by (intro conjI)
qed

lemma lock_ok_seat_bystander:
  assumes "lock_ok l" and "\<And>t. lock_actors l a \<noteq> Writes t" and "\<And>t. p \<noteq> Writes t"
    and "n = lock_readers l - of_bool (lock_actors l a = Reads) + of_bool (p = Reads)"
    and "lock_writing l \<Longrightarrow> n = 0"
  shows "lock_ok (seat a p (l\<lparr>lock_readers := n\<rparr>))"
proof (rule lock_ok_seat [OF assms(1)])
  fix b t assume "(if b = a then p else lock_actors l b) = Writes t"
  then have "lock_actors l b = Writes t" using assms(3) by (auto split: if_splits)
  then show "lock_writing (l\<lparr>lock_readers := n\<rparr>) \<and> writer_ident (l\<lparr>lock_readers := n\<rparr>) = Some t"
    using writer_means [OF assms(1)] by simp
next
  fix b c t u assume "(if b = a then p else lock_actors l b) = Writes t" "(if c = a then p else lock_actors l c) = Writes u"
  then show "b = c" using assms(3) one_writer [OF assms(1)] by (auto split: if_splits)
next
  assume "lock_writing (l\<lparr>lock_readers := n\<rparr>)"
  then have w: "lock_writing l" by simp
  from writing_has_writer [OF assms(1) w] obtain b t where "lock_actors l b = Writes t" .
  moreover from this assms(2) have "b \<noteq> a" by auto
  ultimately show "lock_readers (l\<lparr>lock_readers := n\<rparr>) = 0 \<and> (\<exists>b t. (if b = a then p else lock_actors l b) = Writes t)"
    using assms(5) [OF w] by (intro conjI exI [of _ b] exI [of _ t]) simp_all
qed (use assms(4) not_writing [OF assms(1)] in simp_all)

lemma lock_ok_seat_asleep:
  assumes "lock_ok l" and "\<And>t. lock_actors l a \<noteq> Writes t" and "\<And>t. p \<noteq> Writes t"
    and "lock_actors l a \<noteq> Reads" and "p \<noteq> Reads"
  shows "lock_ok (seat a p l)"
proof -
  have "lock_readers l = 0" if "lock_writing l" using that by (rule writing_has_writer [OF assms(1)])
  with lock_ok_seat_bystander [OF assms(1-3), of "lock_readers l"] assms(4,5) show ?thesis by simp
qed

lemma acquire_read_ok:
  assumes "lock_ok l" and "lock_actors l a \<in> {Idle, WokenToRead}"
  shows "lock_ok (acquire_read a l)"
proof (cases "lock_writing l")
  case True
  have "lock_ok (seat a SleepsToRead l)" by (rule lock_ok_seat_asleep [OF assms(1)]) (use assms(2) in auto)
  with True show ?thesis by (simp add: acquire_read_def)
next
  case False
  have "lock_ok (seat a Reads (l\<lparr>lock_readers := lock_readers l + 1\<rparr>))"
    by (rule lock_ok_seat_bystander [OF assms(1)]) (use assms(2) False in auto)
  with False show ?thesis by (simp add: acquire_read_def)
qed

lemma acquire_write_ok:
  assumes "lock_ok l" and "lock_actors l a \<in> {Idle, WokenToWrite t}"
  shows "lock_ok (acquire_write t a l)"
proof (cases "lock_writing l \<or> 0 < lock_readers l")
  case True
  have "lock_ok (seat a (SleepsToWrite t) l)" by (rule lock_ok_seat_asleep [OF assms(1)]) (use assms(2) in auto)
  with True show ?thesis by (simp add: acquire_write_def)
next
  case False
  have none: "lock_actors l b \<noteq> Writes u" for b u using not_writing [OF assms(1)] False by blast
  have "lock_ok (seat a (Writes t) (l\<lparr>lock_writing := True, writer_ident := Some t\<rparr>))"
    by (rule lock_ok_seat [OF assms(1)])
      (use assms(2) none False lock_readers_nonneg [OF assms(1)] in \<open>auto split: if_splits intro: exI [of _ a]\<close>)
  with False show ?thesis by (simp add: acquire_write_def)
qed

lemma release_read_ok:
  assumes "lock_ok l" and "lock_actors l a = Reads"
  shows "lock_ok (release_read a l)"
proof -
  have "lock_ok (seat a Idle (l\<lparr>lock_readers := lock_readers l - 1\<rparr>))"
    by (rule lock_ok_seat_bystander [OF assms(1)]) (use assms(2) reader_means [OF assms] in auto)
  then show ?thesis by (simp add: release_read_def Let_def)
qed

lemma release_write_ok:
  assumes "lock_ok l" and "lock_actors l a = Writes t"
  shows "lock_ok (release_write a l)"
proof -
  have none: "(if b = a then Idle else lock_actors l b) \<noteq> Writes u" for b u
    using one_writer [OF assms(1) _ assms(2), of b u] by auto
  have "lock_ok (seat a Idle (l\<lparr>lock_writing := False, writer_ident := None\<rparr>))"
    by (rule lock_ok_seat [OF assms(1)]) (use assms(2) none in simp_all)
  then show ?thesis by (simp add: release_write_def)
qed

lemma lock_act_ok:
  assumes "lock_ok l" and "lock_act x l = Some l'"
  shows "lock_ok l'"
proof (cases x)
  case (EnterRead a)
  with assms acquire_read_ok [OF assms(1), of a] show ?thesis by (simp split: if_splits)
next
  case (EnterWrite t a)
  with assms acquire_write_ok [OF assms(1), of a t] show ?thesis by (simp split: if_splits)
next
  case (Retry a)
  with assms acquire_read_ok [OF assms(1), of a] acquire_write_ok [OF assms(1), of a] show ?thesis
    by (cases "lock_actors l a") auto
next
  case (Release a)
  with assms release_read_ok [OF assms(1), of a] release_write_ok [OF assms(1), of a] show ?thesis
    by (cases "lock_actors l a") auto
qed

section \<open>No wake-up is lost\<close>

definition index_sleepers :: "rw_lock \<Rightarrow> nat set" where
  "index_sleepers l = {a. lock_actors l a = SleepsToRead \<or> (\<exists>t. lock_actors l a = SleepsToWrite t)}"

definition index_held_up :: "rw_lock \<Rightarrow> nat \<Rightarrow> bool" where
  "index_held_up l a \<longleftrightarrow> lock_writing l \<or> (\<exists>t. lock_actors l a = SleepsToWrite t) \<and> 0 < lock_readers l"

lemma index_sleepers_notify [simp]: "index_sleepers (notify_lock l) = {}"
proof -
  have "rouse p \<noteq> SleepsToRead \<and> rouse p \<noteq> SleepsToWrite t" for p t by (cases p) simp_all
  then show ?thesis by (simp add: index_sleepers_def notify_lock_def)
qed

lemma index_held_seat:
  assumes "\<forall>b \<in> index_sleepers l. index_held_up l b" and "lock_actors m = lock_actors l"
    and "lock_writing l \<Longrightarrow> lock_writing m" and "0 < lock_readers l \<Longrightarrow> lock_writing m \<or> 0 < lock_readers m"
    and "p = SleepsToRead \<Longrightarrow> lock_writing m" and "\<And>t. p = SleepsToWrite t \<Longrightarrow> lock_writing m \<or> 0 < lock_readers m"
  shows "\<forall>b \<in> index_sleepers (seat a p m). index_held_up (seat a p m) b"
proof
  fix b assume b: "b \<in> index_sleepers (seat a p m)"
  show "index_held_up (seat a p m) b"
  proof (cases "b = a")
    case True
    with b assms(5,6) show ?thesis by (auto simp: index_sleepers_def index_held_up_def seat_def)
  next
    case False
    then have "b \<in> index_sleepers l" using b assms(2) by (simp add: index_sleepers_def seat_def)
    then have "index_held_up l b" using assms(1) by blast
    with False assms(2-4) show ?thesis by (auto simp: index_held_up_def seat_def)
  qed
qed

lemma acquire_held:
  assumes "\<forall>b \<in> index_sleepers l. index_held_up l b"
  shows "\<forall>b \<in> index_sleepers (acquire_read a l). index_held_up (acquire_read a l) b"
    and "\<forall>b \<in> index_sleepers (acquire_write t a l). index_held_up (acquire_write t a l) b"
proof -
  have "\<forall>b \<in> index_sleepers (seat a SleepsToRead l). index_held_up (seat a SleepsToRead l) b" if "lock_writing l"
    by (rule index_held_seat [OF assms]) (use that in simp_all)
  moreover have "\<forall>b \<in> index_sleepers (seat a Reads (l\<lparr>lock_readers := lock_readers l + 1\<rparr>)).
      index_held_up (seat a Reads (l\<lparr>lock_readers := lock_readers l + 1\<rparr>)) b"
    by (rule index_held_seat [OF assms]) simp_all
  ultimately show "\<forall>b \<in> index_sleepers (acquire_read a l). index_held_up (acquire_read a l) b"
    unfolding acquire_read_def by (cases "lock_writing l") simp_all
  have "\<forall>b \<in> index_sleepers (seat a (SleepsToWrite t) l). index_held_up (seat a (SleepsToWrite t) l) b"
    if "lock_writing l \<or> 0 < lock_readers l"
    by (rule index_held_seat [OF assms]) (use that in simp_all)
  moreover have "\<forall>b \<in> index_sleepers (seat a (Writes t) (l\<lparr>lock_writing := True, writer_ident := Some t\<rparr>)).
      index_held_up (seat a (Writes t) (l\<lparr>lock_writing := True, writer_ident := Some t\<rparr>)) b"
    by (rule index_held_seat [OF assms]) simp_all
  ultimately show "\<forall>b \<in> index_sleepers (acquire_write t a l). index_held_up (acquire_write t a l) b"
    unfolding acquire_write_def by (cases "lock_writing l \<or> 0 < lock_readers l") simp_all
qed

text \<open>A leaving reader that is not the last notifies nobody: what sleeps then is a writer, held up by the others.\<close>

lemma release_read_held:
  assumes "lock_ok l" and "lock_actors l a = Reads" and "\<forall>b \<in> index_sleepers l. index_held_up l b"
  shows "\<forall>b \<in> index_sleepers (release_read a l). index_held_up (release_read a l) b"
proof (cases "lock_readers l = 1")
  case True
  then show ?thesis by (simp add: release_read_def seat_def)
next
  case False
  have "\<forall>b \<in> index_sleepers (seat a Idle (l\<lparr>lock_readers := lock_readers l - 1\<rparr>)).
      index_held_up (seat a Idle (l\<lparr>lock_readers := lock_readers l - 1\<rparr>)) b"
    by (rule index_held_seat [OF assms(3)]) (use False reader_means [OF assms(1,2)] in simp_all)
  then show ?thesis by (simp add: release_read_def Let_def)
qed

lemma lock_act_held:
  assumes "lock_ok l" and "lock_act x l = Some l'" and "\<forall>b \<in> index_sleepers l. index_held_up l b"
  shows "\<forall>b \<in> index_sleepers l'. index_held_up l' b"
proof (cases x)
  case (EnterRead a)
  with assms(2) have "l' = acquire_read a l" by (simp split: if_splits)
  then show ?thesis using acquire_held(1) [OF assms(3)] by simp
next
  case (EnterWrite t a)
  with assms(2) have "l' = acquire_write t a l" by (simp split: if_splits)
  then show ?thesis using acquire_held(2) [OF assms(3)] by simp
next
  case (Retry a)
  with assms(2) consider "l' = acquire_read a l" | t where "l' = acquire_write t a l"
    by (auto split: index_actor.splits)
  then show ?thesis using acquire_held [OF assms(3)] by cases simp_all
next
  case (Release a)
  with assms(2) consider "lock_actors l a = Reads" "l' = release_read a l" | "l' = release_write a l"
    by (auto split: index_actor.splits)
  then show ?thesis using release_read_held [OF assms(1) _ assms(3)] by cases (simp_all add: release_write_def)
qed

interpretation index_wakes: wake_discipline lock_act lock_ok index_sleepers index_held_up "\<lambda>_ _. True"
  by unfold_locales (erule (1) lock_act_ok, erule (2) lock_act_held)

section \<open>Properties\<close>

lemma lock_reachable_ok: "run_steps lock_act xs new_lock = Some l \<Longrightarrow> lock_ok l"
  by (rule index_wakes.run_ok [OF lock_ok_new])

text \<open>
  The index lock excludes and loses no wake-up. In every reachable state at most one activation writes and while
  one does nobody reads; the lock names a thread as its writer exactly when an activation of that thread is
  writing; and although a leaving reader that is not the last notifies nobody, an activation that sleeps
  is held up by a writer or, if it wants to write, by a reader.
\<close>

theorem index_lock_excludes_and_loses_no_wake_up:
  assumes "run_steps lock_act xs new_lock = Some l"
  shows "(\<forall>a b t u. lock_actors l a = Writes t \<and> (lock_actors l b = Writes u \<or> lock_actors l b = Reads) \<longrightarrow> a = b) \<and>
    (\<forall>t. is_write_held_by t l \<longleftrightarrow> (\<exists>a. lock_actors l a = Writes t)) \<and>
    (\<forall>a. lock_actors l a = SleepsToRead \<longrightarrow> (\<exists>b t. lock_actors l b = Writes t)) \<and>
    (\<forall>a t. lock_actors l a = SleepsToWrite t \<longrightarrow> (\<exists>b. lock_actors l b = Reads \<or> (\<exists>u. lock_actors l b = Writes u)))"
proof -
  note ok = lock_reachable_ok [OF assms]
  have held: "\<forall>b \<in> index_sleepers l. index_held_up l b"
    by (rule index_wakes.run_wakes [OF lock_ok_new assms])
      (simp_all add: all_along_trivial index_sleepers_def new_lock_def)
  have writer: "lock_writing l \<longleftrightarrow> (\<exists>b t. lock_actors l b = Writes t)" using ok unfolding lock_ok_def by blast
  have reader: "\<exists>b. lock_actors l b = Reads" if "0 < lock_readers l"
    using that ok by (auto simp: lock_ok_def actors_in_def card_gt_0_iff)
  have "a = b" if "lock_actors l a = Writes t" "lock_actors l b = Writes u \<or> lock_actors l b = Reads" for a b t u
    using that one_writer [OF ok] reader_means(2) [OF ok] writer_means [OF ok] by blast
  moreover have "is_write_held_by t l \<longleftrightarrow> (\<exists>a. lock_actors l a = Writes t)" for t
    using writer writer_means [OF ok] by (force simp: is_write_held_by_def)
  moreover have "\<exists>b t. lock_actors l b = Writes t" if "lock_actors l a = SleepsToRead" for a
    using held that writer by (auto simp: index_sleepers_def index_held_up_def)
  moreover have "\<exists>b. lock_actors l b = Reads \<or> (\<exists>u. lock_actors l b = Writes u)" if "lock_actors l a = SleepsToWrite t" for a t
    using held that writer reader by (auto simp: index_sleepers_def index_held_up_def)
  ultimately show ?thesis by blast
qed

lemmas lock_eval = lock_ops new_lock_def Let_def fun_eq_iff

theorem index_lock_excludes_and_loses_no_wake_up_witness:
  "\<exists>l. run_steps lock_act [EnterRead 1, EnterRead 2, EnterWrite 7 3, Release 1] new_lock = Some l \<and>
     lock_actors l 3 = SleepsToWrite 7 \<and> (\<exists>b. lock_actors l b = Reads \<or> (\<exists>u. lock_actors l b = Writes u)) \<and> \<not> is_write_held_by 7 l"
proof -
  define xs where "xs = [EnterRead 1, EnterRead 2, EnterWrite 7 3, Release 1]"
  define l where "l = the (run_steps lock_act xs new_lock)"
  have run: "run_steps lock_act xs new_lock = Some l" by (simp add: l_def xs_def lock_eval)
  have "lock_actors l 3 = SleepsToWrite 7" "\<not> is_write_held_by 7 l" by (simp_all add: l_def xs_def lock_eval is_write_held_by_def)
  with index_lock_excludes_and_loses_no_wake_up [OF run] run show ?thesis unfolding xs_def by blast
qed

text \<open>
  The lock order is enforced, but not for blocking writes. Whatever the live index locks have been through, a thread that
  writes in one of them takes none of the gate's readings or writings: the gate stays as it is. Asking to block
  writes is not checked: the same thread goes to sleep at the gate while it holds the index whenever somebody
  is writing.
\<close>

theorem gate_refuses_an_index_writer_except_to_block:
  assumes "\<forall>l \<in> set live_locks. \<exists>xs. run_steps lock_act xs new_lock = Some l"
    and "l \<in> set live_locks" and "lock_actors l b = Writes t" and "actors g a = Outside"
  shows "(c \<in> {Reading, Writing, PrivilegedWriting} \<longrightarrow>
      gate_act (Enter a (current_thread_holds_index_write t live_locks) c) g = Some g) \<and>
    (gate_writing g \<longrightarrow>
      gate_act (Enter a (current_thread_holds_index_write t live_locks) (BlockingWrites r)) g = Some (put a (Asleep (ForBlocking r)) g))"
proof -
  from assms(1,2) obtain xs where "run_steps lock_act xs new_lock = Some l" by blast
  then have "is_write_held_by t l"
    using writer_means [OF lock_reachable_ok assms(3)] by (simp add: is_write_held_by_def)
  then have "current_thread_holds_index_write t live_locks"
    using assms(2) by (auto simp: current_thread_holds_index_write_def list_ex_iff)
  then show ?thesis using assms(4) by (auto simp: check_lock_order_def try_block_def)
qed

theorem gate_refuses_an_index_writer_except_to_block_witness:
  "\<exists>l. run_steps lock_act [EnterWrite 7 1] new_lock = Some l \<and>
     gate_act (Enter 5 (current_thread_holds_index_write 7 [l]) Reading) new_gate = Some new_gate"
proof -
  define l where "l = the (run_steps lock_act [EnterWrite 7 1] new_lock)"
  have run: "run_steps lock_act [EnterWrite 7 1] new_lock = Some l" by (simp add: l_def lock_eval)
  then have reach: "\<forall>l' \<in> set [l]. \<exists>xs. run_steps lock_act xs new_lock = Some l'" by (metis list.set(1,2) singletonD)
  have "lock_actors l 1 = Writes 7" "actors new_gate 5 = Outside" by (simp_all add: l_def lock_eval new_gate_def)
  from gate_refuses_an_index_writer_except_to_block [OF reach _ this, of Reading] run show ?thesis by simp
qed

end
