(* ===== verification/Query_Values.thy ===== *)
theory Query_Values
  imports Py_Values Complex_Main
begin

text \<open>
  The objects a viewpoint query compares: attribute values as YAML and the property tables give them, with
  Python's equality and ordering between them, SQL-style patterns, ranks on an ordinal scale and the
  reductions. Floats are finite and stand for their exact value; a date is its ordinal. What the interpreter
  computes by tables or rounding (case folding of patterns, sums of floats, true division, the text of an
  object that is not a string) is the record \<open>py_lib\<close>.
  Sources: \<^verbatim>\<open>src/domain/viewpoints/viewpoint_condition_evaluation.py\<close>,
  \<^verbatim>\<open>viewpoint_derived_value_reduction.py\<close>, \<^verbatim>\<open>src/domain/ontology_representation/attribute_scales.py\<close>.
\<close>

section \<open>Values\<close>

datatype val =
    VNone
  | VBool bool
  | VInt int
  | VFloat rat
  | VStr string
  | VDate int
  | VList "val list"
  | VTuple "val list"
  | VDict "(string \<times> val) list"

record py_lib =
  fold_case :: "char \<Rightarrow> char"
  sum_floats :: "rat list \<Rightarrow> rat"
  true_division :: "rat \<Rightarrow> nat \<Rightarrow> rat"
  text_of :: "val \<Rightarrow> string"

datatype reduction_error = NotComparable | NotAddable

fun number_of :: "val \<Rightarrow> rat option" where
  "number_of (VBool b) = Some (of_bool b)"
| "number_of (VInt i) = Some (of_int i)"
| "number_of (VFloat q) = Some q"
| "number_of _ = None"

text \<open>\<^verbatim>\<open>==\<close>: numbers by value whatever their type, a list never equals a tuple, a mapping by its entries.\<close>

fun py_eq :: "val \<Rightarrow> val \<Rightarrow> bool"
  and py_eqs :: "val list \<Rightarrow> val list \<Rightarrow> bool"
  and py_entries_in :: "(string \<times> val) list \<Rightarrow> (string \<times> val) list \<Rightarrow> bool" where
  "py_eq (VList vs) w = (case w of VList ws \<Rightarrow> py_eqs vs ws | _ \<Rightarrow> False)"
| "py_eq (VTuple vs) w = (case w of VTuple ws \<Rightarrow> py_eqs vs ws | _ \<Rightarrow> False)"
| "py_eq (VDict d) w = (case w of VDict e \<Rightarrow> length d = length e \<and> py_entries_in d e | _ \<Rightarrow> False)"
| "py_eq (VStr s) w = (w = VStr s)"
| "py_eq VNone w = (w = VNone)"
| "py_eq (VDate d) w = (w = VDate d)"
| "py_eq v w = (case number_of w of None \<Rightarrow> False | Some q \<Rightarrow> number_of v = Some q)"
| "py_eqs [] ws = (ws = [])"
| "py_eqs (v # vs) ws = (case ws of [] \<Rightarrow> False | w # ws' \<Rightarrow> py_eq v w \<and> py_eqs vs ws')"
| "py_entries_in [] e = True"
| "py_entries_in ((k, v) # d) e = ((case map_of e k of None \<Rightarrow> False | Some w \<Rightarrow> py_eq v w) \<and> py_entries_in d e)"

text \<open>The elements of a list or a tuple.\<close>

definition elements :: "val \<Rightarrow> val list option" where
  "elements v = (case v of VList vs \<Rightarrow> Some vs | VTuple vs \<Rightarrow> Some vs | _ \<Rightarrow> None)"

lemma elements_simps [simp]:
  "elements (VList vs) = Some vs" "elements (VTuple vs) = Some vs" "elements (VStr s) = None" "elements VNone = None"
  "elements (VBool b) = None" "elements (VInt i) = None" "elements (VFloat q) = None" "elements (VDate d) = None"
  "elements (VDict kvs) = None"
  by (simp_all add: elements_def)

section \<open>Comparators\<close>

datatype comparator =
    CmpEq | CmpNeq | CmpIn | CmpNotIn | CmpExists | CmpAbsent | CmpLt | CmpLte | CmpGt | CmpGte | CmpLike | CmpIlike

definition NUMERIC_OPERATORS :: "comparator set" where
  "NUMERIC_OPERATORS = {CmpLt, CmpLte, CmpGt, CmpGte}"

definition STRING_PATTERN_OPERATORS :: "comparator set" where
  "STRING_PATTERN_OPERATORS = {CmpLike, CmpIlike}"

fun ordered :: "comparator \<Rightarrow> 'a :: linorder \<Rightarrow> 'a \<Rightarrow> bool" where
  "ordered CmpLt a b = (a < b)"
| "ordered CmpLte a b = (a \<le> b)"
| "ordered CmpGt a b = (a > b)"
| "ordered _ a b = (a \<ge> b)"

text \<open>
  \<^verbatim>\<open><\<close>, \<^verbatim>\<open><=\<close>, \<^verbatim>\<open>>\<close> and \<^verbatim>\<open>>=\<close>; \<^const>\<open>None\<close> is the \<^verbatim>\<open>TypeError\<close>. Sequences compare at the first place
  where they differ, and by length where they do not.
\<close>

fun py_order :: "comparator \<Rightarrow> val \<Rightarrow> val \<Rightarrow> bool option"
  and py_orders :: "comparator \<Rightarrow> val list \<Rightarrow> val list \<Rightarrow> bool option" where
  "py_order c (VList vs) w = (case w of VList ws \<Rightarrow> py_orders c vs ws | _ \<Rightarrow> None)"
| "py_order c (VTuple vs) w = (case w of VTuple ws \<Rightarrow> py_orders c vs ws | _ \<Rightarrow> None)"
| "py_order c (VStr s) w = (case w of VStr t \<Rightarrow> Some (ordered c s t) | _ \<Rightarrow> None)"
| "py_order c (VDate d) w = (case w of VDate e \<Rightarrow> Some (ordered c d e) | _ \<Rightarrow> None)"
| "py_order c VNone w = None"
| "py_order c (VDict d) w = None"
| "py_order c v w = (case (number_of v, number_of w) of (Some p, Some q) \<Rightarrow> Some (ordered c p q) | _ \<Rightarrow> None)"
| "py_orders c [] ws = Some (ordered c 0 (length ws))"
| "py_orders c (v # vs) ws =
     (case ws of
        [] \<Rightarrow> Some (ordered c (Suc (length vs)) 0)
      | w # ws' \<Rightarrow> if py_eq v w then py_orders c vs ws' else py_order c v w)"

definition numeric_compare :: "comparator \<Rightarrow> val \<Rightarrow> val \<Rightarrow> bool" where
  "numeric_compare c v w = (py_order c v w = Some True)"

section \<open>Patterns\<close>

datatype like_token = AnyRun | AnyChar | Exactly char

fun like_token_of :: "char \<Rightarrow> like_token" where
  "like_token_of c = (if c = CHR ''%'' then AnyRun else if c = CHR ''_'' then AnyChar else Exactly c)"

fun compile_like_pattern :: "string \<Rightarrow> like_token list" where
  "compile_like_pattern [] = []"
| "compile_like_pattern [c] = [like_token_of c]"
| "compile_like_pattern (c # d # cs) =
     (if c = CHR 0x5C then Exactly d # compile_like_pattern cs
      else like_token_of c # compile_like_pattern (d # cs))"

text \<open>
  The compiled expression is anchored by \<^verbatim>\<open>^\<close> and \<^verbatim>\<open>$\<close> and matched with \<^verbatim>\<open>DOTALL\<close>. Without \<^verbatim>\<open>MULTILINE\<close> a
  \<^verbatim>\<open>$\<close> holds at the end of the text and before a line feed that ends it.
\<close>

function regex_match :: "(char \<Rightarrow> char \<Rightarrow> bool) \<Rightarrow> like_token list \<Rightarrow> string \<Rightarrow> bool" where
  "regex_match same [] s = (s = [] \<or> s = [CHR 0x0A])"
| "regex_match same (Exactly c # ts) s = (case s of [] \<Rightarrow> False | d # s' \<Rightarrow> same c d \<and> regex_match same ts s')"
| "regex_match same (AnyChar # ts) s = (case s of [] \<Rightarrow> False | d # s' \<Rightarrow> regex_match same ts s')"
| "regex_match same (AnyRun # ts) s =
     (regex_match same ts s \<or> (case s of [] \<Rightarrow> False | d # s' \<Rightarrow> regex_match same (AnyRun # ts) s'))"
  by pat_completeness auto

termination by (relation "measures [\<lambda>(same, ts, s). length ts, \<lambda>(same, ts, s). length s]") auto

definition like_match :: "py_lib \<Rightarrow> bool \<Rightarrow> val \<Rightarrow> val \<Rightarrow> bool" where
  "like_match lib ignore_case pattern text =
     (case (pattern, text) of
        (VStr p, VStr t) \<Rightarrow>
          regex_match (\<lambda>c d. if ignore_case then fold_case lib c = fold_case lib d else c = d)
            (compile_like_pattern p) t
      | _ \<Rightarrow> False)"

section \<open>Ordinal scales\<close>

fun position :: "string \<Rightarrow> string list \<Rightarrow> nat option" where
  "position s [] = None"
| "position s (m # ms) = (if s = m then Some 0 else map_option Suc (position s ms))"

definition ordinal_rank :: "val \<Rightarrow> string list \<Rightarrow> nat option" where
  "ordinal_rank v scale = (case v of VStr s \<Rightarrow> position s scale | _ \<Rightarrow> None)"

text \<open>\<^verbatim>\<open>max\<close> and \<^verbatim>\<open>min\<close> with a key give the first of the elements whose key is extreme.\<close>

fun first_extreme :: "('k :: linorder \<Rightarrow> 'k \<Rightarrow> bool) \<Rightarrow> ('k \<times> 'a) \<Rightarrow> ('k \<times> 'a) list \<Rightarrow> 'k \<times> 'a" where
  "first_extreme better best [] = best"
| "first_extreme better best (x # xs) = first_extreme better (if better (fst x) (fst best) then x else best) xs"

definition ordinal_extreme :: "bool \<Rightarrow> string list \<Rightarrow> val list \<Rightarrow> val" where
  "ordinal_extreme highest scale vs =
     (case List.map_filter (\<lambda>v. map_option (\<lambda>r. (r, v)) (ordinal_rank v scale)) vs of
        [] \<Rightarrow> VNone
      | x # xs \<Rightarrow> snd (first_extreme (if highest then (>) else (<)) x xs))"

definition ordinal_scales_match :: "string list option \<Rightarrow> string list option \<Rightarrow> bool" where
  "ordinal_scales_match left right \<longleftrightarrow> left \<noteq> None \<and> left = right"

section \<open>Reductions\<close>

datatype aggregate = AggCount | AggSum | AggAvg | AggMin | AggMax

fun all_integers :: "val list \<Rightarrow> int list option" where
  "all_integers [] = Some []"
| "all_integers (v # vs) =
     (case v of
        VInt i \<Rightarrow> map_option ((#) i) (all_integers vs)
      | VBool b \<Rightarrow> map_option ((#) (of_bool b)) (all_integers vs)
      | _ \<Rightarrow> None)"

fun all_numbers :: "val list \<Rightarrow> rat list option" where
  "all_numbers [] = Some []"
| "all_numbers (v # vs) =
     (case number_of v of None \<Rightarrow> None | Some q \<Rightarrow> map_option ((#) q) (all_numbers vs))"

text \<open>\<^verbatim>\<open>sum\<close> starts from the integer zero, so whatever is not a number raises.\<close>

definition py_sum :: "py_lib \<Rightarrow> val list \<Rightarrow> (reduction_error, val) result" where
  "py_sum lib vs =
     (case all_integers vs of
        Some is \<Rightarrow> Ok (VInt (sum_list is))
      | None \<Rightarrow> (case all_numbers vs of Some qs \<Rightarrow> Ok (VFloat (sum_floats lib qs)) | None \<Rightarrow> Err NotAddable))"

definition py_avg :: "py_lib \<Rightarrow> val list \<Rightarrow> (reduction_error, val) result" where
  "py_avg lib vs =
     bind_result (py_sum lib vs)
       (\<lambda>total. Ok (case number_of total of
          Some q \<Rightarrow> VFloat (true_division lib q (length vs)) | None \<Rightarrow> VNone))"

fun py_extreme :: "comparator \<Rightarrow> val \<Rightarrow> val list \<Rightarrow> (reduction_error, val) result" where
  "py_extreme c best [] = Ok best"
| "py_extreme c best (v # vs) =
     (case py_order c v best of
        None \<Rightarrow> Err NotComparable
      | Some better \<Rightarrow> py_extreme c (if better then v else best) vs)"

text \<open>The values are already without \<^verbatim>\<open>None\<close>.\<close>

definition reduce_present :: "py_lib \<Rightarrow> aggregate \<Rightarrow> string list option \<Rightarrow> val list \<Rightarrow> (reduction_error, val) result" where
  "reduce_present lib agg scale vs =
     (case (agg, scale) of
        (AggCount, _) \<Rightarrow> Ok (VInt (int (length vs)))
      | (AggMin, Some sc) \<Rightarrow> Ok (ordinal_extreme False sc vs)
      | (AggMax, Some sc) \<Rightarrow> Ok (ordinal_extreme True sc vs)
      | (AggSum, _) \<Rightarrow> if vs = [] then Ok (VInt 0) else py_sum lib vs
      | (AggAvg, _) \<Rightarrow> if vs = [] then Ok VNone else py_avg lib vs
      | (AggMin, None) \<Rightarrow> (case vs of [] \<Rightarrow> Ok VNone | v # vs' \<Rightarrow> py_extreme CmpLt v vs')
      | (AggMax, None) \<Rightarrow> (case vs of [] \<Rightarrow> Ok VNone | v # vs' \<Rightarrow> py_extreme CmpGt v vs'))"

end
