(* ===== verification/Criteria.thy ===== *)
theory Criteria
  imports Query_Values Reachability
begin

text \<open>
  The condition trees of viewpoint queries (\<^verbatim>\<open>src/domain/viewpoints/viewpoint_criteria.py\<close>) and their mapping
  form (\<^verbatim>\<open>viewpoint_criteria_parsing.py\<close>, \<^verbatim>\<open>viewpoint_criteria_serialization.py\<close>). The two group classes of
  the source differ only in what their children may be, so a group is one datatype over its children.
\<close>

section \<open>Trees\<close>

datatype conjunction = ConjAnd | ConjOr

datatype value_ref_kind = LiteralRef | SelfRef | EndpointRef | BindingRef | ParameterRef

datatype endpoint_side = SourceSide | TargetSide

datatype quantifier = QuantAny | QuantAll

datatype traversal = TDirect | TDerived | TBoth

record value_ref =
  ref_kind :: value_ref_kind
  ref_literal :: val
  ref_attribute :: "string option"
  ref_endpoint :: "endpoint_side option"
  ref_binding :: "string option"
  ref_parameter :: "string option"
  ref_project :: "string option"
  ref_aggregate :: "aggregate option"
  ref_quantifier :: "quantifier option"

definition default_ref :: value_ref where
  "default_ref = \<lparr>ref_kind = LiteralRef, ref_literal = VNone, ref_attribute = None, ref_endpoint = None,
     ref_binding = None, ref_parameter = None, ref_project = None, ref_aggregate = None, ref_quantifier = None\<rparr>"

record attribute_condition =
  cond_attribute :: string
  cond_comparator :: comparator
  cond_value :: value_ref
  cond_negate :: bool

datatype 'n criteria_group = CriteriaGroup (group_conjunction: conjunction) (group_children: "'n list") (group_negate: bool)

datatype connection_node =
    ConnectionCondition attribute_condition
  | ConnectionSubgroup "connection_node criteria_group"

type_synonym connection_group = "connection_node criteria_group"

datatype 'n incident_condition =
  IncidentCondition
    (inc_connection: "connection_group option")
    (inc_direction: incident_direction)
    (inc_endpoint: "'n criteria_group option")
    (inc_negate: bool)
    (inc_traversal: traversal)
    (inc_potential: bool)
    (inc_hops: "int option")

datatype entity_node =
    EntityCondition attribute_condition
  | EntitySubgroup "entity_node criteria_group"
  | IncidentNode "entity_node incident_condition"

type_synonym entity_group = "entity_node criteria_group"

definition empty_group :: "'n criteria_group" where
  "empty_group = CriteriaGroup ConjAnd [] False"

record connection_selection =
  sel_enabled :: bool
  sel_criteria :: connection_group
  sel_traversal :: traversal
  sel_potential :: bool
  sel_hops :: "int option"

record neighbor_inclusion =
  incl_connection :: "connection_group option"
  incl_direction :: incident_direction
  incl_neighbor :: "entity_group option"
  incl_traversal :: traversal
  incl_potential :: bool
  incl_hops :: "int option"

section \<open>Writing\<close>

fun comparator_name :: "comparator \<Rightarrow> string" where
  "comparator_name CmpEq = ''eq''"
| "comparator_name CmpNeq = ''neq''"
| "comparator_name CmpIn = ''in''"
| "comparator_name CmpNotIn = ''not_in''"
| "comparator_name CmpExists = ''exists''"
| "comparator_name CmpAbsent = ''absent''"
| "comparator_name CmpLt = ''lt''"
| "comparator_name CmpLte = ''lte''"
| "comparator_name CmpGt = ''gt''"
| "comparator_name CmpGte = ''gte''"
| "comparator_name CmpLike = ''like''"
| "comparator_name CmpIlike = ''ilike''"

fun conjunction_name :: "conjunction \<Rightarrow> string" where
  "conjunction_name ConjAnd = ''and''"
| "conjunction_name ConjOr = ''or''"

fun direction_name :: "incident_direction \<Rightarrow> string" where
  "direction_name Outgoing = ''outgoing''"
| "direction_name Incoming = ''incoming''"
| "direction_name Either = ''either''"

fun traversal_name :: "traversal \<Rightarrow> string" where
  "traversal_name TDirect = ''direct''"
| "traversal_name TDerived = ''derived''"
| "traversal_name TBoth = ''both''"

fun aggregate_name :: "aggregate \<Rightarrow> string" where
  "aggregate_name AggCount = ''count''"
| "aggregate_name AggSum = ''sum''"
| "aggregate_name AggAvg = ''avg''"
| "aggregate_name AggMin = ''min''"
| "aggregate_name AggMax = ''max''"

fun quantifier_name :: "quantifier \<Rightarrow> string" where
  "quantifier_name QuantAny = ''any''"
| "quantifier_name QuantAll = ''all''"

fun side_name :: "endpoint_side \<Rightarrow> string" where
  "side_name SourceSide = ''source''"
| "side_name TargetSide = ''target''"

type_synonym mapping = "(string \<times> val) list"

text \<open>An entry that is written only where the option holds something, or only where the flag is set.\<close>

definition entry :: "string \<Rightarrow> ('a \<Rightarrow> val) \<Rightarrow> 'a option \<Rightarrow> mapping" where
  "entry k f x = (case x of None \<Rightarrow> [] | Some a \<Rightarrow> [(k, f a)])"

definition flag :: "string \<Rightarrow> bool \<Rightarrow> mapping" where
  "flag k b = (if b then [(k, VBool True)] else [])"

definition text_val :: "string option \<Rightarrow> val" where
  "text_val s = (case s of None \<Rightarrow> VNone | Some t \<Rightarrow> VStr t)"

definition value_ref_to_raw :: "value_ref \<Rightarrow> val" where
  "value_ref_to_raw r =
     (case ref_kind r of
        LiteralRef \<Rightarrow> ref_literal r
      | ParameterRef \<Rightarrow> VDict [(''from'', VStr ''parameter''), (''name'', text_val (ref_parameter r))]
      | BindingRef \<Rightarrow> VDict ([(''from'', VStr ''binding''), (''name'', text_val (ref_binding r))] @
          entry ''project'' VStr (ref_project r) @
          entry ''aggregate'' (VStr \<circ> aggregate_name) (ref_aggregate r) @
          entry ''quantifier'' (VStr \<circ> quantifier_name) (ref_quantifier r))
      | SelfRef \<Rightarrow> VDict [(''from'', VStr ''self''), (''attribute'', text_val (ref_attribute r))]
      | EndpointRef \<Rightarrow> VDict [(''from'', text_val (map_option side_name (ref_endpoint r))), (''attribute'', text_val (ref_attribute r))])"

definition condition_to_mapping :: "attribute_condition \<Rightarrow> mapping" where
  "condition_to_mapping c =
     [(''kind'', VStr ''condition''), (''attribute'', VStr (cond_attribute c)),
      (''comparator'', VStr (comparator_name (cond_comparator c)))] @
     (if cond_value c = default_ref then [] else [(''value'', value_ref_to_raw (cond_value c))]) @
     flag ''negate'' (cond_negate c)"

definition group_mapping :: "conjunction \<Rightarrow> val list \<Rightarrow> bool \<Rightarrow> val" where
  "group_mapping cj vs neg =
     VDict ([(''kind'', VStr ''group''), (''conjunction'', VStr (conjunction_name cj)), (''children'', VList vs)] @ flag ''negate'' neg)"

fun connection_node_to_mapping :: "connection_node \<Rightarrow> val" where
  "connection_node_to_mapping (ConnectionCondition c) = VDict (condition_to_mapping c)"
| "connection_node_to_mapping (ConnectionSubgroup (CriteriaGroup cj ns neg)) =
     group_mapping cj (map connection_node_to_mapping ns) neg"

definition connection_group_to_mapping :: "connection_group \<Rightarrow> val" where
  "connection_group_to_mapping g = connection_node_to_mapping (ConnectionSubgroup g)"

fun entity_node_to_mapping :: "entity_node \<Rightarrow> val" where
  "entity_node_to_mapping (EntityCondition c) = VDict (condition_to_mapping c)"
| "entity_node_to_mapping (EntitySubgroup (CriteriaGroup cj ns neg)) =
     group_mapping cj (map entity_node_to_mapping ns) neg"
| "entity_node_to_mapping (IncidentNode (IncidentCondition cg d eg neg t p h)) =
     VDict ([(''kind'', VStr ''incident'')] @
       (if d \<noteq> Either then [(''direction'', VStr (direction_name d))] else []) @
       entry ''connection_criteria'' connection_group_to_mapping cg @
       (case eg of None \<Rightarrow> [] | Some g \<Rightarrow> [(''endpoint_criteria'', entity_node_to_mapping (EntitySubgroup g))]) @
       flag ''negate'' neg @
       [(''traversal'', VStr (traversal_name t))] @
       flag ''include_potential'' p @
       entry ''max_hops'' VInt h)"

definition entity_group_to_mapping :: "entity_group \<Rightarrow> val" where
  "entity_group_to_mapping g = entity_node_to_mapping (EntitySubgroup g)"

definition neighbor_inclusion_to_mapping :: "neighbor_inclusion \<Rightarrow> val" where
  "neighbor_inclusion_to_mapping i =
     VDict ((if incl_direction i \<noteq> Either then [(''direction'', VStr (direction_name (incl_direction i)))] else []) @
       entry ''connection_criteria'' connection_group_to_mapping (incl_connection i) @
       entry ''neighbor_criteria'' entity_group_to_mapping (incl_neighbor i) @
       (if incl_traversal i \<noteq> TDirect then [(''traversal'', VStr (traversal_name (incl_traversal i)))] else []) @
       flag ''include_potential'' (incl_potential i) @
       entry ''max_hops'' VInt (incl_hops i))"

definition connection_selection_to_mapping :: "connection_selection \<Rightarrow> val" where
  "connection_selection_to_mapping s =
     VDict ((if \<not> sel_enabled s then [(''enabled'', VBool False)] else []) @
       (if sel_criteria s \<noteq> empty_group then [(''criteria'', connection_group_to_mapping (sel_criteria s))] else []) @
       (if sel_traversal s \<noteq> TDirect then [(''traversal'', VStr (traversal_name (sel_traversal s)))] else []) @
       flag ''include_potential'' (sel_potential s) @
       entry ''max_hops'' VInt (sel_hops s))"

section \<open>Reading\<close>

datatype criteria_error = BadCriteria | MissingKey string | NotHashable

fun val_truth :: "val \<Rightarrow> bool" where
  "val_truth VNone = False"
| "val_truth (VBool b) = b"
| "val_truth (VInt i) = (i \<noteq> 0)"
| "val_truth (VFloat q) = (q \<noteq> 0)"
| "val_truth (VStr s) = (s \<noteq> [])"
| "val_truth (VDate d) = True"
| "val_truth (VList vs) = (vs \<noteq> [])"
| "val_truth (VTuple vs) = (vs \<noteq> [])"
| "val_truth (VDict d) = (d \<noteq> [])"

fun hashable :: "val \<Rightarrow> bool" where
  "hashable (VList vs) = False"
| "hashable (VDict d) = False"
| "hashable (VTuple vs) = list_all hashable vs"
| "hashable v = True"

definition str_val :: "py_lib \<Rightarrow> val \<Rightarrow> string" where
  "str_val lib v = (case v of VStr s \<Rightarrow> s | _ \<Rightarrow> text_of lib v)"

definition dict_get :: "mapping \<Rightarrow> string \<Rightarrow> val \<Rightarrow> val" where
  "dict_get d k v = (case map_of d k of None \<Rightarrow> v | Some w \<Rightarrow> w)"

definition check_keys :: "mapping \<Rightarrow> string list \<Rightarrow> (criteria_error, unit) result" where
  "check_keys d allowed = raise_if (\<not> set (map fst d) \<subseteq> set allowed) BadCriteria"

text \<open>The member of a vocabulary that has the given text.\<close>

definition named :: "('a \<Rightarrow> string) \<Rightarrow> 'a list \<Rightarrow> string \<Rightarrow> (criteria_error, 'a) result" where
  "named f xs s = (case List.find (\<lambda>x. f x = s) xs of None \<Rightarrow> Err BadCriteria | Some x \<Rightarrow> Ok x)"

definition all_comparators :: "comparator list" where
  "all_comparators = [CmpEq, CmpNeq, CmpIn, CmpNotIn, CmpExists, CmpAbsent, CmpLt, CmpLte, CmpGt, CmpGte, CmpLike, CmpIlike]"

definition require_comparator :: "py_lib \<Rightarrow> val \<Rightarrow> (criteria_error, comparator) result" where
  "require_comparator lib v = named comparator_name all_comparators (str_val lib v)"

definition require_conjunction :: "py_lib \<Rightarrow> val \<Rightarrow> (criteria_error, conjunction) result" where
  "require_conjunction lib v = named conjunction_name [ConjAnd, ConjOr] (str_val lib v)"

definition require_direction :: "py_lib \<Rightarrow> val \<Rightarrow> (criteria_error, incident_direction) result" where
  "require_direction lib v = named direction_name [Outgoing, Incoming, Either] (str_val lib v)"

text \<open>Membership of an object in a set of strings hashes it first.\<close>

definition in_vocabulary :: "('a \<Rightarrow> string) \<Rightarrow> 'a list \<Rightarrow> val \<Rightarrow> (criteria_error, 'a) result" where
  "in_vocabulary f xs v =
     (if \<not> hashable v then Err NotHashable
      else case v of VStr s \<Rightarrow> named f xs s | _ \<Rightarrow> Err BadCriteria)"

definition require_traversal :: "val \<Rightarrow> (criteria_error, traversal) result" where
  "require_traversal v = in_vocabulary traversal_name [TDirect, TDerived] v"

definition require_incident_traversal :: "val \<Rightarrow> (criteria_error, traversal) result" where
  "require_incident_traversal v = in_vocabulary traversal_name [TDirect, TDerived, TBoth] v"

definition optional_hops :: "val \<Rightarrow> (criteria_error, int option) result" where
  "optional_hops v =
     (case v of VNone \<Rightarrow> Ok None
      | VInt i \<Rightarrow> if i < 2 then Err BadCriteria else Ok (Some i)
      | _ \<Rightarrow> Err BadCriteria)"

definition optional_named :: "('a \<Rightarrow> string) \<Rightarrow> 'a list \<Rightarrow> val \<Rightarrow> (criteria_error, 'a option) result" where
  "optional_named f xs v =
     (case v of VNone \<Rightarrow> Ok None | _ \<Rightarrow> bind_result (in_vocabulary f xs v) (\<lambda>x. Ok (Some x)))"

definition value_ref_keys :: "string list" where
  "value_ref_keys = [''from'', ''attribute'', ''name'', ''project'', ''aggregate'', ''quantifier'']"

definition binding_ref_from :: "py_lib \<Rightarrow> string \<Rightarrow> mapping \<Rightarrow> (criteria_error, value_ref) result" where
  "binding_ref_from lib nm d =
     bind_result (optional_named aggregate_name [AggCount, AggSum, AggAvg, AggMin, AggMax] (dict_get d ''aggregate'' VNone))
       (\<lambda>agg. bind_result (optional_named quantifier_name [QuantAny, QuantAll] (dict_get d ''quantifier'' VNone))
         (\<lambda>q. Ok (default_ref\<lparr>ref_kind := BindingRef, ref_binding := Some nm,
            ref_project := (case dict_get d ''project'' VNone of VNone \<Rightarrow> None | v \<Rightarrow> Some (str_val lib v)),
            ref_aggregate := agg, ref_quantifier := q\<rparr>)))"

definition value_ref_from_raw :: "py_lib \<Rightarrow> val \<Rightarrow> (criteria_error, value_ref) result" where
  "value_ref_from_raw lib raw =
     (case raw of
        VDict d \<Rightarrow>
          (case map_of d ''from'' of
             None \<Rightarrow> Ok (default_ref\<lparr>ref_literal := raw\<rparr>)
           | Some origin \<Rightarrow>
               bind_result (check_keys d value_ref_keys)
                 (\<lambda>_. let whence = str_val lib origin in
                   if whence \<in> {''binding'', ''parameter''}
                   then (case dict_get d ''name'' VNone of
                           VStr nm \<Rightarrow>
                             if nm = [] then Err BadCriteria
                             else if whence = ''parameter''
                             then Ok (default_ref\<lparr>ref_kind := ParameterRef, ref_parameter := Some nm\<rparr>)
                             else binding_ref_from lib nm d
                         | _ \<Rightarrow> Err BadCriteria)
                   else if whence \<notin> {''self'', ''source'', ''target''} then Err BadCriteria
                   else let attr = dict_get d ''attribute'' VNone in
                     if \<not> val_truth attr then Err BadCriteria
                     else if whence = ''self''
                     then Ok (default_ref\<lparr>ref_kind := SelfRef, ref_attribute := Some (str_val lib attr)\<rparr>)
                     else Ok (default_ref\<lparr>ref_kind := EndpointRef, ref_attribute := Some (str_val lib attr),
                        ref_endpoint := Some (if whence = ''source'' then SourceSide else TargetSide)\<rparr>)))
      | _ \<Rightarrow> Ok (default_ref\<lparr>ref_literal := raw\<rparr>))"

definition required_key :: "mapping \<Rightarrow> string \<Rightarrow> (criteria_error, val) result" where
  "required_key d k = (case map_of d k of None \<Rightarrow> Err (MissingKey k) | Some v \<Rightarrow> Ok v)"

definition condition_from_raw :: "py_lib \<Rightarrow> mapping \<Rightarrow> (criteria_error, attribute_condition) result" where
  "condition_from_raw lib d =
     bind_result (check_keys d [''kind'', ''attribute'', ''comparator'', ''value'', ''negate''])
       (\<lambda>_. bind_result (required_key d ''attribute'')
         (\<lambda>a. bind_result (bind_result (required_key d ''comparator'') (require_comparator lib))
           (\<lambda>c. bind_result (value_ref_from_raw lib (dict_get d ''value'' VNone))
             (\<lambda>r. Ok \<lparr>cond_attribute = str_val lib a, cond_comparator = c, cond_value = r,
               cond_negate = val_truth (dict_get d ''negate'' (VBool False))\<rparr>))))"

definition children_from_raw :: "val \<Rightarrow> (criteria_error, val list) result" where
  "children_from_raw v = (case elements v of None \<Rightarrow> Err BadCriteria | Some vs \<Rightarrow> Ok vs)"

definition group_keys :: "string list" where
  "group_keys = [''kind'', ''conjunction'', ''children'', ''negate'']"

definition has_kind :: "mapping \<Rightarrow> string \<Rightarrow> bool" where
  "has_kind d k \<longleftrightarrow> map_of d ''kind'' = Some (VStr k)"

definition finish_group :: "py_lib \<Rightarrow> mapping \<Rightarrow> 'n list \<Rightarrow> (criteria_error, 'n criteria_group) result" where
  "finish_group lib d ns =
     bind_result (require_conjunction lib (dict_get d ''conjunction'' (VStr ''and'')))
       (\<lambda>cj. Ok (CriteriaGroup cj ns (val_truth (dict_get d ''negate'' (VBool False)))))"

lemma traverse_cong [fundef_cong]:
  "\<lbrakk>xs = ys; \<And>x. x \<in> set ys \<Longrightarrow> f x = g x\<rbrakk> \<Longrightarrow> traverse f xs = traverse g ys"
proof (induction xs arbitrary: ys)
  case (Cons x xs)
  have tail: "traverse f xs = traverse g xs" by (rule Cons.IH) (use Cons.prems in auto)
  have head: "f x = g x" by (rule Cons.prems(2)) (use Cons.prems(1) in auto)
  show ?case unfolding Cons.prems(1) [symmetric] traverse.simps head tail ..
qed simp

lemma size_dict_entry: "map_of d k = Some v \<Longrightarrow> size v < size (VDict d)"
  by (induction d) (auto split: if_splits)

lemma size_dict_get: "size (dict_get d k (VList [])) \<le> size (VDict d)"
  by (auto simp: dict_get_def dest: size_dict_entry split: option.split)

lemma size_elements: "\<lbrakk>elements v = Some vs; w \<in> set vs\<rbrakk> \<Longrightarrow> size w < size v"
  by (auto simp: elements_def dest: size_list_estimation' [OF _ order.refl, where f = size] split: val.splits)

lemma size_children:
  assumes "children_from_raw (dict_get d ''children'' (VList [])) = Ok vs" and "w \<in> set vs"
  shows "size w < size (VDict d)"
  using assms size_elements size_dict_get [of d "''children''"]
  by (fastforce simp: children_from_raw_def split: option.splits)

function parse_connection_node :: "py_lib \<Rightarrow> val \<Rightarrow> (criteria_error, connection_node) result"
  and parse_connection_group :: "py_lib \<Rightarrow> val \<Rightarrow> (criteria_error, connection_group) result" where
  "parse_connection_node lib raw =
     (case raw of
        VDict d \<Rightarrow>
          if has_kind d ''condition'' then bind_result (condition_from_raw lib d) (\<lambda>c. Ok (ConnectionCondition c))
          else if has_kind d ''group'' then bind_result (parse_connection_group lib raw) (\<lambda>g. Ok (ConnectionSubgroup g))
          else Err BadCriteria
      | _ \<Rightarrow> Err BadCriteria)"
| "parse_connection_group lib raw =
     (case raw of
        VDict d \<Rightarrow>
          if \<not> has_kind d ''group'' then Err BadCriteria
          else (case check_keys d group_keys of
              Inl e \<Rightarrow> Err e
            | Inr _ \<Rightarrow>
                (case children_from_raw (dict_get d ''children'' (VList [])) of
                   Inl e \<Rightarrow> Err e
                 | Inr vs \<Rightarrow> bind_result (traverse (parse_connection_node lib) vs) (finish_group lib d)))
      | _ \<Rightarrow> Err BadCriteria)"
  by pat_completeness auto

termination
  by (relation "measure (\<lambda>x. case x of Inl (_, v) \<Rightarrow> 2 * size v + 1 | Inr (_, v) \<Rightarrow> 2 * size v)")
    (auto dest!: size_children)

declare parse_connection_node.simps [simp del] parse_connection_group.simps [simp del]

definition incident_keys :: "string list" where
  "incident_keys = [''kind'', ''direction'', ''connection_criteria'', ''endpoint_criteria'', ''negate'', ''traversal'',
     ''include_potential'', ''max_hops'']"

text \<open>A group under a key that may be absent or null.\<close>

definition optional_connection_group :: "py_lib \<Rightarrow> val \<Rightarrow> (criteria_error, connection_group option) result" where
  "optional_connection_group lib v =
     (if v = VNone then Ok None else bind_result (parse_connection_group lib v) (\<lambda>g. Ok (Some g)))"

definition finish_incident ::
    "py_lib \<Rightarrow> mapping \<Rightarrow> (criteria_error, 'n criteria_group option) result \<Rightarrow> (criteria_error, 'n incident_condition) result" where
  "finish_incident lib d endpoint_group =
     bind_result (optional_connection_group lib (dict_get d ''connection_criteria'' VNone))
       (\<lambda>cg. bind_result (require_direction lib (dict_get d ''direction'' (VStr ''either'')))
         (\<lambda>dir. bind_result endpoint_group
           (\<lambda>eg. bind_result (require_incident_traversal (dict_get d ''traversal'' (VStr ''direct'')))
             (\<lambda>t. bind_result (optional_hops (dict_get d ''max_hops'' VNone))
               (\<lambda>h. Ok (IncidentCondition cg dir eg (val_truth (dict_get d ''negate'' (VBool False))) t
                  (val_truth (dict_get d ''include_potential'' (VBool False))) h))))))"

lemma size_dict_get_None: "dict_get d k VNone \<noteq> VNone \<Longrightarrow> size (dict_get d k VNone) < size (VDict d)"
  by (auto simp: dict_get_def dest: size_dict_entry split: option.splits)

function parse_entity_node :: "py_lib \<Rightarrow> val \<Rightarrow> (criteria_error, entity_node) result"
  and parse_entity_group :: "py_lib \<Rightarrow> val \<Rightarrow> (criteria_error, entity_group) result" where
  "parse_entity_node lib raw =
     (case raw of
        VDict d \<Rightarrow>
          if has_kind d ''condition'' then bind_result (condition_from_raw lib d) (\<lambda>c. Ok (EntityCondition c))
          else if has_kind d ''incident''
          then bind_result (check_keys d incident_keys)
            (\<lambda>_. bind_result
               (finish_incident lib d
                  (if dict_get d ''endpoint_criteria'' VNone = VNone then Ok None
                   else bind_result (parse_entity_group lib (dict_get d ''endpoint_criteria'' VNone)) (\<lambda>g. Ok (Some g))))
               (\<lambda>i. Ok (IncidentNode i)))
          else if has_kind d ''group'' then bind_result (parse_entity_group lib raw) (\<lambda>g. Ok (EntitySubgroup g))
          else Err BadCriteria
      | _ \<Rightarrow> Err BadCriteria)"
| "parse_entity_group lib raw =
     (case raw of
        VDict d \<Rightarrow>
          if \<not> has_kind d ''group'' then Err BadCriteria
          else (case check_keys d group_keys of
              Inl e \<Rightarrow> Err e
            | Inr _ \<Rightarrow>
                (case children_from_raw (dict_get d ''children'' (VList [])) of
                   Inl e \<Rightarrow> Err e
                 | Inr vs \<Rightarrow> bind_result (traverse (parse_entity_node lib) vs) (finish_group lib d)))
      | _ \<Rightarrow> Err BadCriteria)"
  by pat_completeness auto

termination
  by (relation "measure (\<lambda>x. case x of Inl (_, v) \<Rightarrow> 2 * size v + 1 | Inr (_, v) \<Rightarrow> 2 * size v)")
    (auto dest!: size_children size_dict_get_None)

declare parse_entity_node.simps [simp del] parse_entity_group.simps [simp del]

definition parse_neighbor_inclusion :: "py_lib \<Rightarrow> val \<Rightarrow> (criteria_error, neighbor_inclusion) result" where
  "parse_neighbor_inclusion lib raw =
     (case raw of
        VDict d \<Rightarrow>
          bind_result (check_keys d [''connection_criteria'', ''direction'', ''neighbor_criteria'', ''traversal'', ''include_potential'', ''max_hops''])
            (\<lambda>_. bind_result (optional_connection_group lib (dict_get d ''connection_criteria'' VNone))
              (\<lambda>cg. bind_result (require_direction lib (dict_get d ''direction'' (VStr ''either'')))
                (\<lambda>dir. bind_result
                    (if dict_get d ''neighbor_criteria'' VNone = VNone then Ok None
                     else bind_result (parse_entity_group lib (dict_get d ''neighbor_criteria'' VNone)) (\<lambda>g. Ok (Some g)))
                  (\<lambda>eg. bind_result (require_traversal (dict_get d ''traversal'' (VStr ''direct'')))
                    (\<lambda>t. bind_result (optional_hops (dict_get d ''max_hops'' VNone))
                      (\<lambda>h. Ok \<lparr>incl_connection = cg, incl_direction = dir, incl_neighbor = eg, incl_traversal = t,
                         incl_potential = val_truth (dict_get d ''include_potential'' (VBool False)), incl_hops = h\<rparr>))))))
      | _ \<Rightarrow> Err BadCriteria)"

definition parse_connection_selection :: "py_lib \<Rightarrow> val \<Rightarrow> (criteria_error, connection_selection) result" where
  "parse_connection_selection lib raw =
     (case raw of
        VNone \<Rightarrow> Ok \<lparr>sel_enabled = True, sel_criteria = empty_group, sel_traversal = TDirect, sel_potential = False, sel_hops = None\<rparr>
      | VDict d \<Rightarrow>
          bind_result (check_keys d [''enabled'', ''criteria'', ''traversal'', ''include_potential'', ''max_hops''])
            (\<lambda>_. bind_result
                (if dict_get d ''criteria'' VNone = VNone then Ok empty_group
                 else parse_connection_group lib (dict_get d ''criteria'' VNone))
              (\<lambda>cg. bind_result (require_incident_traversal (dict_get d ''traversal'' (VStr ''direct'')))
                (\<lambda>t. bind_result (optional_hops (dict_get d ''max_hops'' VNone))
                  (\<lambda>h. Ok \<lparr>sel_enabled = val_truth (dict_get d ''enabled'' (VBool True)), sel_criteria = cg, sel_traversal = t,
                     sel_potential = val_truth (dict_get d ''include_potential'' (VBool False)), sel_hops = h\<rparr>))))
      | _ \<Rightarrow> Err BadCriteria)"

end
