(* ===== verification/Criteria_Evaluation.thy ===== *)
theory Criteria_Evaluation
  imports Criteria
begin

text \<open>
  Evaluation of condition trees against entities and connections
  (\<^verbatim>\<open>src/domain/viewpoints/viewpoint_condition_evaluation.py\<close>, \<^verbatim>\<open>viewpoint_criteria_evaluation.py\<close>,
  \<^verbatim>\<open>viewpoint_evaluation_context.py\<close>). Everything that can raise gives a result; relationships are derived by the
  search of theory \<open>Reachability\<close> over the same store. Of the records the fields a query can read are kept.
\<close>

section \<open>Records, registries and environments\<close>

record model_entity = entity_record +
  me_name :: string
  me_version :: string
  me_status :: string
  me_domain :: string
  me_subdomain :: string
  me_group :: string
  me_specializations :: "string list"
  me_attributes :: mapping
  me_extra :: mapping

record model_connection = connection_record +
  mc_specializations :: "string list"
  mc_attributes :: mapping
  mc_extra :: mapping

record criteria_access =
  read_entity :: "string \<Rightarrow> model_entity option"
  read_connection :: "string \<Rightarrow> model_connection option"
  connections_for :: "string \<Rightarrow> read_direction \<Rightarrow> string option \<Rightarrow> model_connection list"

text \<open>The store as the derivation search sees it: the same reads, of records without the further fields.\<close>

definition graph_access :: "criteria_access \<Rightarrow> read_access" where
  "graph_access ra =
     \<lparr>get_entity = (\<lambda>i. map_option entity_record.truncate (read_entity ra i)),
      get_connection = (\<lambda>i. map_option connection_record.truncate (read_connection ra i)),
      find_connections_for = (\<lambda>i d t. map connection_record.truncate (connections_for ra i d t))\<rparr>"

record registry_snapshot =
  known_entity_types :: "string set"
  known_connection_types :: "string set"
  known_specialization_slugs :: "string set"
  entity_attribute_types :: "string \<Rightarrow> string option"
  connection_attribute_types :: "string \<Rightarrow> string option"
  entity_attribute_enums :: "string \<Rightarrow> string list option"
  connection_attribute_enums :: "string \<Rightarrow> string list option"
  symmetric_connection_types :: "string set"
  depth_cap :: nat
  derivation_catalog :: "module_catalog option"
  derivation_max_hops :: int
  derivation_max_relationships :: int
  derivation_time_budget :: rat

text \<open>What a binding holds: a value, a record, or a tuple of such.\<close>

datatype bound_value = BVal val | BEntity model_entity | BConnection model_connection | BTuple "bound_value list"

record evaluation_environment =
  env_bindings :: "string \<Rightarrow> bound_value option"
  env_parameters :: "string \<Rightarrow> val option"
  env_derived :: "string \<times> string \<Rightarrow> val option"
  env_inactive :: "string set"

record evaluation_outcome =
  out_matched :: bool
  out_drift :: "string set"
  out_inactive :: bool
  out_hops :: "nat option"

text \<open>\<open>WrongRecordKind\<close> and \<open>UnorderedComparator\<close> are failed assertions of the source.\<close>

datatype query_error =
    ReductionFault reduction_error
  | WrongRecordKind
  | UnorderedComparator
  | DerivationFault reach_error

record query_context =
  qc_lib :: py_lib
  qc_access :: criteria_access
  qc_registries :: registry_snapshot
  qc_clock :: "derivation_request \<Rightarrow> nat \<Rightarrow> rat"

datatype criteria_context = EntityContext | ConnectionContext

datatype item = EntityItem model_entity | ConnectionItem model_connection

definition lift_error :: "('e \<Rightarrow> 'f) \<Rightarrow> ('e, 'a) result \<Rightarrow> ('f, 'a) result" where
  "lift_error f r = (case r of Inl e \<Rightarrow> Inl (f e) | Inr a \<Rightarrow> Inr a)"

section \<open>Attribute paths\<close>

definition RESERVED_ENTITY_PATHS :: "string set" where
  "RESERVED_ENTITY_PATHS = {''id'', ''name'', ''type'', ''specialization'', ''group'', ''domain'', ''subdomain'', ''status'', ''version''}"

definition RESERVED_CONNECTION_PATHS :: "string set" where
  "RESERVED_CONNECTION_PATHS = {''id'', ''type'', ''specialization''}"

definition ORDINAL_KIND :: string where
  "ORDINAL_KIND = ''ordinal''"

definition path_head :: "string \<Rightarrow> string" where
  "path_head p = takeWhile (\<lambda>c. c \<noteq> CHR ''.'') p"

definition path_rest :: "string \<Rightarrow> string" where
  "path_rest p = drop (Suc (length (path_head p))) p"

definition path_parts :: "string \<Rightarrow> string list" where
  "path_parts rest = (if rest = [] then [] else py_split (CHR ''.'') rest)"

datatype declared_type = Reserved | Declared string

definition reserved_paths :: "criteria_context \<Rightarrow> string set" where
  "reserved_paths ctx = (case ctx of EntityContext \<Rightarrow> RESERVED_ENTITY_PATHS | ConnectionContext \<Rightarrow> RESERVED_CONNECTION_PATHS)"

definition resolve_attribute_path :: "criteria_context \<Rightarrow> registry_snapshot \<Rightarrow> string \<Rightarrow> declared_type option" where
  "resolve_attribute_path ctx regs attribute =
     (if path_head attribute \<in> reserved_paths ctx then Some Reserved
      else map_option Declared
        (case ctx of EntityContext \<Rightarrow> entity_attribute_types regs attribute
         | ConnectionContext \<Rightarrow> connection_attribute_types regs attribute))"

definition attribute_ordinal_scale :: "criteria_context \<Rightarrow> registry_snapshot \<Rightarrow> string \<Rightarrow> string list option" where
  "attribute_ordinal_scale ctx regs attribute =
     (if resolve_attribute_path ctx regs attribute \<noteq> Some (Declared ORDINAL_KIND) then None
      else (case (case ctx of EntityContext \<Rightarrow> entity_attribute_enums regs attribute
                  | ConnectionContext \<Rightarrow> connection_attribute_enums regs attribute) of
              Some (m # ms) \<Rightarrow> Some (m # ms)
            | _ \<Rightarrow> None))"

fun walk :: "val \<Rightarrow> string list \<Rightarrow> val option" where
  "walk v [] = Some v"
| "walk v (p # ps) =
     (case v of
        VDict d \<Rightarrow> (case map_of d p of None \<Rightarrow> None | Some w \<Rightarrow> walk w ps)
      | _ \<Rightarrow> None)"

definition specializations_field :: "string list \<Rightarrow> val option" where
  "specializations_field ss = (if ss = [] then None else Some (VTuple (map VStr ss)))"

definition reserved_entity_field :: "model_entity \<Rightarrow> string \<Rightarrow> val option" where
  "reserved_entity_field e head =
     (if head = ''id'' then Some (VStr (entity_artifact_id e))
      else if head = ''name'' then Some (VStr (me_name e))
      else if head = ''type'' then Some (VStr (entity_artifact_type e))
      else if head = ''specialization'' then specializations_field (me_specializations e)
      else if head = ''group'' then Some (VStr (me_group e))
      else if head = ''domain'' then Some (VStr (me_domain e))
      else if head = ''subdomain'' then Some (VStr (me_subdomain e))
      else if head = ''status'' then Some (VStr (me_status e))
      else Some (VStr (me_version e)))"

definition reserved_connection_field :: "model_connection \<Rightarrow> string \<Rightarrow> val option" where
  "reserved_connection_field c head =
     (if head = ''id'' then Some (VStr (conn_id c))
      else if head = ''type'' then Some (VStr (conn_type c))
      else specializations_field (mc_specializations c))"

text \<open>
  Reading a path: \<^const>\<open>None\<close> inside the result is an absent attribute. Only an entity has the values of a
  property table; of a connection the attributes of its metadata block are not consulted.
\<close>

definition read_field :: "mapping \<Rightarrow> string \<Rightarrow> string list \<Rightarrow> val option" where
  "read_field d head parts = (case map_of d head of None \<Rightarrow> None | Some v \<Rightarrow> walk v parts)"

definition read_attribute_value ::
    "criteria_context \<Rightarrow> evaluation_environment option \<Rightarrow> item \<Rightarrow> string \<Rightarrow> (query_error, val option) result" where
  "read_attribute_value ctx env it attribute =
     (let head = path_head attribute; rest = path_rest attribute; parts = path_parts rest in
      if head = ''derived''
      then Ok (case (it, env) of
          (EntityItem e, Some v) \<Rightarrow> if rest = [] then None else env_derived v (entity_artifact_id e, rest)
        | _ \<Rightarrow> None)
      else if head \<in> reserved_paths ctx
      then (case (ctx, it) of
          (EntityContext, EntityItem e) \<Rightarrow> Ok (reserved_entity_field e head)
        | (ConnectionContext, ConnectionItem c) \<Rightarrow> Ok (reserved_connection_field c head)
        | _ \<Rightarrow> Err WrongRecordKind)
      else Ok (case it of
          EntityItem e \<Rightarrow>
            if map_of (me_attributes e) head \<noteq> None then read_field (me_attributes e) head parts
            else read_field (me_extra e) head parts
        | ConnectionItem c \<Rightarrow> read_field (mc_extra c) head parts))"

section \<open>Comparison values\<close>

fun bound_val :: "bound_value \<Rightarrow> val option" where
  "bound_val (BVal v) = Some v"
| "bound_val (BTuple bs) = map_option VTuple (those (map bound_val bs))"
| "bound_val _ = None"

text \<open>The elements of a tuple.\<close>

definition tuple_items :: "bound_value \<Rightarrow> bound_value list option" where
  "tuple_items b = (case b of BTuple bs \<Rightarrow> Some bs | BVal (VTuple vs) \<Rightarrow> Some (map BVal vs) | _ \<Rightarrow> None)"

text \<open>The elements of a list or a tuple, or none at all.\<close>

definition options_of :: "bound_value \<Rightarrow> bound_value list" where
  "options_of b =
     (case b of BTuple bs \<Rightarrow> bs
      | BVal v \<Rightarrow> (case elements v of None \<Rightarrow> [] | Some vs \<Rightarrow> map BVal vs)
      | _ \<Rightarrow> [])"

definition equals_bound :: "val \<Rightarrow> bound_value \<Rightarrow> bool" where
  "equals_bound v b = (case bound_val b of None \<Rightarrow> False | Some w \<Rightarrow> py_eq v w)"

definition candidates :: "val \<Rightarrow> val list" where
  "candidates v = (case elements v of None \<Rightarrow> [v] | Some vs \<Rightarrow> vs)"

definition numeric_match :: "comparator \<Rightarrow> string list option \<Rightarrow> val \<Rightarrow> bound_value \<Rightarrow> bool" where
  "numeric_match c scale actual expected =
     (case scale of
        Some sc \<Rightarrow>
          (case bound_val expected of
             None \<Rightarrow> False
           | Some w \<Rightarrow>
               (case ordinal_rank w sc of
                  None \<Rightarrow> False
                | Some right \<Rightarrow>
                    list_ex (\<lambda>v. case ordinal_rank v sc of None \<Rightarrow> False | Some left \<Rightarrow> ordered c left right) (candidates actual)))
      | None \<Rightarrow>
          (case bound_val expected of
             None \<Rightarrow> False
           | Some w \<Rightarrow> list_ex (\<lambda>v. numeric_compare c v w) (candidates actual)))"

text \<open>\<^const>\<open>CmpExists\<close> and \<^const>\<open>CmpAbsent\<close> are decided before anything is compared.\<close>

definition compare_plain :: "py_lib \<Rightarrow> comparator \<Rightarrow> string list option \<Rightarrow> val \<Rightarrow> bound_value \<Rightarrow> bool" where
  "compare_plain lib c scale actual expected =
     (case c of
        CmpEq \<Rightarrow> list_ex (\<lambda>v. equals_bound v expected) (candidates actual)
      | CmpNeq \<Rightarrow> \<not> list_ex (\<lambda>v. equals_bound v expected) (candidates actual)
      | CmpIn \<Rightarrow> list_ex (\<lambda>v. list_ex (equals_bound v) (options_of expected)) (candidates actual)
      | CmpNotIn \<Rightarrow> \<not> list_ex (\<lambda>v. list_ex (equals_bound v) (options_of expected)) (candidates actual)
      | CmpLike \<Rightarrow> list_ex (\<lambda>v. case bound_val expected of None \<Rightarrow> False | Some p \<Rightarrow> like_match lib False p v) (candidates actual)
      | CmpIlike \<Rightarrow> list_ex (\<lambda>v. case bound_val expected of None \<Rightarrow> False | Some p \<Rightarrow> like_match lib True p v) (candidates actual)
      | CmpExists \<Rightarrow> False
      | CmpAbsent \<Rightarrow> False
      | _ \<Rightarrow> numeric_match c scale actual expected)"

definition compare_values ::
    "py_lib \<Rightarrow> comparator \<Rightarrow> quantifier option \<Rightarrow> string list option \<Rightarrow> val \<Rightarrow> bound_value \<Rightarrow> bool" where
  "compare_values lib c q scale actual expected =
     (case q of
        None \<Rightarrow> compare_plain lib c scale actual expected
      | Some QuantAny \<Rightarrow> list_ex (compare_plain lib c scale actual) (case tuple_items expected of None \<Rightarrow> [] | Some bs \<Rightarrow> bs)
      | Some QuantAll \<Rightarrow> list_all (compare_plain lib c scale actual) (case tuple_items expected of None \<Rightarrow> [] | Some bs \<Rightarrow> bs))"

fun bound_item :: "bound_value \<Rightarrow> item option" where
  "bound_item (BEntity e) = Some (EntityItem e)"
| "bound_item (BConnection c) = Some (ConnectionItem c)"
| "bound_item _ = None"

definition as_items :: "bound_value \<Rightarrow> bound_value list" where
  "as_items b = (case tuple_items b of None \<Rightarrow> [b] | Some bs \<Rightarrow> bs)"

definition project_binding ::
    "criteria_context \<Rightarrow> evaluation_environment \<Rightarrow> bound_value \<Rightarrow> string \<Rightarrow> (query_error, bound_value) result" where
  "project_binding ctx env b attribute =
     bind_result (traverse (\<lambda>it. read_attribute_value ctx (Some env) it attribute) (List.map_filter bound_item (as_items b)))
       (\<lambda>found. let values = map BVal (List.map_filter id found) in
         Ok (if tuple_items b \<noteq> None then BTuple values
             else (case values of [] \<Rightarrow> BVal VNone | v # _ \<Rightarrow> v)))"

text \<open>
  A record among the values has no order and cannot be added; a single one is its own minimum and maximum.
\<close>

definition aggregate_bound :: "py_lib \<Rightarrow> aggregate \<Rightarrow> string list option \<Rightarrow> bound_value \<Rightarrow> (query_error, bound_value) result" where
  "aggregate_bound lib agg scale b =
     (let items = filter (\<lambda>x. x \<noteq> BVal VNone) (as_items b) in
      case those (map bound_val items) of
        Some vs \<Rightarrow> bind_result (lift_error ReductionFault (reduce_present lib agg scale vs)) (\<lambda>v. Ok (BVal v))
      | None \<Rightarrow>
          (if agg = AggCount then Ok (BVal (VInt (int (length items))))
           else if agg \<in> {AggSum, AggAvg} then Err (ReductionFault NotAddable)
           else (case scale of
               Some sc \<Rightarrow> Ok (BVal (ordinal_extreme (agg = AggMax) sc (List.map_filter bound_val items)))
             | None \<Rightarrow> if length items = 1 then Ok (hd items) else Err (ReductionFault NotComparable))))"

text \<open>A resolved reference: the value, the drift met on the way, and whether there is a value.\<close>

type_synonym resolved_ref = "bound_value \<times> string set \<times> bool"

definition unresolved :: resolved_ref where
  "unresolved = (BVal VNone, {}, False)"

definition resolve_attribute_ref ::
    "criteria_context \<Rightarrow> registry_snapshot \<Rightarrow> item \<Rightarrow> string option \<Rightarrow> (query_error, resolved_ref) result" where
  "resolve_attribute_ref ctx regs it attribute =
     (case attribute of
        None \<Rightarrow> Ok unresolved
      | Some a \<Rightarrow>
          if a = [] then Ok unresolved
          else if resolve_attribute_path ctx regs a = None then Ok (BVal VNone, {a}, False)
          else bind_result (read_attribute_value ctx None it a)
            (\<lambda>v. Ok (case v of None \<Rightarrow> unresolved | Some w \<Rightarrow> (BVal w, {}, True))))"

definition text_or_empty :: "string option \<Rightarrow> string" where
  "text_or_empty s = (case s of None \<Rightarrow> [] | Some t \<Rightarrow> t)"

definition resolve_binding ::
    "query_context \<Rightarrow> criteria_context \<Rightarrow> evaluation_environment \<Rightarrow> value_ref \<Rightarrow> (query_error, resolved_ref) result" where
  "resolve_binding qc ctx env r =
     (case env_bindings env (text_or_empty (ref_binding r)) of
        None \<Rightarrow> Ok unresolved
      | Some b \<Rightarrow>
          bind_result (case ref_project r of None \<Rightarrow> Ok b | Some p \<Rightarrow> project_binding ctx env b p)
            (\<lambda>b'. bind_result
               (case ref_aggregate r of
                  None \<Rightarrow> Ok b'
                | Some agg \<Rightarrow> aggregate_bound (qc_lib qc) agg
                    (case ref_project r of None \<Rightarrow> None | Some p \<Rightarrow> attribute_ordinal_scale ctx (qc_registries qc) p) b')
               (\<lambda>v. Ok (v, {}, v \<noteq> BVal VNone))))"

definition resolve_value ::
    "query_context \<Rightarrow> criteria_context \<Rightarrow> evaluation_environment \<Rightarrow> item \<Rightarrow> value_ref \<Rightarrow> (query_error, resolved_ref) result" where
  "resolve_value qc ctx env it r =
     (case ref_kind r of
        LiteralRef \<Rightarrow> Ok (BVal (ref_literal r), {}, True)
      | SelfRef \<Rightarrow> resolve_attribute_ref ctx (qc_registries qc) it (ref_attribute r)
      | EndpointRef \<Rightarrow>
          (case (it, ref_endpoint r) of
             (ConnectionItem c, Some side) \<Rightarrow>
               if ctx \<noteq> ConnectionContext then Ok unresolved
               else (case read_entity (qc_access qc) (if side = SourceSide then conn_source c else conn_target c) of
                   None \<Rightarrow> Ok unresolved
                 | Some e \<Rightarrow> resolve_attribute_ref EntityContext (qc_registries qc) (EntityItem e) (ref_attribute r))
           | _ \<Rightarrow> Ok unresolved)
      | ParameterRef \<Rightarrow>
          Ok (case env_parameters env (text_or_empty (ref_parameter r)) of
              None \<Rightarrow> unresolved | Some v \<Rightarrow> (BVal v, {}, True))
      | BindingRef \<Rightarrow> resolve_binding qc ctx env r)"

section \<open>One condition\<close>

definition plain_outcome :: "bool \<Rightarrow> string set \<Rightarrow> evaluation_outcome" where
  "plain_outcome m drift = \<lparr>out_matched = m, out_drift = drift, out_inactive = False, out_hops = None\<rparr>"

definition is_inactive :: "evaluation_environment \<Rightarrow> attribute_condition \<Rightarrow> bool" where
  "is_inactive env c \<longleftrightarrow>
     ref_kind (cond_value c) = ParameterRef \<and>
     (case ref_parameter (cond_value c) of None \<Rightarrow> False | Some p \<Rightarrow> p \<in> env_inactive env)"

definition inactive_outcome :: evaluation_outcome where
  "inactive_outcome = \<lparr>out_matched = True, out_drift = {}, out_inactive = True, out_hops = None\<rparr>"

definition derived_path :: "item \<Rightarrow> string \<Rightarrow> bool" where
  "derived_path it a \<longleftrightarrow> (\<exists>e. it = EntityItem e) \<and> take 8 a = ''derived.''"

definition match_present ::
    "query_context \<Rightarrow> criteria_context \<Rightarrow> evaluation_environment \<Rightarrow> item \<Rightarrow> attribute_condition \<Rightarrow> val
      \<Rightarrow> (query_error, bool \<times> string set) result" where
  "match_present qc ctx env it c actual =
     bind_result (resolve_value qc ctx env it (cond_value c))
       (\<lambda>(expected, ref_drift, resolved).
         let scale =
           (if \<not> derived_path it (cond_attribute c) \<and>
               resolve_attribute_path ctx (qc_registries qc) (cond_attribute c) = Some (Declared ORDINAL_KIND) \<and>
               cond_comparator c \<in> NUMERIC_OPERATORS
            then attribute_ordinal_scale ctx (qc_registries qc) (cond_attribute c) else None);
           unranked = (case scale of None \<Rightarrow> False | Some sc \<Rightarrow> ordinal_rank actual sc = None) in
         Ok (resolved \<and> compare_values (qc_lib qc) (cond_comparator c) (ref_quantifier (cond_value c)) scale actual expected,
             ref_drift \<union> (if unranked then {cond_attribute c} else {})))"

definition evaluate_attribute_condition ::
    "query_context \<Rightarrow> criteria_context \<Rightarrow> evaluation_environment \<Rightarrow> item \<Rightarrow> attribute_condition
      \<Rightarrow> (query_error, evaluation_outcome) result" where
  "evaluate_attribute_condition qc ctx env it c =
     (if is_inactive env c then Ok inactive_outcome
      else let known = derived_path it (cond_attribute c) \<or>
             resolve_attribute_path ctx (qc_registries qc) (cond_attribute c) \<noteq> None;
             drift = (if known then {} else {cond_attribute c}) in
        bind_result (if known then read_attribute_value ctx (Some env) it (cond_attribute c) else Ok None)
          (\<lambda>actual. bind_result
             (case (cond_comparator c, actual) of
                (CmpExists, _) \<Rightarrow> Ok (actual \<noteq> None, {})
              | (CmpAbsent, _) \<Rightarrow> Ok (actual = None, {})
              | (_, None) \<Rightarrow> Ok (False, {})
              | (_, Some v) \<Rightarrow> match_present qc ctx env it c v)
             (\<lambda>(m, more). Ok (plain_outcome (m \<noteq> cond_negate c) (drift \<union> more)))))"

section \<open>Groups\<close>

definition combined_evidence :: "evaluation_outcome list \<Rightarrow> conjunction \<Rightarrow> nat option" where
  "combined_evidence outcomes cj =
     (let hits = filter out_matched outcomes; evidence = List.map_filter out_hops hits in
      if evidence = [] then None
      else if cj = ConjOr \<and> length evidence < length hits then None
      else Some (foldr min (tl evidence) (hd evidence)))"

definition combine :: "conjunction \<Rightarrow> bool \<Rightarrow> evaluation_outcome list \<Rightarrow> evaluation_outcome" where
  "combine cj neg outcomes =
     (let drift = \<Union> (out_drift ` set outcomes); active = filter (\<lambda>x. \<not> out_inactive x) outcomes in
      if outcomes \<noteq> [] \<and> active = []
      then \<lparr>out_matched = True, out_drift = drift, out_inactive = True, out_hops = None\<rparr>
      else let m = (case cj of ConjAnd \<Rightarrow> list_all out_matched active | ConjOr \<Rightarrow> list_ex out_matched active) in
        \<lparr>out_matched = (m \<noteq> neg), out_drift = drift, out_inactive = False,
         out_hops = (if neg \<or> \<not> m then None else combined_evidence active cj)\<rparr>)"

fun eval_connection_node ::
    "query_context \<Rightarrow> evaluation_environment \<Rightarrow> model_connection \<Rightarrow> connection_node \<Rightarrow> (query_error, evaluation_outcome) result" where
  "eval_connection_node qc env c (ConnectionCondition cond) =
     evaluate_attribute_condition qc ConnectionContext env (ConnectionItem c) cond"
| "eval_connection_node qc env c (ConnectionSubgroup (CriteriaGroup cj ns neg)) =
     bind_result (traverse (eval_connection_node qc env c) ns) (\<lambda>outs. Ok (combine cj neg outs))"

definition evaluate_connection_criteria ::
    "query_context \<Rightarrow> evaluation_environment \<Rightarrow> model_connection \<Rightarrow> connection_group \<Rightarrow> (query_error, evaluation_outcome) result" where
  "evaluate_connection_criteria qc env c g = eval_connection_node qc env c (ConnectionSubgroup g)"

section \<open>Derived relationships under connection criteria\<close>

fun certainty_name :: "certainty \<Rightarrow> string" where
  "certainty_name Certain = ''certain''"
| "certainty_name Potential = ''potential''"

definition ordered_compare :: "comparator \<Rightarrow> 'a :: linorder \<Rightarrow> 'a \<Rightarrow> (query_error, bool) result" where
  "ordered_compare c a b = (if c \<in> NUMERIC_OPERATORS then Ok (ordered c a b) else Err UnorderedComparator)"

definition derived_compare :: "comparator \<Rightarrow> val \<Rightarrow> val \<Rightarrow> (query_error, bool) result" where
  "derived_compare c actual expected =
     (if c = CmpEq then Ok (py_eq actual expected)
      else if c = CmpNeq then Ok (\<not> py_eq actual expected)
      else if c = CmpIn then Ok (case elements expected of None \<Rightarrow> False | Some vs \<Rightarrow> list_ex (py_eq actual) vs)
      else if c = CmpExists then Ok True
      else if c = CmpAbsent then Ok False
      else (case (actual, expected) of
          (VStr s, VStr t) \<Rightarrow> ordered_compare c s t
        | _ \<Rightarrow> (case (number_of actual, number_of expected) of
              (Some p, Some q) \<Rightarrow> ordered_compare c p q
            | _ \<Rightarrow> Ok False)))"

definition derived_field :: "derived_relationship \<Rightarrow> string \<Rightarrow> val option" where
  "derived_field r a =
     (if a = ''type'' then Some (VStr (rel_type r))
      else if a = ''certainty'' then Some (VStr (certainty_name (rel_certainty r)))
      else if a = ''hops'' then Some (VInt (int (rel_hops r)))
      else None)"

fun derived_node_matches :: "derived_relationship \<Rightarrow> connection_node \<Rightarrow> (query_error, bool) result" where
  "derived_node_matches r (ConnectionCondition c) =
     (case derived_field r (cond_attribute c) of
        None \<Rightarrow> Ok False
      | Some actual \<Rightarrow>
          if ref_kind (cond_value c) \<noteq> LiteralRef then Ok False
          else bind_result (derived_compare (cond_comparator c) actual (ref_literal (cond_value c)))
            (\<lambda>m. Ok (m \<noteq> cond_negate c)))"
| "derived_node_matches r (ConnectionSubgroup (CriteriaGroup cj ns neg)) =
     bind_result (traverse (derived_node_matches r) ns)
       (\<lambda>ms. Ok ((case cj of ConjAnd \<Rightarrow> list_all id ms | ConjOr \<Rightarrow> list_ex id ms) \<noteq> neg))"

definition derived_matches :: "derived_relationship \<Rightarrow> connection_group option \<Rightarrow> (query_error, bool) result" where
  "derived_matches r g = (case g of None \<Rightarrow> Ok True | Some cg \<Rightarrow> derived_node_matches r (ConnectionSubgroup cg))"

section \<open>Incident connections\<close>

definition direction_matches :: "registry_snapshot \<Rightarrow> model_connection \<Rightarrow> string \<Rightarrow> incident_direction \<Rightarrow> bool" where
  "direction_matches regs c eid d \<longleftrightarrow>
     d = Either \<or> conn_type c \<in> symmetric_connection_types regs \<or>
     d = (if conn_source c = eid then Outgoing else Incoming)"

definition other_end :: "string \<Rightarrow> model_connection \<Rightarrow> string" where
  "other_end eid c = (if conn_source c = eid then conn_target c else conn_source c)"

type_synonym entity_test = "(model_entity \<Rightarrow> (query_error, evaluation_outcome) result) option"

text \<open>A test that is absent passes without drift.\<close>

definition passes :: "entity_test \<Rightarrow> model_entity \<Rightarrow> (query_error, bool \<times> string set) result" where
  "passes test e =
     (case test of None \<Rightarrow> Ok (True, {})
      | Some f \<Rightarrow> bind_result (f e) (\<lambda>x. Ok (out_matched x, out_drift x)))"

definition connection_passes ::
    "query_context \<Rightarrow> evaluation_environment \<Rightarrow> connection_group option \<Rightarrow> model_connection \<Rightarrow> (query_error, bool \<times> string set) result" where
  "connection_passes qc env cg c =
     (case cg of None \<Rightarrow> Ok (True, {})
      | Some g \<Rightarrow> bind_result (evaluate_connection_criteria qc env c g) (\<lambda>x. Ok (out_matched x, out_drift x)))"

definition direct_step ::
    "query_context \<Rightarrow> evaluation_environment \<Rightarrow> connection_group option \<Rightarrow> incident_direction \<Rightarrow> entity_test \<Rightarrow> string
      \<Rightarrow> model_connection \<Rightarrow> (query_error, bool \<times> string set) result" where
  "direct_step qc env cg d test eid c =
     bind_result (connection_passes qc env cg c)
       (\<lambda>(m, drift).
         if \<not> m \<or> \<not> direction_matches (qc_registries qc) c eid d then Ok (False, drift)
         else (case read_entity (qc_access qc) (other_end eid c) of
             None \<Rightarrow> Ok (False, drift)
           | Some e \<Rightarrow> bind_result (passes test e) (\<lambda>(m', drift'). Ok (m', drift \<union> drift'))))"

definition direct_incident_matches ::
    "query_context \<Rightarrow> evaluation_environment \<Rightarrow> connection_group option \<Rightarrow> incident_direction \<Rightarrow> entity_test \<Rightarrow> string
      \<Rightarrow> (query_error, bool \<times> string set) result" where
  "direct_incident_matches qc env cg d test eid =
     bind_result (traverse (direct_step qc env cg d test eid) (connections_for (qc_access qc) eid AnyDirection None))
       (\<lambda>rs. Ok (list_ex fst rs, \<Union> (snd ` set rs)))"

definition hop_bound :: "registry_snapshot \<Rightarrow> int option \<Rightarrow> int" where
  "hop_bound regs h = (case h of None \<Rightarrow> derivation_max_hops regs | Some i \<Rightarrow> if i = 0 then derivation_max_hops regs else i)"

definition query_request ::
    "registry_snapshot \<Rightarrow> string list \<Rightarrow> incident_direction \<Rightarrow> bool \<Rightarrow> int option \<Rightarrow> derivation_request" where
  "query_request regs ids d potential h =
     \<lparr>anchors = ids, request_direction = d, request_certainty = (if potential then IncludePotential else CertainOnly),
      bounds = \<lparr>max_hops = hop_bound regs h, max_relationships = derivation_max_relationships regs,
        time_budget_seconds = derivation_time_budget regs\<rparr>\<rparr>"

definition derive_for ::
    "query_context \<Rightarrow> module_catalog \<Rightarrow> derivation_request \<Rightarrow> (query_error, derived_relationship_set) result" where
  "derive_for qc cat request =
     lift_error DerivationFault (derive_relationships request (graph_access (qc_access qc)) cat (qc_clock qc request))"

definition derived_other_end :: "string \<Rightarrow> derived_relationship \<Rightarrow> string" where
  "derived_other_end eid r = (if rel_source_id r = eid then rel_target_id r else rel_source_id r)"

definition derived_step_passes ::
    "query_context \<Rightarrow> connection_group option \<Rightarrow> entity_test \<Rightarrow> string \<Rightarrow> derived_relationship
      \<Rightarrow> (query_error, bool \<times> string set) result" where
  "derived_step_passes qc cg test eid r =
     bind_result (derived_matches r cg)
       (\<lambda>m. if \<not> m then Ok (False, {})
         else (case read_entity (qc_access qc) (derived_other_end eid r) of
             None \<Rightarrow> Ok (False, {})
           | Some e \<Rightarrow> passes test e))"

definition least_hops :: "nat list \<Rightarrow> nat option" where
  "least_hops hs = (case hs of [] \<Rightarrow> None | h # hs' \<Rightarrow> Some (foldr min hs' h))"

definition derived_incident_min_hops ::
    "query_context \<Rightarrow> connection_group option \<Rightarrow> incident_direction \<Rightarrow> entity_test \<Rightarrow> bool \<Rightarrow> int option \<Rightarrow> string
      \<Rightarrow> (query_error, nat option \<times> string set) result" where
  "derived_incident_min_hops qc cg d test potential h eid =
     (case derivation_catalog (qc_registries qc) of
        None \<Rightarrow> Ok (None, {})
      | Some cat \<Rightarrow>
          bind_result (derive_for qc cat (query_request (qc_registries qc) [eid] d potential h))
            (\<lambda>ds. bind_result (traverse (derived_step_passes qc cg test eid) (relationships ds))
               (\<lambda>rs. Ok (least_hops (map (rel_hops \<circ> fst) (filter (fst \<circ> snd) (zip (relationships ds) rs))),
                         \<Union> (snd ` set rs)))))"

definition evaluate_incident ::
    "query_context \<Rightarrow> evaluation_environment \<Rightarrow> connection_group option \<Rightarrow> incident_direction \<Rightarrow> entity_test \<Rightarrow> bool
      \<Rightarrow> traversal \<Rightarrow> bool \<Rightarrow> int option \<Rightarrow> string \<Rightarrow> (query_error, evaluation_outcome) result" where
  "evaluate_incident qc env cg d test neg t potential h eid =
     bind_result (if t \<in> {TDirect, TBoth} then direct_incident_matches qc env cg d test eid else Ok (False, {}))
       (\<lambda>(direct, drift). bind_result
          (if t \<in> {TDerived, TBoth} \<and> \<not> direct then derived_incident_min_hops qc cg d test potential h eid else Ok (None, {}))
          (\<lambda>(hops, drift'). let any = (direct \<or> hops \<noteq> None); m = (any \<noteq> neg) in
             Ok \<lparr>out_matched = m, out_drift = drift \<union> drift', out_inactive = False,
                 out_hops = (if m \<and> \<not> neg \<and> \<not> direct then hops else None)\<rparr>))"

fun eval_entity_node ::
    "query_context \<Rightarrow> evaluation_environment \<Rightarrow> entity_node \<Rightarrow> model_entity \<Rightarrow> (query_error, evaluation_outcome) result" where
  "eval_entity_node qc env (EntityCondition c) e = evaluate_attribute_condition qc EntityContext env (EntityItem e) c"
| "eval_entity_node qc env (EntitySubgroup (CriteriaGroup cj ns neg)) e =
     bind_result (traverse (\<lambda>n. eval_entity_node qc env n e) ns) (\<lambda>outs. Ok (combine cj neg outs))"
| "eval_entity_node qc env (IncidentNode (IncidentCondition cg d eg neg t p h)) e =
     evaluate_incident qc env cg d
       (case eg of None \<Rightarrow> None | Some g \<Rightarrow> Some (\<lambda>e'. eval_entity_node qc env (EntitySubgroup g) e'))
       neg t p h (entity_artifact_id e)"

definition evaluate_entity_criteria ::
    "query_context \<Rightarrow> evaluation_environment \<Rightarrow> entity_group \<Rightarrow> model_entity \<Rightarrow> (query_error, evaluation_outcome) result" where
  "evaluate_entity_criteria qc env g e = eval_entity_node qc env (EntitySubgroup g) e"

end
