(* ===== verification/Query_Types.thy ===== *)
theory Query_Types
  imports Criteria_Evaluation "HOL-Library.FSet"
begin

text \<open>
  The types of what a query binding holds (\<^verbatim>\<open>src/domain/viewpoints/viewpoint_value_types.py\<close>): their text form
  and its parser, what type a selection, a projection and an aggregation have, and which declared type passes
  for an inferred one.
\<close>

section \<open>Types and their text\<close>

datatype scalar_kind = KString | KInteger | KNumber | KDate | KBoolean | KSlug | KOrdinal

datatype query_result_type =
    EntityInstanceType "string fset"
  | ConnectionInstanceType "string fset"
  | EntitySetType "string fset"
  | ConnectionSetType "string fset"
  | ScalarType scalar_kind
  | OptionalType query_result_type
  | ListType query_result_type
  | TupleType "query_result_type list"

text \<open>An error carries its stable code.\<close>

type_synonym binding_type_error = string

fun kind_name :: "scalar_kind \<Rightarrow> string" where
  "kind_name KString = ''string''"
| "kind_name KInteger = ''integer''"
| "kind_name KNumber = ''number''"
| "kind_name KDate = ''date''"
| "kind_name KBoolean = ''boolean''"
| "kind_name KSlug = ''slug''"
| "kind_name KOrdinal = ''ordinal''"

definition SCALAR_KINDS :: "scalar_kind list" where
  "SCALAR_KINDS = [KString, KInteger, KNumber, KDate, KBoolean, KSlug, KOrdinal]"

definition kind_named :: "string \<Rightarrow> scalar_kind option" where
  "kind_named s = List.find (\<lambda>k. kind_name k = s) SCALAR_KINDS"

definition slugged :: "string \<Rightarrow> string fset \<Rightarrow> string" where
  "slugged name slugs = name @ ''['' @ py_join ''|'' (sorted_list_of_fset slugs) @ '']''"

fun format_result_type :: "query_result_type \<Rightarrow> string" where
  "format_result_type (EntityInstanceType s) = slugged ''entity'' s"
| "format_result_type (ConnectionInstanceType s) = slugged ''connection'' s"
| "format_result_type (EntitySetType s) = slugged ''entities'' s"
| "format_result_type (ConnectionSetType s) = slugged ''connections'' s"
| "format_result_type (ScalarType k) = kind_name k"
| "format_result_type (OptionalType t) = ''optional['' @ format_result_type t @ '']''"
| "format_result_type (ListType t) = ''list['' @ format_result_type t @ '']''"
| "format_result_type (TupleType ts) = ''tuple['' @ py_join '', '' (map format_result_type ts) @ '']''"

section \<open>Parsing\<close>

definition bracketed :: "string \<Rightarrow> (binding_type_error, string \<times> string) result" where
  "bracketed raw =
     (if CHR ''['' \<notin> set raw \<or> last raw \<noteq> CHR '']'' then Err ''invalid-result-type''
      else Ok (takeWhile (\<lambda>c. c \<noteq> CHR ''['') raw, butlast (tl (dropWhile (\<lambda>c. c \<noteq> CHR ''['') raw))))"

text \<open>The parts between the commas that stand outside all brackets; the depth may fall below zero.\<close>

definition depth_after :: "char \<Rightarrow> int \<Rightarrow> int" where
  "depth_after c d = d + (if c = CHR ''['' then 1 else 0) - (if c = CHR '']'' then 1 else 0)"

fun split_from :: "int \<Rightarrow> string \<Rightarrow> string \<Rightarrow> string list" where
  "split_from d part [] = [py_strip part]"
| "split_from d part (c # s) =
     (if c = CHR '','' \<and> depth_after c d = 0 then py_strip part # split_from (depth_after c d) [] s
      else split_from (depth_after c d) (part @ [c]) s)"

definition split_top_level :: "string \<Rightarrow> string list" where
  "split_top_level raw = filter (\<lambda>p. p \<noteq> []) (split_from 0 [] raw)"

lemma length_py_strip: "length (py_strip s) \<le> length s"
  unfolding py_strip_def length_rev by (rule order_trans [OF length_dropWhile_le]) (simp add: length_dropWhile_le)

lemma length_split_from: "p \<in> set (split_from d part s) \<Longrightarrow> length p \<le> length part + length s"
proof (induction d part s rule: split_from.induct)
  case (1 d part)
  then show ?case using length_py_strip [of part] by simp
next
  case (2 d part c s)
  then show ?case using length_py_strip [of part] by (fastforce split: if_splits)
qed

lemma length_split_top_level: "p \<in> set (split_top_level s) \<Longrightarrow> length p \<le> length s"
  using length_split_from [of p 0 "[]" s] by (simp add: split_top_level_def)

lemma length_bracketed: "bracketed raw = Ok (name, content) \<Longrightarrow> length content < length raw"
proof -
  assume "bracketed raw = Ok (name, content)"
  then have found: "CHR ''['' \<in> set raw" and content: "content = butlast (tl (dropWhile (\<lambda>c. c \<noteq> CHR ''['') raw))"
    by (auto simp: bracketed_def split: if_splits)
  have "length (dropWhile (\<lambda>c. c \<noteq> CHR ''['') raw) \<le> length raw" by (rule length_dropWhile_le)
  moreover from found have "raw \<noteq> []" by auto
  ultimately show "length content < length raw" by (cases raw) (auto simp: content)
qed

definition slugs_of :: "string \<Rightarrow> string fset" where
  "slugs_of content = fset_of_list (filter (\<lambda>s. s \<noteq> []) (py_split (CHR ''|'') content))"

function parse_result_type :: "string \<Rightarrow> (binding_type_error, query_result_type) result" where
  "parse_result_type raw =
     (case kind_named raw of
        Some k \<Rightarrow> Ok (ScalarType k)
      | None \<Rightarrow>
          (case bracketed raw of
             Inl e \<Rightarrow> Err e
           | Inr (name, content) \<Rightarrow>
               (if name = ''entity'' then Ok (EntityInstanceType (slugs_of content))
                else if name = ''connection'' then Ok (ConnectionInstanceType (slugs_of content))
                else if name = ''entities'' then Ok (EntitySetType (slugs_of content))
                else if name = ''connections'' then Ok (ConnectionSetType (slugs_of content))
                else if name = ''optional'' then bind_result (parse_result_type content) (\<lambda>t. Ok (OptionalType t))
                else if name = ''list'' then bind_result (parse_result_type content) (\<lambda>t. Ok (ListType t))
                else if name = ''tuple''
                then bind_result (traverse parse_result_type (split_top_level content)) (\<lambda>ts. Ok (TupleType ts))
                else Err ''unknown-result-type'')))"
  by pat_completeness auto

termination
  by (relation "measure length") (auto dest!: length_bracketed length_split_top_level)

declare parse_result_type.simps [simp del]

section \<open>Inference\<close>

definition literal_strings :: "val \<Rightarrow> string list" where
  "literal_strings v =
     (case v of
        VStr s \<Rightarrow> [s]
      | _ \<Rightarrow> (case elements v of
          None \<Rightarrow> []
        | Some vs \<Rightarrow> List.map_filter (\<lambda>w. case w of VStr s \<Rightarrow> Some s | _ \<Rightarrow> None) vs))"

definition positive_literals :: "attribute_condition \<Rightarrow> string list" where
  "positive_literals c =
     (if cond_attribute c = ''type'' \<and> \<not> cond_negate c \<and> cond_comparator c \<in> {CmpEq, CmpIn}
      then literal_strings (ref_literal (cond_value c)) else [])"

text \<open>The types a conjunction names positively, those of its nested conjunctions included.\<close>

fun connection_type_slugs :: "connection_node \<Rightarrow> string list" where
  "connection_type_slugs (ConnectionCondition c) = positive_literals c"
| "connection_type_slugs (ConnectionSubgroup (CriteriaGroup cj ns neg)) =
     (if neg \<or> cj \<noteq> ConjAnd then [] else concat (map connection_type_slugs ns))"

fun entity_type_slugs :: "entity_node \<Rightarrow> string list" where
  "entity_type_slugs (EntityCondition c) = positive_literals c"
| "entity_type_slugs (EntitySubgroup (CriteriaGroup cj ns neg)) =
     (if neg \<or> cj \<noteq> ConjAnd then [] else concat (map entity_type_slugs ns))"
| "entity_type_slugs (IncidentNode i) = []"

datatype selection = SelectEntities "entity_group option" | SelectConnections "connection_group option"

definition selection_type :: "selection \<Rightarrow> query_result_type" where
  "selection_type s =
     (case s of
        SelectEntities g \<Rightarrow> EntitySetType (case g of None \<Rightarrow> {||} | Some g \<Rightarrow> fset_of_list (entity_type_slugs (EntitySubgroup g)))
      | SelectConnections g \<Rightarrow>
          ConnectionSetType (case g of None \<Rightarrow> {||} | Some g \<Rightarrow> fset_of_list (connection_type_slugs (ConnectionSubgroup g))))"

fun type_slugs :: "query_result_type \<Rightarrow> string fset" where
  "type_slugs (EntityInstanceType s) = s"
| "type_slugs (EntitySetType s) = s"
| "type_slugs (ConnectionInstanceType s) = s"
| "type_slugs (ConnectionSetType s) = s"
| "type_slugs (OptionalType t) = type_slugs t"
| "type_slugs _ = {||}"

definition scalar_kind_of :: "string \<Rightarrow> scalar_kind" where
  "scalar_kind_of raw = (case kind_named raw of None \<Rightarrow> KString | Some k \<Rightarrow> k)"

definition projected_context :: "query_result_type \<Rightarrow> criteria_context option" where
  "projected_context t =
     (case (case t of OptionalType u \<Rightarrow> u | _ \<Rightarrow> t) of
        EntitySetType _ \<Rightarrow> Some EntityContext
      | EntityInstanceType _ \<Rightarrow> Some EntityContext
      | ConnectionSetType _ \<Rightarrow> Some ConnectionContext
      | ConnectionInstanceType _ \<Rightarrow> Some ConnectionContext
      | _ \<Rightarrow> None)"

definition project_type :: "registry_snapshot \<Rightarrow> query_result_type \<Rightarrow> string \<Rightarrow> (binding_type_error, query_result_type) result" where
  "project_type regs t path =
     (case projected_context t of
        None \<Rightarrow> Err ''projection-type-mismatch''
      | Some ctx \<Rightarrow>
          (case resolve_attribute_path ctx regs path of
             None \<Rightarrow> Err ''binding-attribute-type-ambiguous''
           | Some declared \<Rightarrow>
               if type_slugs t = {||} \<and> declared \<noteq> Reserved then Err ''binding-attribute-type-ambiguous''
               else let scalar = ScalarType (case declared of Reserved \<Rightarrow> KString | Declared raw \<Rightarrow> scalar_kind_of raw) in
                 Ok (case t of
                     EntityInstanceType _ \<Rightarrow> scalar
                   | ConnectionInstanceType _ \<Rightarrow> scalar
                   | OptionalType _ \<Rightarrow> OptionalType scalar
                   | _ \<Rightarrow> ListType scalar)))"

definition aggregate_type :: "query_result_type \<Rightarrow> aggregate \<Rightarrow> (binding_type_error, query_result_type) result" where
  "aggregate_type t agg =
     (case t of
        EntityInstanceType _ \<Rightarrow> Err ''aggregate-over-instance''
      | ConnectionInstanceType _ \<Rightarrow> Err ''aggregate-over-instance''
      | OptionalType _ \<Rightarrow> Err ''aggregate-over-instance''
      | _ \<Rightarrow>
          if agg = AggCount then Ok (ScalarType KInteger)
          else (case t of
              ListType (ScalarType k) \<Rightarrow>
                if agg = AggAvg \<and> k \<in> {KInteger, KNumber} then Ok (ScalarType KNumber)
                else if agg = AggSum \<and> k \<in> {KInteger, KNumber} then Ok (ScalarType k)
                else if agg \<in> {AggMin, AggMax} \<and> k \<in> {KInteger, KNumber, KDate, KOrdinal} then Ok (ScalarType k)
                else Err ''aggregate-type-mismatch''
            | _ \<Rightarrow> Err ''aggregate-type-mismatch''))"

text \<open>
  The input of an inference: a given type, or a selection, or nothing; a tuple of types comes before all.
\<close>

datatype inference_input = GivenType query_result_type | Selected selection | NoInput

definition infer_binding_type ::
    "registry_snapshot \<Rightarrow> query_result_type list \<Rightarrow> inference_input \<Rightarrow> string option \<Rightarrow> aggregate option
      \<Rightarrow> (binding_type_error, query_result_type) result" where
  "infer_binding_type regs tuple_elements input project agg =
     (if tuple_elements \<noteq> [] then Ok (TupleType tuple_elements)
      else bind_result
        (case input of
           GivenType t \<Rightarrow> Ok t
         | Selected s \<Rightarrow> Ok (selection_type s)
         | NoInput \<Rightarrow> Err ''binding-expression-missing'')
        (\<lambda>t. bind_result (case project of None \<Rightarrow> Ok t | Some path \<Rightarrow> project_type regs t path)
          (\<lambda>t. case agg of None \<Rightarrow> Ok t | Some a \<Rightarrow> aggregate_type t a)))"

section \<open>Compatibility\<close>

definition string_like :: "scalar_kind \<Rightarrow> bool" where
  "string_like k \<longleftrightarrow> k \<in> {KString, KSlug}"

definition scalar_kinds_comparable :: "scalar_kind \<Rightarrow> scalar_kind \<Rightarrow> bool" where
  "scalar_kinds_comparable l r \<longleftrightarrow> l = r \<or> (string_like l \<and> string_like r)"

definition slugs_compatible :: "string fset \<Rightarrow> string fset \<Rightarrow> (binding_type_error, unit) result" where
  "slugs_compatible declared inferred =
     (if declared = {||} \<or> inferred = {||} \<or> declared |\<subseteq>| inferred then Ok () else Err ''binding-type-mismatch'')"

function assert_types_are_compatible :: "query_result_type \<Rightarrow> query_result_type \<Rightarrow> (binding_type_error, unit) result" where
  "assert_types_are_compatible declared inferred =
     (case (declared, inferred) of
        (TupleType ds, TupleType is) \<Rightarrow>
          if length ds \<noteq> length is then Err ''tuple-arity-mismatch''
          else bind_result (traverse (\<lambda>(d, i). assert_types_are_compatible d i) (zip ds is)) (\<lambda>_. Ok ())
      | (OptionalType d, OptionalType i) \<Rightarrow> assert_types_are_compatible d i
      | (ListType d, ListType i) \<Rightarrow> assert_types_are_compatible d i
      | (EntityInstanceType d, EntityInstanceType i) \<Rightarrow> slugs_compatible d i
      | (EntitySetType d, EntitySetType i) \<Rightarrow> slugs_compatible d i
      | (ConnectionInstanceType d, ConnectionInstanceType i) \<Rightarrow> slugs_compatible d i
      | (ConnectionSetType d, ConnectionSetType i) \<Rightarrow> slugs_compatible d i
      | (EntityInstanceType _, EntitySetType _) \<Rightarrow> Ok ()
      | (EntitySetType _, EntityInstanceType _) \<Rightarrow> Ok ()
      | (ConnectionInstanceType _, ConnectionSetType _) \<Rightarrow> Ok ()
      | (ConnectionSetType _, ConnectionInstanceType _) \<Rightarrow> Ok ()
      | (ScalarType d, ScalarType i) \<Rightarrow> if scalar_kinds_comparable d i then Ok () else Err ''binding-type-mismatch''
      | _ \<Rightarrow> Err ''binding-type-mismatch'')"
  by pat_completeness auto

termination
  by (relation "measure (\<lambda>(d, i). size d)") (auto dest!: set_zip_leftD simp: less_Suc_eq_le intro: size_list_estimation')

declare assert_types_are_compatible.simps [simp del]

end
