(* ===== verification/Criteria_Round_Trip.thy ===== *)
theory Criteria_Round_Trip
  imports Criteria
begin

text \<open>
  Which trees survive being written and read: exactly the well-formed ones, and whatever is read is
  well formed. Well-formed means that a value reference carries what its kind uses and nothing else.
\<close>

section \<open>Well-formed trees\<close>

definition nonempty :: "string option \<Rightarrow> bool" where
  "nonempty s \<longleftrightarrow> s \<noteq> None \<and> s \<noteq> Some []"

definition says_from :: "val \<Rightarrow> bool" where
  "says_from v = (case v of VDict d \<Rightarrow> map_of d ''from'' \<noteq> None | _ \<Rightarrow> False)"

definition wf_value_ref :: "value_ref \<Rightarrow> bool" where
  "wf_value_ref r =
     (case ref_kind r of
        LiteralRef \<Rightarrow> r = default_ref\<lparr>ref_literal := ref_literal r\<rparr> \<and> \<not> says_from (ref_literal r)
      | ParameterRef \<Rightarrow> r = default_ref\<lparr>ref_kind := ParameterRef, ref_parameter := ref_parameter r\<rparr> \<and> nonempty (ref_parameter r)
      | BindingRef \<Rightarrow> r = default_ref\<lparr>ref_kind := BindingRef, ref_binding := ref_binding r, ref_project := ref_project r,
            ref_aggregate := ref_aggregate r, ref_quantifier := ref_quantifier r\<rparr> \<and> nonempty (ref_binding r)
      | SelfRef \<Rightarrow> r = default_ref\<lparr>ref_kind := SelfRef, ref_attribute := ref_attribute r\<rparr> \<and> nonempty (ref_attribute r)
      | EndpointRef \<Rightarrow> r = default_ref\<lparr>ref_kind := EndpointRef, ref_attribute := ref_attribute r, ref_endpoint := ref_endpoint r\<rparr> \<and>
            nonempty (ref_attribute r) \<and> ref_endpoint r \<noteq> None)"

definition wf_hops :: "int option \<Rightarrow> bool" where
  "wf_hops h \<longleftrightarrow> (\<forall>i. h = Some i \<longrightarrow> 2 \<le> i)"

definition wf_condition :: "attribute_condition \<Rightarrow> bool" where
  "wf_condition c \<longleftrightarrow> wf_value_ref (cond_value c)"

fun wf_connection_node :: "connection_node \<Rightarrow> bool" where
  "wf_connection_node (ConnectionCondition c) = wf_condition c"
| "wf_connection_node (ConnectionSubgroup (CriteriaGroup cj ns neg)) = list_all wf_connection_node ns"

fun wf_entity_node :: "entity_node \<Rightarrow> bool" where
  "wf_entity_node (EntityCondition c) = wf_condition c"
| "wf_entity_node (EntitySubgroup (CriteriaGroup cj ns neg)) = list_all wf_entity_node ns"
| "wf_entity_node (IncidentNode (IncidentCondition cg d eg neg t p h)) =
     ((case cg of None \<Rightarrow> True | Some g \<Rightarrow> wf_connection_node (ConnectionSubgroup g)) \<and>
      (case eg of None \<Rightarrow> True | Some g \<Rightarrow> wf_entity_node (EntitySubgroup g)) \<and> wf_hops h)"

definition wf_selection :: "connection_selection \<Rightarrow> bool" where
  "wf_selection s \<longleftrightarrow> wf_connection_node (ConnectionSubgroup (sel_criteria s)) \<and> wf_hops (sel_hops s)"

definition wf_inclusion :: "neighbor_inclusion \<Rightarrow> bool" where
  "wf_inclusion i \<longleftrightarrow>
     (case incl_connection i of None \<Rightarrow> True | Some g \<Rightarrow> wf_connection_node (ConnectionSubgroup g)) \<and>
     (case incl_neighbor i of None \<Rightarrow> True | Some g \<Rightarrow> wf_entity_node (EntitySubgroup g)) \<and>
     incl_traversal i \<noteq> TBoth \<and> wf_hops (incl_hops i)"

section \<open>Vocabularies\<close>

named_theorems mapping_simps \<open>reading back the entries of a written mapping\<close>

lemma dict_get_simps [mapping_simps]:
  "dict_get [] k v = v" "dict_get ((j, w) # d) k v = (if j = k then w else dict_get d k v)"
  by (simp_all add: dict_get_def)

lemma dict_get_append [mapping_simps]: "dict_get (d @ e) k v = (case map_of d k of None \<Rightarrow> dict_get e k v | Some w \<Rightarrow> w)"
  by (simp add: dict_get_def map_add_def split: option.split)

lemma str_val_VStr [simp]: "str_val lib (VStr s) = s"
  by (simp add: str_val_def)

lemma require_comparator_name [simp]: "require_comparator lib (VStr (comparator_name c)) = Ok c"
  by (cases c; simp add: require_comparator_def named_def all_comparators_def)

lemma require_conjunction_name [simp]: "require_conjunction lib (VStr (conjunction_name cj)) = Ok cj"
  by (cases cj; simp add: require_conjunction_def named_def)

lemma require_direction_name [simp]: "require_direction lib (VStr (direction_name d)) = Ok d"
  by (cases d; simp add: require_direction_def named_def)

lemma require_incident_traversal_name [simp]: "require_incident_traversal (VStr (traversal_name t)) = Ok t"
  by (cases t; simp add: require_incident_traversal_def in_vocabulary_def named_def)

lemma require_traversal_name [simp]: "t \<noteq> TBoth \<Longrightarrow> require_traversal (VStr (traversal_name t)) = Ok t"
  by (cases t; simp add: require_traversal_def in_vocabulary_def named_def)

lemma require_defaults [simp]:
  "require_conjunction lib (VStr ''and'') = Ok ConjAnd" "require_direction lib (VStr ''either'') = Ok Either"
  "require_incident_traversal (VStr ''direct'') = Ok TDirect" "require_traversal (VStr ''direct'') = Ok TDirect"
  by (simp_all add: require_conjunction_def require_direction_def require_incident_traversal_def require_traversal_def
      in_vocabulary_def named_def)

lemma optional_named_VNone [simp]: "optional_named f xs VNone = Ok None"
  by (simp add: optional_named_def)

lemma optional_aggregate_name [simp]:
  "optional_named aggregate_name [AggCount, AggSum, AggAvg, AggMin, AggMax] (VStr (aggregate_name a)) = Ok (Some a)"
  by (cases a; simp add: optional_named_def in_vocabulary_def named_def)

lemma optional_quantifier_name [simp]:
  "optional_named quantifier_name [QuantAny, QuantAll] (VStr (quantifier_name q)) = Ok (Some q)"
  by (cases q; simp add: optional_named_def in_vocabulary_def named_def)

lemma optional_hops_simps [simp]: "optional_hops VNone = Ok None" "wf_hops (Some i) \<Longrightarrow> optional_hops (VInt i) = Ok (Some i)"
  by (simp_all add: optional_hops_def wf_hops_def)

lemma optional_hops_wf: "optional_hops v = Ok h \<Longrightarrow> wf_hops h"
  by (auto simp: optional_hops_def wf_hops_def split: val.splits if_splits)

lemma flag_get [mapping_simps]:
  "map_of (flag k b) j = (if b \<and> j = k then Some (VBool True) else None)"
  "map fst (flag k b) = (if b then [k] else [])"
  by (simp_all add: flag_def)

lemma entry_get [mapping_simps]:
  "map_of (entry k f x) j = (if j = k then map_option f x else None)"
  "map fst (entry k f x) = (if x = None then [] else [k])"
  by (simp_all add: entry_def split: option.split)

lemma dict_get_flag [mapping_simps]: "dict_get (flag k b) k' v = (if b \<and> k' = k then VBool True else v)"
  by (simp add: flag_def dict_get_simps)

lemma dict_get_entry [mapping_simps]: "dict_get (entry k f x) k' v = (if k' = k then (case x of None \<Rightarrow> v | Some a \<Rightarrow> f a) else v)"
  by (simp add: entry_def dict_get_simps split: option.split)

section \<open>Value references and conditions\<close>

lemma value_ref_round_trip:
  assumes "wf_value_ref r"
  shows "value_ref_from_raw lib (value_ref_to_raw r) = Ok r"
proof (cases "ref_kind r")
  case LiteralRef
  with assms have r: "r = default_ref\<lparr>ref_literal := ref_literal r\<rparr>" "\<not> says_from (ref_literal r)"
    by (simp_all add: wf_value_ref_def)
  from r(2) have "value_ref_from_raw lib (ref_literal r) = Ok (default_ref\<lparr>ref_literal := ref_literal r\<rparr>)"
    by (auto simp: value_ref_from_raw_def says_from_def split: val.splits option.splits)
  with r(1) LiteralRef show ?thesis by (simp add: value_ref_to_raw_def)
next
  case SelfRef
  with assms obtain a where "r = default_ref\<lparr>ref_kind := SelfRef, ref_attribute := Some a\<rparr>" "a \<noteq> []"
    by (cases "ref_attribute r") (auto simp: wf_value_ref_def nonempty_def)
  then show ?thesis
    by (simp add: value_ref_to_raw_def value_ref_from_raw_def text_val_def check_keys_def value_ref_keys_def mapping_simps)
next
  case EndpointRef
  with assms obtain a e where "r = default_ref\<lparr>ref_kind := EndpointRef, ref_attribute := Some a, ref_endpoint := Some e\<rparr>" "a \<noteq> []"
    by (cases "ref_attribute r"; cases "ref_endpoint r") (auto simp: wf_value_ref_def nonempty_def)
  then show ?thesis
    by (cases e) (simp_all add: value_ref_to_raw_def value_ref_from_raw_def text_val_def check_keys_def value_ref_keys_def mapping_simps)
next
  case ParameterRef
  with assms obtain a where "r = default_ref\<lparr>ref_kind := ParameterRef, ref_parameter := Some a\<rparr>" "a \<noteq> []"
    by (cases "ref_parameter r") (auto simp: wf_value_ref_def nonempty_def)
  then show ?thesis
    by (simp add: value_ref_to_raw_def value_ref_from_raw_def text_val_def check_keys_def value_ref_keys_def mapping_simps)
next
  case BindingRef
  with assms obtain b p a q where "r = default_ref\<lparr>ref_kind := BindingRef, ref_binding := Some b, ref_project := p,
      ref_aggregate := a, ref_quantifier := q\<rparr>" "b \<noteq> []"
    by (cases "ref_binding r") (auto simp: wf_value_ref_def nonempty_def)
  then show ?thesis
    by (cases p; cases a; cases q)
      (simp_all add: value_ref_to_raw_def value_ref_from_raw_def text_val_def check_keys_def value_ref_keys_def
        binding_ref_from_def mapping_simps)
qed

lemma condition_round_trip:
  assumes "wf_condition c"
  shows "condition_from_raw lib (condition_to_mapping c) = Ok c" and "has_kind (condition_to_mapping c) ''condition''"
    and "\<not> has_kind (condition_to_mapping c) ''group''"
proof -
  have "value_ref_from_raw lib (dict_get (condition_to_mapping c) ''value'' VNone) = Ok (cond_value c)"
  proof (cases "cond_value c = default_ref")
    case True
    then have "dict_get (condition_to_mapping c) ''value'' VNone = VNone"
      by (simp add: condition_to_mapping_def mapping_simps)
    moreover have "default_ref\<lparr>ref_literal := VNone\<rparr> = default_ref" by (simp add: default_ref_def)
    ultimately show ?thesis by (simp add: value_ref_from_raw_def True)
  next
    case False
    then show ?thesis using value_ref_round_trip [of "cond_value c"] assms
      by (simp add: condition_to_mapping_def wf_condition_def mapping_simps)
  qed
  moreover have "dict_get (condition_to_mapping c) ''negate'' (VBool False) = VBool (cond_negate c)"
    by (simp add: condition_to_mapping_def mapping_simps)
  moreover have "check_keys (condition_to_mapping c) [''kind'', ''attribute'', ''comparator'', ''value'', ''negate''] = Ok ()"
    by (auto simp: check_keys_def condition_to_mapping_def mapping_simps)
  moreover have "required_key (condition_to_mapping c) ''attribute'' = Ok (VStr (cond_attribute c))"
    "required_key (condition_to_mapping c) ''comparator'' = Ok (VStr (comparator_name (cond_comparator c)))"
    by (simp_all add: required_key_def condition_to_mapping_def)
  ultimately show "condition_from_raw lib (condition_to_mapping c) = Ok c"
    by (simp add: condition_from_raw_def)
  show "has_kind (condition_to_mapping c) ''condition''" "\<not> has_kind (condition_to_mapping c) ''group''"
    by (simp_all add: has_kind_def condition_to_mapping_def)
qed

section \<open>Trees\<close>

lemma group_mapping_facts:
  "has_kind d ''group''" "\<not> has_kind d ''condition''" "\<not> has_kind d ''incident''" "check_keys d group_keys = Ok ()"
  "children_from_raw (dict_get d ''children'' (VList [])) = Ok vs" "finish_group lib d ns = Ok (CriteriaGroup cj ns neg)"
  if "group_mapping cj vs neg = VDict d"
proof -
  have d: "d = [(''kind'', VStr ''group''), (''conjunction'', VStr (conjunction_name cj)), (''children'', VList vs)] @ flag ''negate'' neg"
    using that by (simp add: group_mapping_def)
  show "has_kind d ''group''" "\<not> has_kind d ''condition''" "\<not> has_kind d ''incident''" "check_keys d group_keys = Ok ()"
    "children_from_raw (dict_get d ''children'' (VList [])) = Ok vs"
    unfolding d by (auto simp: has_kind_def check_keys_def group_keys_def children_from_raw_def mapping_simps)
  show "finish_group lib d ns = Ok (CriteriaGroup cj ns neg)"
    unfolding d by (simp add: finish_group_def mapping_simps)
qed

lemma group_mapping_dict: obtains d where "group_mapping cj vs neg = VDict d"
  by (simp add: group_mapping_def)

lemma traverse_written:
  "(\<And>n. n \<in> set ns \<Longrightarrow> f (g n) = Ok n) \<Longrightarrow> traverse f (map g ns) = Ok ns"
  by (induction ns) auto

lemma connection_node_round_trip:
  "wf_connection_node n \<Longrightarrow> parse_connection_node lib (connection_node_to_mapping n) = Ok n"
proof (induction n rule: connection_node_to_mapping.induct)
  case (1 c)
  then show ?case using condition_round_trip [of c] by (simp add: parse_connection_node.simps)
next
  case (2 cj ns neg)
  obtain d where d: "group_mapping cj (map connection_node_to_mapping ns) neg = VDict d" by (rule group_mapping_dict)
  have "traverse (parse_connection_node lib) (map connection_node_to_mapping ns) = Ok ns"
    by (rule traverse_written) (use 2 in \<open>auto simp: list_all_iff\<close>)
  then show ?case using d
    by (simp add: parse_connection_node.simps parse_connection_group.simps group_mapping_facts [OF d])
qed

lemma connection_group_round_trip:
  assumes "wf_connection_node (ConnectionSubgroup g)"
  shows "parse_connection_group lib (connection_group_to_mapping g) = Ok g" and "connection_group_to_mapping g \<noteq> VNone"
proof -
  obtain cj ns neg where g: "g = CriteriaGroup cj ns neg" by (cases g)
  obtain d where d: "group_mapping cj (map connection_node_to_mapping ns) neg = VDict d" by (rule group_mapping_dict)
  have "traverse (parse_connection_node lib) (map connection_node_to_mapping ns) = Ok ns"
    by (rule traverse_written) (use assms g in \<open>auto simp: list_all_iff connection_node_round_trip\<close>)
  then show "parse_connection_group lib (connection_group_to_mapping g) = Ok g" and "connection_group_to_mapping g \<noteq> VNone"
    using d by (simp_all add: g connection_group_to_mapping_def parse_connection_group.simps group_mapping_facts [OF d])
qed

lemma optional_connection_group_written:
  assumes "case cg of None \<Rightarrow> True | Some g \<Rightarrow> wf_connection_node (ConnectionSubgroup g)"
  shows "optional_connection_group lib (case cg of None \<Rightarrow> VNone | Some g \<Rightarrow> connection_group_to_mapping g) = Ok cg"
  using assms connection_group_round_trip by (cases cg) (simp_all add: optional_connection_group_def)

definition written_endpoint :: "entity_group option \<Rightarrow> val" where
  "written_endpoint eg = (case eg of None \<Rightarrow> VNone | Some g \<Rightarrow> entity_node_to_mapping (EntitySubgroup g))"

lemma incident_mapping_facts:
  fixes cg d eg neg t p h
  obtains m where "entity_node_to_mapping (IncidentNode (IncidentCondition cg d eg neg t p h)) = VDict m"
    and "\<not> has_kind m ''condition''" and "has_kind m ''incident''" and "check_keys m incident_keys = Ok ()"
    and "dict_get m ''direction'' (VStr ''either'') = VStr (direction_name d)"
    and "dict_get m ''connection_criteria'' VNone = (case cg of None \<Rightarrow> VNone | Some g \<Rightarrow> connection_group_to_mapping g)"
    and "dict_get m ''endpoint_criteria'' VNone = written_endpoint eg"
    and "dict_get m ''negate'' (VBool False) = VBool neg"
    and "dict_get m ''traversal'' (VStr ''direct'') = VStr (traversal_name t)"
    and "dict_get m ''include_potential'' (VBool False) = VBool p"
    and "dict_get m ''max_hops'' VNone = (case h of None \<Rightarrow> VNone | Some i \<Rightarrow> VInt i)"
proof
  let ?m = "[(''kind'', VStr ''incident'')] @
       (if d \<noteq> Either then [(''direction'', VStr (direction_name d))] else []) @
       entry ''connection_criteria'' connection_group_to_mapping cg @
       entry ''endpoint_criteria'' (\<lambda>g. entity_node_to_mapping (EntitySubgroup g)) eg @
       flag ''negate'' neg @ [(''traversal'', VStr (traversal_name t))] @ flag ''include_potential'' p @ entry ''max_hops'' VInt h"
  show "entity_node_to_mapping (IncidentNode (IncidentCondition cg d eg neg t p h)) = VDict ?m"
    by (simp add: entry_def)
  show "\<not> has_kind ?m ''condition''" "has_kind ?m ''incident''" by (simp_all add: has_kind_def)
  show "check_keys ?m incident_keys = Ok ()" by (auto simp: check_keys_def incident_keys_def mapping_simps)
  show "dict_get ?m ''direction'' (VStr ''either'') = VStr (direction_name d)"
    by (cases "d = Either") (simp_all add: mapping_simps)
  show "dict_get ?m ''connection_criteria'' VNone = (case cg of None \<Rightarrow> VNone | Some g \<Rightarrow> connection_group_to_mapping g)"
    by (cases "d = Either"; cases cg) (simp_all add: mapping_simps)
  show "dict_get ?m ''endpoint_criteria'' VNone = written_endpoint eg"
    by (cases "d = Either"; cases eg) (simp_all add: mapping_simps written_endpoint_def)
  show "dict_get ?m ''negate'' (VBool False) = VBool neg"
    by (cases "d = Either") (simp_all add: mapping_simps)
  show "dict_get ?m ''traversal'' (VStr ''direct'') = VStr (traversal_name t)"
    by (cases "d = Either") (simp_all add: mapping_simps)
  show "dict_get ?m ''include_potential'' (VBool False) = VBool p"
    by (cases "d = Either") (simp_all add: mapping_simps)
  show "dict_get ?m ''max_hops'' VNone = (case h of None \<Rightarrow> VNone | Some i \<Rightarrow> VInt i)"
    by (cases "d = Either") (simp_all add: mapping_simps)
qed

lemma optional_hops_written:
  "wf_hops h \<Longrightarrow> optional_hops (case h of None \<Rightarrow> VNone | Some i \<Rightarrow> VInt i) = Ok h"
  by (cases h) simp_all

lemma entity_subgroup_dict: "entity_node_to_mapping (EntitySubgroup g) \<noteq> VNone"
  by (cases g) (simp add: group_mapping_def)

lemma parse_entity_group_of_node:
  "parse_entity_node lib (entity_node_to_mapping (EntitySubgroup g)) = Ok (EntitySubgroup g) \<Longrightarrow>
   parse_entity_group lib (entity_node_to_mapping (EntitySubgroup g)) = Ok g"
proof -
  assume parsed: "parse_entity_node lib (entity_node_to_mapping (EntitySubgroup g)) = Ok (EntitySubgroup g)"
  obtain cj ns neg where g: "g = CriteriaGroup cj ns neg" by (cases g)
  obtain d where d: "group_mapping cj (map entity_node_to_mapping ns) neg = VDict d" by (rule group_mapping_dict)
  from parsed show ?thesis unfolding g
    by (simp add: d parse_entity_node.simps group_mapping_facts [OF d] bind_result_eq_Inr)
qed

lemma entity_node_round_trip:
  "wf_entity_node n \<Longrightarrow> parse_entity_node lib (entity_node_to_mapping n) = Ok n"
proof (induction n rule: entity_node_to_mapping.induct)
  case (1 c)
  then show ?case using condition_round_trip [of c] by (simp add: parse_entity_node.simps)
next
  case (2 cj ns neg)
  obtain d where d: "group_mapping cj (map entity_node_to_mapping ns) neg = VDict d" by (rule group_mapping_dict)
  have "traverse (parse_entity_node lib) (map entity_node_to_mapping ns) = Ok ns"
    by (rule traverse_written) (use 2 in \<open>auto simp: list_all_iff\<close>)
  then show ?case using d
    by (simp add: parse_entity_node.simps parse_entity_group.simps group_mapping_facts [OF d])
next
  case (3 cg d eg neg t p h)
  have endpoint_group: "(if written_endpoint eg = VNone then Ok None
      else bind_result (parse_entity_group lib (written_endpoint eg)) (\<lambda>g. Ok (Some g))) = Ok eg"
  proof (cases eg)
    case (Some g)
    then have "parse_entity_node lib (entity_node_to_mapping (EntitySubgroup g)) = Ok (EntitySubgroup g)"
      using 3 by simp
    then show ?thesis by (simp add: Some written_endpoint_def entity_subgroup_dict parse_entity_group_of_node)
  qed (simp add: written_endpoint_def)
  have parts: "case cg of None \<Rightarrow> True | Some g \<Rightarrow> wf_connection_node (ConnectionSubgroup g)" "wf_hops h"
    using 3(2) by simp_all
  obtain m where m: "entity_node_to_mapping (IncidentNode (IncidentCondition cg d eg neg t p h)) = VDict m"
    "\<not> has_kind m ''condition''" "has_kind m ''incident''" "check_keys m incident_keys = Ok ()"
    "dict_get m ''direction'' (VStr ''either'') = VStr (direction_name d)"
    "dict_get m ''connection_criteria'' VNone = (case cg of None \<Rightarrow> VNone | Some g \<Rightarrow> connection_group_to_mapping g)"
    "dict_get m ''endpoint_criteria'' VNone = written_endpoint eg"
    "dict_get m ''negate'' (VBool False) = VBool neg"
    "dict_get m ''traversal'' (VStr ''direct'') = VStr (traversal_name t)"
    "dict_get m ''include_potential'' (VBool False) = VBool p"
    "dict_get m ''max_hops'' VNone = (case h of None \<Rightarrow> VNone | Some i \<Rightarrow> VInt i)"
    by (rule incident_mapping_facts)
  have "finish_incident lib m (Ok eg) = Ok (IncidentCondition cg d eg neg t p h)"
    by (simp add: finish_incident_def m(5,6,8-11) optional_connection_group_written [OF parts(1)]
        optional_hops_written [OF parts(2)])
  then show ?case unfolding m(1) parse_entity_node.simps val.case m(7) endpoint_group
    by (simp add: m(2-4))
qed

lemma entity_group_round_trip:
  assumes "wf_entity_node (EntitySubgroup g)"
  shows "parse_entity_group lib (entity_group_to_mapping g) = Ok g"
  unfolding entity_group_to_mapping_def
  by (rule parse_entity_group_of_node [OF entity_node_round_trip [OF assms]])

section \<open>What is read is well formed\<close>

lemma wf_default_refs [simp]:
  "\<not> says_from v \<Longrightarrow> wf_value_ref (default_ref\<lparr>ref_literal := v\<rparr>)"
  "a \<noteq> [] \<Longrightarrow> wf_value_ref (default_ref\<lparr>ref_kind := ParameterRef, ref_parameter := Some a\<rparr>)"
  "a \<noteq> [] \<Longrightarrow> wf_value_ref (default_ref\<lparr>ref_kind := SelfRef, ref_attribute := Some a\<rparr>)"
  "a \<noteq> [] \<Longrightarrow> wf_value_ref (default_ref\<lparr>ref_kind := EndpointRef, ref_attribute := Some a, ref_endpoint := Some e\<rparr>)"
  "a \<noteq> [] \<Longrightarrow> wf_value_ref (default_ref\<lparr>ref_kind := BindingRef, ref_binding := Some a, ref_project := p, ref_aggregate := g, ref_quantifier := q\<rparr>)"
  by (simp_all add: wf_value_ref_def default_ref_def nonempty_def)

text \<open>The text of a true object is not empty; this is all that is used of the library here.\<close>

definition true_objects_have_text :: "py_lib \<Rightarrow> bool" where
  "true_objects_have_text lib \<longleftrightarrow> (\<forall>v. val_truth v \<longrightarrow> text_of lib v \<noteq> [])"

lemma str_val_nonempty: "\<lbrakk>true_objects_have_text lib; val_truth v\<rbrakk> \<Longrightarrow> str_val lib v \<noteq> []"
  by (auto simp: str_val_def true_objects_have_text_def split: val.splits)

lemma binding_ref_from_wf: "\<lbrakk>binding_ref_from lib nm d = Ok r; nm \<noteq> []\<rbrakk> \<Longrightarrow> wf_value_ref r"
  by (auto simp: binding_ref_from_def bind_result_eq_Inr)

lemma value_ref_from_raw_wf:
  assumes "true_objects_have_text lib" and "value_ref_from_raw lib v = Ok r"
  shows "wf_value_ref r"
proof (cases "says_from v")
  case False
  then have "r = default_ref\<lparr>ref_literal := v\<rparr>"
    using assms(2) by (auto simp: value_ref_from_raw_def says_from_def split: val.splits)
  with False show ?thesis by simp
next
  case True
  then obtain d origin where v: "v = VDict d" "map_of d ''from'' = Some origin"
    by (auto simp: says_from_def split: val.splits)
  let ?attr = "dict_get d ''attribute'' VNone"
  consider (ref) nm where "dict_get d ''name'' VNone = VStr nm" "nm \<noteq> []"
      "r = default_ref\<lparr>ref_kind := ParameterRef, ref_parameter := Some nm\<rparr> \<or> binding_ref_from lib nm d = Ok r"
    | (attr) "val_truth ?attr"
      "r = default_ref\<lparr>ref_kind := SelfRef, ref_attribute := Some (str_val lib ?attr)\<rparr> \<or>
       (\<exists>e. r = default_ref\<lparr>ref_kind := EndpointRef, ref_attribute := Some (str_val lib ?attr), ref_endpoint := Some e\<rparr>)"
  proof (cases "str_val lib origin \<in> {''binding'', ''parameter''}")
    case True
    then show ?thesis using assms(2) v that(1)
      by (auto simp: value_ref_from_raw_def bind_result_eq_Inr Let_def split: val.splits if_splits)
  next
    case False
    then show ?thesis using assms(2) v that(2)
      by (auto simp: value_ref_from_raw_def bind_result_eq_Inr Let_def split: if_splits)
  qed
  then show ?thesis
  proof cases
    case ref
    then show ?thesis using binding_ref_from_wf by auto
  next
    case attr
    with str_val_nonempty [OF assms(1)] show ?thesis by auto
  qed
qed

lemma condition_from_raw_wf:
  "\<lbrakk>true_objects_have_text lib; condition_from_raw lib d = Ok c\<rbrakk> \<Longrightarrow> wf_condition c"
  by (auto simp: condition_from_raw_def bind_result_eq_Inr wf_condition_def dest: value_ref_from_raw_wf)

lemma traverse_all:
  assumes "traverse f vs = Ok ns" and "\<And>v n. \<lbrakk>v \<in> set vs; f v = Ok n\<rbrakk> \<Longrightarrow> P n"
  shows "list_all P ns"
  using assms
proof (induction vs arbitrary: ns)
  case (Cons v vs)
  then obtain m ms where m: "f v = Ok m" "traverse f vs = Ok ms" "ns = m # ms" by (auto split: sum.splits)
  have "list_all P ms" by (rule Cons.IH [OF m(2)], rule Cons.prems(2)) simp_all
  with Cons.prems(2) [of v m] m show ?case by simp
qed simp

lemma finish_group_eq: "finish_group lib d ns = Ok g \<Longrightarrow> \<exists>cj neg. g = CriteriaGroup cj ns neg"
  by (auto simp: finish_group_def bind_result_eq_Inr)

lemma parse_connection_wf:
  assumes "true_objects_have_text lib"
  shows "parse_connection_node lib v = Ok n \<Longrightarrow> wf_connection_node n"
    and "parse_connection_group lib v = Ok g \<Longrightarrow> wf_connection_node (ConnectionSubgroup g)"
  using assms
proof (induction lib v and lib v arbitrary: n and g rule: parse_connection_node_parse_connection_group.induct)
  case (1 lib raw)
  from "1.prems"(1) obtain d where raw: "raw = VDict d" by (auto simp: parse_connection_node.simps split: val.splits)
  show ?case
  proof (cases "has_kind d ''condition''")
    case True
    with "1.prems" raw show ?thesis
      by (auto simp: parse_connection_node.simps bind_result_eq_Inr dest: condition_from_raw_wf)
  next
    case False
    with "1.prems"(1) raw obtain g where g: "has_kind d ''group''" "parse_connection_group lib raw = Ok g" "n = ConnectionSubgroup g"
      by (auto simp: parse_connection_node.simps bind_result_eq_Inr split: if_splits)
    with "1.IH" [OF raw False g(1) g(2) "1.prems"(2)] show ?thesis by simp
  qed
next
  case (2 lib raw)
  from "2.prems"(1) obtain d vs ns where d: "raw = VDict d" "has_kind d ''group''" "check_keys d group_keys = Inr ()"
    "children_from_raw (dict_get d ''children'' (VList [])) = Ok vs" "traverse (parse_connection_node lib) vs = Ok ns"
    "finish_group lib d ns = Ok g"
    by (auto simp: parse_connection_group.simps bind_result_eq_Inr split: val.splits if_splits sum.splits)
  have "list_all wf_connection_node ns"
    by (rule traverse_all [OF d(5)]) (use "2.IH" [OF d(1) _ d(3,4) _ _ "2.prems"(2)] d(2) in blast)
  with finish_group_eq [OF d(6)] show ?case by auto
qed

lemma optional_connection_group_wf:
  assumes "optional_connection_group lib v = Ok cg" and "true_objects_have_text lib"
  shows "case cg of None \<Rightarrow> True | Some g \<Rightarrow> wf_connection_node (ConnectionSubgroup g)"
  using assms parse_connection_wf(2) [OF assms(2)]
  by (auto simp: optional_connection_group_def bind_result_eq_Inr split: if_splits)

lemma finish_incident_wf:
  assumes "finish_incident lib d (Ok eg) = Ok i" and "true_objects_have_text lib"
    and "case eg of None \<Rightarrow> True | Some g \<Rightarrow> wf_entity_node (EntitySubgroup g)"
  shows "wf_entity_node (IncidentNode i)"
proof -
  from assms(1) obtain cg dir t h neg p where i: "i = IncidentCondition cg dir eg neg t p h"
    "optional_connection_group lib (dict_get d ''connection_criteria'' VNone) = Ok cg"
    "optional_hops (dict_get d ''max_hops'' VNone) = Ok h"
    by (auto simp: finish_incident_def bind_result_eq_Inr)
  from optional_connection_group_wf [OF i(2) assms(2)] optional_hops_wf [OF i(3)] assms(3) i(1) show ?thesis by simp
qed

lemma parse_entity_wf:
  assumes "true_objects_have_text lib"
  shows "parse_entity_node lib v = Ok n \<Longrightarrow> wf_entity_node n"
    and "parse_entity_group lib v = Ok g \<Longrightarrow> wf_entity_node (EntitySubgroup g)"
  using assms
proof (induction lib v and lib v arbitrary: n and g rule: parse_entity_node_parse_entity_group.induct)
  case (1 lib raw)
  from "1.prems"(1) obtain d where raw: "raw = VDict d" by (auto simp: parse_entity_node.simps split: val.splits)
  let ?endpoint = "dict_get d ''endpoint_criteria'' VNone"
  consider "has_kind d ''condition''" | "\<not> has_kind d ''condition''" "has_kind d ''incident''"
    | "\<not> has_kind d ''condition''" "\<not> has_kind d ''incident''" by blast
  then show ?case
  proof cases
    case 1
    with "1.prems" raw show ?thesis
      by (auto simp: parse_entity_node.simps bind_result_eq_Inr dest: condition_from_raw_wf)
  next
    case 2
    with "1.prems"(1) raw obtain i where i: "n = IncidentNode i"
      "finish_incident lib d (if ?endpoint = VNone then Ok None
         else bind_result (parse_entity_group lib ?endpoint) (\<lambda>g. Ok (Some g))) = Ok i"
      by (auto simp: parse_entity_node.simps bind_result_eq_Inr)
    then obtain eg where eg: "(if ?endpoint = VNone then Ok None
         else bind_result (parse_entity_group lib ?endpoint) (\<lambda>g. Ok (Some g))) = Ok eg"
      by (cases "if ?endpoint = VNone then Ok None else bind_result (parse_entity_group lib ?endpoint) (\<lambda>g. Ok (Some g))")
        (auto simp: finish_incident_def bind_result_eq_Inr)
    have "case eg of None \<Rightarrow> True | Some g \<Rightarrow> wf_entity_node (EntitySubgroup g)"
    proof (cases "?endpoint = VNone")
      case False
      with eg obtain g where "parse_entity_group lib ?endpoint = Ok g" "eg = Some g" by (auto simp: bind_result_eq_Inr)
      with "1.IH"(1) [OF raw 2 False _ "1.prems"(2)] show ?thesis by simp
    qed (use eg in simp)
    with finish_incident_wf [OF i(2) [unfolded eg] "1.prems"(2)] i(1) show ?thesis by simp
  next
    case 3
    with "1.prems"(1) raw obtain g where g: "has_kind d ''group''" "parse_entity_group lib raw = Ok g" "n = EntitySubgroup g"
      by (auto simp: parse_entity_node.simps bind_result_eq_Inr split: if_splits)
    with "1.IH"(2) [OF raw 3 g(1) g(2) "1.prems"(2)] show ?thesis by simp
  qed
next
  case (2 lib raw)
  from "2.prems"(1) obtain d vs ns where d: "raw = VDict d" "has_kind d ''group''" "check_keys d group_keys = Inr ()"
    "children_from_raw (dict_get d ''children'' (VList [])) = Ok vs" "traverse (parse_entity_node lib) vs = Ok ns"
    "finish_group lib d ns = Ok g"
    by (auto simp: parse_entity_group.simps bind_result_eq_Inr split: val.splits if_splits sum.splits)
  have "list_all wf_entity_node ns"
    by (rule traverse_all [OF d(5)]) (use "2.IH" [OF d(1) _ d(3,4) _ _ "2.prems"(2)] d(2) in blast)
  with finish_group_eq [OF d(6)] show ?case by auto
qed

section \<open>Selections and inclusions\<close>

lemma selection_round_trip:
  assumes "wf_selection s"
  shows "parse_connection_selection lib (connection_selection_to_mapping s) = Ok s"
proof -
  let ?m = "(if \<not> sel_enabled s then [(''enabled'', VBool False)] else []) @
       (if sel_criteria s \<noteq> empty_group then [(''criteria'', connection_group_to_mapping (sel_criteria s))] else []) @
       (if sel_traversal s \<noteq> TDirect then [(''traversal'', VStr (traversal_name (sel_traversal s)))] else []) @
       flag ''include_potential'' (sel_potential s) @ entry ''max_hops'' VInt (sel_hops s)"
  have keys: "check_keys ?m [''enabled'', ''criteria'', ''traversal'', ''include_potential'', ''max_hops''] = Ok ()"
    by (auto simp: check_keys_def mapping_simps)
  have criteria: "dict_get ?m ''criteria'' VNone =
      (if sel_criteria s = empty_group then VNone else connection_group_to_mapping (sel_criteria s))"
    by (simp add: mapping_simps)
  have "dict_get ?m ''enabled'' (VBool True) = VBool (sel_enabled s)" by (simp add: mapping_simps)
  moreover have "dict_get ?m ''traversal'' (VStr ''direct'') = VStr (traversal_name (sel_traversal s))" by (simp add: mapping_simps)
  moreover have "dict_get ?m ''include_potential'' (VBool False) = VBool (sel_potential s)" by (simp add: mapping_simps)
  moreover have "dict_get ?m ''max_hops'' VNone = (case sel_hops s of None \<Rightarrow> VNone | Some i \<Rightarrow> VInt i)" by (simp add: mapping_simps)
  moreover have "wf_connection_node (ConnectionSubgroup (sel_criteria s))" "wf_hops (sel_hops s)"
    using assms by (simp_all add: wf_selection_def)
  moreover note connection_group_round_trip [OF calculation(5)]
  ultimately show ?thesis
    unfolding parse_connection_selection_def connection_selection_to_mapping_def val.case
    by (simp add: keys criteria optional_hops_written)
qed

lemma inclusion_round_trip:
  assumes "wf_inclusion i"
  shows "parse_neighbor_inclusion lib (neighbor_inclusion_to_mapping i) = Ok i"
proof -
  let ?m = "(if incl_direction i \<noteq> Either then [(''direction'', VStr (direction_name (incl_direction i)))] else []) @
       entry ''connection_criteria'' connection_group_to_mapping (incl_connection i) @
       entry ''neighbor_criteria'' entity_group_to_mapping (incl_neighbor i) @
       (if incl_traversal i \<noteq> TDirect then [(''traversal'', VStr (traversal_name (incl_traversal i)))] else []) @
       flag ''include_potential'' (incl_potential i) @ entry ''max_hops'' VInt (incl_hops i)"
  have wf: "case incl_connection i of None \<Rightarrow> True | Some g \<Rightarrow> wf_connection_node (ConnectionSubgroup g)"
    "case incl_neighbor i of None \<Rightarrow> True | Some g \<Rightarrow> wf_entity_node (EntitySubgroup g)"
    "incl_traversal i \<noteq> TBoth" "wf_hops (incl_hops i)"
    using assms by (simp_all add: wf_inclusion_def)
  have keys: "check_keys ?m [''connection_criteria'', ''direction'', ''neighbor_criteria'', ''traversal'', ''include_potential'', ''max_hops''] = Ok ()"
    by (auto simp: check_keys_def mapping_simps)
  have cg: "dict_get ?m ''connection_criteria'' VNone = (case incl_connection i of None \<Rightarrow> VNone | Some g \<Rightarrow> connection_group_to_mapping g)"
    by (simp add: mapping_simps split: option.split)
  have "dict_get ?m ''neighbor_criteria'' VNone = (case incl_neighbor i of None \<Rightarrow> VNone | Some g \<Rightarrow> entity_group_to_mapping g)"
    by (simp add: mapping_simps split: option.split)
  then have eg: "(if dict_get ?m ''neighbor_criteria'' VNone = VNone then Ok None
      else bind_result (parse_entity_group lib (dict_get ?m ''neighbor_criteria'' VNone)) (\<lambda>g. Ok (Some g))) = Ok (incl_neighbor i)"
    using wf(2) entity_subgroup_dict
    by (cases "incl_neighbor i") (simp_all add: entity_group_round_trip, simp add: entity_group_to_mapping_def)
  have "dict_get ?m ''direction'' (VStr ''either'') = VStr (direction_name (incl_direction i))"
    "dict_get ?m ''traversal'' (VStr ''direct'') = VStr (traversal_name (incl_traversal i))"
    "dict_get ?m ''include_potential'' (VBool False) = VBool (incl_potential i)"
    "dict_get ?m ''max_hops'' VNone = (case incl_hops i of None \<Rightarrow> VNone | Some h \<Rightarrow> VInt h)"
    by (simp_all add: mapping_simps split: option.split)
  then show ?thesis
    unfolding parse_neighbor_inclusion_def neighbor_inclusion_to_mapping_def val.case keys cg eg
    by (simp add: optional_connection_group_written [OF wf(1)] optional_hops_written [OF wf(4)] wf(3))
qed


definition plain_lib :: py_lib where
  "plain_lib = \<lparr>fold_case = (\<lambda>c. c), sum_floats = sum_list, true_division = (\<lambda>q n. q / of_nat n), text_of = (\<lambda>_. ''x'')\<rparr>"

definition sample_group :: entity_group where
  "sample_group = CriteriaGroup ConjOr
     [IncidentNode (IncidentCondition
        (Some (CriteriaGroup ConjAnd [ConnectionCondition \<lparr>cond_attribute = ''type'', cond_comparator = CmpEq,
           cond_value = default_ref\<lparr>ref_literal := VStr ''flow''\<rparr>, cond_negate = True\<rparr>] False))
        Outgoing None True TBoth False (Some 3))] False"


end
