(* ===== verification/Query_Bindings.thy ===== *)
theory Query_Bindings
  imports Query_Types Criteria_Round_Trip
begin

text \<open>
  The parameters of a query: their declarations (\<^verbatim>\<open>viewpoint_bindings.py\<close>), the canonical form of a set-valued
  one (\<^verbatim>\<open>viewpoint_set_parameters.py\<close>) and binding what a caller supplies to them
  (\<^verbatim>\<open>src/application/viewpoints/parameter_binding.py\<close>).
\<close>

section \<open>Declarations\<close>

datatype parameter_type = OfKind scalar_kind | EntityId

record query_parameter =
  qp_name :: string
  qp_type :: parameter_type
  qp_required :: bool
  qp_default :: val
  qp_set_valued :: bool
  qp_allowed :: "string list"
  qp_min_items :: int

datatype parameter_rejection = Missing | Undeclared | TypeMismatch | NotASet | UnknownMember | BelowMinimum

record parameter_error =
  rejection :: parameter_rejection
  rejected_parameter :: string

definition reject :: "parameter_rejection \<Rightarrow> string \<Rightarrow> (parameter_error, 'a) result" where
  "reject r n = Err \<lparr>rejection = r, rejected_parameter = n\<rparr>"

section \<open>Set values\<close>

text \<open>First occurrences, in order.\<close>

definition first_seen :: "'a list \<Rightarrow> 'a list" where
  "first_seen xs = rev (remdups (rev xs))"

definition canonicalize_set_value :: "py_lib \<Rightarrow> val list \<Rightarrow> string list \<Rightarrow> string list \<times> string list" where
  "canonicalize_set_value lib values allowed =
     (let supplied = map (str_val lib) values in
      if allowed = [] then (sort (first_seen supplied), [])
      else (filter (\<lambda>n. n \<in> set supplied) allowed, first_seen (filter (\<lambda>m. m \<notin> set allowed) supplied)))"

definition bind_set_value :: "py_lib \<Rightarrow> val \<Rightarrow> query_parameter \<Rightarrow> (parameter_error, val) result" where
  "bind_set_value lib v p =
     (case elements v of
        None \<Rightarrow> reject NotASet (qp_name p)
      | Some vs \<Rightarrow>
          let (canonical, unknown) = canonicalize_set_value lib vs (qp_allowed p) in
          if unknown \<noteq> [] then reject UnknownMember (qp_name p)
          else if int (length canonical) < qp_min_items p then reject BelowMinimum (qp_name p)
          else Ok (VTuple (map VStr canonical)))"

text \<open>The static validation of a set-valued declaration.\<close>

definition set_parameter_accepted :: "py_lib \<Rightarrow> query_parameter \<Rightarrow> bool" where
  "set_parameter_accepted lib p \<longleftrightarrow>
     1 \<le> qp_min_items p \<and> (qp_allowed p \<noteq> [] \<longrightarrow> qp_min_items p \<le> int (length (qp_allowed p))) \<and>
     (qp_default p = VNone \<or>
      (case elements (qp_default p) of
         None \<Rightarrow> False
       | Some vs \<Rightarrow>
           let members = map (str_val lib) vs in
           (qp_allowed p = [] \<or> set members \<subseteq> set (qp_allowed p)) \<and> qp_min_items p \<le> int (length members)))"

section \<open>Binding\<close>

fun is_number :: "bool \<Rightarrow> val \<Rightarrow> bool" where
  "is_number floats (VInt i) = True"
| "is_number floats (VFloat q) = floats"
| "is_number floats _ = False"

definition is_text :: "val \<Rightarrow> bool" where
  "is_text v = (case v of VStr s \<Rightarrow> True | _ \<Rightarrow> False)"

definition is_bool :: "val \<Rightarrow> bool" where
  "is_bool v = (case v of VBool b \<Rightarrow> True | _ \<Rightarrow> False)"

definition matches_parameter :: "val \<Rightarrow> parameter_type \<Rightarrow> bool" where
  "matches_parameter v t =
     (case t of
        EntityId \<Rightarrow> is_text v
      | OfKind k \<Rightarrow>
          (case k of
             KInteger \<Rightarrow> is_number False v
           | KNumber \<Rightarrow> is_number True v
           | KBoolean \<Rightarrow> is_bool v
           | KOrdinal \<Rightarrow> False
           | _ \<Rightarrow> is_text v))"

text \<open>A mapping by name: a name declared twice keeps its first place and its last declaration.\<close>

definition declared_parameters :: "query_parameter list \<Rightarrow> query_parameter list" where
  "declared_parameters ps =
     List.map_filter (\<lambda>n. List.find (\<lambda>p. qp_name p = n) (rev ps)) (first_seen (map qp_name ps))"

definition bind_one ::
    "py_lib \<Rightarrow> (string \<Rightarrow> bool) \<Rightarrow> mapping \<Rightarrow> query_parameter \<Rightarrow> (parameter_error, (string \<times> val) option) result" where
  "bind_one lib exists supplied p =
     (case map_of supplied (qp_name p) of
        None \<Rightarrow>
          if qp_default p \<noteq> VNone then Ok (Some (qp_name p, qp_default p))
          else if qp_required p then reject Missing (qp_name p)
          else Ok None
      | Some v \<Rightarrow>
          if qp_set_valued p then bind_result (bind_set_value lib v p) (\<lambda>w. Ok (Some (qp_name p, w)))
          else if \<not> matches_parameter v (qp_type p) then reject TypeMismatch (qp_name p)
          else if qp_type p \<noteq> EntityId \<or> (case v of VStr s \<Rightarrow> exists s | _ \<Rightarrow> False) then Ok (Some (qp_name p, v))
          else Ok None)"

definition bind_parameters ::
    "py_lib \<Rightarrow> (string \<Rightarrow> bool) \<Rightarrow> query_parameter list \<Rightarrow> mapping \<Rightarrow> (parameter_error, mapping) result" where
  "bind_parameters lib exists ps supplied =
     (case List.find (\<lambda>n. n \<notin> qp_name ` set ps) (map fst supplied) of
        Some n \<Rightarrow> reject Undeclared n
      | None \<Rightarrow> bind_result (traverse (bind_one lib exists supplied) (declared_parameters ps)) (\<lambda>rs. Ok (List.map_filter id rs)))"

definition inactive_parameter_names :: "query_parameter list \<Rightarrow> mapping \<Rightarrow> string set" where
  "inactive_parameter_names ps supplied =
     qp_name ` set (filter (\<lambda>p. \<not> qp_required p \<and> qp_default p = VNone \<and> map_of supplied (qp_name p) = None) ps)"

definition anchor_entity_ids :: "query_parameter list \<Rightarrow> mapping \<Rightarrow> string list" where
  "anchor_entity_ids ps resolved =
     first_seen (List.map_filter
       (\<lambda>p. if qp_type p \<noteq> EntityId then None
            else (case map_of resolved (qp_name p) of Some (VStr s) \<Rightarrow> Some s | _ \<Rightarrow> None)) ps)"

section \<open>What binding promises\<close>

lemma set_first_seen [simp]: "set (first_seen xs) = set xs"
  by (simp add: first_seen_def)

lemma distinct_first_seen [simp]: "distinct (first_seen xs)"
  by (simp add: first_seen_def)

lemma first_seen_Nil [simp]: "first_seen [] = []"
  by (simp add: first_seen_def)

text \<open>The canonical form depends on the members alone.\<close>

lemma canonical_by_members:
  assumes "str_val lib ` set vs = str_val lib ` set ws"
  shows "fst (canonicalize_set_value lib vs allowed) = fst (canonicalize_set_value lib ws allowed)"
    and "set (snd (canonicalize_set_value lib vs allowed)) = set (snd (canonicalize_set_value lib ws allowed))"
proof -
  have "sort (first_seen (map (str_val lib) vs)) = sort (first_seen (map (str_val lib) ws))"
    using assms by (intro sorted_distinct_set_unique) simp_all
  then show "fst (canonicalize_set_value lib vs allowed) = fst (canonicalize_set_value lib ws allowed)"
    using assms by (simp add: canonicalize_set_value_def Let_def)
  show "set (snd (canonicalize_set_value lib vs allowed)) = set (snd (canonicalize_set_value lib ws allowed))"
    using assms by (auto simp: canonicalize_set_value_def Let_def)
qed

definition canonical_members :: "string list \<Rightarrow> string list \<Rightarrow> bool" where
  "canonical_members allowed ms \<longleftrightarrow>
     distinct ms \<and> (if allowed = [] then sorted ms else \<exists>keep. ms = filter keep allowed)"

lemma canonical_form: "distinct allowed \<Longrightarrow> canonical_members allowed (fst (canonicalize_set_value lib vs allowed))"
  by (auto simp: canonical_members_def canonicalize_set_value_def Let_def)

lemma canonical_set: "snd (canonicalize_set_value lib vs allowed) = [] \<Longrightarrow>
   set (fst (canonicalize_set_value lib vs allowed)) = str_val lib ` set vs"
proof -
  assume known: "snd (canonicalize_set_value lib vs allowed) = []"
  show ?thesis
  proof (cases "allowed = []")
    case False
    with known have "set (first_seen (filter (\<lambda>m. m \<notin> set allowed) (map (str_val lib) vs))) = {}"
      by (simp add: canonicalize_set_value_def Let_def)
    then have "str_val lib ` set vs \<subseteq> set allowed" by auto
    with False show ?thesis by (auto simp: canonicalize_set_value_def Let_def)
  qed (simp add: canonicalize_set_value_def)
qed

text \<open>
  A set-valued parameter is a set. Supplying the same members in another order or with repetitions binds the same
  value or is refused for the same reason; the value bound is a tuple of exactly the members supplied, without
  repetition, in declaration order where the vocabulary is closed and in alphabetical order where it is open,
  and no fewer than the declared minimum. A default is bound as it was written, repetitions and all.
\<close>

theorem set_values_bind_as_sets:
  assumes "distinct (qp_allowed p)" and "str_val lib ` set vs = str_val lib ` set ws"
  shows "bind_set_value lib (VList vs) p = bind_set_value lib (VTuple ws) p \<and>
    (\<forall>v. bind_set_value lib (VList vs) p = Ok v \<longrightarrow>
       (\<exists>ms. v = VTuple (map VStr ms) \<and> set ms = str_val lib ` set vs \<and> canonical_members (qp_allowed p) ms \<and>
          qp_min_items p \<le> int (length ms))) \<and>
    (map_of supplied (qp_name p) = None \<and> qp_default p = VList ds \<longrightarrow>
       bind_one lib exists supplied p = Ok (Some (qp_name p, VList ds)))"
  using canonical_by_members [OF assms(2), of "qp_allowed p"] canonical_form [OF assms(1), of lib vs]
    canonical_set [of lib vs "qp_allowed p"]
  by (auto simp: bind_set_value_def bind_one_def reject_def split: prod.splits if_splits)

definition sample_parameter :: query_parameter where
  "sample_parameter =
     \<lparr>qp_name = ''scope'', qp_type = OfKind KString, qp_required = False, qp_default = VList [VStr ''b'', VStr ''b''],
      qp_set_valued = True, qp_allowed = [''b'', ''a''], qp_min_items = 2\<rparr>"

theorem set_values_bind_as_sets_witness:
  "bind_set_value plain_lib (VList [VStr ''a'', VStr ''b'', VStr ''a'']) sample_parameter =
     bind_set_value plain_lib (VTuple [VStr ''b'', VStr ''a'']) sample_parameter \<and>
   bind_one plain_lib (\<lambda>_. False) [] sample_parameter = Ok (Some (''scope'', VList [VStr ''b'', VStr ''b'']))"
  using set_values_bind_as_sets [of sample_parameter plain_lib "[VStr ''a'', VStr ''b'', VStr ''a'']" "[VStr ''b'', VStr ''a'']" "[]"
      "[VStr ''b'', VStr ''b'']" "\<lambda>_. False"]
  by (simp add: sample_parameter_def str_val_def insert_commute)

section \<open>Bindings of a query\<close>

text \<open>
  Bindings and derived attributes of a query (\<^verbatim>\<open>viewpoint_bindings.py\<close>, \<^verbatim>\<open>viewpoint_binding_evaluation.py\<close>,
  \<^verbatim>\<open>viewpoint_derived_relationship_batch.py\<close>, \<^verbatim>\<open>viewpoint_derived_attribute_deferral.py\<close>) and the environment an
  execution prepares from them (\<^verbatim>\<open>src/application/viewpoints/prepare_environment.py\<close>, \<^verbatim>\<open>signal_attributes.py\<close>).
\<close>

subsection \<open>Declarations\<close>

datatype binding_select = SelectsEntities | SelectsConnections

datatype binding_criteria = EntityTree entity_group | ConnectionTree connection_group

record query_binding =
  qb_name :: string
  qb_result_type :: query_result_type
  qb_select :: "binding_select option"
  qb_criteria :: "binding_criteria option"
  qb_project :: "string option"
  qb_aggregate :: "aggregate option"
  qb_tuple_of :: "string list"
  qb_include :: bool

datatype attribute_source = GraphSource | SignalSource

record derived_attribute =
  da_name :: string
  da_source :: attribute_source
  da_metric :: "string option"
  da_direction :: incident_direction
  da_derived :: bool
  da_potential :: bool
  da_hops :: "int option"
  da_connection :: "connection_group option"
  da_endpoint :: "entity_group option"
  da_reduce :: aggregate
  da_of :: "string option"

record binding_input =
  bi_entities :: "string list"
  bi_connections :: "string list"

datatype environment_error =
    InQuery query_error
  | Cardinality string bool nat
  | UnknownTupleName string
  | InParameter parameter_error

definition bare_environment :: "(string \<Rightarrow> bound_value option) \<Rightarrow> (string \<Rightarrow> val option) \<Rightarrow> evaluation_environment" where
  "bare_environment bindings parameters =
     \<lparr>env_bindings = bindings, env_parameters = parameters, env_derived = (\<lambda>_. None), env_inactive = {}\<rparr>"

subsection \<open>Bindings\<close>

text \<open>The records of the given ids that pass a test, in order of their ids; an id that is not found is passed over.\<close>

definition select_by ::
    "(string \<Rightarrow> 'r option) \<Rightarrow> ('r \<Rightarrow> (query_error, bool) result) \<Rightarrow> string list \<Rightarrow> (query_error, 'r list) result" where
  "select_by read test ids =
     bind_result
       (traverse (\<lambda>i. case read i of None \<Rightarrow> Ok None | Some r \<Rightarrow> bind_result (test r) (\<lambda>m. Ok (if m then Some r else None))) (sort ids))
       (\<lambda>rs. Ok (List.map_filter id rs))"

definition matched :: "(query_error, evaluation_outcome) result \<Rightarrow> (query_error, bool) result" where
  "matched r = bind_result r (\<lambda>x. Ok (out_matched x))"

definition select_records ::
    "query_context \<Rightarrow> evaluation_environment \<Rightarrow> binding_input \<Rightarrow> query_binding \<Rightarrow> (query_error, bound_value list) result" where
  "select_records qc env input b =
     (case (qb_select b, qb_criteria b) of
        (None, _) \<Rightarrow> Ok []
      | (Some SelectsEntities, Some (ConnectionTree g)) \<Rightarrow> Err WrongRecordKind
      | (Some SelectsConnections, Some (EntityTree g)) \<Rightarrow> Err WrongRecordKind
      | (Some SelectsEntities, None) \<Rightarrow>
          bind_result (select_by (read_entity (qc_access qc)) (\<lambda>_. Ok True) (bi_entities input)) (\<lambda>es. Ok (map BEntity es))
      | (Some SelectsEntities, Some (EntityTree g)) \<Rightarrow>
          bind_result (select_by (read_entity (qc_access qc)) (\<lambda>e. matched (evaluate_entity_criteria qc env g e)) (bi_entities input))
            (\<lambda>es. Ok (map BEntity es))
      | (Some SelectsConnections, None) \<Rightarrow>
          bind_result (select_by (read_connection (qc_access qc)) (\<lambda>_. Ok True) (bi_connections input)) (\<lambda>cs. Ok (map BConnection cs))
      | (Some SelectsConnections, Some (ConnectionTree g)) \<Rightarrow>
          bind_result (select_by (read_connection (qc_access qc)) (\<lambda>c. matched (evaluate_connection_criteria qc env c g)) (bi_connections input))
            (\<lambda>cs. Ok (map BConnection cs)))"

definition single :: "string \<Rightarrow> bool \<Rightarrow> bound_value list \<Rightarrow> (environment_error, bound_value) result" where
  "single name needed selected =
     (case selected of
        [x] \<Rightarrow> Ok x
      | _ \<Rightarrow> if \<not> needed \<and> selected = [] then Ok (BVal VNone) else Err (Cardinality name needed (length selected)))"

definition shaped :: "query_binding \<Rightarrow> bound_value list \<Rightarrow> (environment_error, bound_value) result" where
  "shaped b selected =
     (case qb_result_type b of
        EntityInstanceType _ \<Rightarrow> single (qb_name b) True selected
      | ConnectionInstanceType _ \<Rightarrow> single (qb_name b) True selected
      | OptionalType _ \<Rightarrow> single (qb_name b) False selected
      | _ \<Rightarrow> Ok (BTuple selected))"

definition tuple_member :: "evaluation_environment \<Rightarrow> string \<Rightarrow> (environment_error, bound_value) result" where
  "tuple_member env n = (case env_bindings env n of None \<Rightarrow> Err (UnknownTupleName n) | Some v \<Rightarrow> Ok v)"

definition materialize_binding ::
    "query_context \<Rightarrow> evaluation_environment \<Rightarrow> query_binding \<Rightarrow> bound_value list \<Rightarrow> (environment_error, bound_value) result" where
  "materialize_binding qc env b selected =
     (if qb_tuple_of b \<noteq> [] then bind_result (traverse (tuple_member env) (qb_tuple_of b)) (\<lambda>vs. Ok (BTuple vs))
      else bind_result (shaped b selected)
        (\<lambda>v. bind_result
           (case qb_project b of
              None \<Rightarrow> Ok v
            | Some p \<Rightarrow> lift_error InQuery
                (project_binding (if qb_select b = Some SelectsEntities then EntityContext else ConnectionContext) env v p))
           (\<lambda>w. case qb_aggregate b of
              None \<Rightarrow> Ok w
            | Some agg \<Rightarrow> lift_error InQuery (aggregate_bound (qc_lib qc) agg None w))))"

fun evaluate_bindings_from ::
    "query_context \<Rightarrow> (string \<Rightarrow> val option) \<Rightarrow> binding_input \<Rightarrow> (string \<Rightarrow> bound_value option) \<Rightarrow> query_binding list
      \<Rightarrow> (environment_error, string \<Rightarrow> bound_value option) result" where
  "evaluate_bindings_from qc parameters input values [] = Ok values"
| "evaluate_bindings_from qc parameters input values (b # bs) =
     (let env = bare_environment values parameters in
      bind_result (lift_error InQuery (select_records qc env input b))
        (\<lambda>selected. bind_result (materialize_binding qc env b selected)
          (\<lambda>v. evaluate_bindings_from qc parameters input (values(qb_name b \<mapsto> v)) bs)))"

definition evaluate_bindings ::
    "query_context \<Rightarrow> (string \<Rightarrow> val option) \<Rightarrow> binding_input \<Rightarrow> query_binding list
      \<Rightarrow> (environment_error, evaluation_environment) result" where
  "evaluate_bindings qc parameters input bs =
     bind_result (evaluate_bindings_from qc parameters input (\<lambda>_. None) bs) (\<lambda>values. Ok (bare_environment values parameters))"

subsection \<open>Derived attributes\<close>

definition reduce_values :: "py_lib \<Rightarrow> aggregate \<Rightarrow> val list \<Rightarrow> (query_error, val) result" where
  "reduce_values lib agg vs = lift_error ReductionFault (reduce_present lib agg None (filter (\<lambda>v. v \<noteq> VNone) vs))"

text \<open>The value a reduction takes from one incident connection; nothing is read for a count of connections.\<close>

definition source_value ::
    "evaluation_environment \<Rightarrow> string option \<Rightarrow> model_connection \<Rightarrow> model_entity \<Rightarrow> (query_error, val option) result" where
  "source_value env source c e =
     (case source of
        None \<Rightarrow> Ok None
      | Some s \<Rightarrow>
          if path_head s = ''connection'' then read_attribute_value ConnectionContext (Some env) (ConnectionItem c) (path_rest s)
          else read_attribute_value EntityContext (Some env) (EntityItem e) (path_rest s))"

definition endpoint_passes ::
    "query_context \<Rightarrow> evaluation_environment \<Rightarrow> entity_group option \<Rightarrow> model_entity \<Rightarrow> (query_error, bool) result" where
  "endpoint_passes qc env g e = (case g of None \<Rightarrow> Ok True | Some g \<Rightarrow> matched (evaluate_entity_criteria qc env g e))"

text \<open>One incident connection: none, or the value it contributes.\<close>

definition direct_hit ::
    "query_context \<Rightarrow> evaluation_environment \<Rightarrow> derived_attribute \<Rightarrow> string \<Rightarrow> model_connection
      \<Rightarrow> (query_error, val option option) result" where
  "direct_hit qc env a eid c =
     (if \<not> direction_matches (qc_registries qc) c eid (da_direction a) then Ok None
      else bind_result (case da_connection a of None \<Rightarrow> Ok True | Some g \<Rightarrow> matched (evaluate_connection_criteria qc env c g))
        (\<lambda>m. if \<not> m then Ok None
          else (case read_entity (qc_access qc) (other_end eid c) of
              None \<Rightarrow> Ok None
            | Some e \<Rightarrow> bind_result (endpoint_passes qc env (da_endpoint a) e)
                (\<lambda>m. if \<not> m then Ok None else bind_result (source_value env (da_of a) c e) (\<lambda>v. Ok (Some v))))))"

text \<open>A count is of the hits, any other reduction of their values.\<close>

definition reduce_hits :: "py_lib \<Rightarrow> aggregate \<Rightarrow> val option list \<Rightarrow> (query_error, val) result" where
  "reduce_hits lib agg hits =
     (if agg = AggCount then Ok (VInt (int (length hits))) else reduce_values lib agg (List.map_filter id hits))"

definition evaluate_derived ::
    "query_context \<Rightarrow> evaluation_environment \<Rightarrow> derived_attribute \<Rightarrow> string \<Rightarrow> (query_error, val) result" where
  "evaluate_derived qc env a eid =
     bind_result (traverse (direct_hit qc env a eid) (connections_for (qc_access qc) eid AnyDirection None))
       (\<lambda>rs. reduce_hits (qc_lib qc) (da_reduce a) (List.map_filter id rs))"

definition incident_pairs :: "string set \<Rightarrow> incident_direction \<Rightarrow> derived_relationship \<Rightarrow> (string \<times> string) list" where
  "incident_pairs ids d r =
     (if d \<in> {Outgoing, Either} \<and> rel_source_id r \<in> ids then [(rel_source_id r, rel_target_id r)] else []) @
     (if d \<in> {Incoming, Either} \<and> rel_target_id r \<in> ids then [(rel_target_id r, rel_source_id r)] else [])"

definition endpoint_prefix :: string where
  "endpoint_prefix = ''endpoint.''"

definition batch_value ::
    "evaluation_environment \<Rightarrow> string option \<Rightarrow> derived_relationship \<Rightarrow> model_entity \<Rightarrow> (query_error, val option) result" where
  "batch_value env source r e =
     (case source of
        None \<Rightarrow> Ok None
      | Some s \<Rightarrow>
          if s = ''relationship.hops'' then Ok (Some (VInt (int (rel_hops r))))
          else if take (length endpoint_prefix) s = endpoint_prefix
          then read_attribute_value EntityContext (Some env) (EntityItem e) (drop (length endpoint_prefix) s)
          else Ok None)"

definition batch_hit ::
    "query_context \<Rightarrow> evaluation_environment \<Rightarrow> derived_attribute \<Rightarrow> derived_relationship \<Rightarrow> string \<times> string
      \<Rightarrow> (query_error, (string \<times> val option) option) result" where
  "batch_hit qc env a r pair =
     (case read_entity (qc_access qc) (snd pair) of
        None \<Rightarrow> Ok None
      | Some e \<Rightarrow> bind_result (endpoint_passes qc env (da_endpoint a) e)
          (\<lambda>m. if \<not> m then Ok None else bind_result (batch_value env (da_of a) r e) (\<lambda>v. Ok (Some (fst pair, v)))))"

definition batch_hits ::
    "query_context \<Rightarrow> evaluation_environment \<Rightarrow> derived_attribute \<Rightarrow> string set \<Rightarrow> derived_relationship
      \<Rightarrow> (query_error, (string \<times> val option) list) result" where
  "batch_hits qc env a ids r =
     bind_result (derived_matches r (da_connection a))
       (\<lambda>m. if \<not> m then Ok []
         else bind_result (traverse (batch_hit qc env a r) (incident_pairs ids (da_direction a) r)) (\<lambda>hs. Ok (List.map_filter id hs)))"

definition hits_of :: "string \<Rightarrow> (string \<times> val option) list \<Rightarrow> val option list" where
  "hits_of i hits = map snd (filter (\<lambda>(k, v). k = i) hits)"

definition evaluate_relationship_derived_batch ::
    "query_context \<Rightarrow> evaluation_environment \<Rightarrow> derived_attribute \<Rightarrow> string list \<Rightarrow> (query_error, (string \<times> val) list) result" where
  "evaluate_relationship_derived_batch qc env a ids =
     (case derivation_catalog (qc_registries qc) of
        None \<Rightarrow> Ok (map (\<lambda>i. (i, if da_reduce a = AggCount then VInt 0 else VNone)) ids)
      | Some cat \<Rightarrow>
          if ids = [] then Ok []
          else bind_result (derive_for qc cat (query_request (qc_registries qc) ids (da_direction a) (da_potential a) (da_hops a)))
            (\<lambda>ds. bind_result (traverse (batch_hits qc env a (set ids)) (relationships ds))
              (\<lambda>hss. traverse (\<lambda>i. bind_result (reduce_hits (qc_lib qc) (da_reduce a) (hits_of i (concat hss))) (\<lambda>v. Ok (i, v))) ids)))"

definition derived_attribute_values ::
    "query_context \<Rightarrow> evaluation_environment \<Rightarrow> string list \<Rightarrow> derived_attribute \<Rightarrow> (query_error, (string \<times> val) list) result" where
  "derived_attribute_values qc env ids a =
     (if da_derived a then evaluate_relationship_derived_batch qc env a ids
      else traverse (\<lambda>i. bind_result (evaluate_derived qc env a i) (\<lambda>v. Ok (i, v))) ids)"

fun put_derived :: "(string \<times> string \<Rightarrow> val option) \<Rightarrow> string \<Rightarrow> (string \<times> val) list \<Rightarrow> string \<times> string \<Rightarrow> val option" where
  "put_derived m n [] = m"
| "put_derived m n ((i, v) # ivs) = put_derived (m((i, n) \<mapsto> v)) n ivs"

fun put_all_derived ::
    "(string \<times> string \<Rightarrow> val option) \<Rightarrow> (derived_attribute \<times> (string \<times> val) list) list \<Rightarrow> string \<times> string \<Rightarrow> val option" where
  "put_all_derived m [] = m"
| "put_all_derived m ((a, ivs) # rest) = put_all_derived (put_derived m (da_name a) ivs) rest"

definition evaluate_derived_attributes ::
    "query_context \<Rightarrow> evaluation_environment \<Rightarrow> string list \<Rightarrow> derived_attribute list
      \<Rightarrow> (query_error, evaluation_environment) result" where
  "evaluate_derived_attributes qc env entity_ids attributes =
     (let ids = filter (\<lambda>i. read_entity (qc_access qc) i \<noteq> None) (first_seen entity_ids) in
      bind_result (traverse (derived_attribute_values qc env ids) attributes)
        (\<lambda>valuess. Ok \<lparr>env_bindings = env_bindings env, env_parameters = env_parameters env,
           env_derived = put_all_derived (env_derived env) (zip attributes valuess), env_inactive = {}\<rparr>))"

subsection \<open>Deferral\<close>

definition derived_prefix :: string where
  "derived_prefix = ''derived.''"

definition condition_names :: "attribute_condition \<Rightarrow> string set" where
  "condition_names c =
     (if take (length derived_prefix) (cond_attribute c) = derived_prefix
      then {drop (length derived_prefix) (cond_attribute c)} else {})"

fun connection_names :: "connection_node \<Rightarrow> string set" where
  "connection_names (ConnectionCondition c) = condition_names c"
| "connection_names (ConnectionSubgroup (CriteriaGroup cj ns neg)) = (\<Union>n \<in> set ns. connection_names n)"

fun referenced_names :: "entity_node \<Rightarrow> string set" where
  "referenced_names (EntityCondition c) = condition_names c"
| "referenced_names (EntitySubgroup (CriteriaGroup cj ns neg)) = (\<Union>n \<in> set ns. referenced_names n)"
| "referenced_names (IncidentNode (IncidentCondition cg d eg neg t p h)) =
     (case cg of None \<Rightarrow> {} | Some g \<Rightarrow> connection_names (ConnectionSubgroup g)) \<union>
     (case eg of None \<Rightarrow> {} | Some g \<Rightarrow> referenced_names (EntitySubgroup g))"

record executable_query =
  eq_criteria :: entity_group
  eq_inclusions :: "neighbor_inclusion list"
  eq_connections :: connection_selection
  eq_bindings :: "query_binding list"
  eq_parameters :: "query_parameter list"
  eq_derived :: "derived_attribute list"

definition inclusion_names :: "neighbor_inclusion \<Rightarrow> string set" where
  "inclusion_names i =
     (case incl_connection i of None \<Rightarrow> {} | Some g \<Rightarrow> connection_names (ConnectionSubgroup g)) \<union>
     (case incl_neighbor i of None \<Rightarrow> {} | Some g \<Rightarrow> referenced_names (EntitySubgroup g))"

definition names_referenced_in_criteria :: "executable_query \<Rightarrow> string set" where
  "names_referenced_in_criteria q =
     referenced_names (EntitySubgroup (eq_criteria q)) \<union> (\<Union>i \<in> set (eq_inclusions q). inclusion_names i) \<union>
     connection_names (ConnectionSubgroup (sel_criteria (eq_connections q)))"

record attribute_partition =
  eager_graph :: "derived_attribute list"
  deferred_graph :: "derived_attribute list"
  eager_signal :: "derived_attribute list"
  deferred_signal :: "derived_attribute list"

definition partition_derived_attributes :: "executable_query \<Rightarrow> attribute_partition" where
  "partition_derived_attributes q =
     (let referenced = names_referenced_in_criteria q;
          graph = filter (\<lambda>a. da_source a = GraphSource) (eq_derived q);
          signal = filter (\<lambda>a. da_source a = SignalSource) (eq_derived q) in
      \<lparr>eager_graph = filter (\<lambda>a. da_name a \<in> referenced) graph, deferred_graph = filter (\<lambda>a. da_name a \<notin> referenced) graph,
       eager_signal = filter (\<lambda>a. da_name a \<in> referenced) signal, deferred_signal = filter (\<lambda>a. da_name a \<notin> referenced) signal\<rparr>)"

subsection \<open>Signal values\<close>

text \<open>The capability answers a batch of metric values, or that it has no coherent snapshot.\<close>

type_synonym signal_capability = "string list \<Rightarrow> string list \<Rightarrow> ((string \<times> string) \<times> val) list option"

text \<open>The attribute a metric goes to: of several attributes of one metric the last.\<close>

definition attribute_of_metric :: "derived_attribute list \<Rightarrow> string \<Rightarrow> string option" where
  "attribute_of_metric attributes m =
     map_option da_name (List.find (\<lambda>a. da_metric a = Some m \<and> m \<noteq> []) (rev attributes))"

fun merge_signals ::
    "(string \<Rightarrow> string option) \<Rightarrow> (string \<times> string \<Rightarrow> val option) \<Rightarrow> ((string \<times> string) \<times> val) list
      \<Rightarrow> string \<times> string \<Rightarrow> val option" where
  "merge_signals names m [] = m"
| "merge_signals names m (((i, metric), v) # batch) =
     merge_signals names
       (case names metric of Some n \<Rightarrow> if v \<noteq> VNone then m((i, n) \<mapsto> v) else m | None \<Rightarrow> m) batch"

definition fetch_and_merge_signal_attributes ::
    "signal_capability option \<Rightarrow> derived_attribute list \<Rightarrow> string list \<Rightarrow> evaluation_environment
      \<Rightarrow> evaluation_environment \<times> bool" where
  "fetch_and_merge_signal_attributes capability attributes ids env =
     (if attributes = [] \<or> ids = [] then (env, False)
      else (case capability of
          None \<Rightarrow> (env, True)
        | Some fetch \<Rightarrow>
            (case fetch ids (first_seen (filter (\<lambda>m. m \<noteq> []) (List.map_filter da_metric attributes))) of
               None \<Rightarrow> (env, True)
             | Some batch \<Rightarrow>
                 (\<lparr>env_bindings = env_bindings env, env_parameters = env_parameters env,
                   env_derived = merge_signals (attribute_of_metric attributes) (env_derived env) batch, env_inactive = {}\<rparr>, False))))"

subsection \<open>The environment of an execution\<close>

record prepared_environment =
  pe_environment :: evaluation_environment
  pe_deferred :: "derived_attribute list"
  pe_deferred_signal :: "derived_attribute list"
  pe_anchors :: "string list"
  pe_signal_warning :: bool

text \<open>
  The ids of the scope are given; a warning is kept as a flag. Where a definition has a scope and no query, the query
  made of its scope comes here.
\<close>

definition prepare_query_environment ::
    "query_context \<Rightarrow> signal_capability option \<Rightarrow> string list \<Rightarrow> string list \<Rightarrow> executable_query \<Rightarrow> mapping
      \<Rightarrow> (environment_error, prepared_environment) result" where
  "prepare_query_environment qc capability entity_ids connection_ids q supplied =
     bind_result (lift_error InParameter
         (bind_parameters (qc_lib qc) (\<lambda>i. read_entity (qc_access qc) i \<noteq> None) (eq_parameters q) supplied))
       (\<lambda>resolved. bind_result
         (evaluate_bindings qc (map_of resolved) \<lparr>bi_entities = sort entity_ids, bi_connections = sort connection_ids\<rparr> (eq_bindings q))
         (\<lambda>env. let parts = partition_derived_attributes q in
           bind_result (lift_error InQuery (evaluate_derived_attributes qc env (sort entity_ids) (eager_graph parts)))
             (\<lambda>env'. let (env'', warning) = fetch_and_merge_signal_attributes capability (eager_signal parts) (sort entity_ids) env' in
               Ok \<lparr>pe_environment = env''\<lparr>env_inactive := inactive_parameter_names (eq_parameters q) supplied\<rparr>,
                  pe_deferred = deferred_graph parts, pe_deferred_signal = deferred_signal parts,
                  pe_anchors = anchor_entity_ids (eq_parameters q) resolved, pe_signal_warning = warning\<rparr>)))"

end
