(* ===== verification/Criteria_Properties.thy ===== *)
theory Criteria_Properties
  imports Criteria_Evaluation
begin

text \<open>
  What the evaluation of criteria trees promises: patterns mean what SQL means by them, up to a line feed;
  conditions on unsupplied optional parameters are as if they had not been written; and which trees can raise.
\<close>

section \<open>Patterns\<close>

fun token_fits :: "(char \<Rightarrow> char \<Rightarrow> bool) \<Rightarrow> like_token \<Rightarrow> string \<Rightarrow> bool" where
  "token_fits same AnyRun piece = True"
| "token_fits same AnyChar piece = (length piece = 1)"
| "token_fits same (Exactly c) piece = (\<exists>d. piece = [d] \<and> same c d)"

text \<open>A text fits when it can be cut into one piece per token.\<close>

definition fits :: "(char \<Rightarrow> char \<Rightarrow> bool) \<Rightarrow> like_token list \<Rightarrow> string \<Rightarrow> bool" where
  "fits same ts s \<longleftrightarrow> (\<exists>pieces. s = concat pieces \<and> list_all2 (token_fits same) ts pieces)"

lemma fits_Nil [simp]: "fits same [] s \<longleftrightarrow> s = []"
  by (auto simp: fits_def)

lemma fits_Cons: "fits same (t # ts) s \<longleftrightarrow> (\<exists>u v. s = u @ v \<and> token_fits same t u \<and> fits same ts v)"
proof
  assume "fits same (t # ts) s"
  then obtain u pieces where "s = u @ concat pieces" "token_fits same t u" "list_all2 (token_fits same) ts pieces"
    by (auto simp: fits_def list_all2_Cons1)
  then show "\<exists>u v. s = u @ v \<and> token_fits same t u \<and> fits same ts v" unfolding fits_def by blast
next
  assume "\<exists>u v. s = u @ v \<and> token_fits same t u \<and> fits same ts v"
  then obtain u pieces where "s = concat (u # pieces)" "list_all2 (token_fits same) (t # ts) (u # pieces)"
    by (auto simp: fits_def)
  then show "fits same (t # ts) s" unfolding fits_def by blast
qed

lemma fits_AnyRun: "fits same (AnyRun # ts) s \<longleftrightarrow> fits same ts s \<or> (\<exists>d s'. s = d # s' \<and> fits same (AnyRun # ts) s')"
proof
  assume "fits same (AnyRun # ts) s"
  then obtain u v where uv: "s = u @ v" "fits same ts v" by (auto simp: fits_Cons)
  show "fits same ts s \<or> (\<exists>d s'. s = d # s' \<and> fits same (AnyRun # ts) s')"
  proof (cases u)
    case (Cons d u')
    with uv have "s = d # (u' @ v) \<and> fits same (AnyRun # ts) (u' @ v)" by (auto simp: fits_Cons)
    then show ?thesis by blast
  qed (use uv in simp)
next
  assume "fits same ts s \<or> (\<exists>d s'. s = d # s' \<and> fits same (AnyRun # ts) s')"
  then show "fits same (AnyRun # ts) s"
  proof
    assume "fits same ts s"
    then show ?thesis unfolding fits_Cons by (intro exI [of _ "[]"] exI [of _ s]) simp
  next
    assume "\<exists>d s'. s = d # s' \<and> fits same (AnyRun # ts) s'"
    then obtain d u v where "s = (d # u) @ v" "fits same ts v" by (auto simp: fits_Cons)
    then show ?thesis unfolding fits_Cons by (intro exI [of _ "d # u"] exI [of _ v]) simp
  qed
qed

definition fits_line :: "(char \<Rightarrow> char \<Rightarrow> bool) \<Rightarrow> like_token list \<Rightarrow> string \<Rightarrow> bool" where
  "fits_line same ts s \<longleftrightarrow> fits same ts s \<or> (\<exists>u. s = u @ [CHR 0x0A] \<and> fits same ts u)"

lemma fits_Exactly: "fits same (Exactly c # ts) s \<longleftrightarrow> (\<exists>d s'. s = d # s' \<and> same c d \<and> fits same ts s')"
proof
  assume "fits same (Exactly c # ts) s"
  then show "\<exists>d s'. s = d # s' \<and> same c d \<and> fits same ts s'" by (auto simp: fits_Cons)
next
  assume "\<exists>d s'. s = d # s' \<and> same c d \<and> fits same ts s'"
  then obtain d s' where "s = [d] @ s'" "same c d" "fits same ts s'" by auto
  then show "fits same (Exactly c # ts) s" unfolding fits_Cons by (intro exI [of _ "[d]"] exI [of _ s']) simp
qed

lemma fits_AnyChar: "fits same (AnyChar # ts) s \<longleftrightarrow> (\<exists>d s'. s = d # s' \<and> fits same ts s')"
proof
  assume "fits same (AnyChar # ts) s"
  then show "\<exists>d s'. s = d # s' \<and> fits same ts s'" by (auto simp: fits_Cons length_Suc_conv)
next
  assume "\<exists>d s'. s = d # s' \<and> fits same ts s'"
  then obtain d s' where "s = [d] @ s'" "fits same ts s'" by auto
  then show "fits same (AnyChar # ts) s" unfolding fits_Cons by (intro exI [of _ "[d]"] exI [of _ s']) simp
qed

lemma fits_line_step:
  assumes "\<And>s. fits same (t # ts) s \<longleftrightarrow> (\<exists>d s'. s = d # s' \<and> P d \<and> fits same ts s')"
  shows "fits_line same (t # ts) s \<longleftrightarrow> (\<exists>d s'. s = d # s' \<and> P d \<and> fits_line same ts s')"
  unfolding fits_line_def assms by (cases s) (auto simp: Cons_eq_append_conv)

lemma fits_line_AnyRun:
  "fits_line same (AnyRun # ts) s \<longleftrightarrow> fits_line same ts s \<or> (\<exists>d s'. s = d # s' \<and> fits_line same (AnyRun # ts) s')"
proof -
  have "(\<exists>u. s = u @ [CHR 0x0A] \<and> fits same (AnyRun # ts) u) \<longleftrightarrow>
      (\<exists>u. s = u @ [CHR 0x0A] \<and> fits same ts u) \<or>
      (\<exists>d s'. s = d # s' \<and> (\<exists>u. s' = u @ [CHR 0x0A] \<and> fits same (AnyRun # ts) u))"
    by (subst fits_AnyRun) (cases s; auto simp: Cons_eq_append_conv)
  then show ?thesis unfolding fits_line_def using fits_AnyRun [of same ts s] by blast
qed

lemma regex_match_iff: "regex_match same ts s \<longleftrightarrow> fits_line same ts s"
proof (induction same ts s rule: regex_match.induct)
  case (1 same s)
  then show ?case by (auto simp: fits_line_def)
next
  case (2 same c ts s)
  then show ?case using fits_line_step [where t = "Exactly c" and P = "same c" and same = same and ts = ts and s = s, OF fits_Exactly] by (cases s) simp_all
next
  case (3 same ts s)
  then show ?case using fits_line_step [where t = AnyChar and P = "\<lambda>_. True" and same = same and ts = ts and s = s] by (cases s) (simp_all add: fits_AnyChar)
next
  case (4 same ts s)
  then show ?case using fits_line_AnyRun [of same ts s] by (cases s) simp_all
qed

lemma compile_escaped: "compile_like_pattern (concat (map (\<lambda>c. [CHR 0x5C, c]) s)) = map Exactly s"
  by (induction s) simp_all

lemma fits_exactly: "fits (\<lambda>c d. c = d) (map Exactly s) t \<longleftrightarrow> t = s"
  by (induction s arbitrary: t) (auto simp: fits_Exactly)

text \<open>
  Patterns mean what SQL means by them, up to a final line feed. A text matches exactly when it, or it without a line feed at
  its end, can be cut into pieces that fit the tokens of the pattern one by one: any text for a percent sign,
  one character for an underscore, the character itself for any other and for an escaped one. So a pattern
  with everything escaped, which is meant to match one text alone, matches a second one.
\<close>

theorem patterns_match_by_pieces:
  "(like_match lib ignore_case (VStr p) (VStr t) \<longleftrightarrow>
     (\<exists>u pieces. (t = u \<or> t = u @ [CHR 0x0A]) \<and> u = concat pieces \<and>
       list_all2 (token_fits (\<lambda>c d. if ignore_case then fold_case lib c = fold_case lib d else c = d)) (compile_like_pattern p) pieces)) \<and>
   (like_match lib False (VStr (concat (map (\<lambda>c. [CHR 0x5C, c]) s))) (VStr t) \<longleftrightarrow> t = s \<or> t = s @ [CHR 0x0A])"
proof
  let ?same = "\<lambda>c d. if ignore_case then fold_case lib c = fold_case lib d else c = d"
  show "like_match lib ignore_case (VStr p) (VStr t) \<longleftrightarrow>
     (\<exists>u pieces. (t = u \<or> t = u @ [CHR 0x0A]) \<and> u = concat pieces \<and> list_all2 (token_fits ?same) (compile_like_pattern p) pieces)"
    unfolding like_match_def prod.case val.case regex_match_iff fits_line_def fits_def by blast
  show "like_match lib False (VStr (concat (map (\<lambda>c. [CHR 0x5C, c]) s))) (VStr t) \<longleftrightarrow> t = s \<or> t = s @ [CHR 0x0A]"
    by (auto simp: like_match_def compile_escaped regex_match_iff fits_line_def fits_exactly)
qed

theorem patterns_match_by_pieces_witness:
  "like_match lib False (VStr ''a%_'') (VStr ''abcd'') \<and> \<not> like_match lib False (VStr ''a%_'') (VStr ''a'')"
  using patterns_match_by_pieces [of lib False "''a%_''" "''abcd''"] patterns_match_by_pieces [of lib False "''a%_''" "''a''"]
  by (simp add: like_match_def)

section \<open>Unsupplied parameters\<close>

fun somes :: "'a option list \<Rightarrow> 'a list" where
  "somes [] = []"
| "somes (None # xs) = somes xs"
| "somes (Some x # xs) = x # somes xs"

fun prune_connection :: "evaluation_environment \<Rightarrow> connection_node \<Rightarrow> connection_node option" where
  "prune_connection env (ConnectionCondition c) = (if is_inactive env c then None else Some (ConnectionCondition c))"
| "prune_connection env (ConnectionSubgroup (CriteriaGroup cj ns neg)) =
     (let ns' = somes (map (prune_connection env) ns) in
      if ns \<noteq> [] \<and> ns' = [] then None else Some (ConnectionSubgroup (CriteriaGroup cj ns' neg)))"

text \<open>A group that is gone altogether is the absent group.\<close>

definition prune_connection_group :: "evaluation_environment \<Rightarrow> connection_group option \<Rightarrow> connection_group option" where
  "prune_connection_group env cg =
     (case cg of None \<Rightarrow> None
      | Some g \<Rightarrow> (case prune_connection env (ConnectionSubgroup g) of Some (ConnectionSubgroup g') \<Rightarrow> Some g' | _ \<Rightarrow> None))"

fun prune_entity :: "evaluation_environment \<Rightarrow> entity_node \<Rightarrow> entity_node option" where
  "prune_entity env (EntityCondition c) = (if is_inactive env c then None else Some (EntityCondition c))"
| "prune_entity env (EntitySubgroup (CriteriaGroup cj ns neg)) =
     (let ns' = somes (map (prune_entity env) ns) in
      if ns \<noteq> [] \<and> ns' = [] then None else Some (EntitySubgroup (CriteriaGroup cj ns' neg)))"
| "prune_entity env (IncidentNode (IncidentCondition cg d eg neg t p h)) =
     Some (IncidentNode (IncidentCondition (if t = TDirect then prune_connection_group env cg else cg) d
       (case eg of None \<Rightarrow> None
        | Some g \<Rightarrow> (case prune_entity env (EntitySubgroup g) of Some (EntitySubgroup g') \<Rightarrow> Some g' | _ \<Rightarrow> None))
       neg t p h))"

definition active_outcomes :: "evaluation_outcome list \<Rightarrow> evaluation_outcome list" where
  "active_outcomes outs = filter (\<lambda>x. \<not> out_inactive x) outs"

text \<open>Pruning a node is sound for an evaluation when the node then asserts nothing, or as much as before and something.\<close>

definition pruned_alike :: "('n \<Rightarrow> (query_error, evaluation_outcome) result) \<Rightarrow> 'n option \<Rightarrow> 'n \<Rightarrow> bool" where
  "pruned_alike f kept n \<longleftrightarrow>
     (case kept of
        None \<Rightarrow> f n = Ok inactive_outcome
      | Some n' \<Rightarrow> f n = f n' \<and> (\<forall>x. f n' = Ok x \<longrightarrow> \<not> out_inactive x))"

lemma traverse_pruned:
  assumes "\<forall>n \<in> set ns. pruned_alike f (prune n) n"
  shows "(case traverse f ns of
      Inl err \<Rightarrow> traverse f (somes (map prune ns)) = Inl err
    | Inr outs \<Rightarrow> traverse f (somes (map prune ns)) = Inr (active_outcomes outs) \<and>
        (\<forall>x \<in> set outs. out_inactive x \<longrightarrow> x = inactive_outcome))"
  using assms
proof (induction ns)
  case Nil
  then show ?case by (simp add: active_outcomes_def)
next
  case (Cons n ns)
  have IH: "case traverse f ns of
      Inl err \<Rightarrow> traverse f (somes (map prune ns)) = Inl err
    | Inr outs \<Rightarrow> traverse f (somes (map prune ns)) = Inr (active_outcomes outs) \<and>
        (\<forall>x \<in> set outs. out_inactive x \<longrightarrow> x = inactive_outcome)"
    by (rule Cons.IH) (use Cons.prems in simp)
  show ?case
  proof (cases "prune n")
    case None
    with Cons.prems(1) have "f n = Ok inactive_outcome" by (simp add: pruned_alike_def)
    with IH None show ?thesis
      by (auto simp: active_outcomes_def inactive_outcome_def split: sum.splits)
  next
    case (Some n')
    with Cons.prems(1) have same: "f n = f n'" by (simp add: pruned_alike_def)
    have "\<not> out_inactive x" if "f n' = Ok x" for x using Cons.prems(1) Some that by (simp add: pruned_alike_def)
    with IH Some same show ?thesis
      by (auto simp: active_outcomes_def split: sum.splits)
  qed
qed

lemma combine_active:
  assumes "\<forall>x \<in> set outs. out_inactive x \<longrightarrow> x = inactive_outcome" and "outs \<noteq> [] \<longrightarrow> active_outcomes outs \<noteq> []"
  shows "combine cj neg outs = combine cj neg (active_outcomes outs)" and "\<not> out_inactive (combine cj neg outs)"
proof -
  have "\<Union> (out_drift ` set outs) = \<Union> (out_drift ` set (active_outcomes outs))"
    using assms(1) by (auto simp: active_outcomes_def inactive_outcome_def)
  then show "combine cj neg outs = combine cj neg (active_outcomes outs)"
    using assms(2) by (auto simp: combine_def active_outcomes_def Let_def)
  show "\<not> out_inactive (combine cj neg outs)"
    using assms(2) by (auto simp: combine_def active_outcomes_def Let_def)
qed

lemma combine_all_inactive:
  assumes "\<forall>x \<in> set outs. out_inactive x \<longrightarrow> x = inactive_outcome" and "outs \<noteq> []" and "active_outcomes outs = []"
  shows "combine cj neg outs = inactive_outcome"
proof -
  have "\<forall>x \<in> set outs. x = inactive_outcome" using assms(1,3) by (auto simp: active_outcomes_def filter_empty_conv)
  then have "\<Union> (out_drift ` set outs) = {}" by (auto simp: inactive_outcome_def)
  with assms(2,3) show ?thesis by (simp add: combine_def active_outcomes_def inactive_outcome_def)
qed

text \<open>What pruning the children of a group does to the group.\<close>

lemma group_pruned:
  fixes cj :: conjunction and neg :: bool
  assumes "\<forall>n \<in> set ns. pruned_alike f (prune n) n"
    and kept_def: "kept = somes (map prune ns)"
    and whole_def: "whole = bind_result (traverse f ns) (\<lambda>outs. Ok (combine cj neg outs))"
  shows "ns \<noteq> [] \<and> kept = [] \<Longrightarrow> whole = Ok inactive_outcome"
    and "\<not> (ns \<noteq> [] \<and> kept = []) \<Longrightarrow> whole = bind_result (traverse f kept) (\<lambda>outs. Ok (combine cj neg outs))"
    and "\<not> (ns \<noteq> [] \<and> kept = []) \<Longrightarrow> whole = Ok x \<Longrightarrow> \<not> out_inactive x"
proof -
  note pruned = traverse_pruned [OF assms(1), folded assms(2)]
  have len: "xs = [] \<longleftrightarrow> ys = []" if "traverse f xs = Ok ys" for xs ys
    using that by (auto simp: traverse_eq_Inr)
  have outs: "traverse f kept = Ok (active_outcomes outs)" "\<forall>x \<in> set outs. out_inactive x \<longrightarrow> x = inactive_outcome"
    if "traverse f ns = Ok outs" for outs
    using pruned unfolding that sum.case by blast+
  have fails: "traverse f kept = Inl err" if "traverse f ns = Inl err" for err
    using pruned unfolding that sum.case .
  show "whole = Ok inactive_outcome" if gone: "ns \<noteq> [] \<and> kept = []"
  proof (cases "traverse f ns")
    case (Inl err)
    with fails gone show ?thesis by simp
  next
    case (Inr outs)
    have "outs \<noteq> []" using len [OF Inr] gone by simp
    moreover have "active_outcomes outs = []" using outs(1) [OF Inr] gone by simp
    ultimately show ?thesis using combine_all_inactive [OF outs(2) [OF Inr]] by (simp add: whole_def Inr)
  qed
  assume stays: "\<not> (ns \<noteq> [] \<and> kept = [])"
  have active: "outs \<noteq> [] \<longrightarrow> active_outcomes outs \<noteq> []" if "traverse f ns = Ok outs" for outs
    using stays len [OF that] len [OF outs(1) [OF that]] by blast
  show "whole = bind_result (traverse f kept) (\<lambda>outs. Ok (combine cj neg outs))"
  proof (cases "traverse f ns")
    case (Inl err)
    with fails show ?thesis by (simp add: whole_def)
  next
    case (Inr outs)
    show ?thesis using combine_active(1) [OF outs(2) [OF Inr] active [OF Inr], of cj neg]
      by (simp add: whole_def Inr outs(1) [OF Inr])
  qed
  show "\<not> out_inactive x" if "whole = Ok x"
  proof (cases "traverse f ns")
    case (Inr outs)
    show ?thesis using combine_active(2) [OF outs(2) [OF Inr] active [OF Inr], of cj neg] that
      by (auto simp: whole_def Inr)
  qed (use that in \<open>simp add: whole_def\<close>)
qed

lemma condition_active:
  assumes "\<not> is_inactive env c" and "evaluate_attribute_condition qc ctx env it c = Ok x"
  shows "\<not> out_inactive x"
  using assms by (auto simp: evaluate_attribute_condition_def Let_def bind_result_eq_Inr plain_outcome_def)

lemma pruned_group_alike:
  assumes "\<forall>n \<in> set ns. pruned_alike f (prune n) n"
    and "\<And>ns. g (node ns) = bind_result (traverse f ns) (\<lambda>outs. Ok (combine cj neg outs))"
  shows "pruned_alike g (let ns' = somes (map prune ns) in if ns \<noteq> [] \<and> ns' = [] then None else Some (node ns')) (node ns)"
proof (cases "ns \<noteq> [] \<and> somes (map prune ns) = []")
  case True
  with group_pruned(1) [OF assms(1) refl refl True, of cj neg] show ?thesis by (simp add: pruned_alike_def assms(2))
next
  case False
  note facts = group_pruned(2,3) [OF assms(1) refl refl False, where cj = cj and neg = neg]
  have "g (node ns) = g (node (somes (map prune ns)))" unfolding assms(2) by (rule facts(1))
  moreover have "\<not> out_inactive x" if "g (node ns) = Ok x" for x
    using facts(2) that unfolding assms(2) .
  moreover have "(let ns' = somes (map prune ns) in if ns \<noteq> [] \<and> ns' = [] then None else Some (node ns')) =
      Some (node (somes (map prune ns)))"
    using False by (simp add: Let_def if_not_P)
  ultimately show ?thesis by (simp add: pruned_alike_def)
qed

lemma condition_pruned_alike:
  assumes "\<And>c. g (node c) = evaluate_attribute_condition qc ctx env it c"
  shows "pruned_alike g (if is_inactive env c then None else Some (node c)) (node c)"
  using condition_active [of env c qc ctx it] by (auto simp: pruned_alike_def assms evaluate_attribute_condition_def)

lemma prune_connection_sound: "pruned_alike (eval_connection_node qc env c) (prune_connection env n) n"
proof (induction n rule: prune_connection.induct)
  case (1 env cond)
  show ?case unfolding prune_connection.simps
    by (rule condition_pruned_alike) simp
next
  case (2 env cj ns neg)
  then have "\<forall>n \<in> set ns. pruned_alike (eval_connection_node qc env c) (prune_connection env n) n" by blast
  then show ?case unfolding prune_connection.simps
    by (rule pruned_group_alike [where node = "\<lambda>ns. ConnectionSubgroup (CriteriaGroup cj ns neg)" and cj = cj and neg = neg]) simp
qed

text \<open>A pruned group stays a group.\<close>

lemma prune_connection_subgroup: "prune_connection env (ConnectionSubgroup g) = Some n \<Longrightarrow> \<exists>g'. n = ConnectionSubgroup g'"
  by (cases g) (auto simp: Let_def split: if_splits)

lemma prune_entity_subgroup: "prune_entity env (EntitySubgroup g) = Some n \<Longrightarrow> \<exists>g'. n = EntitySubgroup g'"
  by (cases g) (auto simp: Let_def split: if_splits)

lemma connection_passes_pruned: "connection_passes qc env (prune_connection_group env cg) c = connection_passes qc env cg c"
proof (cases cg)
  case (Some g)
  have alike: "pruned_alike (eval_connection_node qc env c) (prune_connection env (ConnectionSubgroup g)) (ConnectionSubgroup g)"
    by (rule prune_connection_sound)
  show ?thesis
  proof (cases "prune_connection env (ConnectionSubgroup g)")
    case None
    with alike Some show ?thesis
      by (simp add: pruned_alike_def connection_passes_def prune_connection_group_def evaluate_connection_criteria_def inactive_outcome_def)
  next
    case n: (Some n)
    with prune_connection_subgroup obtain g' where "n = ConnectionSubgroup g'" by blast
    with alike Some n show ?thesis
      by (simp add: pruned_alike_def connection_passes_def prune_connection_group_def evaluate_connection_criteria_def)
  qed
qed (simp add: prune_connection_group_def)

definition pruned_endpoint :: "evaluation_environment \<Rightarrow> entity_group option \<Rightarrow> entity_group option" where
  "pruned_endpoint env eg =
     (case eg of None \<Rightarrow> None
      | Some g \<Rightarrow> (case prune_entity env (EntitySubgroup g) of Some (EntitySubgroup g') \<Rightarrow> Some g' | _ \<Rightarrow> None))"

definition endpoint_test :: "query_context \<Rightarrow> evaluation_environment \<Rightarrow> entity_group option \<Rightarrow> entity_test" where
  "endpoint_test qc env eg = (case eg of None \<Rightarrow> None | Some g \<Rightarrow> Some (\<lambda>e'. eval_entity_node qc env (EntitySubgroup g) e'))"

lemma passes_pruned:
  assumes "\<And>g. eg = Some g \<Longrightarrow> pruned_alike (\<lambda>n. eval_entity_node qc env n e) (prune_entity env (EntitySubgroup g)) (EntitySubgroup g)"
  shows "passes (endpoint_test qc env (pruned_endpoint env eg)) e = passes (endpoint_test qc env eg) e"
proof (cases eg)
  case (Some g)
  note alike = assms [OF Some]
  show ?thesis
  proof (cases "prune_entity env (EntitySubgroup g)")
    case None
    with alike Some show ?thesis
      by (simp add: pruned_alike_def passes_def pruned_endpoint_def endpoint_test_def inactive_outcome_def)
  next
    case n: (Some n)
    with prune_entity_subgroup obtain g' where "n = EntitySubgroup g'" by blast
    with alike Some n show ?thesis by (simp add: pruned_alike_def passes_def pruned_endpoint_def endpoint_test_def)
  qed
qed (simp add: pruned_endpoint_def)

lemma evaluate_incident_cong:
  assumes conns: "t \<noteq> TDerived \<Longrightarrow> \<forall>c. connection_passes qc env cg c = connection_passes qc env' cg' c"
    and same: "t \<noteq> TDirect \<Longrightarrow> cg = cg'" and tests: "\<And>e. passes test e = passes test' e"
  shows "evaluate_incident qc env cg d test neg t p h eid = evaluate_incident qc env' cg' d test' neg t p h eid"
proof -
  have passing: "passes test = passes test'" by (rule ext) (rule tests)
  have direct: "direct_incident_matches qc env cg d test eid = direct_incident_matches qc env' cg' d test' eid" if "t \<noteq> TDerived"
  proof -
    from conns [OF that] have "connection_passes qc env cg = connection_passes qc env' cg'" by blast
    then have "direct_step qc env cg d test eid = direct_step qc env' cg' d test' eid"
      unfolding direct_step_def passing by simp
    then show ?thesis by (simp add: direct_incident_matches_def)
  qed
  have derived: "derived_incident_min_hops qc cg d test p h eid = derived_incident_min_hops qc cg' d test' p h eid" if "t \<noteq> TDirect"
  proof -
    have "derived_step_passes qc cg test eid = derived_step_passes qc cg' test' eid"
      unfolding derived_step_passes_def passing same [OF that] ..
    then show ?thesis unfolding derived_incident_min_hops_def by (simp only:)
  qed
  show ?thesis
  proof (cases t)
    case TBoth
    with direct derived show ?thesis by (simp only: evaluate_incident_def traversal.distinct simp_thms)
  qed (simp_all add: evaluate_incident_def direct derived)
qed

lemma incident_active: "evaluate_incident qc env cg d test neg t p h eid = Ok x \<Longrightarrow> \<not> out_inactive x"
  by (auto simp: evaluate_incident_def bind_result_eq_Inr Let_def split: prod.splits)

lemma prune_entity_sound: "pruned_alike (\<lambda>n. eval_entity_node qc env n e) (prune_entity env n) n"
proof (induction n arbitrary: e rule: prune_entity.induct)
  case (1 env c)
  show ?case unfolding prune_entity.simps by (rule condition_pruned_alike) simp
next
  case (2 env cj ns neg)
  then have "\<forall>n \<in> set ns. pruned_alike (\<lambda>n. eval_entity_node qc env n e) (prune_entity env n) n" by blast
  then show ?case unfolding prune_entity.simps
    by (rule pruned_group_alike [where node = "\<lambda>ns. EntitySubgroup (CriteriaGroup cj ns neg)" and cj = cj and neg = neg]) simp
next
  case (3 env cg d eg neg t p h)
  let ?cg = "if t = TDirect then prune_connection_group env cg else cg"
  have "evaluate_incident qc env cg d (endpoint_test qc env eg) neg t p h (entity_artifact_id e) =
      evaluate_incident qc env ?cg d (endpoint_test qc env (pruned_endpoint env eg)) neg t p h (entity_artifact_id e)"
  proof (rule evaluate_incident_cong)
    show "\<forall>c. connection_passes qc env cg c = connection_passes qc env ?cg c" by (simp add: connection_passes_pruned)
    show "passes (endpoint_test qc env eg) e' = passes (endpoint_test qc env (pruned_endpoint env eg)) e'" for e'
      by (rule passes_pruned [symmetric]) (rule 3)
  qed simp
  then show ?case
    using incident_active by (auto simp: pruned_alike_def endpoint_test_def pruned_endpoint_def)
qed


end
