(* ===== verification/Criteria_Validation.thy ===== *)
theory Criteria_Validation
  imports Criteria_Evaluation
begin

text \<open>
  Validation of condition trees before they are saved (\<^verbatim>\<open>viewpoint_condition_validation.py\<close>,
  \<^verbatim>\<open>viewpoint_criteria_validation.py\<close> and the registries \<^verbatim>\<open>viewpoint_validation.py\<close> builds for them).
  An issue is kept with its severity, code and path; its message is not modelled.
\<close>

section \<open>Issues\<close>

datatype severity = IssueError | IssueWarning

record validation_issue =
  issue_severity :: severity
  issue_code :: string
  issue_path :: string

definition issue_error :: "string \<Rightarrow> string \<Rightarrow> validation_issue" where
  "issue_error c p = \<lparr>issue_severity = IssueError, issue_code = c, issue_path = p\<rparr>"

definition issue_warning :: "string \<Rightarrow> string \<Rightarrow> validation_issue" where
  "issue_warning c p = \<lparr>issue_severity = IssueWarning, issue_code = c, issue_path = p\<rparr>"

definition error_when :: "bool \<Rightarrow> string \<Rightarrow> string \<Rightarrow> validation_issue list" where
  "error_when b c p = (if b then [issue_error c p] else [])"

text \<open>No issue is an error.\<close>

definition accepted :: "validation_issue list \<Rightarrow> bool" where
  "accepted is \<longleftrightarrow> list_all (\<lambda>i. issue_severity i \<noteq> IssueError) is"

definition child_path :: "string \<Rightarrow> nat \<Rightarrow> string" where
  "child_path p i = p @ ''/children/'' @ decimal i"

section \<open>One condition\<close>

definition STRING_ATTRIBUTE_TYPES :: "string set" where
  "STRING_ATTRIBUTE_TYPES = {''string'', ''slug''}"

definition ORDERED_ATTRIBUTE_TYPES :: "string set" where
  "ORDERED_ATTRIBUTE_TYPES = {''integer'', ''number'', ''date'', ORDINAL_KIND}"

fun is_string :: "val \<Rightarrow> bool" where
  "is_string (VStr s) = True"
| "is_string _ = False"

definition no_attribute :: "value_ref \<Rightarrow> bool" where
  "no_attribute r \<longleftrightarrow> text_or_empty (ref_attribute r) = []"

definition validate_value_shape :: "criteria_context \<Rightarrow> string \<Rightarrow> attribute_condition \<Rightarrow> validation_issue list" where
  "validate_value_shape ctx p c =
     (let r = cond_value c; q = p @ ''/value''; k = ref_kind r; cmp = cond_comparator c in
      if cmp \<in> {CmpExists, CmpAbsent}
      then error_when (k \<noteq> LiteralRef \<or> ref_literal r \<noteq> VNone) ''unexpected-value'' q
      else error_when (k = EndpointRef \<and> ref_endpoint r = None) ''value-ref-missing-endpoint'' q @
        error_when (k = EndpointRef \<and> ctx \<noteq> ConnectionContext) ''value-ref-endpoint-outside-connection'' q @
        error_when (k \<in> {SelfRef, EndpointRef} \<and> no_attribute r) ''value-ref-missing-attribute'' q @
        error_when (cmp \<in> {CmpIn, CmpNotIn} \<and> k = LiteralRef \<and> elements (ref_literal r) = None)
          ''unsupported-value-shape'' q @
        error_when (cmp \<in> STRING_PATTERN_OPERATORS \<and> k = LiteralRef \<and> \<not> is_string (ref_literal r))
          ''unsupported-value-shape'' q)"

definition known_slugs :: "criteria_context \<Rightarrow> registry_snapshot \<Rightarrow> string \<Rightarrow> string set option" where
  "known_slugs ctx regs head =
     (if head = ''type''
      then Some (case ctx of EntityContext \<Rightarrow> known_entity_types regs | ConnectionContext \<Rightarrow> known_connection_types regs)
      else if head = ''specialization'' then Some (known_specialization_slugs regs)
      else None)"

definition unknown_slug :: "string set \<Rightarrow> val \<Rightarrow> bool" where
  "unknown_slug known v = (case v of VStr s \<Rightarrow> s \<notin> known | _ \<Rightarrow> False)"

definition validate_reserved_value ::
    "criteria_context \<Rightarrow> registry_snapshot \<Rightarrow> string \<Rightarrow> attribute_condition \<Rightarrow> validation_issue list" where
  "validate_reserved_value ctx regs p c =
     (if ref_kind (cond_value c) \<noteq> LiteralRef \<or> cond_comparator c \<notin> {CmpEq, CmpNeq, CmpIn, CmpNotIn} then []
      else (case known_slugs ctx regs (path_head (cond_attribute c)) of
          None \<Rightarrow> []
        | Some known \<Rightarrow>
            map (\<lambda>v. issue_error ''unknown-value'' (p @ ''/value''))
              (filter (unknown_slug known) (candidates (ref_literal (cond_value c))))))"

definition validate_ordinal_comparison ::
    "criteria_context \<Rightarrow> registry_snapshot \<Rightarrow> string \<Rightarrow> attribute_condition \<Rightarrow> validation_issue list" where
  "validate_ordinal_comparison ctx regs p c =
     (if cond_comparator c \<notin> NUMERIC_OPERATORS then []
      else (case attribute_ordinal_scale ctx regs (cond_attribute c) of
          None \<Rightarrow> [issue_error ''ordinal-scale-missing'' (p @ ''/attribute'')]
        | Some scale \<Rightarrow>
            if ref_kind (cond_value c) \<notin> {SelfRef, EndpointRef} then []
            else error_when
              (\<not> ordinal_scales_match (Some scale)
                (attribute_ordinal_scale (if ref_kind (cond_value c) = EndpointRef then EntityContext else ctx) regs
                  (text_or_empty (ref_attribute (cond_value c)))))
              ''ordinal-scale-mismatch'' (p @ ''/value'')))"

definition validate_condition ::
    "criteria_context \<Rightarrow> registry_snapshot \<Rightarrow> string \<Rightarrow> attribute_condition \<Rightarrow> validation_issue list" where
  "validate_condition ctx regs p c =
     (let numeric = (cond_comparator c \<in> NUMERIC_OPERATORS); q = p @ ''/comparator'' in
      validate_value_shape ctx p c @
      (case resolve_attribute_path ctx regs (cond_attribute c) of
         None \<Rightarrow> [issue_error ''unknown-attribute'' (p @ ''/attribute'')]
       | Some Reserved \<Rightarrow>
           error_when numeric ''operator-type-mismatch'' q @ validate_reserved_value ctx regs p c
       | Some (Declared t) \<Rightarrow>
           error_when (numeric \<and> t \<notin> ORDERED_ATTRIBUTE_TYPES) ''operator-type-mismatch'' q @
           (if t = ORDINAL_KIND then validate_ordinal_comparison ctx regs p c else []) @
           error_when (cond_comparator c \<in> STRING_PATTERN_OPERATORS \<and> t \<notin> STRING_ATTRIBUTE_TYPES)
             ''operator-type-mismatch'' q))"

section \<open>Depth\<close>

definition max_depth :: "nat list \<Rightarrow> nat" where
  "max_depth ds = foldr max ds 0"

fun connection_tree_depth :: "connection_node \<Rightarrow> nat" where
  "connection_tree_depth (ConnectionCondition c) = 0"
| "connection_tree_depth (ConnectionSubgroup (CriteriaGroup cj ns neg)) = 1 + max_depth (map connection_tree_depth ns)"

fun criteria_tree_depth :: "entity_node \<Rightarrow> nat" where
  "criteria_tree_depth (EntityCondition c) = 0"
| "criteria_tree_depth (EntitySubgroup (CriteriaGroup cj ns neg)) = 1 + max_depth (map criteria_tree_depth ns)"
| "criteria_tree_depth (IncidentNode (IncidentCondition cg d eg neg t p h)) =
     1 + max (case cg of None \<Rightarrow> 0 | Some g \<Rightarrow> connection_tree_depth (ConnectionSubgroup g))
             (case eg of None \<Rightarrow> 0 | Some g \<Rightarrow> criteria_tree_depth (EntitySubgroup g))"

definition validate_depth_cap :: "registry_snapshot \<Rightarrow> string \<Rightarrow> nat \<Rightarrow> validation_issue list" where
  "validate_depth_cap regs p depth = error_when (depth > depth_cap regs) ''depth-cap-exceeded'' p"

section \<open>Traversals\<close>

text \<open>The types a conjunction restricts a connection to, by its first condition on the type that does.\<close>

definition restriction_of_condition :: "py_lib \<Rightarrow> attribute_condition \<Rightarrow> string set option" where
  "restriction_of_condition lib c =
     (if cond_attribute c \<noteq> ''type'' \<or> cond_negate c then None
      else (case (cond_comparator c, ref_literal (cond_value c)) of
          (CmpEq, VStr s) \<Rightarrow> Some {s}
        | (CmpIn, v) \<Rightarrow> map_option (\<lambda>vs. set (map (str_val lib) vs)) (elements v)
        | _ \<Rightarrow> None))"

fun first_restriction :: "py_lib \<Rightarrow> connection_node list \<Rightarrow> string set option" where
  "first_restriction lib [] = None"
| "first_restriction lib (ConnectionCondition c # ns) =
     (case restriction_of_condition lib c of None \<Rightarrow> first_restriction lib ns | Some ts \<Rightarrow> Some ts)"
| "first_restriction lib (ConnectionSubgroup g # ns) = first_restriction lib ns"

fun restricted_to_types :: "py_lib \<Rightarrow> connection_group \<Rightarrow> string set option" where
  "restricted_to_types lib (CriteriaGroup cj ns neg) = (if cj \<noteq> ConjAnd then None else first_restriction lib ns)"

definition symmetric_direction_warning ::
    "py_lib \<Rightarrow> registry_snapshot \<Rightarrow> string \<Rightarrow> incident_direction \<Rightarrow> connection_group \<Rightarrow> validation_issue list" where
  "symmetric_direction_warning lib regs p d g =
     (if d = Either then []
      else (case restricted_to_types lib g of
          Some ts \<Rightarrow>
            if ts \<noteq> {} \<and> ts \<subseteq> symmetric_connection_types regs
            then [issue_warning ''symmetric-direction-ineffective'' (p @ ''/direction'')] else []
        | None \<Rightarrow> []))"

definition DERIVED_PATHS :: "string set" where
  "DERIVED_PATHS = {''type'', ''certainty'', ''hops''}"

function validate_derived_paths :: "string \<Rightarrow> connection_node \<Rightarrow> validation_issue list" where
  "validate_derived_paths p (ConnectionCondition c) =
     (if cond_attribute c \<notin> DERIVED_PATHS then [issue_error ''derived-traversal-path-unsupported'' p]
      else error_when (ref_kind (cond_value c) = EndpointRef) ''derived-traversal-path-unsupported'' (p @ ''/value''))"
| "validate_derived_paths p (ConnectionSubgroup (CriteriaGroup cj ns neg)) =
     concat (map (\<lambda>(i, n). validate_derived_paths (child_path p i) n) (enumerate 0 ns))"
  by pat_completeness auto
termination
  by (relation "measure (\<lambda>(p, n). size n)") (auto dest!: set_zip_rightD simp: enumerate_eq_zip less_Suc_eq_le intro: le_SucI trans_le_add1 size_list_estimation')

definition validate_derived_traversal ::
    "string \<Rightarrow> connection_group option \<Rightarrow> traversal \<Rightarrow> int option \<Rightarrow> validation_issue list" where
  "validate_derived_traversal p cg t h =
     (if t = TDirect then []
      else error_when (case h of None \<Rightarrow> False | Some i \<Rightarrow> i < 2) ''derivation-hops-exceeded'' (p @ ''/max_hops'') @
        (case cg of None \<Rightarrow> []
         | Some g \<Rightarrow> validate_derived_paths (p @ ''/connection_criteria'') (ConnectionSubgroup g)))"

section \<open>Trees\<close>

function validate_connection_node ::
    "registry_snapshot \<Rightarrow> bool \<Rightarrow> bool \<Rightarrow> string \<Rightarrow> connection_node \<Rightarrow> validation_issue list" where
  "validate_connection_node regs erg at_root p (ConnectionCondition c) = validate_condition ConnectionContext regs p c"
| "validate_connection_node regs erg at_root p (ConnectionSubgroup (CriteriaGroup cj ns neg)) =
     error_when (erg \<and> \<not> at_root \<and> ns = []) ''empty-non-root-group'' p @
     concat (map (\<lambda>(i, n). validate_connection_node regs erg False (child_path p i) n) (enumerate 0 ns))"
  by pat_completeness auto
termination
  by (relation "measure (\<lambda>(regs, erg, at_root, p, n). size n)") (auto dest!: set_zip_rightD simp: enumerate_eq_zip less_Suc_eq_le intro: le_SucI trans_le_add1 size_list_estimation')

definition validate_connection_criteria ::
    "registry_snapshot \<Rightarrow> bool \<Rightarrow> string \<Rightarrow> connection_group \<Rightarrow> validation_issue list" where
  "validate_connection_criteria regs erg p g = validate_connection_node regs erg True p (ConnectionSubgroup g)"

function validate_entity_node ::
    "py_lib \<Rightarrow> registry_snapshot \<Rightarrow> bool \<Rightarrow> bool \<Rightarrow> string \<Rightarrow> entity_node \<Rightarrow> validation_issue list" where
  "validate_entity_node lib regs erg at_root p (EntityCondition c) = validate_condition EntityContext regs p c"
| "validate_entity_node lib regs erg at_root p (EntitySubgroup (CriteriaGroup cj ns neg)) =
     error_when (erg \<and> \<not> at_root \<and> ns = []) ''empty-non-root-group'' p @
     concat (map (\<lambda>(i, n). validate_entity_node lib regs erg False (child_path p i) n) (enumerate 0 ns))"
| "validate_entity_node lib regs erg at_root p (IncidentNode (IncidentCondition cg d eg neg t pot h)) =
     validate_derived_traversal p cg t h @
     (case cg of None \<Rightarrow> []
      | Some g \<Rightarrow> validate_connection_criteria regs erg (p @ ''/connection_criteria'') g @
          (if erg then symmetric_direction_warning lib regs p d g else [])) @
     (case eg of None \<Rightarrow> []
      | Some g \<Rightarrow> validate_entity_node lib regs erg True (p @ ''/endpoint_criteria'') (EntitySubgroup g))"
  by pat_completeness auto
termination
  by (relation "measure (\<lambda>(lib, regs, erg, at_root, p, n). size n)")
    (auto dest!: set_zip_rightD simp: enumerate_eq_zip less_Suc_eq_le intro: le_SucI trans_le_add1 size_list_estimation')

definition validate_entity_criteria ::
    "py_lib \<Rightarrow> registry_snapshot \<Rightarrow> bool \<Rightarrow> string \<Rightarrow> entity_group \<Rightarrow> validation_issue list" where
  "validate_entity_criteria lib regs erg p g = validate_entity_node lib regs erg True p (EntitySubgroup g)"

definition validate_neighbor_inclusion ::
    "py_lib \<Rightarrow> registry_snapshot \<Rightarrow> bool \<Rightarrow> string \<Rightarrow> neighbor_inclusion \<Rightarrow> validation_issue list" where
  "validate_neighbor_inclusion lib regs erg p i =
     validate_derived_traversal p (incl_connection i) (incl_traversal i) (incl_hops i) @
     (case incl_connection i of None \<Rightarrow> []
      | Some g \<Rightarrow> validate_connection_criteria regs erg (p @ ''/connection_criteria'') g @
          (if erg then validate_depth_cap regs (p @ ''/connection_criteria'') (connection_tree_depth (ConnectionSubgroup g)) else [])) @
     (case incl_neighbor i of None \<Rightarrow> []
      | Some g \<Rightarrow> validate_entity_criteria lib regs erg (p @ ''/neighbor_criteria'') g @
          (if erg then validate_depth_cap regs (p @ ''/neighbor_criteria'') (criteria_tree_depth (EntitySubgroup g)) else []))"

definition validate_connection_selection ::
    "registry_snapshot \<Rightarrow> bool \<Rightarrow> string \<Rightarrow> connection_selection \<Rightarrow> validation_issue list" where
  "validate_connection_selection regs erg p s =
     (if sel_traversal s \<noteq> TDirect
      then validate_derived_paths (p @ ''/criteria'') (ConnectionSubgroup (sel_criteria s)) @
        error_when (case sel_hops s of None \<Rightarrow> False | Some i \<Rightarrow> i < 2) ''derivation-hops-exceeded'' (p @ ''/max_hops'')
      else validate_connection_criteria regs erg (p @ ''/criteria'') (sel_criteria s) @
        (if erg then validate_depth_cap regs (p @ ''/criteria'') (connection_tree_depth (ConnectionSubgroup (sel_criteria s))) else []))"

section \<open>The registries a definition is validated against\<close>

text \<open>
  What the caller supplies about the repository. Of these the snapshot is built; the value lists of enumerated
  attributes are not among them, so the snapshot has none.
\<close>

record definition_facts =
  fact_entity_types :: "string set"
  fact_connection_types :: "string set"
  fact_specialization_slugs :: "string set"
  fact_entity_attributes :: "string \<Rightarrow> string option"
  fact_connection_attributes :: "string \<Rightarrow> string option"
  fact_symmetric_types :: "string set"
  fact_depth_cap :: nat

definition definition_registries :: "definition_facts \<Rightarrow> registry_snapshot" where
  "definition_registries f =
     \<lparr>known_entity_types = fact_entity_types f, known_connection_types = fact_connection_types f,
      known_specialization_slugs = fact_specialization_slugs f, entity_attribute_types = fact_entity_attributes f,
      connection_attribute_types = fact_connection_attributes f, entity_attribute_enums = (\<lambda>_. None),
      connection_attribute_enums = (\<lambda>_. None), symmetric_connection_types = fact_symmetric_types f,
      depth_cap = fact_depth_cap f, derivation_catalog = None, derivation_max_hops = 4,
      derivation_max_relationships = 2000, derivation_time_budget = 2\<rparr>"

end
