(* ===== verification/Criteria_Safety.thy ===== *)
theory Criteria_Safety
  imports Criteria_Validation Criteria_Round_Trip
begin

text \<open>
  What validation promises about evaluation: which faults and which drift a tree can still meet, and where
  the two disagree.
\<close>

section \<open>The conditions of a tree\<close>

fun connection_conditions :: "connection_node \<Rightarrow> attribute_condition set" where
  "connection_conditions (ConnectionCondition c) = {c}"
| "connection_conditions (ConnectionSubgroup (CriteriaGroup cj ns neg)) = (\<Union>n \<in> set ns. connection_conditions n)"

definition group_conditions :: "connection_group option \<Rightarrow> attribute_condition set" where
  "group_conditions cg = (case cg of None \<Rightarrow> {} | Some g \<Rightarrow> connection_conditions (ConnectionSubgroup g))"

fun tree_conditions :: "entity_node \<Rightarrow> (criteria_context \<times> attribute_condition) set" where
  "tree_conditions (EntityCondition c) = {(EntityContext, c)}"
| "tree_conditions (EntitySubgroup (CriteriaGroup cj ns neg)) = (\<Union>n \<in> set ns. tree_conditions n)"
| "tree_conditions (IncidentNode (IncidentCondition cg d eg neg t p h)) =
     Pair ConnectionContext ` group_conditions cg \<union>
     (case eg of None \<Rightarrow> {} | Some g \<Rightarrow> tree_conditions (EntitySubgroup g))"

text \<open>The conditions that are put to derived relationships.\<close>

fun derived_conditions :: "entity_node \<Rightarrow> attribute_condition set" where
  "derived_conditions (EntityCondition c) = {}"
| "derived_conditions (EntitySubgroup (CriteriaGroup cj ns neg)) = (\<Union>n \<in> set ns. derived_conditions n)"
| "derived_conditions (IncidentNode (IncidentCondition cg d eg neg t p h)) =
     (if t = TDirect then {} else group_conditions cg) \<union>
     (case eg of None \<Rightarrow> {} | Some g \<Rightarrow> derived_conditions (EntitySubgroup g))"

section \<open>Accepted trees have accepted conditions\<close>

lemma accepted_append [simp]: "accepted (xs @ ys) \<longleftrightarrow> accepted xs \<and> accepted ys"
  by (simp add: accepted_def)

lemma accepted_nil [simp]: "accepted []"
  by (simp add: accepted_def)

lemma accepted_error_when [simp]: "accepted (error_when b c p) \<longleftrightarrow> \<not> b"
  by (simp add: accepted_def error_when_def issue_error_def)

lemma accepted_error [simp]: "\<not> accepted (issue_error c p # is)"
  by (simp add: accepted_def issue_error_def)

lemma accepted_warning [simp]: "accepted (issue_warning c p # is) \<longleftrightarrow> accepted is"
  by (simp add: accepted_def issue_warning_def)

lemma accepted_concat: "accepted (concat iss) \<longleftrightarrow> (\<forall>is \<in> set iss. accepted is)"
  by (induction iss) simp_all

lemma accepted_children:
  assumes "accepted (concat (map (\<lambda>(i, n). f i n) (enumerate 0 ns)))" and "n \<in> set ns"
  shows "\<exists>i. accepted (f i n)"
proof -
  from assms(2) obtain i where "i < length ns" "n = ns ! i" by (auto simp: in_set_conv_nth)
  then have "(i, n) \<in> set (enumerate 0 ns)" by (simp add: in_set_enumerate_eq)
  with assms(1) show ?thesis by (force simp: accepted_concat)
qed

definition condition_accepted :: "registry_snapshot \<Rightarrow> criteria_context \<Rightarrow> attribute_condition \<Rightarrow> bool" where
  "condition_accepted regs ctx c \<longleftrightarrow> (\<exists>p. accepted (validate_condition ctx regs p c))"

lemma accepted_connection_conditions:
  "accepted (validate_connection_node regs erg at_root p n) \<Longrightarrow> c \<in> connection_conditions n \<Longrightarrow>
   condition_accepted regs ConnectionContext c"
proof (induction n arbitrary: at_root p rule: connection_conditions.induct)
  case (2 cj ns neg)
  then obtain n where n: "n \<in> set ns" "c \<in> connection_conditions n" by auto
  obtain i where "accepted (validate_connection_node regs erg False (child_path p i) n)"
    using accepted_children [where f = "\<lambda>i. validate_connection_node regs erg False (child_path p i)", OF _ n(1)] 2(2) by auto
  with 2(1) n show ?case by blast
qed (auto simp: condition_accepted_def)

lemma accepted_tree_conditions:
  "accepted (validate_entity_node lib regs erg at_root p n) \<Longrightarrow> (ctx, c) \<in> tree_conditions n \<Longrightarrow> condition_accepted regs ctx c"
proof (induction n arbitrary: at_root p rule: tree_conditions.induct)
  case (2 cj ns neg)
  then obtain n where n: "n \<in> set ns" "(ctx, c) \<in> tree_conditions n" by auto
  obtain i where "accepted (validate_entity_node lib regs erg False (child_path p i) n)"
    using accepted_children [where f = "\<lambda>i. validate_entity_node lib regs erg False (child_path p i)", OF _ n(1)] 2(2) by auto
  with 2(1) n show ?case by blast
next
  case (3 cg d eg neg t pot h)
  from 3(3) consider "ctx = ConnectionContext" "c \<in> group_conditions cg"
    | g where "eg = Some g" "(ctx, c) \<in> tree_conditions (EntitySubgroup g)" by (auto split: option.splits)
  then show ?case
  proof cases
    case 1
    with 3(2) show ?thesis
      by (auto simp: group_conditions_def validate_connection_criteria_def intro: accepted_connection_conditions split: option.splits)
  next
    case (2 g)
    with 3(2) have "accepted (validate_entity_node lib regs erg True (p @ ''/endpoint_criteria'') (EntitySubgroup g))" by simp
    with 3(1) 2 show ?thesis by blast
  qed
qed (auto simp: condition_accepted_def)

section \<open>Drift\<close>

definition reference_known :: "registry_snapshot \<Rightarrow> criteria_context \<Rightarrow> attribute_condition \<Rightarrow> bool" where
  "reference_known regs ctx c =
     (case (ref_kind (cond_value c), ref_attribute (cond_value c)) of
        (SelfRef, Some a) \<Rightarrow> resolve_attribute_path ctx regs a \<noteq> None
      | (EndpointRef, Some a) \<Rightarrow> resolve_attribute_path EntityContext regs a \<noteq> None
      | _ \<Rightarrow> True)"

definition ranked_attributes :: "registry_snapshot \<Rightarrow> string set" where
  "ranked_attributes regs = {a. \<exists>ctx. resolve_attribute_path ctx regs a = Some (Declared ORDINAL_KIND)}"

text \<open>Whatever pairs of a verdict and its drift a computation gives stay within \<open>D\<close>.\<close>

definition drifts_in :: "string set \<Rightarrow> (query_error, 'a \<times> string set) result \<Rightarrow> bool" where
  "drifts_in D r \<longleftrightarrow> (\<forall>x d. r = Ok (x, d) \<longrightarrow> d \<subseteq> D)"

definition outcome_drifts_in :: "string set \<Rightarrow> (query_error, evaluation_outcome) result \<Rightarrow> bool" where
  "outcome_drifts_in D r \<longleftrightarrow> (\<forall>x. r = Ok x \<longrightarrow> out_drift x \<subseteq> D)"

lemma drifts_in_value [simp]: "drifts_in D (Ok (x, d)) \<longleftrightarrow> d \<subseteq> D" "drifts_in D (Err e)"
  by (auto simp: drifts_in_def)

lemma outcome_drifts_in_value [simp]: "outcome_drifts_in D (Ok x) \<longleftrightarrow> out_drift x \<subseteq> D" "outcome_drifts_in D (Err e)"
  by (auto simp: outcome_drifts_in_def)

lemma drifts_in_bind: "(\<And>a. r = Ok a \<Longrightarrow> drifts_in D (f a)) \<Longrightarrow> drifts_in D (bind_result r f)"
  by (auto simp: drifts_in_def bind_result_eq_Inr)

lemma outcome_drifts_in_bind: "(\<And>a. r = Ok a \<Longrightarrow> outcome_drifts_in D (f a)) \<Longrightarrow> outcome_drifts_in D (bind_result r f)"
  by (auto simp: outcome_drifts_in_def bind_result_eq_Inr)

lemma resolve_attribute_ref_drift:
  assumes "resolve_attribute_ref ctx regs it a = Ok (v, d, ok)" and "\<forall>x. a = Some x \<longrightarrow> resolve_attribute_path ctx regs x \<noteq> None"
  shows "d = {}"
  using assms by (auto simp: resolve_attribute_ref_def unresolved_def bind_result_eq_Inr split: option.splits if_splits)

lemma resolve_value_drift:
  assumes found: "resolve_value qc ctx env it (cond_value c) = Ok (v, d, ok)" and known: "reference_known (qc_registries qc) ctx c"
  shows "d = {}"
proof (cases "ref_kind (cond_value c)")
  case SelfRef
  with found known show ?thesis
    by (intro resolve_attribute_ref_drift [where ctx = ctx and regs = "qc_registries qc" and it = it and a = "ref_attribute (cond_value c)"])
      (auto simp: resolve_value_def reference_known_def)
next
  case EndpointRef
  have direct: "d = {}" if "resolve_attribute_ref EntityContext (qc_registries qc) x (ref_attribute (cond_value c)) = Ok (v, d, ok)" for x
    using known EndpointRef by (intro resolve_attribute_ref_drift [OF that]) (auto simp: reference_known_def)
  from EndpointRef found show ?thesis
    by (auto simp: resolve_value_def unresolved_def dest: direct split: item.splits option.splits if_splits)
qed (use found in \<open>auto simp: resolve_value_def resolve_binding_def unresolved_def bind_result_eq_Inr split: option.splits if_splits\<close>)

lemma condition_drift:
  assumes accepted: "condition_accepted (qc_registries qc) ctx c" and known: "reference_known (qc_registries qc) ctx c"
  shows "outcome_drifts_in (ranked_attributes (qc_registries qc)) (evaluate_attribute_condition qc ctx env it c)"
proof -
  have resolves: "resolve_attribute_path ctx (qc_registries qc) (cond_attribute c) \<noteq> None"
    using accepted by (auto simp: condition_accepted_def validate_condition_def Let_def split: option.splits)
  have present: "drifts_in (ranked_attributes (qc_registries qc)) (match_present qc ctx env it c v)" for v
    unfolding match_present_def
  proof (rule drifts_in_bind)
    fix a assume found: "resolve_value qc ctx env it (cond_value c) = Ok a"
    obtain w d ok where a: "a = (w, d, ok)" by (cases a)
    with found known have "d = {}" by (auto dest: resolve_value_drift)
    with a show "drifts_in (ranked_attributes (qc_registries qc)) ((\<lambda>(expected, ref_drift, resolved).
         let scale =
           (if \<not> derived_path it (cond_attribute c) \<and>
               resolve_attribute_path ctx (qc_registries qc) (cond_attribute c) = Some (Declared ORDINAL_KIND) \<and>
               cond_comparator c \<in> NUMERIC_OPERATORS
            then attribute_ordinal_scale ctx (qc_registries qc) (cond_attribute c) else None);
           unranked = (case scale of None \<Rightarrow> False | Some sc \<Rightarrow> ordinal_rank v sc = None) in
         Ok (resolved \<and> compare_values (qc_lib qc) (cond_comparator c) (ref_quantifier (cond_value c)) scale v expected,
             ref_drift \<union> (if unranked then {cond_attribute c} else {}))) a)"
      by (auto simp: Let_def ranked_attributes_def split: option.splits)
  qed
  show ?thesis
    unfolding evaluate_attribute_condition_def Let_def
    using resolves present
    by (auto simp: inactive_outcome_def plain_outcome_def drifts_in_def intro!: outcome_drifts_in_bind split: option.splits comparator.splits)
qed

lemma combine_drift: "out_drift (combine cj neg outs) = \<Union> (out_drift ` set outs)"
  by (simp add: combine_def Let_def)

lemma traversed_outcomes_drift:
  assumes "\<And>n. n \<in> set ns \<Longrightarrow> outcome_drifts_in D (f n)"
  shows "outcome_drifts_in D (bind_result (traverse f ns) (\<lambda>outs. Ok (combine cj neg outs)))"
proof (rule outcome_drifts_in_bind)
  fix outs assume "traverse f ns = Ok outs"
  then have "list_all2 (\<lambda>n x. f n = Ok x) ns outs" by (simp add: traverse_eq_Inr)
  with assms have "\<forall>x \<in> set outs. out_drift x \<subseteq> D"
    by (fastforce simp: outcome_drifts_in_def list_all2_conv_all_nth in_set_conv_nth)
  then show "outcome_drifts_in D (Ok (combine cj neg outs))" by (auto simp: combine_drift)
qed

lemma traversed_verdicts_drift:
  assumes "traverse f xs = Ok rs" and "\<forall>x. drifts_in D (f x)"
  shows "\<Union> (snd ` set rs) \<subseteq> D"
proof -
  from assms(1) have all: "list_all2 (\<lambda>x r. f x = Ok r) xs rs" by (simp add: traverse_eq_Inr)
  have "snd r \<subseteq> D" if member: "r \<in> set rs" for r
  proof -
    from all member obtain x where "f x = Ok r" by (auto simp: list_all2_conv_all_nth in_set_conv_nth)
    with assms(2) show ?thesis by (cases r) (auto simp: drifts_in_def)
  qed
  then show ?thesis by blast
qed

lemma connection_node_drift:
  "\<forall>c \<in> connection_conditions n. condition_accepted (qc_registries qc) ConnectionContext c \<and>
     reference_known (qc_registries qc) ConnectionContext c \<Longrightarrow>
   outcome_drifts_in (ranked_attributes (qc_registries qc)) (eval_connection_node qc env conn n)"
proof (induction n rule: connection_conditions.induct)
  case (2 cj ns neg)
  then show ?case by (simp del: bind_result_def) (rule traversed_outcomes_drift, blast)
qed (simp add: condition_drift)

lemma connection_passes_drift:
  assumes "\<forall>c \<in> group_conditions cg. condition_accepted (qc_registries qc) ConnectionContext c \<and>
     reference_known (qc_registries qc) ConnectionContext c"
  shows "drifts_in (ranked_attributes (qc_registries qc)) (connection_passes qc env cg conn)"
proof (cases cg)
  case (Some g)
  with assms connection_node_drift [of "ConnectionSubgroup g" qc env conn] show ?thesis
    by (auto simp: connection_passes_def evaluate_connection_criteria_def group_conditions_def outcome_drifts_in_def
      intro!: drifts_in_bind)
qed (simp add: connection_passes_def)

lemma passes_drift:
  assumes "\<forall>f. test = Some f \<longrightarrow> outcome_drifts_in D (f e)"
  shows "drifts_in D (passes test e)"
  using assms by (cases test) (auto simp: passes_def outcome_drifts_in_def intro!: drifts_in_bind)

lemma incident_drift:
  assumes conns: "\<forall>conn. drifts_in D (connection_passes qc env cg conn)" and tests: "\<forall>e. drifts_in D (passes test e)"
  shows "outcome_drifts_in D (evaluate_incident qc env cg d test neg t pot h eid)"
proof -
  have "drifts_in D (direct_step qc env cg d test eid conn)" for conn
    unfolding direct_step_def using conns tests
    by (intro drifts_in_bind) (auto simp: drifts_in_def bind_result_eq_Inr split: if_splits option.splits prod.splits, blast)
  then have direct: "drifts_in D (direct_incident_matches qc env cg d test eid)"
    unfolding direct_incident_matches_def by (intro drifts_in_bind) (auto dest!: traversed_verdicts_drift)
  have "drifts_in D (derived_step_passes qc cg test eid r)" for r
    unfolding derived_step_passes_def using tests by (intro drifts_in_bind) (auto split: option.splits)
  then have derived: "drifts_in D (derived_incident_min_hops qc cg d test pot h eid)"
    unfolding derived_incident_min_hops_def
    by (auto split: option.splits intro!: drifts_in_bind dest!: traversed_verdicts_drift)
  show ?thesis
    unfolding evaluate_incident_def using direct derived
    by (auto simp: drifts_in_def Let_def bind_result_eq_Inr outcome_drifts_in_def split: if_splits prod.splits)
qed

lemma entity_node_drift:
  "\<forall>(ctx, c) \<in> tree_conditions n. condition_accepted (qc_registries qc) ctx c \<and> reference_known (qc_registries qc) ctx c \<Longrightarrow>
   outcome_drifts_in (ranked_attributes (qc_registries qc)) (eval_entity_node qc env n e)"
proof (induction n arbitrary: e rule: tree_conditions.induct)
  case (2 cj ns neg)
  then show ?case by (simp del: bind_result_def) (rule traversed_outcomes_drift, blast)
next
  case (3 cg d eg neg t p h)
  have "drifts_in (ranked_attributes (qc_registries qc)) (connection_passes qc env cg conn)" for conn
    using 3(2) by (intro connection_passes_drift) auto
  moreover have "drifts_in (ranked_attributes (qc_registries qc))
      (passes (case eg of None \<Rightarrow> None | Some g \<Rightarrow> Some (\<lambda>e'. eval_entity_node qc env (EntitySubgroup g) e')) e')" for e'
    using 3 by (intro passes_drift) (auto split: option.splits)
  ultimately show ?case by (simp add: incident_drift)
qed (simp add: condition_drift)


section \<open>Faults\<close>

definition derivation_faults_only :: "bool \<Rightarrow> (query_error, 'a) result \<Rightarrow> bool" where
  "derivation_faults_only k r \<longleftrightarrow> (\<forall>x. r = Err x \<longrightarrow> k \<and> (\<exists>f. x = DerivationFault f))"

definition plain_reference :: "attribute_condition \<Rightarrow> bool" where
  "plain_reference c \<longleftrightarrow>
     ref_kind (cond_value c) = BindingRef \<longrightarrow> ref_project (cond_value c) = None \<and> ref_aggregate (cond_value c) = None"

definition understood_of_derived :: "attribute_condition \<Rightarrow> bool" where
  "understood_of_derived c \<longleftrightarrow> cond_comparator c \<notin> {CmpNotIn, CmpLike, CmpIlike}"

lemma derivation_faults_only_value [simp]: "derivation_faults_only k (Ok x)" "derivation_faults_only k (Err e) \<longleftrightarrow> k \<and> (\<exists>f. e = DerivationFault f)"
  by (auto simp: derivation_faults_only_def)

lemma derivation_faults_only_bind:
  "derivation_faults_only k r \<Longrightarrow> (\<And>a. derivation_faults_only k (f a)) \<Longrightarrow> derivation_faults_only k (bind_result r f)"
  by (cases r) (auto simp: derivation_faults_only_def)

lemma derivation_faults_only_traverse:
  "(\<And>x. x \<in> set xs \<Longrightarrow> derivation_faults_only k (f x)) \<Longrightarrow> derivation_faults_only k (traverse f xs)"
proof (induction xs)
  case (Cons x xs)
  then have "derivation_faults_only k (f x)" "derivation_faults_only k (traverse f xs)" by simp_all
  then show ?case by (auto simp: derivation_faults_only_def split: sum.splits)
qed simp

text \<open>A record is read in the context it belongs to.\<close>

fun in_context :: "criteria_context \<Rightarrow> item \<Rightarrow> bool" where
  "in_context EntityContext (EntityItem e) = True"
| "in_context ConnectionContext (ConnectionItem c) = True"
| "in_context _ _ = False"

lemma reading_in_context: "in_context ctx it \<Longrightarrow> \<not> isl (read_attribute_value ctx env it a)"
  by (cases ctx; cases it) (simp_all add: read_attribute_value_def Let_def)

lemma isl_bind: "isl (bind_result r f) \<longleftrightarrow> isl r \<or> (\<exists>a. r = Ok a \<and> isl (f a))"
  by (cases r) auto

lemma resolve_attribute_ref_total: "in_context ctx it \<Longrightarrow> \<not> isl (resolve_attribute_ref ctx regs it a)"
  by (auto simp: resolve_attribute_ref_def isl_bind reading_in_context split: option.splits)

lemma resolve_value_total:
  assumes "in_context ctx it" and "plain_reference c"
  shows "\<not> isl (resolve_value qc ctx env it (cond_value c))"
  using assms
  by (auto simp: resolve_value_def resolve_binding_def plain_reference_def isl_bind resolve_attribute_ref_total
    split: value_ref_kind.splits item.splits option.splits)

lemma condition_total:
  assumes "in_context ctx it" and "plain_reference c"
  shows "\<not> isl (evaluate_attribute_condition qc ctx env it c)"
proof -
  have present: "\<not> isl (match_present qc ctx env it c v)" for v
    using resolve_value_total [OF assms] by (auto simp: match_present_def isl_bind Let_def)
  show ?thesis
    by (auto simp: evaluate_attribute_condition_def Let_def isl_bind present reading_in_context [OF assms(1)]
      split: option.splits comparator.splits)
qed

lemma isl_traverse: "isl (traverse f xs) \<longleftrightarrow> (\<exists>x \<in> set xs. isl (f x))"
  by (induction xs) (auto split: sum.splits)

lemma connection_node_total:
  "\<forall>c \<in> connection_conditions n. plain_reference c \<Longrightarrow> \<not> isl (eval_connection_node qc env conn n)"
  by (induction n rule: connection_conditions.induct) (auto simp: isl_bind isl_traverse condition_total)

lemma derived_compare_faults: "c \<notin> {CmpNotIn, CmpLike, CmpIlike} \<Longrightarrow> derivation_faults_only k (derived_compare c a b)"
  by (cases c) (auto simp: derived_compare_def ordered_compare_def NUMERIC_OPERATORS_def split: val.splits option.splits)

lemma derived_node_faults:
  "\<forall>c \<in> connection_conditions n. understood_of_derived c \<Longrightarrow> derivation_faults_only k (derived_node_matches r n)"
proof (induction n rule: connection_conditions.induct)
  case (1 c)
  then show ?case
    using derived_compare_faults [of "cond_comparator c"]
    by (auto simp: understood_of_derived_def intro!: derivation_faults_only_bind split: option.splits)
next
  case (2 cj ns neg)
  then show ?case by (simp, intro derivation_faults_only_bind derivation_faults_only_traverse) auto
qed

lemma incident_faults:
  assumes conns: "\<forall>conn. derivation_faults_only k (connection_passes qc env cg conn)"
    and tests: "\<forall>e. derivation_faults_only k (passes test e)"
    and search: "derivation_catalog (qc_registries qc) \<noteq> None \<Longrightarrow> k"
    and derived: "t \<noteq> TDirect \<Longrightarrow> \<forall>c \<in> group_conditions cg. understood_of_derived c"
  shows "derivation_faults_only k (evaluate_incident qc env cg d test neg t pot h eid)"
proof -
  have "derivation_faults_only k (direct_step qc env cg d test eid conn)" for conn
    unfolding direct_step_def using conns tests
    by (intro derivation_faults_only_bind) (auto intro!: derivation_faults_only_bind split: option.splits prod.splits)
  then have direct: "derivation_faults_only k (direct_incident_matches qc env cg d test eid)"
    unfolding direct_incident_matches_def by (intro derivation_faults_only_bind derivation_faults_only_traverse) auto
  have hops: "derivation_faults_only k (derived_incident_min_hops qc cg d test pot h eid)" if t: "t \<noteq> TDirect"
  proof -
    have "derivation_faults_only k (derived_matches r cg)" for r
      using derived [OF t] derived_node_faults [of "ConnectionSubgroup g" k r for g]
      by (auto simp: derived_matches_def group_conditions_def split: option.splits)
    then have "derivation_faults_only k (derived_step_passes qc cg test eid r)" for r
      unfolding derived_step_passes_def using tests by (intro derivation_faults_only_bind) (auto split: option.splits)
    moreover have "derivation_faults_only k (derive_for qc cat request)"
      if "derivation_catalog (qc_registries qc) = Some cat" for cat request
      using search that by (auto simp: derive_for_def lift_error_def split: sum.splits)
    ultimately show ?thesis
      unfolding derived_incident_min_hops_def
      by (auto intro!: derivation_faults_only_bind derivation_faults_only_traverse split: option.splits)
  qed
  show ?thesis
    unfolding evaluate_incident_def using direct hops
    by (cases t) (auto intro!: derivation_faults_only_bind simp: Let_def split: prod.splits)
qed

lemma entity_node_faults:
  "\<forall>(ctx, c) \<in> tree_conditions n. plain_reference c \<Longrightarrow> \<forall>c \<in> derived_conditions n. understood_of_derived c \<Longrightarrow>
   derivation_faults_only (derivation_catalog (qc_registries qc) \<noteq> None) (eval_entity_node qc env n e)"
proof (induction n arbitrary: e rule: tree_conditions.induct)
  case (1 c)
  then show ?case using condition_total [of EntityContext "EntityItem e" c qc env]
    by (cases "evaluate_attribute_condition qc EntityContext env (EntityItem e) c") simp_all
next
  case (2 cj ns neg)
  then show ?case by (simp, intro derivation_faults_only_bind derivation_faults_only_traverse) auto
next
  case (3 cg d eg neg t p h)
  have "derivation_faults_only (derivation_catalog (qc_registries qc) \<noteq> None) (connection_passes qc env cg conn)" for conn
  proof (cases cg)
    case (Some g)
    with 3(2) have "\<forall>c \<in> connection_conditions (ConnectionSubgroup g). plain_reference c" by (auto simp: group_conditions_def)
    then have "\<not> isl (eval_connection_node qc env conn (ConnectionSubgroup g))" by (rule connection_node_total)
    with Some show ?thesis
      by (cases "eval_connection_node qc env conn (ConnectionSubgroup g)")
        (simp_all add: connection_passes_def evaluate_connection_criteria_def)
  qed (simp add: connection_passes_def)
  moreover have "derivation_faults_only (derivation_catalog (qc_registries qc) \<noteq> None)
      (passes (case eg of None \<Rightarrow> None | Some g \<Rightarrow> Some (\<lambda>e'. eval_entity_node qc env (EntitySubgroup g) e')) e')" for e'
    using 3 by (auto simp: passes_def intro!: derivation_faults_only_bind split: option.splits)
  ultimately show ?case using 3(3) unfolding eval_entity_node.simps by (intro incident_faults) auto
qed

text \<open>
  Evaluation does not crash on a query. Whatever the store, the environment and the literals hold, a tree that projects
  and aggregates no binding and puts neither \<^verbatim>\<open>not_in\<close>, \<^verbatim>\<open>like\<close> nor \<^verbatim>\<open>ilike\<close> to derived relationships
  raises nothing but what the derivation search raises; without a module catalog it raises nothing at all.
\<close>

theorem evaluation_faults_only_in_derivation:
  assumes "\<forall>(ctx, c) \<in> tree_conditions (EntitySubgroup g). plain_reference c"
    and "\<forall>c \<in> derived_conditions (EntitySubgroup g). understood_of_derived c"
  shows "case evaluate_entity_criteria qc env g e of
      Inr outcome \<Rightarrow> True
    | Inl fault \<Rightarrow> (\<exists>f. fault = DerivationFault f) \<and> derivation_catalog (qc_registries qc) \<noteq> None"
  using entity_node_faults [OF assms]
  by (auto simp: evaluate_entity_criteria_def derivation_faults_only_def split: sum.splits)

section \<open>A query at work\<close>

definition sample_registries :: registry_snapshot where
  "sample_registries =
     \<lparr>known_entity_types = {''node''}, known_connection_types = {''flow''}, known_specialization_slugs = {},
      entity_attribute_types = (\<lambda>a. if a = ''likelihood'' then Some ORDINAL_KIND else None),
      connection_attribute_types = (\<lambda>_. None),
      entity_attribute_enums = (\<lambda>a. if a = ''likelihood'' then Some [''low'', ''high''] else None),
      connection_attribute_enums = (\<lambda>_. None), symmetric_connection_types = {}, depth_cap = 4,
      derivation_catalog = None, derivation_max_hops = 4, derivation_max_relationships = 2000, derivation_time_budget = 2\<rparr>"

definition sample_query :: query_context where
  "sample_query =
     \<lparr>qc_lib = plain_lib,
      qc_access = \<lparr>read_entity = (\<lambda>_. None), read_connection = (\<lambda>_. None), connections_for = (\<lambda>_ _ _. [])\<rparr>,
      qc_registries = sample_registries, qc_clock = (\<lambda>_ _. 0)\<rparr>"

definition sample_environment :: evaluation_environment where
  "sample_environment =
     \<lparr>env_bindings = (\<lambda>_. None), env_parameters = (\<lambda>_. None), env_derived = (\<lambda>_. None), env_inactive = {}\<rparr>"

definition sample_record :: model_entity where
  "sample_record =
     \<lparr>entity_artifact_id = ''e'', entity_artifact_type = ''node'', me_name = ''E'', me_version = [], me_status = [],
      me_domain = [], me_subdomain = [], me_group = [], me_specializations = [],
      me_attributes = [(''likelihood'', VStr ''odd'')], me_extra = []\<rparr>"

definition at_least :: "string \<Rightarrow> string \<Rightarrow> attribute_condition" where
  "at_least a v = \<lparr>cond_attribute = a, cond_comparator = CmpGte, cond_value = default_ref\<lparr>ref_literal := VStr v\<rparr>, cond_negate = False\<rparr>"

definition ranked_group :: entity_group where
  "ranked_group = CriteriaGroup ConjAnd [EntityCondition (at_least ''likelihood'' ''low'')] False"

lemmas sample_defs = sample_query_def sample_registries_def sample_environment_def sample_record_def at_least_def
  ranked_group_def default_ref_def

lemma ranked_group_outcome:
  "evaluate_entity_criteria sample_query sample_environment ranked_group sample_record = Ok (plain_outcome False {''likelihood''})"
  by (simp add: sample_defs evaluate_entity_criteria_def evaluate_attribute_condition_def is_inactive_def derived_path_def
    resolve_attribute_path_def path_head_def reserved_paths_def RESERVED_ENTITY_PATHS_def read_attribute_value_def
    path_rest_def path_parts_def read_field_def match_present_def resolve_value_def NUMERIC_OPERATORS_def
    attribute_ordinal_scale_def ordinal_rank_def compare_values_def compare_plain_def numeric_match_def candidates_def
    elements_def plain_outcome_def combine_def combined_evidence_def Let_def)

lemma ranked_group_accepted: "accepted (validate_entity_criteria plain_lib (qc_registries sample_query) True ''/query'' ranked_group)"
  by (simp add: sample_defs validate_entity_criteria_def validate_condition_def validate_value_shape_def
    resolve_attribute_path_def path_head_def reserved_paths_def RESERVED_ENTITY_PATHS_def NUMERIC_OPERATORS_def
    ORDERED_ATTRIBUTE_TYPES_def validate_ordinal_comparison_def attribute_ordinal_scale_def STRING_PATTERN_OPERATORS_def
    Let_def)


definition incident_group :: entity_group where
  "incident_group =
     CriteriaGroup ConjOr
       [IncidentNode (IncidentCondition (Some (CriteriaGroup ConjAnd [ConnectionCondition (at_least ''type'' ''flow'')] False))
          Outgoing (Some ranked_group) False TBoth False None)] True"

theorem evaluation_faults_only_in_derivation_witness:
  "\<exists>outcome. evaluate_entity_criteria sample_query sample_environment incident_group sample_record = Ok outcome"
proof -
  have "case evaluate_entity_criteria sample_query sample_environment incident_group sample_record of
      Inr outcome \<Rightarrow> True
    | Inl fault \<Rightarrow> (\<exists>f. fault = DerivationFault f) \<and> derivation_catalog (qc_registries sample_query) \<noteq> None"
    by (rule evaluation_faults_only_in_derivation)
      (simp_all add: incident_group_def ranked_group_def group_conditions_def plain_reference_def understood_of_derived_def
        at_least_def default_ref_def)
  then show ?thesis
    by (simp add: sample_query_def sample_registries_def split: sum.splits)
qed

end
