(* ===== verification/Query_Bindings_Properties.thy ===== *)
theory Query_Bindings_Properties
  imports Query_Bindings Criteria_Properties Criteria_Safety
begin

text \<open>
  Derived attributes that no criteria tree names may be evaluated late; what a binding and an execution make of
  the same reference differs in three ways.
\<close>

section \<open>Deferral\<close>

definition alike_on :: "string set \<Rightarrow> evaluation_environment \<Rightarrow> evaluation_environment \<Rightarrow> bool" where
  "alike_on names env env' \<longleftrightarrow>
     env_bindings env = env_bindings env' \<and> env_parameters env = env_parameters env' \<and> env_inactive env = env_inactive env' \<and>
     (\<forall>i. \<forall>n \<in> names. env_derived env (i, n) = env_derived env' (i, n))"

definition no_derived_projection :: "attribute_condition \<Rightarrow> bool" where
  "no_derived_projection c \<longleftrightarrow>
     (case ref_project (cond_value c) of None \<Rightarrow> True | Some p \<Rightarrow> path_head p \<noteq> ''derived'')"

lemma path_parts_of:
  assumes "path_rest a \<noteq> []"
  shows "a = path_head a @ CHR ''.'' # path_rest a"
proof -
  define h where "h = takeWhile (\<lambda>c. c \<noteq> CHR ''.'') a"
  define d where "d = dropWhile (\<lambda>c. c \<noteq> CHR ''.'') a"
  have a: "a = h @ d" by (simp add: h_def d_def)
  have head: "path_head a = h" by (simp add: path_head_def h_def)
  have "path_rest a = drop (Suc (length h)) (h @ d)" by (simp add: path_rest_def head flip: a)
  then have rest: "path_rest a = tl d" by (simp add: drop_Suc)
  with assms have "d \<noteq> []" by auto
  moreover from this have "hd d = CHR ''.''" unfolding d_def using hd_dropWhile by blast
  ultimately have "d = CHR ''.'' # path_rest a" by (cases d) (simp_all add: rest)
  with a head show ?thesis by simp
qed

lemma derived_path_named:
  assumes "path_head (cond_attribute c) = ''derived''" and "path_rest (cond_attribute c) \<noteq> []"
  shows "path_rest (cond_attribute c) \<in> condition_names c"
proof -
  from path_parts_of [OF assms(2)] assms(1) have a: "cond_attribute c = ''derived.'' @ path_rest (cond_attribute c)" by simp
  have "condition_names c = {path_rest (cond_attribute c)}"
    unfolding condition_names_def by (subst (1 2) a) (simp add: derived_prefix_def)
  then show ?thesis by simp
qed

text \<open>Reading sees the derived values of named attributes only.\<close>

lemma read_alike:
  assumes "alike_on names env env'" and "path_head a = ''derived'' \<and> path_rest a \<noteq> [] \<Longrightarrow> path_rest a \<in> names"
  shows "read_attribute_value ctx (Some env) it a = read_attribute_value ctx (Some env') it a"
  using assms by (auto simp: read_attribute_value_def alike_on_def Let_def split: item.split)

lemma projection_alike:
  assumes "alike_on names env env'" and "path_head p \<noteq> ''derived''"
  shows "project_binding ctx env b p = project_binding ctx env' b p"
proof -
  have "(\<lambda>it. read_attribute_value ctx (Some env) it p) = (\<lambda>it. read_attribute_value ctx (Some env') it p)"
    by (rule ext) (rule read_alike [OF assms(1)], simp add: assms(2))
  then show ?thesis by (simp only: project_binding_def)
qed

lemma alike_fields:
  assumes "alike_on names env env'"
  shows "env_bindings env = env_bindings env'" "env_parameters env = env_parameters env'" "env_inactive env = env_inactive env'"
  using assms by (simp_all add: alike_on_def)

lemma resolve_alike:
  assumes "alike_on names env env'" and "no_derived_projection c"
  shows "resolve_value qc ctx env it (cond_value c) = resolve_value qc ctx env' it (cond_value c)"
proof -
  note fields = alike_fields [OF assms(1)]
  have "project_binding ctx env b p = project_binding ctx env' b p" if "ref_project (cond_value c) = Some p" for b p
    using assms(2) that by (intro projection_alike [OF assms(1)]) (simp add: no_derived_projection_def)
  then have "resolve_binding qc ctx env (cond_value c) = resolve_binding qc ctx env' (cond_value c)"
    unfolding resolve_binding_def fields by (cases "ref_project (cond_value c)") (simp_all cong: option.case_cong)
  then show ?thesis unfolding resolve_value_def fields by (simp only:)
qed

lemma condition_alike:
  assumes "alike_on names env env'" and "no_derived_projection c" and "condition_names c \<subseteq> names"
  shows "evaluate_attribute_condition qc ctx env it c = evaluate_attribute_condition qc ctx env' it c"
proof -
  have read: "read_attribute_value ctx (Some env) it (cond_attribute c) = read_attribute_value ctx (Some env') it (cond_attribute c)"
    using derived_path_named [of c] assms(3) by (intro read_alike [OF assms(1)]) blast
  have present: "match_present qc ctx env it c = match_present qc ctx env' it c"
    by (rule ext) (simp only: match_present_def resolve_alike [OF assms(1,2)])
  have inactive: "is_inactive env c = is_inactive env' c"
    unfolding is_inactive_def alike_fields [OF assms(1)] ..
  show ?thesis by (simp only: evaluate_attribute_condition_def read present inactive)
qed

lemma connection_node_alike:
  "alike_on names env env' \<Longrightarrow> \<forall>c \<in> connection_conditions n. no_derived_projection c \<Longrightarrow> connection_names n \<subseteq> names \<Longrightarrow>
   eval_connection_node qc env conn n = eval_connection_node qc env' conn n"
proof (induction n rule: connection_names.induct)
  case (2 cj ns neg)
  then have "eval_connection_node qc env conn n = eval_connection_node qc env' conn n" if "n \<in> set ns" for n
    using that by (intro 2(1)) auto
  then have "traverse (eval_connection_node qc env conn) ns = traverse (eval_connection_node qc env' conn) ns"
    by (intro traverse_cong) simp_all
  then show ?case by simp
qed (simp add: condition_alike)

lemma connection_passes_alike:
  assumes "alike_on names env env'" and "\<forall>c \<in> group_conditions cg. no_derived_projection c"
    and "(case cg of None \<Rightarrow> {} | Some g \<Rightarrow> connection_names (ConnectionSubgroup g)) \<subseteq> names"
  shows "connection_passes qc env cg conn = connection_passes qc env' cg conn"
proof (cases cg)
  case (Some g)
  with assms connection_node_alike [OF assms(1), of "ConnectionSubgroup g" qc conn] show ?thesis
    by (simp add: connection_passes_def evaluate_connection_criteria_def group_conditions_def)
qed (simp add: connection_passes_def)

lemma entity_node_alike:
  "alike_on names env env' \<Longrightarrow> \<forall>(ctx, c) \<in> tree_conditions n. no_derived_projection c \<Longrightarrow> referenced_names n \<subseteq> names \<Longrightarrow>
   eval_entity_node qc env n e = eval_entity_node qc env' n e"
proof (induction n arbitrary: e rule: tree_conditions.induct)
  case (2 cj ns neg)
  then have "eval_entity_node qc env n e = eval_entity_node qc env' n e" if "n \<in> set ns" for n
    using that by (intro 2(1)) auto
  then have "traverse (\<lambda>n. eval_entity_node qc env n e) ns = traverse (\<lambda>n. eval_entity_node qc env' n e) ns"
    by (intro traverse_cong) simp_all
  then show ?case by simp
next
  case (3 cg d eg neg t p h)
  have conns: "\<forall>c. connection_passes qc env cg c = connection_passes qc env' cg c"
    using 3(3,4) by (intro allI connection_passes_alike [OF 3(2)]) auto
  have "passes (case eg of None \<Rightarrow> None | Some g \<Rightarrow> Some (\<lambda>e'. eval_entity_node qc env (EntitySubgroup g) e')) e' =
      passes (case eg of None \<Rightarrow> None | Some g \<Rightarrow> Some (\<lambda>e'. eval_entity_node qc env' (EntitySubgroup g) e')) e'" for e'
    using 3 by (cases eg) (simp_all add: passes_def)
  with conns show ?case unfolding eval_entity_node.simps by (intro evaluate_incident_cong) simp_all
qed (simp add: condition_alike)

lemma put_derived_other: "k \<noteq> n \<Longrightarrow> put_derived m n ivs (i, k) = m (i, k)"
  by (induction m n ivs rule: put_derived.induct) auto

lemma put_derived_cong: "\<forall>i. m (i, k) = m' (i, k) \<Longrightarrow> put_derived m n ivs (i, k) = put_derived m' n ivs (i, k)"
  by (induction ivs arbitrary: m m') auto

lemma put_all_named:
  "\<forall>i. \<forall>k \<in> names. m (i, k) = m' (i, k) \<Longrightarrow> k \<in> names \<Longrightarrow>
   put_all_derived m xs (i, k) = put_all_derived m' (filter (\<lambda>(a, ivs). da_name a \<in> names) xs) (i, k)"
proof (induction xs arbitrary: m m')
  case (Cons x xs)
  obtain a ivs where x: "x = (a, ivs)" by (cases x)
  show ?case
  proof (cases "da_name a \<in> names")
    case True
    have "\<forall>i. \<forall>k \<in> names. put_derived m (da_name a) ivs (i, k) = put_derived m' (da_name a) ivs (i, k)"
      using Cons.prems(1) by (intro allI ballI put_derived_cong) blast
    with True Cons show ?thesis by (simp add: x)
  next
    case False
    then have "\<forall>i. \<forall>k \<in> names. put_derived m (da_name a) ivs (i, k) = m' (i, k)"
      using Cons.prems(1) put_derived_other by (metis (full_types))
    with False Cons show ?thesis by (simp add: x)
  qed
qed simp

lemma traverse_filter:
  "traverse f xs = Ok ys \<Longrightarrow> \<exists>zs. traverse f (filter P xs) = Ok zs \<and> zip (filter P xs) zs = filter (\<lambda>(x, y). P x) (zip xs ys)"
proof (induction xs arbitrary: ys)
  case (Cons x xs)
  then obtain y us where parts: "f x = Ok y" "traverse f xs = Ok us" "ys = y # us" by (auto split: sum.splits)
  with Cons.IH obtain zs where "traverse f (filter P xs) = Ok zs \<and> zip (filter P xs) zs = filter (\<lambda>(x, y). P x) (zip xs us)" by blast
  with parts show ?case by (cases "P x") auto
qed simp

lemma eager_alike:
  assumes "evaluate_derived_attributes qc env ids attributes = Ok full"
  shows "\<exists>eager. evaluate_derived_attributes qc env ids (filter (\<lambda>a. da_name a \<in> names) attributes) = Ok eager \<and> alike_on names eager full"
proof -
  let ?f = "derived_attribute_values qc env (filter (\<lambda>i. read_entity (qc_access qc) i \<noteq> None) (first_seen ids))"
  from assms obtain vs where all: "traverse ?f attributes = Ok vs"
    and full: "full = \<lparr>env_bindings = env_bindings env, env_parameters = env_parameters env,
      env_derived = put_all_derived (env_derived env) (zip attributes vs), env_inactive = {}\<rparr>"
    by (auto simp: evaluate_derived_attributes_def Let_def bind_result_eq_Inr)
  from traverse_filter [OF all, of "\<lambda>a. da_name a \<in> names"] obtain zs where
    some: "traverse ?f (filter (\<lambda>a. da_name a \<in> names) attributes) = Ok zs"
    and zipped: "zip (filter (\<lambda>a. da_name a \<in> names) attributes) zs = filter (\<lambda>(a, ivs). da_name a \<in> names) (zip attributes vs)"
    by blast
  then show ?thesis
    using put_all_named [of names "env_derived env" "env_derived env" _ "zip attributes vs"]
    by (simp add: evaluate_derived_attributes_def Let_def some alike_on_def full zipped)
qed

definition query_conditions :: "executable_query \<Rightarrow> attribute_condition set" where
  "query_conditions q =
     snd ` tree_conditions (EntitySubgroup (eq_criteria q)) \<union>
     (\<Union>i \<in> set (eq_inclusions q). group_conditions (incl_connection i) \<union>
        (case incl_neighbor i of None \<Rightarrow> {} | Some g \<Rightarrow> snd ` tree_conditions (EntitySubgroup g))) \<union>
     connection_conditions (ConnectionSubgroup (sel_criteria (eq_connections q)))"

lemma endpoint_alike:
  assumes "alike_on names env env'" and "\<forall>g. eg = Some g \<longrightarrow> (\<forall>(ctx, c) \<in> tree_conditions (EntitySubgroup g). no_derived_projection c) \<and>
      referenced_names (EntitySubgroup g) \<subseteq> names"
  shows "endpoint_passes qc env eg e = endpoint_passes qc env' eg e"
proof (cases eg)
  case (Some g)
  with assms(2) entity_node_alike [OF assms(1), of "EntitySubgroup g" qc e] show ?thesis
    by (simp add: endpoint_passes_def evaluate_entity_criteria_def)
qed (simp add: endpoint_passes_def)

text \<open>
  Claim C12. Deferring is invisible to matching. Evaluating before the match only the derived attributes that some criteria tree
  names gives every tree of the query (the primary criteria, those of the inclusions and of the connections) the
  result it has with all derived attributes evaluated, exceptions included; no reference may project a derived value.
\<close>

theorem deferral_never_changes_a_match:
  assumes all: "evaluate_derived_attributes qc env ids (filter (\<lambda>a. da_source a = GraphSource) (eq_derived q)) = Ok full"
    and plain: "\<forall>c \<in> query_conditions q. no_derived_projection c"
  shows "\<exists>eager. evaluate_derived_attributes qc env ids (eager_graph (partition_derived_attributes q)) = Ok eager \<and>
    (\<forall>e. evaluate_entity_criteria qc eager (eq_criteria q) e = evaluate_entity_criteria qc full (eq_criteria q) e) \<and>
    (\<forall>i \<in> set (eq_inclusions q).
       (\<forall>c. connection_passes qc eager (incl_connection i) c = connection_passes qc full (incl_connection i) c) \<and>
       (\<forall>e. endpoint_passes qc eager (incl_neighbor i) e = endpoint_passes qc full (incl_neighbor i) e)) \<and>
    (\<forall>c. evaluate_connection_criteria qc eager c (sel_criteria (eq_connections q)) =
         evaluate_connection_criteria qc full c (sel_criteria (eq_connections q)))"
proof -
  let ?names = "names_referenced_in_criteria q"
  from eager_alike [OF all, of ?names] obtain eager where
    eager: "evaluate_derived_attributes qc env ids (eager_graph (partition_derived_attributes q)) = Ok eager"
    and alike: "alike_on ?names eager full"
    by (auto simp: partition_derived_attributes_def Let_def)
  have primary: "evaluate_entity_criteria qc eager (eq_criteria q) e = evaluate_entity_criteria qc full (eq_criteria q) e" for e
    unfolding evaluate_entity_criteria_def
  proof (rule entity_node_alike [OF alike])
    show "\<forall>(ctx, c) \<in> tree_conditions (EntitySubgroup (eq_criteria q)). no_derived_projection c"
      using plain by (force simp: query_conditions_def)
    show "referenced_names (EntitySubgroup (eq_criteria q)) \<subseteq> ?names" by (auto simp: names_referenced_in_criteria_def)
  qed
  have included: "connection_passes qc eager (incl_connection i) c = connection_passes qc full (incl_connection i) c"
    "endpoint_passes qc eager (incl_neighbor i) e = endpoint_passes qc full (incl_neighbor i) e"
    if "i \<in> set (eq_inclusions q)" for i c e
    using plain that
    by (intro connection_passes_alike [OF alike] endpoint_alike [OF alike];
      force simp: query_conditions_def names_referenced_in_criteria_def inclusion_names_def)+
  have shown: "evaluate_connection_criteria qc eager c (sel_criteria (eq_connections q)) =
      evaluate_connection_criteria qc full c (sel_criteria (eq_connections q))" for c
    unfolding evaluate_connection_criteria_def using plain
    by (intro connection_node_alike [OF alike]) (auto simp: query_conditions_def names_referenced_in_criteria_def)
  show ?thesis using eager primary included shown by blast
qed

text \<open>A query with one attribute its criteria name and one only a presentation shows.\<close>

definition store_query :: query_context where
  "store_query = sample_query\<lparr>qc_access := (qc_access sample_query)\<lparr>read_entity := (\<lambda>i. if i = ''e'' then Some sample_record else None)\<rparr>\<rparr>"

definition counting :: "string \<Rightarrow> derived_attribute" where
  "counting n =
     \<lparr>da_name = n, da_source = GraphSource, da_metric = None, da_direction = Either, da_derived = False, da_potential = False,
      da_hops = None, da_connection = None, da_endpoint = None, da_reduce = AggCount, da_of = None\<rparr>"

definition counted_query :: executable_query where
  "counted_query =
     \<lparr>eq_criteria = CriteriaGroup ConjAnd [EntityCondition (at_least ''derived.used'' ''0'')] False, eq_inclusions = [],
      eq_connections = \<lparr>sel_enabled = True, sel_criteria = empty_group, sel_traversal = TDirect, sel_potential = False, sel_hops = None\<rparr>,
      eq_bindings = [], eq_parameters = [], eq_derived = [counting ''used'', counting ''shown'']\<rparr>"

lemma counted_query_evaluates:
  "\<exists>full. evaluate_derived_attributes store_query sample_environment [''e'']
     (filter (\<lambda>a. da_source a = GraphSource) (eq_derived counted_query)) = Ok full"
  by (simp add: counted_query_def counting_def evaluate_derived_attributes_def first_seen_def derived_attribute_values_def
    evaluate_derived_def store_query_def sample_query_def reduce_hits_def)

theorem deferral_never_changes_a_match_witness:
  "(\<exists>eager. evaluate_derived_attributes store_query sample_environment [''e'']
       (eager_graph (partition_derived_attributes counted_query)) = Ok eager) \<and>
   map da_name (deferred_graph (partition_derived_attributes counted_query)) = [''shown'']"
proof
  from counted_query_evaluates obtain full where
    "evaluate_derived_attributes store_query sample_environment [''e'']
       (filter (\<lambda>a. da_source a = GraphSource) (eq_derived counted_query)) = Ok full" ..
  from deferral_never_changes_a_match [OF this]
  show "\<exists>eager. evaluate_derived_attributes store_query sample_environment [''e'']
       (eager_graph (partition_derived_attributes counted_query)) = Ok eager"
    by (auto simp: query_conditions_def counted_query_def empty_group_def no_derived_projection_def at_least_def default_ref_def)
  show "map da_name (deferred_graph (partition_derived_attributes counted_query)) = [''shown'']"
    by (simp add: partition_derived_attributes_def counted_query_def counting_def names_referenced_in_criteria_def
      condition_names_def derived_prefix_def at_least_def empty_group_def)
qed

end
