(* ===== verification/Query_Types_Properties.thy ===== *)
theory Query_Types_Properties
  imports Query_Types Criteria_Safety
begin

text \<open>
  What is promised of query types: their text is read back, and an inferred selection type holds of what the
  selection finds.
\<close>

section \<open>Round trip\<close>

definition wf_slug :: "string \<Rightarrow> bool" where
  "wf_slug s \<longleftrightarrow> s \<noteq> [] \<and> set s \<inter> {CHR ''|'', CHR ''['', CHR '']''} = {}"

fun wf_type :: "query_result_type \<Rightarrow> bool" where
  "wf_type (EntityInstanceType s) = (\<forall>x \<in> fset s. wf_slug x)"
| "wf_type (ConnectionInstanceType s) = (\<forall>x \<in> fset s. wf_slug x)"
| "wf_type (EntitySetType s) = (\<forall>x \<in> fset s. wf_slug x)"
| "wf_type (ConnectionSetType s) = (\<forall>x \<in> fset s. wf_slug x)"
| "wf_type (ScalarType k) = True"
| "wf_type (OptionalType t) = wf_type t"
| "wf_type (ListType t) = wf_type t"
| "wf_type (TupleType ts) = (\<forall>t \<in> set ts. wf_type t)"

text \<open>The depth after a text in which no comma separates, if there is none that does.\<close>

fun scan :: "int \<Rightarrow> string \<Rightarrow> int option" where
  "scan d [] = Some d"
| "scan d (c # s) = (if c = CHR '','' \<and> depth_after c d = 0 then None else scan (depth_after c d) s)"

lemma scan_append: "scan d (a @ b) = (case scan d a of None \<Rightarrow> None | Some d' \<Rightarrow> scan d' b)"
  by (induction d a rule: scan.induct) auto

lemma split_from_scanned: "scan d w = Some d' \<Longrightarrow> split_from d part (w @ s) = split_from d' (part @ w) s"
  by (induction d w arbitrary: part rule: scan.induct) (auto split: if_splits)

lemma scan_plain: "set w \<inter> {CHR '','', CHR ''['', CHR '']''} = {} \<Longrightarrow> scan d w = Some d"
  by (induction w) (auto simp: depth_after_def)

lemma scan_inside: "d \<ge> 1 \<Longrightarrow> set w \<inter> {CHR ''['', CHR '']''} = {} \<Longrightarrow> scan d w = Some d"
  by (induction w) (auto simp: depth_after_def)

lemma scan_brackets:
  assumes "set name \<inter> {CHR '','', CHR ''['', CHR '']''} = {}" and "scan (d + 1) w = Some (d + 1)"
  shows "scan d (name @ ''['' @ w @ '']'') = Some d"
  using assms by (simp add: scan_append scan_plain depth_after_def)

lemma scan_join:
  assumes "d \<ge> 1" and "scan d sep = Some d" and "\<And>w. w \<in> set ws \<Longrightarrow> scan d w = Some d"
  shows "scan d (py_join sep ws) = Some d"
  using assms(3) by (induction ws rule: induct_list012) (auto simp: scan_append assms(1,2))

lemma scan_slugs:
  assumes "\<forall>x \<in> fset s. wf_slug x" and "d \<ge> 1"
  shows "scan d (py_join ''|'' (sorted_list_of_fset s)) = Some d"
proof (rule scan_join)
  show "d \<ge> 1" by (rule assms)
  show "scan d ''|'' = Some d" by (simp add: depth_after_def)
  fix w assume "w \<in> set (sorted_list_of_fset s)"
  with assms have "wf_slug w" by simp
  with assms(2) show "scan d w = Some d" by (intro scan_inside) (auto simp: wf_slug_def)
qed

lemma scan_slugged:
  assumes "set name \<inter> {CHR '','', CHR ''['', CHR '']''} = {}" and "\<forall>x \<in> fset s. wf_slug x" and "d \<ge> 0"
  shows "scan d (slugged name s) = Some d"
  unfolding slugged_def using assms by (intro scan_brackets scan_slugs) simp_all

lemma scan_format: "wf_type t \<Longrightarrow> d \<ge> 0 \<Longrightarrow> scan d (format_result_type t) = Some d"
proof (induction t arbitrary: d rule: format_result_type.induct)
  case (5 k)
  then show ?case by (cases k) (simp_all add: depth_after_def)
next
  case (8 ts)
  have "scan (d + 1) (py_join '', '' (map format_result_type ts)) = Some (d + 1)"
    using 8 by (intro scan_join) (auto simp: depth_after_def)
  then have "scan d (''tuple'' @ ''['' @ py_join '', '' (map format_result_type ts) @ '']'') = Some d"
    by (intro scan_brackets) simp_all
  then show ?case by simp
next
  case (6 t)
  then have "scan d (''optional'' @ ''['' @ format_result_type t @ '']'') = Some d" by (intro scan_brackets) simp_all
  then show ?case by simp
next
  case (7 t)
  then have "scan d (''list'' @ ''['' @ format_result_type t @ '']'') = Some d" by (intro scan_brackets) simp_all
  then show ?case by simp
qed (simp_all add: scan_slugged)

text \<open>No formatted type begins or ends with a space, and none is empty.\<close>

definition trimmed :: "string \<Rightarrow> bool" where
  "trimmed w \<longleftrightarrow> w \<noteq> [] \<and> \<not> is_py_space (hd w) \<and> \<not> is_py_space (last w)"

lemma trimmed_strip: "trimmed w \<Longrightarrow> py_strip w = w"
proof -
  assume "trimmed w"
  then have "dropWhile is_py_space w = w" "dropWhile is_py_space (rev w) = rev w"
    by (simp_all add: trimmed_def dropWhile_eq_self_iff hd_rev)
  then show ?thesis by (simp add: py_strip_def)
qed

lemma trimmed_strip_space: "trimmed w \<Longrightarrow> py_strip (CHR '' '' # w) = w"
  using trimmed_strip [of w] by (simp add: py_strip_def is_py_space_def)

lemma trimmed_bracket: "c \<notin> {CHR '' ''} \<Longrightarrow> \<not> is_py_space c \<Longrightarrow> trimmed (c # w @ '']'')"
  by (simp add: trimmed_def is_py_space_def)

lemma trimmed_format: "trimmed (format_result_type t)"
proof (cases t)
  case (ScalarType k)
  then show ?thesis by (cases k) (simp_all add: trimmed_def is_py_space_def)
qed (simp_all add: trimmed_def is_py_space_def slugged_def)

lemma split_from_join:
  assumes "\<And>w. w \<in> set (v # ws) \<Longrightarrow> scan 0 w = Some 0 \<and> trimmed w" and "py_strip (part @ v) = v"
  shows "split_from 0 part (py_join '', '' (v # ws)) = v # ws"
  using assms
proof (induction ws arbitrary: v part)
  case Nil
  then show ?case using split_from_scanned [of 0 v 0 part "[]"] by simp
next
  case (Cons w ws)
  have "split_from 0 part (v @ '', '' @ py_join '', '' (w # ws)) = split_from 0 (part @ v) ('', '' @ py_join '', '' (w # ws))"
    using Cons.prems(1) [of v] by (intro split_from_scanned) simp
  also have "\<dots> = v # split_from 0 '' '' (py_join '', '' (w # ws))"
    using Cons.prems(2) by (simp add: depth_after_def)
  also have "split_from 0 '' '' (py_join '', '' (w # ws)) = w # ws"
    using Cons.prems(1) trimmed_strip_space [of w] by (intro Cons.IH) auto
  finally show ?case by simp
qed

lemma split_formatted:
  assumes "\<And>t. t \<in> set ts \<Longrightarrow> wf_type t"
  shows "split_top_level (py_join '', '' (map format_result_type ts)) = map format_result_type ts"
proof (cases ts)
  case (Cons t us)
  have "split_from 0 [] (py_join '', '' (map format_result_type (t # us))) = map format_result_type (t # us)"
    unfolding list.map
    by (rule split_from_join) (use assms Cons in \<open>auto simp: scan_format trimmed_format trimmed_strip\<close>)
  moreover have "filter (\<lambda>p. p \<noteq> []) (map format_result_type ts) = map format_result_type ts"
    using trimmed_format by (auto simp: filter_id_conv trimmed_def)
  ultimately show ?thesis using Cons by (simp add: split_top_level_def)
qed (simp add: split_top_level_def py_strip_def)

lemma bracketed_text:
  "CHR ''['' \<notin> set name \<Longrightarrow> bracketed (name @ CHR ''['' # w @ '']'') = Ok (name, w)"
proof -
  assume "CHR ''['' \<notin> set name"
  then have "\<forall>c \<in> set name. c \<noteq> CHR ''[''" by auto
  then show ?thesis by (simp add: bracketed_def takeWhile_append2 dropWhile_append2 butlast_append)
qed

lemma not_a_kind: "last s = CHR '']'' \<Longrightarrow> kind_named s = None"
proof -
  have "last (kind_name k) \<noteq> CHR '']''" for k by (cases k) simp_all
  then show "last s = CHR '']'' \<Longrightarrow> kind_named s = None" by (auto simp: kind_named_def find_None_iff)
qed

lemma slugs_of_joined:
  assumes "\<forall>x \<in> fset s. wf_slug x"
  shows "slugs_of (py_join ''|'' (sorted_list_of_fset s)) = s"
proof (cases "s = {||}")
  case True
  then show ?thesis by (simp add: slugs_of_def sorted_list_of_fset.rep_eq)
next
  case False
  have members: "set (sorted_list_of_fset s) = fset s" by simp
  have "sorted_list_of_fset s \<noteq> []"
  proof
    assume "sorted_list_of_fset s = []"
    with members have "fset s = {}" by (metis empty_set)
    with False show False by (simp add: fset_inject [symmetric] bot_fset.rep_eq)
  qed
  then have "py_split (CHR ''|'') (py_join ''|'' (sorted_list_of_fset s)) = sorted_list_of_fset s"
    using assms by (intro py_split_join) (auto simp: wf_slug_def)
  moreover have "filter (\<lambda>x. x \<noteq> []) (sorted_list_of_fset s) = sorted_list_of_fset s"
    using assms by (auto simp: filter_id_conv wf_slug_def)
  ultimately show ?thesis by (simp add: slugs_of_def fset_of_list_elem fset_eqI)
qed

lemma parse_slugged:
  assumes "\<forall>x \<in> fset s. wf_slug x"
  shows "parse_result_type (slugged ''entity'' s) = Ok (EntityInstanceType s)"
    and "parse_result_type (slugged ''connection'' s) = Ok (ConnectionInstanceType s)"
    and "parse_result_type (slugged ''entities'' s) = Ok (EntitySetType s)"
    and "parse_result_type (slugged ''connections'' s) = Ok (ConnectionSetType s)"
  using bracketed_text [of "''entity''" "py_join ''|'' (sorted_list_of_fset s)"]
    bracketed_text [of "''connection''" "py_join ''|'' (sorted_list_of_fset s)"]
    bracketed_text [of "''entities''" "py_join ''|'' (sorted_list_of_fset s)"]
    bracketed_text [of "''connections''" "py_join ''|'' (sorted_list_of_fset s)"]
  by (simp_all add: parse_result_type.simps slugged_def not_a_kind slugs_of_joined [OF assms])

lemma parse_nested:
  "parse_result_type (''optional['' @ w @ '']'') = bind_result (parse_result_type w) (\<lambda>t. Ok (OptionalType t))"
  "parse_result_type (''list['' @ w @ '']'') = bind_result (parse_result_type w) (\<lambda>t. Ok (ListType t))"
  "parse_result_type (''tuple['' @ w @ '']'') =
     bind_result (traverse parse_result_type (split_top_level w)) (\<lambda>ts. Ok (TupleType ts))"
  using bracketed_text [of "''optional''" w] bracketed_text [of "''list''" w] bracketed_text [of "''tuple''" w]
  by (simp_all add: not_a_kind parse_result_type.simps [of "CHR ''o'' # s" for s]
    parse_result_type.simps [of "CHR ''l'' # s" for s] parse_result_type.simps [of "CHR ''t'' # s" for s])

text \<open>
  A result type is what its text says. Formatting a type and parsing the text gives the type back, for every nesting of
  optionals, lists and tuples, the empty tuple among them; slugs must be nonempty and free of bars and brackets.
\<close>

theorem result_types_round_trip: "wf_type t \<Longrightarrow> parse_result_type (format_result_type t) = Ok t"
proof (induction t)
  case (ScalarType k)
  then show ?case by (cases k) (simp_all add: parse_result_type.simps kind_named_def SCALAR_KINDS_def)
next
  case (TupleType ts)
  then have "traverse parse_result_type (map format_result_type ts) = Ok ts"
    by (simp add: traverse_eq_Inr list_all2_conv_all_nth)
  with TupleType show ?case by (simp add: parse_nested [simplified] split_formatted)
qed (simp_all add: parse_slugged parse_nested [simplified])

theorem result_types_round_trip_witness:
  "parse_result_type (format_result_type (TupleType [EntitySetType {|''node'', ''process''|}, OptionalType (ListType (ScalarType KDate)), TupleType []])) =
     Ok (TupleType [EntitySetType {|''node'', ''process''|}, OptionalType (ListType (ScalarType KDate)), TupleType []])"
  by (rule result_types_round_trip) (simp add: wf_slug_def)

section \<open>Selections are of their type\<close>

text \<open>What a parser leaves behind: a reference that is no literal has none, and a literal has no quantifier.\<close>

definition plain_literal :: "attribute_condition \<Rightarrow> bool" where
  "plain_literal c \<longleftrightarrow>
     (if ref_kind (cond_value c) = LiteralRef then ref_quantifier (cond_value c) = None else ref_literal (cond_value c) = VNone)"

definition item_type :: "item \<Rightarrow> string" where
  "item_type it = (case it of EntityItem e \<Rightarrow> entity_artifact_type e | ConnectionItem c \<Rightarrow> conn_type c)"

lemma reads_type: "in_context ctx it \<Longrightarrow> read_attribute_value ctx env it ''type'' = Ok (Some (VStr (item_type it)))"
  by (cases ctx; cases it)
    (simp_all add: read_attribute_value_def path_head_def reserved_paths_def RESERVED_ENTITY_PATHS_def
      RESERVED_CONNECTION_PATHS_def reserved_entity_field_def reserved_connection_field_def item_type_def)

lemma type_resolves: "resolve_attribute_path ctx regs ''type'' = Some Reserved"
  by (cases ctx) (simp_all add: resolve_attribute_path_def path_head_def reserved_paths_def RESERVED_ENTITY_PATHS_def RESERVED_CONNECTION_PATHS_def)

lemma equal_string: "py_eq (VStr t) v \<longleftrightarrow> v = VStr t"
  by (cases v) auto

lemma equals_literal: "compare_plain lib CmpEq scale (VStr t) (BVal v) \<Longrightarrow> t \<in> set (literal_strings v)"
  by (auto simp: compare_plain_def candidates_def elements_def equals_bound_def equal_string literal_strings_def)

lemma among_literals: "compare_plain lib CmpIn scale (VStr t) (BVal v) \<Longrightarrow> t \<in> set (literal_strings v)"
  by (cases v)
    (auto simp: compare_plain_def candidates_def elements_def equals_bound_def equal_string literal_strings_def options_of_def
      list_ex_iff List.map_filter_def image_iff intro!: bexI)

text \<open>A node that names types positively is active, and where it matches the record has one of them.\<close>

definition names_types :: "string \<Rightarrow> string list \<Rightarrow> (query_error, evaluation_outcome) result \<Rightarrow> bool" where
  "names_types t slugs r \<longleftrightarrow>
     (\<forall>x. r = Ok x \<longrightarrow> slugs \<noteq> [] \<longrightarrow> \<not> out_inactive x \<and> (out_matched x \<longrightarrow> t \<in> set slugs))"

lemma condition_names_types:
  assumes in_ctx: "in_context ctx it" and plain: "plain_literal c"
  shows "names_types (item_type it) (positive_literals c) (evaluate_attribute_condition qc ctx env it c)"
proof (cases "positive_literals c = []")
  case False
  then have c: "cond_attribute c = ''type''" "\<not> cond_negate c" "cond_comparator c \<in> {CmpEq, CmpIn}"
    and literals: "positive_literals c = literal_strings (ref_literal (cond_value c))"
    by (auto simp: positive_literals_def split: if_splits)
  from False literals have "ref_literal (cond_value c) \<noteq> VNone" by (auto simp: literal_strings_def elements_def)
  with plain have kind: "ref_kind (cond_value c) = LiteralRef" "ref_quantifier (cond_value c) = None"
    by (auto simp: plain_literal_def split: if_splits)
  have active: "\<not> is_inactive env c" by (simp add: is_inactive_def kind)
  have path: "\<not> derived_path it ''type''" by (simp add: derived_path_def)
  have "match_present qc ctx env it c (VStr (item_type it)) =
      Ok (compare_plain (qc_lib qc) (cond_comparator c) None (VStr (item_type it)) (BVal (ref_literal (cond_value c))), {})"
    by (simp add: match_present_def resolve_value_def kind c(1) type_resolves compare_values_def)
  then show ?thesis
    using c(3) equals_literal [of "qc_lib qc" None "item_type it"] among_literals [of "qc_lib qc" None "item_type it"]
    by (auto simp: names_types_def evaluate_attribute_condition_def active c(1,2) type_resolves reads_type [OF in_ctx]
      literals plain_outcome_def)
qed (simp add: names_types_def)

lemma conjunction_names_types:
  assumes "\<And>n. n \<in> set ns \<Longrightarrow> names_types t (slugs n) (f n)"
  shows "names_types t (concat (map slugs ns)) (bind_result (traverse f ns) (\<lambda>outs. Ok (combine ConjAnd False outs)))"
  unfolding names_types_def
proof (intro allI impI)
  fix x assume "bind_result (traverse f ns) (\<lambda>outs. Ok (combine ConjAnd False outs)) = Ok x" and named: "concat (map slugs ns) \<noteq> []"
  then obtain outs where outs: "list_all2 (\<lambda>n x. f n = Ok x) ns outs" and x: "x = combine ConjAnd False outs"
    by (auto simp: bind_result_eq_Inr traverse_eq_Inr)
  from named obtain n where n: "n \<in> set ns" "slugs n \<noteq> []" by auto
  then obtain i where i: "i < length ns" "n = ns ! i" by (auto simp: in_set_conv_nth)
  with outs have "outs ! i \<in> set outs" "f n = Ok (outs ! i)" by (auto simp: list_all2_conv_all_nth)
  then obtain y where y: "y \<in> set outs" "f n = Ok y" by blast
  with assms [OF n(1)] n have child: "\<not> out_inactive y" "out_matched y \<longrightarrow> t \<in> set (slugs n)" by (auto simp: names_types_def)
  with y n show "\<not> out_inactive x \<and> (out_matched x \<longrightarrow> t \<in> set (concat (map slugs ns)))"
    by (auto simp: x combine_def Let_def filter_empty_conv list_all_iff)
qed

lemma connection_node_names_types:
  "\<forall>c \<in> connection_conditions n. plain_literal c \<Longrightarrow>
   names_types (conn_type conn) (connection_type_slugs n) (eval_connection_node qc env conn n)"
proof (induction n rule: connection_type_slugs.induct)
  case (1 c)
  then show ?case using condition_names_types [of ConnectionContext "ConnectionItem conn" c] by (simp add: item_type_def)
next
  case (2 cj ns neg)
  then show ?case
    using conjunction_names_types [of ns "conn_type conn" connection_type_slugs "eval_connection_node qc env conn"]
    by (auto simp: names_types_def)
qed

lemma entity_node_names_types:
  "\<forall>(ctx, c) \<in> tree_conditions n. plain_literal c \<Longrightarrow>
   names_types (entity_artifact_type e) (entity_type_slugs n) (eval_entity_node qc env n e)"
proof (induction n rule: entity_type_slugs.induct)
  case (1 c)
  then show ?case using condition_names_types [of EntityContext "EntityItem e" c] by (simp add: item_type_def)
next
  case (2 cj ns neg)
  then show ?case
    using conjunction_names_types [of ns "entity_artifact_type e" entity_type_slugs "\<lambda>n. eval_entity_node qc env n e"]
    by (auto simp: names_types_def)
qed (simp add: names_types_def)

definition has_selection_type :: "item \<Rightarrow> query_result_type \<Rightarrow> bool" where
  "has_selection_type it t =
     (case (it, t) of
        (EntityItem e, EntitySetType s) \<Rightarrow> s = {||} \<or> entity_artifact_type e |\<in>| s
      | (ConnectionItem c, ConnectionSetType s) \<Rightarrow> s = {||} \<or> conn_type c |\<in>| s
      | _ \<Rightarrow> False)"

text \<open>
  Selections are well typed. The type inferred for a selection is that of everything the selection finds: in any store and
  environment an entity or a connection the criteria match has one of the inferred types, where any is inferred.
\<close>

theorem selections_have_their_inferred_type:
  assumes "\<forall>(ctx, c) \<in> tree_conditions (EntitySubgroup g). plain_literal c"
    and "\<forall>c \<in> connection_conditions (ConnectionSubgroup cg). plain_literal c"
  shows "(\<forall>outcome. evaluate_entity_criteria qc env g e = Ok outcome \<and> out_matched outcome \<longrightarrow>
        has_selection_type (EntityItem e) (selection_type (SelectEntities (Some g)))) \<and>
      (\<forall>outcome. evaluate_connection_criteria qc env conn cg = Ok outcome \<and> out_matched outcome \<longrightarrow>
        has_selection_type (ConnectionItem conn) (selection_type (SelectConnections (Some cg))))"
  using entity_node_names_types [OF assms(1), of e qc env] connection_node_names_types [OF assms(2), of conn qc env]
  by (auto simp: names_types_def has_selection_type_def selection_type_def evaluate_entity_criteria_def
    evaluate_connection_criteria_def fset_of_list_elem simp del: entity_type_slugs.simps connection_type_slugs.simps)

text \<open>A selection of nodes and processes, matched by a node.\<close>

definition typed_group :: entity_group where
  "typed_group =
     CriteriaGroup ConjAnd
       [EntityCondition \<lparr>cond_attribute = ''type'', cond_comparator = CmpIn,
          cond_value = default_ref\<lparr>ref_literal := VList [VStr ''node'', VStr ''process'']\<rparr>, cond_negate = False\<rparr>] False"

lemma typed_group_matches: "evaluate_entity_criteria sample_query sample_environment typed_group sample_record = Ok (plain_outcome True {})"
  by (simp add: sample_defs typed_group_def evaluate_entity_criteria_def evaluate_attribute_condition_def is_inactive_def
    derived_path_def type_resolves [unfolded] reads_type match_present_def resolve_value_def compare_values_def
    compare_plain_def candidates_def options_of_def equals_bound_def item_type_def plain_outcome_def combine_def
    combined_evidence_def Let_def)

theorem selections_have_their_inferred_type_witness:
  "has_selection_type (EntityItem sample_record) (selection_type (SelectEntities (Some typed_group)))"
  using selections_have_their_inferred_type [of typed_group empty_group sample_query sample_environment sample_record]
    typed_group_matches
  by (simp add: typed_group_def empty_group_def plain_literal_def default_ref_def plain_outcome_def)

end
