(* ===== verification/Query_Disagreements.thy ===== *)
theory Query_Disagreements
  imports Query_Bindings_Properties Query_Types_Properties
begin

text \<open>
  Where saving a query and evaluating it disagree: comparisons by rank and references to derived attributes
  are evaluated but cannot be saved, and conditions on derived relationships are checked as if they were
  conditions on modelled connections.
\<close>

section \<open>Derived relationships\<close>

definition on_connection :: "string \<Rightarrow> comparator \<Rightarrow> val \<Rightarrow> bool \<Rightarrow> attribute_condition" where
  "on_connection a cmp v neg =
     \<lparr>cond_attribute = a, cond_comparator = cmp, cond_value = default_ref\<lparr>ref_literal := v\<rparr>, cond_negate = neg\<rparr>"

definition only :: "attribute_condition \<Rightarrow> connection_group" where
  "only c = CriteriaGroup ConjAnd [ConnectionCondition c] False"

definition derived_incident :: "connection_group \<Rightarrow> entity_node" where
  "derived_incident g = IncidentNode (IncidentCondition (Some g) Either None False TDerived False None)"

definition derived_selection :: "connection_group \<Rightarrow> connection_selection" where
  "derived_selection g = \<lparr>sel_enabled = True, sel_criteria = g, sel_traversal = TDerived, sel_potential = False, sel_hops = None\<rparr>"

lemmas derived_validation = on_connection_def only_def derived_incident_def derived_selection_def default_ref_def
  validate_derived_traversal_def validate_connection_criteria_def validate_condition_def validate_value_shape_def
  symmetric_direction_warning_def resolve_attribute_path_def path_head_def reserved_paths_def
  RESERVED_CONNECTION_PATHS_def DERIVED_PATHS_def validate_reserved_value_def known_slugs_def
  NUMERIC_OPERATORS_def STRING_PATTERN_OPERATORS_def elements_def candidates_def Let_def

lemma derived_only: "derived_matches r (Some (only c)) = derived_node_matches r (ConnectionCondition c)"
  by (cases "derived_node_matches r (ConnectionCondition c)") (simp_all add: derived_matches_def only_def del: derived_node_matches.simps(1))

lemma pattern_on_derived_accepted:
  "cmp \<in> STRING_PATTERN_OPERATORS \<Longrightarrow>
   accepted (validate_entity_node lib regs erg at_root p (derived_incident (only (on_connection ''type'' cmp (VStr s) neg))))"
  by (auto simp: derived_validation)

lemma pattern_on_derived_raises:
  "cmp \<in> STRING_PATTERN_OPERATORS \<Longrightarrow>
   derived_matches r (Some (only (on_connection ''type'' cmp (VStr s) neg))) = Err UnorderedComparator"
  by (auto simp: derived_only on_connection_def default_ref_def derived_field_def derived_compare_def ordered_compare_def
    STRING_PATTERN_OPERATORS_def NUMERIC_OPERATORS_def)

lemma filter_unknown_none: "set ts \<subseteq> known \<Longrightarrow> filter (unknown_slug known) (map VStr ts) = []"
  by (induction ts) (auto simp: unknown_slug_def)

lemma not_in_on_derived_accepted:
  "set ts \<subseteq> known_connection_types regs \<Longrightarrow>
   accepted (validate_entity_node lib regs erg at_root p (derived_incident (only (on_connection ''type'' CmpNotIn (VList (map VStr ts)) neg))))"
  by (simp add: derived_validation filter_unknown_none)

lemma not_in_on_derived_never_holds:
  "derived_matches r (Some (only (on_connection ''type'' CmpNotIn (VList vs) neg))) = Ok neg"
  by (simp add: derived_only on_connection_def default_ref_def derived_field_def derived_compare_def)

lemma no_head_of_path: "CHR ''.'' \<notin> set a \<Longrightarrow> path_head a = a"
  by (auto simp: path_head_def takeWhile_eq_all_conv)

lemma derived_path_refused:
  assumes "a \<in> {''certainty'', ''hops''}" and "connection_attribute_types regs a = None"
  shows "\<not> accepted (validate_entity_node lib regs erg at_root p (derived_incident (only (on_connection a cmp v neg))))"
  using assms by (auto simp: derived_validation)

lemma derived_path_selected:
  "a \<in> DERIVED_PATHS \<Longrightarrow> accepted (validate_connection_selection regs erg p (derived_selection (only (on_connection a cmp v neg))))"
  by (auto simp: validate_connection_selection_def derived_selection_def only_def on_connection_def default_ref_def)

text \<open>A comparison with a parameter: \<open>neg\<close> or not, it holds of no derived relationship.\<close>

definition on_parameter :: "string \<Rightarrow> comparator \<Rightarrow> string \<Rightarrow> bool \<Rightarrow> attribute_condition" where
  "on_parameter a cmp n neg =
     \<lparr>cond_attribute = a, cond_comparator = cmp,
      cond_value = default_ref\<lparr>ref_kind := ParameterRef, ref_parameter := Some n\<rparr>, cond_negate = neg\<rparr>"

lemma parameter_on_derived:
  "a \<in> DERIVED_PATHS \<Longrightarrow> accepted (validate_connection_selection regs erg p (derived_selection (only (on_parameter a cmp n neg)))) \<and>
     derived_matches r (Some (only (on_parameter a cmp n neg))) = Ok False"
  by (auto simp: validate_connection_selection_def derived_selection_def only_def on_parameter_def default_ref_def
    derived_matches_def DERIVED_PATHS_def derived_field_def)

text \<open>
  Conditions on derived relationships are not validated for the evaluator that reads them. A pattern on the type is
  accepted, and raises an assertion on the first relationship derived; \<^verbatim>\<open>not_in\<close> is accepted, and holds
  of no relationship whatever its type; a comparison with a parameter, supplied or not, negated or not, is
  accepted and holds of none; the certainty and the length of a derived relationship, which the
  evaluator reads and a connection selection accepts, are refused as unknown attributes at an incident condition.
\<close>

theorem derived_conditions_are_validated_as_modelled_ones:
  assumes "set ts \<subseteq> known_connection_types regs"
    and "a \<in> {''certainty'', ''hops''}" and "connection_attribute_types regs a = None"
  shows "accepted (validate_entity_node lib regs erg at_root p (derived_incident (only (on_connection ''type'' CmpLike (VStr s) neg)))) \<and>
    derived_matches r (Some (only (on_connection ''type'' CmpLike (VStr s) neg))) = Err UnorderedComparator \<and>
    accepted (validate_entity_node lib regs erg at_root p (derived_incident (only (on_connection ''type'' CmpNotIn (VList (map VStr ts)) neg)))) \<and>
    derived_matches r (Some (only (on_connection ''type'' CmpNotIn (VList (map VStr ts)) neg))) = Ok neg \<and>
    accepted (validate_connection_selection regs erg p (derived_selection (only (on_parameter a cmp n neg)))) \<and>
    derived_matches r (Some (only (on_parameter a cmp n neg))) = Ok False \<and>
    accepted (validate_connection_selection regs erg p (derived_selection (only (on_connection a cmp v neg)))) \<and>
    \<not> accepted (validate_entity_node lib regs erg at_root p (derived_incident (only (on_connection a cmp v neg))))"
proof (intro conjI)
  have path: "a \<in> DERIVED_PATHS" using assms(2) by (auto simp: DERIVED_PATHS_def)
  show "accepted (validate_connection_selection regs erg p (derived_selection (only (on_connection a cmp v neg))))"
    by (rule derived_path_selected) (rule path)
  show "accepted (validate_connection_selection regs erg p (derived_selection (only (on_parameter a cmp n neg))))"
    "derived_matches r (Some (only (on_parameter a cmp n neg))) = Ok False"
    using parameter_on_derived [OF path] by blast+
qed (use assms in \<open>simp_all add: pattern_on_derived_accepted pattern_on_derived_raises not_in_on_derived_accepted
  not_in_on_derived_never_holds derived_path_refused STRING_PATTERN_OPERATORS_def\<close>)

theorem derived_conditions_are_validated_as_modelled_ones_witness:
  "\<forall>r. derived_matches r (Some (only (on_connection ''type'' CmpNotIn (VList [VStr ''flow'']) False))) = Ok False"
  using derived_conditions_are_validated_as_modelled_ones [of "[''flow'']" sample_registries "''hops''"]
  by (simp add: sample_registries_def)

section \<open>Saving\<close>

definition declared_attribute :: "definition_facts \<Rightarrow> criteria_context \<Rightarrow> string \<Rightarrow> string option" where
  "declared_attribute f ctx a = (case ctx of EntityContext \<Rightarrow> fact_entity_attributes f a | ConnectionContext \<Rightarrow> fact_connection_attributes f a)"

definition by_rank :: "definition_facts \<Rightarrow> criteria_context \<Rightarrow> attribute_condition \<Rightarrow> bool" where
  "by_rank f ctx c \<longleftrightarrow>
     cond_comparator c \<in> NUMERIC_OPERATORS \<and> path_head (cond_attribute c) \<notin> reserved_paths ctx \<and>
     declared_attribute f ctx (cond_attribute c) = Some ORDINAL_KIND"

definition on_derived_value :: "definition_facts \<Rightarrow> criteria_context \<Rightarrow> attribute_condition \<Rightarrow> bool" where
  "on_derived_value f ctx c \<longleftrightarrow>
     path_head (cond_attribute c) = ''derived'' \<and> declared_attribute f ctx (cond_attribute c) = None"

lemma definition_resolves:
  "resolve_attribute_path ctx (definition_registries f) a =
     (if path_head a \<in> reserved_paths ctx then Some Reserved else map_option Declared (declared_attribute f ctx a))"
  by (simp add: resolve_attribute_path_def definition_registries_def declared_attribute_def split: criteria_context.split)

lemma no_scale_at_saving: "attribute_ordinal_scale ctx (definition_registries f) a = None"
  by (simp add: attribute_ordinal_scale_def definition_registries_def split: criteria_context.split)

lemma rank_refused: "by_rank f ctx c \<Longrightarrow> \<not> condition_accepted (definition_registries f) ctx c"
  by (auto simp: by_rank_def condition_accepted_def validate_condition_def definition_resolves Let_def
    validate_ordinal_comparison_def no_scale_at_saving)

lemma derived_refused: "on_derived_value f ctx c \<Longrightarrow> \<not> condition_accepted (definition_registries f) ctx c"
  by (cases ctx) (auto simp: on_derived_value_def condition_accepted_def validate_condition_def definition_resolves Let_def
    reserved_paths_def RESERVED_ENTITY_PATHS_def RESERVED_CONNECTION_PATHS_def)

text \<open>
  What can be evaluated cannot always be saved. The registries that a definition is validated against carry no value
  lists, so every tree that orders a ranked attribute is refused; and a tree with a condition on a derived
  attribute of its own query is refused, because the path resolves against the schema alone.
\<close>

theorem ranked_and_derived_conditions_cannot_be_saved:
  assumes "(ctx, c) \<in> tree_conditions (EntitySubgroup g)" and "by_rank f ctx c \<or> on_derived_value f ctx c"
  shows "\<not> accepted (validate_entity_criteria lib (definition_registries f) erg p g)"
  using accepted_tree_conditions [of lib "definition_registries f" erg True p "EntitySubgroup g" ctx c] assms
    rank_refused derived_refused
  by (auto simp: validate_entity_criteria_def)

definition sample_facts :: definition_facts where
  "sample_facts =
     \<lparr>fact_entity_types = {''node''}, fact_connection_types = {''flow''}, fact_specialization_slugs = {},
      fact_entity_attributes = (\<lambda>a. if a = ''likelihood'' then Some ORDINAL_KIND else None),
      fact_connection_attributes = (\<lambda>_. None), fact_symmetric_types = {}, fact_depth_cap = 4\<rparr>"

theorem ranked_and_derived_conditions_cannot_be_saved_witness:
  "accepted (validate_entity_criteria plain_lib (qc_registries sample_query) True ''/query'' ranked_group) \<and>
   \<not> accepted (validate_entity_criteria plain_lib (definition_registries sample_facts) True ''/query'' ranked_group)"
proof
  show "\<not> accepted (validate_entity_criteria plain_lib (definition_registries sample_facts) True ''/query'' ranked_group)"
    by (rule ranked_and_derived_conditions_cannot_be_saved [where c = "at_least ''likelihood'' ''low''" and ctx = EntityContext])
      (simp_all add: ranked_group_def by_rank_def at_least_def sample_facts_def declared_attribute_def NUMERIC_OPERATORS_def
        path_head_def reserved_paths_def RESERVED_ENTITY_PATHS_def)
qed (rule ranked_group_accepted)

section \<open>References that are read differently\<close>

text \<open>
  Four places where the parts of a query make different things of one reference: an unsupplied parameter, a
  ranked attribute, a projected connection, and the attributes of a connection's metadata.
\<close>

subsection \<open>Unsupplied parameters\<close>

definition on_parameter_of :: "string \<Rightarrow> comparator \<Rightarrow> string \<Rightarrow> entity_group" where
  "on_parameter_of a cmp n =
     CriteriaGroup ConjAnd
       [EntityCondition \<lparr>cond_attribute = a, cond_comparator = cmp,
          cond_value = default_ref\<lparr>ref_kind := ParameterRef, ref_parameter := Some n\<rparr>, cond_negate = False\<rparr>] False"

text \<open>Optional, without a default, and not supplied.\<close>

definition unsupplied :: "query_parameter list \<Rightarrow> mapping \<Rightarrow> string \<Rightarrow> bool" where
  "unsupplied ps supplied n \<longleftrightarrow>
     n \<in> qp_name ` set ps \<and> map_of supplied n = None \<and>
     (\<forall>p \<in> set ps. qp_name p = n \<longrightarrow> \<not> qp_required p \<and> qp_default p = VNone)"

lemma unsupplied_inactive: "unsupplied ps supplied n \<Longrightarrow> n \<in> inactive_parameter_names ps supplied"
  by (auto simp: unsupplied_def inactive_parameter_names_def)

lemma declared_parameters_sub: "set (declared_parameters ps) \<subseteq> set ps"
proof
  fix p assume "p \<in> set (declared_parameters ps)"
  then obtain n where "List.find (\<lambda>q. qp_name q = n) (rev ps) = Some p"
    by (auto simp: declared_parameters_def List.map_filter_def)
  then obtain i where "i < length (rev ps)" "rev ps ! i = p" by (auto simp: find_Some_iff)
  then have "p \<in> set (rev ps)" by (metis nth_mem)
  then show "p \<in> set ps" by simp
qed

lemma bind_one_name: "bind_one lib known supplied p = Ok (Some (n, v)) \<Longrightarrow> n = qp_name p"
  by (auto simp: bind_one_def reject_def bind_result_eq_Inr split: option.splits if_splits val.splits)

lemma traverse_member:
  assumes "traverse f xs = Ok ys" and "y \<in> set ys"
  shows "\<exists>x \<in> set xs. f x = Ok y"
proof -
  from assms(1) have all: "list_all2 (\<lambda>x y. f x = Ok y) xs ys" by (simp add: traverse_eq_Inr)
  from assms(2) obtain i where "i < length ys" "y = ys ! i" by (auto simp: in_set_conv_nth)
  with all have "xs ! i \<in> set xs" "f (xs ! i) = Ok y" by (simp_all add: list_all2_conv_all_nth)
  then show ?thesis by blast
qed

lemma unsupplied_unbound:
  assumes "bind_parameters lib known ps supplied = Ok resolved" and "unsupplied ps supplied n"
  shows "map_of resolved n = None"
proof (rule ccontr)
  assume "map_of resolved n \<noteq> None"
  then obtain v where "(n, v) \<in> set resolved" by (auto dest: map_of_SomeD)
  with assms(1) obtain rs where rs: "traverse (bind_one lib known supplied) (declared_parameters ps) = Ok rs" "Some (n, v) \<in> set rs"
    by (auto simp: bind_parameters_def reject_def bind_result_eq_Inr List.map_filter_def split: option.splits)
  from traverse_member [OF this] obtain p where p: "p \<in> set (declared_parameters ps)" "bind_one lib known supplied p = Ok (Some (n, v))"
    by blast
  then have "p \<in> set ps" "qp_name p = n" using declared_parameters_sub bind_one_name by blast+
  with p(2) assms(2) show False by (auto simp: unsupplied_def bind_one_def)
qed

lemma unbound_reference_fails:
  assumes unbound: "env_parameters env n = None" and "env_inactive env = {}" and cmp: "cmp \<notin> {CmpExists, CmpAbsent}"
  shows "matched (evaluate_entity_criteria qc env (on_parameter_of a cmp n) e) = Ok False"
proof -
  let ?c = "\<lparr>cond_attribute = a, cond_comparator = cmp,
      cond_value = default_ref\<lparr>ref_kind := ParameterRef, ref_parameter := Some n\<rparr>, cond_negate = False\<rparr>"
  have "resolve_value qc EntityContext env (EntityItem e) (cond_value ?c) = Ok unresolved"
    by (simp add: resolve_value_def default_ref_def text_or_empty_def unbound)
  then have present: "\<exists>d. match_present qc EntityContext env (EntityItem e) ?c v = Ok (False, d)" for v
    unfolding match_present_def by (simp add: unresolved_def Let_def)
  have compared: "\<exists>d. (case (cmp, actual) of
        (CmpExists, _) \<Rightarrow> Ok (actual \<noteq> None, {})
      | (CmpAbsent, _) \<Rightarrow> Ok (actual = None, {})
      | (_, None) \<Rightarrow> Ok (False, {})
      | (_, Some v) \<Rightarrow> match_present qc EntityContext env (EntityItem e) ?c v) = Ok (False, d)" for actual
    using present cmp by (cases actual; cases cmp) auto
  have active: "\<not> is_inactive env ?c" by (simp add: is_inactive_def assms(2) default_ref_def)
  have read: "\<exists>v. read_attribute_value EntityContext (Some env) (EntityItem e) a = Ok v"
    using reading_in_context [of EntityContext "EntityItem e" "Some env" a]
    by (cases "read_attribute_value EntityContext (Some env) (EntityItem e) a") simp_all
  have "\<exists>d. evaluate_attribute_condition qc EntityContext env (EntityItem e) ?c = Ok (plain_outcome False d)"
  proof (cases "derived_path (EntityItem e) a \<or> resolve_attribute_path EntityContext (qc_registries qc) a \<noteq> None")
    case True
    from read obtain v where v: "read_attribute_value EntityContext (Some env) (EntityItem e) a = Ok v" ..
    with True active compared [of v] show ?thesis by (auto simp: evaluate_attribute_condition_def Let_def)
  next
    case False
    with active compared [of None] show ?thesis by (auto simp: evaluate_attribute_condition_def Let_def)
  qed
  then show ?thesis
    by (auto simp: matched_def evaluate_entity_criteria_def on_parameter_of_def combine_def plain_outcome_def)
qed

lemma lift_error_Ok: "lift_error f r = Ok x \<longleftrightarrow> r = Ok x"
  by (cases r) (simp_all add: lift_error_def)

lemma nothing_selected:
  assumes "\<And>r. test r = Ok False"
  shows "select_by read test ids = Ok []"
proof -
  have "traverse (\<lambda>i. case read i of None \<Rightarrow> Ok None | Some r \<Rightarrow> bind_result (test r) (\<lambda>m. Ok (if m then Some r else None))) js =
      Ok (map (\<lambda>_. None) js)" for js
    by (induction js) (auto simp: assms split: option.splits)
  then show ?thesis by (simp add: select_by_def List.map_filter_def)
qed

text \<open>
  A binding does not know which parameters are left out. With an optional parameter left out, the primary criteria treat
  a condition on it as not written and every entity passes; the same condition in a binding of the same query
  fails on every entity and the binding comes out empty.
\<close>

theorem bindings_ignore_that_a_filter_is_unsupplied:
  assumes prepared: "prepare_query_environment qc capability entity_ids connection_ids q supplied = Ok pe"
    and out: "unsupplied (eq_parameters q) supplied n" and cmp: "cmp \<notin> {CmpExists, CmpAbsent}"
    and b: "eq_bindings q = [b]" "qb_select b = Some SelectsEntities" "qb_criteria b = Some (EntityTree (on_parameter_of a cmp n))"
      "qb_result_type b = EntitySetType slugs" "qb_project b = None" "qb_aggregate b = None" "qb_tuple_of b = []"
  shows "env_bindings (pe_environment pe) (qb_name b) = Some (BTuple []) \<and>
    (\<forall>e. evaluate_entity_criteria qc (pe_environment pe) (on_parameter_of a cmp n) e = Ok inactive_outcome)"
proof -
  from prepared obtain resolved env env' where
    resolved: "bind_parameters (qc_lib qc) (\<lambda>i. read_entity (qc_access qc) i \<noteq> None) (eq_parameters q) supplied = Ok resolved"
    and env: "evaluate_bindings qc (map_of resolved) \<lparr>bi_entities = sort entity_ids, bi_connections = sort connection_ids\<rparr> [b] = Ok env"
    and env': "evaluate_derived_attributes qc env (sort entity_ids) (eager_graph (partition_derived_attributes q)) = Ok env'"
    and pe: "env_bindings (pe_environment pe) =
        env_bindings (fst (fetch_and_merge_signal_attributes capability (eager_signal (partition_derived_attributes q)) (sort entity_ids) env'))"
      "env_inactive (pe_environment pe) = inactive_parameter_names (eq_parameters q) supplied"
    by (auto simp: prepare_query_environment_def lift_error_Ok bind_result_eq_Inr Let_def b(1) split_beta)
  have "select_by (read_entity (qc_access qc)) (\<lambda>e. matched (evaluate_entity_criteria qc (bare_environment (\<lambda>_. None) (map_of resolved)) (on_parameter_of a cmp n) e)) ids = Ok []" for ids
    using unsupplied_unbound [OF resolved out] cmp
    by (intro nothing_selected unbound_reference_fails) (simp_all add: bare_environment_def)
  with env have "env_bindings env (qb_name b) = Some (BTuple [])"
    by (simp add: evaluate_bindings_def select_records_def b materialize_binding_def shaped_def lift_error_def Let_def) (auto simp: bare_environment_def)
  moreover have "env_bindings env' = env_bindings env"
    using env' by (auto simp: evaluate_derived_attributes_def Let_def bind_result_eq_Inr)
  ultimately have binding: "env_bindings (pe_environment pe) (qb_name b) = Some (BTuple [])"
    by (simp add: pe fetch_and_merge_signal_attributes_def split: option.split)
  have "evaluate_entity_criteria qc (pe_environment pe) (on_parameter_of a cmp n) e = Ok inactive_outcome" for e
    using unsupplied_inactive [OF out]
    by (simp add: evaluate_entity_criteria_def on_parameter_of_def evaluate_attribute_condition_def is_inactive_def pe(2)
      default_ref_def combine_def inactive_outcome_def)
  with binding show ?thesis by blast
qed

subsection \<open>Ranked attributes\<close>

lemma project_two:
  assumes "read_attribute_value EntityContext (Some env) (EntityItem e) a = Ok (Some v)"
    and "read_attribute_value EntityContext (Some env) (EntityItem e') a = Ok (Some w)"
  shows "project_binding EntityContext env (BTuple [BEntity e, BEntity e']) a = Ok (BTuple [BVal v, BVal w])"
  by (simp add: project_binding_def as_items_def tuple_items_def List.map_filter_def assms)

lemma greatest_of_two:
  "aggregate_bound lib AggMax None (BTuple [BVal (VStr s), BVal (VStr t)]) = Ok (BVal (VStr (max s t)))"
  "position s scale = Some i \<Longrightarrow> position t scale = Some j \<Longrightarrow> i < j \<Longrightarrow>
     aggregate_bound lib AggMax (Some scale) (BTuple [BVal (VStr s), BVal (VStr t)]) = Ok (BVal (VStr t))"
  by (auto simp: aggregate_bound_def as_items_def tuple_items_def reduce_present_def lift_error_def max_def
    ordinal_extreme_def List.map_filter_def ordinal_rank_def)

text \<open>
  A binding reduces a ranked attribute by spelling. Two entities carry ranks in the order of the scale whose names stand
  in the opposite alphabetical order. Reducing them to their maximum is well typed in both places; the binding
  gives the lower rank, the reference to the unreduced binding the higher one.
\<close>

theorem bindings_reduce_ranked_attributes_by_spelling:
  assumes scale: "attribute_ordinal_scale EntityContext (qc_registries qc) a = Some scale"
    and ranks: "position s scale = Some i" "position t scale = Some j" "i < j" and spelling: "t < s"
    and readings: "read_attribute_value EntityContext (Some env) (EntityItem e) a = Ok (Some (VStr s))"
      "read_attribute_value EntityContext (Some env) (EntityItem e') a = Ok (Some (VStr t))"
    and b: "qb_select b = Some SelectsEntities" "qb_result_type b = ScalarType KOrdinal" "qb_tuple_of b = []"
      "qb_project b = Some a" "qb_aggregate b = Some AggMax"
    and r: "ref_binding r = Some n" "ref_project r = Some a" "ref_aggregate r = Some AggMax"
      "env_bindings env n = Some (BTuple [BEntity e, BEntity e'])"
  shows "aggregate_type (ListType (ScalarType KOrdinal)) AggMax = Ok (ScalarType KOrdinal) \<and>
    materialize_binding qc env b [BEntity e, BEntity e'] = Ok (BVal (VStr s)) \<and>
    resolve_binding qc EntityContext env r = Ok (BVal (VStr t), {}, True)"
  using ranks max.absorb3 [OF spelling]
  by (simp add: aggregate_type_def materialize_binding_def shaped_def b project_two [OF readings] lift_error_def
    resolve_binding_def r text_or_empty_def scale greatest_of_two(2) [OF ranks] greatest_of_two(1))

subsection \<open>Projected connections\<close>

text \<open>
  A projection is checked in the context of its binding and evaluated in that of its condition. Projecting the type, the
  id or the specializations out of a binding of connections has a type, and raises an assertion when a
  condition on entities compares with it.
\<close>

theorem projecting_connections_raises_on_entities:
  assumes "p \<in> RESERVED_CONNECTION_PATHS" and "ref_binding r = Some n" and "ref_project r = Some p"
    and "env_bindings env n = Some (BTuple (BConnection c # bs))"
  shows "infer_binding_type regs [] (GivenType (ConnectionSetType slugs)) (Some p) None = Ok (ListType (ScalarType KString)) \<and>
    resolve_binding qc EntityContext env r = Err WrongRecordKind"
proof
  have head: "path_head p = p" "p \<noteq> ''derived''" and reserved: "p \<in> RESERVED_ENTITY_PATHS"
    using assms(1) by (auto simp: RESERVED_CONNECTION_PATHS_def RESERVED_ENTITY_PATHS_def path_head_def)
  show "infer_binding_type regs [] (GivenType (ConnectionSetType slugs)) (Some p) None = Ok (ListType (ScalarType KString))"
    using assms(1) head
    by (simp add: infer_binding_type_def project_type_def projected_context_def resolve_attribute_path_def reserved_paths_def)
  have "read_attribute_value EntityContext (Some env) (ConnectionItem c) p = Err WrongRecordKind"
    using head reserved by (simp add: read_attribute_value_def reserved_paths_def Let_def)
  then show "resolve_binding qc EntityContext env r = Err WrongRecordKind"
    by (simp add: resolve_binding_def assms(2-4) text_or_empty_def project_binding_def as_items_def tuple_items_def List.map_filter_def)
qed

subsection \<open>Connection metadata\<close>

lemma metadata_unread:
  "read_attribute_value ctx env (ConnectionItem (c\<lparr>mc_attributes := as\<rparr>)) a = read_attribute_value ctx env (ConnectionItem c) a"
  by (cases ctx) (simp_all add: read_attribute_value_def reserved_connection_field_def Let_def)

lemma metadata_condition_unread:
  "evaluate_attribute_condition qc ctx env (ConnectionItem (c\<lparr>mc_attributes := as\<rparr>)) cond =
   evaluate_attribute_condition qc ctx env (ConnectionItem c) cond"
proof -
  have "resolve_attribute_ref ctx (qc_registries qc) (ConnectionItem (c\<lparr>mc_attributes := as\<rparr>)) x =
      resolve_attribute_ref ctx (qc_registries qc) (ConnectionItem c) x" for x
    unfolding resolve_attribute_ref_def metadata_unread ..
  then have "resolve_value qc ctx env (ConnectionItem (c\<lparr>mc_attributes := as\<rparr>)) r = resolve_value qc ctx env (ConnectionItem c) r" for r
    by (cases "ref_kind r") (simp_all add: resolve_value_def split: option.split)
  then have "match_present qc ctx env (ConnectionItem (c\<lparr>mc_attributes := as\<rparr>)) cond = match_present qc ctx env (ConnectionItem c) cond"
    by (intro ext) (simp only: match_present_def derived_path_def item.distinct simp_thms)
  moreover have "derived_path (ConnectionItem (c\<lparr>mc_attributes := as\<rparr>)) a = derived_path (ConnectionItem c) a" for a
    by (simp add: derived_path_def)
  ultimately show ?thesis unfolding evaluate_attribute_condition_def metadata_unread by (simp only:)
qed

lemma metadata_node_unread:
  "eval_connection_node qc env (c\<lparr>mc_attributes := as\<rparr>) n = eval_connection_node qc env c n"
proof (induction n rule: connection_conditions.induct)
  case (2 cj ns neg)
  then have "traverse (eval_connection_node qc env (c\<lparr>mc_attributes := as\<rparr>)) ns = traverse (eval_connection_node qc env c) ns"
    by (intro traverse_cong) simp_all
  then show ?case by simp
qed (simp add: metadata_condition_unread)

text \<open>
  Connection metadata cannot be queried. Whatever typed attributes the metadata block of a connection carries, connection
  criteria give the same result; a condition that such an attribute exists fails although the schema of the
  metadata declares the attribute, unless the front matter of the file has an entry of that name.
\<close>

theorem connection_metadata_cannot_be_queried:
  assumes "path_head a \<notin> insert ''derived'' RESERVED_CONNECTION_PATHS"
    and "connection_attribute_types (qc_registries qc) a = Some t" and "map_of (mc_extra c) (path_head a) = None"
  shows "evaluate_connection_criteria qc env (c\<lparr>mc_attributes := as\<rparr>) g = evaluate_connection_criteria qc env c g \<and>
    evaluate_attribute_condition qc ConnectionContext env (ConnectionItem (c\<lparr>mc_attributes := (path_head a, v) # as\<rparr>))
      \<lparr>cond_attribute = a, cond_comparator = CmpExists, cond_value = default_ref, cond_negate = False\<rparr> = Ok (plain_outcome False {})"
proof
  show "evaluate_attribute_condition qc ConnectionContext env (ConnectionItem (c\<lparr>mc_attributes := (path_head a, v) # as\<rparr>))
      \<lparr>cond_attribute = a, cond_comparator = CmpExists, cond_value = default_ref, cond_negate = False\<rparr> = Ok (plain_outcome False {})"
    using assms
    by (simp add: evaluate_attribute_condition_def is_inactive_def default_ref_def derived_path_def resolve_attribute_path_def
      reserved_paths_def read_attribute_value_def read_field_def Let_def)
qed (simp add: evaluate_connection_criteria_def metadata_node_unread)

subsection \<open>Concrete cases\<close>

definition filtered_query :: executable_query where
  "filtered_query =
     \<lparr>eq_criteria = on_parameter_of ''group'' CmpEq ''team'', eq_inclusions = [],
      eq_connections = \<lparr>sel_enabled = True, sel_criteria = empty_group, sel_traversal = TDirect, sel_potential = False, sel_hops = None\<rparr>,
      eq_bindings = [\<lparr>qb_name = ''b'', qb_result_type = EntitySetType {||}, qb_select = Some SelectsEntities,
        qb_criteria = Some (EntityTree (on_parameter_of ''group'' CmpEq ''team'')), qb_project = None, qb_aggregate = None,
        qb_tuple_of = [], qb_include = True\<rparr>],
      eq_parameters = [\<lparr>qp_name = ''team'', qp_type = OfKind KString, qp_required = False, qp_default = VNone,
        qp_set_valued = False, qp_allowed = [], qp_min_items = 0\<rparr>],
      eq_derived = []\<rparr>"

lemma filtered_query_prepares: "\<exists>pe. prepare_query_environment store_query None [''e''] [] filtered_query [] = Ok pe"
  by (simp add: prepare_query_environment_def filtered_query_def bind_parameters_def declared_parameters_def first_seen_def
    List.map_filter_def bind_one_def lift_error_def evaluate_bindings_def select_records_def select_by_def store_query_def
    sample_query_def sample_record_def sample_registries_def on_parameter_of_def evaluate_entity_criteria_def
    evaluate_attribute_condition_def is_inactive_def bare_environment_def default_ref_def derived_path_def
    resolve_attribute_path_def path_head_def reserved_paths_def RESERVED_ENTITY_PATHS_def read_attribute_value_def
    reserved_entity_field_def match_present_def resolve_value_def text_or_empty_def unresolved_def matched_def combine_def
    materialize_binding_def shaped_def partition_derived_attributes_def evaluate_derived_attributes_def
    fetch_and_merge_signal_attributes_def plain_outcome_def Let_def)

theorem bindings_ignore_that_a_filter_is_unsupplied_witness:
  "\<exists>pe. prepare_query_environment store_query None [''e''] [] filtered_query [] = Ok pe \<and>
     env_bindings (pe_environment pe) ''b'' = Some (BTuple []) \<and>
     evaluate_entity_criteria store_query (pe_environment pe) (eq_criteria filtered_query) sample_record = Ok inactive_outcome"
proof -
  from filtered_query_prepares obtain pe where pe: "prepare_query_environment store_query None [''e''] [] filtered_query [] = Ok pe" ..
  from bindings_ignore_that_a_filter_is_unsupplied [OF pe, of "''team''" CmpEq "hd (eq_bindings filtered_query)" "''group''" "{||}"] pe
  show ?thesis by (auto simp: filtered_query_def unsupplied_def)
qed

definition ranked :: "string \<Rightarrow> model_entity" where
  "ranked s = sample_record\<lparr>me_attributes := [(''likelihood'', VStr s)]\<rparr>"

definition ranked_registries :: registry_snapshot where
  "ranked_registries = sample_registries\<lparr>entity_attribute_enums := (\<lambda>_. Some [''rare'', ''often''])\<rparr>"

theorem bindings_reduce_ranked_attributes_by_spelling_witness:
  "materialize_binding (sample_query\<lparr>qc_registries := ranked_registries\<rparr>) (sample_environment\<lparr>env_bindings := (\<lambda>_. Some (BTuple [BEntity (ranked ''rare''), BEntity (ranked ''often'')]))\<rparr>)
     \<lparr>qb_name = ''b'', qb_result_type = ScalarType KOrdinal, qb_select = Some SelectsEntities, qb_criteria = None,
      qb_project = Some ''likelihood'', qb_aggregate = Some AggMax, qb_tuple_of = [], qb_include = False\<rparr>
     [BEntity (ranked ''rare''), BEntity (ranked ''often'')] = Ok (BVal (VStr ''rare''))"
  using bindings_reduce_ranked_attributes_by_spelling
    [of "sample_query\<lparr>qc_registries := ranked_registries\<rparr>" "''likelihood''" "[''rare'', ''often'']" "''rare''" 0 "''often''" 1
      "sample_environment\<lparr>env_bindings := (\<lambda>_. Some (BTuple [BEntity (ranked ''rare''), BEntity (ranked ''often'')]))\<rparr>"
      "ranked ''rare''" "ranked ''often''"
      "\<lparr>qb_name = ''b'', qb_result_type = ScalarType KOrdinal, qb_select = Some SelectsEntities, qb_criteria = None,
      qb_project = Some ''likelihood'', qb_aggregate = Some AggMax, qb_tuple_of = [], qb_include = False\<rparr>"
      "default_ref\<lparr>ref_kind := BindingRef, ref_binding := Some ''b'', ref_project := Some ''likelihood'', ref_aggregate := Some AggMax\<rparr>" "''b''"]
  by (simp add: ranked_registries_def sample_registries_def ranked_def sample_record_def sample_environment_def default_ref_def
    attribute_ordinal_scale_def resolve_attribute_path_def path_head_def path_rest_def path_parts_def reserved_paths_def
    RESERVED_ENTITY_PATHS_def read_attribute_value_def read_field_def Let_def)

definition sample_connection :: model_connection where
  "sample_connection =
     \<lparr>conn_id = ''c'', conn_source = ''e'', conn_target = ''e'', conn_type = ''flow'', mc_specializations = [], mc_attributes = [], mc_extra = []\<rparr>"

theorem projecting_connections_raises_on_entities_witness:
  "resolve_binding sample_query EntityContext (sample_environment\<lparr>env_bindings := (\<lambda>_. Some (BTuple [BConnection sample_connection]))\<rparr>)
     (default_ref\<lparr>ref_kind := BindingRef, ref_binding := Some ''b'', ref_project := Some ''type''\<rparr>) = Err WrongRecordKind"
  using projecting_connections_raises_on_entities
    [of "''type''" "default_ref\<lparr>ref_kind := BindingRef, ref_binding := Some ''b'', ref_project := Some ''type''\<rparr>" "''b''"
      "sample_environment\<lparr>env_bindings := (\<lambda>_. Some (BTuple [BConnection sample_connection]))\<rparr>" sample_connection "[]"]
  by (simp add: RESERVED_CONNECTION_PATHS_def default_ref_def)

theorem connection_metadata_cannot_be_queried_witness:
  "evaluate_attribute_condition
     (sample_query\<lparr>qc_registries := sample_registries\<lparr>connection_attribute_types := (\<lambda>_. Some ''string'')\<rparr>\<rparr>) ConnectionContext
     sample_environment (ConnectionItem (sample_connection\<lparr>mc_attributes := [(''protocol'', VStr ''mqtt'')]\<rparr>))
     \<lparr>cond_attribute = ''protocol'', cond_comparator = CmpExists, cond_value = default_ref, cond_negate = False\<rparr> = Ok (plain_outcome False {})"
  using connection_metadata_cannot_be_queried
    [of "''protocol''" "sample_query\<lparr>qc_registries := sample_registries\<lparr>connection_attribute_types := (\<lambda>_. Some ''string'')\<rparr>\<rparr>" "''string''"
      sample_connection sample_environment "[]" empty_group "VStr ''mqtt''"]
  by (simp add: path_head_def RESERVED_CONNECTION_PATHS_def sample_connection_def)

end
