(* ===== verification/Query_Population.thy ===== *)
theory Query_Population
  imports Query_Bindings
begin

text \<open>
  From matched entities to a displayed population (\<^verbatim>\<open>viewpoint_population_evaluation.py\<close>,
  \<^verbatim>\<open>viewpoint_anchor_distance.py\<close>, \<^verbatim>\<open>viewpoint_aggregation.py\<close>): neighbours taken in, connections shown in a graph
  or a matrix, distances from the anchors, and the overview of a population that is too large.
\<close>

section \<open>Neighbour inclusions\<close>

text \<open>A loop that may raise, over a list; the state so far is lost with the exception.\<close>

fun fold_result :: "('a \<Rightarrow> 's \<Rightarrow> ('e, 's) result) \<Rightarrow> 'a list \<Rightarrow> 's \<Rightarrow> ('e, 's) result" where
  "fold_result f [] s = Ok s"
| "fold_result f (x # xs) s = bind_result (f x s) (fold_result f xs)"

record inclusion_state =
  expanded :: "string set"
  inclusion_drift :: "string set"
  inclusion_truncated :: bool

definition endpoint_outcome ::
    "query_context \<Rightarrow> evaluation_environment \<Rightarrow> entity_group option \<Rightarrow> model_entity \<Rightarrow> (query_error, bool \<times> string set) result" where
  "endpoint_outcome qc env g e =
     (case g of None \<Rightarrow> Ok (True, {})
      | Some g \<Rightarrow> bind_result (evaluate_entity_criteria qc env g e) (\<lambda>x. Ok (out_matched x, out_drift x)))"

definition widen ::
    "query_context \<Rightarrow> evaluation_environment \<Rightarrow> neighbor_inclusion \<Rightarrow> string \<Rightarrow> inclusion_state \<Rightarrow> (query_error, inclusion_state) result" where
  "widen qc env i neighbor_id s =
     (case read_entity (qc_access qc) neighbor_id of
        None \<Rightarrow> Ok s
      | Some e \<Rightarrow> bind_result (endpoint_outcome qc env (incl_neighbor i) e)
          (\<lambda>(m, drift). let s' = s\<lparr>inclusion_drift := inclusion_drift s \<union> drift\<rparr> in
             Ok (if m then s'\<lparr>expanded := insert neighbor_id (expanded s')\<rparr> else s')))"

definition include_neighbor ::
    "query_context \<Rightarrow> evaluation_environment \<Rightarrow> string set \<Rightarrow> neighbor_inclusion \<Rightarrow> string \<Rightarrow> model_connection \<Rightarrow> inclusion_state
      \<Rightarrow> (query_error, inclusion_state) result" where
  "include_neighbor qc env primary i anchor c s =
     bind_result (connection_passes qc env (incl_connection i) c)
       (\<lambda>(m, drift). let s' = s\<lparr>inclusion_drift := inclusion_drift s \<union> drift\<rparr>; neighbor_id = other_end anchor c in
          if \<not> m \<or> \<not> direction_matches (qc_registries qc) c anchor (incl_direction i) then Ok s'
          else if neighbor_id \<in> primary \<or> neighbor_id \<in> expanded s' then Ok s'
          else widen qc env i neighbor_id s')"

definition include_around ::
    "query_context \<Rightarrow> evaluation_environment \<Rightarrow> string set \<Rightarrow> neighbor_inclusion \<Rightarrow> string \<Rightarrow> inclusion_state
      \<Rightarrow> (query_error, inclusion_state) result" where
  "include_around qc env primary i anchor =
     fold_result (include_neighbor qc env primary i anchor) (connections_for (qc_access qc) anchor AnyDirection None)"

definition include_derived_neighbor ::
    "query_context \<Rightarrow> evaluation_environment \<Rightarrow> string set \<Rightarrow> neighbor_inclusion \<Rightarrow> derived_relationship \<Rightarrow> inclusion_state
      \<Rightarrow> (query_error, inclusion_state) result" where
  "include_derived_neighbor qc env primary i r s =
     (let neighbor_id = (if rel_source_id r \<in> primary then rel_target_id r else rel_source_id r) in
      if neighbor_id \<in> primary then Ok s
      else bind_result (derived_matches r (incl_connection i)) (\<lambda>m. if \<not> m then Ok s else widen qc env i neighbor_id s))"

definition no_inclusion :: inclusion_state where
  "no_inclusion = \<lparr>expanded = {}, inclusion_drift = {}, inclusion_truncated = False\<rparr>"

definition resolve_derived_inclusion ::
    "query_context \<Rightarrow> evaluation_environment \<Rightarrow> string list \<Rightarrow> neighbor_inclusion \<Rightarrow> (query_error, inclusion_state) result" where
  "resolve_derived_inclusion qc env primary i =
     (case derivation_catalog (qc_registries qc) of
        None \<Rightarrow> Ok no_inclusion
      | Some cat \<Rightarrow>
          bind_result (derive_for qc cat (query_request (qc_registries qc) primary (incl_direction i) (incl_potential i) (incl_hops i)))
            (\<lambda>ds. bind_result (fold_result (include_derived_neighbor qc env (set primary) i) (relationships ds) no_inclusion)
              (\<lambda>s. Ok (s\<lparr>inclusion_truncated := truncated ds\<rparr>))))"

definition merge_inclusions :: "inclusion_state \<Rightarrow> inclusion_state \<Rightarrow> inclusion_state" where
  "merge_inclusions s t =
     \<lparr>expanded = expanded s \<union> expanded t, inclusion_drift = inclusion_drift s \<union> inclusion_drift t,
      inclusion_truncated = inclusion_truncated s \<or> inclusion_truncated t\<rparr>"

text \<open>The primary ids come in the order the set is traversed in; what is taken in does not anchor anything.\<close>

definition resolve_inclusion ::
    "query_context \<Rightarrow> evaluation_environment \<Rightarrow> string list \<Rightarrow> neighbor_inclusion \<Rightarrow> inclusion_state \<Rightarrow> (query_error, inclusion_state) result" where
  "resolve_inclusion qc env primary i s =
     (if incl_traversal i = TDerived
      then bind_result (resolve_derived_inclusion qc env primary i) (\<lambda>t. Ok (merge_inclusions s t))
      else fold_result (include_around qc env (set primary) i) primary s)"

definition resolve_neighbor_inclusions ::
    "query_context \<Rightarrow> evaluation_environment \<Rightarrow> string list \<Rightarrow> neighbor_inclusion list \<Rightarrow> (query_error, inclusion_state) result" where
  "resolve_neighbor_inclusions qc env primary is = fold_result (resolve_inclusion qc env primary) is no_inclusion"

section \<open>Connections on display\<close>

record connection_selection_result =
  selected_connections :: "model_connection list"
  selected_derived :: "derived_relationship list"
  selection_drift :: "string set"
  selection_truncated :: bool

definition empty_selection_result :: connection_selection_result where
  "empty_selection_result = \<lparr>selected_connections = [], selected_derived = [], selection_drift = {}, selection_truncated = False\<rparr>"

text \<open>Both ends in the population, or one among the rows and the other among the columns.\<close>

definition structural_among :: "string set \<Rightarrow> (string set \<times> string set) option \<Rightarrow> string \<Rightarrow> string \<Rightarrow> bool" where
  "structural_among ids bridging src tgt \<longleftrightarrow>
     (case bridging of
        None \<Rightarrow> src \<in> ids \<and> tgt \<in> ids
      | Some (rows, columns) \<Rightarrow> (src \<in> rows \<and> tgt \<in> columns) \<or> (src \<in> columns \<and> tgt \<in> rows))"

definition select_connection ::
    "query_context \<Rightarrow> evaluation_environment \<Rightarrow> string set \<Rightarrow> (string set \<times> string set) option \<Rightarrow> connection_group
      \<Rightarrow> model_connection \<Rightarrow> (string \<times> model_connection) list \<times> string set
      \<Rightarrow> (query_error, (string \<times> model_connection) list \<times> string set) result" where
  "select_connection qc env ids bridging g c seen_drift =
     (let (seen, drift) = seen_drift in
      if conn_id c \<in> fst ` set seen \<or> \<not> structural_among ids bridging (conn_source c) (conn_target c) then Ok (seen, drift)
      else bind_result (evaluate_connection_criteria qc env c g)
        (\<lambda>x. Ok (if out_matched x then seen @ [(conn_id c, c)] else seen, drift \<union> out_drift x)))"

definition select_derived ::
    "query_context \<Rightarrow> string list \<Rightarrow> (string set \<times> string set) option \<Rightarrow> connection_selection
      \<Rightarrow> (query_error, derived_relationship list \<times> bool) result" where
  "select_derived qc ids bridging s =
     (case derivation_catalog (qc_registries qc) of
        None \<Rightarrow> Ok ([], False)
      | Some cat \<Rightarrow>
          if sel_traversal s = TDirect then Ok ([], False)
          else bind_result (derive_for qc cat (query_request (qc_registries qc) ids Either (sel_potential s) (sel_hops s)))
            (\<lambda>ds. bind_result
               (traverse (\<lambda>r. if structural_among (set ids) bridging (rel_source_id r) (rel_target_id r)
                    then bind_result (derived_matches r (Some (sel_criteria s))) (\<lambda>m. Ok (if m then Some r else None))
                    else Ok None) (relationships ds))
               (\<lambda>rs. Ok (sort_key rel_id (List.map_filter id rs), truncated ds))))"

definition select_among ::
    "query_context \<Rightarrow> evaluation_environment \<Rightarrow> string list \<Rightarrow> (string set \<times> string set) option \<Rightarrow> connection_selection
      \<Rightarrow> (query_error, connection_selection_result) result" where
  "select_among qc env ids bridging s =
     bind_result
       (if sel_traversal s = TDerived then Ok ([], {})
        else fold_result (select_connection qc env (set ids) bridging (sel_criteria s))
          (concat (map (\<lambda>i. connections_for (qc_access qc) i AnyDirection None) ids)) ([], {}))
       (\<lambda>(seen, drift). bind_result (select_derived qc ids bridging s)
          (\<lambda>(derived, cut). Ok \<lparr>selected_connections = sort_key conn_id (map snd seen), selected_derived = derived,
             selection_drift = drift, selection_truncated = cut\<rparr>))"

definition select_connections ::
    "query_context \<Rightarrow> evaluation_environment \<Rightarrow> string list \<Rightarrow> connection_selection \<Rightarrow> (query_error, connection_selection_result) result" where
  "select_connections qc env ids s = (if \<not> sel_enabled s then Ok empty_selection_result else select_among qc env ids None s)"

text \<open>The scanned ids are those of the rows and of the columns, each once.\<close>

definition select_matrix_connections ::
    "query_context \<Rightarrow> evaluation_environment \<Rightarrow> string list \<Rightarrow> string list \<Rightarrow> connection_selection
      \<Rightarrow> (query_error, connection_selection_result) result" where
  "select_matrix_connections qc env rows columns s =
     (if \<not> sel_enabled s then Ok empty_selection_result
      else select_among qc env (first_seen (rows @ columns)) (Some (set rows, set columns)) s)"

section \<open>Distances\<close>

text \<open>An edge of an execution: its ends and, where it is derived, the length of its chain.\<close>

record result_edge =
  edge_source :: string
  edge_target :: string
  edge_hops :: "nat option"

definition edge_length :: "result_edge \<Rightarrow> nat" where
  "edge_length e = (case edge_hops e of None \<Rightarrow> 1 | Some h \<Rightarrow> h)"

definition rank_end :: "string set \<Rightarrow> nat \<Rightarrow> string \<times> string \<Rightarrow> (string \<Rightarrow> nat option) \<Rightarrow> string \<Rightarrow> nat option" where
  "rank_end anchor_ids len ends found =
     (let (endpoint, other) = ends in
      if endpoint \<notin> anchor_ids \<or> other \<in> anchor_ids then found
      else if (case found other of None \<Rightarrow> True | Some d \<Rightarrow> len < d) then found(other \<mapsto> len) else found)"

definition rank_edge :: "string set \<Rightarrow> result_edge \<Rightarrow> (string \<Rightarrow> nat option) \<Rightarrow> string \<Rightarrow> nat option" where
  "rank_edge anchor_ids e found =
     rank_end anchor_ids (edge_length e) (edge_target e, edge_source e)
       (rank_end anchor_ids (edge_length e) (edge_source e, edge_target e) found)"

definition anchor_modeled_distances :: "string set \<Rightarrow> result_edge list \<Rightarrow> string \<Rightarrow> nat option" where
  "anchor_modeled_distances anchor_ids es = fold (rank_edge anchor_ids) es (\<lambda>i. if i \<in> anchor_ids then Some 0 else None)"

section \<open>The overview of a large population\<close>

datatype dimension = ByGroup | ByDomain | ByType

fun dimension_name :: "dimension \<Rightarrow> string" where
  "dimension_name ByGroup = ''group''"
| "dimension_name ByDomain = ''domain''"
| "dimension_name ByType = ''type''"

record aggregate_member =
  member_id :: string
  member_type :: string
  member_group :: string
  member_domain :: string

record aggregate_connection =
  agg_conn_id :: string
  agg_source :: string
  agg_target :: string
  agg_type :: string
  agg_certainty :: "certainty option"

record aggregate_node =
  node_id :: string
  node_dimension :: dimension
  node_value :: string
  node_type :: string
  node_members :: "string list"

record aggregate_edge =
  agg_edge_id :: string
  agg_edge_source :: string
  agg_edge_target :: string
  agg_edge_type :: string
  agg_edge_provenance :: string
  agg_edge_members :: "string list"

definition connection_provenance :: "certainty option \<Rightarrow> string" where
  "connection_provenance c = (case c of None \<Rightarrow> ''modeled'' | Some Certain \<Rightarrow> ''derived-certain'' | Some Potential \<Rightarrow> ''derived-potential'')"

definition dimension_value :: "aggregate_member \<Rightarrow> dimension \<Rightarrow> string" where
  "dimension_value m d = (case d of ByGroup \<Rightarrow> member_group m | ByDomain \<Rightarrow> member_domain m | ByType \<Rightarrow> member_type m)"

definition aggregate_id :: "dimension \<Rightarrow> string \<Rightarrow> string \<Rightarrow> string" where
  "aggregate_id d v t = ''agg:'' @ dimension_name d @ ''='' @ v @ '':'' @ t"

definition bundle_id :: "string \<times> string \<times> string \<times> string \<Rightarrow> string" where
  "bundle_id = (\<lambda>(s, t, ty, p). ''aggedge:'' @ s @ ''->'' @ t @ '':'' @ ty @ '':'' @ p)"

text \<open>The values under their keys, the keys in ascending order and the values of a key in the order met.\<close>

definition grouped :: "('k :: linorder \<times> 'a) list \<Rightarrow> ('k \<times> 'a list) list" where
  "grouped kvs = map (\<lambda>k. (k, map snd (filter (\<lambda>(k', v). k' = k) kvs))) (sort (remdups (map fst kvs)))"

definition node_of_entity :: "dimension \<Rightarrow> aggregate_member list \<Rightarrow> string \<Rightarrow> string option" where
  "node_of_entity d members = map_of (rev (map (\<lambda>m. (member_id m, aggregate_id d (dimension_value m d) (member_type m))) members))"

definition aggregate_nodes :: "dimension \<Rightarrow> aggregate_member list \<Rightarrow> aggregate_node list" where
  "aggregate_nodes d members =
     map (\<lambda>((v, t), ids). \<lparr>node_id = aggregate_id d v t, node_dimension = d, node_value = v, node_type = t, node_members = sort ids\<rparr>)
       (grouped (map (\<lambda>m. ((dimension_value m d, member_type m), member_id m)) members))"

definition bundle_key :: "(string \<Rightarrow> string option) \<Rightarrow> aggregate_connection \<Rightarrow> (string \<times> string \<times> string \<times> string) option" where
  "bundle_key node c =
     (case (node (agg_source c), node (agg_target c)) of
        (Some s, Some t) \<Rightarrow> Some (s, t, agg_type c, connection_provenance (agg_certainty c))
      | _ \<Rightarrow> None)"

definition aggregate_edges :: "(string \<Rightarrow> string option) \<Rightarrow> aggregate_connection list \<Rightarrow> aggregate_edge list" where
  "aggregate_edges node connections =
     map (\<lambda>((s, t, ty, p), ids). \<lparr>agg_edge_id = bundle_id (s, t, ty, p), agg_edge_source = s, agg_edge_target = t,
            agg_edge_type = ty, agg_edge_provenance = p, agg_edge_members = sort ids\<rparr>)
       (grouped (List.map_filter (\<lambda>c. map_option (\<lambda>k. (k, agg_conn_id c)) (bundle_key node c)) connections))"

definition aggregate_population ::
    "dimension \<Rightarrow> aggregate_member list \<Rightarrow> aggregate_connection list \<Rightarrow> aggregate_node list \<times> aggregate_edge list" where
  "aggregate_population d members connections =
     (aggregate_nodes d members, aggregate_edges (node_of_entity d members) connections)"

end
