(* ===== verification/Query_Population_Properties.thy ===== *)
theory Query_Population_Properties
  imports Query_Population Query_Bindings_Properties
begin

text \<open>
  What a displayed population is: exactly the neighbours asked for, the connections inside it, the nearest
  distances, and an overview that loses nobody.
\<close>

section \<open>Inclusions\<close>

lemma fold_result_union:
  assumes step: "\<And>x s s'. x \<in> set xs \<Longrightarrow> f x s = Ok s' \<Longrightarrow> E s' = E s \<union> G x" and run: "fold_result f xs s = Ok s'"
  shows "E s' = E s \<union> (\<Union>x \<in> set xs. G x)"
  using assms
proof (induction xs arbitrary: s)
  case (Cons x xs)
  then obtain t where t: "f x s = Ok t" "fold_result f xs t = Ok s'" by (auto simp: bind_result_eq_Inr)
  have "E s' = E t \<union> (\<Union>x \<in> set xs. G x)"
    using Cons.prems(1) t(2) by (intro Cons.IH) (auto intro: Cons.prems(1))
  moreover have "E t = E s \<union> G x" using Cons.prems(1) t(1) by simp
  ultimately show ?case by auto
qed simp

definition endpoint_admits :: "query_context \<Rightarrow> evaluation_environment \<Rightarrow> neighbor_inclusion \<Rightarrow> string \<Rightarrow> bool" where
  "endpoint_admits qc env i n \<longleftrightarrow>
     (\<exists>e. read_entity (qc_access qc) n = Some e \<and> (\<exists>d. endpoint_outcome qc env (incl_neighbor i) e = Ok (True, d)))"

definition connection_admits :: "query_context \<Rightarrow> evaluation_environment \<Rightarrow> neighbor_inclusion \<Rightarrow> string \<Rightarrow> model_connection \<Rightarrow> bool" where
  "connection_admits qc env i a c \<longleftrightarrow>
     direction_matches (qc_registries qc) c a (incl_direction i) \<and> (\<exists>d. connection_passes qc env (incl_connection i) c = Ok (True, d))"

text \<open>A neighbour an inclusion asks for: the far end of a connection, or of a derived relationship, of a primary entity.\<close>

definition asked_for :: "query_context \<Rightarrow> evaluation_environment \<Rightarrow> string list \<Rightarrow> neighbor_inclusion \<Rightarrow> string \<Rightarrow> bool" where
  "asked_for qc env primary i n \<longleftrightarrow>
     n \<notin> set primary \<and> endpoint_admits qc env i n \<and>
     (if incl_traversal i = TDerived
      then \<exists>cat ds r. derivation_catalog (qc_registries qc) = Some cat \<and>
        derive_for qc cat (query_request (qc_registries qc) primary (incl_direction i) (incl_potential i) (incl_hops i)) = Ok ds \<and>
        r \<in> set (relationships ds) \<and> derived_matches r (incl_connection i) = Ok True \<and>
        n = (if rel_source_id r \<in> set primary then rel_target_id r else rel_source_id r)
      else \<exists>a \<in> set primary. \<exists>c \<in> set (connections_for (qc_access qc) a AnyDirection None).
        connection_admits qc env i a c \<and> n = other_end a c)"

lemma widen_expanded:
  "widen qc env i n s = Ok s' \<Longrightarrow> expanded s' = expanded s \<union> (if endpoint_admits qc env i n then {n} else {})"
proof (cases "read_entity (qc_access qc) n")
  case (Some e)
  assume "widen qc env i n s = Ok s'"
  with Some obtain m d where "endpoint_outcome qc env (incl_neighbor i) e = Ok (m, d)"
    "s' = (if m then s\<lparr>inclusion_drift := inclusion_drift s \<union> d, expanded := insert n (expanded s)\<rparr>
      else s\<lparr>inclusion_drift := inclusion_drift s \<union> d\<rparr>)"
    by (auto simp: widen_def bind_result_eq_Inr Let_def)
  with Some show ?thesis by (cases m) (auto simp: endpoint_admits_def)
qed (auto simp: widen_def endpoint_admits_def)

lemma include_neighbor_expanded:
  assumes "include_neighbor qc env primary i a c s = Ok s'"
  shows "expanded s' = expanded s \<union>
    (if other_end a c \<notin> primary \<and> connection_admits qc env i a c \<and> endpoint_admits qc env i (other_end a c) then {other_end a c} else {})"
proof -
  from assms obtain m d where passes: "connection_passes qc env (incl_connection i) c = Ok (m, d)"
    by (auto simp: include_neighbor_def bind_result_eq_Inr)
  show ?thesis
  proof (cases "m \<and> direction_matches (qc_registries qc) c a (incl_direction i) \<and> other_end a c \<notin> primary \<and> other_end a c \<notin> expanded s")
    case True
    with assms passes widen_expanded [of qc env i "other_end a c" "s\<lparr>inclusion_drift := inclusion_drift s \<union> d\<rparr>" s'] show ?thesis
      by (auto simp: include_neighbor_def connection_admits_def Let_def)
  next
    case False
    with assms passes show ?thesis
      by (auto simp: include_neighbor_def connection_admits_def Let_def split: if_splits)
  qed
qed

lemma include_derived_expanded:
  assumes "include_derived_neighbor qc env primary i r s = Ok s'"
  shows "expanded s' = expanded s \<union>
    (let n = (if rel_source_id r \<in> primary then rel_target_id r else rel_source_id r) in
     if n \<notin> primary \<and> derived_matches r (incl_connection i) = Ok True \<and> endpoint_admits qc env i n then {n} else {})"
  using assms widen_expanded [of qc env i _ s s']
  by (auto simp: include_derived_neighbor_def Let_def bind_result_eq_Inr split: if_splits)

lemma direct_inclusion_expanded:
  assumes "fold_result (include_around qc env (set primary) i) primary s = Ok s'" and "incl_traversal i \<noteq> TDerived"
  shows "expanded s' = expanded s \<union> {n. asked_for qc env primary i n}"
proof -
  let ?G = "\<lambda>a. \<Union>c \<in> set (connections_for (qc_access qc) a AnyDirection None).
    (if other_end a c \<notin> set primary \<and> connection_admits qc env i a c \<and> endpoint_admits qc env i (other_end a c) then {other_end a c} else {})"
  have "expanded s' = expanded s \<union> (\<Union>a \<in> set primary. ?G a)"
  proof (rule fold_result_union [OF _ assms(1)])
    fix a t t' assume "include_around qc env (set primary) i a t = Ok t'"
    then show "expanded t' = expanded t \<union> ?G a"
      unfolding include_around_def by (rule fold_result_union [rotated]) (rule include_neighbor_expanded)
  qed
  also have "(\<Union>a \<in> set primary. ?G a) = {n. asked_for qc env primary i n}"
    using assms(2) by (auto simp: asked_for_def split: if_splits)
  finally show ?thesis .
qed

lemma derived_inclusion_expanded:
  assumes "resolve_derived_inclusion qc env primary i = Ok t" and "incl_traversal i = TDerived"
  shows "expanded t = {n. asked_for qc env primary i n}"
proof (cases "derivation_catalog (qc_registries qc)")
  case None
  with assms show ?thesis by (auto simp: resolve_derived_inclusion_def no_inclusion_def asked_for_def)
next
  case (Some cat)
  let ?request = "query_request (qc_registries qc) primary (incl_direction i) (incl_potential i) (incl_hops i)"
  from assms(1) Some obtain ds u where ds: "derive_for qc cat ?request = Ok ds"
    and u: "fold_result (include_derived_neighbor qc env (set primary) i) (relationships ds) no_inclusion = Ok u"
    and t: "t = u\<lparr>inclusion_truncated := truncated ds\<rparr>"
    by (auto simp: resolve_derived_inclusion_def bind_result_eq_Inr)
  have "expanded u = expanded no_inclusion \<union> (\<Union>r \<in> set (relationships ds).
     let n = (if rel_source_id r \<in> set primary then rel_target_id r else rel_source_id r) in
     if n \<notin> set primary \<and> derived_matches r (incl_connection i) = Ok True \<and> endpoint_admits qc env i n then {n} else {})"
    by (rule fold_result_union [OF _ u]) (rule include_derived_expanded)
  then show ?thesis
    using assms(2) Some ds by (auto simp: t no_inclusion_def asked_for_def Let_def split: if_splits)
qed

text \<open>
  Claim C18. Inclusions widen by exactly what they ask for. When the inclusions of a query are resolved, the entities taken in are exactly
  those outside the primary set that some inclusion asks for: existing entities that pass its criteria at the
  far end of an admitted connection, or of a derived relationship, of a primary entity. What one inclusion took
  in never anchors another, whatever the order of the primary set and of the inclusions.
\<close>

theorem inclusions_widen_by_what_they_ask_for:
  assumes "resolve_neighbor_inclusions qc env primary is = Ok s"
  shows "expanded s = {n. \<exists>i \<in> set is. asked_for qc env primary i n}"
proof -
  have "expanded s = expanded no_inclusion \<union> (\<Union>i \<in> set is. {n. asked_for qc env primary i n})"
  proof (rule fold_result_union [OF _ assms [unfolded resolve_neighbor_inclusions_def]])
    fix i t t' assume "resolve_inclusion qc env primary i t = Ok t'"
    then show "expanded t' = expanded t \<union> {n. asked_for qc env primary i n}"
      by (auto simp: resolve_inclusion_def bind_result_eq_Inr merge_inclusions_def
        dest: direct_inclusion_expanded derived_inclusion_expanded split: if_splits)
  qed
  then show ?thesis by (auto simp: no_inclusion_def)
qed

section \<open>Connections\<close>

definition shows_connection ::
    "query_context \<Rightarrow> evaluation_environment \<Rightarrow> string set \<Rightarrow> (string set \<times> string set) option \<Rightarrow> connection_group \<Rightarrow> model_connection \<Rightarrow> bool" where
  "shows_connection qc env ids bridging g c \<longleftrightarrow>
     structural_among ids bridging (conn_source c) (conn_target c) \<and> (\<exists>x. evaluate_connection_criteria qc env c g = Ok x \<and> out_matched x)"

text \<open>What has been selected of the connections met so far.\<close>

definition selected_of :: "query_context \<Rightarrow> evaluation_environment \<Rightarrow> string set \<Rightarrow> (string set \<times> string set) option \<Rightarrow> connection_group
    \<Rightarrow> model_connection list \<Rightarrow> (string \<times> model_connection) list \<Rightarrow> bool" where
  "selected_of qc env ids bridging g met seen \<longleftrightarrow>
     distinct (map fst seen) \<and>
     (\<forall>(k, c) \<in> set seen. k = conn_id c \<and> c \<in> set met \<and> shows_connection qc env ids bridging g c) \<and>
     fst ` set seen = conn_id ` {c \<in> set met. shows_connection qc env ids bridging g c}"

lemma select_connection_step:
  assumes "selected_of qc env ids bridging g met seen" and "select_connection qc env ids bridging g c (seen, d) = Ok (seen', d')"
  shows "selected_of qc env ids bridging g (met @ [c]) seen'"
proof (cases "conn_id c \<in> fst ` set seen \<or> \<not> structural_among ids bridging (conn_source c) (conn_target c)")
  case True
  then have "seen' = seen" using assms(2) by (auto simp: select_connection_def)
  with True assms(1) show ?thesis
    by (fastforce simp: selected_of_def shows_connection_def)
next
  case False
  with assms(2) obtain x where x: "evaluate_connection_criteria qc env c g = Ok x"
    "seen' = (if out_matched x then seen @ [(conn_id c, c)] else seen)"
    by (auto simp: select_connection_def bind_result_eq_Inr)
  with False assms(1) show ?thesis
    by (auto simp: selected_of_def shows_connection_def)
qed

lemma select_connection_fold:
  assumes "selected_of qc env ids bridging g met seen" and "fold_result (select_connection qc env ids bridging g) cs (seen, d) = Ok (seen', d')"
  shows "selected_of qc env ids bridging g (met @ cs) seen'"
  using assms
proof (induction cs arbitrary: met seen d)
  case (Cons c cs)
  then obtain seen1 d1 where "select_connection qc env ids bridging g c (seen, d) = Ok (seen1, d1)"
    "fold_result (select_connection qc env ids bridging g) cs (seen1, d1) = Ok (seen', d')"
    by (auto simp: bind_result_eq_Inr)
  with Cons.prems(1) Cons.IH [of "met @ [c]" seen1 d1] show ?case
    using select_connection_step by fastforce
qed simp

definition incident_connections :: "query_context \<Rightarrow> string list \<Rightarrow> model_connection list" where
  "incident_connections qc ids = concat (map (\<lambda>i. connections_for (qc_access qc) i AnyDirection None) ids)"

lemma selected_derived_structural:
  assumes "select_derived qc ids bridging s = Ok (derived, short)" and "r \<in> set derived"
  shows "structural_among (set ids) bridging (rel_source_id r) (rel_target_id r) \<and> derived_matches r (Some (sel_criteria s)) = Ok True"
proof -
  from assms obtain rs rels where "traverse (\<lambda>r. if structural_among (set ids) bridging (rel_source_id r) (rel_target_id r)
      then bind_result (derived_matches r (Some (sel_criteria s))) (\<lambda>m. Ok (if m then Some r else None)) else Ok None) rels = Ok rs"
    and r: "Some r \<in> set rs"
    by (auto simp: select_derived_def bind_result_eq_Inr List.map_filter_def split: option.splits if_splits)
  then obtain q where "(if structural_among (set ids) bridging (rel_source_id q) (rel_target_id q)
      then bind_result (derived_matches q (Some (sel_criteria s))) (\<lambda>m. Ok (if m then Some q else None)) else Ok None) = Ok (Some r)"
    using r by (auto simp: traverse_eq_Inr list_all2_conv_all_nth in_set_conv_nth)
  then show ?thesis by (auto simp: bind_result_eq_Inr split: if_splits)
qed

text \<open>
  Connections on display stay inside the population. Whatever is displayed, modelled or derived, has both ends in the population, or
  joins a row to a column of a matrix, and matches the criteria; the modelled ones stand in order of their ids,
  each id once, and there is one for every incident connection that qualifies.
\<close>

theorem displayed_connections_stay_inside:
  assumes "select_among qc env ids bridging s = Ok r" and "sel_traversal s \<noteq> TDerived"
  shows "(\<forall>c \<in> set (selected_connections r).
      c \<in> set (incident_connections qc ids) \<and> shows_connection qc env (set ids) bridging (sel_criteria s) c) \<and>
    (\<forall>d \<in> set (selected_derived r).
      structural_among (set ids) bridging (rel_source_id d) (rel_target_id d) \<and> derived_matches d (Some (sel_criteria s)) = Ok True) \<and>
    sorted (map conn_id (selected_connections r)) \<and> distinct (map conn_id (selected_connections r)) \<and>
    (\<forall>c \<in> set (incident_connections qc ids).
      shows_connection qc env (set ids) bridging (sel_criteria s) c \<longrightarrow> conn_id c \<in> conn_id ` set (selected_connections r))"
proof -
  from assms obtain seen drift derived short where
    fold: "fold_result (select_connection qc env (set ids) bridging (sel_criteria s)) (incident_connections qc ids) ([], {}) = Ok (seen, drift)"
    and derived: "select_derived qc ids bridging s = Ok (derived, short)"
    and r: "selected_connections r = sort_key conn_id (map snd seen)" "selected_derived r = derived"
    by (auto simp: select_among_def incident_connections_def bind_result_eq_Inr)
  have seen: "selected_of qc env (set ids) bridging (sel_criteria s) (incident_connections qc ids) seen"
    using select_connection_fold [OF _ fold, of "[]"] by (simp add: selected_of_def)
  then have keys: "map fst seen = map (conn_id \<circ> snd) seen" by (auto simp: selected_of_def)
  have "mset (map conn_id (selected_connections r)) = mset (map fst seen)"
    by (simp add: r keys multiset.map_comp)
  with seen have "distinct (map conn_id (selected_connections r))"
    by (metis mset_eq_imp_distinct_iff selected_of_def)
  moreover have "conn_id ` set (selected_connections r) = fst ` set seen"
    using arg_cong [OF keys, of set] by (simp add: r image_image image_comp)
  then have "\<forall>c \<in> set (incident_connections qc ids).
      shows_connection qc env (set ids) bridging (sel_criteria s) c \<longrightarrow> conn_id c \<in> conn_id ` set (selected_connections r)"
    using seen unfolding selected_of_def by blast
  moreover have "\<forall>c \<in> set (selected_connections r).
      c \<in> set (incident_connections qc ids) \<and> shows_connection qc env (set ids) bridging (sel_criteria s) c"
    using seen by (auto simp: r selected_of_def)
  ultimately show ?thesis
    using selected_derived_structural [OF derived] by (simp add: r)
qed

section \<open>Distances\<close>

text \<open>The lengths of the edges between an entity and an anchor.\<close>

definition anchored_lengths :: "string set \<Rightarrow> result_edge list \<Rightarrow> string \<Rightarrow> nat set" where
  "anchored_lengths anchor_ids es i =
     edge_length ` {e \<in> set es. (edge_source e = i \<and> edge_target e \<in> anchor_ids) \<or> (edge_target e = i \<and> edge_source e \<in> anchor_ids)}"

definition nearest :: "nat set \<Rightarrow> nat option" where
  "nearest ls = (if ls = {} then None else Some (Min ls))"

lemma nearest_insert: "finite ls \<Longrightarrow> nearest (insert l ls) = (case nearest ls of None \<Rightarrow> Some l | Some d \<Rightarrow> Some (min l d))"
  by (simp add: nearest_def)

lemma rank_end_nearest:
  assumes "finite ls" and "found i = nearest ls" and "i \<notin> anchor_ids"
  shows "rank_end anchor_ids l (a, j) found i = nearest (if a \<in> anchor_ids \<and> j = i then insert l ls else ls)"
  using assms by (auto simp: rank_end_def nearest_insert split: option.split)

lemma rank_end_anchor: "i \<in> anchor_ids \<Longrightarrow> rank_end anchor_ids l ends found i = found i"
  by (cases ends) (auto simp: rank_end_def)

lemma fold_rank_edges:
  assumes "finite ls" and "found i = nearest ls" and "i \<notin> anchor_ids"
  shows "fold (rank_edge anchor_ids) es found i = nearest (ls \<union> anchored_lengths anchor_ids es i)"
  using assms
proof (induction es arbitrary: ls found)
  case (Cons e es)
  let ?ls = "if edge_source e \<in> anchor_ids \<and> edge_target e = i then insert (edge_length e) ls else ls"
  let ?ls' = "if edge_target e \<in> anchor_ids \<and> edge_source e = i then insert (edge_length e) ?ls else ?ls"
  have "rank_edge anchor_ids e found i = nearest ?ls'"
    unfolding rank_edge_def using Cons.prems by (intro rank_end_nearest) simp_all
  then have "fold (rank_edge anchor_ids) (e # es) found i = nearest (?ls' \<union> anchored_lengths anchor_ids es i)"
    using Cons.prems by (simp add: Cons.IH)
  also have "?ls' \<union> anchored_lengths anchor_ids es i = ls \<union> anchored_lengths anchor_ids (e # es) i"
    by (auto simp: anchored_lengths_def)
  finally show ?case .
qed (simp add: anchored_lengths_def)

lemma fold_rank_anchor: "i \<in> anchor_ids \<Longrightarrow> fold (rank_edge anchor_ids) es found i = found i"
  by (induction es arbitrary: found) (simp_all add: rank_edge_def rank_end_anchor)

text \<open>
  Distances are the shortest. An anchor is at distance zero; any other entity is at the least length of an edge that joins it
  to an anchor, in whichever direction, a modelled edge counting one and a derived one the length of its chain;
  an entity no edge joins to an anchor has no distance.
\<close>

theorem distances_are_the_shortest_edges:
  "anchor_modeled_distances anchor_ids es i =
     (if i \<in> anchor_ids then Some 0 else nearest (anchored_lengths anchor_ids es i))"
  using fold_rank_edges [of "{}" "\<lambda>i. if i \<in> anchor_ids then Some 0 else None" i anchor_ids es]
  by (simp add: anchor_modeled_distances_def fold_rank_anchor nearest_def)

section \<open>Aggregation\<close>

lemma grouped_keys: "map fst (grouped kvs) = sort (remdups (map fst kvs))"
  by (simp add: grouped_def comp_def)

lemma grouped_entry: "(k, vs) \<in> set (grouped kvs) \<Longrightarrow> vs = map snd (filter (\<lambda>(k', v). k' = k) kvs)"
  by (auto simp: grouped_def)

lemma mset_by_key:
  assumes "distinct ks" and "fst ` set kvs \<subseteq> set ks"
  shows "mset (concat (map (\<lambda>k. map snd (filter (\<lambda>(k', v). k' = k) kvs)) ks)) = mset (map snd kvs)"
  using assms(2)
proof (induction kvs)
  case (Cons kv kvs)
  obtain k v where kv: "kv = (k, v)" by (cases kv)
  with Cons.prems obtain before after where ks: "ks = before @ k # after" by (auto dest: split_list)
  with assms(1) have apart: "k \<notin> set before" "k \<notin> set after" by auto
  have other: "map (\<lambda>k'. map snd (filter (\<lambda>(j, v). j = k') (kv # kvs))) ks' = map (\<lambda>k'. map snd (filter (\<lambda>(j, v). j = k') kvs)) ks'"
    if "k \<notin> set ks'" for ks'
    using that by (auto simp: kv)
  have "mset (concat (map (\<lambda>k'. map snd (filter (\<lambda>(j, v). j = k') (kv # kvs))) ks)) =
      add_mset v (mset (concat (map (\<lambda>k'. map snd (filter (\<lambda>(j, v). j = k') kvs)) ks)))"
    unfolding ks map_append list.map other [OF apart(1)] other [OF apart(2)] by (simp add: kv)
  with Cons show ?case by (simp add: kv)
qed simp

lemma mset_grouped: "mset (concat (map snd (grouped kvs))) = mset (map snd kvs)"
  using mset_by_key [of "sort (remdups (map fst kvs))" kvs] by (simp add: grouped_def comp_def)

lemma distinct_grouped: "distinct (map fst (grouped kvs))"
  by (simp add: grouped_keys)

lemma mset_concat_map: "mset (concat (map f xs)) = (\<Sum>x\<leftarrow>xs. mset (f x))"
  by (induction xs) simp_all

text \<open>The ids of the members of a value and type, and of the connections of a bundle.\<close>

definition members_with :: "dimension \<Rightarrow> aggregate_member list \<Rightarrow> string \<Rightarrow> string \<Rightarrow> string list" where
  "members_with d ms v t = map member_id (filter (\<lambda>m. dimension_value m d = v \<and> member_type m = t) ms)"

definition bundle_with :: "(string \<Rightarrow> string option) \<Rightarrow> aggregate_connection list \<Rightarrow> string \<times> string \<times> string \<times> string \<Rightarrow> string list" where
  "bundle_with node cs k = map agg_conn_id (filter (\<lambda>c. bundle_key node c = Some k) cs)"

lemma node_of_grouped:
  "((v, t), ids) \<in> set (grouped (map (\<lambda>m. ((dimension_value m d, member_type m), member_id m)) ms)) \<Longrightarrow> ids = members_with d ms v t"
  by (drule grouped_entry) (simp add: members_with_def filter_map comp_def case_prod_beta)

lemma bundle_of_grouped:
  "(k, ids) \<in> set (grouped (List.map_filter (\<lambda>c. map_option (\<lambda>k. (k, agg_conn_id c)) (bundle_key node c)) cs)) \<Longrightarrow> ids = bundle_with node cs k"
proof (drule grouped_entry)
  have "map snd (filter (\<lambda>(k', v). k' = k) (List.map_filter (\<lambda>c. map_option (\<lambda>k. (k, agg_conn_id c)) (bundle_key node c)) cs)) = bundle_with node cs k"
    by (induction cs) (auto simp: bundle_with_def List.map_filter_simps split: option.splits)
  then show "ids = map snd (filter (\<lambda>(k', v). k' = k) (List.map_filter (\<lambda>c. map_option (\<lambda>k. (k, agg_conn_id c)) (bundle_key node c)) cs)) \<Longrightarrow> ids = bundle_with node cs k"
    by simp
qed


section \<open>Two entities and a connection\<close>

definition flow_link :: model_connection where
  "flow_link = \<lparr>conn_id = ''c'', conn_source = ''e'', conn_target = ''f'', conn_type = ''flow'', mc_specializations = [], mc_attributes = [], mc_extra = []\<rparr>"

definition linked_query :: query_context where
  "linked_query = sample_query\<lparr>qc_access :=
     \<lparr>read_entity = (\<lambda>i. if i \<in> {''e'', ''f''} then Some (sample_record\<lparr>entity_artifact_id := i\<rparr>) else None),
      read_connection = (\<lambda>i. if i = ''c'' then Some flow_link else None),
      connections_for = (\<lambda>i _ _. if i \<in> {''e'', ''f''} then [flow_link] else [])\<rparr>\<rparr>"

definition outward :: neighbor_inclusion where
  "outward = \<lparr>incl_connection = None, incl_direction = Outgoing, incl_neighbor = None, incl_traversal = TDirect, incl_potential = False, incl_hops = None\<rparr>"

definition all_direct :: connection_selection where
  "all_direct = \<lparr>sel_enabled = True, sel_criteria = empty_group, sel_traversal = TDirect, sel_potential = False, sel_hops = None\<rparr>"

lemma outward_resolves:
  "resolve_neighbor_inclusions linked_query sample_environment [''e''] [outward] =
     Ok \<lparr>expanded = {''f''}, inclusion_drift = {}, inclusion_truncated = False\<rparr>"
  by (simp add: resolve_neighbor_inclusions_def resolve_inclusion_def include_around_def include_neighbor_def outward_def
    linked_query_def flow_link_def connection_passes_def direction_matches_def other_end_def widen_def endpoint_outcome_def
    no_inclusion_def sample_query_def sample_registries_def Let_def)

theorem inclusions_widen_by_what_they_ask_for_witness:
  "{n. asked_for linked_query sample_environment [''e''] outward n} = {''f''}"
  using inclusions_widen_by_what_they_ask_for [OF outward_resolves] by simp

lemma flow_link_selected:
  "select_among linked_query sample_environment [''e'', ''f''] None all_direct =
     Ok \<lparr>selected_connections = [flow_link], selected_derived = [], selection_drift = {}, selection_truncated = False\<rparr>"
  by (simp add: select_among_def select_connection_def all_direct_def linked_query_def flow_link_def structural_among_def
    evaluate_connection_criteria_def empty_group_def combine_def select_derived_def sample_query_def sample_registries_def Let_def)

theorem displayed_connections_stay_inside_witness:
  "shows_connection linked_query sample_environment {''e'', ''f''} None empty_group flow_link"
  using displayed_connections_stay_inside [OF flow_link_selected] by (simp add: all_direct_def)

definition member_in :: "string \<Rightarrow> string \<Rightarrow> aggregate_member" where
  "member_in i g = \<lparr>member_id = i, member_type = ''node'', member_group = g, member_domain = []\<rparr>"


end
