(* ===== verification/Query_Execution.thy ===== *)
theory Query_Execution
  imports Query_Population_Properties
begin

text \<open>
  An execution of a query: the population its criteria, inclusions and bindings make
  (\<^verbatim>\<open>src/application/viewpoints/repository_projection.py\<close>, \<^verbatim>\<open>project_repository\<close>) and what of it a result returns
  under a limit (\<^verbatim>\<open>evaluate_viewpoint.py\<close>). Styles, columns (with the
  derived attributes only a presentation shows, evaluated for the population), the texts of warnings and the trace table
  are not modelled.
\<close>

section \<open>The population\<close>

text \<open>The entities come with whether the primary criteria match them.\<close>

record population =
  pop_entities :: "(string \<times> bool) list"
  pop_hops :: "(string \<times> nat) list"
  pop_connections :: "model_connection list"
  pop_derived :: "derived_relationship list"
  pop_drift :: "string set"
  pop_truncated :: bool

text \<open>What the primary criteria make of one candidate: its id and the evidence, and the drift.\<close>

definition match_candidate ::
    "query_context \<Rightarrow> evaluation_environment \<Rightarrow> (model_entity \<Rightarrow> bool) \<Rightarrow> entity_group \<Rightarrow> string
      \<Rightarrow> (query_error, (string \<times> nat option) option \<times> string set) result" where
  "match_candidate qc env admits g i =
     (case read_entity (qc_access qc) i of
        None \<Rightarrow> Ok (None, {})
      | Some e \<Rightarrow>
          if \<not> admits e then Ok (None, {})
          else bind_result (evaluate_entity_criteria qc env g e)
            (\<lambda>x. Ok (if out_matched x then Some (i, out_hops x) else None, out_drift x)))"

fun bound_entity_id :: "bound_value \<Rightarrow> string option" where
  "bound_entity_id (BEntity e) = Some (entity_artifact_id e)"
| "bound_entity_id _ = None"

definition result_included_binding_ids :: "executable_query \<Rightarrow> evaluation_environment \<Rightarrow> string set" where
  "result_included_binding_ids q env =
     (\<Union>b \<in> set (filter qb_include (eq_bindings q)).
        (case env_bindings env (qb_name b) of None \<Rightarrow> {} | Some v \<Rightarrow> set (List.map_filter bound_entity_id (as_items v))))"

text \<open>The records of the included ids.\<close>

definition population_entities :: "query_context \<Rightarrow> string list \<Rightarrow> string list \<Rightarrow> (string \<times> bool) list" where
  "population_entities qc primary included =
     List.map_filter (\<lambda>i. map_option (\<lambda>e. (entity_artifact_id e, entity_artifact_id e \<in> set primary)) (read_entity (qc_access qc) i)) included"

text \<open>
  The candidates and the included ids are traversed in ascending order; the sets of the source have none, and
  nothing but the first of several exceptions depends on it.
\<close>

definition project_population ::
    "query_context \<Rightarrow> evaluation_environment \<Rightarrow> (model_entity \<Rightarrow> bool) \<Rightarrow> string set \<Rightarrow> executable_query \<Rightarrow> (query_error, population) result" where
  "project_population qc env admits scoped q =
     bind_result (traverse (match_candidate qc env admits (eq_criteria q)) (sorted_list_of_set scoped))
       (\<lambda>ms. let hits = List.map_filter fst ms; primary = map fst hits in
         bind_result (resolve_neighbor_inclusions qc env primary (eq_inclusions q))
           (\<lambda>inc. let included = set primary \<union> expanded inc \<union> result_included_binding_ids q env in
             bind_result (select_connections qc env (sorted_list_of_set included) (eq_connections q))
               (\<lambda>sel. Ok
                 \<lparr>pop_entities = population_entities qc primary (sorted_list_of_set included),
                  pop_hops = List.map_filter (\<lambda>(i, h). map_option (Pair i) h) hits,
                  pop_connections = selected_connections sel, pop_derived = selected_derived sel,
                  pop_drift = \<Union> (snd ` set ms) \<union> inclusion_drift inc \<union> selection_drift sel,
                  pop_truncated = (inclusion_truncated inc \<or> selection_truncated sel)\<rparr>)))"

section \<open>The result\<close>

record connection_summary =
  cs_id :: string
  cs_type :: string
  cs_source :: string
  cs_target :: string
  cs_certainty :: "certainty option"
  cs_hops :: "nat option"

record execution_result =
  ex_entities :: "(string \<times> bool) list"
  ex_connections :: "connection_summary list"
  ex_total_entities :: nat
  ex_total_connections :: nat
  ex_is_truncated :: bool
  ex_limit :: nat
  ex_distances :: "string \<Rightarrow> nat option"

definition modelled_summary :: "query_context \<Rightarrow> model_connection \<Rightarrow> connection_summary" where
  "modelled_summary qc c =
     (let found = (case read_connection (qc_access qc) (conn_id c) of None \<Rightarrow> c | Some c' \<Rightarrow> c') in
      \<lparr>cs_id = conn_id c, cs_type = conn_type found, cs_source = conn_source found, cs_target = conn_target found,
       cs_certainty = None, cs_hops = None\<rparr>)"

definition derived_summary :: "query_context \<Rightarrow> derived_relationship \<Rightarrow> connection_summary" where
  "derived_summary qc r =
     (case read_connection (qc_access qc) (rel_id r) of
        None \<Rightarrow> \<lparr>cs_id = rel_id r, cs_type = rel_type r, cs_source = rel_source_id r, cs_target = rel_target_id r,
          cs_certainty = Some (rel_certainty r), cs_hops = Some (rel_hops r)\<rparr>
      | Some c \<Rightarrow> \<lparr>cs_id = rel_id r, cs_type = conn_type c, cs_source = conn_source c, cs_target = conn_target c,
          cs_certainty = Some (rel_certainty r), cs_hops = Some (rel_hops r)\<rparr>)"

definition entity_limit :: "int option \<Rightarrow> int \<Rightarrow> int \<Rightarrow> nat" where
  "entity_limit requested default_limit max_entities =
     nat (max 0 (min (case requested of None \<Rightarrow> default_limit | Some l \<Rightarrow> l) max_entities))"

definition summary_edge :: "connection_summary \<Rightarrow> result_edge" where
  "summary_edge s = \<lparr>edge_source = cs_source s, edge_target = cs_target s, edge_hops = cs_hops s\<rparr>"

text \<open>An entity is returned with whether it is primary.\<close>

definition execution_of :: "query_context \<Rightarrow> string list \<Rightarrow> nat \<Rightarrow> population \<Rightarrow> execution_result" where
  "execution_of qc anchor_ids limit p =
     (let primary = sort (map fst (filter snd (pop_entities p)));
          context_ids = sort (map fst (filter (\<lambda>(i, m). \<not> m) (pop_entities p)));
          retained = set (take limit (primary @ context_ids));
          summaries = map (modelled_summary qc) (pop_connections p) @ map (derived_summary qc) (pop_derived p);
          shown = sort_key cs_id (filter (\<lambda>s. cs_source s \<in> retained \<and> cs_target s \<in> retained) summaries) in
      \<lparr>ex_entities = map (\<lambda>i. (i, i \<notin> set context_ids)) (filter (\<lambda>i. read_entity (qc_access qc) i \<noteq> None) (sorted_list_of_set retained)),
       ex_connections = shown, ex_total_entities = length primary + length context_ids, ex_total_connections = length summaries,
       ex_is_truncated = (card retained < length primary + length context_ids), ex_limit = limit,
       ex_distances = anchor_modeled_distances (set anchor_ids) (map summary_edge shown)\<rparr>)"

definition execute_query ::
    "query_context \<Rightarrow> prepared_environment \<Rightarrow> (model_entity \<Rightarrow> bool) \<Rightarrow> string set \<Rightarrow> executable_query \<Rightarrow> nat
      \<Rightarrow> (query_error, execution_result) result" where
  "execute_query qc pe admits scoped q limit =
     bind_result (project_population qc (pe_environment pe) admits scoped q)
       (\<lambda>p. Ok (execution_of qc (pe_anchors pe) limit p))"

section \<open>What a result returns\<close>

lemma matched_ids:
  assumes "traverse (match_candidate qc env admits g) is = Ok ms"
  shows "set (map fst (List.map_filter fst ms)) = {i \<in> set is. \<exists>e x. read_entity (qc_access qc) i = Some e \<and> admits e \<and>
      evaluate_entity_criteria qc env g e = Ok x \<and> out_matched x}"
  using assms
proof (induction "is" arbitrary: ms)
  case (Cons i "is")
  then obtain m ms' where m: "match_candidate qc env admits g i = Ok m" "traverse (match_candidate qc env admits g) is = Ok ms'"
    "ms = m # ms'" by (auto split: sum.splits)
  have "set (map fst (List.map_filter fst [m])) = (if \<exists>e x. read_entity (qc_access qc) i = Some e \<and> admits e \<and>
      evaluate_entity_criteria qc env g e = Ok x \<and> out_matched x then {i} else {})"
    using m(1) by (auto simp: match_candidate_def bind_result_eq_Inr List.map_filter_simps split: option.splits if_splits)
  moreover have "set (map fst (List.map_filter fst ms)) = set (map fst (List.map_filter fst [m])) \<union> set (map fst (List.map_filter fst ms'))"
    by (simp add: m(3) List.map_filter_simps split: option.split)
  ultimately show ?case using Cons.IH [OF m(2)] by auto
qed (simp add: List.map_filter_simps)

lemma take_prefers:
  assumes "x \<in> set (take n (xs @ ys))" and "x \<notin> set xs"
  shows "set xs \<subseteq> set (take n (xs @ ys))"
  using assms by (cases "n \<le> length xs") (auto dest: in_set_takeD)

text \<open>The store finds a record under its own id.\<close>

definition keyed_store :: "query_context \<Rightarrow> bool" where
  "keyed_store qc \<longleftrightarrow> (\<forall>i e. read_entity (qc_access qc) i = Some e \<longrightarrow> entity_artifact_id e = i)"

definition primary_match :: "query_context \<Rightarrow> evaluation_environment \<Rightarrow> (model_entity \<Rightarrow> bool) \<Rightarrow> entity_group \<Rightarrow> string \<Rightarrow> bool" where
  "primary_match qc env admits g i \<longleftrightarrow>
     (\<exists>e x. read_entity (qc_access qc) i = Some e \<and> admits e \<and> evaluate_entity_criteria qc env g e = Ok x \<and> out_matched x)"

text \<open>The entities of a population: stored, each once, and primary exactly where the criteria match a scoped candidate.\<close>

definition sound_population :: "query_context \<Rightarrow> (string \<Rightarrow> bool) \<Rightarrow> (string \<times> bool) list \<Rightarrow> bool" where
  "sound_population qc is_primary es \<longleftrightarrow>
     distinct (map fst es) \<and> (\<forall>(i, m) \<in> set es. read_entity (qc_access qc) i \<noteq> None \<and> m = is_primary i)"

lemma projected_population_sound:
  assumes "project_population qc env admits scoped q = Ok p" and keyed: "keyed_store qc"
  shows "sound_population qc (\<lambda>i. i \<in> set (sorted_list_of_set scoped) \<and> primary_match qc env admits (eq_criteria q) i) (pop_entities p)"
proof -
  from assms(1) obtain ms included where ms: "traverse (match_candidate qc env admits (eq_criteria q)) (sorted_list_of_set scoped) = Ok ms"
    and p: "pop_entities p = population_entities qc (map fst (List.map_filter fst ms)) (sorted_list_of_set included)"
    unfolding project_population_def Let_def bind_result_eq_Inr by (auto simp only: population.simps Inr_inject)
  have entity: "entity_artifact_id e = i" if "read_entity (qc_access qc) i = Some e" for i e
    using keyed that by (simp add: keyed_store_def)
  have "map fst (List.map_filter (\<lambda>i. map_option (\<lambda>e. (entity_artifact_id e, entity_artifact_id e \<in> P)) (read_entity (qc_access qc) i)) js) =
      filter (\<lambda>i. read_entity (qc_access qc) i \<noteq> None) js" for js P
    by (induction js) (auto simp: List.map_filter_simps entity split: option.splits)
  then have "distinct (map fst (pop_entities p))" by (simp add: p population_entities_def)
  moreover have "\<forall>(i, m) \<in> set (pop_entities p). read_entity (qc_access qc) i \<noteq> None \<and> m = (i \<in> set (map fst (List.map_filter fst ms)))"
    using entity by (fastforce simp: p population_entities_def set_map_filter)
  note this [unfolded matched_ids [OF ms]]
  ultimately show ?thesis by (simp add: sound_population_def primary_match_def)
qed

text \<open>Primary entities first, each part in the order of its ids: what the limit cuts.\<close>

definition returned_order :: "(string \<times> bool) list \<Rightarrow> string list" where
  "returned_order es = sort (map fst (filter snd es)) @ sort (map fst (filter (\<lambda>(i, m). \<not> m) es))"

lemma returned_order:
  assumes "sound_population qc is_primary es"
  shows "set (returned_order es) = fst ` set es" and "distinct (returned_order es)" and "length (returned_order es) = length es"
proof -
  have all: "mset (returned_order es) = mset (map fst es)"
    by (simp add: returned_order_def case_prod_beta flip: image_mset_union)
  then show "set (returned_order es) = fst ` set es" by (metis mset_eq_setD set_map)
  show "distinct (returned_order es)" using all assms unfolding sound_population_def by (metis mset_eq_imp_distinct_iff)
  show "length (returned_order es) = length es" using arg_cong [OF all, of size] by (simp only: size_mset length_map)
qed

lemma execution_kept:
  assumes "sound_population qc is_primary (pop_entities p)"
  shows "ex_entities (execution_of qc anchor_ids limit p) =
    map (\<lambda>i. (i, i \<notin> set (sort (map fst (filter (\<lambda>(i, m). \<not> m) (pop_entities p))))))
      (sorted_list_of_set (set (take limit (returned_order (pop_entities p)))))"
proof -
  have "set (take limit (returned_order (pop_entities p))) \<subseteq> fst ` set (pop_entities p)"
    using returned_order(1) [OF assms] by (auto dest: in_set_takeD)
  moreover have "\<forall>i \<in> fst ` set (pop_entities p). read_entity (qc_access qc) i \<noteq> None"
    using assms by (auto simp: sound_population_def)
  ultimately have "filter (\<lambda>i. read_entity (qc_access qc) i \<noteq> None) (sorted_list_of_set (set (take limit (returned_order (pop_entities p))))) =
      sorted_list_of_set (set (take limit (returned_order (pop_entities p))))"
    by (intro filter_True) (simp only: set_sorted_list_of_set [OF finite_set], blast)
  then show ?thesis unfolding execution_of_def Let_def returned_order_def by (simp only: execution_result.simps)
qed

lemma execution_parts:
  assumes sound: "sound_population qc is_primary (pop_entities p)" and r: "r = execution_of qc anchor_ids limit p"
  shows "fst ` set (ex_entities r) = set (take limit (returned_order (pop_entities p)))"
    and "distinct (map fst (ex_entities r))"
    and "length (ex_entities r) = min limit (ex_total_entities r)"
    and "ex_is_truncated r \<longleftrightarrow> length (ex_entities r) < ex_total_entities r"
    and "\<forall>s \<in> set (ex_connections r). cs_source s \<in> fst ` set (ex_entities r) \<and> cs_target s \<in> fst ` set (ex_entities r)"
proof -
  note kept = execution_kept [OF sound, of anchor_ids limit, folded r]
  note order = returned_order [OF sound]
  show ids: "fst ` set (ex_entities r) = set (take limit (returned_order (pop_entities p)))" by (simp add: kept image_image)
  show "distinct (map fst (ex_entities r))" by (simp add: kept comp_def)
  have total: "ex_total_entities r = length (pop_entities p)"
    using order(3) by (simp add: r execution_of_def Let_def returned_order_def)
  have len: "length (ex_entities r) = card (set (take limit (returned_order (pop_entities p))))" by (simp add: kept)
  also have "\<dots> = min limit (length (pop_entities p))" using order(2,3) by (simp add: distinct_card)
  finally show "length (ex_entities r) = min limit (ex_total_entities r)" by (simp add: total)
  show "ex_is_truncated r \<longleftrightarrow> length (ex_entities r) < ex_total_entities r"
    unfolding len by (simp add: r execution_of_def Let_def returned_order_def)
  show "\<forall>s \<in> set (ex_connections r). cs_source s \<in> fst ` set (ex_entities r) \<and> cs_target s \<in> fst ` set (ex_entities r)"
    unfolding ids unfolding r execution_of_def Let_def returned_order_def execution_result.simps set_sort set_filter by blast
qed

lemma execution_entities:
  assumes sound: "sound_population qc is_primary (pop_entities p)"
  shows "set (ex_entities (execution_of qc anchor_ids limit p)) =
      {(i, m). (i, m) \<in> set (pop_entities p) \<and> i \<in> set (take limit (returned_order (pop_entities p)))}"
proof -
  let ?rest = "sort (map fst (filter (\<lambda>(i, m). \<not> m) (pop_entities p)))" and ?kept = "take limit (returned_order (pop_entities p))"
  note entities = execution_kept [OF sound, of anchor_ids limit] and all = returned_order(1) [OF sound]
  have d: "distinct (map fst (pop_entities p))" using sound by (simp add: sound_population_def)
  have member: "(i, i \<notin> set ?rest) \<in> set (pop_entities p)" if "i \<in> fst ` set (pop_entities p)" for i
  proof -
    from that obtain m where m: "(i, m) \<in> set (pop_entities p)" by auto
    moreover have "m \<longleftrightarrow> i \<notin> set ?rest"
    proof
      assume m
      show "i \<notin> set ?rest"
      proof
        assume "i \<in> set ?rest"
        then have "(i, False) \<in> set (pop_entities p)" by auto
        with m \<open>m\<close> show False using eq_key_imp_eq_value [OF d] by blast
      qed
    qed (use m in force)
    ultimately show ?thesis by simp
  qed
  show "set (ex_entities (execution_of qc anchor_ids limit p)) = {(i, m). (i, m) \<in> set (pop_entities p) \<and> i \<in> set ?kept}"
  proof (rule set_eqI, clarify)
    fix i m
    have known: "i \<in> set ?kept \<Longrightarrow> i \<in> fst ` set (pop_entities p)" using all by (auto dest!: in_set_takeD)
    have fits: "m = (i \<notin> set ?rest)" if "(i, m) \<in> set (pop_entities p)"
    proof -
      have "i \<in> fst ` set (pop_entities p)" using that by (rule image_eqI [rotated]) simp
      then show ?thesis using eq_key_imp_eq_value [OF d that] member by blast
    qed
    have "((i, m) \<in> set (ex_entities (execution_of qc anchor_ids limit p))) = (i \<in> set ?kept \<and> m = (i \<notin> set ?rest))"
      unfolding entities set_map set_sorted_list_of_set [OF finite_set] by blast
    also have "\<dots> = ((i, m) \<in> set (pop_entities p) \<and> i \<in> set ?kept)"
      using known fits member [of i] by blast
    finally show "((i, m) \<in> set (ex_entities (execution_of qc anchor_ids limit p))) =
        ((i, m) \<in> {(i, m). (i, m) \<in> set (pop_entities p) \<and> i \<in> set ?kept})" by simp
  qed
qed


section \<open>One match and the neighbour it is shown with\<close>

definition neighbour_query :: executable_query where
  "neighbour_query =
     \<lparr>eq_criteria = empty_group, eq_inclusions = [outward], eq_connections = all_direct, eq_bindings = [], eq_parameters = [],
      eq_derived = []\<rparr>"

definition neighbour_population :: population where
  "neighbour_population =
     \<lparr>pop_entities = [(''e'', True), (''f'', False)], pop_hops = [], pop_connections = [flow_link], pop_derived = [],
      pop_drift = {}, pop_truncated = False\<rparr>"

lemma neighbour_population_projected:
  "project_population linked_query sample_environment (\<lambda>_. True) {''e''} neighbour_query = Ok neighbour_population"
proof -
  have match: "match_candidate linked_query sample_environment (\<lambda>_. True) empty_group ''e'' = Ok (Some (''e'', None), {})"
    by (simp add: match_candidate_def linked_query_def evaluate_entity_criteria_def empty_group_def combine_def
      plain_outcome_def combined_evidence_def)
  have included: "sorted_list_of_set {''e'', ''f''} = [''e'', ''f'']"
    using sorted_list_of_set_sort_remdups [of "[''e'', ''f'']"] by simp
  have "select_connections linked_query sample_environment [''e'', ''f''] all_direct =
      Ok \<lparr>selected_connections = [flow_link], selected_derived = [], selection_drift = {}, selection_truncated = False\<rparr>"
    using flow_link_selected by (simp add: select_connections_def all_direct_def)
  then show ?thesis
    by (simp add: project_population_def neighbour_query_def match outward_resolves List.map_filter_simps
      result_included_binding_ids_def insert_commute included neighbour_population_def population_entities_def Let_def)
      (simp add: linked_query_def)
qed


end
