(* ===== verification/Update_Release.thy ===== *)
theory Update_Release
  imports Py_Values
begin

text \<open>
  What a release publishes and whether it can be trusted: the release version
  (\<^verbatim>\<open>src/application/software_update/version.py\<close>), the digests stated for an asset (\<^verbatim>\<open>release.py\<close>) and the check of
  the newest release (\<^verbatim>\<open>evaluate.py\<close>). Hashing and the decoding of UTF-8 are parameters, as are the answers of the
  release source and of the checkout. Texts of findings are left out.
\<close>

section \<open>Release versions\<close>

datatype release_version = ReleaseVersion (major: nat) (minor: nat) (patch: nat)

definition version_key :: "release_version \<Rightarrow> nat \<times> nat \<times> nat" where
  "version_key v = (major v, minor v, patch v)"

instantiation release_version :: linorder
begin

definition less_release_version :: "release_version \<Rightarrow> release_version \<Rightarrow> bool" where
  "less_release_version v w \<longleftrightarrow> version_key v < version_key w"

definition less_eq_release_version :: "release_version \<Rightarrow> release_version \<Rightarrow> bool" where
  "less_eq_release_version v w \<longleftrightarrow> version_key v < version_key w \<or> v = w"

instance
proof
  fix v w u :: release_version
  have key: "v = w \<longleftrightarrow> version_key v = version_key w" for v w
    by (cases v; cases w) (simp add: version_key_def)
  show "v < w \<longleftrightarrow> v \<le> w \<and> \<not> w \<le> v"
    unfolding less_release_version_def less_eq_release_version_def key by auto
  show "v \<le> v" by (simp add: less_eq_release_version_def)
  show "v \<le> u" if "v \<le> w" "w \<le> u" using that unfolding less_eq_release_version_def key by auto
  show "v = w" if "v \<le> w" "w \<le> v" using that unfolding less_eq_release_version_def key by auto
  show "v \<le> w \<or> w \<le> v" unfolding less_eq_release_version_def key by auto
qed

end

definition version_text :: "release_version \<Rightarrow> string" where
  "version_text v = py_join ''.'' [decimal (major v), decimal (minor v), decimal (patch v)]"

definition tag_of :: "release_version \<Rightarrow> string" where
  "tag_of v = CHR ''v'' # version_text v"

definition number_text :: "string \<Rightarrow> bool" where
  "number_text s \<longleftrightarrow> s \<noteq> [] \<and> list_all is_digit s"

definition without_v :: "string \<Rightarrow> string" where
  "without_v s = (case s of c # t \<Rightarrow> if c = CHR ''v'' then t else s | [] \<Rightarrow> [])"

text \<open>\<^const>\<open>None\<close> is \<^verbatim>\<open>NotAReleaseVersion\<close>.\<close>

definition parse_release_version :: "string \<Rightarrow> release_version option" where
  "parse_release_version text =
     (case py_split (CHR ''.'') (without_v (py_strip text)) of
        [a, b, c] \<Rightarrow>
          if number_text a \<and> number_text b \<and> number_text c
          then Some (ReleaseVersion (digits_number a) (digits_number b) (digits_number c)) else None
      | _ \<Rightarrow> None)"

section \<open>Digests\<close>

record release_asset =
  asset_name :: string
  download_url :: string
  stated_digest :: "string option"
  asset_size :: nat

record published_release =
  release_version_of :: release_version
  release_tag :: string
  release_commit :: string
  release_published_at :: string
  is_prerelease :: bool
  release_assets :: "release_asset list"

definition release_asset_named :: "published_release \<Rightarrow> string \<Rightarrow> release_asset option" where
  "release_asset_named r n = List.find (\<lambda>a. asset_name a = n) (release_assets r)"

definition gui_bundle_name :: "published_release \<Rightarrow> string" where
  "gui_bundle_name r = ''architectonic-gui-'' @ version_text (release_version_of r) @ ''.tar.gz''"

definition CHECKSUMS_ASSET_NAME :: string where
  "CHECKSUMS_ASSET_NAME = ''SHA256SUMS''"

text \<open>\<^verbatim>\<open>str.lower()\<close> and the line ends of \<^verbatim>\<open>str.splitlines()\<close>, among the code points 0 to 255.\<close>

definition lower_char :: "char \<Rightarrow> char" where
  "lower_char c =
     (let n = of_char c :: nat in
      if (65 \<le> n \<and> n \<le> 90) \<or> (192 \<le> n \<and> n \<le> 222 \<and> n \<noteq> 215) then char_of (n + 32) else c)"

definition py_lower :: "string \<Rightarrow> string" where
  "py_lower s = map lower_char s"

definition is_line_end :: "char \<Rightarrow> bool" where
  "is_line_end c \<longleftrightarrow> (of_char c :: nat) \<in> {10, 11, 12, 13, 28, 29, 30, 133}"

definition after_line_end :: "string \<Rightarrow> string" where
  "after_line_end s =
     (case s of c # d # t \<Rightarrow> if (of_char c :: nat) = 13 \<and> (of_char d :: nat) = 10 then t else d # t | _ \<Rightarrow> [])"

function py_splitlines :: "string \<Rightarrow> string list" where
  "py_splitlines s =
     (if s = [] then []
      else takeWhile (\<lambda>c. \<not> is_line_end c) s # py_splitlines (after_line_end (dropWhile (\<lambda>c. \<not> is_line_end c) s)))"
  by pat_completeness auto

lemma after_line_end_shorter: "length (after_line_end s) \<le> length s - 1"
  by (auto simp: after_line_end_def split: list.split)

termination py_splitlines
proof (relation "measure length")
  fix s :: string assume "s \<noteq> []"
  have "length (after_line_end (dropWhile (\<lambda>c. \<not> is_line_end c) s)) \<le> length (dropWhile (\<lambda>c. \<not> is_line_end c) s) - 1"
    by (rule after_line_end_shorter)
  also have "\<dots> < length s"
    using \<open>s \<noteq> []\<close> length_dropWhile_le [of "\<lambda>c. \<not> is_line_end c" s] by (cases s) auto
  finally show "(after_line_end (dropWhile (\<lambda>c. \<not> is_line_end c) s), s) \<in> measure length" by simp
qed simp

declare py_splitlines.simps [simp del]

definition is_hex :: "char \<Rightarrow> bool" where
  "is_hex c \<longleftrightarrow> is_digit c \<or> (let n = of_char c :: nat in (65 \<le> n \<and> n \<le> 70) \<or> (97 \<le> n \<and> n \<le> 102))"

text \<open>One line of a checksum file: the name and the digest it states.\<close>

definition checksum_line :: "string \<Rightarrow> (string \<times> string) option" where
  "checksum_line line =
     (let digest = take 64 line; rest = drop 64 line in
      if length digest = 64 \<and> list_all is_hex digest \<and> take 2 rest \<in> {''  '', '' *''} \<and> drop 2 rest \<noteq> []
         \<and> CHR 0x0A \<notin> set (drop 2 rest)
      then Some (drop 2 rest, py_lower digest) else None)"

text \<open>The checksums by name: the last line that names a file counts. \<^const>\<open>None\<close> is the \<^verbatim>\<open>ValueError\<close>.\<close>

fun checksums_from :: "(string \<Rightarrow> string option) \<Rightarrow> string list \<Rightarrow> (string \<Rightarrow> string option) option" where
  "checksums_from m [] = Some m"
| "checksums_from m (l # ls) =
     (if py_strip l = [] then checksums_from m ls
      else (case checksum_line (py_strip l) of None \<Rightarrow> None | Some (n, d) \<Rightarrow> checksums_from (m(n \<mapsto> d)) ls))"

definition parse_checksums :: "string \<Rightarrow> (string \<Rightarrow> string option) option" where
  "parse_checksums text = checksums_from (\<lambda>_. None) (py_splitlines text)"

datatype verification_verdict = DigestVerified | DigestMismatch | NoStatement

record asset_verification =
  verified_asset :: string
  asset_verdict :: verification_verdict
  actual_digest :: string
  checked_against :: "string list"

definition asset_ok :: "asset_verification \<Rightarrow> bool" where
  "asset_ok v \<longleftrightarrow> asset_verdict v = DigestVerified"

definition remove_prefix :: "string \<Rightarrow> string \<Rightarrow> string" where
  "remove_prefix p s = (if take (length p) s = p then drop (length p) s else s)"

definition stated_digests :: "release_asset \<Rightarrow> (string \<Rightarrow> string option) option \<Rightarrow> (string \<times> string) list" where
  "stated_digests a statement =
     (case stated_digest a of
        Some d \<Rightarrow> if d = [] then [] else [(''release'', py_lower (remove_prefix ''sha256:'' d))] | None \<Rightarrow> []) @
     (case statement of
        Some m \<Rightarrow> (case m (asset_name a) of Some d \<Rightarrow> if d = [] then [] else [(CHECKSUMS_ASSET_NAME, d)] | None \<Rightarrow> [])
      | None \<Rightarrow> [])"

definition verify_asset :: "('b \<Rightarrow> string) \<Rightarrow> 'b \<Rightarrow> release_asset \<Rightarrow> (string \<Rightarrow> string option) option \<Rightarrow> asset_verification" where
  "verify_asset sha256 data a statement =
     (let actual = sha256 data; stated = stated_digests a statement in
      if stated = [] then \<lparr>verified_asset = asset_name a, asset_verdict = NoStatement, actual_digest = actual, checked_against = []\<rparr>
      else \<lparr>verified_asset = asset_name a,
        asset_verdict = (if filter (\<lambda>(_, d). d \<noteq> actual) stated \<noteq> [] then DigestMismatch else DigestVerified),
        actual_digest = actual, checked_against = map fst stated\<rparr>)"

section \<open>Checking a release\<close>

record installed_software =
  installed_version :: "release_version option"
  installed_commit :: string
  installed_branch :: "string option"
  modified_tracked :: "string list"
  signers_file_present :: bool

datatype signature_verdict = SignatureVerified | Unsigned | Untrusted | NotEnforced

datatype provenance_verdict = ProvenanceVerified | ProvenanceNotVerified

record release_verification =
  commit_matches :: bool
  signature :: signature_verdict
  verified_assets_found :: "asset_verification list"
  provenance :: provenance_verdict

text \<open>The two ports: where releases come from, and the checkout. The bytes of an asset are of the type \<^typ>\<open>'b\<close>.\<close>

datatype check_error = SourceFailed string | CheckoutFailed string | UndecodableChecksums | NotAChecksumLine

record 'b release_source =
  latest_release :: "bool \<Rightarrow> (check_error, published_release option) result"
  release_by_version :: "release_version \<Rightarrow> (check_error, published_release option) result"
  download_asset :: "release_asset \<Rightarrow> (check_error, 'b) result"

record update_checkout =
  observe_checkout :: "(check_error, installed_software) result"
  fetch_tag :: "string \<Rightarrow> (check_error, string option) result"
  verify_tag :: "string \<Rightarrow> signature_verdict"

record 'b byte_lib =
  sha256_of :: "'b \<Rightarrow> string"
  decode_utf8 :: "'b \<Rightarrow> string option"

record 'b release_check =
  checked_installed :: installed_software
  checked_release :: "published_release option"
  fetched_commit :: "string option"
  checked_verification :: "release_verification option"
  checked_assets :: "(string \<times> 'b) list"

definition checksum_statement :: "'b byte_lib \<Rightarrow> 'b \<Rightarrow> (check_error, string \<Rightarrow> string option) result" where
  "checksum_statement lib data =
     (case decode_utf8 lib data of
        None \<Rightarrow> Err UndecodableChecksums
      | Some text \<Rightarrow> (case parse_checksums text of None \<Rightarrow> Err NotAChecksumLine | Some m \<Rightarrow> Ok m))"

definition release_statement ::
    "'b byte_lib \<Rightarrow> 'b release_source \<Rightarrow> published_release \<Rightarrow> (check_error, (string \<Rightarrow> string option) option) result" where
  "release_statement lib source r =
     (case release_asset_named r CHECKSUMS_ASSET_NAME of
        None \<Rightarrow> Ok None
      | Some a \<Rightarrow> bind_result (download_asset source a) (\<lambda>data. bind_result (checksum_statement lib data) (\<lambda>m. Ok (Some m))))"

definition verified_assets ::
    "'b byte_lib \<Rightarrow> 'b release_source \<Rightarrow> published_release \<Rightarrow> (check_error, (string \<times> 'b) list \<times> asset_verification list) result" where
  "verified_assets lib source r =
     bind_result (release_statement lib source r)
       (\<lambda>statement.
         case release_asset_named r (gui_bundle_name r) of
           None \<Rightarrow> Ok ([], [])
         | Some a \<Rightarrow> bind_result (download_asset source a)
             (\<lambda>data. Ok ([(asset_name a, data)], [verify_asset (sha256_of lib) data a statement])))"

definition check_release ::
    "'b byte_lib \<Rightarrow> 'b release_source \<Rightarrow> update_checkout \<Rightarrow> release_version option \<Rightarrow> bool \<Rightarrow> (check_error, 'b release_check) result" where
  "check_release lib source checkout requested include_prerelease =
     bind_result (observe_checkout checkout) (\<lambda>installed.
     bind_result (case requested of Some v \<Rightarrow> release_by_version source v | None \<Rightarrow> latest_release source include_prerelease) (\<lambda>release.
       case release of
         None \<Rightarrow> Ok \<lparr>checked_installed = installed, checked_release = None, fetched_commit = None, checked_verification = None,
           checked_assets = []\<rparr>
       | Some r \<Rightarrow>
           if (case installed_version installed of None \<Rightarrow> False | Some v \<Rightarrow> release_version_of r \<le> v)
           then Ok \<lparr>checked_installed = installed, checked_release = Some r, fetched_commit = None, checked_verification = None,
             checked_assets = []\<rparr>
           else
             bind_result (fetch_tag checkout (release_tag r)) (\<lambda>fetched.
             let signed = (if fetched = None then Unsigned else verify_tag checkout (release_tag r)) in
             bind_result (verified_assets lib source r) (\<lambda>(assets, verifications).
               Ok \<lparr>checked_installed = installed, checked_release = Some r, fetched_commit = fetched,
                  checked_verification = Some \<lparr>commit_matches = (fetched = Some (release_commit r)), signature = signed,
                    verified_assets_found = verifications, provenance = ProvenanceNotVerified\<rparr>,
                  checked_assets = assets\<rparr>))))"

definition update_available :: "'b release_check \<Rightarrow> bool" where
  "update_available c \<longleftrightarrow>
     (case checked_release c of
        None \<Rightarrow> False
      | Some r \<Rightarrow> (case installed_version (checked_installed c) of None \<Rightarrow> True | Some v \<Rightarrow> v < release_version_of r))"

end
