(* ===== verification/Update_Planning.thy ===== *)
theory Update_Planning
  imports Update_Release
begin

text \<open>
  Deciding what an update would do: what an installation is observed to be
  (\<^verbatim>\<open>src/application/software_update/installation.py\<close>), what the planner decides with (\<^verbatim>\<open>decisions.py\<close>) and the decision
  table itself (\<^verbatim>\<open>plan.py\<close>, \<^verbatim>\<open>plan_steps.py\<close>), with the caller that rehearses a plan before it offers it
  (\<^verbatim>\<open>src/infrastructure/cli/arch_update.py\<close>, \<^verbatim>\<open>_planning_for\<close>). The wording of reasons, steps, questions and notes is left
  out: each is the constructor or the key that carries it.
\<close>

section \<open>Observations\<close>

datatype deployment_kind = LocalCheckout | ComposeHost | InContainer | RemoteAttached | Ambiguous

datatype gui_provisioning = FromRelease | BuildLocally | LeaveStale | InImage

datatype checkout_move = FastForward | Detach

datatype store_policy = ManualPolicy | PersistentPolicy

definition software_clean :: "installed_software \<Rightarrow> bool" where
  "software_clean s \<longleftrightarrow> modified_tracked s = []"

record dependency_selection =
  sync_groups :: "string list"
  sync_extras :: "string list"

definition sync_arguments :: "dependency_selection \<Rightarrow> string list" where
  "sync_arguments s =
     ''--frozen'' # concat (map (\<lambda>g. [''--group'', g]) (sync_groups s)) @ concat (map (\<lambda>e. [''--extra'', e]) (sync_extras s))"

record backend_observation =
  backend_running :: bool
  backend_pid :: "int option"
  backend_port :: "int option"
  backend_detached :: "bool option"
  serving_flags :: "string list"
  backend_unhealthy :: bool

record store_observation =
  store_configured :: bool
  held_open :: bool
  activation_policy :: "store_policy option"
  key_readable :: "bool option"
  missing_credential_env :: "string option"

record tooling =
  has_uv :: bool
  has_npm :: bool
  has_gh :: bool
  has_docker :: bool

record installation_observation =
  observed_kind :: deployment_kind
  observed_software :: installed_software
  observed_selection :: dependency_selection
  observed_backend :: backend_observation
  observed_store :: store_observation
  remotes_needing_credentials :: "string list"
  observed_tooling :: tooling
  is_interactive :: bool

section \<open>Decisions\<close>

record rehearsal_verdict =
  rehearsed_repositories :: nat
  rehearsed_targets :: nat
  rehearsed_migratable :: nat
  rehearsal_blocking :: "string list"
  rehearsal_uninspectable :: "string list"
  rehearsal_errors :: "string list"

definition rehearsal_not_run :: "string \<Rightarrow> rehearsal_verdict" where
  "rehearsal_not_run reason =
     \<lparr>rehearsed_repositories = 0, rehearsed_targets = 0, rehearsed_migratable = 0, rehearsal_blocking = [],
      rehearsal_uninspectable = [], rehearsal_errors = [reason]\<rparr>"

definition could_not_run :: "rehearsal_verdict \<Rightarrow> bool" where
  "could_not_run v \<longleftrightarrow> rehearsed_repositories v = 0 \<and> rehearsed_targets v = 0 \<and> rehearsal_errors v \<noteq> []"

definition rehearsal_clear :: "rehearsal_verdict \<Rightarrow> bool" where
  "rehearsal_clear v \<longleftrightarrow> rehearsal_blocking v = [] \<and> rehearsal_uninspectable v = [] \<and> rehearsal_errors v = []"

datatype credential_question = GitCredential | VaultMasterPassword (credential_env: string)

datatype update_outcome = WasUpToDate | Updated | Blocked | Partial | InfrastructureFailure

datatype refusal_reason =
    InsideContainer | AttachedToRemote | AmbiguousDeployment | NoUv
  | CommitMismatch | SignatureRefused signature_verdict | AssetRefused string
  | ModifiedCheckout | BackendNotAnswering | BackendInForeground
  | RehearsalFailed | RehearsalNotClean | CredentialNeeded

datatype step_key =
    StopBackend | MoveCheckout | SyncEnvironment | ProvisionGui | ReconcileAssets | Migrate | StartBackend | AuthorizeStore | Verify

datatype plan_note = SignatureNotEnforcedNote | ProvenanceNote | StaleGuiNote | BridgesNote

record update_plan =
  plan_target :: release_version
  plan_move :: checkout_move
  plan_gui :: gui_provisioning
  plan_steps :: "step_key list"
  plan_questions :: "credential_question list"
  plan_notes :: "plan_note list"
  restart_backend :: bool
  authorize_after :: bool

datatype planning_result =
    UpToDate release_version
  | UpdateRefused refusal_reason update_outcome
  | UpdatePlanned update_plan

section \<open>The decision table\<close>

definition provision_gui :: "installation_observation \<Rightarrow> published_release \<Rightarrow> gui_provisioning" where
  "provision_gui obs r =
     (if observed_kind obs = ComposeHost then InImage
      else if release_asset_named r (gui_bundle_name r) \<noteq> None then FromRelease
      else if has_npm (observed_tooling obs) then BuildLocally else LeaveStale)"

definition credential_questions :: "installation_observation \<Rightarrow> credential_question list" where
  "credential_questions obs =
     (if observed_kind obs = ComposeHost then []
      else
        (if backend_running (observed_backend obs) \<and> remotes_needing_credentials obs \<noteq> [] then [GitCredential] else []) @
        (let st = observed_store obs in
         if held_open st \<and> activation_policy st = Some ManualPolicy \<and> key_readable st = Some False \<and> truthy (missing_credential_env st)
         then [VaultMasterPassword (the (missing_credential_env st))] else []))"

definition compose_steps :: "step_key list" where
  "compose_steps = [MoveCheckout, SyncEnvironment, StopBackend, Migrate, StartBackend, Verify]"

definition steps_of_update :: "installation_observation \<Rightarrow> bool \<Rightarrow> bool \<Rightarrow> step_key list" where
  "steps_of_update obs restart authorize =
     (if observed_kind obs = ComposeHost then compose_steps
      else (if restart then [StopBackend] else []) @ [MoveCheckout, SyncEnvironment, ProvisionGui, ReconcileAssets, Migrate] @
        (if restart then [StartBackend] else []) @ (if authorize then [AuthorizeStore] else []) @ [Verify])"

definition notes_of_update :: "installation_observation \<Rightarrow> gui_provisioning \<Rightarrow> release_verification \<Rightarrow> plan_note list" where
  "notes_of_update obs gui ver =
     (if signature ver = NotEnforced then [SignatureNotEnforcedNote] else []) @
     (if provenance ver = ProvenanceNotVerified then [ProvenanceNote] else []) @
     (if gui = LeaveStale then [StaleGuiNote] else []) @
     (if backend_running (observed_backend obs) then [BridgesNote] else [])"

text \<open>The first reason that applies; an asset that fails is named.\<close>

definition update_refusal ::
    "installation_observation \<Rightarrow> release_verification \<Rightarrow> rehearsal_verdict option \<Rightarrow> (refusal_reason \<times> update_outcome) option" where
  "update_refusal obs ver rehearsal =
     (if observed_kind obs = InContainer then Some (InsideContainer, InfrastructureFailure)
      else if observed_kind obs = RemoteAttached then Some (AttachedToRemote, InfrastructureFailure)
      else if observed_kind obs = Ambiguous then Some (AmbiguousDeployment, Blocked)
      else if \<not> has_uv (observed_tooling obs) then Some (NoUv, InfrastructureFailure)
      else if \<not> commit_matches ver then Some (CommitMismatch, InfrastructureFailure)
      else if signature ver \<in> {Unsigned, Untrusted} \<and> signers_file_present (observed_software obs)
      then Some (SignatureRefused (signature ver), InfrastructureFailure)
      else
        (case filter (\<lambda>a. \<not> asset_ok a) (verified_assets_found ver) of
           a # _ \<Rightarrow> Some (AssetRefused (verified_asset a), InfrastructureFailure)
         | [] \<Rightarrow>
      if \<not> software_clean (observed_software obs) then Some (ModifiedCheckout, Blocked)
      else if backend_unhealthy (observed_backend obs) then Some (BackendNotAnswering, Blocked)
      else if backend_running (observed_backend obs) \<and> backend_detached (observed_backend obs) = Some False
      then Some (BackendInForeground, Blocked)
      else if (case rehearsal of None \<Rightarrow> False | Some v \<Rightarrow> \<not> rehearsal_clear v)
      then Some (if could_not_run (the rehearsal) then RehearsalFailed else RehearsalNotClean, Blocked)
      else if \<not> is_interactive obs \<and> credential_questions obs \<noteq> [] then Some (CredentialNeeded, InfrastructureFailure)
      else None))"

definition planned_update ::
    "installation_observation \<Rightarrow> published_release \<Rightarrow> release_verification \<Rightarrow> gui_provisioning option \<Rightarrow> bool \<Rightarrow> update_plan" where
  "planned_update obs r ver gui_source on_main =
     (let gui = (case gui_source of Some g \<Rightarrow> g | None \<Rightarrow> provision_gui obs r);
          restart = backend_running (observed_backend obs);
          authorize = held_open (observed_store obs) \<and> activation_policy (observed_store obs) = Some ManualPolicy in
      \<lparr>plan_target = release_version_of r, plan_move = (if on_main then FastForward else Detach), plan_gui = gui,
       plan_steps = steps_of_update obs restart authorize, plan_questions = credential_questions obs,
       plan_notes = notes_of_update obs gui ver, restart_backend = restart, authorize_after = authorize\<rparr>)"

definition decided_update ::
    "installation_observation \<Rightarrow> published_release \<Rightarrow> release_verification \<Rightarrow> rehearsal_verdict option \<Rightarrow> gui_provisioning option \<Rightarrow> bool
      \<Rightarrow> planning_result" where
  "decided_update obs r ver rehearsal gui_source on_main =
     (case update_refusal obs ver rehearsal of
        Some (reason, out) \<Rightarrow> UpdateRefused reason out
      | None \<Rightarrow> UpdatePlanned (planned_update obs r ver gui_source on_main))"

definition plan_update ::
    "installation_observation \<Rightarrow> published_release \<Rightarrow> release_verification \<Rightarrow> rehearsal_verdict option \<Rightarrow> gui_provisioning option \<Rightarrow> bool
      \<Rightarrow> planning_result" where
  "plan_update obs r ver rehearsal gui_source on_main =
     (case installed_version (observed_software obs) of
        Some v \<Rightarrow> if release_version_of r \<le> v then UpToDate v else decided_update obs r ver rehearsal gui_source on_main
      | None \<Rightarrow> decided_update obs r ver rehearsal gui_source on_main)"

section \<open>Rehearsing a plan before it is offered\<close>

text \<open>The rehearsal runs only for a plan that would otherwise stand; it costs a worktree.\<close>

definition planning_for ::
    "'b release_check \<Rightarrow> installation_observation \<Rightarrow> gui_provisioning option \<Rightarrow> bool \<Rightarrow> bool \<Rightarrow> (published_release \<Rightarrow> rehearsal_verdict)
      \<Rightarrow> planning_result option \<times> rehearsal_verdict option" where
  "planning_for check obs gui_source on_main rehearse_first rehearse =
     (case checked_release check of
        None \<Rightarrow> (None, None)
      | Some r \<Rightarrow>
          (case (if update_available check then None else installed_version (checked_installed check)) of
             Some v \<Rightarrow> (Some (UpToDate v), None)
           | None \<Rightarrow>
               (case checked_verification check of
                  None \<Rightarrow> (None, None)
                | Some ver \<Rightarrow>
                    (let preliminary = plan_update obs r ver None gui_source on_main in
                     case preliminary of
                       UpdatePlanned p \<Rightarrow>
                         if \<not> rehearse_first then (Some preliminary, None)
                         else (Some (plan_update obs r ver (Some (rehearse r)) gui_source on_main), Some (rehearse r))
                     | _ \<Rightarrow> (Some preliminary, None)))))"

end
