(* ===== verification/Update_Journal.thy ===== *)
theory Update_Journal
  imports Update_Planning Change_Records
begin

text \<open>
  The record of an update that survives between its phases and its two processes
  (\<^verbatim>\<open>src/application/software_update/journal.py\<close>): the phases in their order, the transitions of a journal, what a rollback
  has to reverse, and the mapping the journal file holds. \<^verbatim>\<open>JournalInvalid\<close> is the left summand.
\<close>

section \<open>Phases\<close>

datatype update_phase =
    Planned | BackendStopped | CheckoutMoved | EnvironmentSynced | GuiInstalled | AssetsReconciled | Migrated
  | BackendStarted | StoreAuthorized | Verified

definition PHASE_ORDER :: "update_phase list" where
  "PHASE_ORDER =
     [Planned, BackendStopped, CheckoutMoved, EnvironmentSynced, GuiInstalled, AssetsReconciled, Migrated,
      BackendStarted, StoreAuthorized, Verified]"

definition FIRST_WRITING_PHASE :: update_phase where
  "FIRST_WRITING_PHASE = BackendStopped"

definition HANDOVER_PHASE :: update_phase where
  "HANDOVER_PHASE = EnvironmentSynced"

definition phase_index :: "update_phase \<Rightarrow> nat" where
  "phase_index p = length (takeWhile (\<lambda>q. q \<noteq> p) PHASE_ORDER)"

fun update_phase_name :: "update_phase \<Rightarrow> string" where
  "update_phase_name Planned = ''planned''"
| "update_phase_name BackendStopped = ''backend_stopped''"
| "update_phase_name CheckoutMoved = ''checkout_moved''"
| "update_phase_name EnvironmentSynced = ''environment_synced''"
| "update_phase_name GuiInstalled = ''gui_installed''"
| "update_phase_name AssetsReconciled = ''assets_reconciled''"
| "update_phase_name Migrated = ''migrated''"
| "update_phase_name BackendStarted = ''backend_started''"
| "update_phase_name StoreAuthorized = ''store_authorized''"
| "update_phase_name Verified = ''verified''"

section \<open>The journal\<close>

record previous_state =
  previous_version :: string
  previous_commit :: string
  previous_branch :: "string option"
  previous_backend :: backend_observation
  store_held_open :: bool

record target_release =
  target_version :: string
  target_tag :: string
  target_commit :: string
  target_bundle :: "string option"
  target_bundle_sha256 :: "string option"

record update_journal =
  journal_started_at :: string
  journal_previous :: previous_state
  journal_target :: target_release
  journal_selection :: dependency_selection
  journal_move :: checkout_move
  journal_gui :: gui_provisioning
  journal_phase :: update_phase
  resume_command :: "string list"
  in_flight :: "update_phase option"
  checkpoint_set :: "string option"
  migration_committed :: bool
  journal_notes :: "string list"
  journal_deployment :: string
  journal_compose_file :: "string option"

datatype journal_error = OutOfOrder update_phase update_phase | WrongFormat pyval | UnknownPhase pyval | UnknownPhaseInFlight pyval | BadField

definition begin_phase :: "update_phase \<Rightarrow> update_journal \<Rightarrow> (journal_error, update_journal) result" where
  "begin_phase p j =
     (if phase_index p \<noteq> phase_index (journal_phase j) + 1 then Err (OutOfOrder p (journal_phase j))
      else Ok (j\<lparr>in_flight := Some p\<rparr>))"

definition advance_phase :: "update_phase \<Rightarrow> update_journal \<Rightarrow> (journal_error, update_journal) result" where
  "advance_phase p j =
     (if phase_index p \<noteq> phase_index (journal_phase j) + 1 then Err (OutOfOrder (journal_phase j) p)
      else Ok (j\<lparr>journal_phase := p, in_flight := None\<rparr>))"

definition next_phase :: "update_journal \<Rightarrow> update_phase option" where
  "next_phase j =
     (let i = phase_index (journal_phase j) + 1 in if i < length PHASE_ORDER then Some (PHASE_ORDER ! i) else None)"

definition reached_phase :: "update_phase \<Rightarrow> update_journal \<Rightarrow> bool" where
  "reached_phase p j \<longleftrightarrow> phase_index p \<le> phase_index (journal_phase j)"

definition handed_over :: "update_journal \<Rightarrow> bool" where
  "handed_over j \<longleftrightarrow> reached_phase HANDOVER_PHASE j"

definition journal_complete :: "update_journal \<Rightarrow> bool" where
  "journal_complete j \<longleftrightarrow> journal_phase j = Verified"

definition last_begun :: "update_journal \<Rightarrow> update_phase" where
  "last_begun j = (case in_flight j of Some p \<Rightarrow> p | None \<Rightarrow> journal_phase j)"

definition phases_to_reverse :: "update_journal \<Rightarrow> update_phase list" where
  "phases_to_reverse j = rev (drop (phase_index FIRST_WRITING_PHASE) (take (phase_index (last_begun j) + 1) PHASE_ORDER))"

definition touched :: "update_phase \<Rightarrow> update_journal \<Rightarrow> bool" where
  "touched p j \<longleftrightarrow> p \<in> set (phases_to_reverse j)"

section \<open>The journal file\<close>

fun move_name :: "checkout_move \<Rightarrow> string" where
  "move_name FastForward = ''fast_forward''"
| "move_name Detach = ''detach''"

fun gui_name :: "gui_provisioning \<Rightarrow> string" where
  "gui_name FromRelease = ''from_release''"
| "gui_name BuildLocally = ''build_locally''"
| "gui_name LeaveStale = ''leave_stale''"
| "gui_name InImage = ''in_image''"

text \<open>An optional text, number or truth value as the file holds it.\<close>

definition text_field :: "string option \<Rightarrow> pyval" where
  "text_field v = (case v of None \<Rightarrow> PNone | Some s \<Rightarrow> PStr s)"

definition int_field :: "int option \<Rightarrow> pyval" where
  "int_field v = (case v of None \<Rightarrow> PNone | Some i \<Rightarrow> PInt i)"

definition texts_field :: "string list \<Rightarrow> pyval" where
  "texts_field ss = PList (map PStr ss)"

definition backend_payload :: "backend_observation \<Rightarrow> payload" where
  "backend_payload b =
     [(''running'', PBool (backend_running b)), (''pid'', int_field (backend_pid b)), (''port'', int_field (backend_port b)),
      (''detached'', (case backend_detached b of None \<Rightarrow> PNone | Some d \<Rightarrow> PBool d)),
      (''flags'', texts_field (serving_flags b)), (''unhealthy'', PBool (backend_unhealthy b))]"

definition previous_payload :: "previous_state \<Rightarrow> payload" where
  "previous_payload p =
     [(''version'', PStr (previous_version p)), (''commit'', PStr (previous_commit p)),
      (''branch'', text_field (previous_branch p)), (''backend'', PDict (backend_payload (previous_backend p))),
      (''store_held_open'', PBool (store_held_open p))]"

definition target_payload :: "target_release \<Rightarrow> payload" where
  "target_payload t =
     [(''version'', PStr (target_version t)), (''tag'', PStr (target_tag t)), (''commit'', PStr (target_commit t)),
      (''gui_bundle'', text_field (target_bundle t)), (''gui_bundle_sha256'', text_field (target_bundle_sha256 t))]"

definition journal_to_mapping :: "update_journal \<Rightarrow> payload" where
  "journal_to_mapping j =
     [(''format'', PInt 1), (''started_at'', PStr (journal_started_at j)),
      (''previous'', PDict (previous_payload (journal_previous j))), (''target'', PDict (target_payload (journal_target j))),
      (''selection'', PDict [(''groups'', texts_field (sync_groups (journal_selection j))),
        (''extras'', texts_field (sync_extras (journal_selection j)))]),
      (''checkout_move'', PStr (move_name (journal_move j))), (''gui'', PStr (gui_name (journal_gui j))),
      (''phase'', PStr (update_phase_name (journal_phase j))), (''resume_command'', texts_field (resume_command j)),
      (''in_flight'', text_field (map_option update_phase_name (in_flight j))),
      (''checkpoint_set'', text_field (checkpoint_set j)), (''migration_committed'', PBool (migration_committed j)),
      (''notes'', texts_field (journal_notes j)), (''deployment'', PStr (journal_deployment j)),
      (''compose_file'', text_field (journal_compose_file j))]"

text \<open>\<^const>\<open>None\<close> is a \<^verbatim>\<open>KeyError\<close> or a \<^verbatim>\<open>TypeError\<close>, which the reader turns into one refusal.\<close>

definition mapping_of :: "pyval \<Rightarrow> payload option" where
  "mapping_of v = (case v of PDict d \<Rightarrow> Some d | _ \<Rightarrow> None)"

definition texts_of :: "pyval \<Rightarrow> string list option" where
  "texts_of v = map_option (map py_str) (sequence_items v)"

definition optional_text :: "pyval \<Rightarrow> string option" where
  "optional_text v = (if v = PNone then None else Some (py_str v))"

definition optional_int :: "pyval \<Rightarrow> int option option" where
  "optional_int v =
     (case v of PNone \<Rightarrow> Some None | PInt i \<Rightarrow> Some (Some i) | PBool b \<Rightarrow> Some (Some (of_bool b)) | _ \<Rightarrow> None)"

definition member_named :: "('a \<Rightarrow> string) \<Rightarrow> 'a list \<Rightarrow> pyval \<Rightarrow> 'a option" where
  "member_named nm xs v = List.find (\<lambda>x. v = PStr (nm x)) xs"

definition backend_of_payload :: "payload \<Rightarrow> backend_observation option" where
  "backend_of_payload d =
     Option.bind (map_of d ''running'') (\<lambda>running.
     Option.bind (optional_int (get_or d ''pid'' PNone)) (\<lambda>pid.
     Option.bind (optional_int (get_or d ''port'' PNone)) (\<lambda>port.
     Option.bind (texts_of (get_or d ''flags'' (PTuple []))) (\<lambda>flags.
       Some \<lparr>backend_running = py_truth running, backend_pid = pid, backend_port = port,
         backend_detached = (let v = get_or d ''detached'' PNone in if v = PNone then None else Some (py_truth v)),
         serving_flags = flags, backend_unhealthy = py_truth (get_or d ''unhealthy'' (PBool False))\<rparr>))))"

definition previous_of_payload :: "payload \<Rightarrow> previous_state option" where
  "previous_of_payload d =
     Option.bind (Option.bind (map_of d ''backend'') mapping_of) (\<lambda>b.
     Option.bind (backend_of_payload b) (\<lambda>backend.
     Option.bind (map_of d ''version'') (\<lambda>version.
     Option.bind (map_of d ''commit'') (\<lambda>commit.
     Option.bind (map_of d ''store_held_open'') (\<lambda>held.
       Some \<lparr>previous_version = py_str version, previous_commit = py_str commit,
         previous_branch = optional_text (get_or d ''branch'' PNone), previous_backend = backend,
         store_held_open = py_truth held\<rparr>)))))"

definition target_of_payload :: "payload \<Rightarrow> target_release option" where
  "target_of_payload d =
     Option.bind (map_of d ''version'') (\<lambda>version.
     Option.bind (map_of d ''tag'') (\<lambda>tag.
     Option.bind (map_of d ''commit'') (\<lambda>commit.
       Some \<lparr>target_version = py_str version, target_tag = py_str tag, target_commit = py_str commit,
         target_bundle = optional_text (get_or d ''gui_bundle'' PNone),
         target_bundle_sha256 = optional_text (get_or d ''gui_bundle_sha256'' PNone)\<rparr>)))"

definition selection_of_payload :: "payload \<Rightarrow> dependency_selection option" where
  "selection_of_payload d =
     Option.bind (Option.bind (map_of d ''groups'') texts_of) (\<lambda>groups.
     Option.bind (Option.bind (map_of d ''extras'') texts_of) (\<lambda>extras.
       Some \<lparr>sync_groups = groups, sync_extras = extras\<rparr>))"

definition journal_of_fields :: "payload \<Rightarrow> update_phase \<Rightarrow> update_phase option \<Rightarrow> update_journal option" where
  "journal_of_fields d phase flight =
     Option.bind (Option.bind (Option.bind (map_of d ''previous'') mapping_of) previous_of_payload) (\<lambda>previous.
     Option.bind (Option.bind (Option.bind (map_of d ''target'') mapping_of) target_of_payload) (\<lambda>target.
     Option.bind (Option.bind (Option.bind (map_of d ''selection'') mapping_of) selection_of_payload) (\<lambda>selection.
     Option.bind (map_of d ''started_at'') (\<lambda>started.
     Option.bind (Option.bind (map_of d ''checkout_move'') (member_named move_name [FastForward, Detach])) (\<lambda>move.
     Option.bind (Option.bind (map_of d ''gui'') (member_named gui_name [FromRelease, BuildLocally, LeaveStale, InImage])) (\<lambda>gui.
     Option.bind (Option.bind (map_of d ''resume_command'') texts_of) (\<lambda>command.
     Option.bind (texts_of (get_or d ''notes'' (PTuple []))) (\<lambda>notes.
       Some \<lparr>journal_started_at = py_str started, journal_previous = previous, journal_target = target,
         journal_selection = selection, journal_move = move, journal_gui = gui, journal_phase = phase,
         resume_command = command, in_flight = flight,
         checkpoint_set = optional_text (get_or d ''checkpoint_set'' PNone),
         migration_committed = py_truth (get_or d ''migration_committed'' (PBool False)), journal_notes = notes,
         journal_deployment = py_str (get_or d ''deployment'' (PStr ''local-checkout'')),
         journal_compose_file = optional_text (get_or d ''compose_file'' PNone)\<rparr>))))))))"

text \<open>The format is compared with \<^verbatim>\<open>!=\<close>, and \<^verbatim>\<open>True\<close> equals one.\<close>

definition journal_from_mapping :: "payload \<Rightarrow> (journal_error, update_journal) result" where
  "journal_from_mapping d =
     (let format = get_or d ''format'' PNone; phase = get_or d ''phase'' PNone; flight = get_or d ''in_flight'' PNone in
      if format \<notin> {PInt 1, PBool True} then Err (WrongFormat format)
      else (case member_named update_phase_name PHASE_ORDER phase of
          None \<Rightarrow> Err (UnknownPhase phase)
        | Some p \<Rightarrow>
            if flight = PNone
            then (case journal_of_fields d p None of None \<Rightarrow> Err BadField | Some j \<Rightarrow> Ok j)
            else (case member_named update_phase_name PHASE_ORDER flight of
                None \<Rightarrow> Err (UnknownPhaseInFlight flight)
              | Some q \<Rightarrow> (case journal_of_fields d p (Some q) of None \<Rightarrow> Err BadField | Some j \<Rightarrow> Ok j))))"

section \<open>What is written is read back\<close>

lemma field_simps:
  "optional_text (text_field v) = v" "optional_int (int_field i) = Some i" "texts_of (texts_field ss) = Some ss"
  by (auto simp: optional_text_def text_field_def optional_int_def int_field_def texts_of_def texts_field_def split: option.splits)

lemma member_names:
  "member_named move_name [FastForward, Detach] (PStr (move_name m)) = Some m"
  "member_named gui_name [FromRelease, BuildLocally, LeaveStale, InImage] (PStr (gui_name g)) = Some g"
  "member_named update_phase_name PHASE_ORDER (PStr (update_phase_name p)) = Some p"
  by (cases m; simp add: member_named_def) (cases g; simp add: member_named_def; cases p; simp add: member_named_def PHASE_ORDER_def)+

lemma backend_read_back: "backend_of_payload (backend_payload b) = Some b"
  by (cases "backend_detached b") (simp_all add: backend_of_payload_def backend_payload_def field_simps)

lemma previous_read_back: "previous_of_payload (previous_payload p) = Some p"
  by (simp add: previous_of_payload_def previous_payload_def mapping_of_def backend_read_back field_simps)

lemma target_read_back: "target_of_payload (target_payload t) = Some t"
  by (simp add: target_of_payload_def target_payload_def field_simps)

lemma fields_read_back:
  "journal_of_fields (journal_to_mapping j) (journal_phase j) (in_flight j) = Some j"
  by (simp add: journal_of_fields_def journal_to_mapping_def mapping_of_def previous_read_back target_read_back
    selection_of_payload_def field_simps member_names)

lemma journal_read_back: "journal_from_mapping (journal_to_mapping j) = Ok j"
proof -
  have "get_or (journal_to_mapping j) ''format'' PNone = PInt 1"
    "get_or (journal_to_mapping j) ''phase'' PNone = PStr (update_phase_name (journal_phase j))"
    "get_or (journal_to_mapping j) ''in_flight'' PNone = text_field (map_option update_phase_name (in_flight j))"
    by (simp_all add: journal_to_mapping_def)
  then show ?thesis using fields_read_back [of j]
    by (cases "in_flight j") (simp_all add: journal_from_mapping_def member_names text_field_def)
qed

interpretation journal_codec: codec "\<lambda>_. True" journal_to_mapping journal_from_mapping
  by unfold_locales (simp_all add: journal_read_back)

section \<open>Transitions\<close>

lemma phase_index_simps [simp]:
  "phase_index Planned = 0" "phase_index BackendStopped = 1" "phase_index CheckoutMoved = 2" "phase_index EnvironmentSynced = 3"
  "phase_index GuiInstalled = 4" "phase_index AssetsReconciled = 5" "phase_index Migrated = 6" "phase_index BackendStarted = 7"
  "phase_index StoreAuthorized = 8" "phase_index Verified = 9"
  by (simp_all add: phase_index_def PHASE_ORDER_def)

lemma phase_index_inj: "phase_index p = phase_index q \<longleftrightarrow> p = q"
  by (cases p; cases q) simp_all

lemma phase_index_bound: "phase_index p < 10"
  by (cases p) simp_all

lemma phase_at_index: "PHASE_ORDER ! phase_index p = p"
  by (cases p) (simp_all add: PHASE_ORDER_def)

lemma next_phase_iff: "next_phase j = Some p \<longleftrightarrow> phase_index p = phase_index (journal_phase j) + 1"
  by (cases "journal_phase j"; cases p) (simp_all add: next_phase_def PHASE_ORDER_def)

lemma touched_iff: "touched p j \<longleftrightarrow> 1 \<le> phase_index p \<and> phase_index p \<le> phase_index (last_begun j)"
  unfolding touched_def phases_to_reverse_def FIRST_WRITING_PHASE_def
  by (cases p; cases "last_begun j") (simp_all add: PHASE_ORDER_def)

lemmas journal_transitions = begin_phase_def advance_phase_def next_phase_iff touched_iff last_begun_def

end
