(* ===== verification/Update_Phases.thy ===== *)
theory Update_Phases
  imports Update_Journal
begin

text \<open>
  Performing an update and putting it back: the phase runner (\<^verbatim>\<open>src/application/software_update/apply.py\<close>), the reversals
  of a rollback in their order (\<^verbatim>\<open>rollback.py\<close>), how an update ended (\<^verbatim>\<open>outcome.py\<close>) and how the exit of the data
  upgrade is read (\<^verbatim>\<open>src/infrastructure/software_update/_migration.py\<close>). The effects on a deployment are a port
  (\<^verbatim>\<open>ports.py\<close>): a record of functions over a state \<^typ>\<open>'w\<close> that is left abstract. The journal file is a value, absent or
  a journal; writing it does not fail here.
\<close>

section \<open>Effects\<close>

datatype action_error = ActionFailed string | MigrationIncomplete string "string option"

type_synonym ('w, 'a) effect = "'w \<Rightarrow> (action_error, 'a) result \<times> 'w"

record 'w update_actions =
  act_stop_backend :: "int option \<Rightarrow> ('w, unit) effect"
  act_start_backend :: "backend_observation \<Rightarrow> ('w, unit) effect"
  act_move_checkout :: "string \<Rightarrow> checkout_move \<Rightarrow> ('w, unit) effect"
  act_restore_checkout :: "string \<Rightarrow> string option \<Rightarrow> ('w, unit) effect"
  act_sync_environment :: "dependency_selection \<Rightarrow> ('w, unit) effect"
  act_install_gui :: "gui_provisioning \<Rightarrow> target_release \<Rightarrow> ('w, unit) effect"
  act_restore_gui :: "('w, unit) effect"
  act_reconcile_assets :: "('w, string list) effect"
  act_migrate :: "('w, string option \<times> bool) effect"
  act_restore_checkpoint :: "string \<Rightarrow> ('w, unit) effect"
  act_authorize_store :: "('w, unit) effect"
  act_verify :: "target_release \<Rightarrow> bool \<Rightarrow> ('w, unit) effect"

section \<open>The exit of the data upgrade\<close>

definition WROTE_NOTHING :: "int set" where
  "WROTE_NOTHING = {3, 21}"

definition migration_result :: "int \<Rightarrow> string option \<Rightarrow> (action_error, string option \<times> bool) result" where
  "migration_result returncode checkpoint =
     (if returncode = 0 then Ok (checkpoint, checkpoint \<noteq> None)
      else if returncode \<in> WROTE_NOTHING then Err (ActionFailed ''refused'')
      else Err (MigrationIncomplete ''incomplete'' checkpoint))"

section \<open>The phase runner\<close>

definition after_action :: "('a \<Rightarrow> update_journal) \<Rightarrow> (action_error, 'a) result \<times> 'w \<Rightarrow> (action_error, update_journal) result \<times> 'w" where
  "after_action f rw = (case rw of (Inl e, w) \<Rightarrow> (Err e, w) | (Inr a, w) \<Rightarrow> (Ok (f a), w))"

fun perform_phase :: "'w update_actions \<Rightarrow> update_journal \<Rightarrow> update_phase \<Rightarrow> ('w, update_journal) effect" where
  "perform_phase acts j BackendStopped w =
     (if backend_running (previous_backend (journal_previous j))
      then after_action (\<lambda>_. j) (act_stop_backend acts (backend_port (previous_backend (journal_previous j))) w) else (Ok j, w))"
| "perform_phase acts j CheckoutMoved w = after_action (\<lambda>_. j) (act_move_checkout acts (target_tag (journal_target j)) (journal_move j) w)"
| "perform_phase acts j EnvironmentSynced w = after_action (\<lambda>_. j) (act_sync_environment acts (journal_selection j) w)"
| "perform_phase acts j GuiInstalled w = after_action (\<lambda>_. j) (act_install_gui acts (journal_gui j) (journal_target j) w)"
| "perform_phase acts j AssetsReconciled w =
     after_action (\<lambda>changed. if changed = [] then j else j\<lparr>journal_notes := journal_notes j @ changed\<rparr>) (act_reconcile_assets acts w)"
| "perform_phase acts j Migrated w =
     after_action (\<lambda>(checkpoint, committed). j\<lparr>checkpoint_set := checkpoint, migration_committed := committed\<rparr>) (act_migrate acts w)"
| "perform_phase acts j BackendStarted w =
     (if backend_running (previous_backend (journal_previous j))
      then after_action (\<lambda>_. j) (act_start_backend acts (previous_backend (journal_previous j)) w) else (Ok j, w))"
| "perform_phase acts j StoreAuthorized w =
     (if store_held_open (journal_previous j) then after_action (\<lambda>_. j) (act_authorize_store acts w) else (Ok j, w))"
| "perform_phase acts j Verified w =
     after_action (\<lambda>_. j) (act_verify acts (journal_target j) (backend_running (previous_backend (journal_previous j))) w)"
| "perform_phase acts j Planned w = (Err (ActionFailed ''planned is the journal's starting phase, never run''), w)"

text \<open>An action changes of the journal at most its notes and what it says of the data upgrade.\<close>

lemma perform_phase_journal:
  "perform_phase acts j p w = (Inr j', w') \<Longrightarrow>
     journal_phase j' = journal_phase j \<and> in_flight j' = in_flight j \<and> journal_previous j' = journal_previous j \<and>
     journal_target j' = journal_target j \<and> journal_selection j' = journal_selection j \<and> p \<noteq> Planned \<and>
     (p \<noteq> Migrated \<longrightarrow> checkpoint_set j' = checkpoint_set j \<and> migration_committed j' = migration_committed j)"
  by (cases p) (auto simp: after_action_def split: if_splits prod.splits sum.splits)

lemma begun_journal:
  "begin_phase p j = Inr j' \<Longrightarrow> phase_index p = phase_index (journal_phase j) + 1 \<and> j' = j\<lparr>in_flight := Some p\<rparr>"
  by (simp add: begin_phase_def split: if_splits)

lemma advanced_journal:
  "advance_phase p j = Inr j' \<Longrightarrow>
     phase_index p = phase_index (journal_phase j) + 1 \<and> j' = j\<lparr>journal_phase := p, in_flight := None\<rparr>"
  by (simp add: advance_phase_def split: if_splits)

datatype run_failure = PhaseFailed update_journal update_phase string | JournalRefused journal_error

text \<open>The journal file and the state of the deployment.\<close>

type_synonym 'w site = "update_journal option \<times> 'w"

function run_phases :: "'w update_actions \<Rightarrow> update_phase \<Rightarrow> update_journal \<Rightarrow> 'w site \<Rightarrow> (run_failure, update_journal) result \<times> 'w site" where
  "run_phases acts through j (slot, w) =
     (case next_phase j of
        None \<Rightarrow> (Ok j, slot, w)
      | Some p \<Rightarrow>
          if phase_index through < phase_index p then (Ok j, slot, w)
          else (case begin_phase p j of
              Inl e \<Rightarrow> (Err (JournalRefused e), slot, w)
            | Inr begun \<Rightarrow>
                (case perform_phase acts begun p w of
                   (Inl (MigrationIncomplete detail checkpoint), w') \<Rightarrow>
                     (let partial = begun\<lparr>checkpoint_set := checkpoint, migration_committed := True\<rparr> in
                      (Err (PhaseFailed partial p detail), Some partial, w'))
                 | (Inl (ActionFailed detail), w') \<Rightarrow> (Err (PhaseFailed begun p detail), Some begun, w')
                 | (Inr performed, w') \<Rightarrow>
                     (case advance_phase p performed of
                        Inl e \<Rightarrow> (Err (JournalRefused e), Some begun, w')
                      | Inr j' \<Rightarrow> run_phases acts through j' (Some j', w')))))"
  by pat_completeness auto

termination run_phases
proof (relation "measure (\<lambda>(acts, through, j, s). 10 - phase_index (journal_phase j))")
  fix through acts j slot w p begun x w' performed j'
  assume "begin_phase p j = Inr begun" "(x, w') = perform_phase acts begun p w" "x = Inr performed" "advance_phase p performed = Inr j'"
  then have "phase_index (journal_phase j') = Suc (phase_index (journal_phase j))"
    using perform_phase_journal [of acts begun p w performed w'] by (auto dest!: begun_journal advanced_journal)
  then show "((acts, through, j', Some j', w'), acts, through, j, slot, w) \<in> measure (\<lambda>(acts, through, j, s). 10 - phase_index (journal_phase j))"
    using phase_index_bound [of "journal_phase j'"] by simp
qed simp

declare run_phases.simps [simp del]

text \<open>The runner as a relation, phase by phase, and that it never leaves the order of the phases.\<close>

definition run_is_over :: "update_phase \<Rightarrow> update_journal \<Rightarrow> bool" where
  "run_is_over through j \<longleftrightarrow> (case next_phase j of None \<Rightarrow> True | Some p \<Rightarrow> phase_index through < phase_index p)"

inductive update_run :: "'w update_actions \<Rightarrow> update_phase \<Rightarrow> update_journal \<Rightarrow> 'w site \<Rightarrow> (run_failure, update_journal) result \<Rightarrow> 'w site \<Rightarrow> bool"
  for acts :: "'w update_actions" and through :: update_phase where
  run_over: "run_is_over through j \<Longrightarrow> update_run acts through j s (Inr j) s"
| run_partial: "\<lbrakk>\<not> run_is_over through j; begin_phase p j = Inr b; perform_phase acts b p w = (Inl (MigrationIncomplete d c), w')\<rbrakk> \<Longrightarrow>
    update_run acts through j (slot, w) (Inl (PhaseFailed (b\<lparr>checkpoint_set := c, migration_committed := True\<rparr>) p d))
      (Some (b\<lparr>checkpoint_set := c, migration_committed := True\<rparr>), w')"
| run_failed: "\<lbrakk>\<not> run_is_over through j; begin_phase p j = Inr b; perform_phase acts b p w = (Inl (ActionFailed d), w')\<rbrakk> \<Longrightarrow>
    update_run acts through j (slot, w) (Inl (PhaseFailed b p d)) (Some b, w')"
| run_next: "\<lbrakk>\<not> run_is_over through j; begin_phase p j = Inr b; perform_phase acts b p w = (Inr performed, w');
      advance_phase p performed = Inr j'; update_run acts through j' (Some j', w') r s\<rbrakk> \<Longrightarrow>
    update_run acts through j (slot, w) r s"

lemma begin_next: "next_phase j = Some p \<Longrightarrow> begin_phase p j = Inr (j\<lparr>in_flight := Some p\<rparr>)"
  by (simp add: next_phase_iff begin_phase_def)

lemma advance_performed:
  assumes "begin_phase p j = Inr b" and "perform_phase acts b p w = (Inr d, w')"
  shows "advance_phase p d = Inr (d\<lparr>journal_phase := p, in_flight := None\<rparr>)"
  using assms perform_phase_journal [OF assms(2)] by (auto simp: advance_phase_def dest!: begun_journal)

lemma run_phases_run: "run_phases acts through j s = (r, s') \<Longrightarrow> update_run acts through j s r s'"
proof (induction acts through j s arbitrary: r s' rule: run_phases.induct)
  case (1 acts through j slot w)
  show ?case
  proof (cases "run_is_over through j")
    case True
    then show ?thesis using "1.prems" by (auto simp: run_phases.simps run_is_over_def intro: update_run.run_over split: option.splits)
  next
    case False
    then obtain p where p: "next_phase j = Some p" "\<not> phase_index through < phase_index p"
      by (auto simp: run_is_over_def split: option.splits)
    let ?b = "j\<lparr>in_flight := Some p\<rparr>"
    note b = begin_next [OF p(1)]
    obtain x w' where x: "perform_phase acts ?b p w = (x, w')" by (cases "perform_phase acts ?b p w")
    show ?thesis
    proof (cases x)
      case (Inl e)
      with "1.prems" p b x False show ?thesis
        by (cases e) (auto simp: run_phases.simps [of acts through j] Let_def intro: update_run.run_partial update_run.run_failed)
    next
      case (Inr d)
      let ?j = "d\<lparr>journal_phase := p, in_flight := None\<rparr>"
      note adv = advance_performed [OF b x [unfolded Inr]]
      have "run_phases acts through ?j (Some ?j, w') = (r, s')"
        using "1.prems" p b x Inr adv by (simp add: run_phases.simps [of acts through j])
      then have "update_run acts through ?j (Some ?j, w') r s'"
        using "1.IH" [OF p(1,2) b x [symmetric] Inr adv] by blast
      then show ?thesis using update_run.run_next [OF False b x [unfolded Inr] adv] by blast
    qed
  qed
qed

section \<open>Rollback\<close>

datatype reversal =
    StopStartedBackend | RestoreCheckpoint string | ReportInterruptedUpgrade | RestoreGui | ReturnCheckout | SyncPrevious
  | ReprovisionAssets | StartPreviousBackend | ReauthorizeStore

text \<open>What is attempted, in order. Reporting an interrupted upgrade is an entry of what remains, not an action.\<close>

definition reversals_of :: "update_journal \<Rightarrow> reversal list" where
  "reversals_of j =
     (let running = backend_running (previous_backend (journal_previous j)) in
      (if touched BackendStarted j \<and> running then [StopStartedBackend] else []) @
      (if touched Migrated j
       then (case checkpoint_set j of
               Some c \<Rightarrow> [RestoreCheckpoint c]
             | None \<Rightarrow> if in_flight j = Some Migrated then [ReportInterruptedUpgrade] else [])
       else []) @
      (if touched GuiInstalled j then [RestoreGui] else []) @
      (if touched CheckoutMoved j then [ReturnCheckout] else []) @
      (if touched CheckoutMoved j \<or> touched EnvironmentSynced j then [SyncPrevious] else []) @
      (if touched AssetsReconciled j then [ReprovisionAssets] else []) @
      (if touched BackendStopped j \<and> running
       then StartPreviousBackend # (if store_held_open (journal_previous j) then [ReauthorizeStore] else []) else []))"

definition ignoring :: "(action_error, 'a) result \<times> 'w \<Rightarrow> (action_error, unit) result \<times> 'w" where
  "ignoring rw = (case rw of (Inl e, w) \<Rightarrow> (Err e, w) | (Inr _, w) \<Rightarrow> (Ok (), w))"

fun perform_reversal :: "'w update_actions \<Rightarrow> update_journal \<Rightarrow> reversal \<Rightarrow> ('w, unit) effect" where
  "perform_reversal acts j StopStartedBackend w = act_stop_backend acts (backend_port (previous_backend (journal_previous j))) w"
| "perform_reversal acts j (RestoreCheckpoint c) w = act_restore_checkpoint acts c w"
| "perform_reversal acts j ReportInterruptedUpgrade w = (Err (ActionFailed ''interrupted''), w)"
| "perform_reversal acts j RestoreGui w = act_restore_gui acts w"
| "perform_reversal acts j ReturnCheckout w =
     act_restore_checkout acts (previous_commit (journal_previous j)) (previous_branch (journal_previous j)) w"
| "perform_reversal acts j SyncPrevious w = act_sync_environment acts (journal_selection j) w"
| "perform_reversal acts j ReprovisionAssets w = ignoring (act_reconcile_assets acts w)"
| "perform_reversal acts j StartPreviousBackend w = act_start_backend acts (previous_backend (journal_previous j)) w"
| "perform_reversal acts j ReauthorizeStore w = act_authorize_store acts w"

record rollback_result =
  restored :: "reversal list"
  remaining :: "reversal list"

definition rollback_complete :: "rollback_result \<Rightarrow> bool" where
  "rollback_complete r \<longleftrightarrow> remaining r = []"

fun attempt_reversals :: "'w update_actions \<Rightarrow> update_journal \<Rightarrow> reversal list \<Rightarrow> rollback_result \<times> 'w \<Rightarrow> rollback_result \<times> 'w" where
  "attempt_reversals acts j [] (res, w) = (res, w)"
| "attempt_reversals acts j (r # rs) (res, w) =
     (case perform_reversal acts j r w of
        (Inl e, w') \<Rightarrow> attempt_reversals acts j rs (res\<lparr>remaining := remaining res @ [r]\<rparr>, w')
      | (Inr _, w') \<Rightarrow> attempt_reversals acts j rs (res\<lparr>restored := restored res @ [r]\<rparr>, w'))"

definition roll_back :: "'w update_actions \<Rightarrow> update_journal \<Rightarrow> 'w site \<Rightarrow> rollback_result \<times> 'w site" where
  "roll_back acts j s =
     (case attempt_reversals acts j (reversals_of j) (\<lparr>restored = [], remaining = []\<rparr>, snd s) of (res, w) \<Rightarrow> (res, Some j, w))"

section \<open>Outcome\<close>

definition classify_outcome :: "update_journal \<Rightarrow> bool \<Rightarrow> bool option \<Rightarrow> update_outcome" where
  "classify_outcome j failed rolled_back =
     (if journal_complete j \<and> \<not> failed then Updated else if rolled_back = Some True then Blocked else Partial)"

fun exit_by_outcome :: "update_outcome \<Rightarrow> int" where
  "exit_by_outcome WasUpToDate = 0"
| "exit_by_outcome Updated = 0"
| "exit_by_outcome Blocked = 3"
| "exit_by_outcome Partial = 20"
| "exit_by_outcome InfrastructureFailure = 21"

section \<open>Reversals that all succeed\<close>

lemma attempt_reversals_parts:
  "attempt_reversals acts j rs (res, w) = (res', w') \<Longrightarrow>
     mset (restored res') + mset (remaining res') = mset (restored res) + mset (remaining res) + mset rs \<and>
     (remaining res' = [] \<longrightarrow> remaining res = [] \<and> restored res' = restored res @ rs)"
  by (induction acts j rs "(res, w)" arbitrary: res w rule: attempt_reversals.induct)
    (fastforce split: prod.splits sum.splits)+

text \<open>The state after a list of reversals of which none fails.\<close>

fun reversals_succeed :: "'w update_actions \<Rightarrow> update_journal \<Rightarrow> reversal list \<Rightarrow> 'w \<Rightarrow> 'w option" where
  "reversals_succeed acts j [] w = Some w"
| "reversals_succeed acts j (r # rs) w =
     (case perform_reversal acts j r w of (Inl e, w') \<Rightarrow> None | (Inr _, w') \<Rightarrow> reversals_succeed acts j rs w')"

lemma attempt_reversals_remaining:
  "attempt_reversals acts j rs (res, w) = (res', w') \<Longrightarrow> remaining res' = [] \<Longrightarrow> remaining res = []"
  by (drule attempt_reversals_parts) simp

lemma attempt_reversals_complete:
  assumes "remaining res = []"
  shows "(\<exists>res'. attempt_reversals acts j rs (res, w) = (res', w') \<and> remaining res' = []) \<longleftrightarrow> reversals_succeed acts j rs w = Some w'"
  using assms
proof (induction rs arbitrary: res w)
  case (Cons r rs)
  show ?case
  proof (cases "perform_reversal acts j r w")
    case (Pair x v)
    show ?thesis
    proof (cases x)
      case (Inl e)
      then show ?thesis using Pair attempt_reversals_remaining [of acts j rs "res\<lparr>remaining := remaining res @ [r]\<rparr>" v]
        by auto
    next
      case (Inr u)
      then show ?thesis using Pair Cons.IH [of "res\<lparr>restored := restored res @ [r]\<rparr>" v] Cons.prems by simp
    qed
  qed
qed auto

lemma reversals_succeed_append:
  "reversals_succeed acts j (rs @ ss) w = Option.bind (reversals_succeed acts j rs w) (reversals_succeed acts j ss)"
  by (induction rs arbitrary: w) (auto split: prod.splits sum.splits)

lemma roll_back_complete:
  assumes "roll_back acts j (slot, w) = (res, slot', w')"
  shows "rollback_complete res \<longleftrightarrow> reversals_succeed acts j (reversals_of j) w = Some w'"
proof -
  from assms have "attempt_reversals acts j (reversals_of j) (\<lparr>restored = [], remaining = []\<rparr>, w) = (res, w')"
    by (auto simp: roll_back_def split: prod.splits)
  then show ?thesis
    using attempt_reversals_complete [of "\<lparr>restored = [], remaining = []\<rparr>" acts j "reversals_of j" w w']
    by (auto simp: rollback_complete_def)
qed

end
