(* ===== verification/Update_Rollback.thy ===== *)
theory Update_Rollback
  imports Update_Phases
begin

text \<open>
  What a rollback gives back. The effects of a deployment are seen through its components; \<open>reversible\<close> states what the
  port promises of them: each action changes only its own component, a reversal that does not fail gives its component
  back where what it rests on stands as before, and a checkpoint set is readable by the software that took it.
\<close>

datatype component = CBackend | CStore | CCheckout | CEnvironment | CGui | CAssets | CData

fun components_of :: "update_phase \<Rightarrow> component set" where
  "components_of BackendStopped = {CBackend, CStore}"
| "components_of CheckoutMoved = {CCheckout}"
| "components_of EnvironmentSynced = {CEnvironment}"
| "components_of GuiInstalled = {CGui}"
| "components_of AssetsReconciled = {CAssets}"
| "components_of Migrated = {CData}"
| "components_of BackendStarted = {CBackend, CStore}"
| "components_of StoreAuthorized = {CStore}"
| "components_of _ = {}"

text \<open>The backend is stopped and started only where it ran, and the store authorized only where it was open.\<close>

definition components_worked :: "previous_state \<Rightarrow> update_phase \<Rightarrow> component set" where
  "components_worked previous p =
     (if p \<in> {BackendStopped, BackendStarted} \<and> \<not> backend_running (previous_backend previous) then {}
      else if p = StoreAuthorized \<and> \<not> store_held_open previous then {}
      else components_of p)"

definition only_changes :: "(component \<Rightarrow> 'w \<Rightarrow> 'v) \<Rightarrow> component set \<Rightarrow> ('w, 'a) effect \<Rightarrow> bool" where
  "only_changes obs cs act \<longleftrightarrow> (\<forall>w c. c \<notin> cs \<longrightarrow> obs c (snd (act w)) = obs c w)"

definition keeps_to_components :: "'w update_actions \<Rightarrow> (component \<Rightarrow> 'w \<Rightarrow> 'v) \<Rightarrow> bool" where
  "keeps_to_components acts obs \<longleftrightarrow>
     (\<forall>port. only_changes obs {CBackend, CStore} (act_stop_backend acts port)) \<and>
     (\<forall>b. only_changes obs {CBackend, CStore} (act_start_backend acts b)) \<and>
     (\<forall>tag m. only_changes obs {CCheckout} (act_move_checkout acts tag m)) \<and>
     (\<forall>c b. only_changes obs {CCheckout} (act_restore_checkout acts c b)) \<and>
     (\<forall>sel. only_changes obs {CEnvironment} (act_sync_environment acts sel)) \<and>
     (\<forall>g t. only_changes obs {CGui} (act_install_gui acts g t)) \<and> only_changes obs {CGui} (act_restore_gui acts) \<and>
     only_changes obs {CAssets} (act_reconcile_assets acts) \<and> only_changes obs {CData} (act_migrate acts) \<and>
     (\<forall>c. only_changes obs {CData} (act_restore_checkpoint acts c)) \<and>
     only_changes obs {CStore} (act_authorize_store acts) \<and> (\<forall>t b. only_changes obs {} (act_verify acts t b))"

text \<open>Two states whose components in a set agree.\<close>

definition same_on :: "(component \<Rightarrow> 'w \<Rightarrow> 'v) \<Rightarrow> component set \<Rightarrow> 'w \<Rightarrow> 'w \<Rightarrow> bool" where
  "same_on obs cs w v \<longleftrightarrow> (\<forall>c \<in> cs. obs c w = obs c v)"

text \<open>A checkpoint set that gives the data of a state back, under the software another state has.\<close>

definition gives_data_back :: "'w update_actions \<Rightarrow> (component \<Rightarrow> 'w \<Rightarrow> 'v) \<Rightarrow> 'w \<Rightarrow> 'w \<Rightarrow> string \<Rightarrow> bool" where
  "gives_data_back acts obs w0 w c \<longleftrightarrow>
     (\<forall>v v'. same_on obs {CCheckout, CEnvironment} v w \<and> act_restore_checkpoint acts c v = (Inr (), v') \<longrightarrow>
        obs CData v' = obs CData w0)"

definition takes_checkpoints :: "'w update_actions \<Rightarrow> (component \<Rightarrow> 'w \<Rightarrow> 'v) \<Rightarrow> 'w \<Rightarrow> bool" where
  "takes_checkpoints acts obs w0 \<longleftrightarrow>
     (\<forall>w r w'. act_migrate acts w = (r, w') \<and> obs CData w = obs CData w0 \<longrightarrow>
        (case r of
           Inr (None, committed) \<Rightarrow> obs CData w' = obs CData w0
         | Inr (Some c, committed) \<Rightarrow> gives_data_back acts obs w0 w c
         | Inl (MigrationIncomplete detail (Some c)) \<Rightarrow> gives_data_back acts obs w0 w c
         | _ \<Rightarrow> True))"

text \<open>Only the data upgrade stops part-way.\<close>

definition only_migration_stops_midway :: "'w update_actions \<Rightarrow> bool" where
  "only_migration_stops_midway acts \<longleftrightarrow>
     (\<forall>j p w detail c w'. perform_phase acts j p w = (Inl (MigrationIncomplete detail c), w') \<longrightarrow> p = Migrated)"

definition reversible ::
    "'w update_actions \<Rightarrow> (component \<Rightarrow> 'w \<Rightarrow> 'v) \<Rightarrow> previous_state \<Rightarrow> dependency_selection \<Rightarrow> 'w \<Rightarrow> bool" where
  "reversible acts obs previous selection w0 \<longleftrightarrow>
     keeps_to_components acts obs \<and> takes_checkpoints acts obs w0 \<and> only_migration_stops_midway acts \<and>
     (\<forall>w w'. act_restore_checkout acts (previous_commit previous) (previous_branch previous) w = (Inr (), w') \<longrightarrow>
        obs CCheckout w' = obs CCheckout w0) \<and>
     (\<forall>w w'. act_sync_environment acts selection w = (Inr (), w') \<and> same_on obs {CCheckout} w w0 \<longrightarrow>
        obs CEnvironment w' = obs CEnvironment w0) \<and>
     (\<forall>w w'. act_restore_gui acts w = (Inr (), w') \<longrightarrow> obs CGui w' = obs CGui w0) \<and>
     (\<forall>w w' changed. act_reconcile_assets acts w = (Inr changed, w') \<and> same_on obs {CCheckout} w w0 \<longrightarrow>
        obs CAssets w' = obs CAssets w0) \<and>
     (\<forall>w w'. act_start_backend acts (previous_backend previous) w = (Inr (), w') \<and> same_on obs {CCheckout, CEnvironment, CData} w w0 \<longrightarrow>
        obs CBackend w' = obs CBackend w0 \<and> (\<not> store_held_open previous \<longrightarrow> obs CStore w' = obs CStore w0)) \<and>
     (\<forall>w w'. act_authorize_store acts w = (Inr (), w') \<and> same_on obs {CBackend, CData} w w0 \<and> store_held_open previous \<longrightarrow>
        obs CStore w' = obs CStore w0)"

section \<open>What a journal knows of the deployment\<close>

text \<open>
  Everything no touched phase works on stands as before; and once their upgrade has begun the data stand as before too, or
  there is a checkpoint set for them, or their upgrade is in flight.
\<close>

definition journal_tells :: "'w update_actions \<Rightarrow> (component \<Rightarrow> 'w \<Rightarrow> 'v) \<Rightarrow> 'w \<Rightarrow> update_journal \<Rightarrow> 'w \<Rightarrow> bool" where
  "journal_tells acts obs w0 j w \<longleftrightarrow>
     same_on obs {c. \<forall>p. touched p j \<longrightarrow> c \<notin> components_worked (journal_previous j) p} w w0 \<and>
     (\<not> touched Migrated j \<longrightarrow> checkpoint_set j = None) \<and>
     (touched Migrated j \<longrightarrow>
        (case checkpoint_set j of
           Some c \<Rightarrow> gives_data_back acts obs w0 w c
         | None \<Rightarrow> in_flight j = Some Migrated \<or> obs CData w = obs CData w0))"

lemma same_on_simps [simp]:
  "same_on obs (insert c cs) w v \<longleftrightarrow> obs c w = obs c v \<and> same_on obs cs w v" "same_on obs {} w v"
  by (simp_all add: same_on_def)

lemma same_onD: "same_on obs cs w v \<Longrightarrow> c \<in> cs \<Longrightarrow> obs c w = obs c v"
  by (simp add: same_on_def)

lemma only_changesD: "only_changes obs cs act \<Longrightarrow> act w = (r, w') \<Longrightarrow> c \<notin> cs \<Longrightarrow> obs c w' = obs c w"
  unfolding only_changes_def by (metis snd_conv)

lemma snd_after [simp]: "snd (after_action f rw) = snd rw" "snd (ignoring rw) = snd rw"
  by (auto simp: after_action_def ignoring_def split: prod.splits sum.splits)

text \<open>A phase that is performed changes only its components.\<close>

lemma perform_phase_only_changes:
  assumes "keeps_to_components acts obs"
  shows "only_changes obs (components_worked (journal_previous j) p) (perform_phase acts j p)"
  using assms by (cases p) (simp_all add: keeps_to_components_def only_changes_def components_worked_def)

fun reversed_components :: "reversal \<Rightarrow> component set" where
  "reversed_components StopStartedBackend = {CBackend, CStore}"
| "reversed_components (RestoreCheckpoint _) = {CData}"
| "reversed_components ReportInterruptedUpgrade = {}"
| "reversed_components RestoreGui = {CGui}"
| "reversed_components ReturnCheckout = {CCheckout}"
| "reversed_components SyncPrevious = {CEnvironment}"
| "reversed_components ReprovisionAssets = {CAssets}"
| "reversed_components StartPreviousBackend = {CBackend, CStore}"
| "reversed_components ReauthorizeStore = {CStore}"

lemma reversal_only_changes:
  assumes "keeps_to_components acts obs"
  shows "only_changes obs (reversed_components r) (perform_reversal acts j r)"
  using assms by (cases r) (simp_all add: keeps_to_components_def only_changes_def)

section \<open>The run keeps telling\<close>

lemma untouched_before:
  assumes "begin_phase p j = Inr b" and "in_flight j = None"
  shows "touched q b \<longleftrightarrow> touched q j \<or> q = p"
  using assms phase_index_inj [of q p] by (auto dest!: begun_journal simp: touched_iff last_begun_def le_Suc_eq)

lemma touched_after:
  assumes "advance_phase p d = Inr j'" and "journal_phase d = journal_phase b" and "in_flight b = Some p"
  shows "touched q j' \<longleftrightarrow> touched q b"
  using assms by (auto dest!: advanced_journal simp: touched_iff last_begun_def)

lemma gives_data_back_cong:
  "same_on obs {CCheckout, CEnvironment} w' w \<Longrightarrow> gives_data_back acts obs w0 w c \<Longrightarrow> gives_data_back acts obs w0 w' c"
  by (auto simp: gives_data_back_def)

lemma components_with_data: "CData \<in> components_worked previous p \<longleftrightarrow> p = Migrated"
  by (cases p) (auto simp: components_worked_def)

text \<open>What a phase that was begun leaves, whatever the journal then says of the data.\<close>

lemma begun_tells:
  assumes keeps: "keeps_to_components acts obs" and ck: "takes_checkpoints acts obs w0" and mid: "only_migration_stops_midway acts"
    and tells: "journal_tells acts obs w0 j w" and flight: "in_flight j = None"
    and begun: "begin_phase p j = Inr b" and performed: "perform_phase acts b p w = (r, w')"
    and told: "\<And>q. touched q t \<longleftrightarrow> touched q b" and left: "p = Migrated \<or> in_flight t \<noteq> Some Migrated"
    and points: "case r of Inr d \<Rightarrow> checkpoint_set t = checkpoint_set d
      | Inl (MigrationIncomplete _ c) \<Rightarrow> checkpoint_set t = c | Inl (ActionFailed _) \<Rightarrow> checkpoint_set t = checkpoint_set b"
    and kept_previous: "journal_previous t = journal_previous b"
    and interrupted: "p = Migrated \<Longrightarrow> \<not> is_ok r \<Longrightarrow> in_flight t = Some Migrated"
  shows "journal_tells acts obs w0 t w'"
proof -
  note touched_b = untouched_before [OF begun flight]
  have b: "b = j\<lparr>in_flight := Some p\<rparr>" "phase_index p = phase_index (journal_phase j) + 1" using begun_journal [OF begun] by simp_all
  have previous: "journal_previous b = journal_previous j" "journal_previous t = journal_previous j" using b(1) kept_previous by simp_all
  have moved: "obs c w' = obs c w" if "c \<notin> components_worked (journal_previous j) p" for c
    using only_changesD [OF perform_phase_only_changes [OF keeps] performed that [folded previous(1)]] .
  have moved_other: "obs c w' = obs c w" if "c \<notin> components_of p" for c
    using moved [of c] that by (auto simp: components_worked_def split: if_splits)
  have software: "p = Migrated \<Longrightarrow> same_on obs {CCheckout, CEnvironment} w' w" using moved_other [of CCheckout] moved_other [of CEnvironment] by simp
  have kept: "checkpoint_set t = checkpoint_set j" if "p \<noteq> Migrated"
  proof (cases r)
    case (Inl e)
    with mid that performed have "\<nexists>d c. e = MigrationIncomplete d c" unfolding only_migration_stops_midway_def by blast
    with Inl points b(1) show ?thesis by (cases e) auto
  next
    case (Inr d)
    with perform_phase_journal [of acts b p w d w'] performed that points b(1) show ?thesis by simp
  qed
  have same: "same_on obs {c. \<forall>q. touched q t \<longrightarrow> c \<notin> components_worked (journal_previous t) q} w' w0"
    using tells moved unfolding journal_tells_def same_on_def told touched_b previous(2) by auto
  have data: "case checkpoint_set t of Some c \<Rightarrow> gives_data_back acts obs w0 w' c
      | None \<Rightarrow> in_flight t = Some Migrated \<or> obs CData w' = obs CData w0" if "touched Migrated t"
  proof (cases "p = Migrated")
    case True
    then have "\<not> touched Migrated j" using b(2) by (simp add: touched_iff last_begun_def flight)
    then have "\<forall>q. touched q j \<longrightarrow> CData \<notin> components_worked (journal_previous j) q" by (auto simp: components_with_data)
    then have "obs CData w = obs CData w0" using tells by (simp add: journal_tells_def same_on_def)
    moreover obtain r' where r': "act_migrate acts w = (r', w')" "(r, w') = after_action
        (\<lambda>(checkpoint, committed). b\<lparr>checkpoint_set := checkpoint, migration_committed := committed\<rparr>) (r', w')"
      using performed True by (auto simp: after_action_def split: prod.splits sum.splits)
    ultimately have "case r' of Inr (None, committed) \<Rightarrow> obs CData w' = obs CData w0
         | Inr (Some c, committed) \<Rightarrow> gives_data_back acts obs w0 w c
         | Inl (MigrationIncomplete detail (Some c)) \<Rightarrow> gives_data_back acts obs w0 w c | _ \<Rightarrow> True"
      using ck unfolding takes_checkpoints_def by blast
    moreover have "checkpoint_set b = None" using tells \<open>\<not> touched Migrated j\<close> b(1) by (simp add: journal_tells_def)
    ultimately show ?thesis using r'(2) points interrupted [OF True] software [OF True, THEN gives_data_back_cong]
      by (auto simp: after_action_def split: sum.splits option.splits action_error.splits prod.splits)
  next
    case False
    then have before: "touched Migrated j" using that told touched_b by auto
    then have "case checkpoint_set j of Some c \<Rightarrow> gives_data_back acts obs w0 w c | None \<Rightarrow> obs CData w = obs CData w0"
      using tells flight by (auto simp: journal_tells_def split: option.splits)
    moreover have "obs CData w' = obs CData w" using moved [of CData] False by (simp add: components_with_data)
    moreover note kept [OF False]
    moreover have "same_on obs {CCheckout, CEnvironment} w' w"
      using moved_other [of CCheckout] moved_other [of CEnvironment] before False b(2) by (cases p) (auto simp: touched_iff last_begun_def flight)
    note gives_data_back_cong [OF this, of acts w0]
    ultimately show ?thesis by (auto split: option.splits)
  qed
  have "checkpoint_set t = None" if "\<not> touched Migrated t"
  proof -
    have not: "p \<noteq> Migrated" "\<not> touched Migrated j" using that told touched_b by auto
    then show ?thesis using tells kept by (simp add: journal_tells_def)
  qed
  with same data show ?thesis by (simp add: journal_tells_def)
qed

text \<open>Between phases nothing is in flight, and a failure names its phase in flight.\<close>

definition run_told :: "'w update_actions \<Rightarrow> (component \<Rightarrow> 'w \<Rightarrow> 'v) \<Rightarrow> 'w \<Rightarrow> update_journal \<Rightarrow> (run_failure, update_journal) result \<Rightarrow> 'w \<Rightarrow> bool" where
  "run_told acts obs w0 j r w \<longleftrightarrow>
     (case r of
        Inr j' \<Rightarrow> journal_tells acts obs w0 j' w \<and> in_flight j' = None \<and> journal_previous j' = journal_previous j \<and>
          journal_selection j' = journal_selection j
      | Inl (PhaseFailed b p d) \<Rightarrow> journal_tells acts obs w0 b w \<and> journal_previous b = journal_previous j \<and>
          journal_selection b = journal_selection j
      | Inl (JournalRefused e) \<Rightarrow> False)"

lemma run_tells:
  assumes run: "update_run acts through j s r s'"
    and laws: "keeps_to_components acts obs" "takes_checkpoints acts obs w0" "only_migration_stops_midway acts"
    and start: "journal_tells acts obs w0 j (snd s)" "in_flight j = None"
  shows "run_told acts obs w0 j r (snd s')"
  using run start
proof (induction rule: update_run.induct)
  case (run_partial j p b w d c w' slot)
  then have "journal_tells acts obs w0 (b\<lparr>checkpoint_set := c, migration_committed := True\<rparr>) w'"
    using laws(3) begun_journal [OF run_partial.hyps(2)]
    by (intro begun_tells [OF laws _ _ run_partial.hyps(2,3)]) (auto simp: touched_iff last_begun_def only_migration_stops_midway_def)
  then show ?case using begun_journal [OF run_partial.hyps(2)] by (simp add: run_told_def)
next
  case (run_failed j p b w d w' slot)
  then have "journal_tells acts obs w0 b w'"
    using begun_journal [OF run_failed.hyps(2)] by (intro begun_tells [OF laws _ _ run_failed.hyps(2,3)]) auto
  then show ?case using begun_journal [OF run_failed.hyps(2)] by (simp add: run_told_def)
next
  case (run_next j p b w performed w' j' r s slot)
  note kept = perform_phase_journal [OF run_next.hyps(3)] begun_journal [OF run_next.hyps(2)] advanced_journal [OF run_next.hyps(4)]
  have "journal_tells acts obs w0 j' w'"
    using run_next.prems kept touched_after [OF run_next.hyps(4), of b]
    by (intro begun_tells [OF laws _ _ run_next.hyps(2,3)]) auto
  then have "run_told acts obs w0 j' r (snd s)" using run_next.IH kept by simp
  then show ?case using kept by (auto simp: run_told_def split: sum.splits run_failure.splits)
qed (simp add: run_told_def)

section \<open>The rollback gives everything back\<close>

text \<open>One reversal that does not fail: it changes only its components.\<close>

lemma one_reversal:
  assumes "keeps_to_components acts obs" and "reversals_succeed acts j (if b then [r] else []) w = Some w'"
  shows "(\<forall>c. c \<notin> reversed_components r \<longrightarrow> obs c w' = obs c w) \<and> (\<not> b \<longrightarrow> w' = w) \<and> (b \<longrightarrow> perform_reversal acts j r w = (Inr (), w'))"
  using assms(2) only_changesD [OF reversal_only_changes [OF assms(1)]]
  by (cases "perform_reversal acts j r w") (fastforce split: if_splits sum.splits)

lemma reversals_of_unfold:
  "reversals_of j =
     (let running = backend_running (previous_backend (journal_previous j)) in
      (if touched BackendStarted j \<and> running then [StopStartedBackend] else []) @
      (if touched Migrated j \<and> checkpoint_set j \<noteq> None then [RestoreCheckpoint (the (checkpoint_set j))] else []) @
      (if touched Migrated j \<and> checkpoint_set j = None \<and> in_flight j = Some Migrated then [ReportInterruptedUpgrade] else []) @
      (if touched GuiInstalled j then [RestoreGui] else []) @
      (if touched CheckoutMoved j then [ReturnCheckout] else []) @
      (if touched CheckoutMoved j then [SyncPrevious] else []) @
      (if touched AssetsReconciled j then [ReprovisionAssets] else []) @
      (if touched BackendStopped j \<and> running then [StartPreviousBackend] else []) @
      (if touched BackendStopped j \<and> running \<and> store_held_open (journal_previous j) then [ReauthorizeStore] else []))"
proof -
  have "touched EnvironmentSynced j \<Longrightarrow> touched CheckoutMoved j" by (simp add: touched_iff)
  then show ?thesis by (auto simp: reversals_of_def Let_def split: option.split)
qed

lemma reversibleD:
  assumes "reversible acts obs previous selection w0"
  shows "act_restore_checkout acts (previous_commit previous) (previous_branch previous) w = (Inr (), w') \<Longrightarrow> obs CCheckout w' = obs CCheckout w0"
    and "act_sync_environment acts selection w = (Inr (), w') \<Longrightarrow> same_on obs {CCheckout} w w0 \<Longrightarrow> obs CEnvironment w' = obs CEnvironment w0"
    and "act_restore_gui acts w = (Inr (), w') \<Longrightarrow> obs CGui w' = obs CGui w0"
    and "act_reconcile_assets acts w = (Inr changed, w') \<Longrightarrow> same_on obs {CCheckout} w w0 \<Longrightarrow> obs CAssets w' = obs CAssets w0"
    and "act_start_backend acts (previous_backend previous) w = (Inr (), w') \<Longrightarrow> same_on obs {CCheckout, CEnvironment, CData} w w0 \<Longrightarrow>
      obs CBackend w' = obs CBackend w0"
    and "act_start_backend acts (previous_backend previous) w = (Inr (), w') \<Longrightarrow> same_on obs {CCheckout, CEnvironment, CData} w w0 \<Longrightarrow>
      \<not> store_held_open previous \<Longrightarrow> obs CStore w' = obs CStore w0"
    and "act_authorize_store acts w = (Inr (), w') \<Longrightarrow> same_on obs {CBackend, CData} w w0 \<Longrightarrow> store_held_open previous \<Longrightarrow>
      obs CStore w' = obs CStore w0"
  using assms unfolding reversible_def by blast+

lemma worked_by:
  "CCheckout \<in> components_worked previous p \<longleftrightarrow> p = CheckoutMoved"
  "CEnvironment \<in> components_worked previous p \<longleftrightarrow> p = EnvironmentSynced"
  "CData \<in> components_worked previous p \<longleftrightarrow> p = Migrated"
  "CGui \<in> components_worked previous p \<longleftrightarrow> p = GuiInstalled"
  "CAssets \<in> components_worked previous p \<longleftrightarrow> p = AssetsReconciled"
  "CBackend \<in> components_worked previous p \<longleftrightarrow>
     p \<in> {BackendStopped, BackendStarted} \<and> backend_running (previous_backend previous)"
  "CStore \<in> components_worked previous p \<longleftrightarrow>
     p \<in> {BackendStopped, BackendStarted} \<and> backend_running (previous_backend previous) \<or>
     p = StoreAuthorized \<and> store_held_open previous"
  by (cases p; simp add: components_worked_def)+

text \<open>What the reversals of a journal give back, one component after the other.\<close>

lemma reversals_give_back:
  assumes laws: "reversible acts obs (journal_previous j) (journal_selection j) w0"
    and tells: "journal_tells acts obs w0 j w" and held: "store_held_open (journal_previous j) \<longrightarrow> backend_running (previous_backend (journal_previous j))"
    and undone: "reversals_succeed acts j (reversals_of j) w = Some w'"
  shows "obs c w' = obs c w0"
proof -
  have keeps: "keeps_to_components acts obs" using laws by (simp add: reversible_def)
  let ?running = "backend_running (previous_backend (journal_previous j))"
  from undone [unfolded reversals_of_unfold Let_def reversals_succeed_append]
  obtain w1 w2 w3 w4 w5 w6 w7 w8 where
      s1: "reversals_succeed acts j (if touched BackendStarted j \<and> ?running then [StopStartedBackend] else []) w = Some w1"
    and s2: "reversals_succeed acts j (if touched Migrated j \<and> checkpoint_set j \<noteq> None then [RestoreCheckpoint (the (checkpoint_set j))] else []) w1 = Some w2"
    and s3: "reversals_succeed acts j (if touched Migrated j \<and> checkpoint_set j = None \<and> in_flight j = Some Migrated then [ReportInterruptedUpgrade] else []) w2 = Some w3"
    and s4: "reversals_succeed acts j (if touched GuiInstalled j then [RestoreGui] else []) w3 = Some w4"
    and s5: "reversals_succeed acts j (if touched CheckoutMoved j then [ReturnCheckout] else []) w4 = Some w5"
    and s6: "reversals_succeed acts j (if touched CheckoutMoved j then [SyncPrevious] else []) w5 = Some w6"
    and s7: "reversals_succeed acts j (if touched AssetsReconciled j then [ReprovisionAssets] else []) w6 = Some w7"
    and s8: "reversals_succeed acts j (if touched BackendStopped j \<and> ?running then [StartPreviousBackend] else []) w7 = Some w8"
    and s9: "reversals_succeed acts j (if touched BackendStopped j \<and> ?running \<and> store_held_open (journal_previous j) then [ReauthorizeStore] else []) w8 = Some w'"
    by (auto simp: bind_eq_Some_conv)
  note r1 = one_reversal [OF keeps s1] and r2 = one_reversal [OF keeps s2] and r3 = one_reversal [OF keeps s3]
    and r4 = one_reversal [OF keeps s4] and r5 = one_reversal [OF keeps s5] and r6 = one_reversal [OF keeps s6]
    and r7 = one_reversal [OF keeps s7] and r8 = one_reversal [OF keeps s8] and r9 = one_reversal [OF keeps s9]
  have untouched: "obs c w = obs c w0" if "\<forall>p. touched p j \<longrightarrow> c \<notin> components_worked (journal_previous j) p" for c
    using tells that by (simp add: journal_tells_def same_on_def)
  note law = reversibleD [OF laws]
  have checkout: "obs CCheckout w5 = obs CCheckout w0"
  proof (cases "touched CheckoutMoved j")
    case True
    then show ?thesis using r5 by (auto intro: law(1))
  next
    case False
    then show ?thesis using untouched [of CCheckout] r1 r2 r3 r4 r5 by (auto simp: worked_by)
  qed
  have environment: "obs CEnvironment w6 = obs CEnvironment w0"
  proof (cases "touched CheckoutMoved j")
    case True
    then show ?thesis using r6 checkout by (auto intro: law(2))
  next
    case False
    then have "\<not> touched EnvironmentSynced j" by (simp add: touched_iff)
    then show ?thesis using False untouched [of CEnvironment] r1 r2 r3 r4 r5 r6 by (auto simp: worked_by)
  qed
  have data: "obs CData w2 = obs CData w0"
  proof (cases "touched Migrated j")
    case True
    have "same_on obs {CCheckout, CEnvironment} w1 w" using r1 by simp
    with True tells r1 r2 r3 s3 show ?thesis
      by (cases "checkpoint_set j") (auto simp: journal_tells_def gives_data_back_def split: if_splits)
  next
    case False
    then show ?thesis using untouched [of CData] r1 r2 by (auto simp: worked_by)
  qed
  have gui: "obs CGui w4 = obs CGui w0"
    using untouched [of CGui] r1 r2 r3 r4 by (cases "touched GuiInstalled j") (auto simp: worked_by intro: law(3))
  have assets: "obs CAssets w7 = obs CAssets w0"
  proof (cases "touched AssetsReconciled j")
    case True
    then obtain changed where "act_reconcile_assets acts w6 = (Inr changed, w7)"
      using r7 by (auto simp: ignoring_def split: prod.splits sum.splits)
    moreover have "obs CCheckout w6 = obs CCheckout w0" using checkout r6 by simp
    ultimately show ?thesis by (simp add: law(4))
  next
    case False
    then have "w7 = w6" using r7 by blast
    moreover have "obs CAssets w6 = obs CAssets w" using r1 r2 r3 r4 r5 r6 by simp
    ultimately show ?thesis using False untouched [of CAssets] by (auto simp: worked_by)
  qed
  have before: "touched BackendStarted j \<Longrightarrow> touched BackendStopped j" "touched StoreAuthorized j \<Longrightarrow> touched BackendStopped j"
    by (simp_all add: touched_iff)
  have as_before: "same_on obs {CCheckout, CEnvironment, CData} w7 w0"
    using checkout environment data r3 r4 r5 r6 r7 by simp
  have backend: "obs CBackend w8 = obs CBackend w0"
  proof (cases "touched BackendStopped j \<and> ?running")
    case True
    then show ?thesis using r8 as_before by (auto intro: law(5))
  next
    case False
    then have "w8 = w7" using r8 by blast
    moreover have "w1 = w" using False before r1 by blast
    moreover have "obs CBackend w7 = obs CBackend w1" using r2 r3 r4 r5 r6 r7 by simp
    ultimately show ?thesis using False before untouched [of CBackend] by (auto simp: worked_by)
  qed
  have st: "obs CStore w' = obs CStore w0"
  proof (cases "touched BackendStopped j \<and> ?running")
    case True
    have "same_on obs {CBackend, CData} w8 w0" using backend as_before r8 by simp
    then show ?thesis using True r8 r9 law(7) [of w8 w'] law(6) [of w7 w8] as_before
      by (cases "store_held_open (journal_previous j)") simp_all
  next
    case False
    then have "w' = w8" "w8 = w7" using r8 r9 by blast+
    moreover have "w1 = w" using False before r1 by blast
    moreover have "obs CStore w7 = obs CStore w1" using r2 r3 r4 r5 r6 r7 by simp
    ultimately show ?thesis using False before held untouched [of CStore] by (auto simp: worked_by)
  qed
  show ?thesis using checkout environment data gui assets backend st r3 r4 r5 r6 r7 r8 r9 
    by (cases c) (simp_all add: )
qed

end
