(* ===== verification/Update_Commands.thy ===== *)
theory Update_Commands
  imports Update_Rollback
begin

text \<open>
  The commands of an update (\<^verbatim>\<open>src/infrastructure/cli/_update_commit.py\<close>): \<^verbatim>\<open>--commit\<close> with the handover to the new version,
  \<^verbatim>\<open>--resume\<close> and \<^verbatim>\<open>--rollback\<close>, over the journal file, the history it retires to and the deployment. What the commands take
  from outside is a record of parameters: the time, the digest of a file, the wording of a note, whether the credential
  questions were answered, whether the resume command could be executed, and the files beside the journal.
\<close>

record ('w, 'b) update_host =
  host_now :: string
  host_sha256 :: "'b \<Rightarrow> string"
  host_resume_command :: "string list"
  host_note :: "plan_note \<Rightarrow> string"
  host_compose_file :: "string option"
  host_answers :: "credential_question list \<Rightarrow> bool"
  host_executes :: "string list \<Rightarrow> bool"
  host_keep_bundle :: "string \<Rightarrow> 'b \<Rightarrow> 'w \<Rightarrow> 'w"
  host_discard_bundle :: "'w \<Rightarrow> 'w"
  host_discard_previous_gui :: "'w \<Rightarrow> 'w"

text \<open>The journal file as reading it answers: absent, a journal, or \<^verbatim>\<open>JournalInvalid\<close>.\<close>

record 'w update_state =
  journal_file :: "(journal_error, update_journal) result option"
  update_history :: "(update_journal \<times> update_outcome) list"
  deployment :: 'w

text \<open>A command exits with a status, becomes the recorded command, or ends in an exception no one catches.\<close>

datatype command_end = Exits int | Becomes update_journal | Uncaught

definition EXIT_USAGE :: int where
  "EXIT_USAGE = 2"

fun deployment_kind_name :: "deployment_kind \<Rightarrow> string" where
  "deployment_kind_name LocalCheckout = ''local-checkout''"
| "deployment_kind_name ComposeHost = ''compose-host''"
| "deployment_kind_name InContainer = ''in-container''"
| "deployment_kind_name RemoteAttached = ''remote-attached''"
| "deployment_kind_name Ambiguous = ''ambiguous''"

definition version_or_none :: "release_version option \<Rightarrow> string" where
  "version_or_none v = (case v of None \<Rightarrow> ''None'' | Some x \<Rightarrow> version_text x)"

section \<open>The opening journal\<close>

definition bundle_of_plan :: "'b release_check \<Rightarrow> published_release \<Rightarrow> update_plan \<Rightarrow> (string \<times> 'b option) option" where
  "bundle_of_plan check r plan =
     (if plan_gui plan = FromRelease then Some (gui_bundle_name r, map_of (checked_assets check) (gui_bundle_name r)) else None)"

definition opening_journal ::
    "('w, 'b) update_host \<Rightarrow> 'b release_check \<Rightarrow> published_release \<Rightarrow> installation_observation \<Rightarrow> update_plan \<Rightarrow> update_journal" where
  "opening_journal host check r obs plan =
     \<lparr>journal_started_at = host_now host,
      journal_previous =
        \<lparr>previous_version = version_or_none (installed_version (observed_software obs)),
         previous_commit = installed_commit (observed_software obs),
         previous_branch = installed_branch (observed_software obs), previous_backend = observed_backend obs,
         store_held_open = held_open (observed_store obs)\<rparr>,
      journal_target =
        \<lparr>target_version = version_text (release_version_of r), target_tag = release_tag r, target_commit = release_commit r,
         target_bundle = map_option fst (bundle_of_plan check r plan),
         target_bundle_sha256 = map_option (host_sha256 host) (Option.bind (bundle_of_plan check r plan) snd)\<rparr>,
      journal_selection = observed_selection obs, journal_move = plan_move plan, journal_gui = plan_gui plan,
      journal_phase = Planned, resume_command = host_resume_command host, in_flight = None, checkpoint_set = None,
      migration_committed = False, journal_notes = map (host_note host) (plan_notes plan),
      journal_deployment = deployment_kind_name (observed_kind obs), journal_compose_file = host_compose_file host\<rparr>"

definition with_bundle_kept :: "('w, 'b) update_host \<Rightarrow> (string \<times> 'b option) option \<Rightarrow> 'w \<Rightarrow> 'w" where
  "with_bundle_kept host bundle w = (case bundle of Some (n, Some data) \<Rightarrow> host_keep_bundle host n data w | _ \<Rightarrow> w)"

section \<open>Ending an update\<close>

definition finish_update ::
    "('w, 'b) update_host \<Rightarrow> update_journal \<Rightarrow> update_outcome \<Rightarrow> 'w update_state \<Rightarrow> command_end \<times> 'w update_state" where
  "finish_update host j out st =
     (Exits (exit_by_outcome out),
      st\<lparr>journal_file := None, update_history := update_history st @ [(j, out)],
         deployment := host_discard_bundle host (deployment st)\<rparr>)"

definition put_back ::
    "'w update_actions \<Rightarrow> ('w, 'b) update_host \<Rightarrow> update_journal \<Rightarrow> 'w update_state \<Rightarrow> command_end \<times> 'w update_state" where
  "put_back acts host j st =
     (case roll_back acts j (Some j, deployment st) of
        (res, _, w) \<Rightarrow> finish_update host j (classify_outcome j True (Some (rollback_complete res)))
          (st\<lparr>journal_file := Some (Ok j), deployment := w\<rparr>))"

text \<open>A phase that failed is rolled back; a phase out of order is a \<^verbatim>\<open>JournalInvalid\<close> the caller does not catch.\<close>

definition fail_update ::
    "'w update_actions \<Rightarrow> ('w, 'b) update_host \<Rightarrow> run_failure \<Rightarrow> 'w update_state \<Rightarrow> command_end \<times> 'w update_state" where
  "fail_update acts host failure st =
     (case failure of PhaseFailed j p detail \<Rightarrow> put_back acts host j st | JournalRefused e \<Rightarrow> (Uncaught, st))"

text \<open>Phases run against the journal file and the deployment of a state.\<close>

definition run_on ::
    "'w update_actions \<Rightarrow> update_phase \<Rightarrow> update_journal \<Rightarrow> 'w update_state \<Rightarrow> (run_failure, update_journal) result \<times> 'w update_state" where
  "run_on acts through j st =
     (case run_phases acts through j (Some j, deployment st) of
        (r, slot, w) \<Rightarrow> (r, st\<lparr>journal_file := map_option Ok slot, deployment := w\<rparr>))"

section \<open>The commands\<close>

definition hand_over ::
    "'w update_actions \<Rightarrow> ('w, 'b) update_host \<Rightarrow> update_journal \<Rightarrow> 'w update_state \<Rightarrow> command_end \<times> 'w update_state" where
  "hand_over acts host j st =
     (if host_executes host (resume_command j) then (Becomes j, st)
      else (case begin_phase GuiInstalled j of
              Inl e \<Rightarrow> (Uncaught, st)
            | Inr b \<Rightarrow> fail_update acts host (PhaseFailed b GuiInstalled ''could not re-execute as the new version'') st))"

definition commit_update ::
    "'w update_actions \<Rightarrow> ('w, 'b) update_host \<Rightarrow> 'b release_check \<Rightarrow> published_release \<Rightarrow> installation_observation \<Rightarrow> update_plan
      \<Rightarrow> 'w update_state \<Rightarrow> command_end \<times> 'w update_state" where
  "commit_update acts host check r obs plan st =
     (case journal_file st of
        Some (Inl e) \<Rightarrow> (Uncaught, st)
      | Some (Inr j) \<Rightarrow> (Exits (exit_by_outcome InfrastructureFailure), st)
      | None \<Rightarrow>
          if \<not> host_answers host (plan_questions plan) then (Exits (exit_by_outcome InfrastructureFailure), st)
          else
            (let j = opening_journal host check r obs plan;
                 st1 = st\<lparr>journal_file := Some (Ok j),
                          deployment := with_bundle_kept host (bundle_of_plan check r plan) (deployment st)\<rparr> in
             case run_on acts HANDOVER_PHASE j st1 of
               (Inl failure, st2) \<Rightarrow> fail_update acts host failure st2
             | (Inr j', st2) \<Rightarrow> hand_over acts host j' st2))"

definition resume_update ::
    "'w update_actions \<Rightarrow> ('w, 'b) update_host \<Rightarrow> 'w update_state \<Rightarrow> command_end \<times> 'w update_state" where
  "resume_update acts host st =
     (case journal_file st of
        Some (Inl e) \<Rightarrow> (Exits (exit_by_outcome InfrastructureFailure), st)
      | None \<Rightarrow> (Exits EXIT_USAGE, st)
      | Some (Inr j) \<Rightarrow>
          if \<not> handed_over j then (Exits EXIT_USAGE, st)
          else (case run_on acts Verified j st of
              (Inl failure, st2) \<Rightarrow> fail_update acts host failure st2
            | (Inr j', st2) \<Rightarrow>
                finish_update host j' Updated (st2\<lparr>deployment := host_discard_previous_gui host (deployment st2)\<rparr>)))"

definition rollback_update ::
    "'w update_actions \<Rightarrow> ('w, 'b) update_host \<Rightarrow> 'w update_state \<Rightarrow> command_end \<times> 'w update_state" where
  "rollback_update acts host st =
     (case journal_file st of
        Some (Inl e) \<Rightarrow> (Exits (exit_by_outcome InfrastructureFailure), st)
      | None \<Rightarrow> (Exits EXIT_USAGE, st)
      | Some (Inr j) \<Rightarrow> put_back acts host j st)"

text \<open>The whole update: the installed version commits, and where it could execute it the new version resumes.\<close>

definition whole_update ::
    "'w update_actions \<Rightarrow> ('w, 'b) update_host \<Rightarrow> 'b release_check \<Rightarrow> published_release \<Rightarrow> installation_observation \<Rightarrow> update_plan
      \<Rightarrow> 'w update_state \<Rightarrow> command_end \<times> 'w update_state" where
  "whole_update acts host check r obs plan st =
     (case commit_update acts host check r obs plan st of
        (Becomes j, st1) \<Rightarrow> resume_update acts host st1 | ended \<Rightarrow> ended)"

section \<open>What a command leaves\<close>

text \<open>The journal file holds the journal a run ends with.\<close>

lemma run_slot:
  "update_run acts through j s r s' \<Longrightarrow> fst s = Some j \<Longrightarrow>
     (case r of Inr j' \<Rightarrow> fst s' = Some j' | Inl (PhaseFailed b p d) \<Rightarrow> fst s' = Some b | Inl (JournalRefused e) \<Rightarrow> True)"
  by (induction rule: update_run.induct) simp_all

lemma run_on_run:
  assumes "run_on acts through j st = (r, st')"
  shows "\<exists>s. update_run acts through j (Some j, deployment st) r s \<and> st' = st\<lparr>journal_file := map_option Ok (fst s), deployment := snd s\<rparr>"
  using assms by (auto simp: run_on_def dest!: run_phases_run split: prod.splits)

lemma tells_begun:
  assumes "journal_tells acts obs w0 j w" "in_flight j = None" "begin_phase p j = Inr b" "p \<noteq> Migrated"
  shows "journal_tells acts obs w0 b w"
proof -
  note touched_b = untouched_before [OF assms(3,2)]
  have b: "journal_previous b = journal_previous j" "checkpoint_set b = checkpoint_set j" using begun_journal [OF assms(3)] by simp_all
  have "in_flight j \<noteq> Some Migrated" using assms(2) by simp
  with assms(1,4) show ?thesis unfolding journal_tells_def b touched_b same_on_def by (auto split: option.splits)
qed

lemma opening_tells:
  assumes "\<And>c. obs c w = obs c w0"
  shows "journal_tells acts obs w0 (opening_journal host check r ob plan) w"
  using assms by (simp add: journal_tells_def same_on_def opening_journal_def touched_iff last_begun_def phase_index_simps)

text \<open>What the files beside the journal are is not seen.\<close>

definition sees_no_bundle :: "(component \<Rightarrow> 'w \<Rightarrow> 'v) \<Rightarrow> ('w, 'b) update_host \<Rightarrow> bool" where
  "sees_no_bundle obs host \<longleftrightarrow>
     (\<forall>c w. obs c (host_discard_bundle host w) = obs c w) \<and> (\<forall>c n data w. obs c (host_keep_bundle host n data w) = obs c w)"

lemma put_back_restores:
  assumes laws: "reversible acts obs (journal_previous j) (journal_selection j) w0"
    and tells: "journal_tells acts obs w0 j (deployment st)"
    and held: "store_held_open (journal_previous j) \<longrightarrow> backend_running (previous_backend (journal_previous j))"
    and unseen: "sees_no_bundle obs host" and ends: "put_back acts host j st = (Exits 3, st')"
  shows "obs c (deployment st') = obs c w0"
proof -
  obtain res slot w where undone: "roll_back acts j (Some j, deployment st) = (res, slot, w)"
    using prod_cases3 by blast
  with ends have finish: "finish_update host j (classify_outcome j True (Some (rollback_complete res))) (st\<lparr>journal_file := Some (Ok j), deployment := w\<rparr>) = (Exits 3, st')"
    by (simp add: put_back_def)
  then have "rollback_complete res" by (auto simp: finish_update_def classify_outcome_def split: if_splits)
  then have "reversals_succeed acts j (reversals_of j) (deployment st) = Some w" using roll_back_complete [OF undone] by simp
  from reversals_give_back [OF laws tells held this] have "obs c w = obs c w0" .
  with finish unseen show ?thesis by (auto simp: finish_update_def sees_no_bundle_def)
qed

lemma failed_run_restores:
  assumes laws: "reversible acts obs (journal_previous j) (journal_selection j) w0"
    and tells: "journal_tells acts obs w0 j (deployment st)" and flight: "in_flight j = None"
    and held: "store_held_open (journal_previous j) \<longrightarrow> backend_running (previous_backend (journal_previous j))"
    and unseen: "sees_no_bundle obs host" and run: "run_on acts through j st = (Inl failure, st1)"
    and ends: "fail_update acts host failure st1 = (Exits 3, st')"
  shows "obs c (deployment st') = obs c w0"
proof -
  have port: "keeps_to_components acts obs" "takes_checkpoints acts obs w0" "only_migration_stops_midway acts"
    using laws by (simp_all add: reversible_def)
  from run_on_run [OF run] obtain s where s: "update_run acts through j (Some j, deployment st) (Inl failure) s"
    "st1 = st\<lparr>journal_file := map_option Ok (fst s), deployment := snd s\<rparr>" by blast
  have told: "run_told acts obs w0 j (Inl failure) (snd s)" using run_tells [OF s(1) port _ flight] tells by simp
  then obtain b p d where failure: "failure = PhaseFailed b p d" "journal_tells acts obs w0 b (deployment st1)"
    "journal_previous b = journal_previous j" "journal_selection b = journal_selection j"
    using s(2) by (auto simp: run_told_def split: run_failure.splits)
  show ?thesis
    using put_back_restores [of acts obs b w0 st1 host st'] failure laws held unseen ends by (simp add: fail_update_def)
qed

text \<open>A run that gets through: the journal it leaves, and where it leaves it.\<close>

definition between_phases ::
    "'w update_actions \<Rightarrow> (component \<Rightarrow> 'w \<Rightarrow> 'v) \<Rightarrow> 'w \<Rightarrow> update_journal \<Rightarrow> 'w update_state \<Rightarrow> bool" where
  "between_phases acts obs w0 j st \<longleftrightarrow>
     journal_tells acts obs w0 j (deployment st) \<and> in_flight j = None \<and> journal_file st = Some (Ok j)"

lemma run_on_tells:
  assumes port: "keeps_to_components acts obs" "takes_checkpoints acts obs w0" "only_migration_stops_midway acts"
    and tells: "journal_tells acts obs w0 j (deployment st)" and flight: "in_flight j = None" and run: "run_on acts through j st = (Inr j', st')"
  shows "between_phases acts obs w0 j' st' \<and> journal_previous j' = journal_previous j \<and> journal_selection j' = journal_selection j"
proof -
  from run_on_run [OF run] obtain s where s: "update_run acts through j (Some j, deployment st) (Inr j') s"
    "st' = st\<lparr>journal_file := map_option Ok (fst s), deployment := snd s\<rparr>" by blast
  have "run_told acts obs w0 j (Inr j') (snd s)" using run_tells [OF s(1) port _ flight] tells by simp
  with run_slot [OF s(1)] s(2) show ?thesis by (simp add: run_told_def between_phases_def)
qed

lemma resumed_restores:
  assumes laws: "reversible acts obs (journal_previous j) (journal_selection j) w0" and between: "between_phases acts obs w0 j st"
    and held: "store_held_open (journal_previous j) \<longrightarrow> backend_running (previous_backend (journal_previous j))"
    and unseen: "sees_no_bundle obs host" and ends: "resume_update acts host st = (Exits 3, st')"
  shows "obs c (deployment st') = obs c w0"
proof -
  obtain x st1 where run: "run_on acts Verified j st = (x, st1)" by fastforce
  from ends between run obtain failure where failure: "x = Inl failure" "fail_update acts host failure st1 = (Exits 3, st')"
    by (auto simp: resume_update_def between_phases_def EXIT_USAGE_def finish_update_def split: sum.splits if_splits)
  with between show ?thesis
    using failed_run_restores [OF laws _ _ held unseen run [unfolded failure(1)]] by (simp add: between_phases_def)
qed

lemma unexecuted_restores:
  assumes laws: "reversible acts obs (journal_previous j) (journal_selection j) w0" and between: "between_phases acts obs w0 j st"
    and held: "store_held_open (journal_previous j) \<longrightarrow> backend_running (previous_backend (journal_previous j))"
    and unseen: "sees_no_bundle obs host" and not: "\<not> host_executes host (resume_command j)"
    and ends: "hand_over acts host j st = (Exits 3, st')"
  shows "obs c (deployment st') = obs c w0"
proof -
  from ends not obtain b where b: "begin_phase GuiInstalled j = Inr b" "put_back acts host b st = (Exits 3, st')"
    by (auto simp: hand_over_def fail_update_def split: sum.splits)
  have "journal_tells acts obs w0 b (deployment st)" using between tells_begun [OF _ _ b(1), of acts obs w0 "deployment st"] by (simp add: between_phases_def)
  with laws held begun_journal [OF b(1)] show ?thesis by (intro put_back_restores [OF _ _ _ unseen b(2)]) simp_all
qed

lemma hand_over_end: "hand_over acts host j st = (e, st') \<Longrightarrow> e = Becomes j' \<Longrightarrow> st' = st \<and> host_executes host (resume_command j)"
  by (auto simp: hand_over_def fail_update_def put_back_def finish_update_def split: if_splits sum.splits prod.splits)

end
