(* ===== verification/Update_Gui.thy ===== *)
theory Update_Gui
  imports Update_Properties
begin

text \<open>
  The served GUI (\<^verbatim>\<open>src/infrastructure/software_update/gui_bundle.py\<close>) and the two actions of a local checkout that replace it
  and put it back (\<^verbatim>\<open>local_actions.py\<close>). A directory is a value of the type \<^typ>\<open>'g\<close>; unpacking an archive and the local build
  are parameters. Replacing the served directory is a sequence of renames, so a process can die between two of them.
\<close>

section \<open>Directories\<close>

record 'g gui_files =
  served_gui :: "'g option"
  kept_gui :: "'g option"
  incoming_gui :: "'g option"

datatype gui_error = BundleNotRecorded | BundleNotKept | DigestChanged | NotUnpacked | NoIndexPage | BuildFailed

text \<open>What an archive unpacks to, and what the local build makes of the served directory.\<close>

record ('b, 'g) gui_lib =
  unpacks :: "'b \<Rightarrow> 'g option"
  has_index_page :: "'g \<Rightarrow> bool"
  builds :: "'g option \<Rightarrow> (gui_error, unit) result \<times> 'g option"

text \<open>The states of the directories after each step of \<^verbatim>\<open>_swap_in\<close>, and the last of them.\<close>

definition swap_states :: "'g \<Rightarrow> 'g gui_files \<Rightarrow> 'g gui_files list" where
  "swap_states new g =
     (let dropped = g\<lparr>kept_gui := None\<rparr>;
          aside = (case served_gui g of Some d \<Rightarrow> dropped\<lparr>kept_gui := Some d, served_gui := None\<rparr> | None \<Rightarrow> dropped) in
      [dropped, aside, aside\<lparr>served_gui := Some new, incoming_gui := None\<rparr>])"

definition swap_in :: "'g \<Rightarrow> 'g gui_files \<Rightarrow> 'g gui_files" where
  "swap_in new g = last (swap_states new g)"

definition install_bundle :: "('b, 'g) gui_lib \<Rightarrow> 'b \<Rightarrow> 'g gui_files \<Rightarrow> (gui_error, unit) result \<times> 'g gui_files" where
  "install_bundle lib data g =
     (case unpacks lib data of
        None \<Rightarrow> (Err NotUnpacked, g\<lparr>incoming_gui := None\<rparr>)
      | Some d \<Rightarrow>
          if \<not> has_index_page lib d then (Err NoIndexPage, g\<lparr>incoming_gui := None\<rparr>)
          else (Ok (), (swap_in d (g\<lparr>incoming_gui := Some d\<rparr>))\<lparr>incoming_gui := None\<rparr>))"

definition keep_previous :: "'g gui_files \<Rightarrow> 'g gui_files" where
  "keep_previous g = (case served_gui g of Some d \<Rightarrow> g\<lparr>kept_gui := Some d\<rparr> | None \<Rightarrow> g)"

definition build_gui_locally :: "('b, 'g) gui_lib \<Rightarrow> 'g gui_files \<Rightarrow> (gui_error, unit) result \<times> 'g gui_files" where
  "build_gui_locally lib g = (case builds lib (served_gui g) of (r, d) \<Rightarrow> (r, g\<lparr>served_gui := d\<rparr>))"

definition restore_previous :: "'g gui_files \<Rightarrow> 'g gui_files" where
  "restore_previous g = (case kept_gui g of None \<Rightarrow> g | Some d \<Rightarrow> g\<lparr>served_gui := Some d, kept_gui := None\<rparr>)"

definition discard_previous :: "'g gui_files \<Rightarrow> 'g gui_files" where
  "discard_previous g = g\<lparr>kept_gui := None\<rparr>"

section \<open>The action of a local checkout\<close>

text \<open>The bundles kept beside the journal are read by name.\<close>

definition install_gui ::
    "('b, 'g) gui_lib \<Rightarrow> ('b \<Rightarrow> string) \<Rightarrow> (string \<Rightarrow> 'b option) \<Rightarrow> gui_provisioning \<Rightarrow> target_release \<Rightarrow> 'g gui_files
      \<Rightarrow> (gui_error, unit) result \<times> 'g gui_files" where
  "install_gui lib sha256 kept gui target g =
     (if gui \<in> {LeaveStale, InImage} then (Ok (), g)
      else if gui = BuildLocally then build_gui_locally lib (keep_previous g)
      else (case (target_bundle target, target_bundle_sha256 target) of
          (Some n, Some digest) \<Rightarrow>
            (case kept n of
               None \<Rightarrow> (Err BundleNotKept, g)
             | Some data \<Rightarrow> if sha256 data \<noteq> digest then (Err DigestChanged, g) else install_bundle lib data g)
        | _ \<Rightarrow> (Err BundleNotRecorded, g)))"

section \<open>What one installation keeps\<close>

lemma swap_in_files:
  "served_gui (swap_in new g) = Some new" "kept_gui (swap_in new g) = served_gui g"
  by (simp_all add: swap_in_def swap_states_def Let_def split: option.split)

lemma installed_bundle:
  assumes "install_bundle lib data g = (Inr (), g')"
  shows "unpacks lib data = served_gui g' \<and> (\<exists>d. served_gui g' = Some d \<and> has_index_page lib d) \<and> kept_gui g' = served_gui g"
  using assms by (auto simp: install_bundle_def swap_in_files split: option.splits if_splits)

lemma refused_bundle:
  assumes "install_bundle lib data g = (Inl e, g')"
  shows "served_gui g' = served_gui g \<and> kept_gui g' = kept_gui g"
  using assms by (auto simp: install_bundle_def split: option.splits if_splits)

text \<open>Whatever became of the action, with a directory served before, the served directory can be given back.\<close>

lemma install_gui_keeps:
  assumes "install_gui lib sha256 kept gui target g = (r, g')" and "served_gui g = Some d" and "kept_gui g = None"
  shows "served_gui (restore_previous g') = Some d"
proof (cases r)
  case (Inl e)
  then show ?thesis using assms refused_bundle [of lib _ g e g']
    by (auto simp: install_gui_def restore_previous_def build_gui_locally_def keep_previous_def split: if_splits option.splits prod.splits)
next
  case (Inr u)
  then show ?thesis using assms installed_bundle [of lib _ g g']
    by (auto simp: install_gui_def restore_previous_def build_gui_locally_def keep_previous_def split: if_splits option.splits prod.splits)
qed

section \<open>What an update makes of the served directory\<close>

text \<open>
  From the published release to the served GUI: an update is planned only for a verified release, and only bytes with every
  stated digest are unpacked into the served directory; and when the previous directory can be given back.
\<close>

subsection \<open>Verified releases\<close>

lemma verified_asset_digests:
  "asset_ok (verify_asset sha256 data a statement) \<longleftrightarrow>
     stated_digests a statement \<noteq> [] \<and> list_all (\<lambda>(_, d). d = sha256 data) (stated_digests a statement)"
  by (auto simp: asset_ok_def verify_asset_def Let_def filter_empty_conv list_all_iff)

text \<open>The bytes of an asset hash to every digest stated for it, and one is stated.\<close>

definition has_stated_digests :: "'b byte_lib \<Rightarrow> 'b release_source \<Rightarrow> published_release \<Rightarrow> release_asset \<Rightarrow> string \<Rightarrow> bool" where
  "has_stated_digests lib source r a digest \<longleftrightarrow>
     (case release_statement lib source r of
        Inl e \<Rightarrow> False
      | Inr statement \<Rightarrow>
          stated_digests a statement \<noteq> [] \<and> list_all (\<lambda>(_, d). d = digest) (stated_digests a statement))"

lemma checked_assets_verified:
  assumes "check_release lib source checkout requested pre = Inr check" and "checked_verification check = Some ver"
    and "\<forall>v \<in> set (verified_assets_found ver). asset_ok v"
  shows "\<exists>r. checked_release check = Some r \<and> (commit_matches ver \<longrightarrow> fetch_tag checkout (release_tag r) = Inr (Some (release_commit r))) \<and>
    (\<forall>(n, data) \<in> set (checked_assets check). \<exists>a. release_asset_named r (gui_bundle_name r) = Some a \<and> asset_name a = n \<and>
       download_asset source a = Inr data \<and> has_stated_digests lib source r a (sha256_of lib data))"
  using assms
  by (auto simp: check_release_def verified_assets_def bind_result_def has_stated_digests_def verified_asset_digests list_all_iff
      split: sum.splits option.splits if_splits prod.splits)

lemma not_refused:
  assumes "update_refusal ob ver rehearsal = None"
  shows "commit_matches ver \<and> (\<forall>v \<in> set (verified_assets_found ver). asset_ok v) \<and> software_clean (observed_software ob) \<and>
    (signers_file_present (observed_software ob) \<longrightarrow> signature ver \<notin> {Unsigned, Untrusted}) \<and> observed_kind ob \<in> {LocalCheckout, ComposeHost} \<and>
    (case rehearsal of None \<Rightarrow> True | Some v \<Rightarrow> rehearsal_clear v)"
  using assms by (cases "observed_kind ob") (auto simp: update_refusal_def filter_empty_conv split: if_splits list.splits option.splits)

text \<open>A plan was not refused, and with a rehearsal wanted the rehearsal is clear.\<close>

lemma planned_not_refused:
  assumes "fst (planning_for check ob gui on_main rehearse_first rehearse) = Some (UpdatePlanned p)"
  shows "\<exists>r ver rehearsal. checked_release check = Some r \<and> checked_verification check = Some ver \<and>
    update_refusal ob ver rehearsal = None \<and> p = planned_update ob r ver gui on_main \<and>
    (rehearse_first \<longrightarrow> rehearsal = Some (rehearse r)) \<and>
    (\<forall>v. installed_version (checked_installed check) = Some v \<longrightarrow> v < release_version_of r)"
  using assms
  by (auto simp: planning_for_def plan_update_def decided_update_def update_available_def Let_def
      split: option.splits planning_result.splits if_splits)

text \<open>
  An update is planned only for a release that is newer than what is installed, whose tag in the checkout's origin
  names the commit the release states, which is signed where the checkout keeps signers, all of whose downloaded assets hash
  to every digest stated for them, at least one being stated; on a clean checkout; and, unless the rehearsal is left out,
  whose data upgrade was rehearsed with nothing found.
\<close>

theorem planned_updates_are_verified:
  assumes "check_release lib source checkout requested pre = Inr check"
    and "fst (planning_for check ob gui on_main rehearse_first rehearse) = Some (UpdatePlanned p)"
  shows "\<exists>r ver. checked_release check = Some r \<and> checked_verification check = Some ver \<and> plan_target p = release_version_of r \<and>
    (\<forall>v. installed_version (checked_installed check) = Some v \<longrightarrow> v < release_version_of r) \<and>
    fetch_tag checkout (release_tag r) = Inr (Some (release_commit r)) \<and>
    (signers_file_present (observed_software ob) \<longrightarrow> signature ver \<notin> {Unsigned, Untrusted}) \<and>
    software_clean (observed_software ob) \<and> (rehearse_first \<longrightarrow> rehearsal_clear (rehearse r)) \<and>
    (\<forall>(n, data) \<in> set (checked_assets check). \<exists>a. release_asset_named r (gui_bundle_name r) = Some a \<and>
       download_asset source a = Inr data \<and> has_stated_digests lib source r a (sha256_of lib data))"
proof -
  from planned_not_refused [OF assms(2)] obtain r ver rehearsal where planned: "checked_release check = Some r"
      "checked_verification check = Some ver" "update_refusal ob ver rehearsal = None" "p = planned_update ob r ver gui on_main"
      "rehearse_first \<longrightarrow> rehearsal = Some (rehearse r)" "\<forall>v. installed_version (checked_installed check) = Some v \<longrightarrow> v < release_version_of r"
    by blast
  note clear = not_refused [OF planned(3)]
  have "plan_target p = release_version_of r" by (simp add: planned(4) planned_update_def Let_def)
  moreover note checked_assets_verified [OF assms(1) planned(2)]
  ultimately show ?thesis using planned clear by (fastforce split: option.splits)
qed

subsection \<open>A release on trial\<close>

definition trial_asset :: release_asset where
  "trial_asset = \<lparr>asset_name = gui_bundle_name trial_release, download_url = ''url'', stated_digest = Some ''sha256:abc'', asset_size = 3\<rparr>"

definition bundled_release :: published_release where
  "bundled_release = trial_release\<lparr>release_assets := [trial_asset]\<rparr>"

definition trial_lib :: "string byte_lib" where
  "trial_lib = \<lparr>sha256_of = (\<lambda>data. data), decode_utf8 = Some\<rparr>"

definition trial_source :: "string release_source" where
  "trial_source =
     \<lparr>latest_release = (\<lambda>_. Ok (Some bundled_release)), release_by_version = (\<lambda>_. Ok (Some bundled_release)), download_asset = (\<lambda>_. Ok ''abc'')\<rparr>"

definition trial_checkout :: update_checkout where
  "trial_checkout = \<lparr>observe_checkout = Ok trial_software, fetch_tag = (\<lambda>_. Ok (Some ''c1'')), verify_tag = (\<lambda>_. Unsigned)\<rparr>"

definition nothing_found :: rehearsal_verdict where
  "nothing_found =
     \<lparr>rehearsed_repositories = 2, rehearsed_targets = 5, rehearsed_migratable = 1, rehearsal_blocking = [], rehearsal_uninspectable = [],
      rehearsal_errors = []\<rparr>"

definition bundled_check :: "string release_check" where
  "bundled_check =
     (case check_release trial_lib trial_source trial_checkout None False of Inr c \<Rightarrow> c | Inl e \<Rightarrow> trial_check)"

definition bundled_plan :: update_plan where
  "bundled_plan =
     (case fst (planning_for bundled_check trial_observation None True True (\<lambda>_. nothing_found)) of
        Some (UpdatePlanned p) \<Rightarrow> p | _ \<Rightarrow> trial_plan)"

lemma trial_checked: "check_release trial_lib trial_source trial_checkout None False = Inr bundled_check"
  unfolding bundled_check_def by code_simp

lemma trial_planned:
  "fst (planning_for bundled_check trial_observation None True True (\<lambda>_. nothing_found)) = Some (UpdatePlanned bundled_plan)"
  by code_simp

theorem planned_updates_are_verified_witness:
  "plan_target bundled_plan = ReleaseVersion 1 1 0 \<and>
   (\<exists>r. checked_release bundled_check = Some r \<and> fetch_tag trial_checkout (release_tag r) = Inr (Some (release_commit r)))"
proof -
  have "plan_target bundled_plan = ReleaseVersion 1 1 0" by code_simp
  with planned_updates_are_verified [OF trial_checked trial_planned] show ?thesis by blast
qed

subsection \<open>The served directory\<close>

text \<open>
  Claim C14. What an update from a release makes the served directory is what the verified bundle unpacks to: the bytes read
  from beside the journal, possibly by another process, have the digest that every statement of the release gives for it, and
  otherwise the action fails.
\<close>

theorem only_verified_gui_is_served:
  assumes check: "check_release blib source checkout requested pre = Inr check"
    and planned: "fst (planning_for check ob gui on_main rehearse_first rehearse) = Some (UpdatePlanned p)"
    and from_release: "plan_gui p = FromRelease" "checked_release check = Some r"
    and digest: "host_sha256 host = sha256_of blib"
    and installed: "install_gui lib (sha256_of blib) kept (journal_gui (opening_journal host check r ob p)) (journal_target (opening_journal host check r ob p)) g = (Inr (), g')"
  shows "\<exists>a data. release_asset_named r (gui_bundle_name r) = Some a \<and> kept (gui_bundle_name r) = Some data \<and>
    has_stated_digests blib source r a (sha256_of blib data) \<and> served_gui g' = unpacks lib data"
proof -
  let ?n = "gui_bundle_name r"
  from planned_not_refused [OF planned] from_release(2) obtain ver rehearsal where ver: "checked_verification check = Some ver"
    "update_refusal ob ver rehearsal = None" by auto
  from installed obtain data known where data: "map_of (checked_assets check) ?n = Some known" "kept ?n = Some data"
      "sha256_of blib data = sha256_of blib known" "install_bundle lib data g = (Inr (), g')"
    by (auto simp: install_gui_def opening_journal_def bundle_of_plan_def from_release digest split: option.splits if_splits)
  then have "(?n, known) \<in> set (checked_assets check)" by (simp add: map_of_SomeD)
  with checked_assets_verified [OF check ver(1)] not_refused [OF ver(2)] from_release(2)
  obtain a where "release_asset_named r ?n = Some a" "has_stated_digests blib source r a (sha256_of blib known)" by fastforce
  with data installed_bundle [OF data(4)] show ?thesis by auto
qed

definition trial_gui_lib :: "(string, string) gui_lib" where
  "trial_gui_lib = \<lparr>unpacks = (\<lambda>data. Some data), has_index_page = (\<lambda>_. True), builds = (\<lambda>d. (Ok (), d))\<rparr>"

definition trial_gui :: "string gui_files" where
  "trial_gui = \<lparr>served_gui = Some ''old'', kept_gui = None, incoming_gui = None\<rparr>"

theorem only_verified_gui_is_served_witness:
  "served_gui (snd (install_gui trial_gui_lib (sha256_of trial_lib) (\<lambda>_. Some ''abc'') (plan_gui bundled_plan)
     (journal_target (opening_journal trial_host bundled_check bundled_release trial_observation bundled_plan)) trial_gui)) = Some ''abc''"
proof -
  let ?j = "opening_journal trial_host bundled_check bundled_release trial_observation bundled_plan"
  let ?install = "install_gui trial_gui_lib (sha256_of trial_lib) (\<lambda>_. Some ''abc'') (journal_gui ?j) (journal_target ?j) trial_gui"
  have "fst ?install = Inr ()" by code_simp
  then have installed: "?install = (Inr (), snd ?install)" by (metis prod.collapse)
  have "host_sha256 trial_host = sha256_of trial_lib" by (simp add: trial_host_def trial_lib_def)
  moreover have "plan_gui bundled_plan = FromRelease" "checked_release bundled_check = Some bundled_release" by code_simp+
  ultimately obtain a data where "Some ''abc'' = Some data" "served_gui (snd ?install) = unpacks trial_gui_lib data"
    using only_verified_gui_is_served [OF trial_checked trial_planned _ _ _ installed] by blast
  then show ?thesis by (simp add: trial_gui_lib_def opening_journal_def)
qed

text \<open>
  Whatever one installation of a GUI did, and wherever the process died while the directories were swapped, the
  reversal gives the directory back that was served before. But where the process died after the old directory was moved
  aside and the update is resumed, the bundle is installed again, which drops the directory kept or replaces it by the new
  one: from then on the reversal leaves the new directory served, although it is kept for a rollback until the update is
  verified.
\<close>

theorem gui_installed_again_is_not_given_back:
  assumes "served_gui g = Some old" and "kept_gui g = None" and "unpacks lib data = Some new" and "has_index_page lib new"
  shows "(\<forall>r g'. install_gui lib sha256 kept gui target g = (r, g') \<longrightarrow> served_gui (restore_previous g') = Some old) \<and>
    (\<forall>s \<in> set (swap_states new g). served_gui (restore_previous s) = Some old) \<and>
    (\<forall>s \<in> set (tl (swap_states new g)). served_gui (restore_previous (snd (install_bundle lib data s))) = Some new)"
proof (intro conjI allI ballI impI)
  fix r g' assume "install_gui lib sha256 kept gui target g = (r, g')"
  then show "served_gui (restore_previous g') = Some old" using assms(1,2) by (rule install_gui_keeps)
next
  fix s assume "s \<in> set (swap_states new g)"
  with assms show "served_gui (restore_previous s) = Some old" by (auto simp: swap_states_def restore_previous_def)
next
  fix s assume "s \<in> set (tl (swap_states new g))"
  with assms show "served_gui (restore_previous (snd (install_bundle lib data s))) = Some new"
    by (auto simp: swap_states_def restore_previous_def install_bundle_def swap_in_files split: option.split)
qed

theorem gui_installed_again_is_not_given_back_witness:
  "served_gui (restore_previous (snd (install_bundle trial_gui_lib ''abc'' (swap_states ''abc'' trial_gui ! 1)))) = Some ''abc''"
proof -
  have "swap_states ''abc'' trial_gui ! 1 \<in> set (tl (swap_states ''abc'' trial_gui))" by (simp add: swap_states_def Let_def)
  then show ?thesis
    using gui_installed_again_is_not_given_back [of trial_gui "''old''" trial_gui_lib "''abc''" "''abc''"]
    by (simp add: trial_gui_def trial_gui_lib_def)
qed

end
