(* ===== verification/Update_Crashes.thy ===== *)
theory Update_Crashes
  imports Update_Commands
begin

text \<open>
  An update with processes that die. The steps are those of the phase runner (\<^verbatim>\<open>src/application/software_update/apply.py\<close>) with
  each write of the journal file a step of its own, the opening, resuming and rolling back of
  \<^verbatim>\<open>src/infrastructure/cli/_update_commit.py\<close>, and a death at every point: between two steps, within an action, whose effect is
  then any, or within a rollback. Beside the file the state holds which phases have begun to act in the update in flight.
\<close>

section \<open>Steps\<close>

datatype update_stage =
    Down | Between update_phase update_journal | Begun update_phase update_journal update_phase
  | Acted update_phase update_journal update_phase

record 'w update_machine =
  machine_slot :: "update_journal option"
  machine_world :: 'w
  machine_stage :: update_stage
  machine_began :: "update_phase set"

inductive machine_step :: "'w update_actions \<Rightarrow> 'w update_machine \<Rightarrow> 'w update_machine \<Rightarrow> bool"
  for acts :: "'w update_actions" where
  opens: "\<lbrakk>machine_slot m = None; machine_stage m = Down; journal_phase j = Planned; in_flight j = None\<rbrakk> \<Longrightarrow>
    machine_step acts m (m\<lparr>machine_slot := Some j, machine_stage := Between HANDOVER_PHASE j, machine_began := {}\<rparr>)"
| begins: "\<lbrakk>machine_stage m = Between through j; \<not> run_is_over through j; begin_phase p j = Inr b\<rbrakk> \<Longrightarrow>
    machine_step acts m (m\<lparr>machine_slot := Some b, machine_stage := Begun through b p\<rparr>)"
| completes: "\<lbrakk>machine_stage m = Begun through b p; perform_phase acts b p (machine_world m) = (Inr d, w)\<rbrakk> \<Longrightarrow>
    machine_step acts m (m\<lparr>machine_world := w, machine_began := insert p (machine_began m), machine_stage := Acted through d p\<rparr>)"
| stops_midway: "\<lbrakk>machine_stage m = Begun through b p; perform_phase acts b p (machine_world m) = (Inl (MigrationIncomplete detail c), w)\<rbrakk> \<Longrightarrow>
    machine_step acts m
      (m\<lparr>machine_slot := Some (b\<lparr>checkpoint_set := c, migration_committed := True\<rparr>), machine_world := w,
         machine_began := insert p (machine_began m), machine_stage := Down\<rparr>)"
| fails: "\<lbrakk>machine_stage m = Begun through b p; perform_phase acts b p (machine_world m) = (Inl (ActionFailed detail), w)\<rbrakk> \<Longrightarrow>
    machine_step acts m (m\<lparr>machine_world := w, machine_began := insert p (machine_began m), machine_stage := Down\<rparr>)"
| dies_acting: "machine_stage m = Begun through b p \<Longrightarrow>
    machine_step acts m (m\<lparr>machine_world := w, machine_began := insert p (machine_began m), machine_stage := Down\<rparr>)"
| advances: "\<lbrakk>machine_stage m = Acted through d p; advance_phase p d = Inr j\<rbrakk> \<Longrightarrow>
    machine_step acts m (m\<lparr>machine_slot := Some j, machine_stage := Between through j\<rparr>)"
| dies: "machine_step acts m (m\<lparr>machine_stage := Down\<rparr>)"
| resumes: "\<lbrakk>machine_slot m = Some j; machine_stage m = Down; handed_over j\<rbrakk> \<Longrightarrow>
    machine_step acts m (m\<lparr>machine_stage := Between Verified j\<rparr>)"
| finishes: "\<lbrakk>machine_stage m = Between Verified j; run_is_over Verified j\<rbrakk> \<Longrightarrow>
    machine_step acts m (m\<lparr>machine_slot := None, machine_stage := Down, machine_began := {}\<rparr>)"
| rolls_back: "\<lbrakk>machine_slot m = Some j; machine_stage m = Down; roll_back acts j (Some j, machine_world m) = (res, slot, w)\<rbrakk> \<Longrightarrow>
    machine_step acts m (m\<lparr>machine_slot := None, machine_world := w, machine_began := {}\<rparr>)"
| dies_rolling_back: "\<lbrakk>machine_slot m = Some j; machine_stage m = Down\<rbrakk> \<Longrightarrow> machine_step acts m (m\<lparr>machine_world := w\<rparr>)"

inductive_cases machine_stepE: "machine_step acts m m'"

text \<open>A checkout with no update in flight, and what can come of it.\<close>

definition at_rest :: "'w update_machine \<Rightarrow> bool" where
  "at_rest m \<longleftrightarrow> machine_slot m = None \<and> machine_stage m = Down \<and> machine_began m = {}"

inductive machine_reachable :: "'w update_actions \<Rightarrow> 'w update_machine \<Rightarrow> bool" for acts :: "'w update_actions" where
  rests: "at_rest m \<Longrightarrow> machine_reachable acts m"
| steps: "machine_reachable acts m \<Longrightarrow> machine_step acts m m' \<Longrightarrow> machine_reachable acts m'"

section \<open>The journal covers what began\<close>

text \<open>The phases a journal says are complete, apart from the one it opens with.\<close>

definition completed_phases :: "update_journal \<Rightarrow> update_phase set" where
  "completed_phases j = {p. 1 \<le> phase_index p \<and> phase_index p \<le> phase_index (journal_phase j)}"

definition covers :: "update_journal \<Rightarrow> update_phase set \<Rightarrow> bool" where
  "covers j began \<longleftrightarrow> completed_phases j \<subseteq> began \<and> began \<subseteq> {p. touched p j}"

definition next_in_flight :: "update_journal \<Rightarrow> bool" where
  "next_in_flight j \<longleftrightarrow> (case in_flight j of None \<Rightarrow> True | Some p \<Rightarrow> phase_index p = phase_index (journal_phase j) + 1)"

definition machine_ok :: "'w update_machine \<Rightarrow> bool" where
  "machine_ok m \<longleftrightarrow>
     (case machine_slot m of
        None \<Rightarrow> machine_began m = {} \<and> machine_stage m = Down
      | Some j \<Rightarrow> covers j (machine_began m) \<and> next_in_flight j \<and>
          (case machine_stage m of
             Down \<Rightarrow> True
           | Between _ k \<Rightarrow> k = j
           | Begun _ b p \<Rightarrow> b = j \<and> in_flight j = Some p
           | Acted _ d p \<Rightarrow> journal_phase d = journal_phase j \<and> in_flight j = Some p \<and> p \<in> machine_began m))"

lemma covers_opening: "journal_phase j = Planned \<Longrightarrow> in_flight j = None \<Longrightarrow> covers j {}"
  by (auto simp: covers_def completed_phases_def)

lemma covers_begin:
  assumes "covers j began" "next_in_flight j" "begin_phase p j = Inr b"
  shows "covers b began \<and> next_in_flight b \<and> in_flight b = Some p"
  using assms begun_journal [OF assms(3)]
  by (fastforce simp: covers_def completed_phases_def next_in_flight_def touched_iff last_begun_def split: option.splits)

lemma covers_act:
  assumes "covers b began" "next_in_flight b" "in_flight b = Some p"
  shows "covers b (insert p began)"
  using assms by (auto simp: covers_def completed_phases_def next_in_flight_def touched_iff last_begun_def)

lemma covers_advance:
  assumes "covers b began" "next_in_flight b" "in_flight b = Some p" "p \<in> began"
    and "advance_phase p d = Inr j" "journal_phase d = journal_phase b"
  shows "covers j began \<and> next_in_flight j"
proof -
  have j: "phase_index p = phase_index (journal_phase b) + 1" "journal_phase j = p" "in_flight j = None"
    using advanced_journal [OF assms(5)] assms(6) by auto
  have "q \<in> began" if "q \<in> completed_phases j" for q
  proof (cases "q = p")
    case False
    with that j have "q \<in> completed_phases b" using phase_index_inj [of q p] by (simp add: completed_phases_def)
    with assms(1) show ?thesis by (auto simp: covers_def)
  qed (simp add: assms(4))
  moreover have "touched q b \<longleftrightarrow> touched q j" for q using assms(3) j by (simp add: touched_iff last_begun_def)
  ultimately show ?thesis using assms(1) j by (auto simp: covers_def next_in_flight_def)
qed

lemma covers_partial: "covers (b\<lparr>checkpoint_set := c, migration_committed := k\<rparr>) began \<longleftrightarrow> covers b began"
  "next_in_flight (b\<lparr>checkpoint_set := c, migration_committed := k\<rparr>) \<longleftrightarrow> next_in_flight b"
  by (cases "in_flight b"; simp add: covers_def completed_phases_def next_in_flight_def touched_iff last_begun_def)+

lemma machine_step_ok:
  assumes "machine_step acts m m'" "machine_ok m"
  shows "machine_ok m'"
  using assms
proof (induction rule: machine_step.induct)
  case (begins m through j p b)
  then show ?case using covers_begin [of j "machine_began m" p b] by (auto simp: machine_ok_def split: option.splits)
next
  case (completes m through b p d w)
  then show ?case using covers_act [of b "machine_began m" p] perform_phase_journal [OF completes.hyps(2)]
    by (auto simp: machine_ok_def split: option.splits)
next
  case (stops_midway m through b p detail c w)
  then show ?case using covers_act [of b "machine_began m" p]
    by (auto simp: machine_ok_def covers_partial split: option.splits)
next
  case (fails m through b p detail w)
  then show ?case using covers_act [of b "machine_began m" p] by (auto simp: machine_ok_def split: option.splits)
next
  case (dies_acting m through b p w)
  then show ?case using covers_act [of b "machine_began m" p] by (auto simp: machine_ok_def split: option.splits)
next
  case (advances m through d p j)
  then show ?case using covers_advance [of _ "machine_began m" p d j] by (auto simp: machine_ok_def split: option.splits)
next
  case (opens m j)
  then show ?case using covers_opening [of j] by (simp add: machine_ok_def next_in_flight_def)
qed (auto simp: machine_ok_def split: option.splits)

lemma machine_reachable_ok: "machine_reachable acts m \<Longrightarrow> machine_ok m"
proof (induction rule: machine_reachable.induct)
  case (rests m)
  then show ?case by (simp add: at_rest_def machine_ok_def)
qed (rule machine_step_ok)

text \<open>
  Claim C4. Whatever processes ran and wherever they died, the journal file covers what began: without one, no phase of an
  update has begun to act; with one, every writing phase up to the last it records has begun, and every phase that has begun
  is one a rollback from that file reverses.
\<close>

theorem update_journal_covers_what_began:
  assumes "machine_reachable acts m"
  shows "case machine_slot m of
      None \<Rightarrow> machine_began m = {}
    | Some j \<Rightarrow> completed_phases j \<subseteq> machine_began m \<and> machine_began m \<subseteq> set (phases_to_reverse j)"
  using machine_reachable_ok [OF assms] by (auto simp: machine_ok_def covers_def touched_def split: option.splits)

text \<open>A first phase begun in which the process dies.\<close>

definition first_journal :: update_journal where
  "first_journal =
     \<lparr>journal_started_at = ''now'',
      journal_previous =
        \<lparr>previous_version = ''1.0.0'', previous_commit = ''c0'', previous_branch = None,
         previous_backend = \<lparr>backend_running = False, backend_pid = None, backend_port = None, backend_detached = None, serving_flags = [],
           backend_unhealthy = False\<rparr>, store_held_open = False\<rparr>,
      journal_target = \<lparr>target_version = ''1.1.0'', target_tag = ''v1.1.0'', target_commit = ''c1'', target_bundle = None, target_bundle_sha256 = None\<rparr>,
      journal_selection = \<lparr>sync_groups = [], sync_extras = []\<rparr>, journal_move = Detach, journal_gui = LeaveStale, journal_phase = Planned,
      resume_command = [], in_flight = None, checkpoint_set = None, migration_committed = False, journal_notes = [],
      journal_deployment = ''local-checkout'', journal_compose_file = None\<rparr>"

definition torn_machine :: "nat update_machine" where
  "torn_machine =
     \<lparr>machine_slot = Some (first_journal\<lparr>in_flight := Some BackendStopped\<rparr>), machine_world = 7, machine_stage = Down,
      machine_began = {BackendStopped}\<rparr>"

lemma torn_machine_reachable: "machine_reachable acts torn_machine"
proof -
  let ?b = "first_journal\<lparr>in_flight := Some BackendStopped\<rparr>"
  let ?rest = "\<lparr>machine_slot = None, machine_world = 0, machine_stage = Down, machine_began = {}\<rparr>"
  let ?open = "\<lparr>machine_slot = Some first_journal, machine_world = 0, machine_stage = Between HANDOVER_PHASE first_journal, machine_began = {}\<rparr>"
  let ?begun = "\<lparr>machine_slot = Some ?b, machine_world = 0, machine_stage = Begun HANDOVER_PHASE ?b BackendStopped, machine_began = {}\<rparr>"
  have planned: "journal_phase first_journal = Planned" "in_flight first_journal = None" by (simp_all add: first_journal_def)
  have "machine_reachable acts ?rest" by (rule machine_reachable.rests) (simp add: at_rest_def)
  moreover have "machine_step acts ?rest ?open"
    using machine_step.opens [of ?rest first_journal acts] planned by simp
  moreover have "\<not> run_is_over HANDOVER_PHASE first_journal" by code_simp
  then have "machine_step acts ?open ?begun"
    using machine_step.begins [of ?open HANDOVER_PHASE first_journal BackendStopped ?b acts] planned by (simp add: begin_phase_def)
  moreover have "machine_step acts ?begun torn_machine"
    using machine_step.dies_acting [of ?begun HANDOVER_PHASE ?b BackendStopped acts 7] by (simp add: torn_machine_def)
  ultimately show ?thesis by (meson machine_reachable.steps)
qed

theorem update_journal_covers_what_began_witness:
  "BackendStopped \<in> set (phases_to_reverse (first_journal\<lparr>in_flight := Some BackendStopped\<rparr>))"
  using update_journal_covers_what_began [OF torn_machine_reachable] by (simp add: torn_machine_def)

section \<open>The runner takes these steps\<close>

text \<open>The machine between two phases, and with a phase begun.\<close>

definition between_machine :: "update_phase \<Rightarrow> update_phase set \<Rightarrow> update_journal \<Rightarrow> 'w \<Rightarrow> 'w update_machine" where
  "between_machine through began j w =
     \<lparr>machine_slot = Some j, machine_world = w, machine_stage = Between through j, machine_began = began\<rparr>"

definition begun_machine :: "update_phase \<Rightarrow> update_phase set \<Rightarrow> update_journal \<Rightarrow> update_phase \<Rightarrow> 'w \<Rightarrow> 'w update_machine" where
  "begun_machine through began b p w =
     \<lparr>machine_slot = Some b, machine_world = w, machine_stage = Begun through b p, machine_began = began\<rparr>"

lemma begins_phase:
  assumes "\<not> run_is_over through j" "begin_phase p j = Inr b" and "machine_step acts (begun_machine through began b p w) m"
  shows "(machine_step acts)\<^sup>*\<^sup>* (between_machine through began j w) m"
proof -
  have "machine_step acts (between_machine through began j w) (begun_machine through began b p w)"
    using machine_step.begins [of "between_machine through began j w" through j p b acts] assms(1,2)
    by (simp add: between_machine_def begun_machine_def)
  with assms(3) show ?thesis by (meson rtranclp.intros)
qed

lemma run_takes_steps:
  assumes "update_run acts through j s r s'" and "fst s = Some j"
  shows "\<exists>m. (machine_step acts)\<^sup>*\<^sup>* (between_machine through began j (snd s)) m \<and> machine_slot m = fst s' \<and> machine_world m = snd s'"
  using assms
proof (induction arbitrary: began rule: update_run.induct)
  case (run_over j s)
  then show ?case by (intro exI [of _ "between_machine through began j (snd s)"]) (simp add: between_machine_def)
next
  case (run_partial j p b w d c w' slot)
  note begins_phase [OF run_partial.hyps(1,2) machine_step.stops_midway [of "begun_machine through began b p w" through b p acts d c w']]
  then show ?case using run_partial.hyps(3) by (fastforce simp: begun_machine_def)
next
  case (run_failed j p b w d w' slot)
  note begins_phase [OF run_failed.hyps(1,2) machine_step.fails [of "begun_machine through began b p w" through b p acts d w']]
  then show ?case using run_failed.hyps(3) by (fastforce simp: begun_machine_def)
next
  case (run_next j p b w d w' j' r s slot)
  let ?d = "\<lparr>machine_slot = Some b, machine_world = w', machine_stage = Acted through d p, machine_began = insert p began\<rparr>"
  have "machine_step acts (begun_machine through began b p w) ?d"
    using machine_step.completes [of "begun_machine through began b p w" through b p acts d w'] run_next.hyps(3)
    by (simp add: begun_machine_def)
  note begins_phase [OF run_next.hyps(1,2) this]
  moreover have "machine_step acts ?d (between_machine through (insert p began) j' w')"
    using machine_step.advances [of ?d through d p j' acts] run_next.hyps(4) by (simp add: between_machine_def)
  moreover obtain m where "(machine_step acts)\<^sup>*\<^sup>* (between_machine through (insert p began) j' w') m"
    "machine_slot m = fst s" "machine_world m = snd s"
    using run_next.IH [of "insert p began"] by auto
  ultimately have "(machine_step acts)\<^sup>*\<^sup>* (between_machine through began j w) m \<and> machine_slot m = fst s \<and> machine_world m = snd s"
    by (meson rtranclp.rtrancl_into_rtrancl rtranclp_trans)
  then show ?case by (intro exI [of _ m]) simp
qed


end
