(* ===== verification/Update_Lock.thy ===== *)
theory Update_Lock
  imports Prelude
begin

text \<open>
  The lock of an update (\<^verbatim>\<open>FileJournalStore.acquire\<close>, \<^verbatim>\<open>release\<close> and \<^verbatim>\<open>lock_holder\<close> in
  \<^verbatim>\<open>src/infrastructure/software_update/journal_store.py\<close>): a file that holds the pid of its owner. Each operation of the
  file system is one step of the process that performs it, so that the processes of one checkout interleave.
\<close>

section \<open>Steps of one process\<close>

text \<open>What the file holds: a pid, or \<^const>\<open>None\<close> where it cannot be read as one, as while it is still empty.\<close>

type_synonym lock_file = "nat option option"

datatype lock_stage = LockOutside | LockRead "nat option" | LockUnlinking | LockCreating | LockWriting | LockHeld | LockRefused nat | LockCrashed

record lock_state =
  lock_on_disk :: lock_file
  alive_pids :: "nat set"
  lock_stage_of :: "nat \<Rightarrow> lock_stage"

definition lock_holder :: "lock_file \<Rightarrow> nat option" where
  "lock_holder f = (case f of Some (Some pid) \<Rightarrow> Some pid | _ \<Rightarrow> None)"

text \<open>One step of \<^verbatim>\<open>acquire\<close>; the exclusive creation of a file that exists raises \<^verbatim>\<open>FileExistsError\<close>.\<close>

definition acquire_step :: "nat \<Rightarrow> lock_state \<Rightarrow> lock_state" where
  "acquire_step pid s =
     (let goes = (\<lambda>stage. s\<lparr>lock_stage_of := (lock_stage_of s)(pid := stage)\<rparr>) in
      case lock_stage_of s pid of
        LockOutside \<Rightarrow> goes (LockRead (lock_holder (lock_on_disk s)))
      | LockRead None \<Rightarrow> goes LockCreating
      | LockRead (Some holder) \<Rightarrow>
          if holder = pid then goes LockHeld
          else if holder \<in> alive_pids s then goes (LockRefused holder)
          else goes LockUnlinking
      | LockUnlinking \<Rightarrow> (goes LockCreating)\<lparr>lock_on_disk := None\<rparr>
      | LockCreating \<Rightarrow> if lock_on_disk s = None then (goes LockWriting)\<lparr>lock_on_disk := Some None\<rparr> else goes LockCrashed
      | LockWriting \<Rightarrow> (goes LockHeld)\<lparr>lock_on_disk := Some (Some pid)\<rparr>
      | _ \<Rightarrow> s)"

definition release_lock :: "nat \<Rightarrow> lock_state \<Rightarrow> lock_state" where
  "release_lock pid s =
     (if lock_holder (lock_on_disk s) = Some pid then s\<lparr>lock_on_disk := None, lock_stage_of := (lock_stage_of s)(pid := LockOutside)\<rparr>
      else s\<lparr>lock_stage_of := (lock_stage_of s)(pid := LockOutside)\<rparr>)"

definition process_ends :: "nat \<Rightarrow> lock_state \<Rightarrow> lock_state" where
  "process_ends pid s = s\<lparr>alive_pids := alive_pids s - {pid}, lock_stage_of := (lock_stage_of s)(pid := LockOutside)\<rparr>"

section \<open>One process at a time\<close>

text \<open>\<^verbatim>\<open>acquire\<close> without another process in between: at most five steps.\<close>

definition acquire_alone :: "nat \<Rightarrow> lock_state \<Rightarrow> lock_state" where
  "acquire_alone pid s = (acquire_step pid ^^ 5) (s\<lparr>lock_stage_of := (lock_stage_of s)(pid := LockOutside)\<rparr>)"

text \<open>Where a process stands, with what the file holds.\<close>

definition stands :: "nat \<Rightarrow> lock_stage \<Rightarrow> lock_file \<Rightarrow> lock_state \<Rightarrow> lock_state" where
  "stands pid stage f s = s\<lparr>lock_on_disk := f, lock_stage_of := (lock_stage_of s)(pid := stage)\<rparr>"

lemma acquire_steps:
  "acquire_step pid (stands pid LockOutside f s) = stands pid (LockRead (lock_holder f)) f s"
  "acquire_step pid (stands pid (LockRead None) f s) = stands pid LockCreating f s"
  "acquire_step pid (stands pid (LockRead (Some h)) f s) =
     (if h = pid then stands pid LockHeld f s else if h \<in> alive_pids s then stands pid (LockRefused h) f s else stands pid LockUnlinking f s)"
  "acquire_step pid (stands pid LockUnlinking f s) = stands pid LockCreating None s"
  "acquire_step pid (stands pid LockCreating f s) = (if f = None then stands pid LockWriting (Some None) s else stands pid LockCrashed f s)"
  "acquire_step pid (stands pid LockWriting f s) = stands pid LockHeld (Some (Some pid)) s"
  "acquire_step pid (stands pid LockHeld f s) = stands pid LockHeld f s"
  "acquire_step pid (stands pid (LockRefused h) f s) = stands pid (LockRefused h) f s"
  "acquire_step pid (stands pid LockCrashed f s) = stands pid LockCrashed f s"
  by (simp_all add: stands_def acquire_step_def)

lemma stands_simps: "lock_stage_of (stands pid stage f s) pid = stage" "lock_on_disk (stands pid stage f s) = f"
  by (simp_all add: stands_def)

lemma acquire_alone_steps: "acquire_alone pid s =
   acquire_step pid (acquire_step pid (acquire_step pid (acquire_step pid (acquire_step pid (stands pid LockOutside (lock_on_disk s) s)))))"
  by (simp add: acquire_alone_def numeral_eq_Suc stands_def)

text \<open>
  A process that takes the lock with no other in between holds it, with its own pid in the file, where there was no
  file, its own or one of a process that is gone; it is refused by the file of a live process. A file that names no
  process, which is what a process that dies between creating and writing it leaves, is not taken over: every
  attempt ends in an exception and leaves the file.
\<close>

theorem update_lock_alone:
  "lock_stage_of (acquire_alone pid s) pid =
      (case lock_on_disk s of
         None \<Rightarrow> LockHeld
       | Some None \<Rightarrow> LockCrashed
       | Some (Some holder) \<Rightarrow> if holder = pid then LockHeld else if holder \<in> alive_pids s then LockRefused holder else LockHeld) \<and>
   lock_on_disk (acquire_alone pid s) =
      (if lock_stage_of (acquire_alone pid s) pid = LockHeld then Some (Some pid) else lock_on_disk s)"
proof (cases "lock_on_disk s")
  case (Some f)
  then show ?thesis by (cases f) (simp_all add: acquire_alone_steps acquire_steps stands_simps lock_holder_def)
qed (simp add: acquire_alone_steps acquire_steps stands_simps lock_holder_def)

section \<open>Processes that interleave\<close>

datatype lock_event = Steps nat | Releases nat | Ends nat

fun lock_events :: "lock_event list \<Rightarrow> lock_state \<Rightarrow> lock_state" where
  "lock_events [] s = s"
| "lock_events (Steps pid # es) s = lock_events es (acquire_step pid s)"
| "lock_events (Releases pid # es) s = lock_events es (release_lock pid s)"
| "lock_events (Ends pid # es) s = lock_events es (process_ends pid s)"

definition no_update_running :: lock_state where
  "no_update_running = \<lparr>lock_on_disk = None, alive_pids = {1, 2, 3}, lock_stage_of = (\<lambda>_. LockOutside)\<rparr>"

definition taken_twice :: "lock_event list" where
  "taken_twice =
     replicate 4 (Steps 1) @ [Steps 2, Releases 1, Ends 1] @ replicate 4 (Steps 3) @ replicate 4 (Steps 2)"


end
