(* ===== verification/Upgrade_Reports.thy ===== *)
theory Upgrade_Reports
  imports Change_Records
begin

text \<open>
  The values of a format upgrade: findings and their outcomes (\<^verbatim>\<open>src/domain/repository/repository_upgrade.py\<close>), operational
  targets, checkpoint sets, what an ordered apply did and how it is classified
  (\<^verbatim>\<open>src/domain/repository/operational_upgrade.py\<close>). The texts of findings and the rendered reports are left out.
\<close>

section \<open>Findings\<close>

datatype upgrade_severity = SeverityError | SeverityWarning | SeverityInfo

record upgrade_finding =
  finding_step :: string
  finding_id :: string
  finding_location :: string
  finding_severity :: upgrade_severity
  auto_migratable :: bool
  rewrite_summary :: "string option"
  manual_instructions :: "string option"
  blocks_commit :: bool

text \<open>What \<^verbatim>\<open>__post_init__\<close> accepts: a finding is never silently skipped.\<close>

definition finding_declared :: "upgrade_finding \<Rightarrow> bool" where
  "finding_declared f \<longleftrightarrow> (if auto_migratable f then truthy (rewrite_summary f) else truthy (manual_instructions f))"

datatype finding_outcome = FindingApplied | FindingSkipped | FindingErrored

record applied_finding =
  finding_of :: upgrade_finding
  outcome_of_finding :: finding_outcome

definition skipped_finding :: "upgrade_finding \<Rightarrow> applied_finding" where
  "skipped_finding f = \<lparr>finding_of = f, outcome_of_finding = FindingSkipped\<rparr>"

definition errored_finding :: "upgrade_finding \<Rightarrow> applied_finding" where
  "errored_finding f = \<lparr>finding_of = f, outcome_of_finding = FindingErrored\<rparr>"

definition any_error :: "applied_finding list \<Rightarrow> bool" where
  "any_error rs \<longleftrightarrow> list_ex (\<lambda>r. outcome_of_finding r = FindingErrored) rs"

definition any_applied :: "applied_finding list \<Rightarrow> bool" where
  "any_applied rs \<longleftrightarrow> list_ex (\<lambda>r. outcome_of_finding r = FindingApplied) rs"

definition any_blocking :: "applied_finding list \<Rightarrow> bool" where
  "any_blocking rs \<longleftrightarrow> list_ex (\<lambda>r. blocks_commit (finding_of r)) rs"

text \<open>The report on one repository; the step identities are left out.\<close>

record repo_report =
  reported_repo :: string
  applied_steps_before :: "string list"
  applied_steps_after :: "string list"
  repo_results :: "applied_finding list"
  unapplied_required_steps :: "string list"

definition repo_has_errors :: "repo_report \<Rightarrow> bool" where
  "repo_has_errors r \<longleftrightarrow> any_error (repo_results r)"

definition touched_locations :: "repo_report \<Rightarrow> string set" where
  "touched_locations r =
     set (map (\<lambda>x. finding_location (finding_of x))
       (filter (\<lambda>x. finding_step (finding_of x) \<noteq> ''infrastructure'' \<and> auto_migratable (finding_of x)) (repo_results r)))"

section \<open>Operational targets\<close>

datatype target_kind = RepositoryKind | GuidanceCache | SignalsSqlite | AssuranceSqlcipher | DeploymentSettings

definition APPLY_ORDER :: "target_kind list" where
  "APPLY_ORDER = [RepositoryKind, GuidanceCache, SignalsSqlite, AssuranceSqlcipher, DeploymentSettings]"

definition kind_index :: "target_kind \<Rightarrow> nat" where
  "kind_index k = length (takeWhile (\<lambda>l. l \<noteq> k) APPLY_ORDER)"

lemma kind_index_simps [simp]:
  "kind_index RepositoryKind = 0" "kind_index GuidanceCache = 1" "kind_index SignalsSqlite = 2"
  "kind_index AssuranceSqlcipher = 3" "kind_index DeploymentSettings = 4"
  by (simp_all add: kind_index_def APPLY_ORDER_def)

datatype target_state = TargetCurrent | TargetPending | TargetBlocked | TargetUninspectable | TargetAbsent

record upgrade_target =
  target_kind_of :: target_kind
  stable_id :: string
  display_location :: string
  target_format :: "int option"
  needs_key :: bool
  target_dependencies :: "string list"
  target_configured :: bool

record target_report =
  reported_target :: upgrade_target
  reported_state :: target_state
  target_results :: "applied_finding list"
  target_committed :: bool

definition target_has_errors :: "target_report \<Rightarrow> bool" where
  "target_has_errors r \<longleftrightarrow> any_error (target_results r)"

definition target_blocking :: "target_report \<Rightarrow> bool" where
  "target_blocking r \<longleftrightarrow> any_blocking (target_results r)"

section \<open>How an apply ended\<close>

datatype apply_outcome = ApplySuccess | RepositoryStepErrors | UnresolvedMigration | PartialApply | ApplyInfrastructureFailure

record apply_progress =
  committed_target_ids :: "string list"
  failed_target_id :: "string option"
  repository_step_errors :: bool
  infrastructure_failed :: bool
  blocking_found :: "string list"

definition classify_apply_outcome :: "apply_progress \<Rightarrow> apply_outcome" where
  "classify_apply_outcome p =
     (if blocking_found p \<noteq> [] then UnresolvedMigration
      else if failed_target_id p \<noteq> None \<or> infrastructure_failed p
      then (if committed_target_ids p \<noteq> [] then PartialApply else ApplyInfrastructureFailure)
      else if repository_step_errors p then RepositoryStepErrors
      else ApplySuccess)"

fun exit_of_apply :: "apply_outcome \<Rightarrow> int" where
  "exit_of_apply ApplySuccess = 0"
| "exit_of_apply RepositoryStepErrors = 1"
| "exit_of_apply UnresolvedMigration = 3"
| "exit_of_apply PartialApply = 20"
| "exit_of_apply ApplyInfrastructureFailure = 21"

section \<open>Checkpoint sets\<close>

record repository_checkpoint =
  checkpoint_root :: string
  checkpoint_ref :: string

record operational_backup =
  backup_kind :: pyval
  backup_location :: string
  backup_path :: string

record upgrade_checkpoint =
  checkpoint_id :: string
  repository_checkpoints :: "repository_checkpoint list"
  operational_backups :: "operational_backup list"

definition checkpoint_to_dict :: "upgrade_checkpoint \<Rightarrow> payload" where
  "checkpoint_to_dict c =
     [(''id'', PStr (checkpoint_id c)),
      (''repositories'', PList (map (\<lambda>r. PDict [(''root'', PStr (checkpoint_root r)), (''ref'', PStr (checkpoint_ref r))]) (repository_checkpoints c))),
      (''operational'', PList (map (\<lambda>b. PDict [(''kind'', backup_kind b), (''location'', PStr (backup_location b)),
         (''backup_path'', PStr (backup_path b))]) (operational_backups c)))]"

text \<open>The mappings of a list; anything else in it is passed over, and what is not a list counts as empty.\<close>

definition mappings_in :: "payload \<Rightarrow> string \<Rightarrow> payload list" where
  "mappings_in d k =
     (case map_of d k of
        Some (PList vs) \<Rightarrow> concat (map (\<lambda>v. case v of PDict m \<Rightarrow> [m] | _ \<Rightarrow> []) vs)
      | _ \<Rightarrow> [])"

datatype checkpoint_error = MissingKey

definition member_of :: "payload \<Rightarrow> string \<Rightarrow> (checkpoint_error, pyval) result" where
  "member_of d k = (case map_of d k of None \<Rightarrow> Err MissingKey | Some v \<Rightarrow> Ok v)"

fun all_results :: "('e, 'a) result list \<Rightarrow> ('e, 'a list) result" where
  "all_results [] = Ok []"
| "all_results (r # rs) = bind_result r (\<lambda>a. bind_result (all_results rs) (\<lambda>as. Ok (a # as)))"

definition repository_checkpoint_of :: "payload \<Rightarrow> (checkpoint_error, repository_checkpoint) result" where
  "repository_checkpoint_of d =
     bind_result (member_of d ''root'') (\<lambda>root. bind_result (member_of d ''ref'') (\<lambda>ref.
       Ok \<lparr>checkpoint_root = py_str root, checkpoint_ref = py_str ref\<rparr>))"

definition operational_backup_of :: "payload \<Rightarrow> (checkpoint_error, operational_backup) result" where
  "operational_backup_of d =
     bind_result (member_of d ''kind'') (\<lambda>kind. bind_result (member_of d ''location'') (\<lambda>location.
     bind_result (member_of d ''backup_path'') (\<lambda>path.
       Ok \<lparr>backup_kind = kind, backup_location = py_str location, backup_path = py_str path\<rparr>)))"

definition checkpoint_from_dict :: "payload \<Rightarrow> (checkpoint_error, upgrade_checkpoint) result" where
  "checkpoint_from_dict d =
     bind_result (member_of d ''id'') (\<lambda>i.
     bind_result (all_results (map repository_checkpoint_of (mappings_in d ''repositories''))) (\<lambda>rs.
     bind_result (all_results (map operational_backup_of (mappings_in d ''operational''))) (\<lambda>bs.
       Ok \<lparr>checkpoint_id = py_str i, repository_checkpoints = rs, operational_backups = bs\<rparr>)))"

lemma checkpoint_read_back: "checkpoint_from_dict (checkpoint_to_dict c) = Ok c"
proof -
  have mappings: "mappings_in (checkpoint_to_dict c) ''repositories'' =
      map (\<lambda>r. [(''root'', PStr (checkpoint_root r)), (''ref'', PStr (checkpoint_ref r))]) (repository_checkpoints c)"
    "mappings_in (checkpoint_to_dict c) ''operational'' =
      map (\<lambda>b. [(''kind'', backup_kind b), (''location'', PStr (backup_location b)), (''backup_path'', PStr (backup_path b))]) (operational_backups c)"
    by (simp_all add: mappings_in_def checkpoint_to_dict_def comp_def)
  have "all_results (map (repository_checkpoint_of \<circ> (\<lambda>r. [(''root'', PStr (checkpoint_root r)), (''ref'', PStr (checkpoint_ref r))])) rs) = Ok rs" for rs
    by (induction rs) (simp_all add: repository_checkpoint_of_def member_of_def bind_result_def)
  moreover have "all_results (map (operational_backup_of \<circ> (\<lambda>b. [(''kind'', backup_kind b), (''location'', PStr (backup_location b)), (''backup_path'', PStr (backup_path b))])) bs) = Ok bs" for bs
    by (induction bs) (simp_all add: operational_backup_of_def member_of_def bind_result_def)
  moreover have "member_of (checkpoint_to_dict c) ''id'' = Ok (PStr (checkpoint_id c))"
    by (simp add: member_of_def checkpoint_to_dict_def)
  ultimately show ?thesis unfolding checkpoint_from_dict_def mappings by (simp add: bind_result_def)
qed

interpretation checkpoint_codec: codec "\<lambda>_. True" checkpoint_to_dict checkpoint_from_dict
  by unfold_locales (simp_all add: checkpoint_read_back)

end
