(* ===== verification/Upgrade_Ordering.thy ===== *)
theory Upgrade_Ordering
  imports Upgrade_Reports
begin

text \<open>
  In which order the operational targets of a deployment are upgraded (\<^verbatim>\<open>dedupe_handles\<close> and \<^verbatim>\<open>order_handles\<close> of
  \<^verbatim>\<open>src/application/deployment_upgrade/orchestrate.py\<close>). A handle is any value that has a target.
\<close>

section \<open>Removing duplicates\<close>

fun dedupe_from :: "('h \<Rightarrow> upgrade_target) \<Rightarrow> string set \<Rightarrow> 'h list \<Rightarrow> 'h list" where
  "dedupe_from target seen [] = []"
| "dedupe_from target seen (h # hs) =
     (if stable_id (target h) \<in> seen then dedupe_from target seen hs
      else h # dedupe_from target (insert (stable_id (target h)) seen) hs)"

definition dedupe_handles :: "('h \<Rightarrow> upgrade_target) \<Rightarrow> 'h list \<Rightarrow> 'h list" where
  "dedupe_handles target hs = dedupe_from target {} hs"

abbreviation handle_ids :: "('h \<Rightarrow> upgrade_target) \<Rightarrow> 'h list \<Rightarrow> string list" where
  "handle_ids target hs \<equiv> map (\<lambda>h. stable_id (target h)) hs"

section \<open>Ordering\<close>

definition target_order_key :: "upgrade_target \<Rightarrow> nat \<times> string" where
  "target_order_key t = (kind_index (target_kind_of t), stable_id t)"

definition handle_ready :: "('h \<Rightarrow> upgrade_target) \<Rightarrow> string set \<Rightarrow> string set \<Rightarrow> 'h \<Rightarrow> bool" where
  "handle_ready target known placed h \<longleftrightarrow> set (target_dependencies (target h)) \<inter> known \<subseteq> placed"

text \<open>One pass over what remains: what is placed, in order, the ids placed so far, and what still remains.\<close>

fun order_pass :: "('h \<Rightarrow> upgrade_target) \<Rightarrow> string set \<Rightarrow> string set \<Rightarrow> 'h list \<Rightarrow> 'h list \<times> string set \<times> 'h list" where
  "order_pass target known placed [] = ([], placed, [])"
| "order_pass target known placed (h # hs) =
     (if handle_ready target known placed h
      then (case order_pass target known (insert (stable_id (target h)) placed) hs of (os, p, rest) \<Rightarrow> (h # os, p, rest))
      else (case order_pass target known placed hs of (os, p, rest) \<Rightarrow> (os, p, h # rest)))"

lemma order_pass_mset: "order_pass target known placed hs = (os, p, rest) \<Longrightarrow> mset os + mset rest = mset hs"
  by (induction target known placed hs arbitrary: os p rest rule: order_pass.induct) (fastforce split: if_splits prod.splits)+

text \<open>Passes until nothing remains, or one places nothing: then what remains follows as it stands.\<close>

function order_rounds :: "('h \<Rightarrow> upgrade_target) \<Rightarrow> string set \<Rightarrow> string set \<Rightarrow> 'h list \<Rightarrow> 'h list" where
  "order_rounds target known placed remaining =
     (if remaining = [] then []
      else (case order_pass target known placed remaining of
          ([], p, rest) \<Rightarrow> remaining
        | (q # qs, p, rest) \<Rightarrow> (q # qs) @ order_rounds target known p rest))"
  by pat_completeness auto

lemma order_pass_shorter: "order_pass target known placed hs = (q # qs, p, rest) \<Longrightarrow> length rest < length hs"
proof -
  assume "order_pass target known placed hs = (q # qs, p, rest)"
  from order_pass_mset [OF this] have "length (q # qs) + length rest = length hs" by (metis size_mset size_union)
  then show ?thesis by simp
qed

termination order_rounds
  by (relation "measure (\<lambda>(target, known, placed, remaining). length remaining)") (auto dest: order_pass_shorter [OF sym])

declare order_rounds.simps [simp del]

definition order_handles :: "('h \<Rightarrow> upgrade_target) \<Rightarrow> 'h list \<Rightarrow> 'h list" where
  "order_handles target hs = order_rounds target (set (handle_ids target hs)) {} (sort_key (\<lambda>h. target_order_key (target h)) hs)"

section \<open>What the order is\<close>

lemma dedupe_from_ids:
  "distinct (handle_ids target (dedupe_from target seen hs)) \<and>
   set (handle_ids target (dedupe_from target seen hs)) = set (handle_ids target hs) - seen"
  by (induction target seen hs rule: dedupe_from.induct) auto

lemma dedupe_from_subset: "set (dedupe_from target seen hs) \<subseteq> set hs"
  by (induction target seen hs rule: dedupe_from.induct) auto

lemma order_rounds_mset: "mset (order_rounds target known placed hs) = mset hs"
proof (induction target known placed hs rule: order_rounds.induct)
  case (1 target known placed hs)
  show ?case
  proof (cases "order_pass target known placed hs")
    case (fields os p rest)
    show ?thesis
    proof (cases os)
      case (Cons q qs)
      show ?thesis
      proof (cases "hs = []")
        case False
        then have "mset (order_rounds target known p rest) = mset rest"
          using 1 [OF False fields [symmetric, unfolded Cons]] by simp
        then show ?thesis using fields Cons False order_pass_mset [OF fields] by (simp add: order_rounds.simps [of target known placed hs])
      qed (simp add: order_rounds.simps)
    qed (use fields in \<open>simp add: order_rounds.simps [of target known placed hs]\<close>)
  qed
qed

lemma order_handles_mset: "mset (order_handles target hs) = mset hs"
  by (simp add: order_handles_def order_rounds_mset)

text \<open>Every handle after the known targets it depends on.\<close>

fun dependencies_first :: "('h \<Rightarrow> upgrade_target) \<Rightarrow> string set \<Rightarrow> string set \<Rightarrow> 'h list \<Rightarrow> bool" where
  "dependencies_first target known placed [] \<longleftrightarrow> True"
| "dependencies_first target known placed (h # hs) \<longleftrightarrow>
     handle_ready target known placed h \<and> dependencies_first target known (insert (stable_id (target h)) placed) hs"

lemma dependencies_first_append:
  "dependencies_first target known placed (xs @ ys) \<longleftrightarrow>
     dependencies_first target known placed xs \<and> dependencies_first target known (placed \<union> set (handle_ids target xs)) ys"
  by (induction xs arbitrary: placed) auto

lemma order_pass_places:
  "order_pass target known placed hs = (os, p, rest) \<Longrightarrow>
     dependencies_first target known placed os \<and> p = placed \<union> set (handle_ids target os)"
  by (induction target known placed hs arbitrary: os p rest rule: order_pass.induct) (auto split: if_splits prod.splits)

lemma order_pass_stuck:
  "order_pass target known placed hs = ([], p, rest) \<Longrightarrow> h \<in> set hs \<Longrightarrow> \<not> handle_ready target known placed h"
  by (induction target known placed hs arbitrary: p rest rule: order_pass.induct) (auto split: if_splits prod.splits)

text \<open>No target depends on itself through others: the targets have ranks that fall along the dependencies.\<close>

definition dependencies_rank :: "('h \<Rightarrow> upgrade_target) \<Rightarrow> 'h list \<Rightarrow> (string \<Rightarrow> nat) \<Rightarrow> bool" where
  "dependencies_rank target hs rank \<longleftrightarrow>
     (\<forall>h \<in> set hs. \<forall>d \<in> set (target_dependencies (target h)) \<inter> set (handle_ids target hs). rank d < rank (stable_id (target h)))"

lemma ready_one:
  assumes rank: "\<forall>h \<in> set hs. \<forall>d \<in> set (target_dependencies (target h)) \<inter> known. rank d < (rank (stable_id (target h)) :: nat)"
    and known: "known \<subseteq> placed \<union> set (handle_ids target hs)" and some: "hs \<noteq> []"
  shows "\<exists>h \<in> set hs. handle_ready target known placed h"
proof -
  obtain h where h: "h \<in> set hs" "\<forall>k \<in> set hs. rank (stable_id (target h)) \<le> rank (stable_id (target k))"
    using some ex_has_least_nat [of "\<lambda>h. h \<in> set hs" "hd hs" "\<lambda>h. rank (stable_id (target h))"] by auto
  have "d \<in> placed" if "d \<in> set (target_dependencies (target h)) \<inter> known" for d
  proof (rule ccontr)
    assume "d \<notin> placed"
    with that known obtain k where "k \<in> set hs" "d = stable_id (target k)" by auto
    moreover have "rank d < rank (stable_id (target h))" using rank h(1) that by blast
    ultimately show False using h(2) by (meson leD)
  qed
  then have "handle_ready target known placed h" by (auto simp: handle_ready_def)
  with h(1) show ?thesis by blast
qed

lemma order_rounds_dependencies:
  assumes "\<forall>h \<in> set hs. \<forall>d \<in> set (target_dependencies (target h)) \<inter> known. rank d < (rank (stable_id (target h)) :: nat)"
    and "known \<subseteq> placed \<union> set (handle_ids target hs)"
  shows "dependencies_first target known placed (order_rounds target known placed hs)"
  using assms
proof (induction target known placed hs rule: order_rounds.induct)
  case (1 target known placed hs)
  show ?case
  proof (cases "hs = []")
    case False
    obtain os p rest where pass: "order_pass target known placed hs = (os, p, rest)" using prod_cases3 by blast
    obtain h where "h \<in> set hs" "handle_ready target known placed h" using ready_one [OF "1.prems" False] by blast
    then have "os \<noteq> []" using order_pass_stuck [of target known placed hs p rest h] pass by blast
    then obtain q qs where os: "os = q # qs" by (cases os) auto
    have parts: "set hs = set os \<union> set rest" using order_pass_mset [OF pass] by (metis set_mset_mset set_mset_union)
    note places = order_pass_places [OF pass]
    have "dependencies_first target known p (order_rounds target known p rest)"
      using "1.prems" places parts by (intro "1.IH" [OF False pass [symmetric, unfolded os]]) auto
    then show ?thesis using False pass os places
      by (simp add: order_rounds.simps [of target known placed hs] dependencies_first_append del: append_Cons)
  qed (simp add: order_rounds.simps)
qed

text \<open>Sorting by kind and id forgets the order of discovery, and without dependencies is all that happens.\<close>

lemma sort_handles_unique:
  assumes "distinct (handle_ids target hs)" "mset hs = mset ks"
  shows "sort_key (\<lambda>h. target_order_key (target h)) hs = sort_key (\<lambda>h. target_order_key (target h)) ks"
proof -
  let ?k = "\<lambda>h. target_order_key (target h)"
  have inj: "inj_on ?k (set hs)"
    using assms(1) by (auto simp: distinct_map inj_on_def target_order_key_def)
  have same: "set ks = set hs" using mset_eq_setD [OF assms(2)] by simp
  have dist: "distinct hs" using assms(1) by (simp add: distinct_map)
  then have "distinct ks" using mset_eq_imp_distinct_iff [OF assms(2)] by simp
  note same = same dist this
  have "distinct (map ?k (sort_key ?k hs))" "distinct (map ?k (sort_key ?k ks))"
    using inj same by (simp_all add: distinct_map)
  then show ?thesis
    using inj same by (intro map_sorted_distinct_set_unique [of ?k]) simp_all
qed

lemma order_rounds_independent:
  "\<forall>h \<in> set hs. handle_ready target known {} h \<Longrightarrow> order_rounds target known placed hs = hs"
proof -
  have pass: "\<forall>h \<in> set hs. handle_ready target known {} h \<Longrightarrow> order_pass target known placed hs = (hs, placed \<union> set (handle_ids target hs), [])" for placed hs
    by (induction hs arbitrary: placed) (auto simp: handle_ready_def)
  show "\<forall>h \<in> set hs. handle_ready target known {} h \<Longrightarrow> order_rounds target known placed hs = hs"
    by (cases hs) (simp_all add: order_rounds.simps pass del: order_pass.simps)
qed

end
