(* ===== verification/Upgrade_Targets.thy ===== *)
theory Upgrade_Targets
  imports Upgrade_Ordering
begin

text \<open>
  The upgrade of operational targets: the registry of steps and the ports of a target
  (\<^verbatim>\<open>src/application/deployment_upgrade/ports.py\<close>), the read-only pass and the ordered apply
  (\<^verbatim>\<open>orchestrate.py\<close>), and the unit of work of a text target
  (\<^verbatim>\<open>src/infrastructure/deployment/file_targets.py\<close>). What a target holds is of the type \<^typ>\<open>'t\<close>, what a unit of work has staged
  of the type \<^typ>\<open>'s\<close>; a step is a pair of functions, and the left summand is an exception.
\<close>

section \<open>Steps and handles\<close>

record ('t, 's) operational_step =
  op_step_id :: string
  op_step_version :: int
  op_step_kind :: target_kind
  op_detect :: "'t \<Rightarrow> (string, upgrade_finding list) result"
  op_apply :: "'t \<Rightarrow> 's \<Rightarrow> upgrade_finding list \<Rightarrow> (string, applied_finding list) result \<times> 's"

definition register_operational :: "('t, 's) operational_step \<Rightarrow> ('t, 's) operational_step list \<Rightarrow> (string, ('t, 's) operational_step list) result" where
  "register_operational step registry =
     (if op_step_id step \<in> set (map op_step_id registry) then Err ''already registered'' else Ok (registry @ [step]))"

definition steps_for :: "('t, 's) operational_step list \<Rightarrow> target_kind \<Rightarrow> ('t, 's) operational_step list" where
  "steps_for registry kind = sort_key op_step_version (filter (\<lambda>s. op_step_kind s = kind) registry)"

text \<open>
  Committing a unit of work may raise, and then leaves the target as it leaves it. What a rollback after that does is the last
  field: the unit of a database has closed its connection by then and raises again.
\<close>

record ('t, 's) operational_handle =
  handle_target :: upgrade_target
  inspectable :: bool
  handle_state :: 't
  unit_begins :: "'t \<Rightarrow> (string, 's) result"
  unit_commits :: "'t \<Rightarrow> 's \<Rightarrow> (string, unit) result \<times> 't"
  unit_rolls_back :: "(string, unit) result"

section \<open>The read-only pass\<close>

text \<open>Every step detects; the first that raises ends the pass.\<close>

fun detect_all :: "('t, 's) operational_step list \<Rightarrow> 't \<Rightarrow> (string, (('t, 's) operational_step \<times> upgrade_finding list) list) result" where
  "detect_all [] t = Ok []"
| "detect_all (s # ss) t =
     bind_result (op_detect s t) (\<lambda>fs. bind_result (detect_all ss t) (\<lambda>rest.
       Ok (if fs = [] then rest else (s, fs) # rest)))"

definition state_for :: "applied_finding list \<Rightarrow> target_state" where
  "state_for rs = (if rs = [] then TargetCurrent else if any_blocking rs then TargetBlocked else TargetPending)"

definition uninspectable_finding :: "upgrade_target \<Rightarrow> upgrade_finding" where
  "uninspectable_finding t =
     \<lparr>finding_step = ''deployment'', finding_id = ''target-uninspectable'', finding_location = display_location t,
      finding_severity = SeverityError, auto_migratable = False, rewrite_summary = None, manual_instructions = Some ''provide the credential'',
      blocks_commit = True\<rparr>"

definition evaluate_target :: "('t, 's) operational_step list \<Rightarrow> ('t, 's) operational_handle \<Rightarrow> (string, target_report) result" where
  "evaluate_target registry h =
     (if \<not> inspectable h
      then Ok \<lparr>reported_target = handle_target h, reported_state = TargetUninspectable,
             target_results = [skipped_finding (uninspectable_finding (handle_target h))], target_committed = False\<rparr>
      else bind_result (detect_all (steps_for registry (target_kind_of (handle_target h))) (handle_state h)) (\<lambda>detected.
        let results = map skipped_finding (concat (map snd detected)) in
        Ok \<lparr>reported_target = handle_target h, reported_state = state_for results, target_results = results, target_committed = False\<rparr>))"

definition evaluate_targets :: "('t, 's) operational_step list \<Rightarrow> ('t, 's) operational_handle list \<Rightarrow> (string, target_report list) result" where
  "evaluate_targets registry hs =
     all_results (map (evaluate_target registry) (order_handles handle_target (dedupe_handles handle_target hs)))"

section \<open>One target\<close>

definition apply_failed_finding :: "upgrade_target \<Rightarrow> upgrade_finding" where
  "apply_failed_finding t =
     \<lparr>finding_step = ''deployment'', finding_id = ''target-apply-failed'', finding_location = display_location t,
      finding_severity = SeverityError, auto_migratable = False, rewrite_summary = None, manual_instructions = Some ''investigate'',
      blocks_commit = False\<rparr>"

text \<open>The detected steps in order: manual findings are reported, the others go to the step, until one raises.\<close>

fun apply_detected ::
    "'t \<Rightarrow> (('t, 's) operational_step \<times> upgrade_finding list) list \<Rightarrow> applied_finding list \<Rightarrow> 's
      \<Rightarrow> bool \<times> applied_finding list \<times> 's" where
  "apply_detected t [] results u = (True, results, u)"
| "apply_detected t ((s, fs) # rest) results u =
     (let results' = results @ map skipped_finding (filter (\<lambda>f. \<not> auto_migratable f) fs);
          auto = filter auto_migratable fs in
      if auto = [] then apply_detected t rest results' u
      else (case op_apply s t u auto of
          (Inl e, u') \<Rightarrow> (False, results', u')
        | (Inr applied, u') \<Rightarrow> apply_detected t rest (results' @ applied) u'))"

definition target_report_of :: "('t, 's) operational_handle \<Rightarrow> target_state \<Rightarrow> applied_finding list \<Rightarrow> bool \<Rightarrow> target_report" where
  "target_report_of h st rs committed =
     \<lparr>reported_target = handle_target h, reported_state = st, target_results = rs, target_committed = committed\<rparr>"

text \<open>A failed unit, and a commit that fails: the rollback that follows may raise in its turn, and no one catches that.\<close>

definition failed_unit :: "('t, 's) operational_handle \<Rightarrow> applied_finding list \<Rightarrow> target_report" where
  "failed_unit h results = target_report_of h TargetPending (results @ [errored_finding (apply_failed_finding (handle_target h))]) False"

definition apply_one ::
    "('t, 's) operational_step list \<Rightarrow> ('t, 's) operational_handle \<Rightarrow> (string, target_report) result \<times> ('t, 's) operational_handle" where
  "apply_one registry h =
     (case detect_all (steps_for registry (target_kind_of (handle_target h))) (handle_state h) of
        Inl e \<Rightarrow> (Err e, h)
      | Inr [] \<Rightarrow> (Ok (target_report_of h TargetCurrent [] False), h)
      | Inr detected \<Rightarrow>
          (case unit_begins h (handle_state h) of
             Inl e \<Rightarrow> (Err e, h)
           | Inr u \<Rightarrow>
               (case apply_detected (handle_state h) detected [] u of
                  (False, results, u') \<Rightarrow> (Ok (failed_unit h results), h)
                | (True, results, u') \<Rightarrow>
                    if any_error results then (Ok (target_report_of h TargetPending results False), h)
                    else (case unit_commits h (handle_state h) u' of
                        (Inl e, t') \<Rightarrow>
                          (case unit_rolls_back h of
                             Inl e' \<Rightarrow> (Err e', h\<lparr>handle_state := t'\<rparr>)
                           | Inr _ \<Rightarrow> (Ok (failed_unit h results), h\<lparr>handle_state := t'\<rparr>))
                      | (Inr _, t') \<Rightarrow>
                          (Ok (target_report_of h (if any_applied results \<or> results = [] then TargetCurrent else state_for results) results
                             (any_applied results)),
                           h\<lparr>handle_state := t'\<rparr>)))))"

section \<open>All targets\<close>

text \<open>After the first target that fails the others are reported and not attempted.\<close>

fun apply_ordered ::
    "('t, 's) operational_step list \<Rightarrow> string option \<Rightarrow> ('t, 's) operational_handle list
      \<Rightarrow> (string, target_report list \<times> string option) result \<times> ('t, 's) operational_handle list" where
  "apply_ordered registry failed [] = (Ok ([], failed), [])"
| "apply_ordered registry failed (h # hs) =
     (if failed \<noteq> None
      then (case apply_ordered registry failed hs of
          (r, hs') \<Rightarrow> (bind_result r (\<lambda>(reports, f). Ok (target_report_of h TargetPending [] False # reports, f)), h # hs'))
      else (case apply_one registry h of
          (Inl e, h') \<Rightarrow> (Err e, h' # hs)
        | (Inr report, h') \<Rightarrow>
            (case apply_ordered registry (if target_has_errors report then Some (stable_id (handle_target h)) else None) hs of
               (r, hs') \<Rightarrow> (bind_result r (\<lambda>(reports, f). Ok (report # reports, f)), h' # hs'))))"

definition apply_targets ::
    "('t, 's) operational_step list \<Rightarrow> ('t, 's) operational_handle list
      \<Rightarrow> (string, target_report list \<times> string option) result \<times> ('t, 's) operational_handle list" where
  "apply_targets registry hs = apply_ordered registry None (order_handles handle_target (dedupe_handles handle_target hs))"

section \<open>Text targets\<close>

text \<open>
  The unit of work of a text target stages whole files and writes them one after the other when it commits, each
  atomically; a file that cannot be written raises and leaves those before it written.
\<close>

type_synonym text_files = "string \<Rightarrow> string option"
type_synonym staged_texts = "(string \<times> string) list"

definition stage_text :: "string \<Rightarrow> string \<Rightarrow> staged_texts \<Rightarrow> staged_texts" where
  "stage_text path content staged =
     (if path \<in> set (map fst staged) then map (\<lambda>(p, c). if p = path then (p, content) else (p, c)) staged else staged @ [(path, content)])"

fun commit_texts :: "(string \<Rightarrow> bool) \<Rightarrow> text_files \<Rightarrow> staged_texts \<Rightarrow> (string, unit) result \<times> text_files" where
  "commit_texts writable files [] = (Ok (), files)"
| "commit_texts writable files ((path, content) # rest) =
     (if \<not> writable path then (Err ''not written'', files) else commit_texts writable (files(path \<mapsto> content)) rest)"

definition text_handle :: "(string \<Rightarrow> bool) \<Rightarrow> upgrade_target \<Rightarrow> text_files \<Rightarrow> (text_files, staged_texts) operational_handle" where
  "text_handle writable t files =
     \<lparr>handle_target = t, inspectable = True, handle_state = files, unit_begins = (\<lambda>_. Ok []), unit_commits = commit_texts writable,
      unit_rolls_back = Ok ()\<rparr>"

section \<open>What an apply leaves\<close>

text \<open>A commit that raises changes nothing.\<close>

definition atomic_unit :: "('t, 's) operational_handle \<Rightarrow> bool" where
  "atomic_unit h \<longleftrightarrow> (\<forall>u e t'. unit_commits h (handle_state h) u = (Inl e, t') \<longrightarrow> t' = handle_state h)"

lemma apply_one_unchanged:
  assumes "apply_one registry h = (r, h')" and "atomic_unit h" and "case r of Inl e \<Rightarrow> True | Inr report \<Rightarrow> target_has_errors report"
  shows "h' = h"
  using assms
  by (auto simp: apply_one_def atomic_unit_def target_has_errors_def target_report_of_def any_error_def
      split: sum.splits list.splits prod.splits bool.splits if_splits)

lemma apply_one_keeps: "apply_one registry h = (r, h') \<Longrightarrow> h' = h\<lparr>handle_state := handle_state h'\<rparr>"
  by (auto simp: apply_one_def split: sum.splits list.splits prod.splits bool.splits if_splits)

lemma apply_ordered_failed:
  "failed \<noteq> None \<Longrightarrow> apply_ordered registry failed hs = (Ok (map (\<lambda>h. target_report_of h TargetPending [] False) hs, failed), hs)"
  by (induction hs) (auto simp: bind_result_def)

text \<open>
  The ordered apply by the first target that fails: those before it are applied and without errors, it is unchanged, and
  those after it are untouched and pending.
\<close>

lemma apply_ordered_cut:
  assumes "apply_ordered registry None hs = (Inr (reports, failed), hs')" and "\<forall>h \<in> set hs. atomic_unit h"
  shows "length reports = length hs \<and> length hs' = length hs \<and>
    (case failed of
       None \<Rightarrow> list_all (\<lambda>r. \<not> target_has_errors r) reports
     | Some i \<Rightarrow> \<exists>k < length hs. i = stable_id (handle_target (hs ! k)) \<and> target_has_errors (reports ! k) \<and>
         list_all (\<lambda>r. \<not> target_has_errors r) (take k reports) \<and> drop k hs' = drop k hs \<and>
         list_all (\<lambda>r. reported_state r = TargetPending \<and> \<not> target_committed r \<and> target_results r = []) (drop (Suc k) reports))"
  using assms
proof (induction hs arbitrary: reports hs')
  case (Cons h hs)
  obtain x h1 where one: "apply_one registry h = (x, h1)" by fastforce
  with Cons.prems(1) obtain report where report: "x = Inr report" by (cases x) auto
  show ?case
  proof (cases "target_has_errors report")
    case True
    then have "h1 = h" using apply_one_unchanged [OF one] Cons.prems(2) report by simp
    with Cons.prems(1) one report True show ?thesis
      by (auto simp: apply_ordered_failed bind_result_def target_report_of_def list_all_iff intro!: exI [of _ 0])
  next
    case False
    obtain y hs1 where rest: "apply_ordered registry None hs = (y, hs1)" by fastforce
    with Cons.prems(1) one report False obtain reports1 where y: "y = Inr (reports1, failed)" "reports = report # reports1" "hs' = h1 # hs1"
      by (cases y) (auto simp: bind_result_def)
    note ih = Cons.IH [OF rest [unfolded y(1)]]
    show ?thesis
    proof (cases failed)
      case None
      then show ?thesis using ih Cons.prems(2) False y by simp
    next
      case (Some i)
      then obtain k where "k < length hs" "i = stable_id (handle_target (hs ! k))" "target_has_errors (reports1 ! k)"
        "list_all (\<lambda>r. \<not> target_has_errors r) (take k reports1)" "drop k hs1 = drop k hs"
        "list_all (\<lambda>r. reported_state r = TargetPending \<and> \<not> target_committed r \<and> target_results r = []) (drop (Suc k) reports1)"
        using ih Cons.prems(2) by auto
      then show ?thesis using Some ih Cons.prems(2) False y by (auto intro!: exI [of _ "Suc k"])
    qed
  qed
qed simp

section \<open>Repositories\<close>

text \<open>
  The upgrade of repositories: the registry of steps (\<^verbatim>\<open>src/application/repository_upgrade/registry.py\<close>), the report of a dry run
  (\<^verbatim>\<open>evaluate.py\<close>), the apply of all steps (\<^verbatim>\<open>apply.py\<close>) and both over several repositories (\<^verbatim>\<open>workspace.py\<close>). A repository
  is a value of the type \<^typ>\<open>'r\<close>, which a step may have changed also when it raises; the port names what the application
  reads of it and the two operations that follow the steps.
\<close>

subsection \<open>Steps and ports\<close>

record 'r repository_step =
  repo_step_id :: string
  repo_detect :: "'r \<Rightarrow> (string, upgrade_finding list) result"
  repo_apply :: "'r \<Rightarrow> upgrade_finding list \<Rightarrow> (string, applied_finding list) result \<times> 'r"

record 'r repository_port =
  repo_root_of :: "'r \<Rightarrow> string"
  applied_step_ids :: "'r \<Rightarrow> string set"
  recorded_contract :: "'r \<Rightarrow> string option"
  rebuild_index :: "'r \<Rightarrow> (string, unit) result \<times> 'r"
  stamp_applied_steps :: "string set \<Rightarrow> string \<Rightarrow> 'r \<Rightarrow> (string, unit) result \<times> 'r"

definition FORMAT_CONTRACT_VERSION :: string where
  "FORMAT_CONTRACT_VERSION = ''5''"

definition register_step :: "'r repository_step \<Rightarrow> 'r repository_step list \<Rightarrow> (string, 'r repository_step list) result" where
  "register_step step registry =
     (if repo_step_id step \<in> set (map repo_step_id registry) then Err ''already registered'' else Ok (registry @ [step]))"

subsection \<open>The dry run\<close>

text \<open>The steps that find something, with what they find.\<close>

fun repo_findings :: "'r repository_step list \<Rightarrow> 'r \<Rightarrow> (string, (string \<times> upgrade_finding list) list) result" where
  "repo_findings [] r = Ok []"
| "repo_findings (s # ss) r =
     bind_result (repo_detect s r) (\<lambda>fs. bind_result (repo_findings ss r) (\<lambda>rest.
       Ok (if fs = [] then rest else (repo_step_id s, fs) # rest)))"

definition evaluate_repository :: "'r repository_port \<Rightarrow> 'r repository_step list \<Rightarrow> 'r \<Rightarrow> (string, repo_report) result" where
  "evaluate_repository port steps r =
     bind_result (repo_findings steps r) (\<lambda>found.
       Ok \<lparr>reported_repo = repo_root_of port r, applied_steps_before = sorted_list_of_set (applied_step_ids port r),
          applied_steps_after = sorted_list_of_set (applied_step_ids port r),
          repo_results = map skipped_finding (concat (map snd found)), unapplied_required_steps = map fst found\<rparr>)"

subsection \<open>Applying all steps\<close>

definition infra_finding :: "string \<Rightarrow> string \<Rightarrow> upgrade_finding" where
  "infra_finding i loc =
     \<lparr>finding_step = ''infrastructure'', finding_id = i, finding_location = loc, finding_severity = SeverityError, auto_migratable = False,
      rewrite_summary = None, manual_instructions = Some ''re-run'', blocks_commit = False\<rparr>"

definition infra_error :: "string \<Rightarrow> applied_finding" where
  "infra_error i = errored_finding (infra_finding i ''<repo root>'')"

text \<open>The results so far, whether a step has rewritten anything, and the steps applied so far. Only detection can raise.\<close>

record apply_progress_of_steps =
  step_results :: "applied_finding list"
  rewrote_anything :: bool
  applied_after :: "string set"

fun apply_steps ::
    "'r repository_step list \<Rightarrow> apply_progress_of_steps \<Rightarrow> 'r \<Rightarrow> (string, apply_progress_of_steps) result \<times> 'r" where
  "apply_steps [] acc r = (Ok acc, r)"
| "apply_steps (s # ss) acc r =
     (case repo_detect s r of
        Inl e \<Rightarrow> (Err e, r)
      | Inr fs \<Rightarrow>
          (let acc' = acc\<lparr>step_results := step_results acc @ map skipped_finding (filter (\<lambda>f. \<not> auto_migratable f) fs)\<rparr>;
               auto = filter auto_migratable fs in
           if auto = [] then apply_steps ss acc' r
           else (case repo_apply s r auto of
               (Inl e, r') \<Rightarrow> apply_steps ss (acc'\<lparr>step_results := step_results acc' @ map errored_finding auto\<rparr>) r'
             | (Inr outcomes, r') \<Rightarrow>
                 apply_steps ss
                   (if any_applied outcomes
                    then \<lparr>step_results = step_results acc' @ outcomes, rewrote_anything = True,
                          applied_after = insert (repo_step_id s) (applied_after acc')\<rparr>
                    else acc'\<lparr>step_results := step_results acc' @ outcomes\<rparr>) r')))"

text \<open>An operation that may fail and is then an entry of the report.\<close>

definition reporting :: "string \<Rightarrow> (string, unit) result \<times> 'r \<Rightarrow> applied_finding list \<times> 'r" where
  "reporting i x = (case x of (Inl e, r) \<Rightarrow> ([infra_error i], r) | (Inr _, r) \<Rightarrow> ([], r))"

definition apply_repository :: "'r repository_port \<Rightarrow> 'r repository_step list \<Rightarrow> 'r \<Rightarrow> (string, repo_report) result \<times> 'r" where
  "apply_repository port steps r =
     (let before = applied_step_ids port r; recorded = recorded_contract port r in
      case apply_steps steps \<lparr>step_results = [], rewrote_anything = False, applied_after = before\<rparr> r of
        (Inl e, r1) \<Rightarrow> (Err e, r1)
      | (Inr acc, r1) \<Rightarrow>
          (case (if rewrote_anything acc then reporting ''index-rebuild-failed'' (rebuild_index port r1) else ([], r1)) of
             (rebuilt, r2) \<Rightarrow>
          (case (if applied_after acc \<noteq> before \<or> recorded \<noteq> Some FORMAT_CONTRACT_VERSION
                 then reporting ''config-stamp-failed'' (stamp_applied_steps port (applied_after acc) FORMAT_CONTRACT_VERSION r2)
                 else ([], r2)) of
             (stamped, r3) \<Rightarrow>
               (bind_result (repo_findings steps r3) (\<lambda>found.
                  Ok \<lparr>reported_repo = repo_root_of port r3, applied_steps_before = sorted_list_of_set before,
                     applied_steps_after = sorted_list_of_set (applied_after acc),
                     repo_results = step_results acc @ rebuilt @ stamped,
                     unapplied_required_steps = filter (\<lambda>i. i \<notin> applied_after acc) (map fst found)\<rparr>), r3))))"

subsection \<open>Several repositories\<close>

definition failed_report :: "'r repository_port \<Rightarrow> 'r \<Rightarrow> repo_report" where
  "failed_report port r =
     \<lparr>reported_repo = repo_root_of port r, applied_steps_before = [], applied_steps_after = [],
      repo_results = [errored_finding (infra_finding ''repo-evaluation-failed'' (repo_root_of port r))], unapplied_required_steps = []\<rparr>"

definition evaluate_workspace :: "'r repository_port \<Rightarrow> 'r repository_step list \<Rightarrow> 'r list \<Rightarrow> repo_report list" where
  "evaluate_workspace port steps rs =
     map (\<lambda>r. case evaluate_repository port steps r of Inl e \<Rightarrow> failed_report port r | Inr report \<Rightarrow> report) rs"

definition applied_report :: "'r repository_port \<Rightarrow> 'r repository_step list \<Rightarrow> 'r \<Rightarrow> repo_report \<times> 'r" where
  "applied_report port steps r =
     (case apply_repository port steps r of (Inl e, r') \<Rightarrow> (failed_report port r', r') | (Inr report, r') \<Rightarrow> (report, r'))"

definition apply_workspace :: "'r repository_port \<Rightarrow> 'r repository_step list \<Rightarrow> 'r list \<Rightarrow> repo_report list \<times> 'r list" where
  "apply_workspace port steps rs = (map (\<lambda>r. fst (applied_report port steps r)) rs, map (\<lambda>r. snd (applied_report port steps r)) rs)"

subsection \<open>What an apply does to a repository\<close>

lemma repo_findings_nothing:
  "\<forall>s \<in> set steps. repo_detect s r = Inr [] \<Longrightarrow> repo_findings steps r = Inr []"
  by (induction steps) (auto simp: bind_result_def)

lemma apply_steps_nothing:
  "\<forall>s \<in> set steps. repo_detect s r = Inr [] \<Longrightarrow> apply_steps steps acc r = (Inr acc, r)"
  by (induction steps arbitrary: acc) simp_all

lemma nothing_found_nothing_applied:
  assumes "\<forall>s \<in> set steps. repo_detect s r = Inr []" and "recorded_contract port r = Some FORMAT_CONTRACT_VERSION"
  shows "apply_repository port steps r =
    (Ok \<lparr>reported_repo = repo_root_of port r, applied_steps_before = sorted_list_of_set (applied_step_ids port r),
       applied_steps_after = sorted_list_of_set (applied_step_ids port r), repo_results = [], unapplied_required_steps = []\<rparr>, r)"
  using assms by (simp add: apply_repository_def apply_steps_nothing repo_findings_nothing bind_result_def Let_def)

lemma nothing_found_but_stamped:
  assumes "\<forall>s \<in> set steps. repo_detect s r = Inr []" and "recorded_contract port r \<noteq> Some FORMAT_CONTRACT_VERSION"
  shows "snd (apply_repository port steps r) = snd (stamp_applied_steps port (applied_step_ids port r) FORMAT_CONTRACT_VERSION r)"
  using assms
  by (simp add: apply_repository_def apply_steps_nothing reporting_def Let_def split: prod.split sum.split)

end
