(* ===== verification/Upgrade_Command.thy ===== *)
theory Upgrade_Command
  imports Upgrade_Targets
begin

text \<open>
  \<^verbatim>\<open>arch-repair upgrade\<close> (\<^verbatim>\<open>main_upgrade\<close> of \<^verbatim>\<open>src/infrastructure/cli/arch_repair_upgrade.py\<close>): the guard, the recovery of each
  repository, the gate, the safety point and the ordered apply, with the exit status. Parameters are whether a backend
  serves a repository, the recovery of a repository, the generated includes, and taking a checkpoint set
  (\<^verbatim>\<open>_upgrade_checkpoints.py\<close>), which changes neither repositories nor targets.
\<close>

record ('r, 't, 's) upgrade_world =
  world_repos :: "'r list"
  world_targets :: "('t, 's) operational_handle list"
  world_sets :: "upgrade_checkpoint list"

record ('r, 't, 's) upgrade_ports =
  backend_serves :: "'r \<Rightarrow> bool"
  recovers :: "'r \<Rightarrow> (string, unit) result \<times> 'r"
  refreshes_includes :: "'r \<Rightarrow> 'r"
  takes_set :: "'r list \<Rightarrow> ('t, 's) operational_handle list \<Rightarrow> (string, upgrade_checkpoint) result"

text \<open>The exit status with the checkpoint set its report names, or an exception no one catches.\<close>

datatype upgrade_end = UpgradeExit int "upgrade_checkpoint option" | UpgradeUncaught

text \<open>Recovery, repository by repository, until one cannot be recovered.\<close>

fun recover_all :: "('r \<Rightarrow> (string, unit) result \<times> 'r) \<Rightarrow> 'r list \<Rightarrow> bool \<times> 'r list" where
  "recover_all f [] = (True, [])"
| "recover_all f (r # rs) =
     (case f r of
        (Inl e, r') \<Rightarrow> (False, r' # rs)
      | (Inr _, r') \<Rightarrow> (case recover_all f rs of (ok, rs') \<Rightarrow> (ok, r' # rs')))"

definition operational_blocking_findings :: "target_report list \<Rightarrow> upgrade_finding list" where
  "operational_blocking_findings reports = filter blocks_commit (map finding_of (concat (map target_results reports)))"

definition blocking_findings :: "repo_report list \<Rightarrow> target_report list \<Rightarrow> upgrade_finding list" where
  "blocking_findings repos targets =
     filter blocks_commit (map finding_of (concat (map repo_results repos))) @ operational_blocking_findings targets"

definition has_work :: "repo_report list \<Rightarrow> target_report list \<Rightarrow> bool" where
  "has_work repos targets \<longleftrightarrow>
     list_ex (\<lambda>r. list_ex (\<lambda>x. auto_migratable (finding_of x)) (repo_results r)) repos \<or>
     list_ex (\<lambda>t. reported_state t = TargetPending) targets"

definition committed_repositories :: "repo_report list \<Rightarrow> string list" where
  "committed_repositories reports =
     map (\<lambda>r. ''repository:'' @ reported_repo r) (filter (\<lambda>r. \<not> repo_has_errors r \<and> any_applied (repo_results r)) reports)"

text \<open>Phase 6: the repositories, the generated includes, the targets in order, and how it is classified.\<close>

definition apply_everything ::
    "'r repository_port \<Rightarrow> 'r repository_step list \<Rightarrow> ('t, 's) operational_step list \<Rightarrow> ('r, 't, 's) upgrade_ports
      \<Rightarrow> upgrade_checkpoint option \<Rightarrow> ('r, 't, 's) upgrade_world \<Rightarrow> upgrade_end \<times> ('r, 't, 's) upgrade_world" where
  "apply_everything port steps registry ports cset w =
     (case apply_workspace port steps (world_repos w) of
        (reports, rs) \<Rightarrow>
          (case apply_targets registry (world_targets w) of
             (Inl e, hs) \<Rightarrow> (UpgradeUncaught, w\<lparr>world_repos := map (refreshes_includes ports) rs, world_targets := hs\<rparr>)
           | (Inr (targets, failed), hs) \<Rightarrow>
               (let out = classify_apply_outcome
                      \<lparr>committed_target_ids = committed_repositories reports @ map (\<lambda>t. stable_id (reported_target t)) (filter target_committed targets),
                       failed_target_id = failed, repository_step_errors = list_ex repo_has_errors reports,
                       infrastructure_failed = False, blocking_found = []\<rparr> in
                (UpgradeExit (exit_of_apply out) cset,
                 w\<lparr>world_repos := map (refreshes_includes ports) rs, world_targets := hs,
                    world_sets := (case cset of Some c \<Rightarrow> if out = ApplySuccess then [c] else world_sets w | None \<Rightarrow> world_sets w)\<rparr>))))"

text \<open>Phases 2 to 5, with the gate read once the repositories are recovered.\<close>

definition upgrade_commit ::
    "'r repository_port \<Rightarrow> 'r repository_step list \<Rightarrow> ('t, 's) operational_step list \<Rightarrow> ('r, 't, 's) upgrade_ports
      \<Rightarrow> ('r, 't, 's) upgrade_world \<Rightarrow> upgrade_end \<times> ('r, 't, 's) upgrade_world" where
  "upgrade_commit port steps registry ports w =
     (if list_ex (backend_serves ports) (world_repos w) then (UpgradeExit 1 None, w)
      else (case recover_all (recovers ports) (world_repos w) of
          (False, rs) \<Rightarrow> (UpgradeExit 1 None, w\<lparr>world_repos := rs\<rparr>)
        | (True, rs) \<Rightarrow>
            (let w1 = w\<lparr>world_repos := rs\<rparr>; gate = evaluate_workspace port steps rs in
             case evaluate_targets registry (world_targets w1) of
               Inl e \<Rightarrow> (UpgradeUncaught, w1)
             | Inr targets \<Rightarrow>
                 if blocking_findings gate targets \<noteq> [] then (UpgradeExit (exit_of_apply UnresolvedMigration) None, w1)
                 else if has_work gate targets
                 then (case takes_set ports rs (world_targets w1) of
                         Inl e \<Rightarrow> (UpgradeExit (exit_of_apply ApplyInfrastructureFailure) None, w1)
                       | Inr c \<Rightarrow> apply_everything port steps registry ports (Some c) (w1\<lparr>world_sets := world_sets w1 @ [c]\<rparr>))
                 else apply_everything port steps registry ports None w1)))"

text \<open>The dry run changes nothing.\<close>

definition upgrade_dry_run ::
    "'r repository_port \<Rightarrow> 'r repository_step list \<Rightarrow> ('t, 's) operational_step list \<Rightarrow> ('r, 't, 's) upgrade_world \<Rightarrow> upgrade_end" where
  "upgrade_dry_run port steps registry w =
     (case evaluate_targets registry (world_targets w) of Inl e \<Rightarrow> UpgradeUncaught | Inr _ \<Rightarrow> UpgradeExit 0 None)"

lemma recover_all_repos: "(\<And>r. f r = (Inr (), r)) \<Longrightarrow> recover_all f rs = (True, rs)"
  by (induction rs) simp_all

end
