(* ===== verification/Upgrade_Properties.thy ===== *)
theory Upgrade_Properties
  imports Upgrade_Command Update_Phases
begin

text \<open>
  What a format upgrade promises: nothing is written past a finding that blocks, a failing target stops the others and is left
  as it was; and where a detection that raises, a unit of two files or a repository with errors breaks that. The last
  properties read the exit status the way the software update does.
\<close>

section \<open>A deployment on trial\<close>

text \<open>
  Repositories that are lists of the steps that wrote to them; a step is its detection and its apply. Targets are text files.
\<close>

type_synonym trial_repo = "string list"

definition auto_finding :: "string \<Rightarrow> upgrade_finding" where
  "auto_finding i =
     \<lparr>finding_step = i, finding_id = i, finding_location = ''f'', finding_severity = SeverityWarning, auto_migratable = True,
      rewrite_summary = Some ''rewrite'', manual_instructions = None, blocks_commit = False\<rparr>"

definition blocking_finding :: "string \<Rightarrow> upgrade_finding" where
  "blocking_finding i =
     \<lparr>finding_step = i, finding_id = i, finding_location = ''f'', finding_severity = SeverityError, auto_migratable = False,
      rewrite_summary = None, manual_instructions = Some ''choose'', blocks_commit = True\<rparr>"

definition writing_step :: "trial_repo repository_step" where
  "writing_step =
     \<lparr>repo_step_id = ''write'', repo_detect = (\<lambda>r. Ok (if ''write'' \<in> set r then [] else [auto_finding ''write''])),
      repo_apply = (\<lambda>r fs. (Ok (map (\<lambda>f. \<lparr>finding_of = f, outcome_of_finding = FindingApplied\<rparr>) fs), ''write'' # r))\<rparr>"

definition failing_step :: "trial_repo repository_step" where
  "failing_step =
     \<lparr>repo_step_id = ''fail'', repo_detect = (\<lambda>_. Ok [auto_finding ''fail'']), repo_apply = (\<lambda>r fs. (Err ''raised'', r))\<rparr>"

definition blocking_step :: "trial_repo repository_step" where
  "blocking_step = \<lparr>repo_step_id = ''block'', repo_detect = (\<lambda>_. Ok [blocking_finding ''block'']), repo_apply = (\<lambda>r fs. (Ok [], r))\<rparr>"

definition raising_step :: "trial_repo repository_step" where
  "raising_step = \<lparr>repo_step_id = ''raise'', repo_detect = (\<lambda>_. Err ''raised''), repo_apply = (\<lambda>r fs. (Ok [], r))\<rparr>"

definition trial_port :: "trial_repo repository_port" where
  "trial_port =
     \<lparr>repo_root_of = (\<lambda>_. ''repo''), applied_step_ids = (\<lambda>_. {}), recorded_contract = (\<lambda>_. Some FORMAT_CONTRACT_VERSION),
      rebuild_index = (\<lambda>r. (Ok (), r)), stamp_applied_steps = (\<lambda>_ _ r. (Ok (), r))\<rparr>"

definition trial_ports :: "(trial_repo, text_files, staged_texts) upgrade_ports" where
  "trial_ports =
     \<lparr>backend_serves = (\<lambda>_. False), recovers = (\<lambda>r. (Ok (), r)), refreshes_includes = (\<lambda>r. r),
      takes_set = (\<lambda>_ _. Ok \<lparr>checkpoint_id = ''set'', repository_checkpoints = [], operational_backups = []\<rparr>)\<rparr>"

definition cache_target :: upgrade_target where
  "cache_target =
     \<lparr>target_kind_of = GuidanceCache, stable_id = ''guidance_cache:c'', display_location = ''c'', target_format = Some 1, needs_key = False,
      target_dependencies = [], target_configured = True\<rparr>"

text \<open>A step that stages two documents.\<close>

definition two_document_step :: "(text_files, staged_texts) operational_step" where
  "two_document_step =
     \<lparr>op_step_id = ''cache'', op_step_version = 1, op_step_kind = GuidanceCache, op_detect = (\<lambda>_. Ok [auto_finding ''cache'']),
      op_apply = (\<lambda>_ u fs. (Ok (map (\<lambda>f. \<lparr>finding_of = f, outcome_of_finding = FindingApplied\<rparr>) fs),
        stage_text ''b'' ''new'' (stage_text ''a'' ''new'' u)))\<rparr>"

definition cache_handle :: "(text_files, staged_texts) operational_handle" where
  "cache_handle = text_handle (\<lambda>p. p \<noteq> ''b'') cache_target (\<lambda>_. Some ''old'')"

section \<open>The order of targets\<close>

text \<open>
  Claim C25. The order in which operational targets are upgraded does not depend on the order of their discovery. It is a
  permutation of them, also where their dependencies run in a circle; where they do not, every target follows the known
  targets it depends on; and without dependencies the targets are in the order of their kinds, the settings document last.
\<close>

theorem operational_targets_in_dependency_order:
  assumes "distinct (handle_ids target hs)"
  shows "(\<forall>ks. mset ks = mset hs \<longrightarrow> order_handles target ks = order_handles target hs) \<and>
    mset (order_handles target hs) = mset hs \<and>
    ((\<exists>rank. dependencies_rank target hs rank) \<longrightarrow>
       dependencies_first target (set (handle_ids target hs)) {} (order_handles target hs)) \<and>
    ((\<forall>h \<in> set hs. target_dependencies (target h) = []) \<longrightarrow>
       sorted (map (\<lambda>h. kind_index (target_kind_of (target h))) (order_handles target hs)))"
proof (intro conjI impI allI)
  fix ks assume "mset ks = mset hs"
  then show "order_handles target ks = order_handles target hs"
    using sort_handles_unique [OF assms, of ks] mset_eq_setD [of ks hs] by (simp add: order_handles_def)
next
  show "mset (order_handles target hs) = mset hs" by (rule order_handles_mset)
next
  assume "\<exists>rank. dependencies_rank target hs rank"
  then obtain rank where "dependencies_rank target hs rank" by blast
  then show "dependencies_first target (set (handle_ids target hs)) {} (order_handles target hs)"
    unfolding order_handles_def by (intro order_rounds_dependencies [where rank = rank]) (auto simp: dependencies_rank_def)
next
  assume "\<forall>h \<in> set hs. target_dependencies (target h) = []"
  then have "order_handles target hs = sort_key (\<lambda>h. target_order_key (target h)) hs"
    unfolding order_handles_def by (intro order_rounds_independent) (simp add: handle_ready_def)
  moreover have "sorted (map (\<lambda>h. target_order_key (target h)) (sort_key (\<lambda>h. target_order_key (target h)) hs))" by simp
  ultimately show "sorted (map (\<lambda>h. kind_index (target_kind_of (target h))) (order_handles target hs))"
    by (auto simp: sorted_wrt_map target_order_key_def less_eq_prod_def elim!: sorted_wrt_mono_rel [rotated])
qed

definition settings_target :: upgrade_target where
  "settings_target = cache_target\<lparr>target_kind_of := DeploymentSettings, stable_id := ''s''\<rparr>"

theorem operational_targets_in_dependency_order_witness:
  "order_handles id [settings_target, cache_target] = order_handles id [cache_target, settings_target]"
proof -
  have "distinct (handle_ids id [cache_target, settings_target])" by (simp add: cache_target_def settings_target_def)
  moreover have "mset [settings_target, cache_target] = mset [cache_target, settings_target]" by simp
  ultimately show ?thesis using operational_targets_in_dependency_order by blast
qed

section \<open>A blocked upgrade\<close>


definition blocked_world :: "(trial_repo, text_files, staged_texts) upgrade_world" where
  "blocked_world = \<lparr>world_repos = [[]], world_targets = [], world_sets = []\<rparr>"


section \<open>A detection that raises\<close>

lemma no_targets: "evaluate_targets registry [] = Inr []" "apply_targets registry [] = (Inr ([], None), [])"
  by (simp_all add: evaluate_targets_def apply_targets_def dedupe_handles_def order_handles_def order_rounds.simps)



section \<open>The status that says nothing was written\<close>

text \<open>
  The status for a failure before any write is also given when repositories were written: a repository in which one
  step wrote and another failed does not count as committed, so where every repository that was written has such an
  error and the first target that is attempted fails, the commit ends with that status, whatever it wrote. The software update
  reads it as a refusal that wrote nothing and drops the checkpoint set the report names.
\<close>

theorem written_repositories_pass_for_unwritten:
  assumes "\<not> list_ex (backend_serves ports) (world_repos w)" and "recover_all (recovers ports) (world_repos w) = (True, rs)"
    and gate: "evaluate_targets registry (world_targets w) = Inr ts" "blocking_findings (evaluate_workspace port steps rs) ts = []"
      "has_work (evaluate_workspace port steps rs) ts" "takes_set ports rs (world_targets w) = Inr c"
    and repos: "apply_workspace port steps rs = (reports, written)" "list_all (\<lambda>r. repo_has_errors r \<or> \<not> any_applied (repo_results r)) reports"
    and targets: "apply_targets registry (world_targets w) = (Inr (treports, Some i), hs)" "list_all (\<lambda>t. \<not> target_committed t) treports"
  shows "upgrade_commit port steps registry ports w =
      (UpgradeExit 21 (Some c),
       w\<lparr>world_repos := map (refreshes_includes ports) written, world_targets := hs, world_sets := world_sets w @ [c]\<rparr>) \<and>
    migration_result 21 (Some (checkpoint_id c)) = Inl (ActionFailed ''refused'')"
proof -
  have "committed_repositories reports = []"
    using repos(2) by (auto simp: committed_repositories_def list_all_iff filter_empty_conv)
  moreover have "filter target_committed treports = []" using targets(2) by (auto simp: list_all_iff filter_empty_conv)
  ultimately have "apply_everything port steps registry ports (Some c) (w\<lparr>world_repos := rs, world_sets := world_sets w @ [c]\<rparr>) =
      (UpgradeExit 21 (Some c),
       w\<lparr>world_repos := map (refreshes_includes ports) written, world_targets := hs, world_sets := world_sets w @ [c]\<rparr>)"
    using repos(1) targets(1) by (simp add: apply_everything_def classify_apply_outcome_def Let_def)
  then show ?thesis using assms by (simp add: upgrade_commit_def Let_def migration_result_def WROTE_NOTHING_def)
qed

definition mixed_world :: "(trial_repo, text_files, staged_texts) upgrade_world" where
  "mixed_world = \<lparr>world_repos = [[]], world_targets = [cache_handle], world_sets = []\<rparr>"

theorem written_repositories_pass_for_unwritten_witness:
  "(case upgrade_commit trial_port [writing_step, failing_step] [two_document_step] trial_ports mixed_world of
      (UpgradeExit status cset, w) \<Rightarrow> status = 21 \<and> world_repos w = [[''write'']]
    | (UpgradeUncaught, w) \<Rightarrow> False)"
proof -
  let ?steps = "[writing_step, failing_step]" and ?reg = "[two_document_step]" and ?w = mixed_world
  obtain ts where ts: "evaluate_targets ?reg (world_targets ?w) = Inr ts" "blocking_findings (evaluate_workspace trial_port ?steps [[]]) ts = []"
    "has_work (evaluate_workspace trial_port ?steps [[]]) ts"
  proof -
    have "case evaluate_targets ?reg (world_targets ?w) of Inl e \<Rightarrow> False
        | Inr ts \<Rightarrow> blocking_findings (evaluate_workspace trial_port ?steps [[]]) ts = [] \<and> has_work (evaluate_workspace trial_port ?steps [[]]) ts"
      by code_simp
    with that show ?thesis by (auto split: sum.splits)
  qed
  obtain treports i hs where targets: "apply_targets ?reg (world_targets ?w) = (Inr (treports, Some i), hs)" "list_all (\<lambda>t. \<not> target_committed t) treports"
  proof -
    have "case fst (apply_targets ?reg (world_targets ?w)) of Inl e \<Rightarrow> False
        | Inr (treports, failed) \<Rightarrow> list_all (\<lambda>t. \<not> target_committed t) treports \<and> failed \<noteq> None"
      by code_simp
    with that show ?thesis by (cases "apply_targets ?reg (world_targets ?w)") (auto split: sum.splits)
  qed
  have "list_all (\<lambda>r. repo_has_errors r \<or> \<not> any_applied (repo_results r)) (fst (apply_workspace trial_port ?steps [[]])) \<and>
      snd (apply_workspace trial_port ?steps [[]]) = [[''write'']]"
    by code_simp
  then obtain reports where repos: "apply_workspace trial_port ?steps [[]] = (reports, [[''write'']])"
    "list_all (\<lambda>r. repo_has_errors r \<or> \<not> any_applied (repo_results r)) reports"
    by (cases "apply_workspace trial_port ?steps [[]]") auto
  note written_repositories_pass_for_unwritten [OF _ _ ts _ repos targets, of trial_ports "\<lparr>checkpoint_id = ''set'', repository_checkpoints = [], operational_backups = []\<rparr>"]
  then show ?thesis by (simp add: trial_ports_def mixed_world_def)
qed

section \<open>Nothing to migrate\<close>

lemma nothing_found_no_work:
  assumes "\<forall>r \<in> set rs. \<forall>s \<in> set steps. repo_detect s r = Inr []"
  shows "blocking_findings (evaluate_workspace port steps rs) [] = [] \<and> \<not> has_work (evaluate_workspace port steps rs) []"
  using assms
  by (induction rs)
    (auto simp: evaluate_workspace_def evaluate_repository_def repo_findings_nothing bind_result_def blocking_findings_def
      operational_blocking_findings_def has_work_def)

text \<open>
  A commit over repositories in which no step finds anything takes no checkpoint set. Where every repository records the
  current format contract it leaves them as they are, up to their recovery and the generated includes; a repository that
  records another is stamped all the same, so it is written with nothing to return to, and the commit ends with success.
\<close>

theorem nothing_to_migrate_is_still_stamped:
  assumes "\<forall>r \<in> set (world_repos w). \<forall>s \<in> set steps. repo_detect s r = Inr []" and "world_targets w = []"
    and "\<forall>r \<in> set (world_repos w). \<not> backend_serves ports r \<and> recovers ports r = (Inr (), r)"
    and stamps: "\<forall>r \<in> set (world_repos w). \<forall>ids v. \<exists>r'. stamp_applied_steps port ids v r = (Inr (), r') \<and> (\<forall>s \<in> set steps. repo_detect s r' = Inr [])"
  shows "upgrade_commit port steps registry ports w =
    (UpgradeExit 0 None,
     w\<lparr>world_repos := map (\<lambda>r. refreshes_includes ports
         (if recorded_contract port r = Some FORMAT_CONTRACT_VERSION then r
          else snd (stamp_applied_steps port (applied_step_ids port r) FORMAT_CONTRACT_VERSION r))) (world_repos w)\<rparr>)"
proof -
  let ?rs = "world_repos w"
  have guard: "\<not> list_ex (backend_serves ports) ?rs" using assms(3) by (auto simp: list_ex_iff)
  have recovered: "recover_all (recovers ports) rs = (True, rs)" if "set rs \<subseteq> set ?rs" for rs
    using that assms(3) by (induction rs) auto
  have one: "\<not> repo_has_errors (fst (applied_report port steps r)) \<and>
      snd (applied_report port steps r) = (if recorded_contract port r = Some FORMAT_CONTRACT_VERSION then r
          else snd (stamp_applied_steps port (applied_step_ids port r) FORMAT_CONTRACT_VERSION r))" if r: "r \<in> set ?rs" for r
  proof -
    have found: "\<forall>s \<in> set steps. repo_detect s r = Inr []" using assms(1) r by blast
    obtain r' where r': "stamp_applied_steps port (applied_step_ids port r) FORMAT_CONTRACT_VERSION r = (Inr (), r')"
      "\<forall>s \<in> set steps. repo_detect s r' = Inr []"
      using stamps [rule_format, OF r, of "applied_step_ids port r" FORMAT_CONTRACT_VERSION] by blast
    show ?thesis
      using found r' by (simp add: applied_report_def apply_repository_def apply_steps_nothing repo_findings_nothing bind_result_def
          reporting_def repo_has_errors_def any_error_def Let_def)
  qed
  have "map (\<lambda>r. refreshes_includes ports (snd (applied_report port steps r))) ?rs =
      map (\<lambda>r. refreshes_includes ports (if recorded_contract port r = Some FORMAT_CONTRACT_VERSION then r
          else snd (stamp_applied_steps port (applied_step_ids port r) FORMAT_CONTRACT_VERSION r))) ?rs"
    using one by simp
  moreover have "\<not> list_ex repo_has_errors (map (\<lambda>r. fst (applied_report port steps r)) ?rs)" using one by (auto simp: list_ex_iff)
  ultimately show ?thesis
    using guard recovered [OF subset_refl] nothing_found_no_work [OF assms(1)] assms(2)
    by (simp add: upgrade_commit_def apply_everything_def apply_workspace_def no_targets classify_apply_outcome_def Let_def comp_def)
qed

text \<open>A repository whose stamp is an entry of it.\<close>

definition stamping_port :: "trial_repo repository_port" where
  "stamping_port = trial_port\<lparr>recorded_contract := (\<lambda>r. if ''stamp'' \<in> set r then Some FORMAT_CONTRACT_VERSION else Some ''4''),
     stamp_applied_steps := (\<lambda>_ _ r. (Ok (), ''stamp'' # r))\<rparr>"

theorem nothing_to_migrate_is_still_stamped_witness:
  "upgrade_commit stamping_port [writing_step] [] trial_ports (blocked_world\<lparr>world_repos := [[''write'']]\<rparr>) =
     (UpgradeExit 0 None, blocked_world\<lparr>world_repos := [[''stamp'', ''write'']]\<rparr>)"
proof -
  have "upgrade_commit stamping_port [writing_step] [] trial_ports (blocked_world\<lparr>world_repos := [[''write'']]\<rparr>) =
    (UpgradeExit 0 None,
     (blocked_world\<lparr>world_repos := [[''write'']]\<rparr>)\<lparr>world_repos := map (\<lambda>r. refreshes_includes trial_ports
         (if recorded_contract stamping_port r = Some FORMAT_CONTRACT_VERSION then r
          else snd (stamp_applied_steps stamping_port (applied_step_ids stamping_port r) FORMAT_CONTRACT_VERSION r)))
       (world_repos (blocked_world\<lparr>world_repos := [[''write'']]\<rparr>))\<rparr>)"
    by (rule nothing_to_migrate_is_still_stamped)
      (simp_all add: writing_step_def blocked_world_def trial_ports_def stamping_port_def)
  then show ?thesis by (simp add: stamping_port_def trial_ports_def trial_port_def blocked_world_def FORMAT_CONTRACT_VERSION_def)
qed

section \<open>A target that fails\<close>

text \<open>
  When one target of a deployment fails, those before it in the order were applied without errors, it is left as it was,
  and those after it are not touched and reported as pending; with no failure every target was applied without errors. Each unit
  of work must leave its target as it was when its commit raises.
\<close>

theorem failed_target_stops_the_rest:
  assumes "apply_targets registry hs = (Inr (reports, failed), hs')"
    and "\<forall>h \<in> set (order_handles handle_target (dedupe_handles handle_target hs)). atomic_unit h"
  shows "let os = order_handles handle_target (dedupe_handles handle_target hs) in
    case failed of
      None \<Rightarrow> list_all (\<lambda>r. \<not> target_has_errors r) reports
    | Some i \<Rightarrow> \<exists>k < length os. i = stable_id (handle_target (os ! k)) \<and> target_has_errors (reports ! k) \<and>
        list_all (\<lambda>r. \<not> target_has_errors r) (take k reports) \<and> drop k hs' = drop k os \<and>
        list_all (\<lambda>r. reported_state r = TargetPending \<and> \<not> target_committed r \<and> target_results r = []) (drop (Suc k) reports)"
  using apply_ordered_cut [OF assms(1) [unfolded apply_targets_def] assms(2)] by (simp add: Let_def split: option.splits)

definition busy_handle :: "(text_files, staged_texts) operational_handle" where
  "busy_handle = cache_handle\<lparr>unit_commits := (\<lambda>t _. (Err ''busy'', t))\<rparr>"

theorem failed_target_stops_the_rest_witness:
  "snd (apply_targets [two_document_step] [busy_handle]) = [busy_handle]"
proof -
  obtain x hs' where run: "apply_targets [two_document_step] [busy_handle] = (x, hs')" by fastforce
  have one: "order_handles handle_target (dedupe_handles handle_target [busy_handle]) = [busy_handle]"
    using order_handles_mset [of handle_target "[busy_handle]"] by (simp add: dedupe_handles_def)
  have "case fst (apply_targets [two_document_step] [busy_handle]) of Inl e \<Rightarrow> False | Inr (reports, failed) \<Rightarrow> failed = Some ''guidance_cache:c''"
    by code_simp
  with run obtain reports where "x = Inr (reports, Some ''guidance_cache:c'')" by (auto split: sum.splits)
  note run = run [unfolded this]
  have "\<forall>h \<in> set (order_handles handle_target (dedupe_handles handle_target [busy_handle])). atomic_unit h"
    unfolding one by (simp add: atomic_unit_def busy_handle_def)
  from failed_target_stops_the_rest [OF run this] show ?thesis unfolding one run by auto
qed

text \<open>
  The unit of work of a text target is not one unit: where the second of two staged documents cannot be written, the first
  stays written, while the target is reported as pending, rolled back and not committed; so a commit of this
  target alone ends with the status for a failure before any write.
\<close>

theorem text_target_is_half_written:
  assumes step: "op_step_kind s = target_kind_of t" "op_detect s files = Inr [f]" "auto_migratable f"
      "op_apply s files [] [f] = (Inr [\<lparr>finding_of = f, outcome_of_finding = FindingApplied\<rparr>], [(p, c), (q, d)])"
    and files: "writable p" "\<not> writable q"
  shows "\<exists>report. apply_targets [s] [text_handle writable t files] =
      (Inr ([report], Some (stable_id t)), [text_handle writable t (files(p \<mapsto> c))]) \<and>
    reported_state report = TargetPending \<and> \<not> target_committed report"
proof -
  let ?h = "text_handle writable t files"
  have order: "order_handles handle_target (dedupe_handles handle_target [?h]) = [?h]"
    using order_handles_mset [of handle_target "[?h]"] by (simp add: dedupe_handles_def)
  have steps: "steps_for [s] (target_kind_of (handle_target ?h)) = [s]" using step(1) by (simp add: steps_for_def text_handle_def)
  have "apply_one [s] ?h =
      (Inr (failed_unit ?h [\<lparr>finding_of = f, outcome_of_finding = FindingApplied\<rparr>]), text_handle writable t (files(p \<mapsto> c)))"
    unfolding apply_one_def steps using step(2-4) files
    by (simp add: text_handle_def bind_result_def any_error_def)
  then show ?thesis
    unfolding apply_targets_def order
    by (simp add: bind_result_def failed_unit_def target_report_of_def text_handle_def target_has_errors_def any_error_def errored_finding_def)
qed

theorem text_target_is_half_written_witness:
  "handle_state (hd (snd (apply_targets [two_document_step] [cache_handle]))) ''a'' = Some ''new''"
proof -
  obtain report where "apply_targets [two_document_step] [text_handle (\<lambda>p. p \<noteq> ''b'') cache_target (\<lambda>_. Some ''old'')] =
      (Inr ([report], Some (stable_id cache_target)), [text_handle (\<lambda>p. p \<noteq> ''b'') cache_target ((\<lambda>_. Some ''old'')(''a'' \<mapsto> ''new''))])"
    using text_target_is_half_written [of two_document_step cache_target "\<lambda>_. Some ''old''" "auto_finding ''cache''" "''a''" "''new''" "''b''" "''new''" "\<lambda>p. p \<noteq> ''b''"]
    by (auto simp: two_document_step_def cache_target_def auto_finding_def stage_text_def)
  then show ?thesis by (simp add: cache_handle_def text_handle_def)
qed

end
