(* ===== verification/Lift_Plan.thy ===== *)
theory Lift_Plan
  imports Scratchpad_Root Link_Verdict
begin

text \<open>
  What lifting a selection of notes would do (\<^verbatim>\<open>src/application/scratchpad/lift_plan.py\<close>,
  \<^verbatim>\<open>src/application/scratchpad/lift.py\<close>): one item per selected note and per link between two of
  them, the links that leave the selection, and the projects the content would land in. A sentence
  of the report is the constructor of that sentence with the values it quotes; the label of a link
  keeps its three parts, because the dash it prints for a missing relation is no Latin-1 character.
\<close>

section \<open>Values\<close>

definition ROOT_MODEL :: string where
  "ROOT_MODEL = []"

datatype lift_outcome = WouldCreate | WouldSkip | WouldRefuse

datatype lift_kind =
  LiftedElement | LiftedDocument | LiftedConnection | LiftedReference | LiftedDiagram

record lift_target =
  lt_group :: string
  lt_ontology :: string
  lt_exists :: bool

definition root_target :: lift_target where
  "root_target = \<lparr>lt_group = ROOT_MODEL, lt_ontology = [], lt_exists = False\<rparr>"

datatype lift_label =
    Titled string
  | Related string "string option" string

datatype lift_reason =
    NoReason
  | AlreadyInTheModel bool string
  | NoDocumentTypeChosen
  | StillUndecided
  | LinkAlreadyRealized string
  | LinkUntyped
  | VerdictSays verdict_message
  | BothEndsAreDocuments
  | AlreadyRecorded
  | RecordedOneWay
  | DrawnAfterTheCommit

record lift_item =
  li_kind :: lift_kind
  li_id :: string
  li_outcome :: lift_outcome
  li_label :: lift_label
  li_type :: string
  li_artifact :: string
  li_code :: string
  li_reason :: lift_reason
  li_warning :: verdict_message
  li_target :: string
  li_refs :: "string list"
  li_summary :: string
  li_specializations :: "string list"
  li_source :: string
  li_destination :: string

text \<open>The item with the three positional facts and the defaults of the other fields.\<close>

definition item_row :: "lift_kind \<Rightarrow> string \<Rightarrow> lift_outcome \<Rightarrow> lift_label \<Rightarrow> lift_item" where
  "item_row k i outcome label =
     \<lparr>li_kind = k, li_id = i, li_outcome = outcome, li_label = label, li_type = [], li_artifact = [],
      li_code = [], li_reason = NoReason, li_warning = NoMessage, li_target = [], li_refs = [],
      li_summary = [], li_specializations = [], li_source = [], li_destination = []\<rparr>"

record outside_selection =
  os_link :: string
  os_note :: string
  os_title :: string

record lift_grouping =
  lg_label :: string
  lg_members :: "string list"

datatype lift_refusal =
    NothingSelected
  | UnknownSelection "string list"
  | OtherMetaOntology string string string

record lift_plan =
  lp_targets :: "lift_target list"
  lp_items :: "lift_item list"
  lp_outside :: "outside_selection list"
  lp_refusal :: "lift_refusal option"
  lp_groupings :: "lift_grouping list"

definition plan_of :: "lift_plan \<Rightarrow> lift_outcome \<Rightarrow> lift_item list" where
  "plan_of plan outcome = filter (\<lambda>i. li_outcome i = outcome) (lp_items plan)"

definition plan_warnings :: "lift_plan \<Rightarrow> lift_item list" where
  "plan_warnings plan = filter (\<lambda>i. li_warning i \<noteq> NoMessage) (lp_items plan)"

definition plan_blocks :: "lift_plan \<Rightarrow> bool" where
  "plan_blocks plan \<longleftrightarrow> lp_refusal plan \<noteq> None \<or> plan_of plan WouldRefuse \<noteq> []"

definition plan_is_empty :: "lift_plan \<Rightarrow> bool" where
  "plan_is_empty plan \<longleftrightarrow> plan_of plan WouldCreate = []"

section \<open>Notes\<close>

definition ref_alias :: "string \<Rightarrow> string" where
  "ref_alias i = ''$ref:'' @ i"

definition note_item :: "pad_note \<Rightarrow> lift_target \<Rightarrow> lift_item" where
  "note_item n t =
     (let named = (\<lambda>k outcome. (item_row k (note_id n) outcome (Titled (title n)))
                     \<lparr>li_target := lt_group t\<rparr>) in
      case note_ref n of
        Some r \<Rightarrow> (named LiftedElement WouldSkip)\<lparr>li_type := or_empty (element_type n),
            li_artifact := ref_artifact_id r,
            li_reason := AlreadyInTheModel (ref_kind r = ''bound'') (ref_artifact_id r)\<rparr>
      | None \<Rightarrow>
          if destination n = ''document'' then
            (if \<not> truthy (document_type n)
             then (named LiftedDocument WouldRefuse)\<lparr>li_reason := NoDocumentTypeChosen\<rparr>
             else (named LiftedDocument WouldCreate)\<lparr>li_type := the (document_type n),
                    li_summary := body n\<rparr>)
          else if destination n \<noteq> ''element'' \<or> \<not> truthy (element_type n)
          then (named LiftedElement WouldRefuse)\<lparr>li_reason := StillUndecided\<rparr>
          else (named LiftedElement WouldCreate)\<lparr>li_type := the (element_type n),
                 li_summary := body n,
                 li_specializations := (if truthy (specialization n)
                                        then [the (specialization n)] else [])\<rparr>)"

definition endpoint_ref :: "pad_note \<Rightarrow> string" where
  "endpoint_ref n = (case note_ref n of Some r \<Rightarrow> ref_artifact_id r | None \<Rightarrow> ref_alias (note_id n))"

section \<open>Links\<close>

definition link_label :: "scratchpad \<Rightarrow> link \<Rightarrow> lift_label" where
  "link_label s l =
     (let named = (\<lambda>i. case find_note s i of Some n \<Rightarrow> title n | None \<Rightarrow> i) in
      Related (named (source l))
        (if truthy (connection_type l) then connection_type l else None) (named (target l)))"

definition ref_of :: "(string \<rightharpoonup> string) \<Rightarrow> string \<Rightarrow> string" where
  "ref_of refs i = (case refs i of Some r \<Rightarrow> r | None \<Rightarrow> [])"

definition reference_item ::
    "scratchpad \<Rightarrow> link \<Rightarrow> lift_label \<Rightarrow> (string \<rightharpoonup> string) \<Rightarrow> lift_item option" where
  "reference_item s l label refs =
     (case (find_note s (source l), find_note s (target l)) of
        (Some a, Some b) \<Rightarrow>
          (let documents = filter (\<lambda>n. destination n = ''document'') [a, b];
               elements = filter (\<lambda>n. destination n = ''element'') [a, b] in
           case documents of
             [] \<Rightarrow> None
           | document # _ \<Rightarrow>
              (case elements of
                 [] \<Rightarrow> Some ((item_row LiftedReference (link_id l) WouldSkip label)
                              \<lparr>li_reason := BothEndsAreDocuments\<rparr>)
               | element # _ \<Rightarrow>
                  (case link_ref l of
                     Some r \<Rightarrow> Some ((item_row LiftedReference (link_id l) WouldSkip label)
                                \<lparr>li_artifact := ref_artifact_id r, li_reason := AlreadyRecorded\<rparr>)
                   | None \<Rightarrow> Some ((item_row LiftedReference (link_id l) WouldCreate label)
                                \<lparr>li_reason := RecordedOneWay, li_source := ref_of refs (note_id document),
                                 li_destination := ref_of refs (note_id element)\<rparr>))))
      | _ \<Rightarrow> None)"

definition link_item ::
    "scratchpad \<Rightarrow> (link \<Rightarrow> ('e, link_verdict) result) \<Rightarrow> (string \<rightharpoonup> string) \<Rightarrow> link
      \<Rightarrow> ('e, lift_item) result" where
  "link_item s verdict_of refs l =
     (let label = link_label s l;
          item = (\<lambda>outcome. item_row LiftedConnection (link_id l) outcome label) in
      case reference_item s l label refs of
        Some reference \<Rightarrow> Ok reference
      | None \<Rightarrow>
         (case link_ref l of
            Some r \<Rightarrow> Ok ((item WouldSkip)\<lparr>li_type := or_empty (connection_type l),
                          li_artifact := ref_artifact_id r,
                          li_reason := LinkAlreadyRealized (ref_artifact_id r)\<rparr>)
          | None \<Rightarrow>
              if \<not> truthy (connection_type l)
              then Ok ((item WouldRefuse)\<lparr>li_reason := LinkUntyped\<rparr>)
              else bind_result (verdict_of l) (\<lambda>v.
                if blocks v
                then Ok ((item WouldRefuse)\<lparr>li_type := the (connection_type l), li_code := code v,
                          li_reason := VerdictSays (message v)\<rparr>)
                else Ok ((item WouldCreate)\<lparr>li_type := the (connection_type l),
                          li_warning := (if kind v = Narrowed then message v else NoMessage),
                          li_source := ref_of refs (source l),
                          li_destination := ref_of refs (target l)\<rparr>))))"

section \<open>The plan\<close>

definition distinct_targets :: "lift_target list \<Rightarrow> lift_target list" where
  "distinct_targets ts = sort_key lt_group (remdups ts)"

definition plan_refusal :: "scratchpad \<Rightarrow> string list \<Rightarrow> lift_target list \<Rightarrow> lift_refusal option" where
  "plan_refusal s selection ts =
     (if selection = [] then Some NothingSelected
      else (let unknown = filter (\<lambda>i. i \<notin> note_id ` set (pad_notes s)) (remdups selection) in
       if unknown \<noteq> [] then Some (UnknownSelection (sort unknown))
       else map_option (\<lambda>t. OtherMetaOntology (meta_ontology s) (lt_group t) (lt_ontology t))
              (List.find (\<lambda>t. lt_exists t \<and> lt_ontology t \<noteq> [] \<and> lt_ontology t \<noteq> meta_ontology s) ts)))"

definition with_references :: "lift_item list \<Rightarrow> lift_item list" where
  "with_references items =
     (let recorded = filter (\<lambda>i. li_kind i = LiftedReference \<and> li_outcome i = WouldCreate) items in
      if recorded = [] then items
      else map (\<lambda>i. if li_kind i = LiftedDocument \<and> li_outcome i = WouldCreate
             then i\<lparr>li_refs := map li_destination
                      (filter (\<lambda>r. li_source r = ref_alias (li_id i)) recorded)\<rparr>
             else i) items)"

definition diagram_item :: "scratchpad \<Rightarrow> lift_item list \<Rightarrow> lift_item option" where
  "diagram_item s items =
     (let drawn = filter (\<lambda>i. li_kind i = LiftedElement \<and> li_outcome i \<in> {WouldCreate, WouldSkip}) items in
      if drawn = [] then None
      else Some ((item_row LiftedDiagram (artifact_id s @ ''#view'') WouldCreate (Titled (pad_name s)))
        \<lparr>li_type := ''archimate-layered'', li_reason := DrawnAfterTheCommit,
         li_refs := map (\<lambda>i. if li_artifact i \<noteq> [] then li_artifact i else ref_alias (li_id i)) drawn\<rparr>))"

definition groupings_of :: "scratchpad \<Rightarrow> string set \<Rightarrow> lift_grouping list" where
  "groupings_of s inside =
     List.map_filter (\<lambda>g.
       let refs = List.map_filter (\<lambda>m. case find_note s m of
              None \<Rightarrow> None
            | Some n \<Rightarrow> if m \<in> inside then Some (endpoint_ref n) else None) (sort (members g)) in
       if refs = [] then None else Some \<lparr>lg_label = group_label g, lg_members = refs\<rparr>)
     (sort_key group_id (pad_groups s))"

definition outside_links :: "scratchpad \<Rightarrow> string set \<Rightarrow> outside_selection list" where
  "outside_links s inside =
     List.map_filter (\<lambda>l.
       if (source l \<in> inside) = (target l \<in> inside) then None
       else (let stranded = (if source l \<in> inside then target l else source l) in
         Some \<lparr>os_link = link_id l, os_note = stranded,
               os_title = (case find_note s stranded of Some n \<Rightarrow> title n | None \<Rightarrow> stranded)\<rparr>))
     (sort_key link_id (pad_links s))"

definition chosen_notes :: "scratchpad \<Rightarrow> string list \<Rightarrow> pad_note list" where
  "chosen_notes s selection = sort_key note_id (filter (\<lambda>n. note_id n \<in> set selection) (pad_notes s))"

definition inner_links :: "scratchpad \<Rightarrow> string set \<Rightarrow> link list" where
  "inner_links s inside =
     filter (\<lambda>l. source l \<in> inside \<and> target l \<in> inside) (sort_key link_id (pad_links s))"

definition target_for :: "scratchpad \<Rightarrow> (string \<rightharpoonup> lift_target) \<Rightarrow> pad_note \<Rightarrow> lift_target" where
  "target_for s targets n = (case targets (area_of s (note_id n)) of Some t \<Rightarrow> t | None \<Rightarrow> root_target)"

text \<open>A comprehension over a dictionary keeps the last value of a repeated key.\<close>

definition endpoint_refs :: "pad_note list \<Rightarrow> string \<rightharpoonup> string" where
  "endpoint_refs chosen = map_of (rev (map (\<lambda>n. (note_id n, endpoint_ref n)) chosen))"

definition plan_lift ::
    "scratchpad \<Rightarrow> string list \<Rightarrow> (string \<rightharpoonup> lift_target) \<Rightarrow> (link \<Rightarrow> ('e, link_verdict) result) \<Rightarrow> bool
      \<Rightarrow> ('e, lift_plan) result" where
  "plan_lift s selection targets verdict_of draw =
     (let chosen = chosen_notes s selection;
          used = map (target_for s targets) chosen;
          inside = set (map note_id chosen) in
      case plan_refusal s selection used of
        Some r \<Rightarrow> Ok \<lparr>lp_targets = distinct_targets used, lp_items = [], lp_outside = [],
                      lp_refusal = Some r, lp_groupings = []\<rparr>
      | None \<Rightarrow>
          bind_result (traverse (link_item s verdict_of (endpoint_refs chosen)) (inner_links s inside))
            (\<lambda>drawn_links.
            let items = map (\<lambda>n. note_item n (target_for s targets n)) chosen @ drawn_links;
                drawn = (if draw then diagram_item s items else None) in
            Ok \<lparr>lp_targets = distinct_targets used,
                lp_items = with_references items @ (case drawn of None \<Rightarrow> [] | Some d \<Rightarrow> [d]),
                lp_outside = outside_links s inside, lp_refusal = None,
                lp_groupings = (case drawn of None \<Rightarrow> [] | Some _ \<Rightarrow> groupings_of s inside)\<rparr>))"

section \<open>The verdicts the plan is made with\<close>

definition note_endpoint :: "pad_note \<Rightarrow> endpoint" where
  "note_endpoint n = \<lparr>ep_destination = destination n, ep_element_type = element_type n,
                     ep_specialization = specialization n, ep_document_type = document_type n\<rparr>"

definition no_endpoint :: endpoint where
  "no_endpoint = \<lparr>ep_destination = ''undecided'', ep_element_type = None, ep_specialization = None,
                  ep_document_type = None\<rparr>"

definition verdict_source ::
    "(string \<times> ontology_module) list \<Rightarrow> scratchpad \<Rightarrow> link \<Rightarrow> (catalog_error, link_verdict) result" where
  "verdict_source modules s l =
     (let end_of = (\<lambda>i. case map_of (rev (map (\<lambda>n. (note_id n, note_endpoint n)) (pad_notes s))) i of
                          Some e \<Rightarrow> e | None \<Rightarrow> no_endpoint) in
      verdict_for modules (meta_ontology s) (end_of (source l)) (end_of (target l)) (connection_type l))"

section \<open>Facts on sorted lists and comprehensions\<close>

lemma distinct_map_sort_key: "distinct (map f (sort_key g xs)) \<longleftrightarrow> distinct (map f xs)"
  by (metis mset_map mset_sort mset_eq_imp_distinct_iff)

lemma traverse_dom:
  "\<lbrakk>traverse f xs = Ok ys; x \<in> set xs\<rbrakk> \<Longrightarrow> \<exists>y \<in> set ys. f x = Ok y"
  by (induction xs arbitrary: ys) (auto split: sum.splits)

end
