(* ===== verification/Scratchpad_Document.thy ===== *)
theory Scratchpad_Document
  imports Lift_Plan "HOL-Library.AList"
begin

text \<open>
  The mapping between a scratchpad and a plain document (\<^verbatim>\<open>src/application/scratchpad/document.py\<close>) and
  the reading of a document a caller sent (\<^verbatim>\<open>src/application/scratchpad/requests.py\<close>). A document is a
  payload and, beside it, its \<^verbatim>\<open>layout\<close> block, the only place that holds floating-point numbers: each
  of its collections maps an id to its coordinates. A type, a specialization or a domain that is
  neither text nor null has no place in the record of a note, so a document that carries one is
  refused here; the wire contracts refuse it in the program.
\<close>

section \<open>Documents\<close>

type_synonym placements = "(string \<times> rat list) list"

record pad_document =
  doc_fields :: payload
  doc_layout :: "(string \<times> placements) list"

datatype document_error =
    PadRefused scratchpad_error
  | NoMapping string
  | NotIterable string
  | NotText string
  | BadCoordinates string
  | InventedDestination string string
  | MissingKey string
  | VerdictFailed catalog_error

definition empty_value :: "pyval \<Rightarrow> bool" where
  "empty_value v \<longleftrightarrow> v \<in> {PNone, PStr [], PTuple [], PList [], PDict []}"

definition drop_empty :: "payload \<Rightarrow> payload" where
  "drop_empty d = filter (\<lambda>(k, v). \<not> empty_value v) d"

definition opt_value :: "string option \<Rightarrow> pyval" where
  "opt_value s = (case s of None \<Rightarrow> PNone | Some t \<Rightarrow> PStr t)"

definition texts :: "string list \<Rightarrow> pyval" where
  "texts ss = PList (map PStr ss)"

section \<open>Writing\<close>

definition ref_document :: "model_ref option \<Rightarrow> pyval" where
  "ref_document r = (case r of None \<Rightarrow> PNone
     | Some m \<Rightarrow> PDict [(''artifact-id'', PStr (ref_artifact_id m)), (''kind'', PStr (ref_kind m))])"

definition area_row :: "area \<Rightarrow> payload" where
  "area_row a = drop_empty [
     (''id'', PStr (area_id a)), (''label'', PStr (area_label a)),
     (''permits'', PDict (drop_empty [
        (''domains'', texts (permitted_domains a)),
        (''elements'', texts (permitted_element_types a)),
        (''documents'', texts (permitted_document_types a))]))]"

definition note_row :: "pad_note \<Rightarrow> payload" where
  "note_row n = drop_empty [
     (''id'', PStr (note_id n)), (''title'', PStr (title n)), (''body'', PStr (body n)),
     (''destination'', PStr (if destination n = ''undecided'' then [] else destination n)),
     (''domain'', opt_value (domain n)), (''element-type'', opt_value (element_type n)),
     (''specialization'', opt_value (specialization n)),
     (''document-type'', opt_value (document_type n)),
     (''model-ref'', ref_document (note_ref n)), (''attributes'', PDict (note_attributes n))]"

definition group_row :: "group \<Rightarrow> payload" where
  "group_row g = drop_empty [
     (''id'', PStr (group_id g)), (''label'', PStr (group_label g)),
     (''members'', texts (sort (members g)))]"

definition link_row :: "link \<Rightarrow> payload" where
  "link_row l = drop_empty [
     (''id'', PStr (link_id l)), (''source'', PStr (source l)), (''target'', PStr (target l)),
     (''connection-type'', opt_value (connection_type l)), (''model-ref'', ref_document (link_ref l))]"

definition sorted_entries :: "(string \<rightharpoonup> 'a) \<Rightarrow> (string \<times> 'a) list" where
  "sorted_entries m = map (\<lambda>k. (k, the (m k))) (sorted_list_of_set (dom m))"

definition rect_numbers :: "rect \<Rightarrow> rat list" where
  "rect_numbers r = [rx r, ry r, width r, height r]"

definition point_numbers :: "point \<Rightarrow> rat list" where
  "point_numbers p = [px p, py p]"

definition layout_document :: "layout \<Rightarrow> (string \<times> placements) list" where
  "layout_document l =
     filter (\<lambda>(k, ps). ps \<noteq> []) [
       (''areas'', map (\<lambda>(k, r). (k, rect_numbers r)) (sorted_entries (area_rects l))),
       (''notes'', map (\<lambda>(k, p). (k, point_numbers p)) (sorted_entries (note_points l))),
       (''groups'', map (\<lambda>(k, r). (k, rect_numbers r)) (sorted_entries (group_rects l)))]"

definition rows_value :: "('a \<Rightarrow> payload) \<Rightarrow> 'a list \<Rightarrow> pyval" where
  "rows_value row xs = PList (map (\<lambda>x. PDict (row x)) xs)"

definition to_document :: "scratchpad \<Rightarrow> pad_document" where
  "to_document s =
     \<lparr>doc_fields = drop_empty [
        (''artifact-id'', PStr (artifact_id s)), (''artifact-type'', PStr ''scratchpad''),
        (''name'', PStr (pad_name s)), (''description'', PStr (description s)),
        (''version'', PStr (version s)), (''status'', PStr (status s)),
        (''meta-ontology'', PStr (meta_ontology s)), (''attributes'', PDict (attributes s)),
        (''areas'', rows_value area_row (sort_key area_id (pad_areas s))),
        (''notes'', rows_value note_row (sort_key note_id (pad_notes s))),
        (''groups'', rows_value group_row (sort_key group_id (pad_groups s))),
        (''links'', rows_value link_row (sort_key link_id (pad_links s)))],
      doc_layout = layout_document (pad_layout s)\<rparr>"

section \<open>Reading\<close>

text \<open>\<^verbatim>\<open>str(row.get(key) or default)\<close>.\<close>

definition text_or :: "payload \<Rightarrow> string \<Rightarrow> string \<Rightarrow> string" where
  "text_or d k other = (let v = get_or d k PNone in if py_truth v then py_str v else other)"

definition opt_text :: "payload \<Rightarrow> string \<Rightarrow> (document_error, string option) result" where
  "opt_text d k = (case get_or d k PNone of
     PNone \<Rightarrow> Ok None | PStr s \<Rightarrow> Ok (Some s) | _ \<Rightarrow> Err (NotText k))"

text \<open>\<^verbatim>\<open>row.get(key) or {}\<close>, used as a mapping: a list of pairs is not one here.\<close>

definition mapping_or :: "payload \<Rightarrow> string \<Rightarrow> (document_error, payload) result" where
  "mapping_or d k = (let v = get_or d k PNone in
     if \<not> py_truth v then Ok [] else (case v of PDict m \<Rightarrow> Ok m | _ \<Rightarrow> Err (NoMapping k)))"

text \<open>\<^verbatim>\<open>tuple(str(v) for v in row.get(key) or ())\<close>: a text is its characters, a mapping its keys.\<close>

definition texts_or :: "payload \<Rightarrow> string \<Rightarrow> (document_error, string list) result" where
  "texts_or d k = (let v = get_or d k PNone in
     if \<not> py_truth v then Ok []
     else (case v of
        PList vs \<Rightarrow> Ok (map py_str vs) | PTuple vs \<Rightarrow> Ok (map py_str vs)
      | PStr s \<Rightarrow> Ok (map (\<lambda>c. [c]) s) | PDict m \<Rightarrow> Ok (map fst m)
      | _ \<Rightarrow> Err (NotIterable k)))"

definition dict_rows :: "payload \<Rightarrow> string \<Rightarrow> payload list" where
  "dict_rows d k = (case get_or d k PNone of
     PList vs \<Rightarrow> List.map_filter (\<lambda>v. case v of PDict m \<Rightarrow> Some m | _ \<Rightarrow> None) vs
   | _ \<Rightarrow> [])"

definition read_ref :: "payload \<Rightarrow> string \<Rightarrow> model_ref option" where
  "read_ref d k = (case get_or d k PNone of
     PDict m \<Rightarrow> (let a = get_or m ''artifact-id'' PNone in
       if py_truth a
       then Some \<lparr>ref_artifact_id = py_str a,
                  ref_kind = (if py_str (get_or m ''kind'' PNone) = ''realized''
                              then ''realized'' else ''bound'')\<rparr>
       else None)
   | _ \<Rightarrow> None)"

definition read_area :: "payload \<Rightarrow> (document_error, area) result" where
  "read_area row =
     bind_result (mapping_or row ''permits'') (\<lambda>permits.
     bind_result (texts_or permits ''domains'') (\<lambda>domains.
     bind_result (texts_or permits ''elements'') (\<lambda>elements.
     bind_result (texts_or permits ''documents'') (\<lambda>documents.
       Ok \<lparr>area_id = text_or row ''id'' [], area_label = text_or row ''label'' [],
           permitted_domains = domains, permitted_element_types = elements,
           permitted_document_types = documents\<rparr>))))"

definition read_note :: "payload \<Rightarrow> (document_error, pad_note) result" where
  "read_note row =
     bind_result (if py_truth (get_or row ''element-type'' PNone) then Ok None
                  else opt_text row ''domain'') (\<lambda>dm.
     bind_result (opt_text row ''element-type'') (\<lambda>etype.
     bind_result (opt_text row ''specialization'') (\<lambda>spec.
     bind_result (opt_text row ''document-type'') (\<lambda>dtype.
     bind_result (mapping_or row ''attributes'') (\<lambda>attrs.
       Ok \<lparr>note_id = text_or row ''id'' [], title = text_or row ''title'' [],
           body = text_or row ''body'' [],
           destination = parse_destination (get_or row ''destination'' PNone),
           domain = dm, element_type = etype, specialization = spec, document_type = dtype,
           note_ref = read_ref row ''model-ref'', note_attributes = attrs\<rparr>)))))"

definition read_link :: "payload \<Rightarrow> (document_error, link) result" where
  "read_link row =
     bind_result (opt_text row ''connection-type'') (\<lambda>ctype.
       Ok \<lparr>link_id = text_or row ''id'' [], source = text_or row ''source'' [],
           target = text_or row ''target'' [], connection_type = ctype,
           link_ref = read_ref row ''model-ref''\<rparr>)"

definition read_group :: "payload \<Rightarrow> (document_error, group) result" where
  "read_group row =
     bind_result (texts_or row ''members'') (\<lambda>ms.
       Ok \<lparr>group_id = text_or row ''id'' [], group_label = text_or row ''label'' [], members = ms\<rparr>)"

fun read_rect :: "string \<times> rat list \<Rightarrow> (document_error, string \<times> rect) result" where
  "read_rect (k, [x, y, w, h]) = Ok (k, \<lparr>rx = x, ry = y, width = w, height = h\<rparr>)"
| "read_rect (k, _) = Err (BadCoordinates k)"

fun read_point :: "string \<times> rat list \<Rightarrow> (document_error, string \<times> point) result" where
  "read_point (k, x # y # _) = Ok (k, \<lparr>px = x, py = y\<rparr>)"
| "read_point (k, _) = Err (BadCoordinates k)"

definition block_of :: "(string \<times> placements) list \<Rightarrow> string \<Rightarrow> placements" where
  "block_of lay k = (case map_of lay k of None \<Rightarrow> [] | Some ps \<Rightarrow> ps)"

definition read_layout :: "(string \<times> placements) list \<Rightarrow> (document_error, layout) result" where
  "read_layout lay =
     bind_result (traverse read_point (block_of lay ''notes'')) (\<lambda>points.
     bind_result (traverse read_rect (block_of lay ''areas'')) (\<lambda>areas.
     bind_result (traverse read_rect (block_of lay ''groups'')) (\<lambda>groups.
       Ok \<lparr>area_rects = map_of (rev areas), note_points = map_of (rev points),
           group_rects = map_of (rev groups)\<rparr>)))"

definition lift_pad :: "(scratchpad_error, 'a) result \<Rightarrow> (document_error, 'a) result" where
  "lift_pad r = (case r of Inl e \<Rightarrow> Err (PadRefused e) | Inr a \<Rightarrow> Ok a)"

definition from_document :: "pad_document \<Rightarrow> string option \<Rightarrow> (document_error, scratchpad) result" where
  "from_document doc given_id =
     (let d = doc_fields doc in
      bind_result (read_layout (doc_layout doc)) (\<lambda>lay.
      bind_result (mapping_or d ''attributes'') (\<lambda>attrs.
      bind_result (traverse read_area (dict_rows d ''areas'')) (\<lambda>areas.
      bind_result (traverse read_note (dict_rows d ''notes'')) (\<lambda>notes.
      bind_result (traverse read_link (dict_rows d ''links'')) (\<lambda>links.
      bind_result (traverse read_group (dict_rows d ''groups'')) (\<lambda>groups.
        lift_pad (scratchpad_from_parts
          (if truthy given_id then the given_id else text_or d ''artifact-id'' [])
          (text_or d ''name'' []) areas notes links groups (Some lay)
          \<lparr>rest_description = Some (text_or d ''description'' []),
           rest_version = Some (text_or d ''version'' ''0.1.0''),
           rest_status = Some (text_or d ''status'' ''draft''),
           rest_meta_ontology = Some (text_or d ''meta-ontology'' ''archimate-4''),
           rest_attributes = Some attrs\<rparr>))))))))"

section \<open>The served document\<close>

definition ontology_domains :: "(string \<times> ontology_module) list \<Rightarrow> string \<Rightarrow> string \<rightharpoonup> string" where
  "ontology_domains modules mo =
     (case module_for modules mo of
        None \<Rightarrow> Map.empty
      | Some m \<Rightarrow> map_of (rev (List.map_filter (\<lambda>(name, info).
          case hierarchy info of [] \<Rightarrow> None | h # _ \<Rightarrow> Some (name, h)) (entity_types m))))"

definition types_in_domains ::
    "(string \<times> ontology_module) list \<Rightarrow> string \<Rightarrow> string list \<Rightarrow> string list" where
  "types_in_domains modules mo domains =
     (case module_for modules mo of
        None \<Rightarrow> []
      | Some m \<Rightarrow> if domains = [] then []
          else List.map_filter (\<lambda>(name, info).
            case hierarchy info of [] \<Rightarrow> None
            | h # _ \<Rightarrow> if h \<in> set domains then Some name else None) (entity_types m))"

definition served_area :: "(string \<times> ontology_module) list \<Rightarrow> string \<Rightarrow> area \<Rightarrow> payload" where
  "served_area modules mo a =
     (let derived = (if permitted_element_types a \<noteq> [] then permitted_element_types a
                     else types_in_domains modules mo (permitted_domains a));
          put = (\<lambda>k ts row. if ts = [] then row else AList.update k (texts ts) row) in
      put ''permitted-document-types'' (permitted_document_types a)
        (put ''permitted-element-types'' derived
          (put ''permitted-domains'' (permitted_domains a)
            (AList.delete ''permits'' (area_row a)))))"

text \<open>A row is read back by its \<^verbatim>\<open>id\<close>, a link's by its ends, and an empty text has been dropped from it.\<close>

definition served_note ::
    "(string \<rightharpoonup> string) \<Rightarrow> scratchpad \<Rightarrow> pad_note \<Rightarrow> (document_error, payload) result" where
  "served_note domains s n =
     (if note_id n = [] then Err (MissingKey ''id'')
      else (let row = AList.update ''area'' (PStr (area_of s (note_id n))) (note_row n);
                derived = domains (or_empty (element_type n)) in
            Ok (if truthy derived then AList.update ''domain'' (PStr (the derived)) row else row)))"

fun verdict_name :: "verdict_kind \<Rightarrow> string" where
  "verdict_name Unverified = ''unverified''"
| "verdict_name Reference = ''reference''"
| "verdict_name Permitted = ''permitted''"
| "verdict_name Narrowed = ''narrowed''"
| "verdict_name Refused = ''refused''"

text \<open>The sentence of a verdict is given by \<open>say\<close>: one of them holds a dash that is no Latin-1 character.\<close>

definition verdict_row :: "(verdict_message \<Rightarrow> string) \<Rightarrow> link_verdict \<Rightarrow> payload" where
  "verdict_row say v = drop_empty [
     (''kind'', PStr (verdict_name (kind v))), (''code'', PStr (code v)),
     (''message'', PStr (say (message v))), (''alternatives'', texts (alternatives v)),
     (''reverse-permitted'', if reverse_permitted v then PBool True else PNone),
     (''narrowed-by'', PStr (narrowed_by v)),
     (''blocks'', if blocks v then PBool True else PNone)]"

definition served_link ::
    "(string \<times> ontology_module) list \<Rightarrow> (verdict_message \<Rightarrow> string) \<Rightarrow> scratchpad \<Rightarrow> link
      \<Rightarrow> (document_error, payload) result" where
  "served_link modules say s l =
     (if source l = [] then Err (MissingKey ''source'')
      else if target l = [] then Err (MissingKey ''target'')
      else case verdict_source modules s l of
        Inl e \<Rightarrow> Err (VerdictFailed e)
      | Inr v \<Rightarrow> Ok (AList.update ''verdict'' (PDict (verdict_row say v)) (link_row l)))"

definition put_rows :: "string \<Rightarrow> payload list \<Rightarrow> payload \<Rightarrow> payload" where
  "put_rows k rs d = (if rs = [] then d else AList.update k (PList (map PDict rs)) d)"

definition to_response ::
    "(string \<times> ontology_module) list \<Rightarrow> (verdict_message \<Rightarrow> string) \<Rightarrow> scratchpad \<Rightarrow> string
      \<Rightarrow> (document_error, pad_document) result" where
  "to_response modules say s grp =
     (let doc = to_document s; mo = meta_ontology s in
      bind_result (traverse (served_note (ontology_domains modules mo) s)
        (sort_key note_id (pad_notes s))) (\<lambda>notes.
      bind_result (traverse (served_link modules say s) (sort_key link_id (pad_links s))) (\<lambda>links.
        Ok (doc\<lparr>doc_fields :=
          put_rows ''links'' links (put_rows ''notes'' notes
            (put_rows ''areas'' (map (served_area modules mo) (sort_key area_id (pad_areas s)))
              (AList.update ''group'' (PStr grp) (doc_fields doc))))\<rparr>))))"

section \<open>Documents a caller sent\<close>

fun refuse_unknown_destinations :: "payload list \<Rightarrow> (document_error, unit) result" where
  "refuse_unknown_destinations [] = Ok ()"
| "refuse_unknown_destinations (row # rows) =
     (let v = get_or row ''destination'' PNone in
      if v = PNone \<or> py_str v \<in> set DESTINATIONS then refuse_unknown_destinations rows
      else Err (InventedDestination (text_or row ''id'' []) (py_str v)))"

definition nonempty_list :: "pyval \<Rightarrow> bool" where
  "nonempty_list v = (case v of PList vs \<Rightarrow> vs \<noteq> [] | _ \<Rightarrow> False)"

definition declared_permits :: "payload \<Rightarrow> payload" where
  "declared_permits row =
     (let permits = (case get_or row ''permits'' PNone of PDict m \<Rightarrow> m | _ \<Rightarrow> []);
          declare = (\<lambda>(k, served) d. let v = get_or row served PNone in
            if \<not> py_truth (get_or d k PNone) \<and> nonempty_list v then AList.update k v d else d) in
      fold declare [(''domains'', ''permitted-domains''), (''documents'', ''permitted-document-types'')]
        permits)"

definition declaring_row :: "pyval \<Rightarrow> pyval" where
  "declaring_row v = (case v of
     PDict row \<Rightarrow> (let permits = declared_permits row in
       if permits = [] then v else PDict (AList.update ''permits'' (PDict permits) row))
   | _ \<Rightarrow> v)"

definition with_declared_permits :: "payload \<Rightarrow> payload" where
  "with_declared_permits d = (case get_or d ''areas'' PNone of
     PList rows \<Rightarrow> AList.update ''areas'' (PList (map declaring_row rows)) d
   | _ \<Rightarrow> d)"

definition from_request_document ::
    "pad_document \<Rightarrow> string \<Rightarrow> (document_error, scratchpad) result" where
  "from_request_document doc aid =
     bind_result (refuse_unknown_destinations (dict_rows (doc_fields doc) ''notes'')) (\<lambda>_.
       from_document (doc\<lparr>doc_fields := with_declared_permits (doc_fields doc)\<rparr>) (Some aid))"

end
