(* ===== verification/Scratchpad_Round_Trip.thy ===== *)
theory Scratchpad_Round_Trip
  imports Scratchpad_Document Scratchpad_Properties
begin

text \<open>
  What a document keeps of a scratchpad: read back, a written document is the scratchpad with its
  collections in id order (\<open>tidied\<close>), and a served one handed back keeps everything but the element
  types a frame names.
\<close>

section \<open>Rows read back\<close>

lemma map_of_drop_empty:
  "distinct (map fst d) \<Longrightarrow> map_of (drop_empty d) k =
     (case map_of d k of None \<Rightarrow> None | Some v \<Rightarrow> if empty_value v then None else Some v)"
proof (induction d)
  case (Cons e d)
  moreover obtain j v where "e = (j, v)" by (cases e)
  moreover have "map_of d j = None" if "j \<notin> fst ` set d" using that by (simp add: map_of_eq_None_iff)
  ultimately show ?case by (auto simp: drop_empty_def split: option.splits)
qed (simp add: drop_empty_def)

lemma get_or_drop_empty:
  "distinct (map fst d) \<Longrightarrow> get_or (drop_empty d) k PNone =
     (let v = get_or d k PNone in if empty_value v then PNone else v)"
  by (auto simp: get_or_def map_of_drop_empty Let_def empty_value_def split: option.splits)

lemma empty_value_simps [simp]:
  "empty_value PNone" "empty_value (PStr s) \<longleftrightarrow> s = []" "empty_value (PList vs) \<longleftrightarrow> vs = []"
  "empty_value (PDict d) \<longleftrightarrow> d = []" "\<not> empty_value (PBool b)"
  by (auto simp: empty_value_def)

lemma map_py_str_texts [simp]: "map py_str (map PStr ss) = ss"
  by (induction ss) auto

lemma map_dict_rows [simp]:
  "List.map_filter (\<lambda>v. case v of PDict m \<Rightarrow> Some m | _ \<Rightarrow> None) (map (\<lambda>x. PDict (row x)) xs) = map row xs"
  by (induction xs) (simp_all add: List.map_filter_simps)

definition ref_kept :: "model_ref option \<Rightarrow> bool" where
  "ref_kept r \<longleftrightarrow> (case r of None \<Rightarrow> True
     | Some m \<Rightarrow> ref_artifact_id m \<noteq> [] \<and> ref_kind m \<in> {''realized'', ''bound''})"

definition note_kept :: "pad_note \<Rightarrow> bool" where
  "note_kept n \<longleftrightarrow> destination n \<in> set DESTINATIONS \<and> ref_kept (note_ref n) \<and>
     domain n \<noteq> Some [] \<and> element_type n \<noteq> Some [] \<and> specialization n \<noteq> Some [] \<and>
     document_type n \<noteq> Some [] \<and> (element_type n \<noteq> None \<longrightarrow> domain n = None)"

definition link_kept :: "link \<Rightarrow> bool" where
  "link_kept l \<longleftrightarrow> connection_type l \<noteq> Some [] \<and> ref_kept (link_ref l)"

lemmas row_reading = get_or_drop_empty text_or_def opt_text_def mapping_or_def texts_or_def
  read_ref_def Let_def

lemma opt_value_cases [simp]:
  "empty_value (opt_value s) \<longleftrightarrow> s = None \<or> s = Some []"
  by (cases s) (simp_all add: opt_value_def)

lemma read_ref_written:
  assumes "ref_kept r" and "get_or d k PNone = (if empty_value (ref_document r) then PNone else ref_document r)"
  shows "read_ref d k = r"
  using assms by (cases r) (auto simp: read_ref_def ref_document_def ref_kept_def Let_def)

lemma opt_text_written:
  assumes "s \<noteq> Some []" and "get_or d k PNone = (if empty_value (opt_value s) then PNone else opt_value s)"
  shows "opt_text d k = Ok s"
  using assms by (cases s) (auto simp: opt_text_def opt_value_def)

lemma text_or_written:
  "get_or d k PNone = (if empty_value (PStr s) then PNone else PStr s) \<Longrightarrow> s \<noteq> [] \<or> other = [] \<Longrightarrow>
   text_or d k other = s"
  by (auto simp: text_or_def)

lemma text_written:
  "get_or d k PNone = (if empty_value (PStr s) then PNone else PStr s) \<Longrightarrow> text_or d k [] = s"
  by (rule text_or_written) simp_all

lemma texts_or_written:
  "get_or d k PNone = (if empty_value (texts ss) then PNone else texts ss) \<Longrightarrow> texts_or d k = Ok ss"
  by (auto simp: texts_or_def texts_def)

lemma mapping_or_written:
  "get_or d k PNone = (if empty_value (PDict m) then PNone else PDict m) \<Longrightarrow> mapping_or d k = Ok m"
  by (auto simp: mapping_or_def)

lemma read_area_row: "read_area (area_row a) = Ok a"
proof -
  let ?permits = "drop_empty [(''domains'', texts (permitted_domains a)),
    (''elements'', texts (permitted_element_types a)), (''documents'', texts (permitted_document_types a))]"
  have "mapping_or (area_row a) ''permits'' = Ok ?permits"
    by (rule mapping_or_written) (simp add: area_row_def get_or_drop_empty)
  moreover have "texts_or ?permits ''domains'' = Ok (permitted_domains a)"
      "texts_or ?permits ''elements'' = Ok (permitted_element_types a)"
      "texts_or ?permits ''documents'' = Ok (permitted_document_types a)"
    by (rule texts_or_written, simp add: get_or_drop_empty)+
  moreover have "text_or (area_row a) ''id'' [] = area_id a" "text_or (area_row a) ''label'' [] = area_label a"
    by (rule text_written, simp add: area_row_def get_or_drop_empty)+
  ultimately show ?thesis by (simp add: read_area_def)
qed

lemma parse_destination_written:
  "d \<in> set DESTINATIONS \<Longrightarrow>
   get_or r ''destination'' PNone = (if d = ''undecided'' then PNone else PStr d) \<Longrightarrow>
   parse_destination (get_or r ''destination'' PNone) = d"
  by (auto simp: parse_destination_def DESTINATIONS_def Let_def)

lemma read_note_row:
  assumes "note_kept n"
  shows "read_note (note_row n) = Ok n"
proof -
  let ?r = "note_row n"
  have kept: "destination n \<in> set DESTINATIONS" "ref_kept (note_ref n)" "domain n \<noteq> Some []"
      "element_type n \<noteq> Some []" "specialization n \<noteq> Some []" "document_type n \<noteq> Some []"
      "element_type n \<noteq> None \<longrightarrow> domain n = None"
    using assms by (simp_all add: note_kept_def)
  have "text_or ?r ''id'' [] = note_id n" "text_or ?r ''title'' [] = title n" "text_or ?r ''body'' [] = body n"
    by (rule text_written, simp add: note_row_def get_or_drop_empty)+
  moreover have "opt_text ?r ''domain'' = Ok (domain n)" "opt_text ?r ''element-type'' = Ok (element_type n)"
      "opt_text ?r ''specialization'' = Ok (specialization n)"
      "opt_text ?r ''document-type'' = Ok (document_type n)"
    by (rule opt_text_written, (rule kept), simp add: note_row_def get_or_drop_empty)+
  moreover have "py_truth (get_or ?r ''element-type'' PNone) \<longleftrightarrow> element_type n \<noteq> None"
    using kept(4) by (cases "element_type n") (simp_all add: note_row_def get_or_drop_empty opt_value_def)
  moreover have "read_ref ?r ''model-ref'' = note_ref n"
    by (rule read_ref_written [OF kept(2)]) (simp add: note_row_def get_or_drop_empty)
  moreover have "mapping_or ?r ''attributes'' = Ok (note_attributes n)"
    by (rule mapping_or_written) (simp add: note_row_def get_or_drop_empty)
  moreover have "get_or ?r ''destination'' PNone =
      (if destination n = ''undecided'' then PNone else PStr (destination n))"
    using kept(1) by (auto simp: note_row_def get_or_drop_empty DESTINATIONS_def)
  then have "parse_destination (get_or ?r ''destination'' PNone) = destination n"
    by (rule parse_destination_written [OF kept(1)])
  ultimately show ?thesis using kept(7) by (auto simp: read_note_def)
qed

lemma read_link_row:
  assumes "link_kept l"
  shows "read_link (link_row l) = Ok l"
proof -
  have "text_or (link_row l) ''id'' [] = link_id l" "text_or (link_row l) ''source'' [] = source l"
      "text_or (link_row l) ''target'' [] = target l"
    by (rule text_written, simp add: link_row_def get_or_drop_empty)+
  moreover have "opt_text (link_row l) ''connection-type'' = Ok (connection_type l)"
    using assms by (intro opt_text_written) (simp_all add: link_kept_def link_row_def get_or_drop_empty)
  moreover have "read_ref (link_row l) ''model-ref'' = link_ref l"
    using assms by (intro read_ref_written) (simp_all add: link_kept_def link_row_def get_or_drop_empty)
  ultimately show ?thesis by (simp add: read_link_def)
qed

lemma read_group_row: "read_group (group_row g) = Ok (g\<lparr>members := sort (members g)\<rparr>)"
proof -
  have "text_or (group_row g) ''id'' [] = group_id g" "text_or (group_row g) ''label'' [] = group_label g"
    by (rule text_written, simp add: group_row_def get_or_drop_empty)+
  moreover have "texts_or (group_row g) ''members'' = Ok (sort (members g))"
    by (rule texts_or_written) (simp add: group_row_def get_or_drop_empty)
  ultimately show ?thesis by (simp add: read_group_def)
qed

lemma traverse_rows:
  "(\<And>x. x \<in> set xs \<Longrightarrow> read (row x) = Ok (f x)) \<Longrightarrow> traverse read (map row xs) = Ok (map f xs)"
  by (induction xs) auto

section \<open>The layout read back\<close>

lemma traverse_entries:
  "(\<And>k v. read (k, numbers v) = Ok (k, v)) \<Longrightarrow>
   traverse read (map (\<lambda>(k, v). (k, numbers v)) es) = Ok es"
  by (induction es) auto

lemma map_of_sorted_entries:
  assumes "finite (dom m)"
  shows "map_of (rev (sorted_entries m)) = m"
proof -
  let ?ks = "sorted_list_of_set (dom m)"
  have "map_of (rev (sorted_entries m)) = map_of (sorted_entries m)"
    by (subst map_of_inject_set) (simp_all add: sorted_entries_def comp_def rev_map)
  moreover have "map_of (sorted_entries m) k = m k" for k
    using assms by (cases "m k") (auto simp: sorted_entries_def map_of_map_restrict restrict_map_def)
  ultimately show ?thesis by auto
qed

lemma sorted_entries_Nil: "finite (dom m) \<Longrightarrow> sorted_entries m = [] \<longleftrightarrow> m = Map.empty"
  by (simp add: sorted_entries_def)

definition finite_layout :: "layout \<Rightarrow> bool" where
  "finite_layout l \<longleftrightarrow> finite (dom (area_rects l)) \<and> finite (dom (note_points l)) \<and> finite (dom (group_rects l))"

lemma read_layout_written:
  assumes "finite_layout l"
  shows "read_layout (layout_document l) = Ok l"
proof -
  have rect: "traverse read_rect (map (\<lambda>(k, r). (k, rect_numbers r)) es) = Ok es" for es
    by (rule traverse_entries) (simp add: rect_numbers_def)
  have point: "traverse read_point (map (\<lambda>(k, p). (k, point_numbers p)) es) = Ok es" for es
    by (rule traverse_entries) (simp add: point_numbers_def)
  have blocks: "block_of (layout_document l) ''areas'' =
        map (\<lambda>(k, r). (k, rect_numbers r)) (sorted_entries (area_rects l))"
      "block_of (layout_document l) ''notes'' =
        map (\<lambda>(k, p). (k, point_numbers p)) (sorted_entries (note_points l))"
      "block_of (layout_document l) ''groups'' =
        map (\<lambda>(k, r). (k, rect_numbers r)) (sorted_entries (group_rects l))"
    by (simp_all add: block_of_def layout_document_def)
  show ?thesis
    using assms by (simp add: read_layout_def blocks rect point finite_layout_def map_of_sorted_entries)
qed

section \<open>The scratchpad a document gives back\<close>

definition tidied :: "scratchpad \<Rightarrow> scratchpad" where
  "tidied s = s\<lparr>pad_areas := sort_key area_id (pad_areas s), pad_notes := sort_key note_id (pad_notes s),
     pad_links := sort_key link_id (pad_links s),
     pad_groups := map (\<lambda>g. g\<lparr>members := sort (members g)\<rparr>) (sort_key group_id (pad_groups s))\<rparr>"

definition document_kept :: "scratchpad \<Rightarrow> bool" where
  "document_kept s \<longleftrightarrow> list_all note_kept (pad_notes s) \<and> list_all link_kept (pad_links s) \<and>
     finite_layout (pad_layout s) \<and> on_grid s \<and>
     version s \<noteq> [] \<and> status s \<noteq> [] \<and> meta_ontology s \<noteq> []"

lemma area_of_set_cong:
  "\<lbrakk>set (pad_areas s) = set (pad_areas t); pad_layout s = pad_layout t\<rbrakk> \<Longrightarrow> area_of s = area_of t"
  using containing_set_cong [of s t]
  by (auto simp: area_of_def fun_eq_iff Let_def split: option.splits) (metis list.set(1) set_empty)+

lemma sum_list_sort_key: "sum_list (map f (sort_key k xs)) = (sum_list (map f xs) :: 'a multiset)"
proof -
  have "sum_mset (mset (map f (sort_key k xs))) = sum_mset (mset (map f xs))" by simp
  then show ?thesis by (simp only: sum_mset_sum_list)
qed

lemma distinct_sorted_members:
  "distinct (concat (map members (map (\<lambda>g. g\<lparr>members := sort (members g)\<rparr>) (sort_key group_id gs))))
   \<longleftrightarrow> distinct (concat (map members (gs :: group list)))"
proof -
  have inner: "mset (concat (map members (map (\<lambda>g. g\<lparr>members := sort (members g)\<rparr>) gs'))) =
      mset (concat (map members gs'))" for gs' :: "group list"
    by (induction gs') simp_all
  have outer: "mset (concat (map members (sort_key group_id gs))) = mset (concat (map members gs))"
    by (simp add: mset_concat sum_list_sort_key)
  show ?thesis by (rule mset_eq_imp_distinct_iff [OF trans [OF inner outer]])
qed

lemma tidied_sel [simp]:
  "pad_areas (tidied s) = sort_key area_id (pad_areas s)"
  "pad_notes (tidied s) = sort_key note_id (pad_notes s)"
  "pad_links (tidied s) = sort_key link_id (pad_links s)"
  "pad_groups (tidied s) = map (\<lambda>g. g\<lparr>members := sort (members g)\<rparr>) (sort_key group_id (pad_groups s))"
  "pad_layout (tidied s) = pad_layout s" "artifact_id (tidied s) = artifact_id s"
  "version (tidied s) = version s" "status (tidied s) = status s"
  "meta_ontology (tidied s) = meta_ontology s"
  by (simp_all add: tidied_def)

lemma groups_ok_group_ok:
  "groups_ok gs as ids aof \<longleftrightarrow> distinct (map area_id as) \<and>
     (\<forall>g \<in> set gs. group_ok (area_id ` set as) ids aof g) \<and> distinct (concat (map members gs))"
  unfolding groups_ok_def group_ok_def by (rule refl)

lemma group_ok_sorted: "group_ok as ns aof (g\<lparr>members := sort (members g)\<rparr>) \<longleftrightarrow> group_ok as ns aof g"
  by (simp add: group_ok_def)

lemma tidied_ok: "pad_ok s \<Longrightarrow> pad_ok (tidied s)"
proof -
  assume ok: "pad_ok s"
  have "area_of (tidied s) = area_of s" by (rule area_of_set_cong) (simp_all add: tidied_def)
  moreover have "distinct (map bound_artifact (filter is_bound (sort_key note_id (pad_notes s))))"
    using ok by (simp add: filter_sort distinct_map_sort_key pad_ok_def notes_ok_def)
  moreover have "notes_ok (pad_notes (tidied s))"
    using ok by (simp add: tidied_def pad_ok_def notes_ok_def distinct_map_sort_key
        filter_sort)
  moreover have "links_ok (pad_links (tidied s)) (note_ids (tidied s))"
    using ok by (simp add: tidied_def pad_ok_def links_ok_def distinct_map_sort_key)
  moreover have "groups_ok (pad_groups (tidied s)) (pad_areas (tidied s)) (note_ids (tidied s)) (area_of s)"
    using ok unfolding groups_ok_group_ok pad_ok_def tidied_sel distinct_sorted_members
      distinct_map_sort_key set_sort set_map ball_simps group_ok_sorted by blast
  ultimately show ?thesis by (simp add: pad_ok_def)
qed

lemma dict_rows_written:
  "get_or d k PNone = (if empty_value (rows_value row xs) then PNone else rows_value row xs) \<Longrightarrow>
   dict_rows d k = map row xs"
  by (auto simp: dict_rows_def rows_value_def)

lemma document_rows:
  "dict_rows (doc_fields (to_document s)) ''areas'' = map area_row (sort_key area_id (pad_areas s))"
  "dict_rows (doc_fields (to_document s)) ''notes'' = map note_row (sort_key note_id (pad_notes s))"
  "dict_rows (doc_fields (to_document s)) ''groups'' = map group_row (sort_key group_id (pad_groups s))"
  "dict_rows (doc_fields (to_document s)) ''links'' = map link_row (sort_key link_id (pad_links s))"
  by (rule dict_rows_written, simp add: to_document_def get_or_drop_empty)+

lemma document_texts:
  assumes "document_kept s"
  shows "text_or (doc_fields (to_document s)) ''artifact-id'' [] = artifact_id s"
    and "text_or (doc_fields (to_document s)) ''name'' [] = pad_name s"
    and "text_or (doc_fields (to_document s)) ''description'' [] = description s"
    and "text_or (doc_fields (to_document s)) ''version'' ''0.1.0'' = version s"
    and "text_or (doc_fields (to_document s)) ''status'' ''draft'' = status s"
    and "text_or (doc_fields (to_document s)) ''meta-ontology'' ''archimate-4'' = meta_ontology s"
    and "mapping_or (doc_fields (to_document s)) ''attributes'' = Ok (attributes s)"
  using assms
  by (auto intro!: text_or_written mapping_or_written simp: to_document_def get_or_drop_empty document_kept_def)

lemma traverse_sorted_rows:
  assumes "\<And>x. x \<in> set xs \<Longrightarrow> read (row x) = Ok (f x)"
  shows "traverse read (map row (sort_key k xs)) = Ok (map f (sort_key k xs))"
  by (rule traverse_rows) (simp add: assms)

lemma from_written_parts:
  assumes kept: "document_kept s" and ok: "pad_ok s"
  shows "from_document (to_document s) None = Ok (tidied s)"
proof -
  have note_rows: "traverse read_note (map note_row (sort_key note_id (pad_notes s))) =
      Ok (map (\<lambda>n. n) (sort_key note_id (pad_notes s)))"
    using kept by (intro traverse_sorted_rows read_note_row) (simp add: document_kept_def list_all_iff)
  have links: "traverse read_link (map link_row (sort_key link_id (pad_links s))) =
      Ok (map (\<lambda>l. l) (sort_key link_id (pad_links s)))"
    using kept by (intro traverse_sorted_rows read_link_row) (simp add: document_kept_def list_all_iff)
  have areas: "traverse read_area (map area_row (sort_key area_id (pad_areas s))) =
      Ok (map (\<lambda>a. a) (sort_key area_id (pad_areas s)))"
    by (intro traverse_sorted_rows read_area_row)
  have groups: "traverse read_group (map group_row (sort_key group_id (pad_groups s))) =
      Ok (map (\<lambda>g. g\<lparr>members := sort (members g)\<rparr>) (sort_key group_id (pad_groups s)))"
    by (intro traverse_sorted_rows read_group_row)
  have layout: "read_layout (doc_layout (to_document s)) = Ok (pad_layout s)"
    using kept by (simp add: to_document_def document_kept_def read_layout_written)
  have snapped: "snapped (pad_layout s) = pad_layout s"
    using kept by (simp add: document_kept_def on_grid_def)
  have whole: "\<lparr>artifact_id = artifact_id s, pad_name = pad_name s, description = description s,
      version = version s, status = status s, meta_ontology = meta_ontology s, attributes = attributes s,
      pad_areas = sort_key area_id (pad_areas s), pad_notes = sort_key note_id (pad_notes s),
      pad_links = sort_key link_id (pad_links s),
      pad_groups = map (\<lambda>g. g\<lparr>members := sort (members g)\<rparr>) (sort_key group_id (pad_groups s)),
      pad_layout = pad_layout s\<rparr> = tidied s"
    by (cases s) (simp add: tidied_def)
  show ?thesis
    using tidied_ok [OF ok]
    by (simp add: from_document_def layout document_texts [OF kept] document_rows note_rows links areas groups
        scratchpad_from_parts_def or_default_def snapped whole validated_ok lift_pad_def)
qed

section \<open>A served document handed back\<close>

lemma get_or_put: "get_or (AList.update k v d) j w = (if j = k then v else get_or d j w)"
  by (simp add: get_or_def update_conv')

lemma get_or_deleted: "get_or (AList.delete k d) j w = (if j = k then w else get_or d j w)"
  by (simp add: get_or_def delete_conv')

lemma readers_cong:
  assumes "get_or d k PNone = get_or d' k PNone"
  shows "text_or d k t = text_or d' k t" "opt_text d k = opt_text d' k"
    "mapping_or d k = mapping_or d' k" "texts_or d k = texts_or d' k" "read_ref d k = read_ref d' k"
    "dict_rows d k = dict_rows d' k"
  using assms by (simp_all add: text_or_def opt_text_def mapping_or_def texts_or_def read_ref_def dict_rows_def)

lemma read_note_served:
  assumes "served_note domains s n = Ok row" and "note_kept n" and "domains [] = None"
  shows "read_note row = Ok n"
proof -
  have other: "get_or row k PNone = get_or (note_row n) k PNone" if "k \<notin> {''area'', ''domain''}" for k
    using assms(1) that by (auto simp: served_note_def get_or_put Let_def split: if_splits)
  have etype: "get_or (note_row n) ''element-type'' PNone = opt_value (element_type n)"
    using assms(2) by (cases "element_type n") (auto simp: note_row_def get_or_drop_empty opt_value_def note_kept_def)
  have dm: "get_or row ''domain'' PNone = get_or (note_row n) ''domain'' PNone" if "element_type n = None"
    using assms(1,3) that by (auto simp: served_note_def get_or_put Let_def or_empty_def split: if_splits)
  have "read_note row = read_note (note_row n)"
  proof (cases "element_type n")
    case None
    then show ?thesis
      by (simp add: read_note_def other dm readers_cong [OF dm] readers_cong [OF other])
  next
    case (Some t)
    then have "py_truth (get_or (note_row n) ''element-type'' PNone)"
      using assms(2) etype by (auto simp: opt_value_def note_kept_def)
    then show ?thesis by (simp add: read_note_def other readers_cong [OF other])
  qed
  then show ?thesis using read_note_row [OF assms(2)] by simp
qed

lemma read_link_served:
  assumes "served_link modules say s l = Ok row" and "link_kept l"
  shows "read_link row = Ok l"
proof -
  have other: "get_or row k PNone = get_or (link_row l) k PNone" if "k \<noteq> ''verdict''" for k
    using assms(1) that by (auto simp: served_link_def get_or_put split: if_splits sum.splits)
  have "read_link row = read_link (link_row l)"
    by (simp add: read_link_def readers_cong [OF other])
  then show ?thesis using read_link_row [OF assms(2)] by simp
qed

lemma get_or_area_row:
  "k \<noteq> ''permits'' \<Longrightarrow> get_or (served_area modules mo a) k PNone =
     (if k = ''permitted-domains'' \<and> permitted_domains a \<noteq> [] then texts (permitted_domains a)
      else if k = ''permitted-document-types'' \<and> permitted_document_types a \<noteq> []
      then texts (permitted_document_types a)
      else if k = ''permitted-element-types'' then get_or (served_area modules mo a) k PNone
      else get_or (area_row a) k PNone)"
  by (simp add: served_area_def Let_def get_or_put get_or_deleted)

lemma served_area_permits: "get_or (served_area modules mo a) ''permits'' PNone = PNone"
  by (simp add: served_area_def Let_def get_or_put get_or_deleted)

lemma nonempty_texts [simp]: "nonempty_list (texts ts) \<longleftrightarrow> ts \<noteq> []"
  by (simp add: nonempty_list_def texts_def)

lemma nonempty_none [simp]: "\<not> nonempty_list PNone"
  by (simp add: nonempty_list_def)

lemma area_row_plain:
  "get_or (area_row a) ''permitted-domains'' PNone = PNone"
  "get_or (area_row a) ''permitted-document-types'' PNone = PNone"
  by (simp_all add: area_row_def get_or_drop_empty)

lemma declared_permits_served:
  "declared_permits (served_area modules mo a) =
     (if permitted_domains a = [] then [] else [(''domains'', texts (permitted_domains a))]) @
     (if permitted_document_types a = [] then []
      else [(''documents'', texts (permitted_document_types a))])"
  by (simp add: declared_permits_def served_area_permits get_or_area_row area_row_plain Let_def)

definition handed_area :: "(string \<times> ontology_module) list \<Rightarrow> string \<Rightarrow> area \<Rightarrow> payload" where
  "handed_area modules mo a = (let permits = declared_permits (served_area modules mo a) in
     if permits = [] then served_area modules mo a
     else AList.update ''permits'' (PDict permits) (served_area modules mo a))"

lemma declaring_served: "declaring_row (PDict (served_area modules mo a)) = PDict (handed_area modules mo a)"
  by (simp add: declaring_row_def handed_area_def Let_def)

lemma read_area_handed: "read_area (handed_area modules mo a) = Ok (a\<lparr>permitted_element_types := []\<rparr>)"
proof -
  let ?permits = "declared_permits (served_area modules mo a)" and ?row = "handed_area modules mo a"
  have texts: "text_or ?row k [] = text_or (area_row a) k []" if "k \<in> {''id'', ''label''}" for k
    using that by (auto simp: handed_area_def Let_def get_or_put get_or_area_row intro!: readers_cong)
  moreover have "text_or (area_row a) ''id'' [] = area_id a" "text_or (area_row a) ''label'' [] = area_label a"
    by (rule text_written, simp add: area_row_def get_or_drop_empty)+
  moreover have "mapping_or ?row ''permits'' = Ok ?permits"
    by (simp add: handed_area_def Let_def mapping_or_def get_or_put served_area_permits)
  moreover have "texts_or ?permits ''domains'' = Ok (permitted_domains a)"
      "texts_or ?permits ''elements'' = Ok []"
      "texts_or ?permits ''documents'' = Ok (permitted_document_types a)"
    unfolding declared_permits_served by (auto simp: texts_or_def Let_def texts_def)
  ultimately show ?thesis by (auto simp: read_area_def)
qed

lemma dict_rows_put:
  "dict_rows (put_rows k rs d) j = (if j = k \<and> rs \<noteq> [] then rs else dict_rows d j)"
proof -
  have "List.map_filter (\<lambda>v. case v of PDict m \<Rightarrow> Some m | _ \<Rightarrow> None) (map PDict rs) = rs"
    using map_dict_rows [of "\<lambda>r. r" rs] by simp
  then show ?thesis by (auto simp: put_rows_def dict_rows_def get_or_put)
qed

lemma get_or_put_rows:
  "j \<noteq> k \<Longrightarrow> get_or (put_rows k rs d) j w = get_or d j w"
  by (simp add: put_rows_def get_or_put)

lemma get_or_declared: "k \<noteq> ''areas'' \<Longrightarrow> get_or (with_declared_permits d) k w = get_or d k w"
  by (simp add: with_declared_permits_def get_or_put split: pyval.splits)

lemma dict_rows_declared:
  assumes "get_or d ''areas'' PNone = PList (map (\<lambda>a. PDict (served_area modules mo a)) as)"
  shows "dict_rows (with_declared_permits d) ''areas'' = map (handed_area modules mo) as"
  using assms map_dict_rows [of "handed_area modules mo" as]
  by (simp add: with_declared_permits_def dict_rows_def get_or_put declaring_served comp_def)

lemma traverse_back:
  assumes "traverse f xs = Ok ys" and "\<forall>x \<in> set xs. \<forall>y. f x = Ok y \<longrightarrow> g y = Ok x"
  shows "traverse g ys = Ok xs"
  using assms by (induction xs arbitrary: ys) (auto split: sum.splits)

lemma destinations_allowed:
  assumes "list_all (\<lambda>row. get_or row ''destination'' PNone = PNone \<or>
      py_str (get_or row ''destination'' PNone) \<in> set DESTINATIONS) rows"
  shows "refuse_unknown_destinations rows = Ok ()"
  using assms by (induction rows) (auto simp: Let_def)

lemma served_destination:
  assumes "served_note domains s n = Ok row" and "note_kept n"
  shows "get_or row ''destination'' PNone = PNone \<or> py_str (get_or row ''destination'' PNone) \<in> set DESTINATIONS"
proof -
  have "get_or row ''destination'' PNone = get_or (note_row n) ''destination'' PNone"
    using assms(1) by (auto simp: served_note_def get_or_put Let_def split: if_splits)
  then show ?thesis using assms(2) by (auto simp: note_row_def get_or_drop_empty note_kept_def)
qed

lemma traverse_each:
  assumes "traverse f xs = Ok ys" and "\<forall>x \<in> set xs. \<forall>y. f x = Ok y \<longrightarrow> P y"
  shows "list_all P ys"
  using assms by (induction xs arbitrary: ys) (auto split: sum.splits)

definition unnamed_types :: "area \<Rightarrow> area" where
  "unnamed_types a = a\<lparr>permitted_element_types := []\<rparr>"

lemma unnamed_types_id [simp]: "area_id (unnamed_types a) = area_id a"
  by (simp add: unnamed_types_def)

definition unnamed :: "scratchpad \<Rightarrow> scratchpad" where
  "unnamed s = s\<lparr>pad_areas := map unnamed_types (pad_areas s)\<rparr>"

lemma unnamed_ok: "pad_ok s \<Longrightarrow> pad_ok (unnamed s)"
proof -
  assume ok: "pad_ok s"
  have "containing (unnamed s) p = containing s p" for p
    by (simp add: containing_def unnamed_def map_filter_def comp_def filter_map cong: option.case_cong if_cong)
  then have "area_of (unnamed s) = area_of s"
    by (simp add: area_of_def fun_eq_iff unnamed_def split: option.splits)
  moreover have "map area_id (pad_areas (unnamed s)) = map area_id (pad_areas s)"
    by (simp add: unnamed_def unnamed_types_def)
  then have "distinct (map area_id (pad_areas (unnamed s))) = distinct (map area_id (pad_areas s))"
      "area_id ` set (pad_areas (unnamed s)) = area_id ` set (pad_areas s)"
    by (simp, metis list.set_map)
  moreover have "pad_notes (unnamed s) = pad_notes s" "pad_links (unnamed s) = pad_links s"
      "pad_groups (unnamed s) = pad_groups s"
    by (simp_all add: unnamed_def)
  ultimately show ?thesis
    using ok by (simp add: pad_ok_def groups_ok_group_ok)
qed

lemma response_fields:
  assumes "to_response modules say s grp = Ok doc"
  obtains nts lks where
    "traverse (served_note (ontology_domains modules (meta_ontology s)) s) (sort_key note_id (pad_notes s)) = Ok nts"
    "traverse (served_link modules say s) (sort_key link_id (pad_links s)) = Ok lks"
    "doc = (to_document s)\<lparr>doc_fields := put_rows ''links'' lks (put_rows ''notes'' nts
       (put_rows ''areas'' (map (served_area modules (meta_ontology s)) (sort_key area_id (pad_areas s)))
         (AList.update ''group'' (PStr grp) (doc_fields (to_document s)))))\<rparr>"
  using assms by (auto simp: to_response_def Let_def bind_result_eq_Inr)

text \<open>What the rows of a served document give back when they are read.\<close>

lemma handed_back_rows:
  assumes served: "to_response modules say s grp = Ok doc" and kept: "document_kept s"
    and named: "ontology_domains modules (meta_ontology s) [] = None"
  shows "refuse_unknown_destinations (dict_rows (doc_fields doc) ''notes'') = Ok ()"
    and "traverse read_note (dict_rows (doc_fields doc) ''notes'') = Ok (sort_key note_id (pad_notes s))"
    and "traverse read_link (dict_rows (doc_fields doc) ''links'') = Ok (sort_key link_id (pad_links s))"
    and "traverse read_group (dict_rows (doc_fields doc) ''groups'') =
      Ok (map (\<lambda>g. g\<lparr>members := sort (members g)\<rparr>) (sort_key group_id (pad_groups s)))"
    and "traverse read_area (dict_rows (with_declared_permits (doc_fields doc)) ''areas'') =
      Ok (map unnamed_types (sort_key area_id (pad_areas s)))"
proof -
  obtain nts lks where nts: "traverse (served_note (ontology_domains modules (meta_ontology s)) s)
        (sort_key note_id (pad_notes s)) = Ok nts"
    and lks: "traverse (served_link modules say s) (sort_key link_id (pad_links s)) = Ok lks"
    and doc: "doc = (to_document s)\<lparr>doc_fields := put_rows ''links'' lks (put_rows ''notes'' nts
       (put_rows ''areas'' (map (served_area modules (meta_ontology s)) (sort_key area_id (pad_areas s)))
         (AList.update ''group'' (PStr grp) (doc_fields (to_document s)))))\<rparr>"
    using served by (rule response_fields)
  let ?d0 = "AList.update ''group'' (PStr grp) (doc_fields (to_document s))"
  have d0: "dict_rows ?d0 k = dict_rows (doc_fields (to_document s)) k" if "k \<noteq> ''group''" for k
    using that by (intro readers_cong) (simp add: get_or_put)
  have lengths: "nts = [] \<longleftrightarrow> pad_notes s = []" "lks = [] \<longleftrightarrow> pad_links s = []"
    using nts lks by (auto simp: traverse_eq_Inr list_all2_iff)
  have kept_notes: "\<forall>n \<in> set (sort_key note_id (pad_notes s)). note_kept n"
    and kept_links: "\<forall>l \<in> set (sort_key link_id (pad_links s)). link_kept l"
    using kept by (auto simp: document_kept_def list_all_iff)
  have note_rows: "dict_rows (doc_fields doc) ''notes'' = nts"
    using lengths by (auto simp: doc dict_rows_put d0 document_rows)
  have link_rows: "dict_rows (doc_fields doc) ''links'' = lks"
    using lengths by (auto simp: doc dict_rows_put d0 document_rows)
  show "refuse_unknown_destinations (dict_rows (doc_fields doc) ''notes'') = Ok ()"
    unfolding note_rows
    by (intro destinations_allowed traverse_each [OF nts]) (auto dest!: served_destination simp: kept_notes)
  show "traverse read_note (dict_rows (doc_fields doc) ''notes'') = Ok (sort_key note_id (pad_notes s))"
    unfolding note_rows by (rule traverse_back [OF nts]) (blast intro: read_note_served named bspec [OF kept_notes])
  show "traverse read_link (dict_rows (doc_fields doc) ''links'') = Ok (sort_key link_id (pad_links s))"
    unfolding link_rows by (rule traverse_back [OF lks]) (blast intro: read_link_served bspec [OF kept_links])
  show "traverse read_group (dict_rows (doc_fields doc) ''groups'') =
      Ok (map (\<lambda>g. g\<lparr>members := sort (members g)\<rparr>) (sort_key group_id (pad_groups s)))"
    by (simp add: doc dict_rows_put d0 document_rows traverse_sorted_rows read_group_row)
  have "dict_rows (with_declared_permits (doc_fields doc)) ''areas'' =
      map (handed_area modules (meta_ontology s)) (sort_key area_id (pad_areas s))"
  proof (cases "pad_areas s = []")
    case True
    then have "get_or (doc_fields doc) ''areas'' PNone = PNone"
      by (simp add: doc get_or_put_rows put_rows_def get_or_put to_document_def get_or_drop_empty rows_value_def)
    then show ?thesis using True by (simp add: with_declared_permits_def dict_rows_def)
  next
    case False
    then have "sort_key area_id (pad_areas s) \<noteq> []" by (metis set_empty set_sort)
    then show ?thesis
      by (intro dict_rows_declared)
        (simp add: doc get_or_put_rows put_rows_def get_or_put comp_def)
  qed
  then show "traverse read_area (dict_rows (with_declared_permits (doc_fields doc)) ''areas'') =
      Ok (map unnamed_types (sort_key area_id (pad_areas s)))"
    by (simp add: traverse_sorted_rows [where f = unnamed_types] read_area_handed unnamed_types_def)
qed

end
