(* ===== verification/Scratchpad_Edit.thy ===== *)
theory Scratchpad_Edit
  imports Scratchpad_Document
begin

text \<open>
  A change to a scratchpad expressed as what changed (\<^verbatim>\<open>src/application/scratchpad/edit.py\<close>): the edit
  is checked, its removals of notes and links go through the aggregate, everything else is a change
  of the document, and the document is read back. A mapping of the edit is an association list with
  distinct keys; a rectangle or a point is its numbers, and unplacing is \<^verbatim>\<open>null\<close>.
\<close>

section \<open>Edits\<close>

definition COLLECTIONS :: "string list" where
  "COLLECTIONS = [''areas'', ''notes'', ''groups'', ''links'']"

definition PLACED :: "string list" where
  "PLACED = [''areas'', ''notes'', ''groups'']"

record pad_edit =
  edit_remove :: "(string \<times> string list) list"
  edit_upsert :: "(string \<times> payload list) list"
  edit_layout :: "(string \<times> (string \<times> rat list option) list) list"

datatype pad_edit_error =
    UnknownCollections string "string list"
  | UnknownLayout "string list"
  | ChangesNothing
  | NoSuchRow string string
  | UpsertWithoutId string
  | EditRefused document_error

definition entries :: "(string \<times> 'a list) list \<Rightarrow> string \<Rightarrow> 'a list" where
  "entries d k = (case map_of d k of None \<Rightarrow> [] | Some xs \<Rightarrow> xs)"

definition unknown_keys :: "(string \<times> 'a) list \<Rightarrow> string list \<Rightarrow> string list" where
  "unknown_keys d known = sort (filter (\<lambda>k. k \<notin> set known) (remdups (map fst d)))"

definition touches_anything :: "pad_edit \<Rightarrow> bool" where
  "touches_anything e \<longleftrightarrow>
     (\<exists>(k, xs) \<in> set (edit_remove e). xs \<noteq> []) \<or> (\<exists>(k, xs) \<in> set (edit_upsert e). xs \<noteq> []) \<or>
     (\<exists>(k, xs) \<in> set (edit_layout e). xs \<noteq> [])"

definition edit_result :: "(document_error, 'a) result \<Rightarrow> (pad_edit_error, 'a) result" where
  "edit_result r = (case r of Inl e \<Rightarrow> Err (EditRefused e) | Inr a \<Rightarrow> Ok a)"

definition validate_edit :: "pad_edit \<Rightarrow> (pad_edit_error, unit) result" where
  "validate_edit e =
     (if unknown_keys (edit_remove e) COLLECTIONS \<noteq> []
      then Err (UnknownCollections ''remove'' (unknown_keys (edit_remove e) COLLECTIONS))
      else if unknown_keys (edit_upsert e) COLLECTIONS \<noteq> []
      then Err (UnknownCollections ''upsert'' (unknown_keys (edit_upsert e) COLLECTIONS))
      else if unknown_keys (edit_layout e) PLACED \<noteq> []
      then Err (UnknownLayout (unknown_keys (edit_layout e) PLACED))
      else bind_result (edit_result (refuse_unknown_destinations (entries (edit_upsert e) ''notes''))) (\<lambda>_.
        if \<not> touches_anything e then Err ChangesNothing else Ok ()))"

section \<open>Merge patches\<close>

fun merged :: "payload \<Rightarrow> payload \<Rightarrow> payload" where
  "merged base [] = base"
| "merged base ((k, v) # patch) =
     merged (case v of
               PNone \<Rightarrow> AList.delete k base
             | PDict d \<Rightarrow> (case map_of base k of
                             Some (PDict b) \<Rightarrow> AList.update k (PDict (merged b d)) base
                           | _ \<Rightarrow> AList.update k v base)
             | _ \<Rightarrow> AList.update k v base) patch"

definition put_row :: "payload \<Rightarrow> nat \<Rightarrow> payload list \<Rightarrow> payload list" where
  "put_row row i rows = rows[i := row]"

fun upserted_rows ::
    "string \<Rightarrow> payload list \<Rightarrow> payload list \<Rightarrow> (string \<times> nat) list \<Rightarrow> (pad_edit_error, payload list) result" where
  "upserted_rows coll [] rows index = Ok rows"
| "upserted_rows coll (patch # patches) rows index =
     (let row_id = py_strip (text_or patch ''id'' []) in
      if row_id = [] then Err (UpsertWithoutId coll)
      else (case map_of index row_id of
              None \<Rightarrow> upserted_rows coll patches (rows @ [merged [(''id'', PStr row_id)] patch])
                        ((row_id, length rows) # index)
            | Some i \<Rightarrow> upserted_rows coll patches (put_row (merged (rows ! i) patch) i rows) index))"

text \<open>\<^verbatim>\<open>str(row.get("id"))\<close>: the text of \<^verbatim>\<open>None\<close> for a row without one.\<close>

definition row_key :: "payload \<Rightarrow> string" where
  "row_key row = py_str (get_or row ''id'' PNone)"

definition row_index :: "payload list \<Rightarrow> (string \<times> nat) list" where
  "row_index rows = rev (zip (map row_key rows) [0..<length rows])"

definition upserted ::
    "pad_document \<Rightarrow> string \<Rightarrow> payload list \<Rightarrow> (pad_edit_error, pad_document) result" where
  "upserted doc coll patches =
     (let rows = dict_rows (doc_fields doc) coll in
      bind_result (upserted_rows coll patches rows (row_index rows)) (\<lambda>rows'.
        Ok (doc\<lparr>doc_fields := AList.update coll (PList (map PDict rows')) (doc_fields doc)\<rparr>)))"

section \<open>Removal and placement\<close>

definition without_rows ::
    "string \<Rightarrow> string list \<Rightarrow> pad_document \<Rightarrow> (pad_edit_error, pad_document) result" where
  "without_rows coll removing doc =
     (if removing = [] then Ok doc
      else (let rows = dict_rows (doc_fields doc) coll;
                missing = sort (filter (\<lambda>i. i \<notin> row_key ` set rows) (remdups removing)) in
       if missing \<noteq> [] then Err (NoSuchRow coll (hd missing))
       else Ok (doc\<lparr>doc_fields := AList.update coll
              (PList (map PDict (filter (\<lambda>r. row_key r \<notin> set removing) rows))) (doc_fields doc)\<rparr>)))"

definition unplaced :: "string \<Rightarrow> string list \<Rightarrow> pad_document \<Rightarrow> pad_document" where
  "unplaced coll removing doc =
     (let placements = block_of (doc_layout doc) coll in
      if removing = [] \<or> placements = [] then doc
      else doc\<lparr>doc_layout := AList.update coll (filter (\<lambda>(k, _). k \<notin> set removing) placements)
             (doc_layout doc)\<rparr>)"

fun place_entries :: "placements \<Rightarrow> (string \<times> rat list option) list \<Rightarrow> placements" where
  "place_entries ps [] = ps"
| "place_entries ps ((i, c) # es) =
     place_entries (case c of None \<Rightarrow> AList.delete i ps | Some ns \<Rightarrow> AList.update i ns ps) es"

fun placed :: "(string \<times> placements) list \<Rightarrow> (string \<times> (string \<times> rat list option) list) list
    \<Rightarrow> (string \<times> placements) list" where
  "placed lay [] = lay"
| "placed lay ((coll, es) # rest) =
     placed (AList.update coll (place_entries (block_of lay coll) es) lay) rest"

section \<open>The edit as a whole\<close>

definition removed_parts :: "pad_edit \<Rightarrow> scratchpad \<Rightarrow> (pad_edit_error, scratchpad) result" where
  "removed_parts e s =
     edit_result (lift_pad (bind_result
       (run_all (\<lambda>i t. without_note t i) (entries (edit_remove e) ''notes'') s) (\<lambda>t.
        run_all (\<lambda>i u. without_link u i) (entries (edit_remove e) ''links'') t)))"

definition apply_edit :: "scratchpad \<Rightarrow> pad_edit \<Rightarrow> (pad_edit_error, scratchpad) result" where
  "apply_edit stored e =
     bind_result (validate_edit e) (\<lambda>_.
     bind_result (removed_parts e stored) (\<lambda>working.
     bind_result (run_all (\<lambda>coll. without_rows coll (entries (edit_remove e) coll)) [''areas'', ''groups'']
                    (to_document working)) (\<lambda>doc1.
     let doc2 = fold (\<lambda>coll. unplaced coll (entries (edit_remove e) coll)) PLACED doc1 in
     bind_result (run_all (\<lambda>coll doc. if entries (edit_upsert e) coll = [] then Ok doc
                                  else upserted doc coll (entries (edit_upsert e) coll)) COLLECTIONS doc2)
       (\<lambda>doc3.
       let doc4 = (if edit_layout e = [] then doc3
                   else doc3\<lparr>doc_layout := placed (doc_layout doc3) (edit_layout e)\<rparr>) in
       edit_result (from_document doc4 (Some (artifact_id stored)))))))"

end
