(* ===== verification/Scratchpad_Document_Properties.thy ===== *)
theory Scratchpad_Document_Properties
  imports Scratchpad_Round_Trip Scratchpad_Edit
begin

text \<open>
  The properties of scratchpad documents: what a written document and a served one give back when
  they are read, which scratchpads cannot be served, and the agreement of a removing edit with the
  aggregate's own removals.
\<close>

section \<open>Helpers\<close>

lemma from_document_own_id:
  assumes "document_kept s"
  shows "from_document (to_document s) (Some (artifact_id s)) = from_document (to_document s) None"
  by (simp add: from_document_def Let_def document_texts(1) [OF assms])

lemma without_note_keeps:
  assumes "without_note s i = Ok t"
  shows "artifact_id t = artifact_id s \<and> note_points (pad_layout t) = (note_points (pad_layout s))(i := None)"
  using assms by (auto simp: without_note_def validated_eq_Inr split: option.splits)

lemma without_link_keeps:
  assumes "without_link s i = Ok t"
  shows "artifact_id t = artifact_id s \<and> pad_layout t = pad_layout s"
  using assms by (auto simp: without_link_def validated_eq_Inr split: if_splits)

lemma without_notes_keep:
  assumes "run_all (\<lambda>i t. without_note t i) ns s = Ok t"
  shows "artifact_id t = artifact_id s \<and>
    note_points (pad_layout t) = (\<lambda>k. if k \<in> set ns then None else note_points (pad_layout s) k)"
  using assms
proof (induction ns arbitrary: s)
  case (Cons i ns)
  then obtain u where u: "without_note s i = Ok u" "run_all (\<lambda>i t. without_note t i) ns u = Ok t"
    by (auto simp: bind_result_eq_Inr)
  then show ?case using Cons.IH [OF u(2)] without_note_keeps [OF u(1)] by (auto simp: fun_eq_iff)
qed simp

lemma without_links_keep:
  assumes "run_all (\<lambda>i t. without_link t i) ls s = Ok t"
  shows "artifact_id t = artifact_id s \<and> pad_layout t = pad_layout s"
  using assms
proof (induction ls arbitrary: s)
  case (Cons i ls)
  then obtain u where u: "without_link s i = Ok u" "run_all (\<lambda>i t. without_link t i) ls u = Ok t"
    by (auto simp: bind_result_eq_Inr)
  then show ?case using Cons.IH [OF u(2)] without_link_keeps [OF u(1)] by simp
qed simp

lemma removed_ok:
  assumes "pad_ok s" and "run_all (\<lambda>i t. without_note t i) ns s = Ok u"
    and "run_all (\<lambda>i t. without_link t i) ls u = Ok t"
  shows "pad_ok t"
proof -
  have "pad_ok u" using assms(1,2)
    by (induction ns arbitrary: s) (auto simp: bind_result_eq_Inr without_note_def validated_eq_Inr split: option.splits)
  then show ?thesis using assms(3)
    by (induction ls arbitrary: u) (auto simp: bind_result_eq_Inr without_link_def validated_eq_Inr split: if_splits)
qed

lemma block_of_notes:
  "block_of (layout_document l) ''notes'' = map (\<lambda>(k, p). (k, point_numbers p)) (sorted_entries (note_points l))"
  by (simp add: block_of_def layout_document_def)

lemma update_present: "map_of d k = Some v \<Longrightarrow> AList.update k v d = d"
  by (induction d) (auto split: if_splits)

lemma block_of_update_same: "block_of lay k \<noteq> [] \<Longrightarrow> AList.update k (block_of lay k) lay = lay"
  by (rule update_present) (auto simp: block_of_def split: option.splits)

lemma unplaced_already:
  assumes "finite (dom (note_points (pad_layout t)))" and "\<forall>i \<in> set ns. note_points (pad_layout t) i = None"
  shows "unplaced ''notes'' ns (to_document t) = to_document t"
proof -
  let ?block = "block_of (doc_layout (to_document t)) ''notes''"
  have lay: "doc_layout (to_document t) = layout_document (pad_layout t)"
    by (simp add: to_document_def)
  have "filter (\<lambda>(k, _). k \<notin> set ns) ?block = ?block"
    using assms by (fastforce simp: lay block_of_notes sorted_entries_def filter_id_conv)
  then show ?thesis by (simp add: unplaced_def Let_def block_of_update_same)
qed

definition removal :: "string list \<Rightarrow> string list \<Rightarrow> pad_edit" where
  "removal ns ls = \<lparr>edit_remove = [(''notes'', ns), (''links'', ls)], edit_upsert = [], edit_layout = []\<rparr>"

section \<open>Properties\<close>


text \<open>
  Claim C38. A scratchpad that was served and is handed back unchanged is stored as it was, in id
  order, except that every frame has lost the element types it names.
\<close>

theorem handed_back_frames_lose_their_types:
  assumes kept: "document_kept s" and ok: "pad_ok s"
    and named: "ontology_domains modules (meta_ontology s) [] = None"
    and served: "to_response modules say s grp = Ok doc"
  shows "from_request_document doc (artifact_id s) = Ok (unnamed (tidied s))"
proof -
  let ?d = "with_declared_permits (doc_fields doc)"
  obtain nts lks where doc: "doc = (to_document s)\<lparr>doc_fields := put_rows ''links'' lks (put_rows ''notes'' nts
       (put_rows ''areas'' (map (served_area modules (meta_ontology s)) (sort_key area_id (pad_areas s)))
         (AList.update ''group'' (PStr grp) (doc_fields (to_document s)))))\<rparr>"
    using served by (rule response_fields)
  have other: "get_or ?d k PNone = get_or (doc_fields doc) k PNone" if "k \<noteq> ''areas''" for k
    using that by (rule get_or_declared)
  have plain: "get_or ?d k PNone = get_or (doc_fields (to_document s)) k PNone"
    if "k \<notin> {''areas'', ''notes'', ''links'', ''group''}" for k
    using that by (simp add: doc get_or_declared get_or_put_rows get_or_put)
  note rows = handed_back_rows [OF served kept named]
  have layout: "read_layout (doc_layout doc) = Ok (pad_layout s)" "snapped (pad_layout s) = pad_layout s"
    using kept by (simp_all add: doc to_document_def document_kept_def read_layout_written on_grid_def)
  have whole: "\<lparr>artifact_id = artifact_id s, pad_name = pad_name s, description = description s,
      version = version s, status = status s, meta_ontology = meta_ontology s, attributes = attributes s,
      pad_areas = map unnamed_types (sort_key area_id (pad_areas s)),
      pad_notes = sort_key note_id (pad_notes s), pad_links = sort_key link_id (pad_links s),
      pad_groups = map (\<lambda>g. g\<lparr>members := sort (members g)\<rparr>) (sort_key group_id (pad_groups s)),
      pad_layout = pad_layout s\<rparr> = unnamed (tidied s)"
    by (cases s) (simp add: tidied_def unnamed_def)
  have texts: "text_or ?d k t = text_or (doc_fields (to_document s)) k t"
      "mapping_or ?d k = mapping_or (doc_fields (to_document s)) k"
    if "k \<notin> {''areas'', ''notes'', ''links'', ''group''}" for k t
    using readers_cong [OF plain [OF that]] by simp_all
  have others: "dict_rows ?d k = dict_rows (doc_fields doc) k" if "k \<noteq> ''areas''" for k
    by (rule readers_cong [OF other [OF that]])
  note reading = from_request_document_def from_document_def rows others texts layout
    document_texts [OF kept] scratchpad_from_parts_def or_default_def validated_ok lift_pad_def
  show ?thesis
  proof (cases "artifact_id s = []")
    case True
    then show ?thesis
      using unnamed_ok [OF tidied_ok [OF ok]] by (simp add: reading whole [unfolded True])
  next
    case False
    then show ?thesis
      using unnamed_ok [OF tidied_ok [OF ok]] by (simp add: reading whole)
  qed
qed

text \<open>
  Claim C23. An edit that removes notes and links is the aggregate's own removals: it succeeds when
  they do and gives the scratchpad they give, in id order.
\<close>

theorem removing_edits_are_the_aggregates:
  assumes ok: "pad_ok s" and some: "ns \<noteq> [] \<or> ls \<noteq> []"
    and removed_notes: "run_all (\<lambda>i t. without_note t i) ns s = Ok u"
    and removed_links: "run_all (\<lambda>i t. without_link t i) ls u = Ok t" and kept: "document_kept t"
  shows "apply_edit s (removal ns ls) = Ok (tidied t)"
proof -
  have own: "artifact_id t = artifact_id s" and gone: "\<forall>i \<in> set ns. note_points (pad_layout t) i = None"
    using without_notes_keep [OF removed_notes] without_links_keep [OF removed_links] by simp_all
  have valid: "validate_edit (removal ns ls) = Ok ()"
    using some by (auto simp: validate_edit_def removal_def unknown_keys_def COLLECTIONS_def PLACED_def
        entries_def edit_result_def touches_anything_def)
  have removed: "removed_parts (removal ns ls) s = Ok t"
    by (simp add: removed_parts_def removal_def entries_def removed_notes removed_links lift_pad_def edit_result_def)
  have "unplaced ''notes'' ns (to_document t) = to_document t"
    using kept gone by (intro unplaced_already) (simp_all add: document_kept_def finite_layout_def)
  then have "fold (\<lambda>coll. unplaced coll (entries (edit_remove (removal ns ls)) coll)) PLACED (to_document t) = to_document t"
    by (simp add: PLACED_def removal_def entries_def) (simp add: unplaced_def)
  moreover have "from_document (to_document t) (Some (artifact_id s)) = Ok (tidied t)"
    using from_document_own_id [OF kept] own from_written_parts [OF kept removed_ok [OF ok removed_notes removed_links]]
    by simp
  moreover have "run_all (\<lambda>coll. without_rows coll (entries (edit_remove (removal ns ls)) coll)) [''areas'', ''groups'']
      (to_document t) = Ok (to_document t)"
    by (simp add: removal_def entries_def without_rows_def)
  moreover have "run_all (\<lambda>coll doc. if entries (edit_upsert (removal ns ls)) coll = [] then Ok doc
      else upserted doc coll (entries (edit_upsert (removal ns ls)) coll)) COLLECTIONS (to_document t) = Ok (to_document t)"
    by (simp add: removal_def entries_def COLLECTIONS_def)
  moreover have "edit_layout (removal ns ls) = []" by (simp add: removal_def)
  ultimately show ?thesis
    by (simp add: apply_edit_def valid removed Let_def edit_result_def)
qed

text \<open>A note without an id is coherent and can be stored, but no scratchpad that holds one can be served.\<close>

lemma idless_note_is_never_served:
  assumes "n \<in> set (pad_notes s)" and "note_id n = []"
  shows "\<exists>e. to_response modules say s grp = Err e"
proof (cases "traverse (served_note (ontology_domains modules (meta_ontology s)) s) (sort_key note_id (pad_notes s))")
  case (Inl e)
  then show ?thesis by (simp add: to_response_def Let_def)
next
  case (Inr nts)
  have "n \<in> set (sort_key note_id (pad_notes s))" using assms(1) by simp
  then obtain row where "served_note (ontology_domains modules (meta_ontology s)) s n = Ok row"
    using traverse_dom [OF Inr] by blast
  then show ?thesis using assms(2) by (simp add: served_note_def)
qed

section \<open>Witnesses\<close>

text \<open>A canvas whose frame names an element type, and the same canvas without its first note.\<close>

definition bare_layout :: layout where
  "bare_layout = \<lparr>area_rects = Map.empty, note_points = Map.empty, group_rects = Map.empty\<rparr>"

definition typed_canvas :: scratchpad where
  "typed_canvas = sample_pad\<lparr>pad_areas := [(frame ''big'')\<lparr>permitted_element_types := [''goal'']\<rparr>],
     pad_groups := [], pad_layout := bare_layout\<rparr>"

definition shorter_canvas :: scratchpad where
  "shorter_canvas = typed_canvas\<lparr>pad_notes := [bound_note, document_note], pad_links := []\<rparr>"

lemmas canvas_defs = shorter_canvas_def typed_canvas_def bare_layout_def sample_defs

lemma canvases_ok: "pad_ok typed_canvas" "pad_ok shorter_canvas"
  by (simp_all add: pad_ok_def notes_ok_def note_ok_def links_ok_def groups_ok_def canvas_defs
      DESTINATIONS_def py_strip_eq_Nil_iff is_bound_def bound_artifact_def is_py_space_def)

lemma canvases_kept: "document_kept typed_canvas" "document_kept shorter_canvas"
proof -
  have "snapped bare_layout = bare_layout" by (auto simp: snapped_def bare_layout_def)
  moreover have "pad_layout typed_canvas = bare_layout" "pad_layout shorter_canvas = bare_layout"
    by (simp_all add: typed_canvas_def shorter_canvas_def)
  ultimately have "on_grid typed_canvas" "on_grid shorter_canvas" by (simp_all add: on_grid_def)
  then show "document_kept typed_canvas" "document_kept shorter_canvas"
    by (simp_all add: document_kept_def note_kept_def link_kept_def ref_kept_def finite_layout_def canvas_defs
        DESTINATIONS_def)
qed

lemma canvases_tidied: "tidied typed_canvas = typed_canvas" "tidied shorter_canvas = shorter_canvas"
  by (simp_all add: tidied_def canvas_defs)


lemma canvas_served: "\<exists>doc. to_response [] (\<lambda>_. []) typed_canvas ''g'' = Ok doc"
proof -
  have "is_ok (traverse (served_note (ontology_domains [] (meta_ontology typed_canvas)) typed_canvas)
      (sort_key note_id (pad_notes typed_canvas)))" by code_simp
  moreover have "is_ok (traverse (served_link [] (\<lambda>_. []) typed_canvas) (sort_key link_id (pad_links typed_canvas)))"
    by code_simp
  ultimately show ?thesis by (auto simp: to_response_def Let_def is_ok_iff)
qed

lemma handed_back_frames_lose_their_types_witness:
  "\<exists>doc. to_response [] (\<lambda>_. []) typed_canvas ''g'' = Ok doc \<and>
     from_request_document doc ''PAD@1'' = Ok (unnamed typed_canvas) \<and> unnamed typed_canvas \<noteq> typed_canvas"
proof -
  obtain doc where doc: "to_response [] (\<lambda>_. []) typed_canvas ''g'' = Ok doc" using canvas_served by blast
  have "ontology_domains [] (meta_ontology typed_canvas) [] = None" by (simp add: ontology_domains_def module_for_def)
  then have "from_request_document doc (artifact_id typed_canvas) = Ok (unnamed (tidied typed_canvas))"
    using doc by (rule handed_back_frames_lose_their_types [OF canvases_kept(1) canvases_ok(1)])
  moreover have "artifact_id typed_canvas = ''PAD@1''" by (simp add: canvas_defs)
  moreover have "unnamed typed_canvas \<noteq> typed_canvas"
    by (simp add: unnamed_def unnamed_types_def canvas_defs)
  ultimately show ?thesis using doc by (simp add: canvases_tidied)
qed

lemma removing_edits_are_the_aggregates_witness:
  "apply_edit typed_canvas (removal [''a''] []) = Ok shorter_canvas"
proof -
  have "run_all (\<lambda>i t. without_note t i) [''a''] typed_canvas = Ok shorter_canvas"
    using canvases_ok(2) by (simp add: without_note_def find_note_def validated_ok canvas_defs)
  then show ?thesis
    using removing_edits_are_the_aggregates [OF canvases_ok(1), of "[''a'']" "[]" shorter_canvas shorter_canvas]
      canvases_kept(2) canvases_tidied(2) by simp
qed

end
