(* ===== verification/Lift_Writer.thy ===== *)
theory Lift_Writer
  imports Lift_Plan Update_Release
begin

text \<open>
  Performing a lift (\<^verbatim>\<open>src/infrastructure/scratchpad/bulk_write_lift.py\<close>): the plan becomes the items of
  one batch, and the answer of the batch becomes a receipt correlated back to the notes and links.
  The group registry, the batch writer and the diagram writer are arguments, each a function of the
  model repository, whose type is a parameter. Every one of them may raise.
\<close>

section \<open>What the writer calls\<close>

datatype batch_item =
    CreateEntity string string lift_label string "string option" "string list"
  | CreateDocument string string lift_label string "string option" "string list"
  | AddConnection string string string string

text \<open>
  The rows of a full answer, with an empty text where a row has no error or no artifact id.
\<close>

record batch_row =
  br_error :: string
  br_artifact :: string

record batch_answer =
  ba_rows :: "batch_row list"
  ba_committed :: bool
  ba_operation :: string

text \<open>The arguments of the diagram writer: its type, its name, the entities, the boxes and the group.\<close>

type_synonym diagram_request = "string \<times> lift_label \<times> string list \<times> lift_grouping list \<times> string"

record ('x, 'm) model_ports =
  project_ontology :: "'m \<Rightarrow> string \<Rightarrow> string option"
  register_project :: "string \<Rightarrow> string \<Rightarrow> string \<Rightarrow> string \<Rightarrow> 'm \<Rightarrow> ('x, unit) result \<times> 'm"
  write_batch :: "batch_item list \<Rightarrow> bool \<Rightarrow> 'm \<Rightarrow> ('x, batch_answer) result \<times> 'm"
  write_diagram :: "diagram_request \<Rightarrow> 'm \<Rightarrow> (string, string) result \<times> 'm"

datatype lift_failure =
    ItemFailed lift_label string
  | DiagramFailed lift_label string

record lift_receipt =
  lr_committed :: bool
  lr_realized :: "string \<rightharpoonup> string"
  lr_errors :: "lift_failure list"
  lr_operation :: string

definition no_receipt :: lift_receipt where
  "no_receipt = \<lparr>lr_committed = False, lr_realized = Map.empty, lr_errors = [], lr_operation = []\<rparr>"

section \<open>Translation\<close>

definition resolve_target :: "('x, 'm) model_ports \<Rightarrow> 'm \<Rightarrow> string \<Rightarrow> lift_target" where
  "resolve_target ports m grp =
     (if grp = [] then root_target
      else (case project_ontology ports m grp of
              None \<Rightarrow> \<lparr>lt_group = grp, lt_ontology = [], lt_exists = False\<rparr>
            | Some declared \<Rightarrow> \<lparr>lt_group = grp, lt_ontology = declared, lt_exists = True\<rparr>))"

definition unless_empty :: "string \<Rightarrow> string option" where
  "unless_empty s = (if s = [] then None else Some s)"

definition batch_item_of :: "lift_item \<Rightarrow> batch_item" where
  "batch_item_of i =
     (if li_kind i = LiftedElement
      then CreateEntity (li_id i) (li_type i) (li_label i) (li_target i) (unless_empty (li_summary i))
             (li_specializations i)
      else if li_kind i = LiftedDocument
      then CreateDocument (li_id i) (li_type i) (li_label i) (li_target i) (unless_empty (li_summary i))
             (li_refs i)
      else AddConnection (li_id i) (li_source i) (li_destination i) (li_type i))"

text \<open>The items of a batch: a reference is part of its document, and a diagram comes afterwards.\<close>

definition in_batch :: "lift_item \<Rightarrow> bool" where
  "in_batch i \<longleftrightarrow> li_kind i \<notin> {LiftedReference, LiftedDiagram}"

fun correlated :: "(lift_item \<times> batch_row) list \<Rightarrow> (string \<rightharpoonup> string) \<Rightarrow> lift_failure list
    \<Rightarrow> (string \<rightharpoonup> string) \<times> lift_failure list" where
  "correlated [] realized errors = (realized, errors)"
| "correlated ((i, row) # rest) realized errors =
     (if br_error row \<noteq> []
      then correlated rest realized (errors @ [ItemFailed (li_label i) (br_error row)])
      else if br_artifact row \<noteq> [] then correlated rest (realized(li_id i \<mapsto> br_artifact row)) errors
      else correlated rest realized errors)"

definition receipt_of :: "batch_answer \<Rightarrow> lift_item list \<Rightarrow> lift_receipt" where
  "receipt_of answer creates =
     (let (realized, errors) = correlated (zip (filter in_batch creates) (ba_rows answer)) Map.empty [] in
      \<lparr>lr_committed = ba_committed answer, lr_realized = realized, lr_errors = errors,
       lr_operation = ba_operation answer\<rparr>)"

section \<open>Projects\<close>

text \<open>
  \<^verbatim>\<open>str.capitalize()\<close>. The upper case of the sharp s, of the y with diaeresis and of the micro sign is
  not a Latin-1 character, so these three are left as they are.
\<close>

definition upper_char :: "char \<Rightarrow> char" where
  "upper_char c =
     (let n = of_char c :: nat in
      if (97 \<le> n \<and> n \<le> 122) \<or> (224 \<le> n \<and> n \<le> 254 \<and> n \<noteq> 247) then char_of (n - 32) else c)"

fun py_capitalize :: "string \<Rightarrow> string" where
  "py_capitalize [] = []"
| "py_capitalize (c # s) = upper_char c # py_lower s"

definition project_name :: "string \<Rightarrow> string" where
  "project_name grp =
     (let name = py_capitalize (py_strip (map (\<lambda>c. if c = CHR ''-'' then CHR '' '' else c) grp)) in
      if name = [] then grp else name)"

definition create_project ::
    "('x, 'm) model_ports \<Rightarrow> string \<Rightarrow> string \<Rightarrow> 'm \<Rightarrow> ('x, unit) result \<times> 'm" where
  "create_project ports grp ontology m =
     register_project ports grp (project_name grp) ''Created by a scratchpad lift.'' ontology m"

fun create_projects ::
    "('x, 'm) model_ports \<Rightarrow> string \<Rightarrow> lift_target list \<Rightarrow> 'm \<Rightarrow> ('x, unit) result \<times> 'm" where
  "create_projects ports ontology [] m = (Ok (), m)"
| "create_projects ports ontology (t # ts) m =
     (if lt_group t \<noteq> [] \<and> \<not> lt_exists t
      then (case create_project ports (lt_group t) ontology m of
              (Inl e, m') \<Rightarrow> (Err e, m')
            | (Inr _, m') \<Rightarrow> create_projects ports ontology ts m')
      else create_projects ports ontology ts m)"

section \<open>The diagram and the whole execution\<close>

definition realized_ref :: "(string \<rightharpoonup> string) \<Rightarrow> string \<Rightarrow> string" where
  "realized_ref realized ref =
     (case realized (remove_prefix ''$ref:'' ref) of
        Some a \<Rightarrow> a | None \<Rightarrow> ref)"

definition draw_view ::
    "('x, 'm) model_ports \<Rightarrow> lift_item \<Rightarrow> lift_plan \<Rightarrow> lift_receipt \<Rightarrow> 'm \<Rightarrow> lift_receipt \<times> 'm" where
  "draw_view ports item plan receipt m =
     (let resolve = realized_ref (lr_realized receipt) in
      case write_diagram ports (li_type item, li_label item, map resolve (li_refs item),
             map (\<lambda>g. g\<lparr>lg_members := map resolve (lg_members g)\<rparr>) (lp_groupings plan), li_target item) m of
        (Inl e, m') \<Rightarrow>
          (receipt\<lparr>lr_errors := lr_errors receipt @ [DiagramFailed (li_label item) e]\<rparr>, m')
      | (Inr allocated, m') \<Rightarrow>
          (if allocated = [] then receipt
           else receipt\<lparr>lr_realized := (lr_realized receipt)(li_id item \<mapsto> allocated)\<rparr>, m'))"

definition execute_lift ::
    "('x, 'm) model_ports \<Rightarrow> lift_plan \<Rightarrow> string \<Rightarrow> bool \<Rightarrow> 'm \<Rightarrow> ('x, lift_receipt) result \<times> 'm" where
  "execute_lift ports plan ontology dry_run m =
     (let creates = plan_of plan WouldCreate in
      if creates = [] then (Ok no_receipt, m)
      else (case (if dry_run then (Ok (), m) else create_projects ports ontology (lp_targets plan) m) of
        (Inl e, m1) \<Rightarrow> (Err e, m1)
      | (Inr _, m1) \<Rightarrow>
          (case write_batch ports (map batch_item_of (filter in_batch creates)) dry_run m1 of
            (Inl e, m2) \<Rightarrow> (Err e, m2)
          | (Inr answer, m2) \<Rightarrow>
              (let receipt = receipt_of answer creates in
               case List.find (\<lambda>i. li_kind i = LiftedDiagram) creates of
                 None \<Rightarrow> (Ok receipt, m2)
               | Some drawn \<Rightarrow>
                   if lr_committed receipt
                   then (let (drawn_receipt, m3) = draw_view ports drawn plan receipt m2 in
                         (Ok drawn_receipt, m3))
                   else (Ok receipt, m2)))))"

end
