(* ===== verification/Scratchpad_Store.thy ===== *)
theory Scratchpad_Store
  imports Scratchpad_Document
begin

text \<open>
  Scratchpads on disk (\<^verbatim>\<open>src/infrastructure/scratchpad/yaml_repository.py\<close>,
  \<^verbatim>\<open>src/application/scratchpad/ports.py\<close>). A file is the list of the names below the scratchpad
  folder and its text; a group is one folder name. The YAML writer and reader are the functions
  \<open>dump\<close> and \<open>parse\<close> of the operations, between documents and a type of texts; what a reload of broken
  YAML raises is not modelled. The store keeps the paths the index was told of, newest first.
\<close>

section \<open>Files and identities\<close>

definition SUFFIX :: string where
  "SUFFIX = ''.scratchpad.yaml''"

definition UNCATEGORIZED :: string where
  "UNCATEGORIZED = ''uncategorized''"

definition UNSTORED_VERSION :: string where
  "UNSTORED_VERSION = ''0.1.0''"

type_synonym pad_path = "string list"

record 't pad_store =
  pad_files :: "(pad_path \<times> 't) list"
  pads_reindexed :: "pad_path list list"

datatype store_error =
    NoScratchpad string
  | VersionMovedOn string "string option" string
  | SuperscriptVersion string
  | DocumentRefused document_error

definition stable_id :: "string \<Rightarrow> string" where
  "stable_id s =
     (if length (filter (\<lambda>c. c = CHR ''.'') s) = 1 then s
      else (case py_rpartition (CHR ''.'') s of (before, found, _) \<Rightarrow> if found then before else s))"

definition is_pad_file :: "pad_path \<Rightarrow> bool" where
  "is_pad_file p \<longleftrightarrow> p \<noteq> [] \<and> length SUFFIX \<le> length (last p) \<and>
     drop (length (last p) - length SUFFIX) (last p) = SUFFIX"

definition file_stem :: "pad_path \<Rightarrow> string" where
  "file_stem p = take (length (last p) - length SUFFIX) (last p)"

definition pad_paths :: "'t pad_store \<Rightarrow> pad_path list" where
  "pad_paths st = sort (filter is_pad_file (map fst (pad_files st)))"

definition names_pad :: "string \<Rightarrow> pad_path \<Rightarrow> bool" where
  "names_pad aid p \<longleftrightarrow> file_stem p = aid \<or> stable_id (file_stem p) = stable_id aid"

definition path_for :: "'t pad_store \<Rightarrow> string \<Rightarrow> pad_path option" where
  "path_for st aid = List.find (names_pad aid) (pad_paths st)"

definition text_of :: "'t pad_store \<Rightarrow> pad_path \<Rightarrow> 't" where
  "text_of st p = the (map_of (pad_files st) p)"

definition group_of_path :: "pad_path \<Rightarrow> string" where
  "group_of_path p = (case butlast p of [] \<Rightarrow> UNCATEGORIZED | folders \<Rightarrow> last folders)"

section \<open>Reading\<close>

definition load_pad ::
    "('t \<Rightarrow> pad_document) \<Rightarrow> string \<Rightarrow> 't pad_store \<Rightarrow> (store_error, scratchpad) result" where
  "load_pad parse aid st =
     (case path_for st aid of
        None \<Rightarrow> Err (NoScratchpad aid)
      | Some p \<Rightarrow> (case from_document (parse (text_of st p)) None of
                    Inl e \<Rightarrow> Err (DocumentRefused e) | Inr s \<Rightarrow> Ok s))"

definition group_of :: "string \<Rightarrow> 't pad_store \<Rightarrow> (store_error, string) result" where
  "group_of aid st =
     (case path_for st aid of None \<Rightarrow> Err (NoScratchpad aid) | Some p \<Rightarrow> Ok (group_of_path p))"

record pad_summary =
  sum_id :: string
  sum_name :: string
  sum_description :: string
  sum_status :: string
  sum_version :: string
  sum_group :: string
  sum_ontology :: string
  sum_notes :: nat

text \<open>\<^verbatim>\<open>len(raw.get("notes") or [])\<close>, for the values that have a length.\<close>

definition value_length :: "pyval \<Rightarrow> nat" where
  "value_length v = (case v of PList vs \<Rightarrow> length vs | PTuple vs \<Rightarrow> length vs | PStr s \<Rightarrow> length s
     | PDict m \<Rightarrow> length m | _ \<Rightarrow> 0)"

definition summary_of :: "('t \<Rightarrow> pad_document) \<Rightarrow> 't pad_store \<Rightarrow> pad_path \<Rightarrow> pad_summary option" where
  "summary_of parse st p =
     (let raw = parse (text_of st p); d = doc_fields raw in
      if d = [] \<and> doc_layout raw = [] then None
      else Some \<lparr>sum_id = text_or d ''artifact-id'' (file_stem p), sum_name = text_or d ''name'' [],
        sum_description = text_or d ''description'' [], sum_status = text_or d ''status'' ''draft'',
        sum_version = text_or d ''version'' ''0.1.0'', sum_group = group_of_path p,
        sum_ontology = text_or d ''meta-ontology'' ''archimate-4'',
        sum_notes = value_length (get_or d ''notes'' PNone)\<rparr>)"

definition list_scratchpads ::
    "('t \<Rightarrow> pad_document) \<Rightarrow> string option \<Rightarrow> string option \<Rightarrow> 't pad_store \<Rightarrow> pad_summary list" where
  "list_scratchpads parse grp wanted st =
     sort_key sum_id (filter (\<lambda>x. (grp = None \<or> grp = Some (sum_group x)) \<and>
         (wanted = None \<or> wanted = Some (sum_status x)))
       (List.map_filter (summary_of parse st) (pad_paths st)))"

section \<open>Writing\<close>

text \<open>\<^verbatim>\<open>str.isdigit()\<close> also holds of the superscript digits, which \<^verbatim>\<open>int\<close> then refuses.\<close>

definition counts_as_digit :: "char \<Rightarrow> bool" where
  "counts_as_digit c \<longleftrightarrow> is_digit c \<or> (of_char c :: nat) \<in> {178, 179, 185}"

definition bump :: "string \<Rightarrow> (store_error, string) result" where
  "bump v =
     (case py_split (CHR ''.'') v of
        [major, minor, patch] \<Rightarrow>
          if patch \<noteq> [] \<and> list_all counts_as_digit patch
          then (if list_all is_digit patch
                then Ok (major @ ''.'' @ minor @ ''.'' @ decimal (digits_number patch + 1))
                else Err (SuperscriptVersion patch))
          else Ok ''0.1.1''
      | _ \<Rightarrow> Ok ''0.1.1'')"

definition version_of :: "('t \<Rightarrow> pad_document) \<Rightarrow> 't \<Rightarrow> string" where
  "version_of parse t = text_or (doc_fields (parse t)) ''version'' UNSTORED_VERSION"

definition target_path :: "string \<Rightarrow> string \<Rightarrow> pad_path" where
  "target_path grp aid = (if grp = [] then [aid @ SUFFIX] else [grp, aid @ SUFFIX])"

definition put_pad_file :: "pad_path \<Rightarrow> 't \<Rightarrow> 't pad_store \<Rightarrow> 't pad_store" where
  "put_pad_file p t st = st\<lparr>pad_files := AList.update p t (pad_files st)\<rparr>"

definition drop_file :: "pad_path \<Rightarrow> 't pad_store \<Rightarrow> 't pad_store" where
  "drop_file p st = st\<lparr>pad_files := AList.delete p (pad_files st)\<rparr>"

definition reindex :: "pad_path list \<Rightarrow> 't pad_store \<Rightarrow> 't pad_store" where
  "reindex ps st = (if ps = [] then st else st\<lparr>pads_reindexed := ps # pads_reindexed st\<rparr>)"

definition current_pad :: "scratchpad \<Rightarrow> string option \<Rightarrow> scratchpad" where
  "current_pad s stored = s\<lparr>version := (case stored of None \<Rightarrow> UNSTORED_VERSION | Some v \<Rightarrow> v),
                           pad_layout := snapped (pad_layout s)\<rparr>"

definition save_pad ::
    "(pad_document \<Rightarrow> 't) \<Rightarrow> ('t \<Rightarrow> pad_document) \<Rightarrow> scratchpad \<Rightarrow> string \<Rightarrow> string option \<Rightarrow> 't pad_store
      \<Rightarrow> (store_error, scratchpad) result \<times> 't pad_store" where
  "save_pad dump parse s grp expected st =
     (let existing = path_for st (artifact_id s);
          on_disk = map_option (text_of st) existing;
          stored_version = map_option (version_of parse) on_disk in
      if stored_version \<noteq> None \<and> expected \<noteq> stored_version
      then (Err (VersionMovedOn (artifact_id s) expected (the stored_version)), st)
      else (let current = current_pad s stored_version in
        case validate current of
          Inl e \<Rightarrow> (Err (DocumentRefused (PadRefused e)), st)
        | Inr _ \<Rightarrow>
            (let place = target_path grp (artifact_id current) in
             if existing = Some place \<and> on_disk = Some (dump (to_document current)) then (Ok current, st)
             else (case bump (version current) of
               Inl e \<Rightarrow> (Err e, st)
             | Inr v \<Rightarrow>
                (let stored = current\<lparr>version := v\<rparr>;
                     written = put_pad_file place (dump (to_document stored)) st;
                     moved_store = (case existing of
                        Some p \<Rightarrow> if p \<noteq> place then drop_file p written else written
                      | None \<Rightarrow> written) in
                 (Ok stored, reindex (place # (case existing of Some p \<Rightarrow> [p] | None \<Rightarrow> [])) moved_store))))))"

definition delete_pad :: "string \<Rightarrow> 't pad_store \<Rightarrow> (store_error, unit) result \<times> 't pad_store" where
  "delete_pad aid st =
     (case path_for st aid of
        None \<Rightarrow> (Err (NoScratchpad aid), st)
      | Some p \<Rightarrow> (Ok (), reindex [p] (drop_file p st)))"

end
