(* ===== verification/Scratchpad_Service.thy ===== *)
theory Scratchpad_Service
  imports Scratchpad_Store Scratchpad_Edit Lift_Writer
begin

text \<open>
  The service both surfaces drive (\<^verbatim>\<open>src/application/scratchpad/service.py\<close>), over the scratchpad files
  and the model repository. An operation returns its result and the world it leaves, whether it
  raises or not. The YAML functions, the registered ontologies and the writers of the model are
  arguments.
\<close>

section \<open>The world and the errors\<close>

record ('t, 'm) pad_world =
  pads :: "'t pad_store"
  model :: 'm

datatype 'x service_error =
    StoreFailed store_error
  | EditFailed pad_edit_error
  | PadInvalid scratchpad_error
  | PlanFailed catalog_error
  | WriterFailed 'x

record ('t, 'x, 'm) pad_service =
  yaml_dump :: "pad_document \<Rightarrow> 't"
  yaml_parse :: "'t \<Rightarrow> pad_document"
  ontologies :: "(string \<times> ontology_module) list"
  writer :: "('x, 'm) model_ports"

definition read_pad :: "('t, 'x, 'm) pad_service \<Rightarrow> string \<Rightarrow> ('t, 'm) pad_world \<Rightarrow> ('x service_error, scratchpad) result"
where
  "read_pad svc aid w = (case load_pad (yaml_parse svc) aid (pads w) of
     Inl e \<Rightarrow> Err (StoreFailed e) | Inr s \<Rightarrow> Ok s)"

definition store_pad ::
    "('t, 'x, 'm) pad_service \<Rightarrow> scratchpad \<Rightarrow> string \<Rightarrow> string option \<Rightarrow> ('t, 'm) pad_world
      \<Rightarrow> ('x service_error, scratchpad) result \<times> ('t, 'm) pad_world" where
  "store_pad svc s grp expected w =
     (case save_pad (yaml_dump svc) (yaml_parse svc) s grp expected (pads w) of
        (Inl e, st) \<Rightarrow> (Err (StoreFailed e), w\<lparr>pads := st\<rparr>)
      | (Inr s', st) \<Rightarrow> (Ok s', w\<lparr>pads := st\<rparr>))"

section \<open>Writes\<close>

definition DEFAULT_AREAS :: "(string \<times> string \<times> string list) list" where
  "DEFAULT_AREAS =
     [(''strategy'', ''Vision & strategy'', [''motivation'', ''strategy'']),
      (''portfolio'', ''Portfolio'', []), (''project'', ''Project'', []), (''enabling'', ''Enabling'', [])]"

definition area_rect :: "nat \<Rightarrow> rect" where
  "area_rect index = \<lparr>rx = 0, ry = of_nat index * (600 + 40), width = 1200, height = 600\<rparr>"

definition seeded_areas :: "area list" where
  "seeded_areas = map (\<lambda>(i, label, domains). \<lparr>area_id = i, area_label = label,
     permitted_domains = domains, permitted_element_types = [], permitted_document_types = []\<rparr>)
     DEFAULT_AREAS"

definition seeded_layout :: layout where
  "seeded_layout = empty_layout\<lparr>area_rects :=
     map_of (zip (map fst DEFAULT_AREAS) (map area_rect [0..<length DEFAULT_AREAS]))\<rparr>"

definition create_pad ::
    "('t, 'x, 'm) pad_service \<Rightarrow> string \<Rightarrow> string \<Rightarrow> string \<Rightarrow> string \<Rightarrow> string \<Rightarrow> bool \<Rightarrow> ('t, 'm) pad_world
      \<Rightarrow> ('x service_error, scratchpad) result \<times> ('t, 'm) pad_world" where
  "create_pad svc aid name grp about mo seed w =
     (case scratchpad_from_parts aid name (if seed then seeded_areas else []) [] [] []
             (Some (if seed then seeded_layout else empty_layout))
             \<lparr>rest_description = Some about, rest_version = None, rest_status = None,
              rest_meta_ontology = Some mo, rest_attributes = None\<rparr> of
        Inl e \<Rightarrow> (Err (PadInvalid e), w)
      | Inr s \<Rightarrow> store_pad svc s grp None w)"

definition replace_pad ::
    "('t, 'x, 'm) pad_service \<Rightarrow> scratchpad \<Rightarrow> string \<Rightarrow> string \<Rightarrow> ('t, 'm) pad_world
      \<Rightarrow> ('x service_error, scratchpad) result \<times> ('t, 'm) pad_world" where
  "replace_pad svc s grp expected w =
     (case validate s of
        Inl e \<Rightarrow> (Err (PadInvalid e), w)
      | Inr _ \<Rightarrow> store_pad svc s grp (Some expected) w)"

definition edit_pad ::
    "('t, 'x, 'm) pad_service \<Rightarrow> string \<Rightarrow> pad_edit \<Rightarrow> string \<Rightarrow> ('t, 'm) pad_world
      \<Rightarrow> ('x service_error, scratchpad) result \<times> ('t, 'm) pad_world" where
  "edit_pad svc aid e expected w =
     (case read_pad svc aid w of
        Inl err \<Rightarrow> (Err err, w)
      | Inr stored \<Rightarrow>
         (case apply_edit stored e of
            Inl err \<Rightarrow> (Err (EditFailed err), w)
          | Inr edited \<Rightarrow>
             (case group_of aid (pads w) of
                Inl err \<Rightarrow> (Err (StoreFailed err), w)
              | Inr grp \<Rightarrow> replace_pad svc edited grp expected w)))"

definition remove_pad ::
    "string \<Rightarrow> ('t, 'm) pad_world \<Rightarrow> ('x service_error, unit) result \<times> ('t, 'm) pad_world" where
  "remove_pad aid w =
     (case delete_pad aid (pads w) of
        (Inl e, st) \<Rightarrow> (Err (StoreFailed e), w\<lparr>pads := st\<rparr>)
      | (Inr u, st) \<Rightarrow> (Ok u, w\<lparr>pads := st\<rparr>))"

section \<open>Lifting\<close>

definition realized_as :: "string \<Rightarrow> model_ref" where
  "realized_as aid = \<lparr>ref_artifact_id = aid, ref_kind = ''realized''\<rparr>"

definition realized_note :: "(string \<rightharpoonup> string) \<Rightarrow> pad_note \<Rightarrow> pad_note" where
  "realized_note allocated n =
     (if truthy (allocated (note_id n))
      then n\<lparr>note_ref := Some (realized_as (the (allocated (note_id n))))\<rparr> else n)"

definition realized_link :: "(string \<rightharpoonup> string) \<Rightarrow> link \<Rightarrow> link" where
  "realized_link allocated l =
     (if truthy (allocated (link_id l))
      then l\<lparr>link_ref := Some (realized_as (the (allocated (link_id l))))\<rparr> else l)"

definition realized :: "scratchpad \<Rightarrow> (string \<rightharpoonup> string) \<Rightarrow> scratchpad" where
  "realized s allocated = s\<lparr>pad_notes := map (realized_note allocated) (pad_notes s),
                            pad_links := map (realized_link allocated) (pad_links s)\<rparr>"

definition planned_lift ::
    "('t, 'x, 'm) pad_service \<Rightarrow> scratchpad \<Rightarrow> string list \<Rightarrow> (string \<times> string) list \<Rightarrow> bool \<Rightarrow> 'm
      \<Rightarrow> (catalog_error, lift_plan) result" where
  "planned_lift svc s selection targets draw m =
     plan_lift s selection (\<lambda>a. map_option (resolve_target (writer svc) m) (map_of targets a))
       (verdict_source (ontologies svc) s) draw"

definition lift_notes ::
    "('t, 'x, 'm) pad_service \<Rightarrow> string \<Rightarrow> string list \<Rightarrow> (string \<times> string) list \<Rightarrow> string \<Rightarrow> bool \<Rightarrow> bool
      \<Rightarrow> ('t, 'm) pad_world
      \<Rightarrow> ('x service_error, lift_plan \<times> lift_receipt) result \<times> ('t, 'm) pad_world" where
  "lift_notes svc aid selection targets expected draw dry_run w =
     (case read_pad svc aid w of
        Inl e \<Rightarrow> (Err e, w)
      | Inr s \<Rightarrow>
         (case planned_lift svc s selection targets draw (model w) of
            Inl e \<Rightarrow> (Err (PlanFailed e), w)
          | Inr plan \<Rightarrow>
              if dry_run \<or> plan_blocks plan \<or> plan_is_empty plan then (Ok (plan, no_receipt), w)
              else (case execute_lift (writer svc) plan (meta_ontology s) False (model w) of
                (Inl e, m) \<Rightarrow> (Err (WriterFailed e), w\<lparr>model := m\<rparr>)
              | (Inr receipt, m) \<Rightarrow>
                  if \<not> lr_committed receipt then (Ok (plan, receipt), w\<lparr>model := m\<rparr>)
                  else (case group_of aid (pads w) of
                    Inl e \<Rightarrow> (Err (StoreFailed e), w\<lparr>model := m\<rparr>)
                  | Inr grp \<Rightarrow>
                     (case store_pad svc (realized s (lr_realized receipt)) grp (Some expected)
                             (w\<lparr>model := m\<rparr>) of
                        (Inl e, w') \<Rightarrow> (Err e, w')
                      | (Inr _, w') \<Rightarrow> (Ok (plan, receipt), w'))))))"

end
