(* ===== verification/Lift_Properties.thy ===== *)
theory Lift_Properties
  imports Lift_Writer Scratchpad_Properties Scratchpad_Service
begin

text \<open>
  What the items of a plan are: the outcome of each kind of item, the notes and links they stand
  for, and how a plan that is not blocked addresses the ends of its connections.
\<close>

section \<open>The parts of a plan\<close>

lemma item_row_simps [simp]:
  "li_kind (item_row k i x l) = k" "li_id (item_row k i x l) = i" "li_outcome (item_row k i x l) = x"
  "li_refs (item_row k i x l) = []" "li_source (item_row k i x l) = []"
  "li_destination (item_row k i x l) = []" "li_artifact (item_row k i x l) = []"
  by (simp_all add: item_row_def)

lemma note_item_simps [simp]: "li_id (note_item n t) = note_id n"
  by (simp add: note_item_def Let_def split: option.splits)

lemma note_item_refs [simp]: "li_refs (note_item n t) = []"
  by (simp add: note_item_def Let_def split: option.splits)

lemma note_item_kind:
  "li_kind (note_item n t) = (if note_ref n = None \<and> destination n = ''document''
     then LiftedDocument else LiftedElement)"
  by (simp add: note_item_def Let_def split: option.splits)

lemma note_item_outcome:
  "li_outcome (note_item n t) =
     (if note_ref n \<noteq> None then WouldSkip
      else if destination n = ''document'' \<and> truthy (document_type n) \<or>
              destination n = ''element'' \<and> truthy (element_type n) then WouldCreate
      else WouldRefuse)"
  by (auto simp: note_item_def Let_def split: option.splits)

lemma set_chosen [simp]:
  "set (chosen_notes s selection) = {n \<in> set (pad_notes s). note_id n \<in> set selection}"
  by (auto simp: chosen_notes_def)

lemma set_inner [simp]:
  "set (inner_links s inside) = {l \<in> set (pad_links s). source l \<in> inside \<and> target l \<in> inside}"
  by (auto simp: inner_links_def)

lemma find_some_id: "find_note s i = Some n \<Longrightarrow> note_id n = i"
  by (drule find_note_Some) simp

lemma reference_item_Some:
  assumes "reference_item s l label refs = Some it"
  shows "\<exists>a b. find_note s (source l) = Some a \<and> find_note s (target l) = Some b \<and>
    (destination a = ''document'' \<or> destination b = ''document'') \<and>
    li_kind it = LiftedReference \<and> li_id it = link_id l \<and> li_outcome it \<noteq> WouldRefuse \<and>
    (li_outcome it = WouldCreate \<longrightarrow> (\<exists>e \<in> {a, b}. destination e = ''element'' \<and>
       li_destination it = ref_of refs (note_id e)))"
proof (cases "find_note s (source l)")
  case None
  then show ?thesis using assms by (simp add: reference_item_def)
next
  case (Some a)
  note src = this
  show ?thesis
  proof (cases "find_note s (target l)")
    case None
    then show ?thesis using assms src by (simp add: reference_item_def)
  next
    case (Some b)
    then show ?thesis
      using assms src by (auto simp: reference_item_def Let_def split: if_splits option.splits)
  qed
qed

lemma reference_item_None:
  assumes "reference_item s l label refs = None" and "find_note s (source l) = Some a"
    and "find_note s (target l) = Some b"
  shows "destination a \<noteq> ''document''" and "destination b \<noteq> ''document''"
  using assms by (auto simp: reference_item_def Let_def split: if_splits option.splits)

lemma link_item_reference:
  "reference_item s l (link_label s l) refs = Some r \<Longrightarrow> link_item s verdict_of refs l = Ok r"
  by (simp add: link_item_def Let_def)

lemma link_item_connection:
  assumes "link_item s verdict_of refs l = Ok it" and "reference_item s l (link_label s l) refs = None"
  shows "li_id it = link_id l \<and> li_kind it = LiftedConnection \<and>
    (li_outcome it = WouldCreate \<longrightarrow>
      li_source it = ref_of refs (source l) \<and> li_destination it = ref_of refs (target l))"
  using assms
  by (cases "link_ref l"; cases "truthy (connection_type l)"; cases "verdict_of l")
    (auto simp: link_item_def Let_def split: if_splits)

lemma link_item_kind:
  assumes "link_item s verdict_of refs l = Ok it"
  shows "li_kind it \<in> {LiftedConnection, LiftedReference}"
proof (cases "reference_item s l (link_label s l) refs")
  case None
  then show ?thesis using link_item_connection [OF assms] by simp
next
  case (Some r)
  then have "it = r" using link_item_reference [OF Some, of verdict_of] assms by simp
  then show ?thesis using reference_item_Some [OF Some] by auto
qed

lemma link_item_realized:
  assumes "reference_item s l (link_label s l) refs = None" and "link_ref l = Some r"
  shows "\<exists>it. link_item s verdict_of refs l = Ok it \<and> li_outcome it = WouldSkip"
  using assms by (simp add: link_item_def Let_def)

section \<open>Plans that are made\<close>

definition plan_rows :: "scratchpad \<Rightarrow> string list \<Rightarrow> (string \<rightharpoonup> lift_target) \<Rightarrow> lift_item list \<Rightarrow> lift_item list" where
  "plan_rows s selection targets links =
     map (\<lambda>n. note_item n (target_for s targets n)) (chosen_notes s selection) @ links"

definition drawn_row :: "scratchpad \<Rightarrow> bool \<Rightarrow> lift_item list \<Rightarrow> lift_item list" where
  "drawn_row s draw items =
     (case (if draw then diagram_item s items else None) of None \<Rightarrow> [] | Some d \<Rightarrow> [d])"

abbreviation chosen_ids :: "scratchpad \<Rightarrow> string list \<Rightarrow> string set" where
  "chosen_ids s selection \<equiv> note_id ` set (chosen_notes s selection)"

lemma drawn_row_kind: "d \<in> set (drawn_row s draw items) \<Longrightarrow> li_kind d = LiftedDiagram"
  by (auto simp: drawn_row_def diagram_item_def Let_def split: if_splits)

lemma drawn_row_False [simp]: "drawn_row s False items = []"
  by (simp add: drawn_row_def)

lemma plan_lift_parts:
  assumes plan: "plan_lift s selection targets verdict_of draw = Ok plan" and none: "lp_refusal plan = None"
  shows "\<exists>links. traverse (link_item s verdict_of (endpoint_refs (chosen_notes s selection)))
       (inner_links s (chosen_ids s selection)) = Ok links \<and>
     lp_items plan = with_references (plan_rows s selection targets links) @
       drawn_row s draw (plan_rows s selection targets links) \<and>
     lp_outside plan = outside_links s (chosen_ids s selection)"
proof -
  let ?used = "map (target_for s targets) (chosen_notes s selection)"
  have "plan_refusal s selection ?used = None"
  proof (rule ccontr)
    assume "plan_refusal s selection ?used \<noteq> None"
    then show False using plan none by (auto simp: plan_lift_def Let_def)
  qed
  then show ?thesis
    using plan by (auto simp: plan_lift_def Let_def bind_result_eq_Inr plan_rows_def drawn_row_def)
qed

lemma with_references_mem:
  assumes "i \<in> set (with_references items)"
  shows "\<exists>j \<in> set items. i = j \<or> (\<exists>rs. i = j\<lparr>li_refs := rs\<rparr> \<and> li_kind j = LiftedDocument \<and>
      (\<forall>r \<in> set rs. \<exists>k \<in> set items. li_kind k = LiftedReference \<and> li_outcome k = WouldCreate \<and>
        r = li_destination k))"
proof (cases "filter (\<lambda>i. li_kind i = LiftedReference \<and> li_outcome i = WouldCreate) items = []")
  case True
  then show ?thesis using assms by (auto simp: with_references_def)
next
  case False
  then obtain j where j: "j \<in> set items" and i: "i = (if li_kind j = LiftedDocument \<and> li_outcome j = WouldCreate
      then j\<lparr>li_refs := map li_destination (filter (\<lambda>r. li_source r = ref_alias (li_id j))
        (filter (\<lambda>i. li_kind i = LiftedReference \<and> li_outcome i = WouldCreate) items))\<rparr> else j)"
    using assms by (auto simp: with_references_def Let_def)
  define rs where "rs = map li_destination (filter (\<lambda>r. li_source r = ref_alias (li_id j))
        (filter (\<lambda>i. li_kind i = LiftedReference \<and> li_outcome i = WouldCreate) items))"
  have "\<forall>r \<in> set rs. \<exists>k \<in> set items. li_kind k = LiftedReference \<and> li_outcome k = WouldCreate \<and> r = li_destination k"
    unfolding rs_def by auto
  moreover have "i = j \<or> i = j\<lparr>li_refs := rs\<rparr> \<and> li_kind j = LiftedDocument"
    using i by (simp add: rs_def)
  ultimately show ?thesis using j by blast
qed

lemma map_with_references:
  "map li_outcome (with_references items) = map li_outcome items"
  "map li_kind (with_references items) = map li_kind items"
  "map li_id (with_references items) = map li_id items"
  by (simp_all add: with_references_def Let_def)

section \<open>What lifting promises\<close>

text \<open>
  The properties of lifting: what a batch addresses, what a second lift has left to do, and what
  stays behind when the batch, or the save after it, is refused.
\<close>

subsection \<open>The addresses of a batch\<close>

text \<open>An address is an artifact one of the chosen notes already is, or the alias of an element the batch creates.\<close>

definition addressed :: "scratchpad \<Rightarrow> string list \<Rightarrow> lift_plan \<Rightarrow> string \<Rightarrow> bool" where
  "addressed s selection plan r \<longleftrightarrow>
     (\<exists>n \<in> set (chosen_notes s selection). \<exists>m. note_ref n = Some m \<and> r = ref_artifact_id m) \<or>
     (\<exists>e \<in> set (plan_of plan WouldCreate). li_kind e = LiftedElement \<and> r = ref_alias (li_id e))"

lemma endpoint_refs_chosen:
  assumes "pad_ok s" and "n \<in> set (chosen_notes s selection)"
  shows "endpoint_refs (chosen_notes s selection) (note_id n) = Some (endpoint_ref n)"
proof -
  have "distinct (map note_id (chosen_notes s selection))"
    using pad_ok_distinct [OF assms(1)]
    by (simp add: chosen_notes_def distinct_map_sort_key distinct_map_filter)
  then show ?thesis
    using assms(2) unfolding endpoint_refs_def by (intro map_of_is_SomeI) (auto simp: rev_map comp_def simp flip: rev_map)
qed

lemma plan_row_mem:
  assumes "plan_lift s selection targets verdict_of draw = Ok plan" and "lp_refusal plan = None"
    and "n \<in> set (chosen_notes s selection)" and "note_ref n \<noteq> None \<or> destination n \<noteq> ''document''"
  shows "note_item n (target_for s targets n) \<in> set (lp_items plan)"
proof -
  obtain links where items: "lp_items plan = with_references (plan_rows s selection targets links) @
      drawn_row s draw (plan_rows s selection targets links)"
    using plan_lift_parts [OF assms(1,2)] by blast
  have "note_item n (target_for s targets n) \<in> set (plan_rows s selection targets links)"
    using assms(3) by (auto simp: plan_rows_def)
  moreover have "li_kind (note_item n (target_for s targets n)) \<noteq> LiftedDocument"
    using assms(4) by (simp add: note_item_kind)
  ultimately show ?thesis
    unfolding items by (auto simp: with_references_def Let_def image_iff split: if_splits intro!: bexI)
qed

lemma chosen_addressed:
  assumes "plan_lift s selection targets verdict_of draw = Ok plan" and "\<not> plan_blocks plan"
    and "n \<in> set (chosen_notes s selection)" and "destination n \<noteq> ''document''"
  shows "addressed s selection plan (endpoint_ref n)"
proof (cases "note_ref n")
  case None
  have "note_item n (target_for s targets n) \<in> set (lp_items plan)"
    using plan_row_mem [OF assms(1) _ assms(3)] assms(2,4) by (simp add: plan_blocks_def)
  moreover from this have "li_outcome (note_item n (target_for s targets n)) \<noteq> WouldRefuse"
    using assms(2) by (auto simp: plan_blocks_def plan_of_def filter_empty_conv)
  ultimately have "note_item n (target_for s targets n) \<in> set (plan_of plan WouldCreate)"
    using None by (auto simp: plan_of_def note_item_outcome split: if_splits)
  then show ?thesis
    using None assms(4) by (auto simp: addressed_def endpoint_ref_def note_item_kind intro!: bexI)
next
  case (Some m)
  then show ?thesis using assms(3) by (auto simp: addressed_def endpoint_ref_def)
qed

text \<open>A link of the plan lies between two chosen notes.\<close>

lemma inner_ends:
  assumes "pad_ok s" and "l \<in> set (inner_links s (chosen_ids s selection))"
  obtains a b where "a \<in> set (chosen_notes s selection)" and "note_id a = source l"
    and "find_note s (source l) = Some a"
    and "b \<in> set (chosen_notes s selection)" and "note_id b = target l" and "find_note s (target l) = Some b"
proof -
  from assms(2) obtain a b where "a \<in> set (chosen_notes s selection)" "note_id a = source l"
      "b \<in> set (chosen_notes s selection)" "note_id b = target l" by auto
  moreover from this have "find_note s (source l) = Some a" "find_note s (target l) = Some b"
    using find_note_mem [OF assms(1), of a] find_note_mem [OF assms(1), of b] by auto
  ultimately show thesis using that by blast
qed

lemma link_row_addresses:
  assumes ok: "pad_ok s" and plan: "plan_lift s selection targets verdict_of draw = Ok plan"
    and free: "\<not> plan_blocks plan" and l: "l \<in> set (inner_links s (chosen_ids s selection))"
    and it: "link_item s verdict_of (endpoint_refs (chosen_notes s selection)) l = Ok it"
    and created: "li_outcome it = WouldCreate"
  shows "addressed s selection plan (li_destination it)"
    and "li_kind it = LiftedConnection \<Longrightarrow> addressed s selection plan (li_source it)"
proof -
  let ?refs = "endpoint_refs (chosen_notes s selection)"
  obtain a b where a: "a \<in> set (chosen_notes s selection)" "note_id a = source l" "find_note s (source l) = Some a"
    and b: "b \<in> set (chosen_notes s selection)" "note_id b = target l" "find_note s (target l) = Some b"
    using inner_ends [OF ok l] .
  have refs: "ref_of ?refs (note_id n) = endpoint_ref n" if "n \<in> {a, b}" for n
    using that a(1) b(1) endpoint_refs_chosen [OF ok] by (auto simp: ref_of_def)
  have "addressed s selection plan (li_destination it) \<and>
      (li_kind it = LiftedConnection \<longrightarrow> addressed s selection plan (li_source it))"
  proof (cases "reference_item s l (link_label s l) ?refs")
    case None
    have ends: "destination a \<noteq> ''document''" "destination b \<noteq> ''document''"
      using reference_item_None [OF None a(3) b(3)] .
    have "li_source it = endpoint_ref a" "li_destination it = endpoint_ref b"
      using link_item_connection [OF it None] created refs [of a] refs [of b] a(2) b(2) by simp_all
    then show ?thesis
      using chosen_addressed [OF plan free a(1) ends(1)] chosen_addressed [OF plan free b(1) ends(2)] by simp
  next
    case (Some r)
    then have "r = it" using it link_item_reference [OF Some, of verdict_of] by simp
    then obtain e where "e \<in> {a, b}" "destination e = ''element''" "li_destination it = ref_of ?refs (note_id e)"
        "li_kind it = LiftedReference"
      using reference_item_Some [OF Some] created a(3) b(3) by auto
    then show ?thesis
      using refs a(1) b(1) chosen_addressed [OF plan free, of e] by auto
  qed
  then show "addressed s selection plan (li_destination it)"
    and "li_kind it = LiftedConnection \<Longrightarrow> addressed s selection plan (li_source it)" by auto
qed

lemma traverse_mem:
  "\<lbrakk>traverse f xs = Ok ys; y \<in> set ys\<rbrakk> \<Longrightarrow> \<exists>x \<in> set xs. f x = Ok y"
  by (auto simp: traverse_eq_Inr list_all2_iff in_set_conv_nth set_zip) (metis in_set_conv_nth)

subsection \<open>What a lift addresses\<close>

text \<open>
  Claim C8. When a plan is not blocked, every address in the batch it becomes can be resolved: an
  end of a connection it creates, and a model file a created document refers to, is an artifact one
  of the chosen notes already is or the alias of an element of the same batch.
\<close>

theorem lift_batches_resolve:
  assumes ok: "pad_ok s" and plan: "plan_lift s selection targets verdict_of draw = Ok plan"
    and free: "\<not> plan_blocks plan" and i: "i \<in> set (plan_of plan WouldCreate)"
  shows "(li_kind i = LiftedConnection \<longrightarrow>
           addressed s selection plan (li_source i) \<and> addressed s selection plan (li_destination i)) \<and>
         (li_kind i = LiftedDocument \<longrightarrow> (\<forall>r \<in> set (li_refs i). addressed s selection plan r))"
proof -
  obtain links where links: "traverse (link_item s verdict_of (endpoint_refs (chosen_notes s selection)))
       (inner_links s (chosen_ids s selection)) = Ok links"
    and items: "lp_items plan = with_references (plan_rows s selection targets links) @
       drawn_row s draw (plan_rows s selection targets links)"
    using plan_lift_parts [OF plan] free by (auto simp: plan_blocks_def)
  have link_row: "li_outcome k = WouldCreate \<Longrightarrow> addressed s selection plan (li_destination k)"
      "li_outcome k = WouldCreate \<Longrightarrow> li_kind k = LiftedConnection \<Longrightarrow> addressed s selection plan (li_source k)"
    if "k \<in> set links" for k
    using traverse_mem [OF links that] link_row_addresses [OF ok plan free] by blast+
  have in_links: "k \<in> set links" if "k \<in> set (plan_rows s selection targets links)"
      "li_kind k \<in> {LiftedConnection, LiftedReference}" for k
    using that by (auto simp: plan_rows_def note_item_kind split: if_splits)
  have no_refs: "li_refs k = []" if "k \<in> set (plan_rows s selection targets links)" "li_kind k = LiftedDocument" for k
    using that traverse_mem [OF links, of k] by (auto simp: plan_rows_def dest!: link_item_kind)
  have created: "li_outcome i = WouldCreate" and mem: "i \<in> set (lp_items plan)"
    using i by (auto simp: plan_of_def)
  show ?thesis
  proof (cases "i \<in> set (drawn_row s draw (plan_rows s selection targets links))")
    case True
    then show ?thesis by (simp add: drawn_row_kind)
  next
    case False
    then have "i \<in> set (with_references (plan_rows s selection targets links))" using mem items by simp
    from with_references_mem [OF this] obtain j where j: "j \<in> set (plan_rows s selection targets links)"
      and "i = j \<or> (\<exists>rs. i = j\<lparr>li_refs := rs\<rparr> \<and> li_kind j = LiftedDocument \<and>
        (\<forall>r \<in> set rs. \<exists>k \<in> set (plan_rows s selection targets links).
           li_kind k = LiftedReference \<and> li_outcome k = WouldCreate \<and> r = li_destination k))"
      by blast
    then consider (same) "i = j" | (folded) rs where "i = j\<lparr>li_refs := rs\<rparr>" "li_kind j = LiftedDocument"
        "\<forall>r \<in> set rs. \<exists>k \<in> set (plan_rows s selection targets links).
           li_kind k = LiftedReference \<and> li_outcome k = WouldCreate \<and> r = li_destination k"
      by blast
    then show ?thesis
    proof cases
      case same
      then show ?thesis using j created link_row [OF in_links [OF j]] no_refs [OF j] by simp
    next
      case folded
      then show ?thesis using link_row(1) [OF in_links] by auto
    qed
  qed
qed

subsection \<open>What a second lift has left\<close>

lemma traverse_total:
  "\<forall>x \<in> set xs. \<exists>y. f x = Ok y \<and> P y \<Longrightarrow> \<exists>ys. traverse f xs = Ok ys \<and> (\<forall>y \<in> set ys. P y)"
  by (induction xs) auto

lemma realized_note_simps [simp]:
  "note_id (realized_note al n) = note_id n" "destination (realized_note al n) = destination n"
  by (simp_all add: realized_note_def)

lemma realized_link_simps [simp]:
  "link_id (realized_link al l) = link_id l" "source (realized_link al l) = source l"
  "target (realized_link al l) = target l"
  by (simp_all add: realized_link_def)

lemma realized_note_ref: "note_ref n \<noteq> None \<or> truthy (al (note_id n)) \<Longrightarrow> note_ref (realized_note al n) \<noteq> None"
  by (auto simp: realized_note_def)

lemma realized_link_ref: "link_ref l \<noteq> None \<or> truthy (al (link_id l)) \<Longrightarrow> link_ref (realized_link al l) \<noteq> None"
  by (auto simp: realized_link_def)

lemma chosen_realized:
  "set (chosen_notes (realized s al) selection) = realized_note al ` set (chosen_notes s selection)"
  by (auto simp: realized_def)

lemma chosen_ids_realized: "chosen_ids (realized s al) selection = chosen_ids s selection"
  unfolding chosen_realized by (simp only: image_image realized_note_simps)

lemma inner_realized: "set (inner_links (realized s al) ids) = realized_link al ` set (inner_links s ids)"
  by (auto simp: realized_def)

text \<open>What an unblocked plan says of the notes and links it covers, when no chosen note is a document.\<close>

lemma chosen_note_settled:
  assumes plan: "plan_lift s selection targets verdict_of draw = Ok plan" and free: "\<not> plan_blocks plan"
    and n: "n \<in> set (chosen_notes s selection)" "destination n \<noteq> ''document''"
  shows "note_ref n \<noteq> None \<or> (\<exists>i \<in> set (plan_of plan WouldCreate). in_batch i \<and> li_id i = note_id n)"
proof (cases "note_ref n = None")
  case True
  let ?i = "note_item n (target_for s targets n)"
  have mem: "?i \<in> set (lp_items plan)"
    using plan_row_mem [OF plan _ n(1)] free n(2) by (simp add: plan_blocks_def)
  then have "li_outcome ?i \<noteq> WouldRefuse"
    using free by (auto simp: plan_blocks_def plan_of_def filter_empty_conv)
  then have "li_outcome ?i = WouldCreate" using True by (simp add: note_item_outcome split: if_splits)
  then have "?i \<in> set (plan_of plan WouldCreate)" using mem by (simp add: plan_of_def)
  moreover have "in_batch ?i" using n(2) by (simp add: in_batch_def note_item_kind)
  ultimately show ?thesis by (auto intro!: bexI)
qed simp

lemma inner_link_settled:
  assumes ok: "pad_ok s" and plan: "plan_lift s selection targets verdict_of draw = Ok plan"
    and free: "\<not> plan_blocks plan" and l: "l \<in> set (inner_links s (chosen_ids s selection))"
    and plain: "\<forall>n \<in> set (chosen_notes s selection). destination n \<noteq> ''document''"
  shows "link_ref l \<noteq> None \<or> (\<exists>i \<in> set (plan_of plan WouldCreate). in_batch i \<and> li_id i = link_id l)"
proof (cases "link_ref l = None")
  case True
  let ?refs = "endpoint_refs (chosen_notes s selection)"
  obtain links where links: "traverse (link_item s verdict_of ?refs)
       (inner_links s (chosen_ids s selection)) = Ok links"
    and items: "lp_items plan = with_references (plan_rows s selection targets links) @
       drawn_row s draw (plan_rows s selection targets links)"
    using plan_lift_parts [OF plan] free by (auto simp: plan_blocks_def)
  obtain it where it: "it \<in> set links" "link_item s verdict_of ?refs l = Ok it"
    using traverse_dom [OF links l] by blast
  obtain a b where "a \<in> set (chosen_notes s selection)" "find_note s (source l) = Some a"
      "b \<in> set (chosen_notes s selection)" "find_note s (target l) = Some b"
    using inner_ends [OF ok l] by metis
  then have none: "reference_item s l (link_label s l) ?refs = None"
    using plain reference_item_Some [of s l "link_label s l" ?refs]
    by (cases "reference_item s l (link_label s l) ?refs") fastforce+
  have kind: "li_id it = link_id l" "li_kind it = LiftedConnection"
    using link_item_connection [OF it(2) none] by simp_all
  have "it \<in> set (plan_rows s selection targets links)" using it(1) by (simp add: plan_rows_def)
  then have mem: "it \<in> set (lp_items plan)"
    unfolding items using kind(2) by (auto simp: with_references_def Let_def image_iff split: if_splits intro!: bexI)
  then have "li_outcome it \<noteq> WouldRefuse"
    using free by (auto simp: plan_blocks_def plan_of_def filter_empty_conv)
  moreover have "li_outcome it \<noteq> WouldSkip"
    using it(2) True none by (auto simp: link_item_def Let_def bind_result_eq_Inr split: if_splits)
  ultimately have "li_outcome it = WouldCreate" by (cases "li_outcome it") auto
  then have "it \<in> set (plan_of plan WouldCreate)" using mem by (simp add: plan_of_def)
  then show ?thesis using kind by (auto simp: in_batch_def intro!: bexI)
qed simp

lemma all_rows_skipped:
  assumes "\<forall>i \<in> set (plan_rows s selection targets links). li_outcome i = WouldSkip"
  shows "filter (\<lambda>i. li_outcome i = WouldCreate) (with_references (plan_rows s selection targets links)) = []"
proof -
  have "map li_outcome (with_references (plan_rows s selection targets links)) =
      map li_outcome (plan_rows s selection targets links)" by (rule map_with_references)
  then have "li_outcome ` set (with_references (plan_rows s selection targets links)) \<subseteq> {WouldSkip}"
    using assms by (metis image_subset_iff insertI1 list.set_map)
  then show ?thesis by (auto simp: filter_empty_conv)
qed


subsection \<open>A sample lift\<close>

definition lifted_note :: pad_note where
  "lifted_note = (plain_note ''a'' ''Accounts'')\<lparr>destination := ''element'', element_type := Some ''capability''\<rparr>"

definition reference_link :: link where
  "reference_link = \<lparr>link_id = ''r'', source = ''a'', target = ''d'', connection_type = None, link_ref = None\<rparr>"

definition lift_pad_sample :: scratchpad where
  "lift_pad_sample = sample_pad\<lparr>pad_areas := [], pad_notes := [lifted_note, bound_note, document_note],
     pad_links := [sample_link, reference_link], pad_groups := [], pad_layout := empty_layout\<rparr>"

lemmas lift_sample_defs = lift_pad_sample_def lifted_note_def reference_link_def empty_layout_def sample_defs

lemma lift_sample_ok: "pad_ok lift_pad_sample"
  by (simp add: pad_ok_def notes_ok_def note_ok_def links_ok_def groups_ok_def lift_sample_defs
      DESTINATIONS_def py_strip_eq_Nil_iff is_bound_def bound_artifact_def is_py_space_def)

definition allowed :: "link \<Rightarrow> (catalog_error, link_verdict) result" where
  "allowed l = Ok (verdict Permitted)"

definition lift_sample_plan :: lift_plan where
  "lift_sample_plan = (case plan_lift lift_pad_sample [''a'', ''b'', ''d''] Map.empty allowed True of
     Inr p \<Rightarrow> p | Inl _ \<Rightarrow> \<lparr>lp_targets = [], lp_items = [], lp_outside = [], lp_refusal = None, lp_groupings = []\<rparr>)"

lemma lift_sample_planned:
  "plan_lift lift_pad_sample [''a'', ''b'', ''d''] Map.empty allowed True = Ok lift_sample_plan"
  by code_simp

lemma lift_sample_free: "\<not> plan_blocks lift_sample_plan"
  by code_simp

lemma lift_batches_resolve_witness:
  "li_kind (plan_of lift_sample_plan WouldCreate ! 2) = LiftedConnection \<and>
   addressed lift_pad_sample [''a'', ''b'', ''d''] lift_sample_plan (li_source (plan_of lift_sample_plan WouldCreate ! 2)) \<and>
   addressed lift_pad_sample [''a'', ''b'', ''d''] lift_sample_plan
     (li_destination (plan_of lift_sample_plan WouldCreate ! 2))"
proof -
  have kind: "li_kind (plan_of lift_sample_plan WouldCreate ! 2) = LiftedConnection" by code_simp
  have "2 < length (plan_of lift_sample_plan WouldCreate)" by code_simp
  then have "plan_of lift_sample_plan WouldCreate ! 2 \<in> set (plan_of lift_sample_plan WouldCreate)" by (rule nth_mem)
  then show ?thesis
    using lift_batches_resolve [OF lift_sample_ok lift_sample_planned lift_sample_free] kind by blast
qed

definition second_sample_plan :: lift_plan where
  "second_sample_plan = (case plan_lift lift_pad_sample [''a'', ''b''] Map.empty allowed False of
     Inr p \<Rightarrow> p | Inl _ \<Rightarrow> lift_sample_plan)"


end
