(* ===== verification/Scratchpad_Service_Properties.thy ===== *)
theory Scratchpad_Service_Properties
  imports Scratchpad_Round_Trip Lift_Properties
begin

text \<open>
  The properties of the scratchpad store and of the service over it: a saved scratchpad is read
  back, and what a lift leaves behind when the save or the batch is refused.
\<close>

section \<open>The files of a store\<close>

lemma find_unique:
  assumes "x \<in> set xs" and "P x" and "\<forall>y \<in> set xs. P y \<longrightarrow> y = x"
  shows "List.find P xs = Some x"
proof (cases "List.find P xs")
  case None
  then show ?thesis using assms(1,2) by (simp add: find_None_iff)
next
  case (Some y)
  then have "y \<in> set xs \<and> P y" by (auto simp: find_Some_iff)
  with Some show ?thesis using assms(3) by simp
qed

lemma path_for_Some: "path_for st aid = Some p \<Longrightarrow> p \<in> set (pad_paths st) \<and> names_pad aid p"
  by (auto simp: path_for_def find_Some_iff)

lemma path_for_None: "path_for st aid = None \<longleftrightarrow> (\<forall>p \<in> set (pad_paths st). \<not> names_pad aid p)"
  by (auto simp: path_for_def find_None_iff)

lemma mem_pad_paths: "p \<in> set (pad_paths st) \<longleftrightarrow> is_pad_file p \<and> p \<in> fst ` set (pad_files st)"
  by (auto simp: pad_paths_def)

lemma target_path_file [simp]:
  "is_pad_file (target_path grp aid)" "names_pad aid (target_path grp aid)"
  by (auto simp: is_pad_file_def target_path_def names_pad_def file_stem_def)

lemma target_path_group: "grp \<noteq> [] \<Longrightarrow> group_of_path (target_path grp aid) = grp"
  by (simp add: target_path_def group_of_path_def)

definition one_file :: "string \<Rightarrow> 't pad_store \<Rightarrow> bool" where
  "one_file aid st \<longleftrightarrow> (\<forall>p \<in> set (pad_paths st). \<forall>q \<in> set (pad_paths st).
     names_pad aid p \<longrightarrow> names_pad aid q \<longrightarrow> p = q)"

text \<open>The store a write leaves: the new file, less the one it replaces.\<close>

definition written_store :: "pad_path \<Rightarrow> 't \<Rightarrow> pad_path option \<Rightarrow> 't pad_store \<Rightarrow> 't pad_store" where
  "written_store place t existing st =
     (let written = put_pad_file place t st in
      reindex (place # (case existing of Some p \<Rightarrow> [p] | None \<Rightarrow> []))
        (case existing of Some p \<Rightarrow> if p \<noteq> place then drop_file p written else written | None \<Rightarrow> written))"

lemma written_store_text: "text_of (written_store place t existing st) place = t"
  by (auto simp: written_store_def text_of_def reindex_def put_pad_file_def drop_file_def Let_def
      update_conv' delete_conv' split: option.splits)

lemma keys_delete: "fst ` set (AList.delete k d) = fst ` set d - {k}"
  by (metis delete_keys list.set_map set_removeAll)

lemma written_store_files:
  "fst ` set (pad_files (written_store place t existing st)) =
     insert place (fst ` set (pad_files st) - (case existing of Some p \<Rightarrow> {p} | None \<Rightarrow> {}))"
  by (auto simp: written_store_def reindex_def put_pad_file_def drop_file_def Let_def dom_update
      keys_delete split: option.splits)

lemma written_store_path:
  assumes one: "one_file aid st"
  shows "path_for (written_store (target_path grp aid) t (path_for st aid) st) aid = Some (target_path grp aid)"
proof -
  let ?place = "target_path grp aid" and ?st = "written_store (target_path grp aid) t (path_for st aid) st"
  have "?place \<in> set (pad_paths ?st)" by (simp add: mem_pad_paths written_store_files)
  moreover have "y = ?place" if y: "y \<in> set (pad_paths ?st)" "names_pad aid y" for y
  proof (rule ccontr)
    assume "y \<noteq> ?place"
    then have old: "y \<in> set (pad_paths st)" "path_for st aid \<noteq> Some y"
      using y(1) by (auto simp: mem_pad_paths written_store_files split: option.splits)
    then obtain p where "path_for st aid = Some p"
      using y(2) path_for_None [of st aid] by (cases "path_for st aid") auto
    then show False
      using old y(2) one path_for_Some [of st aid p] by (auto simp: one_file_def)
  qed
  ultimately show ?thesis unfolding path_for_def by (intro find_unique) auto
qed

text \<open>What a save that succeeds has done.\<close>

lemma save_pad_cases:
  assumes "save_pad dump parse s grp expected st = (Ok s', st')"
  defines "current \<equiv> current_pad s (map_option (version_of parse) (map_option (text_of st) (path_for st (artifact_id s))))"
  shows "pad_ok s' \<and> on_grid s' \<and> artifact_id s' = artifact_id s \<and>
    ((path_for st (artifact_id s) = Some (target_path grp (artifact_id s)) \<and>
      text_of st (target_path grp (artifact_id s)) = dump (to_document s') \<and> st' = st) \<or>
     st' = written_store (target_path grp (artifact_id s)) (dump (to_document s')) (path_for st (artifact_id s)) st)"
proof -
  have sel: "artifact_id current = artifact_id s" by (simp add: current_def current_pad_def)
  have "validate current = Ok ()"
    using assms(1) unfolding save_pad_def Let_def current_def [symmetric]
    by (auto split: if_splits sum.splits)
  then have ok: "pad_ok current" by (simp only: validate_iff)
  have grid: "on_grid current" by (simp add: current_def current_pad_def on_grid_def)
  have bumped: "pad_ok (current\<lparr>version := v\<rparr>)" "on_grid (current\<lparr>version := v\<rparr>)" for v
  proof -
    have "area_of (current\<lparr>version := v\<rparr>) = area_of current" by (auto simp: fun_eq_iff intro: area_of_cong)
    then show "pad_ok (current\<lparr>version := v\<rparr>)" using ok by (simp add: pad_ok_def)
    show "on_grid (current\<lparr>version := v\<rparr>)" using grid by (simp add: on_grid_def)
  qed
  show ?thesis
    using assms(1) ok grid bumped sel unfolding save_pad_def Let_def current_def [symmetric]
    by (auto simp: written_store_def Let_def split: if_splits sum.splits option.splits)
qed

lemma written_version:
  assumes "\<forall>d. parse (dump d) = d" and "document_kept s"
  shows "version_of parse (dump (to_document s)) = version s"
  using assms document_texts(4) [OF assms(2)] by (simp add: version_of_def UNSTORED_VERSION_def)

lemma save_stored_again:
  assumes parsed: "\<forall>d. parse (dump d) = d" and kept: "document_kept s" and ok: "pad_ok s"
    and path: "path_for st (artifact_id s) = Some (target_path grp (artifact_id s))"
    and held: "text_of st (target_path grp (artifact_id s)) = dump (to_document s)"
  shows "save_pad dump parse s grp (Some (version s)) st = (Ok s, st)"
proof -
  have "current_pad s (Some (version s)) = s"
    using kept by (simp add: current_pad_def document_kept_def on_grid_def)
  moreover have "validate s = Ok ()" using ok by (simp only: validate_iff)
  ultimately show ?thesis
    using written_version [of parse dump s] parsed kept by (simp add: save_pad_def path held)
qed

section \<open>The store\<close>

text \<open>
  Claim C21. A scratchpad that was saved is read back: loading its id gives what the save returned,
  in id order, it sits in the group it was saved to, and saving it again with the version it was
  returned with writes nothing. At most one file of the store names the id before the save, and the
  YAML reader gives back what the writer was given.
\<close>

theorem saved_scratchpads_are_read_back:
  assumes parsed: "\<forall>d. parse (dump d) = d" and one: "one_file (artifact_id s) st" and grp: "grp \<noteq> []"
    and saved: "save_pad dump parse s grp expected st = (Ok s', st')" and kept: "document_kept s'"
  shows "load_pad parse (artifact_id s) st' = Ok (tidied s') \<and> group_of (artifact_id s) st' = Ok grp \<and>
    save_pad dump parse s' grp (Some (version s')) st' = (Ok s', st')"
proof -
  have ok: "pad_ok s'" and aid: "artifact_id s' = artifact_id s"
    using save_pad_cases [OF saved] by blast+
  have path: "path_for st' (artifact_id s) = Some (target_path grp (artifact_id s))"
    using save_pad_cases [OF saved] written_store_path [OF one] by auto
  have held: "text_of st' (target_path grp (artifact_id s)) = dump (to_document s')"
    using save_pad_cases [OF saved] written_store_text by auto
  show ?thesis
    using from_written_parts [OF kept ok] save_stored_again [of parse dump s' st' grp] path held parsed kept ok
    by (simp add: load_pad_def group_of_def target_path_group [OF grp] aid)
qed

section \<open>Lifts that are not recorded\<close>

text \<open>A lift whose batch was committed and whose save is refused.\<close>

lemma unsaved_lift:
  assumes read: "read_pad svc aid w = Ok s" and plan: "planned_lift svc s selection targets draw (model w) = Ok plan"
    and work: "\<not> plan_blocks plan" "\<not> plan_is_empty plan"
    and run: "execute_lift (writer svc) plan (meta_ontology s) False (model w) = (Ok receipt, m)"
      "lr_committed receipt"
    and refused: "\<And>grp. \<exists>e. save_pad (yaml_dump svc) (yaml_parse svc) (realized s (lr_realized receipt)) grp
      (Some expected) (pads w) = (Err e, pads w)"
  shows "\<exists>e. lift_notes svc aid selection targets expected draw False w = (Err e, w\<lparr>model := m\<rparr>)"
proof (cases "group_of aid (pads w)")
  case (Inl e)
  then show ?thesis using read plan work run by (simp add: lift_notes_def)
next
  case (Inr grp)
  obtain e where "save_pad (yaml_dump svc) (yaml_parse svc) (realized s (lr_realized receipt)) grp
      (Some expected) (pads w) = (Err e, pads w)"
    using refused by blast
  then show ?thesis using read plan work run Inr by (simp add: lift_notes_def store_pad_def)
qed

lemma stale_save:
  assumes "path_for st (artifact_id s) = Some p" and "version_of parse (text_of st p) \<noteq> expected"
  shows "\<exists>e. save_pad dump parse s grp (Some expected) st = (Err e, st)"
  using assms by (simp add: save_pad_def)

lemma referenced_document_refused:
  assumes "n \<in> set (pad_notes s)" and "destination n = ''document''" and "note_ref n \<noteq> None"
  shows "\<exists>e. save_pad dump parse s grp expected st = (Err e, st)"
proof -
  let ?current = "current_pad s (map_option (version_of parse) (map_option (text_of st) (path_for st (artifact_id s))))"
  have "\<not> note_ok n" using assms by (auto simp: note_ok_def)
  moreover have "n \<in> set (pad_notes ?current)" using assms(1) by (simp add: current_pad_def)
  ultimately have "\<not> pad_ok ?current" using pad_ok_note_ok by blast
  then obtain e where "validate ?current = Err e"
    using validate_iff [of ?current] by (cases "validate ?current") auto
  then show ?thesis by (simp add: save_pad_def Let_def)
qed

text \<open>
  Claim C36. A lift that creates a document is never recorded. Its batch is committed, the document
  note is given a model reference, the aggregate admits a reference only on an element, and the save
  is refused: the model holds what was lifted, the call fails, and no note of the scratchpad, of
  whatever kind, says what it became.
\<close>

theorem lifted_documents_are_never_recorded:
  assumes read: "read_pad svc aid w = Ok s" and plan: "planned_lift svc s selection targets draw (model w) = Ok plan"
    and work: "\<not> plan_blocks plan" "\<not> plan_is_empty plan"
    and committed: "execute_lift (writer svc) plan (meta_ontology s) False (model w) = (Ok receipt, m)"
      "lr_committed receipt"
    and document: "n \<in> set (pad_notes s)" "destination n = ''document''" "truthy (lr_realized receipt (note_id n))"
  shows "(\<exists>e. lift_notes svc aid selection targets expected draw False w = (Err e, w\<lparr>model := m\<rparr>)) \<and>
    read_pad svc aid (w\<lparr>model := m\<rparr>) = Ok s"
proof
  let ?n = "realized_note (lr_realized receipt) n"
  have "?n \<in> set (pad_notes (realized s (lr_realized receipt)))" using document(1) by (simp add: realized_def)
  moreover have "destination ?n = ''document''" using document(2) by simp
  moreover have "note_ref ?n \<noteq> None" using document(3) by (intro realized_note_ref) simp
  ultimately show "\<exists>e. lift_notes svc aid selection targets expected draw False w = (Err e, w\<lparr>model := m\<rparr>)"
    by (intro unsaved_lift [OF read plan work committed] referenced_document_refused)
  show "read_pad svc aid (w\<lparr>model := m\<rparr>) = Ok s" using read by (simp add: read_pad_def)
qed

text \<open>
  A lift made against a version that is no longer stored is written all the same: the
  version is compared only when the scratchpad is saved, after the batch was committed.
\<close>

theorem stale_lift_is_written_all_the_same:
  assumes read: "read_pad svc aid w = Ok s" and plan: "planned_lift svc s selection targets draw (model w) = Ok plan"
    and work: "\<not> plan_blocks plan" "\<not> plan_is_empty plan"
    and committed: "execute_lift (writer svc) plan (meta_ontology s) False (model w) = (Ok receipt, m)"
      "lr_committed receipt"
    and stale: "path_for (pads w) (artifact_id s) = Some p"
      "version_of (yaml_parse svc) (text_of (pads w) p) \<noteq> expected"
  shows "\<exists>e. lift_notes svc aid selection targets expected draw False w = (Err e, w\<lparr>model := m\<rparr>)"
  by (intro unsaved_lift [OF read plan work committed] stale_save) (use stale in \<open>simp_all add: realized_def\<close>)

text \<open>
  Claim C37. A lift whose batch is refused has created its projects all the same: they are registered
  one by one before the batch is written, and nothing takes them back.
\<close>

theorem refused_lift_keeps_its_projects:
  assumes read: "read_pad svc aid w = Ok s" and plan: "planned_lift svc s selection targets draw (model w) = Ok plan"
    and work: "\<not> plan_blocks plan" "\<not> plan_is_empty plan"
    and projects: "create_projects (writer svc) (meta_ontology s) (lp_targets plan) (model w) = (Ok (), m)"
    and refused: "write_batch (writer svc) (map batch_item_of (filter in_batch (plan_of plan WouldCreate))) False m =
      (Ok answer, m)" "\<not> ba_committed answer"
  shows "\<exists>receipt. lift_notes svc aid selection targets expected draw False w = (Ok (plan, receipt), w\<lparr>model := m\<rparr>) \<and>
    \<not> lr_committed receipt"
proof -
  let ?receipt = "receipt_of answer (plan_of plan WouldCreate)"
  have "\<not> lr_committed ?receipt" using refused(2) by (simp add: receipt_of_def split: prod.splits)
  moreover from this have "execute_lift (writer svc) plan (meta_ontology s) False (model w) = (Ok ?receipt, m)"
    using work(2) projects refused(1) by (simp add: execute_lift_def plan_is_empty_def Let_def split: option.splits)
  ultimately show ?thesis using read plan work by (simp add: lift_notes_def)
qed

section \<open>A sample service\<close>

text \<open>The texts of the sample are the documents themselves, and its model repository counts what is written.\<close>

definition counting_ports :: "bool \<Rightarrow> (unit, nat) model_ports" where
  "counting_ports accepts =
     \<lparr>project_ontology = (\<lambda>m grp. None), register_project = (\<lambda>grp name about ontology m. (Ok (), m + 1)),
      write_batch = (\<lambda>items dry_run m.
        (Ok \<lparr>ba_rows = map (\<lambda>i. \<lparr>br_error = [], br_artifact = ''NEW@1''\<rparr>) items, ba_committed = accepts,
             ba_operation = []\<rparr>, if accepts then m + length items else m)),
      write_diagram = (\<lambda>request m. (Ok ''DIA@1'', m + 1))\<rparr>"

definition sample_service :: "bool \<Rightarrow> (pad_document, unit, nat) pad_service" where
  "sample_service accepts = \<lparr>yaml_dump = (\<lambda>d. d), yaml_parse = (\<lambda>d. d), ontologies = [],
     writer = counting_ports accepts\<rparr>"

definition sample_pad_store :: "pad_document pad_store" where
  "sample_pad_store = \<lparr>pad_files = [([''work'', ''PAD@1.scratchpad.yaml''], to_document lift_pad_sample)],
     pads_reindexed = []\<rparr>"

definition sample_world :: "(pad_document, nat) pad_world" where
  "sample_world = \<lparr>pads = sample_pad_store, model = 0\<rparr>"

lemma sample_kept: "document_kept lift_pad_sample"
proof -
  have "snapped empty_layout = empty_layout" by (auto simp: snapped_def empty_layout_def)
  moreover have "pad_layout lift_pad_sample = empty_layout" by (simp add: lift_pad_sample_def)
  ultimately have "on_grid lift_pad_sample" by (simp add: on_grid_def)
  then show ?thesis
    by (simp add: document_kept_def note_kept_def link_kept_def ref_kept_def finite_layout_def lift_sample_defs
        DESTINATIONS_def)
qed

lemma sample_tidied: "tidied lift_pad_sample = lift_pad_sample"
  by (simp add: tidied_def lift_sample_defs)

lemma sample_path: "path_for sample_pad_store ''PAD@1'' = Some [''work'', ''PAD@1.scratchpad.yaml'']"
proof -
  have "List.find (names_pad ''PAD@1'') (sort (filter is_pad_file [[''work'', ''PAD@1.scratchpad.yaml'']])) =
      Some [''work'', ''PAD@1.scratchpad.yaml'']" by code_simp
  then show ?thesis by (simp only: path_for_def pad_paths_def sample_pad_store_def pad_store.simps list.map fst_conv)
qed

lemma sample_text: "text_of sample_pad_store [''work'', ''PAD@1.scratchpad.yaml''] = to_document lift_pad_sample"
  by (simp add: text_of_def sample_pad_store_def)

lemma sample_read: "read_pad (sample_service accepts) ''PAD@1'' sample_world = Ok lift_pad_sample"
  using from_written_parts [OF sample_kept lift_sample_ok]
  by (simp add: read_pad_def load_pad_def sample_service_def sample_world_def sample_path sample_text sample_tidied)

definition document_plan :: lift_plan where
  "document_plan = (case planned_lift (sample_service True) lift_pad_sample [''a'', ''d''] [(''unfiled'', ''q3'')] False 0 of
     Inr p \<Rightarrow> p | Inl _ \<Rightarrow> lift_sample_plan)"

lemma document_planned:
  "planned_lift (sample_service True) lift_pad_sample [''a'', ''d''] [(''unfiled'', ''q3'')] False 0 = Ok document_plan"
  "planned_lift (sample_service False) lift_pad_sample [''a'', ''d''] [(''unfiled'', ''q3'')] False 0 = Ok document_plan"
  by code_simp+

lemma document_plan_work: "\<not> plan_blocks document_plan" "\<not> plan_is_empty document_plan"
  by code_simp+

definition sample_receipt :: lift_receipt where
  "sample_receipt = (case execute_lift (counting_ports True) document_plan ''archimate-4'' False 0 of
     (Inr r, _) \<Rightarrow> r | _ \<Rightarrow> no_receipt)"

lemma document_executed:
  "execute_lift (writer (sample_service True)) document_plan (meta_ontology lift_pad_sample) False (model sample_world) =
     (Ok sample_receipt, 3)"
proof -
  have mo: "meta_ontology lift_pad_sample = ''archimate-4''" by code_simp
  have "is_ok (fst (execute_lift (counting_ports True) document_plan ''archimate-4'' False 0))" by code_simp
  moreover have "snd (execute_lift (counting_ports True) document_plan ''archimate-4'' False 0) = 3" by code_simp
  ultimately show ?thesis
    unfolding mo by (cases "execute_lift (counting_ports True) document_plan ''archimate-4'' False 0")
      (auto simp: sample_receipt_def sample_service_def sample_world_def is_ok_iff)
qed

lemma saved_scratchpads_are_read_back_witness:
  "load_pad (\<lambda>d. d) ''PAD@1'' sample_pad_store = Ok lift_pad_sample \<and> group_of ''PAD@1'' sample_pad_store = Ok ''work'' \<and>
   save_pad (\<lambda>d. d) (\<lambda>d. d) lift_pad_sample ''work'' (Some ''0.1.0'') sample_pad_store = (Ok lift_pad_sample, sample_pad_store)"
proof -
  have aid: "artifact_id lift_pad_sample = ''PAD@1''" "version lift_pad_sample = ''0.1.0''" by code_simp+
  have "target_path ''work'' ''PAD@1'' = [''work'', ''PAD@1.scratchpad.yaml'']" by code_simp
  then have "save_pad (\<lambda>d. d) (\<lambda>d. d) lift_pad_sample ''work'' (Some ''0.1.0'') sample_pad_store =
      (Ok lift_pad_sample, sample_pad_store)"
    using save_stored_again [of "\<lambda>d. d" "\<lambda>d. d" lift_pad_sample sample_pad_store "''work''"] sample_kept lift_sample_ok
    by (simp add: aid sample_path sample_text)
  moreover have "one_file (artifact_id lift_pad_sample) sample_pad_store"
    by (auto simp: one_file_def pad_paths_def sample_pad_store_def)
  ultimately show ?thesis
    using saved_scratchpads_are_read_back [of "\<lambda>d. d" "\<lambda>d. d" lift_pad_sample sample_pad_store "''work''"]
      sample_kept aid sample_tidied by auto
qed

lemma lifted_documents_are_never_recorded_witness:
  "(\<exists>e. lift_notes (sample_service True) ''PAD@1'' [''a'', ''d''] [(''unfiled'', ''q3'')] ''0.1.0'' False False sample_world =
      (Err e, sample_world\<lparr>model := 3\<rparr>)) \<and>
   read_pad (sample_service True) ''PAD@1'' (sample_world\<lparr>model := 3\<rparr>) = Ok lift_pad_sample"
proof (rule lifted_documents_are_never_recorded [OF sample_read])
  show "planned_lift (sample_service True) lift_pad_sample [''a'', ''d''] [(''unfiled'', ''q3'')] False
      (model sample_world) = Ok document_plan"
    using document_planned by (simp add: sample_world_def)
  show "lr_committed sample_receipt" by code_simp
  show "document_note \<in> set (pad_notes lift_pad_sample)" by (simp add: lift_pad_sample_def)
  show "destination document_note = ''document''" by (simp add: document_note_def)
  show "truthy (lr_realized sample_receipt (note_id document_note))" by code_simp
qed (rule document_plan_work document_executed)+

lemma stale_lift_is_written_all_the_same_witness:
  "\<exists>e. lift_notes (sample_service True) ''PAD@1'' [''a'', ''d''] [(''unfiled'', ''q3'')] ''0.0.9'' False False sample_world =
     (Err e, sample_world\<lparr>model := 3\<rparr>)"
proof (rule stale_lift_is_written_all_the_same [OF sample_read])
  show "planned_lift (sample_service True) lift_pad_sample [''a'', ''d''] [(''unfiled'', ''q3'')] False
      (model sample_world) = Ok document_plan"
    using document_planned by (simp add: sample_world_def)
  show "lr_committed sample_receipt" by code_simp
  have "artifact_id lift_pad_sample = ''PAD@1''" by code_simp
  then show "path_for (pads sample_world) (artifact_id lift_pad_sample) = Some [''work'', ''PAD@1.scratchpad.yaml'']"
    by (simp add: sample_world_def sample_path)
  have "version_of (\<lambda>d. d) (to_document lift_pad_sample) = ''0.1.0''"
    using written_version [of "\<lambda>d. d" "\<lambda>d. d" lift_pad_sample] sample_kept by (simp add: lift_sample_defs)
  then show "version_of (yaml_parse (sample_service True)) (text_of (pads sample_world)
      [''work'', ''PAD@1.scratchpad.yaml'']) \<noteq> ''0.0.9''"
    by (simp add: sample_world_def sample_service_def sample_text)
qed (rule document_plan_work document_executed)+

lemma refused_lift_keeps_its_projects_witness:
  "\<exists>receipt. lift_notes (sample_service False) ''PAD@1'' [''a'', ''d''] [(''unfiled'', ''q3'')] ''0.1.0'' False False
      sample_world = (Ok (document_plan, receipt), sample_world\<lparr>model := 1\<rparr>) \<and> \<not> lr_committed receipt"
proof (rule refused_lift_keeps_its_projects [OF sample_read])
  show "planned_lift (sample_service False) lift_pad_sample [''a'', ''d''] [(''unfiled'', ''q3'')] False
      (model sample_world) = Ok document_plan"
    using document_planned by (simp add: sample_world_def)
  have "create_projects (counting_ports False) ''archimate-4'' (lp_targets document_plan) 0 = (Ok (), 1)" by code_simp
  then show "create_projects (writer (sample_service False)) (meta_ontology lift_pad_sample) (lp_targets document_plan)
      (model sample_world) = (Ok (), 1)"
    by (simp add: sample_service_def sample_world_def lift_sample_defs)
  show "write_batch (writer (sample_service False)) (map batch_item_of (filter in_batch (plan_of document_plan WouldCreate)))
      False 1 = (Ok \<lparr>ba_rows = map (\<lambda>i. \<lparr>br_error = [], br_artifact = ''NEW@1''\<rparr>)
        (map batch_item_of (filter in_batch (plan_of document_plan WouldCreate))), ba_committed = False, ba_operation = []\<rparr>, 1)"
    by (simp add: sample_service_def counting_ports_def)
  show "\<not> ba_committed \<lparr>ba_rows = map (\<lambda>i. \<lparr>br_error = [], br_artifact = ''NEW@1''\<rparr>)
        (map batch_item_of (filter in_batch (plan_of document_plan WouldCreate))), ba_committed = False, ba_operation = []\<rparr>"
    by simp
qed (rule document_plan_work)+

end
