(* ===== verification/Spec2Isabelle.thy ===== *)
theory Spec2Isabelle
  imports Scratchpad_Properties Link_Verdict Derivation_Properties Module_Registry_Properties Read_Cache
    Reachability_Properties Mediation Concept_Scope Change_Reconciliation_Properties Index_Lock
    Query_Disagreements Query_Execution
    Update_Gui Update_Crashes Update_Lock Upgrade_Properties
    Scratchpad_Document_Properties Scratchpad_Service_Properties
begin

text \<open>
  \<^bold>\<open>Architectonic: a verified model of the program's core.\<close>

  Architectonic keeps enterprise-architecture models as text files in git repositories and serves them through
  REST, MCP and a browser front end. The program is Python (\<^verbatim>\<open>src/\<close>): a \<^verbatim>\<open>domain\<close> layer of immutable values and pure
  functions, an \<^verbatim>\<open>application\<close> layer of use cases over ports, and an \<^verbatim>\<open>infrastructure\<close> layer of stores, git and
  transports. Modelled is the part in which the program's own decisions are made: the scratchpad with its documents and its lift into the model, the ontology
  vocabulary with the derivation of relationships, viewpoint queries, the workflow of proposed changes with its
  git-backed submission, the gates that order mutations, the update of the software itself with its rollback, and
  the format upgrade of a deployment.

  \<^bold>\<open>How the code is read.\<close> A dataclass is a record or a datatype with the source's fields and cases; a method that
  returns a changed copy is a function to a \<open>result\<close>, whose left summand is the exception the source raises; a
  dictionary is an association list where its order is read and a partial map where it is not; an operation on a store,
  a file or a repository passes the state explicitly. Texts of messages are left out where they carry no
  decision. Everything terminates by structure or by a measure; no definition needs fuel. Python's
  integers are unbounded, so no width is modelled; a \<^verbatim>\<open>str\<close> is a list of \<^typ>\<open>char\<close>, which covers the code points 0 to
  255; a finite float stands for its exact value.

  \<^bold>\<open>The parts and their theories.\<close>

  \<^item> \<^emph>\<open>Shared\<close>: \<open>Prelude\<close> (results, strings, list lemmas), \<open>Py_Values\<close> (objects at a parse boundary), \<open>Aggregate\<close> (the
    contract of a self-validating aggregate), \<open>Lock_Discipline\<close> (the contract of a condition-variable lock).

  \<^item> \<^emph>\<open>Scratchpad\<close> (\<^verbatim>\<open>domain/scratchpad\<close>): \<open>Scratchpad_Parts\<close> (with the canvas geometry), \<open>Scratchpad_Invariants\<close> and
    \<open>Scratchpad_Root\<close> hold the aggregate and all its writes; \<open>Scratchpad_Laws\<close> interprets \<open>Aggregate\<close> on it and
    \<open>Scratchpad_Properties\<close> states that sessions keep it coherent. \<open>Link_Verdict\<close> judges a drawn link against the ontology.

  \<^item> \<^emph>\<open>Scratchpad documents, store and lift\<close> (\<^verbatim>\<open>application/scratchpad\<close>, \<^verbatim>\<open>infrastructure/scratchpad\<close>):
    \<open>Scratchpad_Document\<close> writes, reads and serves the document of an aggregate, \<open>Scratchpad_Edit\<close> applies an edit given as a
    delta, \<open>Scratchpad_Store\<close> files documents under their versions, \<open>Lift_Plan\<close> decides what a lift would write,
    \<open>Lift_Writer\<close> turns a plan into one batch and its answer into a receipt, and \<open>Scratchpad_Service\<close> is the use case over
    all of them. \<open>Scratchpad_Round_Trip\<close> holds the shared facts; \<open>Scratchpad_Document_Properties\<close>,
    \<open>Lift_Properties\<close> and \<open>Scratchpad_Service_Properties\<close> say what a reader gets back, what a lift creates and what it leaves
    when it is refused.

  \<^item> \<^emph>\<open>Ontology and modules\<close> (\<^verbatim>\<open>domain/ontology_representation\<close>, \<^verbatim>\<open>domain/modules\<close>, \<^verbatim>\<open>domain/concept_scope.py\<close>):
    \<open>Ontology_Types\<close>, \<open>Ontology_Modules\<close> (with specializations), \<open>Concept_Scope\<close>, and in \<open>Module_Registry\<close> the sealing builder and
    the live registry, whose agreement \<open>Module_Registry_Properties\<close> proves from one locale interpreted four times.

  \<^item> \<^emph>\<open>Derivation\<close> (\<^verbatim>\<open>domain/relationships\<close>): \<open>Derivation_Rules\<close> parses rules, \<open>Derivation\<close> composes two relations and
    folds chains, \<open>Path_Reconstruction\<close> replays a recorded path, \<open>Reachability\<close> is the bounded search (terminating by the
    multiset of hops its queue has left), \<open>Read_Cache\<close> the memoised reads, \<open>Mediation\<close> the
    intermediates that carry a relationship on. The properties say what a derived relationship may claim, that the
    set answers its request, and that every path key replays to the relationship it names.

  \<^item> \<^emph>\<open>Viewpoint queries\<close> (\<^verbatim>\<open>domain/viewpoints\<close>, \<^verbatim>\<open>application/viewpoints\<close>): \<open>Query_Values\<close> is Python's comparison of
    attribute values, \<open>Criteria\<close> the condition trees with parser and writer, \<open>Criteria_Evaluation\<close> their meaning (the
    derived traversals call \<open>Reachability\<close>), \<open>Criteria_Validation\<close> the check before saving, \<open>Query_Types\<close> the types of
    bindings, \<open>Query_Bindings\<close> what is bound before evaluation, \<open>Query_Population\<close> and
    \<open>Query_Execution\<close> the displayed population and the limited result. \<open>Criteria_Round_Trip\<close>, \<open>Criteria_Properties\<close>,
    \<open>Criteria_Safety\<close>, \<open>Query_Types_Properties\<close>, \<open>Query_Bindings_Properties\<close> and \<open>Query_Population_Properties\<close> hold what is
    promised; \<open>Query_Disagreements\<close> holds where two parts read one query differently.

  \<^item> \<^emph>\<open>Proposed changes\<close> (\<^verbatim>\<open>application/modeling\<close>, \<^verbatim>\<open>infrastructure/write/artifact_write\<close>): \<open>Change_Records\<close> and
    \<open>Proposals\<close> are the records, their wire form and the standing of an artifact; \<open>Change_Recording\<close> the pure decisions;
    \<open>Change_Store\<close> the operations that write records. \<open>Change_Lifecycle\<close> states the abstract lifecycle of a change and
    proves every operation a refinement of it; \<open>Change_Lifecycle_Properties\<close> lifts this to runs.

  \<^item> \<^emph>\<open>Submission\<close> (\<^verbatim>\<open>infrastructure/git\<close>): \<open>Sync_State\<close> is the state file of the enterprise branch, \<open>Submission_Saga\<close> the
    steps that publish a set and survive a crash between them, \<open>Branch_Lifecycle\<close> the working branch,
    \<open>Change_Submission\<close> the use case over all of these, \<open>Change_Reconciliation\<close> what startup, cleanup, republication and
    rebase do afterwards; the \<open>_Properties\<close> theories follow one submission through store, file and remote.

  \<^item> \<^emph>\<open>Who may write, and when\<close> (\<^verbatim>\<open>application/mutation_policy.py\<close>, \<^verbatim>\<open>infrastructure/workspace\<close>): \<open>Mutation_Policy\<close> decides and
    executes, \<open>Mutation_Gate\<close> is the process-wide gate and \<open>Index_Lock\<close> the lock of the artifact index, both as atomic
    actions of interleaved activations with reachability and invariants over every run.

  \<^item> \<^emph>\<open>Software update\<close> (\<^verbatim>\<open>application/software_update\<close>, \<^verbatim>\<open>infrastructure/software_update\<close>, \<^verbatim>\<open>infrastructure/cli\<close>):
    \<open>Update_Release\<close> checks a published release, \<open>Update_Planning\<close> decides, \<open>Update_Journal\<close> is the record both processes of an
    update read, \<open>Update_Phases\<close> runs phases and reversals over a port of actions, \<open>Update_Commands\<close> is commit, resume and
    rollback, \<open>Update_Gui\<close> the served directory and \<open>Update_Lock\<close> the lock with processes that interleave.
    \<open>Update_Rollback\<close> states what the port promises and what a journal knows of the deployment, \<open>Update_Properties\<close>
    and \<open>Update_Gui\<close> conclude what an update leaves; \<open>Update_Crashes\<close> runs the same phases as atomic steps among
    which processes die, and shows the runner a sequence of them.

  \<^item> \<^emph>\<open>Format upgrade\<close> (\<^verbatim>\<open>application/deployment_upgrade\<close>, \<^verbatim>\<open>application/repository_upgrade\<close>): \<open>Upgrade_Reports\<close> are findings,
    reports and checkpoint sets, \<open>Upgrade_Ordering\<close> the order of targets, \<open>Upgrade_Targets\<close>
    evaluates and applies, \<open>Upgrade_Command\<close> is the commit of \<^verbatim>\<open>arch-repair upgrade\<close>; \<open>Upgrade_Properties\<close> says what it
    writes when it is blocked, fails or finds nothing, and how the software update reads its status.

  \<^bold>\<open>How the parts meet.\<close> A mutation is authorised (\<open>Mutation_Policy\<close>) and runs inside the gate (\<open>Mutation_Gate\<close>), which
  refuses a thread that holds the index lock (\<open>Index_Lock\<close>). An edit of a promoted artifact becomes a change record
  (\<open>Change_Store\<close>); a submission composes drafts, replays them on the branch, publishes through the saga and only
  then marks them; the next start reconciles what a crash left. A query is parsed, validated and
  executed over the same store the derivation search reads. An update runs the format upgrade as one of its phases and
  knows of it only the exit status and the checkpoint set. A lift is planned from an aggregate and the verdicts of its
  links (\<open>Link_Verdict\<close>), hands the model one batch, and only then saves the scratchpad with the identifiers it was given.

  \<^bold>\<open>Parameters.\<close> What is not under \<^verbatim>\<open>src/\<close> or is reached through a port is an argument: the git commands
  (a record \<open>git_client\<close> over an abstract state), verification and the write path of a replay, what upstream says, the
  clock, the allocation of identifiers, the resolution of paths, the store of entities and connections, the signal
  capability, the actions of an update and the steps of an upgrade (records of functions over an abstract state), the text
  functions of YAML, the group registry, batch writer and diagram writer a lift calls, the sentences of a verdict, and
  the parts of Python's library that round, hash or consult tables. Hypotheses about
  them are named in the statements, and each such statement has an instance on concrete functions.

  \<^bold>\<open>Not modelled.\<close> Reading and printing YAML, JSON and Markdown; the front end; REST, MCP and CLI routing;
  embeddings and SQLite; PlantUML and document rendering; assurance analyses; the rewrites of the upgrade steps, the
  layout of a deployment, its observation and import feeds: these are I/O, content, or wiring over third-party libraries. Of viewpoints the styles, the trace tables
  and the storing of definitions are left out; of the scratchpad the index of its notes and the
  documents of summaries and lift reports; of git the synchronisation with a remote between submissions.
\<close>

end
